(* ===== verification/Pox_Prelude.thy ===== *)
theory Pox_Prelude
  imports Main "HOL-Library.Word"
begin

text \<open>
  Shared vocabulary of the development: the exceptions the Python code raises as values of
  \<open>py_error\<close>, the result type \<open>'a res\<close> (an exception or a value), its sequencing
  \<open>rbind\<close>, byte strings as lists of 8-bit words, Python's slices on them, the
  \<open>ljust\<close>/\<open>replace\<close> idiom used for fixed-width names, and the decimal and
  hexadecimal printing of integers.  Python's unbounded integers are \<open>int\<close>.
  When a method raises, the model keeps the exception and drops the partial updates of
  the object, which every caller in the modelled code discards as well.
\<close>

named_theorems res_simps \<comment> \<open>inversion of sequenced results\<close>
named_theorems wire_simps \<comment> \<open>unfolding of packing and unpacking\<close>

section \<open>Exceptions and results\<close>

datatype py_error = StructError | RuntimeError | AssertionError | TypeError | AttributeError
  | NotImplementedError | IndexError | KeyError | ValueError | NameError | SocketError
  | VNSProtocolException | SystemExit

type_synonym 'a res = "py_error + 'a"

text \<open>The number of a switch\<close>

type_synonym dpid = int

definition rbind :: "'a res \<Rightarrow> ('a \<Rightarrow> 'b res) \<Rightarrow> 'b res" where
  "rbind m f = (case m of Inl e \<Rightarrow> Inl e | Inr x \<Rightarrow> f x)"

definition rmap :: "('a \<Rightarrow> 'b) \<Rightarrow> 'a res \<Rightarrow> 'b res" where
  "rmap f m = (case m of Inl e \<Rightarrow> Inl e | Inr x \<Rightarrow> Inr (f x))"

definition is_ok :: "'a res \<Rightarrow> bool" where
  "is_ok m = (case m of Inl _ \<Rightarrow> False | Inr _ \<Rightarrow> True)"

text \<open>Using \<open>None\<close> where an object is needed: the exception is the caller's.\<close>

definition need :: "py_error \<Rightarrow> 'a option \<Rightarrow> 'a res" where
  "need e v = (case v of None \<Rightarrow> Inl e | Some x \<Rightarrow> Inr x)"

text \<open>An \<open>assert\<close> statement or a guard that raises.\<close>

definition guard_or :: "py_error \<Rightarrow> bool \<Rightarrow> unit res" where
  "guard_or e b = (if b then Inr () else Inl e)"

text \<open>A \<open>for\<close> loop that maps a fallible step over a list; the first exception wins.\<close>

fun rmapM :: "('a \<Rightarrow> 'b res) \<Rightarrow> 'a list \<Rightarrow> 'b list res" where
  "rmapM f [] = Inr []"
| "rmapM f (x # xs) = rbind (f x) (\<lambda>y. rmap ((#) y) (rmapM f xs))"

lemma rbind_Inl [simp]: "rbind (Inl e) f = Inl e"
  by (simp add: rbind_def)

lemma rbind_Inr [simp]: "rbind (Inr x) f = f x"
  by (simp add: rbind_def)

lemma rmap_Inl [simp]: "rmap f (Inl e) = Inl e"
  by (simp add: rmap_def)

lemma rmap_Inr [simp]: "rmap f (Inr x) = Inr (f x)"
  by (simp add: rmap_def)

lemma rbind_eq_Inr [res_simps]: "rbind m f = Inr y \<longleftrightarrow> (\<exists>x. m = Inr x \<and> f x = Inr y)"
  by (cases m) simp_all

lemma rbind_eq_Inl [res_simps]:
  "rbind m f = Inl e \<longleftrightarrow> m = Inl e \<or> (\<exists>x. m = Inr x \<and> f x = Inl e)"
  by (cases m) auto

lemma rmap_eq_Inr [res_simps]: "rmap f m = Inr y \<longleftrightarrow> (\<exists>x. m = Inr x \<and> y = f x)"
  by (cases m) auto

lemma rmap_eq_Inl [res_simps]: "rmap f m = Inl e \<longleftrightarrow> m = Inl e"
  by (cases m) auto

lemma need_eq_Inr [res_simps]: "need e v = Inr x \<longleftrightarrow> v = Some x"
  by (cases v) (auto simp: need_def)

lemma need_Some [simp]: "need e (Some x) = Inr x"
  by (simp add: need_def)

lemma need_None [simp]: "need e None = Inl e"
  by (simp add: need_def)

lemma guard_or_True [simp]: "guard_or e True = Inr ()"
  by (simp add: guard_or_def)

lemma guard_or_False [simp]: "guard_or e False = Inl e"
  by (simp add: guard_or_def)

lemma guard_or_eq_Inr [res_simps]: "guard_or e b = Inr u \<longleftrightarrow> b"
  by (simp add: guard_or_def)

lemma is_ok_iff: "is_ok m \<longleftrightarrow> (\<exists>x. m = Inr x)"
  by (cases m) (auto simp: is_ok_def)

lemma is_ok_simps [simp]: "is_ok (Inr x)" "\<not> is_ok (Inl e)"
  by (simp_all add: is_ok_def)

lemma rbind_cong [fundef_cong]:
  "m = m' \<Longrightarrow> (\<And>x. m' = Inr x \<Longrightarrow> f x = g x) \<Longrightarrow> rbind m f = rbind m' g"
  by (cases m') simp_all

lemma rbind_assoc: "rbind (rbind m f) g = rbind m (\<lambda>x. rbind (f x) g)"
  by (cases m) simp_all

lemma rmapM_length: "rmapM f xs = Inr ys \<Longrightarrow> length ys = length xs"
  by (induction xs arbitrary: ys) (auto simp: res_simps)

lemma rmapM_append:
  "rmapM f (xs @ ys) = rbind (rmapM f xs) (\<lambda>us. rmap ((@) us) (rmapM f ys))"
proof (induction xs)
  case Nil
  show ?case by (cases "rmapM f ys") simp_all
next
  case (Cons x xs)
  then show ?case
    by (cases "f x"; cases "rmapM f xs"; cases "rmapM f ys") simp_all
qed

lemma rmapM_all_ok: "(\<And>x. x \<in> set xs \<Longrightarrow> is_ok (f x)) \<Longrightarrow> is_ok (rmapM f xs)"
proof (induction xs)
  case Nil
  show ?case by simp
next
  case (Cons x xs)
  then have "is_ok (f x)" "is_ok (rmapM f xs)" by simp_all
  then obtain y ys where "f x = Inr y" "rmapM f xs = Inr ys"
    unfolding is_ok_iff by blast
  then show ?case by simp
qed

section \<open>Byte strings\<close>

type_synonym byte = "8 word"
type_synonym bytes = "byte list"

text \<open>Python's \<open>b[i:j]\<close> for \<open>0 \<le> i\<close>: out-of-range bounds are clamped, never an error.\<close>

definition bslice :: "nat \<Rightarrow> nat \<Rightarrow> 'a list \<Rightarrow> 'a list" where
  "bslice i j b = take (j - i) (drop i b)"

text \<open>\<open>s.ljust(n, '\\0')\<close> and \<open>s.replace('\\0', '')\<close>.\<close>

definition ljust0 :: "nat \<Rightarrow> bytes \<Rightarrow> bytes" where
  "ljust0 n s = s @ replicate (n - length s) 0"

definition strip0 :: "bytes \<Rightarrow> bytes" where
  "strip0 s = filter (\<lambda>c. c \<noteq> 0) s"

definition zeros :: "nat \<Rightarrow> bytes" where
  "zeros n = replicate n 0"

lemma length_zeros [simp]: "length (zeros n) = n"
  by (simp add: zeros_def)

lemma zeros_numeral: "zeros (numeral k) = 0 # zeros (pred_numeral k)"
  by (simp add: zeros_def numeral_eq_Suc)

lemma zeros_0 [simp]: "zeros 0 = []" "zeros (Suc n) = 0 # zeros n"
  by (simp_all add: zeros_def)

lemma length_ljust0: "length (ljust0 n s) = max n (length s)"
  by (simp add: ljust0_def)

lemma length_ljust0_le [simp]: "length s \<le> n \<Longrightarrow> length (ljust0 n s) = n"
  by (simp add: length_ljust0)

lemma strip0_ljust0: "0 \<notin> set s \<Longrightarrow> strip0 (ljust0 n s) = s"
proof -
  assume "0 \<notin> set s"
  then have "filter (\<lambda>c. c \<noteq> 0) s = s"
    by (auto intro: filter_True)
  then show ?thesis by (simp add: strip0_def ljust0_def)
qed

lemma length_bslice [simp]: "length (bslice i j b) = min (j - i) (length b - i)"
  by (simp add: bslice_def)

lemma bslice_skip: "length p \<le> i \<Longrightarrow> bslice i j (p @ q) = bslice (i - length p) (j - length p) q"
  by (simp add: bslice_def)

lemma bslice_hit: "j = length p \<Longrightarrow> bslice 0 j (p @ q) = p"
  by (simp add: bslice_def)

lemma bslice_append_mid:
  "i = length p \<Longrightarrow> j = length p + length q \<Longrightarrow> bslice i j (p @ q @ r) = q"
  by (simp add: bslice_def)

lemmas bslice_simps = bslice_skip bslice_hit

section \<open>Big-endian integers\<close>

fun be_bytes :: "nat \<Rightarrow> nat \<Rightarrow> bytes" where
  "be_bytes 0 v = []"
| "be_bytes (Suc n) v = be_bytes n (v div 256) @ [word_of_nat (v mod 256)]"

definition be_val :: "bytes \<Rightarrow> nat" where
  "be_val bs = foldl (\<lambda>a b. a * 256 + unat b) 0 bs"

lemma be_bytes_numeral:
  "be_bytes (numeral k) v = be_bytes (pred_numeral k) (v div 256) @ [word_of_nat (v mod 256)]"
  by (simp only: numeral_eq_Suc be_bytes.simps)

lemma length_be_bytes [simp]: "length (be_bytes n v) = n"
  by (induction n v rule: be_bytes.induct) simp_all

lemma be_val_Nil [simp]: "be_val [] = 0"
  by (simp add: be_val_def)

lemma be_val_snoc [simp]: "be_val (bs @ [b]) = be_val bs * 256 + unat b"
  by (simp add: be_val_def)

lemma unat_byte_mod [simp]: "unat (word_of_nat (v mod 256) :: byte) = v mod 256"
  by (simp add: unat_of_nat)

lemma byte_bound [simp]: "unat (b :: byte) < 256"
  using unsigned_less [of b, where ?'a = nat] by simp

lemma be_val_be_bytes: "be_val (be_bytes n v) = v mod 256 ^ n"
proof (induction n v rule: be_bytes.induct)
  case (1 v)
  show ?case by simp
next
  case (2 n v)
  have "v mod 256 ^ Suc n = 256 * (v div 256 mod 256 ^ n) + v mod 256"
    by (simp add: mod_mult2_eq)
  with 2 show ?case by simp
qed

lemma be_val_bound: "be_val bs < 256 ^ length bs"
proof (induction bs rule: rev_induct)
  case Nil
  show ?case by simp
next
  case (snoc b bs)
  then have "be_val bs * 256 + 255 < 256 ^ length bs * 256"
    by simp
  moreover have "unat b \<le> 255" using byte_bound [of b] by linarith
  ultimately show ?case by (simp add: algebra_simps)
qed

lemma be_bytes_be_val: "be_bytes (length bs) (be_val bs) = bs"
proof (induction bs rule: rev_induct)
  case Nil
  show ?case by simp
next
  case (snoc b bs)
  have "(be_val bs * 256 + unat b) div 256 = be_val bs"
    using byte_bound [of b] by simp
  moreover have "(be_val bs * 256 + unat b) mod 256 = unat b"
    using byte_bound [of b] by simp
  ultimately show ?case using snoc by simp
qed

section \<open>Printing integers\<close>

definition digit_char :: "nat \<Rightarrow> char" where
  "digit_char d = (if d < 16 then ''0123456789abcdef'' ! d else CHR ''?'')"

fun digits_of :: "nat \<Rightarrow> nat \<Rightarrow> string" where
  "digits_of base n =
     (if base \<le> 1 \<or> n < base then [digit_char n]
      else digits_of base (n div base) @ [digit_char (n mod base)])"

declare digits_of.simps [simp del]

text \<open>\<open>str(n)\<close> and the \<open>%x\<close>, \<open>%02x\<close> conversions.\<close>

definition str_int :: "int \<Rightarrow> string" where
  "str_int i = (if i < 0 then ''-'' @ digits_of 10 (nat (- i)) else digits_of 10 (nat i))"

definition hex_int :: "int \<Rightarrow> string" where
  "hex_int i = (if i < 0 then ''-'' @ digits_of 16 (nat (- i)) else digits_of 16 (nat i))"

definition hex02 :: "byte \<Rightarrow> string" where
  "hex02 b = [digit_char (unat b div 16), digit_char (unat b mod 16)]"

text \<open>\<open>sep.join(parts)\<close>\<close>

fun join_str :: "string \<Rightarrow> string list \<Rightarrow> string" where
  "join_str sep [] = []"
| "join_str sep [x] = x"
| "join_str sep (x # y # zs) = x @ sep @ join_str sep (y # zs)"

text \<open>\<open>s.split(c)\<close> on a single separator character\<close>

fun split_on :: "char \<Rightarrow> string \<Rightarrow> string list" where
  "split_on c [] = [[]]"
| "split_on c (x # xs) =
     (if x = c then [] # split_on c xs
      else (case split_on c xs of [] \<Rightarrow> [[x]] | p # ps \<Rightarrow> (x # p) # ps))"

lemma split_on_nonempty [simp]: "split_on c s \<noteq> []"
  by (induction c s rule: split_on.induct) (auto split: list.splits)

lemma split_on_no_sep: "c \<notin> set s \<Longrightarrow> split_on c s = [s]"
  by (induction c s rule: split_on.induct) auto

lemma split_on_append:
  "c \<notin> set p \<Longrightarrow> split_on c (p @ c # s) = p # split_on c s"
  by (induction p) auto

end
