(* ===== verification/Py_Struct.thy ===== *)
theory Py_Struct
  imports Pox_Prelude
begin

text \<open>
  The part of Python's \<open>struct\<close> module the code uses: network-order (\<open>!\<close>) formats
  over the codes \<open>B H I L l Q x\<close>, with the range check that makes \<open>pack\<close> raise
  \<open>struct.error\<close>, and \<open>unpack\<close> (exact length) and \<open>unpack_from\<close> (length at
  least offset plus size).  The interface \<open>wire_codec\<close> states what a packed structure of
  the OpenFlow library promises: unpacking the packed bytes, followed by anything, gives
  the packed object and the rest; its lemmas carry the round trips to sequences.
\<close>

section \<open>Formats\<close>

datatype fmt = FB | FH | FI | FL | Fl | FQ | Fx

fun fmt_size :: "fmt \<Rightarrow> nat" where
  "fmt_size FB = 1"
| "fmt_size FH = 2"
| "fmt_size FI = 4"
| "fmt_size FL = 4"
| "fmt_size Fl = 4"
| "fmt_size FQ = 8"
| "fmt_size Fx = 1"

fun calcsize :: "fmt list \<Rightarrow> nat" where
  "calcsize [] = 0"
| "calcsize (f # fs) = fmt_size f + calcsize fs"

definition in_range :: "fmt \<Rightarrow> int \<Rightarrow> bool" where
  "in_range f v =
     (if f = Fl then - (2 ^ 31) \<le> v \<and> v < 2 ^ 31 else 0 \<le> v \<and> v < 256 ^ fmt_size f)"

definition enc :: "fmt \<Rightarrow> int \<Rightarrow> bytes" where
  "enc f v = be_bytes (fmt_size f) (nat (v mod 256 ^ fmt_size f))"

definition dec :: "fmt \<Rightarrow> bytes \<Rightarrow> int" where
  "dec f bs =
     (let n = int (be_val bs) in if f = Fl \<and> 2 ^ 31 \<le> n then n - 2 ^ 32 else n)"

fun struct_pack :: "fmt list \<Rightarrow> int list \<Rightarrow> bytes res" where
  "struct_pack [] vs = (if vs = [] then Inr [] else Inl StructError)"
| "struct_pack (f # fs) vs =
     (if f = Fx then rmap ((#) 0) (struct_pack fs vs)
      else (case vs of [] \<Rightarrow> Inl StructError
            | v # vs' \<Rightarrow> if in_range f v then rmap ((@) (enc f v)) (struct_pack fs vs')
                       else Inl StructError))"

fun dec_fields :: "fmt list \<Rightarrow> bytes \<Rightarrow> int list" where
  "dec_fields [] b = []"
| "dec_fields (f # fs) b =
     (if f = Fx then dec_fields fs (drop 1 b)
      else dec f (take (fmt_size f) b) # dec_fields fs (drop (fmt_size f) b))"

definition struct_unpack_from :: "fmt list \<Rightarrow> bytes \<Rightarrow> nat \<Rightarrow> int list res" where
  "struct_unpack_from fs b off =
     (if length b < off + calcsize fs then Inl StructError
      else Inr (dec_fields fs (drop off b)))"

definition struct_unpack :: "fmt list \<Rightarrow> bytes \<Rightarrow> int list res" where
  "struct_unpack fs b =
     (if length b = calcsize fs then Inr (dec_fields fs b) else Inl StructError)"

section \<open>Ranges and round trips\<close>

lemma length_enc [simp]: "length (enc f v) = fmt_size f"
  by (simp add: enc_def)

lemma fmt_size_pos [simp]: "0 < fmt_size f"
  by (cases f) simp_all

lemma dec_enc: "f \<noteq> Fx \<Longrightarrow> in_range f v \<Longrightarrow> dec f (enc f v) = v"
proof -
  assume f: "f \<noteq> Fx" and r: "in_range f v"
  let ?M = "256 ^ fmt_size f :: int"
  have pos: "0 < ?M" by simp
  have "nat (v mod ?M) < 256 ^ fmt_size f"
    using pos_mod_bound [OF pos, of v] by (simp add: nat_less_iff)
  then have val: "int (be_val (enc f v)) = v mod ?M"
    by (simp add: enc_def be_val_be_bytes)
  show ?thesis
  proof (cases "f = Fl")
    case True
    with r have v: "- (2 ^ 31) \<le> v" "v < 2 ^ 31" by (simp_all add: in_range_def)
    show ?thesis
    proof (cases "v < 0")
      case neg: True
      have "v mod 2 ^ 32 = (v + 2 ^ 32) mod 2 ^ 32" by simp
      also have "\<dots> = v + 2 ^ 32"
        using v neg by (intro mod_pos_pos_trivial) simp_all
      finally show ?thesis using val True v neg by (simp add: dec_def Let_def)
    next
      case False
      then have "v mod 2 ^ 32 = v" using v by (intro mod_pos_pos_trivial) simp_all
      then show ?thesis using val True v False by (simp add: dec_def Let_def)
    qed
  next
    case False
    with r have "v mod ?M = v"
      by (intro mod_pos_pos_trivial) (simp_all add: in_range_def)
    with val False show ?thesis by (simp add: dec_def Let_def)
  qed
qed

lemma dec_enc_codes [simp]:
  "in_range FB v \<Longrightarrow> dec FB (enc FB v) = v" "in_range FH v \<Longrightarrow> dec FH (enc FH v) = v"
  "in_range FI v \<Longrightarrow> dec FI (enc FI v) = v" "in_range FL v \<Longrightarrow> dec FL (enc FL v) = v"
  "in_range Fl v \<Longrightarrow> dec Fl (enc Fl v) = v" "in_range FQ v \<Longrightarrow> dec FQ (enc FQ v) = v"
  by (simp_all add: dec_enc)

lemma dec_in_range: "f \<noteq> Fx \<Longrightarrow> length b = fmt_size f \<Longrightarrow> in_range f (dec f b)"
proof -
  assume f: "f \<noteq> Fx" and l: "length b = fmt_size f"
  have b: "int (be_val b) < 256 ^ fmt_size f"
    using be_val_bound [of b] l by (metis of_nat_less_iff of_nat_numeral of_nat_power)
  then show ?thesis
    by (cases "f = Fl") (auto simp: in_range_def dec_def Let_def)
qed

lemma struct_pack_length: "struct_pack fs vs = Inr b \<Longrightarrow> length b = calcsize fs"
  by (induction fs arbitrary: vs b) (auto simp: res_simps split: if_splits list.splits)

lemma dec_fields_pack: "struct_pack fs vs = Inr b \<Longrightarrow> dec_fields fs (b @ rest) = vs"
proof (induction fs arbitrary: vs b)
  case Nil
  then show ?case by (auto split: if_splits)
next
  case (Cons f fs)
  show ?case
  proof (cases "f = Fx")
    case True
    with Cons.prems obtain b' where "struct_pack fs vs = Inr b'" "b = 0 # b'"
      by (auto simp: res_simps)
    with Cons.IH True show ?thesis by simp
  next
    case False
    with Cons.prems obtain v vs' b' where
      "vs = v # vs'" "in_range f v" "struct_pack fs vs' = Inr b'" "b = enc f v @ b'"
      by (auto simp: res_simps split: list.splits if_splits)
    with Cons.IH False show ?thesis by (simp add: dec_enc)
  qed
qed

theorem struct_unpack_from_pack:
  "struct_pack fs vs = Inr b \<Longrightarrow>
     struct_unpack_from fs (pre @ b @ rest) (length pre) = Inr vs"
  by (simp add: struct_unpack_from_def struct_pack_length dec_fields_pack)

lemma struct_unpack_from_skip [wire_simps]:
  "length p \<le> off \<Longrightarrow> struct_unpack_from fs (p @ q) off = struct_unpack_from fs q (off - length p)"
  by (auto simp: struct_unpack_from_def)

lemma struct_unpack_from_hit:
  "struct_pack fs vs = Inr b \<Longrightarrow> struct_unpack_from fs (b @ rest) 0 = Inr vs"
  using struct_unpack_from_pack [of fs vs b "[]" rest] by simp

lemma struct_unpack_pack: "struct_pack fs vs = Inr b \<Longrightarrow> struct_unpack fs b = Inr vs"
  using dec_fields_pack [of fs vs b "[]"] struct_pack_length [of fs vs b]
  by (simp add: struct_unpack_def)

lemma struct_unpack_from_short:
  "length b < off + calcsize fs \<Longrightarrow> struct_unpack_from fs b off = Inl StructError"
  by (simp add: struct_unpack_from_def)

text \<open>Packing a sequence of in-range values succeeds, and an out-of-range value raises.\<close>

lemma struct_pack_Cons_ok [wire_simps]:
  "f \<noteq> Fx \<Longrightarrow> in_range f v \<Longrightarrow>
     struct_pack (f # fs) (v # vs) = rmap ((@) (enc f v)) (struct_pack fs vs)"
  by simp

lemma struct_pack_overflow:
  "f \<noteq> Fx \<Longrightarrow> \<not> in_range f v \<Longrightarrow> struct_pack (f # fs) (v # vs) = Inl StructError"
  by simp

text \<open>A format whose pad bytes come last is read back without them.\<close>

lemma dec_fields_pad:
  "struct_pack (fs @ gs) vs = Inr b \<Longrightarrow> set gs \<subseteq> {Fx} \<Longrightarrow> dec_fields fs (b @ rest) = vs"
proof -
  assume p: "struct_pack (fs @ gs) vs = Inr b" and g: "set gs \<subseteq> {Fx}"
  have "dec_fields (fs @ gs) c = dec_fields fs c @ dec_fields gs (drop (calcsize fs) c)" for c
    by (induction fs arbitrary: c) (simp_all add: add.commute)
  moreover have "dec_fields gs c = []" for c
    using g by (induction gs arbitrary: c) auto
  ultimately show ?thesis using dec_fields_pack [OF p, of rest] by simp
qed

lemma struct_unpack_from_hit_x:
  assumes "struct_pack (f # g # h # xs) vs = Inr b" and "set xs \<subseteq> {Fx}"
  shows "struct_unpack_from [f, g, h] (b @ rest) 0 = Inr vs"
  using dec_fields_pad [of "[f, g, h]" xs vs b rest] struct_pack_length [OF assms(1)] assms
  by (simp add: struct_unpack_from_def)

text \<open>
  From here on a packed piece is kept as one block: the equations of \<open>struct_pack\<close> leave the
  simplifier, and a block is read back with \<open>struct_unpack_from_hit\<close> after skipping the
  blocks before it.
\<close>

declare struct_pack.simps [simp del]

text \<open>Evaluation of packed bytes on concrete values.\<close>

lemmas pack_eval = struct_pack.simps in_range_def enc_def be_bytes_numeral zeros_numeral

lemmas block_read = struct_unpack_from_hit struct_pack_length

section \<open>The interface of packed structures\<close>

text \<open>
  \<open>packed += a; packed += b; \<dots>\<close>: the pieces in order, the first exception wins.
\<close>

fun rconcat :: "bytes res list \<Rightarrow> bytes res" where
  "rconcat [] = Inr []"
| "rconcat (m # ms) = rbind m (\<lambda>b. rmap ((@) b) (rconcat ms))"

text \<open>\<open>packed += x.pack()\<close> where \<open>pack\<close> may return \<open>None\<close>.\<close>

definition add_packed :: "bytes option res \<Rightarrow> bytes res" where
  "add_packed m = rbind m (need TypeError)"

text \<open>The loop \<open>for i in xs: packed += i.pack()\<close>, and its inverse.\<close>

fun pack_list :: "('a \<Rightarrow> bytes res) \<Rightarrow> 'a list \<Rightarrow> bytes res" where
  "pack_list p [] = Inr []"
| "pack_list p (x # xs) = rbind (p x) (\<lambda>b. rmap ((@) b) (pack_list p xs))"

fun unpack_n :: "('a \<Rightarrow> bytes \<Rightarrow> ('a \<times> bytes) res) \<Rightarrow> 'a \<Rightarrow> nat \<Rightarrow> bytes \<Rightarrow> ('a list \<times> bytes) res" where
  "unpack_n u y 0 b = Inr ([], b)"
| "unpack_n u y (Suc n) b =
     rbind (u y b) (\<lambda>(x, r). rmap (\<lambda>(xs, r'). (x # xs, r')) (unpack_n u y n r))"

lemma add_packed_Inr [res_simps]: "add_packed m = Inr b \<longleftrightarrow> m = Inr (Some b)"
  by (auto simp: add_packed_def res_simps)

lemma add_packed_Some [simp]: "add_packed (Inr (Some b)) = Inr b"
  by (simp add: add_packed_def)

lemma add_packed_None [simp]: "add_packed (Inr None) = Inl TypeError"
  by (simp add: add_packed_def)

lemma pack_list_append:
  "pack_list p (xs @ ys) = rbind (pack_list p xs) (\<lambda>b. rmap ((@) b) (pack_list p ys))"
proof (induction xs)
  case Nil
  show ?case by (cases "pack_list p ys") simp_all
next
  case (Cons x xs)
  then show ?case
    by (cases "p x"; cases "pack_list p xs"; cases "pack_list p ys") simp_all
qed

text \<open>
  What a packed structure promises.  \<open>pack x\<close> gives the bytes; \<open>unpack y b\<close>
  overwrites the object \<open>y\<close> from \<open>b\<close> and gives the bytes that follow; \<open>norm x\<close>
  is the object the receiver sees (packing rewrites length fields and the like);
  \<open>width\<close> is the value of \<open>len()\<close>; \<open>ok\<close> delimits the objects the promise covers.
\<close>

locale wire_codec =
  fixes ok :: "'a \<Rightarrow> bool"
    and pack :: "'a \<Rightarrow> bytes res"
    and norm :: "'a \<Rightarrow> 'a"
    and unpack :: "'a \<Rightarrow> bytes \<Rightarrow> ('a \<times> bytes) res"
    and width :: "'a \<Rightarrow> nat"
  assumes roundtrip: "ok x \<Longrightarrow> pack x = Inr b \<Longrightarrow> unpack y (b @ rest) = Inr (norm x, rest)"
    and pack_width: "ok x \<Longrightarrow> pack x = Inr b \<Longrightarrow> length b = width x"
begin

lemma wire_image_determines:
  assumes "ok x" "ok y" "pack x = Inr b" "pack y = Inr b"
  shows "norm x = norm y"
proof -
  have "unpack x (b @ []) = Inr (norm x, [])" "unpack x (b @ []) = Inr (norm y, [])"
    using assms by (blast intro: roundtrip)+
  then show ?thesis by simp
qed

lemma prefix_free:
  assumes "ok x" "ok y" "pack x = Inr b" "pack y = Inr (b @ c)"
  shows "c = []"
proof -
  have "unpack x (b @ c) = Inr (norm x, c)" using assms by (blast intro: roundtrip)
  moreover have "unpack x ((b @ c) @ []) = Inr (norm y, [])" using assms by (blast intro: roundtrip)
  ultimately show ?thesis by simp
qed

lemma sequence_roundtrip:
  "list_all ok xs \<Longrightarrow> pack_list pack xs = Inr b \<Longrightarrow>
     unpack_n unpack y (length xs) (b @ rest) = Inr (map norm xs, rest)"
proof (induction xs arbitrary: b)
  case Nil
  then show ?case by simp
next
  case (Cons x xs)
  then obtain b1 b2 where "pack x = Inr b1" "pack_list pack xs = Inr b2" "b = b1 @ b2"
    by (auto simp: res_simps)
  with Cons show ?case using roundtrip [of x b1 y "b2 @ rest"] by simp
qed

lemma sequence_width:
  "list_all ok xs \<Longrightarrow> pack_list pack xs = Inr b \<Longrightarrow> length b = (\<Sum>x \<leftarrow> xs. width x)"
  by (induction xs arbitrary: b) (auto simp: res_simps pack_width)

lemma sequence_at:
  assumes "list_all ok xs" "pack_list pack xs = Inr b" "i < length xs"
    and "\<And>x. width x = w"
  shows "\<exists>r. unpack y (drop (i * w) (b @ rest)) = Inr (norm (xs ! i), r)"
  using assms(1-3)
proof (induction xs arbitrary: b i)
  case Nil
  then show ?case by simp
next
  case (Cons x xs)
  then obtain b1 b2 where b: "pack x = Inr b1" "pack_list pack xs = Inr b2" "b = b1 @ b2"
    by (auto simp: res_simps)
  have w: "length b1 = w" using pack_width [OF _ b(1)] Cons.prems(1) assms(4) by simp
  show ?case
  proof (cases i)
    case 0
    then show ?thesis using b Cons.prems(1) by (auto simp: roundtrip)
  next
    case (Suc j)
    then have "drop (i * w) (b @ rest) = drop (j * w) (b2 @ rest)" by (simp add: b w)
    then show ?thesis using Cons.IH [of b2 j] Cons.prems b Suc by simp
  qed
qed

end

end
