(* ===== verification/Addresses.thy ===== *)
theory Addresses
  imports Py_Struct
begin

text \<open>
  \<open>pox/lib/addresses.py\<close>: Ethernet addresses (\<open>EthAddr\<close>, a byte string) and IPv4
  addresses (\<open>IPAddr\<close>, the signed value of the four network bytes read in host order),
  their constructors from every accepted form, conversions, comparison, CIDR parsing and
  class-based netmask inference.  The host is little-endian: native \<open>struct\<close> formats
  and \<open>socket.htonl\<close> reverse the four bytes.  \<open>socket.inet_aton\<close> and
  \<open>int(s, base)\<close> are modelled as the standard library documents them.
\<close>

unbundle bit_operations_syntax

section \<open>Python strings and numbers\<close>

definition str_of_bytes :: "bytes \<Rightarrow> string" where
  "str_of_bytes b = map (\<lambda>w. char_of (unat w)) b"

definition bytes_of_str :: "string \<Rightarrow> bytes" where
  "bytes_of_str s = map (\<lambda>c. word_of_nat (of_char c)) s"

definition is_space :: "char \<Rightarrow> bool" where
  "is_space c \<longleftrightarrow> c \<in> {CHR 0x20, CHR 0x09, CHR 0x0A, CHR 0x0B, CHR 0x0C, CHR 0x0D}"

definition digit_val :: "char \<Rightarrow> nat option" where
  "digit_val c =
     (let n = of_char c :: nat in
      if 48 \<le> n \<and> n \<le> 57 then Some (n - 48)
      else if 97 \<le> n \<and> n \<le> 122 then Some (n - 87)
      else if 65 \<le> n \<and> n \<le> 90 then Some (n - 55)
      else None)"

fun digits_val :: "nat \<Rightarrow> string \<Rightarrow> nat \<Rightarrow> nat option" where
  "digits_val base [] acc = Some acc"
| "digits_val base (c # cs) acc =
     (case digit_val c of None \<Rightarrow> None
      | Some d \<Rightarrow> if d < base then digits_val base cs (acc * base + d) else None)"

definition parse_nat :: "nat \<Rightarrow> string \<Rightarrow> nat option" where
  "parse_nat base s = (if s = [] then None else digits_val base s 0)"

definition strip_str :: "string \<Rightarrow> string" where
  "strip_str s = rev (dropWhile is_space (rev (dropWhile is_space s)))"

text \<open>\<open>int(s, base)\<close> for base 10 and 16: surrounding blanks, a sign, and \<open>0x\<close> in base 16.\<close>

definition drop_0x :: "nat \<Rightarrow> string \<Rightarrow> string" where
  "drop_0x base s =
     (case s of c # d # r \<Rightarrow> if base = 16 \<and> c = CHR ''0'' \<and> (d = CHR ''x'' \<or> d = CHR ''X'') then r else s
      | _ \<Rightarrow> s)"

definition py_int :: "nat \<Rightarrow> string \<Rightarrow> int res" where
  "py_int base s =
     (let t = strip_str s;
          neg = (case t of c # _ \<Rightarrow> c = CHR ''-'' | [] \<Rightarrow> False);
          sgn = (case t of c # _ \<Rightarrow> c = CHR ''-'' \<or> c = CHR ''+'' | [] \<Rightarrow> False);
          u = (if sgn then tl t else t)
      in case parse_nat base (drop_0x base u) of
           None \<Rightarrow> Inl ValueError
         | Some n \<Rightarrow> Inr (if neg then - int n else int n))"

text \<open>\<open>chr(x)\<close> as a byte\<close>

definition py_chr :: "int \<Rightarrow> byte res" where
  "py_chr x = (if 0 \<le> x \<and> x < 256 then Inr (word_of_int x) else Inl ValueError)"

section \<open>EthAddr\<close>

datatype EthAddr = EthAddr (eth_value: bytes)

datatype eth_arg = EthInt int | EthStr bytes | EthObj EthAddr | EthList "int list"
  | EthNone | EthOther

fun eth_int_loop :: "nat \<Rightarrow> int \<Rightarrow> bytes \<Rightarrow> bytes" where
  "eth_int_loop 0 addr val = val"
| "eth_int_loop (Suc k) addr val = eth_int_loop k (addr div 256) (word_of_int (addr AND 255) # val)"

text \<open>\<open>"%02x" % i\<close>\<close>

definition fmt_02x :: "int \<Rightarrow> string" where
  "fmt_02x i = (let s = hex_int i in if length s < 2 then CHR ''0'' # s else s)"

text \<open>\<open>addr[2::3]\<close> of a 17-character string: its positions 2, 5, 8, 11, 14.\<close>

definition eth_separators :: "string \<Rightarrow> string" where
  "eth_separators s = map (\<lambda>i. s ! i) [2, 5, 8, 11, 14]"

definition eth_hex_bytes :: "string \<Rightarrow> bytes res" where
  "eth_hex_bytes s = rmapM (\<lambda>x. rbind (py_int 16 (bslice (x * 2) (x * 2 + 2) s)) py_chr) [0 ..< 6]"

definition eth_of_str :: "bytes \<Rightarrow> bytes res" where
  "eth_of_str raw =
     (let s = str_of_bytes raw in
      if length s = 17 \<or> length s = 12 \<or> length (filter (\<lambda>c. c = CHR '':'') s) = 5 then
        (if length s = 17 then
           (if eth_separators s \<noteq> '':::::'' \<and> eth_separators s \<noteq> ''-----'' then Inl RuntimeError
            else eth_hex_bytes (concat (map (\<lambda>x. bslice (x * 3) (x * 3 + 2) s) [0 ..< 6])))
         else if length s = 12 then eth_hex_bytes s
         else rbind (rmapM (py_int 16) (split_on (CHR '':'') s))
                (\<lambda>xs. eth_hex_bytes (concat (map fmt_02x xs))))
      else if length raw = 6 then Inr raw
      else Inl RuntimeError)"

definition EthAddr_init :: "eth_arg \<Rightarrow> EthAddr res" where
  "EthAddr_init a =
     (case a of
        EthInt n \<Rightarrow> Inr (EthAddr (eth_int_loop 6 n []))
      | EthStr s \<Rightarrow> rmap EthAddr (eth_of_str s)
      | EthObj e \<Rightarrow> Inr (EthAddr (eth_value e))
      | EthList xs \<Rightarrow> rmap EthAddr (rmapM py_chr xs)
      | EthNone \<Rightarrow> Inr (EthAddr (zeros 6))
      | EthOther \<Rightarrow> Inl RuntimeError)"

text \<open>Indexing a byte string: \<open>IndexError\<close> when it is too short.\<close>

definition byte_at :: "bytes \<Rightarrow> nat \<Rightarrow> byte res" where
  "byte_at b i = (if i < length b then Inr (b ! i) else Inl IndexError)"

definition isBridgeFiltered :: "EthAddr \<Rightarrow> bool res" where
  "isBridgeFiltered e =
     (let v = eth_value e in
      rbind (byte_at v 0) (\<lambda>b0. if unat b0 \<noteq> 0x01 then Inr False else
      rbind (byte_at v 1) (\<lambda>b1. if unat b1 \<noteq> 0x80 then Inr False else
      rbind (byte_at v 2) (\<lambda>b2. if unat b2 \<noteq> 0xC2 then Inr False else
      rbind (byte_at v 3) (\<lambda>b3. if unat b3 \<noteq> 0x00 then Inr False else
      rbind (byte_at v 4) (\<lambda>b4. if unat b4 \<noteq> 0x00 then Inr False else
      rbind (byte_at v 5) (\<lambda>b5. Inr (unat b5 \<le> 0x0F))))))))"

definition isLocal :: "EthAddr \<Rightarrow> bool res" where
  "isLocal e = rmap (\<lambda>b. uint b AND 2 \<noteq> 0) (byte_at (eth_value e) 0)"

definition isGlobal :: "EthAddr \<Rightarrow> bool res" where
  "isGlobal e = rmap Not (isLocal e)"

definition isMulticast :: "EthAddr \<Rightarrow> bool res" where
  "isMulticast e = rmap (\<lambda>b. uint b AND 1 \<noteq> 0) (byte_at (eth_value e) 0)"

definition eth_toRaw :: "EthAddr \<Rightarrow> bytes" where
  "eth_toRaw e = eth_value e"

text \<open>A byte beyond the sixth makes the shift count negative, which raises.\<close>

fun eth_toInt_loop :: "nat \<Rightarrow> bytes \<Rightarrow> int \<Rightarrow> int res" where
  "eth_toInt_loop i [] value = Inr value"
| "eth_toInt_loop i (b # bs) value =
     (if 5 < i then Inl ValueError
      else eth_toInt_loop (Suc i) bs (value + push_bit (8 * (5 - i)) (uint b)))"

definition eth_toInt :: "EthAddr \<Rightarrow> int res" where
  "eth_toInt e = eth_toInt_loop 0 (eth_value e) 0"

definition eth_toTuple :: "EthAddr \<Rightarrow> int list" where
  "eth_toTuple e = map uint (eth_value e)"

definition eth_toStr :: "string \<Rightarrow> EthAddr \<Rightarrow> string" where
  "eth_toStr separator e = join_str separator (map hex02 (eth_value e))"

text \<open>Python's order on byte strings: lexicographic on the byte values.\<close>

fun bytes_less :: "bytes \<Rightarrow> bytes \<Rightarrow> bool" where
  "bytes_less [] [] = False"
| "bytes_less [] (_ # _) = True"
| "bytes_less (_ # _) [] = False"
| "bytes_less (a # as) (b # bs) = (if a = b then bytes_less as bs else a < b)"

text \<open>\<open>EthAddr.__cmp__\<close> against another address: both order branches return \<open>-1\<close>.\<close>

definition EthAddr_cmp :: "EthAddr \<Rightarrow> EthAddr \<Rightarrow> int" where
  "EthAddr_cmp a b =
     (if eth_value a = eth_value b then 0
      else if bytes_less (eth_value a) (eth_value b) then - 1
      else - 1)"

text \<open>A hardware address field of the OpenFlow structures: raw bytes or an \<open>EthAddr\<close>.\<close>

datatype hwaddr = HwBytes bytes | HwEth EthAddr

fun hw_raw :: "hwaddr \<Rightarrow> bytes" where
  "hw_raw (HwBytes b) = b"
| "hw_raw (HwEth e) = eth_toRaw e"

text \<open>\<open>len()\<close>: an \<open>EthAddr\<close> always answers 6.\<close>

fun hw_len :: "hwaddr \<Rightarrow> nat" where
  "hw_len (HwBytes b) = length b"
| "hw_len (HwEth e) = 6"

definition hw_eq :: "hwaddr \<Rightarrow> hwaddr \<Rightarrow> bool" where
  "hw_eq a b \<longleftrightarrow> hw_raw a = hw_raw b"

definition EMPTY_ETH :: EthAddr where
  "EMPTY_ETH = EthAddr (zeros 6)"

section \<open>IPAddr\<close>

datatype IPAddr = IPAddr (ip_value: int)

text \<open>Native (little-endian) reads and writes of a 32-bit integer.\<close>

definition native_I :: "int \<Rightarrow> bytes" where
  "native_I n = rev (be_bytes 4 (nat (n mod 2 ^ 32)))"

definition to_signed32 :: "int \<Rightarrow> int" where
  "to_signed32 n = (let m = n mod 2 ^ 32 in if 2 ^ 31 \<le> m then m - 2 ^ 32 else m)"

definition unpack_native_i :: "bytes \<Rightarrow> int" where
  "unpack_native_i b = to_signed32 (int (be_val (rev b)))"

definition htonl :: "int \<Rightarrow> int" where
  "htonl n = int (be_val (native_I n))"

text \<open>\<open>socket.inet_aton\<close>: one to four numeric parts, the last filling the remaining bytes.\<close>

definition aton_part :: "string \<Rightarrow> nat option" where
  "aton_part s =
     (case s of
        c # d # r \<Rightarrow> if c = CHR ''0'' then
                      (if d = CHR ''x'' \<or> d = CHR ''X'' then parse_nat 16 r else parse_nat 8 (d # r))
                    else parse_nat 10 s
      | _ \<Rightarrow> parse_nat 10 s)"

fun aton_parts :: "nat \<Rightarrow> string list \<Rightarrow> bytes option" where
  "aton_parts k [] = None"
| "aton_parts k [p] =
     (case aton_part p of None \<Rightarrow> None
      | Some v \<Rightarrow> if v < 256 ^ k then Some (be_bytes k v) else None)"
| "aton_parts k (p # q # ps) =
     (case aton_part p of None \<Rightarrow> None
      | Some v \<Rightarrow> if v < 256 \<and> 1 < k then map_option ((#) (word_of_nat v)) (aton_parts (k - 1) (q # ps))
                else None)"

definition inet_aton :: "bytes \<Rightarrow> bytes res" where
  "inet_aton s = need SocketError (aton_parts 4 (split_on (CHR ''.'') (takeWhile (\<lambda>c. \<not> is_space c) (str_of_bytes s))))"

definition inet_ntoa :: "bytes \<Rightarrow> string" where
  "inet_ntoa b = join_str ''.'' (map (\<lambda>w. str_int (uint w)) b)"

datatype ip_arg = IpStr bytes | IpObj IPAddr | IpInt int | IpOther

definition IPAddr_init :: "ip_arg \<Rightarrow> bool \<Rightarrow> IPAddr res" where
  "IPAddr_init a networkOrder =
     (case a of
        IpStr s \<Rightarrow> if length s \<noteq> 4 then rmap (\<lambda>b. IPAddr (unpack_native_i b)) (inet_aton s)
                 else Inr (IPAddr (unpack_native_i s))
      | IpObj i \<Rightarrow> Inr (IPAddr (ip_value i))
      | IpInt n \<Rightarrow>
          (let addr = n AND 0xffffffff;
               packed = (if networkOrder then be_bytes 4 (nat addr) else native_I addr)
           in Inr (IPAddr (to_signed32 (int (be_val packed)))))
      | IpOther \<Rightarrow> Inl RuntimeError)"

text \<open>\<open>IPAddr(n)\<close> on an integer never raises.\<close>

definition ip_of_int :: "int \<Rightarrow> IPAddr" where
  "ip_of_int n = IPAddr (to_signed32 (htonl (n AND 0xffffffff)))"

definition ip_toUnsigned :: "bool \<Rightarrow> IPAddr \<Rightarrow> int" where
  "ip_toUnsigned networkOrder i =
     (if \<not> networkOrder then htonl (ip_value i AND 0xffffffff)
      else ip_value i AND 0xffffffff)"

abbreviation ip_u :: "IPAddr \<Rightarrow> int" where
  "ip_u \<equiv> ip_toUnsigned False"

definition ip_toSigned :: "bool \<Rightarrow> IPAddr \<Rightarrow> int" where
  "ip_toSigned networkOrder i =
     (if networkOrder then ip_value i
      else (let v = htonl (ip_value i AND 0xffffffff) in unpack_native_i (native_I v)))"

definition ip_toRaw :: "IPAddr \<Rightarrow> bytes" where
  "ip_toRaw i = native_I (ip_value i)"

definition ip_toStr :: "IPAddr \<Rightarrow> string" where
  "ip_toStr i = inet_ntoa (ip_toRaw i)"

text \<open>\<open>IPAddr.__cmp__\<close> against an address or \<open>None\<close>\<close>

definition IPAddr_cmp :: "IPAddr \<Rightarrow> IPAddr option \<Rightarrow> int" where
  "IPAddr_cmp i other =
     (case other of None \<Rightarrow> 1
      | Some j \<Rightarrow> if ip_value i < ip_value j then - 1 else if ip_value i = ip_value j then 0 else 1)"

section \<open>CIDR\<close>

text \<open>The class E branch falls through its misplaced \<open>return\<close> and yields \<open>None\<close>.\<close>

definition inferNetMask :: "IPAddr \<Rightarrow> int option" where
  "inferNetMask i =
     (let addr = ip_u i in
      if addr = 0 then Some 32
      else if addr AND (push_bit 31 1) = 0 then Some 24
      else if addr AND (push_bit 30 3) = push_bit 30 2 then Some 16
      else if addr AND (push_bit 29 7) = push_bit 29 6 then Some 8
      else if addr AND (push_bit 28 15) = push_bit 28 14 then Some 0
      else None)"

definition cidr_check :: "IPAddr \<Rightarrow> int \<Rightarrow> (IPAddr \<times> int) res" where
  "cidr_check r0 b =
     (if b < 0 then Inl ValueError
      else if ip_u r0 AND (push_bit (nat b) 1 - 1) \<noteq> 0 then Inl RuntimeError
      else Inr (r0, b))"

text \<open>The loop \<open>while m & (1<<31): b += 1; m <<= 1\<close>, with fuel.\<close>

fun netmask_loop :: "nat \<Rightarrow> int \<Rightarrow> int \<Rightarrow> (int \<times> int) option" where
  "netmask_loop 0 m b = None"
| "netmask_loop (Suc fuel) m b =
     (if m AND (push_bit 31 1) \<noteq> 0 then netmask_loop fuel (push_bit 1 m) (b + 1) else Some (m, b))"

definition cidr_of_netmask :: "bytes \<Rightarrow> bytes \<Rightarrow> (IPAddr \<times> int) res" where
  "cidr_of_netmask a0 a1 =
     rbind (IPAddr_init (IpStr a1) False) (\<lambda>mask.
     rbind (need RuntimeError (netmask_loop 33 (ip_u mask) 0)) (\<lambda>(m, b).
     if m AND 0x7fffffff \<noteq> 0 then Inl RuntimeError
     else (let wild = 32 - b in
       rbind (guard_or AssertionError (0 \<le> wild \<and> wild \<le> 32)) (\<lambda>_.
       rbind (IPAddr_init (IpStr a0) False) (\<lambda>i. cidr_check i wild)))))"

definition parseCIDR :: "bytes \<Rightarrow> bool \<Rightarrow> (IPAddr \<times> int) res" where
  "parseCIDR addr infer =
     (case map bytes_of_str (split_on (CHR ''/'') (str_of_bytes addr)) of
        [] \<Rightarrow> Inl IndexError
      | [a0] \<Rightarrow>
          rbind (IPAddr_init (IpStr a0) False) (\<lambda>i.
          if \<not> infer then Inr (i, 0)
          else rbind (need TypeError (inferNetMask i)) (\<lambda>b.
            if ip_u i AND (push_bit (nat b) 1 - 1) = 0 then cidr_check i b else cidr_check i 0))
      | a0 # a1 # _ \<Rightarrow>
          (case py_int 10 (str_of_bytes a1) of
             Inl _ \<Rightarrow> cidr_of_netmask a0 a1
           | Inr n \<Rightarrow>
               (let wild = 32 - n in
                rbind (guard_or AssertionError (0 \<le> wild \<and> wild \<le> 32)) (\<lambda>_.
                rbind (IPAddr_init (IpStr a0) False) (\<lambda>i. cidr_check i wild)))))"

text \<open>\<open>inNetwork\<close> with a tuple of address and wildcard bits, and with a string.\<close>

definition inNetwork :: "IPAddr \<Rightarrow> IPAddr \<times> int \<Rightarrow> bool res" where
  "inNetwork self network =
     (let (n, b) = network in
      if b < 0 then Inl ValueError
      else Inr (ip_u self AND NOT (push_bit (nat b) 1 - 1) = ip_u n))"

definition inNetwork_str :: "IPAddr \<Rightarrow> bytes \<Rightarrow> string option \<Rightarrow> bool res" where
  "inNetwork_str self network netmask =
     (let net = (case netmask of None \<Rightarrow> network
                 | Some k \<Rightarrow> network @ bytes_of_str (''/'' @ k))
      in rbind (parseCIDR net True) (inNetwork self))"

section \<open>Lemmas: integers and byte order\<close>

lemma and_mask32: "(n :: int) AND 0xffffffff = n mod 2 ^ 32"
proof -
  have "(0xffffffff :: int) = mask 32" by (simp add: mask_eq_exp_minus_1)
  then show ?thesis by (metis take_bit_eq_mask take_bit_eq_mod)
qed

lemma and_255: "(n :: int) AND 255 = n mod 256"
proof -
  have "(255 :: int) = mask 8" by (simp add: mask_eq_exp_minus_1)
  then show ?thesis
    using take_bit_eq_mask [of 8 n] by (simp add: take_bit_eq_mod)
qed

lemma and_low_mask: "(n :: int) AND (push_bit k 1 - 1) = n mod 2 ^ k"
  by (metis mask_eq_exp_minus_1 push_bit_of_1 take_bit_eq_mask take_bit_eq_mod)

lemma and_high_mask: "(n :: int) AND NOT (push_bit k 1 - 1) = n - n mod 2 ^ k"
proof -
  have "n AND NOT (mask k) = push_bit k (drop_bit k n)"
    by (rule bit_eqI) (auto simp: bit_simps)
  moreover have "push_bit k (drop_bit k n) + take_bit k n = n"
    by (rule bits_ident)
  moreover have "push_bit k 1 - 1 = (mask k :: int)"
    by (simp add: mask_eq_exp_minus_1)
  ultimately show ?thesis by (simp add: take_bit_eq_mod)
qed

lemma to_signed32_mod [simp]: "to_signed32 n mod 2 ^ 32 = n mod 2 ^ 32"
  by (simp add: to_signed32_def Let_def minus_mod_self2)

lemma to_signed32_bounds: "- (2 ^ 31) \<le> to_signed32 n" "to_signed32 n < 2 ^ 31"
proof -
  have "0 \<le> n mod 2 ^ 32" "n mod 2 ^ 32 < 2 ^ 32" by simp_all
  then show "- (2 ^ 31) \<le> to_signed32 n" "to_signed32 n < 2 ^ 31"
    by (auto simp: to_signed32_def Let_def)
qed

lemmas to_signed32_bounds_num [simp] = to_signed32_bounds [simplified]

lemma to_signed32_id: "- (2 ^ 31) \<le> n \<Longrightarrow> n < 2 ^ 31 \<Longrightarrow> to_signed32 n = n"
proof (cases "n < 0")
  case True
  assume "- (2 ^ 31) \<le> n"
  have "n mod 2 ^ 32 = (n + 2 ^ 32) mod 2 ^ 32" by simp
  also have "\<dots> = n + 2 ^ 32"
    using True \<open>- (2 ^ 31) \<le> n\<close> by (intro mod_pos_pos_trivial) simp_all
  finally show ?thesis using \<open>- (2 ^ 31) \<le> n\<close> by (simp add: to_signed32_def Let_def)
next
  case False
  assume "n < 2 ^ 31"
  with False have "n mod 2 ^ 32 = n" by (intro mod_pos_pos_trivial) simp_all
  with \<open>n < 2 ^ 31\<close> show ?thesis by (simp add: to_signed32_def Let_def)
qed

lemma native_I_length [simp]: "length (native_I n) = 4"
  by (simp add: native_I_def)

lemma be_val_be_bytes4: "0 \<le> m \<Longrightarrow> m < 2 ^ 32 \<Longrightarrow> int (be_val (be_bytes 4 (nat m))) = m"
  by (simp add: be_val_be_bytes nat_less_iff)

lemma be_bytes4_be_val: "length b = 4 \<Longrightarrow> be_bytes 4 (be_val b) = b"
  using be_bytes_be_val [of b] by simp

lemma be_val4_bound: "length b = 4 \<Longrightarrow> int (be_val b) < 2 ^ 32"
  using be_val_bound [of b] by simp

lemma htonl_bounds: "0 \<le> htonl n" "htonl n < 2 ^ 32"
  using be_val4_bound [of "native_I n"] by (simp_all add: htonl_def)

lemmas htonl_bounds_num [simp] = htonl_bounds [simplified]

lemma native_I_htonl: "native_I (htonl n) = be_bytes 4 (nat (n mod 2 ^ 32))"
proof -
  have "htonl n mod 2 ^ 32 = htonl n"
    by (intro mod_pos_pos_trivial htonl_bounds)
  then have "native_I (htonl n) = rev (be_bytes 4 (be_val (native_I n)))"
    by (simp add: native_I_def htonl_def)
  also have "\<dots> = rev (native_I n)"
    using be_bytes4_be_val [of "native_I n"] by simp
  finally show ?thesis by (simp add: native_I_def)
qed

lemma htonl_htonl: "htonl (htonl n) = n mod 2 ^ 32"
proof -
  have "htonl (htonl n) = int (be_val (native_I (htonl n)))"
    by (simp add: htonl_def)
  then show ?thesis
    by (simp only: native_I_htonl) (intro be_val_be_bytes4, simp_all)
qed

lemma htonl_mod [simp]: "htonl (n mod 2 ^ 32) = htonl n"
  by (simp add: htonl_def native_I_def)

section \<open>Lemmas: IPv4 addresses\<close>

lemma ip_u_of_int: "ip_u (ip_of_int n) = n mod 2 ^ 32"
proof -
  have "ip_u (ip_of_int n) = htonl (to_signed32 (htonl (n mod 2 ^ 32)) mod 2 ^ 32)"
    by (simp add: ip_toUnsigned_def ip_of_int_def and_mask32)
  also have "\<dots> = htonl (htonl (n mod 2 ^ 32))"
    by (simp only: to_signed32_mod htonl_mod)
  finally show ?thesis by (simp add: htonl_htonl)
qed

lemma ip_u_bounds: "0 \<le> ip_u i" "ip_u i < 2 ^ 32"
  by (simp_all add: ip_toUnsigned_def)

lemmas ip_u_bounds_num [simp] = ip_u_bounds [simplified]

lemma IPAddr_init_int: "IPAddr_init (IpInt n) False = Inr (ip_of_int n)"
  by (simp add: IPAddr_init_def ip_of_int_def Let_def htonl_def)

text \<open>The stored value is a signed 32-bit integer.\<close>

definition ip_wf :: "IPAddr \<Rightarrow> bool" where
  "ip_wf i \<longleftrightarrow> - (2 ^ 31) \<le> ip_value i \<and> ip_value i < 2 ^ 31"

lemma ip_of_int_u: "ip_wf i \<Longrightarrow> ip_of_int (ip_u i) = i"
proof -
  assume w: "ip_wf i"
  have "ip_u i mod 2 ^ 32 = ip_u i" by (intro mod_pos_pos_trivial ip_u_bounds)
  then have "ip_value (ip_of_int (ip_u i)) = to_signed32 (htonl (ip_u i))"
    by (simp add: ip_of_int_def and_mask32)
  also have "\<dots> = to_signed32 (ip_value i mod 2 ^ 32)"
    by (simp add: ip_toUnsigned_def and_mask32 htonl_htonl)
  also have "\<dots> = to_signed32 (ip_value i)"
    by (simp add: to_signed32_def)
  finally show ?thesis
    using w to_signed32_id [of "ip_value i"] by (simp add: ip_wf_def IPAddr.expand)
qed

lemma ip_wf_of_int [simp]: "ip_wf (ip_of_int n)"
  by (simp add: ip_wf_def ip_of_int_def to_signed32_bounds)

lemma IPAddr_init_wf: "IPAddr_init a nw = Inr i \<Longrightarrow> (\<And>j. a = IpObj j \<Longrightarrow> ip_wf j) \<Longrightarrow> ip_wf i"
  by (auto simp: IPAddr_init_def ip_wf_def Let_def to_signed32_bounds unpack_native_i_def res_simps
      split: ip_arg.splits if_splits)

lemma ip_u_inj: "ip_wf i \<Longrightarrow> ip_wf j \<Longrightarrow> ip_u i = ip_u j \<longleftrightarrow> i = j"
  by (metis ip_of_int_u)

lemma ip_toSigned_host: "ip_toSigned False i = to_signed32 (ip_u i)"
proof -
  have "int (be_val (rev (native_I v))) = v mod 2 ^ 32" for v
    by (simp only: native_I_def rev_rev_ident) (intro be_val_be_bytes4, simp_all)
  then show ?thesis
    by (simp add: ip_toSigned_def ip_toUnsigned_def Let_def unpack_native_i_def to_signed32_def)
qed

lemma inNetwork_iff:
  "0 \<le> b \<Longrightarrow> inNetwork self (n, b) = Inr (ip_u self - ip_u self mod 2 ^ nat b = ip_u n)"
  using and_high_mask [of "ip_u self" "nat b"] by (simp add: inNetwork_def)


section \<open>Lemmas: Ethernet addresses\<close>

lemma eth_int_loop_eq: "eth_int_loop k n val = be_bytes k (nat (n mod 256 ^ k)) @ val"
proof (induction k arbitrary: n val)
  case 0
  show ?case by simp
next
  case (Suc k)
  let ?m = "n mod 256 ^ Suc k"
  have m: "?m = 256 * (n div 256 mod 256 ^ k) + n mod 256"
    using zmod_zmult2_eq [of "256 ^ k" n 256] by simp
  have nn: "0 \<le> n div 256 mod 256 ^ k" "0 \<le> n mod 256" "n mod 256 < 256" by simp_all
  have "nat ?m div 256 = nat (n div 256 mod 256 ^ k)"
    unfolding m using nn by (simp add: nat_mult_distrib nat_add_distrib)
  moreover have "nat ?m mod 256 = nat (n mod 256)"
    unfolding m using nn by (simp add: nat_mult_distrib nat_add_distrib)
  moreover have "word_of_nat (nat (n mod 256)) = (word_of_int (n AND 255) :: byte)"
    using nn by (simp add: and_255)
  ultimately show ?case using Suc by simp
qed

lemma eth_toInt_loop_eq:
  "i + length bs = 6 \<Longrightarrow> eth_toInt_loop i bs v = Inr (v + int (be_val bs))"
proof (induction bs arbitrary: i v)
  case Nil
  then show ?case by simp
next
  case (Cons b bs)
  have len: "5 - i = length bs" using Cons.prems by simp
  have val: "be_val (b # bs) = unat b * 256 ^ length bs + be_val bs"
  proof (induction bs rule: rev_induct)
    case Nil
    show ?case using be_val_snoc [of "[]" b] by simp
  next
    case (snoc c cs)
    have "be_val (b # cs @ [c]) = be_val (b # cs) * 256 + unat c"
      using be_val_snoc [of "b # cs" c] by simp
    with snoc show ?case by (simp add: algebra_simps)
  qed
  have "push_bit (8 * length bs) (uint b) = int (unat b * 256 ^ length bs)"
    by (simp add: push_bit_eq_mult power_mult)
  then show ?case
    using Cons.prems Cons.IH [of "Suc i"] by (simp add: len val)
qed

lemma eth_toInt_6: "length (eth_value e) = 6 \<Longrightarrow> eth_toInt e = Inr (int (be_val (eth_value e)))"
  by (simp add: eth_toInt_def eth_toInt_loop_eq)

lemma eth_toInt_long: "6 < length (eth_value e) \<Longrightarrow> eth_toInt e = Inl ValueError"
proof -
  have "6 < i + length bs \<Longrightarrow> i \<le> 6 \<Longrightarrow> eth_toInt_loop i bs v = Inl ValueError" for i bs v
    by (induction i bs v rule: eth_toInt_loop.induct) auto
  then show "6 < length (eth_value e) \<Longrightarrow> ?thesis" by (simp add: eth_toInt_def)
qed

lemma EthAddr_int_roundtrip:
  "rbind (EthAddr_init (EthInt n)) eth_toInt = Inr (n mod 2 ^ 48)"
  by (simp add: EthAddr_init_def eth_int_loop_eq eth_toInt_6 be_val_be_bytes nat_less_iff)

lemma EthAddr_of_toInt:
  "length (eth_value e) = 6 \<Longrightarrow> rbind (eth_toInt e) (\<lambda>n. EthAddr_init (EthInt n)) = Inr e"
  using be_val_bound [of "eth_value e"] be_bytes_be_val [of "eth_value e"]
  by (cases e) (simp add: EthAddr_init_def eth_int_loop_eq eth_toInt_6 mod_pos_pos_trivial)

lemma less16_cases: "(\<And>d. d \<in> set [0 ..< 16] \<Longrightarrow> P d) \<Longrightarrow> n < 16 \<Longrightarrow> P (n :: nat)"
  by simp

lemma digit_val_char: "n < 16 \<Longrightarrow> digit_val (digit_char n) = Some n"
  by (rule less16_cases) (auto simp: digit_val_def digit_char_def upt_rec)

lemma digit_char_mem: "n < 16 \<Longrightarrow> digit_char n \<in> set ''0123456789abcdef''"
  unfolding digit_char_def by (simp only: if_True) (rule nth_mem, simp)

lemma plain_digit:
  assumes "c \<in> set ''0123456789abcdef''"
  shows "\<not> is_space c" and "c \<notin> set ''-+xX:./''"
  using assms by (auto simp: is_space_def)

lemma digit_char_plain:
  assumes "n < 16"
  shows "\<not> is_space (digit_char n)" and "digit_char n \<notin> set ''-+xX:./''"
  using plain_digit [OF digit_char_mem [OF assms]] by blast+

lemma py_int_hex02: "py_int 16 (hex02 b) = Inr (uint b)"
proof -
  let ?h = "unat b div 16" and ?l = "unat b mod 16"
  have h: "?h < 16" using byte_bound [of b] by (simp add: less_mult_imp_div_less)
  have l: "?l < 16" by simp
  note ps = digit_char_plain [OF h] digit_char_plain [OF l]
  have "strip_str (hex02 b) = hex02 b" using ps by (simp add: strip_str_def hex02_def)
  moreover have "drop_0x 16 (hex02 b) = hex02 b" using ps by (simp add: drop_0x_def hex02_def)
  moreover have "parse_nat 16 (hex02 b) = Some (unat b)"
    using h l by (simp add: parse_nat_def hex02_def digit_val_char)
  ultimately show ?thesis using ps by (simp add: py_int_def Let_def hex02_def)
qed


lemma py_chr_uint [simp]: "py_chr (uint (b :: byte)) = Inr b"
  using uint_bounded [of b] by (simp add: py_chr_def)

lemma eth_hex_bytes_6:
  "eth_hex_bytes (concat (map hex02 [a, b, c, d, e, f])) = Inr [a, b, c, d, e, f]"
proof -
  have two: "hex02 x = [digit_char (unat x div 16), digit_char (unat x mod 16)]" for x
    by (simp add: hex02_def)
  have "[0 ..< 6] = [0, 1, 2, 3, 4, 5 :: nat]" by (simp add: upt_rec)
  then show ?thesis
    by (simp add: eth_hex_bytes_def bslice_def two) (simp add: two [symmetric] py_int_hex02)
qed

lemma str_bytes_inverse: "str_of_bytes (bytes_of_str s) = s"
  by (induction s) (simp_all add: str_of_bytes_def bytes_of_str_def unat_of_nat)

lemma length_bytes_of_str [simp]: "length (bytes_of_str s) = length s"
  by (simp add: bytes_of_str_def)

lemma eth_hex_roundtrip:
  assumes "length (eth_value x) = 6" and "sep = '':'' \<or> sep = ''-''"
  shows "EthAddr_init (EthStr (bytes_of_str (eth_toStr sep x))) = Inr x"
proof -
  obtain a b c d e f where v: "eth_value x = [a, b, c, d, e, f]"
    using assms(1) by (auto simp: length_Suc_conv numeral_eq_Suc)
  let ?s = "eth_toStr sep x"
  have s: "?s = hex02 a @ sep @ hex02 b @ sep @ hex02 c @ sep @ hex02 d @ sep @ hex02 e @ sep @ hex02 f"
    by (simp add: eth_toStr_def v)
  have len: "length ?s = 17" using assms(2) by (auto simp: s hex02_def)
  have seps: "eth_separators ?s = (if sep = '':'' then '':::::'' else ''-----'')"
    using assms(2) by (auto simp: eth_separators_def s hex02_def)
  have parts: "concat (map (\<lambda>i. bslice (i * 3) (i * 3 + 2) ?s) [0 ..< 6])
      = concat (map hex02 [a, b, c, d, e, f])"
    using assms(2) by (auto simp: s hex02_def bslice_def upt_rec)
  have "eth_of_str (bytes_of_str ?s) = Inr [a, b, c, d, e, f]"
    unfolding eth_of_str_def Let_def str_bytes_inverse parts eth_hex_bytes_6
    using assms(2) by (auto simp: len seps)
  then show ?thesis by (cases x) (use v in \<open>simp add: EthAddr_init_def\<close>)
qed

text \<open>
  the printed form of a hardware address, with colons or dashes, is read back as the same
  address.
\<close>

theorem EthAddr_str_roundtrip:
  assumes "length (eth_value x) = 6" and "sep = '':'' \<or> sep = ''-''"
  shows "EthAddr_init (EthStr (bytes_of_str (eth_toStr sep x))) = Inr x"
  by (rule eth_hex_roundtrip [OF assms])

theorem EthAddr_str_roundtrip_witness:
  "EthAddr_init (EthStr (bytes_of_str (eth_toStr '':'' (EthAddr [0, 1, 2, 0xab, 0xff, 9])))) = Inr (EthAddr [0, 1, 2, 0xab, 0xff, 9])"
  using EthAddr_str_roundtrip [of "EthAddr [0, 1, 2, 0xab, 0xff, 9]" "'':''"] by simp

text \<open>Six raw bytes are taken as they are, unless exactly five of them are colons.\<close>

definition eth_raw_ok :: "bytes \<Rightarrow> bool" where
  "eth_raw_ok b \<longleftrightarrow> length b = 6 \<and> length (filter (\<lambda>c. c = CHR '':'') (str_of_bytes b)) \<noteq> 5"

lemma EthAddr_raw: "eth_raw_ok b \<Longrightarrow> EthAddr_init (EthStr b) = Inr (EthAddr b)"
  by (simp add: eth_raw_ok_def EthAddr_init_def eth_of_str_def Let_def str_of_bytes_def)

lemma EthAddr_tuple: "EthAddr_init (EthList (map uint b)) = Inr (EthAddr b)"
proof -
  have "rmapM py_chr (map uint b) = Inr b" by (induction b) simp_all
  then show ?thesis by (simp add: EthAddr_init_def)
qed

section \<open>Lemmas: dotted quads and CIDR\<close>

lemma digits_val_snoc:
  "digits_val base (s @ [c]) acc =
     (case digits_val base s acc of None \<Rightarrow> None | Some a \<Rightarrow> digits_val base [c] a)"
  by (induction base s acc rule: digits_val.induct) (auto split: option.splits)

lemma digits_val_digits_of:
  "2 \<le> base \<Longrightarrow> base \<le> 16 \<Longrightarrow> digits_val base (digits_of base n) 0 = Some n"
proof (induction base n rule: digits_of.induct)
  case (1 base n)
  show ?case
  proof (cases "n < base")
    case True
    with 1 show ?thesis by (simp add: digits_of.simps digit_val_char)
  next
    case False
    with 1 have "digits_val base (digits_of base (n div base)) 0 = Some (n div base)" by simp
    moreover have "digit_val (digit_char (n mod base)) = Some (n mod base)"
      using 1 by (intro digit_val_char) (metis mod_less_divisor less_le_trans zero_less_numeral)
    ultimately show ?thesis
      using False 1 by (subst digits_of.simps) (simp add: digits_val_snoc)
  qed
qed

lemma digits_of_chars:
  "2 \<le> base \<Longrightarrow> base \<le> 16 \<Longrightarrow> set (digits_of base n) \<subseteq> set ''0123456789abcdef''"
proof (induction base n rule: digits_of.induct)
  case (1 base n)
  have "n mod base < 16" using 1(2,3) mod_less_divisor [of base n] by linarith
  then have d: "digit_char (n mod base) \<in> set ''0123456789abcdef''" by (rule digit_char_mem)
  show ?case
  proof (cases "n < base")
    case True
    with d 1(2) show ?thesis by (subst digits_of.simps) (simp only: set_append, simp)
  next
    case False
    with 1 have "set (digits_of base (n div base)) \<subseteq> set ''0123456789abcdef''" by simp
    with d False 1(2) show ?thesis
      by (subst digits_of.simps) (simp only: if_False not_le set_append list.set Un_subset_iff, simp)
  qed
qed

lemma digits_of_nonempty [simp]: "digits_of base n \<noteq> []"
  by (subst digits_of.simps) simp

lemma digits_of_hd:
  "2 \<le> base \<Longrightarrow> base \<le> 16 \<Longrightarrow> 0 < n \<Longrightarrow> hd (digits_of base n) \<noteq> CHR ''0''"
proof (induction base n rule: digits_of.induct)
  case (1 base n)
  have nz: "k < 16 \<Longrightarrow> 0 < k \<Longrightarrow> digit_char k \<noteq> CHR ''0''" for k
    using digit_val_char [of k] by (auto simp: digit_val_def Let_def)
  show ?case
    using 1 by (subst digits_of.simps) (auto simp: nz div_greater_zero_iff)
qed

lemma aton_part_str: "aton_part (digits_of 10 n) = Some n"
proof (cases "n = 0")
  case True
  then show ?thesis
    by (simp add: aton_part_def digits_of.simps parse_nat_def digit_val_char)
next
  case False
  then have "hd (digits_of 10 n) \<noteq> CHR ''0''" by (intro digits_of_hd) simp_all
  moreover have "parse_nat 10 (digits_of 10 n) = Some n"
    by (simp add: parse_nat_def digits_val_digits_of)
  ultimately show ?thesis
    by (cases "digits_of 10 n" rule: remdups_adj.cases) (simp_all add: aton_part_def)
qed


lemma aton_parts_quad:
  "aton_parts 4 [digits_of 10 (unat a), digits_of 10 (unat b), digits_of 10 (unat c), digits_of 10 (unat d)]
     = Some [a, b, c, d]" for a b c d :: byte
  by (simp add: aton_part_str)

lemma str_int_byte: "str_int (uint (w :: byte)) = digits_of 10 (unat w)"
  using uint_nonnegative [of w] by (simp add: str_int_def)

lemma digits_of_plain:
  assumes "c \<in> set (digits_of 10 n)"
  shows "\<not> is_space c" and "c \<noteq> CHR ''.''"
proof -
  have c: "c \<in> set ''0123456789abcdef''"
    by (rule subsetD [OF digits_of_chars assms]) simp_all
  show "\<not> is_space c" by (rule plain_digit(1) [OF c])
  show "c \<noteq> CHR ''.''" using plain_digit(2) [OF c] by auto
qed

lemma digits_of_no_dot: "CHR ''.'' \<notin> set (digits_of 10 n)"
  using digits_of_plain(2) by blast

lemma inet_aton_ntoa: "length b = 4 \<Longrightarrow> inet_aton (bytes_of_str (inet_ntoa b)) = Inr b"
proof -
  assume "length b = 4"
  then obtain w x y z where b: "b = [w, x, y, z]"
    by (auto simp: length_Suc_conv numeral_eq_Suc)
  let ?d = "\<lambda>w :: byte. digits_of 10 (unat w)"
  have s: "inet_ntoa b = ?d w @ CHR ''.'' # ?d x @ CHR ''.'' # ?d y @ CHR ''.'' # ?d z"
    by (simp add: inet_ntoa_def b str_int_byte)
  have "\<not> is_space (CHR ''.'')" by (simp add: is_space_def)
  then have "\<forall>c \<in> set (inet_ntoa b). \<not> is_space c"
    unfolding s using digits_of_plain(1) by auto
  then have t: "takeWhile (\<lambda>c. \<not> is_space c) (inet_ntoa b) = inet_ntoa b"
    by (simp only: takeWhile_eq_all_conv)
  have "split_on (CHR ''.'') (inet_ntoa b) = [?d w, ?d x, ?d y, ?d z]"
    unfolding s by (simp add: split_on_append split_on_no_sep digits_of_no_dot)
  then show ?thesis
    unfolding inet_aton_def str_bytes_inverse t by (simp only: aton_parts_quad b need_Some)
qed

lemma inet_ntoa_length: "length b = 4 \<Longrightarrow> 7 \<le> length (inet_ntoa b)"
proof -
  assume "length b = 4"
  then obtain w x y z where b: "b = [w, x, y, z]"
    by (auto simp: length_Suc_conv numeral_eq_Suc)
  have "1 \<le> length (digits_of 10 n)" for n
    by (simp add: Suc_le_eq)
  from this [of "unat w"] this [of "unat x"] this [of "unat y"] this [of "unat z"]
  show ?thesis by (simp add: inet_ntoa_def b str_int_byte)
qed

text \<open>
  the printed form of any IPv4 address object the class can build is read back as the same
  address.
\<close>

theorem IPAddr_str_roundtrip:
  "ip_wf i \<Longrightarrow> IPAddr_init (IpStr (bytes_of_str (ip_toStr i))) False = Inr i"
proof -
  assume w: "ip_wf i"
  have l: "length (ip_toStr i) \<noteq> 4"
    using inet_ntoa_length [of "ip_toRaw i"] by (simp add: ip_toStr_def ip_toRaw_def)
  have "int (be_val (rev (ip_toRaw i))) = ip_value i mod 2 ^ 32"
    by (simp only: ip_toRaw_def native_I_def rev_rev_ident) (intro be_val_be_bytes4, simp_all)
  then have "unpack_native_i (ip_toRaw i) = ip_value i"
    using w to_signed32_id [of "ip_value i"]
    by (simp add: unpack_native_i_def to_signed32_def ip_wf_def)
  then show ?thesis
    using l inet_aton_ntoa [of "ip_toRaw i"]
    by (simp add: IPAddr_init_def ip_toStr_def ip_toRaw_def)
qed

theorem IPAddr_str_roundtrip_witness:
  "IPAddr_init (IpStr (bytes_of_str (ip_toStr (ip_of_int 0x0a000001)))) False = Inr (ip_of_int 0x0a000001)"
  using IPAddr_str_roundtrip [OF ip_wf_of_int] .

text \<open>The netmask loop always stops: fuel 33 is enough for every mask.\<close>

lemma netmask_loop_shift:
  "k \<le> 32 \<Longrightarrow> m mod 2 ^ k = 0 \<Longrightarrow> netmask_loop (Suc (32 - k)) m b \<noteq> None"
proof (induction "32 - k" arbitrary: k m b)
  case 0
  then have k: "k = 32" by simp
  have "take_bit 32 m = 0" using 0(3) k by (simp add: take_bit_eq_mod)
  then have "\<not> bit m 31" using bit_take_bit_iff [of 32 m 31] by simp
  then have "m AND push_bit 31 1 = 0" by (simp only: push_bit_of_1 and_exp_eq_0_iff_not_bit not_False_eq_True)
  then show ?case by (simp add: k)
next
  case (Suc j)
  then have "netmask_loop (Suc (32 - Suc k)) (push_bit 1 m) (b + 1) \<noteq> None"
    by (intro Suc.hyps(1)) (auto simp: push_bit_eq_mult)
  moreover have "32 - k = Suc (32 - Suc k)" using Suc by simp
  ultimately show ?case by simp
qed

lemma netmask_loop_stops: "netmask_loop 33 m 0 \<noteq> None"
  using netmask_loop_shift [of 0 m 0] by simp


lemma and_top_bits:
  assumes "0 \<le> (a :: int)" and "a < 2 ^ (k + j)"
  shows "a AND push_bit k (mask j) = push_bit k c \<longleftrightarrow> a div 2 ^ k = c"
proof -
  have "a AND push_bit k (mask j) = push_bit k (take_bit j (drop_bit k a))"
    by (rule bit_eqI) (auto simp: bit_simps)
  moreover have "take_bit j (drop_bit k a) = a div 2 ^ k"
  proof -
    have "a div 2 ^ k < 2 ^ j"
    proof (rule ccontr)
      assume "\<not> a div 2 ^ k < 2 ^ j"
      then have "2 ^ j * 2 ^ k \<le> a div 2 ^ k * 2 ^ k" by (intro mult_right_mono) simp_all
      also have "\<dots> \<le> a" by (simp add: minus_mod_eq_div_mult [symmetric])
      finally show False using assms(2) by (simp add: power_add mult.commute)
    qed
    moreover have "0 \<le> a div 2 ^ k" using assms(1) by (simp add: pos_imp_zdiv_nonneg_iff)
    ultimately show ?thesis by (simp add: take_bit_int_eq_self drop_bit_eq_div)
  qed
  ultimately show ?thesis by (simp add: push_bit_eq_mult)
qed

lemma ip_u_class:
  "ip_u i AND push_bit 31 1 = 0 \<longleftrightarrow> ip_u i div 2 ^ 31 = 0"
  "ip_u i AND push_bit 30 3 = push_bit 30 2 \<longleftrightarrow> ip_u i div 2 ^ 30 = 2"
  "ip_u i AND push_bit 29 7 = push_bit 29 6 \<longleftrightarrow> ip_u i div 2 ^ 29 = 6"
  "ip_u i AND push_bit 28 15 = push_bit 28 14 \<longleftrightarrow> ip_u i div 2 ^ 28 = 14"
  using and_top_bits [of "ip_u i" 31 1 0] and_top_bits [of "ip_u i" 30 2 2]
    and_top_bits [of "ip_u i" 29 3 6] and_top_bits [of "ip_u i" 28 4 14]
  by (simp_all add: mask_eq_exp_minus_1)

lemma inferNetMask_cases:
  "inferNetMask i =
     (let a = ip_u i in
      if a = 0 then Some 32 else if a < 0x80000000 then Some 24 else if a < 0xC0000000 then Some 16
      else if a < 0xE0000000 then Some 8 else if a < 0xF0000000 then Some 0 else None)"
proof -
  have b: "0 \<le> ip_u i" "ip_u i < 2 ^ 32" by (rule ip_u_bounds)+
  have "ip_u i div 2 ^ 31 = 0 \<longleftrightarrow> ip_u i < 0x80000000"
    "ip_u i div 2 ^ 30 = 2 \<longleftrightarrow> 0x80000000 \<le> ip_u i \<and> ip_u i < 0xC0000000"
    "ip_u i div 2 ^ 29 = 6 \<longleftrightarrow> 0xC0000000 \<le> ip_u i \<and> ip_u i < 0xE0000000"
    "ip_u i div 2 ^ 28 = 14 \<longleftrightarrow> 0xE0000000 \<le> ip_u i \<and> ip_u i < 0xF0000000"
    using b by auto
  then show ?thesis unfolding inferNetMask_def Let_def ip_u_class by auto
qed

lemma cidr_check_ok:
  "cidr_check r b = Inr (i, w) \<longleftrightarrow> i = r \<and> w = b \<and> 0 \<le> b \<and> ip_u r mod 2 ^ nat b = 0"
  unfolding cidr_check_def and_low_mask by auto

text \<open>Numbers and addresses in text\<close>

lemma digits_not_space: "2 \<le> base \<Longrightarrow> base \<le> 16 \<Longrightarrow> c \<in> set (digits_of base n) \<Longrightarrow> \<not> is_space c"
  using digits_of_chars [of base n] by (auto simp: is_space_def)

lemma strip_str_id: "(\<And>c. c \<in> set s \<Longrightarrow> \<not> is_space c) \<Longrightarrow> strip_str s = s"
proof -
  assume s: "\<And>c. c \<in> set s \<Longrightarrow> \<not> is_space c"
  have "dropWhile is_space t = t" if "set t \<subseteq> set s" for t using that s by (cases t) auto
  then show ?thesis by (simp add: strip_str_def)
qed

lemma py_int_digits:
  assumes "2 \<le> base" "base \<le> 16"
  shows "py_int base (digits_of base n) = Inr (int n)"
proof -
  let ?s = "digits_of base n"
  have chars: "set ?s \<subseteq> set ''0123456789abcdef''" by (rule digits_of_chars [OF assms])
  have strip: "strip_str ?s = ?s" by (rule strip_str_id) (rule digits_not_space [OF assms])
  obtain c r where s: "?s = c # r" by (cases ?s) auto
  have c: "c \<noteq> CHR ''-''" "c \<noteq> CHR ''+''" using chars by (auto simp: s)
  have "drop_0x base ?s = ?s" using chars by (auto simp: s drop_0x_def split: list.split)
  moreover have "parse_nat base ?s = Some n" using digits_val_digits_of [OF assms] by (simp add: parse_nat_def)
  ultimately show ?thesis using c strip by (simp add: py_int_def Let_def s)
qed

lemma digits_val_stuck: "digit_val c = None \<Longrightarrow> digits_val base (s @ c # r) acc = None"
  by (induction base s acc rule: digits_val.induct) (simp_all split: option.splits)

lemma ip_toStr_quad: "\<exists>a b c d. ip_toStr i = digits_of 10 a @ ''.'' @ digits_of 10 b @ ''.'' @ digits_of 10 c @ ''.'' @ digits_of 10 d"
proof -
  have "length (ip_toRaw i) = 4" by (simp add: ip_toRaw_def native_I_def)
  then obtain w x y z where b: "ip_toRaw i = [w, x, y, z]" by (auto simp: length_Suc_conv numeral_eq_Suc)
  show ?thesis by (intro exI [of _ "unat w"] exI [of _ "unat x"] exI [of _ "unat y"] exI [of _ "unat z"])
    (simp add: ip_toStr_def inet_ntoa_def b str_int_byte)
qed

lemma digits_of_no_slash: "CHR ''/'' \<notin> set (digits_of 10 n)"
  using digits_of_chars [of 10 n] by auto

lemma ip_toStr_no_slash: "CHR ''/'' \<notin> set (ip_toStr i)"
  using ip_toStr_quad [of i] digits_of_no_slash by auto

text \<open>The text of a netmask is not a number.\<close>

lemma py_int_quad: "py_int 10 (ip_toStr i) = Inl ValueError"
proof -
  obtain a b c d where q: "ip_toStr i = digits_of 10 a @ ''.'' @ digits_of 10 b @ ''.'' @ digits_of 10 c @ ''.'' @ digits_of 10 d"
    using ip_toStr_quad by blast
  have "\<not> is_space (CHR ''.'')" by (simp add: is_space_def)
  then have strip: "strip_str (ip_toStr i) = ip_toStr i" unfolding q using digits_of_plain(1) by (intro strip_str_id) auto
  obtain k r where h: "digits_of 10 a = k # r" by (cases "digits_of 10 a") auto
  then have "k \<in> set ''0123456789abcdef''" using digits_of_chars [of 10 a] by auto
  then have k: "k \<noteq> CHR ''-''" "k \<noteq> CHR ''+''" by auto
  have "digit_val (CHR ''.'') = None" by (simp add: digit_val_def Let_def)
  then have "parse_nat 10 (ip_toStr i) = None" using digits_val_stuck [of "CHR ''.''" 10 "digits_of 10 a"] by (simp add: q parse_nat_def)
  moreover have "drop_0x 10 (ip_toStr i) = ip_toStr i" by (simp add: drop_0x_def split: list.split)
  moreover have "\<exists>r. ip_toStr i = k # r" by (simp add: q h)
  ultimately show ?thesis using k strip by (auto simp: py_int_def Let_def)
qed

text \<open>The loop counts the ones of the mask of a prefix.\<close>

definition prefix_mask :: "nat \<Rightarrow> int" where
  "prefix_mask p = push_bit (32 - p) (mask p)"

lemma netmask_loop_counts:
  "p \<le> 32 \<Longrightarrow> k \<le> p \<Longrightarrow> netmask_loop (Suc (p - k)) (push_bit k (prefix_mask p)) b = Some (push_bit p (prefix_mask p), b + int (p - k))"
proof (induction "p - k" arbitrary: k b)
  case 0
  then have "\<not> bit (push_bit k (prefix_mask p)) 31" by (auto simp: prefix_mask_def bit_simps)
  then have "push_bit k (prefix_mask p) AND push_bit 31 1 = 0" by (simp only: push_bit_of_1 and_exp_eq_0_iff_not_bit not_False_eq_True)
  then show ?case using 0 by simp
next
  case (Suc j)
  then have "bit (push_bit k (prefix_mask p)) 31" by (auto simp: prefix_mask_def bit_simps)
  then have "push_bit k (prefix_mask p) AND push_bit 31 1 \<noteq> 0" by (simp only: push_bit_of_1 and_exp_eq_0_iff_not_bit) simp
  moreover have "push_bit 1 (push_bit k (prefix_mask p)) = push_bit (Suc k) (prefix_mask p)" by (simp add: push_bit_push_bit add.commute)
  moreover have "netmask_loop (Suc (p - Suc k)) (push_bit (Suc k) (prefix_mask p)) (b + 1) = Some (push_bit p (prefix_mask p), (b + 1) + int (p - Suc k))"
    using Suc by (intro Suc.hyps(1)) auto
  moreover have "p - k = Suc (p - Suc k)" using Suc.hyps(2) by simp
  ultimately show ?case by simp
qed

lemma netmask_loop_more: "netmask_loop n m b = Some r \<Longrightarrow> n \<le> n' \<Longrightarrow> netmask_loop n' m b = Some r"
proof (induction n m b arbitrary: n' rule: netmask_loop.induct)
  case (2 n m b)
  then show ?case by (cases n') (auto split: if_splits)
qed simp

lemma prefix_mask_loop:
  assumes "p \<le> 32"
  shows "netmask_loop 33 (prefix_mask p) 0 = Some (push_bit p (prefix_mask p), int p)" "push_bit p (prefix_mask p) AND 0x7fffffff = 0"
proof -
  have "netmask_loop (Suc p) (prefix_mask p) 0 = Some (push_bit p (prefix_mask p), int p)"
    using netmask_loop_counts [of p 0 0] assms by (simp del: netmask_loop.simps)
  then show "netmask_loop 33 (prefix_mask p) 0 = Some (push_bit p (prefix_mask p), int p)"
    by (rule netmask_loop_more) (use assms in simp)
  have "(0x7fffffff :: int) = mask 31" by (simp add: mask_eq_exp_minus_1)
  moreover have "push_bit p (prefix_mask p) AND mask 31 = 0" using assms by (intro bit_eqI) (auto simp: prefix_mask_def bit_simps)
  ultimately show "push_bit p (prefix_mask p) AND 0x7fffffff = 0" by simp
qed

lemma prefix_mask_u: "p \<le> 32 \<Longrightarrow> ip_u (ip_of_int (prefix_mask p)) = prefix_mask p"
proof -
  assume "p \<le> 32"
  then have "take_bit 32 (prefix_mask p) = prefix_mask p" by (intro bit_eqI) (auto simp: prefix_mask_def bit_simps)
  then show ?thesis by (simp add: ip_u_of_int take_bit_eq_mod)
qed

lemma cidr_check_prefix: "0 \<le> w \<Longrightarrow> cidr_check i w = (if ip_u i mod 2 ^ nat w = 0 then Inr (i, w) else Inl RuntimeError)"
  unfolding cidr_check_def and_low_mask by simp

lemma high_part:
  assumes "0 < d" "y mod d = (0 :: int)"
  shows "x - x mod d = y \<longleftrightarrow> x div d = y div d"
proof -
  have "x - x mod d = x div d * d" "y = y div d * d" using assms(2) minus_mod_eq_div_mult [of y d] by (simp_all add: minus_mod_eq_div_mult)
  then show ?thesis using assms(1) by (metis mult_cancel_right less_irrefl)
qed

text \<open>
  C28: Networks are read as they are written.  An address and a prefix length, or an address and the netmask of that length, with a slash between, give the
  address and the rest of the 32 bits, or a \<open>RuntimeError\<close> when a bit of the host part is set; an address alone gives the bits of its
  class, or none when one of them is set, and raises for class E, where the function returns \<open>None\<close>.  An address is in the network that was
  read exactly when the bits of the prefix are the same.
\<close>

theorem parseCIDR_reads:
  assumes "ip_wf i" "p \<le> 32"
  defines "net \<equiv> (if ip_u i mod 2 ^ (32 - p) = 0 then Inr (i, 32 - int p) else Inl RuntimeError)"
  shows "parseCIDR (bytes_of_str (ip_toStr i @ ''/'' @ str_int (int p))) infer = net
    \<and> parseCIDR (bytes_of_str (ip_toStr i @ ''/'' @ ip_toStr (ip_of_int (prefix_mask p)))) infer = net
    \<and> parseCIDR (bytes_of_str (ip_toStr i)) False = Inr (i, 0)
    \<and> parseCIDR (bytes_of_str (ip_toStr i)) True =
       (let a = ip_u i; bits = (if a = 0 then 32 else if a < 0x80000000 then 24 else if a < 0xC0000000 then 16 else if a < 0xE0000000 then 8 else 0 :: nat) in
        if 0xF0000000 \<le> a then Inl TypeError else if a mod 2 ^ bits = 0 then Inr (i, int bits) else Inr (i, 0))
    \<and> (\<forall>j n. net = Inr n \<longrightarrow> inNetwork j n = Inr (ip_u j div 2 ^ (32 - p) = ip_u i div 2 ^ (32 - p)))"
proof (intro conjI allI impI)
  have addr: "IPAddr_init (IpStr (bytes_of_str (ip_toStr i))) False = Inr i" by (rule IPAddr_str_roundtrip [OF assms(1)])
  have wild: "nat (32 - int p) = 32 - p" "0 \<le> 32 - int p" using assms(2) by auto
  have str: "str_int (int p) = digits_of 10 p" by (simp add: str_int_def)
  have split: "split_on (CHR ''/'') (ip_toStr i @ ''/'' @ s) = [ip_toStr i, s]" if "CHR ''/'' \<notin> set s" for s
    using that ip_toStr_no_slash by (simp add: split_on_append split_on_no_sep)
  have alone: "split_on (CHR ''/'') (ip_toStr i) = [ip_toStr i]" using ip_toStr_no_slash by (simp add: split_on_no_sep)
  have check: "cidr_check i (32 - int p) = net" using wild by (simp add: net_def cidr_check_prefix)
  show "parseCIDR (bytes_of_str (ip_toStr i @ ''/'' @ str_int (int p))) infer = net"
    unfolding parseCIDR_def str_bytes_inverse split [OF digits_of_no_slash [of p, folded str]]
    using wild by (simp add: str_bytes_inverse str py_int_digits addr check guard_or_def)
  have mask: "IPAddr_init (IpStr (bytes_of_str (ip_toStr (ip_of_int (prefix_mask p))))) False = Inr (ip_of_int (prefix_mask p))"
    by (rule IPAddr_str_roundtrip) simp
  have "cidr_of_netmask (bytes_of_str (ip_toStr i)) (bytes_of_str (ip_toStr (ip_of_int (prefix_mask p)))) = net"
    unfolding cidr_of_netmask_def mask using prefix_mask_loop [OF assms(2)] wild
    by (simp add: prefix_mask_u [OF assms(2)] addr check guard_or_def)
  then show "parseCIDR (bytes_of_str (ip_toStr i @ ''/'' @ ip_toStr (ip_of_int (prefix_mask p)))) infer = net"
    unfolding parseCIDR_def str_bytes_inverse split [OF ip_toStr_no_slash] by (simp add: str_bytes_inverse py_int_quad)
  show "parseCIDR (bytes_of_str (ip_toStr i)) False = Inr (i, 0)"
    unfolding parseCIDR_def str_bytes_inverse alone by (simp add: addr)
  let ?bits = "if ip_u i = 0 then 32 else if ip_u i < 0x80000000 then 24 else if ip_u i < 0xC0000000 then 16 else if ip_u i < 0xE0000000 then 8 else 0 :: nat"
  have "parseCIDR (bytes_of_str (ip_toStr i)) True =
      (if 0xF0000000 \<le> ip_u i then Inl TypeError else if ip_u i mod 2 ^ k = 0 then Inr (i, int k) else Inr (i, 0))" if "k = ?bits" for k
  proof -
    have "inferNetMask i = (if 0xF0000000 \<le> ip_u i then None else Some (int k))" using that by (simp add: inferNetMask_cases Let_def)
    then show ?thesis unfolding parseCIDR_def str_bytes_inverse alone and_low_mask by (simp add: addr cidr_check_prefix)
  qed
  from this [OF refl] show "parseCIDR (bytes_of_str (ip_toStr i)) True =
       (let a = ip_u i; bits = (if a = 0 then 32 else if a < 0x80000000 then 24 else if a < 0xC0000000 then 16 else if a < 0xE0000000 then 8 else 0 :: nat) in
        if 0xF0000000 \<le> a then Inl TypeError else if a mod 2 ^ bits = 0 then Inr (i, int bits) else Inr (i, 0))"
    unfolding Let_def .
  fix j n
  assume n: "net = Inr n"
  then have m: "n = (i, 32 - int p)" "ip_u i mod 2 ^ (32 - p) = 0" by (auto simp: net_def split: if_split_asm)
  have "ip_u j - ip_u j mod 2 ^ (32 - p) = ip_u i \<longleftrightarrow> ip_u j div 2 ^ (32 - p) = ip_u i div 2 ^ (32 - p)"
    by (rule high_part) (use m(2) in simp_all)
  then show "inNetwork j n = Inr (ip_u j div 2 ^ (32 - p) = ip_u i div 2 ^ (32 - p))" using wild by (simp add: m(1) inNetwork_iff)
qed

theorem parseCIDR_reads_witness:
  "parseCIDR (bytes_of_str ''10.0.0.0/8'') True = Inr (ip_of_int 0x0a000000, 24)
   \<and> parseCIDR (bytes_of_str ''10.0.0.0/255.0.0.0'') True = Inr (ip_of_int 0x0a000000, 24)
   \<and> parseCIDR (bytes_of_str ''10.0.0.0'') True = Inr (ip_of_int 0x0a000000, 24)
   \<and> inNetwork (ip_of_int 0x0a010203) (ip_of_int 0x0a000000, 24) = Inr True"
proof -
  have "ip_toRaw (ip_of_int 0x0a000000) = [10, 0, 0, 0]" "ip_toRaw (ip_of_int (prefix_mask 8)) = [255, 0, 0, 0]"
    by (simp_all add: ip_toRaw_def ip_of_int_def htonl_def native_I_def be_val_def be_bytes_numeral to_signed32_def prefix_mask_def mask_eq_exp_minus_1 push_bit_eq_mult)
  then have "ip_toStr (ip_of_int 0x0a000000) = ''10.0.0.0''" "ip_toStr (ip_of_int (prefix_mask 8)) = ''255.0.0.0''" "str_int (int 8) = ''8''"
    by (simp_all add: ip_toStr_def inet_ntoa_def str_int_def digits_of.simps digit_char_def)
  moreover have "ip_u (ip_of_int 0x0a000000) = 0x0a000000" "ip_u (ip_of_int 0x0a010203) = 0x0a010203" by (simp_all add: ip_u_of_int)
  moreover have "ip_wf (ip_of_int 0x0a000000)" "8 \<le> (32 :: nat)" by simp_all
  ultimately show ?thesis
    using parseCIDR_reads [of "ip_of_int 0x0a000000" 8 True] by (simp add: Let_def)
qed

lemma EthAddr_cmp_zero_iff: "EthAddr_cmp a b = 0 \<longleftrightarrow> a = b"
  by (cases a; cases b) (simp add: EthAddr_cmp_def)

end
