(* ===== verification/Of_Core.thy ===== *)
theory Of_Core
  imports Addresses
begin

text \<open>
  \<open>pox/openflow/libopenflow_01.py\<close>, first part: the numbered constants and their
  \<open>*_rev_map\<close> tables, transaction identifiers, the message header every OpenFlow
  message inherits (a record the messages extend), physical ports and queue structures.
  Packing a header takes the module-level counter \<open>_nextXID\<close> and returns it updated.
\<close>

section \<open>Constants\<close>

abbreviation (input) OFP_VERSION :: int where "OFP_VERSION \<equiv> 1"
abbreviation (input) OFP_DEFAULT_PRIORITY :: int where "OFP_DEFAULT_PRIORITY \<equiv> 0x8000"
abbreviation (input) OFP_VLAN_NONE :: int where "OFP_VLAN_NONE \<equiv> 0xffff"
abbreviation (input) OFP_DEFAULT_MISS_SEND_LEN :: int where "OFP_DEFAULT_MISS_SEND_LEN \<equiv> 128"
abbreviation (input) OFP_PHY_PORT_BYTES :: nat where "OFP_PHY_PORT_BYTES \<equiv> 48"
abbreviation (input) TABLE_ALL :: int where "TABLE_ALL \<equiv> 0xff"
abbreviation (input) MAX_XID :: int where "MAX_XID \<equiv> 0x7fffffff"

abbreviation (input) OFPT_HELLO :: int where "OFPT_HELLO \<equiv> 0"
abbreviation (input) OFPT_ERROR :: int where "OFPT_ERROR \<equiv> 1"
abbreviation (input) OFPT_ECHO_REQUEST :: int where "OFPT_ECHO_REQUEST \<equiv> 2"
abbreviation (input) OFPT_ECHO_REPLY :: int where "OFPT_ECHO_REPLY \<equiv> 3"
abbreviation (input) OFPT_VENDOR :: int where "OFPT_VENDOR \<equiv> 4"
abbreviation (input) OFPT_FEATURES_REQUEST :: int where "OFPT_FEATURES_REQUEST \<equiv> 5"
abbreviation (input) OFPT_FEATURES_REPLY :: int where "OFPT_FEATURES_REPLY \<equiv> 6"
abbreviation (input) OFPT_GET_CONFIG_REQUEST :: int where "OFPT_GET_CONFIG_REQUEST \<equiv> 7"
abbreviation (input) OFPT_GET_CONFIG_REPLY :: int where "OFPT_GET_CONFIG_REPLY \<equiv> 8"
abbreviation (input) OFPT_SET_CONFIG :: int where "OFPT_SET_CONFIG \<equiv> 9"
abbreviation (input) OFPT_PACKET_IN :: int where "OFPT_PACKET_IN \<equiv> 10"
abbreviation (input) OFPT_FLOW_REMOVED :: int where "OFPT_FLOW_REMOVED \<equiv> 11"
abbreviation (input) OFPT_PORT_STATUS :: int where "OFPT_PORT_STATUS \<equiv> 12"
abbreviation (input) OFPT_PACKET_OUT :: int where "OFPT_PACKET_OUT \<equiv> 13"
abbreviation (input) OFPT_FLOW_MOD :: int where "OFPT_FLOW_MOD \<equiv> 14"
abbreviation (input) OFPT_PORT_MOD :: int where "OFPT_PORT_MOD \<equiv> 15"
abbreviation (input) OFPT_STATS_REQUEST :: int where "OFPT_STATS_REQUEST \<equiv> 16"
abbreviation (input) OFPT_STATS_REPLY :: int where "OFPT_STATS_REPLY \<equiv> 17"
abbreviation (input) OFPT_BARRIER_REQUEST :: int where "OFPT_BARRIER_REQUEST \<equiv> 18"
abbreviation (input) OFPT_BARRIER_REPLY :: int where "OFPT_BARRIER_REPLY \<equiv> 19"
abbreviation (input) OFPT_QUEUE_GET_CONFIG_REQUEST :: int where "OFPT_QUEUE_GET_CONFIG_REQUEST \<equiv> 20"
abbreviation (input) OFPT_QUEUE_GET_CONFIG_REPLY :: int where "OFPT_QUEUE_GET_CONFIG_REPLY \<equiv> 21"

definition ofp_type_rev_map :: "(string \<times> int) list" where
  "ofp_type_rev_map =
     [(''OFPT_HELLO'', 0), (''OFPT_ERROR'', 1), (''OFPT_ECHO_REQUEST'', 2), (''OFPT_ECHO_REPLY'', 3),
      (''OFPT_VENDOR'', 4), (''OFPT_FEATURES_REQUEST'', 5), (''OFPT_FEATURES_REPLY'', 6),
      (''OFPT_GET_CONFIG_REQUEST'', 7), (''OFPT_GET_CONFIG_REPLY'', 8), (''OFPT_SET_CONFIG'', 9),
      (''OFPT_PACKET_IN'', 10), (''OFPT_FLOW_REMOVED'', 11), (''OFPT_PORT_STATUS'', 12),
      (''OFPT_PACKET_OUT'', 13), (''OFPT_FLOW_MOD'', 14), (''OFPT_PORT_MOD'', 15),
      (''OFPT_STATS_REQUEST'', 16), (''OFPT_STATS_REPLY'', 17), (''OFPT_BARRIER_REQUEST'', 18),
      (''OFPT_BARRIER_REPLY'', 19), (''OFPT_QUEUE_GET_CONFIG_REQUEST'', 20),
      (''OFPT_QUEUE_GET_CONFIG_REPLY'', 21)]"

abbreviation (input) OFPP_MAX :: int where "OFPP_MAX \<equiv> 65280"
abbreviation (input) OFPP_IN_PORT :: int where "OFPP_IN_PORT \<equiv> 65528"
abbreviation (input) OFPP_TABLE :: int where "OFPP_TABLE \<equiv> 65529"
abbreviation (input) OFPP_NORMAL :: int where "OFPP_NORMAL \<equiv> 65530"
abbreviation (input) OFPP_FLOOD :: int where "OFPP_FLOOD \<equiv> 65531"
abbreviation (input) OFPP_ALL :: int where "OFPP_ALL \<equiv> 65532"
abbreviation (input) OFPP_CONTROLLER :: int where "OFPP_CONTROLLER \<equiv> 65533"
abbreviation (input) OFPP_LOCAL :: int where "OFPP_LOCAL \<equiv> 65534"
abbreviation (input) OFPP_NONE :: int where "OFPP_NONE \<equiv> 65535"

definition ofp_port_rev_map :: "(string \<times> int) list" where
  "ofp_port_rev_map =
     [(''OFPP_MAX'', 65280), (''OFPP_IN_PORT'', 65528), (''OFPP_TABLE'', 65529),
      (''OFPP_NORMAL'', 65530), (''OFPP_FLOOD'', 65531), (''OFPP_ALL'', 65532),
      (''OFPP_CONTROLLER'', 65533), (''OFPP_LOCAL'', 65534), (''OFPP_NONE'', 65535)]"

definition ofp_port_config_rev_map :: "(string \<times> int) list" where
  "ofp_port_config_rev_map =
     [(''OFPPC_PORT_DOWN'', 1), (''OFPPC_NO_STP'', 2), (''OFPPC_NO_RECV'', 4),
      (''OFPPC_NO_RECV_STP'', 8), (''OFPPC_NO_FLOOD'', 16), (''OFPPC_NO_FWD'', 32),
      (''OFPPC_NO_PACKET_IN'', 64)]"

definition ofp_port_state_rev_map :: "(string \<times> int) list" where
  "ofp_port_state_rev_map =
     [(''OFPPS_STP_LISTEN'', 0), (''OFPPS_LINK_DOWN'', 1), (''OFPPS_STP_LEARN'', 256),
      (''OFPPS_STP_FORWARD'', 512), (''OFPPS_STP_BLOCK'', 768)]"

definition ofp_port_features_rev_map :: "(string \<times> int) list" where
  "ofp_port_features_rev_map =
     [(''OFPPF_10MB_HD'', 1), (''OFPPF_10MB_FD'', 2), (''OFPPF_100MB_HD'', 4),
      (''OFPPF_100MB_FD'', 8), (''OFPPF_1GB_HD'', 16), (''OFPPF_1GB_FD'', 32),
      (''OFPPF_10GB_FD'', 64), (''OFPPF_COPPER'', 128), (''OFPPF_FIBER'', 256),
      (''OFPPF_AUTONEG'', 512), (''OFPPF_PAUSE'', 1024), (''OFPPF_PAUSE_ASYM'', 2048)]"

definition ofp_capabilities_rev_map :: "(string \<times> int) list" where
  "ofp_capabilities_rev_map =
     [(''OFPC_FLOW_STATS'', 1), (''OFPC_TABLE_STATS'', 2), (''OFPC_PORT_STATS'', 4),
      (''OFPC_STP'', 8), (''OFPC_RESERVED'', 16), (''OFPC_IP_REASM'', 32),
      (''OFPC_QUEUE_STATS'', 64), (''OFPC_ARP_MATCH_IP'', 128)]"

definition ofp_flow_mod_command_rev_map :: "(string \<times> int) list" where
  "ofp_flow_mod_command_rev_map =
     [(''OFPFC_ADD'', 0), (''OFPFC_MODIFY'', 1), (''OFPFC_MODIFY_STRICT'', 2),
      (''OFPFC_DELETE'', 3), (''OFPFC_DELETE_STRICT'', 4)]"

abbreviation (input) OFPFC_ADD :: int where "OFPFC_ADD \<equiv> 0"
abbreviation (input) OFPFC_MODIFY :: int where "OFPFC_MODIFY \<equiv> 1"
abbreviation (input) OFPFC_MODIFY_STRICT :: int where "OFPFC_MODIFY_STRICT \<equiv> 2"
abbreviation (input) OFPFC_DELETE :: int where "OFPFC_DELETE \<equiv> 3"
abbreviation (input) OFPFC_DELETE_STRICT :: int where "OFPFC_DELETE_STRICT \<equiv> 4"
abbreviation (input) OFPFF_CHECK_OVERLAP :: int where "OFPFF_CHECK_OVERLAP \<equiv> 2"

definition ofp_error_type_rev_map :: "(string \<times> int) list" where
  "ofp_error_type_rev_map =
     [(''OFPET_HELLO_FAILED'', 0), (''OFPET_BAD_REQUEST'', 1), (''OFPET_BAD_ACTION'', 2),
      (''OFPET_FLOW_MOD_FAILED'', 3), (''OFPET_PORT_MOD_FAILED'', 4), (''OFPET_QUEUE_OP_FAILED'', 5)]"

definition ofp_bad_request_code_rev_map :: "(string \<times> int) list" where
  "ofp_bad_request_code_rev_map =
     [(''OFPBRC_BAD_VERSION'', 0), (''OFPBRC_BAD_TYPE'', 1), (''OFPBRC_BAD_STAT'', 2),
      (''OFPBRC_BAD_VENDOR'', 3), (''OFPBRC_BAD_SUBTYPE'', 4), (''OFPBRC_EPERM'', 5),
      (''OFPBRC_BAD_LEN'', 6), (''OFPBRC_BUFFER_EMPTY'', 7), (''OFPBRC_BUFFER_UNKNOWN'', 8)]"

definition ofp_stats_types_rev_map :: "(string \<times> int) list" where
  "ofp_stats_types_rev_map =
     [(''OFPST_DESC'', 0), (''OFPST_FLOW'', 1), (''OFPST_AGGREGATE'', 2), (''OFPST_TABLE'', 3),
      (''OFPST_PORT'', 4), (''OFPST_QUEUE'', 5), (''OFPST_VENDOR'', 65535)]"

text \<open>\<open>_init\<close>: the forward map of a table, when its values are distinct.\<close>

definition forward_map :: "(string \<times> int) list \<Rightarrow> (int \<times> string) list option" where
  "forward_map m = (if distinct (map snd m) then Some (map (\<lambda>(k, v). (v, k)) m) else None)"

definition ofp_type_known :: "int \<Rightarrow> bool" where
  "ofp_type_known t \<longleftrightarrow> t \<in> set (map snd ofp_type_rev_map)"

lemma ofp_type_known_iff: "ofp_type_known t \<longleftrightarrow> 0 \<le> t \<and> t \<le> 21"
  unfolding ofp_type_known_def ofp_type_rev_map_def by (simp, presburger)

section \<open>Transaction identifiers\<close>

text \<open>\<open>generateXID\<close>: the value returned and the new \<open>_nextXID\<close>; it advances twice.\<close>

definition generateXID :: "int \<Rightarrow> int \<times> int" where
  "generateXID nextXID =
     (let r = nextXID; n1 = nextXID + 1; n2 = (n1 + 1) mod (MAX_XID + 1) in (r, n2))"

text \<open>\<open>xid_generator\<close>: its first state, and one \<open>next()\<close>.\<close>

definition xid_generator :: "int \<Rightarrow> int" where
  "xid_generator start = start mod (MAX_XID + 1)"

definition xid_next :: "int \<Rightarrow> int \<times> int" where
  "xid_next n = (n, (n + 1) mod (MAX_XID + 1))"

definition xid_ok :: "int \<Rightarrow> bool" where
  "xid_ok n \<longleftrightarrow> 0 \<le> n \<and> n \<le> MAX_XID"

lemma generateXID_ok: "xid_ok n \<Longrightarrow> xid_ok (fst (generateXID n)) \<and> xid_ok (snd (generateXID n))"
  by (simp add: generateXID_def xid_ok_def Let_def)

lemma xid_next_ok: "xid_ok n \<Longrightarrow> xid_ok (fst (xid_next n)) \<and> xid_ok (snd (xid_next n))"
  by (simp add: xid_next_def xid_ok_def)

text \<open>The identifiers of \<open>k\<close> successive calls.\<close>

fun xid_run :: "nat \<Rightarrow> int \<Rightarrow> int list" where
  "xid_run 0 n = []"
| "xid_run (Suc k) n = (let (r, n') = generateXID n in r # xid_run k n')"

lemma xid_run_nth:
  "xid_ok n \<Longrightarrow> i < k \<Longrightarrow> xid_run k n ! i = (n + 2 * int i) mod (MAX_XID + 1)"
proof (induction k arbitrary: n i)
  case 0
  then show ?case by simp
next
  case (Suc k)
  show ?case
  proof (cases i)
    case 0
    with Suc.prems show ?thesis
      by (simp add: generateXID_def Let_def xid_ok_def)
  next
    case (Suc j)
    have "xid_ok (snd (generateXID n))" using Suc.prems generateXID_ok by blast
    then have "xid_run k (snd (generateXID n)) ! j
        = (snd (generateXID n) + 2 * int j) mod (MAX_XID + 1)"
      using Suc.IH Suc.prems Suc by simp
    also have "\<dots> = (n + 2 + 2 * int j) mod (MAX_XID + 1)"
      by (simp add: generateXID_def Let_def mod_add_left_eq add.commute [of n 2])
    finally show ?thesis using Suc by (simp add: generateXID_def Let_def algebra_simps)
  qed
qed

lemma xid_run_length [simp]: "length (xid_run k n) = k"
  by (induction k arbitrary: n) (simp_all add: split_beta)

lemma xid_run_distinct_aux:
  "k \<le> 2 ^ 30 \<Longrightarrow> xid_ok n \<Longrightarrow> distinct (xid_run k n)"
proof -
  assume k: "k \<le> 2 ^ 30" and n: "xid_ok n"
  have "i = j" if "i < k" "j < k" "xid_run k n ! i = xid_run k n ! j" for i j
  proof -
    have "(n + 2 * int i) mod 2 ^ 31 = (n + 2 * int j) mod 2 ^ 31"
      using that n xid_run_nth [of n _ k] by simp
    then have "(2 * int i) mod (2 * 2 ^ 30) = (2 * int j) mod (2 * 2 ^ 30)"
      by (simp add: mod_add_cong mod_eq_dvd_iff)
    then have "int i mod 2 ^ 30 = int j mod 2 ^ 30"
      by (simp only: mod_mult_mult1 mult_cancel_left) simp
    then show "i = j" using that k by simp
  qed
  then show ?thesis by (simp add: distinct_conv_nth) blast
qed

text \<open>
  the transaction identifiers of up to \<open>2 ^ 30\<close> successive messages are pairwise different and stay
  within 31 bits, although the counter wraps and advances by two.
\<close>

theorem xids_distinct:
  assumes "k \<le> 2 ^ 30" "xid_ok n"
  shows "distinct (xid_run k n) \<and> list_all (\<lambda>x. 0 \<le> x \<and> x \<le> MAX_XID) (xid_run k n)"
proof
  show "distinct (xid_run k n)" by (rule xid_run_distinct_aux [OF assms])
  have "0 \<le> xid_run k n ! i \<and> xid_run k n ! i \<le> MAX_XID" if "i < k" for i
    using xid_run_nth [OF assms(2) that] pos_mod_bound [of "MAX_XID + 1" "n + 2 * int i"] by simp
  then show "list_all (\<lambda>x. 0 \<le> x \<and> x \<le> MAX_XID) (xid_run k n)"
    by (simp add: list_all_length)
qed

theorem xids_distinct_witness: "distinct (xid_run 1000 1)"
  using xids_distinct [of 1000 1] by (simp add: xid_ok_def)

section \<open>The message header\<close>

record ofp_header =
  version :: int
  header_type :: int
  msg_len :: int
  xid :: "int option"

definition ofp_header_init :: ofp_header where
  "ofp_header_init = \<lparr>version = OFP_VERSION, header_type = 0, msg_len = 8, xid = None\<rparr>"

definition ofp_header_assert :: "'a ofp_header_scheme \<Rightarrow> bool" where
  "ofp_header_assert h \<longleftrightarrow> ofp_type_known (header_type h)"

text \<open>\<open>if self.xid is None: self.xid = generateXID()\<close>\<close>

definition assign_xid :: "int \<Rightarrow> 'a ofp_header_scheme \<Rightarrow> 'a ofp_header_scheme \<times> int" where
  "assign_xid nx h =
     (case xid h of Some _ \<Rightarrow> (h, nx)
      | None \<Rightarrow> (let (r, nx') = generateXID nx in (h\<lparr>xid := Some r\<rparr>, nx')))"


definition ofp_header_pack ::
  "int \<Rightarrow> 'a ofp_header_scheme \<Rightarrow> (bytes \<times> 'a ofp_header_scheme \<times> int) res" where
  "ofp_header_pack nx h =
     (let (h', nx') = assign_xid nx h in
      if \<not> ofp_header_assert h' then Inl RuntimeError
      else rbind (need StructError (xid h')) (\<lambda>x.
           rmap (\<lambda>b. (b, h', nx'))
             (struct_pack [FB, FB, FH, FL] [version h', header_type h', msg_len h', x])))"

definition ofp_header_unpack ::
  "'a ofp_header_scheme \<Rightarrow> bytes \<Rightarrow> ('a ofp_header_scheme \<times> bytes) res" where
  "ofp_header_unpack h b =
     (if length b < 8 then Inr (h, b)
      else rbind (struct_unpack_from [FB, FB, FH, FL] b 0) (\<lambda>vs. case vs of
             [v, t, l, x] \<Rightarrow>
               Inr (h\<lparr>version := v, header_type := t, msg_len := l, xid := Some x\<rparr>, drop 8 b)
           | _ \<Rightarrow> Inl ValueError))"

definition ofp_header_eq :: "'a ofp_header_scheme \<Rightarrow> 'b ofp_header_scheme \<Rightarrow> bool" where
  "ofp_header_eq a b \<longleftrightarrow> version a = version b \<and> header_type a = header_type b
     \<and> msg_len a = msg_len b \<and> xid a = xid b"

lemma ofp_header_pack_Inr [res_simps]:
  "ofp_header_pack nx h = Inr (b, h', nx') \<longleftrightarrow>
     (h', nx') = assign_xid nx h \<and> ofp_header_assert h' \<and>
     (\<exists>x. xid h' = Some x \<and>
       struct_pack [FB, FB, FH, FL] [version h', header_type h', msg_len h', x] = Inr b)"
  by (auto simp: ofp_header_pack_def Let_def res_simps split: prod.splits)

lemma assign_xid_fields [simp]:
  "version (fst (assign_xid nx h)) = version h" "header_type (fst (assign_xid nx h)) = header_type h"
  "msg_len (fst (assign_xid nx h)) = msg_len h"
  by (simp_all add: assign_xid_def split: option.splits prod.splits)

lemma assign_xid_more [simp]:
  "ofp_header.more (fst (assign_xid nx h)) = ofp_header.more h"
  by (simp add: assign_xid_def split: option.splits prod.splits)

lemma ofp_header_pack_length:
  "ofp_header_pack nx h = Inr (b, h', nx') \<Longrightarrow> length b = 8"
  by (auto simp: ofp_header_pack_Inr dest: struct_pack_length)

lemma ofp_header_unpack_pack:
  assumes "ofp_header_pack nx h = Inr (b, h', nx')"
  shows "ofp_header_unpack y (b @ rest)
     = Inr (y\<lparr>version := version h', header_type := header_type h', msg_len := msg_len h', xid := xid h'\<rparr>, rest)"
proof -
  from assms obtain x where x: "xid h' = Some x"
    and p: "struct_pack [FB, FB, FH, FL] [version h', header_type h', msg_len h', x] = Inr b"
    by (auto simp: ofp_header_pack_Inr)
  have "length b = 8" using struct_pack_length [OF p] by simp
  then show ?thesis
    using struct_unpack_from_hit [OF p, of rest] x by (simp add: ofp_header_unpack_def)
qed

lemma ofp_header_pack_ok:
  assumes "xid_ok nx" "0 \<le> version h" "version h < 256" "0 \<le> header_type h" "header_type h \<le> 21"
    "0 \<le> msg_len h" "msg_len h < 65536" "\<And>x. xid h = Some x \<Longrightarrow> 0 \<le> x \<and> x < 2 ^ 32"
  shows "is_ok (ofp_header_pack nx h)"
  using assms
  by (cases "xid h")
    (auto simp: ofp_header_pack_def assign_xid_def ofp_header_assert_def ofp_type_known_iff
      generateXID_def Let_def in_range_def xid_ok_def struct_pack.simps)

section \<open>Physical ports\<close>

record ofp_phy_port =
  pp_port_no :: int
  pp_hw_addr :: hwaddr
  pp_name :: bytes
  pp_config :: int
  pp_state :: int
  pp_curr :: int
  pp_advertised :: int
  pp_supported :: int
  pp_peer :: int

definition ofp_phy_port_init :: ofp_phy_port where
  "ofp_phy_port_init = \<lparr>pp_port_no = 0, pp_hw_addr = HwEth EMPTY_ETH, pp_name = [], pp_config = 0,
     pp_state = 0, pp_curr = 0, pp_advertised = 0, pp_supported = 0, pp_peer = 0\<rparr>"

definition ofp_phy_port_assert :: "ofp_phy_port \<Rightarrow> bool" where
  "ofp_phy_port_assert p \<longleftrightarrow> hw_len (pp_hw_addr p) = 6 \<and> length (pp_name p) \<le> 16"

definition ofp_phy_port_pack :: "bool \<Rightarrow> ofp_phy_port \<Rightarrow> bytes option res" where
  "ofp_phy_port_pack assertstruct p =
     (if assertstruct \<and> \<not> ofp_phy_port_assert p then Inr None
      else rmap Some (rconcat
        [struct_pack [FH] [pp_port_no p],
         Inr (hw_raw (pp_hw_addr p)),
         Inr (ljust0 16 (pp_name p)),
         struct_pack [FL, FL, FL, FL, FL, FL]
           [pp_config p, pp_state p, pp_curr p, pp_advertised p, pp_supported p, pp_peer p]]))"

definition ofp_phy_port_unpack :: "ofp_phy_port \<Rightarrow> bytes \<Rightarrow> (ofp_phy_port \<times> bytes) res" where
  "ofp_phy_port_unpack p b =
     (if length b < 48 then Inr (p, b)
      else rbind (struct_unpack_from [FH] b 0) (\<lambda>us.
           rbind (EthAddr_init (EthStr (bslice 2 8 b))) (\<lambda>e.
           rbind (struct_unpack_from [FL, FL, FL, FL, FL, FL] b 24) (\<lambda>vs.
           case (us, vs) of
             ([n], [c, s, cu, a, su, pe]) \<Rightarrow>
               Inr (p\<lparr>pp_port_no := n, pp_hw_addr := HwEth e, pp_name := strip0 (bslice 8 24 b),
                      pp_config := c, pp_state := s, pp_curr := cu, pp_advertised := a,
                      pp_supported := su, pp_peer := pe\<rparr>, drop 48 b)
           | _ \<Rightarrow> Inl ValueError))))"

definition ofp_phy_port_len :: "ofp_phy_port \<Rightarrow> nat" where
  "ofp_phy_port_len p = 48"

definition ofp_phy_port_eq :: "ofp_phy_port \<Rightarrow> ofp_phy_port \<Rightarrow> bool" where
  "ofp_phy_port_eq a b \<longleftrightarrow> pp_port_no a = pp_port_no b \<and> hw_eq (pp_hw_addr a) (pp_hw_addr b)
     \<and> pp_name a = pp_name b \<and> pp_config a = pp_config b \<and> pp_state a = pp_state b
     \<and> pp_curr a = pp_curr b \<and> pp_advertised a = pp_advertised b
     \<and> pp_supported a = pp_supported b \<and> pp_peer a = pp_peer b"

text \<open>Ports that survive the wire: a six-byte address that is not read as hexadecimal text, a
  name without NUL bytes.\<close>

definition ofp_phy_port_ok :: "ofp_phy_port \<Rightarrow> bool" where
  "ofp_phy_port_ok p \<longleftrightarrow> eth_raw_ok (hw_raw (pp_hw_addr p)) \<and> length (pp_name p) \<le> 16
     \<and> 0 \<notin> set (pp_name p)"

definition ofp_phy_port_norm :: "ofp_phy_port \<Rightarrow> ofp_phy_port" where
  "ofp_phy_port_norm p = p\<lparr>pp_hw_addr := HwEth (EthAddr (hw_raw (pp_hw_addr p)))\<rparr>"

lemma ofp_phy_port_wire:
  "ofp_phy_port_ok p \<Longrightarrow> add_packed (ofp_phy_port_pack True p) = Inr b \<Longrightarrow>
     length b = 48 \<and> ofp_phy_port_unpack y (b @ rest) = Inr (ofp_phy_port_norm p, rest)"
proof -
  assume ok: "ofp_phy_port_ok p" and "add_packed (ofp_phy_port_pack True p) = Inr b"
  then obtain p1 p2 where ps: "struct_pack [FH] [pp_port_no p] = Inr p1"
      "struct_pack [FL, FL, FL, FL, FL, FL]
         [pp_config p, pp_state p, pp_curr p, pp_advertised p, pp_supported p, pp_peer p] = Inr p2"
    and b: "b = p1 @ hw_raw (pp_hw_addr p) @ ljust0 16 (pp_name p) @ p2"
    by (auto simp: ofp_phy_port_pack_def res_simps split: if_splits)
  note l = ps [THEN struct_pack_length, simplified] and h = ps [THEN struct_unpack_from_hit]
  have r: "length (hw_raw (pp_hw_addr p)) = 6" and n: "length (pp_name p) \<le> 16"
    "strip0 (ljust0 16 (pp_name p)) = pp_name p"
    and e: "EthAddr_init (EthStr (hw_raw (pp_hw_addr p))) = Inr (EthAddr (hw_raw (pp_hw_addr p)))"
    using ok by (simp_all add: ofp_phy_port_ok_def eth_raw_ok_def strip0_ljust0 EthAddr_raw)
  show ?thesis
    by (simp add: b l h r n e ofp_phy_port_unpack_def ofp_phy_port_norm_def
        struct_unpack_from_skip bslice_simps)
qed

interpretation phy_port: wire_codec ofp_phy_port_ok "\<lambda>p. add_packed (ofp_phy_port_pack True p)"
  ofp_phy_port_norm ofp_phy_port_unpack ofp_phy_port_len
  using ofp_phy_port_wire by unfold_locales (auto simp: ofp_phy_port_len_def)

end
