(* ===== verification/Packets.thy ===== *)
theory Packets
  imports Addresses Py_Struct
begin

text \<open>
  \<open>pox/lib/packet\<close>: the header classes the switch and the match code look into (ethernet,
  vlan, mpls, arp, ipv4, udp, tcp with its options, icmp with echo and unreach), the
  Internet checksum of \<open>packet_utils\<close>, parsing (a constructor call with \<open>raw\<close>) and
  packing (\<open>packet_base.pack\<close>, which writes lengths and checksums into the headers).

  A packet is the tree \<open>packet\<close>: a header record and what its \<open>next\<close> attribute
  holds.  \<open>prev\<close> is the enclosing header, which packing passes down.  The attributes
  \<open>hdr_len\<close> and \<open>payload_len\<close>, which are written and never read outside
  \<open>parse\<close>, are left out.  The payload classes lldp, eapol, dhcp and dns enter through the
  parameter \<open>subs\<close>: whether their constructor raises or succeeds on given bytes,
  what they pack to, and whether their \<open>__str__\<close> raises.
\<close>

section \<open>packet_utils\<close>

text \<open>\<open>array.array('H', data)\<close> on a little-endian host, for an even number of bytes\<close>

fun words16 :: "bytes \<Rightarrow> int list" where
  "words16 (a # b # r) = (uint a + 256 * uint b) # words16 r"
| "words16 _ = []"

definition ntohs :: "int \<Rightarrow> int" where
  "ntohs n = (n mod 256) * 256 + (n div 256) mod 256"

definition sum_skip :: "int list \<Rightarrow> nat option \<Rightarrow> int" where
  "sum_skip arr skip = (\<Sum>i \<leftarrow> [0 ..< length arr]. if skip = Some i then 0 else arr ! i)"

definition checksum :: "bytes \<Rightarrow> int \<Rightarrow> nat option \<Rightarrow> int" where
  "checksum data start skip_word =
     (let odd = length data mod 2 \<noteq> 0;
          arr = words16 (if odd then butlast data else data);
          s1 = start + sum_skip arr skip_word;
          s2 = (if odd then s1 + uint (last data) else s1);
          s3 = drop_bit 16 s2 + (s2 AND 0xffff);
          s4 = s3 + drop_bit 16 s3
      in ntohs (NOT s4 AND 0xffff))"

definition hex04 :: "int \<Rightarrow> string" where
  "hex04 n = (let s = hex_int n in replicate (4 - length s) (CHR ''0'') @ s)"

definition ethtype_to_str :: "int \<Rightarrow> string" where
  "ethtype_to_str t =
     (if t < 0x0600 then ''llc/'' @ hex04 t
      else case map_of [(0x0800, ''IP''), (0x0806, ''ARP''), (0x8035, ''RARP''),
                        (0x8100, ''VLAN''), (0x88cc, ''LLDP'')] t of
             Some s \<Rightarrow> s | None \<Rightarrow> hex_int t)"

definition ipproto_to_str :: "int \<Rightarrow> string" where
  "ipproto_to_str t =
     (case map_of [(0, ''IP''), (1, ''ICMP''), (2, ''IGMP''), (4, ''IPIP''), (6, ''TCP''),
                   (9, ''IGRP''), (17, ''UDP''), (47, ''GRE''), (89, ''OSPF'')] t of
        Some s \<Rightarrow> s | None \<Rightarrow> hex_int t)"

section \<open>Header records\<close>

text \<open>An address attribute that holds an \<open>IPAddr\<close> or a plain number.\<close>

datatype ipval = IvNum int | IvAddr IPAddr

text \<open>\<open>x.toUnsigned()\<close>, which a number does not have\<close>

fun iv_toUnsigned :: "ipval \<Rightarrow> int res" where
  "iv_toUnsigned (IvAddr i) = Inr (ip_u i)"
| "iv_toUnsigned (IvNum n) = Inl AttributeError"

record ethernet =
  eth_dst :: hwaddr
  eth_src :: hwaddr
  eth_type :: int
  eth_raw :: "bytes option"
  eth_parsed :: bool

record vlan =
  vlan_pcp :: int
  vlan_cfi :: int
  vlan_c :: "int option" \<comment> \<open>set by \<open>parse\<close> only\<close>
  vlan_id :: int
  vlan_eth_type :: int
  vlan_raw :: "bytes option"
  vlan_parsed :: bool

record mpls =
  mpls_label :: int
  mpls_tc :: int
  mpls_s :: int
  mpls_ttl :: int
  mpls_raw :: "bytes option"
  mpls_parsed :: bool

record arp =
  arp_hwtype :: int
  arp_prototype :: int
  arp_hwsrc :: hwaddr
  arp_hwdst :: hwaddr
  arp_hwlen :: int
  arp_opcode :: int
  arp_protolen :: int
  arp_protosrc :: ipval
  arp_protodst :: ipval
  arp_raw :: "bytes option"
  arp_parsed :: bool

record ipv4 =
  ipv4_v :: int
  ipv4_hl :: int
  ipv4_tos :: int
  ipv4_iplen :: int
  ipv4_id :: int
  ipv4_flags :: int
  ipv4_frag :: int
  ipv4_ttl :: int
  ipv4_protocol :: int
  ipv4_csum :: int
  ipv4_srcip :: ipval
  ipv4_dstip :: ipval
  ipv4_raw :: "bytes option"
  ipv4_parsed :: bool

record udp =
  udp_srcport :: int
  udp_dstport :: int
  udp_len :: int
  udp_csum :: int
  udp_raw :: "bytes option"
  udp_parsed :: bool

datatype opt_val = OvNone | OvInt int | OvPair int int | OvPairs "(int \<times> int) list" | OvBytes bytes

record tcp_opt =
  opt_type :: int
  opt_val :: opt_val

record tcp =
  tcp_srcport :: int
  tcp_dstport :: int
  tcp_seq :: int
  tcp_ack :: int
  tcp_off :: int
  tcp_res :: int
  tcp_flags :: int
  tcp_win :: int
  tcp_csum :: int
  tcp_urg :: int
  tcp_tcplen :: int
  tcp_options :: "tcp_opt list"
  tcp_raw :: "bytes option"
  tcp_parsed :: bool

text \<open>
  \<open>icmp\<close> and \<open>unreach\<close> do not call \<open>packet_base.__init__\<close>: until \<open>parse\<close> has
  succeeded the attributes \<open>parsed\<close> (\<open>None\<close> here) and \<open>next\<close> do not exist.
\<close>

record icmp =
  icmp_type :: int
  icmp_code :: int
  icmp_csum :: int
  icmp_parsed :: "bool option"

record echo =
  echo_id :: int
  echo_seq :: int
  echo_raw :: "bytes option"
  echo_parsed :: bool

record unreach =
  unreach_unused :: int
  unreach_next_mtu :: int
  unreach_raw :: "bytes option"
  unreach_parsed :: "bool option"

text \<open>
  A packet, or what \<open>next\<close> holds: no such attribute, \<open>None\<close>, bytes, or a header with its
  own \<open>next\<close>.
\<close>

datatype packet =
    NoAttr | NoNext | Bytes bytes
  | Ethernet ethernet packet
  | Vlan vlan packet
  | Mpls mpls packet
  | Arp arp packet
  | Ipv4 ipv4 packet
  | Udp udp packet
  | Tcp tcp packet
  | Icmp icmp packet
  | Echo echo packet
  | Unreach unreach packet
  | Other string bool bytes

record subs =
  sub_new :: "string \<Rightarrow> bytes \<Rightarrow> bool res"
  sub_pack :: "string \<Rightarrow> bytes \<Rightarrow> bytes res"
  sub_str :: "string \<Rightarrow> bool \<Rightarrow> bytes \<Rightarrow> unit res"

definition other_new :: "subs \<Rightarrow> string \<Rightarrow> bytes \<Rightarrow> packet res" where
  "other_new sb klass raw = rmap (\<lambda>parsed. Other klass parsed raw) (sub_new sb klass raw)"

section \<open>packet_base\<close>

fun class_name :: "packet \<Rightarrow> string" where
  "class_name (Ethernet _ _) = ''ethernet''"
| "class_name (Vlan _ _) = ''vlan''"
| "class_name (Mpls _ _) = ''mpls''"
| "class_name (Arp _ _) = ''arp''"
| "class_name (Ipv4 _ _) = ''ipv4''"
| "class_name (Udp _ _) = ''udp''"
| "class_name (Tcp _ _) = ''tcp''"
| "class_name (Icmp _ _) = ''icmp''"
| "class_name (Echo _ _) = ''echo''"
| "class_name (Unreach _ _) = ''unreach''"
| "class_name (Other k _ _) = k"
| "class_name (Bytes _) = ''str''"
| "class_name NoNext = ''NoneType''"
| "class_name NoAttr = []"

fun is_packet :: "packet \<Rightarrow> bool" where
  "is_packet NoAttr = False"
| "is_packet NoNext = False"
| "is_packet (Bytes _) = False"
| "is_packet _ = True"

text \<open>the attribute \<open>parsed\<close>\<close>

fun parsed_attr :: "packet \<Rightarrow> bool option" where
  "parsed_attr (Ethernet h _) = Some (eth_parsed h)"
| "parsed_attr (Vlan h _) = Some (vlan_parsed h)"
| "parsed_attr (Mpls h _) = Some (mpls_parsed h)"
| "parsed_attr (Arp h _) = Some (arp_parsed h)"
| "parsed_attr (Ipv4 h _) = Some (ipv4_parsed h)"
| "parsed_attr (Udp h _) = Some (udp_parsed h)"
| "parsed_attr (Tcp h _) = Some (tcp_parsed h)"
| "parsed_attr (Icmp h _) = icmp_parsed h"
| "parsed_attr (Echo h _) = Some (echo_parsed h)"
| "parsed_attr (Unreach h _) = unreach_parsed h"
| "parsed_attr (Other _ p _) = Some p"
| "parsed_attr _ = None"

text \<open>the attribute \<open>next\<close>\<close>

fun next_of :: "packet \<Rightarrow> packet" where
  "next_of (Ethernet _ n) = n"
| "next_of (Vlan _ n) = n"
| "next_of (Mpls _ n) = n"
| "next_of (Arp _ n) = n"
| "next_of (Ipv4 _ n) = n"
| "next_of (Udp _ n) = n"
| "next_of (Tcp _ n) = n"
| "next_of (Icmp _ n) = n"
| "next_of (Echo _ n) = n"
| "next_of (Unreach _ n) = n"
| "next_of _ = NoNext"

lemma next_of_size: "is_packet (next_of p) \<Longrightarrow> size (next_of p) < size p"
  by (cases p) simp_all

text \<open>\<open>find(proto)\<close>: the first parsed header of the class, from the outermost inwards\<close>

function packet_find :: "string \<Rightarrow> packet \<Rightarrow> packet option res" where
  "packet_find proto p =
     rbind (if class_name p = proto then need AttributeError (parsed_attr p) else Inr False) (\<lambda>hit.
     if hit then Inr (Some p)
     else if next_of p = NoAttr then Inl AttributeError
     else if \<not> is_packet (next_of p) then Inr None
     else rbind (need AttributeError (parsed_attr (next_of p))) (\<lambda>parsed.
          if parsed then packet_find proto (next_of p) else Inr None))"
  by pat_completeness auto

termination
  by (relation "measure (\<lambda>(_, p). size p)") (auto simp: next_of_size)

declare packet_find.simps [simp del]

text \<open>\<open>set_payload\<close>: bytes or a packet\<close>

definition set_payload :: "packet \<Rightarrow> packet \<Rightarrow> packet res" where
  "set_payload p payload =
     (if payload = NoNext \<or> payload = NoAttr then Inl TypeError
      else Inr (case p of
        Ethernet h _ \<Rightarrow> Ethernet h payload
      | Vlan h _ \<Rightarrow> Vlan h payload
      | Mpls h _ \<Rightarrow> Mpls h payload
      | Arp h _ \<Rightarrow> Arp h payload
      | Ipv4 h _ \<Rightarrow> Ipv4 h payload
      | Udp h _ \<Rightarrow> Udp h payload
      | Tcp h _ \<Rightarrow> Tcp h payload
      | Icmp h _ \<Rightarrow> Icmp h payload
      | Echo h _ \<Rightarrow> Echo h payload
      | Unreach h _ \<Rightarrow> Unreach h payload
      | q \<Rightarrow> q))"


section \<open>Constructors and parsers\<close>

definition ETHER_ANY :: EthAddr where "ETHER_ANY = EthAddr (zeros 6)"
definition ETHER_BROADCAST :: EthAddr where "ETHER_BROADCAST = EthAddr (replicate 6 0xff)"
definition LLDP_MULTICAST :: EthAddr where "LLDP_MULTICAST = EthAddr [0x01, 0x80, 0xc2, 0, 0, 0x0e]"
definition IP_ANY :: IPAddr where "IP_ANY = ip_of_int 0"

definition ethernet_init :: ethernet where
  "ethernet_init = \<lparr>eth_dst = HwEth ETHER_ANY, eth_src = HwEth ETHER_ANY, eth_type = 0,
     eth_raw = None, eth_parsed = False\<rparr>"

definition vlan_init :: vlan where
  "vlan_init = \<lparr>vlan_pcp = 0, vlan_cfi = 0, vlan_c = None, vlan_id = 0, vlan_eth_type = 0,
     vlan_raw = None, vlan_parsed = False\<rparr>"

definition mpls_init :: mpls where
  "mpls_init = \<lparr>mpls_label = 0, mpls_tc = 0, mpls_s = 0, mpls_ttl = 0, mpls_raw = None, mpls_parsed = False\<rparr>"

definition arp_init :: arp where
  "arp_init = \<lparr>arp_hwtype = 1, arp_prototype = 0x0800, arp_hwsrc = HwEth ETHER_ANY,
     arp_hwdst = HwEth ETHER_ANY, arp_hwlen = 6, arp_opcode = 0, arp_protolen = 4,
     arp_protosrc = IvAddr IP_ANY, arp_protodst = IvAddr IP_ANY, arp_raw = None, arp_parsed = False\<rparr>"

text \<open>\<open>iid\<close> is the identification the class counter \<open>ipv4.ip_id\<close> supplies.\<close>

definition ipv4_init :: "int \<Rightarrow> ipv4" where
  "ipv4_init iid = \<lparr>ipv4_v = 4, ipv4_hl = 5, ipv4_tos = 0, ipv4_iplen = 20, ipv4_id = iid,
     ipv4_flags = 0, ipv4_frag = 0, ipv4_ttl = 64, ipv4_protocol = 0, ipv4_csum = 0,
     ipv4_srcip = IvAddr IP_ANY, ipv4_dstip = IvAddr IP_ANY, ipv4_raw = None, ipv4_parsed = False\<rparr>"

definition udp_init :: udp where
  "udp_init = \<lparr>udp_srcport = 0, udp_dstport = 0, udp_len = 8, udp_csum = 0, udp_raw = None,
     udp_parsed = False\<rparr>"

definition tcp_init :: tcp where
  "tcp_init = \<lparr>tcp_srcport = 0, tcp_dstport = 0, tcp_seq = 0, tcp_ack = 0, tcp_off = 0, tcp_res = 0,
     tcp_flags = 0, tcp_win = 0, tcp_csum = 0, tcp_urg = 0, tcp_tcplen = 0, tcp_options = [],
     tcp_raw = None, tcp_parsed = False\<rparr>"

definition icmp_init :: icmp where
  "icmp_init = \<lparr>icmp_type = 0, icmp_code = 0, icmp_csum = 0, icmp_parsed = None\<rparr>"

definition echo_init :: "int \<Rightarrow> echo" where
  "echo_init rnd = \<lparr>echo_id = rnd, echo_seq = 0, echo_raw = None, echo_parsed = False\<rparr>"

definition unreach_init :: unreach where
  "unreach_init = \<lparr>unreach_unused = 0, unreach_next_mtu = 0, unreach_raw = None, unreach_parsed = None\<rparr>"

definition udp_new :: "subs \<Rightarrow> bytes \<Rightarrow> packet res" where
  "udp_new sb raw =
     (let u = udp_init\<lparr>udp_raw := Some raw\<rparr>; dlen = length raw in
      if dlen < 8 then Inr (Udp u NoNext)
      else rbind (struct_unpack [FH, FH, FH, FH] (bslice 0 8 raw)) (\<lambda>vs. case vs of
        [sp, dp, l, c] \<Rightarrow>
          (let u = u\<lparr>udp_srcport := sp, udp_dstport := dp, udp_len := l, udp_csum := c, udp_parsed := True\<rparr> in
           if l < 8 then Inr (Udp u NoNext)
           else if dp = 67 \<or> dp = 68 then rmap (Udp u) (other_new sb ''dhcp'' (drop 8 raw))
           else if dp = 53 \<or> sp = 53 then rmap (Udp u) (other_new sb ''dns'' (drop 8 raw))
           else if int dlen < l then Inr (Udp u NoNext)
           else Inr (Udp u (Bytes (drop 8 raw))))
      | _ \<Rightarrow> Inl ValueError))"

text \<open>
  \<open>tcp.parse_options\<close>: the options read so far and whether the loop ended without an
  exception (\<open>parse\<close> catches every exception and gives up).
\<close>

fun pairs :: "int list \<Rightarrow> (int \<times> int) list" where
  "pairs (x # y # r) = (x, y) # pairs r"
| "pairs _ = []"

definition tcp_option :: "bytes \<Rightarrow> nat \<Rightarrow> tcp_opt option" where
  "tcp_option arr i =
     (let t = unat (arr ! i); l = unat (arr ! (i + 1)) in
      if t = 2 then
        (if l \<noteq> 4 then None
         else case struct_unpack [FH] (bslice (i + 2) (i + 4) arr) of
                Inr [v] \<Rightarrow> Some \<lparr>opt_type = 2, opt_val = OvInt v\<rparr> | _ \<Rightarrow> None)
      else if t = 3 then
        (if l \<noteq> 3 then None else Some \<lparr>opt_type = 3, opt_val = OvInt (uint (arr ! (i + 2)))\<rparr>)
      else if t = 4 then
        (if l \<noteq> 2 then None else Some \<lparr>opt_type = 4, opt_val = OvNone\<rparr>)
      else if t = 5 then
        (if (l - 2) mod 8 = 0 then
           (case struct_unpack (concat (replicate ((l - 2) div 8) [FI, FI])) (drop (i + 2) arr) of
              Inr vs \<Rightarrow> Some \<lparr>opt_type = 5, opt_val = OvPairs (pairs vs)\<rparr> | Inl _ \<Rightarrow> None)
         else None)
      else if t = 8 then
        (if l \<noteq> 10 then None
         else case struct_unpack [FI, FI] (bslice (i + 2) (i + 10) arr) of
                Inr [a, b] \<Rightarrow> Some \<lparr>opt_type = 8, opt_val = OvPair a b\<rparr> | _ \<Rightarrow> None)
      else Some \<lparr>opt_type = int t, opt_val = OvBytes (bslice (i + 2) (i + 2 + l) arr)\<rparr>)"

function parse_options :: "nat \<Rightarrow> bytes \<Rightarrow> nat \<Rightarrow> tcp_opt list \<Rightarrow> tcp_opt list \<times> bool" where
  "parse_options hdr_len arr i opts =
     (if hdr_len \<le> i then (opts, True)
      else if length arr \<le> i then (opts, False)
      else if arr ! i = 0 then (opts, True)
      else if arr ! i = 1 then
        parse_options hdr_len arr (i + 1) (opts @ [\<lparr>opt_type = 1, opt_val = OvNone\<rparr>])
      else if length arr < i + 2 then (opts, False)
      else if length arr < i + unat (arr ! (i + 1)) then (opts, False)
      else if unat (arr ! (i + 1)) < 2 then (opts, False)
      else case tcp_option arr i of
             None \<Rightarrow> (opts, False)
           | Some op \<Rightarrow> parse_options hdr_len arr (i + unat (arr ! (i + 1))) (opts @ [op]))"
  by pat_completeness auto

termination
  by (relation "measure (\<lambda>(hdr_len, arr, i, opts). hdr_len - i)") auto

declare parse_options.simps [simp del]

definition tcp_new :: "bytes \<Rightarrow> packet res" where
  "tcp_new raw =
     (let t = tcp_init\<lparr>tcp_raw := Some raw\<rparr>; dlen = length raw in
      if dlen < 20 then Inr (Tcp t (Bytes []))
      else rbind (struct_unpack [FH, FH, FI, FI, FB, FB, FH, FH, FH] (bslice 0 20 raw)) (\<lambda>vs. case vs of
        [sp, dp, seq, ack, offres, flags, win, csum, urg] \<Rightarrow>
          (let off = drop_bit 4 offres;
               t = t\<lparr>tcp_srcport := sp, tcp_dstport := dp, tcp_seq := seq, tcp_ack := ack,
                     tcp_flags := flags, tcp_win := win, tcp_csum := csum, tcp_urg := urg,
                     tcp_off := off, tcp_res := offres AND 0x0f, tcp_tcplen := int dlen\<rparr> in
           if off * 4 < 20 \<or> int dlen < off * 4 then Inr (Tcp t (Bytes []))
           else (case parse_options (nat (off * 4)) raw 20 [] of (opts, ok) \<Rightarrow>
             if ok then Inr (Tcp (t\<lparr>tcp_options := opts, tcp_parsed := True\<rparr>) (Bytes (drop (nat (off * 4)) raw)))
             else Inr (Tcp (t\<lparr>tcp_options := opts\<rparr>) (Bytes []))))
      | _ \<Rightarrow> Inl ValueError))"

definition echo_new :: "int \<Rightarrow> bytes \<Rightarrow> packet res" where
  "echo_new rnd raw =
     (let e = (echo_init rnd)\<lparr>echo_raw := Some raw\<rparr> in
      if length raw < 4 then Inr (Echo e NoNext)
      else rbind (struct_unpack [FH, FH] (bslice 0 4 raw)) (\<lambda>vs. case vs of
        [i, s] \<Rightarrow> Inr (Echo (e\<lparr>echo_id := i, echo_seq := s, echo_parsed := True\<rparr>) (Bytes (drop 4 raw)))
      | _ \<Rightarrow> Inl ValueError))"

text \<open>
  The fields of \<open>ipv4.parse\<close> up to its checks; the Boolean says whether they passed.
\<close>

definition ipv4_fields :: "int \<Rightarrow> bytes \<Rightarrow> (ipv4 \<times> bool) res" where
  "ipv4_fields iid raw =
     rbind (struct_unpack [FB, FB, FH, FH, FH, FB, FB, FH, FI, FI] (bslice 0 20 raw)) (\<lambda>vs. case vs of
       [vhl, tos, iplen, ident, frag, ttl, protocol, csum, srcip, dstip] \<Rightarrow>
         (let i = (ipv4_init iid)\<lparr>ipv4_raw := Some raw, ipv4_tos := tos, ipv4_iplen := iplen,
                ipv4_id := ident, ipv4_ttl := ttl, ipv4_protocol := protocol, ipv4_csum := csum,
                ipv4_srcip := IvNum srcip, ipv4_dstip := IvNum dstip,
                ipv4_v := drop_bit 4 vhl, ipv4_hl := vhl AND 0x0f,
                ipv4_flags := drop_bit 13 frag, ipv4_frag := frag AND 0x1fff\<rparr> in
          if ipv4_v i \<noteq> 4 \<or> ipv4_hl i < 5 \<or> iplen < 20
             \<or> iplen \<le> ipv4_hl i * 4 \<or> int (length raw) < ipv4_hl i * 4
          then Inr (i, False)
          else rbind (IPAddr_init (IpInt dstip) False) (\<lambda>d.
               rbind (IPAddr_init (IpInt srcip) False) (\<lambda>s.
               Inr (i\<lparr>ipv4_dstip := IvAddr d, ipv4_srcip := IvAddr s, ipv4_parsed := True\<rparr>, True))))
     | _ \<Rightarrow> Inl ValueError)"

definition ipv4_body :: "ipv4 \<Rightarrow> bytes \<Rightarrow> bytes" where
  "ipv4_body i raw = bslice (nat (ipv4_hl i * 4)) (nat (min (ipv4_iplen i) (int (length raw)))) raw"

text \<open>\<open>if isinstance(self.next, packet_base) and not self.next.parsed\<close>\<close>

definition ipv4_keep_parsed :: "ipv4 \<Rightarrow> bytes \<Rightarrow> packet \<Rightarrow> packet res" where
  "ipv4_keep_parsed i body n =
     (if is_packet n then
        rbind (need AttributeError (parsed_attr n)) (\<lambda>parsed.
        Inr (Ipv4 i (if parsed then n else Bytes body)))
      else Inr (Ipv4 i n))"

lemma ipv4_fields_pass:
  "ipv4_fields iid raw = Inr (i, True) \<Longrightarrow> 5 \<le> ipv4_hl i \<and> ipv4_hl i * 4 \<le> int (length raw)"
  unfolding ipv4_fields_def rbind_eq_Inr
  by (elim exE conjE) (auto simp: Let_def res_simps split: list.split_asm if_split_asm)

lemma ipv4_body_shorter:
  "ipv4_fields iid raw = Inr (i, True) \<Longrightarrow> length (ipv4_body i raw) < length raw"
  using ipv4_fields_pass [of iid raw i] by (auto simp: ipv4_body_def)

function ipv4_new :: "subs \<Rightarrow> int \<Rightarrow> int \<Rightarrow> bytes \<Rightarrow> packet res"
  and icmp_new :: "subs \<Rightarrow> int \<Rightarrow> int \<Rightarrow> bytes \<Rightarrow> packet res"
  and unreach_new :: "subs \<Rightarrow> int \<Rightarrow> int \<Rightarrow> bytes \<Rightarrow> packet res" where
  "ipv4_new sb iid rnd raw =
     (if length raw < 20 then Inr (Ipv4 ((ipv4_init iid)\<lparr>ipv4_raw := Some raw\<rparr>) (Bytes []))
      else rbind (ipv4_fields iid raw) (\<lambda>(i, ok).
        if \<not> ok then Inr (Ipv4 i (Bytes []))
        else rbind
          (if ipv4_protocol i = 17 then udp_new sb (ipv4_body i raw)
           else if ipv4_protocol i = 6 then tcp_new (ipv4_body i raw)
           else if ipv4_protocol i = 1 then icmp_new sb iid rnd (ipv4_body i raw)
           else if int (length raw) < ipv4_iplen i then Inr (Bytes [])
           else Inr (Bytes (ipv4_body i raw)))
          (ipv4_keep_parsed i (ipv4_body i raw))))"
| "icmp_new sb iid rnd raw =
     (if length raw < 4 then Inr (Icmp icmp_init NoAttr)
      else rbind (struct_unpack [FB, FB, FH] (bslice 0 4 raw)) (\<lambda>vs. case vs of
        [t, c, s] \<Rightarrow>
          rmap (Icmp (icmp_init\<lparr>icmp_type := t, icmp_code := c, icmp_csum := s, icmp_parsed := Some True\<rparr>))
            (if t = 8 \<or> t = 0 then echo_new rnd (drop 4 raw)
             else if t = 3 then unreach_new sb iid rnd (drop 4 raw)
             else Inr (Bytes (drop 4 raw)))
      | _ \<Rightarrow> Inl ValueError))"
| "unreach_new sb iid rnd raw =
     (let u = unreach_init\<lparr>unreach_raw := Some raw\<rparr> in
      if length raw < 4 then Inr (Unreach u NoAttr)
      else rbind (struct_unpack [FH, FH] (bslice 0 4 raw)) (\<lambda>vs. case vs of
        [a, m] \<Rightarrow>
          rmap (Unreach (u\<lparr>unreach_unused := a, unreach_next_mtu := m, unreach_parsed := Some True\<rparr>))
            (if 28 \<le> length raw then ipv4_new sb iid rnd (drop 4 raw)
             else Inr (Bytes (drop 4 raw)))
      | _ \<Rightarrow> Inl ValueError))"
  by pat_completeness auto

termination
proof (relation "measure (\<lambda>x. case x of
    Inl (_, _, _, raw) \<Rightarrow> length raw
  | Inr (Inl (_, _, _, raw)) \<Rightarrow> length raw
  | Inr (Inr (_, _, _, raw)) \<Rightarrow> length raw)")
qed (auto simp: ipv4_body_shorter)

declare ipv4_new.simps [simp del] icmp_new.simps [simp del] unreach_new.simps [simp del]


definition mpls_new :: "bytes \<Rightarrow> packet res" where
  "mpls_new raw =
     (let m = mpls_init\<lparr>mpls_raw := Some raw\<rparr> in
      if length raw < 4 then Inr (Mpls m NoNext)
      else rbind (struct_unpack [FH, FB, FB] (bslice 0 4 raw)) (\<lambda>vs. case vs of
        [high, low, ttl] \<Rightarrow>
          Inr (Mpls (m\<lparr>mpls_s := low AND 1, mpls_tc := drop_bit 1 (low AND 0xf),
                      mpls_label := push_bit 4 high OR drop_bit 4 low, mpls_ttl := ttl,
                      mpls_parsed := True\<rparr>) (Bytes (drop 4 raw)))
      | _ \<Rightarrow> Inl ValueError))"

definition read_I :: "bytes \<Rightarrow> nat \<Rightarrow> nat \<Rightarrow> int res" where
  "read_I raw i j = rbind (struct_unpack [FI] (bslice i j raw)) (\<lambda>vs. case vs of
     [v] \<Rightarrow> Inr v | _ \<Rightarrow> Inl ValueError)"

definition arp_new :: "bytes \<Rightarrow> packet res" where
  "arp_new raw =
     (let a = arp_init\<lparr>arp_raw := Some raw\<rparr> in
      if length raw < 28 then Inr (Arp a (Bytes []))
      else rbind (struct_unpack [FH, FH, FB, FB, FH] (bslice 0 8 raw)) (\<lambda>vs. case vs of
        [hwtype, prototype, hwlen, protolen, opcode] \<Rightarrow>
          (let a = a\<lparr>arp_hwtype := hwtype, arp_prototype := prototype, arp_hwlen := hwlen,
                     arp_protolen := protolen, arp_opcode := opcode\<rparr> in
           rbind (if hwlen \<noteq> 6 then Inr a
                  else rbind (EthAddr_init (EthStr (bslice 8 14 raw))) (\<lambda>s.
                       rbind (EthAddr_init (EthStr (bslice 18 24 raw))) (\<lambda>d.
                       Inr (a\<lparr>arp_hwsrc := HwEth s, arp_hwdst := HwEth d\<rparr>)))) (\<lambda>a.
           rbind (if protolen \<noteq> 4 then Inr a
                  else rbind (rbind (read_I raw 14 18) (\<lambda>n. IPAddr_init (IpInt n) False)) (\<lambda>s.
                       rbind (rbind (read_I raw 24 28) (\<lambda>n. IPAddr_init (IpInt n) False)) (\<lambda>d.
                       Inr (a\<lparr>arp_protosrc := IvAddr s, arp_protodst := IvAddr d\<rparr>)))) (\<lambda>a.
           Inr (Arp (a\<lparr>arp_parsed := True\<rparr>) (Bytes (drop 28 raw))))))
      | _ \<Rightarrow> Inl ValueError))"

text \<open>
  \<open>ethernet.type_parsers\<close>, which the first \<open>ethernet\<close> object fills; \<open>None\<close> for a type
  without a parser.  The entry for 0x8100 is \<open>vlan\<close>, which calls the others.
\<close>

definition type_parser :: "subs \<Rightarrow> int \<Rightarrow> int \<Rightarrow> int \<Rightarrow> bytes \<Rightarrow> packet res option" where
  "type_parser sb iid rnd t raw =
     (if t = 0x0806 \<or> t = 0x8035 then Some (arp_new raw)
      else if t = 0x0800 then Some (ipv4_new sb iid rnd raw)
      else if t = 0x88cc then Some (other_new sb ''lldp'' raw)
      else if t = 0x888e then Some (other_new sb ''eapol'' raw)
      else if t = 0x8847 \<or> t = 0x8848 then Some (mpls_new raw)
      else None)"

definition vlan_new :: "subs \<Rightarrow> int \<Rightarrow> int \<Rightarrow> bytes \<Rightarrow> packet res" where
  "vlan_new sb iid rnd raw =
     (let v = vlan_init\<lparr>vlan_raw := Some raw\<rparr> in
      if length raw < 4 then Inr (Vlan v NoNext)
      else rbind (struct_unpack [FH, FH] (bslice 0 4 raw)) (\<lambda>vs. case vs of
        [pcpid, et] \<Rightarrow>
          (let v = v\<lparr>vlan_eth_type := et, vlan_pcp := drop_bit 13 pcpid,
                     vlan_c := Some (pcpid AND 0x1000), vlan_id := pcpid AND 0x0fff, vlan_parsed := True\<rparr> in
           if et = 0x8100 then Inl AssertionError
           else case type_parser sb iid rnd et (drop 4 raw) of
                  Some p \<Rightarrow> rmap (Vlan v) p
                | None \<Rightarrow> Inr (Vlan v NoNext))
      | _ \<Rightarrow> Inl ValueError))"

definition ethernet_new :: "subs \<Rightarrow> int \<Rightarrow> int \<Rightarrow> bytes \<Rightarrow> packet res" where
  "ethernet_new sb iid rnd raw =
     (let e = ethernet_init\<lparr>eth_raw := Some raw\<rparr> in
      if length raw < 14 then Inr (Ethernet e (Bytes []))
      else rbind (EthAddr_init (EthStr (bslice 0 6 raw))) (\<lambda>dst.
           rbind (EthAddr_init (EthStr (bslice 6 12 raw))) (\<lambda>src.
           rbind (struct_unpack [FH] (bslice 12 14 raw)) (\<lambda>vs. case vs of
             [t] \<Rightarrow>
               rmap (Ethernet (e\<lparr>eth_dst := HwEth dst, eth_src := HwEth src, eth_type := t, eth_parsed := True\<rparr>))
                 (if t = 0x8100 then vlan_new sb iid rnd (drop 14 raw)
                  else case type_parser sb iid rnd t (drop 14 raw) of
                         Some p \<Rightarrow> p
                       | None \<Rightarrow> Inr (Bytes (drop 14 raw)))
           | _ \<Rightarrow> Inl ValueError))))"

section \<open>Packing\<close>

text \<open>The \<open>6s\<close> format: cut or padded to six bytes.\<close>

definition pack_6s :: "hwaddr \<Rightarrow> bytes" where
  "pack_6s h = take 6 (ljust0 6 (hw_raw h))"

definition ethernet_hdr :: "ethernet \<Rightarrow> bytes res" where
  "ethernet_hdr e = rconcat [Inr (pack_6s (eth_dst e)), Inr (pack_6s (eth_src e)), struct_pack [FH] [eth_type e]]"

definition vlan_hdr :: "vlan \<Rightarrow> bytes res" where
  "vlan_hdr v =
     rbind (need AttributeError (vlan_c v)) (\<lambda>c.
     struct_pack [FH, FH] [(push_bit 13 (vlan_pcp v) OR push_bit 12 c) OR vlan_id v, vlan_eth_type v])"

definition mpls_hdr :: "mpls \<Rightarrow> bytes res" where
  "mpls_hdr m =
     (let label = mpls_label m AND 0xfffff; tc = mpls_tc m AND 0x7; s = mpls_s m AND 0x1;
          ttl = mpls_ttl m AND 0xff;
          label_high = drop_bit 4 label;
          label_low_tc_s = (push_bit 4 (label AND 0xf) OR push_bit 1 tc) OR s
      in struct_pack [FH, FB, FB] [label_high, label_low_tc_s, ttl])"

text \<open>\<open>struct.pack('!I', x)\<close> of an address attribute\<close>

fun iv_pack :: "ipval \<Rightarrow> bytes res" where
  "iv_pack (IvAddr i) = struct_pack [FI] [ip_u i]"
| "iv_pack (IvNum n) = struct_pack [FI] [n]"

definition arp_hdr :: "arp \<Rightarrow> bytes res" where
  "arp_hdr a = rconcat
     [struct_pack [FH, FH, FB, FB, FH] [arp_hwtype a, arp_prototype a, arp_hwlen a, arp_protolen a, arp_opcode a],
      Inr (hw_raw (arp_hwsrc a)), iv_pack (arp_protosrc a),
      Inr (hw_raw (arp_hwdst a)), iv_pack (arp_protodst a)]"

abbreviation (input) IPV4_FMT :: "fmt list" where
  "IPV4_FMT \<equiv> [FB, FB, FH, FH, FH, FB, FB, FH, FI, FI]"

definition ipv4_struct :: "ipv4 \<Rightarrow> int \<Rightarrow> bytes res" where
  "ipv4_struct i csum =
     rbind (iv_toUnsigned (ipv4_srcip i)) (\<lambda>s.
     rbind (iv_toUnsigned (ipv4_dstip i)) (\<lambda>d.
     struct_pack IPV4_FMT
       [push_bit 4 (ipv4_v i) + ipv4_hl i, ipv4_tos i, ipv4_iplen i, ipv4_id i,
        push_bit 13 (ipv4_flags i) OR ipv4_frag i, ipv4_ttl i, ipv4_protocol i, csum, s, d]))"

definition ipv4_checksum :: "ipv4 \<Rightarrow> int res" where
  "ipv4_checksum i = rmap (\<lambda>data. checksum data 0 None) (ipv4_struct i 0)"

definition ipv4_hdr :: "ipv4 \<Rightarrow> bytes \<Rightarrow> (bytes \<times> ipv4) res" where
  "ipv4_hdr i payload =
     (let i = i\<lparr>ipv4_iplen := ipv4_hl i * 4 + int (length payload)\<rparr> in
      rbind (ipv4_checksum i) (\<lambda>c.
      let i = i\<lparr>ipv4_csum := c\<rparr> in
      rmap (\<lambda>b. (b, i)) (ipv4_struct i (ipv4_csum i))))"

text \<open>The pseudo-header of the transport checksums; \<open>prev\<close> is the enclosing ipv4 header, if any.\<close>

definition pseudo_header :: "ipv4 \<Rightarrow> int \<Rightarrow> bytes res" where
  "pseudo_header i payload_len =
     rbind (iv_toUnsigned (ipv4_srcip i)) (\<lambda>s.
     rbind (iv_toUnsigned (ipv4_dstip i)) (\<lambda>d.
     struct_pack [FI, FI, FB, FB, FH] [s, d, 0, ipv4_protocol i, payload_len]))"

text \<open>
  \<open>udp.checksum\<close>: with \<open>unparsed\<close> over the raw bytes, otherwise over \<open>payload\<close>, the
  packed \<open>next\<close>.
\<close>

definition udp_checksum :: "udp \<Rightarrow> ipv4 option \<Rightarrow> bool \<Rightarrow> bytes \<Rightarrow> int res" where
  "udp_checksum u prev unparsed payload =
     (case prev of
        None \<Rightarrow> Inr 0
      | Some ip \<Rightarrow>
          rbind (if unparsed then need TypeError (udp_raw u) else Inr payload) (\<lambda>pl.
          let payload_len = (if unparsed then int (length pl) else 8 + int (length pl)) in
          rbind (pseudo_header ip payload_len) (\<lambda>ippacket.
          rbind (if unparsed then Inr pl
                 else rmap (\<lambda>h. h @ pl) (struct_pack [FH, FH, FH, FH] [udp_srcport u, udp_dstport u, payload_len, 0]))
            (\<lambda>data. let r = checksum (ippacket @ data) 0 (Some 9) in Inr (if r = 0 then 0xffff else r)))))"

definition udp_hdr :: "udp \<Rightarrow> ipv4 option \<Rightarrow> bytes \<Rightarrow> (bytes \<times> udp) res" where
  "udp_hdr u prev payload =
     (let u = u\<lparr>udp_len := int (length payload) + 8\<rparr> in
      rbind (udp_checksum u prev False payload) (\<lambda>c.
      let u = u\<lparr>udp_csum := c\<rparr> in
      rmap (\<lambda>b. (b, u)) (struct_pack [FH, FH, FH, FH] [udp_srcport u, udp_dstport u, udp_len u, udp_csum u])))"

text \<open>\<open>tcp_opt.to_bytes\<close>\<close>

definition tcp_opt_to_bytes :: "tcp_opt \<Rightarrow> bytes res" where
  "tcp_opt_to_bytes op =
     (let t = opt_type op in
      if t = 0 \<or> t = 1 then struct_pack [FB] [t]
      else if t = 2 then
        (case opt_val op of OvInt v \<Rightarrow> struct_pack [FB, FB, FH] [t, 4, v] | _ \<Rightarrow> Inl StructError)
      else if t = 3 then
        (case opt_val op of OvInt v \<Rightarrow> struct_pack [FB, FB, FB] [t, 3, v] | _ \<Rightarrow> Inl StructError)
      else if t = 4 then struct_pack [FB, FB] [t, 2]
      else if t = 5 then
        (case opt_val op of
           OvPairs ps \<Rightarrow> struct_pack (concat (replicate (length ps) [FI, FI])) (concat (map (\<lambda>(x, y). [x, y]) ps))
         | OvPair x y \<Rightarrow> Inl TypeError | OvBytes b \<Rightarrow> if b = [] then Inr [] else Inl StructError
         | _ \<Rightarrow> Inl TypeError)
      else if t = 8 then
        (case opt_val op of
           OvPair x y \<Rightarrow> struct_pack [FB, FB, FI, FI] [t, 10, x, y]
         | OvPairs ps \<Rightarrow> if length ps < 2 then Inl IndexError else Inl StructError
         | OvBytes b \<Rightarrow> if length b < 2 then Inl IndexError else Inl StructError
         | _ \<Rightarrow> Inl TypeError)
      else Inr [])"

definition tcp_header_bytes :: "tcp \<Rightarrow> int \<Rightarrow> bytes res" where
  "tcp_header_bytes t csum =
     rconcat [struct_pack [FH, FH, FI, FI, FB, FB, FH, FH, FH]
                [tcp_srcport t, tcp_dstport t, tcp_seq t, tcp_ack t,
                 push_bit 4 (tcp_off t) OR tcp_res t, tcp_flags t, tcp_win t, csum, tcp_urg t],
              pack_list tcp_opt_to_bytes (tcp_options t)]"

definition tcp_checksum :: "tcp \<Rightarrow> ipv4 option \<Rightarrow> bool \<Rightarrow> bytes \<Rightarrow> int res" where
  "tcp_checksum t prev unparsed payload =
     (case prev of
        None \<Rightarrow> Inr 0
      | Some ip \<Rightarrow>
          rbind (if unparsed then need TypeError (tcp_raw t)
                 else rmap (\<lambda>h. h @ payload) (tcp_header_bytes t 0)) (\<lambda>data.
          rbind (pseudo_header ip (int (length data))) (\<lambda>ippacket.
          Inr (checksum (ippacket @ data) 0 (Some 14)))))"

definition tcp_hdr :: "tcp \<Rightarrow> ipv4 option \<Rightarrow> bytes \<Rightarrow> (bytes \<times> tcp) res" where
  "tcp_hdr t prev payload =
     rbind (tcp_checksum t prev False payload) (\<lambda>c.
     rmap (\<lambda>b. (b, t\<lparr>tcp_csum := c\<rparr>)) (tcp_header_bytes t c))"

definition echo_hdr :: "echo \<Rightarrow> bytes res" where
  "echo_hdr e = struct_pack [FH, FH] [echo_id e, echo_seq e]"

definition unreach_hdr :: "unreach \<Rightarrow> bytes res" where
  "unreach_hdr u = struct_pack [FH, FH] [unreach_unused u, unreach_next_mtu u]"

definition icmp_hdr :: "icmp \<Rightarrow> bytes \<Rightarrow> (bytes \<times> icmp) res" where
  "icmp_hdr i payload =
     rbind (struct_pack [FB, FB, FH] [icmp_type i, icmp_code i, 0]) (\<lambda>h.
     let i = i\<lparr>icmp_csum := checksum (h @ payload) 0 None\<rparr> in
     rmap (\<lambda>b. (b, i)) (struct_pack [FB, FB, FH] [icmp_type i, icmp_code i, icmp_csum i]))"

text \<open>
  \<open>packet_base.pack\<close>: the payload first, then the header over it; the result is the bytes and
  the packet with the lengths and checksums that \<open>hdr\<close> stored.
\<close>

definition with_hdr :: "(bytes \<Rightarrow> (bytes \<times> 'h) res) \<Rightarrow> ('h \<Rightarrow> packet \<Rightarrow> packet)
    \<Rightarrow> (bytes \<times> packet) res \<Rightarrow> (bytes \<times> packet) res" where
  "with_hdr hdr C m =
     rbind m (\<lambda>(rest, n). rmap (\<lambda>(h, x). (h @ rest, C x n)) (hdr rest))"

fun packet_pack :: "subs \<Rightarrow> ipv4 option \<Rightarrow> packet \<Rightarrow> (bytes \<times> packet) res" where
  "packet_pack sb prev NoAttr = Inl AttributeError"
| "packet_pack sb prev NoNext = Inr ([], NoNext)"
| "packet_pack sb prev (Bytes b) = Inr (b, Bytes b)"
| "packet_pack sb prev (Ethernet h n) =
     with_hdr (\<lambda>_. rmap (\<lambda>b. (b, h)) (ethernet_hdr h)) Ethernet (packet_pack sb None n)"
| "packet_pack sb prev (Vlan h n) =
     with_hdr (\<lambda>_. rmap (\<lambda>b. (b, h)) (vlan_hdr h)) Vlan (packet_pack sb None n)"
| "packet_pack sb prev (Mpls h n) =
     with_hdr (\<lambda>_. rmap (\<lambda>b. (b, h)) (mpls_hdr h)) Mpls (packet_pack sb None n)"
| "packet_pack sb prev (Arp h n) =
     with_hdr (\<lambda>_. rmap (\<lambda>b. (b, h)) (arp_hdr h)) Arp (packet_pack sb None n)"
| "packet_pack sb prev (Ipv4 h n) = with_hdr (ipv4_hdr h) Ipv4 (packet_pack sb (Some h) n)"
| "packet_pack sb prev (Udp h n) = with_hdr (udp_hdr h prev) Udp (packet_pack sb None n)"
| "packet_pack sb prev (Tcp h n) = with_hdr (tcp_hdr h prev) Tcp (packet_pack sb None n)"
| "packet_pack sb prev (Icmp h n) = with_hdr (icmp_hdr h) Icmp (packet_pack sb None n)"
| "packet_pack sb prev (Echo h n) =
     with_hdr (\<lambda>_. rmap (\<lambda>b. (b, h)) (echo_hdr h)) Echo (packet_pack sb None n)"
| "packet_pack sb prev (Unreach h n) =
     with_hdr (\<lambda>_. rmap (\<lambda>b. (b, h)) (unreach_hdr h)) Unreach (packet_pack sb None n)"
| "packet_pack sb prev (Other k p raw) = rmap (\<lambda>b. (b, Other k p raw)) (sub_pack sb k raw)"

section \<open>Printing\<close>

text \<open>
  \<open>str(p)\<close>: the text is not kept, only whether making it raises.  The headers print numbers and addresses, which they convert
  first, and then what they contain; \<open>icmp\<close> and \<open>unreach\<close> objects whose bytes were too short have no \<open>next\<close>.
\<close>

definition str_hw :: "hwaddr \<Rightarrow> unit res" where
  "str_hw a = rmap (\<lambda>_. ()) (EthAddr_init (case a of HwBytes b \<Rightarrow> EthStr b | HwEth e \<Rightarrow> EthObj e))"

definition str_iv :: "ipval \<Rightarrow> unit res" where
  "str_iv v = rmap (\<lambda>_. ()) (IPAddr_init (case v of IvNum n \<Rightarrow> IpInt n | IvAddr i \<Rightarrow> IpObj i) False)"

fun packet_str :: "subs \<Rightarrow> packet \<Rightarrow> unit res" where
  "packet_str sb NoAttr = Inl AttributeError"
| "packet_str sb NoNext = Inr ()"
| "packet_str sb (Bytes b) = Inr ()"
| "packet_str sb (Ethernet h n) = rbind (str_hw (eth_src h)) (\<lambda>_. rbind (str_hw (eth_dst h)) (\<lambda>_. packet_str sb n))"
| "packet_str sb (Vlan h n) = packet_str sb n"
| "packet_str sb (Mpls h n) = packet_str sb n"
| "packet_str sb (Arp h n) = rbind (str_hw (arp_hwsrc h)) (\<lambda>_. rbind (str_hw (arp_hwdst h)) (\<lambda>_.
     rbind (str_iv (arp_protosrc h)) (\<lambda>_. str_iv (arp_protodst h))))"
| "packet_str sb (Ipv4 h n) = packet_str sb n"
| "packet_str sb (Udp h n) = packet_str sb n"
| "packet_str sb (Tcp h n) = packet_str sb n"
| "packet_str sb (Icmp h n) = packet_str sb n"
| "packet_str sb (Echo h n) = Inr ()"
| "packet_str sb (Unreach h n) = packet_str sb n"
| "packet_str sb (Other k p raw) = sub_str sb k p raw"

end
