(* ===== verification/Of_Match.thy ===== *)
theory Of_Match
  imports Of_Core Packets
begin

text \<open>
  \<open>pox/openflow/libopenflow_01.py\<close>, class \<open>ofp_match\<close>: the wildcard word and the underscore
  fields as a record, the attribute protocol (\<open>__setattr__\<close>/\<open>__getattr__\<close>, which hides
  wildcarded fields), the network prefixes, construction from a packet, the wire format with the
  two wildcard translations, equality and the subsumption test \<open>matches_with_wildcards\<close>.
\<close>

section \<open>State\<close>

abbreviation (input) OFPFW_IN_PORT :: int where "OFPFW_IN_PORT \<equiv> 1"
abbreviation (input) OFPFW_DL_VLAN :: int where "OFPFW_DL_VLAN \<equiv> 2"
abbreviation (input) OFPFW_DL_SRC :: int where "OFPFW_DL_SRC \<equiv> 4"
abbreviation (input) OFPFW_DL_DST :: int where "OFPFW_DL_DST \<equiv> 8"
abbreviation (input) OFPFW_DL_TYPE :: int where "OFPFW_DL_TYPE \<equiv> 16"
abbreviation (input) OFPFW_NW_PROTO :: int where "OFPFW_NW_PROTO \<equiv> 32"
abbreviation (input) OFPFW_TP_SRC :: int where "OFPFW_TP_SRC \<equiv> 64"
abbreviation (input) OFPFW_TP_DST :: int where "OFPFW_TP_DST \<equiv> 128"
abbreviation (input) OFPFW_DL_VLAN_PCP :: int where "OFPFW_DL_VLAN_PCP \<equiv> 1048576"
abbreviation (input) OFPFW_NW_TOS :: int where "OFPFW_NW_TOS \<equiv> 2097152"
abbreviation (input) OFPFW_NW_SRC_SHIFT :: nat where "OFPFW_NW_SRC_SHIFT \<equiv> 8"
abbreviation (input) OFPFW_NW_DST_SHIFT :: nat where "OFPFW_NW_DST_SHIFT \<equiv> 14"
abbreviation (input) OFPFW_NW_SRC_ALL :: int where "OFPFW_NW_SRC_ALL \<equiv> 8192"
abbreviation (input) OFPFW_NW_SRC_MASK :: int where "OFPFW_NW_SRC_MASK \<equiv> 16128"
abbreviation (input) OFPFW_NW_DST_ALL :: int where "OFPFW_NW_DST_ALL \<equiv> 524288"
abbreviation (input) OFPFW_NW_DST_MASK :: int where "OFPFW_NW_DST_MASK \<equiv> 1032192"
abbreviation (input) OFPFW_ALL :: int where "OFPFW_ALL \<equiv> 4194303"

definition ofp_flow_wildcards_rev_map :: "(string \<times> int) list" where
  "ofp_flow_wildcards_rev_map =
     [(''OFPFW_IN_PORT'', 1), (''OFPFW_DL_VLAN'', 2), (''OFPFW_DL_SRC'', 4), (''OFPFW_DL_DST'', 8),
      (''OFPFW_DL_TYPE'', 16), (''OFPFW_NW_PROTO'', 32), (''OFPFW_TP_SRC'', 64), (''OFPFW_TP_DST'', 128),
      (''OFPFW_DL_VLAN_PCP'', 1048576), (''OFPFW_NW_TOS'', 2097152)]"

text \<open>
  What \<open>_nw_src\<close> and \<open>_nw_dst\<close> may hold: a number (the default 0), an address, or, since
  \<open>_make_addr\<close> overwrites the address it took out of a tuple, the tuple itself.
\<close>

datatype nwval = NwNum int | NwAddr IPAddr | NwTuple ip_arg int

datatype nw_arg = NaNone | NaTuple ip_arg int | NaStr bytes | NaAddr IPAddr | NaNum int

record ofp_match =
  m_wildcards :: int
  m_in_port :: int
  m_dl_src :: hwaddr
  m_dl_dst :: hwaddr
  m_dl_vlan :: int
  m_dl_vlan_pcp :: int
  m_dl_type :: int
  m_nw_tos :: int
  m_nw_proto :: int
  m_nw_src :: nwval
  m_nw_dst :: nwval
  m_tp_src :: int
  m_tp_dst :: int

section \<open>Wildcards\<close>

definition normalize_wildcards :: "int \<Rightarrow> int" where
  "normalize_wildcards w =
     (let w1 = (if 32 < drop_bit OFPFW_NW_SRC_SHIFT (w AND OFPFW_NW_SRC_MASK)
                then (w AND NOT OFPFW_NW_SRC_MASK) OR push_bit OFPFW_NW_SRC_SHIFT 32 else w)
      in if 32 < drop_bit OFPFW_NW_DST_SHIFT (w1 AND OFPFW_NW_DST_MASK)
         then (w1 AND NOT OFPFW_NW_DST_MASK) OR push_bit OFPFW_NW_DST_SHIFT 32 else w1)"

text \<open>\<open>ofp_match()\<close> without keywords\<close>

definition ofp_match_init :: ofp_match where
  "ofp_match_init = \<lparr>m_wildcards = normalize_wildcards OFPFW_ALL, m_in_port = 0,
     m_dl_src = HwEth EMPTY_ETH, m_dl_dst = HwEth EMPTY_ETH, m_dl_vlan = 0, m_dl_vlan_pcp = 0,
     m_dl_type = 0, m_nw_tos = 0, m_nw_proto = 0, m_nw_src = NwNum 0, m_nw_dst = NwNum 0,
     m_tp_src = 0, m_tp_dst = 0\<rparr>"

text \<open>\<open>__getattr__\<close>: \<open>None\<close> for a wildcarded field\<close>

definition wild :: "int \<Rightarrow> ofp_match \<Rightarrow> bool" where
  "wild fw m \<longleftrightarrow> m_wildcards m AND fw = fw"

definition get_in_port :: "ofp_match \<Rightarrow> int option" where
  "get_in_port m = (if wild OFPFW_IN_PORT m then None else Some (m_in_port m))"
definition get_dl_src :: "ofp_match \<Rightarrow> hwaddr option" where
  "get_dl_src m = (if wild OFPFW_DL_SRC m then None else Some (m_dl_src m))"
definition get_dl_dst :: "ofp_match \<Rightarrow> hwaddr option" where
  "get_dl_dst m = (if wild OFPFW_DL_DST m then None else Some (m_dl_dst m))"
definition get_dl_vlan :: "ofp_match \<Rightarrow> int option" where
  "get_dl_vlan m = (if wild OFPFW_DL_VLAN m then None else Some (m_dl_vlan m))"
definition get_dl_vlan_pcp :: "ofp_match \<Rightarrow> int option" where
  "get_dl_vlan_pcp m = (if wild OFPFW_DL_VLAN_PCP m then None else Some (m_dl_vlan_pcp m))"
definition get_dl_type :: "ofp_match \<Rightarrow> int option" where
  "get_dl_type m = (if wild OFPFW_DL_TYPE m then None else Some (m_dl_type m))"
definition get_nw_tos :: "ofp_match \<Rightarrow> int option" where
  "get_nw_tos m = (if wild OFPFW_NW_TOS m then None else Some (m_nw_tos m))"
definition get_nw_proto :: "ofp_match \<Rightarrow> int option" where
  "get_nw_proto m = (if wild OFPFW_NW_PROTO m then None else Some (m_nw_proto m))"
definition get_tp_src :: "ofp_match \<Rightarrow> int option" where
  "get_tp_src m = (if wild OFPFW_TP_SRC m then None else Some (m_tp_src m))"
definition get_tp_dst :: "ofp_match \<Rightarrow> int option" where
  "get_tp_dst m = (if wild OFPFW_TP_DST m then None else Some (m_tp_dst m))"

text \<open>the methods \<open>get_nw_src()\<close> and \<open>get_nw_dst()\<close>, and the attributes\<close>

definition get_nw_src :: "ofp_match \<Rightarrow> nwval option \<times> int" where
  "get_nw_src m =
     (if wild OFPFW_NW_SRC_ALL m then (None, 0)
      else let w = drop_bit OFPFW_NW_SRC_SHIFT (m_wildcards m AND OFPFW_NW_SRC_MASK)
           in (Some (m_nw_src m), if w \<le> 32 then 32 - w else 0))"

definition get_nw_dst :: "ofp_match \<Rightarrow> nwval option \<times> int" where
  "get_nw_dst m =
     (if wild OFPFW_NW_DST_ALL m then (None, 0)
      else let w = drop_bit OFPFW_NW_DST_SHIFT (m_wildcards m AND OFPFW_NW_DST_MASK)
           in (Some (m_nw_dst m), if w \<le> 32 then 32 - w else 0))"

definition attr_nw_src :: "ofp_match \<Rightarrow> nwval option" where
  "attr_nw_src m = (if wild OFPFW_NW_SRC_ALL m then None else fst (get_nw_src m))"
definition attr_nw_dst :: "ofp_match \<Rightarrow> nwval option" where
  "attr_nw_dst m = (if wild OFPFW_NW_DST_ALL m then None else fst (get_nw_dst m))"

text \<open>\<open>__setattr__\<close> on the plain fields: \<open>None\<close> restores the default and wildcards the field\<close>

definition set_wild :: "int \<Rightarrow> 'v option \<Rightarrow> ofp_match \<Rightarrow> ofp_match" where
  "set_wild fw v m =
     (if v = None then m\<lparr>m_wildcards := m_wildcards m OR fw\<rparr>
      else m\<lparr>m_wildcards := m_wildcards m AND NOT fw\<rparr>)"

definition or_default :: "'v \<Rightarrow> 'v option \<Rightarrow> 'v" where
  "or_default d v = (case v of None \<Rightarrow> d | Some x \<Rightarrow> x)"

definition set_in_port :: "int option \<Rightarrow> ofp_match \<Rightarrow> ofp_match" where
  "set_in_port v m = set_wild OFPFW_IN_PORT v (m\<lparr>m_in_port := or_default 0 v\<rparr>)"
definition set_dl_src :: "hwaddr option \<Rightarrow> ofp_match \<Rightarrow> ofp_match" where
  "set_dl_src v m = set_wild OFPFW_DL_SRC v (m\<lparr>m_dl_src := or_default (HwEth EMPTY_ETH) v\<rparr>)"
definition set_dl_dst :: "hwaddr option \<Rightarrow> ofp_match \<Rightarrow> ofp_match" where
  "set_dl_dst v m = set_wild OFPFW_DL_DST v (m\<lparr>m_dl_dst := or_default (HwEth EMPTY_ETH) v\<rparr>)"
definition set_dl_vlan :: "int option \<Rightarrow> ofp_match \<Rightarrow> ofp_match" where
  "set_dl_vlan v m = set_wild OFPFW_DL_VLAN v (m\<lparr>m_dl_vlan := or_default 0 v\<rparr>)"
definition set_dl_vlan_pcp :: "int option \<Rightarrow> ofp_match \<Rightarrow> ofp_match" where
  "set_dl_vlan_pcp v m = set_wild OFPFW_DL_VLAN_PCP v (m\<lparr>m_dl_vlan_pcp := or_default 0 v\<rparr>)"
definition set_dl_type :: "int option \<Rightarrow> ofp_match \<Rightarrow> ofp_match" where
  "set_dl_type v m = set_wild OFPFW_DL_TYPE v (m\<lparr>m_dl_type := or_default 0 v\<rparr>)"
definition set_nw_tos :: "int option \<Rightarrow> ofp_match \<Rightarrow> ofp_match" where
  "set_nw_tos v m = set_wild OFPFW_NW_TOS v (m\<lparr>m_nw_tos := or_default 0 v\<rparr>)"
definition set_nw_proto :: "int option \<Rightarrow> ofp_match \<Rightarrow> ofp_match" where
  "set_nw_proto v m = set_wild OFPFW_NW_PROTO v (m\<lparr>m_nw_proto := or_default 0 v\<rparr>)"
definition set_tp_src :: "int option \<Rightarrow> ofp_match \<Rightarrow> ofp_match" where
  "set_tp_src v m = set_wild OFPFW_TP_SRC v (m\<lparr>m_tp_src := or_default 0 v\<rparr>)"
definition set_tp_dst :: "int option \<Rightarrow> ofp_match \<Rightarrow> ofp_match" where
  "set_tp_dst v m = set_wild OFPFW_TP_DST v (m\<lparr>m_tp_dst := or_default 0 v\<rparr>)"

text \<open>\<open>_make_addr(ipOrIPAndBits)\<close>: the address and the number of significant bits, clamped\<close>

definition clamp_bits :: "int \<Rightarrow> int" where
  "clamp_bits b = (if 32 < b then 32 else if b < 0 then 0 else b)"

definition make_addr :: "nw_arg \<Rightarrow> (nwval \<times> int) option res" where
  "make_addr a =
     (case a of
        NaNone \<Rightarrow> Inr None
      | NaTuple ip b \<Rightarrow> Inr (Some (NwTuple ip b, clamp_bits b))
      | NaAddr i \<Rightarrow> Inr (Some (NwAddr i, 32))
      | NaNum n \<Rightarrow> Inr (Some (NwNum n, 32))
      | NaStr s \<Rightarrow>
          (if length s = 4 then
             rmap (\<lambda>i. Some (NwAddr i, 32)) (IPAddr_init (IpStr s) False)
           else case split_on (CHR ''/'') (str_of_bytes s) of
             [ip] \<Rightarrow> rmap (\<lambda>i. Some (NwAddr i, 32)) (IPAddr_init (IpStr (bytes_of_str ip)) False)
           | ip # bits # _ \<Rightarrow>
               rbind (py_int 10 bits) (\<lambda>b.
               rmap (\<lambda>i. Some (NwAddr i, clamp_bits b)) (IPAddr_init (IpStr (bytes_of_str ip)) False))
           | [] \<Rightarrow> Inl IndexError))"

text \<open>
  \<open>set_nw_src\<close> and \<open>set_nw_dst\<close>.  On \<open>None\<close> the latter resets \<open>_nw_src\<close>, as the code
  does.
\<close>

definition set_nw_src :: "nw_arg \<Rightarrow> ofp_match \<Rightarrow> ofp_match res" where
  "set_nw_src arg m =
     rmap (\<lambda>a. case a of
         None \<Rightarrow> m\<lparr>m_nw_src := NwNum 0,
                   m_wildcards := (m_wildcards m AND NOT OFPFW_NW_SRC_MASK) OR OFPFW_NW_SRC_ALL\<rparr>
       | Some (ip, b) \<Rightarrow> m\<lparr>m_nw_src := ip,
                   m_wildcards := (m_wildcards m AND NOT OFPFW_NW_SRC_MASK) OR push_bit OFPFW_NW_SRC_SHIFT (32 - b)\<rparr>)
       (make_addr arg)"

definition set_nw_dst :: "nw_arg \<Rightarrow> ofp_match \<Rightarrow> ofp_match res" where
  "set_nw_dst arg m =
     rmap (\<lambda>a. case a of
         None \<Rightarrow> m\<lparr>m_nw_src := NwNum 0,
                   m_wildcards := (m_wildcards m AND NOT OFPFW_NW_DST_MASK) OR OFPFW_NW_DST_ALL\<rparr>
       | Some (ip, b) \<Rightarrow> m\<lparr>m_nw_dst := ip,
                   m_wildcards := (m_wildcards m AND NOT OFPFW_NW_DST_MASK) OR push_bit OFPFW_NW_DST_SHIFT (32 - b)\<rparr>)
       (make_addr arg)"

definition clone_match :: "ofp_match \<Rightarrow> ofp_match" where
  "clone_match m = ofp_match_init\<lparr>m_in_port := m_in_port m, m_dl_src := m_dl_src m, m_dl_dst := m_dl_dst m,
     m_dl_vlan := m_dl_vlan m, m_dl_vlan_pcp := m_dl_vlan_pcp m, m_dl_type := m_dl_type m,
     m_nw_tos := m_nw_tos m, m_nw_proto := m_nw_proto m, m_nw_src := m_nw_src m, m_nw_dst := m_nw_dst m,
     m_tp_src := m_tp_src m, m_tp_dst := m_tp_dst m, m_wildcards := m_wildcards m\<rparr>"


section \<open>A match from a packet\<close>

fun nw_arg_of :: "ipval \<Rightarrow> nw_arg" where
  "nw_arg_of (IvAddr i) = NaAddr i"
| "nw_arg_of (IvNum n) = NaNum n"

text \<open>the part of \<open>from_packet\<close> below the datalink layer; \<open>isinstance\<close> does not look at \<open>parsed\<close>\<close>

definition match_transport :: "packet \<Rightarrow> ofp_match \<Rightarrow> ofp_match" where
  "match_transport p m =
     (case p of
        Udp u _ \<Rightarrow> set_tp_dst (Some (udp_dstport u)) (set_tp_src (Some (udp_srcport u)) m)
      | Tcp t _ \<Rightarrow> set_tp_dst (Some (tcp_dstport t)) (set_tp_src (Some (tcp_srcport t)) m)
      | Icmp i _ \<Rightarrow> set_tp_dst (Some (icmp_code i)) (set_tp_src (Some (icmp_type i)) m)
      | _ \<Rightarrow> m)"

definition match_network :: "packet \<Rightarrow> ofp_match \<Rightarrow> ofp_match res" where
  "match_network p m =
     (case p of
        Ipv4 i n \<Rightarrow>
          rbind (set_nw_src (nw_arg_of (ipv4_srcip i)) m) (\<lambda>m.
          rbind (set_nw_dst (nw_arg_of (ipv4_dstip i)) m) (\<lambda>m.
          Inr (match_transport n (set_nw_tos (Some (ipv4_tos i)) (set_nw_proto (Some (ipv4_protocol i)) m)))))
      | Arp a _ \<Rightarrow>
          (if arp_opcode a \<le> 255 then
             rbind (set_nw_src (nw_arg_of (arp_protosrc a)) (set_nw_proto (Some (arp_opcode a)) m))
               (set_nw_dst (nw_arg_of (arp_protodst a)))
           else Inr m)
      | _ \<Rightarrow> Inr m)"

definition from_packet :: "packet \<Rightarrow> int option \<Rightarrow> ofp_match res" where
  "from_packet packet in_port =
     (case packet of
        Ethernet e p \<Rightarrow>
          (let m = (if in_port = None then ofp_match_init else set_in_port in_port ofp_match_init);
               m = set_dl_type (Some (eth_type e)) (set_dl_dst (Some (eth_dst e)) (set_dl_src (Some (eth_src e)) m))
           in case p of
                Vlan v n \<Rightarrow>
                  match_network n (set_dl_vlan_pcp (Some (vlan_pcp v))
                    (set_dl_vlan (Some (vlan_id v)) (set_dl_type (Some (vlan_eth_type v)) m)))
              | _ \<Rightarrow>
                  match_network p (set_dl_vlan_pcp (Some 0) (set_dl_vlan (Some OFP_VLAN_NONE) m)))
      | _ \<Rightarrow> Inl AssertionError)"

text \<open>\<open>optimize\<close>, with the misspelt variable it reads for types other than IP and ARP\<close>

definition optimize :: "ofp_match \<Rightarrow> ofp_match res" where
  "optimize m =
     (let m = (if get_dl_vlan m = Some OFP_VLAN_NONE then set_dl_vlan_pcp (Some 0) m else m) in
      rbind (case get_dl_type m of
          None \<Rightarrow> Inr m
        | Some t \<Rightarrow>
            (if t \<noteq> 0x0800 then
               rbind (if t \<noteq> 0x0806 then
                        rbind (set_nw_src (NaAddr (ip_of_int 0)) m) (\<lambda>m.
                        rbind (set_nw_dst (NaAddr (ip_of_int 0)) m) (\<lambda>_. Inl NameError))
                      else Inr m) (\<lambda>m.
               Inr (set_tp_dst (Some 0) (set_tp_src (Some 0) (set_nw_tos (Some 0) m))))
             else if get_nw_proto m \<noteq> Some 6 \<and> get_nw_proto m \<noteq> Some 17 \<and> get_nw_proto m \<noteq> Some 1 then
               Inr (set_tp_dst (Some 0) (set_tp_src (Some 0) m))
             else Inr m))
        (\<lambda>m. Inr (m\<lparr>m_wildcards := normalize_wildcards (m_wildcards m)\<rparr>)))"

section \<open>Wire format\<close>

definition proto_has_ports :: "int option \<Rightarrow> bool" where
  "proto_has_ports p \<longleftrightarrow> p = Some 1 \<or> p = Some 6 \<or> p = Some 17"

text \<open>\<open>_wire_wildcards\<close> asks the attributes, \<open>_unwire_wildcards\<close> the stored fields\<close>

definition wire_wildcards :: "ofp_match \<Rightarrow> int \<Rightarrow> int" where
  "wire_wildcards m w =
     (if get_dl_type m = Some 0x0800 then
        (if \<not> proto_has_ports (get_nw_proto m) then w AND NOT (OFPFW_TP_SRC OR OFPFW_TP_DST) else w)
      else if get_dl_type m = Some 0x0806 then w AND NOT (OFPFW_NW_TOS OR OFPFW_TP_SRC OR OFPFW_TP_DST)
      else w AND NOT (OFPFW_NW_TOS OR OFPFW_NW_PROTO OR OFPFW_NW_SRC_MASK OR OFPFW_NW_DST_MASK
                      OR OFPFW_TP_SRC OR OFPFW_TP_DST))"

definition unwire_wildcards :: "ofp_match \<Rightarrow> int \<Rightarrow> int" where
  "unwire_wildcards m w =
     (if m_dl_type m = 0x0800 then
        (if \<not> proto_has_ports (Some (m_nw_proto m)) then w OR (OFPFW_TP_SRC OR OFPFW_TP_DST) else w)
      else if m_dl_type m = 0x0806 then w OR (OFPFW_NW_TOS OR OFPFW_TP_SRC OR OFPFW_TP_DST)
      else w OR (OFPFW_NW_TOS OR OFPFW_NW_PROTO OR OFPFW_NW_SRC_MASK OR OFPFW_NW_DST_MASK
                 OR OFPFW_TP_SRC OR OFPFW_TP_DST))"

definition is_wildcarded :: "ofp_match \<Rightarrow> bool" where
  "is_wildcarded m \<longleftrightarrow> m_wildcards m AND OFPFW_ALL \<noteq> 0"

definition is_exact :: "ofp_match \<Rightarrow> bool" where
  "is_exact m \<longleftrightarrow> \<not> is_wildcarded m"

text \<open>the local functions of \<open>pack\<close>\<close>

definition or0 :: "int option \<Rightarrow> int" where
  "or0 v = (case v of None \<Rightarrow> 0 | Some x \<Rightarrow> x)"

definition check_ip :: "ofp_match \<Rightarrow> int \<Rightarrow> int" where
  "check_ip m v = (if get_dl_type m = Some 0x0800 then v else 0)"

definition check_ip_or_arp :: "ofp_match \<Rightarrow> int \<Rightarrow> int" where
  "check_ip_or_arp m v = (if get_dl_type m = Some 0x0800 \<or> get_dl_type m = Some 0x0806 then v else 0)"

definition check_tp :: "ofp_match \<Rightarrow> int \<Rightarrow> int" where
  "check_tp m v = (if get_dl_type m = Some 0x0800 \<and> proto_has_ports (get_nw_proto m) then v else 0)"

definition fix_addr :: "nwval option \<Rightarrow> int res" where
  "fix_addr a =
     (case a of
        None \<Rightarrow> Inr 0
      | Some (NwNum n) \<Rightarrow> Inr (n AND 0xffffffff)
      | Some (NwAddr i) \<Rightarrow> Inr (ip_u i)
      | Some (NwTuple _ _) \<Rightarrow> Inl AttributeError)"

definition hw_field :: "hwaddr option \<Rightarrow> bytes" where
  "hw_field h = (case h of None \<Rightarrow> eth_toRaw EMPTY_ETH | Some a \<Rightarrow> hw_raw a)"

definition ofp_match_assert :: "ofp_match \<Rightarrow> bool" where
  "ofp_match_assert m \<longleftrightarrow> hw_len (m_dl_dst m) = 6"

definition ofp_match_pack :: "bool \<Rightarrow> bool \<Rightarrow> ofp_match \<Rightarrow> bytes res" where
  "ofp_match_pack assertstruct flow_mod m =
     (if assertstruct \<and> \<not> ofp_match_assert m then Inl RuntimeError
      else rconcat
        [struct_pack [FL, FH] [if flow_mod then wire_wildcards m (m_wildcards m) else m_wildcards m, or0 (get_in_port m)],
         Inr (hw_field (get_dl_src m)),
         Inr (hw_field (get_dl_dst m)),
         struct_pack [FH, FB] [or0 (get_dl_vlan m), or0 (get_dl_vlan_pcp m)],
         Inr (zeros 1),
         struct_pack [FH, FB, FB]
           [or0 (get_dl_type m), check_ip m (or0 (get_nw_tos m)), check_ip_or_arp m (or0 (get_nw_proto m))],
         Inr (zeros 2),
         rbind (fix_addr (attr_nw_src m)) (\<lambda>s.
         rbind (fix_addr (attr_nw_dst m)) (\<lambda>d.
         struct_pack [FL, FL, FH, FH]
           [check_ip_or_arp m s, check_ip_or_arp m d,
            check_tp m (or0 (get_tp_src m)), check_tp m (or0 (get_tp_dst m))]))])"

definition ofp_match_unpack :: "bool \<Rightarrow> ofp_match \<Rightarrow> bytes \<Rightarrow> (ofp_match \<times> bytes) res" where
  "ofp_match_unpack flow_mod m b =
     (if length b < 40 then Inr (m, b)
      else rbind (struct_unpack_from [FL, FH] b 0) (\<lambda>v1.
           rbind (rbind (struct_unpack_from [FB, FB, FB, FB, FB, FB] b 6) (\<lambda>ws. EthAddr_init (EthList ws))) (\<lambda>src.
           rbind (rbind (struct_unpack_from [FB, FB, FB, FB, FB, FB] b 12) (\<lambda>ws. EthAddr_init (EthList ws))) (\<lambda>dst.
           rbind (struct_unpack_from [FH, FB] b 18) (\<lambda>v2.
           rbind (struct_unpack_from [FH, FB, FB] b 22) (\<lambda>v3.
           rbind (struct_unpack_from [FL, FL, FH, FH] b 28) (\<lambda>v4.
           case (v1, v2, v3, v4) of
             ([w, in_port], [vlan, pcp], [dl_type, tos, proto], [nsrc, ndst, tsrc, tdst]) \<Rightarrow>
               rbind (IPAddr_init (IpInt nsrc) False) (\<lambda>s.
               rbind (IPAddr_init (IpInt ndst) False) (\<lambda>d.
               let m = m\<lparr>m_in_port := in_port, m_dl_src := HwEth src, m_dl_dst := HwEth dst,
                         m_dl_vlan := vlan, m_dl_vlan_pcp := pcp, m_dl_type := dl_type, m_nw_tos := tos,
                         m_nw_proto := proto, m_nw_src := NwAddr s, m_nw_dst := NwAddr d,
                         m_tp_src := tsrc, m_tp_dst := tdst\<rparr>
               in Inr (m\<lparr>m_wildcards := normalize_wildcards (if flow_mod then unwire_wildcards m w else w)\<rparr>, drop 40 b)))
           | _ \<Rightarrow> Inl ValueError)))))))"

section \<open>Comparison\<close>

definition hash_code :: "ofp_match \<Rightarrow> int" where
  "hash_code m =
     (let ints = [get_in_port m, get_dl_vlan m, get_dl_vlan_pcp m, get_dl_type m, get_nw_tos m,
                  get_nw_proto m,
                  (case attr_nw_src m of Some (NwNum n) \<Rightarrow> Some n | _ \<Rightarrow> None),
                  (case attr_nw_dst m of Some (NwNum n) \<Rightarrow> Some n | _ \<Rightarrow> None),
                  get_tp_src m, get_tp_dst m]
      in foldl (\<lambda>h v. case v of None \<Rightarrow> h | Some x \<Rightarrow> h XOR x) (m_wildcards m) ints AND 0x7fffffff)"

text \<open>
  \<open>==\<close> on address attributes.  An \<open>EthAddr\<close> compared with \<open>None\<close> is compared with
  \<open>EthAddr(None)\<close>, the all-zero address; an \<open>IPAddr\<close> converts a number; an \<open>IPAddr\<close>
  compared with something it cannot convert ends in a missing \<open>__cmp__\<close>.
\<close>

definition hw_is_None :: "hwaddr \<Rightarrow> bool" where
  "hw_is_None a = (case a of HwBytes _ \<Rightarrow> False | HwEth e \<Rightarrow> EthAddr_cmp e EMPTY_ETH = 0)"

definition hw_attr_eq :: "hwaddr option \<Rightarrow> hwaddr option \<Rightarrow> bool" where
  "hw_attr_eq x y =
     (case (x, y) of
        (None, None) \<Rightarrow> True
      | (None, Some b) \<Rightarrow> hw_is_None b
      | (Some a, None) \<Rightarrow> hw_is_None a
      | (Some a, Some b) \<Rightarrow> hw_eq a b)"

fun ip_arg_eq :: "ip_arg \<Rightarrow> ip_arg \<Rightarrow> bool res" where
  "ip_arg_eq (IpObj a) (IpObj b) = Inr (ip_value a = ip_value b)"
| "ip_arg_eq (IpObj a) y =
     (case IPAddr_init y False of Inr b \<Rightarrow> Inr (ip_value a = ip_value b) | Inl _ \<Rightarrow> Inl AttributeError)"
| "ip_arg_eq x (IpObj b) =
     (case IPAddr_init x False of Inr a \<Rightarrow> Inr (ip_value a = ip_value b) | Inl _ \<Rightarrow> Inl AttributeError)"
| "ip_arg_eq x y = Inr (x = y)"

fun nw_eq :: "nwval option \<Rightarrow> nwval option \<Rightarrow> bool res" where
  "nw_eq None None = Inr True"
| "nw_eq None (Some _) = Inr False"
| "nw_eq (Some _) None = Inr False"
| "nw_eq (Some (NwNum m)) (Some (NwNum n)) = Inr (m = n)"
| "nw_eq (Some (NwAddr a)) (Some (NwAddr b)) = Inr (IPAddr_cmp a (Some b) = 0)"
| "nw_eq (Some (NwAddr a)) (Some (NwNum n)) = Inr (IPAddr_cmp a (Some (ip_of_int n)) = 0)"
| "nw_eq (Some (NwNum n)) (Some (NwAddr b)) = Inr (IPAddr_cmp b (Some (ip_of_int n)) = 0)"
| "nw_eq (Some (NwTuple i m)) (Some (NwTuple j n)) = rmap (\<lambda>e. e \<and> m = n) (ip_arg_eq i j)"
| "nw_eq (Some (NwAddr _)) (Some (NwTuple _ _)) = Inl AttributeError"
| "nw_eq (Some (NwTuple _ _)) (Some (NwAddr _)) = Inl AttributeError"
| "nw_eq (Some (NwNum _)) (Some (NwTuple _ _)) = Inr False"
| "nw_eq (Some (NwTuple _ _)) (Some (NwNum _)) = Inr False"

definition ofp_match_eq :: "ofp_match \<Rightarrow> ofp_match \<Rightarrow> bool res" where
  "ofp_match_eq a b =
     (if m_wildcards a \<noteq> m_wildcards b \<or> get_in_port a \<noteq> get_in_port b
         \<or> \<not> hw_attr_eq (get_dl_src a) (get_dl_src b) \<or> \<not> hw_attr_eq (get_dl_dst a) (get_dl_dst b)
         \<or> get_dl_vlan a \<noteq> get_dl_vlan b \<or> get_dl_vlan_pcp a \<noteq> get_dl_vlan_pcp b
         \<or> get_dl_type a \<noteq> get_dl_type b \<or> get_nw_tos a \<noteq> get_nw_tos b
         \<or> get_nw_proto a \<noteq> get_nw_proto b then Inr False
      else rbind (nw_eq (attr_nw_src a) (attr_nw_src b)) (\<lambda>s. if \<not> s then Inr False
      else rbind (nw_eq (attr_nw_dst a) (attr_nw_dst b)) (\<lambda>d. if \<not> d then Inr False
      else Inr (get_tp_src a = get_tp_src b \<and> get_tp_dst a = get_tp_dst b))))"

definition match_fail :: "'a option \<Rightarrow> 'a option \<Rightarrow> bool" where
  "match_fail mine others \<longleftrightarrow> mine \<noteq> None \<and> mine \<noteq> others"

definition match_fail_hw :: "hwaddr option \<Rightarrow> hwaddr option \<Rightarrow> bool" where
  "match_fail_hw mine others \<longleftrightarrow> \<not> hw_attr_eq mine None \<and> \<not> hw_attr_eq mine others"

text \<open>\<open>IPAddr(x)\<close> of a stored value\<close>

definition nw_to_ip :: "nwval option \<Rightarrow> IPAddr res" where
  "nw_to_ip v =
     (case v of
        Some (NwAddr i) \<Rightarrow> IPAddr_init (IpObj i) False
      | Some (NwNum n) \<Rightarrow> IPAddr_init (IpInt n) False
      | _ \<Rightarrow> IPAddr_init IpOther False)"

definition nw_subsumes :: "nwval option \<times> int \<Rightarrow> nwval option \<times> int \<Rightarrow> bool res" where
  "nw_subsumes mine others =
     (case fst mine of
        None \<Rightarrow> Inr True
      | Some v \<Rightarrow>
          (if snd mine > snd others then Inr False
           else rbind (nw_to_ip (fst others)) (\<lambda>o1.
                rbind (nw_to_ip (Some v)) (\<lambda>n.
                inNetwork o1 (n, 32 - snd mine)))))"

definition matches_with_wildcards :: "ofp_match \<Rightarrow> ofp_match \<Rightarrow> bool \<Rightarrow> bool res" where
  "matches_with_wildcards a b consider_other_wildcards =
     rbind (ofp_match_eq a b) (\<lambda>same.
     if same then Inr True
     else
       let self_bits = m_wildcards a AND NOT (OFPFW_NW_SRC_MASK OR OFPFW_NW_DST_MASK);
           other_bits = m_wildcards b AND NOT (OFPFW_NW_SRC_MASK OR OFPFW_NW_DST_MASK)
       in
       if consider_other_wildcards \<and> self_bits OR other_bits \<noteq> self_bits then Inr False
       else if match_fail (get_in_port a) (get_in_port b) \<or> match_fail (get_dl_vlan a) (get_dl_vlan b)
         \<or> match_fail_hw (get_dl_src a) (get_dl_src b) \<or> match_fail_hw (get_dl_dst a) (get_dl_dst b)
         \<or> match_fail (get_dl_type a) (get_dl_type b) \<or> match_fail (get_nw_proto a) (get_nw_proto b)
         \<or> match_fail (get_tp_src a) (get_tp_src b) \<or> match_fail (get_tp_dst a) (get_tp_dst b)
         \<or> match_fail (get_dl_vlan_pcp a) (get_dl_vlan_pcp b) \<or> match_fail (get_nw_tos a) (get_nw_tos b)
       then Inr False
       else rbind (nw_subsumes (get_nw_src a) (get_nw_src b)) (\<lambda>s. if \<not> s then Inr False
            else nw_subsumes (get_nw_dst a) (get_nw_dst b)))"

end
