(* ===== verification/Of_Action.thy ===== *)
theory Of_Action
  imports Of_Core
begin

text \<open>
  \<open>pox/openflow/libopenflow_01.py\<close>, the flow actions: one record per action class with
  its constructor, \<open>pack\<close>, \<open>unpack\<close>, \<open>__len__\<close> and \<open>__eq__\<close>; the union
  \<open>ofp_action\<close> of the classes with the dispatching operations; the table
  \<open>_action_map\<close> from type codes to classes and the parser \<open>_unpack_actions\<close>.
  \<open>pack\<close> gives \<open>None\<close> where the method returns \<open>None\<close>.  The lemmas show the
  round trip of every class and of whole action lists.
\<close>

section \<open>The action classes\<close>

definition ofp_action_type_rev_map :: "(string \<times> int) list" where
  "ofp_action_type_rev_map =
     [(''OFPAT_OUTPUT'', 0), (''OFPAT_SET_VLAN_VID'', 1), (''OFPAT_SET_VLAN_PCP'', 2),
      (''OFPAT_STRIP_VLAN'', 3), (''OFPAT_SET_DL_SRC'', 4), (''OFPAT_SET_DL_DST'', 5),
      (''OFPAT_SET_NW_SRC'', 6), (''OFPAT_SET_NW_DST'', 7), (''OFPAT_SET_NW_TOS'', 8),
      (''OFPAT_SET_TP_SRC'', 9), (''OFPAT_SET_TP_DST'', 10), (''OFPAT_ENQUEUE'', 11),
      (''OFPAT_SET_MPLS_LABEL'', 13), (''OFPAT_SET_MPLS_TC'', 14), (''OFPAT_SET_MPLS_TTL'', 15),
      (''OFPAT_DEC_MPLS_TTL'', 16), (''OFPAT_PUSH_MPLS'', 19), (''OFPAT_POP_MPLS'', 20),
      (''OFPAT_RESUBMIT'', 21), (''OFPAT_VENDOR'', 65535)]"

abbreviation (input) OFPAT_OUTPUT :: int where "OFPAT_OUTPUT \<equiv> 0"
abbreviation (input) OFPAT_SET_VLAN_VID :: int where "OFPAT_SET_VLAN_VID \<equiv> 1"
abbreviation (input) OFPAT_SET_VLAN_PCP :: int where "OFPAT_SET_VLAN_PCP \<equiv> 2"
abbreviation (input) OFPAT_STRIP_VLAN :: int where "OFPAT_STRIP_VLAN \<equiv> 3"
abbreviation (input) OFPAT_SET_DL_SRC :: int where "OFPAT_SET_DL_SRC \<equiv> 4"
abbreviation (input) OFPAT_SET_DL_DST :: int where "OFPAT_SET_DL_DST \<equiv> 5"
abbreviation (input) OFPAT_SET_NW_SRC :: int where "OFPAT_SET_NW_SRC \<equiv> 6"
abbreviation (input) OFPAT_SET_NW_DST :: int where "OFPAT_SET_NW_DST \<equiv> 7"
abbreviation (input) OFPAT_SET_NW_TOS :: int where "OFPAT_SET_NW_TOS \<equiv> 8"
abbreviation (input) OFPAT_SET_TP_SRC :: int where "OFPAT_SET_TP_SRC \<equiv> 9"
abbreviation (input) OFPAT_SET_TP_DST :: int where "OFPAT_SET_TP_DST \<equiv> 10"
abbreviation (input) OFPAT_ENQUEUE :: int where "OFPAT_ENQUEUE \<equiv> 11"
abbreviation (input) OFPAT_SET_MPLS_LABEL :: int where "OFPAT_SET_MPLS_LABEL \<equiv> 13"
abbreviation (input) OFPAT_SET_MPLS_TC :: int where "OFPAT_SET_MPLS_TC \<equiv> 14"
abbreviation (input) OFPAT_SET_MPLS_TTL :: int where "OFPAT_SET_MPLS_TTL \<equiv> 15"
abbreviation (input) OFPAT_DEC_MPLS_TTL :: int where "OFPAT_DEC_MPLS_TTL \<equiv> 16"
abbreviation (input) OFPAT_PUSH_MPLS :: int where "OFPAT_PUSH_MPLS \<equiv> 19"
abbreviation (input) OFPAT_POP_MPLS :: int where "OFPAT_POP_MPLS \<equiv> 20"
abbreviation (input) OFPAT_RESUBMIT :: int where "OFPAT_RESUBMIT \<equiv> 21"
abbreviation (input) OFPAT_VENDOR :: int where "OFPAT_VENDOR \<equiv> 65535"

text \<open>
  \<open>ofp_action_header\<close>: its \<open>data\<close> is read but never packed, and the slice taken for it
  runs eight bytes past the action.  \<open>ofp_action_mpls_dec_ttl\<close> and
  \<open>ofp_action_resubmit\<close> are this class with a type.
\<close>

record ofp_action_header =
  ah_type :: "int option"
  ah_length :: int
  ah_data :: bytes

definition ofp_action_header_init :: ofp_action_header where
  "ofp_action_header_init = \<lparr>ah_type = None, ah_length = 8, ah_data = []\<rparr>"

definition ofp_action_mpls_dec_ttl_init :: ofp_action_header where
  "ofp_action_mpls_dec_ttl_init = ofp_action_header_init\<lparr>ah_type := Some OFPAT_DEC_MPLS_TTL\<rparr>"

definition ofp_action_resubmit_init :: ofp_action_header where
  "ofp_action_resubmit_init = ofp_action_header_init\<lparr>ah_type := Some OFPAT_RESUBMIT\<rparr>"

definition ofp_action_header_pack :: "ofp_action_header \<Rightarrow> bytes option res" where
  "ofp_action_header_pack a =
     rbind (need StructError (ah_type a)) (\<lambda>type.
     rmap Some (rconcat [struct_pack [FH, FH] [type, ah_length a], Inr (zeros 4)]))"

definition ofp_action_header_unpack :: "ofp_action_header \<Rightarrow> bytes \<Rightarrow> (ofp_action_header \<times> bytes) res" where
  "ofp_action_header_unpack a b =
     (if length b < 8 then Inr (a, b)
      else rbind (struct_unpack_from [FH, FH] b 0) (\<lambda>vs. case vs of
             [type, l] \<Rightarrow>
               (let a1 = a\<lparr>ah_type := Some type, ah_length := l\<rparr> in
                if int (length b) < l then Inr (a1, b)
                else Inr (a1\<lparr>ah_data := bslice 8 (8 + nat l) b\<rparr>, drop (nat l) b))
           | _ \<Rightarrow> Inl ValueError))"

definition ofp_action_header_len :: "ofp_action_header \<Rightarrow> int" where
  "ofp_action_header_len a = ah_length a"

definition ofp_action_header_eq :: "ofp_action_header \<Rightarrow> ofp_action_header \<Rightarrow> bool" where
  "ofp_action_header_eq a b \<longleftrightarrow> ah_type a = ah_type b \<and> ah_length a = ah_length b"

lemma ofp_action_header_wire:
  assumes "ofp_action_header_pack a = Inr (Some b)" and "ah_length a = 8"
  shows "length b = 8 \<and>
    ofp_action_header_unpack y (b @ rest) = Inr (a\<lparr>ah_data := take 8 rest\<rparr>, rest)"
proof -
  obtain t p where o: "ah_type a = Some t" and p: "struct_pack [FH, FH] [t, ah_length a] = Inr p"
    and b: "b = p @ zeros 4"
    using assms by (auto simp: ofp_action_header_pack_def res_simps)
  note l = struct_pack_length [OF p, simplified] and h = struct_unpack_from_hit [OF p]
  show ?thesis
    using assms(2) by (simp add: b l h o ofp_action_header_unpack_def Let_def bslice_def)
qed

text \<open>\<open>ofp_action_output\<close>: \<open>pack\<close> clears \<open>max_len\<close> unless the port is the controller.\<close>

record ofp_action_output =
  out_type :: int
  out_length :: int
  out_port :: "int option"
  out_max_len :: int

definition ofp_action_output_init :: ofp_action_output where
  "ofp_action_output_init = \<lparr>out_type = OFPAT_OUTPUT, out_length = 8, out_port = None, out_max_len = 0xffff\<rparr>"

definition ofp_action_output_after_pack :: "ofp_action_output \<Rightarrow> ofp_action_output" where
  "ofp_action_output_after_pack a =
     (if out_port a \<noteq> Some OFPP_CONTROLLER then a\<lparr>out_max_len := 0\<rparr> else a)"

definition ofp_action_output_pack :: "ofp_action_output \<Rightarrow> bytes option res" where
  "ofp_action_output_pack a =
     (let a' = ofp_action_output_after_pack a in
      rbind (need StructError (out_port a')) (\<lambda>port.
      rmap Some (struct_pack [FH, FH, FH, FH] [out_type a', out_length a', port, out_max_len a'])))"

definition ofp_action_output_unpack :: "ofp_action_output \<Rightarrow> bytes \<Rightarrow> (ofp_action_output \<times> bytes) res" where
  "ofp_action_output_unpack a b =
     (if length b < 8 then Inr (a, b)
      else rbind (struct_unpack_from [FH, FH, FH, FH] b 0) (\<lambda>vs. case vs of
             [type, l, port, m] \<Rightarrow>
               Inr (a\<lparr>out_type := type, out_length := l, out_port := Some port, out_max_len := m\<rparr>, drop 8 b)
           | _ \<Rightarrow> Inl ValueError))"

definition ofp_action_output_len :: "ofp_action_output \<Rightarrow> int" where
  "ofp_action_output_len a = 8"

definition ofp_action_output_eq :: "ofp_action_output \<Rightarrow> ofp_action_output \<Rightarrow> bool" where
  "ofp_action_output_eq a b \<longleftrightarrow> out_type a = out_type b \<and> out_length a = out_length b
     \<and> out_port a = out_port b \<and> out_max_len a = out_max_len b"

lemma ofp_action_output_wire:
  assumes "ofp_action_output_pack a = Inr (Some b)"
  shows "length b = 8 \<and> ofp_action_output_unpack y (b @ rest) = Inr (ofp_action_output_after_pack a, rest)"
proof -
  let ?a = "ofp_action_output_after_pack a"
  obtain port where o: "out_port ?a = Some port"
    and p: "struct_pack [FH, FH, FH, FH] [out_type ?a, out_length ?a, port, out_max_len ?a] = Inr b"
    using assms by (auto simp: ofp_action_output_pack_def Let_def res_simps)
  note l = struct_pack_length [OF p, simplified] and h = struct_unpack_from_hit [OF p]
  show ?thesis by (simp add: l h o ofp_action_output_unpack_def)
qed

lemma ofp_action_output_eq_iff [simp]: "ofp_action_output_eq a b \<longleftrightarrow> a = b"
  by (auto simp: ofp_action_output_eq_def)

text \<open>\<open>ofp_action_push_mpls\<close>: only the two MPLS ethertypes pass the assertion.\<close>

record ofp_action_push_mpls =
  push_type :: int
  push_length :: int
  push_ethertype :: int

definition ofp_action_push_mpls_init :: ofp_action_push_mpls where
  "ofp_action_push_mpls_init = \<lparr>push_type = OFPAT_PUSH_MPLS, push_length = 8, push_ethertype = 0x8847\<rparr>"

definition ofp_action_push_mpls_assert :: "ofp_action_push_mpls \<Rightarrow> bool" where
  "ofp_action_push_mpls_assert a \<longleftrightarrow> push_ethertype a = 0x8847 \<or> push_ethertype a = 0x8848"

definition ofp_action_push_mpls_pack :: "bool \<Rightarrow> ofp_action_push_mpls \<Rightarrow> bytes option res" where
  "ofp_action_push_mpls_pack assertstruct a =
     (if \<not> assertstruct \<or> \<not> ofp_action_push_mpls_assert a then Inr None
      else rmap Some (struct_pack [FH, FH, FH, Fx, Fx] [push_type a, push_length a, push_ethertype a]))"

definition ofp_action_push_mpls_unpack :: "ofp_action_push_mpls \<Rightarrow> bytes \<Rightarrow> (ofp_action_push_mpls \<times> bytes) res" where
  "ofp_action_push_mpls_unpack a b =
     (if length b < 8 then Inr (a, b)
      else rbind (struct_unpack_from [FH, FH, FH] b 0) (\<lambda>vs. case vs of
             [type, l, e] \<Rightarrow> Inr (a\<lparr>push_type := type, push_length := l, push_ethertype := e\<rparr>, drop 8 b)
           | _ \<Rightarrow> Inl ValueError))"

definition ofp_action_push_mpls_len :: "ofp_action_push_mpls \<Rightarrow> int" where
  "ofp_action_push_mpls_len a = push_length a"

definition ofp_action_push_mpls_eq :: "ofp_action_push_mpls \<Rightarrow> ofp_action_push_mpls \<Rightarrow> bool" where
  "ofp_action_push_mpls_eq a b \<longleftrightarrow> push_type a = push_type b \<and> push_length a = push_length b
     \<and> push_ethertype a = push_ethertype b"

lemma ofp_action_push_mpls_wire:
  assumes "ofp_action_push_mpls_pack True a = Inr (Some b)"
  shows "length b = 8 \<and> ofp_action_push_mpls_unpack y (b @ rest) = Inr (a, rest)"
proof -
  have p: "struct_pack [FH, FH, FH, Fx, Fx] [push_type a, push_length a, push_ethertype a] = Inr b"
    using assms by (auto simp: ofp_action_push_mpls_pack_def res_simps split: if_splits)
  note l = struct_pack_length [OF p, simplified] and h = struct_unpack_from_hit_x [OF p]
  show ?thesis by (simp add: l h ofp_action_push_mpls_unpack_def)
qed

lemma ofp_action_push_mpls_eq_iff [simp]: "ofp_action_push_mpls_eq a b \<longleftrightarrow> a = b"
  by (auto simp: ofp_action_push_mpls_eq_def)

text \<open>\<open>ofp_action_dl_addr\<close>\<close>

record ofp_action_dl_addr =
  dla_type :: "int option"
  dla_length :: int
  dla_dl_addr :: hwaddr

definition ofp_action_dl_addr_init :: "int option \<Rightarrow> eth_arg option \<Rightarrow> ofp_action_dl_addr res" where
  "ofp_action_dl_addr_init type dl_addr =
     (case dl_addr of
        None \<Rightarrow> Inr \<lparr>dla_type = type, dla_length = 16, dla_dl_addr = HwEth EMPTY_ETH\<rparr>
      | Some x \<Rightarrow> rmap (\<lambda>e. \<lparr>dla_type = type, dla_length = 16, dla_dl_addr = HwEth e\<rparr>) (EthAddr_init x))"

definition ofp_action_dl_addr_set_dst :: "eth_arg option \<Rightarrow> ofp_action_dl_addr res" where
  "ofp_action_dl_addr_set_dst = ofp_action_dl_addr_init (Some OFPAT_SET_DL_DST)"

definition ofp_action_dl_addr_set_src :: "eth_arg option \<Rightarrow> ofp_action_dl_addr res" where
  "ofp_action_dl_addr_set_src = ofp_action_dl_addr_init (Some OFPAT_SET_DL_SRC)"

definition ofp_action_dl_addr_assert :: "ofp_action_dl_addr \<Rightarrow> bool" where
  "ofp_action_dl_addr_assert a =
     (case dla_dl_addr a of HwBytes b \<Rightarrow> length b = 6 | HwEth _ \<Rightarrow> True)"

definition ofp_action_dl_addr_pack :: "bool \<Rightarrow> ofp_action_dl_addr \<Rightarrow> bytes option res" where
  "ofp_action_dl_addr_pack assertstruct a =
     (if assertstruct \<and> \<not> ofp_action_dl_addr_assert a then Inr None
      else rbind (need StructError (dla_type a)) (\<lambda>type.
           rmap Some (rconcat [struct_pack [FH, FH] [type, dla_length a],
                               Inr (hw_raw (dla_dl_addr a)), Inr (zeros 6)])))"

definition ofp_action_dl_addr_unpack :: "ofp_action_dl_addr \<Rightarrow> bytes \<Rightarrow> (ofp_action_dl_addr \<times> bytes) res" where
  "ofp_action_dl_addr_unpack a b =
     (if length b < 16 then Inr (a, b)
      else rbind (struct_unpack_from [FH, FH] b 0) (\<lambda>vs.
           rbind (struct_unpack_from [FB, FB, FB, FB, FB, FB] b 4) (\<lambda>ws.
           rbind (EthAddr_init (EthList ws)) (\<lambda>e. case vs of
             [type, l] \<Rightarrow> Inr (a\<lparr>dla_type := Some type, dla_length := l, dla_dl_addr := HwEth e\<rparr>, drop 16 b)
           | _ \<Rightarrow> Inl ValueError))))"

definition ofp_action_dl_addr_len :: "ofp_action_dl_addr \<Rightarrow> int" where
  "ofp_action_dl_addr_len a = 16"

definition ofp_action_dl_addr_eq :: "ofp_action_dl_addr \<Rightarrow> ofp_action_dl_addr \<Rightarrow> bool" where
  "ofp_action_dl_addr_eq a b \<longleftrightarrow> dla_type a = dla_type b \<and> dla_length a = dla_length b
     \<and> hw_eq (dla_dl_addr a) (dla_dl_addr b)"

text \<open>Six bytes read as numbers give the bytes back.\<close>

lemma dec_fields_bytes:
  "length bs = n \<Longrightarrow> dec_fields (replicate n FB) (bs @ rest) = map uint bs"
proof (induction bs arbitrary: n)
  case Nil
  then show ?case by simp
next
  case (Cons x bs)
  have "dec FB [x] = uint x" using be_val_snoc [of "[]" x] by (simp add: dec_def Let_def)
  with Cons show ?case by auto
qed

lemma read_eth_tuple:
  assumes "length r = 6"
  shows "rbind (struct_unpack_from [FB, FB, FB, FB, FB, FB] (r @ rest) 0) (\<lambda>ws. EthAddr_init (EthList ws))
     = Inr (EthAddr r)"
proof -
  have six: "[FB, FB, FB, FB, FB, FB] = replicate 6 FB" by (simp add: numeral_eq_Suc)
  have "calcsize (replicate 6 FB) = 6" by (simp add: numeral_eq_Suc)
  then have "struct_unpack_from [FB, FB, FB, FB, FB, FB] (r @ rest) 0 = Inr (map uint r)"
    unfolding six using assms by (simp add: struct_unpack_from_def dec_fields_bytes)
  then show ?thesis by (simp add: EthAddr_tuple)
qed

lemma read_eth_tuple_bind:
  assumes "length r = 6"
  shows "rbind (struct_unpack_from [FB, FB, FB, FB, FB, FB] (r @ rest) 0)
      (\<lambda>ws. rbind (EthAddr_init (EthList ws)) k) = k (EthAddr r)"
  using arg_cong [OF read_eth_tuple [OF assms, of rest], of "\<lambda>m. rbind m k"]
  by (simp add: rbind_assoc)

lemma ofp_action_dl_addr_wire:
  assumes "ofp_action_dl_addr_pack True a = Inr (Some b)" and "length (hw_raw (dla_dl_addr a)) = 6"
  shows "length b = 16 \<and> ofp_action_dl_addr_unpack y (b @ rest)
    = Inr (a\<lparr>dla_dl_addr := HwEth (EthAddr (hw_raw (dla_dl_addr a)))\<rparr>, rest)"
proof -
  let ?r = "hw_raw (dla_dl_addr a)"
  obtain t p where o: "dla_type a = Some t" and p: "struct_pack [FH, FH] [t, dla_length a] = Inr p"
    and b: "b = p @ ?r @ zeros 6"
    using assms by (auto simp: ofp_action_dl_addr_pack_def res_simps split: if_splits)
  note l = struct_pack_length [OF p, simplified] and h = struct_unpack_from_hit [OF p]
  show ?thesis
    by (simp add: b l h o assms(2) ofp_action_dl_addr_unpack_def struct_unpack_from_skip
        read_eth_tuple_bind)
qed

text \<open>\<open>ofp_action_nw_addr\<close>: packed as a signed, read as an unsigned integer.\<close>

record ofp_action_nw_addr =
  nwa_type :: "int option"
  nwa_length :: int
  nwa_nw_addr :: IPAddr

definition ofp_action_nw_addr_init :: "int option \<Rightarrow> ip_arg option \<Rightarrow> ofp_action_nw_addr res" where
  "ofp_action_nw_addr_init type nw_addr =
     rmap (\<lambda>i. \<lparr>nwa_type = type, nwa_length = 8, nwa_nw_addr = i\<rparr>)
       (case nw_addr of Some x \<Rightarrow> IPAddr_init x False | None \<Rightarrow> IPAddr_init (IpInt 0) False)"

definition ofp_action_nw_addr_set_dst :: "ip_arg option \<Rightarrow> ofp_action_nw_addr res" where
  "ofp_action_nw_addr_set_dst = ofp_action_nw_addr_init (Some OFPAT_SET_NW_DST)"

definition ofp_action_nw_addr_set_src :: "ip_arg option \<Rightarrow> ofp_action_nw_addr res" where
  "ofp_action_nw_addr_set_src = ofp_action_nw_addr_init (Some OFPAT_SET_NW_SRC)"

definition ofp_action_nw_addr_pack :: "ofp_action_nw_addr \<Rightarrow> bytes option res" where
  "ofp_action_nw_addr_pack a =
     rbind (need StructError (nwa_type a)) (\<lambda>type.
     rmap Some (struct_pack [FH, FH, Fl] [type, nwa_length a, ip_toSigned False (nwa_nw_addr a)]))"

definition ofp_action_nw_addr_unpack :: "ofp_action_nw_addr \<Rightarrow> bytes \<Rightarrow> (ofp_action_nw_addr \<times> bytes) res" where
  "ofp_action_nw_addr_unpack a b =
     (if length b < 8 then Inr (a, b)
      else rbind (struct_unpack_from [FH, FH, FL] b 0) (\<lambda>vs. case vs of
             [type, l, n] \<Rightarrow>
               rbind (IPAddr_init (IpInt n) False) (\<lambda>i.
               Inr (a\<lparr>nwa_type := Some type, nwa_length := l, nwa_nw_addr := i\<rparr>, drop 8 b))
           | _ \<Rightarrow> Inl ValueError))"

definition ofp_action_nw_addr_len :: "ofp_action_nw_addr \<Rightarrow> int" where
  "ofp_action_nw_addr_len a = 8"

definition ofp_action_nw_addr_eq :: "ofp_action_nw_addr \<Rightarrow> ofp_action_nw_addr \<Rightarrow> bool" where
  "ofp_action_nw_addr_eq a b \<longleftrightarrow> nwa_type a = nwa_type b \<and> nwa_length a = nwa_length b
     \<and> IPAddr_cmp (nwa_nw_addr a) (Some (nwa_nw_addr b)) = 0"

lemma enc_signed_unsigned:
  "in_range Fl (to_signed32 n) \<and> enc Fl (to_signed32 n) = enc FL (n mod 2 ^ 32)"
  using to_signed32_bounds [of n] by (simp add: in_range_def enc_def to_signed32_mod [simplified])

lemma ofp_action_nw_addr_wire:
  assumes "ofp_action_nw_addr_pack a = Inr (Some b)" and "ip_wf (nwa_nw_addr a)"
  shows "length b = 8 \<and> ofp_action_nw_addr_unpack y (b @ rest) = Inr (a, rest)"
proof -
  let ?n = "ip_u (nwa_nw_addr a)"
  have n: "?n mod 2 ^ 32 = ?n" by (intro mod_pos_pos_trivial ip_u_bounds)
  obtain t where o: "nwa_type a = Some t"
    and p: "struct_pack [FH, FH, Fl] [t, nwa_length a, to_signed32 ?n] = Inr b"
    using assms by (auto simp: ofp_action_nw_addr_pack_def res_simps ip_toSigned_host)
  then have q: "struct_pack [FH, FH, FL] [t, nwa_length a, ?n] = Inr b"
    using enc_signed_unsigned [of ?n] n
    by (auto simp: struct_pack.simps in_range_def res_simps split: if_splits)
  note l = struct_pack_length [OF q, simplified] and h = struct_unpack_from_hit [OF q]
  show ?thesis
    using assms(2) by (simp add: l h o ofp_action_nw_addr_unpack_def IPAddr_init_int ip_of_int_u)
qed

text \<open>\<open>ofp_action_enqueue\<close>\<close>

record ofp_action_enqueue =
  enq_type :: int
  enq_length :: int
  enq_port :: int
  enq_queue_id :: int

definition ofp_action_enqueue_init :: ofp_action_enqueue where
  "ofp_action_enqueue_init = \<lparr>enq_type = 11, enq_length = 16, enq_port = 0, enq_queue_id = 0\<rparr>"

definition ofp_action_enqueue_pack :: "ofp_action_enqueue \<Rightarrow> bytes option res" where
  "ofp_action_enqueue_pack a =
     rmap Some (rconcat
        [struct_pack [FH, FH, FH] [enq_type a, enq_length a, enq_port a],
         Inr (zeros 6),
         struct_pack [FL] [enq_queue_id a]])"

definition ofp_action_enqueue_unpack :: "ofp_action_enqueue \<Rightarrow> bytes \<Rightarrow> (ofp_action_enqueue \<times> bytes) res" where
  "ofp_action_enqueue_unpack a b =
     (if length b < 16 then Inr (a, b)
      else rbind (struct_unpack_from [FH, FH, FH] b 0) (\<lambda>vs1.
           rbind (struct_unpack_from [FL] b 12) (\<lambda>vs2.
           case (vs1, vs2) of
             ([type, ln, port], [queue_id]) \<Rightarrow> Inr (a\<lparr>enq_type := type, enq_length := ln, enq_port := port, enq_queue_id := queue_id\<rparr>, drop 16 b)
           | _ \<Rightarrow> Inl ValueError)))"

definition ofp_action_enqueue_len :: "ofp_action_enqueue \<Rightarrow> int" where
  "ofp_action_enqueue_len a = 16"

definition ofp_action_enqueue_eq :: "ofp_action_enqueue \<Rightarrow> ofp_action_enqueue \<Rightarrow> bool" where
  "ofp_action_enqueue_eq a b \<longleftrightarrow> enq_type a = enq_type b
     \<and> enq_length a = enq_length b
     \<and> enq_port a = enq_port b
     \<and> enq_queue_id a = enq_queue_id b"

lemma ofp_action_enqueue_wire:
  assumes "ofp_action_enqueue_pack a = Inr (Some b)"
  shows "length b = 16 \<and> ofp_action_enqueue_unpack y (b @ rest) = Inr (a, rest)"
proof -
  obtain p1 p2 where ps: 
      "struct_pack [FH, FH, FH] [enq_type a, enq_length a, enq_port a] = Inr p1"
      "struct_pack [FL] [enq_queue_id a] = Inr p2"
    and b: "b = p1 @ zeros 6 @ p2"
    using assms by (auto simp: ofp_action_enqueue_pack_def res_simps)
  note l = ps [THEN struct_pack_length, simplified] and h = ps [THEN struct_unpack_from_hit]
  show ?thesis by (simp add: b l h ofp_action_enqueue_unpack_def struct_unpack_from_skip)
qed

lemma ofp_action_enqueue_eq_iff [simp]: "ofp_action_enqueue_eq a b \<longleftrightarrow> a = b"
  by (auto simp: ofp_action_enqueue_eq_def)

text \<open>\<open>ofp_action_mpls_label\<close>: the body of \<open>pack\<close> is inside \<open>if assertstruct\<close>, so without it the method returns \<open>None\<close>.\<close>

record ofp_action_mpls_label =
  lab_type :: int
  lab_length :: int
  lab_mpls_label :: int

definition ofp_action_mpls_label_init :: ofp_action_mpls_label where
  "ofp_action_mpls_label_init = \<lparr>lab_type = 13, lab_length = 8, lab_mpls_label = 0\<rparr>"

definition ofp_action_mpls_label_pack :: "bool \<Rightarrow> ofp_action_mpls_label \<Rightarrow> bytes option res" where
  "ofp_action_mpls_label_pack assertstruct a =
     (if \<not> assertstruct then Inr None
      else rmap Some (struct_pack [FH, FH, FI] [lab_type a, lab_length a, lab_mpls_label a]))"

definition ofp_action_mpls_label_unpack :: "ofp_action_mpls_label \<Rightarrow> bytes \<Rightarrow> (ofp_action_mpls_label \<times> bytes) res" where
  "ofp_action_mpls_label_unpack a b =
     (if length b < 8 then Inr (a, b)
      else rbind (struct_unpack_from [FH, FH, FI] b 0) (\<lambda>vs1.
           case vs1 of
             [type, ln, mpls_label] \<Rightarrow> Inr (a\<lparr>lab_type := type, lab_length := ln, lab_mpls_label := mpls_label\<rparr>, drop 8 b)
           | _ \<Rightarrow> Inl ValueError))"

definition ofp_action_mpls_label_len :: "ofp_action_mpls_label \<Rightarrow> int" where
  "ofp_action_mpls_label_len a = lab_length a"

definition ofp_action_mpls_label_eq :: "ofp_action_mpls_label \<Rightarrow> ofp_action_mpls_label \<Rightarrow> bool" where
  "ofp_action_mpls_label_eq a b \<longleftrightarrow> lab_type a = lab_type b
     \<and> lab_length a = lab_length b
     \<and> lab_mpls_label a = lab_mpls_label b"

lemma ofp_action_mpls_label_wire:
  assumes "ofp_action_mpls_label_pack True a = Inr (Some b)"
  shows "length b = 8 \<and> ofp_action_mpls_label_unpack y (b @ rest) = Inr (a, rest)"
proof -
  obtain p1 where ps: "struct_pack [FH, FH, FI] [lab_type a, lab_length a, lab_mpls_label a] = Inr p1"
    and b: "b = p1"
    using assms by (auto simp: ofp_action_mpls_label_pack_def res_simps)
  note l = ps [THEN struct_pack_length, simplified] and h = ps [THEN struct_unpack_from_hit]
  show ?thesis by (simp add: b l h ofp_action_mpls_label_unpack_def struct_unpack_from_skip)
qed

lemma ofp_action_mpls_label_eq_iff [simp]: "ofp_action_mpls_label_eq a b \<longleftrightarrow> a = b"
  by (auto simp: ofp_action_mpls_label_eq_def)

text \<open>\<open>ofp_action_mpls_tc\<close>\<close>

record ofp_action_mpls_tc =
  mtc_type :: int
  mtc_length :: int
  mtc_mpls_tc :: int

definition ofp_action_mpls_tc_init :: ofp_action_mpls_tc where
  "ofp_action_mpls_tc_init = \<lparr>mtc_type = 14, mtc_length = 8, mtc_mpls_tc = 0\<rparr>"

definition ofp_action_mpls_tc_pack :: "bool \<Rightarrow> ofp_action_mpls_tc \<Rightarrow> bytes option res" where
  "ofp_action_mpls_tc_pack assertstruct a =
     (if \<not> assertstruct then Inr None
      else rmap Some (struct_pack [FH, FH, FB, Fx, Fx, Fx] [mtc_type a, mtc_length a, mtc_mpls_tc a]))"

definition ofp_action_mpls_tc_unpack :: "ofp_action_mpls_tc \<Rightarrow> bytes \<Rightarrow> (ofp_action_mpls_tc \<times> bytes) res" where
  "ofp_action_mpls_tc_unpack a b =
     (if length b < 8 then Inr (a, b)
      else rbind (struct_unpack_from [FH, FH, FB] b 0) (\<lambda>vs1.
           case vs1 of
             [type, ln, mpls_tc] \<Rightarrow> Inr (a\<lparr>mtc_type := type, mtc_length := ln, mtc_mpls_tc := mpls_tc\<rparr>, drop 8 b)
           | _ \<Rightarrow> Inl ValueError))"

definition ofp_action_mpls_tc_len :: "ofp_action_mpls_tc \<Rightarrow> int" where
  "ofp_action_mpls_tc_len a = mtc_length a"

definition ofp_action_mpls_tc_eq :: "ofp_action_mpls_tc \<Rightarrow> ofp_action_mpls_tc \<Rightarrow> bool" where
  "ofp_action_mpls_tc_eq a b \<longleftrightarrow> mtc_type a = mtc_type b
     \<and> mtc_length a = mtc_length b
     \<and> mtc_mpls_tc a = mtc_mpls_tc b"

lemma ofp_action_mpls_tc_wire:
  assumes "ofp_action_mpls_tc_pack True a = Inr (Some b)"
  shows "length b = 8 \<and> ofp_action_mpls_tc_unpack y (b @ rest) = Inr (a, rest)"
proof -
  obtain p1 where ps: "struct_pack [FH, FH, FB, Fx, Fx, Fx] [mtc_type a, mtc_length a, mtc_mpls_tc a] = Inr p1"
    and b: "b = p1"
    using assms by (auto simp: ofp_action_mpls_tc_pack_def res_simps)
  note l = ps [THEN struct_pack_length, simplified] and h = ps [THEN struct_unpack_from_hit_x]
  show ?thesis by (simp add: b l h ofp_action_mpls_tc_unpack_def struct_unpack_from_skip)
qed

lemma ofp_action_mpls_tc_eq_iff [simp]: "ofp_action_mpls_tc_eq a b \<longleftrightarrow> a = b"
  by (auto simp: ofp_action_mpls_tc_eq_def)

text \<open>\<open>ofp_action_mpls_ttl\<close>\<close>

record ofp_action_mpls_ttl =
  mttl_type :: int
  mttl_length :: int
  mttl_mpls_ttl :: int

definition ofp_action_mpls_ttl_init :: ofp_action_mpls_ttl where
  "ofp_action_mpls_ttl_init = \<lparr>mttl_type = 15, mttl_length = 8, mttl_mpls_ttl = 0\<rparr>"

definition ofp_action_mpls_ttl_pack :: "bool \<Rightarrow> ofp_action_mpls_ttl \<Rightarrow> bytes option res" where
  "ofp_action_mpls_ttl_pack assertstruct a =
     (if \<not> assertstruct then Inr None
      else rmap Some (struct_pack [FH, FH, FB, Fx, Fx, Fx] [mttl_type a, mttl_length a, mttl_mpls_ttl a]))"

definition ofp_action_mpls_ttl_unpack :: "ofp_action_mpls_ttl \<Rightarrow> bytes \<Rightarrow> (ofp_action_mpls_ttl \<times> bytes) res" where
  "ofp_action_mpls_ttl_unpack a b =
     (if length b < 8 then Inr (a, b)
      else rbind (struct_unpack_from [FH, FH, FB] b 0) (\<lambda>vs1.
           case vs1 of
             [type, ln, mpls_ttl] \<Rightarrow> Inr (a\<lparr>mttl_type := type, mttl_length := ln, mttl_mpls_ttl := mpls_ttl\<rparr>, drop 8 b)
           | _ \<Rightarrow> Inl ValueError))"

definition ofp_action_mpls_ttl_len :: "ofp_action_mpls_ttl \<Rightarrow> int" where
  "ofp_action_mpls_ttl_len a = mttl_length a"

definition ofp_action_mpls_ttl_eq :: "ofp_action_mpls_ttl \<Rightarrow> ofp_action_mpls_ttl \<Rightarrow> bool" where
  "ofp_action_mpls_ttl_eq a b \<longleftrightarrow> mttl_type a = mttl_type b
     \<and> mttl_length a = mttl_length b
     \<and> mttl_mpls_ttl a = mttl_mpls_ttl b"

lemma ofp_action_mpls_ttl_wire:
  assumes "ofp_action_mpls_ttl_pack True a = Inr (Some b)"
  shows "length b = 8 \<and> ofp_action_mpls_ttl_unpack y (b @ rest) = Inr (a, rest)"
proof -
  obtain p1 where ps: "struct_pack [FH, FH, FB, Fx, Fx, Fx] [mttl_type a, mttl_length a, mttl_mpls_ttl a] = Inr p1"
    and b: "b = p1"
    using assms by (auto simp: ofp_action_mpls_ttl_pack_def res_simps)
  note l = ps [THEN struct_pack_length, simplified] and h = ps [THEN struct_unpack_from_hit_x]
  show ?thesis by (simp add: b l h ofp_action_mpls_ttl_unpack_def struct_unpack_from_skip)
qed

lemma ofp_action_mpls_ttl_eq_iff [simp]: "ofp_action_mpls_ttl_eq a b \<longleftrightarrow> a = b"
  by (auto simp: ofp_action_mpls_ttl_eq_def)

text \<open>\<open>ofp_action_pop_mpls\<close>\<close>

record ofp_action_pop_mpls =
  pop_type :: int
  pop_length :: int
  pop_ethertype :: int

definition ofp_action_pop_mpls_init :: ofp_action_pop_mpls where
  "ofp_action_pop_mpls_init = \<lparr>pop_type = 20, pop_length = 8, pop_ethertype = 0\<rparr>"

definition ofp_action_pop_mpls_pack :: "bool \<Rightarrow> ofp_action_pop_mpls \<Rightarrow> bytes option res" where
  "ofp_action_pop_mpls_pack assertstruct a =
     (if \<not> assertstruct then Inr None
      else rmap Some (struct_pack [FH, FH, FH, Fx, Fx] [pop_type a, pop_length a, pop_ethertype a]))"

definition ofp_action_pop_mpls_unpack :: "ofp_action_pop_mpls \<Rightarrow> bytes \<Rightarrow> (ofp_action_pop_mpls \<times> bytes) res" where
  "ofp_action_pop_mpls_unpack a b =
     (if length b < 8 then Inr (a, b)
      else rbind (struct_unpack_from [FH, FH, FH] b 0) (\<lambda>vs1.
           case vs1 of
             [type, ln, ethertype] \<Rightarrow> Inr (a\<lparr>pop_type := type, pop_length := ln, pop_ethertype := ethertype\<rparr>, drop 8 b)
           | _ \<Rightarrow> Inl ValueError))"

definition ofp_action_pop_mpls_len :: "ofp_action_pop_mpls \<Rightarrow> int" where
  "ofp_action_pop_mpls_len a = pop_length a"

definition ofp_action_pop_mpls_eq :: "ofp_action_pop_mpls \<Rightarrow> ofp_action_pop_mpls \<Rightarrow> bool" where
  "ofp_action_pop_mpls_eq a b \<longleftrightarrow> pop_type a = pop_type b
     \<and> pop_length a = pop_length b
     \<and> pop_ethertype a = pop_ethertype b"

lemma ofp_action_pop_mpls_wire:
  assumes "ofp_action_pop_mpls_pack True a = Inr (Some b)"
  shows "length b = 8 \<and> ofp_action_pop_mpls_unpack y (b @ rest) = Inr (a, rest)"
proof -
  obtain p1 where ps: "struct_pack [FH, FH, FH, Fx, Fx] [pop_type a, pop_length a, pop_ethertype a] = Inr p1"
    and b: "b = p1"
    using assms by (auto simp: ofp_action_pop_mpls_pack_def res_simps)
  note l = ps [THEN struct_pack_length, simplified] and h = ps [THEN struct_unpack_from_hit_x]
  show ?thesis by (simp add: b l h ofp_action_pop_mpls_unpack_def struct_unpack_from_skip)
qed

lemma ofp_action_pop_mpls_eq_iff [simp]: "ofp_action_pop_mpls_eq a b \<longleftrightarrow> a = b"
  by (auto simp: ofp_action_pop_mpls_eq_def)

text \<open>\<open>ofp_action_vlan_vid\<close>\<close>

record ofp_action_vlan_vid =
  vid_type :: int
  vid_length :: int
  vid_vlan_vid :: int

definition ofp_action_vlan_vid_init :: ofp_action_vlan_vid where
  "ofp_action_vlan_vid_init = \<lparr>vid_type = 1, vid_length = 8, vid_vlan_vid = 0\<rparr>"

definition ofp_action_vlan_vid_pack :: "ofp_action_vlan_vid \<Rightarrow> bytes option res" where
  "ofp_action_vlan_vid_pack a =
     rmap Some (rconcat
        [struct_pack [FH, FH, FH] [vid_type a, vid_length a, vid_vlan_vid a],
         Inr (zeros 2)])"

definition ofp_action_vlan_vid_unpack :: "ofp_action_vlan_vid \<Rightarrow> bytes \<Rightarrow> (ofp_action_vlan_vid \<times> bytes) res" where
  "ofp_action_vlan_vid_unpack a b =
     (if length b < 8 then Inr (a, b)
      else rbind (struct_unpack_from [FH, FH, FH] b 0) (\<lambda>vs1.
           case vs1 of
             [type, ln, vlan_vid] \<Rightarrow> Inr (a\<lparr>vid_type := type, vid_length := ln, vid_vlan_vid := vlan_vid\<rparr>, drop 8 b)
           | _ \<Rightarrow> Inl ValueError))"

definition ofp_action_vlan_vid_len :: "ofp_action_vlan_vid \<Rightarrow> int" where
  "ofp_action_vlan_vid_len a = 8"

definition ofp_action_vlan_vid_eq :: "ofp_action_vlan_vid \<Rightarrow> ofp_action_vlan_vid \<Rightarrow> bool" where
  "ofp_action_vlan_vid_eq a b \<longleftrightarrow> vid_type a = vid_type b
     \<and> vid_length a = vid_length b
     \<and> vid_vlan_vid a = vid_vlan_vid b"

lemma ofp_action_vlan_vid_wire:
  assumes "ofp_action_vlan_vid_pack a = Inr (Some b)"
  shows "length b = 8 \<and> ofp_action_vlan_vid_unpack y (b @ rest) = Inr (a, rest)"
proof -
  obtain p1 where ps: "struct_pack [FH, FH, FH] [vid_type a, vid_length a, vid_vlan_vid a] = Inr p1"
    and b: "b = p1 @ zeros 2"
    using assms by (auto simp: ofp_action_vlan_vid_pack_def res_simps)
  note l = ps [THEN struct_pack_length, simplified] and h = ps [THEN struct_unpack_from_hit]
  show ?thesis by (simp add: b l h ofp_action_vlan_vid_unpack_def struct_unpack_from_skip)
qed

lemma ofp_action_vlan_vid_eq_iff [simp]: "ofp_action_vlan_vid_eq a b \<longleftrightarrow> a = b"
  by (auto simp: ofp_action_vlan_vid_eq_def)

text \<open>\<open>ofp_action_vlan_pcp\<close>\<close>

record ofp_action_vlan_pcp =
  pcp_type :: int
  pcp_length :: int
  pcp_vlan_pcp :: int

definition ofp_action_vlan_pcp_init :: ofp_action_vlan_pcp where
  "ofp_action_vlan_pcp_init = \<lparr>pcp_type = 2, pcp_length = 8, pcp_vlan_pcp = 0\<rparr>"

definition ofp_action_vlan_pcp_pack :: "ofp_action_vlan_pcp \<Rightarrow> bytes option res" where
  "ofp_action_vlan_pcp_pack a =
     rmap Some (rconcat
        [struct_pack [FH, FH, FB] [pcp_type a, pcp_length a, pcp_vlan_pcp a],
         Inr (zeros 3)])"

definition ofp_action_vlan_pcp_unpack :: "ofp_action_vlan_pcp \<Rightarrow> bytes \<Rightarrow> (ofp_action_vlan_pcp \<times> bytes) res" where
  "ofp_action_vlan_pcp_unpack a b =
     (if length b < 8 then Inr (a, b)
      else rbind (struct_unpack_from [FH, FH, FB] b 0) (\<lambda>vs1.
           case vs1 of
             [type, ln, vlan_pcp] \<Rightarrow> Inr (a\<lparr>pcp_type := type, pcp_length := ln, pcp_vlan_pcp := vlan_pcp\<rparr>, drop 8 b)
           | _ \<Rightarrow> Inl ValueError))"

definition ofp_action_vlan_pcp_len :: "ofp_action_vlan_pcp \<Rightarrow> int" where
  "ofp_action_vlan_pcp_len a = 8"

definition ofp_action_vlan_pcp_eq :: "ofp_action_vlan_pcp \<Rightarrow> ofp_action_vlan_pcp \<Rightarrow> bool" where
  "ofp_action_vlan_pcp_eq a b \<longleftrightarrow> pcp_type a = pcp_type b
     \<and> pcp_length a = pcp_length b
     \<and> pcp_vlan_pcp a = pcp_vlan_pcp b"

lemma ofp_action_vlan_pcp_wire:
  assumes "ofp_action_vlan_pcp_pack a = Inr (Some b)"
  shows "length b = 8 \<and> ofp_action_vlan_pcp_unpack y (b @ rest) = Inr (a, rest)"
proof -
  obtain p1 where ps: "struct_pack [FH, FH, FB] [pcp_type a, pcp_length a, pcp_vlan_pcp a] = Inr p1"
    and b: "b = p1 @ zeros 3"
    using assms by (auto simp: ofp_action_vlan_pcp_pack_def res_simps)
  note l = ps [THEN struct_pack_length, simplified] and h = ps [THEN struct_unpack_from_hit]
  show ?thesis by (simp add: b l h ofp_action_vlan_pcp_unpack_def struct_unpack_from_skip)
qed

lemma ofp_action_vlan_pcp_eq_iff [simp]: "ofp_action_vlan_pcp_eq a b \<longleftrightarrow> a = b"
  by (auto simp: ofp_action_vlan_pcp_eq_def)

text \<open>\<open>ofp_action_nw_tos\<close>\<close>

record ofp_action_nw_tos =
  tos_type :: int
  tos_length :: int
  tos_nw_tos :: int

definition ofp_action_nw_tos_init :: ofp_action_nw_tos where
  "ofp_action_nw_tos_init = \<lparr>tos_type = 8, tos_length = 8, tos_nw_tos = 0\<rparr>"

definition ofp_action_nw_tos_pack :: "ofp_action_nw_tos \<Rightarrow> bytes option res" where
  "ofp_action_nw_tos_pack a =
     rmap Some (rconcat
        [struct_pack [FH, FH, FB] [tos_type a, tos_length a, tos_nw_tos a],
         Inr (zeros 3)])"

definition ofp_action_nw_tos_unpack :: "ofp_action_nw_tos \<Rightarrow> bytes \<Rightarrow> (ofp_action_nw_tos \<times> bytes) res" where
  "ofp_action_nw_tos_unpack a b =
     (if length b < 8 then Inr (a, b)
      else rbind (struct_unpack_from [FH, FH, FB] b 0) (\<lambda>vs1.
           case vs1 of
             [type, ln, nw_tos] \<Rightarrow> Inr (a\<lparr>tos_type := type, tos_length := ln, tos_nw_tos := nw_tos\<rparr>, drop 8 b)
           | _ \<Rightarrow> Inl ValueError))"

definition ofp_action_nw_tos_len :: "ofp_action_nw_tos \<Rightarrow> int" where
  "ofp_action_nw_tos_len a = 8"

definition ofp_action_nw_tos_eq :: "ofp_action_nw_tos \<Rightarrow> ofp_action_nw_tos \<Rightarrow> bool" where
  "ofp_action_nw_tos_eq a b \<longleftrightarrow> tos_type a = tos_type b
     \<and> tos_length a = tos_length b
     \<and> tos_nw_tos a = tos_nw_tos b"

lemma ofp_action_nw_tos_wire:
  assumes "ofp_action_nw_tos_pack a = Inr (Some b)"
  shows "length b = 8 \<and> ofp_action_nw_tos_unpack y (b @ rest) = Inr (a, rest)"
proof -
  obtain p1 where ps: "struct_pack [FH, FH, FB] [tos_type a, tos_length a, tos_nw_tos a] = Inr p1"
    and b: "b = p1 @ zeros 3"
    using assms by (auto simp: ofp_action_nw_tos_pack_def res_simps)
  note l = ps [THEN struct_pack_length, simplified] and h = ps [THEN struct_unpack_from_hit]
  show ?thesis by (simp add: b l h ofp_action_nw_tos_unpack_def struct_unpack_from_skip)
qed

lemma ofp_action_nw_tos_eq_iff [simp]: "ofp_action_nw_tos_eq a b \<longleftrightarrow> a = b"
  by (auto simp: ofp_action_nw_tos_eq_def)

text \<open>\<open>ofp_action_tp_port\<close>: the constructor's \<open>type\<close> defaults to \<open>None\<close>, and \<open>set_dst()\<close>/\<open>set_src()\<close> pass \<open>tp_port = None\<close>.\<close>

record ofp_action_tp_port =
  tp_type :: "int option"
  tp_length :: int
  tp_tp_port :: "int option"

definition ofp_action_tp_port_init :: ofp_action_tp_port where
  "ofp_action_tp_port_init = \<lparr>tp_type = None, tp_length = 8, tp_tp_port = Some 0\<rparr>"

definition ofp_action_tp_port_pack :: "ofp_action_tp_port \<Rightarrow> bytes option res" where
  "ofp_action_tp_port_pack a =
     rbind (need StructError (tp_type a)) (\<lambda>type.
     rbind (need StructError (tp_tp_port a)) (\<lambda>tp_port.
     rmap Some (rconcat
        [struct_pack [FH, FH, FH] [type, tp_length a, tp_port],
         Inr (zeros 2)])))"

definition ofp_action_tp_port_unpack :: "ofp_action_tp_port \<Rightarrow> bytes \<Rightarrow> (ofp_action_tp_port \<times> bytes) res" where
  "ofp_action_tp_port_unpack a b =
     (if length b < 8 then Inr (a, b)
      else rbind (struct_unpack_from [FH, FH, FH] b 0) (\<lambda>vs1.
           case vs1 of
             [type, ln, tp_port] \<Rightarrow> Inr (a\<lparr>tp_type := Some type, tp_length := ln, tp_tp_port := Some tp_port\<rparr>, drop 8 b)
           | _ \<Rightarrow> Inl ValueError))"

definition ofp_action_tp_port_len :: "ofp_action_tp_port \<Rightarrow> int" where
  "ofp_action_tp_port_len a = 8"

definition ofp_action_tp_port_eq :: "ofp_action_tp_port \<Rightarrow> ofp_action_tp_port \<Rightarrow> bool" where
  "ofp_action_tp_port_eq a b \<longleftrightarrow> tp_type a = tp_type b
     \<and> tp_length a = tp_length b
     \<and> tp_tp_port a = tp_tp_port b"

lemma ofp_action_tp_port_wire:
  assumes "ofp_action_tp_port_pack a = Inr (Some b)"
  shows "length b = 8 \<and> ofp_action_tp_port_unpack y (b @ rest) = Inr (a, rest)"
proof -
  obtain p1 type' tp_port' where ps: "struct_pack [FH, FH, FH] [type', tp_length a, tp_port'] = Inr p1"
    and b: "b = p1 @ zeros 2"
    and o: "tp_type a = Some type'" "tp_tp_port a = Some tp_port'"
    using assms by (auto simp: ofp_action_tp_port_pack_def res_simps)
  note l = ps [THEN struct_pack_length, simplified] and h = ps [THEN struct_unpack_from_hit]
  show ?thesis by (simp add: b l h o ofp_action_tp_port_unpack_def struct_unpack_from_skip)
qed

lemma ofp_action_tp_port_eq_iff [simp]: "ofp_action_tp_port_eq a b \<longleftrightarrow> a = b"
  by (auto simp: ofp_action_tp_port_eq_def)

text \<open>\<open>ofp_action_vendor_header\<close>\<close>

record ofp_action_vendor_header =
  ven_type :: int
  ven_length :: int
  ven_vendor :: int

definition ofp_action_vendor_header_init :: ofp_action_vendor_header where
  "ofp_action_vendor_header_init = \<lparr>ven_type = 65535, ven_length = 8, ven_vendor = 0\<rparr>"

definition ofp_action_vendor_header_pack :: "ofp_action_vendor_header \<Rightarrow> bytes option res" where
  "ofp_action_vendor_header_pack a =
     rmap Some (struct_pack [FH, FH, FL] [ven_type a, ven_length a, ven_vendor a])"

definition ofp_action_vendor_header_unpack :: "ofp_action_vendor_header \<Rightarrow> bytes \<Rightarrow> (ofp_action_vendor_header \<times> bytes) res" where
  "ofp_action_vendor_header_unpack a b =
     (if length b < 8 then Inr (a, b)
      else rbind (struct_unpack_from [FH, FH, FL] b 0) (\<lambda>vs1.
           case vs1 of
             [type, ln, vendor] \<Rightarrow> Inr (a\<lparr>ven_type := type, ven_length := ln, ven_vendor := vendor\<rparr>, drop 8 b)
           | _ \<Rightarrow> Inl ValueError))"

definition ofp_action_vendor_header_len :: "ofp_action_vendor_header \<Rightarrow> int" where
  "ofp_action_vendor_header_len a = 8"

definition ofp_action_vendor_header_eq :: "ofp_action_vendor_header \<Rightarrow> ofp_action_vendor_header \<Rightarrow> bool" where
  "ofp_action_vendor_header_eq a b \<longleftrightarrow> ven_type a = ven_type b
     \<and> ven_length a = ven_length b
     \<and> ven_vendor a = ven_vendor b"

lemma ofp_action_vendor_header_wire:
  assumes "ofp_action_vendor_header_pack a = Inr (Some b)"
  shows "length b = 8 \<and> ofp_action_vendor_header_unpack y (b @ rest) = Inr (a, rest)"
proof -
  obtain p1 where ps: "struct_pack [FH, FH, FL] [ven_type a, ven_length a, ven_vendor a] = Inr p1"
    and b: "b = p1"
    using assms by (auto simp: ofp_action_vendor_header_pack_def res_simps)
  note l = ps [THEN struct_pack_length, simplified] and h = ps [THEN struct_unpack_from_hit]
  show ?thesis by (simp add: b l h ofp_action_vendor_header_unpack_def struct_unpack_from_skip)
qed

lemma ofp_action_vendor_header_eq_iff [simp]: "ofp_action_vendor_header_eq a b \<longleftrightarrow> a = b"
  by (auto simp: ofp_action_vendor_header_eq_def)


section \<open>The union of the action classes\<close>

text \<open>
  One constructor per class; \<open>ofp_action_mpls_dec_ttl\<close> and \<open>ofp_action_resubmit\<close> inherit
  everything from \<open>ofp_action_header\<close>, but \<open>__eq__\<close> compares the classes.
\<close>

datatype ofp_action =
    ActHeader ofp_action_header
  | ActDecTtl ofp_action_header
  | ActResubmit ofp_action_header
  | ActOutput ofp_action_output
  | ActEnqueue ofp_action_enqueue
  | ActPushMpls ofp_action_push_mpls
  | ActMplsLabel ofp_action_mpls_label
  | ActMplsTc ofp_action_mpls_tc
  | ActMplsTtl ofp_action_mpls_ttl
  | ActPopMpls ofp_action_pop_mpls
  | ActVlanVid ofp_action_vlan_vid
  | ActVlanPcp ofp_action_vlan_pcp
  | ActDlAddr ofp_action_dl_addr
  | ActNwAddr ofp_action_nw_addr
  | ActNwTos ofp_action_nw_tos
  | ActTpPort ofp_action_tp_port
  | ActVendor ofp_action_vendor_header

text \<open>\<open>a.type\<close>\<close>

fun action_type :: "ofp_action \<Rightarrow> int option" where
  "action_type (ActHeader a) = ah_type a"
| "action_type (ActDecTtl a) = ah_type a"
| "action_type (ActResubmit a) = ah_type a"
| "action_type (ActOutput a) = Some (out_type a)"
| "action_type (ActEnqueue a) = Some (enq_type a)"
| "action_type (ActPushMpls a) = Some (push_type a)"
| "action_type (ActMplsLabel a) = Some (lab_type a)"
| "action_type (ActMplsTc a) = Some (mtc_type a)"
| "action_type (ActMplsTtl a) = Some (mttl_type a)"
| "action_type (ActPopMpls a) = Some (pop_type a)"
| "action_type (ActVlanVid a) = Some (vid_type a)"
| "action_type (ActVlanPcp a) = Some (pcp_type a)"
| "action_type (ActDlAddr a) = dla_type a"
| "action_type (ActNwAddr a) = nwa_type a"
| "action_type (ActNwTos a) = Some (tos_type a)"
| "action_type (ActTpPort a) = tp_type a"
| "action_type (ActVendor a) = Some (ven_type a)"

text \<open>\<open>a.pack(assertstruct)\<close> and, for the class whose \<open>pack\<close> writes to the object, the object after it\<close>

fun action_pack :: "bool \<Rightarrow> ofp_action \<Rightarrow> bytes option res" where
  "action_pack s (ActHeader a) = ofp_action_header_pack a"
| "action_pack s (ActDecTtl a) = ofp_action_header_pack a"
| "action_pack s (ActResubmit a) = ofp_action_header_pack a"
| "action_pack s (ActOutput a) = ofp_action_output_pack a"
| "action_pack s (ActEnqueue a) = ofp_action_enqueue_pack a"
| "action_pack s (ActPushMpls a) = ofp_action_push_mpls_pack s a"
| "action_pack s (ActMplsLabel a) = ofp_action_mpls_label_pack s a"
| "action_pack s (ActMplsTc a) = ofp_action_mpls_tc_pack s a"
| "action_pack s (ActMplsTtl a) = ofp_action_mpls_ttl_pack s a"
| "action_pack s (ActPopMpls a) = ofp_action_pop_mpls_pack s a"
| "action_pack s (ActVlanVid a) = ofp_action_vlan_vid_pack a"
| "action_pack s (ActVlanPcp a) = ofp_action_vlan_pcp_pack a"
| "action_pack s (ActDlAddr a) = ofp_action_dl_addr_pack s a"
| "action_pack s (ActNwAddr a) = ofp_action_nw_addr_pack a"
| "action_pack s (ActNwTos a) = ofp_action_nw_tos_pack a"
| "action_pack s (ActTpPort a) = ofp_action_tp_port_pack a"
| "action_pack s (ActVendor a) = ofp_action_vendor_header_pack a"

fun action_after_pack :: "ofp_action \<Rightarrow> ofp_action" where
  "action_after_pack (ActOutput a) = ActOutput (ofp_action_output_after_pack a)"
| "action_after_pack a = a"

text \<open>\<open>len(a)\<close> (a negative \<open>__len__\<close>, which raises, needs a negative \<open>length\<close> field)\<close>

fun action_len :: "ofp_action \<Rightarrow> int" where
  "action_len (ActHeader a) = ofp_action_header_len a"
| "action_len (ActDecTtl a) = ofp_action_header_len a"
| "action_len (ActResubmit a) = ofp_action_header_len a"
| "action_len (ActOutput a) = ofp_action_output_len a"
| "action_len (ActEnqueue a) = ofp_action_enqueue_len a"
| "action_len (ActPushMpls a) = ofp_action_push_mpls_len a"
| "action_len (ActMplsLabel a) = ofp_action_mpls_label_len a"
| "action_len (ActMplsTc a) = ofp_action_mpls_tc_len a"
| "action_len (ActMplsTtl a) = ofp_action_mpls_ttl_len a"
| "action_len (ActPopMpls a) = ofp_action_pop_mpls_len a"
| "action_len (ActVlanVid a) = ofp_action_vlan_vid_len a"
| "action_len (ActVlanPcp a) = ofp_action_vlan_pcp_len a"
| "action_len (ActDlAddr a) = ofp_action_dl_addr_len a"
| "action_len (ActNwAddr a) = ofp_action_nw_addr_len a"
| "action_len (ActNwTos a) = ofp_action_nw_tos_len a"
| "action_len (ActTpPort a) = ofp_action_tp_port_len a"
| "action_len (ActVendor a) = ofp_action_vendor_header_len a"

text \<open>\<open>a.unpack(b)\<close>: the class decides, the object is overwritten\<close>

definition via :: "('a \<Rightarrow> 'b) \<Rightarrow> ('a \<times> bytes) res \<Rightarrow> ('b \<times> bytes) res" where
  "via C m = rmap (\<lambda>(a, r). (C a, r)) m"

fun action_unpack :: "ofp_action \<Rightarrow> bytes \<Rightarrow> (ofp_action \<times> bytes) res" where
  "action_unpack (ActHeader a) b = via ActHeader (ofp_action_header_unpack a b)"
| "action_unpack (ActDecTtl a) b = via ActDecTtl (ofp_action_header_unpack a b)"
| "action_unpack (ActResubmit a) b = via ActResubmit (ofp_action_header_unpack a b)"
| "action_unpack (ActOutput a) b = via ActOutput (ofp_action_output_unpack a b)"
| "action_unpack (ActEnqueue a) b = via ActEnqueue (ofp_action_enqueue_unpack a b)"
| "action_unpack (ActPushMpls a) b = via ActPushMpls (ofp_action_push_mpls_unpack a b)"
| "action_unpack (ActMplsLabel a) b = via ActMplsLabel (ofp_action_mpls_label_unpack a b)"
| "action_unpack (ActMplsTc a) b = via ActMplsTc (ofp_action_mpls_tc_unpack a b)"
| "action_unpack (ActMplsTtl a) b = via ActMplsTtl (ofp_action_mpls_ttl_unpack a b)"
| "action_unpack (ActPopMpls a) b = via ActPopMpls (ofp_action_pop_mpls_unpack a b)"
| "action_unpack (ActVlanVid a) b = via ActVlanVid (ofp_action_vlan_vid_unpack a b)"
| "action_unpack (ActVlanPcp a) b = via ActVlanPcp (ofp_action_vlan_pcp_unpack a b)"
| "action_unpack (ActDlAddr a) b = via ActDlAddr (ofp_action_dl_addr_unpack a b)"
| "action_unpack (ActNwAddr a) b = via ActNwAddr (ofp_action_nw_addr_unpack a b)"
| "action_unpack (ActNwTos a) b = via ActNwTos (ofp_action_nw_tos_unpack a b)"
| "action_unpack (ActTpPort a) b = via ActTpPort (ofp_action_tp_port_unpack a b)"
| "action_unpack (ActVendor a) b = via ActVendor (ofp_action_vendor_header_unpack a b)"

text \<open>\<open>a == b\<close>: objects of different classes are unequal\<close>

fun action_eq :: "ofp_action \<Rightarrow> ofp_action \<Rightarrow> bool" where
  "action_eq (ActHeader a) y = (case y of ActHeader b \<Rightarrow> ofp_action_header_eq a b | _ \<Rightarrow> False)"
| "action_eq (ActDecTtl a) y = (case y of ActDecTtl b \<Rightarrow> ofp_action_header_eq a b | _ \<Rightarrow> False)"
| "action_eq (ActResubmit a) y = (case y of ActResubmit b \<Rightarrow> ofp_action_header_eq a b | _ \<Rightarrow> False)"
| "action_eq (ActOutput a) y = (case y of ActOutput b \<Rightarrow> ofp_action_output_eq a b | _ \<Rightarrow> False)"
| "action_eq (ActEnqueue a) y = (case y of ActEnqueue b \<Rightarrow> ofp_action_enqueue_eq a b | _ \<Rightarrow> False)"
| "action_eq (ActPushMpls a) y = (case y of ActPushMpls b \<Rightarrow> ofp_action_push_mpls_eq a b | _ \<Rightarrow> False)"
| "action_eq (ActMplsLabel a) y = (case y of ActMplsLabel b \<Rightarrow> ofp_action_mpls_label_eq a b | _ \<Rightarrow> False)"
| "action_eq (ActMplsTc a) y = (case y of ActMplsTc b \<Rightarrow> ofp_action_mpls_tc_eq a b | _ \<Rightarrow> False)"
| "action_eq (ActMplsTtl a) y = (case y of ActMplsTtl b \<Rightarrow> ofp_action_mpls_ttl_eq a b | _ \<Rightarrow> False)"
| "action_eq (ActPopMpls a) y = (case y of ActPopMpls b \<Rightarrow> ofp_action_pop_mpls_eq a b | _ \<Rightarrow> False)"
| "action_eq (ActVlanVid a) y = (case y of ActVlanVid b \<Rightarrow> ofp_action_vlan_vid_eq a b | _ \<Rightarrow> False)"
| "action_eq (ActVlanPcp a) y = (case y of ActVlanPcp b \<Rightarrow> ofp_action_vlan_pcp_eq a b | _ \<Rightarrow> False)"
| "action_eq (ActDlAddr a) y = (case y of ActDlAddr b \<Rightarrow> ofp_action_dl_addr_eq a b | _ \<Rightarrow> False)"
| "action_eq (ActNwAddr a) y = (case y of ActNwAddr b \<Rightarrow> ofp_action_nw_addr_eq a b | _ \<Rightarrow> False)"
| "action_eq (ActNwTos a) y = (case y of ActNwTos b \<Rightarrow> ofp_action_nw_tos_eq a b | _ \<Rightarrow> False)"
| "action_eq (ActTpPort a) y = (case y of ActTpPort b \<Rightarrow> ofp_action_tp_port_eq a b | _ \<Rightarrow> False)"
| "action_eq (ActVendor a) y = (case y of ActVendor b \<Rightarrow> ofp_action_vendor_header_eq a b | _ \<Rightarrow> False)"


section \<open>Parsing a list of actions\<close>

text \<open>
  \<open>_action_map.get(t)\<close> followed by the constructor call; a type without an entry (the
  generic ones, \<open>OFPAT_STRIP_VLAN\<close> and \<open>OFPAT_VENDOR\<close> among them) gives an
  \<open>ofp_action_header\<close>.
\<close>

definition action_new :: "int \<Rightarrow> ofp_action res" where
  "action_new t =
     (if t = OFPAT_OUTPUT then Inr (ActOutput ofp_action_output_init)
      else if t = OFPAT_SET_VLAN_VID then Inr (ActVlanVid ofp_action_vlan_vid_init)
      else if t = OFPAT_SET_VLAN_PCP then Inr (ActVlanPcp ofp_action_vlan_pcp_init)
      else if t = OFPAT_SET_DL_SRC \<or> t = OFPAT_SET_DL_DST then
        rmap ActDlAddr (ofp_action_dl_addr_init None None)
      else if t = OFPAT_SET_NW_SRC \<or> t = OFPAT_SET_NW_DST then
        rmap ActNwAddr (ofp_action_nw_addr_init None None)
      else if t = OFPAT_SET_NW_TOS then Inr (ActNwTos ofp_action_nw_tos_init)
      else if t = OFPAT_SET_TP_SRC \<or> t = OFPAT_SET_TP_DST then Inr (ActTpPort ofp_action_tp_port_init)
      else if t = OFPAT_ENQUEUE then Inr (ActEnqueue ofp_action_enqueue_init)
      else if t = OFPAT_PUSH_MPLS then Inr (ActPushMpls ofp_action_push_mpls_init)
      else if t = OFPAT_POP_MPLS then Inr (ActPopMpls ofp_action_pop_mpls_init)
      else if t = OFPAT_SET_MPLS_LABEL then Inr (ActMplsLabel ofp_action_mpls_label_init)
      else if t = OFPAT_SET_MPLS_TC then Inr (ActMplsTc ofp_action_mpls_tc_init)
      else if t = OFPAT_SET_MPLS_TTL then Inr (ActMplsTtl ofp_action_mpls_ttl_init)
      else if t = OFPAT_DEC_MPLS_TTL then Inr (ActDecTtl ofp_action_mpls_dec_ttl_init)
      else if t = OFPAT_RESUBMIT then Inr (ActResubmit ofp_action_resubmit_init)
      else Inr (ActHeader ofp_action_header_init))"

text \<open>A fresh action given no bytes stays as it is, and its length is not zero.\<close>

lemma action_new_ok: "\<exists>a. action_new t = Inr a"
  by (simp add: action_new_def ofp_action_dl_addr_init_def ofp_action_nw_addr_init_def
      IPAddr_init_int)

lemmas action_len_defs =
  ofp_action_header_len_def ofp_action_output_len_def ofp_action_enqueue_len_def
  ofp_action_push_mpls_len_def ofp_action_mpls_label_len_def ofp_action_mpls_tc_len_def
  ofp_action_mpls_ttl_len_def ofp_action_pop_mpls_len_def ofp_action_vlan_vid_len_def
  ofp_action_vlan_pcp_len_def ofp_action_dl_addr_len_def ofp_action_nw_addr_len_def
  ofp_action_nw_tos_len_def ofp_action_tp_port_len_def ofp_action_vendor_header_len_def

lemmas action_init_defs =
  ofp_action_header_init_def ofp_action_mpls_dec_ttl_init_def ofp_action_resubmit_init_def
  ofp_action_output_init_def ofp_action_enqueue_init_def
  ofp_action_push_mpls_init_def ofp_action_mpls_label_init_def ofp_action_mpls_tc_init_def
  ofp_action_mpls_ttl_init_def ofp_action_pop_mpls_init_def ofp_action_vlan_vid_init_def
  ofp_action_vlan_pcp_init_def ofp_action_dl_addr_init_def ofp_action_nw_addr_init_def
  ofp_action_nw_tos_init_def ofp_action_tp_port_init_def ofp_action_vendor_header_init_def

lemmas action_unpack_defs =
  ofp_action_header_unpack_def ofp_action_output_unpack_def ofp_action_enqueue_unpack_def
  ofp_action_push_mpls_unpack_def ofp_action_mpls_label_unpack_def ofp_action_mpls_tc_unpack_def
  ofp_action_mpls_ttl_unpack_def ofp_action_pop_mpls_unpack_def ofp_action_vlan_vid_unpack_def
  ofp_action_vlan_pcp_unpack_def ofp_action_dl_addr_unpack_def ofp_action_nw_addr_unpack_def
  ofp_action_nw_tos_unpack_def ofp_action_tp_port_unpack_def ofp_action_vendor_header_unpack_def

lemma action_new_len: "action_new t = Inr a \<Longrightarrow> action_len a = 8 \<or> action_len a = 16"
  by (auto simp: action_new_def action_len_defs action_init_defs res_simps split: if_splits)

lemma action_unpack_Nil: "action_unpack a [] = Inr (a, [])"
  by (cases a) (simp_all add: via_def action_unpack_defs)

function unpack_actions_loop ::
    "bytes \<Rightarrow> int \<Rightarrow> nat \<Rightarrow> ofp_action list \<Rightarrow> (ofp_action list \<times> nat) res" where
  "unpack_actions_loop b stop offset actions =
     (if int offset < stop then
        rbind (struct_unpack_from [FH, FH] b offset) (\<lambda>vs. case vs of
          [t, l] \<Rightarrow>
            (if int (length b) - int offset < l then Inr ([], offset)
             else rbind (action_new t) (\<lambda>a0.
                  rbind (action_unpack a0 (bslice offset (offset + nat l) b)) (\<lambda>(a, _).
                  if action_len a = l
                  then unpack_actions_loop b stop (offset + nat l) (actions @ [a])
                  else Inl AssertionError)))
        | _ \<Rightarrow> Inl ValueError)
      else Inr (actions, offset))"
  by pat_completeness auto

termination
proof (relation "measure (\<lambda>(b, stop, offset, _). nat (stop - int offset))")
  show "wf (measure (\<lambda>(b :: bytes, stop, offset, _ :: ofp_action list). nat (stop - int offset)))"
    by simp
next
  fix b :: bytes and stop offset actions t l a0 x a r
  assume stop: "int offset < stop" and new: "action_new t = Inr a0"
    and u: "action_unpack a0 (bslice offset (offset + nat l) b) = Inr x"
    and x: "(a, r) = x" and len: "action_len a = l"
  have "nat l \<noteq> 0"
  proof
    assume "nat l = 0"
    then have "a = a0" using u x by (auto simp: bslice_def action_unpack_Nil)
    then show False using action_new_len [OF new] len \<open>nat l = 0\<close> by auto
  qed
  then show "((b, stop, offset + nat l, actions @ [a]), b, stop, offset, actions)
      \<in> measure (\<lambda>(b, stop, offset, _). nat (stop - int offset))"
    using stop by simp
qed

declare unpack_actions_loop.simps [simp del]

text \<open>\<open>_unpack_actions(b, length, offset)\<close>\<close>

definition unpack_actions :: "bytes \<Rightarrow> int \<Rightarrow> nat \<Rightarrow> (ofp_action list \<times> nat) res" where
  "unpack_actions b len offset =
     (if int (length b) - int offset < len then Inr ([], offset)
      else unpack_actions_loop b (len + int offset) offset [])"


section \<open>Round trip of an action list\<close>

text \<open>
  The objects whose class is the one \<open>_action_map\<close> has for their type and whose length field is
  that of the class; the receiver of the packed bytes sees \<open>action_norm a\<close>.
\<close>

fun action_wf :: "ofp_action \<Rightarrow> bool" where
  "action_wf (ActHeader a) \<longleftrightarrow> ah_length a = 8 \<and>
     (case ah_type a of None \<Rightarrow> False
      | Some t \<Rightarrow> t \<notin> {0, 1, 2, 4, 5, 6, 7, 8, 9, 10, 11, 13, 14, 15, 16, 19, 20, 21})"
| "action_wf (ActDecTtl a) \<longleftrightarrow> ah_type a = Some OFPAT_DEC_MPLS_TTL \<and> ah_length a = 8"
| "action_wf (ActResubmit a) \<longleftrightarrow> ah_type a = Some OFPAT_RESUBMIT \<and> ah_length a = 8"
| "action_wf (ActOutput a) \<longleftrightarrow> out_type a = OFPAT_OUTPUT \<and> out_length a = 8"
| "action_wf (ActEnqueue a) \<longleftrightarrow> enq_type a = OFPAT_ENQUEUE \<and> enq_length a = 16"
| "action_wf (ActPushMpls a) \<longleftrightarrow> push_type a = OFPAT_PUSH_MPLS \<and> push_length a = 8"
| "action_wf (ActMplsLabel a) \<longleftrightarrow> lab_type a = OFPAT_SET_MPLS_LABEL \<and> lab_length a = 8"
| "action_wf (ActMplsTc a) \<longleftrightarrow> mtc_type a = OFPAT_SET_MPLS_TC \<and> mtc_length a = 8"
| "action_wf (ActMplsTtl a) \<longleftrightarrow> mttl_type a = OFPAT_SET_MPLS_TTL \<and> mttl_length a = 8"
| "action_wf (ActPopMpls a) \<longleftrightarrow> pop_type a = OFPAT_POP_MPLS \<and> pop_length a = 8"
| "action_wf (ActVlanVid a) \<longleftrightarrow> vid_type a = OFPAT_SET_VLAN_VID \<and> vid_length a = 8"
| "action_wf (ActVlanPcp a) \<longleftrightarrow> pcp_type a = OFPAT_SET_VLAN_PCP \<and> pcp_length a = 8"
| "action_wf (ActDlAddr a) \<longleftrightarrow> (dla_type a = Some OFPAT_SET_DL_SRC \<or> dla_type a = Some OFPAT_SET_DL_DST)
     \<and> dla_length a = 16 \<and> length (hw_raw (dla_dl_addr a)) = 6"
| "action_wf (ActNwAddr a) \<longleftrightarrow> (nwa_type a = Some OFPAT_SET_NW_SRC \<or> nwa_type a = Some OFPAT_SET_NW_DST)
     \<and> nwa_length a = 8 \<and> ip_wf (nwa_nw_addr a)"
| "action_wf (ActNwTos a) \<longleftrightarrow> tos_type a = OFPAT_SET_NW_TOS \<and> tos_length a = 8"
| "action_wf (ActTpPort a) \<longleftrightarrow> (tp_type a = Some OFPAT_SET_TP_SRC \<or> tp_type a = Some OFPAT_SET_TP_DST)
     \<and> tp_length a = 8"
| "action_wf (ActVendor a) \<longleftrightarrow> False"

fun action_norm :: "ofp_action \<Rightarrow> ofp_action" where
  "action_norm (ActHeader a) = ActHeader (a\<lparr>ah_data := []\<rparr>)"
| "action_norm (ActDecTtl a) = ActDecTtl (a\<lparr>ah_data := []\<rparr>)"
| "action_norm (ActResubmit a) = ActResubmit (a\<lparr>ah_data := []\<rparr>)"
| "action_norm (ActDlAddr a) = ActDlAddr (a\<lparr>dla_dl_addr := HwEth (EthAddr (hw_raw (dla_dl_addr a)))\<rparr>)"
| "action_norm a = action_after_pack a"

abbreviation pack_action :: "ofp_action \<Rightarrow> bytes res" where
  "pack_action a \<equiv> add_packed (action_pack True a)"

text \<open>The four bytes every packed action starts with: its type and its length.\<close>

lemma struct_head2:
  "struct_pack (FH # FH # fs) (t # l # vs) = Inr b \<Longrightarrow>
     struct_unpack_from [FH, FH] (b @ rest) 0 = Inr [t, l]"
  using dec_fields_pack [of "FH # FH # fs" "t # l # vs" b rest]
    struct_pack_length [of "FH # FH # fs" "t # l # vs" b]
  by (simp add: struct_unpack_from_def)

lemmas action_pack_defs =
  ofp_action_header_pack_def ofp_action_output_pack_def ofp_action_enqueue_pack_def
  ofp_action_push_mpls_pack_def ofp_action_mpls_label_pack_def ofp_action_mpls_tc_pack_def
  ofp_action_mpls_ttl_pack_def ofp_action_pop_mpls_pack_def ofp_action_vlan_vid_pack_def
  ofp_action_vlan_pcp_pack_def ofp_action_dl_addr_pack_def ofp_action_nw_addr_pack_def
  ofp_action_nw_tos_pack_def ofp_action_tp_port_pack_def ofp_action_vendor_header_pack_def

lemma action_head:
  assumes "action_wf a" "action_pack True a = Inr (Some b)"
  shows "\<exists>t. action_type a = Some t \<and> struct_unpack_from [FH, FH] (b @ rest) 0 = Inr [t, action_len a]"
  using assms
  by (cases a)
    (auto simp: action_pack_defs action_len_defs res_simps Let_def ofp_action_output_after_pack_def
      split: if_splits intro: struct_head2)

lemmas action_wires =
  ofp_action_header_wire ofp_action_output_wire ofp_action_enqueue_wire
  ofp_action_push_mpls_wire ofp_action_mpls_label_wire ofp_action_mpls_tc_wire
  ofp_action_mpls_ttl_wire ofp_action_pop_mpls_wire ofp_action_vlan_vid_wire
  ofp_action_vlan_pcp_wire ofp_action_dl_addr_wire ofp_action_nw_addr_wire
  ofp_action_nw_tos_wire ofp_action_tp_port_wire

lemma action_len_norm: "action_len (action_norm a) = action_len a"
  by (cases a) (simp_all add: action_len_defs)

lemma action_wf_len: "action_wf a \<Longrightarrow> action_len a = 8 \<or> action_len a = 16"
  by (cases a) (simp_all add: action_len_defs)

lemma action_body:
  assumes "action_wf a" "action_pack True a = Inr (Some b)" "action_type a = Some t"
  shows "length b = nat (action_len a) \<and>
    (\<exists>a0. action_new t = Inr a0 \<and> action_unpack a0 b = Inr (action_norm a, []))"
  using assms
  by (cases a) (auto simp: action_new_def via_def ofp_action_dl_addr_init_def
      ofp_action_nw_addr_init_def IPAddr_init_int action_len_defs
      action_wires [THEN conjunct1] action_wires [where rest = "[]", THEN conjunct2, unfolded append_Nil2])


lemma pack_action_length:
  assumes "action_wf a" "pack_action a = Inr b"
  shows "int (length b) = action_len a"
proof -
  have pk: "action_pack True a = Inr (Some b)" using assms(2) by (simp add: res_simps)
  obtain t where "action_type a = Some t" using action_head [OF assms(1) pk] by blast
  then have "length b = nat (action_len a)" using action_body [OF assms(1) pk] by blast
  then show ?thesis using action_wf_len [OF assms(1)] by auto
qed

text \<open>One turn of the loop on a packed action, and the loop on a packed list.\<close>

lemma unpack_actions_step:
  assumes "action_wf a" "pack_action a = Inr b" "int (length p) < stop"
  shows "unpack_actions_loop (p @ b @ rest) stop (length p) acc =
    unpack_actions_loop (p @ b @ rest) stop (length p + length b) (acc @ [action_norm a])"
proof -
  have pk: "action_pack True a = Inr (Some b)" using assms(2) by (simp add: res_simps)
  obtain t where t: "action_type a = Some t"
    and h: "struct_unpack_from [FH, FH] (b @ rest) 0 = Inr [t, action_len a]"
    using action_head [OF assms(1) pk] by blast
  obtain a0 where n: "length b = nat (action_len a)" "action_new t = Inr a0"
      "action_unpack a0 b = Inr (action_norm a, [])"
    using action_body [OF assms(1) pk t] by blast
  have l: "action_len a = int (length b)" using action_wf_len [OF assms(1)] n(1) by auto
  show ?thesis
    by (subst unpack_actions_loop.simps)
      (simp add: assms(3) struct_unpack_from_skip h l n(2) bslice_def n(3)
        action_len_norm)
qed

lemma unpack_actions_loop_roundtrip:
  "list_all action_wf acts \<Longrightarrow> pack_list pack_action acts = Inr b \<Longrightarrow>
   unpack_actions_loop (p @ b @ rest) (int (length p + length b)) (length p) acc
     = Inr (acc @ map action_norm acts, length p + length b)"
proof (induction acts arbitrary: p b acc)
  case Nil
  then show ?case by (simp add: unpack_actions_loop.simps)
next
  case (Cons a acts)
  then obtain b1 b2 where b: "pack_action a = Inr b1" "pack_list pack_action acts = Inr b2"
      "b = b1 @ b2"
    by (auto simp: res_simps)
  have wf: "action_wf a" using Cons.prems(1) by simp
  then have pos: "0 < length b1" using pack_action_length [OF wf b(1)] action_wf_len [OF wf] by auto
  then show ?case
    using unpack_actions_step [OF wf b(1), of p "int (length p + length b)" "b2 @ rest" acc]
      pos Cons.IH [of b2 "p @ b1" "acc @ [action_norm a]"] Cons.prems b
    by (simp add: add.assoc add_pos_nonneg)
qed

lemma unpack_actions_packed:
  assumes "list_all action_wf acts" and "pack_list pack_action acts = Inr b"
  shows "unpack_actions (p @ b @ rest) (int (length b)) (length p)
    = Inr (map action_norm acts, length p + length b)"
  using unpack_actions_loop_roundtrip [OF assms, of p rest "[]"]
  by (simp add: unpack_actions_def add.commute)

lemma pack_actions_length:
  "list_all action_wf acts \<Longrightarrow> pack_list pack_action acts = Inr b \<Longrightarrow>
     int (length b) = (\<Sum>a \<leftarrow> acts. action_len a)"
  by (induction acts arbitrary: b) (auto simp: rbind_eq_Inr rmap_eq_Inr pack_action_length)

text \<open>
  C24: The action list round trip.  The bytes of a list of actions that are well formed, packed one after the other and placed anywhere in a buffer,
  are parsed by \<open>_unpack_actions\<close> to the same classes in the same order with the values of their fields as packing leaves them
  (\<open>action_norm\<close>), and the offset returned is that of the first byte after them.  Well formed are the classes of the action table with the length and
  type of their class, and generic headers of 8 bytes of other types; a vendor header is not in the table and is left out.
\<close>

theorem action_list_roundtrip:
  assumes "list_all action_wf acts" and "pack_list pack_action acts = Inr b"
  shows "unpack_actions (p @ b @ rest) (int (length b)) (length p)
    = Inr (map action_norm acts, length p + length b)"
  using assms by (rule unpack_actions_packed)

theorem action_list_roundtrip_witness:
  "unpack_actions ([7] @ [0, 0, 0, 8, 255, 253, 0, 128, 0, 3, 0, 8, 0, 0, 0, 0] @ [1, 2]) 16 1
     = Inr ([ActOutput \<lparr>out_type = 0, out_length = 8, out_port = Some 65533, out_max_len = 128\<rparr>,
             ActHeader \<lparr>ah_type = Some 3, ah_length = 8, ah_data = []\<rparr>], 17)"
proof -
  let ?as = "[ActOutput \<lparr>out_type = 0, out_length = 8, out_port = Some 65533, out_max_len = 128\<rparr>,
          ActHeader \<lparr>ah_type = Some 3, ah_length = 8, ah_data = []\<rparr>]"
  have "list_all action_wf ?as" by code_simp
  moreover have "pack_list pack_action ?as = Inr [0, 0, 0, 8, 255, 253, 0, 128, 0, 3, 0, 8, 0, 0, 0, 0]"
    by (simp add: action_pack_defs Let_def ofp_action_output_after_pack_def pack_eval)
  ultimately show ?thesis
    using action_list_roundtrip [of ?as _ "[7]" "[1, 2]"]
    by (simp add: ofp_action_output_after_pack_def)
qed

end
