(* ===== verification/Of_Match_Laws.thy ===== *)
theory Of_Match_Laws
  imports Of_Match Of_Action
begin

text \<open>
  What \<open>ofp_match\<close> promises.  The interface \<open>match_attr\<close> states the attribute protocol (a
  field reads back what was written, \<open>None\<close> meaning wildcarded, and writing it leaves the
  other wildcard bits alone); the ten plain fields are interpretations of it.  The wire format
  round trip and the order properties of the subsumption test follow.
\<close>

section \<open>Wildcard bits\<close>

lemma and_exp_bit: "(w :: int) AND 2 ^ k = 2 ^ k \<longleftrightarrow> bit w k"
proof -
  have "w AND push_bit k 1 = push_bit k (of_bool (bit w k))"
    by (rule bit_eqI) (auto simp: bit_simps)
  then show ?thesis by (simp add: push_bit_eq_mult)
qed

lemma wild_bit: "fw = 2 ^ k \<Longrightarrow> wild fw m \<longleftrightarrow> bit (m_wildcards m) k"
  by (simp only: wild_def and_exp_bit)

lemma wild_bits:
  "wild 1 m \<longleftrightarrow> bit (m_wildcards m) 0" "wild 2 m \<longleftrightarrow> bit (m_wildcards m) 1"
  "wild 4 m \<longleftrightarrow> bit (m_wildcards m) 2" "wild 8 m \<longleftrightarrow> bit (m_wildcards m) 3"
  "wild 16 m \<longleftrightarrow> bit (m_wildcards m) 4" "wild 32 m \<longleftrightarrow> bit (m_wildcards m) 5"
  "wild 64 m \<longleftrightarrow> bit (m_wildcards m) 6" "wild 128 m \<longleftrightarrow> bit (m_wildcards m) 7"
  "wild 8192 m \<longleftrightarrow> bit (m_wildcards m) 13" "wild 524288 m \<longleftrightarrow> bit (m_wildcards m) 19"
  "wild 1048576 m \<longleftrightarrow> bit (m_wildcards m) 20" "wild 2097152 m \<longleftrightarrow> bit (m_wildcards m) 21"
  by (rule wild_bit, simp)+

lemma set_wild_bit:
  assumes "fw = 2 ^ k"
  shows "bit (m_wildcards (set_wild fw v m)) j \<longleftrightarrow> (if j = k then v = None else bit (m_wildcards m) j)"
  using assms by (auto simp: set_wild_def bit_or_iff bit_and_iff bit_not_iff bit_exp_iff possible_bit_def)

section \<open>The attribute protocol\<close>

locale match_attr =
  fixes get :: "ofp_match \<Rightarrow> 'v option"
    and set :: "'v option \<Rightarrow> ofp_match \<Rightarrow> ofp_match"
    and k :: nat
  assumes get_set: "get (set v m) = v"
    and set_bit: "bit (m_wildcards (set v m)) j \<longleftrightarrow> (if j = k then v = None else bit (m_wildcards m) j)"
    and get_None: "get m = None \<longleftrightarrow> bit (m_wildcards m) k"
begin

text \<open>Writing a value makes the field exact, writing \<open>None\<close> wildcards it, nothing else moves.\<close>

lemma set_value_exact: "\<not> bit (m_wildcards (set (Some x) m)) k"
  by (simp add: set_bit)

lemma set_other_wildcards: "j \<noteq> k \<Longrightarrow> bit (m_wildcards (set v m)) j = bit (m_wildcards m) j"
  by (simp add: set_bit)

lemma set_wildcards_idem: "m_wildcards (set v (set w m)) = m_wildcards (set v m)"
  by (rule bit_eqI) (simp add: set_bit)

lemma reset_wildcards: "m_wildcards (set (get m) m) = m_wildcards m"
  by (rule bit_eqI) (auto simp: set_bit get_None)

lemma subsumes_unset:
  "match_fail (get (set None m)) (get m') = False"
  by (simp add: get_set match_fail_def)

end

lemmas match_get_defs =
  get_in_port_def get_dl_src_def get_dl_dst_def get_dl_vlan_def get_dl_vlan_pcp_def get_dl_type_def
  get_nw_tos_def get_nw_proto_def get_tp_src_def get_tp_dst_def

lemmas match_set_defs =
  set_in_port_def set_dl_src_def set_dl_dst_def set_dl_vlan_def set_dl_vlan_pcp_def set_dl_type_def
  set_nw_tos_def set_nw_proto_def set_tp_src_def set_tp_dst_def

lemma set_wild_fields [simp]:
  "m_in_port (set_wild fw v m) = m_in_port m" "m_dl_src (set_wild fw v m) = m_dl_src m"
  "m_dl_dst (set_wild fw v m) = m_dl_dst m" "m_dl_vlan (set_wild fw v m) = m_dl_vlan m"
  "m_dl_vlan_pcp (set_wild fw v m) = m_dl_vlan_pcp m" "m_dl_type (set_wild fw v m) = m_dl_type m"
  "m_nw_tos (set_wild fw v m) = m_nw_tos m" "m_nw_proto (set_wild fw v m) = m_nw_proto m"
  "m_nw_src (set_wild fw v m) = m_nw_src m" "m_nw_dst (set_wild fw v m) = m_nw_dst m"
  "m_tp_src (set_wild fw v m) = m_tp_src m" "m_tp_dst (set_wild fw v m) = m_tp_dst m"
  by (simp_all add: set_wild_def)

lemmas attr_simps = match_get_defs match_set_defs wild_bits or_default_def

interpretation in_port: match_attr get_in_port set_in_port 0
  by unfold_locales (auto simp: attr_simps set_wild_bit [of 1 0] split: option.splits)

interpretation dl_vlan: match_attr get_dl_vlan set_dl_vlan 1
  by unfold_locales (auto simp: attr_simps set_wild_bit [of 2 1] split: option.splits)

interpretation dl_src: match_attr get_dl_src set_dl_src 2
  by unfold_locales (auto simp: attr_simps set_wild_bit [of 4 2] split: option.splits)

interpretation dl_dst: match_attr get_dl_dst set_dl_dst 3
  by unfold_locales (auto simp: attr_simps set_wild_bit [of 8 3] split: option.splits)

interpretation dl_type: match_attr get_dl_type set_dl_type 4
  by unfold_locales (auto simp: attr_simps set_wild_bit [of 16 4] split: option.splits)

interpretation nw_proto: match_attr get_nw_proto set_nw_proto 5
  by unfold_locales (auto simp: attr_simps set_wild_bit [of 32 5] split: option.splits)

interpretation tp_src: match_attr get_tp_src set_tp_src 6
  by unfold_locales (auto simp: attr_simps set_wild_bit [of 64 6] split: option.splits)

interpretation tp_dst: match_attr get_tp_dst set_tp_dst 7
  by unfold_locales (auto simp: attr_simps set_wild_bit [of 128 7] split: option.splits)

interpretation dl_vlan_pcp: match_attr get_dl_vlan_pcp set_dl_vlan_pcp 20
  by unfold_locales (auto simp: attr_simps set_wild_bit [of 1048576 20] split: option.splits)

interpretation nw_tos: match_attr get_nw_tos set_nw_tos 21
  by unfold_locales (auto simp: attr_simps set_wild_bit [of 2097152 21] split: option.splits)


section \<open>A match built from a packet\<close>

lemma init_wildcards: "normalize_wildcards OFPFW_ALL = 3678463"
  by (simp add: normalize_wildcards_def)

lemmas from_packet_eval = from_packet_def match_network_def match_transport_def match_set_defs
  set_wild_def or_default_def set_nw_src_def set_nw_dst_def make_addr_def ofp_match_init_def init_wildcards

text \<open>
  the match of a UDP packet in IPv4 in an untagged frame, received on a known port, is exact (no
  wildcard is left) and has the packet's twelve fields.
\<close>

theorem from_packet_udp:
  assumes "ipv4_srcip i = IvAddr s" "ipv4_dstip i = IvAddr d"
  shows "from_packet (Ethernet e (Ipv4 i (Udp u n))) (Some port) =
    Inr \<lparr>m_wildcards = 0, m_in_port = port, m_dl_src = eth_src e, m_dl_dst = eth_dst e,
         m_dl_vlan = OFP_VLAN_NONE, m_dl_vlan_pcp = 0, m_dl_type = eth_type e,
         m_nw_tos = ipv4_tos i, m_nw_proto = ipv4_protocol i, m_nw_src = NwAddr s, m_nw_dst = NwAddr d,
         m_tp_src = udp_srcport u, m_tp_dst = udp_dstport u\<rparr>"
  by (simp add: from_packet_eval assms)

theorem from_packet_udp_witness:
  "from_packet (Ethernet ethernet_init (Ipv4 (ipv4_init 1) (Udp udp_init NoNext))) (Some 3) =
    Inr \<lparr>m_wildcards = 0, m_in_port = 3, m_dl_src = HwEth ETHER_ANY, m_dl_dst = HwEth ETHER_ANY,
         m_dl_vlan = 65535, m_dl_vlan_pcp = 0, m_dl_type = 0, m_nw_tos = 0, m_nw_proto = 0,
         m_nw_src = NwAddr IP_ANY, m_nw_dst = NwAddr IP_ANY, m_tp_src = 0, m_tp_dst = 0\<rparr>"
  using from_packet_udp [of "ipv4_init 1" IP_ANY IP_ANY ethernet_init udp_init NoNext 3]
  by (simp add: ipv4_init_def ethernet_init_def udp_init_def)

text \<open>
  A frame that carries neither IPv4 nor ARP leaves the network and transport fields wildcarded.
\<close>

lemma from_packet_raw:
  "from_packet (Ethernet e (Bytes b)) (Some port) =
    Inr \<lparr>m_wildcards = 2629856, m_in_port = port, m_dl_src = eth_src e, m_dl_dst = eth_dst e,
         m_dl_vlan = OFP_VLAN_NONE, m_dl_vlan_pcp = 0, m_dl_type = eth_type e,
         m_nw_tos = 0, m_nw_proto = 0, m_nw_src = NwNum 0, m_nw_dst = NwNum 0, m_tp_src = 0, m_tp_dst = 0\<rparr>"
  by (simp add: from_packet_eval)

text \<open>
  resetting \<open>nw_dst\<close> also forgets the source address: \<open>set_nw_dst(None)\<close> overwrites
  \<open>_nw_src\<close> with 0, keeps the source prefix length, and leaves \<open>_nw_dst\<close> as it was.
\<close>

theorem set_nw_dst_None_clobbers_src:
  "set_nw_dst NaNone m = Inr (m\<lparr>m_nw_src := NwNum 0,
     m_wildcards := (m_wildcards m AND NOT OFPFW_NW_DST_MASK) OR OFPFW_NW_DST_ALL\<rparr>)"
  by (simp add: set_nw_dst_def make_addr_def)

section \<open>Wire format\<close>

lemma hw_field_length:
  "length (hw_field h) = 6 \<longleftrightarrow> (case h of None \<Rightarrow> True | Some a \<Rightarrow> length (hw_raw a) = 6)"
  by (simp add: hw_field_def EMPTY_ETH_def eth_toRaw_def split: option.splits)

text \<open>The object the receiver of a packed match holds.\<close>

definition match_wire :: "bool \<Rightarrow> ofp_match \<Rightarrow> ofp_match" where
  "match_wire flow_mod m =
     (let addr = (\<lambda>v. ip_of_int (check_ip_or_arp m (case fix_addr v of Inr n \<Rightarrow> n | Inl _ \<Rightarrow> 0)));
          r = \<lparr>m_wildcards = 0, m_in_port = or0 (get_in_port m),
               m_dl_src = HwEth (EthAddr (hw_field (get_dl_src m))),
               m_dl_dst = HwEth (EthAddr (hw_field (get_dl_dst m))),
               m_dl_vlan = or0 (get_dl_vlan m), m_dl_vlan_pcp = or0 (get_dl_vlan_pcp m),
               m_dl_type = or0 (get_dl_type m), m_nw_tos = check_ip m (or0 (get_nw_tos m)),
               m_nw_proto = check_ip_or_arp m (or0 (get_nw_proto m)),
               m_nw_src = NwAddr (addr (attr_nw_src m)), m_nw_dst = NwAddr (addr (attr_nw_dst m)),
               m_tp_src = check_tp m (or0 (get_tp_src m)), m_tp_dst = check_tp m (or0 (get_tp_dst m))\<rparr>
      in r\<lparr>m_wildcards := normalize_wildcards
             (if flow_mod then unwire_wildcards r (wire_wildcards m (m_wildcards m)) else m_wildcards m)\<rparr>)"

lemma ofp_match_wire:
  assumes "ofp_match_pack s fm m = Inr b"
    and "length (hw_field (get_dl_src m)) = 6" "length (hw_field (get_dl_dst m)) = 6"
  shows "length b = 40 \<and> ofp_match_unpack fm y (b @ rest) = Inr (match_wire fm m, rest)"
proof -
  let ?w = "if fm then wire_wildcards m (m_wildcards m) else m_wildcards m"
  let ?hs = "hw_field (get_dl_src m)" and ?hd = "hw_field (get_dl_dst m)"
  obtain p1 p2 p3 p4 ns nd where ps:
      "struct_pack [FL, FH] [?w, or0 (get_in_port m)] = Inr p1"
      "struct_pack [FH, FB] [or0 (get_dl_vlan m), or0 (get_dl_vlan_pcp m)] = Inr p2"
      "struct_pack [FH, FB, FB] [or0 (get_dl_type m), check_ip m (or0 (get_nw_tos m)),
         check_ip_or_arp m (or0 (get_nw_proto m))] = Inr p3"
      "struct_pack [FL, FL, FH, FH] [check_ip_or_arp m ns, check_ip_or_arp m nd,
         check_tp m (or0 (get_tp_src m)), check_tp m (or0 (get_tp_dst m))] = Inr p4"
    and n: "fix_addr (attr_nw_src m) = Inr ns" "fix_addr (attr_nw_dst m) = Inr nd"
    and b: "b = p1 @ ?hs @ ?hd @ p2 @ zeros 1 @ p3 @ zeros 2 @ p4"
    using assms(1) by (auto simp: ofp_match_pack_def res_simps split: if_split_asm)
  note l = ps [THEN struct_pack_length, simplified] and h = ps [THEN struct_unpack_from_hit]
  have z: "length (zeros 1) = 1" by simp
  show ?thesis
    unfolding ofp_match_unpack_def match_wire_def Let_def
    by (simp add: b l h n assms(2,3) z struct_unpack_from_skip read_eth_tuple IPAddr_init_int
        unwire_wildcards_def del: One_nat_def)
qed


text \<open>Bits of the two six-bit prefix fields.\<close>

lemma bit_masks:
  "bit (16128 :: int) j \<longleftrightarrow> 8 \<le> j \<and> j < 14" "bit (1032192 :: int) j \<longleftrightarrow> 14 \<le> j \<and> j < 20"
  "bit (8192 :: int) j \<longleftrightarrow> j = 13" "bit (524288 :: int) j \<longleftrightarrow> j = 19"
  "bit (64 :: int) j \<longleftrightarrow> j = 6" "bit (128 :: int) j \<longleftrightarrow> j = 7" "bit (32 :: int) j \<longleftrightarrow> j = 5"
  "bit (2097152 :: int) j \<longleftrightarrow> j = 21"
proof -
  have "(16128 :: int) = push_bit 8 (mask 6)" "(1032192 :: int) = push_bit 14 (mask 6)"
    by (simp_all add: mask_eq_exp_minus_1 push_bit_eq_mult)
  then show "bit (16128 :: int) j \<longleftrightarrow> 8 \<le> j \<and> j < 14" "bit (1032192 :: int) j \<longleftrightarrow> 14 \<le> j \<and> j < 20"
    by (auto simp only: bit_push_bit_iff bit_mask_iff possible_bit_int)
  have "(8192 :: int) = 2 ^ 13" "(524288 :: int) = 2 ^ 19" "(64 :: int) = 2 ^ 6" "(128 :: int) = 2 ^ 7"
    "(32 :: int) = 2 ^ 5" "(2097152 :: int) = 2 ^ 21" by simp_all
  then show "bit (8192 :: int) j \<longleftrightarrow> j = 13" "bit (524288 :: int) j \<longleftrightarrow> j = 19"
    "bit (64 :: int) j \<longleftrightarrow> j = 6" "bit (128 :: int) j \<longleftrightarrow> j = 7" "bit (32 :: int) j \<longleftrightarrow> j = 5"
    "bit (2097152 :: int) j \<longleftrightarrow> j = 21"
    by (auto simp only: bit_exp_iff possible_bit_int)
qed

text \<open>
  A match whose ignored fields are wildcarded: this is what \<open>_wire_wildcards\<close> assumes when it
  drops their wildcard bits, and what the constructor and \<open>from_packet\<close> give.
\<close>

definition match_consistent :: "ofp_match \<Rightarrow> bool" where
  "match_consistent m \<longleftrightarrow>
     normalize_wildcards (m_wildcards m) = m_wildcards m
     \<and> length (hw_field (get_dl_src m)) = 6 \<and> length (hw_field (get_dl_dst m)) = 6
     \<and> (case attr_nw_src m of Some (NwAddr i) \<Rightarrow> ip_wf i | _ \<Rightarrow> True)
     \<and> (case attr_nw_dst m of Some (NwAddr i) \<Rightarrow> ip_wf i | _ \<Rightarrow> True)
     \<and> (if get_dl_type m = Some 0x0800 then
          proto_has_ports (get_nw_proto m) \<or> (get_tp_src m = None \<and> get_tp_dst m = None)
        else get_tp_src m = None \<and> get_tp_dst m = None \<and> get_nw_tos m = None \<and>
          (get_dl_type m \<noteq> Some 0x0806 \<longrightarrow> get_nw_proto m = None
             \<and> m_wildcards m AND OFPFW_NW_SRC_MASK = OFPFW_NW_SRC_ALL
             \<and> m_wildcards m AND OFPFW_NW_DST_MASK = OFPFW_NW_DST_ALL))"

lemma clear_set_bits: "(\<And>j. bit x j \<Longrightarrow> bit w j) \<Longrightarrow> ((w :: int) AND NOT x) OR x = w"
  by (rule bit_eqI) (auto simp: bit_simps)

lemma normalize_all_prefixes:
  assumes "w AND 16128 = 8192" "w AND 1032192 = 524288" "bit w 5" "bit w 6" "bit w 7" "bit w 21"
  defines "X \<equiv> 2097152 OR 32 OR 16128 OR 1032192 OR 64 OR (128 :: int)"
  shows "normalize_wildcards ((w AND NOT X) OR X) = w"
proof -
  let ?v = "(w AND NOT X) OR X"
  have s: "(8 \<le> j \<and> j < 14) \<and> bit w j \<longleftrightarrow> j = 13" for j
    using arg_cong [OF assms(1), of "\<lambda>z. bit z j"] by (auto simp: bit_and_iff bit_masks)
  have d: "(14 \<le> j \<and> j < 20) \<and> bit w j \<longleftrightarrow> j = 19" for j
    using arg_cong [OF assms(2), of "\<lambda>z. bit z j"] by (auto simp: bit_and_iff bit_masks)
  have v: "bit ?v j \<longleftrightarrow> bit w j \<or> bit X j" for j by (auto simp: bit_simps)
  have X: "bit X j \<longleftrightarrow> j = 21 \<or> j = 5 \<or> (8 \<le> j \<and> j < 20) \<or> j = 6 \<or> j = 7" for j
    unfolding X_def bit_or_iff bit_masks by auto
  have n: "bit (NOT 16128 :: int) j \<longleftrightarrow> \<not> (8 \<le> j \<and> j < 14)" for j
    unfolding bit_not_int_iff bit_masks ..
  have "?v AND 16128 = 16128"
    by (rule bit_eqI, unfold bit_and_iff bit_or_iff n v X bit_masks, auto)
  moreover have "((?v AND NOT 16128) OR 8192) AND 1032192 = 1032192"
    by (rule bit_eqI, unfold bit_and_iff bit_or_iff n v X bit_masks, auto)
  ultimately have "normalize_wildcards ?v = (((?v AND NOT 16128) OR 8192) AND NOT 1032192) OR 524288"
    by (simp add: normalize_wildcards_def Let_def push_bit_eq_mult drop_bit_eq_div)
  also have "\<dots> = w"
  proof (rule bit_eqI)
    fix j
    show "bit ((((?v AND NOT 16128) OR 8192) AND NOT 1032192) OR 524288) j \<longleftrightarrow> bit w j"
      unfolding bit_or_iff bit_and_iff bit_not_iff v X bit_masks possible_bit_def
      using s [of j] d [of j] s [of 13] d [of 19] assms(3-6) by auto
  qed
  finally show ?thesis .
qed


lemma unwire_wire:
  assumes "match_consistent m"
    and "m_dl_type r = or0 (get_dl_type m)" "m_nw_proto r = check_ip_or_arp m (or0 (get_nw_proto m))"
  shows "normalize_wildcards (unwire_wildcards r (wire_wildcards m (m_wildcards m))) = m_wildcards m"
proof -
  let ?w = "m_wildcards m"
  have norm: "normalize_wildcards ?w = ?w" using assms(1) by (simp add: match_consistent_def)
  have b67: "get_tp_src m = None \<Longrightarrow> bit ?w 6" "get_tp_dst m = None \<Longrightarrow> bit ?w 7"
    "get_nw_tos m = None \<Longrightarrow> bit ?w 21" "get_nw_proto m = None \<Longrightarrow> bit ?w 5"
    by (simp_all add: tp_src.get_None tp_dst.get_None nw_tos.get_None nw_proto.get_None)
  consider (ports) "get_dl_type m = Some 0x0800" "proto_has_ports (get_nw_proto m)"
    | (ip) "get_dl_type m = Some 0x0800" "\<not> proto_has_ports (get_nw_proto m)"
    | (arp) "get_dl_type m = Some 0x0806"
    | (other) "get_dl_type m \<noteq> Some 0x0800" "get_dl_type m \<noteq> Some 0x0806" by blast
  then show ?thesis
  proof cases
    case ports
    then show ?thesis using assms(2,3) norm
      by (auto simp: unwire_wildcards_def wire_wildcards_def check_ip_or_arp_def or0_def proto_has_ports_def)
  next
    case ip
    then have "\<not> proto_has_ports (Some (m_nw_proto r))"
      using assms(3) by (auto simp: check_ip_or_arp_def or0_def proto_has_ports_def split: option.splits)
    moreover have "(?w AND NOT (64 OR 128)) OR (64 OR 128) = ?w"
    proof (rule clear_set_bits)
      fix j assume "bit (64 OR 128 :: int) j"
      then show "bit ?w j" using ip assms(1) b67 unfolding bit_or_iff bit_masks by (auto simp: match_consistent_def)
    qed
    ultimately show ?thesis using ip assms(2) norm by (simp add: unwire_wildcards_def wire_wildcards_def or0_def)
  next
    case arp
    have "(?w AND NOT (2097152 OR 64 OR 128)) OR (2097152 OR 64 OR 128) = ?w"
    proof (rule clear_set_bits)
      fix j assume "bit (2097152 OR 64 OR 128 :: int) j"
      then show "bit ?w j" using arp assms(1) b67 unfolding bit_or_iff bit_masks by (auto simp: match_consistent_def)
    qed
    then show ?thesis using arp assms(2) norm by (simp add: unwire_wildcards_def wire_wildcards_def or0_def)
  next
    case other
    then have "m_dl_type r \<noteq> 0x0800" "m_dl_type r \<noteq> 0x0806"
      using assms(2) by (auto simp: or0_def split: option.splits)
    moreover have "bit ?w 5" "bit ?w 6" "bit ?w 7" "bit ?w 21" "?w AND 16128 = 8192" "?w AND 1032192 = 524288"
      using other assms(1) b67 by (auto simp: match_consistent_def)
    ultimately show ?thesis
      using other normalize_all_prefixes [of ?w] by (simp add: unwire_wildcards_def wire_wildcards_def)
  qed
qed


lemma wild_cong: "m_wildcards r = m_wildcards m \<Longrightarrow> wild fw r = wild fw m"
  by (simp add: wild_def)

lemma ip_of_int_mod: "ip_of_int (n mod 4294967296) = ip_of_int n"
  by (simp add: ip_of_int_def and_mask32)

lemma IPAddr_cmp_self [simp]: "IPAddr_cmp i (Some i) = 0"
  by (simp add: IPAddr_cmp_def)

lemma match_wire_nw_eq:
  assumes "fix_addr v = Inr n" "case v of Some (NwAddr i) \<Rightarrow> ip_wf i | _ \<Rightarrow> True"
  shows "nw_eq v (if v = None then None else Some (NwAddr (ip_of_int n))) = Inr True"
  using assms
  by (cases v; cases "the v") (auto simp: fix_addr_def ip_of_int_u and_mask32 ip_of_int_mod)

lemma attr_nw_None: "attr_nw_src m = None \<longleftrightarrow> bit (m_wildcards m) 13" "attr_nw_dst m = None \<longleftrightarrow> bit (m_wildcards m) 19"
  by (auto simp: attr_nw_src_def attr_nw_dst_def get_nw_src_def get_nw_dst_def wild_bits Let_def)

lemma attr_nw_src_eq: "attr_nw_src m = (if wild OFPFW_NW_SRC_ALL m then None else Some (m_nw_src m))"
  by (simp add: attr_nw_src_def get_nw_src_def Let_def)

lemma attr_nw_dst_eq: "attr_nw_dst m = (if wild OFPFW_NW_DST_ALL m then None else Some (m_nw_dst m))"
  by (simp add: attr_nw_dst_def get_nw_dst_def Let_def)

lemma prefix_all_bit: "w AND 16128 = 8192 \<Longrightarrow> bit w 13" "w AND 1032192 = 524288 \<Longrightarrow> bit w 19"
  for w :: int
  using bit_and_iff [of w 16128 13] bit_and_iff [of w 1032192 19] by (auto simp: bit_masks)

lemma match_wire_eq:
  assumes c: "match_consistent m" and n: "fix_addr (attr_nw_src m) = Inr ns" "fix_addr (attr_nw_dst m) = Inr nd"
  shows "ofp_match_eq m (match_wire True m) = Inr True"
proof -
  let ?r = "match_wire True m"
  have w: "m_wildcards ?r = m_wildcards m"
    unfolding match_wire_def Let_def using unwire_wire [OF c] by simp
  note wr = wild_cong [OF w]
  have f: "m_in_port ?r = or0 (get_in_port m)" "m_dl_src ?r = HwEth (EthAddr (hw_field (get_dl_src m)))"
      "m_dl_dst ?r = HwEth (EthAddr (hw_field (get_dl_dst m)))" "m_dl_vlan ?r = or0 (get_dl_vlan m)"
      "m_dl_vlan_pcp ?r = or0 (get_dl_vlan_pcp m)" "m_dl_type ?r = or0 (get_dl_type m)"
      "m_nw_tos ?r = check_ip m (or0 (get_nw_tos m))" "m_nw_proto ?r = check_ip_or_arp m (or0 (get_nw_proto m))"
      "m_nw_src ?r = NwAddr (ip_of_int (check_ip_or_arp m ns))" "m_nw_dst ?r = NwAddr (ip_of_int (check_ip_or_arp m nd))"
      "m_tp_src ?r = check_tp m (or0 (get_tp_src m))" "m_tp_dst ?r = check_tp m (or0 (get_tp_dst m))"
    by (simp_all add: match_wire_def Let_def n)
  have ipa: "get_nw_proto m \<noteq> None \<or> attr_nw_src m \<noteq> None \<or> attr_nw_dst m \<noteq> None
      \<Longrightarrow> check_ip_or_arp m x = x" for x
    using c prefix_all_bit [of "m_wildcards m"]
    by (auto simp: match_consistent_def check_ip_or_arp_def attr_nw_None split: if_splits)
  have ip: "get_nw_tos m \<noteq> None \<Longrightarrow> check_ip m x = x" for x
    using c by (auto simp: match_consistent_def check_ip_def split: if_splits)
  have tp: "get_tp_src m \<noteq> None \<or> get_tp_dst m \<noteq> None \<Longrightarrow> check_tp m x = x" for x
    using c by (auto simp: match_consistent_def check_tp_def split: if_splits)
  have g: "get_in_port ?r = get_in_port m" "get_dl_vlan ?r = get_dl_vlan m"
      "get_dl_vlan_pcp ?r = get_dl_vlan_pcp m" "get_dl_type ?r = get_dl_type m"
      "get_nw_tos ?r = get_nw_tos m" "get_nw_proto ?r = get_nw_proto m"
      "get_tp_src ?r = get_tp_src m" "get_tp_dst ?r = get_tp_dst m"
    using ipa ip tp by (auto simp: match_get_defs wr f or0_def split: if_splits)
  have hw: "hw_attr_eq (get_dl_src m) (get_dl_src ?r)" "hw_attr_eq (get_dl_dst m) (get_dl_dst ?r)"
    by (auto simp: get_dl_src_def get_dl_dst_def wr f hw_attr_eq_def hw_eq_def hw_field_def eth_toRaw_def)
  have a: "attr_nw_src ?r = (if attr_nw_src m = None then None else Some (NwAddr (ip_of_int ns)))"
      "attr_nw_dst ?r = (if attr_nw_dst m = None then None else Some (NwAddr (ip_of_int nd)))"
    using ipa by (auto simp: attr_nw_src_eq attr_nw_dst_eq wr f)
  have e: "nw_eq (attr_nw_src m) (attr_nw_src ?r) = Inr True" "nw_eq (attr_nw_dst m) (attr_nw_dst ?r) = Inr True"
    using match_wire_nw_eq [OF n(1)] match_wire_nw_eq [OF n(2)] c unfolding a match_consistent_def by simp_all
  show ?thesis unfolding ofp_match_eq_def using w g hw e by simp
qed

text \<open>
  a flow's match survives a flow-mod message.  The match of a \<open>flow_mod\<close> is packed with the
  wildcard bits of its ignored fields cleared, and unpacking sets them again: for a match
  whose ignored fields are wildcarded, the receiver's match is equal to the sender's, whatever
  the object unpacked into held before.
\<close>

theorem match_flow_mod_roundtrip:
  assumes "match_consistent m" "ofp_match_pack True True m = Inr b"
  shows "\<exists>m'. ofp_match_unpack True y (b @ rest) = Inr (m', rest) \<and> ofp_match_eq m m' = Inr True"
proof -
  have l: "length (hw_field (get_dl_src m)) = 6" "length (hw_field (get_dl_dst m)) = 6"
    using assms(1) by (simp_all add: match_consistent_def)
  obtain ns nd where "fix_addr (attr_nw_src m) = Inr ns" "fix_addr (attr_nw_dst m) = Inr nd"
    using assms(2) by (auto simp: ofp_match_pack_def res_simps split: if_split_asm)
  then show ?thesis using ofp_match_wire [OF assms(2) l] match_wire_eq [OF assms(1)] by blast
qed


theorem match_flow_mod_roundtrip_witness:
  "\<exists>b m'. ofp_match_pack True True (set_in_port (Some 3) ofp_match_init) = Inr b
     \<and> ofp_match_unpack True ofp_match_init (b @ [9]) = Inr (m', [9])
     \<and> ofp_match_eq (set_in_port (Some 3) ofp_match_init) m' = Inr True"
proof -
  let ?m = "set_in_port (Some 3) ofp_match_init"
  have m: "?m = ofp_match_init\<lparr>m_in_port := 3, m_wildcards := 3678462\<rparr>"
    by (simp add: set_in_port_def set_wild_def or_default_def ofp_match_init_def init_wildcards)
  have "match_consistent ?m" unfolding m
    by (simp add: match_consistent_def ofp_match_init_def match_get_defs wild_def attr_nw_src_eq
        attr_nw_dst_eq hw_field_def EMPTY_ETH_def eth_toRaw_def normalize_wildcards_def)
  moreover obtain b where "ofp_match_pack True True ?m = Inr b" unfolding m
    by (simp add: ofp_match_pack_def ofp_match_init_def match_get_defs wild_def attr_nw_src_eq
        attr_nw_dst_eq hw_field_def ofp_match_assert_def or0_def check_ip_def check_ip_or_arp_def
        check_tp_def fix_addr_def wire_wildcards_def struct_pack.simps in_range_def)
  ultimately show ?thesis
    using match_flow_mod_roundtrip [of ?m b ofp_match_init "[9]"] by auto
qed

section \<open>Subsumption\<close>

text \<open>Matches as the code builds them: \<open>EthAddr\<close> objects and 32-bit network addresses.\<close>

fun nw_typed :: "nwval \<Rightarrow> bool" where
  "nw_typed (NwAddr i) = ip_wf i"
| "nw_typed (NwNum n) = (0 \<le> n \<and> n < 2 ^ 32)"
| "nw_typed (NwTuple _ _) = False"

definition match_typed :: "ofp_match \<Rightarrow> bool" where
  "match_typed m \<longleftrightarrow> (case m_dl_src m of HwEth _ \<Rightarrow> True | HwBytes _ \<Rightarrow> False)
     \<and> (case m_dl_dst m of HwEth _ \<Rightarrow> True | HwBytes _ \<Rightarrow> False)
     \<and> nw_typed (m_nw_src m) \<and> nw_typed (m_nw_dst m)"

fun nw_uint :: "nwval \<Rightarrow> int" where
  "nw_uint (NwAddr i) = ip_u i"
| "nw_uint (NwNum n) = n"
| "nw_uint (NwTuple _ _) = 0"

definition hw_or_zero :: "hwaddr option \<Rightarrow> bytes" where
  "hw_or_zero h = (case h of None \<Rightarrow> zeros 6 | Some a \<Rightarrow> hw_raw a)"

definition is_eth :: "hwaddr option \<Rightarrow> bool" where
  "is_eth h = (case h of Some (HwBytes _) \<Rightarrow> False | _ \<Rightarrow> True)"

lemma hw_attr_eq_iff: "is_eth x \<Longrightarrow> is_eth y \<Longrightarrow> hw_attr_eq x y \<longleftrightarrow> hw_or_zero x = hw_or_zero y"
  by (auto simp: is_eth_def hw_attr_eq_def hw_or_zero_def hw_is_None_def hw_eq_def eth_toRaw_def
      EMPTY_ETH_def EthAddr_cmp_zero_iff split: option.splits hwaddr.splits) (metis EthAddr.collapse)

lemma match_fail_hw_iff:
  "is_eth x \<Longrightarrow> is_eth y \<Longrightarrow>
     match_fail_hw x y \<longleftrightarrow> hw_or_zero x \<noteq> zeros 6 \<and> hw_or_zero x \<noteq> hw_or_zero y"
  using hw_attr_eq_iff [of x None] hw_attr_eq_iff [of x y]
  by (simp add: match_fail_hw_def is_eth_def hw_or_zero_def)

lemma IPAddr_init_obj [simp]: "IPAddr_init (IpObj i) nw = Inr i"
  by (simp add: IPAddr_init_def)

lemma nw_typed_to_ip: "nw_typed v \<Longrightarrow> \<exists>i. nw_to_ip (Some v) = Inr i \<and> ip_wf i \<and> ip_u i = nw_uint v"
  by (cases v) (auto simp: nw_to_ip_def IPAddr_init_int ip_u_of_int)

lemma IPAddr_cmp_iff: "ip_wf a \<Longrightarrow> ip_wf b \<Longrightarrow> IPAddr_cmp a (Some b) = 0 \<longleftrightarrow> ip_u a = ip_u b"
  by (auto simp: IPAddr_cmp_def ip_u_inj) (metis IPAddr.expand)

lemma nw_eq_typed:
  "nw_typed v \<Longrightarrow> nw_typed w \<Longrightarrow> nw_eq (Some v) (Some w) = Inr (nw_uint v = nw_uint w)"
  by (cases v; cases w) (auto simp: IPAddr_cmp_iff ip_u_of_int)


lemma prefix_field:
  fixes w :: int
  assumes "\<not> bit w (n + 5)"
  shows "0 \<le> drop_bit n (w AND push_bit n 63)" "drop_bit n (w AND push_bit n 63) < 32"
proof -
  have "drop_bit n (w AND push_bit n 63) = take_bit 6 (drop_bit n w)"
    by (rule bit_eqI) (auto simp: bit_simps bit_take_bit_iff take_bit_eq_mask mask_eq_exp_minus_1)
  also have "\<dots> = take_bit 5 (drop_bit n w)"
    using assms by (intro bit_eqI) (auto simp: bit_take_bit_iff bit_drop_bit_eq less_Suc_eq numeral_eq_Suc)
  finally have e: "drop_bit n (w AND push_bit n 63) = take_bit 5 (drop_bit n w)" .
  show "0 \<le> drop_bit n (w AND push_bit n 63)" "drop_bit n (w AND push_bit n 63) < 32"
    unfolding e using take_bit_int_less_exp [of 5 "drop_bit n w"] by simp_all
qed

lemma get_nw_src_bits: "get_nw_src m = (Some v, k) \<Longrightarrow> 1 \<le> k \<and> k \<le> 32 \<and> v = m_nw_src m"
  using prefix_field [of "m_wildcards m" 8]
  by (auto simp: get_nw_src_def wild_bits Let_def push_bit_eq_mult split: if_splits)

lemma get_nw_dst_bits: "get_nw_dst m = (Some v, k) \<Longrightarrow> 1 \<le> k \<and> k \<le> 32 \<and> v = m_nw_dst m"
  using prefix_field [of "m_wildcards m" 14]
  by (auto simp: get_nw_dst_def wild_bits Let_def push_bit_eq_mult split: if_splits)

lemma get_nw_None: "get_nw_src m = (None, k) \<Longrightarrow> k = 0" "get_nw_dst m = (None, k) \<Longrightarrow> k = 0"
  by (auto simp: get_nw_src_def get_nw_dst_def Let_def split: if_splits)

text \<open>A prefix: an address and its number of significant bits, as numbers.\<close>

definition nw_prefix :: "nwval option \<times> int \<Rightarrow> (int \<times> int) option" where
  "nw_prefix p = (case fst p of None \<Rightarrow> None | Some v \<Rightarrow> Some (nw_uint v, snd p))"

definition prefix_covers :: "(int \<times> int) option \<Rightarrow> (int \<times> int) option \<Rightarrow> bool" where
  "prefix_covers p q =
     (case p of None \<Rightarrow> True
      | Some (u, k) \<Rightarrow> (case q of None \<Rightarrow> False
          | Some (x, l) \<Rightarrow> k \<le> l \<and> x - x mod 2 ^ nat (32 - k) = u))"

definition prefix_ok :: "nwval option \<times> int \<Rightarrow> bool" where
  "prefix_ok p = (case fst p of None \<Rightarrow> snd p = 0 | Some v \<Rightarrow> nw_typed v \<and> 1 \<le> snd p \<and> snd p \<le> 32)"

lemma prefix_ok_get: "match_typed m \<Longrightarrow> prefix_ok (get_nw_src m) \<and> prefix_ok (get_nw_dst m)"
  using get_nw_src_bits [of m] get_nw_dst_bits [of m] get_nw_None [of m]
  by (cases "get_nw_src m"; cases "get_nw_dst m") (auto simp: prefix_ok_def match_typed_def split: option.splits)

lemma nw_subsumes_iff:
  "prefix_ok p \<Longrightarrow> prefix_ok q \<Longrightarrow> nw_subsumes p q = Inr (prefix_covers (nw_prefix p) (nw_prefix q))"
proof -
  assume p: "prefix_ok p" and q: "prefix_ok q"
  show ?thesis
  proof (cases "fst p")
    case None
    then show ?thesis by (simp add: nw_subsumes_def nw_prefix_def prefix_covers_def)
  next
    case (Some v)
    then have v: "nw_typed v" "1 \<le> snd p" "snd p \<le> 32" using p by (simp_all add: prefix_ok_def)
    obtain i where i: "nw_to_ip (Some v) = Inr i" "ip_u i = nw_uint v" using nw_typed_to_ip [OF v(1)] by blast
    show ?thesis
    proof (cases "fst q")
      case None
      then show ?thesis using q v Some by (simp add: nw_subsumes_def nw_prefix_def prefix_covers_def prefix_ok_def)
    next
      case (Some u)
      then have u: "nw_typed u" using q by (simp add: prefix_ok_def)
      obtain j where "nw_to_ip (Some u) = Inr j" "ip_u j = nw_uint u" using nw_typed_to_ip [OF u] by blast
      then show ?thesis using i v Some \<open>fst p = Some v\<close>
        by (auto simp: nw_subsumes_def nw_prefix_def prefix_covers_def inNetwork_iff)
    qed
  qed
qed

lemma prefix_covers_trans:
  assumes "prefix_covers p q" "prefix_covers q r"
    and "\<And>x k. p = Some (x, k) \<Longrightarrow> k \<le> 32" "\<And>x k. q = Some (x, k) \<Longrightarrow> k \<le> 32"
  shows "prefix_covers p r"
proof (cases p)
  case None
  then show ?thesis by (simp add: prefix_covers_def)
next
  case (Some a)
  then obtain u k x l y n where p: "p = Some (u, k)" and q: "q = Some (x, l)" and r: "r = Some (y, n)"
    using assms(1,2) by (auto simp: prefix_covers_def split: option.splits)
  have kl: "k \<le> l" "l \<le> n" and x: "x - x mod 2 ^ nat (32 - k) = u" and y: "y - y mod 2 ^ nat (32 - l) = x"
    using assms(1,2) by (simp_all add: p q r prefix_covers_def)
  define a b where "a = nat (32 - l)" and "b = nat (32 - k)"
  have ab: "a \<le> b" using kl assms(3,4) p q by (auto simp: a_def b_def)
  have "x = 2 ^ a * (y div 2 ^ a)" using y by (simp add: a_def minus_mod_eq_mult_div)
  moreover have "(2 ^ a * z) div 2 ^ b = z div 2 ^ (b - a)" for z :: int
    using ab by (metis div_mult_mult1 le_add_diff_inverse power_add power_not_zero zero_neq_numeral)
  moreover have "y div 2 ^ a div 2 ^ (b - a) = y div 2 ^ b"
    using ab by (metis le_add_diff_inverse power_add zdiv_zmult2_eq zero_le_numeral zero_le_power)
  ultimately have "x div 2 ^ b = y div 2 ^ b" by simp
  then have "y - y mod 2 ^ b = u" using x by (simp add: b_def minus_mod_eq_mult_div)
  then show ?thesis using kl by (simp add: p r prefix_covers_def b_def)
qed


lemma is_eth_get: "match_typed m \<Longrightarrow> is_eth (get_dl_src m) \<and> is_eth (get_dl_dst m)"
  by (auto simp: match_typed_def is_eth_def get_dl_src_def get_dl_dst_def split: hwaddr.splits)

lemma nw_eq_attr:
  assumes "match_typed a" "match_typed b"
  shows "nw_eq (attr_nw_src a) (attr_nw_src b) =
      Inr (map_option nw_uint (attr_nw_src a) = map_option nw_uint (attr_nw_src b))"
    and "nw_eq (attr_nw_dst a) (attr_nw_dst b) =
      Inr (map_option nw_uint (attr_nw_dst a) = map_option nw_uint (attr_nw_dst b))"
  using assms by (auto simp: attr_nw_src_eq attr_nw_dst_eq nw_eq_typed match_typed_def)

text \<open>The specification: equal views, or every field of the first a wildcard or the same.\<close>

definition match_view :: "ofp_match \<Rightarrow> int option list \<times> bytes list \<times> (int \<times> int) option list" where
  "match_view m =
     ([get_in_port m, get_dl_vlan m, get_dl_type m, get_nw_proto m, get_tp_src m, get_tp_dst m,
       get_dl_vlan_pcp m, get_nw_tos m],
      [hw_or_zero (get_dl_src m), hw_or_zero (get_dl_dst m)],
      [nw_prefix (get_nw_src m), nw_prefix (get_nw_dst m)])"

definition plain_bits :: "ofp_match \<Rightarrow> int" where
  "plain_bits m = m_wildcards m AND NOT (OFPFW_NW_SRC_MASK OR OFPFW_NW_DST_MASK)"

definition view_covers :: "int option list \<times> bytes list \<times> (int \<times> int) option list
    \<Rightarrow> int option list \<times> bytes list \<times> (int \<times> int) option list \<Rightarrow> bool" where
  "view_covers v w = (case v of (xs, hs, ps) \<Rightarrow> case w of (xs', hs', ps') \<Rightarrow>
     list_all2 (\<lambda>x y. \<not> match_fail x y) xs xs'
     \<and> list_all2 (\<lambda>x y. x = zeros 6 \<or> x = y) hs hs'
     \<and> list_all2 prefix_covers ps ps')"

definition match_covers :: "ofp_match \<Rightarrow> ofp_match \<Rightarrow> bool" where
  "match_covers a b \<longleftrightarrow>
     (m_wildcards a = m_wildcards b \<and> match_view a = match_view b)
     \<or> (plain_bits a OR plain_bits b = plain_bits a \<and> view_covers (match_view a) (match_view b))"

lemma same_prefix_iff:
  assumes "m_wildcards a = m_wildcards b"
  shows "nw_prefix (get_nw_src a) = nw_prefix (get_nw_src b) \<longleftrightarrow>
      map_option nw_uint (attr_nw_src a) = map_option nw_uint (attr_nw_src b)"
    and "nw_prefix (get_nw_dst a) = nw_prefix (get_nw_dst b) \<longleftrightarrow>
      map_option nw_uint (attr_nw_dst a) = map_option nw_uint (attr_nw_dst b)"
  using assms by (auto simp: nw_prefix_def get_nw_src_def get_nw_dst_def attr_nw_src_eq attr_nw_dst_eq
      wild_def Let_def)

lemma ofp_match_eq_iff:
  assumes "match_typed a" "match_typed b"
  shows "ofp_match_eq a b = Inr (m_wildcards a = m_wildcards b \<and> match_view a = match_view b)"
proof (cases "m_wildcards a = m_wildcards b")
  case False
  then show ?thesis by (simp add: ofp_match_eq_def)
next
  case True
  then show ?thesis
    using is_eth_get [OF assms(1)] is_eth_get [OF assms(2)] same_prefix_iff [OF True]
    by (auto simp: ofp_match_eq_def match_view_def nw_eq_attr [OF assms] hw_attr_eq_iff)
qed

lemma matches_iff:
  assumes "match_typed a" "match_typed b"
  shows "matches_with_wildcards a b True = Inr (match_covers a b)"
proof -
  have n: "nw_subsumes (get_nw_src a) (get_nw_src b) = Inr (prefix_covers (nw_prefix (get_nw_src a)) (nw_prefix (get_nw_src b)))"
      "nw_subsumes (get_nw_dst a) (get_nw_dst b) = Inr (prefix_covers (nw_prefix (get_nw_dst a)) (nw_prefix (get_nw_dst b)))"
    using prefix_ok_get [OF assms(1)] prefix_ok_get [OF assms(2)] by (simp_all add: nw_subsumes_iff)
  show ?thesis
    using is_eth_get [OF assms(1)] is_eth_get [OF assms(2)]
    unfolding matches_with_wildcards_def ofp_match_eq_iff [OF assms] n match_covers_def Let_def plain_bits_def
    by (auto simp: match_view_def view_covers_def match_fail_hw_iff)
qed

lemma or_absorb_trans: "(a :: int) OR b = a \<Longrightarrow> b OR c = b \<Longrightarrow> a OR c = a"
  by (metis or.assoc)

lemma view_covers_trans:
  assumes "view_covers u v" "view_covers v w"
    and "\<forall>p \<in> set (snd (snd u)) \<union> set (snd (snd v)). \<forall>x k. p = Some (x, k) \<longrightarrow> k \<le> 32"
  shows "view_covers u w"
proof -
  obtain xs hs ps xs' hs' ps' xs'' hs'' ps'' where e: "u = (xs, hs, ps)" "v = (xs', hs', ps')" "w = (xs'', hs'', ps'')"
    by (metis prod_cases3)
  have "list_all2 (\<lambda>x y. \<not> match_fail x y) xs xs''"
    using assms(1,2) list_all2_trans [of "\<lambda>x y. \<not> match_fail x y" "\<lambda>x y. \<not> match_fail x y" "\<lambda>x y. \<not> match_fail x y" xs xs' xs'']
    by (auto simp: e view_covers_def match_fail_def)
  moreover have "list_all2 (\<lambda>x y. x = zeros 6 \<or> x = y) hs hs''"
    using assms(1,2) list_all2_trans [of "\<lambda>x y. x = zeros 6 \<or> x = y" "\<lambda>x y. x = zeros 6 \<or> x = y" "\<lambda>x y. x = zeros 6 \<or> x = y" hs hs' hs'']
    by (auto simp: e view_covers_def)
  moreover have "list_all2 prefix_covers ps ps''"
  proof (rule list_all2_all_nthI)
    show "length ps = length ps''" using assms(1,2) by (simp add: e view_covers_def list_all2_conv_all_nth)
    fix i assume i: "i < length ps"
    then have "prefix_covers (ps ! i) (ps' ! i)" "prefix_covers (ps' ! i) (ps'' ! i)" "i < length ps'"
      using assms(1,2) by (auto simp: e view_covers_def list_all2_conv_all_nth)
    note c = this
    have mem: "ps ! i \<in> set ps \<union> set ps'" "ps' ! i \<in> set ps \<union> set ps'"
      using nth_mem [OF i] nth_mem [OF c(3)] by simp_all
    have B: "p = Some (x, k) \<Longrightarrow> k \<le> 32" if "p \<in> set ps \<union> set ps'" for p x k
      using assms(3) that unfolding e by simp
    show "prefix_covers (ps ! i) (ps'' ! i)"
      by (rule prefix_covers_trans [OF c(1,2) B [OF mem(1)] B [OF mem(2)]])
  qed
  ultimately show ?thesis by (simp add: e view_covers_def)
qed

lemma match_view_prefix_bits:
  "match_typed m \<Longrightarrow> p \<in> set (snd (snd (match_view m))) \<Longrightarrow> p = Some (x, k) \<Longrightarrow> k \<le> 32"
  using prefix_ok_get [of m] by (auto simp: match_view_def nw_prefix_def prefix_ok_def split: option.splits)

lemma match_covers_refl: "match_covers m m"
  by (simp add: match_covers_def)

lemma match_covers_trans:
  assumes "match_typed a" "match_typed b" "match_covers a b" "match_covers b c"
  shows "match_covers a c"
proof (cases "(m_wildcards a = m_wildcards b \<and> match_view a = match_view b)
    \<or> (m_wildcards b = m_wildcards c \<and> match_view b = match_view c)")
  case True
  then show ?thesis using assms(3,4) by (auto simp: match_covers_def plain_bits_def)
next
  case False
  then have h: "plain_bits a OR plain_bits b = plain_bits a" "plain_bits b OR plain_bits c = plain_bits b"
      "view_covers (match_view a) (match_view b)" "view_covers (match_view b) (match_view c)"
    using assms(3,4) by (auto simp: match_covers_def)
  then have "view_covers (match_view a) (match_view c)"
    using match_view_prefix_bits [OF assms(1)] match_view_prefix_bits [OF assms(2)]
    by (intro view_covers_trans [OF h(3,4)]) blast
  then show ?thesis using or_absorb_trans [OF h(1,2)] by (simp add: match_covers_def)
qed

text \<open>
  the subsumption test of the flow table never raises on matches built from addresses, and it
  is transitive: if a match encompasses a second one and the second a third, the first
  encompasses the third.  This covers exact fields, Ethernet addresses (the all-zero address
  acts as a wildcard, since it compares equal to \<open>None\<close>) and network prefixes of any length.
\<close>

theorem matches_with_wildcards_trans:
  assumes "match_typed a" "match_typed b" "match_typed c"
    and "matches_with_wildcards a b True = Inr True" "matches_with_wildcards b c True = Inr True"
  shows "matches_with_wildcards a c True = Inr True"
proof -
  have "match_covers a b" "match_covers b c" using assms matches_iff by auto
  then show ?thesis using match_covers_trans [OF assms(1,2)] matches_iff [OF assms(1,3)] by simp
qed

theorem matches_with_wildcards_trans_witness:
  "matches_with_wildcards ofp_match_init
     (ofp_match_init\<lparr>m_wildcards := 3678460, m_in_port := 2, m_dl_vlan := 5\<rparr>) True = Inr True"
proof -
  let ?b = "ofp_match_init\<lparr>m_wildcards := 3678462, m_in_port := 2\<rparr>"
  let ?c = "ofp_match_init\<lparr>m_wildcards := 3678460, m_in_port := 2, m_dl_vlan := 5\<rparr>"
  have t: "match_typed ofp_match_init" "match_typed ?b" "match_typed ?c"
    by (simp_all add: match_typed_def ofp_match_init_def)
  have "match_covers ofp_match_init ?b" "match_covers ?b ?c"
    by (simp_all add: match_covers_def view_covers_def match_view_def ofp_match_init_def match_get_defs
        wild_def plain_bits_def init_wildcards match_fail_def hw_or_zero_def nw_prefix_def prefix_covers_def
        get_nw_src_def get_nw_dst_def)
  then show ?thesis using matches_with_wildcards_trans [OF t] matches_iff t by simp
qed

end
