(* ===== verification/Of_Messages.thy ===== *)
theory Of_Messages
  imports Of_Match_Laws
begin

text \<open>
  \<open>pox/openflow/libopenflow_01.py\<close>, the messages of fixed layout and the statistics
  structures: each message is the record \<open>ofp_header\<close> extended by its fields.  \<open>pack\<close>
  takes the transaction counter and gives the bytes, the message with its \<open>xid\<close> (and
  length) filled in, and the counter; \<open>unpack\<close> overwrites a message and gives the bytes
  that follow it.  Every class has its wire lemma: length and round trip.
\<close>

section \<open>Header-only and fixed-layout messages\<close>

text \<open>\<open>ofp_header.pack(self)\<close> followed by the fields\<close>

definition msg_pack :: "int \<Rightarrow> 'a ofp_header_scheme \<Rightarrow> ('a ofp_header_scheme \<Rightarrow> bytes res)
    \<Rightarrow> (bytes \<times> 'a ofp_header_scheme \<times> int) res" where
  "msg_pack nx m body =
     rbind (ofp_header_pack nx m) (\<lambda>(h, m, nx). rmap (\<lambda>b. (h @ b, m, nx)) (body m))"

text \<open>\<open>ofp_hello\<close>\<close>

definition ofp_hello_init :: ofp_header where
  "ofp_hello_init = ofp_header_init\<lparr>header_type := OFPT_HELLO\<rparr>"

definition ofp_hello_pack :: "int \<Rightarrow> ofp_header \<Rightarrow> (bytes \<times> ofp_header \<times> int) res" where
  "ofp_hello_pack nx m = ofp_header_pack nx m"

definition ofp_hello_unpack :: "ofp_header \<Rightarrow> bytes \<Rightarrow> (ofp_header \<times> bytes) res" where
  "ofp_hello_unpack m b = (if length b < 8 then Inr (m, b) else rbind (ofp_header_unpack m b) (\<lambda>(m, _). Inr (m, drop 8 b)))"

lemma ofp_hello_wire:
  assumes "ofp_hello_pack nx m = Inr (b, m', nx')"
  shows "length b = 8 \<and> ofp_hello_unpack y (b @ rest) = Inr (m', rest)"
  using ofp_header_unpack_pack [of nx m b m' nx' y rest] ofp_header_pack_length [of nx m b m' nx'] assms
  by (simp add: ofp_hello_pack_def ofp_hello_unpack_def)

text \<open>\<open>ofp_barrier_request\<close>\<close>

definition ofp_barrier_request_init :: ofp_header where
  "ofp_barrier_request_init = ofp_header_init\<lparr>header_type := OFPT_BARRIER_REQUEST\<rparr>"

definition ofp_barrier_request_pack :: "int \<Rightarrow> ofp_header \<Rightarrow> (bytes \<times> ofp_header \<times> int) res" where
  "ofp_barrier_request_pack nx m = ofp_header_pack nx m"

definition ofp_barrier_request_unpack :: "ofp_header \<Rightarrow> bytes \<Rightarrow> (ofp_header \<times> bytes) res" where
  "ofp_barrier_request_unpack m b = (if length b < 8 then Inr (m, b) else rbind (ofp_header_unpack m b) (\<lambda>(m, _). Inr (m, drop 8 b)))"

lemma ofp_barrier_request_wire:
  assumes "ofp_barrier_request_pack nx m = Inr (b, m', nx')"
  shows "length b = 8 \<and> ofp_barrier_request_unpack y (b @ rest) = Inr (m', rest)"
  using ofp_header_unpack_pack [of nx m b m' nx' y rest] ofp_header_pack_length [of nx m b m' nx'] assms
  by (simp add: ofp_barrier_request_pack_def ofp_barrier_request_unpack_def)

text \<open>\<open>ofp_barrier_reply\<close>\<close>

definition ofp_barrier_reply_init :: ofp_header where
  "ofp_barrier_reply_init = ofp_header_init\<lparr>header_type := OFPT_BARRIER_REPLY\<rparr>"

definition ofp_barrier_reply_pack :: "int \<Rightarrow> ofp_header \<Rightarrow> (bytes \<times> ofp_header \<times> int) res" where
  "ofp_barrier_reply_pack nx m = ofp_header_pack nx m"

definition ofp_barrier_reply_unpack :: "ofp_header \<Rightarrow> bytes \<Rightarrow> (ofp_header \<times> bytes) res" where
  "ofp_barrier_reply_unpack m b = (if length b < 8 then Inr (m, b) else rbind (ofp_header_unpack m b) (\<lambda>(m, _). Inr (m, drop 8 b)))"

lemma ofp_barrier_reply_wire:
  assumes "ofp_barrier_reply_pack nx m = Inr (b, m', nx')"
  shows "length b = 8 \<and> ofp_barrier_reply_unpack y (b @ rest) = Inr (m', rest)"
  using ofp_header_unpack_pack [of nx m b m' nx' y rest] ofp_header_pack_length [of nx m b m' nx'] assms
  by (simp add: ofp_barrier_reply_pack_def ofp_barrier_reply_unpack_def)

text \<open>\<open>ofp_features_request\<close>\<close>

definition ofp_features_request_init :: ofp_header where
  "ofp_features_request_init = ofp_header_init\<lparr>header_type := OFPT_FEATURES_REQUEST\<rparr>"

definition ofp_features_request_pack :: "int \<Rightarrow> ofp_header \<Rightarrow> (bytes \<times> ofp_header \<times> int) res" where
  "ofp_features_request_pack nx m = ofp_header_pack nx m"

definition ofp_features_request_unpack :: "ofp_header \<Rightarrow> bytes \<Rightarrow> (ofp_header \<times> bytes) res" where
  "ofp_features_request_unpack m b = (if length b < 8 then Inr (m, b) else rbind (ofp_header_unpack m b) (\<lambda>(m, _). Inr (m, drop 8 b)))"

lemma ofp_features_request_wire:
  assumes "ofp_features_request_pack nx m = Inr (b, m', nx')"
  shows "length b = 8 \<and> ofp_features_request_unpack y (b @ rest) = Inr (m', rest)"
  using ofp_header_unpack_pack [of nx m b m' nx' y rest] ofp_header_pack_length [of nx m b m' nx'] assms
  by (simp add: ofp_features_request_pack_def ofp_features_request_unpack_def)

text \<open>\<open>ofp_get_config_request\<close>\<close>

definition ofp_get_config_request_init :: ofp_header where
  "ofp_get_config_request_init = ofp_header_init\<lparr>header_type := OFPT_GET_CONFIG_REQUEST\<rparr>"

definition ofp_get_config_request_pack :: "int \<Rightarrow> ofp_header \<Rightarrow> (bytes \<times> ofp_header \<times> int) res" where
  "ofp_get_config_request_pack nx m = ofp_header_pack nx m"

definition ofp_get_config_request_unpack :: "ofp_header \<Rightarrow> bytes \<Rightarrow> (ofp_header \<times> bytes) res" where
  "ofp_get_config_request_unpack m b = (if length b < 8 then Inr (m, b) else rbind (ofp_header_unpack m b) (\<lambda>(m, _). Inr (m, drop 8 b)))"

lemma ofp_get_config_request_wire:
  assumes "ofp_get_config_request_pack nx m = Inr (b, m', nx')"
  shows "length b = 8 \<and> ofp_get_config_request_unpack y (b @ rest) = Inr (m', rest)"
  using ofp_header_unpack_pack [of nx m b m' nx' y rest] ofp_header_pack_length [of nx m b m' nx'] assms
  by (simp add: ofp_get_config_request_pack_def ofp_get_config_request_unpack_def)

text \<open>\<open>ofp_switch_config\<close>\<close>

record ofp_switch_config = ofp_header +
  sc_flags :: int
  sc_miss_send_len :: int

definition ofp_switch_config_init :: ofp_switch_config where
  "ofp_switch_config_init = \<lparr>version = OFP_VERSION, header_type = OFPT_SET_CONFIG, msg_len = 12, xid = None, sc_flags = 0, sc_miss_send_len = OFP_DEFAULT_MISS_SEND_LEN\<rparr>"

definition ofp_switch_config_pack :: "int \<Rightarrow> ofp_switch_config \<Rightarrow> (bytes \<times> ofp_switch_config \<times> int) res" where
  "ofp_switch_config_pack nx m = msg_pack nx m (\<lambda>m. struct_pack [FH, FH] [sc_flags m, sc_miss_send_len m])"

definition ofp_switch_config_unpack :: "ofp_switch_config \<Rightarrow> bytes \<Rightarrow> (ofp_switch_config \<times> bytes) res" where
  "ofp_switch_config_unpack m b =
     (if length b < 12 then Inr (m, b)
      else rbind (ofp_header_unpack m b) (\<lambda>(m, _).
           rbind (struct_unpack_from [FH, FH] b 8) (\<lambda>vs1.
           case vs1 of
             [flags, miss_send_len] \<Rightarrow> Inr (m\<lparr>sc_flags := flags, sc_miss_send_len := miss_send_len\<rparr>, drop 12 b)
           | _ \<Rightarrow> Inl ValueError)))"

definition ofp_switch_config_len :: "ofp_switch_config \<Rightarrow> int" where
  "ofp_switch_config_len m = 12"

definition ofp_switch_config_eq :: "ofp_switch_config \<Rightarrow> ofp_switch_config \<Rightarrow> bool" where
  "ofp_switch_config_eq a b \<longleftrightarrow> ofp_header_eq a b \<and> sc_flags a = sc_flags b \<and> sc_miss_send_len a = sc_miss_send_len b"

lemma ofp_switch_config_wire:
  assumes "ofp_switch_config_pack nx m = Inr (b, m', nx')"
  shows "length b = 12 \<and> ofp_switch_config_unpack y (b @ rest) = Inr (m', rest)"
proof -
  obtain h p1 where hd: "ofp_header_pack nx m = Inr (h, m', nx')"
    and ps: "struct_pack [FH, FH] [sc_flags m', sc_miss_send_len m'] = Inr p1"
    and b: "b = h @ p1"
    using assms by (auto simp: ofp_switch_config_pack_def msg_pack_def res_simps simp del: ofp_header_pack_Inr)
  note l = ps [THEN struct_pack_length, simplified] ofp_header_pack_length [OF hd]
    and u = ofp_header_unpack_pack [OF hd] and s = ps [THEN struct_unpack_from_hit]
  show ?thesis by (simp add: b l u s ofp_switch_config_unpack_def struct_unpack_from_skip)
qed

lemma ofp_switch_config_eq_iff [simp]: "ofp_switch_config_eq a b \<longleftrightarrow> a = b"
  by (auto simp: ofp_switch_config_eq_def ofp_header_eq_def)

text \<open>\<open>ofp_get_config_reply\<close>\<close>

record ofp_get_config_reply = ofp_header +
  gcr_flags :: int
  gcr_miss_send_len :: int

definition ofp_get_config_reply_init :: ofp_get_config_reply where
  "ofp_get_config_reply_init = \<lparr>version = OFP_VERSION, header_type = OFPT_GET_CONFIG_REPLY, msg_len = 12, xid = None, gcr_flags = 0, gcr_miss_send_len = OFP_DEFAULT_MISS_SEND_LEN\<rparr>"

definition ofp_get_config_reply_pack :: "int \<Rightarrow> ofp_get_config_reply \<Rightarrow> (bytes \<times> ofp_get_config_reply \<times> int) res" where
  "ofp_get_config_reply_pack nx m = msg_pack nx m (\<lambda>m. struct_pack [FH, FH] [gcr_flags m, gcr_miss_send_len m])"

definition ofp_get_config_reply_unpack :: "ofp_get_config_reply \<Rightarrow> bytes \<Rightarrow> (ofp_get_config_reply \<times> bytes) res" where
  "ofp_get_config_reply_unpack m b =
     (if length b < 12 then Inr (m, b)
      else rbind (ofp_header_unpack m b) (\<lambda>(m, _).
           rbind (struct_unpack_from [FH, FH] b 8) (\<lambda>vs1.
           case vs1 of
             [flags, miss_send_len] \<Rightarrow> Inr (m\<lparr>gcr_flags := flags, gcr_miss_send_len := miss_send_len\<rparr>, drop 12 b)
           | _ \<Rightarrow> Inl ValueError)))"

definition ofp_get_config_reply_len :: "ofp_get_config_reply \<Rightarrow> int" where
  "ofp_get_config_reply_len m = 12"

definition ofp_get_config_reply_eq :: "ofp_get_config_reply \<Rightarrow> ofp_get_config_reply \<Rightarrow> bool" where
  "ofp_get_config_reply_eq a b \<longleftrightarrow> ofp_header_eq a b \<and> gcr_flags a = gcr_flags b \<and> gcr_miss_send_len a = gcr_miss_send_len b"

lemma ofp_get_config_reply_wire:
  assumes "ofp_get_config_reply_pack nx m = Inr (b, m', nx')"
  shows "length b = 12 \<and> ofp_get_config_reply_unpack y (b @ rest) = Inr (m', rest)"
proof -
  obtain h p1 where hd: "ofp_header_pack nx m = Inr (h, m', nx')"
    and ps: "struct_pack [FH, FH] [gcr_flags m', gcr_miss_send_len m'] = Inr p1"
    and b: "b = h @ p1"
    using assms by (auto simp: ofp_get_config_reply_pack_def msg_pack_def res_simps simp del: ofp_header_pack_Inr)
  note l = ps [THEN struct_pack_length, simplified] ofp_header_pack_length [OF hd]
    and u = ofp_header_unpack_pack [OF hd] and s = ps [THEN struct_unpack_from_hit]
  show ?thesis by (simp add: b l u s ofp_get_config_reply_unpack_def struct_unpack_from_skip)
qed

lemma ofp_get_config_reply_eq_iff [simp]: "ofp_get_config_reply_eq a b \<longleftrightarrow> a = b"
  by (auto simp: ofp_get_config_reply_eq_def ofp_header_eq_def)

text \<open>\<open>ofp_set_config\<close>\<close>

record ofp_set_config = ofp_header +
  sec_flags :: int
  sec_miss_send_len :: int

definition ofp_set_config_init :: ofp_set_config where
  "ofp_set_config_init = \<lparr>version = OFP_VERSION, header_type = OFPT_SET_CONFIG, msg_len = 12, xid = None, sec_flags = 0, sec_miss_send_len = OFP_DEFAULT_MISS_SEND_LEN\<rparr>"

definition ofp_set_config_pack :: "int \<Rightarrow> ofp_set_config \<Rightarrow> (bytes \<times> ofp_set_config \<times> int) res" where
  "ofp_set_config_pack nx m = msg_pack nx m (\<lambda>m. struct_pack [FH, FH] [sec_flags m, sec_miss_send_len m])"

definition ofp_set_config_unpack :: "ofp_set_config \<Rightarrow> bytes \<Rightarrow> (ofp_set_config \<times> bytes) res" where
  "ofp_set_config_unpack m b =
     (if length b < 12 then Inr (m, b)
      else rbind (ofp_header_unpack m b) (\<lambda>(m, _).
           rbind (struct_unpack_from [FH, FH] b 8) (\<lambda>vs1.
           case vs1 of
             [flags, miss_send_len] \<Rightarrow> Inr (m\<lparr>sec_flags := flags, sec_miss_send_len := miss_send_len\<rparr>, drop 12 b)
           | _ \<Rightarrow> Inl ValueError)))"

definition ofp_set_config_len :: "ofp_set_config \<Rightarrow> int" where
  "ofp_set_config_len m = 12"

definition ofp_set_config_eq :: "ofp_set_config \<Rightarrow> ofp_set_config \<Rightarrow> bool" where
  "ofp_set_config_eq a b \<longleftrightarrow> ofp_header_eq a b \<and> sec_flags a = sec_flags b \<and> sec_miss_send_len a = sec_miss_send_len b"

lemma ofp_set_config_wire:
  assumes "ofp_set_config_pack nx m = Inr (b, m', nx')"
  shows "length b = 12 \<and> ofp_set_config_unpack y (b @ rest) = Inr (m', rest)"
proof -
  obtain h p1 where hd: "ofp_header_pack nx m = Inr (h, m', nx')"
    and ps: "struct_pack [FH, FH] [sec_flags m', sec_miss_send_len m'] = Inr p1"
    and b: "b = h @ p1"
    using assms by (auto simp: ofp_set_config_pack_def msg_pack_def res_simps simp del: ofp_header_pack_Inr)
  note l = ps [THEN struct_pack_length, simplified] ofp_header_pack_length [OF hd]
    and u = ofp_header_unpack_pack [OF hd] and s = ps [THEN struct_unpack_from_hit]
  show ?thesis by (simp add: b l u s ofp_set_config_unpack_def struct_unpack_from_skip)
qed

lemma ofp_set_config_eq_iff [simp]: "ofp_set_config_eq a b \<longleftrightarrow> a = b"
  by (auto simp: ofp_set_config_eq_def ofp_header_eq_def)

text \<open>\<open>ofp_queue_get_config_request\<close>\<close>

record ofp_queue_get_config_request = ofp_header +
  qgr_port :: int

definition ofp_queue_get_config_request_init :: ofp_queue_get_config_request where
  "ofp_queue_get_config_request_init = \<lparr>version = OFP_VERSION, header_type = OFPT_QUEUE_GET_CONFIG_REQUEST, msg_len = 12, xid = None, qgr_port = 0\<rparr>"

definition ofp_queue_get_config_request_pack :: "int \<Rightarrow> ofp_queue_get_config_request \<Rightarrow> (bytes \<times> ofp_queue_get_config_request \<times> int) res" where
  "ofp_queue_get_config_request_pack nx m = msg_pack nx m (\<lambda>m. rconcat
       [struct_pack [FH] [qgr_port m],
        Inr (zeros 2)])"

definition ofp_queue_get_config_request_unpack :: "ofp_queue_get_config_request \<Rightarrow> bytes \<Rightarrow> (ofp_queue_get_config_request \<times> bytes) res" where
  "ofp_queue_get_config_request_unpack m b =
     (if length b < 12 then Inr (m, b)
      else rbind (ofp_header_unpack m b) (\<lambda>(m, _).
           rbind (struct_unpack_from [FH] b 8) (\<lambda>vs1.
           case vs1 of
             [port] \<Rightarrow> Inr (m\<lparr>qgr_port := port\<rparr>, drop 12 b)
           | _ \<Rightarrow> Inl ValueError)))"

definition ofp_queue_get_config_request_len :: "ofp_queue_get_config_request \<Rightarrow> int" where
  "ofp_queue_get_config_request_len m = 12"

definition ofp_queue_get_config_request_eq :: "ofp_queue_get_config_request \<Rightarrow> ofp_queue_get_config_request \<Rightarrow> bool" where
  "ofp_queue_get_config_request_eq a b \<longleftrightarrow> ofp_header_eq a b \<and> qgr_port a = qgr_port b"

lemma ofp_queue_get_config_request_wire:
  assumes "ofp_queue_get_config_request_pack nx m = Inr (b, m', nx')"
  shows "length b = 12 \<and> ofp_queue_get_config_request_unpack y (b @ rest) = Inr (m', rest)"
proof -
  obtain h p1 where hd: "ofp_header_pack nx m = Inr (h, m', nx')"
    and ps: "struct_pack [FH] [qgr_port m'] = Inr p1"
    and b: "b = h @ p1 @ zeros 2"
    using assms by (auto simp: ofp_queue_get_config_request_pack_def msg_pack_def res_simps simp del: ofp_header_pack_Inr)
  note l = ps [THEN struct_pack_length, simplified] ofp_header_pack_length [OF hd]
    and u = ofp_header_unpack_pack [OF hd] and s = ps [THEN struct_unpack_from_hit]
  show ?thesis by (simp add: b l u s ofp_queue_get_config_request_unpack_def struct_unpack_from_skip)
qed

lemma ofp_queue_get_config_request_eq_iff [simp]: "ofp_queue_get_config_request_eq a b \<longleftrightarrow> a = b"
  by (auto simp: ofp_queue_get_config_request_eq_def ofp_header_eq_def)

text \<open>\<open>ofp_vendor_header\<close>: the header keeps the length 8 of \<open>ofp_header\<close> although twelve bytes are packed.\<close>

record ofp_vendor_header = ofp_header +
  vh_vendor :: int

definition ofp_vendor_header_init :: ofp_vendor_header where
  "ofp_vendor_header_init = \<lparr>version = OFP_VERSION, header_type = OFPT_VENDOR, msg_len = 8, xid = None, vh_vendor = 0\<rparr>"

definition ofp_vendor_header_pack :: "int \<Rightarrow> ofp_vendor_header \<Rightarrow> (bytes \<times> ofp_vendor_header \<times> int) res" where
  "ofp_vendor_header_pack nx m = msg_pack nx m (\<lambda>m. struct_pack [FL] [vh_vendor m])"

definition ofp_vendor_header_unpack :: "ofp_vendor_header \<Rightarrow> bytes \<Rightarrow> (ofp_vendor_header \<times> bytes) res" where
  "ofp_vendor_header_unpack m b =
     (if length b < 12 then Inr (m, b)
      else rbind (ofp_header_unpack m b) (\<lambda>(m, _).
           rbind (struct_unpack_from [FL] b 8) (\<lambda>vs1.
           case vs1 of
             [vendor] \<Rightarrow> Inr (m\<lparr>vh_vendor := vendor\<rparr>, drop 12 b)
           | _ \<Rightarrow> Inl ValueError)))"

definition ofp_vendor_header_len :: "ofp_vendor_header \<Rightarrow> int" where
  "ofp_vendor_header_len m = 12"

definition ofp_vendor_header_eq :: "ofp_vendor_header \<Rightarrow> ofp_vendor_header \<Rightarrow> bool" where
  "ofp_vendor_header_eq a b \<longleftrightarrow> ofp_header_eq a b \<and> vh_vendor a = vh_vendor b"

lemma ofp_vendor_header_wire:
  assumes "ofp_vendor_header_pack nx m = Inr (b, m', nx')"
  shows "length b = 12 \<and> ofp_vendor_header_unpack y (b @ rest) = Inr (m', rest)"
proof -
  obtain h p1 where hd: "ofp_header_pack nx m = Inr (h, m', nx')"
    and ps: "struct_pack [FL] [vh_vendor m'] = Inr p1"
    and b: "b = h @ p1"
    using assms by (auto simp: ofp_vendor_header_pack_def msg_pack_def res_simps simp del: ofp_header_pack_Inr)
  note l = ps [THEN struct_pack_length, simplified] ofp_header_pack_length [OF hd]
    and u = ofp_header_unpack_pack [OF hd] and s = ps [THEN struct_unpack_from_hit]
  show ?thesis by (simp add: b l u s ofp_vendor_header_unpack_def struct_unpack_from_skip)
qed

lemma ofp_vendor_header_eq_iff [simp]: "ofp_vendor_header_eq a b \<longleftrightarrow> a = b"
  by (auto simp: ofp_vendor_header_eq_def ofp_header_eq_def)

text \<open>\<open>ofp_aggregate_stats\<close>\<close>

record ofp_aggregate_stats =
  ags_packet_count :: int
  ags_byte_count :: int
  ags_flow_count :: int

definition ofp_aggregate_stats_init :: ofp_aggregate_stats where
  "ofp_aggregate_stats_init = \<lparr>ags_packet_count = 0, ags_byte_count = 0, ags_flow_count = 0\<rparr>"

definition ofp_aggregate_stats_pack :: "ofp_aggregate_stats \<Rightarrow> bytes option res" where
  "ofp_aggregate_stats_pack a =
     rmap Some (rconcat
        [struct_pack [FQ, FQ, FL] [ags_packet_count a, ags_byte_count a, ags_flow_count a],
         Inr (zeros 4)])"

definition ofp_aggregate_stats_unpack :: "ofp_aggregate_stats \<Rightarrow> bytes \<Rightarrow> (ofp_aggregate_stats \<times> bytes) res" where
  "ofp_aggregate_stats_unpack a b =
     (if length b < 24 then Inr (a, b)
      else rbind (struct_unpack_from [FQ, FQ, FL] b 0) (\<lambda>vs1.
           case vs1 of
             [packet_count, byte_count, flow_count] \<Rightarrow> Inr (a\<lparr>ags_packet_count := packet_count, ags_byte_count := byte_count, ags_flow_count := flow_count\<rparr>, drop 24 b)
           | _ \<Rightarrow> Inl ValueError))"

definition ofp_aggregate_stats_len :: "ofp_aggregate_stats \<Rightarrow> int" where
  "ofp_aggregate_stats_len a = 24"

definition ofp_aggregate_stats_eq :: "ofp_aggregate_stats \<Rightarrow> ofp_aggregate_stats \<Rightarrow> bool" where
  "ofp_aggregate_stats_eq a b \<longleftrightarrow> ags_packet_count a = ags_packet_count b
     \<and> ags_byte_count a = ags_byte_count b
     \<and> ags_flow_count a = ags_flow_count b"

lemma ofp_aggregate_stats_wire:
  assumes "ofp_aggregate_stats_pack a = Inr (Some b)"
  shows "length b = 24 \<and> ofp_aggregate_stats_unpack y (b @ rest) = Inr (a, rest)"
proof -
  obtain p1 where ps: "struct_pack [FQ, FQ, FL] [ags_packet_count a, ags_byte_count a, ags_flow_count a] = Inr p1"
    and b: "b = p1 @ zeros 4"
    using assms by (auto simp: ofp_aggregate_stats_pack_def res_simps)
  note l = ps [THEN struct_pack_length, simplified] and h = ps [THEN struct_unpack_from_hit]
  show ?thesis by (simp add: b l h ofp_aggregate_stats_unpack_def struct_unpack_from_skip)
qed

lemma ofp_aggregate_stats_eq_iff [simp]: "ofp_aggregate_stats_eq a b \<longleftrightarrow> a = b"
  by (auto simp: ofp_aggregate_stats_eq_def)

text \<open>\<open>ofp_port_stats_request\<close>\<close>

record ofp_port_stats_request =
  psr_port_no :: int

definition ofp_port_stats_request_init :: ofp_port_stats_request where
  "ofp_port_stats_request_init = \<lparr>psr_port_no = 0\<rparr>"

definition ofp_port_stats_request_pack :: "ofp_port_stats_request \<Rightarrow> bytes option res" where
  "ofp_port_stats_request_pack a =
     rmap Some (rconcat
        [struct_pack [FH] [psr_port_no a],
         Inr (zeros 6)])"

definition ofp_port_stats_request_unpack :: "ofp_port_stats_request \<Rightarrow> bytes \<Rightarrow> (ofp_port_stats_request \<times> bytes) res" where
  "ofp_port_stats_request_unpack a b =
     (if length b < 8 then Inr (a, b)
      else rbind (struct_unpack_from [FH] b 0) (\<lambda>vs1.
           case vs1 of
             [port_no] \<Rightarrow> Inr (a\<lparr>psr_port_no := port_no\<rparr>, drop 8 b)
           | _ \<Rightarrow> Inl ValueError))"

definition ofp_port_stats_request_len :: "ofp_port_stats_request \<Rightarrow> int" where
  "ofp_port_stats_request_len a = 8"

definition ofp_port_stats_request_eq :: "ofp_port_stats_request \<Rightarrow> ofp_port_stats_request \<Rightarrow> bool" where
  "ofp_port_stats_request_eq a b \<longleftrightarrow> psr_port_no a = psr_port_no b"

lemma ofp_port_stats_request_wire:
  assumes "ofp_port_stats_request_pack a = Inr (Some b)"
  shows "length b = 8 \<and> ofp_port_stats_request_unpack y (b @ rest) = Inr (a, rest)"
proof -
  obtain p1 where ps: "struct_pack [FH] [psr_port_no a] = Inr p1"
    and b: "b = p1 @ zeros 6"
    using assms by (auto simp: ofp_port_stats_request_pack_def res_simps)
  note l = ps [THEN struct_pack_length, simplified] and h = ps [THEN struct_unpack_from_hit]
  show ?thesis by (simp add: b l h ofp_port_stats_request_unpack_def struct_unpack_from_skip)
qed

lemma ofp_port_stats_request_eq_iff [simp]: "ofp_port_stats_request_eq a b \<longleftrightarrow> a = b"
  by (auto simp: ofp_port_stats_request_eq_def)

text \<open>\<open>ofp_port_stats\<close>\<close>

record ofp_port_stats =
  ps_port_no :: int
  ps_rx_packets :: int
  ps_tx_packets :: int
  ps_rx_bytes :: int
  ps_tx_bytes :: int
  ps_rx_dropped :: int
  ps_tx_dropped :: int
  ps_rx_errors :: int
  ps_tx_errors :: int
  ps_rx_frame_err :: int
  ps_rx_over_err :: int
  ps_rx_crc_err :: int
  ps_collisions :: int

definition ofp_port_stats_init :: ofp_port_stats where
  "ofp_port_stats_init = \<lparr>ps_port_no = 0, ps_rx_packets = 0, ps_tx_packets = 0, ps_rx_bytes = 0, ps_tx_bytes = 0, ps_rx_dropped = 0, ps_tx_dropped = 0, ps_rx_errors = 0, ps_tx_errors = 0, ps_rx_frame_err = 0, ps_rx_over_err = 0, ps_rx_crc_err = 0, ps_collisions = 0\<rparr>"

definition ofp_port_stats_pack :: "ofp_port_stats \<Rightarrow> bytes option res" where
  "ofp_port_stats_pack a =
     rmap Some (rconcat
        [struct_pack [FH] [ps_port_no a],
         Inr (zeros 6),
         struct_pack [FQ, FQ, FQ, FQ, FQ, FQ, FQ, FQ, FQ, FQ, FQ, FQ] [ps_rx_packets a, ps_tx_packets a, ps_rx_bytes a, ps_tx_bytes a, ps_rx_dropped a, ps_tx_dropped a, ps_rx_errors a, ps_tx_errors a, ps_rx_frame_err a, ps_rx_over_err a, ps_rx_crc_err a, ps_collisions a]])"

definition ofp_port_stats_unpack :: "ofp_port_stats \<Rightarrow> bytes \<Rightarrow> (ofp_port_stats \<times> bytes) res" where
  "ofp_port_stats_unpack a b =
     (if length b < 104 then Inr (a, b)
      else rbind (struct_unpack_from [FH] b 0) (\<lambda>vs1.
           rbind (struct_unpack_from [FQ, FQ, FQ, FQ, FQ, FQ, FQ, FQ, FQ, FQ, FQ, FQ] b 8) (\<lambda>vs2.
           case (vs1, vs2) of
             ([port_no], [rx_packets, tx_packets, rx_bytes, tx_bytes, rx_dropped, tx_dropped, rx_errors, tx_errors, rx_frame_err, rx_over_err, rx_crc_err, collisions]) \<Rightarrow> Inr (a\<lparr>ps_port_no := port_no, ps_rx_packets := rx_packets, ps_tx_packets := tx_packets, ps_rx_bytes := rx_bytes, ps_tx_bytes := tx_bytes, ps_rx_dropped := rx_dropped, ps_tx_dropped := tx_dropped, ps_rx_errors := rx_errors, ps_tx_errors := tx_errors, ps_rx_frame_err := rx_frame_err, ps_rx_over_err := rx_over_err, ps_rx_crc_err := rx_crc_err, ps_collisions := collisions\<rparr>, drop 104 b)
           | _ \<Rightarrow> Inl ValueError)))"

definition ofp_port_stats_len :: "ofp_port_stats \<Rightarrow> int" where
  "ofp_port_stats_len a = 104"

definition ofp_port_stats_eq :: "ofp_port_stats \<Rightarrow> ofp_port_stats \<Rightarrow> bool" where
  "ofp_port_stats_eq a b \<longleftrightarrow> ps_port_no a = ps_port_no b
     \<and> ps_rx_packets a = ps_rx_packets b
     \<and> ps_tx_packets a = ps_tx_packets b
     \<and> ps_rx_bytes a = ps_rx_bytes b
     \<and> ps_tx_bytes a = ps_tx_bytes b
     \<and> ps_rx_dropped a = ps_rx_dropped b
     \<and> ps_tx_dropped a = ps_tx_dropped b
     \<and> ps_rx_errors a = ps_rx_errors b
     \<and> ps_tx_errors a = ps_tx_errors b
     \<and> ps_rx_frame_err a = ps_rx_frame_err b
     \<and> ps_rx_over_err a = ps_rx_over_err b
     \<and> ps_rx_crc_err a = ps_rx_crc_err b
     \<and> ps_collisions a = ps_collisions b"

lemma ofp_port_stats_wire:
  assumes "ofp_port_stats_pack a = Inr (Some b)"
  shows "length b = 104 \<and> ofp_port_stats_unpack y (b @ rest) = Inr (a, rest)"
proof -
  obtain p1 p2 where ps: 
      "struct_pack [FH] [ps_port_no a] = Inr p1"
      "struct_pack [FQ, FQ, FQ, FQ, FQ, FQ, FQ, FQ, FQ, FQ, FQ, FQ] [ps_rx_packets a, ps_tx_packets a, ps_rx_bytes a, ps_tx_bytes a, ps_rx_dropped a, ps_tx_dropped a, ps_rx_errors a, ps_tx_errors a, ps_rx_frame_err a, ps_rx_over_err a, ps_rx_crc_err a, ps_collisions a] = Inr p2"
    and b: "b = p1 @ zeros 6 @ p2"
    using assms by (auto simp: ofp_port_stats_pack_def res_simps)
  note l = ps [THEN struct_pack_length, simplified] and h = ps [THEN struct_unpack_from_hit]
  show ?thesis by (simp add: b l h ofp_port_stats_unpack_def struct_unpack_from_skip)
qed

lemma ofp_port_stats_eq_iff [simp]: "ofp_port_stats_eq a b \<longleftrightarrow> a = b"
  by (auto simp: ofp_port_stats_eq_def)

text \<open>\<open>ofp_port_stats.__add__\<close>\<close>

definition ofp_port_stats_add :: "ofp_port_stats \<Rightarrow> ofp_port_stats \<Rightarrow> ofp_port_stats" where
  "ofp_port_stats_add a b = \<lparr>ps_port_no = OFPP_NONE, ps_rx_packets = ps_rx_packets a + ps_rx_packets b, ps_tx_packets = ps_tx_packets a + ps_tx_packets b, ps_rx_bytes = ps_rx_bytes a + ps_rx_bytes b, ps_tx_bytes = ps_tx_bytes a + ps_tx_bytes b, ps_rx_dropped = ps_rx_dropped a + ps_rx_dropped b, ps_tx_dropped = ps_tx_dropped a + ps_tx_dropped b, ps_rx_errors = ps_rx_errors a + ps_rx_errors b, ps_tx_errors = ps_tx_errors a + ps_tx_errors b, ps_rx_frame_err = ps_rx_frame_err a + ps_rx_frame_err b, ps_rx_over_err = ps_rx_over_err a + ps_rx_over_err b, ps_rx_crc_err = ps_rx_crc_err a + ps_rx_crc_err b, ps_collisions = ps_collisions a + ps_collisions b\<rparr>"

text \<open>\<open>ofp_queue_stats_request\<close>\<close>

record ofp_queue_stats_request =
  qsr_port_no :: int
  qsr_queue_id :: int

definition ofp_queue_stats_request_init :: ofp_queue_stats_request where
  "ofp_queue_stats_request_init = \<lparr>qsr_port_no = 0, qsr_queue_id = 0\<rparr>"

definition ofp_queue_stats_request_pack :: "ofp_queue_stats_request \<Rightarrow> bytes option res" where
  "ofp_queue_stats_request_pack a =
     rmap Some (rconcat
        [struct_pack [FH] [qsr_port_no a],
         Inr (zeros 2),
         struct_pack [FL] [qsr_queue_id a]])"

definition ofp_queue_stats_request_unpack :: "ofp_queue_stats_request \<Rightarrow> bytes \<Rightarrow> (ofp_queue_stats_request \<times> bytes) res" where
  "ofp_queue_stats_request_unpack a b =
     (if length b < 8 then Inr (a, b)
      else rbind (struct_unpack_from [FH] b 0) (\<lambda>vs1.
           rbind (struct_unpack_from [FL] b 4) (\<lambda>vs2.
           case (vs1, vs2) of
             ([port_no], [queue_id]) \<Rightarrow> Inr (a\<lparr>qsr_port_no := port_no, qsr_queue_id := queue_id\<rparr>, drop 8 b)
           | _ \<Rightarrow> Inl ValueError)))"

definition ofp_queue_stats_request_len :: "ofp_queue_stats_request \<Rightarrow> int" where
  "ofp_queue_stats_request_len a = 8"

definition ofp_queue_stats_request_eq :: "ofp_queue_stats_request \<Rightarrow> ofp_queue_stats_request \<Rightarrow> bool" where
  "ofp_queue_stats_request_eq a b \<longleftrightarrow> qsr_port_no a = qsr_port_no b
     \<and> qsr_queue_id a = qsr_queue_id b"

lemma ofp_queue_stats_request_wire:
  assumes "ofp_queue_stats_request_pack a = Inr (Some b)"
  shows "length b = 8 \<and> ofp_queue_stats_request_unpack y (b @ rest) = Inr (a, rest)"
proof -
  obtain p1 p2 where ps: 
      "struct_pack [FH] [qsr_port_no a] = Inr p1"
      "struct_pack [FL] [qsr_queue_id a] = Inr p2"
    and b: "b = p1 @ zeros 2 @ p2"
    using assms by (auto simp: ofp_queue_stats_request_pack_def res_simps)
  note l = ps [THEN struct_pack_length, simplified] and h = ps [THEN struct_unpack_from_hit]
  show ?thesis by (simp add: b l h ofp_queue_stats_request_unpack_def struct_unpack_from_skip)
qed

lemma ofp_queue_stats_request_eq_iff [simp]: "ofp_queue_stats_request_eq a b \<longleftrightarrow> a = b"
  by (auto simp: ofp_queue_stats_request_eq_def)

text \<open>\<open>ofp_queue_stats\<close>\<close>

record ofp_queue_stats =
  qs_port_no :: int
  qs_queue_id :: int
  qs_tx_bytes :: int
  qs_tx_packets :: int
  qs_tx_errors :: int

definition ofp_queue_stats_init :: ofp_queue_stats where
  "ofp_queue_stats_init = \<lparr>qs_port_no = 0, qs_queue_id = 0, qs_tx_bytes = 0, qs_tx_packets = 0, qs_tx_errors = 0\<rparr>"

definition ofp_queue_stats_pack :: "ofp_queue_stats \<Rightarrow> bytes option res" where
  "ofp_queue_stats_pack a =
     rmap Some (rconcat
        [struct_pack [FH] [qs_port_no a],
         Inr (zeros 2),
         struct_pack [FL, FQ, FQ, FQ] [qs_queue_id a, qs_tx_bytes a, qs_tx_packets a, qs_tx_errors a]])"

definition ofp_queue_stats_unpack :: "ofp_queue_stats \<Rightarrow> bytes \<Rightarrow> (ofp_queue_stats \<times> bytes) res" where
  "ofp_queue_stats_unpack a b =
     (if length b < 32 then Inr (a, b)
      else rbind (struct_unpack_from [FH] b 0) (\<lambda>vs1.
           rbind (struct_unpack_from [FL, FQ, FQ, FQ] b 4) (\<lambda>vs2.
           case (vs1, vs2) of
             ([port_no], [queue_id, tx_bytes, tx_packets, tx_errors]) \<Rightarrow> Inr (a\<lparr>qs_port_no := port_no, qs_queue_id := queue_id, qs_tx_bytes := tx_bytes, qs_tx_packets := tx_packets, qs_tx_errors := tx_errors\<rparr>, drop 32 b)
           | _ \<Rightarrow> Inl ValueError)))"

definition ofp_queue_stats_len :: "ofp_queue_stats \<Rightarrow> int" where
  "ofp_queue_stats_len a = 32"

definition ofp_queue_stats_eq :: "ofp_queue_stats \<Rightarrow> ofp_queue_stats \<Rightarrow> bool" where
  "ofp_queue_stats_eq a b \<longleftrightarrow> qs_port_no a = qs_port_no b
     \<and> qs_queue_id a = qs_queue_id b
     \<and> qs_tx_bytes a = qs_tx_bytes b
     \<and> qs_tx_packets a = qs_tx_packets b
     \<and> qs_tx_errors a = qs_tx_errors b"

lemma ofp_queue_stats_wire:
  assumes "ofp_queue_stats_pack a = Inr (Some b)"
  shows "length b = 32 \<and> ofp_queue_stats_unpack y (b @ rest) = Inr (a, rest)"
proof -
  obtain p1 p2 where ps: 
      "struct_pack [FH] [qs_port_no a] = Inr p1"
      "struct_pack [FL, FQ, FQ, FQ] [qs_queue_id a, qs_tx_bytes a, qs_tx_packets a, qs_tx_errors a] = Inr p2"
    and b: "b = p1 @ zeros 2 @ p2"
    using assms by (auto simp: ofp_queue_stats_pack_def res_simps)
  note l = ps [THEN struct_pack_length, simplified] and h = ps [THEN struct_unpack_from_hit]
  show ?thesis by (simp add: b l h ofp_queue_stats_unpack_def struct_unpack_from_skip)
qed

lemma ofp_queue_stats_eq_iff [simp]: "ofp_queue_stats_eq a b \<longleftrightarrow> a = b"
  by (auto simp: ofp_queue_stats_eq_def)

end
