(* ===== verification/Of_Flow_Messages.thy ===== *)
theory Of_Flow_Messages
  imports Of_Messages
begin

text \<open>
  \<open>pox/openflow/libopenflow_01.py\<close>, the messages with variable parts: flow modifications,
  packets in and out, switch features, port status, flow removal, errors, echo and vendor
  messages, and the statistics messages with their bodies.  The lemmas show the wire round trips
  and where the code breaks them.
\<close>

section \<open>Flow modification\<close>

record ofp_flow_mod = ofp_header +
  fm_match :: ofp_match
  fm_cookie :: int
  fm_command :: int
  fm_idle_timeout :: int
  fm_hard_timeout :: int
  fm_priority :: int
  fm_buffer_id :: "int option"
  fm_out_port :: int
  fm_flags :: int
  fm_actions :: "ofp_action list"

definition ofp_flow_mod_init :: ofp_flow_mod where
  "ofp_flow_mod_init = \<lparr>version = OFP_VERSION, header_type = OFPT_FLOW_MOD, msg_len = 8, xid = None,
     fm_match = ofp_match_init, fm_cookie = 0, fm_command = OFPFC_ADD, fm_idle_timeout = 0,
     fm_hard_timeout = 0, fm_priority = OFP_DEFAULT_PRIORITY, fm_buffer_id = Some (- 1),
     fm_out_port = OFPP_NONE, fm_flags = 0, fm_actions = []\<rparr>"

definition ofp_flow_mod_len :: "ofp_flow_mod \<Rightarrow> int" where
  "ofp_flow_mod_len m = 32 + 40 + (\<Sum>a \<leftarrow> fm_actions m. action_len a)"

text \<open>
  \<open>pack\<close> writes the length into the header, and packing an output action clears its
  \<open>max_len\<close>.
\<close>

definition ofp_flow_mod_pack :: "bool \<Rightarrow> int \<Rightarrow> ofp_flow_mod \<Rightarrow> (bytes \<times> ofp_flow_mod \<times> int) res" where
  "ofp_flow_mod_pack assertstruct nx m =
     rmap (\<lambda>(b, m, nx). (b, m\<lparr>fm_actions := map action_after_pack (fm_actions m)\<rparr>, nx))
      (msg_pack nx (m\<lparr>msg_len := ofp_flow_mod_len m\<rparr>) (\<lambda>m.
         rconcat
           [ofp_match_pack True True (fm_match m),
            rbind (need TypeError (fm_buffer_id m)) (\<lambda>buf.
              struct_pack [FQ, FH, FH, FH, FH, FL, FH, FH]
                [fm_cookie m, fm_command m, fm_idle_timeout m, fm_hard_timeout m, fm_priority m,
                 buf AND 0xffffffff, fm_out_port m, fm_flags m]),
            pack_list (\<lambda>a. add_packed (action_pack assertstruct a)) (fm_actions m)]))"

definition ofp_flow_mod_unpack :: "ofp_flow_mod \<Rightarrow> bytes \<Rightarrow> (ofp_flow_mod \<times> bytes) res" where
  "ofp_flow_mod_unpack m b =
     (if length b < 72 then Inr (m, b)
      else rbind (ofp_header_unpack m b) (\<lambda>(m, _).
           rbind (ofp_match_unpack True (fm_match m) (drop 8 b)) (\<lambda>(mt, _).
           rbind (struct_unpack_from [FQ, FH, FH, FH, FH, FL, FH, FH] b 48) (\<lambda>vs. case vs of
             [cookie, command, idle, hard, prio, buf, outp, fl] \<Rightarrow>
               rbind (unpack_actions b (msg_len m - 72) 72) (\<lambda>(acts, offset).
               if int offset = msg_len m then
                 Inr (m\<lparr>fm_match := mt, fm_cookie := cookie, fm_command := command, fm_idle_timeout := idle,
                        fm_hard_timeout := hard, fm_priority := prio,
                        fm_buffer_id := Some (if buf = 0xffffffff then - 1 else buf),
                        fm_out_port := outp, fm_flags := fl, fm_actions := acts\<rparr>, drop offset b)
               else Inl AssertionError)
           | _ \<Rightarrow> Inl ValueError))))"

text \<open>\<open>__eq__\<close>, with lists of actions compared element by element\<close>

definition ofp_flow_mod_eq :: "ofp_flow_mod \<Rightarrow> ofp_flow_mod \<Rightarrow> bool res" where
  "ofp_flow_mod_eq a b =
     (if \<not> ofp_header_eq a b then Inr False
      else rmap (\<lambda>e. e \<and> fm_cookie a = fm_cookie b \<and> fm_command a = fm_command b
        \<and> fm_idle_timeout a = fm_idle_timeout b \<and> fm_hard_timeout a = fm_hard_timeout b
        \<and> fm_priority a = fm_priority b \<and> fm_buffer_id a = fm_buffer_id b
        \<and> fm_out_port a = fm_out_port b \<and> fm_flags a = fm_flags b
        \<and> list_all2 action_eq (fm_actions a) (fm_actions b))
       (ofp_match_eq (fm_match a) (fm_match b)))"

section \<open>Port modification and port status\<close>

record ofp_port_mod = ofp_header +
  pm_port_no :: int
  pm_hw_addr :: hwaddr
  pm_config :: int
  pm_mask :: int
  pm_advertise :: int

definition ofp_port_mod_init :: ofp_port_mod where
  "ofp_port_mod_init = \<lparr>version = OFP_VERSION, header_type = OFPT_PORT_MOD, msg_len = 32, xid = None,
     pm_port_no = 0, pm_hw_addr = HwEth EMPTY_ETH, pm_config = 0, pm_mask = 0, pm_advertise = 0\<rparr>"

text \<open>\<open>pack\<close> returns \<open>None\<close> when the address is not of size 6.\<close>

definition ofp_port_mod_pack :: "bool \<Rightarrow> int \<Rightarrow> ofp_port_mod \<Rightarrow> (bytes option \<times> ofp_port_mod \<times> int) res" where
  "ofp_port_mod_pack assertstruct nx m =
     (if assertstruct \<and> hw_len (pm_hw_addr m) \<noteq> 6 then Inr (None, m, nx)
      else rmap (\<lambda>(b, m, nx). (Some b, m, nx)) (msg_pack nx m (\<lambda>m.
        rconcat [struct_pack [FH] [pm_port_no m], Inr (hw_raw (pm_hw_addr m)),
                 struct_pack [FL, FL, FL] [pm_config m, pm_mask m, pm_advertise m], Inr (zeros 4)])))"

definition ofp_port_mod_unpack :: "ofp_port_mod \<Rightarrow> bytes \<Rightarrow> (ofp_port_mod \<times> bytes) res" where
  "ofp_port_mod_unpack m b =
     (if length b < 32 then Inr (m, b)
      else rbind (ofp_header_unpack m b) (\<lambda>(m, _).
           rbind (struct_unpack_from [FH] b 8) (\<lambda>v1.
           rbind (EthAddr_init (EthStr (bslice 10 16 b))) (\<lambda>e.
           rbind (struct_unpack_from [FL, FL, FL] b 16) (\<lambda>v2. case (v1, v2) of
             ([p], [c, k, a]) \<Rightarrow>
               Inr (m\<lparr>pm_port_no := p, pm_hw_addr := HwEth e, pm_config := c, pm_mask := k, pm_advertise := a\<rparr>, drop 32 b)
           | _ \<Rightarrow> Inl ValueError)))))"

lemma ofp_port_mod_wire:
  assumes "ofp_port_mod_pack s nx m = Inr (Some b, m', nx')" "eth_raw_ok (hw_raw (pm_hw_addr m))"
  shows "length b = 32 \<and> ofp_port_mod_unpack y (b @ rest)
    = Inr (m'\<lparr>pm_hw_addr := HwEth (EthAddr (hw_raw (pm_hw_addr m)))\<rparr>, rest)"
proof -
  obtain h p1 p2 where hd: "ofp_header_pack nx m = Inr (h, m', nx')"
    and ps: "struct_pack [FH] [pm_port_no m'] = Inr p1"
      "struct_pack [FL, FL, FL] [pm_config m', pm_mask m', pm_advertise m'] = Inr p2"
    and b: "b = h @ p1 @ hw_raw (pm_hw_addr m') @ p2 @ zeros 4"
    using assms(1) by (auto simp: ofp_port_mod_pack_def msg_pack_def res_simps
        simp del: ofp_header_pack_Inr split: if_split_asm)
  note l = ps [THEN struct_pack_length, simplified] ofp_header_pack_length [OF hd]
    and u = ofp_header_unpack_pack [OF hd] and s = ps [THEN struct_unpack_from_hit]
  have a: "pm_hw_addr m' = pm_hw_addr m"
    using hd by (auto simp: ofp_header_pack_Inr assign_xid_def split: option.splits prod.splits)
  have r: "length (hw_raw (pm_hw_addr m)) = 6" using assms(2) by (simp add: eth_raw_ok_def)
  show ?thesis
    by (simp add: b l u s a r ofp_port_mod_unpack_def struct_unpack_from_skip bslice_simps
        EthAddr_raw [OF assms(2)])
qed

record ofp_port_status = ofp_header +
  pst_reason :: int
  pst_desc :: ofp_phy_port

definition ofp_port_status_init :: ofp_port_status where
  "ofp_port_status_init = \<lparr>version = OFP_VERSION, header_type = OFPT_PORT_STATUS, msg_len = 64, xid = None,
     pst_reason = 0, pst_desc = ofp_phy_port_init\<rparr>"

definition ofp_port_status_pack :: "int \<Rightarrow> ofp_port_status \<Rightarrow> (bytes \<times> ofp_port_status \<times> int) res" where
  "ofp_port_status_pack nx m = msg_pack nx m (\<lambda>m.
     rconcat [struct_pack [FB] [pst_reason m], Inr (zeros 7), add_packed (ofp_phy_port_pack True (pst_desc m))])"

definition ofp_port_status_unpack :: "ofp_port_status \<Rightarrow> bytes \<Rightarrow> (ofp_port_status \<times> bytes) res" where
  "ofp_port_status_unpack m b =
     (if length b < 64 then Inr (m, b)
      else rbind (ofp_header_unpack m b) (\<lambda>(m, _).
           rbind (struct_unpack_from [FB] b 8) (\<lambda>v1. case v1 of
             [r] \<Rightarrow> rbind (ofp_phy_port_unpack (pst_desc m) (drop 16 b)) (\<lambda>(d, _).
                     Inr (m\<lparr>pst_reason := r, pst_desc := d\<rparr>, drop 64 b))
           | _ \<Rightarrow> Inl ValueError)))"

lemma ofp_port_status_wire:
  assumes "ofp_port_status_pack nx m = Inr (b, m', nx')" "ofp_phy_port_ok (pst_desc m)"
  shows "length b = 64 \<and> ofp_port_status_unpack y (b @ rest)
    = Inr (m'\<lparr>pst_desc := ofp_phy_port_norm (pst_desc m)\<rparr>, rest)"
proof -
  obtain h p1 p2 where hd: "ofp_header_pack nx m = Inr (h, m', nx')"
    and ps: "struct_pack [FB] [pst_reason m'] = Inr p1"
    and d: "add_packed (ofp_phy_port_pack True (pst_desc m')) = Inr p2"
    and b: "b = h @ p1 @ zeros 7 @ p2"
    using assms(1) by (auto simp: ofp_port_status_pack_def msg_pack_def rbind_eq_Inr rmap_eq_Inr)
  note l = struct_pack_length [OF ps, simplified] ofp_header_pack_length [OF hd]
    and u = ofp_header_unpack_pack [OF hd] and s = struct_unpack_from_hit [OF ps]
  have a: "pst_desc m' = pst_desc m"
    using hd by (auto simp: ofp_header_pack_Inr assign_xid_def split: option.splits prod.splits)
  have w: "length p2 = 48" "ofp_phy_port_unpack z (p2 @ rest) = Inr (ofp_phy_port_norm (pst_desc m), rest)" for z
    using ofp_phy_port_wire [of "pst_desc m" p2] d a assms(2) by auto
  show ?thesis by (simp add: b l u s w ofp_port_status_unpack_def struct_unpack_from_skip)
qed


text \<open>Packing a header keeps every other field of the message.\<close>

lemma ofp_header_pack_keeps:
  "ofp_header_pack nx m = Inr (h, m', nx') \<Longrightarrow> \<exists>x. m' = m\<lparr>xid := x\<rparr>"
  by (auto simp: ofp_header_pack_Inr assign_xid_def split: option.splits prod.splits)
    (metis ofp_header.surjective ofp_header.update_convs(4))+

lemma buffer_id_wire:
  "- 1 \<le> i \<Longrightarrow> i < 0xffffffff \<Longrightarrow>
     (if i AND 0xffffffff = 0xffffffff then - 1 else i AND 0xffffffff) = (i :: int)"
proof -
  assume i: "- 1 \<le> i" "i < 0xffffffff"
  show ?thesis
  proof (cases "i = - 1")
    case False
    then have "i mod 2 ^ 32 = i" using i by (intro mod_pos_pos_trivial) auto
    then show ?thesis using i False by (simp add: and_mask32)
  qed simp
qed

lemma ofp_flow_mod_wire:
  assumes pk: "ofp_flow_mod_pack True nx m = Inr (b, m', nx')"
    and acts: "list_all action_wf (fm_actions m)" and c: "match_consistent (fm_match m)"
    and id: "fm_buffer_id m = Some i" and buf: "- 1 \<le> i" "i < 0xffffffff"
  shows "int (length b) = ofp_flow_mod_len m \<and>
    ofp_flow_mod_unpack y (b @ rest) = Inr (m'\<lparr>fm_match := match_wire True (fm_match m),
      fm_actions := map action_norm (fm_actions m)\<rparr>, rest)"
proof -
  let ?m = "m\<lparr>msg_len := ofp_flow_mod_len m\<rparr>"
  obtain h mb p ab mh i' where hd: "ofp_header_pack nx ?m = Inr (h, mh, nx')"
    and i': "fm_buffer_id mh = Some i'"
    and mt: "ofp_match_pack True True (fm_match mh) = Inr mb"
    and ps: "struct_pack [FQ, FH, FH, FH, FH, FL, FH, FH]
              [fm_cookie mh, fm_command mh, fm_idle_timeout mh, fm_hard_timeout mh, fm_priority mh,
               i' AND 0xffffffff, fm_out_port mh, fm_flags mh] = Inr p"
    and a: "pack_list pack_action (fm_actions mh) = Inr ab"
    and b: "b = h @ mb @ p @ ab" and m': "m' = mh\<lparr>fm_actions := map action_after_pack (fm_actions mh)\<rparr>"
    using pk by (auto simp: ofp_flow_mod_pack_def msg_pack_def rbind_eq_Inr rmap_eq_Inr need_eq_Inr)
  obtain x where mh: "mh = ?m\<lparr>xid := x\<rparr>" using ofp_header_pack_keeps [OF hd] by blast
  then have [simp]: "i' = i" using i' id by simp
  have hw: "length (hw_field (get_dl_src (fm_match m))) = 6" "length (hw_field (get_dl_dst (fm_match m))) = 6"
    using c by (simp_all add: match_consistent_def)
  have M: "length mb = 40" "ofp_match_unpack True z (mb @ r) = Inr (match_wire True (fm_match m), r)" for z r
    using ofp_match_wire [OF mt] hw by (simp_all add: mh)
  note l = struct_pack_length [OF ps, simplified] ofp_header_pack_length [OF hd] M(1)
    and u = ofp_header_unpack_pack [OF hd] and s = struct_unpack_from_hit [OF ps]
  have al: "int (length ab) = (\<Sum>a \<leftarrow> fm_actions m. action_len a)"
    using pack_actions_length [OF acts] a by (simp add: mh)
  then have len: "ofp_flow_mod_len m - 72 = int (length ab)" by (simp add: ofp_flow_mod_len_def)
  have A: "unpack_actions (h @ mb @ p @ ab @ rest) (int (length ab)) 72 =
      Inr (map action_norm (fm_actions m), 72 + length ab)"
    using unpack_actions_packed [OF acts, of ab "h @ mb @ p" rest] a l by (simp add: mh)
  have w: "ofp_flow_mod_len m = 72 + int (length ab)" using len by simp
  show ?thesis
    by (simp add: buffer_id_wire [OF buf] b l u s A M(2) ofp_flow_mod_unpack_def struct_unpack_from_skip mh m' w id split del: if_split)
qed

text \<open>
  C3: A flow modification survives the wire, in these conditions: every action is well formed (of a class of the action table, with the length of its
  class; a vendor header is not), no field of the match is ignored by \<open>pack\<close> (\<open>match_consistent\<close>: addresses and protocol only with a type that
  has them, ports only with a protocol that has them), and the buffer is none or at most 0xfffffffe.  Then the bytes have the length written in the
  header, and unpacking them, followed by anything, gives the header, cookie, command, timeouts, priority, buffer, port and flags as they
  were, a match that compares equal, and the actions as packing leaves them (\<open>action_norm\<close>: the port limit of an output is filled in, the
  data of a header and the form of a hardware address are normalised).
\<close>

theorem flow_mod_roundtrip:
  assumes "ofp_flow_mod_pack True nx m = Inr (b, m', nx')"
    and "list_all action_wf (fm_actions m)" "match_consistent (fm_match m)"
    and "fm_buffer_id m = Some i" "- 1 \<le> i" "i < 0xffffffff"
  shows "\<exists>mt. ofp_flow_mod_unpack y (b @ rest) = Inr (m'\<lparr>fm_match := mt, fm_actions := map action_norm (fm_actions m)\<rparr>, rest)
    \<and> ofp_match_eq (fm_match m) mt = Inr True \<and> int (length b) = ofp_flow_mod_len m"
proof -
  obtain mb where "ofp_match_pack True True (fm_match m) = Inr mb"
    using assms(1) by (auto simp: ofp_flow_mod_pack_def msg_pack_def rbind_eq_Inr rmap_eq_Inr
        dest!: ofp_header_pack_keeps)
  then obtain ns nd where "fix_addr (attr_nw_src (fm_match m)) = Inr ns" "fix_addr (attr_nw_dst (fm_match m)) = Inr nd"
    by (auto simp: ofp_match_pack_def res_simps split: if_split_asm)
  then show ?thesis using ofp_flow_mod_wire [OF assms] match_wire_eq [OF assms(3)] by blast
qed


lemma match_init_consistent: "match_consistent ofp_match_init"
  by (simp add: match_consistent_def ofp_match_init_def match_get_defs wild_def attr_nw_src_eq
      attr_nw_dst_eq hw_field_def EMPTY_ETH_def eth_toRaw_def init_wildcards normalize_wildcards_def)

lemma match_init_pack_ok: "\<exists>b. ofp_match_pack True fm ofp_match_init = Inr b"
  by (cases fm)
    (simp_all add: ofp_match_pack_def ofp_match_init_def match_get_defs wild_def attr_nw_src_eq
      attr_nw_dst_eq hw_field_def ofp_match_assert_def or0_def check_ip_def check_ip_or_arp_def
      check_tp_def fix_addr_def wire_wildcards_def struct_pack.simps in_range_def init_wildcards)

theorem flow_mod_roundtrip_witness:
  "\<exists>b m' nx' mt. ofp_flow_mod_pack True 1 (ofp_flow_mod_init\<lparr>fm_actions := [ActVlanPcp ofp_action_vlan_pcp_init]\<rparr>) = Inr (b, m', nx')
     \<and> ofp_flow_mod_unpack ofp_flow_mod_init (b @ [9])
         = Inr (m'\<lparr>fm_match := mt, fm_actions := [ActVlanPcp ofp_action_vlan_pcp_init]\<rparr>, [9])
     \<and> ofp_match_eq ofp_match_init mt = Inr True"
proof -
  let ?m = "ofp_flow_mod_init\<lparr>fm_actions := [ActVlanPcp ofp_action_vlan_pcp_init]\<rparr>"
  obtain mb where mb: "ofp_match_pack True True ofp_match_init = Inr mb" using match_init_pack_ok by blast
  have "\<exists>b m' nx'. ofp_flow_mod_pack True 1 ?m = Inr (b, m', nx')"
    by (simp add: ofp_flow_mod_pack_def msg_pack_def ofp_flow_mod_init_def ofp_header_pack_def
        assign_xid_def ofp_header_assert_def ofp_type_known_iff generateXID_def Let_def ofp_flow_mod_len_def
        mb ofp_action_vlan_pcp_pack_def ofp_action_vlan_pcp_init_def ofp_action_vlan_pcp_len_def
        struct_pack.simps in_range_def)
  then obtain b m' nx' where p: "ofp_flow_mod_pack True 1 ?m = Inr (b, m', nx')" by blast
  have "list_all action_wf (fm_actions ?m)" "match_consistent (fm_match ?m)"
    "fm_buffer_id ?m = Some (- 1)" "- 1 \<le> (- 1 :: int)" "(- 1 :: int) < 0xffffffff"
    by (simp_all add: ofp_flow_mod_init_def ofp_action_vlan_pcp_init_def match_init_consistent)
  from flow_mod_roundtrip [OF p this, of ofp_flow_mod_init "[9]"] p
  show ?thesis by (auto simp: ofp_flow_mod_init_def)
qed

section \<open>Packets in and out\<close>

record ofp_packet_out = ofp_header +
  po_buffer_id :: int
  po_in_port :: int
  po_actions :: "ofp_action list"
  po_data :: bytes

definition ofp_packet_out_init :: ofp_packet_out where
  "ofp_packet_out_init = \<lparr>version = OFP_VERSION, header_type = OFPT_PACKET_OUT, msg_len = 8, xid = None,
     po_buffer_id = - 1, po_in_port = OFPP_NONE, po_actions = [], po_data = []\<rparr>"

text \<open>\<open>_set_data\<close>: \<open>None\<close>, bytes, or a packet, which is packed\<close>

definition set_data :: "subs \<Rightarrow> packet \<Rightarrow> bytes res" where
  "set_data sb data =
     (case data of
        NoNext \<Rightarrow> Inr [] | NoAttr \<Rightarrow> Inr [] | Bytes b \<Rightarrow> Inr b
      | p \<Rightarrow> rmap fst (packet_pack sb None p))"

definition ofp_packet_out_pack :: "bool \<Rightarrow> int \<Rightarrow> ofp_packet_out \<Rightarrow> (bytes \<times> ofp_packet_out \<times> int) res" where
  "ofp_packet_out_pack assertstruct nx m =
     (if assertstruct \<and> po_buffer_id m \<noteq> - 1 \<and> po_data m \<noteq> [] then Inl RuntimeError
      else rbind (pack_list (\<lambda>a. add_packed (action_pack assertstruct a)) (po_actions m)) (\<lambda>acts.
        rmap (\<lambda>(b, m, nx). (b, m\<lparr>po_actions := map action_after_pack (po_actions m)\<rparr>, nx))
          (msg_pack nx (m\<lparr>msg_len := 16 + int (length acts) + int (length (po_data m))\<rparr>) (\<lambda>m.
             rconcat [struct_pack [FL, FH, FH] [po_buffer_id m AND 0xffffffff, po_in_port m, int (length acts)],
                      Inr acts, Inr (po_data m)]))))"

definition ofp_packet_out_unpack :: "ofp_packet_out \<Rightarrow> bytes \<Rightarrow> (ofp_packet_out \<times> bytes) res" where
  "ofp_packet_out_unpack m b =
     (if length b < 16 then Inr (m, b)
      else rbind (ofp_header_unpack m b) (\<lambda>(m, _).
           rbind (struct_unpack_from [FL, FH, FH] b 8) (\<lambda>vs. case vs of
             [buf, inp, alen] \<Rightarrow>
               rbind (unpack_actions b alen 16) (\<lambda>(acts, offset).
               Inr (m\<lparr>po_buffer_id := (if buf = 0xffffffff then - 1 else buf), po_in_port := inp,
                      po_actions := acts,
                      po_data := (if int offset < msg_len m then bslice offset (nat (msg_len m)) b else [])\<rparr>,
                    drop (nat (msg_len m)) b))
           | _ \<Rightarrow> Inl ValueError)))"

definition ofp_packet_out_len :: "ofp_packet_out \<Rightarrow> int" where
  "ofp_packet_out_len m = 16 + (\<Sum>a \<leftarrow> po_actions m. action_len a) + int (length (po_data m))"

record ofp_packet_in = ofp_header +
  pi_in_port :: int
  pi_buffer_id :: int
  pi_reason :: int
  pi_data :: bytes
  pi_total_len :: int

definition ofp_packet_in_init :: ofp_packet_in where
  "ofp_packet_in_init = \<lparr>version = OFP_VERSION, header_type = OFPT_PACKET_IN, msg_len = 8, xid = None,
     pi_in_port = OFPP_NONE, pi_buffer_id = - 1, pi_reason = 0, pi_data = [], pi_total_len = 0\<rparr>"

definition ofp_packet_in_len :: "ofp_packet_in \<Rightarrow> int" where
  "ofp_packet_in_len m = 18 + int (length (pi_data m))"

definition ofp_packet_in_pack :: "int \<Rightarrow> ofp_packet_in \<Rightarrow> (bytes \<times> ofp_packet_in \<times> int) res" where
  "ofp_packet_in_pack nx m =
     (let m = m\<lparr>msg_len := ofp_packet_in_len m, pi_total_len := ofp_packet_in_len m\<rparr> in
      msg_pack nx m (\<lambda>m.
        rconcat [struct_pack [FL, FH, FH, FB, FB]
                   [pi_buffer_id m AND 0xffffffff, pi_total_len m, pi_in_port m, pi_reason m, 0],
                 Inr (pi_data m)]))"

definition ofp_packet_in_unpack :: "ofp_packet_in \<Rightarrow> bytes \<Rightarrow> (ofp_packet_in \<times> bytes) res" where
  "ofp_packet_in_unpack m b =
     (if length b < 18 then Inr (m, b)
      else rbind (ofp_header_unpack m b) (\<lambda>(m, _).
           rbind (struct_unpack_from [FL, FH, FH, FB, FB] b 8) (\<lambda>vs. case vs of
             [buf, tot, inp, r, pad] \<Rightarrow>
               (let m = m\<lparr>pi_buffer_id := (if buf = 0xffffffff then - 1 else buf), pi_total_len := tot,
                          pi_in_port := inp, pi_reason := r\<rparr> in
                if int (length b) < msg_len m then Inr (m, b)
                else Inr (m\<lparr>pi_data := bslice 18 (nat (msg_len m)) b\<rparr>, drop (nat (msg_len m)) b))
           | _ \<Rightarrow> Inl ValueError)))"

lemma ofp_packet_in_wire:
  assumes pk: "ofp_packet_in_pack nx m = Inr (b, m', nx')"
    and buf: "- 1 \<le> pi_buffer_id m" "pi_buffer_id m < 0xffffffff"
  shows "int (length b) = ofp_packet_in_len m \<and> ofp_packet_in_unpack y (b @ rest) = Inr (m', rest)"
proof -
  let ?m = "m\<lparr>msg_len := ofp_packet_in_len m, pi_total_len := ofp_packet_in_len m\<rparr>"
  obtain h p where hd: "ofp_header_pack nx ?m = Inr (h, m', nx')"
    and ps: "struct_pack [FL, FH, FH, FB, FB]
        [pi_buffer_id m' AND 0xffffffff, pi_total_len m', pi_in_port m', pi_reason m', 0] = Inr p"
    and b: "b = h @ p @ pi_data m'"
    using pk by (auto simp: ofp_packet_in_pack_def Let_def msg_pack_def rbind_eq_Inr rmap_eq_Inr)
  obtain x where m': "m' = ?m\<lparr>xid := x\<rparr>" using ofp_header_pack_keeps [OF hd] by blast
  note l = struct_pack_length [OF ps, simplified] ofp_header_pack_length [OF hd]
    and u = ofp_header_unpack_pack [OF hd] and s = struct_unpack_from_hit [OF ps]
  have nl: "nat (18 + int (length (pi_data m))) = 18 + length (pi_data m)" by simp
  show ?thesis
    by (simp add: buffer_id_wire [OF buf] b l u s ofp_packet_in_unpack_def struct_unpack_from_skip m'
        ofp_packet_in_len_def nl Let_def bslice_def split del: if_split)
qed


text \<open>
  a packet handed to the controller survives the wire: the \<open>packet_in\<close> that \<open>pack\<close>
  produces is unpacked to the same message, data and buffer identifier included, and its
  header length is the number of bytes sent.
\<close>

theorem packet_in_roundtrip:
  assumes "ofp_packet_in_pack nx m = Inr (b, m', nx')"
    and "- 1 \<le> pi_buffer_id m" "pi_buffer_id m < 0xffffffff"
  shows "ofp_packet_in_unpack y (b @ rest) = Inr (m', rest) \<and> msg_len m' = int (length b) \<and> pi_data m' = pi_data m"
proof -
  have "msg_len m' = ofp_packet_in_len m \<and> pi_data m' = pi_data m"
    using assms(1) by (auto simp: ofp_packet_in_pack_def Let_def msg_pack_def rbind_eq_Inr rmap_eq_Inr
        dest!: ofp_header_pack_keeps)
  then show ?thesis using ofp_packet_in_wire [OF assms] by simp
qed

theorem packet_in_roundtrip_witness:
  "\<exists>b m' nx'. ofp_packet_in_pack 5 (ofp_packet_in_init\<lparr>pi_data := [1, 2, 3], pi_buffer_id := 7\<rparr>) = Inr (b, m', nx')
     \<and> ofp_packet_in_unpack ofp_packet_in_init (b @ [4]) = Inr (m', [4]) \<and> pi_data m' = [1, 2, 3]"
proof -
  let ?m = "ofp_packet_in_init\<lparr>pi_data := [1, 2, 3], pi_buffer_id := 7\<rparr>"
  have "\<exists>b m' nx'. ofp_packet_in_pack 5 ?m = Inr (b, m', nx')"
    by (simp add: ofp_packet_in_pack_def msg_pack_def ofp_packet_in_init_def ofp_header_pack_def
        assign_xid_def ofp_header_assert_def ofp_type_known_iff generateXID_def Let_def ofp_packet_in_len_def
        struct_pack.simps in_range_def)
  then obtain b m' nx' where p: "ofp_packet_in_pack 5 ?m = Inr (b, m', nx')" by blast
  from packet_in_roundtrip [OF p, of ofp_packet_in_init "[4]"] p
  show ?thesis by (auto simp: ofp_packet_in_init_def)
qed

lemma ofp_packet_out_wire:
  assumes pk: "ofp_packet_out_pack True nx m = Inr (b, m', nx')"
    and acts: "list_all action_wf (po_actions m)"
    and buf: "- 1 \<le> po_buffer_id m" "po_buffer_id m < 0xffffffff"
  shows "int (length b) = ofp_packet_out_len m \<and>
    ofp_packet_out_unpack y (b @ rest) = Inr (m'\<lparr>po_actions := map action_norm (po_actions m)\<rparr>, rest)"
proof -
  obtain ab where a: "pack_list pack_action (po_actions m) = Inr ab"
    using pk by (auto simp: ofp_packet_out_pack_def rbind_eq_Inr split: if_split_asm)
  let ?m = "m\<lparr>msg_len := 16 + int (length ab) + int (length (po_data m))\<rparr>"
  obtain h p mh where hd: "ofp_header_pack nx ?m = Inr (h, mh, nx')"
    and ps: "struct_pack [FL, FH, FH] [po_buffer_id mh AND 0xffffffff, po_in_port mh, int (length ab)] = Inr p"
    and b: "b = h @ p @ ab @ po_data mh" and m': "m' = mh\<lparr>po_actions := map action_after_pack (po_actions mh)\<rparr>"
    using pk a by (auto simp: ofp_packet_out_pack_def msg_pack_def rbind_eq_Inr rmap_eq_Inr split: if_split_asm)
  obtain x where mh: "mh = ?m\<lparr>xid := x\<rparr>" using ofp_header_pack_keeps [OF hd] by blast
  note l = struct_pack_length [OF ps, simplified] ofp_header_pack_length [OF hd]
    and u = ofp_header_unpack_pack [OF hd] and s = struct_unpack_from_hit [OF ps]
  have al: "(\<Sum>a \<leftarrow> po_actions m. action_len a) = int (length ab)"
    using pack_actions_length [OF acts a] by simp
  have A: "unpack_actions (h @ p @ ab @ po_data m @ rest) (int (length ab)) 16 =
      Inr (map action_norm (po_actions m), 16 + length ab)"
    using unpack_actions_packed [OF acts a, of "h @ p" "po_data m @ rest"] l by simp
  have nl: "nat (16 + int (length ab) + int (length (po_data m))) = 16 + length ab + length (po_data m)" by simp
  have D: "bslice (16 + length ab) (nat (16 + int (length ab) + int (length (po_data m))))
      (h @ p @ ab @ po_data m @ rest) = po_data m"
    unfolding nl by (simp add: bslice_def l)
  show ?thesis
    by (simp add: buffer_id_wire [OF buf] b l u s A ofp_packet_out_unpack_def struct_unpack_from_skip mh m'
        ofp_packet_out_len_def al D split del: if_split)
      (auto simp: nl l D [unfolded nl] split: if_splits)
qed


section \<open>Switch features\<close>

record ofp_features_reply = ofp_header +
  fr_datapath_id :: int
  fr_n_buffers :: int
  fr_n_tables :: int
  fr_capabilities :: int
  fr_actions :: int
  fr_ports :: "ofp_phy_port list"

definition ofp_features_reply_len :: "'a ofp_features_reply_scheme \<Rightarrow> int" where
  "ofp_features_reply_len m = 32 + 48 * int (length (fr_ports m))"

text \<open>The constructor sets the length after the keywords.\<close>

definition ofp_features_reply_init :: "int \<Rightarrow> int \<Rightarrow> int \<Rightarrow> int \<Rightarrow> int \<Rightarrow> ofp_phy_port list \<Rightarrow> ofp_features_reply" where
  "ofp_features_reply_init dpid n_buffers n_tables capabilities actions ports =
     (let m = \<lparr>version = OFP_VERSION, header_type = OFPT_FEATURES_REPLY, msg_len = 8, xid = None,
        fr_datapath_id = dpid, fr_n_buffers = n_buffers, fr_n_tables = n_tables,
        fr_capabilities = capabilities, fr_actions = actions, fr_ports = ports\<rparr>
      in m\<lparr>msg_len := ofp_features_reply_len m\<rparr>)"

definition ofp_features_reply_pack :: "bool \<Rightarrow> int \<Rightarrow> ofp_features_reply \<Rightarrow> (bytes \<times> ofp_features_reply \<times> int) res" where
  "ofp_features_reply_pack assertstruct nx m = msg_pack nx m (\<lambda>m.
     rconcat [struct_pack [FQ, FL, FB] [fr_datapath_id m, fr_n_buffers m, fr_n_tables m],
              Inr (zeros 3),
              struct_pack [FL, FL] [fr_capabilities m, fr_actions m],
              pack_list (\<lambda>p. add_packed (ofp_phy_port_pack assertstruct p)) (fr_ports m)])"

definition ofp_features_reply_unpack :: "ofp_features_reply \<Rightarrow> bytes \<Rightarrow> (ofp_features_reply \<times> bytes) res" where
  "ofp_features_reply_unpack m b =
     (if length b < 32 then Inr (m, b)
      else rbind (ofp_header_unpack m b) (\<lambda>(m, _).
           rbind (struct_unpack_from [FQ, FL, FB] b 8) (\<lambda>v1.
           rbind (struct_unpack_from [FL, FL] b 24) (\<lambda>v2. case (v1, v2) of
             ([dpid, nb, nt], [cap, act]) \<Rightarrow>
               rbind (rmapM (\<lambda>i. rmap fst (ofp_phy_port_unpack ofp_phy_port_init (drop (32 + i * 48) b)))
                       [0 ..< nat ((msg_len m - 32) div 48)]) (\<lambda>ports.
               Inr (m\<lparr>fr_datapath_id := dpid, fr_n_buffers := nb, fr_n_tables := nt, fr_capabilities := cap,
                      fr_actions := act, fr_ports := ports\<rparr>, drop (nat (msg_len m)) b))
           | _ \<Rightarrow> Inl ValueError))))"

lemma unpack_ports_at:
  assumes "list_all ofp_phy_port_ok ps" "pack_list (\<lambda>p. add_packed (ofp_phy_port_pack True p)) ps = Inr b"
  shows "rmapM (\<lambda>i. rmap fst (ofp_phy_port_unpack y (drop (i * 48) (b @ rest)))) [0 ..< length ps]
    = Inr (map ofp_phy_port_norm ps)"
proof -
  have "rmapM (\<lambda>i. rmap fst (ofp_phy_port_unpack y (drop (i * 48) (b @ rest)))) is
      = Inr (map (\<lambda>i. ofp_phy_port_norm (ps ! i)) is)" if "\<forall>i \<in> set is. i < length ps" for "is"
    using that
  proof (induction "is")
    case (Cons i "is")
    then obtain r where "ofp_phy_port_unpack y (drop (i * 48) (b @ rest)) = Inr (ofp_phy_port_norm (ps ! i), r)"
      using phy_port.sequence_at [OF assms, of i 48 y rest] by (auto simp: ofp_phy_port_len_def)
    then show ?case using Cons by simp
  qed simp
  then show ?thesis by (simp add: map_nth map_equality_iff)
qed

text \<open>
  the switch's description survives the wire: a features reply built by the constructor, with any
  number of ports whose names and addresses are representable, is unpacked with the same ports.
\<close>

theorem features_reply_roundtrip:
  assumes pk: "ofp_features_reply_pack True nx (ofp_features_reply_init d nb nt cap act ps) = Inr (b, m', nx')"
    and ok: "list_all ofp_phy_port_ok ps"
  shows "ofp_features_reply_unpack y (b @ rest) = Inr (m'\<lparr>fr_ports := map ofp_phy_port_norm ps\<rparr>, rest)
    \<and> msg_len m' = int (length b)"
proof -
  let ?m = "ofp_features_reply_init d nb nt cap act ps"
  obtain h p1 p2 pb where hd: "ofp_header_pack nx ?m = Inr (h, m', nx')"
    and ps: "struct_pack [FQ, FL, FB] [fr_datapath_id m', fr_n_buffers m', fr_n_tables m'] = Inr p1"
      "struct_pack [FL, FL] [fr_capabilities m', fr_actions m'] = Inr p2"
    and pp: "pack_list (\<lambda>p. add_packed (ofp_phy_port_pack True p)) (fr_ports m') = Inr pb"
    and b: "b = h @ p1 @ zeros 3 @ p2 @ pb"
    using pk by (auto simp: ofp_features_reply_pack_def msg_pack_def rbind_eq_Inr rmap_eq_Inr)
  obtain x where m': "m' = ?m\<lparr>xid := x\<rparr>" using ofp_header_pack_keeps [OF hd] by blast
  have fp: "fr_ports m' = ps" "msg_len m' = 32 + 48 * int (length ps)"
    by (simp_all add: m' ofp_features_reply_init_def Let_def ofp_features_reply_len_def)
  note l = ps [THEN struct_pack_length, simplified] ofp_header_pack_length [OF hd]
    and u = ofp_header_unpack_pack [OF hd] and s = ps [THEN struct_unpack_from_hit]
  have lb: "length pb = 48 * length ps"
    using phy_port.sequence_width [OF ok, of pb] pp fp
    by (simp add: ofp_phy_port_len_def sum_list_triv)
  have cnt: "nat ((msg_len m' - 32) div 48) = length ps" using fp by simp
  have P: "rmapM (\<lambda>i. rmap fst (ofp_phy_port_unpack ofp_phy_port_init (drop (i * 48) pb @ drop (i * 48 - length pb) rest)))
      [0 ..< length ps] = Inr (map ofp_phy_port_norm ps)"
    using unpack_ports_at [OF ok, of pb ofp_phy_port_init rest] pp fp by simp
  have nl: "nat (msg_len m') = 32 + length pb" using fp lb by simp
  have "ofp_features_reply_unpack y (b @ rest) = Inr (m'\<lparr>fr_ports := map ofp_phy_port_norm ps\<rparr>, rest)"
    by (simp add: b l u s ofp_features_reply_unpack_def struct_unpack_from_skip cnt P nl)
  then show ?thesis using fp lb by (simp add: b l)
qed

section \<open>Flow removal, errors, echo and vendor messages\<close>

record ofp_flow_removed = ofp_header +
  frm_match :: ofp_match
  frm_cookie :: int
  frm_priority :: int
  frm_reason :: int
  frm_duration_sec :: int
  frm_duration_nsec :: int
  frm_idle_timeout :: int
  frm_packet_count :: int
  frm_byte_count :: int

definition ofp_flow_removed_init :: ofp_flow_removed where
  "ofp_flow_removed_init = \<lparr>version = OFP_VERSION, header_type = OFPT_FLOW_REMOVED, msg_len = 88, xid = None,
     frm_match = ofp_match_init, frm_cookie = 0, frm_priority = 0, frm_reason = 0, frm_duration_sec = 0,
     frm_duration_nsec = 0, frm_idle_timeout = 0, frm_packet_count = 0, frm_byte_count = 0\<rparr>"

definition ofp_flow_removed_pack :: "int \<Rightarrow> ofp_flow_removed \<Rightarrow> (bytes \<times> ofp_flow_removed \<times> int) res" where
  "ofp_flow_removed_pack nx m = msg_pack nx m (\<lambda>m.
     rconcat [ofp_match_pack True False (frm_match m),
              struct_pack [FQ, FH, FB] [frm_cookie m, frm_priority m, frm_reason m],
              Inr (zeros 1),
              struct_pack [FL, FL, FH] [frm_duration_sec m, frm_duration_nsec m, frm_idle_timeout m],
              Inr (zeros 2),
              struct_pack [FQ, FQ] [frm_packet_count m, frm_byte_count m]])"

definition ofp_flow_removed_unpack :: "ofp_flow_removed \<Rightarrow> bytes \<Rightarrow> (ofp_flow_removed \<times> bytes) res" where
  "ofp_flow_removed_unpack m b =
     (if length b < 88 then Inr (m, b)
      else rbind (ofp_header_unpack m b) (\<lambda>(m, _).
           rbind (ofp_match_unpack False (frm_match m) (drop 8 b)) (\<lambda>(mt, _).
           rbind (struct_unpack_from [FQ, FH, FB] b 48) (\<lambda>v1.
           rbind (struct_unpack_from [FL, FL, FH] b 60) (\<lambda>v2.
           rbind (struct_unpack_from [FQ, FQ] b 72) (\<lambda>v3. case (v1, v2, v3) of
             ([c, p, r], [ds, dn, it], [pc, bc]) \<Rightarrow>
               Inr (m\<lparr>frm_match := mt, frm_cookie := c, frm_priority := p, frm_reason := r, frm_duration_sec := ds,
                      frm_duration_nsec := dn, frm_idle_timeout := it, frm_packet_count := pc,
                      frm_byte_count := bc\<rparr>, drop 88 b)
           | _ \<Rightarrow> Inl ValueError))))))"

lemma ofp_flow_removed_wire:
  assumes pk: "ofp_flow_removed_pack nx m = Inr (b, m', nx')"
    and hw: "length (hw_field (get_dl_src (frm_match m))) = 6" "length (hw_field (get_dl_dst (frm_match m))) = 6"
  shows "length b = 88 \<and> ofp_flow_removed_unpack y (b @ rest) = Inr (m'\<lparr>frm_match := match_wire False (frm_match m)\<rparr>, rest)"
proof -
  obtain h mb p1 p2 p3 where hd: "ofp_header_pack nx m = Inr (h, m', nx')"
    and mt: "ofp_match_pack True False (frm_match m') = Inr mb"
    and ps: "struct_pack [FQ, FH, FB] [frm_cookie m', frm_priority m', frm_reason m'] = Inr p1"
      "struct_pack [FL, FL, FH] [frm_duration_sec m', frm_duration_nsec m', frm_idle_timeout m'] = Inr p2"
      "struct_pack [FQ, FQ] [frm_packet_count m', frm_byte_count m'] = Inr p3"
    and b: "b = h @ mb @ p1 @ zeros 1 @ p2 @ zeros 2 @ p3"
    using pk by (auto simp: ofp_flow_removed_pack_def msg_pack_def rbind_eq_Inr rmap_eq_Inr)
  obtain x where m': "m' = m\<lparr>xid := x\<rparr>" using ofp_header_pack_keeps [OF hd] by blast
  have M: "length mb = 40" "ofp_match_unpack False z (mb @ r) = Inr (match_wire False (frm_match m), r)" for z r
    using ofp_match_wire [OF mt] hw by (simp_all add: m')
  note l = ps [THEN struct_pack_length, simplified] ofp_header_pack_length [OF hd] M(1)
    and u = ofp_header_unpack_pack [OF hd] and s = ps [THEN struct_unpack_from_hit]
  have z: "length (zeros 1) = 1" by simp
  show ?thesis
    by (simp add: b l u s M(2) z ofp_flow_removed_unpack_def struct_unpack_from_skip m' del: One_nat_def)
qed

text \<open>\<open>ofp_error\<close>: \<open>data\<close> is a list of numbers, which \<open>unpack\<close> does not read back.\<close>

record ofp_error = ofp_header +
  err_type :: int
  err_code :: int
  err_data :: "int list"

definition ofp_error_init :: ofp_error where
  "ofp_error_init = \<lparr>version = OFP_VERSION, header_type = OFPT_ERROR, msg_len = 8, xid = None,
     err_type = 0, err_code = 0, err_data = []\<rparr>"

definition ofp_error_len :: "ofp_error \<Rightarrow> int" where
  "ofp_error_len m = 12 + int (length (err_data m))"

definition ofp_error_pack :: "int \<Rightarrow> ofp_error \<Rightarrow> (bytes \<times> ofp_error \<times> int) res" where
  "ofp_error_pack nx m = msg_pack nx (m\<lparr>msg_len := ofp_error_len m\<rparr>) (\<lambda>m.
     rconcat [struct_pack [FH, FH] [err_type m, err_code m],
              pack_list (\<lambda>i. struct_pack [FB] [i]) (err_data m)])"

definition ofp_error_unpack :: "ofp_error \<Rightarrow> bytes \<Rightarrow> (ofp_error \<times> bytes) res" where
  "ofp_error_unpack m b =
     (if length b < 12 then Inr (m, b)
      else rbind (ofp_header_unpack m b) (\<lambda>(m, _).
           rbind (struct_unpack_from [FH, FH] b 8) (\<lambda>vs. case vs of
             [t, c] \<Rightarrow> Inr (m\<lparr>err_type := t, err_code := c\<rparr>, drop 12 b)
           | _ \<Rightarrow> Inl ValueError)))"

text \<open>\<open>ofp_echo_request\<close> and \<open>ofp_echo_reply\<close>: \<open>pack\<close> does not update the length.\<close>

record ofp_echo = ofp_header +
  echo_body :: bytes

definition ofp_echo_request_init :: ofp_echo where
  "ofp_echo_request_init = \<lparr>version = OFP_VERSION, header_type = OFPT_ECHO_REQUEST, msg_len = 8, xid = None, echo_body = []\<rparr>"

definition ofp_echo_reply_init :: ofp_echo where
  "ofp_echo_reply_init = \<lparr>version = OFP_VERSION, header_type = OFPT_ECHO_REPLY, msg_len = 8, xid = None, echo_body = []\<rparr>"

definition ofp_echo_pack :: "int \<Rightarrow> ofp_echo \<Rightarrow> (bytes \<times> ofp_echo \<times> int) res" where
  "ofp_echo_pack nx m = msg_pack nx m (\<lambda>m. Inr (echo_body m))"

definition ofp_echo_unpack :: "ofp_echo \<Rightarrow> bytes \<Rightarrow> (ofp_echo \<times> bytes) res" where
  "ofp_echo_unpack m b =
     (if length b < 8 then Inr (m, b)
      else rbind (ofp_header_unpack m b) (\<lambda>(m, _).
           if int (length b) < msg_len m then Inr (m, b)
           else Inr (m\<lparr>echo_body := bslice 8 (nat (msg_len m)) b\<rparr>, drop (nat (msg_len m)) b)))"

definition ofp_echo_len :: "ofp_echo \<Rightarrow> int" where
  "ofp_echo_len m = 8 + int (length (echo_body m))"

text \<open>\<open>ofp_vendor\<close> with raw data\<close>

record ofp_vendor = ofp_header +
  vnd_vendor :: int
  vnd_data :: bytes

definition ofp_vendor_init :: ofp_vendor where
  "ofp_vendor_init = \<lparr>version = OFP_VERSION, header_type = OFPT_VENDOR, msg_len = 12, xid = None, vnd_vendor = 0, vnd_data = []\<rparr>"

definition ofp_vendor_pack :: "int \<Rightarrow> ofp_vendor \<Rightarrow> (bytes \<times> ofp_vendor \<times> int) res" where
  "ofp_vendor_pack nx m = msg_pack nx (m\<lparr>msg_len := 12 + int (length (vnd_data m))\<rparr>) (\<lambda>m.
     rconcat [struct_pack [FL] [vnd_vendor m], Inr (vnd_data m)])"

definition ofp_vendor_unpack :: "ofp_vendor \<Rightarrow> bytes \<Rightarrow> (ofp_vendor \<times> bytes) res" where
  "ofp_vendor_unpack m b =
     (if length b < 12 then Inr (m, b)
      else rbind (ofp_header_unpack m b) (\<lambda>(m, _).
           rbind (struct_unpack_from [FL] b 8) (\<lambda>vs. case vs of
             [v] \<Rightarrow> (let m = m\<lparr>vnd_vendor := v\<rparr> in
                     if int (length b) < msg_len m then Inr (m, b)
                     else Inr (m\<lparr>vnd_data := bslice 12 (nat (msg_len m)) b\<rparr>, drop (nat (msg_len m)) b))
           | _ \<Rightarrow> Inl ValueError)))"


theorem features_reply_roundtrip_witness:
  "\<exists>b m' nx'. ofp_features_reply_pack True 5 (ofp_features_reply_init 1 2 3 4 5 [ofp_phy_port_init]) = Inr (b, m', nx')
     \<and> ofp_features_reply_unpack (ofp_features_reply_init 0 0 0 0 0 []) (b @ [7])
         = Inr (m'\<lparr>fr_ports := [ofp_phy_port_norm ofp_phy_port_init]\<rparr>, [7])"
proof -
  let ?m = "ofp_features_reply_init 1 2 3 4 5 [ofp_phy_port_init]"
  have "\<exists>b m' nx'. ofp_features_reply_pack True 5 ?m = Inr (b, m', nx')"
    by (simp add: ofp_features_reply_pack_def msg_pack_def ofp_features_reply_init_def ofp_header_pack_def
        assign_xid_def ofp_header_assert_def ofp_type_known_iff generateXID_def Let_def
        ofp_features_reply_len_def ofp_phy_port_pack_def ofp_phy_port_init_def ofp_phy_port_assert_def
        struct_pack.simps in_range_def)
  then obtain b m' nx' where p: "ofp_features_reply_pack True 5 ?m = Inr (b, m', nx')" by blast
  have "eth_raw_ok (zeros 6)" by code_simp
  then have "list_all ofp_phy_port_ok [ofp_phy_port_init]"
    by (simp add: ofp_phy_port_ok_def ofp_phy_port_init_def EMPTY_ETH_def eth_toRaw_def)
  from features_reply_roundtrip [OF p this] p show ?thesis by auto
qed

text \<open>
  an echo message with a body is not framed.  The length in the header stays 8, so the receiver
  reads an empty body and the body bytes are left in the stream, in front of the next message.
\<close>

theorem echo_body_left_in_stream:
  assumes "ofp_echo_pack nx m = Inr (b, m', nx')" "msg_len m = 8"
  shows "ofp_echo_unpack y (b @ rest) = Inr (m'\<lparr>echo_body := []\<rparr>, echo_body m @ rest)"
proof -
  obtain h where hd: "ofp_header_pack nx m = Inr (h, m', nx')" and b: "b = h @ echo_body m'"
    using assms(1) by (auto simp: ofp_echo_pack_def msg_pack_def rbind_eq_Inr rmap_eq_Inr)
  obtain x where m': "m' = m\<lparr>xid := x\<rparr>" using ofp_header_pack_keeps [OF hd] by blast
  note l = ofp_header_pack_length [OF hd] and u = ofp_header_unpack_pack [OF hd]
  show ?thesis using assms(2) by (simp add: b l u ofp_echo_unpack_def m' bslice_def)
qed

theorem echo_body_left_in_stream_witness:
  "\<exists>b m' nx'. ofp_echo_pack 5 (ofp_echo_request_init\<lparr>echo_body := [1, 2]\<rparr>) = Inr (b, m', nx')
     \<and> ofp_echo_unpack ofp_echo_request_init b = Inr (m'\<lparr>echo_body := []\<rparr>, [1, 2])"
proof -
  let ?m = "ofp_echo_request_init\<lparr>echo_body := [1, 2]\<rparr>"
  have "\<exists>b m' nx'. ofp_echo_pack 5 ?m = Inr (b, m', nx')"
    by (simp add: ofp_echo_pack_def msg_pack_def ofp_echo_request_init_def ofp_header_pack_def
        assign_xid_def ofp_header_assert_def ofp_type_known_iff generateXID_def Let_def struct_pack.simps in_range_def)
  then obtain b m' nx' where p: "ofp_echo_pack 5 ?m = Inr (b, m', nx')" by blast
  have "msg_len ?m = 8" by (simp add: ofp_echo_request_init_def)
  from echo_body_left_in_stream [OF p this, of ofp_echo_request_init "[]"] p show ?thesis by auto
qed

section \<open>Statistics bodies\<close>

record ofp_desc_stats =
  ds_mfr_desc :: bytes
  ds_hw_desc :: bytes
  ds_sw_desc :: bytes
  ds_serial_num :: bytes
  ds_dp_desc :: bytes

definition ofp_desc_stats_init :: ofp_desc_stats where
  "ofp_desc_stats_init = \<lparr>ds_mfr_desc = [], ds_hw_desc = [], ds_sw_desc = [], ds_serial_num = [], ds_dp_desc = []\<rparr>"

definition ofp_desc_stats_assert :: "ofp_desc_stats \<Rightarrow> bool" where
  "ofp_desc_stats_assert d \<longleftrightarrow> length (ds_mfr_desc d) \<le> 256 \<and> length (ds_hw_desc d) \<le> 256
     \<and> length (ds_sw_desc d) \<le> 256 \<and> length (ds_serial_num d) \<le> 32 \<and> length (ds_dp_desc d) \<le> 256"

definition ofp_desc_stats_pack :: "bool \<Rightarrow> ofp_desc_stats \<Rightarrow> bytes option res" where
  "ofp_desc_stats_pack assertstruct d =
     (if assertstruct \<and> \<not> ofp_desc_stats_assert d then Inr None
      else Inr (Some (ljust0 256 (ds_mfr_desc d) @ ljust0 256 (ds_hw_desc d) @ ljust0 256 (ds_sw_desc d)
             @ ljust0 32 (ds_serial_num d) @ ljust0 256 (ds_dp_desc d))))"

definition ofp_desc_stats_unpack :: "ofp_desc_stats \<Rightarrow> bytes \<Rightarrow> (ofp_desc_stats \<times> bytes) res" where
  "ofp_desc_stats_unpack d b =
     (if length b < 1056 then Inr (d, b)
      else Inr (d\<lparr>ds_mfr_desc := strip0 (bslice 0 256 b), ds_hw_desc := strip0 (bslice 256 512 b),
                  ds_sw_desc := strip0 (bslice 512 768 b), ds_serial_num := strip0 (bslice 768 800 b),
                  ds_dp_desc := strip0 (bslice 800 1056 b)\<rparr>, drop 1056 b))"

lemma ofp_desc_stats_wire:
  assumes "ofp_desc_stats_pack True d = Inr (Some b)"
    and "0 \<notin> set (ds_mfr_desc d) \<union> set (ds_hw_desc d) \<union> set (ds_sw_desc d) \<union> set (ds_serial_num d) \<union> set (ds_dp_desc d)"
  shows "length b = 1056 \<and> ofp_desc_stats_unpack y (b @ rest) = Inr (d, rest)"
proof -
  have a: "length (ds_mfr_desc d) \<le> 256" "length (ds_hw_desc d) \<le> 256" "length (ds_sw_desc d) \<le> 256"
      "length (ds_serial_num d) \<le> 32" "length (ds_dp_desc d) \<le> 256"
    and b: "b = ljust0 256 (ds_mfr_desc d) @ ljust0 256 (ds_hw_desc d) @ ljust0 256 (ds_sw_desc d)
             @ ljust0 32 (ds_serial_num d) @ ljust0 256 (ds_dp_desc d)"
    using assms(1) by (auto simp: ofp_desc_stats_pack_def ofp_desc_stats_assert_def split: if_split_asm)
  show ?thesis
    using a assms(2) by (simp add: b ofp_desc_stats_unpack_def bslice_simps strip0_ljust0)
qed

record ofp_table_stats =
  ts_table_id :: int
  ts_name :: bytes
  ts_wildcards :: int
  ts_max_entries :: int
  ts_active_count :: int
  ts_lookup_count :: int
  ts_matched_count :: int

definition ofp_table_stats_init :: ofp_table_stats where
  "ofp_table_stats_init = \<lparr>ts_table_id = 0, ts_name = [], ts_wildcards = 0, ts_max_entries = 0,
     ts_active_count = 0, ts_lookup_count = 0, ts_matched_count = 0\<rparr>"

definition ofp_table_stats_pack :: "bool \<Rightarrow> ofp_table_stats \<Rightarrow> bytes option res" where
  "ofp_table_stats_pack assertstruct t =
     (if assertstruct \<and> 32 < length (ts_name t) then Inr None
      else rmap Some (rconcat
        [struct_pack [FB] [ts_table_id t], Inr (zeros 3), Inr (ljust0 32 (ts_name t)),
         struct_pack [FL, FL, FL, FQ, FQ]
           [ts_wildcards t, ts_max_entries t, ts_active_count t, ts_lookup_count t, ts_matched_count t]]))"

definition ofp_table_stats_unpack :: "ofp_table_stats \<Rightarrow> bytes \<Rightarrow> (ofp_table_stats \<times> bytes) res" where
  "ofp_table_stats_unpack t b =
     (if length b < 64 then Inr (t, b)
      else rbind (struct_unpack_from [FB] b 0) (\<lambda>v1.
           rbind (struct_unpack_from [FL, FL, FL, FQ, FQ] b 36) (\<lambda>v2. case (v1, v2) of
             ([i], [w, mx, ac, lc, mc]) \<Rightarrow>
               Inr (t\<lparr>ts_table_id := i, ts_name := strip0 (bslice 4 36 b), ts_wildcards := w, ts_max_entries := mx,
                      ts_active_count := ac, ts_lookup_count := lc, ts_matched_count := mc\<rparr>, drop 64 b)
           | _ \<Rightarrow> Inl ValueError)))"

lemma ofp_table_stats_wire:
  assumes "ofp_table_stats_pack True t = Inr (Some b)" "0 \<notin> set (ts_name t)"
  shows "length b = 64 \<and> ofp_table_stats_unpack y (b @ rest) = Inr (t, rest)"
proof -
  have n: "length (ts_name t) \<le> 32" using assms(1) by (auto simp: ofp_table_stats_pack_def split: if_split_asm)
  obtain p1 p2 where ps: "struct_pack [FB] [ts_table_id t] = Inr p1"
      "struct_pack [FL, FL, FL, FQ, FQ]
         [ts_wildcards t, ts_max_entries t, ts_active_count t, ts_lookup_count t, ts_matched_count t] = Inr p2"
    and b: "b = p1 @ zeros 3 @ ljust0 32 (ts_name t) @ p2"
    using assms(1) by (auto simp: ofp_table_stats_pack_def res_simps split: if_split_asm)
  note l = ps [THEN struct_pack_length, simplified] and h = ps [THEN struct_unpack_from_hit]
  show ?thesis
    using n assms(2)
    by (simp add: b l h ofp_table_stats_unpack_def struct_unpack_from_skip bslice_simps strip0_ljust0)
qed

text \<open>\<open>ofp_flow_stats_request\<close> and \<open>ofp_aggregate_stats_request\<close>\<close>

record ofp_flow_stats_request =
  fsr_match :: ofp_match
  fsr_table_id :: int
  fsr_out_port :: int

definition ofp_flow_stats_request_init :: ofp_flow_stats_request where
  "ofp_flow_stats_request_init = \<lparr>fsr_match = ofp_match_init, fsr_table_id = TABLE_ALL, fsr_out_port = OFPP_NONE\<rparr>"

definition ofp_flow_stats_request_pack :: "ofp_flow_stats_request \<Rightarrow> bytes res" where
  "ofp_flow_stats_request_pack r =
     rconcat [ofp_match_pack True False (fsr_match r), struct_pack [FB, FB, FH] [fsr_table_id r, 0, fsr_out_port r]]"

text \<open>The value returned is one byte, \<open>binaryString[len(self)]\<close>, not the rest.\<close>

definition ofp_flow_stats_request_unpack :: "ofp_flow_stats_request \<Rightarrow> bytes \<Rightarrow> (ofp_flow_stats_request \<times> bytes) res" where
  "ofp_flow_stats_request_unpack r b =
     (if length b < 44 then Inr (r, b)
      else rbind (ofp_match_unpack False (fsr_match r) b) (\<lambda>(mt, _).
           rbind (struct_unpack_from [FB, FB, FH] b 40) (\<lambda>vs. case vs of
             [t, pad, p] \<Rightarrow> rmap (\<lambda>c. (r\<lparr>fsr_match := mt, fsr_table_id := t, fsr_out_port := p\<rparr>, [c])) (byte_at b 44)
           | _ \<Rightarrow> Inl ValueError)))"

definition ofp_aggregate_stats_request_pack :: "ofp_flow_stats_request \<Rightarrow> bytes res" where
  "ofp_aggregate_stats_request_pack r =
     rconcat [ofp_match_pack True False (fsr_match r), struct_pack [FB, FB, FH] [fsr_table_id r, 0, fsr_out_port r]]"

definition ofp_aggregate_stats_request_unpack :: "ofp_flow_stats_request \<Rightarrow> bytes \<Rightarrow> (ofp_flow_stats_request \<times> bytes) res" where
  "ofp_aggregate_stats_request_unpack r b =
     (if length b < 44 then Inr (r, b)
      else rbind (ofp_match_unpack False (fsr_match r) b) (\<lambda>(mt, _).
           rbind (struct_unpack_from [FB, FB, FH] b 40) (\<lambda>vs. case vs of
             [t, pad, p] \<Rightarrow> Inr (r\<lparr>fsr_match := mt, fsr_table_id := t, fsr_out_port := p\<rparr>, drop 44 b)
           | _ \<Rightarrow> Inl ValueError)))"

text \<open>
  a flow statistics request that ends the buffer cannot be unpacked: \<open>unpack\<close> returns
  \<open>binaryString[len(self)]\<close>, which is out of range, and raises \<open>IndexError\<close>.
\<close>

theorem flow_stats_request_unpack_raises:
  assumes "ofp_flow_stats_request_pack r = Inr b"
    and "length (hw_field (get_dl_src (fsr_match r))) = 6" "length (hw_field (get_dl_dst (fsr_match r))) = 6"
  shows "ofp_flow_stats_request_unpack y b = Inl IndexError"
proof -
  obtain mb p where mt: "ofp_match_pack True False (fsr_match r) = Inr mb"
    and p: "struct_pack [FB, FB, FH] [fsr_table_id r, 0, fsr_out_port r] = Inr p" and b: "b = mb @ p"
    using assms(1) by (auto simp: ofp_flow_stats_request_pack_def rbind_eq_Inr rmap_eq_Inr)
  note M = ofp_match_wire [OF mt assms(2,3)] and l = struct_pack_length [OF p, simplified]
    and h = struct_unpack_from_hit [OF p, of "[]", unfolded append_Nil2]
  show ?thesis
    by (simp add: b M l h ofp_flow_stats_request_unpack_def struct_unpack_from_skip byte_at_def)
qed

theorem flow_stats_request_unpack_raises_witness:
  "\<exists>b. ofp_flow_stats_request_pack ofp_flow_stats_request_init = Inr b
     \<and> ofp_flow_stats_request_unpack ofp_flow_stats_request_init b = Inl IndexError"
proof -
  obtain mb where "ofp_match_pack True False ofp_match_init = Inr mb" using match_init_pack_ok by blast
  then obtain b where p: "ofp_flow_stats_request_pack ofp_flow_stats_request_init = Inr b"
    by (simp add: ofp_flow_stats_request_pack_def ofp_flow_stats_request_init_def struct_pack.simps in_range_def)
  then show ?thesis
    using flow_stats_request_unpack_raises [OF p] match_init_consistent
    by (simp add: ofp_flow_stats_request_init_def match_consistent_def)
qed

record ofp_flow_stats =
  fs_length :: int
  fs_table_id :: int
  fs_match :: ofp_match
  fs_duration_sec :: int
  fs_duration_nsec :: int
  fs_priority :: int
  fs_idle_timeout :: int
  fs_hard_timeout :: int
  fs_cookie :: int
  fs_packet_count :: int
  fs_byte_count :: int
  fs_actions :: "ofp_action list"

definition ofp_flow_stats_init :: ofp_flow_stats where
  "ofp_flow_stats_init = \<lparr>fs_length = 0, fs_table_id = 0, fs_match = ofp_match_init, fs_duration_sec = 0,
     fs_duration_nsec = 0, fs_priority = OFP_DEFAULT_PRIORITY, fs_idle_timeout = 0, fs_hard_timeout = 0,
     fs_cookie = 0, fs_packet_count = 0, fs_byte_count = 0, fs_actions = []\<rparr>"

definition ofp_flow_stats_len :: "ofp_flow_stats \<Rightarrow> int" where
  "ofp_flow_stats_len s = 88 + (\<Sum>a \<leftarrow> fs_actions s. action_len a)"

definition ofp_flow_stats_pack :: "bool \<Rightarrow> ofp_flow_stats \<Rightarrow> bytes res" where
  "ofp_flow_stats_pack assertstruct s =
     rconcat [struct_pack [FH, FB, FB] [fs_length s, fs_table_id s, 0],
              ofp_match_pack True False (fs_match s),
              struct_pack [FL, FL, FH, FH, FH]
                [fs_duration_sec s, fs_duration_nsec s, fs_priority s, fs_idle_timeout s, fs_hard_timeout s],
              Inr (zeros 6),
              struct_pack [FQ, FQ, FQ] [fs_cookie s, fs_packet_count s, fs_byte_count s],
              pack_list (\<lambda>a. add_packed (action_pack assertstruct a)) (fs_actions s)]"

definition ofp_flow_stats_unpack :: "ofp_flow_stats \<Rightarrow> bytes \<Rightarrow> (ofp_flow_stats \<times> bytes) res" where
  "ofp_flow_stats_unpack s b =
     (if length b < 88 then Inr (s, b)
      else rbind (struct_unpack_from [FH, FB, FB] b 0) (\<lambda>v1.
           rbind (ofp_match_unpack False (fs_match s) (drop 4 b)) (\<lambda>(mt, _).
           rbind (struct_unpack_from [FL, FL, FH, FH, FH] b 44) (\<lambda>v2.
           rbind (struct_unpack_from [FQ, FQ, FQ] b 64) (\<lambda>v3. case (v1, v2, v3) of
             ([ln, t, pad], [ds, dn, pr, it, ht], [c, pc, bc]) \<Rightarrow>
               rbind (unpack_actions b (ln - 88) 88) (\<lambda>(acts, offset).
               let s = s\<lparr>fs_length := ln, fs_table_id := t, fs_match := mt, fs_duration_sec := ds,
                         fs_duration_nsec := dn, fs_priority := pr, fs_idle_timeout := it, fs_hard_timeout := ht,
                         fs_cookie := c, fs_packet_count := pc, fs_byte_count := bc, fs_actions := acts\<rparr> in
               if int offset = ln \<and> ln = ofp_flow_stats_len s then Inr (s, drop offset b)
               else Inl AssertionError)
           | _ \<Rightarrow> Inl ValueError)))))"


section \<open>Statistics messages\<close>

abbreviation (input) OFPST_DESC :: int where "OFPST_DESC \<equiv> 0"
abbreviation (input) OFPST_FLOW :: int where "OFPST_FLOW \<equiv> 1"
abbreviation (input) OFPST_AGGREGATE :: int where "OFPST_AGGREGATE \<equiv> 2"
abbreviation (input) OFPST_TABLE :: int where "OFPST_TABLE \<equiv> 3"
abbreviation (input) OFPST_PORT :: int where "OFPST_PORT \<equiv> 4"
abbreviation (input) OFPST_QUEUE :: int where "OFPST_QUEUE \<equiv> 5"

text \<open>
  Request bodies.  The cache \<open>_body_data\<close> keeps the packed form of the body object it was computed
  from; bodies are values here, so it is recomputed.
\<close>

datatype stats_req_body = SrBytes bytes | SrFlow ofp_flow_stats_request | SrAggregate ofp_flow_stats_request
  | SrPort ofp_port_stats_request | SrQueue ofp_queue_stats_request

record ofp_stats_request = ofp_header +
  sr_type :: "int option"
  sr_flags :: int
  sr_body :: stats_req_body

definition ofp_stats_request_init :: ofp_stats_request where
  "ofp_stats_request_init = \<lparr>version = OFP_VERSION, header_type = OFPT_STATS_REQUEST, msg_len = 8, xid = None,
     sr_type = None, sr_flags = 0, sr_body = SrBytes []\<rparr>"

fun sr_body_data :: "stats_req_body \<Rightarrow> bytes res" where
  "sr_body_data (SrBytes b) = Inr b"
| "sr_body_data (SrFlow r) = ofp_flow_stats_request_pack r"
| "sr_body_data (SrAggregate r) = ofp_aggregate_stats_request_pack r"
| "sr_body_data (SrPort r) = add_packed (ofp_port_stats_request_pack r)"
| "sr_body_data (SrQueue r) = add_packed (ofp_queue_stats_request_pack r)"

text \<open>\<open>type\<close> is guessed from the body when it is \<open>None\<close>\<close>

definition sr_guess_type :: "ofp_stats_request \<Rightarrow> bytes \<Rightarrow> int option" where
  "sr_guess_type m data =
     (case sr_type m of
        Some t \<Rightarrow> Some t
      | None \<Rightarrow> (case sr_body m of
            SrFlow _ \<Rightarrow> Some OFPST_FLOW
          | SrAggregate _ \<Rightarrow> Some OFPST_AGGREGATE
          | _ \<Rightarrow> if data = [] then Some OFPST_DESC else None))"

definition ofp_stats_request_pack :: "int \<Rightarrow> ofp_stats_request \<Rightarrow> (bytes \<times> ofp_stats_request \<times> int) res" where
  "ofp_stats_request_pack nx m =
     rbind (sr_body_data (sr_body m)) (\<lambda>data.
     msg_pack nx (m\<lparr>msg_len := 12 + int (length data), sr_type := sr_guess_type m data\<rparr>) (\<lambda>m.
       rconcat [rbind (need StructError (sr_type m)) (\<lambda>t. struct_pack [FH, FH] [t, sr_flags m]), Inr data]))"

definition ofp_stats_request_unpack :: "ofp_stats_request \<Rightarrow> bytes \<Rightarrow> (ofp_stats_request \<times> bytes) res" where
  "ofp_stats_request_unpack m b =
     (if length b < 12 then Inr (m, b)
      else rbind (ofp_header_unpack m b) (\<lambda>(m, _).
           rbind (struct_unpack_from [FH, FH] b 8) (\<lambda>vs. case vs of
             [t, f] \<Rightarrow>
               (let data = bslice 12 (nat (msg_len m)) b in
                if msg_len m = 12 + int (length data) then
                  Inr (m\<lparr>sr_type := Some t, sr_flags := f, sr_body := SrBytes data\<rparr>, drop (nat (msg_len m)) b)
                else Inl AssertionError)
           | _ \<Rightarrow> Inl ValueError)))"

text \<open>
  a statistics request survives the wire with its type, guessed from the body if it was not
  set, its flags, and the packed body as bytes.
\<close>

theorem stats_request_roundtrip:
  assumes "ofp_stats_request_pack nx m = Inr (b, m', nx')" "sr_body_data (sr_body m) = Inr data"
  shows "ofp_stats_request_unpack y (b @ rest) = Inr (m'\<lparr>sr_body := SrBytes data\<rparr>, rest)
    \<and> int (length b) = msg_len m' \<and> sr_type m' = sr_guess_type m data"
proof -
  let ?m = "m\<lparr>msg_len := 12 + int (length data), sr_type := sr_guess_type m data\<rparr>"
  obtain h p t where hd: "ofp_header_pack nx ?m = Inr (h, m', nx')" and t: "sr_type m' = Some t"
    and ps: "struct_pack [FH, FH] [t, sr_flags m'] = Inr p" and b: "b = h @ p @ data"
    using assms by (auto simp: ofp_stats_request_pack_def msg_pack_def rbind_eq_Inr rmap_eq_Inr need_eq_Inr)
  obtain x where m': "m' = ?m\<lparr>xid := x\<rparr>" using ofp_header_pack_keeps [OF hd] by blast
  note l = struct_pack_length [OF ps, simplified] ofp_header_pack_length [OF hd]
    and u = ofp_header_unpack_pack [OF hd] and s = struct_unpack_from_hit [OF ps]
  have nl: "nat (12 + int (length data)) = 12 + length data" by simp
  have g: "sr_guess_type m data = Some t" using t by (simp add: m')
  have "ofp_stats_request_unpack y (b @ rest) = Inr (m'\<lparr>sr_body := SrBytes data\<rparr>, rest)"
    by (simp add: b l u s ofp_stats_request_unpack_def struct_unpack_from_skip m' nl g bslice_def Let_def)
  then show ?thesis by (simp add: b l m')
qed

theorem stats_request_roundtrip_witness:
  "\<exists>b m' nx'. ofp_stats_request_pack 3 ofp_stats_request_init = Inr (b, m', nx')
     \<and> ofp_stats_request_unpack ofp_stats_request_init (b @ [1]) = Inr (m'\<lparr>sr_body := SrBytes []\<rparr>, [1])
     \<and> sr_type m' = Some OFPST_DESC"
proof -
  have "\<exists>b m' nx'. ofp_stats_request_pack 3 ofp_stats_request_init = Inr (b, m', nx')"
    by (simp add: ofp_stats_request_pack_def msg_pack_def ofp_stats_request_init_def ofp_header_pack_def
        assign_xid_def ofp_header_assert_def ofp_type_known_iff generateXID_def Let_def sr_guess_type_def
        struct_pack.simps in_range_def)
  then obtain b m' nx' where p: "ofp_stats_request_pack 3 ofp_stats_request_init = Inr (b, m', nx')" by blast
  have d: "sr_body_data (sr_body ofp_stats_request_init) = Inr []" by (simp add: ofp_stats_request_init_def)
  from stats_request_roundtrip [OF p d, of ofp_stats_request_init "[1]"] p
  show ?thesis by (auto simp: ofp_stats_request_init_def sr_guess_type_def)
qed

text \<open>Reply bodies: one object, bytes, or a list of objects\<close>

datatype stats_rep_item = SpDesc ofp_desc_stats | SpFlow ofp_flow_stats | SpAggregate ofp_aggregate_stats
  | SpTable ofp_table_stats | SpPort ofp_port_stats | SpQueue ofp_queue_stats

datatype stats_rep_body = SpBytes bytes | SpOne stats_rep_item | SpList "stats_rep_item list"

fun sp_item_pack :: "stats_rep_item \<Rightarrow> bytes res" where
  "sp_item_pack (SpDesc d) = add_packed (ofp_desc_stats_pack True d)"
| "sp_item_pack (SpFlow s) = ofp_flow_stats_pack True s"
| "sp_item_pack (SpAggregate a) = add_packed (ofp_aggregate_stats_pack a)"
| "sp_item_pack (SpTable t) = add_packed (ofp_table_stats_pack True t)"
| "sp_item_pack (SpPort p) = add_packed (ofp_port_stats_pack p)"
| "sp_item_pack (SpQueue q) = add_packed (ofp_queue_stats_pack q)"

fun sp_item_len :: "stats_rep_item \<Rightarrow> int" where
  "sp_item_len (SpDesc d) = 1056"
| "sp_item_len (SpFlow s) = ofp_flow_stats_len s"
| "sp_item_len (SpAggregate a) = ofp_aggregate_stats_len a"
| "sp_item_len (SpTable t) = 64"
| "sp_item_len (SpPort p) = ofp_port_stats_len p"
| "sp_item_len (SpQueue q) = ofp_queue_stats_len q"

fun sp_body_data :: "stats_rep_body \<Rightarrow> bytes res" where
  "sp_body_data (SpBytes b) = Inr b"
| "sp_body_data (SpOne i) = sp_item_pack i"
| "sp_body_data (SpList is) = pack_list sp_item_pack is"

text \<open>\<open>len(self.body)\<close>: of a list, the number of its elements\<close>

fun sp_body_len :: "stats_rep_body \<Rightarrow> int" where
  "sp_body_len (SpBytes b) = int (length b)"
| "sp_body_len (SpOne i) = sp_item_len i"
| "sp_body_len (SpList is) = int (length is)"

record ofp_stats_reply = ofp_header +
  sp_type :: int
  sp_flags :: int
  sp_body :: stats_rep_body

definition ofp_stats_reply_init :: ofp_stats_reply where
  "ofp_stats_reply_init = \<lparr>version = OFP_VERSION, header_type = OFPT_STATS_REPLY, msg_len = 8, xid = None,
     sp_type = 0, sp_flags = 0, sp_body = SpBytes []\<rparr>"

definition ofp_stats_reply_len :: "ofp_stats_reply \<Rightarrow> int" where
  "ofp_stats_reply_len m = 12 + sp_body_len (sp_body m)"

text \<open>
  The first statement of \<open>pack\<close> tests the builtin \<open>type\<close>, so it never sets \<open>self.type\<close>.
\<close>

definition ofp_stats_reply_pack :: "int \<Rightarrow> ofp_stats_reply \<Rightarrow> (bytes \<times> ofp_stats_reply \<times> int) res" where
  "ofp_stats_reply_pack nx m =
     msg_pack nx (m\<lparr>msg_len := ofp_stats_reply_len m\<rparr>) (\<lambda>m.
       rconcat [struct_pack [FH, FH] [sp_type m, sp_flags m], sp_body_data (sp_body m)])"

definition ofp_stats_reply_unpack :: "ofp_stats_reply \<Rightarrow> bytes \<Rightarrow> (ofp_stats_reply \<times> bytes) res" where
  "ofp_stats_reply_unpack m b =
     (if length b < 12 then Inr (m, b)
      else rbind (ofp_header_unpack m b) (\<lambda>(m, _).
           rbind (struct_unpack_from [FH, FH] b 8) (\<lambda>vs. case vs of
             [t, f] \<Rightarrow> Inr (m\<lparr>sp_type := t, sp_flags := f, sp_body := SpBytes (bslice 12 (nat (msg_len m)) b)\<rparr>,
                            drop (nat (msg_len m)) b)
           | _ \<Rightarrow> Inl ValueError)))"

text \<open>
  a statistics reply whose body is a list is framed wrongly: the length in the header counts the
  elements of the list, not their bytes, so the receiver takes only that many bytes as the body
  and reads the rest of the body as the next message.
\<close>

theorem stats_reply_list_misframed:
  assumes "ofp_stats_reply_pack nx m = Inr (b, m', nx')" "sp_body m = SpList is"
    and "sp_body_data (sp_body m) = Inr data" "length is \<le> length data"
  shows "ofp_stats_reply_unpack y (b @ rest) =
    Inr (m'\<lparr>sp_body := SpBytes (take (length is) data)\<rparr>, drop (length is) data @ rest)"
proof -
  let ?m = "m\<lparr>msg_len := ofp_stats_reply_len m\<rparr>"
  obtain h p d where hd: "ofp_header_pack nx ?m = Inr (h, m', nx')"
    and ps: "struct_pack [FH, FH] [sp_type m', sp_flags m'] = Inr p"
    and d: "sp_body_data (sp_body m') = Inr d" and b: "b = h @ p @ d"
    using assms(1) by (auto simp: ofp_stats_reply_pack_def msg_pack_def rbind_eq_Inr rmap_eq_Inr)
  obtain x where m': "m' = ?m\<lparr>xid := x\<rparr>" using ofp_header_pack_keeps [OF hd] by blast
  have dd: "d = data" using d assms(3) by (simp add: m')
  note l = struct_pack_length [OF ps, simplified] ofp_header_pack_length [OF hd]
    and u = ofp_header_unpack_pack [OF hd] and s = struct_unpack_from_hit [OF ps]
  have nl: "nat (12 + int (length is)) = 12 + length is" by simp
  show ?thesis
    using assms(4)
    by (simp add: b l u s dd ofp_stats_reply_unpack_def struct_unpack_from_skip m' ofp_stats_reply_len_def
        assms(2) nl bslice_def)
qed

theorem stats_reply_list_misframed_witness:
  "\<exists>b m' nx' data. ofp_stats_reply_pack 3 (ofp_stats_reply_init\<lparr>sp_body := SpList [SpAggregate ofp_aggregate_stats_init]\<rparr>) = Inr (b, m', nx')
     \<and> length data = 24
     \<and> ofp_stats_reply_unpack ofp_stats_reply_init b = Inr (m'\<lparr>sp_body := SpBytes (take 1 data)\<rparr>, drop 1 data)"
proof -
  let ?m = "ofp_stats_reply_init\<lparr>sp_body := SpList [SpAggregate ofp_aggregate_stats_init]\<rparr>"
  obtain a where a: "ofp_aggregate_stats_pack ofp_aggregate_stats_init = Inr (Some a)" "length a = 24"
    by (simp add: ofp_aggregate_stats_pack_def ofp_aggregate_stats_init_def struct_pack.simps in_range_def)
  have "\<exists>b m' nx'. ofp_stats_reply_pack 3 ?m = Inr (b, m', nx')"
    by (simp add: ofp_stats_reply_pack_def msg_pack_def ofp_stats_reply_init_def ofp_header_pack_def
        assign_xid_def ofp_header_assert_def ofp_type_known_iff generateXID_def Let_def ofp_stats_reply_len_def
        a struct_pack.simps in_range_def)
  then obtain b m' nx' where p: "ofp_stats_reply_pack 3 ?m = Inr (b, m', nx')" by blast
  have d: "sp_body ?m = SpList [SpAggregate ofp_aggregate_stats_init]" "sp_body_data (sp_body ?m) = Inr a"
    by (simp_all add: a)
  have "length [SpAggregate ofp_aggregate_stats_init] \<le> length a" by (simp add: a)
  from stats_reply_list_misframed [OF p d this, of ofp_stats_reply_init "[]"] p a(2)
  show ?thesis by fastforce
qed

end
