(* ===== verification/Py_State.thy ===== *)
theory Py_State
  imports Pox_Prelude
begin

text \<open>
  Methods that change an object and may raise: a function from the state to a result and the state it leaves.
  The state survives an exception, as in Python, so what was done before a \<open>raise\<close> stays done.
  \<open>keeps\<close> is the invariant calculus of such methods.
\<close>

section \<open>Operations\<close>

type_synonym ('s, 'a) sm = "'s \<Rightarrow> 'a res \<times> 's"

definition sret :: "'a \<Rightarrow> ('s, 'a) sm" where
  "sret x s = (Inr x, s)"

definition sraise :: "py_error \<Rightarrow> ('s, 'a) sm" where
  "sraise e s = (Inl e, s)"

definition sbind :: "('s, 'a) sm \<Rightarrow> ('a \<Rightarrow> ('s, 'b) sm) \<Rightarrow> ('s, 'b) sm" where
  "sbind m f s = (case m s of (Inl e, s') \<Rightarrow> (Inl e, s') | (Inr x, s') \<Rightarrow> f x s')"

definition sthen :: "('s, 'a) sm \<Rightarrow> ('s, 'b) sm \<Rightarrow> ('s, 'b) sm" where
  "sthen m n = sbind m (\<lambda>_. n)"

definition slift :: "'a res \<Rightarrow> ('s, 'a) sm" where
  "slift r s = (r, s)"

definition sget :: "('s \<Rightarrow> 'a) \<Rightarrow> ('s, 'a) sm" where
  "sget f s = (Inr (f s), s)"

definition smod :: "('s \<Rightarrow> 's) \<Rightarrow> ('s, unit) sm" where
  "smod f s = (Inr (), f s)"

text \<open>\<open>for x in xs\<close>, and a method of an attribute object\<close>

fun sfor :: "('x \<Rightarrow> ('s, unit) sm) \<Rightarrow> 'x list \<Rightarrow> ('s, unit) sm" where
  "sfor f [] = sret ()"
| "sfor f (x # xs) = sthen (f x) (sfor f xs)"

definition swith :: "('s \<Rightarrow> 't) \<Rightarrow> ('t \<Rightarrow> 's \<Rightarrow> 's) \<Rightarrow> ('t \<Rightarrow> ('a \<times> 't) res) \<Rightarrow> ('s, 'a) sm" where
  "swith rd wr f s = (case f (rd s) of Inl e \<Rightarrow> (Inl e, s) | Inr (x, t) \<Rightarrow> (Inr x, wr t s))"

text \<open>A method of an attribute object that may change it before it raises\<close>

definition szoom :: "('s \<Rightarrow> 't) \<Rightarrow> ('t \<Rightarrow> 's \<Rightarrow> 's) \<Rightarrow> ('t, 'a) sm \<Rightarrow> ('s, 'a) sm" where
  "szoom rd wr m s = (case m (rd s) of (r, t) \<Rightarrow> (r, wr t s))"

section \<open>Laws\<close>

named_theorems sm_simps

lemma sret_apply [sm_simps]: "sret x s = (Inr x, s)"
  by (simp add: sret_def)

lemma sraise_apply [sm_simps]: "sraise e s = (Inl e, s)"
  by (simp add: sraise_def)

lemma slift_apply [sm_simps]: "slift r s = (r, s)"
  by (simp add: slift_def)

lemma sget_apply [sm_simps]: "sget f s = (Inr (f s), s)"
  by (simp add: sget_def)

lemma smod_apply [sm_simps]: "smod f s = (Inr (), f s)"
  by (simp add: smod_def)

lemma sbind_Inr [sm_simps]: "m s = (Inr x, s') \<Longrightarrow> sbind m f s = f x s'"
  by (simp add: sbind_def)

lemma sbind_Inl [sm_simps]: "m s = (Inl e, s') \<Longrightarrow> sbind m f s = (Inl e, s')"
  by (simp add: sbind_def)

lemma sthen_Inr [sm_simps]: "m s = (Inr x, s') \<Longrightarrow> sthen m n s = n s'"
  by (simp add: sthen_def sbind_def)

lemma sthen_Inl [sm_simps]: "m s = (Inl e, s') \<Longrightarrow> sthen m n s = (Inl e, s')"
  by (simp add: sthen_def sbind_def)

lemma sbind_sret [simp]: "sbind (sret x) f = f x"
  by (rule ext) (simp add: sbind_def sret_def)

lemma sbind_sget [simp]: "sbind (sget g) f s = f (g s) s"
  by (simp add: sbind_def sget_def)

lemma sthen_smod [simp]: "sthen (smod g) n s = n (g s)"
  by (simp add: sthen_def sbind_def smod_def)

lemma sbind_smod [simp]: "sbind (smod g) f s = f () (g s)"
  by (simp add: sbind_def smod_def)

lemma sthen_sret [simp]: "sthen (sret x) n = n"
  by (simp add: sthen_def)

lemma sthen_sraise [simp]: "sthen (sraise e) n = sraise e"
  by (rule ext) (simp add: sthen_def sbind_def sraise_def)

lemma sbind_sraise [simp]: "sbind (sraise e) f = sraise e"
  by (rule ext) (simp add: sbind_def sraise_def)

lemma slift_Inr [simp]: "slift (Inr x) = sret x"
  by (rule ext) (simp add: slift_def sret_def)

lemma slift_Inl [simp]: "slift (Inl e) = sraise e"
  by (rule ext) (simp add: slift_def sraise_def)

lemma sfor_smod: "sfor (\<lambda>x. smod (f x)) xs s = (Inr (), fold f xs s)"
  by (induction xs arbitrary: s) (simp_all add: sret_def)

section \<open>Invariants\<close>

definition keeps :: "('s \<Rightarrow> bool) \<Rightarrow> ('s, 'a) sm \<Rightarrow> bool" where
  "keeps P m \<longleftrightarrow> (\<forall>s. P s \<longrightarrow> P (snd (m s)))"

named_theorems keeps_intros

lemma keepsI: "(\<And>s. P s \<Longrightarrow> P (snd (m s))) \<Longrightarrow> keeps P m"
  by (simp add: keeps_def)

lemma keepsD: "keeps P m \<Longrightarrow> P s \<Longrightarrow> m s = (r, s') \<Longrightarrow> P s'"
  by (metis keeps_def snd_conv)

lemma keeps_sret [keeps_intros]: "keeps P (sret x)"
  by (simp add: keeps_def sret_def)

lemma keeps_sraise [keeps_intros]: "keeps P (sraise e)"
  by (simp add: keeps_def sraise_def)

lemma keeps_slift [keeps_intros]: "keeps P (slift r)"
  by (simp add: keeps_def slift_def)

lemma keeps_sget [keeps_intros]: "keeps P (sget f)"
  by (simp add: keeps_def sget_def)

lemma keeps_smod: "(\<And>s. P s \<Longrightarrow> P (f s)) \<Longrightarrow> keeps P (smod f)"
  by (simp add: keeps_def smod_def)

lemma keeps_sbind [keeps_intros]: "keeps P m \<Longrightarrow> (\<And>x. keeps P (f x)) \<Longrightarrow> keeps P (sbind m f)"
  unfolding keeps_def sbind_def by (auto split: prod.splits sum.splits)

lemma keeps_sthen [keeps_intros]: "keeps P m \<Longrightarrow> keeps P n \<Longrightarrow> keeps P (sthen m n)"
  unfolding sthen_def by (intro keeps_sbind)

lemma keeps_sfor [keeps_intros]: "(\<And>x. keeps P (f x)) \<Longrightarrow> keeps P (sfor f xs)"
  by (induction xs) (simp_all add: keeps_intros)

lemma keeps_if [keeps_intros]: "(b \<Longrightarrow> keeps P m) \<Longrightarrow> (\<not> b \<Longrightarrow> keeps P n) \<Longrightarrow> keeps P (if b then m else n)"
  by simp

lemma keeps_option [keeps_intros]:
  "(v = None \<Longrightarrow> keeps P m) \<Longrightarrow> (\<And>x. v = Some x \<Longrightarrow> keeps P (f x)) \<Longrightarrow> keeps P (case v of None \<Rightarrow> m | Some x \<Rightarrow> f x)"
  by (cases v) simp_all

lemma keeps_prod [keeps_intros]:
  "(\<And>x y. keeps P (f x y)) \<Longrightarrow> keeps P (case v of (x, y) \<Rightarrow> f x y)"
  by (cases v) simp

lemma keeps_Let [keeps_intros]: "keeps P (f x) \<Longrightarrow> keeps P (let y = x in f y)"
  by simp

lemma keeps_szoom:
  "(\<And>s r t. P s \<Longrightarrow> m (rd s) = (r, t) \<Longrightarrow> P (wr t s)) \<Longrightarrow> keeps P (szoom rd wr m)"
  by (auto simp: keeps_def szoom_def split: prod.splits)

lemma keeps_swith:
  "(\<And>s x t. P s \<Longrightarrow> f (rd s) = Inr (x, t) \<Longrightarrow> P (wr t s)) \<Longrightarrow> keeps P (swith rd wr f)"
  by (auto simp: keeps_def swith_def split: sum.splits)

section \<open>Operations that do not look at a part of the state\<close>

text \<open>\<open>u\<close> changes a part of the state the operation neither reads nor writes.\<close>

definition commutes :: "('s \<Rightarrow> 's) \<Rightarrow> ('s, 'a) sm \<Rightarrow> bool" where
  "commutes u m \<longleftrightarrow> (\<forall>s. m (u s) = (fst (m s), u (snd (m s))))"

named_theorems commutes_intros

lemma commutesD: "commutes u m \<Longrightarrow> m s = (r, s') \<Longrightarrow> m (u s) = (r, u s')"
  by (simp add: commutes_def)

lemma commutes_sret [commutes_intros]: "commutes u (sret x)"
  by (simp add: commutes_def sret_def)

lemma commutes_sraise [commutes_intros]: "commutes u (sraise e)"
  by (simp add: commutes_def sraise_def)

lemma commutes_slift [commutes_intros]: "commutes u (slift r)"
  by (simp add: commutes_def slift_def)

lemma commutes_sget: "(\<And>s. g (u s) = g s) \<Longrightarrow> commutes u (sget g)"
  by (simp add: commutes_def sget_def)

lemma commutes_smod: "(\<And>s. h (u s) = u (h s)) \<Longrightarrow> commutes u (smod h)"
  by (simp add: commutes_def smod_def)

lemma commutes_sbind [commutes_intros]: "commutes u m \<Longrightarrow> (\<And>x. commutes u (f x)) \<Longrightarrow> commutes u (sbind m f)"
  unfolding commutes_def sbind_def by (auto split: prod.splits sum.splits)

lemma commutes_sthen [commutes_intros]: "commutes u m \<Longrightarrow> commutes u n \<Longrightarrow> commutes u (sthen m n)"
  unfolding sthen_def by (intro commutes_sbind)

lemma commutes_sfor [commutes_intros]: "(\<And>x. commutes u (f x)) \<Longrightarrow> commutes u (sfor f xs)"
  by (induction xs) (simp_all add: commutes_intros)

lemma commutes_option [commutes_intros]:
  "(v = None \<Longrightarrow> commutes u m) \<Longrightarrow> (\<And>x. v = Some x \<Longrightarrow> commutes u (f x)) \<Longrightarrow> commutes u (case v of None \<Rightarrow> m | Some x \<Rightarrow> f x)"
  by (cases v) simp_all

lemma commutes_prod [commutes_intros]: "(\<And>x y. commutes u (f x y)) \<Longrightarrow> commutes u (case v of (x, y) \<Rightarrow> f x y)"
  by (cases v) simp

end
