(* ===== verification/Flow_Table.thy ===== *)
theory Flow_Table
  imports Of_Flow_Messages Py_State
begin

text \<open>
  \<open>pox/openflow/flow_table.py\<close>: table entries with their counters and timeouts, the ordered
  flow table and the switch's flow table, which executes flow modifications.  An entry
  carries the identity of its Python object (\<open>te_oid\<close>), which is what \<open>list.remove\<close>
  compares; the table counts the objects it creates.  The events raised are kept in a log.
  Clock readings are whole seconds.
\<close>

section \<open>Entries\<close>

record table_entry =
  te_oid :: nat
  te_priority :: int
  te_cookie :: int
  te_idle_timeout :: int
  te_hard_timeout :: int
  te_match :: ofp_match
  te_actions :: "ofp_action list"
  te_buffer_id :: "int option"
  te_created :: int
  te_last_touched :: int
  te_bytes :: int
  te_packets :: int

definition TableEntry_init ::
  "nat \<Rightarrow> int \<Rightarrow> int \<Rightarrow> int \<Rightarrow> int \<Rightarrow> ofp_match \<Rightarrow> ofp_action list \<Rightarrow> int option \<Rightarrow> int \<Rightarrow> table_entry" where
  "TableEntry_init oid priority cookie idle hard mtch actions buffer_id now =
     \<lparr>te_oid = oid, te_priority = priority, te_cookie = cookie, te_idle_timeout = idle,
      te_hard_timeout = hard, te_match = mtch, te_actions = actions, te_buffer_id = buffer_id,
      te_created = now, te_last_touched = now, te_bytes = 0, te_packets = 0\<rparr>"

definition from_flow_mod :: "nat \<Rightarrow> int \<Rightarrow> ofp_flow_mod \<Rightarrow> table_entry" where
  "from_flow_mod oid now fm =
     TableEntry_init oid (fm_priority fm) (fm_cookie fm) (fm_idle_timeout fm) (fm_hard_timeout fm)
       (fm_match fm) (fm_actions fm) (fm_buffer_id fm) now"

definition to_flow_mod :: "table_entry \<Rightarrow> int option \<Rightarrow> int \<Rightarrow> ofp_flow_mod" where
  "to_flow_mod e x command =
     ofp_flow_mod_init\<lparr>fm_priority := te_priority e, fm_cookie := te_cookie e, fm_match := te_match e,
        fm_idle_timeout := te_idle_timeout e, fm_hard_timeout := te_hard_timeout e,
        fm_actions := te_actions e, fm_buffer_id := te_buffer_id e, xid := x, fm_command := command\<rparr>"

text \<open>\<open>any(isinstance(a, ofp_action_output) and a.port == out_port \<dots>)\<close>\<close>

definition check_port :: "table_entry \<Rightarrow> int option \<Rightarrow> bool" where
  "check_port e op \<longleftrightarrow> op = None \<or>
     list_ex (\<lambda>a. case a of ActOutput x \<Rightarrow> out_port x = op | _ \<Rightarrow> False) (te_actions e)"

definition is_matched_by :: "table_entry \<Rightarrow> ofp_match \<Rightarrow> int \<Rightarrow> bool \<Rightarrow> int option \<Rightarrow> bool res" where
  "is_matched_by e mtch priority strict op =
     (if strict then
        rmap (\<lambda>same. same \<and> te_priority e = priority \<and> check_port e op) (ofp_match_eq (te_match e) mtch)
      else
        rmap (\<lambda>sub. sub \<and> check_port e op) (matches_with_wildcards mtch (te_match e) True))"

definition touch_packet :: "int \<Rightarrow> int \<Rightarrow> table_entry \<Rightarrow> table_entry" where
  "touch_packet byte_count now e =
     e\<lparr>te_bytes := te_bytes e + byte_count, te_packets := te_packets e + 1, te_last_touched := now\<rparr>"

definition is_expired :: "int \<Rightarrow> table_entry \<Rightarrow> bool" where
  "is_expired now e \<longleftrightarrow>
     (te_hard_timeout e > 0 \<and> now - te_created e > te_hard_timeout e)
     \<or> (te_idle_timeout e > 0 \<and> now - te_last_touched e > te_idle_timeout e)"

text \<open>\<open>flow_stats\<close>: \<open>duration_nsec\<close> is the whole duration and \<open>byte_count\<close> the time of the last packet, as in the code\<close>

definition te_flow_stats :: "int \<Rightarrow> table_entry \<Rightarrow> ofp_flow_stats" where
  "te_flow_stats now e =
     ofp_flow_stats_init\<lparr>fs_match := te_match e, fs_duration_sec := now - te_created e,
       fs_duration_nsec := (now - te_created e) * 1000000000, fs_priority := te_priority e,
       fs_idle_timeout := te_idle_timeout e, fs_hard_timeout := te_hard_timeout e, fs_cookie := te_cookie e,
       fs_packet_count := te_packets e, fs_byte_count := te_last_touched e, fs_actions := te_actions e\<rparr>"

section \<open>The table\<close>

text \<open>\<open>FlowTableModification(added, removed)\<close>\<close>

record ft_event =
  ev_added :: "table_entry list"
  ev_removed :: "table_entry list"

record flow_table =
  ft_table :: "table_entry list"
  ft_fresh :: nat
  ft_events :: "ft_event list"

definition FlowTable_init :: flow_table where
  "FlowTable_init = \<lparr>ft_table = [], ft_fresh = 0, ft_events = []\<rparr>"

definition raise_modification :: "table_entry list \<Rightarrow> table_entry list \<Rightarrow> flow_table \<Rightarrow> flow_table" where
  "raise_modification added removed t =
     t\<lparr>ft_events := ft_events t @ [\<lparr>ev_added = added, ev_removed = removed\<rparr>]\<rparr>"

text \<open>The sort key of \<open>add_entry\<close>; exact matches go first.\<close>

definition effective_priority :: "table_entry \<Rightarrow> int" where
  "effective_priority e = (if is_wildcarded (te_match e) then te_priority e else 65537)"

text \<open>append, then a stable sort by descending key\<close>

definition add_entry :: "table_entry \<Rightarrow> flow_table \<Rightarrow> flow_table" where
  "add_entry e t =
     raise_modification [e] []
       (t\<lparr>ft_table := sort_key (\<lambda>x. - effective_priority x) (ft_table t @ [e])\<rparr>)"

text \<open>\<open>list.remove\<close>: the first element that is the same object\<close>

fun remove_oid :: "nat \<Rightarrow> table_entry list \<Rightarrow> table_entry list res" where
  "remove_oid i [] = Inl ValueError"
| "remove_oid i (x # xs) = (if te_oid x = i then Inr xs else rmap ((#) x) (remove_oid i xs))"

definition remove_entry :: "table_entry \<Rightarrow> flow_table \<Rightarrow> flow_table res" where
  "remove_entry e t =
     rmap (\<lambda>es. raise_modification [] [e] (t\<lparr>ft_table := es\<rparr>)) (remove_oid (te_oid e) (ft_table t))"

fun remove_all :: "table_entry list \<Rightarrow> table_entry list \<Rightarrow> table_entry list res" where
  "remove_all [] es = Inr es"
| "remove_all (r # rs) es = rbind (remove_oid (te_oid r) es) (remove_all rs)"

text \<open>a list comprehension with a condition that may raise\<close>

fun rfilter :: "('a \<Rightarrow> bool res) \<Rightarrow> 'a list \<Rightarrow> 'a list res" where
  "rfilter P [] = Inr []"
| "rfilter P (x # xs) = rbind (P x) (\<lambda>b. rmap (\<lambda>ys. if b then x # ys else ys) (rfilter P xs))"

definition matching_entries :: "ofp_match \<Rightarrow> int \<Rightarrow> bool \<Rightarrow> int option \<Rightarrow> flow_table \<Rightarrow> table_entry list res" where
  "matching_entries mtch priority strict op t =
     rfilter (\<lambda>e. is_matched_by e mtch priority strict op) (ft_table t)"

definition ft_flow_stats :: "ofp_match \<Rightarrow> int option \<Rightarrow> int \<Rightarrow> flow_table \<Rightarrow> ofp_flow_stats list res" where
  "ft_flow_stats mtch op now t =
     rmap (map (te_flow_stats now)) (matching_entries mtch 0 False op t)"

definition expired_entries :: "int \<Rightarrow> flow_table \<Rightarrow> table_entry list" where
  "expired_entries now t = filter (is_expired now) (ft_table t)"

definition remove_expired_entries :: "int \<Rightarrow> flow_table \<Rightarrow> (flow_table \<times> table_entry list) res" where
  "remove_expired_entries now t =
     (let rs = expired_entries now t in
      rmap (\<lambda>es. (raise_modification [] rs (t\<lparr>ft_table := es\<rparr>), rs)) (remove_all rs (ft_table t)))"

definition remove_matching_entries :: "ofp_match \<Rightarrow> int \<Rightarrow> bool \<Rightarrow> flow_table \<Rightarrow> (flow_table \<times> table_entry list) res" where
  "remove_matching_entries mtch priority strict t =
     rbind (matching_entries mtch priority strict None t) (\<lambda>rs.
     rmap (\<lambda>es. (raise_modification [] rs (t\<lparr>ft_table := es\<rparr>), rs)) (remove_all rs (ft_table t)))"

text \<open>\<open>entries_for_port\<close>: \<open>last_action.port\<close> is a number and has no \<open>port_no\<close>\<close>

fun entries_for_port :: "table_entry list \<Rightarrow> table_entry list res" where
  "entries_for_port [] = Inr []"
| "entries_for_port (e # es) =
     (if te_actions e \<noteq> [] \<and> (case last (te_actions e) of ActOutput _ \<Rightarrow> True | _ \<Rightarrow> False)
      then Inl AttributeError else entries_for_port es)"

fun first_match :: "ofp_match \<Rightarrow> table_entry list \<Rightarrow> table_entry option res" where
  "first_match pm [] = Inr None"
| "first_match pm (e # es) =
     rbind (matches_with_wildcards (te_match e) pm False) (\<lambda>b. if b then Inr (Some e) else first_match pm es)"

definition entry_for_packet :: "packet \<Rightarrow> int \<Rightarrow> flow_table \<Rightarrow> table_entry option res" where
  "entry_for_packet packet in_port t =
     rbind (from_packet packet (Some in_port)) (\<lambda>pm. first_match pm (ft_table t))"

section \<open>The switch's table\<close>

datatype fm_result = Added | Modified "table_entry list" | Removed "table_entry list"

text \<open>the loop of the modify commands: the modified entries, and the table, of which what was changed before an exception stays changed\<close>

fun modify_loop :: "ofp_flow_mod \<Rightarrow> bool \<Rightarrow> table_entry list \<Rightarrow> table_entry list res \<times> table_entry list" where
  "modify_loop fm strict [] = (Inr [], [])"
| "modify_loop fm strict (e # es) = (case is_matched_by e (fm_match fm) (fm_priority fm) strict None of
     Inl err \<Rightarrow> (Inl err, e # es)
   | Inr b \<Rightarrow> (case modify_loop fm strict es of (ms, es') \<Rightarrow>
       if b then (rmap ((#) (e\<lparr>te_actions := fm_actions fm\<rparr>)) ms, e\<lparr>te_actions := fm_actions fm\<rparr> # es') else (ms, e # es')))"

definition add_flow_mod :: "int \<Rightarrow> ofp_flow_mod \<Rightarrow> flow_table \<Rightarrow> flow_table" where
  "add_flow_mod now fm t =
     add_entry (from_flow_mod (ft_fresh t) now fm) (t\<lparr>ft_fresh := Suc (ft_fresh t)\<rparr>)"

definition process_flow_mod :: "int \<Rightarrow> ofp_flow_mod \<Rightarrow> (flow_table, fm_result) sm" where
  "process_flow_mod now fm t =
     (if fm_flags fm AND 2 \<noteq> 0 then (Inl NotImplementedError, t)
      else if fm_out_port fm \<noteq> OFPP_NONE then (Inl NotImplementedError, t)
      else if fm_command fm = OFPFC_ADD then
        (case remove_matching_entries (fm_match fm) (fm_priority fm) True t of
           Inl err \<Rightarrow> (Inl err, t)
         | Inr (t, _) \<Rightarrow> (Inr Added, add_flow_mod now fm t))
      else if fm_command fm = OFPFC_MODIFY \<or> fm_command fm = OFPFC_MODIFY_STRICT then
        (case modify_loop fm (fm_command fm = OFPFC_MODIFY_STRICT) (ft_table t) of
           (Inl err, es) \<Rightarrow> (Inl err, t\<lparr>ft_table := es\<rparr>)
         | (Inr ms, es) \<Rightarrow> if ms = [] then (Inr Added, add_flow_mod now fm (t\<lparr>ft_table := es\<rparr>)) else (Inr (Modified ms), t\<lparr>ft_table := es\<rparr>))
      else if fm_command fm = OFPFC_DELETE \<or> fm_command fm = OFPFC_DELETE_STRICT then
        (case remove_matching_entries (fm_match fm) (fm_priority fm) True t of
           Inl err \<Rightarrow> (Inl err, t)
         | Inr (t, rs) \<Rightarrow> (Inr (Removed rs), t))
      else (Inl AttributeError, t))"


section \<open>Laws\<close>

text \<open>
  The invariant of a table: sorted by descending effective priority, one entry per object, all objects older
  than the next one to be created.
\<close>

definition table_ok :: "flow_table \<Rightarrow> bool" where
  "table_ok t \<longleftrightarrow> sorted (map (\<lambda>e. - effective_priority e) (ft_table t))
     \<and> distinct (map te_oid (ft_table t)) \<and> list_all (\<lambda>e. te_oid e < ft_fresh t) (ft_table t)"

lemma raise_modification_simps [simp]:
  "ft_table (raise_modification a r t) = ft_table t"
  "ft_fresh (raise_modification a r t) = ft_fresh t"
  by (simp_all add: raise_modification_def)

lemma te_oid_touch [simp]: "te_oid (touch_packet n now e) = te_oid e"
  by (simp add: touch_packet_def)

lemma from_flow_mod_simps [simp]:
  "te_oid (from_flow_mod i now fm) = i" "te_match (from_flow_mod i now fm) = fm_match fm"
  "te_priority (from_flow_mod i now fm) = fm_priority fm" "te_actions (from_flow_mod i now fm) = fm_actions fm"
  by (simp_all add: from_flow_mod_def TableEntry_init_def)

lemma effective_priority_actions [simp]:
  "effective_priority (e\<lparr>te_actions := a\<rparr>) = effective_priority e"
  by (simp add: effective_priority_def)

subsection \<open>Removal by identity\<close>

lemma remove_oid_spec:
  "distinct (map te_oid es) \<Longrightarrow> i \<in> te_oid ` set es \<Longrightarrow> remove_oid i es = Inr (filter (\<lambda>e. te_oid e \<noteq> i) es)"
proof (induction es)
  case (Cons x xs)
  show ?case
  proof (cases "te_oid x = i")
    case True
    then have "i \<notin> te_oid ` set xs" using Cons.prems(1) by simp
    then have "filter (\<lambda>e. te_oid e \<noteq> i) xs = xs" unfolding filter_id_conv by blast
    then show ?thesis using True by simp
  qed (use Cons in auto)
qed simp

lemma remove_oid_absent: "i \<notin> te_oid ` set es \<Longrightarrow> remove_oid i es = Inl ValueError"
  by (induction es) auto

lemma remove_all_spec:
  "distinct (map te_oid es) \<Longrightarrow> distinct (map te_oid rs) \<Longrightarrow> te_oid ` set rs \<subseteq> te_oid ` set es
   \<Longrightarrow> remove_all rs es = Inr (filter (\<lambda>e. te_oid e \<notin> te_oid ` set rs) es)"
proof (induction rs arbitrary: es)
  case (Cons r rs)
  then have "remove_oid (te_oid r) es = Inr (filter (\<lambda>e. te_oid e \<noteq> te_oid r) es)"
    using remove_oid_spec by auto
  moreover have "distinct (map te_oid (filter (\<lambda>e. te_oid e \<noteq> te_oid r) es))"
    using Cons.prems(1) by (rule distinct_map_filter)
  moreover have "te_oid ` set rs \<subseteq> te_oid ` set (filter (\<lambda>e. te_oid e \<noteq> te_oid r) es)"
  proof
    fix i
    assume i: "i \<in> te_oid ` set rs"
    then obtain x where "x \<in> set es" "te_oid x = i" using Cons.prems(3) by auto
    moreover have "te_oid r \<notin> te_oid ` set rs" using Cons.prems(2) by simp
    then have "i \<noteq> te_oid r" using i by blast
    ultimately show "i \<in> te_oid ` set (filter (\<lambda>e. te_oid e \<noteq> te_oid r) es)" by force
  qed
  ultimately show ?case using Cons by (auto intro!: filter_cong)
qed simp

lemma remove_all_filter:
  assumes "distinct (map te_oid es)"
  shows "remove_all (filter P es) es = Inr (filter (\<lambda>e. \<not> P e) es)"
proof -
  have "e = e'" if "e \<in> set es" "e' \<in> set es" "te_oid e = te_oid e'" for e e'
    using that assms by (meson distinct_map inj_on_def)
  then have "filter (\<lambda>e. te_oid e \<notin> te_oid ` set (filter P es)) es = filter (\<lambda>e. \<not> P e) es"
    by (auto intro!: filter_cong)
  then show ?thesis using remove_all_spec [OF assms, of "filter P es"] assms
    by (auto simp: distinct_map_filter)
qed

lemma rfilter_total:
  "(\<And>x. x \<in> set xs \<Longrightarrow> P x = Inr (Q x)) \<Longrightarrow> rfilter P xs = Inr (filter Q xs)"
  by (induction xs) auto

lemma rfilter_Inr_iff:
  "rfilter P xs = Inr ys \<longleftrightarrow> (\<forall>x \<in> set xs. \<exists>b. P x = Inr b) \<and> ys = filter (\<lambda>x. P x = Inr True) xs"
proof (induction xs arbitrary: ys)
  case (Cons x xs)
  then show ?case by (cases "P x") (auto simp: rmap_eq_Inr)
qed auto

subsection \<open>The invariant is kept\<close>

lemma table_okI:
  "sorted (map (\<lambda>e. - effective_priority e) (ft_table t)) \<Longrightarrow> distinct (map te_oid (ft_table t))
   \<Longrightarrow> list_all (\<lambda>e. te_oid e < ft_fresh t) (ft_table t) \<Longrightarrow> table_ok t"
  by (simp add: table_ok_def)

lemma table_ok_init: "table_ok FlowTable_init"
  by (simp add: table_ok_def FlowTable_init_def)

lemma table_ok_distinct: "table_ok t \<Longrightarrow> distinct (map te_oid (ft_table t))"
  by (simp add: table_ok_def)

lemma table_ok_raise [simp]: "table_ok (raise_modification a r t) \<longleftrightarrow> table_ok t"
  by (simp add: table_ok_def)

lemma table_ok_filter: "table_ok t \<Longrightarrow> table_ok (t\<lparr>ft_table := filter P (ft_table t)\<rparr>)"
  by (auto simp: table_ok_def sorted_filter distinct_map_filter list_all_iff)

lemma add_entry_table [simp]:
  "ft_table (add_entry e t) = sort_key (\<lambda>x. - effective_priority x) (ft_table t @ [e])"
  "ft_fresh (add_entry e t) = ft_fresh t"
  by (simp_all add: add_entry_def)

lemma table_ok_add_entry:
  assumes "table_ok t" "te_oid e \<notin> te_oid ` set (ft_table t)" "te_oid e < ft_fresh t"
  shows "table_ok (add_entry e t)"
proof (rule table_okI)
  have "distinct (map te_oid (ft_table t @ [e]))" using assms by (auto simp: table_ok_def)
  then show "distinct (map te_oid (ft_table (add_entry e t)))"
    unfolding add_entry_table distinct_map set_sort distinct_sort .
qed (use assms in \<open>auto simp: table_ok_def list_all_iff\<close>)

lemma add_flow_mod_table:
  "set (ft_table (add_flow_mod now fm t)) = insert (from_flow_mod (ft_fresh t) now fm) (set (ft_table t))"
  by (auto simp: add_flow_mod_def)

lemma table_ok_add_flow_mod: "table_ok t \<Longrightarrow> table_ok (add_flow_mod now fm t)"
  unfolding add_flow_mod_def
  by (rule table_ok_add_entry) (auto simp: table_ok_def list_all_iff)

subsection \<open>What each operation does\<close>

lemma remove_matching_entries_spec:
  assumes "table_ok t"
  shows "remove_matching_entries mtch priority strict t =
    rmap (\<lambda>rs. (raise_modification [] rs
        (t\<lparr>ft_table := filter (\<lambda>e. is_matched_by e mtch priority strict None \<noteq> Inr True) (ft_table t)\<rparr>), rs))
      (matching_entries mtch priority strict None t)"
proof (cases "matching_entries mtch priority strict None t")
  case (Inr rs)
  then have "rs = filter (\<lambda>e. is_matched_by e mtch priority strict None = Inr True) (ft_table t)"
    by (simp add: matching_entries_def rfilter_Inr_iff)
  then show ?thesis using remove_all_filter [OF table_ok_distinct [OF assms]] Inr
    by (simp add: remove_matching_entries_def)
qed (simp add: remove_matching_entries_def)

lemma remove_expired_entries_spec:
  assumes "table_ok t"
  shows "remove_expired_entries now t =
    Inr (raise_modification [] (filter (is_expired now) (ft_table t))
           (t\<lparr>ft_table := filter (\<lambda>e. \<not> is_expired now e) (ft_table t)\<rparr>),
         filter (is_expired now) (ft_table t))"
  using remove_all_filter [OF table_ok_distinct [OF assms], of "is_expired now"]
  by (simp add: remove_expired_entries_def expired_entries_def Let_def)

lemma modify_loop_Inr:
  "modify_loop fm strict es = (Inr ms, es') \<Longrightarrow>
     es' = map (\<lambda>e. if is_matched_by e (fm_match fm) (fm_priority fm) strict None = Inr True
                    then e\<lparr>te_actions := fm_actions fm\<rparr> else e) es
     \<and> ms = map (\<lambda>e. e\<lparr>te_actions := fm_actions fm\<rparr>)
             (filter (\<lambda>e. is_matched_by e (fm_match fm) (fm_priority fm) strict None = Inr True) es)"
proof (induction es arbitrary: es' ms)
  case (Cons e es)
  then show ?case
    by (cases "is_matched_by e (fm_match fm) (fm_priority fm) strict None")
      (auto simp: rmap_eq_Inr split: if_split_asm prod.splits)
qed simp

lemma modify_loop_keeps:
  "modify_loop fm strict es = (r, es') \<Longrightarrow> map te_oid es' = map te_oid es \<and> map effective_priority es' = map effective_priority es"
  by (induction es arbitrary: r es') (auto split: sum.splits prod.splits if_split_asm)

lemma table_ok_map:
  assumes "table_ok t" "\<And>e. te_oid (f e) = te_oid e" "\<And>e. effective_priority (f e) = effective_priority e"
  shows "table_ok (t\<lparr>ft_table := map f (ft_table t)\<rparr>)"
  using assms by (simp add: table_ok_def comp_def list_all_iff)

lemma table_ok_remove_matching:
  "table_ok t \<Longrightarrow> remove_matching_entries mtch priority strict t = Inr (t', rs) \<Longrightarrow> table_ok t'"
  by (auto simp: remove_matching_entries_spec rmap_eq_Inr table_ok_filter)

lemma table_ok_modify:
  assumes "table_ok t" "modify_loop fm strict (ft_table t) = (r, es)"
  shows "table_ok (t\<lparr>ft_table := es\<rparr>)"
proof -
  have m: "map te_oid es = map te_oid (ft_table t)" "map effective_priority es = map effective_priority (ft_table t)"
    using modify_loop_keeps [OF assms(2)] by auto
  have "map (\<lambda>e. - effective_priority e) es = map uminus (map effective_priority es)" by simp
  also have "\<dots> = map (\<lambda>e. - effective_priority e) (ft_table t)" unfolding m(2) by simp
  finally have "sorted (map (\<lambda>e. - effective_priority e) es)" using assms(1) by (simp add: table_ok_def)
  moreover have "te_oid e < ft_fresh t" if "e \<in> set es" for e
  proof -
    have "te_oid e \<in> set (map te_oid (ft_table t))" using that unfolding m(1) [symmetric] by simp
    then show ?thesis using assms(1) by (auto simp: table_ok_def list_all_iff)
  qed
  ultimately show ?thesis using assms(1) m(1) by (simp add: table_ok_def list_all_iff)
qed

lemma table_ok_process_flow_mod:
  assumes "table_ok t" "process_flow_mod now fm t = (r, t')"
  shows "table_ok t'"
  using assms table_ok_remove_matching [OF assms(1)] table_ok_modify [OF assms(1)]
  by (auto simp: process_flow_mod_def table_ok_add_flow_mod split: if_split_asm sum.splits prod.splits)

subsection \<open>Lookup\<close>

text \<open>
  The contract of a scan through an ordered table: the first entry that passes the test, and the first test
  that raises ends the scan.  The laws hold for every scan of this shape.
\<close>

locale scan =
  fixes test :: "'e \<Rightarrow> 'p \<Rightarrow> bool res" and look :: "'p \<Rightarrow> 'e list \<Rightarrow> 'e option res"
  assumes look_Nil: "look p [] = Inr None"
    and look_Cons: "look p (e # es) = rbind (test e p) (\<lambda>b. if b then Inr (Some e) else look p es)"
begin

lemma look_skip: "\<forall>u \<in> set us. test u p = Inr False \<Longrightarrow> look p (us @ vs) = look p vs"
  by (induction us) (simp_all add: look_Cons)

lemma look_SomeD:
  "look p es = Inr (Some e) \<Longrightarrow>
     \<exists>us vs. es = us @ e # vs \<and> test e p = Inr True \<and> (\<forall>u \<in> set us. test u p = Inr False)"
proof (induction es)
  case (Cons x es)
  then obtain b where b: "test x p = Inr b" by (auto simp: look_Cons rbind_eq_Inr)
  show ?case
  proof (cases b)
    case True
    then show ?thesis using b Cons.prems by (intro exI [of _ "[]"] exI [of _ es]) (simp add: look_Cons)
  next
    case False
    then obtain us vs where "es = us @ e # vs" "test e p = Inr True" "\<forall>u \<in> set us. test u p = Inr False"
      using b Cons by (auto simp: look_Cons)
    then show ?thesis using b False by (intro exI [of _ "x # us"] exI [of _ vs]) simp
  qed
qed (simp add: look_Nil)

lemma look_Some_split:
  "look p es = Inr (Some e) \<longleftrightarrow>
     (\<exists>us vs. es = us @ e # vs \<and> test e p = Inr True \<and> (\<forall>u \<in> set us. test u p = Inr False))"
  using look_SomeD by (auto simp: look_skip look_Cons)

lemma look_None: "look p es = Inr None \<longleftrightarrow> (\<forall>e \<in> set es. test e p = Inr False)"
proof (induction es)
  case (Cons x es)
  then show ?case by (cases "test x p") (auto simp: look_Cons)
qed (simp add: look_Nil)

lemma look_total: "(\<And>e. e \<in> set es \<Longrightarrow> \<exists>b. test e p = Inr b) \<Longrightarrow> \<exists>r. look p es = Inr r"
proof (induction es)
  case (Cons x es)
  then obtain b where "test x p = Inr b" by auto
  then show ?case using Cons by (auto simp: look_Cons)
qed (simp add: look_Nil)

lemma look_highest:
  fixes key :: "'e \<Rightarrow> int"
  assumes "look p es = Inr (Some e)" "sorted (map (\<lambda>e. - key e) es)" "e' \<in> set es" "test e' p = Inr True"
  shows "key e' \<le> key e"
proof -
  obtain us vs where es: "es = us @ e # vs" and us: "\<forall>u \<in> set us. test u p = Inr False"
    using assms(1) look_Some_split by blast
  then have "e' \<in> set (e # vs)" using assms(3,4) by auto
  then show ?thesis using assms(2) by (auto simp: es sorted_append)
qed

lemma look_unique_highest:
  fixes key :: "'e \<Rightarrow> int"
  assumes "sorted (map (\<lambda>e. - key e) es)" "e \<in> set es" "test e p = Inr True"
    and "\<And>e'. e' \<in> set es \<Longrightarrow> \<exists>b. test e' p = Inr b"
    and "\<And>e'. e' \<in> set es \<Longrightarrow> e' \<noteq> e \<Longrightarrow> test e' p = Inr True \<Longrightarrow> key e' < key e"
  shows "look p es = Inr (Some e)"
proof -
  obtain r where r: "look p es = Inr r" using look_total assms(4) by blast
  moreover obtain e0 where "r = Some e0" using r assms(2,3) look_None [of p es] by (cases r) auto
  moreover have "e0 \<in> set es" "test e0 p = Inr True" using r calculation look_Some_split [of p es e0] by auto
  ultimately show ?thesis using look_highest [of p es e0 key e] assms by fastforce
qed

lemma look_filter:
  "look p es = Inr (Some e) \<Longrightarrow> Q e \<Longrightarrow> look p (filter Q es) = Inr (Some e)"
  unfolding look_Some_split
  by (elim exE conjE, rule_tac x = "filter Q us" in exI, rule_tac x = "filter Q vs" in exI) auto

end

interpretation lookup: scan "\<lambda>e pm. matches_with_wildcards (te_match e) pm False" first_match
  by unfold_locales simp_all

lemma matches_total:
  assumes "match_typed a" "match_typed b"
  shows "\<exists>v. matches_with_wildcards a b f = Inr v"
proof -
  have n: "nw_subsumes (get_nw_src a) (get_nw_src b) = Inr (prefix_covers (nw_prefix (get_nw_src a)) (nw_prefix (get_nw_src b)))"
      "nw_subsumes (get_nw_dst a) (get_nw_dst b) = Inr (prefix_covers (nw_prefix (get_nw_dst a)) (nw_prefix (get_nw_dst b)))"
    using prefix_ok_get [OF assms(1)] prefix_ok_get [OF assms(2)] by (simp_all add: nw_subsumes_iff)
  show ?thesis
    unfolding matches_with_wildcards_def ofp_match_eq_iff [OF assms] n Let_def by auto
qed

lemma is_matched_by_total:
  "match_typed (te_match e) \<Longrightarrow> match_typed mtch \<Longrightarrow> \<exists>b. is_matched_by e mtch priority strict op = Inr b"
  using matches_total [of mtch "te_match e" True]
  by (auto simp: is_matched_by_def ofp_match_eq_iff)

lemma strict_matched_iff:
  "is_matched_by e mtch priority True None = Inr True \<longleftrightarrow>
     ofp_match_eq (te_match e) mtch = Inr True \<and> te_priority e = priority"
  by (auto simp: is_matched_by_def check_port_def rmap_eq_Inr)

text \<open>An addition that nothing forbids: the table it leaves\<close>

lemma flow_mod_add_table:
  assumes "table_ok t" "\<forall>e \<in> set (ft_table t). match_typed (te_match e)" "match_typed (fm_match fm)"
    and "fm_command fm = OFPFC_ADD" "fm_flags fm AND 2 = 0" "fm_out_port fm = OFPP_NONE"
  shows "\<exists>t'. process_flow_mod now fm t = (Inr Added, t')
    \<and> set (ft_table t') = insert (from_flow_mod (ft_fresh t) now fm)
        {e \<in> set (ft_table t). \<not> (ofp_match_eq (te_match e) (fm_match fm) = Inr True \<and> te_priority e = fm_priority fm)}"
proof -
  obtain rs where "matching_entries (fm_match fm) (fm_priority fm) True None t = Inr rs"
    using is_matched_by_total assms(2,3) unfolding matching_entries_def rfilter_Inr_iff by blast
  then show ?thesis
    using assms(4-6) by (auto simp: process_flow_mod_def remove_matching_entries_spec [OF assms(1)] add_flow_mod_table strict_matched_iff)
qed


section \<open>Runs of the table\<close>

text \<open>\<open>entry.touch_packet(\<dots>)\<close>, through the reference the lookup returned\<close>

definition touch_entry :: "nat \<Rightarrow> int \<Rightarrow> int \<Rightarrow> flow_table \<Rightarrow> flow_table" where
  "touch_entry i byte_count now t =
     t\<lparr>ft_table := map (\<lambda>e. if te_oid e = i then touch_packet byte_count now e else e) (ft_table t)\<rparr>"

inductive table_step :: "flow_table \<Rightarrow> flow_table \<Rightarrow> bool" where
  flow_mod: "process_flow_mod now fm t = (r, t') \<Longrightarrow> table_step t t'"
| expire: "remove_expired_entries now t = Inr (t', rs) \<Longrightarrow> table_step t t'"
| removal: "remove_entry e t = Inr t' \<Longrightarrow> table_step t t'"
| touch: "table_step t (touch_entry i byte_count now t)"

inductive table_reach :: "flow_table \<Rightarrow> bool" where
  init: "table_reach FlowTable_init"
| step: "table_reach t \<Longrightarrow> table_step t t' \<Longrightarrow> table_reach t'"

lemma effective_priority_touch [simp]:
  "effective_priority (touch_packet n now e) = effective_priority e"
  by (simp add: effective_priority_def touch_packet_def)

lemma remove_entry_Inr:
  assumes "table_ok t" "remove_entry e t = Inr t'"
  shows "t' = raise_modification [] [e] (t\<lparr>ft_table := filter (\<lambda>x. te_oid x \<noteq> te_oid e) (ft_table t)\<rparr>)"
proof (cases "te_oid e \<in> te_oid ` set (ft_table t)")
  case True
  then show ?thesis using remove_oid_spec [OF table_ok_distinct [OF assms(1)] True] assms(2)
    by (simp add: remove_entry_def)
next
  case False
  then show ?thesis using remove_oid_absent [OF False] assms(2) by (simp add: remove_entry_def)
qed

lemma table_step_ok: "table_step t t' \<Longrightarrow> table_ok t \<Longrightarrow> table_ok t'"
proof (induction rule: table_step.induct)
  case (flow_mod now fm t r t')
  then show ?case using table_ok_process_flow_mod by blast
next
  case (expire now t t' rs)
  then show ?case by (auto simp: remove_expired_entries_spec table_ok_filter)
next
  case (removal e t t')
  then show ?case using remove_entry_Inr [OF removal(2,1)] table_ok_filter [OF removal(2)] by simp
next
  case (touch t i byte_count now)
  then show ?case unfolding touch_entry_def by (intro table_ok_map) auto
qed

lemma table_reach_ok: "table_reach t \<Longrightarrow> table_ok t"
  by (induction rule: table_reach.induct) (auto intro: table_ok_init table_step_ok)

text \<open>
  C2: every table the switch can reach, by any sequence of flow modifications, expiries,
  removals and packet hits, is sorted by descending effective priority (exact matches before all
  others) and holds no entry object twice.
\<close>

theorem reachable_table_sorted:
  assumes "table_reach t"
  shows "sorted_wrt (\<lambda>a b. effective_priority a \<ge> effective_priority b) (ft_table t) \<and> distinct (map te_oid (ft_table t))"
  using table_reach_ok [OF assms] by (simp add: table_ok_def sorted_map)

text \<open>
  C1: \<open>entry_for_packet\<close> on a reachable table returns an entry of the table that matches the
  packet and has the highest effective priority among the matching ones, and \<open>None\<close>
  only when no entry matches.
\<close>

theorem entry_for_packet_highest:
  assumes "table_reach t" "entry_for_packet p in_port t = Inr r"
  shows "\<exists>pm. from_packet p (Some in_port) = Inr pm \<and>
    (case r of
       None \<Rightarrow> \<forall>e \<in> set (ft_table t). matches_with_wildcards (te_match e) pm False = Inr False
     | Some e \<Rightarrow> e \<in> set (ft_table t) \<and> matches_with_wildcards (te_match e) pm False = Inr True \<and>
         (\<forall>e' \<in> set (ft_table t). matches_with_wildcards (te_match e') pm False = Inr True
            \<longrightarrow> effective_priority e' \<le> effective_priority e))"
proof -
  obtain pm where pm: "from_packet p (Some in_port) = Inr pm" "first_match pm (ft_table t) = Inr r"
    using assms(2) by (auto simp: entry_for_packet_def rbind_eq_Inr)
  have s: "sorted (map (\<lambda>e. - effective_priority e) (ft_table t))"
    using table_reach_ok [OF assms(1)] by (simp add: table_ok_def)
  show ?thesis
  proof (cases r)
    case None
    then show ?thesis using pm lookup.look_None by auto
  next
    case (Some e)
    then have e: "first_match pm (ft_table t) = Inr (Some e)" using pm by simp
    then have "e \<in> set (ft_table t)" "matches_with_wildcards (te_match e) pm False = Inr True"
      using lookup.look_SomeD by fastforce+
    then show ?thesis using pm Some lookup.look_highest [OF e s] by auto
  qed
qed

text \<open>
  C4: an \<open>ADD\<close> without overlap check and output port, in a reachable table, puts the new entry in the place of exactly the entries
  with an equal match and the same priority; every other entry stays.  A packet the new match covers then hits the
  new entry when every entry that stays and matches the packet has a lower effective priority.
\<close>

theorem flow_mod_add_installs:
  assumes "table_reach t" "\<forall>e \<in> set (ft_table t). match_typed (te_match e)" "match_typed (fm_match fm)"
    and "fm_command fm = OFPFC_ADD" "fm_flags fm AND 2 = 0" "fm_out_port fm = OFPP_NONE"
  shows "\<exists>t'. process_flow_mod now fm t = (Inr Added, t')
    \<and> set (ft_table t') = insert (from_flow_mod (ft_fresh t) now fm)
        {e \<in> set (ft_table t). \<not> (ofp_match_eq (te_match e) (fm_match fm) = Inr True \<and> te_priority e = fm_priority fm)}
    \<and> (\<forall>pm. match_typed pm \<and> matches_with_wildcards (fm_match fm) pm False = Inr True
        \<and> (\<forall>e \<in> set (ft_table t). matches_with_wildcards (te_match e) pm False = Inr True \<longrightarrow>
             ofp_match_eq (te_match e) (fm_match fm) = Inr True \<and> te_priority e = fm_priority fm
             \<or> effective_priority e < effective_priority (from_flow_mod (ft_fresh t) now fm))
        \<longrightarrow> first_match pm (ft_table t') = Inr (Some (from_flow_mod (ft_fresh t) now fm)))"
proof -
  let ?new = "from_flow_mod (ft_fresh t) now fm"
  have ok: "table_ok t" using assms(1) by (rule table_reach_ok)
  obtain t' where p: "process_flow_mod now fm t = (Inr Added, t')" and s: "set (ft_table t') = insert ?new
      {e \<in> set (ft_table t). \<not> (ofp_match_eq (te_match e) (fm_match fm) = Inr True \<and> te_priority e = fm_priority fm)}"
    using flow_mod_add_table [OF ok assms(2-6), of now] by blast
  have ok': "table_ok t'" using table_ok_process_flow_mod [OF ok p] .
  have "first_match pm (ft_table t') = Inr (Some ?new)"
    if "match_typed pm" "matches_with_wildcards (fm_match fm) pm False = Inr True"
      "\<forall>e \<in> set (ft_table t). matches_with_wildcards (te_match e) pm False = Inr True \<longrightarrow>
         ofp_match_eq (te_match e) (fm_match fm) = Inr True \<and> te_priority e = fm_priority fm \<or> effective_priority e < effective_priority ?new" for pm
  proof (rule lookup.look_unique_highest [where key = effective_priority])
    show "\<exists>b. matches_with_wildcards (te_match e) pm False = Inr b" if "e \<in> set (ft_table t')" for e
      using that \<open>match_typed pm\<close> assms(2,3) s matches_total by auto
  qed (use ok' s that in \<open>auto simp: table_ok_def\<close>)
  then show ?thesis using p s by blast
qed

text \<open>
  \<open>MODIFY\<close> and \<open>MODIFY_STRICT\<close> replace the actions of exactly the entries they match and
  keep everything else of the table: order, priorities, cookies, timeouts, counters.  When
  nothing matches the message acts as an \<open>ADD\<close> that removes nothing.
\<close>

theorem flow_mod_modify_actions:
  assumes "process_flow_mod now fm t = (Inr r, t')" "fm_command fm \<in> {OFPFC_MODIFY, OFPFC_MODIFY_STRICT}"
  shows "let hit = (\<lambda>e. is_matched_by e (fm_match fm) (fm_priority fm) (fm_command fm = OFPFC_MODIFY_STRICT) None = Inr True);
             hits = filter hit (ft_table t)
    in if hits = [] then r = Added \<and> set (ft_table t') = insert (from_flow_mod (ft_fresh t) now fm) (set (ft_table t))
       else r = Modified (map (\<lambda>e. e\<lparr>te_actions := fm_actions fm\<rparr>) hits)
         \<and> t' = t\<lparr>ft_table := map (\<lambda>e. if hit e then e\<lparr>te_actions := fm_actions fm\<rparr> else e) (ft_table t)\<rparr>"
proof -
  let ?st = "fm_command fm = OFPFC_MODIFY_STRICT"
  obtain es ms where m: "modify_loop fm ?st (ft_table t) = (Inr ms, es)"
    and r: "(if ms = [] then (add_flow_mod now fm (t\<lparr>ft_table := es\<rparr>), Added) else (t\<lparr>ft_table := es\<rparr>, Modified ms)) = (t', r)"
    using assms by (auto simp: process_flow_mod_def split: if_split_asm sum.splits prod.splits)
  note e = modify_loop_Inr [OF m]
  show ?thesis
  proof (cases "ms = []")
    case True
    then have n: "filter (\<lambda>e. is_matched_by e (fm_match fm) (fm_priority fm) ?st None = Inr True) (ft_table t) = []"
      using e by simp
    then have "es = ft_table t" using e by (auto simp: filter_empty_conv intro!: map_idI)
    then show ?thesis using r n True by (auto simp: add_flow_mod_table Let_def)
  next
    case False
    then show ?thesis using r e by (auto simp: Let_def)
  qed
qed

text \<open>
  the switch deletes strictly even for the non-strict \<open>DELETE\<close>: only entries with an equal
  match and the same priority go, and the two delete commands are the same operation.
\<close>

theorem delete_ignores_strictness:
  "process_flow_mod now (fm\<lparr>fm_command := OFPFC_DELETE\<rparr>) t = process_flow_mod now (fm\<lparr>fm_command := OFPFC_DELETE_STRICT\<rparr>) t
   \<and> (table_reach t \<and> process_flow_mod now (fm\<lparr>fm_command := OFPFC_DELETE\<rparr>) t = (Inr r, t') \<longrightarrow>
        ft_table t' = filter (\<lambda>e. \<not> (ofp_match_eq (te_match e) (fm_match fm) = Inr True \<and> te_priority e = fm_priority fm)) (ft_table t))"
proof -
  have "process_flow_mod now (fm\<lparr>fm_command := OFPFC_DELETE\<rparr>) t = process_flow_mod now (fm\<lparr>fm_command := OFPFC_DELETE_STRICT\<rparr>) t"
    by (simp add: process_flow_mod_def)
  moreover have "ft_table t' = filter (\<lambda>e. \<not> (ofp_match_eq (te_match e) (fm_match fm) = Inr True \<and> te_priority e = fm_priority fm)) (ft_table t)"
    if "table_reach t" "process_flow_mod now (fm\<lparr>fm_command := OFPFC_DELETE\<rparr>) t = (Inr r, t')"
    using that(2) table_reach_ok [OF that(1)]
    by (auto simp: process_flow_mod_def remove_matching_entries_spec rmap_eq_Inr strict_matched_iff split: if_split_asm sum.splits prod.splits)
  ultimately show ?thesis by blast
qed

text \<open>
  expiry never fails on a reachable table, removes exactly the entries whose hard or idle
  timeout has passed, reports them and tells the listeners once.
\<close>

theorem remove_expired_exact:
  assumes "table_reach t"
  shows "\<exists>t'. remove_expired_entries now t = Inr (t', filter (is_expired now) (ft_table t))
    \<and> ft_table t' = filter (\<lambda>e. \<not> is_expired now e) (ft_table t)
    \<and> ft_events t' = ft_events t @ [\<lparr>ev_added = [], ev_removed = filter (is_expired now) (ft_table t)\<rparr>]"
  using remove_expired_entries_spec [OF table_reach_ok [OF assms]] by (simp add: raise_modification_def)


text \<open>One flow modification into the empty table, for the witnesses.\<close>

lemma match_init_typed: "match_typed ofp_match_init"
  by (simp add: match_typed_def ofp_match_init_def)

lemma first_add:
  "process_flow_mod now ofp_flow_mod_init FlowTable_init =
     (Inr Added, add_flow_mod now ofp_flow_mod_init (raise_modification [] [] FlowTable_init))"
  by (simp add: process_flow_mod_def ofp_flow_mod_init_def remove_matching_entries_def matching_entries_def
      FlowTable_init_def)

lemma first_add_table:
  "ft_table (add_flow_mod now fm (raise_modification [] [] FlowTable_init)) = [from_flow_mod 0 now fm]"
  by (simp add: add_flow_mod_def FlowTable_init_def)

lemma first_add_reach: "table_reach (add_flow_mod now ofp_flow_mod_init (raise_modification [] [] FlowTable_init))"
  by (rule table_reach.step [OF table_reach.init table_step.flow_mod [OF first_add]])

theorem reachable_table_sorted_witness:
  "\<exists>t. table_reach t \<and> length (ft_table t) = 1 \<and> distinct (map te_oid (ft_table t))"
  using reachable_table_sorted [OF first_add_reach [of 0]] first_add_reach [of 0] first_add_table [of 0 ofp_flow_mod_init]
  by (intro exI) auto


lemma wild_matches_all:
  assumes "match_typed pm"
  shows "matches_with_wildcards ofp_match_init pm False = Inr True"
  using ofp_match_eq_iff [OF match_init_typed assms]
  by (simp add: matches_with_wildcards_def ofp_match_init_def match_get_defs get_nw_src_def get_nw_dst_def wild_def
      init_wildcards match_fail_def match_fail_hw_def nw_subsumes_def Let_def hw_attr_eq_def)

lemma raw_match:
  "\<exists>pm. from_packet (Ethernet ethernet_init (Bytes [])) (Some 1) = Inr pm \<and> match_typed pm"
  by (simp add: from_packet_raw match_typed_def ethernet_init_def)

theorem entry_for_packet_highest_witness:
  "\<exists>t e. table_reach t \<and> entry_for_packet (Ethernet ethernet_init (Bytes [])) 1 t = Inr (Some e)
     \<and> (\<forall>e' \<in> set (ft_table t). effective_priority e' \<le> effective_priority e)"
proof -
  let ?t = "add_flow_mod 0 ofp_flow_mod_init (raise_modification [] [] FlowTable_init)"
  obtain pm where pm: "from_packet (Ethernet ethernet_init (Bytes [])) (Some 1) = Inr pm" "match_typed pm"
    using raw_match by blast
  have m: "matches_with_wildcards (te_match e) pm False = Inr True" if "e \<in> set (ft_table ?t)" for e
    using that wild_matches_all [OF pm(2)] by (auto simp: first_add_table ofp_flow_mod_init_def)
  then have r: "entry_for_packet (Ethernet ethernet_init (Bytes [])) 1 ?t = Inr (Some (from_flow_mod 0 0 ofp_flow_mod_init))"
    by (simp add: entry_for_packet_def pm first_add_table)
  have "\<forall>e' \<in> set (ft_table ?t). effective_priority e' \<le> effective_priority (from_flow_mod 0 0 ofp_flow_mod_init)"
    using entry_for_packet_highest [OF first_add_reach r] pm(1) m by simp
  then show ?thesis using r first_add_reach by blast
qed

theorem flow_mod_add_installs_witness:
  "let t = add_flow_mod 0 ofp_flow_mod_init (raise_modification [] [] FlowTable_init);
       fm = ofp_flow_mod_init\<lparr>fm_actions := [ActVlanPcp ofp_action_vlan_pcp_init]\<rparr>
   in \<exists>t' pm. process_flow_mod 7 fm t = (Inr Added, t') \<and> set (ft_table t) = {from_flow_mod 0 0 ofp_flow_mod_init}
     \<and> set (ft_table t') = {from_flow_mod (ft_fresh t) 7 fm} \<and> from_packet (Ethernet ethernet_init (Bytes [])) (Some 1) = Inr pm
     \<and> first_match pm (ft_table t') = Inr (Some (from_flow_mod (ft_fresh t) 7 fm))"
proof -
  let ?t = "add_flow_mod 0 ofp_flow_mod_init (raise_modification [] [] FlowTable_init)"
  let ?fm = "ofp_flow_mod_init\<lparr>fm_actions := [ActVlanPcp ofp_action_vlan_pcp_init]\<rparr>"
  obtain pm where pm: "from_packet (Ethernet ethernet_init (Bytes [])) (Some 1) = Inr pm" "match_typed pm"
    using raw_match by blast
  have fm: "fm_match ?fm = ofp_match_init" "fm_command ?fm = OFPFC_ADD" "fm_flags ?fm = 0" "fm_out_port ?fm = OFPP_NONE" "fm_priority ?fm = fm_priority ofp_flow_mod_init"
    by (simp_all add: ofp_flow_mod_init_def)
  have e: "te_match (from_flow_mod 0 0 ofp_flow_mod_init) = ofp_match_init" "te_priority (from_flow_mod 0 0 ofp_flow_mod_init) = fm_priority ofp_flow_mod_init"
    by (simp_all add: ofp_flow_mod_init_def)
  have q: "ofp_match_eq ofp_match_init ofp_match_init = Inr True" by (simp add: ofp_match_eq_iff match_init_typed)
  have m: "ofp_match_eq (te_match e) (fm_match ?fm) = Inr True \<and> te_priority e = fm_priority ?fm" if "e \<in> set (ft_table ?t)" for e
    using that q e unfolding fm by (simp add: first_add_table)
  have "match_typed (fm_match ?fm)" "fm_flags ?fm AND 2 = 0" "\<forall>e \<in> set (ft_table ?t). match_typed (te_match e)"
    using match_init_typed e(1) unfolding fm by (simp_all add: first_add_table ofp_flow_mod_init_def)
  then obtain t' where t': "process_flow_mod 7 ?fm ?t = (Inr Added, t')"
    "set (ft_table t') = insert (from_flow_mod (ft_fresh ?t) 7 ?fm)
       {e \<in> set (ft_table ?t). \<not> (ofp_match_eq (te_match e) (fm_match ?fm) = Inr True \<and> te_priority e = fm_priority ?fm)}"
    "first_match pm (ft_table t') = Inr (Some (from_flow_mod (ft_fresh ?t) 7 ?fm))"
    using flow_mod_add_installs [OF first_add_reach [of 0] _ _ fm(2) _ fm(4), of 7] pm(2) m wild_matches_all [OF pm(2)] unfolding fm by blast
  moreover have "set (ft_table ?t) = {from_flow_mod 0 0 ofp_flow_mod_init}" by (simp add: first_add_table)
  moreover have "{e \<in> set (ft_table ?t). \<not> (ofp_match_eq (te_match e) (fm_match ?fm) = Inr True \<and> te_priority e = fm_priority ?fm)} = {}"
    using m by blast
  ultimately show ?thesis using pm(1) unfolding Let_def by metis
qed

theorem flow_mod_modify_actions_witness:
  "let t = add_flow_mod 0 ofp_flow_mod_init (raise_modification [] [] FlowTable_init);
       fm = ofp_flow_mod_init\<lparr>fm_command := OFPFC_MODIFY, fm_actions := [ActVlanPcp ofp_action_vlan_pcp_init]\<rparr>
   in \<exists>t'. process_flow_mod 5 fm t = (Inr (Modified [from_flow_mod 0 0 (ofp_flow_mod_init\<lparr>fm_actions := fm_actions fm\<rparr>)]), t')
     \<and> ft_table t' = [from_flow_mod 0 0 (ofp_flow_mod_init\<lparr>fm_actions := fm_actions fm\<rparr>)]"
proof -
  let ?t = "add_flow_mod 0 ofp_flow_mod_init (raise_modification [] [] FlowTable_init)"
  let ?fm = "ofp_flow_mod_init\<lparr>fm_command := OFPFC_MODIFY, fm_actions := [ActVlanPcp ofp_action_vlan_pcp_init]\<rparr>"
  have "match_covers ofp_match_init ofp_match_init" by (simp add: match_covers_def)
  then have m: "matches_with_wildcards ofp_match_init ofp_match_init True = Inr True"
    using matches_iff [OF match_init_typed match_init_typed] by simp
  have e: "from_flow_mod 0 0 (ofp_flow_mod_init\<lparr>fm_actions := a\<rparr>) = (from_flow_mod 0 0 ofp_flow_mod_init)\<lparr>te_actions := a\<rparr>" for a
    by (simp add: from_flow_mod_def TableEntry_init_def)
  have i: "is_matched_by (from_flow_mod 0 0 ofp_flow_mod_init) (fm_match ?fm) x False None = Inr True" for x
    using m by (simp add: is_matched_by_def check_port_def ofp_flow_mod_init_def)
  have "modify_loop ?fm False (ft_table ?t) = (Inr [(from_flow_mod 0 0 ofp_flow_mod_init)\<lparr>te_actions := fm_actions ?fm\<rparr>],
      [(from_flow_mod 0 0 ofp_flow_mod_init)\<lparr>te_actions := fm_actions ?fm\<rparr>])"
    using i by (simp add: first_add_table)
  then obtain t' r where p: "process_flow_mod 5 ?fm ?t = (Inr r, t')"
    by (simp add: process_flow_mod_def ofp_flow_mod_init_def Let_def)
  have c: "fm_command ?fm \<in> {OFPFC_MODIFY, OFPFC_MODIFY_STRICT}" by simp
  show ?thesis
    using flow_mod_modify_actions [OF p c] p i by (simp add: first_add_table e Let_def)
qed

theorem delete_ignores_strictness_witness:
  "\<exists>t t' r. table_reach t \<and> process_flow_mod 5 (ofp_flow_mod_init\<lparr>fm_priority := 1, fm_command := OFPFC_DELETE\<rparr>) t = (Inr r, t')
     \<and> ft_table t \<noteq> [] \<and> ft_table t' = ft_table t"
proof -
  let ?t = "add_flow_mod 0 ofp_flow_mod_init (raise_modification [] [] FlowTable_init)"
  let ?fm = "ofp_flow_mod_init\<lparr>fm_priority := 1\<rparr>"
  have e: "ofp_match_eq ofp_match_init ofp_match_init = Inr True"
    by (simp add: ofp_match_eq_iff match_init_typed)
  have "matching_entries ofp_match_init 1 True None ?t = Inr []"
    by (simp add: matching_entries_def first_add_table is_matched_by_def e ofp_flow_mod_init_def)
  then obtain t' r where p: "process_flow_mod 5 (?fm\<lparr>fm_command := OFPFC_DELETE\<rparr>) ?t = (Inr r, t')"
    by (simp add: process_flow_mod_def remove_matching_entries_def ofp_flow_mod_init_def)
  then show ?thesis
    using delete_ignores_strictness [of 5 ?fm ?t r t'] first_add_reach [of 0]
    by (intro exI [of _ ?t] exI [of _ t'] exI [of _ r]) (simp add: first_add_table ofp_flow_mod_init_def)
qed

theorem remove_expired_exact_witness:
  "\<exists>t t' e. table_reach t \<and> remove_expired_entries 100 t = Inr (t', []) \<and> ft_table t' = [e]"
proof -
  let ?t = "add_flow_mod 0 ofp_flow_mod_init (raise_modification [] [] FlowTable_init)"
  have "\<not> is_expired 100 (from_flow_mod 0 0 ofp_flow_mod_init)"
    by (simp add: is_expired_def from_flow_mod_def TableEntry_init_def ofp_flow_mod_init_def)
  then obtain t' where "remove_expired_entries 100 ?t = Inr (t', [])" "ft_table t' = [from_flow_mod 0 0 ofp_flow_mod_init]"
    using remove_expired_exact [OF first_add_reach [of 0], of 100] by (auto simp: first_add_table)
  then show ?thesis using first_add_reach [of 0] by blast
qed

end
