(* ===== verification/Nom_Flow_Table.thy ===== *)
theory Nom_Flow_Table
  imports Flow_Table Py_State
begin

text \<open>
  \<open>NOMFlowTable\<close> of \<open>pox/openflow/flow_table.py\<close>: the controller's copy of a switch's table.  Changes are sent to
  the switch, stay pending, and are applied when the barrier sent after them is answered.  The switch object is a
  parameter: its \<open>connected\<close> flag, its identifier generator, and what is sent to it, as a log.  An operation is
  a command with an entry object; operations are equal when the command and the object are.
\<close>

section \<open>State and operations\<close>

type_synonym nom_op = "int \<times> table_entry"

datatype nom_msg = NFlowMod ofp_flow_mod | NBarrier ofp_header

record nom =
  nom_table :: flow_table
  nom_connected :: bool
  nom_xid :: int
  nom_pending :: "nom_op list"
  nom_barrier_ops :: "int \<rightharpoonup> nom_op list"
  nom_op_barrier :: "int \<times> nat \<rightharpoonup> int \<times> int"
  nom_sent :: "nom_msg list"
  nom_events :: "ft_event list"

definition NOMFlowTable_init :: "int \<Rightarrow> nom" where
  "NOMFlowTable_init x = \<lparr>nom_table = FlowTable_init, nom_connected = False, nom_xid = x, nom_pending = [],
     nom_barrier_ops = Map.empty, nom_op_barrier = Map.empty, nom_sent = [], nom_events = []\<rparr>"

definition same_op :: "nom_op \<Rightarrow> nom_op \<Rightarrow> bool" where
  "same_op a b \<longleftrightarrow> fst a = fst b \<and> te_oid (snd a) = te_oid (snd b)"

definition nom_send :: "nom_msg \<Rightarrow> (nom, unit) sm" where
  "nom_send m = smod (\<lambda>s. s\<lparr>nom_sent := nom_sent s @ [m]\<rparr>)"

definition nom_next_xid :: "(nom, int) sm" where
  "nom_next_xid = sbind (sget nom_xid) (\<lambda>n. sthen (smod (\<lambda>s. s\<lparr>nom_xid := snd (xid_next n)\<rparr>)) (sret (fst (xid_next n))))"

definition send_op :: "nom_op \<Rightarrow> (nom, unit) sm" where
  "send_op op = sbind nom_next_xid (\<lambda>x. nom_send (NFlowMod (to_flow_mod (snd op) (Some x) (fst op))))"

text \<open>
  \<open>_sync_pending\<close>.  Its test for operations not yet confirmed, \<open>\<dots> < time.time\<close>, compares a number with a function
  and is always true in Python 2, so all pending operations are sent again each time.
\<close>

definition sync_todo :: "bool \<Rightarrow> (nom, nom_op list) sm" where
  "sync_todo clear =
     (if clear then
        sthen (smod (\<lambda>s. s\<lparr>nom_barrier_ops := Map.empty, nom_op_barrier := Map.empty,
                         nom_pending := filter (\<lambda>op. fst op = OFPFC_ADD) (nom_pending s)\<rparr>))
        (sthen (nom_send (NFlowMod (ofp_flow_mod_init\<lparr>fm_command := OFPFC_DELETE, fm_match := ofp_match_init\<rparr>)))
        (sthen (nom_send (NBarrier ofp_barrier_request_init))
        (sget (\<lambda>s. map (\<lambda>e. (OFPFC_ADD, e)) (ft_table (nom_table s)) @ nom_pending s))))
      else sget nom_pending)"

definition sync_send :: "int \<Rightarrow> nom_op list \<Rightarrow> (nom, unit) sm" where
  "sync_send now todo =
     sthen (sfor send_op todo)
     (sbind nom_next_xid (\<lambda>x.
      sthen (nom_send (NBarrier (ofp_barrier_request_init\<lparr>xid := Some x\<rparr>)))
      (sthen (smod (\<lambda>s. s\<lparr>nom_barrier_ops := (nom_barrier_ops s)(x \<mapsto> todo)\<rparr>))
      (sfor (\<lambda>op. smod (\<lambda>s. s\<lparr>nom_op_barrier := (nom_op_barrier s)((fst op, te_oid (snd op)) \<mapsto> (x, now))\<rparr>)) todo))))"

definition sync_pending :: "bool \<Rightarrow> int \<Rightarrow> (nom, unit) sm" where
  "sync_pending clear now =
     sbind (sget nom_connected) (\<lambda>connected.
     if \<not> connected then sret () else sbind (sync_todo clear) (sync_send now))"

text \<open>
  One entry of \<open>_mod\<close>: a strict removal forgets a pending addition of the same object; a wildcard removal calls
  \<open>entry.matches_with_wildcards\<close>, which entries do not have, for the first pending addition.
\<close>

definition mod_entry :: "int \<Rightarrow> table_entry \<Rightarrow> (nom, unit) sm" where
  "mod_entry command e =
     sthen
       (if command = OFPFC_DELETE then
          sbind (sget nom_pending) (\<lambda>ops.
            if list_ex (\<lambda>op. fst op = OFPFC_ADD) ops then sraise AttributeError else sret ())
        else if command = OFPFC_DELETE_STRICT then
          smod (\<lambda>s. s\<lparr>nom_pending := filter (\<lambda>op. \<not> (fst op = OFPFC_ADD \<and> te_oid e = te_oid (snd op))) (nom_pending s)\<rparr>)
        else sret ())
       (smod (\<lambda>s. s\<lparr>nom_pending := nom_pending s @ [(command, e)]\<rparr>))"

definition nom_mod :: "table_entry list \<Rightarrow> int \<Rightarrow> int \<Rightarrow> (nom, unit) sm" where
  "nom_mod entries command now = sthen (sfor (mod_entry command) entries) (sync_pending False now)"

definition install :: "table_entry list \<Rightarrow> int \<Rightarrow> (nom, unit) sm" where
  "install entries now = nom_mod entries OFPFC_ADD now"

definition remove_with_wildcards :: "table_entry list \<Rightarrow> int \<Rightarrow> (nom, unit) sm" where
  "remove_with_wildcards entries now = nom_mod entries OFPFC_DELETE now"

definition remove_strict :: "table_entry list \<Rightarrow> int \<Rightarrow> (nom, unit) sm" where
  "remove_strict entries now = nom_mod entries OFPFC_DELETE_STRICT now"

definition handle_SwitchConnectionUp :: "int \<Rightarrow> (nom, unit) sm" where
  "handle_SwitchConnectionUp now = sync_pending True now"

definition handle_SwitchConnectionDown :: "(nom, unit) sm" where
  "handle_SwitchConnectionDown = smod (\<lambda>s. s\<lparr>nom_barrier_ops := Map.empty, nom_op_barrier := Map.empty\<rparr>)"

text \<open>\<open>self.pending.remove(op)\<close>\<close>

fun remove_op :: "nom_op \<Rightarrow> nom_op list \<Rightarrow> nom_op list res" where
  "remove_op op [] = Inl ValueError"
| "remove_op op (x # xs) = (if same_op x op then Inr xs else rmap ((#) x) (remove_op op xs))"

text \<open>One operation of an answered barrier; the entries added and removed are collected.\<close>

definition apply_op :: "nom_op \<Rightarrow> (nom, table_entry list \<times> table_entry list) sm" where
  "apply_op op =
     sbind
       (if fst op = OFPFC_ADD then
          sthen (smod (\<lambda>s. s\<lparr>nom_table := add_entry (snd op) (nom_table s)\<rparr>)) (sret ([snd op], []))
        else sbind (swith nom_table (\<lambda>t s. s\<lparr>nom_table := t\<rparr>)
               (\<lambda>t. rmap (\<lambda>(t, rs). (rs, t))
                  (remove_matching_entries (te_match (snd op)) (te_priority (snd op)) (fst op = OFPFC_DELETE_STRICT) t)))
               (\<lambda>rs. sret ([], rs)))
       (\<lambda>r. sthen (swith nom_pending (\<lambda>p s. s\<lparr>nom_pending := p\<rparr>) (\<lambda>p. rmap (\<lambda>p. ((), p)) (remove_op op p))) (sret r))"

fun apply_ops :: "nom_op list \<Rightarrow> (nom, table_entry list \<times> table_entry list) sm" where
  "apply_ops [] = sret ([], [])"
| "apply_ops (op # ops) =
     sbind (apply_op op) (\<lambda>(a, r). sbind (apply_ops ops) (\<lambda>(as, rs). sret (a @ as, r @ rs)))"

text \<open>\<open>True\<close> stands for \<open>EventHalt\<close>, \<open>False\<close> for \<open>EventContinue\<close>.\<close>

definition handle_BarrierIn :: "int \<Rightarrow> (nom, bool) sm" where
  "handle_BarrierIn x =
     sbind (sget (\<lambda>s. nom_barrier_ops s x)) (\<lambda>known. case known of
       None \<Rightarrow> sret False
     | Some ops \<Rightarrow>
         sbind (apply_ops ops) (\<lambda>(added, removed).
         sthen (smod (\<lambda>s. s\<lparr>nom_barrier_ops := (nom_barrier_ops s)(x := None),
                          nom_events := nom_events s @ [\<lparr>ev_added = added, ev_removed = removed\<rparr>]\<rparr>))
           (sret True)))"

text \<open>\<open>_handle_FlowRemoved\<close>: the first entry with an equal match and priority goes.\<close>

fun find_removed :: "ofp_match \<times> int \<Rightarrow> table_entry list \<Rightarrow> table_entry option res" where
  "find_removed p [] = Inr None"
| "find_removed p (e # es) =
     rbind (rmap (\<lambda>same. same \<and> snd p = te_priority e) (ofp_match_eq (fst p) (te_match e)))
       (\<lambda>b. if b then Inr (Some e) else find_removed p es)"

definition handle_FlowRemoved :: "ofp_flow_removed \<Rightarrow> (nom, bool) sm" where
  "handle_FlowRemoved fr =
     sbind (sget (\<lambda>s. ft_table (nom_table s))) (\<lambda>es.
     sbind (slift (find_removed (frm_match fr, frm_priority fr) es)) (\<lambda>hit. case hit of
       None \<Rightarrow> sret False
     | Some e \<Rightarrow>
         sthen (swith nom_table (\<lambda>t s. s\<lparr>nom_table := t\<rparr>) (\<lambda>t. rmap (\<lambda>t. ((), t)) (remove_entry e t)))
         (sthen (smod (\<lambda>s. s\<lparr>nom_events := nom_events s @ [\<lparr>ev_added = [], ev_removed = [e]\<rparr>]\<rparr>))
           (sret True))))"

interpretation removed: scan
  "\<lambda>e p. rmap (\<lambda>same. same \<and> snd p = te_priority e) (ofp_match_eq (fst p) (te_match e))" find_removed
  by unfold_locales simp_all


section \<open>The table follows the confirmed operations\<close>

lemma remove_op_hit [simp]: "same_op x x"
  by (simp add: same_op_def)

lemma nom_next_xid_apply: "nom_next_xid s = (Inr (nom_xid s), s\<lparr>nom_xid := snd (xid_next (nom_xid s))\<rparr>)"
  by (simp add: nom_next_xid_def xid_next_def sm_simps)

lemma send_op_apply:
  "send_op op s = (Inr (), s\<lparr>nom_xid := snd (xid_next (nom_xid s)),
     nom_sent := nom_sent s @ [NFlowMod (to_flow_mod (snd op) (Some (nom_xid s)) (fst op))]\<rparr>)"
  by (simp add: send_op_def nom_send_def sbind_Inr [OF nom_next_xid_apply] smod_def)

abbreviation (input) xid_after :: "nat \<Rightarrow> int \<Rightarrow> int" where
  "xid_after k \<equiv> ((\<lambda>n. snd (xid_next n)) ^^ k)"

lemma sfor_send_op:
  "\<exists>ms. sfor send_op ops s = (Inr (), s\<lparr>nom_xid := xid_after (length ops) (nom_xid s), nom_sent := nom_sent s @ ms\<rparr>)"
proof (induction ops arbitrary: s)
  case Nil
  show ?case by (intro exI [of _ "[]"]) (simp add: sret_def)
next
  case (Cons op ops)
  let ?m = "NFlowMod (to_flow_mod (snd op) (Some (nom_xid s)) (fst op))"
  let ?s = "s\<lparr>nom_xid := snd (xid_next (nom_xid s)), nom_sent := nom_sent s @ [?m]\<rparr>"
  obtain ms where "sfor send_op ops ?s =
      (Inr (), ?s\<lparr>nom_xid := xid_after (length ops) (nom_xid ?s), nom_sent := nom_sent ?s @ ms\<rparr>)"
    using Cons.IH [of ?s] by auto
  then show ?case
    by (intro exI [of _ "?m # ms"]) (simp add: sthen_Inr [OF send_op_apply] funpow_Suc_right del: funpow.simps)
qed

lemma fold_op_barrier:
  "fold (\<lambda>op s. s\<lparr>nom_op_barrier := (nom_op_barrier s)(k op \<mapsto> v)\<rparr>) ops s =
     s\<lparr>nom_op_barrier := fold (\<lambda>op m. m(k op \<mapsto> v)) ops (nom_op_barrier s)\<rparr>"
  by (induction ops arbitrary: s) simp_all

text \<open>What one synchronisation leaves: the operations are remembered under the identifier of the last barrier sent.\<close>

lemma sync_send_apply:
  "\<exists>ms m b. sync_send now todo s = (Inr (), s\<lparr>nom_xid := xid_after (Suc (length todo)) (nom_xid s),
      nom_sent := nom_sent s @ ms @ [NBarrier b],
      nom_barrier_ops := (nom_barrier_ops s)(xid_after (length todo) (nom_xid s) \<mapsto> todo),
      nom_op_barrier := m\<rparr>) \<and> xid b = Some (xid_after (length todo) (nom_xid s))"
proof -
  let ?n = "xid_after (length todo) (nom_xid s)"
  obtain ms where send: "sfor send_op todo s = (Inr (), s\<lparr>nom_xid := ?n, nom_sent := nom_sent s @ ms\<rparr>)"
    using sfor_send_op by blast
  let ?b = "ofp_barrier_request_init\<lparr>xid := Some ?n\<rparr>"
  let ?s = "s\<lparr>nom_xid := snd (xid_next ?n), nom_sent := (nom_sent s @ ms) @ [NBarrier ?b],
      nom_barrier_ops := (nom_barrier_ops s)(?n \<mapsto> todo)\<rparr>"
  let ?m = "fold (\<lambda>op m. m((fst op, te_oid (snd op)) \<mapsto> (?n, now))) todo (nom_op_barrier s)"
  have "sync_send now todo s = (Inr (), ?s\<lparr>nom_op_barrier := ?m\<rparr>)"
    unfolding sync_send_def nom_send_def
    by (simp add: sthen_Inr [where m = "sfor send_op todo" and s = s, OF send] sbind_Inr [OF nom_next_xid_apply]
        sfor_smod fold_op_barrier)
  then show ?thesis by (intro exI [of _ ms] exI [of _ ?m] exI [of _ ?b]) simp
qed

lemma mod_entry_add: "mod_entry OFPFC_ADD = (\<lambda>e. smod (\<lambda>s. s\<lparr>nom_pending := nom_pending s @ [(OFPFC_ADD, e)]\<rparr>))"
  by (rule ext) (simp add: mod_entry_def)

lemma fold_add_pending:
  "fold (\<lambda>e s. s\<lparr>nom_pending := nom_pending s @ [(c, e)]\<rparr>) es s = s\<lparr>nom_pending := nom_pending s @ map (Pair c) es\<rparr>"
  by (induction es arbitrary: s) simp_all

lemma install_apply:
  assumes "nom_connected s"
  shows "\<exists>ms m b. install es now s = (Inr (), s\<lparr>nom_pending := nom_pending s @ map (Pair OFPFC_ADD) es,
      nom_xid := xid_after (Suc (length (nom_pending s) + length es)) (nom_xid s), nom_sent := nom_sent s @ ms @ [NBarrier b],
      nom_barrier_ops := (nom_barrier_ops s)(xid_after (length (nom_pending s) + length es) (nom_xid s)
        \<mapsto> nom_pending s @ map (Pair OFPFC_ADD) es), nom_op_barrier := m\<rparr>)
    \<and> xid b = Some (xid_after (length (nom_pending s) + length es) (nom_xid s))"
proof -
  let ?s = "s\<lparr>nom_pending := nom_pending s @ map (Pair OFPFC_ADD) es\<rparr>"
  have "install es now s = sync_pending False now ?s"
    by (simp add: install_def nom_mod_def mod_entry_add sthen_def sbind_def sfor_smod fold_add_pending)
  also have "\<dots> = sync_send now (nom_pending ?s) ?s"
    using assms by (simp add: sync_pending_def sync_todo_def)
  finally have i: "install es now s = sync_send now (nom_pending ?s) ?s" .
  show ?thesis unfolding i using sync_send_apply [of now "nom_pending ?s" ?s] by simp
qed

lemma apply_ops_add:
  "apply_ops (map (Pair OFPFC_ADD) es) (s\<lparr>nom_pending := map (Pair OFPFC_ADD) es @ ops\<rparr>)
     = (Inr (es, []), s\<lparr>nom_table := fold add_entry es (nom_table s), nom_pending := ops\<rparr>)"
proof (induction es arbitrary: s)
  case Nil
  show ?case by (simp add: sret_def)
next
  case (Cons e es)
  have "apply_op (OFPFC_ADD, e) (s\<lparr>nom_pending := map (Pair OFPFC_ADD) (e # es) @ ops\<rparr>)
      = (Inr ([e], []), s\<lparr>nom_table := add_entry e (nom_table s), nom_pending := map (Pair OFPFC_ADD) es @ ops\<rparr>)"
    by (simp add: apply_op_def sm_simps sbind_def sthen_def swith_def)
  moreover have "apply_ops (map (Pair OFPFC_ADD) es)
      (s\<lparr>nom_table := add_entry e (nom_table s), nom_pending := map (Pair OFPFC_ADD) es @ ops\<rparr>)
      = (Inr (es, []), s\<lparr>nom_table := fold add_entry (e # es) (nom_table s), nom_pending := ops\<rparr>)"
    using Cons.IH [of "s\<lparr>nom_table := add_entry e (nom_table s)\<rparr>"] by simp
  ultimately show ?case by (simp add: sbind_def sret_def)
qed

lemma barrier_apply:
  assumes "nom_barrier_ops s x = Some (map (Pair OFPFC_ADD) es)" and "nom_pending s = map (Pair OFPFC_ADD) es @ ops"
  shows "handle_BarrierIn x s = (Inr True, s\<lparr>nom_table := fold add_entry es (nom_table s), nom_pending := ops,
    nom_barrier_ops := (nom_barrier_ops s)(x := None), nom_events := nom_events s @ [\<lparr>ev_added = es, ev_removed = []\<rparr>]\<rparr>)"
proof -
  have "s = s\<lparr>nom_pending := map (Pair OFPFC_ADD) es @ ops\<rparr>" using assms(2) by simp
  then have "apply_ops (map (Pair OFPFC_ADD) es) s
      = (Inr (es, []), s\<lparr>nom_table := fold add_entry es (nom_table s), nom_pending := ops\<rparr>)"
    using apply_ops_add [of es ops s] by simp
  then show ?thesis using assms(1) by (simp add: handle_BarrierIn_def sm_simps)
qed

text \<open>An answer whose first operation is an addition that is no longer pending\<close>

lemma barrier_stale:
  assumes "nom_barrier_ops s x = Some ((OFPFC_ADD, e) # rest)" and "\<forall>op \<in> set (nom_pending s). \<not> same_op op (OFPFC_ADD, e)"
  shows "handle_BarrierIn x s = (Inl ValueError, s\<lparr>nom_table := add_entry e (nom_table s)\<rparr>)"
proof -
  have "remove_op op ops = Inl ValueError" if "\<forall>o' \<in> set ops. \<not> same_op o' op" for op ops
    using that by (induction ops) simp_all
  then have "remove_op (OFPFC_ADD, e) (nom_pending s) = Inl ValueError" using assms(2) by blast
  then have "apply_op (OFPFC_ADD, e) s = (Inl ValueError, s\<lparr>nom_table := add_entry e (nom_table s)\<rparr>)"
    by (simp add: apply_op_def sm_simps sbind_def sthen_def swith_def)
  then show ?thesis using assms(1) by (simp add: handle_BarrierIn_def sm_simps)
qed

text \<open>
  Installing entries on a connected table with nothing pending leaves them pending and sends a barrier; the answer
  to that barrier adds exactly these entries to the table, in order, leaves nothing pending and reports them in one event.
\<close>

theorem nom_install_confirmed:
  assumes "nom_connected s" and "nom_pending s = []"
  shows "\<exists>s1 s2 b x. install es now s = (Inr (), s1) \<and> nom_table s1 = nom_table s
    \<and> nom_pending s1 = map (Pair OFPFC_ADD) es
    \<and> last (nom_sent s1) = NBarrier b \<and> xid b = Some x
    \<and> handle_BarrierIn x s1 = (Inr True, s2)
    \<and> nom_table s2 = fold add_entry es (nom_table s) \<and> nom_pending s2 = [] \<and> nom_barrier_ops s2 x = None
    \<and> nom_events s2 = nom_events s @ [\<lparr>ev_added = es, ev_removed = []\<rparr>]"
proof -
  let ?x = "xid_after (length es) (nom_xid s)"
  obtain ms m b where i: "install es now s = (Inr (), s\<lparr>nom_pending := map (Pair OFPFC_ADD) es,
      nom_xid := xid_after (Suc (length es)) (nom_xid s), nom_sent := nom_sent s @ ms @ [NBarrier b],
      nom_barrier_ops := (nom_barrier_ops s)(?x \<mapsto> map (Pair OFPFC_ADD) es), nom_op_barrier := m\<rparr>)" and b: "xid b = Some ?x"
    using install_apply [OF assms(1), of es now] assms(2) by auto
  then show ?thesis unfolding i
    using barrier_apply [where es = es and ops = "[]" and x = ?x] by auto
qed

lemma xid_after_1_4: "xid_after 1 n \<noteq> xid_after 4 n"
  by (simp add: xid_next_def eval_nat_numeral mod_simps mod_eq_dvd_iff)

text \<open>
  Two installations before the first answer: the second barrier repeats the operations of the first, so its answer
  adds the first entry a second time and raises ValueError when it looks for the operation among the pending ones.
\<close>

theorem nom_overlapping_installs:
  assumes "nom_connected s" and "nom_pending s = []" and "te_oid e \<noteq> te_oid f"
  shows "\<exists>s1 s2 s3 s4 x y. install [e] now s = (Inr (), s1) \<and> nom_barrier_ops s1 x = Some [(OFPFC_ADD, e)]
    \<and> install [f] later s1 = (Inr (), s2) \<and> nom_barrier_ops s2 y = Some [(OFPFC_ADD, e), (OFPFC_ADD, f)]
    \<and> handle_BarrierIn x s2 = (Inr True, s3)
    \<and> handle_BarrierIn y s3 = (Inl ValueError, s4)
    \<and> nom_table s4 = add_entry e (add_entry e (nom_table s))"
proof -
  let ?n = "nom_xid s"
  obtain ms m b where i: "install [e] now s = (Inr (), s\<lparr>nom_pending := [(OFPFC_ADD, e)],
      nom_xid := xid_after 2 ?n, nom_sent := nom_sent s @ ms @ [NBarrier b],
      nom_barrier_ops := (nom_barrier_ops s)(xid_after 1 ?n \<mapsto> [(OFPFC_ADD, e)]), nom_op_barrier := m\<rparr>)"
    using install_apply [OF assms(1), of "[e]" now] assms(2) by (auto simp: eval_nat_numeral)
  let ?s1 = "s\<lparr>nom_pending := [(OFPFC_ADD, e)],
      nom_xid := xid_after 2 ?n, nom_sent := nom_sent s @ ms @ [NBarrier b],
      nom_barrier_ops := (nom_barrier_ops s)(xid_after 1 ?n \<mapsto> [(OFPFC_ADD, e)]), nom_op_barrier := m\<rparr>"
  obtain ms' m' b' where j: "install [f] later ?s1 = (Inr (), s\<lparr>nom_pending := [(OFPFC_ADD, e), (OFPFC_ADD, f)],
      nom_xid := xid_after 5 ?n, nom_sent := nom_sent s @ ms @ [NBarrier b] @ ms' @ [NBarrier b'],
      nom_barrier_ops := (nom_barrier_ops s)(xid_after 1 ?n \<mapsto> [(OFPFC_ADD, e)], xid_after 4 ?n \<mapsto> [(OFPFC_ADD, e), (OFPFC_ADD, f)]),
      nom_op_barrier := m'\<rparr>)"
    using install_apply [of ?s1 "[f]" later] assms(1) by (auto simp: eval_nat_numeral)
  let ?s2 = "s\<lparr>nom_pending := [(OFPFC_ADD, e), (OFPFC_ADD, f)],
      nom_xid := xid_after 5 ?n, nom_sent := nom_sent s @ ms @ [NBarrier b] @ ms' @ [NBarrier b'],
      nom_barrier_ops := (nom_barrier_ops s)(xid_after 1 ?n \<mapsto> [(OFPFC_ADD, e)], xid_after 4 ?n \<mapsto> [(OFPFC_ADD, e), (OFPFC_ADD, f)]),
      nom_op_barrier := m'\<rparr>"
  let ?s3 = "?s2\<lparr>nom_table := add_entry e (nom_table s), nom_pending := [(OFPFC_ADD, f)],
    nom_barrier_ops := (nom_barrier_ops ?s2)(xid_after 1 ?n := None), nom_events := nom_events s @ [\<lparr>ev_added = [e], ev_removed = []\<rparr>]\<rparr>"
  have ne: "xid_after 1 ?n \<noteq> xid_after 4 ?n" by (rule xid_after_1_4)
  have x: "handle_BarrierIn (xid_after 1 ?n) ?s2 = (Inr True, ?s3)"
    using barrier_apply [of ?s2 "xid_after 1 ?n" "[e]" "[(OFPFC_ADD, f)]"] ne by simp
  have y: "handle_BarrierIn (xid_after 4 ?n) ?s3 = (Inl ValueError, ?s3\<lparr>nom_table := add_entry e (nom_table ?s3)\<rparr>)"
    by (rule barrier_stale [where rest = "[(OFPFC_ADD, f)]"]) (use ne assms(3) in \<open>simp_all add: same_op_def\<close>)
  show ?thesis
    by (rule exI [of _ ?s1], rule exI [of _ ?s2], rule exI [of _ ?s3], rule exI [of _ "?s3\<lparr>nom_table := add_entry e (nom_table ?s3)\<rparr>"],
        rule exI [of _ "xid_after 1 ?n"], rule exI [of _ "xid_after 4 ?n"]) (use i j x y in simp)
qed

text \<open>
  After a reconnection the operations sent again for the entries of a table are not pending, so the answer to the
  barrier doubles the first entry of the table and raises ValueError.
\<close>

theorem nom_resync_raises:
  assumes "nom_connected s" and "nom_pending s = []" and "ft_table (nom_table s) = e # es"
  shows "\<exists>s1 s2 b x. handle_SwitchConnectionUp now s = (Inr (), s1)
    \<and> last (nom_sent s1) = NBarrier b \<and> xid b = Some x
    \<and> handle_BarrierIn x s1 = (Inl ValueError, s2) \<and> nom_table s2 = add_entry e (nom_table s)"
proof -
  let ?todo = "map (\<lambda>e. (OFPFC_ADD, e)) (e # es)" and ?n = "xid_after (Suc (length es)) (nom_xid s)"
  let ?s = "s\<lparr>nom_barrier_ops := Map.empty, nom_op_barrier := Map.empty, nom_pending := [],
    nom_sent := nom_sent s @ [NFlowMod (ofp_flow_mod_init\<lparr>fm_command := OFPFC_DELETE, fm_match := ofp_match_init\<rparr>),
       NBarrier ofp_barrier_request_init]\<rparr>"
  have "handle_SwitchConnectionUp now s = sync_send now ?todo ?s"
    using assms by (simp add: handle_SwitchConnectionUp_def sync_pending_def sync_todo_def nom_send_def sbind_def sthen_def
        sget_def smod_def)
  then obtain s1 b where up: "handle_SwitchConnectionUp now s = (Inr (), s1)" and b: "last (nom_sent s1) = NBarrier b"
    "xid b = Some ?n" and s1: "nom_barrier_ops s1 ?n = Some ?todo" "nom_pending s1 = []" "nom_table s1 = nom_table s"
    using sync_send_apply [of now ?todo ?s] by auto
  have "handle_BarrierIn ?n s1 = (Inl ValueError, s1\<lparr>nom_table := add_entry e (nom_table s1)\<rparr>)"
    using s1 by (intro barrier_stale [where rest = "map (\<lambda>e. (OFPFC_ADD, e)) es"]) simp_all
  then show ?thesis using up b s1(3)
    by (intro exI [of _ s1] exI [of _ "s1\<lparr>nom_table := add_entry e (nom_table s1)\<rparr>"] exI [of _ b] exI [of _ ?n]) simp
qed

text \<open>A wildcard removal while an addition is pending\<close>

lemma nom_wildcard_removal_raises:
  "(OFPFC_ADD, f) \<in> set (nom_pending s) \<Longrightarrow> remove_with_wildcards (e # es) now s = (Inl AttributeError, s)"
  by (auto simp: remove_with_wildcards_def nom_mod_def mod_entry_def list_ex_iff sthen_def sbind_def sget_def sraise_def)

section \<open>Witnesses\<close>

definition nom_entry :: "nat \<Rightarrow> table_entry" where
  "nom_entry i = from_flow_mod i 0 ofp_flow_mod_init"

definition nom_demo :: nom where
  "nom_demo = (NOMFlowTable_init 1)\<lparr>nom_connected := True\<rparr>"

lemma nom_demo_simps:
  "nom_connected nom_demo" "nom_pending nom_demo = []" "nom_table nom_demo = FlowTable_init"
  by (simp_all add: nom_demo_def NOMFlowTable_init_def)

theorem nom_install_confirmed_witness:
  "\<exists>s1 s2 x. install [nom_entry 0, nom_entry 1] 7 nom_demo = (Inr (), s1) \<and> ft_table (nom_table s1) = []
    \<and> handle_BarrierIn x s1 = (Inr True, s2) \<and> set (ft_table (nom_table s2)) = {nom_entry 0, nom_entry 1}"
  using nom_install_confirmed [OF nom_demo_simps(1,2), of "[nom_entry 0, nom_entry 1]" 7]
  by (elim exE conjE, intro exI conjI) (assumption | simp add: nom_demo_simps FlowTable_init_def | auto)+

theorem nom_overlapping_installs_witness:
  "\<exists>s1 s2 s3 s4 x y. install [nom_entry 0] 0 nom_demo = (Inr (), s1) \<and> install [nom_entry 1] 1 s1 = (Inr (), s2)
    \<and> handle_BarrierIn x s2 = (Inr True, s3) \<and> handle_BarrierIn y s3 = (Inl ValueError, s4)
    \<and> length (ft_table (nom_table s4)) = 2"
  using nom_overlapping_installs [OF nom_demo_simps(1,2), of "nom_entry 0" "nom_entry 1" 0 1]
  by (simp add: nom_demo_simps FlowTable_init_def nom_entry_def) (metis add_entry_table(1) length_append_singleton length_sort list.size(3) flow_table.select_convs(1) numeral_2_eq_2)

theorem nom_resync_raises_witness:
  "\<exists>s1 s2 x. handle_SwitchConnectionUp 9 (nom_demo\<lparr>nom_table := add_entry (nom_entry 0) FlowTable_init\<rparr>) = (Inr (), s1)
    \<and> handle_BarrierIn x s1 = (Inl ValueError, s2)"
  using nom_resync_raises [of "nom_demo\<lparr>nom_table := add_entry (nom_entry 0) FlowTable_init\<rparr>" "nom_entry 0" "[]" 9]
  by (auto simp: nom_demo_simps FlowTable_init_def)

end
