(* ===== verification/Lt_Protocol.thy ===== *)
theory Lt_Protocol
  imports Py_Struct Py_State
begin

text \<open>
  \<open>ltprotocol/ltprotocol/ltprotocol.py\<close>: protocols whose messages start with a length and a type.
  \<open>LTProtocol\<close> is a record of the two integer codes (unsigned, as in every protocol of the repository)
  and the dictionary from type numbers to the \<open>unpack\<close> of a message class.  \<open>LTTwistedProtocol\<close> accumulates
  the bytes of a connection and calls back once per message.  Twisted is not part of the repository: bytes arrive
  as arguments of \<open>dataReceived\<close>, and what the code writes to the transport is a value of the callback's state.
\<close>

section \<open>Messages\<close>

record 'm LTProtocol =
  lt_len_type :: fmt
  lt_type_type :: fmt
  lt_msg_types :: "int \<Rightarrow> (bytes \<Rightarrow> 'm option res) option"

definition pack_with_header :: "'m LTProtocol \<Rightarrow> int \<Rightarrow> bytes res \<Rightarrow> bytes res" where
  "pack_with_header P mtype packed =
     rbind packed (\<lambda>body.
     rmap (\<lambda>h. h @ body)
       (struct_pack [lt_len_type P, lt_type_type P]
          [int (calcsize [lt_len_type P, lt_type_type P] + length body), mtype]))"

definition unpack_received_msg :: "'m LTProtocol \<Rightarrow> int \<Rightarrow> bytes \<Rightarrow> 'm option res" where
  "unpack_received_msg P type_val body =
     (case lt_msg_types P type_val of Some unpack \<Rightarrow> unpack body | None \<Rightarrow> Inr None)"

section \<open>A connection\<close>

record LTTwistedProtocol =
  lt_packet :: bytes
  lt_plen :: int
  lt_connected :: bool

definition LTTwistedProtocol_init :: LTTwistedProtocol where
  "LTTwistedProtocol_init = \<lparr>lt_packet = [], lt_plen = 0, lt_connected = False\<rparr>"

text \<open>
  One turn of the loop of \<open>dataReceived\<close> up to the callback: \<open>None\<close> when the message is not complete, otherwise the
  message or an exception, and the connection without its bytes.  A length smaller than the header makes the type field
  too short, and \<open>unpack\<close> raises; so every turn that goes on has consumed a header.
\<close>

definition lt_next :: "'m LTProtocol \<Rightarrow> LTTwistedProtocol \<Rightarrow> ('m option res \<times> LTTwistedProtocol) option" where
  "lt_next P c =
     (let len_sz = calcsize [lt_len_type P]; tot_sz = len_sz + calcsize [lt_type_type P] in
      if lt_plen c < int len_sz then None
      else case struct_unpack [lt_len_type P] (bslice 0 len_sz (lt_packet c)) of
        Inl e \<Rightarrow> Some (Inl e, c)
      | Inr ls \<Rightarrow>
          let lenNeeded = hd ls in
          if lenNeeded \<le> lt_plen c then
            let buf = take (nat lenNeeded) (lt_packet c) in
            Some (rbind (struct_unpack [lt_type_type P] (bslice len_sz tot_sz buf)) (\<lambda>ts.
                    unpack_received_msg P (hd ts) (drop tot_sz buf)),
                  c\<lparr>lt_packet := drop (nat lenNeeded) (lt_packet c), lt_plen := lt_plen c - lenNeeded\<rparr>)
          else None)"

lemma struct_unpack_slice:
  "struct_unpack [t] (bslice l m (take n p)) = Inr ts \<Longrightarrow> 0 < n \<and> p \<noteq> []"
proof -
  assume "struct_unpack [t] (bslice l m (take n p)) = Inr ts"
  then have "length (bslice l m (take n p)) = fmt_size t" by (simp add: struct_unpack_def split: if_splits)
  then have "bslice l m (take n p) \<noteq> []" using fmt_size_pos [of t] by (metis less_numeral_extra(3) list.size(3))
  then show ?thesis by (cases n) (auto simp: bslice_def)
qed

lemma lt_next_message:
  assumes "lt_next P c = Some (Inr m, c')"
  obtains n where "0 < n" "lt_packet c \<noteq> []" "int n \<le> lt_plen c"
    "c' = c\<lparr>lt_packet := drop n (lt_packet c), lt_plen := lt_plen c - int n\<rparr>"
proof -
  from assms obtain ls where "hd ls \<le> lt_plen c" "0 < nat (hd ls)" "lt_packet c \<noteq> []"
    "c' = c\<lparr>lt_packet := drop (nat (hd ls)) (lt_packet c), lt_plen := lt_plen c - hd ls\<rparr>"
    by (auto simp: lt_next_def Let_def res_simps dest!: struct_unpack_slice split: if_splits sum.splits)
  then show thesis using that [of "nat (hd ls)"] by simp
qed

function lt_loop :: "'m LTProtocol \<Rightarrow> ('m option \<Rightarrow> ('s, unit) sm) \<Rightarrow> LTTwistedProtocol \<Rightarrow> 's
    \<Rightarrow> unit res \<times> LTTwistedProtocol \<times> 's" where
  "lt_loop P recv c s =
     (case lt_next P c of
        None \<Rightarrow> (Inr (), c, s)
      | Some (Inl e, c') \<Rightarrow> (Inl e, c', s)
      | Some (Inr lt_msg, c') \<Rightarrow>
          (case recv lt_msg s of
             (Inl e, s') \<Rightarrow> (Inl e, c', s')
           | (Inr _, s') \<Rightarrow> lt_loop P recv c' s'))"
  by pat_completeness auto
termination
  by (relation "measure (\<lambda>(P, recv, c, s). length (lt_packet c))") (auto elim: lt_next_message)

declare lt_loop.simps [simp del]

definition dataReceived :: "'m LTProtocol \<Rightarrow> ('m option \<Rightarrow> ('s, unit) sm) \<Rightarrow> bytes \<Rightarrow> LTTwistedProtocol \<Rightarrow> 's
    \<Rightarrow> unit res \<times> LTTwistedProtocol \<times> 's" where
  "dataReceived P recv data c s =
     lt_loop P recv (c\<lparr>lt_packet := lt_packet c @ data, lt_plen := lt_plen c + int (length data)\<rparr>) s"

text \<open>The chunks of a stream, one \<open>dataReceived\<close> each; an exception ends the connection.\<close>

fun receive_chunks :: "'m LTProtocol \<Rightarrow> ('m option \<Rightarrow> ('s, unit) sm) \<Rightarrow> bytes list \<Rightarrow> LTTwistedProtocol \<Rightarrow> 's
    \<Rightarrow> unit res \<times> LTTwistedProtocol \<times> 's" where
  "receive_chunks P recv [] c s = (Inr (), c, s)"
| "receive_chunks P recv (d # ds) c s =
     (case dataReceived P recv d c s of
        (Inl e, c', s') \<Rightarrow> (Inl e, c', s')
      | (Inr _, c', s') \<Rightarrow> receive_chunks P recv ds c' s')"

section \<open>The server\<close>

text \<open>
  \<open>LTTwistedServer\<close> with its connections: their identities in the order they were made, their protocol objects, and what
  was written to and asked of their transports.  A user of the server extends the record.
\<close>

record lt_server =
  lts_connections :: "nat list"
  lts_numProtocols :: int
  lts_conns :: "nat \<Rightarrow> LTTwistedProtocol"
  lts_written :: "(nat \<times> bytes) list"
  lts_closing :: "nat list"

definition transport_write :: "nat \<Rightarrow> bytes \<Rightarrow> ('a lt_server_scheme, unit) sm" where
  "transport_write i b = smod (\<lambda>s. s\<lparr>lts_written := lts_written s @ [(i, b)]\<rparr>)"

definition loseConnection :: "nat \<Rightarrow> ('a lt_server_scheme, unit) sm" where
  "loseConnection i = smod (\<lambda>s. s\<lparr>lts_closing := lts_closing s @ [i]\<rparr>)"

text \<open>\<open>send\<close> of a connection (set by \<open>connectionMade\<close>), and \<open>send\<close> of the server, which packs once\<close>

definition conn_send :: "'m LTProtocol \<Rightarrow> nat \<Rightarrow> int \<Rightarrow> bytes res \<Rightarrow> ('a lt_server_scheme, unit) sm" where
  "conn_send P i mtype packed = sbind (slift (pack_with_header P mtype packed)) (transport_write i)"

definition server_send :: "'m LTProtocol \<Rightarrow> int \<Rightarrow> bytes res \<Rightarrow> ('a lt_server_scheme, unit) sm" where
  "server_send P mtype packed = sbind (slift (pack_with_header P mtype packed)) (\<lambda>buf.
     sbind (sget lts_connections) (\<lambda>conns. sfor (\<lambda>i. transport_write i buf) conns))"

definition connectionMade :: "(nat \<Rightarrow> ('a lt_server_scheme, unit) sm) \<Rightarrow> nat \<Rightarrow> ('a lt_server_scheme, unit) sm" where
  "connectionMade new_conn i =
     sthen (smod (\<lambda>s. s\<lparr>lts_numProtocols := lts_numProtocols s + 1, lts_connections := lts_connections s @ [i],
                     lts_conns := (lts_conns s)(i := LTTwistedProtocol_init\<lparr>lt_connected := True\<rparr>)\<rparr>))
       (new_conn i)"

definition connectionLost :: "(nat \<Rightarrow> ('a lt_server_scheme, unit) sm) \<Rightarrow> nat \<Rightarrow> ('a lt_server_scheme, unit) sm" where
  "connectionLost lost_conn i =
     sthen (smod (\<lambda>s. s\<lparr>lts_numProtocols := lts_numProtocols s - 1\<rparr>))
     (sbind (sget lts_connections) (\<lambda>conns.
      if i \<in> set conns then
        sthen (smod (\<lambda>s. s\<lparr>lts_connections := remove1 i (lts_connections s),
                         lts_conns := (lts_conns s)(i := (lts_conns s i)\<lparr>lt_connected := False\<rparr>)\<rparr>)) (lost_conn i)
      else sraise ValueError))"

definition server_receive :: "'m LTProtocol \<Rightarrow> (nat \<Rightarrow> 'm option \<Rightarrow> ('a lt_server_scheme, unit) sm) \<Rightarrow> nat \<Rightarrow> bytes
    \<Rightarrow> ('a lt_server_scheme, unit) sm" where
  "server_receive P recv i data s =
     (case dataReceived P (recv i) data (lts_conns s i) s of
        (r, c, s') \<Rightarrow> (r, s'\<lparr>lts_conns := (lts_conns s')(i := c)\<rparr>))"

section \<open>A stream is cut into messages wherever the chunks end\<close>

definition lt_ok :: "LTTwistedProtocol \<Rightarrow> bool" where
  "lt_ok c \<longleftrightarrow> lt_plen c = int (length (lt_packet c))"

definition lt_more :: "bytes \<Rightarrow> LTTwistedProtocol \<Rightarrow> LTTwistedProtocol" where
  "lt_more d c = c\<lparr>lt_packet := lt_packet c @ d, lt_plen := lt_plen c + int (length d)\<rparr>"

lemma lt_ok_more [simp]: "lt_ok (lt_more d c) \<longleftrightarrow> lt_ok c"
  by (auto simp: lt_ok_def lt_more_def)

lemma lt_more_more [simp]: "lt_more e (lt_more d c) = lt_more (d @ e) c"
  by (simp add: lt_more_def)

lemma lt_more_Nil [simp]: "lt_more [] c = c"
  by (simp add: lt_more_def)

lemma dataReceived_more: "dataReceived P recv d = (\<lambda>c. lt_loop P recv (lt_more d c))"
  by (intro ext) (simp add: dataReceived_def lt_more_def)

lemma lt_next_ok: "lt_next P c = Some (Inr m, c') \<Longrightarrow> lt_ok c \<Longrightarrow> lt_ok c'"
  by (erule lt_next_message) (simp add: lt_ok_def)

lemma lt_next_more:
  assumes "lt_ok c" and "lt_next P c = Some (r, c')"
  shows "lt_next P (lt_more d c) = Some (r, lt_more d c')"
proof -
  let ?l = "calcsize [lt_len_type P]" and ?p = "lt_packet c"
  have "int ?l \<le> lt_plen c" using assms(2) by (simp add: lt_next_def Let_def split: if_splits)
  then have l: "?l \<le> length ?p" using assms(1) by (simp add: lt_ok_def)
  then have slice: "bslice 0 ?l (?p @ d) = bslice 0 ?l ?p" by (simp add: bslice_def)
  obtain ls where ls: "struct_unpack [lt_len_type P] (bslice 0 ?l ?p) = Inr ls"
    using l by (simp add: struct_unpack_def)
  then have n: "nat (hd ls) \<le> length ?p" using assms by (auto simp: lt_next_def Let_def lt_ok_def split: if_splits)
  show ?thesis using assms ls n l slice
    by (auto simp: lt_next_def Let_def lt_more_def lt_ok_def split: if_splits)
qed

text \<open>Further bytes do not change what was decided before they came.\<close>

lemma lt_loop_more:
  "lt_ok c \<Longrightarrow> lt_loop P recv (lt_more d c) s =
     (case lt_loop P recv c s of
        (Inl e, c', s') \<Rightarrow> (Inl e, lt_more d c', s')
      | (Inr _, c', s') \<Rightarrow> lt_loop P recv (lt_more d c') s')"
proof (induction P recv c s rule: lt_loop.induct)
  case (1 P recv c s)
  note unfold = lt_loop.simps [of P recv c s] lt_loop.simps [of P recv "lt_more d c" s]
  show ?case
  proof (cases "lt_next P c")
    case None
    then show ?thesis by (simp add: unfold(1))
  next
    case (Some rc)
    obtain r c' where rc: "rc = (r, c')" by fastforce
    with Some 1(2) have more: "lt_next P (lt_more d c) = Some (r, lt_more d c')" by (simp add: lt_next_more)
    have step: "lt_loop P recv (lt_more d c') s' =
      (case lt_loop P recv c' s' of (Inl e, c'', s'') \<Rightarrow> (Inl e, lt_more d c'', s'')
       | (Inr _, c'', s'') \<Rightarrow> lt_loop P recv (lt_more d c'') s'')" if "r = Inr m" "recv m s = (Inr u, s')" for m u s'
      using 1(1) [OF Some rc [symmetric] that(1) that(2) [symmetric] refl] lt_next_ok 1(2) Some rc that(1) by blast
    show ?thesis unfolding unfold using Some rc more step by (auto split: sum.splits prod.splits)
  qed
qed

lemma lt_loop_ok: "lt_loop P recv c s = (Inr u, c', s') \<Longrightarrow> lt_ok c \<Longrightarrow> lt_ok c'"
proof (induction P recv c s rule: lt_loop.induct)
  case (1 P recv c s)
  from 1(2,3) consider "lt_next P c = None" "c' = c"
    | m c1 s1 v where "lt_next P c = Some (Inr m, c1)" "recv m s = (Inr v, s1)" "lt_loop P recv c1 s1 = (Inr u, c', s')"
    unfolding lt_loop.simps [of P recv c s] by (auto split: option.splits prod.splits sum.splits)
  then show ?case
  proof cases
    case 1
    then show ?thesis using \<open>lt_ok c\<close> by simp
  next
    case 2
    then show ?thesis using 1(1) [OF 2(1) refl refl] lt_next_ok [OF 2(1)] \<open>lt_ok c\<close> by simp
  qed
qed

text \<open>
  C34: How the network cuts the bytes of a connection into pieces does not matter: receiving two pieces one after
  the other is receiving them at once, with the same callbacks, the same exception and the same rest.
\<close>

theorem dataReceived_append:
  assumes "lt_ok c"
  shows "dataReceived P recv (a @ b) c s =
     (case dataReceived P recv a c s of
        (Inl e, c', s') \<Rightarrow> (Inl e, lt_more b c', s')
      | (Inr _, c', s') \<Rightarrow> dataReceived P recv b c' s')"
  unfolding dataReceived_more using lt_loop_more [of "lt_more a c" P recv b s] assms by simp

lemma receive_chunks_concat:
  assumes "dataReceived P recv (concat ds) c s = (Inr (), c', s')" and "lt_ok c" and "ds \<noteq> []"
  shows "receive_chunks P recv ds c s = (Inr (), c', s')"
  using assms
proof (induction ds arbitrary: c s)
  case (Cons d ds)
  show ?case
  proof (cases "ds = []")
    case True
    then show ?thesis using Cons.prems by simp
  next
    case False
    obtain r c1 s1 where d: "dataReceived P recv d c s = (r, c1, s1)" by (metis surj_pair)
    have split: "dataReceived P recv (d @ concat ds) c s = (case (r, c1, s1) of
        (Inl e, c', s') \<Rightarrow> (Inl e, lt_more (concat ds) c', s') | (Inr _, c', s') \<Rightarrow> dataReceived P recv (concat ds) c' s')"
      using lt_loop_more [of "lt_more d c" P recv "concat ds" s] Cons.prems(2) d unfolding dataReceived_more by simp
    with Cons.prems(1) obtain u where r: "r = Inr u" by (cases r) auto
    have "lt_ok c1" using lt_loop_ok [of P recv "lt_more d c" s u c1 s1] d r Cons.prems(2) by (simp add: dataReceived_more)
    then show ?thesis using Cons.IH [of c1 s1] Cons.prems(1) split d r False by simp
  qed
qed simp

section \<open>Connections of a server\<close>

lemma lt_loop_commutes:
  "(\<And>m. commutes u (recv m)) \<Longrightarrow> lt_loop P recv c s = (r, c', s') \<Longrightarrow> lt_loop P recv c (u s) = (r, c', u s')"
proof (induction P recv c s rule: lt_loop.induct)
  case (1 P recv c s)
  show ?case
  proof (cases "lt_next P c")
    case None
    then have "lt_loop P recv c x = (Inr (), c, x)" for x by (simp add: lt_loop.simps [of P recv c x])
    then show ?thesis using 1(3) by auto
  next
    case (Some rc)
    obtain q c1 where rc: "rc = (q, c1)" by fastforce
    show ?thesis
    proof (cases q)
      case (Inl e)
      then show ?thesis using 1(3) Some rc by (simp add: lt_loop.simps [of P recv c])
    next
      case (Inr m)
      obtain a s1 where a: "recv m s = (a, s1)" by fastforce
      then have a': "recv m (u s) = (a, u s1)" by (rule commutesD [OF 1(2)])
      show ?thesis
      proof (cases a)
        case (Inl e)
        then show ?thesis using 1(3) Some rc Inr a a' by (auto simp: lt_loop.simps [of P recv c])
      next
        case v: (Inr v)
        have "lt_loop P recv c1 s1 = (r, c', s')"
          using 1(3) Some rc Inr a v by (simp add: lt_loop.simps [of P recv c s])
        then have "lt_loop P recv c1 (u s1) = (r, c', u s')"
          using 1(1) [OF Some rc [symmetric] Inr a [symmetric] v] 1(2) by blast
        then show ?thesis using Some rc Inr a' v by (simp add: lt_loop.simps [of P recv c "u s"])
      qed
    qed
  qed
qed

lemma lt_loop_keeps:
  "(\<And>m. keeps Q (recv m)) \<Longrightarrow> lt_loop P recv c s = (r, c', s') \<Longrightarrow> Q s \<Longrightarrow> Q s'"
proof (induction P recv c s rule: lt_loop.induct)
  case (1 P recv c s)
  from 1(3) consider "s' = s" | m c1 a s1 where "lt_next P c = Some (Inr m, c1)" "recv m s = (a, s1)" "s' = s1"
    | m c1 v s1 where "lt_next P c = Some (Inr m, c1)" "recv m s = (Inr v, s1)" "lt_loop P recv c1 s1 = (r, c', s')"
    unfolding lt_loop.simps [of P recv c s] by (auto split: option.splits prod.splits sum.splits)
  then show ?case
  proof cases
    case 2
    then show ?thesis using keepsD [OF 1(2) 1(4)] by simp
  next
    case 3
    then show ?thesis using 1(1) [OF 3(1) refl refl 3(2) [symmetric] refl 1(2)] keepsD [OF 1(2) 1(4)] by blast
  qed (use 1(4) in simp)
qed

definition put_conn :: "nat \<Rightarrow> LTTwistedProtocol \<Rightarrow> 'a lt_server_scheme \<Rightarrow> 'a lt_server_scheme" where
  "put_conn i c s = s\<lparr>lts_conns := (lts_conns s)(i := c)\<rparr>"

lemma put_conn_simps [simp]:
  "lts_conns (put_conn i c s) i = c" "put_conn i c (put_conn i d s) = put_conn i c s" "put_conn i (lts_conns s i) s = s"
  by (simp_all add: put_conn_def)

lemma receive_chunks_commutes:
  assumes "\<And>m. commutes u (recv m)"
  shows "receive_chunks P recv ds c s = (r, c', s') \<Longrightarrow> receive_chunks P recv ds c (u s) = (r, c', u s')"
proof (induction ds arbitrary: c s)
  case (Cons d ds)
  obtain q c1 s1 where d: "dataReceived P recv d c s = (q, c1, s1)" by (metis surj_pair)
  then have "dataReceived P recv d c (u s) = (q, c1, u s1)"
    using lt_loop_commutes [of u recv P "lt_more d c" s q c1 s1] assms by (simp add: dataReceived_more)
  then show ?case using Cons d by (cases q) auto
qed simp

text \<open>A connection of the server receives chunk by chunk what its protocol object does.\<close>

lemma server_receive_chunks:
  assumes "\<And>c m. commutes (put_conn i c) (recv i m)"
  shows "receive_chunks P (recv i) ds (lts_conns s i) s = (r, c, s') \<Longrightarrow>
    sfor (server_receive P recv i) ds s = (r, put_conn i c s')"
proof (induction ds arbitrary: s s')
  case Nil
  then show ?case by (auto simp: sret_def)
next
  case (Cons d ds)
  obtain q c1 s1 where d: "dataReceived P (recv i) d (lts_conns s i) s = (q, c1, s1)" by (metis surj_pair)
  then have e: "server_receive P recv i d s = (q, put_conn i c1 s1)"
    by (simp add: server_receive_def put_conn_def)
  show ?case
  proof (cases q)
    case (Inl err)
    then show ?thesis using Cons.prems d e by (auto simp: sthen_def sbind_def)
  next
    case (Inr v)
    have "receive_chunks P (recv i) ds c1 (put_conn i c1 s1) = (r, c, put_conn i c1 s')"
      using receive_chunks_commutes [OF assms] Cons.prems d Inr by simp
    then have "sfor (server_receive P recv i) ds (put_conn i c1 s1) = (r, put_conn i c (put_conn i c1 s'))"
      using Cons.IH by simp
    then show ?thesis using e Inr by (simp add: sthen_def sbind_def)
  qed
qed

section \<open>Delivery of messages\<close>

text \<open>
  What a family of message classes promises: a message that can be packed is unpacked to itself by the class registered
  for its type.
\<close>

lemma struct_pack_pair:
  "a \<noteq> Fx \<Longrightarrow> b \<noteq> Fx \<Longrightarrow>
     struct_pack [a, b] [x, y] = Inr h \<longleftrightarrow> in_range a x \<and> in_range b y \<and> h = enc a x @ enc b y"
  by (auto simp: struct_pack.simps)

locale lt_messages =
  fixes P :: "'m LTProtocol" and mtype :: "'m \<Rightarrow> int" and body :: "'m \<Rightarrow> bytes res" and wf :: "'m \<Rightarrow> bool"
  assumes unpack_body: "wf m \<Longrightarrow> body m = Inr b \<Longrightarrow> unpack_received_msg P (mtype m) b = Inr (Some m)"
    and codes: "lt_len_type P \<notin> {Fx, Fl}" "lt_type_type P \<noteq> Fx"
begin

lemma next_frame:
  assumes "wf m" and "pack_with_header P (mtype m) (body m) = Inr f" and "lt_packet c = f @ rest" and "lt_ok c"
  shows "lt_next P c = Some (Inr (Some m), c\<lparr>lt_packet := rest, lt_plen := int (length rest)\<rparr>)"
proof -
  let ?l = "lt_len_type P" and ?t = "lt_type_type P"
  from assms(2) obtain b where b: "body m = Inr b" and r: "in_range ?l (int (fmt_size ?l + fmt_size ?t + length b))"
    "in_range ?t (mtype m)" and f: "f = enc ?l (int (fmt_size ?l + fmt_size ?t + length b)) @ enc ?t (mtype m) @ b"
    using codes by (auto simp: pack_with_header_def res_simps struct_pack_pair)
  let ?n = "fmt_size ?l + fmt_size ?t + length b"
  have len: "struct_unpack [?l] (bslice 0 (fmt_size ?l) (lt_packet c)) = Inr [int ?n]"
    using r(1) codes assms(3) f by (simp add: struct_unpack_def bslice_def dec_enc)
  have buf: "take ?n (lt_packet c) = f" "drop ?n (lt_packet c) = rest" using assms(3) f by simp_all
  have mtype: "struct_unpack [?t] (bslice (fmt_size ?l) (fmt_size ?l + fmt_size ?t) f) = Inr [mtype m]"
    using r(2) codes f by (simp add: struct_unpack_def bslice_def dec_enc)
  have plen: "lt_plen c = int (?n + length rest)" using assms(3,4) f by (simp add: lt_ok_def)
  show ?thesis
    using len buf mtype plen unpack_body [OF assms(1) b] f
    by (simp add: lt_next_def Let_def del: of_nat_add)
qed

lemma deliver_all:
  assumes "rmapM (\<lambda>m. pack_with_header P (mtype m) (body m)) ms = Inr fs" and "list_all wf ms"
    and "sfor recv (map Some ms) s = (Inr (), s')" and "lt_packet c = concat fs" and "lt_ok c"
  shows "lt_loop P recv c s = (Inr (), c\<lparr>lt_packet := [], lt_plen := 0\<rparr>, s')"
  using assms
proof (induction ms arbitrary: fs c s)
  case Nil
  then have "lt_next P c = None" by (simp add: lt_next_def lt_ok_def Let_def)
  moreover have "c = c\<lparr>lt_packet := [], lt_plen := 0\<rparr>" using Nil by (simp add: lt_ok_def)
  ultimately show ?case using Nil.prems(3) by (subst lt_loop.simps) (simp add: sret_def)
next
  case (Cons m ms)
  then obtain f fs' where f: "pack_with_header P (mtype m) (body m) = Inr f" and fs: "fs = f # fs'"
    and fs': "rmapM (\<lambda>m. pack_with_header P (mtype m) (body m)) ms = Inr fs'"
    by (auto simp: res_simps)
  let ?c = "c\<lparr>lt_packet := concat fs', lt_plen := int (length (concat fs'))\<rparr>"
  have n: "lt_next P c = Some (Inr (Some m), ?c)"
    using next_frame [OF _ f] Cons.prems fs by simp
  obtain s1 where s1: "recv (Some m) s = (Inr (), s1)" "sfor recv (map Some ms) s1 = (Inr (), s')"
    using Cons.prems(3) by (auto simp: sthen_def sbind_def split: prod.splits sum.splits)
  have "lt_loop P recv ?c s1 = (Inr (), ?c\<lparr>lt_packet := [], lt_plen := 0\<rparr>, s')"
    using Cons.IH [OF fs' _ s1(2)] Cons.prems(2) by (simp add: lt_ok_def)
  then show ?case using n s1 by (subst lt_loop.simps) simp
qed

text \<open>The messages of a stream are delivered, each once and in order, however the stream is cut.\<close>

lemma deliver_chunks:
  assumes "rmapM (\<lambda>m. pack_with_header P (mtype m) (body m)) ms = Inr fs" and "list_all wf ms"
    and "sfor recv (map Some ms) s = (Inr (), s')" and "concat ds = concat fs" and "ds \<noteq> []"
    and "lt_packet c = []" and "lt_plen c = 0"
  shows "receive_chunks P recv ds c s = (Inr (), c, s')"
proof -
  let ?c = "lt_more (concat ds) c"
  have "lt_packet ?c = concat fs" "lt_ok ?c" using assms by (simp_all add: lt_more_def lt_ok_def)
  then have "lt_loop P recv ?c s = (Inr (), ?c\<lparr>lt_packet := [], lt_plen := 0\<rparr>, s')"
    using deliver_all [OF assms(1-3)] by blast
  then have "dataReceived P recv (concat ds) c s = (Inr (), c, s')"
    using assms(6,7) by (simp add: dataReceived_more lt_more_def)
  then show ?thesis using receive_chunks_concat assms(5-7) by (fastforce simp: lt_ok_def)
qed

end

text \<open>A protocol with the default codes, for which the hypothesis of the theorem on chunks holds\<close>

definition lt_demo :: "(int \<times> bytes) LTProtocol" where
  "lt_demo = \<lparr>lt_len_type = FH, lt_type_type = FB, lt_msg_types = (\<lambda>t. if t = 7 then Some (\<lambda>b. Inr (Some (t, b))) else None)\<rparr>"

theorem dataReceived_append_witness:
  "dataReceived lt_demo (\<lambda>m. smod (\<lambda>s. s @ [m])) ([0, 5] @ [7, 1, 2, 0]) LTTwistedProtocol_init []
     = (case dataReceived lt_demo (\<lambda>m. smod (\<lambda>s. s @ [m])) [0, 5] LTTwistedProtocol_init [] of
          (Inl e, c', s') \<Rightarrow> (Inl e, lt_more [7, 1, 2, 0] c', s')
        | (Inr _, c', s') \<Rightarrow> dataReceived lt_demo (\<lambda>m. smod (\<lambda>s. s @ [m])) [7, 1, 2, 0] c' s')"
  by (rule dataReceived_append) (simp add: lt_ok_def LTTwistedProtocol_init_def)

end
