(* ===== verification/Vns_Protocol.thy ===== *)
theory Vns_Protocol
  imports Lt_Protocol Addresses
begin

text \<open>
  \<open>pox_module/CSE425/VNSProtocol.py\<close>: the messages between the bridge and the virtual router, one constructor per
  message class, with their \<open>pack\<close>, \<open>unpack\<close>, \<open>length\<close> and type numbers, and the protocol that registers them.
  Strings are byte strings; a field \<open>Ns\<close> of a format pads with zero bytes and truncates.
\<close>

section \<open>Message classes\<close>

record VNSInterface =
  vi_name :: bytes
  vi_mac :: bytes
  vi_ip :: bytes
  vi_mask :: bytes

datatype vns_msg =
    VNSOpen int bytes bytes bytes \<comment> \<open>topology, virtual host, user, password\<close>
  | VNSClose bytes
  | VNSPacket bytes bytes \<comment> \<open>interface name, frame\<close>
  | VNSBanner bytes
  | VNSHardwareInfo "VNSInterface list"
  | VNSRtable bytes bytes
  | VNSOpenTemplate bytes bytes "(bytes \<times> int) list" \<comment> \<open>template, host, source filters\<close>
  | VNSAuthRequest bytes
  | VNSAuthReply bytes bytes
  | VNSAuthStatus bool bytes

fun get_type :: "vns_msg \<Rightarrow> int" where
  "get_type (VNSOpen _ _ _ _) = 1"
| "get_type (VNSClose _) = 2"
| "get_type (VNSPacket _ _) = 4"
| "get_type (VNSBanner _) = 8"
| "get_type (VNSHardwareInfo _) = 16"
| "get_type (VNSRtable _ _) = 32"
| "get_type (VNSOpenTemplate _ _ _) = 64"
| "get_type (VNSAuthRequest _) = 128"
| "get_type (VNSAuthReply _ _) = 256"
| "get_type (VNSAuthStatus _ _) = 512"

definition strip_null_chars :: "bytes \<Rightarrow> bytes" where
  "strip_null_chars s = strip0 s"

text \<open>The format code \<open>Ns\<close>\<close>

definition pack_s :: "nat \<Rightarrow> bytes \<Rightarrow> bytes" where
  "pack_s n s = take n (ljust0 n s)"

text \<open>\<open>VNSInterface\<close>\<close>

definition VNSInterface_init :: "bytes \<Rightarrow> bytes \<Rightarrow> bytes \<Rightarrow> bytes \<Rightarrow> VNSInterface res" where
  "VNSInterface_init name mac ip netmask =
     (if length mac \<noteq> 6 \<or> length ip \<noteq> 4 \<or> length netmask \<noteq> 4 then Inl VNSProtocolException
      else Inr \<lparr>vi_name = name, vi_mac = mac, vi_ip = ip, vi_mask = netmask\<rparr>)"

definition VNSInterface_pack :: "VNSInterface \<Rightarrow> bytes" where
  "VNSInterface_pack i =
     enc FI 1 @ pack_s 32 (vi_name i) @ enc FI 2 @ enc FI 0 @ pack_s 28 [] @
     enc FI 32 @ pack_s 32 (vi_mac i) @ enc FI 64 @ pack_s 4 (vi_ip i) @ pack_s 28 [] @
     enc FI 4 @ enc FI 0 @ pack_s 28 [] @ enc FI 128 @ pack_s 4 (vi_mask i) @ pack_s 28 []"

text \<open>The source filters of \<open>VNSOpenTemplate\<close>; an empty list stands for no filter.\<close>

definition NO_SRC_FILTERS :: "(bytes \<times> int) list" where
  "NO_SRC_FILTERS = [(bytes_of_str ''0.0.0.0'', 0)]"

definition VNSOpenTemplate_init :: "bytes \<Rightarrow> bytes \<Rightarrow> (bytes \<times> int) list \<Rightarrow> vns_msg" where
  "VNSOpenTemplate_init name host fs = VNSOpenTemplate name host (if fs = [] then NO_SRC_FILTERS else fs)"

definition filter_pack :: "bytes \<times> int \<Rightarrow> bytes res" where
  "filter_pack f = rbind (inet_aton (fst f)) (\<lambda>ip. rmap (\<lambda>m. ip @ m) (struct_pack [FB] [snd f]))"

fun filters_unpack :: "bytes \<Rightarrow> (bytes \<times> int) list res" where
  "filters_unpack (a # b # c # d # m # rest) =
     (if 32 < uint m then Inl VNSProtocolException
      else rmap ((#) (bytes_of_str (inet_ntoa [a, b, c, d]), uint m)) (filters_unpack rest))"
| "filters_unpack _ = Inr []"

definition VNSOpen_pack :: "int \<Rightarrow> bytes \<Rightarrow> bytes \<Rightarrow> bytes \<Rightarrow> bytes res" where
  "VNSOpen_pack topo vhost user pw =
     rmap (\<lambda>h. h @ pack_s 32 vhost @ pack_s 32 user @ pack_s 32 pw) (struct_pack [FH, FH] [topo, 0])"

definition VNSClose_pack :: "bytes \<Rightarrow> bytes" where
  "VNSClose_pack msg = pack_s 256 msg"

definition VNSPacket_pack :: "bytes \<Rightarrow> bytes \<Rightarrow> bytes" where
  "VNSPacket_pack intf frame = pack_s 16 intf @ frame"

definition VNSBanner_pack :: "bytes \<Rightarrow> bytes" where
  "VNSBanner_pack msg = pack_s 256 msg"

definition VNSHardwareInfo_pack :: "VNSInterface list \<Rightarrow> bytes" where
  "VNSHardwareInfo_pack interfaces = concat (map VNSInterface_pack interfaces)"

definition VNSRtable_pack :: "bytes \<Rightarrow> bytes \<Rightarrow> bytes" where
  "VNSRtable_pack host rtable = pack_s 32 host @ rtable"

definition VNSOpenTemplate_pack :: "bytes \<Rightarrow> bytes \<Rightarrow> (bytes \<times> int) list \<Rightarrow> bytes res" where
  "VNSOpenTemplate_pack name host fs =
     rmap (\<lambda>bs. pack_s 30 name @ pack_s 32 host @ concat bs) (rmapM filter_pack fs)"

definition VNSAuthReply_pack :: "bytes \<Rightarrow> bytes \<Rightarrow> bytes res" where
  "VNSAuthReply_pack user ssp = rmap (\<lambda>h. h @ user @ ssp) (struct_pack [FI] [int (length user)])"

definition VNSAuthStatus_pack :: "bool \<Rightarrow> bytes \<Rightarrow> bytes res" where
  "VNSAuthStatus_pack ok msg = rmap (\<lambda>h. h @ msg) (struct_pack [FB] [if ok then 1 else 0])"

lemmas vns_pack_defs = VNSOpen_pack_def VNSClose_pack_def VNSPacket_pack_def VNSBanner_pack_def VNSHardwareInfo_pack_def
  VNSRtable_pack_def VNSOpenTemplate_pack_def VNSAuthReply_pack_def VNSAuthStatus_pack_def

fun vns_pack :: "vns_msg \<Rightarrow> bytes res" where
  "vns_pack (VNSOpen topo vhost user pw) = VNSOpen_pack topo vhost user pw"
| "vns_pack (VNSClose msg) = Inr (VNSClose_pack msg)"
| "vns_pack (VNSPacket intf frame) = Inr (VNSPacket_pack intf frame)"
| "vns_pack (VNSBanner msg) = Inr (VNSBanner_pack msg)"
| "vns_pack (VNSHardwareInfo interfaces) = Inr (VNSHardwareInfo_pack interfaces)"
| "vns_pack (VNSRtable host rtable) = Inr (VNSRtable_pack host rtable)"
| "vns_pack (VNSOpenTemplate name host fs) = VNSOpenTemplate_pack name host fs"
| "vns_pack (VNSAuthRequest salt) = Inr salt"
| "vns_pack (VNSAuthReply user ssp) = VNSAuthReply_pack user ssp"
| "vns_pack (VNSAuthStatus ok msg) = VNSAuthStatus_pack ok msg"

text \<open>The method \<open>length\<close> of each class\<close>

fun vns_length :: "vns_msg \<Rightarrow> nat" where
  "vns_length (VNSOpen _ _ _ _) = 100"
| "vns_length (VNSClose _) = 256"
| "vns_length (VNSPacket _ frame) = 16 + length frame"
| "vns_length (VNSBanner _) = 256"
| "vns_length (VNSHardwareInfo is) = length is * 216"
| "vns_length (VNSRtable _ rtable) = 32 + length rtable"
| "vns_length (VNSOpenTemplate _ _ fs) = 62 + 30 + 5 * length fs"
| "vns_length (VNSAuthRequest salt) = length salt"
| "vns_length (VNSAuthReply user ssp) = length user + length ssp"
| "vns_length (VNSAuthStatus _ msg) = 1 + length msg"

section \<open>Unpacking\<close>

definition VNSOpen_unpack :: "bytes \<Rightarrow> vns_msg option res" where
  "VNSOpen_unpack b =
     (if length b \<noteq> 100 then Inl StructError
      else Inr (Some (VNSOpen (dec FH (bslice 0 2 b)) (strip_null_chars (bslice 4 36 b))
        (strip_null_chars (bslice 36 68 b)) (strip_null_chars (bslice 68 100 b)))))"

definition VNSClose_unpack :: "bytes \<Rightarrow> vns_msg option res" where
  "VNSClose_unpack b = (if length b \<noteq> 256 then Inl StructError else Inr (Some (VNSClose (strip_null_chars b))))"

definition VNSPacket_unpack :: "bytes \<Rightarrow> vns_msg option res" where
  "VNSPacket_unpack b =
     (if length b < 16 then Inl StructError else Inr (Some (VNSPacket (strip_null_chars (take 16 b)) (drop 16 b))))"

definition VNSBanner_unpack :: "bytes \<Rightarrow> vns_msg option res" where
  "VNSBanner_unpack b = (if length b \<noteq> 256 then Inl StructError else Inr (Some (VNSBanner (strip_null_chars b))))"

definition VNSRtable_unpack :: "bytes \<Rightarrow> vns_msg option res" where
  "VNSRtable_unpack b = Inr (Some (VNSRtable (strip_null_chars (take 32 b)) (drop 32 b)))"

definition VNSOpenTemplate_unpack :: "bytes \<Rightarrow> vns_msg option res" where
  "VNSOpenTemplate_unpack b =
     (if length b < 62 then Inl StructError
      else rmap (\<lambda>fs. Some (VNSOpenTemplate_init (strip_null_chars (bslice 0 30 b)) (strip_null_chars (bslice 30 62 b)) fs))
             (filters_unpack (drop 62 b)))"

definition VNSAuthReply_unpack :: "bytes \<Rightarrow> vns_msg option res" where
  "VNSAuthReply_unpack b =
     rmap (\<lambda>vs. let n = nat (hd vs) in Some (VNSAuthReply (take n (drop 4 b)) (drop n (drop 4 b))))
       (struct_unpack [FI] (bslice 0 4 b))"

definition VNSAuthStatus_unpack :: "bytes \<Rightarrow> vns_msg option res" where
  "VNSAuthStatus_unpack b =
     rmap (\<lambda>vs. Some (VNSAuthStatus (hd vs \<noteq> 0) (drop 1 b))) (struct_unpack [FB] (bslice 0 1 b))"

text \<open>\<open>VNS_PROTOCOL\<close>.  \<open>VNSHardwareInfo\<close> inherits the \<open>unpack\<close> of \<open>LTMessage\<close>, which returns \<open>None\<close>.\<close>

definition VNS_PROTOCOL :: "vns_msg LTProtocol" where
  "VNS_PROTOCOL = \<lparr>lt_len_type = FI, lt_type_type = FI, lt_msg_types = (\<lambda>t.
     if t = 1 then Some VNSOpen_unpack
     else if t = 2 then Some VNSClose_unpack
     else if t = 4 then Some VNSPacket_unpack
     else if t = 8 then Some VNSBanner_unpack
     else if t = 16 then Some (\<lambda>_. Inr None)
     else if t = 32 then Some VNSRtable_unpack
     else if t = 64 then Some VNSOpenTemplate_unpack
     else if t = 128 then Some (\<lambda>b. Inr (Some (VNSAuthRequest b)))
     else if t = 256 then Some VNSAuthReply_unpack
     else if t = 512 then Some VNSAuthStatus_unpack
     else None)\<rparr>"

section \<open>Banners\<close>

text \<open>\<open>get_banners\<close> and \<open>get_banners_and_close\<close>: pieces of 255 characters\<close>

definition banner_piece :: "bytes \<Rightarrow> nat \<Rightarrow> bytes" where
  "banner_piece msg i = bslice (i * 255) ((i + 1) * 255) msg"

definition get_banners :: "bytes \<Rightarrow> vns_msg list" where
  "get_banners msg = map (\<lambda>i. VNSBanner (banner_piece msg i)) [0 ..< length msg div 255 + 1]"

definition get_banners_and_close :: "bytes \<Rightarrow> vns_msg list" where
  "get_banners_and_close msg =
     (let n = length msg div 255 + 1 in
      map (\<lambda>i. if i + 1 < n then VNSBanner (banner_piece msg i) else VNSClose (banner_piece msg i)) [0 ..< n])"

section \<open>Round trips\<close>

definition fits :: "nat \<Rightarrow> bytes \<Rightarrow> bool" where
  "fits n s \<longleftrightarrow> length s \<le> n \<and> 0 \<notin> set s"

definition filter_wf :: "bytes \<times> int \<Rightarrow> bool" where
  "filter_wf f \<longleftrightarrow> (\<exists>ip. length ip = 4 \<and> fst f = bytes_of_str (inet_ntoa ip)) \<and> snd f \<le> 32"

fun vns_wf :: "vns_msg \<Rightarrow> bool" where
  "vns_wf (VNSOpen _ vhost user pw) \<longleftrightarrow> fits 32 vhost \<and> fits 32 user \<and> fits 32 pw"
| "vns_wf (VNSClose msg) \<longleftrightarrow> fits 256 msg"
| "vns_wf (VNSPacket intf _) \<longleftrightarrow> fits 16 intf"
| "vns_wf (VNSBanner msg) \<longleftrightarrow> fits 256 msg"
| "vns_wf (VNSHardwareInfo _) \<longleftrightarrow> False"
| "vns_wf (VNSRtable host _) \<longleftrightarrow> fits 32 host"
| "vns_wf (VNSOpenTemplate name host fs) \<longleftrightarrow> fits 30 name \<and> fits 32 host \<and> fs \<noteq> [] \<and> list_all filter_wf fs"
| "vns_wf (VNSAuthRequest _) \<longleftrightarrow> True"
| "vns_wf (VNSAuthReply _ _) \<longleftrightarrow> True"
| "vns_wf (VNSAuthStatus _ _) \<longleftrightarrow> True"

lemma length_pack_s [simp]: "length (pack_s n s) = n"
  by (simp add: pack_s_def length_ljust0)

lemma strip_pack_s [simp]: "fits n s \<Longrightarrow> strip_null_chars (pack_s n s) = s"
  by (simp add: fits_def pack_s_def strip_null_chars_def strip0_ljust0)

lemma filters_roundtrip:
  "rmapM filter_pack fs = Inr bs \<Longrightarrow> list_all filter_wf fs \<Longrightarrow> filters_unpack (concat bs) = Inr fs"
proof (induction fs arbitrary: bs)
  case Nil
  then show ?case by simp
next
  case (Cons f fs)
  then obtain ip where ip: "length ip = 4" "fst f = bytes_of_str (inet_ntoa ip)" and m: "snd f \<le> 32"
    by (auto simp: filter_wf_def)
  then obtain a b c d where abcd: "ip = [a, b, c, d]" by (auto simp: length_Suc_conv numeral_eq_Suc)
  from Cons.prems ip obtain bs' where bs: "bs = (ip @ enc FB (snd f)) # bs'" "rmapM filter_pack fs = Inr bs'"
    and r: "in_range FB (snd f)"
    by (auto simp: filter_pack_def [of f] inet_aton_ntoa res_simps struct_pack.simps split: if_splits)
  obtain w where w: "enc FB (snd f) = [w]"
    using length_enc [of FB "snd f"] by (auto simp: length_Suc_conv simp del: length_enc)
  moreover have "uint w = snd f"
    using dec_enc [of FB "snd f"] r w by (simp add: dec_def be_val_def)
  ultimately show ?case using Cons.IH [OF bs(2)] Cons.prems(2) bs(1) abcd ip(2) m by (cases f) simp
qed

lemma vns_unpack_body:
  "vns_wf m \<Longrightarrow> vns_pack m = Inr b \<Longrightarrow> unpack_received_msg VNS_PROTOCOL (get_type m) b = Inr (Some m)"
proof (cases m)
  case (VNSOpen topo vhost user pw)
  assume w: "vns_wf m" and b: "vns_pack m = Inr b"
  from b VNSOpen have r: "in_range FH topo" and b: "b = enc FH topo @ enc FH 0 @ pack_s 32 vhost @ pack_s 32 user @ pack_s 32 pw"
    by (auto simp: vns_pack_defs res_simps struct_pack.simps split: if_splits)
  show ?thesis using w r VNSOpen
    by (simp add: b unpack_received_msg_def VNS_PROTOCOL_def VNSOpen_unpack_def bslice_def)
next
  case (VNSOpenTemplate name host fs)
  assume w: "vns_wf m" and b: "vns_pack m = Inr b"
  from b VNSOpenTemplate obtain bs where fs: "rmapM filter_pack fs = Inr bs" and b: "b = pack_s 30 name @ pack_s 32 host @ concat bs"
    by (auto simp: vns_pack_defs res_simps)
  show ?thesis using w VNSOpenTemplate filters_roundtrip [OF fs]
    by (simp add: b unpack_received_msg_def VNS_PROTOCOL_def VNSOpenTemplate_unpack_def VNSOpenTemplate_init_def bslice_def)
next
  case (VNSAuthReply user ssp)
  assume "vns_pack m = Inr b"
  with VNSAuthReply have r: "in_range FI (int (length user))" and b: "b = enc FI (int (length user)) @ user @ ssp"
    by (auto simp: vns_pack_defs res_simps struct_pack.simps split: if_splits)
  show ?thesis using r VNSAuthReply
    by (simp add: b unpack_received_msg_def VNS_PROTOCOL_def VNSAuthReply_unpack_def struct_unpack_def bslice_def)
next
  case (VNSAuthStatus ok msg)
  assume "vns_pack m = Inr b"
  with VNSAuthStatus have r: "in_range FB (if ok then 1 else 0)" and b: "b = enc FB (if ok then 1 else 0) @ msg"
    by (auto simp: vns_pack_defs res_simps struct_pack.simps split: if_splits)
  show ?thesis using r VNSAuthStatus
    by (simp add: b unpack_received_msg_def VNS_PROTOCOL_def VNSAuthStatus_unpack_def struct_unpack_def bslice_def)
qed (auto simp: vns_pack_defs unpack_received_msg_def VNS_PROTOCOL_def VNSClose_unpack_def VNSPacket_unpack_def VNSBanner_unpack_def
    VNSRtable_unpack_def)

interpretation vns: lt_messages VNS_PROTOCOL get_type vns_pack vns_wf
  by unfold_locales (simp_all add: vns_unpack_body, simp_all add: VNS_PROTOCOL_def)

text \<open>
  C33: A sequence of VNS messages, packed with their headers and cut into pieces at will, is delivered to the receiver once each and in order, and
  nothing is left over.  The messages are of every class but \<open>VNSHardwareInfo\<close>, which has no \<open>unpack\<close>, and their strings fit the fields they are
  packed in, without null characters; a template has at least one filter, of a dotted address and a mask length of at most 32.  The receiver returns on each of them.
\<close>

theorem vns_stream_delivery:
  assumes "rmapM (\<lambda>m. pack_with_header VNS_PROTOCOL (get_type m) (vns_pack m)) ms = Inr fs" and "list_all vns_wf ms"
    and "concat ds = concat fs" and "ds \<noteq> []" and "lt_packet c = []" and "lt_plen c = 0"
    and "sfor recv (map Some ms) s = (Inr (), s')"
  shows "receive_chunks VNS_PROTOCOL recv ds c s = (Inr (), c, s')"
  by (rule vns.deliver_chunks [OF assms(1,2,7,3-6)])

section \<open>Lengths and banners\<close>

lemma length_filters: "rmapM filter_pack fs = Inr bs \<Longrightarrow> list_all filter_wf fs \<Longrightarrow> length (concat bs) = 5 * length fs"
proof (induction fs arbitrary: bs)
  case (Cons f fs)
  then obtain ip where "length ip = 4" "fst f = bytes_of_str (inet_ntoa ip)"
    by (auto simp: filter_wf_def)
  with Cons.prems obtain b bs' where "filter_pack f = Inr b" "length b = 5" "bs = b # bs'" "rmapM filter_pack fs = Inr bs'"
    by (auto simp: filter_pack_def [of f] inet_aton_ntoa res_simps struct_pack.simps split: if_splits)
  then show ?case using Cons.IH [of bs'] Cons.prems(2) by simp
qed simp

lemma length_interfaces: "length (concat (map VNSInterface_pack is)) = length is * 216"
  by (induction "is") (simp_all add: VNSInterface_pack_def)

text \<open>
  The method \<open>length\<close> gives the length of the packed message for every class except two: a VNSAuthReply reports
  four bytes too few (it forgets the length of the name), and a VNSOpenTemplate thirty bytes too many.
\<close>

theorem vns_length_pack:
  assumes "vns_pack m = Inr b" and "\<And>name host fs. m = VNSOpenTemplate name host fs \<Longrightarrow> list_all filter_wf fs"
  shows "int (vns_length m) = int (length b) +
    (case m of VNSAuthReply _ _ \<Rightarrow> - 4 | VNSOpenTemplate _ _ _ \<Rightarrow> 30 | _ \<Rightarrow> 0)"
proof (cases m)
  case (VNSOpenTemplate name host fs)
  then obtain bs where "rmapM filter_pack fs = Inr bs" "b = pack_s 30 name @ pack_s 32 host @ concat bs"
    using assms(1) by (auto simp: vns_pack_defs res_simps)
  then show ?thesis using length_filters [of fs bs] assms(2) VNSOpenTemplate by simp
qed (use assms length_interfaces in \<open>auto simp: vns_pack_defs res_simps struct_pack.simps split: if_splits\<close>)

lemma concat_pieces:
  "concat (map (\<lambda>i. bslice (i * k) ((i + 1) * k) msg) [0 ..< n]) = take (n * k) msg"
proof (induction n)
  case (Suc n)
  then show ?case by (simp add: bslice_def take_add add.commute [of k])
qed simp

definition banner_text :: "vns_msg \<Rightarrow> bytes" where
  "banner_text m = (case m of VNSBanner t \<Rightarrow> t | VNSClose t \<Rightarrow> t | _ \<Rightarrow> [])"

text \<open>
  The banners a long text is split into lose nothing: their texts put together are the text, each has at most
  255 characters, the last one is the VNSClose when one is asked for, and their number is one more than the text
  has full pieces of 255, so a text of 255 characters takes a banner more than it needs.
\<close>

theorem banners_lossless:
  "concat (map banner_text (get_banners msg)) = msg"
  "concat (map banner_text (get_banners_and_close msg)) = msg"
  "list_all (\<lambda>m. length (banner_text m) \<le> 255) (get_banners msg)"
  "length (get_banners msg) = length msg div 255 + 1"
  "last (get_banners_and_close msg) = VNSClose (banner_piece msg (length msg div 255))"
proof -
  let ?n = "length msg div 255 + 1"
  have "length msg \<le> ?n * 255" using mod_less_divisor [of 255 "length msg"] div_mult_mod_eq [of "length msg" 255] by simp
  then have all: "concat (map (banner_piece msg) [0 ..< ?n]) = msg"
    using concat_pieces [of 255 msg ?n] unfolding banner_piece_def by simp
  have texts: "map banner_text (get_banners msg) = map (banner_piece msg) [0 ..< ?n]"
    "map banner_text (get_banners_and_close msg) = map (banner_piece msg) [0 ..< ?n]"
    by (simp_all add: get_banners_def get_banners_and_close_def banner_text_def Let_def)
  show "concat (map banner_text (get_banners msg)) = msg" "concat (map banner_text (get_banners_and_close msg)) = msg"
    unfolding texts by (rule all)+
  show "list_all (\<lambda>m. length (banner_text m) \<le> 255) (get_banners msg)"
    by (auto simp: get_banners_def banner_text_def banner_piece_def list_all_iff)
  show "length (get_banners msg) = ?n" by (simp add: get_banners_def)
  show "last (get_banners_and_close msg) = VNSClose (banner_piece msg (length msg div 255))"
    by (simp add: get_banners_and_close_def Let_def)
qed

section \<open>Witnesses\<close>

lemma fits_eth1: "fits 16 (bytes_of_str ''eth1'')"
  by (simp add: fits_def bytes_of_str_def)

lemma demo_frames: "rmapM (\<lambda>m. pack_with_header VNS_PROTOCOL (get_type m) (vns_pack m))
    [VNSAuthReply [65] [9, 9], VNSPacket (bytes_of_str ''eth1'') [1, 2, 3]] =
  Inr [[0, 0, 0, 15, 0, 0, 1, 0, 0, 0, 0, 1, 65, 9, 9],
       [0, 0, 0, 27, 0, 0, 0, 4, 101, 116, 104, 49, 0, 0, 0, 0, 0, 0, 0, 0, 0, 0, 0, 0, 1, 2, 3]]"
  by code_simp

theorem vns_stream_delivery_witness:
  "receive_chunks VNS_PROTOCOL (\<lambda>m. smod (\<lambda>s. s @ [m]))
     [[0, 0], [0, 15, 0, 0, 1, 0, 0, 0, 0, 1, 65, 9, 9, 0, 0, 0, 27, 0],
      [0, 0, 4, 101, 116, 104, 49, 0, 0, 0, 0, 0, 0, 0, 0, 0, 0, 0, 0, 1, 2, 3]] LTTwistedProtocol_init []
   = (Inr (), LTTwistedProtocol_init, [Some (VNSAuthReply [65] [9, 9]), Some (VNSPacket (bytes_of_str ''eth1'') [1, 2, 3])])"
  by (rule vns_stream_delivery [OF demo_frames])
    (simp_all add: fits_eth1 LTTwistedProtocol_init_def sm_simps)

theorem vns_length_pack_witness:
  "vns_pack (VNSAuthReply [65] [9, 9]) = Inr [0, 0, 0, 1, 65, 9, 9] \<and> int (vns_length (VNSAuthReply [65] [9, 9])) = 7 - 4"
proof -
  have b: "vns_pack (VNSAuthReply [65] [9, 9]) = Inr [0, 0, 0, 1, 65, 9, 9]" by code_simp
  show ?thesis using b vns_length_pack [OF b] by simp
qed

end
