(* ===== verification/Switch_Impl.thy ===== *)
theory Switch_Impl
  imports Flow_Table Py_State "HOL-Library.AList"
begin

text \<open>
  \<open>pox/openflow/switch_impl.py\<close>: the software switch, its packet buffer, the execution of actions, the
  handlers of controller messages, and the connection that frames and dispatches them
  (with the buffers of \<open>pox/lib/ioworker/io_worker.py\<close> and the class table of \<open>pox/openflow/util.py\<close>).
  Packet objects are shared (the buffer keeps references), so they live in a store indexed by
  their identity.  Dictionaries keyed by port number are association lists; their order stands for
  Python's unspecified order.  Log output is not modelled.
\<close>

unbundle bit_operations_syntax

section \<open>Capabilities\<close>

record SwitchCapabilities =
  cap_flow_stats :: bool
  cap_table_stats :: bool
  cap_port_stats :: bool
  cap_stp :: bool
  cap_multi_phy_tx :: bool
  cap_ip_resam :: bool
  cap_miss_send_len :: int
  act_output :: bool
  act_set_vlan_vid :: bool
  act_set_vlan_pcp :: bool
  act_strip_vlan :: bool
  act_set_dl_src :: bool
  act_set_dl_dst :: bool
  act_set_nw_src :: bool
  act_set_nw_dst :: bool
  act_set_tp_src :: bool
  act_set_tp_dst :: bool
  act_vendor :: bool

definition SwitchCapabilities_init :: "int \<Rightarrow> SwitchCapabilities" where
  "SwitchCapabilities_init miss_send_len =
     \<lparr>cap_flow_stats = False, cap_table_stats = False, cap_port_stats = False, cap_stp = False,
      cap_multi_phy_tx = False, cap_ip_resam = False, cap_miss_send_len = miss_send_len,
      act_output = True, act_set_vlan_vid = True, act_set_vlan_pcp = True, act_strip_vlan = True,
      act_set_dl_src = True, act_set_dl_dst = True, act_set_nw_src = True, act_set_nw_dst = True,
      act_set_tp_src = True, act_set_tp_dst = True, act_vendor = False\<rparr>"

text \<open>\<open>if flag: value += table[name]\<close>, for each flag in turn\<close>

fun add_flags :: "(string \<times> int) list \<Rightarrow> (int \<Rightarrow> int) \<Rightarrow> (bool \<times> string) list \<Rightarrow> int \<Rightarrow> int res" where
  "add_flags tbl f [] value = Inr value"
| "add_flags tbl f ((b, k) # fs) value =
     (if b then rbind (need KeyError (map_of tbl k)) (\<lambda>v. add_flags tbl f fs (value + f v))
      else add_flags tbl f fs value)"

definition get_capabilities :: "SwitchCapabilities \<Rightarrow> int res" where
  "get_capabilities c = add_flags ofp_capabilities_rev_map (\<lambda>v. v)
     [(cap_flow_stats c, ''OFPC_FLOW_STATS''), (cap_table_stats c, ''OFPC_TABLE_STATS''),
      (cap_port_stats c, ''OFPC_PORT_STATS''), (cap_stp c, ''OFPC_STP''),
      (cap_multi_phy_tx c, ''OFPC_MULTI_PHY_TX''), (cap_ip_resam c, ''OFPC_IP_REASM'')] 0"

definition get_actions :: "SwitchCapabilities \<Rightarrow> int res" where
  "get_actions c = add_flags ofp_action_type_rev_map (\<lambda>v. push_bit (nat (v + 1)) 1)
     [(act_output c, ''OFPAT_OUTPUT''), (act_set_vlan_vid c, ''OFPAT_SET_VLAN_VID''),
      (act_set_vlan_pcp c, ''OFPAT_SET_VLAN_PCP''), (act_strip_vlan c, ''OFPAT_STRIP_VLAN''),
      (act_set_dl_src c, ''OFPAT_SET_DL_SRC''), (act_set_dl_dst c, ''OFPAT_SET_DL_DST''),
      (act_set_nw_src c, ''OFPAT_SET_NW_SRC''), (act_set_nw_dst c, ''OFPAT_SET_NW_DST''),
      (act_set_tp_src c, ''OFPAT_SET_TP_SRC''), (act_set_tp_dst c, ''OFPAT_SET_TP_DST'')] 0"

section \<open>State\<close>

text \<open>What a call takes from its surroundings: the other packet classes, the next IP identification, a random number, the clock.\<close>

record swenv =
  env_subs :: subs
  env_iid :: int
  env_rnd :: int
  env_now :: int

record switch =
  sw_dpid :: int
  sw_n_buffers :: int
  sw_n_tables :: int
  sw_table :: flow_table
  sw_buffer :: "(nat \<times> int) option list" \<comment> \<open>packet object and input port\<close>
  sw_heap :: "packet list" \<comment> \<open>packet objects by identity\<close>
  sw_ports :: "(int \<times> ofp_phy_port) list"
  sw_port_stats :: "(int \<times> ofp_port_stats) list"
  sw_xid_count :: int
  sw_capabilities :: SwitchCapabilities
  sw_connected :: bool
  sw_nextXID :: int \<comment> \<open>the counter of \<open>generateXID\<close>\<close>
  sw_send_buf :: "bytes list" \<comment> \<open>the send buffer, message by message\<close>
  sw_receive_buf :: bytes
  sw_events :: "(packet \<times> ofp_phy_port) list" \<comment> \<open>\<open>DpPacketOut\<close> events\<close>

text \<open>The format \<open>%2x\<close> and the default ports.\<close>

definition fmt_2x :: "int \<Rightarrow> string" where
  "fmt_2x n = (let s = hex_int n in replicate (2 - length s) (CHR '' '') @ s)"

definition default_port_list :: "nat \<Rightarrow> int \<Rightarrow> ofp_phy_port list res" where
  "default_port_list num_ports prefix =
     rmapM (\<lambda>i. rmap (\<lambda>e. ofp_phy_port_init\<lparr>pp_port_no := i, pp_hw_addr := HwEth e\<rparr>)
         (EthAddr_init (EthStr (bytes_of_str (''00:00:00:00:'' @ fmt_2x (prefix mod 255) @ '':'' @ fmt_2x i)))))
       (map int [1 ..< num_ports + 1])"

definition SwitchImpl_init :: "int \<Rightarrow> ofp_phy_port list \<Rightarrow> int \<Rightarrow> int \<Rightarrow> int \<Rightarrow> int \<Rightarrow> switch" where
  "SwitchImpl_init dpid ports miss_send_len n_buffers n_tables nextXID =
     \<lparr>sw_dpid = dpid, sw_n_buffers = n_buffers, sw_n_tables = n_tables, sw_table = FlowTable_init,
      sw_buffer = [], sw_heap = [],
      sw_ports = fold (\<lambda>p. AList.update (pp_port_no p) p) ports [],
      sw_port_stats = fold (\<lambda>p. AList.update (pp_port_no p) (ofp_port_stats_init\<lparr>ps_port_no := pp_port_no p\<rparr>)) ports [],
      sw_xid_count = xid_generator 1, sw_capabilities = SwitchCapabilities_init miss_send_len,
      sw_connected = False, sw_nextXID = nextXID, sw_send_buf = [], sw_receive_buf = [], sw_events = []\<rparr>"

text \<open>\<open>set_io_worker\<close> and \<open>set_connection\<close>\<close>

definition set_connection :: "switch \<Rightarrow> switch" where
  "set_connection s = s\<lparr>sw_connected := True, sw_send_buf := [], sw_receive_buf := []\<rparr>"

section \<open>Sending\<close>

datatype out_msg = OHello ofp_header | OEcho ofp_echo | OFeatures ofp_features_reply
  | OBarrier ofp_header | OConfig ofp_get_config_reply | OStats ofp_stats_reply | OError ofp_error
  | OPacketIn ofp_packet_in | OPortStatus ofp_port_status

fun out_pack :: "int \<Rightarrow> out_msg \<Rightarrow> (bytes \<times> int) res" where
  "out_pack nx (OHello m) = rmap (\<lambda>(b, _, nx). (b, nx)) (ofp_hello_pack nx m)"
| "out_pack nx (OEcho m) = rmap (\<lambda>(b, _, nx). (b, nx)) (ofp_echo_pack nx m)"
| "out_pack nx (OFeatures m) = rmap (\<lambda>(b, _, nx). (b, nx)) (ofp_features_reply_pack True nx m)"
| "out_pack nx (OBarrier m) = rmap (\<lambda>(b, _, nx). (b, nx)) (ofp_barrier_reply_pack nx m)"
| "out_pack nx (OConfig m) = rmap (\<lambda>(b, _, nx). (b, nx)) (ofp_get_config_reply_pack nx m)"
| "out_pack nx (OStats m) = rmap (\<lambda>(b, _, nx). (b, nx)) (ofp_stats_reply_pack nx m)"
| "out_pack nx (OError m) = rmap (\<lambda>(b, _, nx). (b, nx)) (ofp_error_pack nx m)"
| "out_pack nx (OPacketIn m) = rmap (\<lambda>(b, _, nx). (b, nx)) (ofp_packet_in_pack nx m)"
| "out_pack nx (OPortStatus m) = rmap (\<lambda>(b, _, nx). (b, nx)) (ofp_port_status_pack nx m)"

text \<open>\<open>SwitchImpl.send\<close>, \<open>ControllerConnection.send\<close> and \<open>IOWorker.send\<close>\<close>

definition sw_send :: "out_msg \<Rightarrow> (switch, unit) sm" where
  "sw_send m = sbind (sget sw_connected) (\<lambda>connected.
     if connected then
       sbind (sget sw_nextXID) (\<lambda>nx.
       sbind (slift (out_pack nx m)) (\<lambda>(b, nx').
       smod (\<lambda>s. s\<lparr>sw_send_buf := sw_send_buf s @ [b], sw_nextXID := nx'\<rparr>)))
     else sret ())"

definition next_xid :: "(switch, int) sm" where
  "next_xid = sbind (sget sw_xid_count) (\<lambda>n.
     sthen (smod (\<lambda>s. s\<lparr>sw_xid_count := snd (xid_next n)\<rparr>)) (sret (fst (xid_next n))))"

section \<open>Packet objects\<close>

definition new_packet :: "packet \<Rightarrow> (switch, nat) sm" where
  "new_packet p = sbind (sget (\<lambda>s. length (sw_heap s))) (\<lambda>i.
     sthen (smod (\<lambda>s. s\<lparr>sw_heap := sw_heap s @ [p]\<rparr>)) (sret i))"

definition get_packet :: "nat \<Rightarrow> (switch, packet) sm" where
  "get_packet i = sget (\<lambda>s. sw_heap s ! i)"

definition set_packet :: "nat \<Rightarrow> packet \<Rightarrow> (switch, unit) sm" where
  "set_packet i p = smod (\<lambda>s. s\<lparr>sw_heap := (sw_heap s)[i := p]\<rparr>)"

text \<open>\<open>packet.pack()\<close> writes lengths and checksums into the headers.\<close>

definition pack_packet :: "swenv \<Rightarrow> nat \<Rightarrow> (switch, bytes) sm" where
  "pack_packet env i = sbind (get_packet i) (\<lambda>p.
     sbind (slift (packet_pack (env_subs env) None p)) (\<lambda>(b, p').
     sthen (set_packet i p') (sret b)))"

definition is_ethernet :: "packet \<Rightarrow> bool" where
  "is_ethernet p = (case p of Ethernet _ _ \<Rightarrow> True | _ \<Rightarrow> False)"

definition assert_ethernet :: "nat \<Rightarrow> (switch, unit) sm" where
  "assert_ethernet i = sbind (get_packet i) (\<lambda>p. if is_ethernet p then sret () else sraise AssertionError)"

section \<open>The packet buffer\<close>

fun first_free :: "'a option list \<Rightarrow> nat option" where
  "first_free [] = None"
| "first_free (None # vs) = Some 0"
| "first_free (Some v # vs) = map_option Suc (first_free vs)"

text \<open>Buffer identifiers count from 1.\<close>

definition buffer_packet :: "nat \<Rightarrow> int \<Rightarrow> (switch, int) sm" where
  "buffer_packet p in_port = sbind (sget sw_buffer) (\<lambda>buf.
     case first_free buf of
       Some i \<Rightarrow> sthen (smod (\<lambda>s. s\<lparr>sw_buffer := buf[i := Some (p, in_port)]\<rparr>)) (sret (int i + 1))
     | None \<Rightarrow> sthen (smod (\<lambda>s. s\<lparr>sw_buffer := buf @ [Some (p, in_port)]\<rparr>)) (sret (int (length buf) + 1)))"

section \<open>Messages the switch sends\<close>

definition send_hello :: "(switch, unit) sm" where
  "send_hello = sw_send (OHello ofp_hello_init)"

definition send_packet_in :: "swenv \<Rightarrow> int \<Rightarrow> int option \<Rightarrow> nat \<Rightarrow> int option \<Rightarrow> int option \<Rightarrow> (switch, unit) sm" where
  "send_packet_in env in_port buffer_id p x reason =
     sthen (assert_ethernet p)
     (sbind (case x of Some x \<Rightarrow> sret x | None \<Rightarrow> next_xid) (\<lambda>x.
      sbind (pack_packet env p) (\<lambda>b.
      sw_send (OPacketIn (ofp_packet_in_init\<lparr>xid := Some x, pi_in_port := in_port,
        pi_buffer_id := (case buffer_id of Some i \<Rightarrow> i | None \<Rightarrow> 0xffffffff),
        pi_reason := (case reason of Some r \<Rightarrow> r | None \<Rightarrow> 0), pi_data := b\<rparr>)))))"

definition send_echo :: "(switch, unit) sm" where
  "send_echo = sw_send (OEcho ofp_echo_request_init)"

definition send_port_status :: "ofp_phy_port \<Rightarrow> int \<Rightarrow> (switch, unit) sm" where
  "send_port_status port reason =
     (if reason \<in> {0, 1, 2} then sw_send (OPortStatus (ofp_port_status_init\<lparr>pst_desc := port, pst_reason := reason\<rparr>))
      else sraise AssertionError)"

definition take_port_down :: "ofp_phy_port \<Rightarrow> (switch, unit) sm" where
  "take_port_down port = sbind (sget (\<lambda>s. map_of (sw_ports s) (pp_port_no port))) (\<lambda>known.
     if known = None then sraise RuntimeError
     else sthen (smod (\<lambda>s. s\<lparr>sw_ports := AList.delete (pp_port_no port) (sw_ports s)\<rparr>))
            (send_port_status port 1))"

definition bring_port_up :: "ofp_phy_port \<Rightarrow> (switch, unit) sm" where
  "bring_port_up port = sbind (sget (\<lambda>s. map_of (sw_ports s) (pp_port_no port))) (\<lambda>known.
     if known \<noteq> None then sraise RuntimeError
     else sthen (smod (\<lambda>s. s\<lparr>sw_ports := AList.update (pp_port_no port) port (sw_ports s)\<rparr>))
            (send_port_status port 0))"

section \<open>Output\<close>

definition real_send :: "nat \<Rightarrow> int \<Rightarrow> (switch, unit) sm" where
  "real_send p no = sbind (sget (\<lambda>s. map_of (sw_ports s) no)) (\<lambda>port. case port of
     None \<Rightarrow> sraise RuntimeError
   | Some port \<Rightarrow> smod (\<lambda>s. s\<lparr>sw_events := sw_events s @ [(sw_heap s ! p, port)]\<rparr>))"

text \<open>
  \<open>_output_packet\<close>.  A missing port (\<open>None\<close>) compares less than every number and then fails in the
  formatting of the message; \<open>raise("\<dots>")\<close> with a string is a \<open>TypeError\<close>.
\<close>

definition output_packet :: "swenv \<Rightarrow> nat \<Rightarrow> int option \<Rightarrow> int \<Rightarrow> (switch, unit) sm" where
  "output_packet env p outp in_port =
     sthen (assert_ethernet p)
     (case outp of
        None \<Rightarrow> sraise TypeError
      | Some out \<Rightarrow>
          if out < OFPP_MAX then real_send p out
          else if out = OFPP_IN_PORT then real_send p in_port
          else if out = OFPP_FLOOD \<or> out = OFPP_ALL then
            sbind (sget sw_ports) (\<lambda>ports.
              sfor (\<lambda>(no, port). if no \<noteq> in_port then real_send p (pp_port_no port) else sret ()) ports)
          else if out = OFPP_CONTROLLER then
            sbind (buffer_packet p in_port) (\<lambda>buffer_id.
            sbind next_xid (\<lambda>x. send_packet_in env in_port (Some buffer_id) p (Some x) (Some 1)))
          else sraise TypeError)"

section \<open>Actions\<close>

text \<open>Attributes of action objects; a class that lacks one raises.\<close>

definition attr_port :: "ofp_action \<Rightarrow> int option res" where
  "attr_port a = (case a of ActOutput x \<Rightarrow> Inr (out_port x) | ActEnqueue x \<Rightarrow> Inr (Some (enq_port x)) | _ \<Rightarrow> Inl AttributeError)"

definition attr_vlan_pcp :: "ofp_action \<Rightarrow> int res" where
  "attr_vlan_pcp a = (case a of ActVlanPcp x \<Rightarrow> Inr (pcp_vlan_pcp x) | _ \<Rightarrow> Inl AttributeError)"

definition attr_dl_addr :: "ofp_action \<Rightarrow> hwaddr res" where
  "attr_dl_addr a = (case a of ActDlAddr x \<Rightarrow> Inr (dla_dl_addr x) | _ \<Rightarrow> Inl AttributeError)"

definition attr_nw_addr :: "ofp_action \<Rightarrow> IPAddr res" where
  "attr_nw_addr a = (case a of ActNwAddr x \<Rightarrow> Inr (nwa_nw_addr x) | _ \<Rightarrow> Inl AttributeError)"

definition attr_nw_tos :: "ofp_action \<Rightarrow> int res" where
  "attr_nw_tos a = (case a of ActNwTos x \<Rightarrow> Inr (tos_nw_tos x) | _ \<Rightarrow> Inl AttributeError)"

definition attr_tp_port :: "ofp_action \<Rightarrow> int option res" where
  "attr_tp_port a = (case a of ActTpPort x \<Rightarrow> Inr (tp_tp_port x) | _ \<Rightarrow> Inl AttributeError)"

definition attr_ethertype :: "ofp_action \<Rightarrow> int res" where
  "attr_ethertype a = (case a of ActPushMpls x \<Rightarrow> Inr (push_ethertype x) | ActPopMpls x \<Rightarrow> Inr (pop_ethertype x)
     | _ \<Rightarrow> Inl AttributeError)"

text \<open>The ethernet packet with its header or payload replaced.\<close>

definition eth_upd :: "(ethernet \<Rightarrow> ethernet) \<Rightarrow> packet \<Rightarrow> packet" where
  "eth_upd f p = (case p of Ethernet h n \<Rightarrow> Ethernet (f h) n | _ \<Rightarrow> p)"

definition eth_next :: "packet \<Rightarrow> packet \<Rightarrow> packet" where
  "eth_next n p = (case p of Ethernet h _ \<Rightarrow> Ethernet h n | _ \<Rightarrow> p)"

definition eth_type_of :: "packet \<Rightarrow> int" where
  "eth_type_of p = (case p of Ethernet h _ \<Rightarrow> eth_type h | _ \<Rightarrow> 0)"

definition upd_packet :: "nat \<Rightarrow> (packet \<Rightarrow> packet) \<Rightarrow> (switch, unit) sm" where
  "upd_packet i f = sbind (get_packet i) (\<lambda>p. set_packet i (f p))"

text \<open>
  A new tag in front of the payload: \<open>vlan(prev = \<dots>)\<close> has no payload of its own, so the old one is lost.
\<close>

definition ensure_vlan :: "packet \<Rightarrow> packet" where
  "ensure_vlan p = (case next_of p of
     Vlan _ _ \<Rightarrow> p
   | _ \<Rightarrow> eth_upd (\<lambda>h. h\<lparr>eth_type := 0x8100\<rparr>) (eth_next (Vlan (vlan_init\<lparr>vlan_eth_type := eth_type_of p\<rparr>) NoNext) p))"

text \<open>\<open>action.vlan_id\<close> does not exist; the number goes to a new attribute of the ethernet object.\<close>

definition set_vlan_id :: "nat \<Rightarrow> (switch, unit) sm" where
  "set_vlan_id i = sthen (upd_packet i ensure_vlan) (sraise AttributeError)"

definition act_vlan_pcp :: "ofp_action \<Rightarrow> nat \<Rightarrow> (switch, unit) sm" where
  "act_vlan_pcp a i = sthen (upd_packet i ensure_vlan) (sthen (slift (attr_vlan_pcp a)) (sret ()))"

definition strip_vlan :: "nat \<Rightarrow> (switch, unit) sm" where
  "strip_vlan i = upd_packet i (\<lambda>p. case next_of p of
     Vlan v n \<Rightarrow> eth_upd (\<lambda>h. h\<lparr>eth_type := vlan_eth_type v\<rparr>) (eth_next n p)
   | _ \<Rightarrow> p)"

definition act_dl_src :: "ofp_action \<Rightarrow> nat \<Rightarrow> (switch, unit) sm" where
  "act_dl_src a i = sbind (slift (attr_dl_addr a)) (\<lambda>d. upd_packet i (eth_upd (\<lambda>h. h\<lparr>eth_src := d\<rparr>)))"

definition act_dl_dst :: "ofp_action \<Rightarrow> nat \<Rightarrow> (switch, unit) sm" where
  "act_dl_dst a i = sbind (slift (attr_dl_addr a)) (\<lambda>d. upd_packet i (eth_upd (\<lambda>h. h\<lparr>eth_dst := d\<rparr>)))"

text \<open>
  \<open>set_nw_src\<close> and \<open>set_nw_dst\<close> write the attributes \<open>nw_src\<close> and \<open>nw_dst\<close>, which nothing reads:
  the addresses of an ipv4 header are \<open>srcip\<close> and \<open>dstip\<close>.
\<close>

definition act_nw_addr :: "ofp_action \<Rightarrow> nat \<Rightarrow> (switch, unit) sm" where
  "act_nw_addr a i = sbind (get_packet i) (\<lambda>p. case next_of p of
     Ipv4 _ _ \<Rightarrow> sthen (slift (attr_nw_addr a)) (sret ())
   | _ \<Rightarrow> sret ())"

definition act_nw_tos :: "ofp_action \<Rightarrow> nat \<Rightarrow> (switch, unit) sm" where
  "act_nw_tos a i = sbind (get_packet i) (\<lambda>p. case next_of p of
     Ipv4 h n \<Rightarrow> sbind (slift (attr_nw_tos a)) (\<lambda>tos. upd_packet i (eth_next (Ipv4 (h\<lparr>ipv4_tos := tos\<rparr>) n)))
   | _ \<Rightarrow> sret ())"

text \<open>Only a udp or tcp header directly inside the frame is changed.\<close>

definition act_tp_src :: "ofp_action \<Rightarrow> nat \<Rightarrow> (switch, unit) sm" where
  "act_tp_src a i = sbind (get_packet i) (\<lambda>p. case next_of p of
     Udp h n \<Rightarrow> sbind (slift (rbind (attr_tp_port a) (need TypeError))) (\<lambda>v. upd_packet i (eth_next (Udp (h\<lparr>udp_srcport := v\<rparr>) n)))
   | Tcp h n \<Rightarrow> sbind (slift (rbind (attr_tp_port a) (need TypeError))) (\<lambda>v. upd_packet i (eth_next (Tcp (h\<lparr>tcp_srcport := v\<rparr>) n)))
   | _ \<Rightarrow> sret ())"

definition act_tp_dst :: "ofp_action \<Rightarrow> nat \<Rightarrow> (switch, unit) sm" where
  "act_tp_dst a i = sbind (get_packet i) (\<lambda>p. case next_of p of
     Udp h n \<Rightarrow> sbind (slift (rbind (attr_tp_port a) (need TypeError))) (\<lambda>v. upd_packet i (eth_next (Udp (h\<lparr>udp_dstport := v\<rparr>) n)))
   | Tcp h n \<Rightarrow> sbind (slift (rbind (attr_tp_port a) (need TypeError))) (\<lambda>v. upd_packet i (eth_next (Tcp (h\<lparr>tcp_dstport := v\<rparr>) n)))
   | _ \<Rightarrow> sret ())"

text \<open>\<open>output_packet(action.tp_port, packet)\<close>: an enqueue action has no \<open>tp_port\<close>, and a number has no \<open>port\<close>.\<close>

definition act_enqueue :: "ofp_action \<Rightarrow> (switch, unit) sm" where
  "act_enqueue a = sthen (slift (attr_tp_port a)) (sraise AttributeError)"

text \<open>\<open>mpls(prev = packet.pack())\<close>: a label with no payload\<close>

definition push_mpls_tag :: "swenv \<Rightarrow> int res \<Rightarrow> nat \<Rightarrow> (switch, unit) sm" where
  "push_mpls_tag env ethertype i = sbind (get_packet i) (\<lambda>p.
     let bottom = (case next_of p of Mpls _ _ \<Rightarrow> True | _ \<Rightarrow> False) in
     sthen (pack_packet env i)
     (sthen (upd_packet i (eth_next (Mpls (mpls_init\<lparr>mpls_s := (if bottom then 1 else 0)\<rparr>) NoNext)))
     (sbind (slift ethertype) (\<lambda>t. upd_packet i (eth_upd (\<lambda>h. h\<lparr>eth_type := t\<rparr>))))))"

definition parse_payload :: "swenv \<Rightarrow> int \<Rightarrow> bytes \<Rightarrow> packet res" where
  "parse_payload env t b =
     (if t = 0x8100 then vlan_new (env_subs env) (env_iid env) (env_rnd env) b
      else case type_parser (env_subs env) (env_iid env) (env_rnd env) t b of
             Some p \<Rightarrow> p
           | None \<Rightarrow> Inr (Bytes b))"

text \<open>The type of the frame is not changed: the code writes \<open>packet.ethertype\<close>.\<close>

definition pop_mpls_tag :: "swenv \<Rightarrow> ofp_action \<Rightarrow> nat \<Rightarrow> (switch, unit) sm" where
  "pop_mpls_tag env a i = sbind (get_packet i) (\<lambda>p. case next_of p of
     Mpls h n \<Rightarrow>
       sbind (case n of
           Bytes b \<Rightarrow> sret b
         | NoNext \<Rightarrow> sraise AttributeError
         | _ \<Rightarrow> sbind (slift (packet_pack (env_subs env) None n)) (\<lambda>(b, _).
              sthen (upd_packet i (eth_next (Mpls h (Bytes b)))) (sret b))) (\<lambda>b.
       sbind (slift (attr_ethertype a)) (\<lambda>t.
       sbind (slift (parse_payload env t b)) (\<lambda>q.
       upd_packet i (eth_next q))))
   | _ \<Rightarrow> sret ())"

definition on_mpls :: "swenv \<Rightarrow> (mpls \<Rightarrow> mpls) res \<Rightarrow> nat \<Rightarrow> (switch, unit) sm" where
  "on_mpls env f i = sbind (get_packet i) (\<lambda>p.
     sthen (case next_of p of
         Mpls _ _ \<Rightarrow> sret ()
       | _ \<Rightarrow> push_mpls_tag env (Inr (push_ethertype ofp_action_push_mpls_init)) i)
     (sbind (slift f) (\<lambda>f. upd_packet i (\<lambda>p. case next_of p of Mpls h n \<Rightarrow> eth_next (Mpls (f h) n) p | _ \<Rightarrow> p))))"

definition attr_mpls :: "ofp_action \<Rightarrow> int \<Rightarrow> (mpls \<Rightarrow> mpls) res" where
  "attr_mpls a t = (case a of
     ActMplsLabel x \<Rightarrow> if t = OFPAT_SET_MPLS_LABEL then Inr (\<lambda>h. h\<lparr>mpls_label := lab_mpls_label x\<rparr>) else Inl AttributeError
   | ActMplsTc x \<Rightarrow> if t = OFPAT_SET_MPLS_TC then Inr (\<lambda>h. h\<lparr>mpls_tc := mtc_mpls_tc x\<rparr>) else Inl AttributeError
   | ActMplsTtl x \<Rightarrow> if t = OFPAT_SET_MPLS_TTL then Inr (\<lambda>h. h\<lparr>mpls_ttl := mttl_mpls_ttl x\<rparr>) else Inl AttributeError
   | _ \<Rightarrow> Inl AttributeError)"

definition dec_mpls_ttl :: "nat \<Rightarrow> (switch, unit) sm" where
  "dec_mpls_ttl i = upd_packet i (\<lambda>p. case next_of p of
     Mpls h n \<Rightarrow> eth_next (Mpls (h\<lparr>mpls_ttl := mpls_ttl h - 1\<rparr>) n) p
   | _ \<Rightarrow> p)"

text \<open>
  \<open>handler_map\<close>, by the type number of the action.  \<open>action.type is ofp_action_resubmit\<close> compares a number
  with a class and never holds; the message for an unknown type formats the builtin \<open>type\<close> with \<open>%x\<close>.
\<close>

definition do_action :: "swenv \<Rightarrow> ofp_action \<Rightarrow> nat \<Rightarrow> int \<Rightarrow> (switch, unit) sm" where
  "do_action env a i in_port = (case action_type a of
     None \<Rightarrow> sraise TypeError
   | Some t \<Rightarrow>
       if t = OFPAT_OUTPUT then sbind (slift (attr_port a)) (\<lambda>port. output_packet env i port in_port)
       else if t = OFPAT_SET_VLAN_VID then set_vlan_id i
       else if t = OFPAT_SET_VLAN_PCP then act_vlan_pcp a i
       else if t = OFPAT_STRIP_VLAN then strip_vlan i
       else if t = OFPAT_SET_DL_SRC then act_dl_src a i
       else if t = OFPAT_SET_DL_DST then act_dl_dst a i
       else if t = OFPAT_SET_NW_SRC \<or> t = OFPAT_SET_NW_DST then act_nw_addr a i
       else if t = OFPAT_SET_NW_TOS then act_nw_tos a i
       else if t = OFPAT_SET_TP_SRC then act_tp_src a i
       else if t = OFPAT_SET_TP_DST then act_tp_dst a i
       else if t = OFPAT_ENQUEUE then act_enqueue a
       else if t = OFPAT_PUSH_MPLS then push_mpls_tag env (attr_ethertype a) i
       else if t = OFPAT_POP_MPLS then pop_mpls_tag env a i
       else if t = OFPAT_SET_MPLS_LABEL \<or> t = OFPAT_SET_MPLS_TC \<or> t = OFPAT_SET_MPLS_TTL then on_mpls env (attr_mpls a t) i
       else if t = OFPAT_DEC_MPLS_TTL then dec_mpls_ttl i
       else sraise TypeError)"

definition process_actions :: "swenv \<Rightarrow> ofp_action list \<Rightarrow> nat \<Rightarrow> int \<Rightarrow> (switch, unit) sm" where
  "process_actions env actions i in_port = sfor (\<lambda>a. do_action env a i in_port) actions"

text \<open>\<open>_process_actions_for_packet\<close> with the bytes of a frame\<close>

definition process_actions_bytes :: "swenv \<Rightarrow> ofp_action list \<Rightarrow> bytes \<Rightarrow> int \<Rightarrow> (switch, unit) sm" where
  "process_actions_bytes env actions b in_port =
     sbind (slift (ethernet_new (env_subs env) (env_iid env) (env_rnd env) b)) (\<lambda>p.
     sbind (new_packet p) (\<lambda>i. process_actions env actions i in_port))"

text \<open>
  The guard of the buffer tests \<open>buffer_id > len(buffer)\<close>, so the first identifier past the end
  raises.
\<close>

definition process_actions_from_buffer :: "swenv \<Rightarrow> ofp_action list \<Rightarrow> int \<Rightarrow> (switch, unit) sm" where
  "process_actions_from_buffer env actions buffer_id =
     (let k = buffer_id - 1 in
      sbind (sget sw_buffer) (\<lambda>buf.
      if k > int (length buf) then sret ()
      else if k = int (length buf) then sraise IndexError
      else case buf ! nat k of
        None \<Rightarrow> sret ()
      | Some (p, in_port) \<Rightarrow>
          sthen (process_actions env actions p in_port)
            (smod (\<lambda>s. s\<lparr>sw_buffer := (sw_buffer s)[nat k := None]\<rparr>))))"

text \<open>\<open>process_packet\<close>: a frame arrives at a port\<close>

definition process_packet :: "swenv \<Rightarrow> packet \<Rightarrow> int \<Rightarrow> (switch, unit) sm" where
  "process_packet env packet in_port =
     (if \<not> is_ethernet packet then sraise AssertionError
      else sbind (new_packet packet) (\<lambda>i.
        sbind (sget sw_table) (\<lambda>t.
        sbind (slift (entry_for_packet packet in_port t)) (\<lambda>hit. case hit of
          Some e \<Rightarrow>
            sbind (pack_packet env i) (\<lambda>b.
            sthen (smod (\<lambda>s. s\<lparr>sw_table := touch_entry (te_oid e) (int (length b)) (env_now env) (sw_table s)\<rparr>))
              (process_actions env (te_actions e) i in_port))
        | None \<Rightarrow>
            sbind (buffer_packet i in_port) (\<lambda>buffer_id.
            sbind next_xid (\<lambda>x. send_packet_in env in_port (Some buffer_id) i (Some x) (Some 0)))))))"

section \<open>Handlers of controller messages\<close>

definition receive_hello :: "(switch, unit) sm" where
  "receive_hello = send_hello"

definition receive_echo :: "ofp_echo \<Rightarrow> (switch, unit) sm" where
  "receive_echo m = sw_send (OEcho (ofp_echo_reply_init\<lparr>xid := xid m\<rparr>))"

definition receive_features_request :: "ofp_header \<Rightarrow> (switch, unit) sm" where
  "receive_features_request m =
     sbind (sget (\<lambda>s. s)) (\<lambda>s.
     sbind (slift (get_capabilities (sw_capabilities s))) (\<lambda>c.
     sbind (slift (get_actions (sw_capabilities s))) (\<lambda>a.
     sw_send (OFeatures ((ofp_features_reply_init (sw_dpid s) (sw_n_buffers s) (sw_n_tables s) c a
       (map snd (sw_ports s)))\<lparr>xid := xid m\<rparr>)))))"

definition receive_flow_mod :: "swenv \<Rightarrow> ofp_flow_mod \<Rightarrow> (switch, unit) sm" where
  "receive_flow_mod env fm =
     sthen (szoom sw_table (\<lambda>t s. s\<lparr>sw_table := t\<rparr>) (process_flow_mod (env_now env) fm))
       (case fm_buffer_id fm of
          Some i \<Rightarrow> if i > 0 then process_actions_from_buffer env (fm_actions fm) i else sret ()
        | None \<Rightarrow> sret ())"

definition receive_packet_out :: "swenv \<Rightarrow> ofp_packet_out \<Rightarrow> (switch, unit) sm" where
  "receive_packet_out env m =
     (if po_data m \<noteq> [] then process_actions_bytes env (po_actions m) (po_data m) (po_in_port m)
      else if po_buffer_id m > 0 then process_actions_from_buffer env (po_actions m) (po_buffer_id m)
      else sret ())"

definition receive_barrier_request :: "ofp_header \<Rightarrow> (switch, unit) sm" where
  "receive_barrier_request m = sw_send (OBarrier (ofp_barrier_reply_init\<lparr>xid := xid m\<rparr>))"

definition receive_get_config_request :: "ofp_header \<Rightarrow> (switch, unit) sm" where
  "receive_get_config_request m = sw_send (OConfig (ofp_get_config_reply_init\<lparr>xid := xid m\<rparr>))"

text \<open>
  \<open>desc_stats\<close> is the only statistics handler that returns: \<open>unpack\<close> gives the rest of the string,
  not the request, and the switch has no \<open>table_id\<close>; the table has no \<open>table_stats\<close>.
\<close>

definition sw_desc_stats :: "int \<Rightarrow> ofp_desc_stats" where
  "sw_desc_stats dpid = ofp_desc_stats_init\<lparr>
     ds_mfr_desc := bytes_of_str ''BadAssEmulatedPoxSwitch(TM)'',
     ds_hw_desc := bytes_of_str ''your finest emulated asics'',
     ds_sw_desc := bytes_of_str ''pox. reliable, fast, stable. Choose 0 (or more?)'',
     ds_serial_num := bytes_of_str (str_int dpid),
     ds_dp_desc := bytes_of_str ''high performance emuswitch. Several packets per second have been observed (but not by reliable witnesses)''\<rparr>"

definition sr_raw_body :: "ofp_stats_request \<Rightarrow> bytes" where
  "sr_raw_body m = (case sr_body m of SrBytes b \<Rightarrow> b | _ \<Rightarrow> [])"

definition stats_body :: "int \<Rightarrow> ofp_stats_request \<Rightarrow> stats_rep_body res" where
  "stats_body dpid m = (case sr_type m of
     None \<Rightarrow> Inl TypeError
   | Some t \<Rightarrow>
       if t = 0 then Inr (SpOne (SpDesc (sw_desc_stats dpid)))
       else if t = 1 then rbind (ofp_flow_stats_request_unpack ofp_flow_stats_request_init (sr_raw_body m)) (\<lambda>_. Inl AttributeError)
       else if t = 2 then rbind (ofp_aggregate_stats_request_unpack ofp_flow_stats_request_init (sr_raw_body m)) (\<lambda>_. Inl AttributeError)
       else if t = 4 then rbind (ofp_port_stats_request_unpack ofp_port_stats_request_init (sr_raw_body m)) (\<lambda>_. Inl AttributeError)
       else Inl AttributeError)"

definition receive_stats_request :: "ofp_stats_request \<Rightarrow> (switch, unit) sm" where
  "receive_stats_request m = sbind (sget sw_dpid) (\<lambda>dpid.
     sbind (slift (stats_body dpid m)) (\<lambda>body.
     sw_send (OStats (ofp_stats_reply_init\<lparr>xid := xid m, sp_body := body\<rparr>))))"

definition receive_vendor :: "(switch, unit) sm" where
  "receive_vendor = sw_send (OError (ofp_error_init\<lparr>err_type := 1, err_code := 3\<rparr>))"

section \<open>The controller connection\<close>

text \<open>
  The messages of the class table: \<open>make_type_to_class_table\<close> lists the classes of the types 0 to 20 (its
  \<open>range(0, max)\<close> leaves out the last type, 21).  Messages the switch has no handler for are one case.
\<close>

datatype in_msg = IHello ofp_header | IEcho ofp_echo | IEchoReply ofp_echo | IVendor ofp_vendor
  | IFeatures ofp_header | IGetConfig ofp_header | ISetConfig ofp_set_config | IPacketOut ofp_packet_out
  | IFlowMod ofp_flow_mod | IStats ofp_stats_request | IBarrier ofp_header | IOther

definition unpack_msg :: "int \<Rightarrow> bytes \<Rightarrow> in_msg res" where
  "unpack_msg t b =
     (if t = 0 then rmap (IHello \<circ> fst) (ofp_hello_unpack ofp_hello_init b)
      else if t = 1 then rmap (\<lambda>_. IOther) (ofp_error_unpack ofp_error_init b)
      else if t = 2 then rmap (IEcho \<circ> fst) (ofp_echo_unpack ofp_echo_request_init b)
      else if t = 3 then rmap (IEchoReply \<circ> fst) (ofp_echo_unpack ofp_echo_reply_init b)
      else if t = 4 then rmap (IVendor \<circ> fst) (ofp_vendor_unpack ofp_vendor_init b)
      else if t = 5 then rmap (IFeatures \<circ> fst) (ofp_features_request_unpack ofp_features_request_init b)
      else if t = 6 then rmap (\<lambda>_. IOther) (ofp_features_reply_unpack (ofp_features_reply_init 0 0 0 0 0 []) b)
      else if t = 7 then rmap (IGetConfig \<circ> fst) (ofp_get_config_request_unpack ofp_get_config_request_init b)
      else if t = 8 then rmap (\<lambda>_. IOther) (ofp_get_config_reply_unpack ofp_get_config_reply_init b)
      else if t = 9 then rmap (ISetConfig \<circ> fst) (ofp_set_config_unpack ofp_set_config_init b)
      else if t = 10 then rmap (\<lambda>_. IOther) (ofp_packet_in_unpack ofp_packet_in_init b)
      else if t = 11 then rmap (\<lambda>_. IOther) (ofp_flow_removed_unpack ofp_flow_removed_init b)
      else if t = 12 then rmap (\<lambda>_. IOther) (ofp_port_status_unpack ofp_port_status_init b)
      else if t = 13 then rmap (IPacketOut \<circ> fst) (ofp_packet_out_unpack ofp_packet_out_init b)
      else if t = 14 then rmap (IFlowMod \<circ> fst) (ofp_flow_mod_unpack ofp_flow_mod_init b)
      else if t = 15 then rmap (\<lambda>_. IOther) (ofp_port_mod_unpack ofp_port_mod_init b)
      else if t = 16 then rmap (IStats \<circ> fst) (ofp_stats_request_unpack ofp_stats_request_init b)
      else if t = 17 then rmap (\<lambda>_. IOther) (ofp_stats_reply_unpack ofp_stats_reply_init b)
      else if t = 18 then rmap (IBarrier \<circ> fst) (ofp_barrier_request_unpack ofp_barrier_request_init b)
      else if t = 19 then rmap (\<lambda>_. IOther) (ofp_barrier_reply_unpack ofp_barrier_reply_init b)
      else if t = 20 then rmap (\<lambda>_. IOther) (ofp_queue_get_config_request_unpack ofp_queue_get_config_request_init b)
      else Inl IndexError)"

text \<open>\<open>ofp_handlers\<close>\<close>

fun handle_msg :: "swenv \<Rightarrow> in_msg \<Rightarrow> (switch, unit) sm" where
  "handle_msg env (IHello m) = receive_hello"
| "handle_msg env (IEcho m) = receive_echo m"
| "handle_msg env (IEchoReply m) = sret ()"
| "handle_msg env (IVendor m) = receive_vendor"
| "handle_msg env (IFeatures m) = receive_features_request m"
| "handle_msg env (IGetConfig m) = receive_get_config_request m"
| "handle_msg env (ISetConfig m) = sret ()"
| "handle_msg env (IPacketOut m) = receive_packet_out env m"
| "handle_msg env (IFlowMod m) = receive_flow_mod env m"
| "handle_msg env (IStats m) = receive_stats_request m"
| "handle_msg env (IBarrier m) = receive_barrier_request m"
| "handle_msg env IOther = sraise RuntimeError"

text \<open>\<open>ord(message[2]) << 8 | ord(message[3])\<close>\<close>

definition frame_len :: "bytes \<Rightarrow> nat" where
  "frame_len b = unat (b ! 2) * 256 + unat (b ! 3)"

datatype read_result = RTrue | RFalse | RNone

text \<open>
  \<open>read\<close>, with fuel: a frame of length 0 is never consumed.  The surroundings of the successive messages are
  given as a sequence.  An exception in \<open>unpack\<close> leaves the loop, one in a handler ends it with \<open>False\<close>.
\<close>

fun read_loop :: "nat \<Rightarrow> (nat \<Rightarrow> swenv) \<Rightarrow> switch \<Rightarrow> (read_result res \<times> switch) option" where
  "read_loop 0 env s = None"
| "read_loop (Suc n) env s =
     (let b = sw_receive_buf s in
      if length b \<le> 4 then Some (Inr RTrue, s)
      else if uint (b ! 0) \<noteq> OFP_VERSION then Some (Inr RFalse, s)
      else if length b < frame_len b then Some (Inr RNone, s)
      else case unpack_msg (uint (b ! 1)) b of
        Inl e \<Rightarrow> Some (Inl e, s)
      | Inr m \<Rightarrow>
          (case handle_msg (env 0) m (s\<lparr>sw_receive_buf := drop (frame_len b) b\<rparr>) of
             (Inl e, s') \<Rightarrow> Some (Inr RFalse, s')
           | (Inr _, s') \<Rightarrow> read_loop n (\<lambda>k. env (Suc k)) s'))"

text \<open>\<open>_push_receive_data\<close>: new bytes from the network, then \<open>read\<close>\<close>

definition push_receive_data :: "nat \<Rightarrow> (nat \<Rightarrow> swenv) \<Rightarrow> bytes \<Rightarrow> switch \<Rightarrow> (read_result res \<times> switch) option" where
  "push_receive_data fuel env new_data s = read_loop fuel env (s\<lparr>sw_receive_buf := sw_receive_buf s @ new_data\<rparr>)"

end
