(* ===== verification/Vns_Bridge.thy ===== *)
theory Vns_Bridge
  imports Vns_Protocol Switch_Impl
begin

text \<open>
  The course's bridge between an OpenFlow switch and the virtual router: \<open>pox_module/CSE425/ofhandler.py\<close> (the handler of
  the switch's events) and \<open>pox_module/CSE425/srhandler.py\<close> (the server the router's clients connect to).  Each raises
  the events the other listens to; an event is a call of its listeners.  The state extends the one of the server.
  Clients and switch connections are numbers; what is sent to a switch is the bytes of the packed message.
  Log and console output is not modelled, except for the packet parsed to print it.
\<close>

section \<open>Configuration\<close>

text \<open>\<open>line.split()\<close>: the words between blanks\<close>

fun split_words :: "string \<Rightarrow> string \<Rightarrow> string list" where
  "split_words w [] = (if w = [] then [] else [w])"
| "split_words w (c # cs) =
     (if is_space c then (if w = [] then [] else [w]) @ split_words [] cs else split_words (w @ [c]) cs)"

type_synonym ip_setting = "(string \<times> string) list"
type_synonym rtable = "(string \<times> string \<times> string \<times> string) list"

text \<open>The loop over the lines of \<open>get_ip_setting\<close> ends at the first empty line.\<close>

fun read_ip_lines :: "string list \<Rightarrow> ip_setting \<Rightarrow> ip_setting res" where
  "read_ip_lines [] ips = Inr ips"
| "read_ip_lines (line # lines) ips =
     (case split_words [] line of
        [] \<Rightarrow> Inr ips
      | [name, ip] \<Rightarrow>
          if ip = ''<ELASTIC_IP>'' then Inl SystemExit
          else read_ip_lines lines (AList.update name ip ips)
      | _ \<Rightarrow> Inl ValueError)"

definition ip_of :: "ip_setting \<Rightarrow> string \<Rightarrow> string res" where
  "ip_of ips k = need KeyError (map_of ips k)"

text \<open>\<open>get_ip_setting\<close>: the routing table and the addresses of the router's interfaces; \<open>None\<close> stands for a missing file.\<close>

definition get_ip_setting :: "string list option \<Rightarrow> (rtable \<times> (bytes \<times> string) list) option res" where
  "get_ip_setting file =
     (case file of
        None \<Rightarrow> Inr None
      | Some lines \<Rightarrow>
          rbind (read_ip_lines lines []) (\<lambda>ips.
          rbind (ip_of ips ''client'') (\<lambda>client.
          rbind (ip_of ips ''server1'') (\<lambda>server1.
          rbind (ip_of ips ''server2'') (\<lambda>server2.
          rbind (ip_of ips ''sw0-eth1'') (\<lambda>eth1.
          rbind (ip_of ips ''sw0-eth2'') (\<lambda>eth2.
          rbind (ip_of ips ''sw0-eth3'') (\<lambda>eth3.
          Inr (Some ([(client, client, ''255.255.255.255'', ''eth3''), (server1, server1, ''255.255.255.255'', ''eth1''),
                      (server2, server2, ''255.255.255.255'', ''eth2'')],
                     [(bytes_of_str ''eth1'', eth1), (bytes_of_str ''eth2'', eth2), (bytes_of_str ''eth3'', eth3)]))))))))))"

definition pack_mac :: "string \<Rightarrow> bytes res" where
  "pack_mac macaddr = rmapM (\<lambda>o'. rbind (py_int 16 o') py_chr) (split_on (CHR '':'') macaddr)"

definition pack_ip :: "string \<Rightarrow> bytes res" where
  "pack_ip ipaddr = rmapM (\<lambda>o'. rbind (py_int 10 o') py_chr) (split_on (CHR ''.'') ipaddr)"

section \<open>State\<close>

text \<open>What \<open>OFHandler\<close> knows of an interface: address, hardware address, rate and port number.\<close>

type_synonym intf_info = "string \<times> string \<times> string \<times> int"

record bridge = lt_server +
  br_srclients :: "nat list"
  br_interfaces :: "VNSInterface list option" \<comment> \<open>not set before the first \<open>RouterInfo\<close>\<close>
  br_intfname_to_port :: "(bytes \<times> int) list"
  br_port_to_intfname :: "(int \<times> bytes) list"
  br_of_conns :: "nat list" \<comment> \<open>switches with an \<open>OFHandler\<close>\<close>
  br_of_sent :: "(nat \<times> bytes) list"
  br_nextXID :: int

definition bridge_init :: "int \<Rightarrow> bridge" where
  "bridge_init nx = \<lparr>lts_connections = [], lts_numProtocols = 0, lts_conns = (\<lambda>_. LTTwistedProtocol_init), lts_written = [],
     lts_closing = [], br_srclients = [], br_interfaces = None, br_intfname_to_port = [], br_port_to_intfname = [],
     br_of_conns = [], br_of_sent = [], br_nextXID = nx\<rparr>"

definition vns_send :: "nat \<Rightarrow> vns_msg \<Rightarrow> (bridge, unit) sm" where
  "vns_send i m = conn_send VNS_PROTOCOL i (get_type m) (vns_pack m)"

definition broadcast :: "vns_msg \<Rightarrow> (bridge, unit) sm" where
  "broadcast m = sbind (sget br_srclients) (\<lambda>clients. sfor (\<lambda>i. vns_send i m) clients)"

definition of_send :: "nat \<Rightarrow> (int \<Rightarrow> (bytes \<times> int) res) \<Rightarrow> (bridge, unit) sm" where
  "of_send i packer = sbind (sget br_nextXID) (\<lambda>nx. sbind (slift (packer nx)) (\<lambda>(b, nx').
     smod (\<lambda>s. s\<lparr>br_of_sent := br_of_sent s @ [(i, b)], br_nextXID := nx'\<rparr>)))"

definition send_packet_out :: "nat \<Rightarrow> ofp_packet_out \<Rightarrow> (bridge, unit) sm" where
  "send_packet_out i m = of_send i (\<lambda>nx. rmap (\<lambda>(b, _, nx). (b, nx)) (ofp_packet_out_pack True nx m))"

section \<open>The server of the router's clients\<close>

definition handle_SRPacketIn :: "swenv \<Rightarrow> bytes \<Rightarrow> int \<Rightarrow> (bridge, unit) sm" where
  "handle_SRPacketIn env pkt port = sbind (sget (\<lambda>s. map_of (br_port_to_intfname s) port)) (\<lambda>intf. case intf of
     None \<Rightarrow> sret ()
   | Some intfname \<Rightarrow>
       sbind (slift (ethernet_new (env_subs env) (env_iid env) (env_rnd env) pkt)) (\<lambda>p.
       sthen (slift (packet_str (env_subs env) p)) (broadcast (VNSPacket intfname pkt))))"

fun router_loop :: "(bytes \<times> intf_info) list \<Rightarrow> VNSInterface list \<Rightarrow> (bridge, VNSInterface list) sm" where
  "router_loop [] interfaces = sret interfaces"
| "router_loop ((intf, ip, mac, rate, port) # items) interfaces =
     sbind (slift (pack_ip ip)) (\<lambda>ip.
     sbind (slift (pack_mac mac)) (\<lambda>mac.
     sbind (slift (pack_ip ''255.255.255.255'')) (\<lambda>netmask.
     sbind (slift (VNSInterface_init intf mac ip netmask)) (\<lambda>i.
     sthen (smod (\<lambda>s. s\<lparr>br_intfname_to_port := AList.update intf port (br_intfname_to_port s),
                      br_port_to_intfname := AList.update port intf (br_port_to_intfname s)\<rparr>))
       (router_loop items (interfaces @ [i]))))))"

definition handle_RouterInfo :: "(bytes \<times> intf_info) list \<Rightarrow> (bridge, unit) sm" where
  "handle_RouterInfo items =
     sbind (router_loop items []) (\<lambda>interfaces. smod (\<lambda>s. s\<lparr>br_interfaces := Some interfaces\<rparr>))"

text \<open>\<open>str(conn)\<close> is the peer of the transport.\<close>

definition handle_auth_reply :: "(nat \<Rightarrow> bytes) \<Rightarrow> nat \<Rightarrow> (bridge, unit) sm" where
  "handle_auth_reply peer i =
     vns_send i (VNSAuthStatus True (bytes_of_str ''authenticated '' @ peer i @ bytes_of_str '' as user''))"

definition handle_new_client :: "(nat \<Rightarrow> bytes) \<Rightarrow> nat \<Rightarrow> (bridge, unit) sm" where
  "handle_new_client salt i =
     sthen (smod (\<lambda>s. s\<lparr>br_srclients := br_srclients s @ [i]\<rparr>)) (vns_send i (VNSAuthRequest (salt i)))"

definition handle_client_disconnected :: "nat \<Rightarrow> (bridge, unit) sm" where
  "handle_client_disconnected i = loseConnection i"

text \<open>\<open>try: \<dots> except:\<close>, whatever is raised\<close>

definition handle_open_msg :: "nat \<Rightarrow> (bridge, unit) sm" where
  "handle_open_msg i s =
     (case sbind (sget br_interfaces) (\<lambda>is. case is of
        None \<Rightarrow> sraise AttributeError
      | Some interfaces \<Rightarrow> vns_send i (VNSHardwareInfo interfaces)) s of
        (Inl _, s') \<Rightarrow> (Inr (), s')
      | (Inr u, s') \<Rightarrow> (Inr u, s'))"

text \<open>\<open>conn.send("Goodbyte!")\<close>: a string has no \<open>pack\<close>, so the connection is not closed.\<close>

definition handle_close_msg :: "nat \<Rightarrow> (bridge, unit) sm" where
  "handle_close_msg i =
     sthen (conn_send VNS_PROTOCOL i 0 (Inl AttributeError)) (loseConnection i)"

definition handle_SRPacketOut :: "bytes \<Rightarrow> int \<Rightarrow> nat \<Rightarrow> (bridge, unit) sm" where
  "handle_SRPacketOut pkt port i =
     send_packet_out i (ofp_packet_out_init\<lparr>po_actions := [ActOutput (ofp_action_output_init\<lparr>out_port := Some port\<rparr>)],
       po_buffer_id := - 1, po_in_port := OFPP_NONE, po_data := pkt\<rparr>)"

text \<open>An unknown interface: the message of the \<open>except\<close> branch uses \<open>out_port\<close>, which is not bound there.\<close>

definition handle_packet_msg :: "bytes \<Rightarrow> bytes \<Rightarrow> (bridge, unit) sm" where
  "handle_packet_msg out_intf pkt = sbind (sget (\<lambda>s. map_of (br_intfname_to_port s) out_intf)) (\<lambda>port. case port of
     None \<Rightarrow> sraise NameError
   | Some no \<Rightarrow> sbind (sget br_of_conns) (\<lambda>conns. sfor (handle_SRPacketOut pkt no) conns))"

text \<open>\<open>_handle_recv_msg\<close>; \<open>_handle_open_template_msg\<close> is not defined.\<close>

definition handle_recv_msg :: "(nat \<Rightarrow> bytes) \<Rightarrow> nat \<Rightarrow> vns_msg option \<Rightarrow> (bridge, unit) sm" where
  "handle_recv_msg peer i m = (case m of
     None \<Rightarrow> handle_close_msg i
   | Some (VNSAuthReply _ _) \<Rightarrow> handle_auth_reply peer i
   | Some (VNSOpen _ _ _ _) \<Rightarrow> handle_open_msg i
   | Some (VNSClose _) \<Rightarrow> handle_close_msg i
   | Some (VNSPacket intf frame) \<Rightarrow> handle_packet_msg intf frame
   | Some (VNSOpenTemplate _ _ _) \<Rightarrow> sraise AttributeError
   | Some _ \<Rightarrow> sret ())"

section \<open>The handler of the switch\<close>

text \<open>
  The dictionary \<open>sw_info\<close> is filled port by port; \<open>items\<close> stands for the order in which Python enumerates it.
\<close>

fun switch_info :: "(bytes \<times> string) list \<Rightarrow> ofp_phy_port list \<Rightarrow> (bytes \<times> intf_info) list \<Rightarrow> (bytes \<times> intf_info) list res" where
  "switch_info router_ip [] info = Inr info"
| "switch_info router_ip (port # ports) info =
     (case split_on (CHR ''-'') (str_of_bytes (pp_name port)) of
        _ # intf # _ \<Rightarrow>
          (case map_of router_ip (bytes_of_str intf) of
             Some ip \<Rightarrow>
               (case pp_hw_addr port of
                  HwEth e \<Rightarrow> switch_info router_ip ports
                    (AList.update (bytes_of_str intf) (ip, eth_toStr '':'' e, ''10Gbps'', pp_port_no port) info)
                | HwBytes _ \<Rightarrow> Inl AttributeError)
           | None \<Rightarrow> switch_info router_ip ports info)
      | _ \<Rightarrow> switch_info router_ip ports info)"

definition OFHandler_init :: "((bytes \<times> intf_info) list \<Rightarrow> (bytes \<times> intf_info) list) \<Rightarrow> (bytes \<times> string) list \<Rightarrow> nat
    \<Rightarrow> ofp_phy_port list \<Rightarrow> (bridge, unit) sm" where
  "OFHandler_init items router_ip i ports =
     sthen (of_send i (\<lambda>nx. rmap (\<lambda>(b, _, nx). (b, nx))
              (ofp_switch_config_pack nx (ofp_switch_config_init\<lparr>sc_miss_send_len := 65535\<rparr>))))
     (sbind (slift (switch_info router_ip ports [])) (\<lambda>info.
      sthen (smod (\<lambda>s. s\<lparr>br_of_conns := br_of_conns s @ [i]\<rparr>)) (handle_RouterInfo (items info))))"

text \<open>The raw frame goes to the router's clients; an empty packet-out releases the switch's buffer.\<close>

definition handle_PacketIn :: "swenv \<Rightarrow> nat \<Rightarrow> ofp_packet_in \<Rightarrow> (bridge, unit) sm" where
  "handle_PacketIn env i m =
     sthen (slift (ethernet_new (env_subs env) (env_iid env) (env_rnd env) (pi_data m)))
     (sthen (handle_SRPacketIn env (pi_data m) (pi_in_port m))
       (send_packet_out i (ofp_packet_out_init\<lparr>po_buffer_id := pi_buffer_id m, po_in_port := pi_in_port m\<rparr>)))"

section \<open>Events from the network\<close>

datatype bridge_event =
    ClientMade nat
  | ClientData nat bytes
  | ClientLost nat
  | SwitchUp nat "ofp_phy_port list"
  | SwitchPacketIn nat ofp_packet_in

record bridge_env =
  be_items :: "(bytes \<times> intf_info) list \<Rightarrow> (bytes \<times> intf_info) list"
  be_router_ip :: "(bytes \<times> string) list"
  be_peer :: "nat \<Rightarrow> bytes"
  be_salt :: "nat \<Rightarrow> bytes"
  be_swenv :: swenv

fun bridge_step :: "bridge_env \<Rightarrow> bridge_event \<Rightarrow> (bridge, unit) sm" where
  "bridge_step env (ClientMade i) = connectionMade (handle_new_client (be_salt env)) i"
| "bridge_step env (ClientData i d) = server_receive VNS_PROTOCOL (handle_recv_msg (be_peer env)) i d"
| "bridge_step env (ClientLost i) = connectionLost handle_client_disconnected i"
| "bridge_step env (SwitchUp i ports) = OFHandler_init (be_items env) (be_router_ip env) i ports"
| "bridge_step env (SwitchPacketIn i m) = handle_PacketIn (be_swenv env) i m"

end
