(* ===== verification/Packet_Laws.thy ===== *)
theory Packet_Laws
  imports Packets
begin

text \<open>
  What the packet library promises: the checksum is the one's complement sum of RFC 1071 (computed
  here on little-endian words), a header packed by \<open>ipv4.hdr\<close>, \<open>icmp.hdr\<close>, \<open>udp.hdr\<close>
  or \<open>tcp.hdr\<close> verifies, headers are parsed back, and \<open>find\<close> returns a parsed header
  of the class asked for.
\<close>

section \<open>The checksum as arithmetic modulo 65535\<close>

definition ones_fold :: "int \<Rightarrow> int" where
  "ones_fold s = (let t = s div 2 ^ 16 + s mod 2 ^ 16 in (t + t div 2 ^ 16) mod 2 ^ 16)"

lemma and_ffff: "(n :: int) AND 0xffff = n mod 2 ^ 16"
  using take_bit_eq_mask [of 16 n] by (simp add: take_bit_eq_mod mask_eq_exp_minus_1)

lemma not_and_ffff: "NOT (n :: int) AND 0xffff = 65535 - n mod 2 ^ 16"
proof -
  have "NOT n = 65535 - n mod 65536 + 65536 * (- (n div 65536) - 1)"
    using mult_div_mod_eq [of 65536 n] by (simp add: not_int_def algebra_simps)
  then have "NOT n mod 65536 = (65535 - n mod 65536) mod 65536" by (metis mod_mult_self2)
  also have "\<dots> = 65535 - n mod 65536" by (intro mod_pos_pos_trivial) auto
  finally show ?thesis unfolding and_ffff by simp
qed

lemma ones_fold_facts:
  assumes "0 \<le> s" "s < 2 ^ 32"
  shows "0 \<le> ones_fold s \<and> ones_fold s \<le> 65535 \<and> ones_fold s mod 65535 = s mod 65535
    \<and> (ones_fold s = 0 \<longleftrightarrow> s = 0)"
proof -
  define a b where "a = s div 65536" and "b = s mod 65536"
  have s: "s = 65536 * a + b" by (simp add: a_def b_def)
  have ab: "0 \<le> a" "a < 65536" "0 \<le> b" "b < 65536"
    using assms by (auto simp: a_def b_def)
  have m: "s mod 65535 = (a + b) mod 65535"
  proof -
    have "s = a + b + 65535 * a" using s by simp
    then show ?thesis by (metis mod_mult_self2)
  qed
  show ?thesis
  proof (cases "a + b < 65536")
    case True
    then have "ones_fold s = a + b" using ab by (simp add: ones_fold_def Let_def a_def b_def)
    then show ?thesis using True ab m s by auto
  next
    case False
    then have "(a + b) div 65536 = 1" using ab by auto
    then have "ones_fold s = (a + b + 1) mod 65536"
      by (simp add: ones_fold_def Let_def flip: a_def b_def)
    also have "\<dots> = (a + b - 65535) mod 65536"
      using minus_mod_self2 [of "a + b + 1" "65536"] by (simp add: algebra_simps)
    also have "\<dots> = a + b - 65535" using ab False by (intro mod_pos_pos_trivial) auto
    finally have "ones_fold s = a + b - 65535" .
    moreover have "(a + b - 65535) mod 65535 = (a + b) mod 65535" by (rule minus_mod_self2)
    ultimately show ?thesis using ab m s False by auto
  qed
qed

definition csum_total :: "bytes \<Rightarrow> int" where
  "csum_total data =
     (if even (length data) then sum_list (words16 data)
      else sum_list (words16 (butlast data)) + uint (last data))"

lemma sum_skip_None: "sum_skip arr None = sum_list arr"
  by (simp add: sum_skip_def map_nth)

lemma sum_skip_Some:
  assumes "k < length arr"
  shows "sum_skip arr (Some k) = sum_list arr - arr ! k"
proof -
  have "(\<Sum>i \<leftarrow> [0 ..< length arr]. if k = i then 0 else arr ! i)
      + (\<Sum>i \<leftarrow> [0 ..< length arr]. if k = i then arr ! i else 0)
      = (\<Sum>i \<leftarrow> [0 ..< length arr]. arr ! i)"
    by (simp flip: sum_list_addf) (rule arg_cong [where f = sum_list], simp)
  moreover have "(\<Sum>i \<leftarrow> [0 ..< length arr]. if k = i then arr ! i else 0) = arr ! k"
    using assms by (simp add: sum_list_map_eq_sum_count2 interv_sum_list_conv_sum_set_nat)
  moreover have "(\<Sum>i \<leftarrow> [0 ..< length arr]. arr ! i) = sum_list arr" by (simp add: map_nth)
  ultimately show ?thesis by (simp add: sum_skip_def)
qed

lemma checksum_None: "checksum data 0 None = ntohs (65535 - ones_fold (csum_total data))"
proof -
  have e: "length data mod 2 \<noteq> 0 \<longleftrightarrow> odd (length data)" by presburger
  show ?thesis
    unfolding checksum_def Let_def e not_and_ffff sum_skip_None
    by (simp add: drop_bit_eq_div ones_fold_def csum_total_def Let_def and_ffff [simplified])
qed

lemma words16_append: "even (length p) \<Longrightarrow> words16 (p @ q) = words16 p @ words16 q"
  by (induction p rule: words16.induct) simp_all

lemma words16_bounds: "w \<in> set (words16 b) \<Longrightarrow> 0 \<le> w \<and> w \<le> 65535"
proof (induction b rule: words16.induct)
  case (1 a b r)
  have "uint x \<le> 255" for x :: byte using uint_bounded [of x] by simp
  then have "uint a \<le> 255" "uint b \<le> 255" by blast+
  then show ?case using 1 uint_nonnegative [of a] uint_nonnegative [of b] by auto
qed simp_all

lemma length_words16: "length (words16 b) = length b div 2"
  by (induction b rule: words16.induct) simp_all

lemma sum_words16_bounds: "0 \<le> sum_list (words16 b) \<and> sum_list (words16 b) \<le> 65535 * int (length b div 2)"
proof -
  have "(\<forall>w \<in> set ws. 0 \<le> w \<and> w \<le> 65535) \<Longrightarrow> 0 \<le> sum_list ws \<and> sum_list ws \<le> 65535 * int (length ws)"
    for ws :: "int list"
    by (induction ws) auto
  then show ?thesis using words16_bounds [of _ b] length_words16 [of b] by metis
qed

lemma csum_total_append:
  "even (length p) \<Longrightarrow> csum_total (p @ q) = sum_list (words16 p) + csum_total q"
  by (cases "q = []") (auto simp: csum_total_def words16_append butlast_append)

lemma csum_total_bounds: "length d \<le> 131070 \<Longrightarrow> 0 \<le> csum_total d \<and> csum_total d < 2 ^ 32"
proof -
  assume l: "length d \<le> 131070"
  have u: "0 \<le> uint (last d)" "uint (last d) \<le> 255" for d :: bytes
    using uint_bounded [of "last d"] by simp_all
  show ?thesis
  proof (cases "even (length d)")
    case True
    then show ?thesis using sum_words16_bounds [of d] l by (simp add: csum_total_def) linarith
  next
    case False
    then show ?thesis using sum_words16_bounds [of "butlast d"] u [of d] l
      by (simp add: csum_total_def) linarith
  qed
qed

lemma ntohs_ntohs: "0 \<le> n \<Longrightarrow> n < 65536 \<Longrightarrow> ntohs (ntohs n) = n"
proof -
  assume "0 \<le> n" "n < 65536"
  then have h: "n div 256 mod 256 = n div 256" by (intro mod_pos_pos_trivial) auto
  have "(n mod 256 * 256 + n div 256) mod 256 = n div 256" using h by simp
  moreover have "(n mod 256 * 256 + n div 256) div 256 = n mod 256 + n div 256 div 256" by simp
  moreover have "n div 256 div 256 = 0" using \<open>0 \<le> n\<close> \<open>n < 65536\<close> by auto
  ultimately show ?thesis unfolding ntohs_def h by (simp add: mult.commute)
qed

lemma ntohs_bounds: "0 \<le> ntohs n \<and> ntohs n < 65536"
proof -
  have "0 \<le> n mod 256" "n mod 256 \<le> 255" "0 \<le> (n div 256) mod 256" "(n div 256) mod 256 \<le> 255" by auto
  then show ?thesis unfolding ntohs_def by linarith
qed


lemma checksum_range: "0 \<le> checksum d s k \<and> checksum d s k < 65536"
  unfolding checksum_def Let_def by (rule ntohs_bounds)

lemma enc_FH: "0 \<le> c \<Longrightarrow> c < 65536 \<Longrightarrow> enc FH c = [word_of_int (c div 256), word_of_int (c mod 256)]"
proof -
  assume "0 \<le> c" "c < 65536"
  then have "c div 256 < 256" "0 \<le> c div 256" "c mod 65536 = c" by auto
  then have "nat (c mod 65536) div 256 mod 256 = nat (c div 256)" "nat (c mod 65536) mod 256 = nat (c mod 256)"
    using \<open>0 \<le> c\<close> by (simp_all add: nat_mod_distrib flip: nat_div_distrib [of c 256, simplified])
  moreover have "nat (c div 256) mod 256 = nat (c div 256)"
    using \<open>c div 256 < 256\<close> \<open>0 \<le> c div 256\<close> by (intro mod_less) simp
  ultimately show ?thesis using \<open>0 \<le> c\<close> \<open>0 \<le> c div 256\<close>
    by (simp add: enc_def be_bytes_numeral of_nat_nat)
qed

lemma words16_enc: "0 \<le> c \<Longrightarrow> c < 65536 \<Longrightarrow> words16 (enc FH c @ q) = ntohs c # words16 q"
proof -
  assume c: "0 \<le> c" "c < 65536"
  then have "c div 256 mod 256 = c div 256" by (intro mod_pos_pos_trivial) auto
  then show ?thesis using c by (simp add: enc_FH ntohs_def uint_word_of_int take_bit_eq_mod)
qed

text \<open>A packet whose checksum field holds the checksum of the packet with that field zero verifies.\<close>

lemma checksum_verifies:
  assumes "even (length p)" and "length p + length q \<le> 100000"
    and "c = checksum (p @ enc FH 0 @ q) 0 None"
  shows "0 \<le> c \<and> c < 65536 \<and> checksum (p @ enc FH c @ q) 0 None = 0"
proof -
  define S where "S = csum_total (p @ enc FH 0 @ q)"
  have r: "0 \<le> ones_fold S" "ones_fold S \<le> 65535" "ones_fold S mod 65535 = S mod 65535"
      and S0: "0 \<le> S"
    using csum_total_bounds [of "p @ enc FH 0 @ q"] assms(2) ones_fold_facts [of S]
    unfolding S_def by auto
  have c: "c = ntohs (65535 - ones_fold S)" using assms(3) by (simp add: checksum_None S_def)
  then have cb: "0 \<le> c" "c < 65536" using ntohs_bounds by auto
  have nc: "ntohs c = 65535 - ones_fold S" unfolding c using r by (intro ntohs_ntohs) auto
  have mid: "csum_total (enc FH x @ q) = ntohs x + csum_total q" if "0 \<le> x" "x < 65536" for x
    using csum_total_append [of "enc FH x" q] words16_enc [OF that, of "[]"] by simp
  have T: "csum_total (p @ enc FH c @ q) = S + 65535 - ones_fold S"
    using csum_total_append [OF assms(1)] mid [OF cb] mid [of 0] nc
    by (simp add: S_def ntohs_def)
  let ?T = "S + 65535 - ones_fold S"
  have Tb: "0 \<le> ?T" "?T < 2 ^ 32"
    using csum_total_bounds [of "p @ enc FH c @ q"] assms(2) unfolding T by auto
  have "65535 dvd S - ones_fold S" using r(3) by (simp add: mod_eq_dvd_iff [symmetric])
  then have "65535 dvd (S - ones_fold S) + 65535" by (intro dvd_add) simp_all
  then have "?T mod 65535 = 0" by (simp add: algebra_simps mod_0_imp_dvd)
  moreover have "?T \<noteq> 0" using S0 r(2) ones_fold_facts [of S] Tb r by auto
  ultimately have "ones_fold ?T = 65535"
    using ones_fold_facts [OF Tb] by (cases "ones_fold ?T = 65535") auto
  then show ?thesis using cb by (simp add: checksum_None T ntohs_def)
qed

lemma struct_pack_append:
  "Fx \<notin> set fs \<Longrightarrow> length fs = length vs \<Longrightarrow>
   struct_pack (fs @ gs) (vs @ ws) = rbind (struct_pack fs vs) (\<lambda>a. rmap ((@) a) (struct_pack gs ws))"
proof (induction fs arbitrary: vs)
  case Nil
  then show ?case by (cases "struct_pack gs ws") (simp_all add: struct_pack.simps)
next
  case (Cons f fs)
  then obtain v vs' where "vs = v # vs'" by (cases vs) auto
  then show ?case using Cons
    by (cases "struct_pack fs vs'"; cases "struct_pack gs ws") (auto simp: struct_pack.simps)
qed


lemma struct_pack_one:
  "f \<noteq> Fx \<Longrightarrow> struct_pack [f] [v] = (if in_range f v then Inr (enc f v) else Inl StructError)"
  by (simp add: struct_pack.simps)

section \<open>Headers that verify\<close>

text \<open>The bytes around the checksum field of an IPv4 header do not depend on it.\<close>

lemma ipv4_struct_split:
  assumes "ipv4_struct i c = Inr b"
  shows "\<exists>p q. b = p @ enc FH c @ q \<and> length p = 10 \<and> length q = 8 \<and> ipv4_struct i 0 = Inr (p @ enc FH 0 @ q)"
proof -
  let ?fs = "[FB, FB, FH, FH, FH, FB, FB]"
  let ?vs = "[push_bit 4 (ipv4_v i) + ipv4_hl i, ipv4_tos i, ipv4_iplen i, ipv4_id i,
        push_bit 13 (ipv4_flags i) OR ipv4_frag i, ipv4_ttl i, ipv4_protocol i]"
  obtain s d where sd: "iv_toUnsigned (ipv4_srcip i) = Inr s" "iv_toUnsigned (ipv4_dstip i) = Inr d"
    using assms by (auto simp: ipv4_struct_def res_simps)
  have eq: "ipv4_struct i x = rbind (struct_pack ?fs ?vs) (\<lambda>a. rmap ((@) a)
      (rbind (struct_pack [FH] [x]) (\<lambda>m. rmap ((@) m) (struct_pack [FI, FI] [s, d]))))" for x
    using struct_pack_append [of ?fs ?vs "[FH, FI, FI]" "[x, s, d]"]
      struct_pack_append [of "[FH]" "[x]" "[FI, FI]" "[s, d]"]
    by (simp add: ipv4_struct_def sd)
  obtain p q where pq: "struct_pack ?fs ?vs = Inr p" "struct_pack [FI, FI] [s, d] = Inr q"
    and m: "in_range FH c" "b = p @ enc FH c @ q"
    using assms unfolding eq by (auto simp: res_simps struct_pack_one split: if_splits)
  have z: "struct_pack [FH] [0] = Inr (enc FH 0)" by (simp add: struct_pack_one in_range_def)
  have "ipv4_struct i 0 = Inr (p @ enc FH 0 @ q)" unfolding eq pq z by simp
  then show ?thesis using m struct_pack_length [OF pq(1)] struct_pack_length [OF pq(2)] by auto
qed

lemma ipv4_struct_csum [simp]: "ipv4_struct (i\<lparr>ipv4_csum := x\<rparr>) = ipv4_struct i"
  by (auto simp: ipv4_struct_def fun_eq_iff)

lemma ipv4_hdr_ok:
  assumes "\<And>c. 0 \<le> c \<Longrightarrow> c < 65536 \<Longrightarrow>
    is_ok (ipv4_struct (i\<lparr>ipv4_iplen := ipv4_hl i * 4 + int (length payload)\<rparr>) c)"
  shows "\<exists>b i'. ipv4_hdr i payload = Inr (b, i')"
proof -
  let ?i = "i\<lparr>ipv4_iplen := ipv4_hl i * 4 + int (length payload)\<rparr>"
  obtain d where d: "ipv4_struct ?i 0 = Inr d" using assms [of 0] by (auto simp: is_ok_iff)
  obtain b where "ipv4_struct ?i (checksum d 0 None) = Inr b"
    using assms [of "checksum d 0 None"] checksum_range by (auto simp: is_ok_iff)
  with d show ?thesis by (simp add: ipv4_hdr_def ipv4_checksum_def Let_def)
qed

text \<open>
  C27: every IPv4 header that \<open>ipv4.hdr\<close> produces verifies: the checksum function applied to the
  twenty bytes gives zero, and the length field written is the header length plus the payload.
\<close>

theorem ipv4_hdr_verifies:
  assumes "ipv4_hdr i payload = Inr (b, i')"
  shows "checksum b 0 None = 0 \<and> length b = 20
    \<and> ipv4_iplen i' = ipv4_hl i * 4 + int (length payload)"
proof -
  let ?i = "i\<lparr>ipv4_iplen := ipv4_hl i * 4 + int (length payload)\<rparr>"
  obtain d where d: "ipv4_struct ?i 0 = Inr d"
    and b: "ipv4_struct ?i (checksum d 0 None) = Inr b"
    and i': "i' = ?i\<lparr>ipv4_csum := checksum d 0 None\<rparr>"
    using assms by (auto simp: ipv4_hdr_def ipv4_checksum_def Let_def res_simps)
  obtain p q where pq: "b = p @ enc FH (checksum d 0 None) @ q" "length p = 10" "length q = 8"
      "d = p @ enc FH 0 @ q"
    using ipv4_struct_split [OF b] d by auto
  then show ?thesis using checksum_verifies [of p q "checksum d 0 None"] i' by simp
qed


theorem ipv4_hdr_verifies_witness:
  "\<exists>b i'. ipv4_hdr (ipv4_init 7) [1, 2] = Inr (b, i') \<and> checksum b 0 None = 0"
proof -
  have "\<exists>b i'. ipv4_hdr (ipv4_init 7) [1, 2] = Inr (b, i')"
    by (rule ipv4_hdr_ok)
      (simp add: ipv4_struct_def ipv4_init_def IP_ANY_def struct_pack.simps in_range_def)
  then show ?thesis using ipv4_hdr_verifies [of "ipv4_init 7" "[1, 2]"] by blast
qed

section \<open>Parsing what was packed\<close>

lemma bslice_0: "length p = n \<Longrightarrow> bslice 0 n (p @ q) = p"
  by (simp add: bslice_def)

lemma push_or_low:
  assumes "0 \<le> (x :: int)" "x < 2 ^ n"
  shows "push_bit n y OR x = 2 ^ n * y + x"
proof -
  have "take_bit n x = x" using assms by (simp add: take_bit_int_eq_self)
  then have "push_bit n y OR x = concat_bit n x y" by (simp add: concat_bit_def or.commute)
  also have "\<dots> = take_bit n x + push_bit n y" by (rule concat_bit_eq)
  finally show ?thesis using \<open>take_bit n x = x\<close> by (simp add: push_bit_eq_mult algebra_simps)
qed

lemma and_0f: "(n :: int) AND 15 = n mod 16"
  using take_bit_eq_mask [of 4 n] by (simp add: take_bit_eq_mod mask_eq_exp_minus_1)

lemma and_1fff: "(n :: int) AND 8191 = n mod 8192"
  using take_bit_eq_mask [of 13 n] by (simp add: take_bit_eq_mod mask_eq_exp_minus_1)

text \<open>The headers the parser reads back: version 4, no options, addresses set.\<close>

definition ipv4_plain :: "ipv4 \<Rightarrow> bool" where
  "ipv4_plain i \<longleftrightarrow> ipv4_v i = 4 \<and> ipv4_hl i = 5 \<and> 0 \<le> ipv4_flags i \<and> 0 \<le> ipv4_frag i \<and> ipv4_frag i < 8192
     \<and> (case ipv4_srcip i of IvAddr a \<Rightarrow> ip_wf a | IvNum _ \<Rightarrow> False)
     \<and> (case ipv4_dstip i of IvAddr a \<Rightarrow> ip_wf a | IvNum _ \<Rightarrow> False)"

lemma ipv4_parse_hdr:
  assumes "ipv4_plain i" and "ipv4_hdr i payload = Inr (h, i')" and "payload \<noteq> []"
  shows "ipv4_fields iid (h @ payload) = Inr (i'\<lparr>ipv4_raw := Some (h @ payload), ipv4_parsed := True\<rparr>, True)
    \<and> ipv4_body i' (h @ payload) = payload \<and> ipv4_iplen i' = int (length (h @ payload)) \<and> length h = 20"
proof -
  obtain s d where sd: "ipv4_srcip i = IvAddr s" "ipv4_dstip i = IvAddr d" "ip_wf s" "ip_wf d"
    using assms(1) by (auto simp: ipv4_plain_def split: ipval.splits)
  have plain: "ipv4_v i = 4" "ipv4_hl i = 5" "0 \<le> ipv4_flags i" "0 \<le> ipv4_frag i" "ipv4_frag i < 8192"
    using assms(1) by (auto simp: ipv4_plain_def)
  let ?l = "20 + int (length payload)"
  obtain c where i': "i' = i\<lparr>ipv4_iplen := ?l, ipv4_csum := c\<rparr>"
    and h: "struct_pack IPV4_FMT [69, ipv4_tos i, ?l, ipv4_id i,
        8192 * ipv4_flags i + ipv4_frag i, ipv4_ttl i, ipv4_protocol i, c, ip_u s, ip_u d] = Inr h"
    using assms(2) plain sd push_or_low [of "ipv4_frag i" 13 "ipv4_flags i"]
    by (auto simp: ipv4_hdr_def ipv4_struct_def Let_def res_simps)
  have l: "length h = 20" using struct_pack_length [OF h] by simp
  have v: "struct_unpack IPV4_FMT (bslice 0 20 (h @ payload)) = Inr [69, ipv4_tos i, ?l, ipv4_id i,
      8192 * ipv4_flags i + ipv4_frag i, ipv4_ttl i, ipv4_protocol i, c, ip_u s, ip_u d]"
    using struct_unpack_pack [OF h] by (simp add: bslice_0 [OF l])
  have pl: "0 < length payload" using assms(3) by simp
  have "ipv4_fields iid (h @ payload) = Inr (i'\<lparr>ipv4_raw := Some (h @ payload), ipv4_parsed := True\<rparr>, True)"
    unfolding ipv4_fields_def v using plain sd pl l
    by (simp add: i' drop_bit_eq_div and_0f and_1fff IPAddr_init_int ip_of_int_u Let_def ipv4_init_def)
  moreover have "ipv4_body i' (h @ payload) = payload"
    by (simp add: i' ipv4_body_def plain bslice_def l)
  ultimately show ?thesis using l by (simp add: i')
qed

lemma udp_parse_hdr:
  assumes "udp_hdr u prev payload = Inr (h, u')"
    and "udp_dstport u \<notin> {67, 68, 53}" "udp_srcport u \<noteq> 53"
  shows "udp_new sb (h @ payload) = Inr (Udp (u'\<lparr>udp_raw := Some (h @ payload), udp_parsed := True\<rparr>) (Bytes payload))"
proof -
  let ?l = "int (length payload) + 8"
  obtain c where u': "u' = u\<lparr>udp_len := ?l, udp_csum := c\<rparr>"
    and h: "struct_pack [FH, FH, FH, FH] [udp_srcport u, udp_dstport u, ?l, c] = Inr h"
    using assms(1) by (auto simp: udp_hdr_def Let_def res_simps)
  have l: "length h = 8" using struct_pack_length [OF h] by simp
  have v: "struct_unpack [FH, FH, FH, FH] (bslice 0 8 (h @ payload)) = Inr [udp_srcport u, udp_dstport u, ?l, c]"
    using struct_unpack_pack [OF h] by (simp add: bslice_0 [OF l])
  show ?thesis
    unfolding udp_new_def Let_def v using assms(2,3) l by (simp add: u' udp_init_def)
qed


text \<open>Ethernet addresses as the parser stores them.\<close>

definition eth_plain :: "ethernet \<Rightarrow> bool" where
  "eth_plain e \<longleftrightarrow> (case eth_dst e of HwEth a \<Rightarrow> eth_raw_ok (eth_value a) | HwBytes _ \<Rightarrow> False)
     \<and> (case eth_src e of HwEth a \<Rightarrow> eth_raw_ok (eth_value a) | HwBytes _ \<Rightarrow> False)"

lemma ethernet_parse_hdr:
  assumes "eth_plain e" and "ethernet_hdr e = Inr h"
  shows "length h = 14 \<and> ethernet_new sb iid rnd (h @ pl) =
    rmap (Ethernet (e\<lparr>eth_raw := Some (h @ pl), eth_parsed := True\<rparr>))
      (if eth_type e = 0x8100 then vlan_new sb iid rnd pl
       else case type_parser sb iid rnd (eth_type e) pl of Some p \<Rightarrow> p | None \<Rightarrow> Inr (Bytes pl))"
proof -
  obtain d s where ds: "eth_dst e = HwEth (EthAddr d)" "eth_src e = HwEth (EthAddr s)" "eth_raw_ok d" "eth_raw_ok s"
    using assms(1) by (auto simp: eth_plain_def split: hwaddr.splits) (metis EthAddr.collapse)
  have l: "length d = 6" "length s = 6" using ds by (simp_all add: eth_raw_ok_def)
  obtain t where t: "struct_pack [FH] [eth_type e] = Inr t" and h: "h = d @ s @ t"
    using assms(2) ds l by (auto simp: ethernet_hdr_def pack_6s_def ljust0_def eth_toRaw_def res_simps)
  have lt: "length t = 2" using struct_pack_length [OF t] by simp
  have b: "bslice 0 6 (h @ pl) = d" "bslice 6 12 (h @ pl) = s" "bslice 12 14 (h @ pl) = t"
    by (simp_all add: h bslice_def l lt)
  have lh: "length h = 14" by (simp add: h l lt)
  have rec: "ethernet_init\<lparr>eth_raw := x, eth_dst := HwEth (EthAddr d), eth_src := HwEth (EthAddr s),
      eth_type := eth_type e, eth_parsed := True\<rparr> = e\<lparr>eth_raw := x, eth_parsed := True\<rparr>" for x
    using ds by (cases e) (simp add: ethernet_init_def)
  show ?thesis
    unfolding ethernet_new_def Let_def b using ds(3,4) struct_unpack_pack [OF t]
    by (simp add: EthAddr_raw lh rec cong: if_cong option.case_cong)
qed

text \<open>
  C26: A UDP datagram survives the wire, unless its ports are those of DHCP or DNS, whose payloads are parsed further: the destination is not 67, 68 or
  53 and the source not 53.  The frame has the IPv4 type, the header is of version 4 without options and with a fragment offset below 8192, and the addresses are
  address objects (a hardware address with five colons among its bytes would be read as text).  Then the frame that \<open>pack\<close> makes is parsed to
  the same three headers, with the lengths and checksums \<open>pack\<close> stored in them, and the same payload, each header marked as parsed.
\<close>

theorem udp_frame_roundtrip:
  assumes "packet_pack sb prev (Ethernet e (Ipv4 i (Udp u (Bytes pl)))) = Inr (b, p)"
    and "eth_plain e" "eth_type e = 0x0800" "ipv4_plain i" "ipv4_protocol i = 17"
    and "udp_dstport u \<notin> {67, 68, 53}" "udp_srcport u \<noteq> 53"
  shows "\<exists>i' u'. p = Ethernet e (Ipv4 i' (Udp u' (Bytes pl))) \<and>
    ethernet_new sb iid rnd b =
      Inr (Ethernet (e\<lparr>eth_raw := Some b, eth_parsed := True\<rparr>)
            (Ipv4 (i'\<lparr>ipv4_raw := Some (drop 14 b), ipv4_parsed := True\<rparr>)
              (Udp (u'\<lparr>udp_raw := Some (drop 34 b), udp_parsed := True\<rparr>) (Bytes pl))))"
proof -
  obtain h1 h2 h3 i' u' where u: "udp_hdr u (Some i) pl = Inr (h3, u')"
    and i: "ipv4_hdr i (h3 @ pl) = Inr (h2, i')" and e: "ethernet_hdr e = Inr h1"
    and b: "b = h1 @ h2 @ h3 @ pl" and p: "p = Ethernet e (Ipv4 i' (Udp u' (Bytes pl)))"
    using assms(1) by (auto simp: with_hdr_def res_simps)
  have "length h3 = 8" using u by (auto simp: udp_hdr_def Let_def res_simps dest: struct_pack_length)
  then have ne: "h3 @ pl \<noteq> []" by auto
  note P = ipv4_parse_hdr [OF assms(4) i ne] and U = udp_parse_hdr [OF u assms(6,7)]
    and E = ethernet_parse_hdr [OF assms(2) e]
  have proto: "ipv4_protocol i' = 17" using i assms(5) by (auto simp: ipv4_hdr_def Let_def res_simps)
  have body: "ipv4_body (i'\<lparr>ipv4_raw := x, ipv4_parsed := y\<rparr>) r = ipv4_body i' r" for x y r
    by (simp add: ipv4_body_def)
  have "ipv4_new sb iid rnd (h2 @ h3 @ pl) = Inr (Ipv4 (i'\<lparr>ipv4_raw := Some (h2 @ h3 @ pl), ipv4_parsed := True\<rparr>)
      (Udp (u'\<lparr>udp_raw := Some (h3 @ pl), udp_parsed := True\<rparr>) (Bytes pl)))"
    using P [of iid] U [of sb] proto
    by (simp add: ipv4_new.simps body ipv4_keep_parsed_def)
  then have "ethernet_new sb iid rnd b = Inr (Ethernet (e\<lparr>eth_raw := Some b, eth_parsed := True\<rparr>)
            (Ipv4 (i'\<lparr>ipv4_raw := Some (drop 14 b), ipv4_parsed := True\<rparr>)
              (Udp (u'\<lparr>udp_raw := Some (drop 34 b), udp_parsed := True\<rparr>) (Bytes pl))))"
    using E [of sb iid rnd "h2 @ h3 @ pl"] P [of iid] assms(3) by (simp add: b type_parser_def)
  then show ?thesis using p by blast
qed


lemma udp_hdr_ok:
  assumes "is_ok (pseudo_header i l)" "l = int (length pl) + 8" "l < 65536"
    and "in_range FH (udp_srcport u)" "in_range FH (udp_dstport u)"
  shows "\<exists>h u'. udp_hdr u (Some i) pl = Inr (h, u') \<and> length h = 8"
proof -
  have fh: "struct_pack [FH, FH, FH, FH] [udp_srcport u, udp_dstport u, l, c]
      = Inr (enc FH (udp_srcport u) @ enc FH (udp_dstport u) @ enc FH l @ enc FH c)"
    if "0 \<le> c \<and> c < 65536" for c
    using assms that by (simp add: struct_pack.simps in_range_def)
  obtain ph where "pseudo_header i l = Inr ph" using assms(1) by (auto simp: is_ok_iff)
  then obtain c where "udp_checksum (u\<lparr>udp_len := l\<rparr>) (Some i) False pl = Inr c" "0 \<le> c \<and> c < 65536"
    using fh [of 0] assms(2) checksum_range by (auto simp: udp_checksum_def Let_def add.commute)
  then show ?thesis using fh [of c] by (simp add: udp_hdr_def Let_def flip: assms(2))
qed

theorem udp_frame_roundtrip_witness:
  "\<exists>b p. packet_pack \<lparr>sub_new = \<lambda>_ _. Inr True, sub_pack = \<lambda>_ b. Inr b, sub_str = \<lambda>_ _ _. Inr ()\<rparr> None (Ethernet (ethernet_init\<lparr>eth_type := 0x0800\<rparr>)
        (Ipv4 ((ipv4_init 7)\<lparr>ipv4_protocol := 17\<rparr>) (Udp (udp_init\<lparr>udp_dstport := 9\<rparr>) (Bytes [5])))) = Inr (b, p)
     \<and> (\<exists>e i u. ethernet_new \<lparr>sub_new = \<lambda>_ _. Inr True, sub_pack = \<lambda>_ b. Inr b, sub_str = \<lambda>_ _ _. Inr ()\<rparr> 1 2 b = Inr (Ethernet e (Ipv4 i (Udp u (Bytes [5])))))"
proof -
  let ?sb = "\<lparr>sub_new = \<lambda>_ _. Inr True, sub_pack = \<lambda>_ b. Inr b, sub_str = \<lambda>_ _ _. Inr ()\<rparr>"
  let ?e = "ethernet_init\<lparr>eth_type := 0x0800\<rparr>" and ?i = "(ipv4_init 7)\<lparr>ipv4_protocol := 17\<rparr>"
    and ?u = "udp_init\<lparr>udp_dstport := 9\<rparr>"
  have "is_ok (pseudo_header ?i 9)"
    by (simp add: pseudo_header_def ipv4_init_def IP_ANY_def struct_pack.simps in_range_def)
  moreover have "in_range FH (udp_srcport ?u)" "in_range FH (udp_dstport ?u)"
    by (simp_all add: udp_init_def in_range_def)
  moreover have "9 = int (length [5 :: byte]) + 8" "(9 :: int) < 65536" by simp_all
  ultimately have "\<exists>h u'. udp_hdr ?u (Some ?i) [5] = Inr (h, u') \<and> length h = 8"
    by (intro udp_hdr_ok [of ?i 9])
  then obtain h3 u' where u: "udp_hdr ?u (Some ?i) [5] = Inr (h3, u')" "length h3 = 8"
    by blast
  obtain h2 i' where i: "ipv4_hdr ?i (h3 @ [5]) = Inr (h2, i')"
  proof -
    have "\<exists>b i'. ipv4_hdr ?i (h3 @ [5]) = Inr (b, i')"
      by (rule ipv4_hdr_ok)
        (simp add: u(2) ipv4_struct_def ipv4_init_def IP_ANY_def struct_pack.simps in_range_def)
    then show ?thesis using that by blast
  qed
  obtain h1 where e: "ethernet_hdr ?e = Inr h1"
    by (simp add: ethernet_hdr_def ethernet_init_def struct_pack.simps in_range_def)
  have "packet_pack ?sb None (Ethernet ?e (Ipv4 ?i (Udp ?u (Bytes [5])))) =
      Inr (h1 @ h2 @ h3 @ [5], Ethernet ?e (Ipv4 i' (Udp u' (Bytes [5]))))"
    by (simp add: with_hdr_def u i e)
  moreover have "eth_plain ?e"
    by (simp add: eth_plain_def ethernet_init_def ETHER_ANY_def eth_raw_ok_def str_of_bytes_def zeros_numeral)
  moreover have "ipv4_plain ?i" by (simp add: ipv4_plain_def ipv4_init_def IP_ANY_def)
  ultimately show ?thesis
    using udp_frame_roundtrip [of ?sb None ?e ?i ?u "[5]" _ _ 1 2]
    by (simp add: ipv4_init_def udp_init_def)
qed


section \<open>Looking headers up\<close>

text \<open>
  \<open>find\<close> is sound: what it returns is a header of the class asked for, successfully parsed.
\<close>

theorem packet_find_sound:
  "packet_find proto p = Inr (Some q) \<Longrightarrow> class_name q = proto \<and> parsed_attr q = Some True"
proof (induction proto p rule: packet_find.induct)
  case (1 proto p)
  show ?case
  proof (cases "class_name p = proto \<and> parsed_attr p = Some True")
    case True
    then have "q = p" using "1.prems" by (subst (asm) packet_find.simps) simp
    then show ?thesis using True by simp
  next
    case False
    let ?hit = "if class_name p = proto then need AttributeError (parsed_attr p) else Inr False"
    have h: "?hit = Inr False" "is_packet (next_of p)" "next_of p \<noteq> NoAttr"
        "parsed_attr (next_of p) = Some True" "packet_find proto (next_of p) = Inr (Some q)"
      using "1.prems" False
      by (subst (asm) packet_find.simps, auto simp: res_simps split: if_splits)+
    then show ?thesis using "1.IH" [of False True] by simp
  qed
qed

theorem packet_find_sound_witness:
  "class_name (Udp (udp_init\<lparr>udp_parsed := True\<rparr>) NoNext) = ''udp''
     \<and> parsed_attr (Udp (udp_init\<lparr>udp_parsed := True\<rparr>) NoNext) = Some True"
proof -
  have "packet_find ''udp'' (Ipv4 ((ipv4_init 1)\<lparr>ipv4_parsed := True\<rparr>) (Udp (udp_init\<lparr>udp_parsed := True\<rparr>) NoNext))
      = Inr (Some (Udp (udp_init\<lparr>udp_parsed := True\<rparr>) NoNext))"
    by (simp add: packet_find.simps)
  then show ?thesis by (rule packet_find_sound)
qed

section \<open>The 802.1q tag\<close>

text \<open>
  a parsed tag with the CFI bit set cannot be packed again: \<open>parse\<close> stores
  \<open>c = 0x1000\<close>, and \<open>hdr\<close> shifts it by another twelve bits, out of the 16-bit field.
\<close>

theorem vlan_hdr_cfi_raises:
  assumes "vlan_c v = Some 0x1000" "0 \<le> vlan_pcp v" "0 \<le> vlan_id v"
  shows "vlan_hdr v = Inl StructError"
proof -
  let ?x = "push_bit 13 (vlan_pcp v)"
  have "0 \<le> ?x" using assms(2) by (simp add: push_bit_eq_mult)
  then have "16777216 \<le> ?x OR 16777216"
    using or_greater_eq [of ?x 16777216] by (simp add: or.commute)
  also have "\<dots> \<le> (?x OR 16777216) OR vlan_id v" by (rule or_greater_eq [OF assms(3)])
  finally have "\<not> in_range FH ((?x OR 16777216) OR vlan_id v)" by (simp add: in_range_def)
  then show ?thesis by (simp add: vlan_hdr_def assms(1) struct_pack.simps push_bit_eq_mult)
qed

theorem vlan_hdr_cfi_raises_witness:
  "vlan_hdr (vlan_init\<lparr>vlan_c := Some 0x1000, vlan_id := 5\<rparr>) = Inl StructError"
  by (rule vlan_hdr_cfi_raises) (simp_all add: vlan_init_def)

text \<open>A tag with the bit clear is read back.\<close>

lemma and_0fff: "(n :: int) AND 4095 = n mod 4096"
  using take_bit_eq_mask [of 12 n] by (simp add: take_bit_eq_mod mask_eq_exp_minus_1)

lemma div_mod_low: "0 \<le> x \<Longrightarrow> x < m \<Longrightarrow> (m * y + x) div m = y \<and> (m * y + x) mod m = x" for x y m :: int
  by (simp add: add.commute)

lemma and_single_bit: "(n :: int) AND push_bit k 1 = push_bit k (drop_bit k n AND 1)"
  by (rule bit_eqI) (auto simp: bit_simps)

lemma and_1000: "(n :: int) AND 4096 = 4096 * (n div 4096 mod 2)"
proof -
  have "n AND 4096 = n AND push_bit 12 1" by simp
  also have "\<dots> = push_bit 12 (drop_bit 12 n AND 1)" by (rule and_single_bit)
  also have "\<dots> = 4096 * (n div 4096 mod 2)"
    by (simp add: and_one_eq drop_bit_eq_div push_bit_eq_mult)
  finally show ?thesis .
qed

lemma vlan_parse_hdr:
  assumes "vlan_c v = Some 0" "vlan_cfi v = 0" "0 \<le> vlan_pcp v" "0 \<le> vlan_id v" "vlan_id v < 4096"
    and "vlan_hdr v = Inr h" "vlan_eth_type v \<noteq> 0x8100"
  shows "vlan_new sb iid rnd (h @ pl) =
    (case type_parser sb iid rnd (vlan_eth_type v) pl of
       Some p \<Rightarrow> rmap (Vlan (v\<lparr>vlan_raw := Some (h @ pl), vlan_parsed := True\<rparr>)) p
     | None \<Rightarrow> Inr (Vlan (v\<lparr>vlan_raw := Some (h @ pl), vlan_parsed := True\<rparr>) NoNext))"
proof -
  let ?x = "8192 * vlan_pcp v + vlan_id v"
  have "struct_pack [FH, FH] [?x, vlan_eth_type v] = Inr h"
    using assms push_or_low [of "vlan_id v" 13 "vlan_pcp v"] by (simp add: vlan_hdr_def)
  note h = this
  have l: "length h = 4" using struct_pack_length [OF h] by simp
  have u: "struct_unpack [FH, FH] (bslice 0 4 (h @ pl)) = Inr [?x, vlan_eth_type v]"
    using struct_unpack_pack [OF h] by (simp add: bslice_0 [OF l])
  have "?x div 4096 = 2 * vlan_pcp v" "?x mod 4096 = vlan_id v" "?x div 8192 = vlan_pcp v"
    using div_mod_low [of "vlan_id v" 4096 "2 * vlan_pcp v"] div_mod_low [of "vlan_id v" 8192 "vlan_pcp v"]
      assms(4,5) by simp_all
  then have bits: "drop_bit 13 ?x = vlan_pcp v" "?x AND 0x0fff = vlan_id v" "?x AND 0x1000 = 0"
    by (simp_all add: and_0fff and_1000 drop_bit_eq_div)
  have rec: "vlan_init\<lparr>vlan_raw := x, vlan_eth_type := vlan_eth_type v, vlan_pcp := vlan_pcp v,
      vlan_c := Some 0, vlan_id := vlan_id v, vlan_parsed := True\<rparr> = v\<lparr>vlan_raw := x, vlan_parsed := True\<rparr>" for x
    using assms(1,2) by (cases v) (simp add: vlan_init_def)
  show ?thesis
    unfolding vlan_new_def Let_def u using assms(7) by (simp add: l bits rec cong: option.case_cong)
qed

text \<open>
  a VLAN tag whose inner type has no parser loses its payload: the payload bytes that follow the tag
  are not in the packet object, so packing the parsed tag gives the four header bytes only.
  (\<open>ethernet.parse\<close> keeps such bytes.)
\<close>

theorem vlan_unknown_type_drops_payload:
  assumes "vlan_c v = Some 0" "vlan_cfi v = 0" "0 \<le> vlan_pcp v" "0 \<le> vlan_id v" "vlan_id v < 4096"
    and "vlan_hdr v = Inr h" "vlan_eth_type v \<noteq> 0x8100"
    and "type_parser sb iid rnd (vlan_eth_type v) pl = None"
  shows "\<exists>p. vlan_new sb iid rnd (h @ pl) = Inr p \<and> rmap fst (packet_pack sb None p) = Inr h"
  using vlan_parse_hdr [OF assms(1-7), of sb iid rnd pl] assms(6,8)
  by (simp add: with_hdr_def vlan_hdr_def)

theorem vlan_unknown_type_drops_payload_witness:
  "\<exists>p. vlan_new \<lparr>sub_new = \<lambda>_ _. Inr True, sub_pack = \<lambda>_ b. Inr b, sub_str = \<lambda>_ _ _. Inr ()\<rparr> 1 2 ([0, 5, 0x12, 0x34] @ [7, 8, 9]) = Inr p
     \<and> rmap fst (packet_pack \<lparr>sub_new = \<lambda>_ _. Inr True, sub_pack = \<lambda>_ b. Inr b, sub_str = \<lambda>_ _ _. Inr ()\<rparr> None p) = Inr [0, 5, 0x12, 0x34]"
  by (rule vlan_unknown_type_drops_payload [of "vlan_init\<lparr>vlan_c := Some 0, vlan_id := 5, vlan_eth_type := 0x1234\<rparr>"])
    (simp_all add: vlan_init_def vlan_hdr_def type_parser_def pack_eval)

section \<open>ARP\<close>

text \<open>Packets with Ethernet and IPv4 addresses of the standard sizes.\<close>

definition arp_plain :: "arp \<Rightarrow> bool" where
  "arp_plain a \<longleftrightarrow> arp_hwlen a = 6 \<and> arp_protolen a = 4
     \<and> (case arp_hwsrc a of HwEth e \<Rightarrow> eth_raw_ok (eth_value e) | HwBytes _ \<Rightarrow> False)
     \<and> (case arp_hwdst a of HwEth e \<Rightarrow> eth_raw_ok (eth_value e) | HwBytes _ \<Rightarrow> False)
     \<and> (case arp_protosrc a of IvAddr i \<Rightarrow> ip_wf i | IvNum _ \<Rightarrow> False)
     \<and> (case arp_protodst a of IvAddr i \<Rightarrow> ip_wf i | IvNum _ \<Rightarrow> False)"

text \<open>
  an ARP request or reply packed by \<open>arp.hdr\<close> is 28 bytes long and is parsed back to the same
  fields, with the bytes after it as its payload.
\<close>

theorem arp_roundtrip:
  assumes "arp_plain a" "arp_hdr a = Inr h"
  shows "length h = 28 \<and> arp_new (h @ pl) =
    Inr (Arp (a\<lparr>arp_raw := Some (h @ pl), arp_parsed := True\<rparr>) (Bytes pl))"
proof -
  obtain hs hd ps pd where f: "arp_hwsrc a = HwEth (EthAddr hs)" "arp_hwdst a = HwEth (EthAddr hd)"
      "arp_protosrc a = IvAddr ps" "arp_protodst a = IvAddr pd"
    and ok: "eth_raw_ok hs" "eth_raw_ok hd" "ip_wf ps" "ip_wf pd" and ln: "arp_hwlen a = 6" "arp_protolen a = 4"
    using assms(1) by (auto simp: arp_plain_def split: hwaddr.splits ipval.splits) (metis EthAddr.collapse)
  obtain h0 h1 h2 where s0: "struct_pack [FH, FH, FB, FB, FH] [arp_hwtype a, arp_prototype a, 6, 4, arp_opcode a] = Inr h0"
    and s1: "struct_pack [FI] [ip_u ps] = Inr h1" and s2: "struct_pack [FI] [ip_u pd] = Inr h2"
    and h: "h = h0 @ hs @ h1 @ hd @ h2"
    using assms(2) by (auto simp: arp_hdr_def res_simps f ln eth_toRaw_def)
  have l: "length h0 = 8" "length h1 = 4" "length h2 = 4" "length hs = 6" "length hd = 6"
    using s0 s1 s2 ok by (auto simp: eth_raw_ok_def dest: struct_pack_length)
  have b: "bslice 0 8 (h @ pl) = h0" "bslice 8 14 (h @ pl) = hs" "bslice 14 18 (h @ pl) = h1"
    "bslice 18 24 (h @ pl) = hd" "bslice 24 28 (h @ pl) = h2"
    by (simp_all add: h bslice_def l)
  have lh: "length h = 28" by (simp add: h l)
  have rec: "arp_init\<lparr>arp_raw := x, arp_hwtype := arp_hwtype a, arp_prototype := arp_prototype a,
      arp_hwlen := 6, arp_protolen := 4, arp_opcode := arp_opcode a, arp_hwsrc := HwEth (EthAddr hs),
      arp_hwdst := HwEth (EthAddr hd), arp_protosrc := IvAddr ps, arp_protodst := IvAddr pd,
      arp_parsed := True\<rparr> = a\<lparr>arp_raw := x, arp_parsed := True\<rparr>" for x
    using f ln by (cases a) (simp add: arp_init_def)
  show ?thesis
    unfolding arp_new_def Let_def b read_I_def
    by (simp add: lh struct_unpack_pack [OF s0] struct_unpack_pack [OF s1] struct_unpack_pack [OF s2]
        EthAddr_raw ok IPAddr_init_int ip_of_int_u rec)
qed

theorem arp_roundtrip_witness:
  "arp_new ([0, 1, 8, 0, 6, 4, 0, 1] @ [0, 0, 0, 0, 0, 9, 10, 0, 0, 1, 0, 0, 0, 0, 0, 0, 10, 0, 0, 2, 77]) =
    Inr (Arp (arp_init\<lparr>arp_opcode := 1, arp_hwsrc := HwEth (EthAddr [0, 0, 0, 0, 0, 9]),
      arp_protosrc := IvAddr (ip_of_int 0x0a000001), arp_protodst := IvAddr (ip_of_int 0x0a000002),
      arp_raw := Some [0, 1, 8, 0, 6, 4, 0, 1, 0, 0, 0, 0, 0, 9, 10, 0, 0, 1, 0, 0, 0, 0, 0, 0, 10, 0, 0, 2, 77],
      arp_parsed := True\<rparr>) (Bytes [77]))"
proof -
  let ?a = "arp_init\<lparr>arp_opcode := 1, arp_hwsrc := HwEth (EthAddr [0, 0, 0, 0, 0, 9]),
      arp_protosrc := IvAddr (ip_of_int 0x0a000001), arp_protodst := IvAddr (ip_of_int 0x0a000002)\<rparr>"
  let ?h = "[0, 1, 8, 0, 6, 4, 0, 1, 0, 0, 0, 0, 0, 9, 10, 0, 0, 1, 0, 0, 0, 0, 0, 0, 10, 0, 0, 2]"
  have "eth_raw_ok [0, 0, 0, 0, 0, 9]" "eth_raw_ok [0, 0, 0, 0, 0, 0]" by code_simp+
  then have "arp_plain ?a"
    by (simp add: arp_plain_def arp_init_def ETHER_ANY_def zeros_numeral)
  moreover have "arp_hdr ?a = Inr ?h"
    by (simp add: arp_hdr_def arp_init_def ETHER_ANY_def eth_toRaw_def ip_u_of_int pack_eval)
  ultimately show ?thesis using arp_roundtrip [of ?a ?h "[77]"] by simp
qed

end
