(* ===== verification/Switch_Laws.thy ===== *)
theory Switch_Laws
  imports Switch_Impl Packet_Laws
begin

text \<open>
  Properties of the software switch: the invariant every handler keeps, the buffer, flooding, table misses,
  the reading loop and its termination, and the actions that do not do what they are meant to.
\<close>

unbundle bit_operations_syntax

section \<open>The invariant\<close>

text \<open>
  The table is sorted with distinct entry objects, every buffered packet is an object of the store and a
  frame, the counters are in range and the ports are keyed by their numbers.
\<close>

definition ports_ok :: "(int \<times> ofp_phy_port) list \<Rightarrow> bool" where
  "ports_ok ps \<longleftrightarrow> distinct (map fst ps) \<and> list_all (\<lambda>(n, p). pp_port_no p = n) ps"

definition switch_ok :: "switch \<Rightarrow> bool" where
  "switch_ok s \<longleftrightarrow> table_ok (sw_table s)
     \<and> (\<forall>p q. Some (p, q) \<in> set (sw_buffer s) \<longrightarrow> p < length (sw_heap s))
     \<and> list_all is_ethernet (sw_heap s)
     \<and> xid_ok (sw_xid_count s) \<and> xid_ok (sw_nextXID s) \<and> ports_ok (sw_ports s)"

lemma switch_ok_simps [simp]:
  "switch_ok (s\<lparr>sw_send_buf := b\<rparr>) = switch_ok s"
  "switch_ok (s\<lparr>sw_receive_buf := c\<rparr>) = switch_ok s"
  "switch_ok (s\<lparr>sw_events := e\<rparr>) = switch_ok s"
  "switch_ok (s\<lparr>sw_connected := d\<rparr>) = switch_ok s"
  by (simp_all add: switch_ok_def)

lemma assign_xid_ok: "xid_ok nx \<Longrightarrow> xid_ok (snd (assign_xid nx m))"
  using generateXID_ok [of nx] by (simp add: assign_xid_def split_beta split: option.split)

lemma header_pack_xid: "ofp_header_pack nx m = Inr (h, m', nx') \<Longrightarrow> xid_ok nx \<Longrightarrow> xid_ok nx'"
  using assign_xid_ok [of nx m] by (auto simp: ofp_header_pack_Inr dest: sym)

lemma msg_pack_xid: "msg_pack nx m body = Inr (b, m', nx') \<Longrightarrow> xid_ok nx \<Longrightarrow> xid_ok nx'"
  using header_pack_xid by (auto simp: msg_pack_def rbind_eq_Inr rmap_eq_Inr)

lemma out_pack_xid: "out_pack nx m = Inr (b, nx') \<Longrightarrow> xid_ok nx \<Longrightarrow> xid_ok nx'"
  by (cases m)
    (auto simp: rmap_eq_Inr ofp_hello_pack_def ofp_echo_pack_def ofp_features_reply_pack_def ofp_barrier_reply_pack_def
      ofp_get_config_reply_pack_def ofp_stats_reply_pack_def ofp_error_pack_def ofp_packet_in_pack_def
      ofp_port_status_pack_def Let_def dest: msg_pack_xid header_pack_xid)

lemma is_ethernet_upd [simp]:
  "is_ethernet (eth_upd f p) = is_ethernet p" "is_ethernet (eth_next n p) = is_ethernet p"
  by (cases p; simp add: is_ethernet_def eth_upd_def eth_next_def)+

lemma is_ethernet_ensure [simp]: "is_ethernet (ensure_vlan p) = is_ethernet p"
  by (simp add: ensure_vlan_def split: packet.split)

lemma is_ethernet_pack: "packet_pack sb prev p = Inr (b, p') \<Longrightarrow> is_ethernet p' = is_ethernet p"
  by (cases p) (auto simp: is_ethernet_def with_hdr_def rbind_eq_Inr rmap_eq_Inr split: prod.splits)

text \<open>The invariant, with a lower bound for the number of packet objects.\<close>

definition swi :: "nat \<Rightarrow> switch \<Rightarrow> bool" where
  "swi n s \<longleftrightarrow> switch_ok s \<and> n \<le> length (sw_heap s)"

lemma keeps_send [keeps_intros]: "keeps (swi n) (sw_send m)"
  by (rule keepsI)
    (auto simp: sw_send_def sbind_def sget_def slift_def smod_def sret_def swi_def switch_ok_def out_pack_xid
      split: sum.splits prod.splits if_splits)

lemma keeps_next_xid [keeps_intros]: "keeps (swi n) next_xid"
  using xid_next_ok by (auto intro!: keepsI simp: next_xid_def swi_def switch_ok_def sret_def)

lemma swi_heap:
  assumes "swi n s" "is_ethernet (sw_heap s ! p) \<Longrightarrow> is_ethernet q"
  shows "swi n (s\<lparr>sw_heap := (sw_heap s)[p := q]\<rparr>)"
proof (cases "p < length (sw_heap s)")
  case True
  then have "is_ethernet q" using assms by (simp add: swi_def switch_ok_def list_all_length)
  then show ?thesis using assms(1) True unfolding swi_def switch_ok_def list_all_length by (auto simp: nth_list_update)
qed (use assms(1) in \<open>simp add: swi_def list_update_beyond switch_ok_def\<close>)

lemma keeps_upd_packet [keeps_intros]:
  "(\<And>p. is_ethernet p \<Longrightarrow> is_ethernet (f p)) \<Longrightarrow> keeps (swi n) (upd_packet i f)"
  by (auto intro!: keepsI swi_heap simp: upd_packet_def get_packet_def set_packet_def smod_def)

lemma keeps_get_packet [keeps_intros]: "keeps (swi n) (get_packet i)"
  unfolding get_packet_def by (rule keeps_sget)

lemma keeps_pack_packet [keeps_intros]: "keeps (swi n) (pack_packet env i)"
proof (rule keepsI)
  fix s
  assume ok: "swi n s"
  show "swi n (snd (pack_packet env i s))"
  proof (cases "packet_pack (env_subs env) None (sw_heap s ! i)")
    case (Inr bp)
    then obtain b p' where "packet_pack (env_subs env) None (sw_heap s ! i) = Inr (b, p')" by (cases bp) auto
    then show ?thesis using ok
      by (auto simp: pack_packet_def get_packet_def set_packet_def sret_def is_ethernet_pack intro!: swi_heap)
  qed (use ok in \<open>simp add: pack_packet_def get_packet_def sraise_def\<close>)
qed

lemma keeps_assert [keeps_intros]: "keeps (swi n) (assert_ethernet i)"
  unfolding assert_ethernet_def by (intro keeps_intros)

lemmas heap_defs = new_packet_def get_packet_def set_packet_def

lemma keeps_real_send [keeps_intros]: "keeps (swi n) (real_send p no)"
  unfolding real_send_def by (intro keeps_intros keeps_smod) (simp add: swi_def)

lemma first_free_bound: "first_free xs = Some i \<Longrightarrow> i < length xs \<and> xs ! i = None"
  by (induction xs arbitrary: i rule: first_free.induct) auto

lemma switch_ok_buffer:
  "switch_ok s \<Longrightarrow> (\<And>p q. Some (p, q) \<in> set buf \<Longrightarrow> Some (p, q) \<in> set (sw_buffer s) \<or> p < length (sw_heap s)) \<Longrightarrow>
     switch_ok (s\<lparr>sw_buffer := buf\<rparr>)"
  unfolding switch_ok_def by auto

lemma keeps_buffer_packet [keeps_intros]: "p < n \<Longrightarrow> keeps (swi n) (buffer_packet p in_port)"
proof (rule keepsI)
  fix s
  assume p: "p < n" and s: "swi n s"
  show "swi n (snd (buffer_packet p in_port s))"
  proof (cases "first_free (sw_buffer s)")
    case None
    then show ?thesis using p s by (auto simp: buffer_packet_def swi_def sret_def intro!: switch_ok_buffer)
  next
    case (Some i)
    then show ?thesis using p s
      by (auto simp: buffer_packet_def swi_def sret_def intro!: switch_ok_buffer dest: set_update_subset_insert [THEN subsetD])
  qed
qed

lemma keeps_send_packet_in [keeps_intros]: "keeps (swi n) (send_packet_in env in_port b p x r)"
  unfolding send_packet_in_def by (intro keeps_intros)

lemma keeps_output_packet [keeps_intros]: "p < n \<Longrightarrow> keeps (swi n) (output_packet env p out in_port)"
  unfolding output_packet_def by (intro keeps_intros) simp_all

lemma keeps_packet_case [keeps_intros]:
  "(\<And>h n'. keeps P (fe h n')) \<Longrightarrow> (\<And>h n'. keeps P (fv h n')) \<Longrightarrow> (\<And>h n'. keeps P (fm h n')) \<Longrightarrow> (\<And>h n'. keeps P (fa h n'))
   \<Longrightarrow> (\<And>h n'. keeps P (fi h n')) \<Longrightarrow> (\<And>h n'. keeps P (fu h n')) \<Longrightarrow> (\<And>h n'. keeps P (ft h n')) \<Longrightarrow> (\<And>h n'. keeps P (fc h n'))
   \<Longrightarrow> (\<And>h n'. keeps P (fo h n')) \<Longrightarrow> (\<And>h n'. keeps P (fr h n')) \<Longrightarrow> (\<And>k b r. keeps P (fx k b r)) \<Longrightarrow> keeps P f0 \<Longrightarrow> keeps P f1
   \<Longrightarrow> (\<And>b. keeps P (fb b))
   \<Longrightarrow> keeps P (case p of NoAttr \<Rightarrow> f0 | NoNext \<Rightarrow> f1 | Bytes b \<Rightarrow> fb b | Ethernet h n' \<Rightarrow> fe h n' | Vlan h n' \<Rightarrow> fv h n'
        | Mpls h n' \<Rightarrow> fm h n' | Arp h n' \<Rightarrow> fa h n' | Ipv4 h n' \<Rightarrow> fi h n' | Udp h n' \<Rightarrow> fu h n' | Tcp h n' \<Rightarrow> ft h n'
        | Icmp h n' \<Rightarrow> fc h n' | Echo h n' \<Rightarrow> fo h n' | Unreach h n' \<Rightarrow> fr h n' | Other k b r \<Rightarrow> fx k b r)"
  by (cases p) simp_all

lemma is_ethernet_strip [simp]:
  "is_ethernet p \<Longrightarrow> is_ethernet (case next_of p of Vlan v n' \<Rightarrow> eth_upd (f v) (eth_next n' p) | _ \<Rightarrow> p)"
  "is_ethernet p \<Longrightarrow> is_ethernet (case next_of p of Mpls h n' \<Rightarrow> eth_next (g h n') p | _ \<Rightarrow> p)"
  by (simp_all split: packet.split)

lemmas action_defs = set_vlan_id_def act_vlan_pcp_def strip_vlan_def act_dl_src_def act_dl_dst_def act_nw_addr_def
  act_nw_tos_def act_tp_src_def act_tp_dst_def act_enqueue_def push_mpls_tag_def pop_mpls_tag_def on_mpls_def dec_mpls_ttl_def

lemma keeps_push_mpls [keeps_intros]: "keeps (swi n) (push_mpls_tag env t i)"
  unfolding push_mpls_tag_def by (intro keeps_intros) simp_all

lemma keeps_do_action [keeps_intros]: "i < n \<Longrightarrow> keeps (swi n) (do_action env a i in_port)"
  unfolding do_action_def action_defs by (intro keeps_intros; simp)

lemma keeps_process_actions [keeps_intros]: "i < n \<Longrightarrow> keeps (swi n) (process_actions env acts i in_port)"
  unfolding process_actions_def by (intro keeps_intros)

lemma ethernet_new_is_ethernet:
  assumes "ethernet_new sb iid rnd b = Inr p"
  shows "is_ethernet p"
proof (cases "length b < 14")
  case True
  then show ?thesis using assms by (auto simp: ethernet_new_def is_ethernet_def Let_def)
next
  case False
  obtain dst src vs where "(case vs of [t] \<Rightarrow>
      rmap (Ethernet (ethernet_init\<lparr>eth_raw := Some b, eth_dst := HwEth dst, eth_src := HwEth src, eth_type := t, eth_parsed := True\<rparr>))
                 (if t = 0x8100 then vlan_new sb iid rnd (drop 14 b)
                  else case type_parser sb iid rnd t (drop 14 b) of
                         Some p \<Rightarrow> p
                       | None \<Rightarrow> Inr (Bytes (drop 14 b))) | _ \<Rightarrow> Inl ValueError) = Inr p"
    using assms unfolding ethernet_new_def Let_def if_not_P [OF False] rbind_eq_Inr by (elim exE conjE)
  then show ?thesis by (cases vs; cases "tl vs") (auto simp: rmap_eq_Inr is_ethernet_def)
qed

text \<open>A new object is in the store, whatever the bound was before.\<close>

lemma new_packet_ok:
  assumes "switch_ok s" "is_ethernet p" "\<And>i. keeps (swi (Suc i)) (f i)"
  shows "switch_ok (snd (sbind (new_packet p) f s))"
proof -
  have "swi (Suc (length (sw_heap s))) (s\<lparr>sw_heap := sw_heap s @ [p]\<rparr>)"
    using assms(1,2) by (fastforce simp: swi_def switch_ok_def)
  then have "swi (Suc (length (sw_heap s))) (snd (f (length (sw_heap s)) (s\<lparr>sw_heap := sw_heap s @ [p]\<rparr>)))"
    using assms(3) by (simp add: keeps_def)
  then show ?thesis by (simp add: new_packet_def sbind_def sthen_def sget_def smod_def sret_def swi_def)
qed

lemma keeps_bytes [keeps_intros]: "keeps switch_ok (process_actions_bytes env acts b in_port)"
proof (rule keepsI)
  fix s
  assume s: "switch_ok s"
  show "switch_ok (snd (process_actions_bytes env acts b in_port s))"
    using s ethernet_new_is_ethernet
    by (cases "ethernet_new (env_subs env) (env_iid env) (env_rnd env) b")
      (auto simp: process_actions_bytes_def sraise_def intro!: new_packet_ok keeps_process_actions)
qed

lemma keeps_from_buffer [keeps_intros]:
  assumes "0 < bid"
  shows "keeps switch_ok (process_actions_from_buffer env acts bid)"
proof (rule keepsI)
  fix s
  assume s: "switch_ok s"
  show "switch_ok (snd (process_actions_from_buffer env acts bid s))"
  proof (cases "bid - 1 < int (length (sw_buffer s)) \<and> sw_buffer s ! nat (bid - 1) \<noteq> None")
    case True
    then obtain p q where pq: "sw_buffer s ! nat (bid - 1) = Some (p, q)" by auto
    then have "Some (p, q) \<in> set (sw_buffer s)" using True assms nth_mem [of "nat (bid - 1)" "sw_buffer s"] by auto
    then have "swi (Suc p) s" using s by (auto simp: swi_def switch_ok_def)
    moreover have "keeps (swi (Suc p)) (sthen (process_actions env acts p q)
        (smod (\<lambda>s. s\<lparr>sw_buffer := (sw_buffer s)[nat (bid - 1) := None]\<rparr>)))"
      by (intro keeps_sthen keeps_process_actions keeps_smod)
        (auto simp: swi_def intro!: switch_ok_buffer dest: set_update_subset_insert [THEN subsetD])
    ultimately have "swi (Suc p) (snd (sthen (process_actions env acts p q)
        (smod (\<lambda>s. s\<lparr>sw_buffer := (sw_buffer s)[nat (bid - 1) := None]\<rparr>)) s))"
      by (simp add: keeps_def)
    then show ?thesis using True pq by (simp add: process_actions_from_buffer_def Let_def swi_def)
  qed (use s in \<open>auto simp: process_actions_from_buffer_def Let_def sret_def sraise_def split: option.split\<close>)
qed

lemma keeps_flow_mod_table [keeps_intros]:
  "keeps switch_ok (szoom sw_table (\<lambda>t s. s\<lparr>sw_table := t\<rparr>) (process_flow_mod now fm))"
  by (rule keeps_szoom) (auto simp: switch_ok_def dest: table_ok_process_flow_mod)

lemma keeps_swi0: "keeps (swi 0) m \<Longrightarrow> keeps switch_ok m"
  by (simp add: keeps_def swi_def)

lemmas keeps_ok_send [keeps_intros] = keeps_send [THEN keeps_swi0]

lemmas handler_defs = receive_hello_def send_hello_def receive_echo_def receive_features_request_def receive_flow_mod_def
  receive_packet_out_def receive_barrier_request_def receive_get_config_request_def receive_stats_request_def receive_vendor_def

lemma keeps_handle_msg [keeps_intros]: "keeps switch_ok (handle_msg env m)"
  by (cases m) (auto simp: handler_defs intro!: keeps_intros)

lemma keeps_process_packet [keeps_intros]: "keeps switch_ok (process_packet env p in_port)"
proof (rule keepsI)
  fix s
  assume s: "switch_ok s"
  have t: "keeps (swi n) (smod (\<lambda>s. s\<lparr>sw_table := touch_entry i k now (sw_table s)\<rparr>))" for n i k now
    by (rule keeps_smod) (auto simp: swi_def switch_ok_def intro: table_step_ok table_step.touch)
  show "switch_ok (snd (process_packet env p in_port s))"
  proof (cases "is_ethernet p")
    case True
    then show ?thesis unfolding process_packet_def using s
      by (simp, intro new_packet_ok, simp_all, intro keeps_intros t) simp_all
  qed (use s in \<open>simp add: process_packet_def sraise_def\<close>)
qed

lemma ports_ok_update: "ports_ok ps \<Longrightarrow> ports_ok (AList.update (pp_port_no p) p ps)"
proof -
  have "list_all (\<lambda>(n, q). pp_port_no q = n) ps \<Longrightarrow> list_all (\<lambda>(n, q). pp_port_no q = n) (AList.update (pp_port_no p) p ps)"
    by (induction ps) auto
  then show "ports_ok ps \<Longrightarrow> ports_ok (AList.update (pp_port_no p) p ps)"
    by (simp add: ports_ok_def distinct_update)
qed

lemma ports_ok_delete: "ports_ok ps \<Longrightarrow> ports_ok (AList.delete k ps)"
  by (auto simp: ports_ok_def AList.delete_eq list_all_iff distinct_map_filter)

lemma keeps_port_status [keeps_intros]: "keeps switch_ok (send_port_status p r)"
  unfolding send_port_status_def by (intro keeps_intros)

lemma keeps_take_port_down [keeps_intros]: "keeps switch_ok (take_port_down p)"
  unfolding take_port_down_def by (intro keeps_intros keeps_smod) (simp add: switch_ok_def ports_ok_delete)

lemma keeps_bring_port_up [keeps_intros]: "keeps switch_ok (bring_port_up p)"
  unfolding bring_port_up_def by (intro keeps_intros keeps_smod) (simp add: switch_ok_def ports_ok_update)

lemma read_loop_SucD:
  assumes "read_loop (Suc n) env s = Some (r, s')"
  shows "s' = s \<or> (\<exists>m r1 s1. handle_msg (env 0) m (s\<lparr>sw_receive_buf := drop (frame_len (sw_receive_buf s)) (sw_receive_buf s)\<rparr>) = (r1, s1)
    \<and> (s' = s1 \<or> read_loop n (\<lambda>k. env (Suc k)) s1 = Some (r, s')))"
  using assms by (auto simp: Let_def split: if_split_asm sum.split_asm prod.split_asm)

lemma read_loop_ok: "switch_ok s \<Longrightarrow> read_loop n env s = Some (r, s') \<Longrightarrow> switch_ok s'"
proof (induction n arbitrary: env s)
  case (Suc n)
  have "switch_ok (s\<lparr>sw_receive_buf := b\<rparr>)" for b using Suc.prems(1) by simp
  note h = keeps_handle_msg [THEN keepsD, OF this]
  show ?case using read_loop_SucD [OF Suc.prems(2)] Suc.prems(1) h Suc.IH by blast
qed simp

section \<open>Runs of the switch\<close>

inductive sw_step :: "switch \<Rightarrow> switch \<Rightarrow> bool" where
  connect: "sw_step s (set_connection s)"
| data: "push_receive_data fuel env new_data s = Some (r, s') \<Longrightarrow> sw_step s s'"
| frame: "process_packet env p in_port s = (r, s') \<Longrightarrow> sw_step s s'"
| port_down: "take_port_down port s = (r, s') \<Longrightarrow> sw_step s s'"
| port_up: "bring_port_up port s = (r, s') \<Longrightarrow> sw_step s s'"

inductive sw_reach :: "switch \<Rightarrow> bool" where
  init: "xid_ok nextXID \<Longrightarrow> sw_reach (SwitchImpl_init dpid ports miss_send_len n_buffers n_tables nextXID)"
| step: "sw_reach s \<Longrightarrow> sw_step s s' \<Longrightarrow> sw_reach s'"

lemma switch_ok_init: "xid_ok x \<Longrightarrow> switch_ok (SwitchImpl_init dpid ports m nb nt x)"
proof -
  have "ports_ok qs \<Longrightarrow> ports_ok (fold (\<lambda>p. AList.update (pp_port_no p) p) ps qs)" for ps qs
    by (induction ps arbitrary: qs) (auto simp: ports_ok_update)
  then show "xid_ok x \<Longrightarrow> ?thesis"
    by (simp add: switch_ok_def SwitchImpl_init_def table_ok_init xid_generator_def xid_ok_def ports_ok_def)
qed

lemma sw_step_ok: "sw_step s s' \<Longrightarrow> switch_ok s \<Longrightarrow> switch_ok s'"
proof (induction rule: sw_step.induct)
  case (data fuel env new_data s r s')
  then show ?case using read_loop_ok [of "s\<lparr>sw_receive_buf := sw_receive_buf s @ new_data\<rparr>" fuel env r s'] by (simp add: push_receive_data_def)
qed (auto simp: set_connection_def dest: keeps_process_packet [THEN keepsD] keeps_take_port_down [THEN keepsD]
    keeps_bring_port_up [THEN keepsD])

lemma sw_reach_ok: "sw_reach s \<Longrightarrow> switch_ok s"
  by (induction rule: sw_reach.induct) (auto intro: switch_ok_init sw_step_ok)

text \<open>
  C30: in every state the switch reaches, by any bytes from the controller (well formed or not), any frames and
  any port changes, and whatever exceptions its handlers raise, its flow table is sorted by effective
  priority, its buffer refers only to Ethernet frames it holds, its ports are keyed by
  their numbers, and its transaction counters are within 31 bits.
\<close>

theorem switch_reachable_ok:
  assumes "sw_reach s"
  shows "sorted_wrt (\<lambda>a b. effective_priority a \<ge> effective_priority b) (ft_table (sw_table s))
    \<and> (\<forall>p q. Some (p, q) \<in> set (sw_buffer s) \<longrightarrow> p < length (sw_heap s) \<and> is_ethernet (sw_heap s ! p))
    \<and> distinct (map fst (sw_ports s)) \<and> (\<forall>(n, p) \<in> set (sw_ports s). pp_port_no p = n)
    \<and> xid_ok (sw_xid_count s) \<and> xid_ok (sw_nextXID s)"
  using sw_reach_ok [OF assms]
  by (auto simp: switch_ok_def table_ok_def sorted_map ports_ok_def list_all_iff)

lemma flood_loop:
  assumes "distinct (map fst ps)" "\<forall>(n, q) \<in> set ps. pp_port_no q = n \<and> map_of (sw_ports s) n = Some q"
  shows "sfor (\<lambda>(no, port). if no \<noteq> in_port then real_send p (pp_port_no port) else sret ()) ps s =
    (Inr (), s\<lparr>sw_events := sw_events s @ map (\<lambda>(no, port). (sw_heap s ! p, port)) (filter (\<lambda>(no, port). no \<noteq> in_port) ps)\<rparr>)"
  using assms
proof (induction ps arbitrary: s)
  case (Cons a ps)
  obtain n q where a: "a = (n, q)" by (cases a)
  show ?case
  proof (cases "n = in_port")
    case False
    let ?s = "s\<lparr>sw_events := sw_events s @ [(sw_heap s ! p, q)]\<rparr>"
    have "real_send p (pp_port_no q) s = (Inr (), ?s)"
      using Cons.prems(2) by (simp add: a real_send_def smod_def)
    then show ?thesis using Cons.IH [of ?s] Cons.prems False by (simp add: a sm_simps)
  qed (use Cons in \<open>simp add: a\<close>)
qed (simp add: sret_def)

text \<open>
  flooding sends the frame once to every port but the one it came from, and changes nothing else.
\<close>

theorem flood_all_but_in_port:
  assumes "sw_reach s" "is_ethernet (sw_heap s ! p)" "outp = OFPP_FLOOD \<or> outp = OFPP_ALL"
  shows "output_packet env p (Some outp) in_port s =
    (Inr (), s\<lparr>sw_events := sw_events s @
       map (\<lambda>(no, port). (sw_heap s ! p, port)) (filter (\<lambda>(no, port). no \<noteq> in_port) (sw_ports s))\<rparr>)"
proof -
  have ports: "distinct (map fst (sw_ports s))" "\<forall>(n, q) \<in> set (sw_ports s). pp_port_no q = n \<and> map_of (sw_ports s) n = Some q"
    using sw_reach_ok [OF assms(1)] by (auto simp: switch_ok_def ports_ok_def list_all_iff)
  have a: "assert_ethernet p s = (Inr (), s)" using assms(2) by (simp add: assert_ethernet_def get_packet_def sret_def)
  show ?thesis using assms(3) flood_loop [OF ports] by (auto simp: output_packet_def sthen_Inr [of "assert_ethernet p" s, OF a])
qed

text \<open>
  a buffered packet is found again under the identifier the buffer gave it, and only there: the identifier is
  positive, the other slots keep their contents, and releasing it runs the
  actions on exactly this packet and input port before the slot is freed.
\<close>

theorem buffer_retrieves_packet:
  assumes "buffer_packet p in_port s = (r, s1)"
  shows "\<exists>bid. r = Inr bid \<and> 0 < bid
    \<and> process_actions_from_buffer env acts bid s1 =
        sthen (process_actions env acts p in_port) (smod (\<lambda>s. s\<lparr>sw_buffer := (sw_buffer s)[nat (bid - 1) := None]\<rparr>)) s1
    \<and> (\<forall>k < length (sw_buffer s). k \<noteq> nat (bid - 1) \<longrightarrow> sw_buffer s1 ! k = sw_buffer s ! k)
    \<and> (nat (bid - 1) < length (sw_buffer s) \<longrightarrow> sw_buffer s ! nat (bid - 1) = None)"
proof (cases "first_free (sw_buffer s)")
  case None
  then show ?thesis using assms
    by (auto simp: buffer_packet_def process_actions_from_buffer_def Let_def sret_def nth_append)
next
  case (Some i)
  then show ?thesis using assms first_free_bound [OF Some]
    by (auto simp: buffer_packet_def process_actions_from_buffer_def Let_def sret_def)
qed

text \<open>
  the first buffer identifier past the end of the buffer is not reported as invalid but raises:
  the guard compares with \<open>>\<close> instead of \<open>>=\<close>.
\<close>

theorem buffer_id_off_by_one:
  "process_actions_from_buffer env acts (int (length (sw_buffer s)) + 1) s = (Inl IndexError, s)
   \<and> process_actions_from_buffer env acts (int (length (sw_buffer s)) + 2) s = (Inr (), s)"
  by (simp add: process_actions_from_buffer_def Let_def sret_def sraise_def)

section \<open>Reading\<close>

text \<open>Handlers do not touch the bytes not yet read.\<close>

lemmas switch_defs = handler_defs action_defs sw_send_def next_xid_def heap_defs pack_packet_def assert_ethernet_def
  buffer_packet_def send_packet_in_def real_send_def output_packet_def do_action_def process_actions_def
  process_actions_bytes_def process_actions_from_buffer_def upd_packet_def

lemma keeps_receive_buf: "keeps (\<lambda>s. sw_receive_buf s = b) (handle_msg env m)"
  by (cases m; simp only: handle_msg.simps switch_defs; intro keeps_intros keeps_smod keeps_swith keeps_szoom; simp)

text \<open>No frame that \<open>read\<close> reaches has length 0.\<close>

function well_framed :: "bytes \<Rightarrow> bool" where
  "well_framed b =
     (if length b \<le> 4 \<or> length b < frame_len b then True
      else if frame_len b = 0 then False else well_framed (drop (frame_len b) b))"
  by pat_completeness auto

termination
  by (relation "measure length") auto

declare well_framed.simps [simp del]

text \<open>
  C35: reading terminates.  When no frame in the receive buffer has a length field of 0, \<open>read\<close> returns (or
  an \<open>unpack\<close> raises) after at most one iteration per byte and one more, whatever the messages are and
  whatever their handlers do.
\<close>

theorem read_terminates:
  assumes "well_framed (sw_receive_buf s)"
  shows "\<exists>r s'. read_loop (Suc (length (sw_receive_buf s))) env s = Some (r, s')"
proof -
  have "length (sw_receive_buf s) < n \<Longrightarrow> \<exists>r s'. read_loop n env s = Some (r, s')" for n
    using assms
  proof (induction n arbitrary: env s)
    case (Suc n)
    let ?b = "sw_receive_buf s"
    show ?case
    proof (cases "length ?b \<le> 4 \<or> uint (?b ! 0) \<noteq> OFP_VERSION \<or> length ?b < frame_len ?b")
      case False
      then have f: "frame_len ?b \<noteq> 0" "well_framed (drop (frame_len ?b) ?b)"
        using Suc.prems(2) well_framed.simps [of ?b] by (auto split: if_split_asm)
      have l: "length (drop (frame_len ?b) ?b) < n" using f(1) Suc.prems(1) False by auto
      show ?thesis
      proof (cases "unpack_msg (uint (?b ! 1)) ?b")
        case (Inr m)
        obtain r1 s1 where h: "handle_msg (env 0) m (s\<lparr>sw_receive_buf := drop (frame_len ?b) ?b\<rparr>) = (r1, s1)"
          by (cases "handle_msg (env 0) m (s\<lparr>sw_receive_buf := drop (frame_len ?b) ?b\<rparr>)")
        have "sw_receive_buf s1 = drop (frame_len ?b) ?b" by (rule keepsD [OF keeps_receive_buf _ h]) simp
        then have "\<exists>r s'. read_loop n (\<lambda>k. env (Suc k)) s1 = Some (r, s')" using Suc.IH [of s1] l f(2) by simp
        then show ?thesis using False Inr h by (cases r1) (auto simp: Let_def)
      qed (use False in \<open>simp add: Let_def\<close>)
    qed (auto simp: Let_def)
  qed simp
  then show ?thesis by blast
qed

lemma hello_pack_ok:
  assumes "xid_ok nx"
  shows "\<exists>b nx'. out_pack nx (OHello ofp_hello_init) = Inr (b, nx') \<and> xid_ok nx'"
proof -
  have "\<exists>b nx'. out_pack nx (OHello ofp_hello_init) = Inr (b, nx')"
    using assms by (auto simp: ofp_hello_pack_def ofp_hello_init_def ofp_header_init_def ofp_header_pack_def assign_xid_def generateXID_def
        ofp_header_assert_def ofp_type_known_iff Let_def xid_ok_def msg_pack_def struct_pack.simps in_range_def)
  then show ?thesis using out_pack_xid assms by blast
qed

text \<open>
  C40: A hello whose length field is 0 hangs the connected switch.  When at least five bytes are buffered, of which the first four are a header of type
  \<open>OFPT_HELLO\<close> and length 0, the message is answered and never consumed, so \<open>read\<close> does not return, for any number of iterations.
\<close>

theorem zero_length_frame_hangs:
  assumes "sw_connected s" "xid_ok (sw_nextXID s)" "sw_receive_buf s = [1, 0, 0, 0] @ rest" "rest \<noteq> []"
  shows "read_loop n env s = None"
  using assms
proof (induction n arbitrary: env s)
  case (Suc n)
  obtain m where m: "unpack_msg 0 (sw_receive_buf s) = Inr (IHello m)"
    by (cases "length rest < 4") (auto simp: unpack_msg_def ofp_hello_unpack_def ofp_header_unpack_def Suc.prems(3) rmap_eq_Inr
        struct_unpack_from_def)
  obtain b nx' where p: "out_pack (sw_nextXID s) (OHello ofp_hello_init) = Inr (b, nx')" "xid_ok nx'"
    using hello_pack_ok [OF Suc.prems(2)] by blast
  let ?s = "s\<lparr>sw_send_buf := sw_send_buf s @ [b], sw_nextXID := nx'\<rparr>"
  have fr: "frame_len (sw_receive_buf s) = 0" by (simp add: frame_len_def Suc.prems(3))
  have h: "handle_msg (env 0) (IHello m) (s\<lparr>sw_receive_buf := drop (frame_len (sw_receive_buf s)) (sw_receive_buf s)\<rparr>) = (Inr (), ?s)"
    using p Suc.prems(1) by (simp add: fr receive_hello_def send_hello_def sw_send_def smod_def del: out_pack.simps)
  have "read_loop n (\<lambda>k. env (Suc k)) ?s = None" using Suc.IH [of ?s] Suc.prems p(2) by simp
  moreover have "4 < length (sw_receive_buf s)" "sw_receive_buf s ! 0 = 1" "sw_receive_buf s ! 1 = 0"
    using Suc.prems(3,4) by (auto simp: neq_Nil_conv)
  ultimately show ?case using m h fr by (simp add: Let_def)
qed simp

lemma byte_of_int:
  "0 \<le> t \<Longrightarrow> t < 256 \<Longrightarrow> uint (word_of_int t :: byte) = t"
  "0 \<le> t \<Longrightarrow> t < 256 \<Longrightarrow> unat (word_of_int t :: byte) = nat t"
proof -
  show u: "uint (word_of_int t :: byte) = t" if "0 \<le> t" "t < 256"
    using that by (simp add: uint_word_of_int)
  show "unat (word_of_int t :: byte) = nat t" if "0 \<le> t" "t < 256"
    using u [OF that] by (simp only: unat_eq_nat_uint)
qed

text \<open>Reading one complete frame.\<close>

lemma read_one_frame:
  assumes "4 < length b" "uint (b ! 0) = OFP_VERSION" "frame_len b = length b"
    and "sw_receive_buf s = b" "unpack_msg (uint (b ! 1)) b = Inr m"
    and "handle_msg (env 0) m (s\<lparr>sw_receive_buf := []\<rparr>) = (Inr (), s')" "sw_receive_buf s' = []"
  shows "read_loop (Suc (Suc n)) env s = Some (Inr RTrue, s')"
  using assms by (simp add: Let_def)

lemma header_bytes:
  assumes "0 \<le> t" "t < 256" "0 \<le> l" "l < 256" "struct_pack [FB, FB, FH, FL] [OFP_VERSION, t, l, x] = Inr b"
  shows "length b = 8 \<and> uint (b ! 0) = 1 \<and> uint (b ! 1) = t \<and> frame_len b = nat l"
  using assms
  by (auto simp: struct_pack.simps rbind_eq_Inr rmap_eq_Inr enc_def frame_len_def be_bytes_numeral byte_of_int split: if_split_asm)

text \<open>
  C37: a barrier request is answered, end to end in bytes.  When the bytes of a barrier request with identifier \<open>x\<close> are all the
  switch has received, reading returns \<open>True\<close>, consumes them, changes no table, buffer or port, and sends
  one message, which a receiver unpacks to a barrier reply with the same identifier.
\<close>

theorem barrier_answered:
  assumes "sw_connected s" "sw_receive_buf s = b"
    and "ofp_barrier_request_pack nx (ofp_barrier_request_init\<lparr>xid := Some x\<rparr>) = Inr (b, m', nx')"
  shows "\<exists>c. read_loop (Suc (Suc n)) env s =
      Some (Inr RTrue, s\<lparr>sw_receive_buf := [], sw_send_buf := sw_send_buf s @ [c]\<rparr>)
    \<and> ofp_barrier_reply_unpack y c = Inr (ofp_barrier_reply_init\<lparr>xid := Some x\<rparr>, [])"
proof -
  let ?q = "ofp_barrier_request_init\<lparr>xid := Some x\<rparr>" and ?r = "ofp_barrier_reply_init\<lparr>xid := Some x\<rparr>"
  have b: "struct_pack [FB, FB, FH, FL] [OFP_VERSION, 18, 8, x] = Inr b" and m': "m' = ?q" and x: "in_range FL x"
    using assms(3) by (auto simp: ofp_barrier_request_pack_def ofp_header_pack_def assign_xid_def ofp_barrier_request_init_def
        ofp_header_init_def rmap_eq_Inr struct_pack.simps split: if_split_asm)
  note hb = header_bytes [OF _ _ _ _ b, simplified]
  have u: "unpack_msg 18 b = Inr (IBarrier ?q)"
    using ofp_barrier_request_wire [OF assms(3), of _ "[]"] by (simp add: unpack_msg_def m')
  obtain c where c: "ofp_barrier_reply_pack k ?r = Inr (c, ?r, k)" for k
    using x by (auto simp: ofp_barrier_reply_pack_def ofp_header_pack_def assign_xid_def ofp_barrier_reply_init_def
        ofp_header_init_def ofp_header_assert_def ofp_type_known_iff struct_pack.simps in_range_def)
  have "handle_msg (env 0) (IBarrier ?q) (s\<lparr>sw_receive_buf := []\<rparr>) =
      (Inr (), s\<lparr>sw_receive_buf := [], sw_send_buf := sw_send_buf s @ [c]\<rparr>)"
    using assms(1) c [of "sw_nextXID s"] by (simp add: receive_barrier_request_def sw_send_def smod_def)
  then have "read_loop (Suc (Suc n)) env s = Some (Inr RTrue, s\<lparr>sw_receive_buf := [], sw_send_buf := sw_send_buf s @ [c]\<rparr>)"
    using hb u assms(2) by (intro read_one_frame [where b = b and m = "IBarrier ?q"]) auto
  then show ?thesis using ofp_barrier_reply_wire [OF c [of 0], of y "[]"] by auto
qed

section \<open>Frames\<close>

lemma first_free_update:
  assumes "buffer_packet p in_port s = (r, s1)"
  shows "\<exists>bid. r = Inr bid \<and> 0 < bid \<and> bid \<le> int (length (sw_buffer s)) + 1
    \<and> s1 = s\<lparr>sw_buffer := sw_buffer s1\<rparr> \<and> nat (bid - 1) < length (sw_buffer s1) \<and> sw_buffer s1 ! nat (bid - 1) = Some (p, in_port)"
proof (cases "first_free (sw_buffer s)")
  case None
  then show ?thesis using assms by (auto simp: buffer_packet_def sret_def nth_append)
next
  case (Some i)
  then show ?thesis using assms first_free_bound [OF Some] by (auto simp: buffer_packet_def sret_def)
qed

text \<open>
  C36: a frame that no entry matches goes to the controller.  The switch keeps it in the buffer and sends one packet-in that a
  receiver unpacks to the packed frame, the input port, the reason \<open>OFPR_NO_MATCH\<close> and
  the identifier under which the buffer holds the frame.
\<close>

theorem table_miss_packet_in:
  assumes "sw_connected s" "is_ethernet p" "entry_for_packet p in_port (sw_table s) = Inr None"
    and "packet_pack (env_subs env) None p = Inr (b, p')" "length b + 18 < 65536" "0 \<le> in_port" "in_port < 65536"
    and "xid_ok (sw_xid_count s)" "int (length (sw_buffer s)) < 0xfffffffe"
  shows "\<exists>s' c bid m. process_packet env p in_port s = (Inr (), s') \<and> sw_send_buf s' = sw_send_buf s @ [c]
    \<and> 0 < bid \<and> sw_buffer s' ! nat (bid - 1) = Some (length (sw_heap s), in_port) \<and> sw_heap s' = sw_heap s @ [p']
    \<and> ofp_packet_in_unpack y c = Inr (m, []) \<and> pi_data m = b \<and> pi_in_port m = in_port
    \<and> pi_buffer_id m = bid \<and> pi_reason m = 0 \<and> xid m = Some (sw_xid_count s)"
proof -
  let ?i = "length (sw_heap s)" and ?s0 = "s\<lparr>sw_heap := sw_heap s @ [p]\<rparr>"
  obtain r s1 where bp: "buffer_packet ?i in_port ?s0 = (r, s1)" by (cases "buffer_packet ?i in_port ?s0")
  obtain bid where bid: "r = Inr bid" "0 < bid" "bid \<le> int (length (sw_buffer s)) + 1"
    "s1 = ?s0\<lparr>sw_buffer := sw_buffer s1\<rparr>" "sw_buffer s1 ! nat (bid - 1) = Some (?i, in_port)"
    using first_free_update [OF bp] by auto
  let ?x = "sw_xid_count s"
  let ?m = "ofp_packet_in_init\<lparr>xid := Some ?x, pi_in_port := in_port, pi_buffer_id := bid, pi_reason := 0, pi_data := b\<rparr>"
  let ?m' = "?m\<lparr>msg_len := ofp_packet_in_len ?m, pi_total_len := ofp_packet_in_len ?m\<rparr>"
  have "bid AND 0xffffffff = bid" using bid(2,3) assms(9) by (simp add: and_mask32)
  then obtain c where c: "ofp_packet_in_pack k ?m = Inr (c, ?m', k)" for k
    using assms(5-8) bid(2,3) assms(9)
    by (auto simp: ofp_packet_in_pack_def msg_pack_def ofp_packet_in_init_def ofp_header_pack_def assign_xid_def
        ofp_header_assert_def ofp_type_known_iff Let_def ofp_packet_in_len_def struct_pack.simps in_range_def xid_ok_def)
  have w: "ofp_packet_in_unpack y (c @ []) = Inr (?m', [])"
    using ofp_packet_in_wire [OF c [of 0], of y "[]"] bid(2,3) assms(9) by (simp add: ofp_packet_in_init_def)
  have s1: "sw_heap s1 = sw_heap s @ [p]" "sw_xid_count s1 = ?x" "sw_connected s1" "sw_send_buf s1 = sw_send_buf s" "sw_nextXID s1 = sw_nextXID s"
    using arg_cong [OF bid(4), of sw_heap] arg_cong [OF bid(4), of sw_xid_count] arg_cong [OF bid(4), of sw_connected]
      arg_cong [OF bid(4), of sw_send_buf] arg_cong [OF bid(4), of sw_nextXID] assms(1) by simp_all
  let ?s2 = "s1\<lparr>sw_xid_count := snd (xid_next ?x)\<rparr>"
  let ?s' = "?s2\<lparr>sw_heap := sw_heap s @ [p'], sw_send_buf := sw_send_buf s @ [c]\<rparr>"
  have sp: "send_packet_in env in_port (Some bid) ?i (Some ?x) (Some 0) ?s2 = (Inr (), ?s')"
    using assms(2,4) c s1 by (simp add: send_packet_in_def assert_ethernet_def pack_packet_def get_packet_def set_packet_def
        sw_send_def smod_def sthen_def sbind_def sget_def sret_def slift_def)
  have "process_packet env p in_port s = (Inr (), ?s')"
    using assms(2,3) bp bid(1) s1(2) sp
    by (simp add: process_packet_def new_packet_def sthen_def sbind_def sget_def sret_def slift_def smod_def next_xid_def xid_next_def)
  then show ?thesis using bid(2,5) w
    by (intro exI [of _ ?s'] exI [of _ c] exI [of _ bid] exI [of _ ?m']) simp
qed

text \<open>
  rewriting a network address has no effect: \<open>set_nw_src\<close> and \<open>set_nw_dst\<close> actions leave every packet, and
  the rest of the switch, as they were.
\<close>

theorem set_nw_addr_no_effect:
  assumes "nwa_type a = Some OFPAT_SET_NW_SRC \<or> nwa_type a = Some OFPAT_SET_NW_DST"
  shows "do_action env (ActNwAddr a) i in_port s = (Inr (), s)"
  using assms by (auto simp: do_action_def act_nw_addr_def attr_nw_addr_def get_packet_def sret_def split: packet.split)

text \<open>
  a \<open>set_vlan_vid\<close> action on an untagged frame raises, and it leaves the frame with an empty tag in the
  place of its payload.
\<close>

theorem set_vlan_vid_destroys_frame:
  assumes "i < length (sw_heap s)" "sw_heap s ! i = Ethernet h n" "\<nexists>v k. n = Vlan v k" "vid_type a = OFPAT_SET_VLAN_VID"
  shows "do_action env (ActVlanVid a) i in_port s =
    (Inl AttributeError, s\<lparr>sw_heap := (sw_heap s)[i := Ethernet (h\<lparr>eth_type := 0x8100\<rparr>)
       (Vlan (vlan_init\<lparr>vlan_eth_type := eth_type h\<rparr>) NoNext)]\<rparr>)"
  using assms by (cases n)
    (auto simp: do_action_def set_vlan_id_def upd_packet_def get_packet_def set_packet_def ensure_vlan_def eth_upd_def
      eth_next_def eth_type_of_def sthen_def sbind_def sget_def smod_def sraise_def)

section \<open>Witnesses\<close>

text \<open>A switch with two ports, its surroundings, and an empty frame.\<close>

definition demo_switch :: switch where
  "demo_switch = SwitchImpl_init 1 [ofp_phy_port_init\<lparr>pp_port_no := 1\<rparr>, ofp_phy_port_init\<lparr>pp_port_no := 2\<rparr>] 128 100 1 1"

definition demo_env :: swenv where
  "demo_env = \<lparr>env_subs = \<lparr>sub_new = \<lambda>_ _. Inr False, sub_pack = \<lambda>_ b. Inr b, sub_str = \<lambda>_ _ _. Inr ()\<rparr>, env_iid = 0, env_rnd = 0, env_now = 0\<rparr>"

definition demo_frame :: packet where
  "demo_frame = Ethernet ethernet_init (Bytes [])"

lemma demo_reach: "sw_reach demo_switch"
  unfolding demo_switch_def by (rule sw_reach.init) (simp add: xid_ok_def)

lemma demo_connected: "sw_reach (set_connection demo_switch)"
  by (rule sw_reach.step [OF demo_reach sw_step.connect])

lemma demo_fields:
  "sw_ports demo_switch = [(1, ofp_phy_port_init\<lparr>pp_port_no := 1\<rparr>), (2, ofp_phy_port_init\<lparr>pp_port_no := 2\<rparr>)]"
  "sw_buffer demo_switch = []" "sw_heap demo_switch = []" "sw_table demo_switch = FlowTable_init"
  "sw_xid_count demo_switch = 1" "sw_nextXID demo_switch = 1" "sw_send_buf demo_switch = []" "sw_events demo_switch = []"
  "\<not> sw_connected demo_switch"
  by (simp_all add: demo_switch_def SwitchImpl_init_def xid_generator_def)

lemma demo_pack: "\<exists>b. packet_pack sb None demo_frame = Inr (b, demo_frame) \<and> length b = 14"
  by (simp add: demo_frame_def with_hdr_def ethernet_hdr_def ethernet_init_def ETHER_ANY_def pack_6s_def pack_eval eth_toRaw_def length_ljust0)

lemma demo_miss: "entry_for_packet demo_frame 1 FlowTable_init = Inr None"
  using from_packet_raw [of ethernet_init "[]" 1] by (simp add: entry_for_packet_def demo_frame_def FlowTable_init_def)

theorem switch_reachable_ok_witness:
  "sw_reach demo_switch \<and> distinct (map fst (sw_ports demo_switch)) \<and> xid_ok (sw_xid_count demo_switch)"
  using switch_reachable_ok [OF demo_reach] demo_reach by blast

theorem table_miss_packet_in_witness:
  "\<exists>s' c m. process_packet demo_env demo_frame 1 (set_connection demo_switch) = (Inr (), s')
     \<and> sw_send_buf s' = [c] \<and> ofp_packet_in_unpack ofp_packet_in_init c = Inr (m, []) \<and> pi_in_port m = 1"
proof -
  obtain b where b: "packet_pack (env_subs demo_env) None demo_frame = Inr (b, demo_frame)" "length b = 14" using demo_pack by blast
  have s: "sw_connected (set_connection demo_switch)" "is_ethernet demo_frame"
    "entry_for_packet demo_frame 1 (sw_table (set_connection demo_switch)) = Inr None"
    "xid_ok (sw_xid_count (set_connection demo_switch))" "int (length (sw_buffer (set_connection demo_switch))) < 0xfffffffe"
    "sw_send_buf (set_connection demo_switch) = []"
    using demo_miss by (simp_all add: set_connection_def demo_frame_def is_ethernet_def demo_fields xid_ok_def)
  show ?thesis
    using table_miss_packet_in [OF s(1-3) b(1) _ _ _ s(4,5), of ofp_packet_in_init] b(2) s(6) by auto
qed

text \<open>A switch that holds a frame.\<close>

lemma demo_holding:
  "\<exists>s. sw_reach s \<and> sw_heap s ! 0 = demo_frame \<and> length (sw_heap s) = 1 \<and> sw_ports s = sw_ports demo_switch \<and> sw_events s = []"
proof -
  obtain b where b: "packet_pack (env_subs demo_env) None demo_frame = Inr (b, demo_frame)" using demo_pack by blast
  have e: "is_ethernet demo_frame" by (simp add: demo_frame_def is_ethernet_def)
  obtain s' where "process_packet demo_env demo_frame 1 demo_switch = (Inr (), s')" "sw_heap s' = [demo_frame]"
    "sw_ports s' = sw_ports demo_switch" "sw_events s' = []"
    using b e demo_miss
    by (simp add: process_packet_def new_packet_def buffer_packet_def next_xid_def send_packet_in_def assert_ethernet_def
        pack_packet_def get_packet_def set_packet_def sw_send_def demo_fields sthen_def sbind_def sget_def sret_def slift_def smod_def)
  then show ?thesis using sw_reach.step [OF demo_reach sw_step.frame] by (metis One_nat_def length_Cons list.size(3) nth_Cons_0)
qed

theorem flood_all_but_in_port_witness:
  "\<exists>s. sw_reach s \<and> output_packet demo_env 0 (Some OFPP_FLOOD) 1 s =
     (Inr (), s\<lparr>sw_events := [(demo_frame, ofp_phy_port_init\<lparr>pp_port_no := 2\<rparr>)]\<rparr>)"
proof -
  obtain s where s: "sw_reach s" "sw_heap s ! 0 = demo_frame" "sw_ports s = sw_ports demo_switch" "sw_events s = []"
    using demo_holding by blast
  have "is_ethernet (sw_heap s ! 0)" by (simp add: s(2) demo_frame_def is_ethernet_def)
  then show ?thesis using flood_all_but_in_port [OF s(1), of 0 OFPP_FLOOD demo_env 1] s by (auto simp: demo_fields)
qed

theorem set_vlan_vid_destroys_frame_witness:
  "\<exists>s s'. sw_reach s \<and> do_action demo_env (ActVlanVid ofp_action_vlan_vid_init) 0 1 s = (Inl AttributeError, s')
     \<and> next_of (sw_heap s ! 0) = Bytes [] \<and> next_of (sw_heap s' ! 0) = Vlan vlan_init NoNext"
proof -
  obtain s where s: "sw_reach s" "sw_heap s ! 0 = Ethernet ethernet_init (Bytes [])" "length (sw_heap s) = 1"
    using demo_holding by (auto simp: demo_frame_def)
  have v: "vlan_init\<lparr>vlan_eth_type := eth_type ethernet_init\<rparr> = vlan_init" by (simp add: vlan_init_def ethernet_init_def)
  have "do_action demo_env (ActVlanVid ofp_action_vlan_vid_init) 0 1 s =
    (Inl AttributeError, s\<lparr>sw_heap := (sw_heap s)[0 := Ethernet (ethernet_init\<lparr>eth_type := 0x8100\<rparr>)
       (Vlan (vlan_init\<lparr>vlan_eth_type := eth_type ethernet_init\<rparr>) NoNext)]\<rparr>)"
    using s by (intro set_vlan_vid_destroys_frame) (auto simp: ofp_action_vlan_vid_init_def)
  moreover have "next_of (sw_heap s ! 0) = Bytes []" by (simp add: s(2))
  ultimately show ?thesis using s(1,3) v by (intro exI conjI) (assumption | simp)+
qed

theorem set_nw_addr_no_effect_witness:
  "do_action demo_env (ActNwAddr \<lparr>nwa_type = Some 6, nwa_length = 8, nwa_nw_addr = IP_ANY\<rparr>) 0 1 demo_switch = (Inr (), demo_switch)"
  by (rule set_nw_addr_no_effect) simp

theorem buffer_retrieves_packet_witness:
  "\<exists>s1. buffer_packet 0 3 demo_switch = (Inr 1, s1)
     \<and> process_actions_from_buffer demo_env [] 1 s1 = (Inr (), s1\<lparr>sw_buffer := [None]\<rparr>)"
proof -
  let ?s1 = "demo_switch\<lparr>sw_buffer := [Some (0, 3)]\<rparr>"
  have b: "buffer_packet 0 3 demo_switch = (Inr 1, ?s1)" by (simp add: buffer_packet_def demo_fields sret_def)
  show ?thesis
    using buffer_retrieves_packet [OF b, of demo_env "[]"] b by (auto simp: process_actions_def smod_def)
qed

theorem read_terminates_witness:
  "\<exists>r s'. read_loop 9 (\<lambda>_. demo_env) (demo_switch\<lparr>sw_receive_buf := [1, 3, 0, 8, 0, 0, 0, 5]\<rparr>) = Some (r, s')"
proof -
  have "well_framed [1, 3, 0, 8, 0, 0, 0, 5]" by (simp add: well_framed.simps frame_len_def)
  then show ?thesis
    using read_terminates [of "demo_switch\<lparr>sw_receive_buf := [1, 3, 0, 8, 0, 0, 0, 5]\<rparr>" "\<lambda>_. demo_env"]
    by (simp del: read_loop.simps add: eval_nat_numeral)
qed

theorem zero_length_frame_hangs_witness:
  "read_loop 1000 (\<lambda>_. demo_env) ((set_connection demo_switch)\<lparr>sw_receive_buf := [1, 0, 0, 0, 0, 0, 0, 5]\<rparr>) = None"
  by (rule zero_length_frame_hangs [where rest = "[0, 0, 0, 5]"]) (simp_all add: set_connection_def demo_fields xid_ok_def)

theorem barrier_answered_witness:
  "\<exists>c. sw_send_buf (snd (the (read_loop 2 (\<lambda>_. demo_env) ((set_connection demo_switch)\<lparr>sw_receive_buf := [1, 18, 0, 8, 0, 0, 0, 5]\<rparr>)))) = [c]
     \<and> ofp_barrier_reply_unpack ofp_barrier_reply_init c = Inr (ofp_barrier_reply_init\<lparr>xid := Some 5\<rparr>, [])"
proof -
  let ?s = "(set_connection demo_switch)\<lparr>sw_receive_buf := [1, 18, 0, 8, 0, 0, 0, 5]\<rparr>"
  have b: "ofp_barrier_request_pack 0 (ofp_barrier_request_init\<lparr>xid := Some 5\<rparr>) =
      Inr ([1, 18, 0, 8, 0, 0, 0, 5], ofp_barrier_request_init\<lparr>xid := Some 5\<rparr>, 0)"
    by (simp add: ofp_barrier_request_pack_def ofp_header_pack_def assign_xid_def ofp_barrier_request_init_def
        ofp_header_init_def ofp_header_assert_def ofp_type_known_iff pack_eval)
  have s: "sw_connected ?s" "sw_receive_buf ?s = [1, 18, 0, 8, 0, 0, 0, 5]" "sw_send_buf ?s = []"
    by (simp_all add: set_connection_def)
  show ?thesis using barrier_answered [OF s(1,2) b, of 0 "\<lambda>_. demo_env" ofp_barrier_reply_init] s(3)
    by (auto simp: numeral_2_eq_2 simp del: read_loop.simps)
qed

end
