(* ===== verification/Packet_Out_Laws.thy ===== *)
theory Packet_Out_Laws
  imports Switch_Laws
begin

text \<open>
  Packet-out messages from the controller to the switch: what an application packs, and what the software switch does with the bytes.
\<close>

section \<open>Packing\<close>

definition output_msg :: "bytes \<Rightarrow> int \<Rightarrow> ofp_packet_out" where
  "output_msg pkt port = ofp_packet_out_init\<lparr>po_actions := [ActOutput (ofp_action_output_init\<lparr>out_port := Some port\<rparr>)],
       po_buffer_id := - 1, po_in_port := OFPP_NONE, po_data := pkt\<rparr>"

lemma output_action_pack:
  assumes "0 \<le> port" "port < 65536"
  shows "\<exists>ab. pack_list pack_action [ActOutput (ofp_action_output_init\<lparr>out_port := Some port\<rparr>)] = Inr ab \<and> length ab = 8"
  using assms
  by (simp add: ofp_action_output_pack_def ofp_action_output_after_pack_def ofp_action_output_init_def struct_pack.simps
      in_range_def add_packed_def)

text \<open>A packet-out with a fresh identifier: its bytes and the frame the connection sees\<close>

lemma packet_out_packs:
  assumes "xid m = None" "version m = OFP_VERSION" "header_type m = OFPT_PACKET_OUT" "pack_list pack_action (po_actions m) = Inr ab"
    and "po_buffer_id m = - 1 \<or> po_data m = []" "0 \<le> po_in_port m" "po_in_port m < 65536"
    and "length ab + length (po_data m) < 65520" "xid_ok nx"
  shows "\<exists>b m'. ofp_packet_out_pack True nx m = Inr (b, m', snd (generateXID nx))
    \<and> 4 < length b \<and> uint (b ! 0) = OFP_VERSION \<and> uint (b ! 1) = 13 \<and> frame_len b = length b
    \<and> m' = m\<lparr>msg_len := 16 + int (length ab) + int (length (po_data m)), xid := Some nx,
              po_actions := map action_after_pack (po_actions m)\<rparr>"
proof -
  let ?l = "16 + int (length ab) + int (length (po_data m))"
  let ?h = "enc FB 1 @ enc FB 13 @ enc FH ?l @ enc FL nx"
  let ?p = "enc FL (po_buffer_id m AND 0xffffffff) @ enc FH (po_in_port m) @ enc FH (int (length ab))"
  let ?b = "?h @ ?p @ ab @ po_data m"
  have r: "in_range FL nx" "in_range FH ?l" "in_range FH (int (length ab))" "in_range FH (po_in_port m)"
    "in_range FB 1" "in_range FB 13" using assms by (simp_all add: xid_ok_def in_range_def)
  have "po_buffer_id m AND 0xffffffff = take_bit 32 (po_buffer_id m)"
    by (simp add: take_bit_eq_mask mask_eq_exp_minus_1)
  then have "in_range FL (po_buffer_id m AND 0xffffffff)"
    by (simp add: in_range_def take_bit_eq_mod)
  moreover have "ofp_header_pack nx (m\<lparr>msg_len := ?l\<rparr>) = Inr (?h, m\<lparr>msg_len := ?l, xid := Some nx\<rparr>, snd (generateXID nx))"
    using assms r by (simp add: ofp_header_pack_def assign_xid_def generateXID_def Let_def ofp_header_assert_def
        ofp_type_known_iff struct_pack.simps)
  ultimately have "ofp_packet_out_pack True nx m = Inr (?b, m\<lparr>msg_len := ?l, xid := Some nx,
      po_actions := map action_after_pack (po_actions m)\<rparr>, snd (generateXID nx))"
    using assms r by (auto simp: ofp_packet_out_pack_def msg_pack_def struct_pack.simps)
  moreover have "unat (word_of_nat (nat ?l div 256) :: byte) = nat ?l div 256"
    using assms(8) by (simp add: unat_of_nat)
  then have "uint (?b ! 0) = 1" "uint (?b ! 1) = 13" "frame_len ?b = nat ?l"
    using assms(8) by (simp_all add: enc_def be_bytes_numeral frame_len_def byte_of_int)
  moreover have "length ?b = nat ?l" by simp
  ultimately show ?thesis by (intro exI [of _ ?b]) simp
qed

lemma output_msg_wf: "list_all action_wf (po_actions (output_msg pkt port))"
  by (simp add: output_msg_def ofp_action_output_init_def)

definition output_done :: "int \<Rightarrow> ofp_action" where
  "output_done port = action_after_pack (ActOutput (ofp_action_output_init\<lparr>out_port := Some port\<rparr>))"

text \<open>A frame for a port: the bytes, and the message the switch reads in them\<close>

lemma output_msg_packs:
  assumes "0 \<le> port" "port < 65536" "length pkt < 65512" "xid_ok nx"
  shows "\<exists>b m m'. ofp_packet_out_pack True nx (output_msg pkt port) = Inr (b, m', snd (generateXID nx))
    \<and> 4 < length b \<and> uint (b ! 0) = OFP_VERSION \<and> uint (b ! 1) = 13 \<and> frame_len b = length b
    \<and> ofp_packet_out_unpack y (b @ rest) = Inr (m, rest)
    \<and> po_actions m = [output_done port] \<and> po_data m = pkt \<and> po_buffer_id m = - 1 \<and> po_in_port m = OFPP_NONE"
proof -
  let ?m = "output_msg pkt port"
  obtain ab where ab: "pack_list pack_action (po_actions ?m) = Inr ab" "length ab = 8"
    using output_action_pack [OF assms(1,2)] by (auto simp: output_msg_def)
  have f: "xid ?m = None" "version ?m = OFP_VERSION" "header_type ?m = OFPT_PACKET_OUT" "po_buffer_id ?m = - 1"
    "po_in_port ?m = OFPP_NONE" "po_data ?m = pkt"
    by (simp_all add: output_msg_def ofp_packet_out_init_def)
  obtain b m' where p: "ofp_packet_out_pack True (nx) ?m = Inr (b, m', snd (generateXID (nx)))"
    and b: "4 < length b" "uint (b ! 0) = OFP_VERSION" "uint (b ! 1) = 13" "frame_len b = length b"
    and m': "m' = ?m\<lparr>msg_len := 16 + int (length ab) + int (length (po_data ?m)), xid := Some (nx),
              po_actions := map action_after_pack (po_actions ?m)\<rparr>"
    using packet_out_packs [OF f(1-3) ab(1), of "nx"] f assms(3,4) ab(2) by auto
  have u: "ofp_packet_out_unpack y (b @ rest) = Inr (m'\<lparr>po_actions := map action_norm (po_actions ?m)\<rparr>, rest)"
    using ofp_packet_out_wire [OF p output_msg_wf, of y rest] f by simp
  let ?r = "m'\<lparr>po_actions := map action_norm (po_actions ?m)\<rparr>"
  have r: "po_actions ?r = [output_done port]" "po_data ?r = pkt" "po_buffer_id ?r = - 1" "po_in_port ?r = OFPP_NONE"
    using f by (simp_all add: m') (simp add: output_done_def output_msg_def)
  show ?thesis using p b u r by blast
qed

text \<open>Any packet-out with a fresh identifier: the message the switch reads in its bytes\<close>

lemma packet_out_reads:
  assumes "xid m = None" "version m = OFP_VERSION" "header_type m = OFPT_PACKET_OUT" "pack_list pack_action (po_actions m) = Inr ab"
    and "list_all action_wf (po_actions m)" "po_buffer_id m = - 1 \<or> po_data m = []" "- 1 \<le> po_buffer_id m" "po_buffer_id m < 0xffffffff"
    and "0 \<le> po_in_port m" "po_in_port m < 65536" "length ab + length (po_data m) < 65520" "xid_ok nx"
  shows "\<exists>b m' m1. ofp_packet_out_pack True nx m = Inr (b, m', snd (generateXID nx))
    \<and> 4 < length b \<and> uint (b ! 0) = OFP_VERSION \<and> uint (b ! 1) = 13 \<and> frame_len b = length b
    \<and> (\<forall>y rest. ofp_packet_out_unpack y (b @ rest) = Inr (m1, rest)) \<and> po_actions m1 = map action_norm (po_actions m)
    \<and> po_data m1 = po_data m \<and> po_buffer_id m1 = po_buffer_id m \<and> po_in_port m1 = po_in_port m"
proof -
  obtain b m' where p: "ofp_packet_out_pack True nx m = Inr (b, m', snd (generateXID nx))"
    and b: "4 < length b" "uint (b ! 0) = OFP_VERSION" "uint (b ! 1) = 13" "frame_len b = length b"
    and m': "m' = m\<lparr>msg_len := 16 + int (length ab) + int (length (po_data m)), xid := Some nx,
              po_actions := map action_after_pack (po_actions m)\<rparr>"
    using packet_out_packs [OF assms(1-4,6,9-12)] by blast
  let ?r = "m'\<lparr>po_actions := map action_norm (po_actions m)\<rparr>"
  have "\<forall>y rest. ofp_packet_out_unpack y (b @ rest) = Inr (?r, rest)" using ofp_packet_out_wire [OF p assms(5,7,8)] by blast
  moreover have "po_actions ?r = map action_norm (po_actions m)" "po_data ?r = po_data m" "po_buffer_id ?r = po_buffer_id m" "po_in_port ?r = po_in_port m"
    by (simp_all add: m')
  ultimately show ?thesis using p b by blast
qed

section \<open>The switch\<close>

text \<open>The switch outputs the frame of such a packet-out, to a port or back to the port the message names.\<close>

lemma switch_outputs_to:
  assumes "4 < length b" "uint (b ! 0) = OFP_VERSION" "uint (b ! 1) = 13" "frame_len b = length b"
    and "ofp_packet_out_unpack ofp_packet_out_init (b @ []) = Inr (m, [])" "po_actions m = [output_done port]"
    and "po_data m = pkt" "pkt \<noteq> []"
    and "ethernet_new (env_subs (env 0)) (env_iid (env 0)) (env_rnd (env 0)) pkt = Inr p" "is_ethernet p"
    and "sw_receive_buf t = []" "port < OFPP_MAX \<and> no = port \<or> port = OFPP_IN_PORT \<and> no = po_in_port m" "map_of (sw_ports t) no = Some pp"
  shows "push_receive_data (Suc (Suc n)) env b t =
    Some (Inr RTrue, t\<lparr>sw_heap := sw_heap t @ [p], sw_events := sw_events t @ [(p, pp)]\<rparr>)"
proof -
  let ?t = "t\<lparr>sw_receive_buf := b\<rparr>"
  have u: "unpack_msg (uint (b ! 1)) b = Inr (IPacketOut m)"
    using assms(3,5) by (simp add: unpack_msg_def)
  have "do_action (env 0) (output_done port) (length (sw_heap t)) (po_in_port m) (t\<lparr>sw_receive_buf := [], sw_heap := sw_heap t @ [p]\<rparr>)
      = (Inr (), t\<lparr>sw_receive_buf := [], sw_heap := sw_heap t @ [p], sw_events := sw_events t @ [(p, pp)]\<rparr>)"
    using assms(10,12,13)
    by (auto simp: do_action_def output_done_def ofp_action_output_after_pack_def ofp_action_output_init_def attr_port_def
        output_packet_def assert_ethernet_def get_packet_def real_send_def sm_simps)
  then have "handle_msg (env 0) (IPacketOut m) (?t\<lparr>sw_receive_buf := []\<rparr>) =
      (Inr (), t\<lparr>sw_receive_buf := [], sw_heap := sw_heap t @ [p], sw_events := sw_events t @ [(p, pp)]\<rparr>)"
    using assms(6-9)
    by (simp add: receive_packet_out_def process_actions_bytes_def new_packet_def process_actions_def sthen_def sbind_def
        smod_def sget_def sret_def slift_def)
  then have "read_loop (Suc (Suc n)) env ?t = Some (Inr RTrue, t\<lparr>sw_receive_buf := [], sw_heap := sw_heap t @ [p],
      sw_events := sw_events t @ [(p, pp)]\<rparr>)"
    using assms(1-4) u by (intro read_one_frame [where b = b and m = "IPacketOut m"]) auto
  moreover have "t\<lparr>sw_receive_buf := []\<rparr> = t" using assms(11) by simp
  ultimately show ?thesis using assms(11) unfolding push_receive_data_def by simp
qed

lemma switch_outputs:
  assumes "4 < length b" "uint (b ! 0) = OFP_VERSION" "uint (b ! 1) = 13" "frame_len b = length b"
    and "ofp_packet_out_unpack ofp_packet_out_init (b @ []) = Inr (m, [])" "po_actions m = [output_done port]"
    and "po_data m = pkt" "pkt \<noteq> []"
    and "ethernet_new (env_subs (env 0)) (env_iid (env 0)) (env_rnd (env 0)) pkt = Inr p" "is_ethernet p"
    and "sw_receive_buf t = []" "port < OFPP_MAX" "map_of (sw_ports t) port = Some pp"
  shows "push_receive_data (Suc (Suc n)) env b t =
    Some (Inr RTrue, t\<lparr>sw_heap := sw_heap t @ [p], sw_events := sw_events t @ [(p, pp)]\<rparr>)"
  by (rule switch_outputs_to [where no = port and env = env and b = b, OF assms(1-11) _ assms(13)]) (use assms(12) in simp)

text \<open>A packet-out without actions that names a buffer: the switch forgets the frame it holds there.\<close>

lemma switch_releases:
  assumes "4 < length b" "uint (b ! 0) = OFP_VERSION" "uint (b ! 1) = 13" "frame_len b = length b"
    and "ofp_packet_out_unpack ofp_packet_out_init b = Inr (m, [])" "po_actions m = []" "po_data m = []" "po_buffer_id m = int k + 1"
    and "sw_receive_buf t = []" "k < length (sw_buffer t)"
  shows "push_receive_data 2 env b t = Some (Inr RTrue, t\<lparr>sw_buffer := (sw_buffer t)[k := None]\<rparr>)"
proof -
  have u: "unpack_msg (uint (b ! 1)) b = Inr (IPacketOut m)" using assms(3,5) by (simp add: unpack_msg_def)
  have t: "(t\<lparr>sw_receive_buf := b\<rparr>)\<lparr>sw_receive_buf := []\<rparr> = t" using assms(9) by (cases t) simp
  have "handle_msg (env 0) (IPacketOut m) t = (Inr (), t\<lparr>sw_buffer := (sw_buffer t)[k := None]\<rparr>)"
  proof (cases "sw_buffer t ! k")
    case None
    then have "(sw_buffer t)[k := None] = sw_buffer t" by (metis list_update_id)
    then show ?thesis using None assms(6-8,10)
      by (simp add: receive_packet_out_def process_actions_from_buffer_def Let_def sret_def)
  next
    case (Some x)
    then show ?thesis using assms(6-8,10)
      by (cases x) (simp add: receive_packet_out_def process_actions_from_buffer_def Let_def process_actions_def sm_simps)
  qed
  then have h: "handle_msg (env 0) (IPacketOut m) ((t\<lparr>sw_receive_buf := b\<rparr>)\<lparr>sw_receive_buf := []\<rparr>) = (Inr (), t\<lparr>sw_buffer := (sw_buffer t)[k := None]\<rparr>)"
    by (simp only: t)
  have "read_loop (Suc (Suc 0)) env (t\<lparr>sw_receive_buf := b\<rparr>) = Some (Inr RTrue, t\<lparr>sw_buffer := (sw_buffer t)[k := None]\<rparr>)"
    by (rule read_one_frame [where env = env, OF _ _ _ _ u h]) (use assms(1-4,9) in simp_all)
  then show ?thesis using assms(9) unfolding push_receive_data_def numeral_2_eq_2 by simp
qed

end
