(* ===== verification/Bridge_Laws.thy ===== *)
theory Bridge_Laws
  imports Vns_Bridge Packet_Out_Laws
begin

text \<open>
  What the bridge between the switch and the virtual router does: frames reach the other side unchanged, in both
  directions, however the network cuts the bytes; the session of a client; the invariant of all reachable states;
  the requests of a client that raise.
\<close>


section \<open>Sending\<close>

definition release_msg :: "int \<Rightarrow> int \<Rightarrow> ofp_packet_out" where
  "release_msg bid port = ofp_packet_out_init\<lparr>po_buffer_id := bid, po_in_port := port\<rparr>"

section \<open>The handlers do not touch the receive buffers\<close>

lemma commutes_transport_write [commutes_intros]: "commutes (put_conn i c) (transport_write j b)"
  unfolding transport_write_def by (rule commutes_smod) (simp add: put_conn_def)

lemma commutes_vns_send [commutes_intros]: "commutes (put_conn i c) (vns_send j m)"
  unfolding vns_send_def conn_send_def by (intro commutes_intros)

lemma commutes_loseConnection [commutes_intros]: "commutes (put_conn i c) (loseConnection j)"
  unfolding loseConnection_def by (rule commutes_smod) (simp add: put_conn_def)

lemma commutes_bridge_get [commutes_intros]:
  "commutes (put_conn i c) (sget br_interfaces)" "commutes (put_conn i c) (sget br_of_conns)"
  "commutes (put_conn i c) (sget br_nextXID)" "commutes (put_conn i c) (sget (\<lambda>s. map_of (br_intfname_to_port s) k))"
  by (rule commutes_sget, simp add: put_conn_def)+

lemma commutes_packet_out [commutes_intros]: "commutes (put_conn i c) (send_packet_out j m)"
  unfolding send_packet_out_def of_send_def
  by (intro commutes_intros commutes_smod) (simp_all add: put_conn_def)

lemma commutes_open [commutes_intros]: "commutes (put_conn i c) (handle_open_msg j)"
proof -
  let ?m = "sbind (sget br_interfaces) (\<lambda>is. case is of None \<Rightarrow> sraise AttributeError
    | Some interfaces \<Rightarrow> vns_send j (VNSHardwareInfo interfaces))"
  have "commutes (put_conn i c) ?m" by (intro commutes_intros)
  then show ?thesis unfolding handle_open_msg_def commutes_def by (auto split: prod.splits sum.splits)
qed

lemma commutes_recv_msg: "commutes (put_conn i c) (handle_recv_msg peer j m)"
  unfolding handle_recv_msg_def handle_close_msg_def conn_send_def handle_auth_reply_def handle_packet_msg_def
    handle_SRPacketOut_def
  by (auto split: option.splits vns_msg.splits intro!: commutes_intros)

section \<open>From the router to the wire\<close>

lemma SRPacketOut_sends:
  assumes "0 \<le> port" "port < 65536" "length pkt < 65512" "xid_ok (br_nextXID s)"
  shows "\<exists>b m. handle_SRPacketOut pkt port j s = (Inr (), s\<lparr>br_of_sent := br_of_sent s @ [(j, b)],
        br_nextXID := snd (generateXID (br_nextXID s))\<rparr>)
    \<and> 4 < length b \<and> uint (b ! 0) = OFP_VERSION \<and> uint (b ! 1) = 13 \<and> frame_len b = length b
    \<and> ofp_packet_out_unpack y (b @ rest) = Inr (m, rest)
    \<and> po_actions m = [output_done port] \<and> po_data m = pkt \<and> po_buffer_id m = - 1 \<and> po_in_port m = OFPP_NONE"
proof -
  obtain b m m' where p: "ofp_packet_out_pack True (br_nextXID s) (output_msg pkt port) = Inr (b, m', snd (generateXID (br_nextXID s)))"
    and b: "4 < length b" "uint (b ! 0) = OFP_VERSION" "uint (b ! 1) = 13" "frame_len b = length b"
      "ofp_packet_out_unpack y (b @ rest) = Inr (m, rest)"
      "po_actions m = [output_done port]" "po_data m = pkt" "po_buffer_id m = - 1" "po_in_port m = OFPP_NONE"
    using output_msg_packs [OF assms, of y rest] by blast
  have "handle_SRPacketOut pkt port j s = (Inr (), s\<lparr>br_of_sent := br_of_sent s @ [(j, b)],
        br_nextXID := snd (generateXID (br_nextXID s))\<rparr>)"
    using p unfolding output_msg_def handle_SRPacketOut_def send_packet_out_def of_send_def by (simp add: smod_def)
  then show ?thesis using b by blast
qed

lemma single_frame_chunks:
  assumes "vns_wf m" and "pack_with_header VNS_PROTOCOL (get_type m) (vns_pack m) = Inr f" and "concat ds = f" and "ds \<noteq> []"
    and "lt_packet (lts_conns s i) = []" and "lt_plen (lts_conns s i) = 0"
    and "handle_recv_msg peer i (Some m) s = (Inr (), s')"
  shows "sfor (server_receive VNS_PROTOCOL (handle_recv_msg peer) i) ds s = (Inr (), put_conn i (lts_conns s i) s')"
proof (rule server_receive_chunks [OF commutes_recv_msg])
  show "receive_chunks VNS_PROTOCOL (handle_recv_msg peer i) ds (lts_conns s i) s = (Inr (), lts_conns s i, s')"
    by (rule vns.deliver_chunks [of "[m]" "[f]"]) (use assms in \<open>auto simp: sthen_def sbind_def sret_def\<close>)
qed

text \<open>
  C31: A frame the router sends out of an interface leaves the switch at the port of that interface.  However the network
  cuts the bytes of the client's message, the bridge sends one packet-out to the switch; when the software switch receives
  its bytes, it parses the frame and outputs it once, at that port.
\<close>

theorem router_frame_reaches_port:
  assumes "fits 16 intf" and "pack_with_header VNS_PROTOCOL 4 (vns_pack (VNSPacket intf frame)) = Inr f"
    and "concat ds = f" and "ds \<noteq> []" and "lt_packet (lts_conns s i) = []" and "lt_plen (lts_conns s i) = 0"
    and "map_of (br_intfname_to_port s) intf = Some port" and "br_of_conns s = [j]" and "xid_ok (br_nextXID s)"
    and "0 \<le> port" and "port < OFPP_MAX" and "frame \<noteq> []" and "length frame < 65512"
    and "ethernet_new (env_subs (env 0)) (env_iid (env 0)) (env_rnd (env 0)) frame = Inr p" and "is_ethernet p"
    and "sw_receive_buf t = []" and "map_of (sw_ports t) port = Some pp"
  shows "\<exists>s' b. sfor (server_receive VNS_PROTOCOL (handle_recv_msg peer) i) ds s = (Inr (), s')
    \<and> br_of_sent s' = br_of_sent s @ [(j, b)] \<and> lts_written s' = lts_written s
    \<and> push_receive_data 2 env b t = Some (Inr RTrue, t\<lparr>sw_heap := sw_heap t @ [p], sw_events := sw_events t @ [(p, pp)]\<rparr>)"
proof -
  obtain b m where h: "handle_SRPacketOut frame port j s = (Inr (), s\<lparr>br_of_sent := br_of_sent s @ [(j, b)],
        br_nextXID := snd (generateXID (br_nextXID s))\<rparr>)"
    and b: "4 < length b" "uint (b ! 0) = OFP_VERSION" "uint (b ! 1) = 13" "frame_len b = length b"
      "ofp_packet_out_unpack ofp_packet_out_init (b @ []) = Inr (m, [])" "po_actions m = [output_done port]" "po_data m = frame"
    using SRPacketOut_sends [of port frame s j ofp_packet_out_init "[]"] assms(9-11,13) by auto
  let ?s = "s\<lparr>br_of_sent := br_of_sent s @ [(j, b)], br_nextXID := snd (generateXID (br_nextXID s))\<rparr>"
  have "handle_recv_msg peer i (Some (VNSPacket intf frame)) s = (Inr (), ?s)"
    using assms(7,8) h by (simp add: handle_recv_msg_def handle_packet_msg_def sthen_def sbind_def sret_def sget_def)
  then have "sfor (server_receive VNS_PROTOCOL (handle_recv_msg peer) i) ds s = (Inr (), put_conn i (lts_conns s i) ?s)"
    using assms(1-6) by (intro single_frame_chunks [where m = "VNSPacket intf frame"]) simp_all
  moreover have "push_receive_data 2 env b t = Some (Inr RTrue, t\<lparr>sw_heap := sw_heap t @ [p], sw_events := sw_events t @ [(p, pp)]\<rparr>)"
    using switch_outputs [where env = env and n = 0, OF b assms(12,14-16,11,17)] by (simp add: numeral_2_eq_2)
  ultimately show ?thesis by (intro exI [of _ "put_conn i (lts_conns s i) ?s"] exI [of _ b]) (simp add: put_conn_def)
qed

section \<open>From the wire to the router\<close>

lemma broadcast_apply:
  assumes "pack_with_header VNS_PROTOCOL (get_type m) (vns_pack m) = Inr f"
  shows "broadcast m s = (Inr (), s\<lparr>lts_written := lts_written s @ map (\<lambda>i. (i, f)) (br_srclients s)\<rparr>)"
proof -
  have "sfor (\<lambda>i. vns_send i m) is s = (Inr (), s\<lparr>lts_written := lts_written s @ map (\<lambda>i. (i, f)) is\<rparr>)" for "is"
    using assms
    by (induction "is" arbitrary: s)
      (simp_all add: vns_send_def conn_send_def transport_write_def sthen_def sbind_def sret_def smod_def)
  then show ?thesis by (simp add: broadcast_def)
qed

lemma release_sends:
  assumes "- 1 \<le> bid" "bid < 0xffffffff" "0 \<le> port" "port < 65536" "xid_ok (br_nextXID s)"
  shows "\<exists>b m. send_packet_out j (ofp_packet_out_init\<lparr>po_buffer_id := bid, po_in_port := port\<rparr>) s =
      (Inr (), s\<lparr>br_of_sent := br_of_sent s @ [(j, b)], br_nextXID := snd (generateXID (br_nextXID s))\<rparr>)
    \<and> 4 < length b \<and> uint (b ! 0) = OFP_VERSION \<and> uint (b ! 1) = 13 \<and> frame_len b = length b
    \<and> ofp_packet_out_unpack ofp_packet_out_init b = Inr (m, []) \<and> po_actions m = [] \<and> po_data m = [] \<and> po_buffer_id m = bid"
proof -
  let ?m = "ofp_packet_out_init\<lparr>po_buffer_id := bid, po_in_port := port\<rparr>"
  have f: "xid ?m = None" "version ?m = OFP_VERSION" "header_type ?m = OFPT_PACKET_OUT" "po_actions ?m = []" "po_data ?m = []"
    "po_buffer_id ?m = bid" "po_in_port ?m = port"
    by (simp_all add: ofp_packet_out_init_def)
  obtain b m' m where p: "ofp_packet_out_pack True (br_nextXID s) ?m = Inr (b, m', snd (generateXID (br_nextXID s)))"
    and b: "4 < length b" "uint (b ! 0) = OFP_VERSION" "uint (b ! 1) = 13" "frame_len b = length b"
    and u: "\<forall>y rest. ofp_packet_out_unpack y (b @ rest) = Inr (m, rest)" "po_actions m = []" "po_data m = []" "po_buffer_id m = bid"
    using packet_out_reads [OF f(1-3), of "[]" "br_nextXID s"] f assms by auto
  have "ofp_packet_out_unpack ofp_packet_out_init b = Inr (m, [])" using u(1) by (metis append_Nil2)
  moreover have "send_packet_out j ?m s = (Inr (), s\<lparr>br_of_sent := br_of_sent s @ [(j, b)], br_nextXID := snd (generateXID (br_nextXID s))\<rparr>)"
    using p by (simp add: send_packet_out_def of_send_def smod_def)
  ultimately show ?thesis using b u(2-4) by blast
qed

text \<open>
  C32: A frame that the packet library parses and prints and that the switch reports at a port of the router reaches every client once: the
  bridge writes one message to each, which a client parses to the name of the interface of the port and the unchanged frame.  Then
  it sends the switch one message, and the software switch that reads its bytes forgets the frame in the buffer the report named.
\<close>

theorem frame_reaches_clients:
  assumes "map_of (br_port_to_intfname s) (pi_in_port m) = Some intf" and "fits 16 intf"
    and "ethernet_new (env_subs env) (env_iid env) (env_rnd env) (pi_data m) = Inr p"
    and "packet_str (env_subs env) p = Inr ()"
    and "pack_with_header VNS_PROTOCOL 4 (vns_pack (VNSPacket intf (pi_data m))) = Inr f"
    and "- 1 \<le> pi_buffer_id m" and "pi_buffer_id m < 0xffffffff" and "0 \<le> pi_in_port m" and "pi_in_port m < 65536"
    and "xid_ok (br_nextXID s)"
  shows "\<exists>s' b. handle_PacketIn env j m s = (Inr (), s')
    \<and> lts_written s' = lts_written s @ map (\<lambda>i. (i, f)) (br_srclients s)
    \<and> receive_chunks VNS_PROTOCOL (\<lambda>m. smod (\<lambda>l. l @ [m])) [f] LTTwistedProtocol_init []
        = (Inr (), LTTwistedProtocol_init, [Some (VNSPacket intf (pi_data m))])
    \<and> br_of_sent s' = br_of_sent s @ [(j, b)]
    \<and> (\<forall>t k senv. pi_buffer_id m = int k + 1 \<and> k < length (sw_buffer t) \<and> sw_receive_buf t = [] \<longrightarrow>
        push_receive_data 2 senv b t = Some (Inr RTrue, t\<lparr>sw_buffer := (sw_buffer t)[k := None]\<rparr>))"
proof -
  let ?s = "s\<lparr>lts_written := lts_written s @ map (\<lambda>i. (i, f)) (br_srclients s)\<rparr>"
  have b: "broadcast (VNSPacket intf (pi_data m)) s = (Inr (), ?s)"
    using broadcast_apply [of "VNSPacket intf (pi_data m)" f s] assms(5) by simp
  have "xid_ok (br_nextXID ?s)" using assms(10) by simp
  then obtain c po where r: "send_packet_out j (ofp_packet_out_init\<lparr>po_buffer_id := pi_buffer_id m, po_in_port := pi_in_port m\<rparr>) ?s =
      (Inr (), ?s\<lparr>br_of_sent := br_of_sent ?s @ [(j, c)], br_nextXID := snd (generateXID (br_nextXID ?s))\<rparr>)"
    and po: "4 < length c" "uint (c ! 0) = OFP_VERSION" "uint (c ! 1) = 13" "frame_len c = length c"
      "ofp_packet_out_unpack ofp_packet_out_init c = Inr (po, [])" "po_actions po = []" "po_data po = []" "po_buffer_id po = pi_buffer_id m"
    using release_sends [OF assms(6-9), of ?s j] by blast
  have "handle_PacketIn env j m s = (Inr (), ?s\<lparr>br_of_sent := br_of_sent ?s @ [(j, c)], br_nextXID := snd (generateXID (br_nextXID ?s))\<rparr>)"
    using assms(1,3,4) b r by (simp add: handle_PacketIn_def handle_SRPacketIn_def sthen_def sbind_def slift_def sget_def)
  moreover have "receive_chunks VNS_PROTOCOL (\<lambda>m. smod (\<lambda>l. l @ [m])) [f] LTTwistedProtocol_init []
        = (Inr (), LTTwistedProtocol_init, [Some (VNSPacket intf (pi_data m))])"
    by (rule vns.deliver_chunks [of "[VNSPacket intf (pi_data m)]" "[f]"])
      (use assms(2,5) in \<open>simp_all add: LTTwistedProtocol_init_def sm_simps\<close>)
  moreover have "push_receive_data 2 senv c t = Some (Inr RTrue, t\<lparr>sw_buffer := (sw_buffer t)[k := None]\<rparr>)"
    if "pi_buffer_id m = int k + 1" "k < length (sw_buffer t)" "sw_receive_buf t = []" for t k senv
    using switch_releases [OF po(1-7)] po(8) that by simp
  ultimately show ?thesis by (intro exI conjI) auto
qed

text \<open>
  A frame that the packet library cannot print, such as one with a DHCP message, reaches no client, and its buffer is not released.
\<close>

theorem unprintable_frame_lost:
  assumes "map_of (br_port_to_intfname s) (pi_in_port m) = Some intf"
    and "ethernet_new (env_subs env) (env_iid env) (env_rnd env) (pi_data m) = Inr p" and "packet_str (env_subs env) p = Inl err"
  shows "handle_PacketIn env j m s = (Inl err, s)"
  using assms by (simp add: handle_PacketIn_def handle_SRPacketIn_def sthen_def sbind_def slift_def sget_def sraise_def)

section \<open>Reachable states\<close>

text \<open>
  Clients are new objects when they connect, and Twisted reports the loss of connections it has made.  An exception in a
  handler leaves what was done before it.
\<close>

inductive bridge_reach :: "bridge_env \<Rightarrow> bridge \<Rightarrow> bool" for env where
  init: "xid_ok nx \<Longrightarrow> bridge_reach env (bridge_init nx)"
| step: "bridge_reach env s \<Longrightarrow> bridge_step env ev s = (r, s') \<Longrightarrow>
    (\<And>i. ev = ClientMade i \<Longrightarrow> i \<notin> set (br_srclients s)) \<Longrightarrow>
    (\<And>i. ev = ClientLost i \<Longrightarrow> i \<in> set (lts_connections s)) \<Longrightarrow> bridge_reach env s'"

definition intf_ok :: "(bytes \<times> int) list \<Rightarrow> VNSInterface \<Rightarrow> bool" where
  "intf_ok ports x \<longleftrightarrow> map_of ports (vi_name x) \<noteq> None \<and> length (vi_mac x) = 6 \<and> length (vi_ip x) = 4
     \<and> length (vi_mask x) = 4"

definition bridge_ok :: "bridge \<Rightarrow> bool" where
  "bridge_ok s \<longleftrightarrow> lts_numProtocols s = int (length (lts_connections s)) \<and> distinct (lts_connections s)
     \<and> distinct (br_srclients s) \<and> set (lts_connections s) \<subseteq> set (br_srclients s) \<and> xid_ok (br_nextXID s)
     \<and> (\<forall>p n. map_of (br_port_to_intfname s) p = Some n \<longrightarrow> map_of (br_intfname_to_port s) n \<noteq> None)
     \<and> (\<forall>n p. map_of (br_intfname_to_port s) n = Some p \<longrightarrow> map_of (br_port_to_intfname s) p \<noteq> None)
     \<and> (\<forall>is. br_interfaces s = Some is \<longrightarrow> list_all (intf_ok (br_intfname_to_port s)) is)"

lemma bridge_ok_simps [simp]:
  "bridge_ok (s\<lparr>lts_written := w\<rparr>) = bridge_ok s" "bridge_ok (s\<lparr>lts_closing := l\<rparr>) = bridge_ok s"
  "bridge_ok (s\<lparr>lts_conns := c\<rparr>) = bridge_ok s" "bridge_ok (s\<lparr>br_of_conns := o'\<rparr>) = bridge_ok s"
  by (simp_all add: bridge_ok_def)

lemma keeps_vns_send [keeps_intros]: "keeps bridge_ok (vns_send i m)"
  unfolding vns_send_def conn_send_def transport_write_def by (intro keeps_intros keeps_smod) simp

lemma keeps_loseConnection [keeps_intros]: "keeps bridge_ok (loseConnection i)"
  unfolding loseConnection_def by (rule keeps_smod) simp

lemma of_send_ok:
  assumes "\<And>nx b nx'. packer nx = Inr (b, nx') \<Longrightarrow> xid_ok nx \<Longrightarrow> xid_ok nx'"
  shows "keeps bridge_ok (of_send i packer)"
proof (rule keepsI)
  fix s assume ok: "bridge_ok s"
  then have x: "xid_ok (br_nextXID s)" by (simp add: bridge_ok_def)
  show "bridge_ok (snd (of_send i packer s))"
  proof (cases "packer (br_nextXID s)")
    case (Inl e)
    then show ?thesis using ok by (simp add: of_send_def sraise_def)
  next
    case (Inr p)
    then obtain b nx where p: "packer (br_nextXID s) = Inr (b, nx)" by (cases p) auto
    then show ?thesis using ok assms [OF p x] by (simp add: of_send_def smod_def bridge_ok_def)
  qed
qed

lemma packet_out_pack_xid: "ofp_packet_out_pack a nx m = Inr (b, m', nx') \<Longrightarrow> xid_ok nx \<Longrightarrow> xid_ok nx'"
  by (auto simp: ofp_packet_out_pack_def rbind_eq_Inr rmap_eq_Inr dest: msg_pack_xid split: if_split_asm)

lemma keeps_send_packet_out [keeps_intros]: "keeps bridge_ok (send_packet_out i m)"
  unfolding send_packet_out_def by (rule of_send_ok) (auto simp: rmap_eq_Inr dest: packet_out_pack_xid)

lemma keeps_switch_config: "keeps bridge_ok (of_send i (\<lambda>nx. rmap (\<lambda>(b, _, nx). (b, nx)) (ofp_switch_config_pack nx m)))"
  by (rule of_send_ok) (auto simp: ofp_switch_config_pack_def rmap_eq_Inr dest: msg_pack_xid)

lemma keeps_open [keeps_intros]: "keeps bridge_ok (handle_open_msg i)"
proof -
  let ?m = "sbind (sget br_interfaces) (\<lambda>is. case is of None \<Rightarrow> sraise AttributeError
    | Some interfaces \<Rightarrow> vns_send i (VNSHardwareInfo interfaces))"
  have "keeps bridge_ok ?m" by (intro keeps_intros)
  then show ?thesis unfolding handle_open_msg_def keeps_def by (auto split: prod.splits sum.splits)
qed

lemma keeps_recv_msg: "keeps bridge_ok (handle_recv_msg peer i m)"
  unfolding handle_recv_msg_def handle_close_msg_def conn_send_def transport_write_def handle_auth_reply_def handle_packet_msg_def
    handle_SRPacketOut_def
  by (auto split: option.splits vns_msg.splits intro!: keeps_intros keeps_smod)

lemma router_loop_ok:
  "router_loop items acc s = (r, s') \<Longrightarrow> bridge_ok s \<Longrightarrow> list_all (intf_ok (br_intfname_to_port s)) acc \<Longrightarrow>
     bridge_ok s' \<and> (\<forall>is. r = Inr is \<longrightarrow> list_all (intf_ok (br_intfname_to_port s')) is)"
proof (induction items arbitrary: acc s)
  case Nil
  then show ?case by (auto simp: sret_def)
next
  case (Cons it items)
  obtain intf ip mac rate port where it: "it = (intf, ip, mac, rate, port)" by (metis surj_pair)
  let ?upd = "\<lambda>s. s\<lparr>br_intfname_to_port := AList.update intf port (br_intfname_to_port s),
    br_port_to_intfname := AList.update port intf (br_port_to_intfname s)\<rparr>"
  let ?i = "rbind (pack_ip ip) (\<lambda>ip. rbind (pack_mac mac) (\<lambda>mac. rbind (pack_ip ''255.255.255.255'') (VNSInterface_init intf mac ip)))"
  show ?case
  proof (cases ?i)
    case (Inl e)
    then have "router_loop (it # items) acc s = (Inl e, s)" by (auto simp: it res_simps sraise_def)
    then show ?thesis using Cons.prems by auto
  next
    case (Inr i)
    then have go: "router_loop (it # items) acc s = router_loop items (acc @ [i]) (?upd s)" by (auto simp: it res_simps)
    have i: "vi_name i = intf" "length (vi_mac i) = 6" "length (vi_ip i) = 4" "length (vi_mask i) = 4"
      using Inr by (auto simp: res_simps VNSInterface_init_def split: if_splits)
    have mono: "intf_ok (br_intfname_to_port s) x \<Longrightarrow> intf_ok (br_intfname_to_port (?upd s)) x" for x by (auto simp: intf_ok_def update_conv')
    have "bridge_ok (?upd s)"
      using Cons.prems(2) mono by (auto simp: bridge_ok_def update_conv' list_all_iff split: if_splits)
    moreover have "list_all (intf_ok (br_intfname_to_port (?upd s))) (acc @ [i])"
      using Cons.prems(3) mono i by (auto simp: list_all_iff intf_ok_def update_conv')
    ultimately show ?thesis using Cons.IH [of "acc @ [i]" "?upd s"] Cons.prems(1) go by simp
  qed
qed

lemma keeps_RouterInfo [keeps_intros]: "keeps bridge_ok (handle_RouterInfo items)"
proof (rule keepsI)
  fix s assume ok: "bridge_ok s"
  obtain r s' where l: "router_loop items [] s = (r, s')" by fastforce
  with ok have "bridge_ok s'" "\<And>is. r = Inr is \<Longrightarrow> list_all (intf_ok (br_intfname_to_port s')) is"
    using router_loop_ok [OF l] by auto
  then show "bridge_ok (snd (handle_RouterInfo items s))"
    using l by (cases r) (auto simp: handle_RouterInfo_def sbind_def smod_def bridge_ok_def)
qed

lemma keeps_OFHandler: "keeps bridge_ok (OFHandler_init items ips i ports)"
  unfolding OFHandler_init_def by (intro keeps_intros keeps_switch_config keeps_smod) simp

lemma keeps_PacketIn: "keeps bridge_ok (handle_PacketIn env i m)"
  unfolding handle_PacketIn_def handle_SRPacketIn_def broadcast_def by (intro keeps_intros)

lemma bridge_step_ok:
  assumes "bridge_step env ev s = (r, s')" "bridge_ok s" "\<And>i. ev = ClientMade i \<Longrightarrow> i \<notin> set (br_srclients s)"
    and "\<And>i. ev = ClientLost i \<Longrightarrow> i \<in> set (lts_connections s)"
  shows "bridge_ok s'"
proof (cases ev)
  case (ClientMade i)
  let ?s = "s\<lparr>lts_numProtocols := lts_numProtocols s + 1, lts_connections := lts_connections s @ [i],
    lts_conns := (lts_conns s)(i := LTTwistedProtocol_init\<lparr>lt_connected := True\<rparr>), br_srclients := br_srclients s @ [i]\<rparr>"
  have "bridge_ok ?s" using assms(2,3) ClientMade by (auto simp: bridge_ok_def)
  moreover have "vns_send i (VNSAuthRequest (be_salt env i)) ?s = (r, s')"
    using assms(1) ClientMade by (simp add: connectionMade_def handle_new_client_def)
  ultimately show ?thesis using keepsD [OF keeps_vns_send] by blast
next
  case (ClientData i d)
  then obtain c s1 where "lt_loop VNS_PROTOCOL (handle_recv_msg (be_peer env) i) (lt_more d (lts_conns s i)) s = (r, c, s1)"
    and s': "s' = s1\<lparr>lts_conns := (lts_conns s1)(i := c)\<rparr>"
    using assms(1) by (auto simp: server_receive_def dataReceived_more split: prod.splits)
  then have "bridge_ok s1"
    using lt_loop_keeps [of bridge_ok "handle_recv_msg (be_peer env) i", OF keeps_recv_msg] assms(2) by blast
  then show ?thesis by (simp add: s')
next
  case (ClientLost i)
  let ?s = "s\<lparr>lts_numProtocols := lts_numProtocols s - 1, lts_connections := remove1 i (lts_connections s),
    lts_conns := (lts_conns s)(i := (lts_conns s i)\<lparr>lt_connected := False\<rparr>)\<rparr>"
  have i: "i \<in> set (lts_connections s)" using assms(4) ClientLost by simp
  then have "int (length (lts_connections s)) - 1 = int (length (remove1 i (lts_connections s)))"
    using length_pos_if_in_set [OF i] by (simp add: length_remove1 of_nat_diff Suc_leI)
  then have "bridge_ok ?s" using assms(2)
    by (auto simp: bridge_ok_def set_remove1_eq)
  moreover have "loseConnection i ?s = (r, s')"
    using assms(1) ClientLost i by (simp add: connectionLost_def handle_client_disconnected_def)
  ultimately show ?thesis using keepsD [OF keeps_loseConnection] by blast
next
  case (SwitchUp i ports)
  then show ?thesis using assms(1,2) keepsD [OF keeps_OFHandler] by simp
next
  case (SwitchPacketIn i m)
  then show ?thesis using assms(1,2) keepsD [OF keeps_PacketIn] by simp
qed

lemma bridge_reach_ok: "bridge_reach env s \<Longrightarrow> bridge_ok s"
proof (induction rule: bridge_reach.induct)
  case (init nx)
  then show ?case by (simp add: bridge_ok_def bridge_init_def)
next
  case (step s ev r s')
  then show ?case using bridge_step_ok by blast
qed

text \<open>
  C38: In every state the bridge reaches, whatever the clients and the switches send, the server counts its live
  connections, each of them is a known client, the two dictionaries between interface names and ports cover each other,
  and every interface announced to clients has a port, so a packet sent to it is not refused.
\<close>

theorem bridge_reachable_ok:
  assumes "bridge_reach env s"
  shows "lts_numProtocols s = int (length (lts_connections s)) \<and> distinct (lts_connections s)
    \<and> set (lts_connections s) \<subseteq> set (br_srclients s)
    \<and> (\<forall>p n. map_of (br_port_to_intfname s) p = Some n \<longrightarrow> map_of (br_intfname_to_port s) n \<noteq> None)
    \<and> (\<forall>n p. map_of (br_intfname_to_port s) n = Some p \<longrightarrow> map_of (br_port_to_intfname s) p \<noteq> None)
    \<and> (\<forall>is x. br_interfaces s = Some is \<longrightarrow> x \<in> set is \<longrightarrow> map_of (br_intfname_to_port s) (vi_name x) \<noteq> None)"
  using bridge_reach_ok [OF assms] by (auto simp: bridge_ok_def list_all_iff intf_ok_def)

section \<open>A session\<close>

lemma vns_send_apply:
  "pack_with_header VNS_PROTOCOL (get_type m) (vns_pack m) = Inr f \<Longrightarrow>
     vns_send i m s = (Inr (), s\<lparr>lts_written := lts_written s @ [(i, f)]\<rparr>)"
  by (simp add: vns_send_def conn_send_def transport_write_def smod_def)

text \<open>
  The session of a client.  A client that connects is sent a challenge; when it answers and opens a topology, in
  any cut of its bytes, it is sent the confirmation and the list of the interfaces, in this order and nothing else.
\<close>

theorem client_session:
  assumes "br_interfaces s = Some is"
    and "pack_with_header VNS_PROTOCOL 128 (vns_pack (VNSAuthRequest (salt i))) = Inr challenge"
    and "pack_with_header VNS_PROTOCOL 512
      (vns_pack (VNSAuthStatus True (bytes_of_str ''authenticated '' @ peer i @ bytes_of_str '' as user''))) = Inr status"
    and "pack_with_header VNS_PROTOCOL 16 (vns_pack (VNSHardwareInfo is)) = Inr hwinfo"
    and "fits 32 vhost" and "fits 32 user" and "fits 32 pw"
    and "pack_with_header VNS_PROTOCOL 256 (vns_pack (VNSAuthReply name ssp)) = Inr reply"
    and "pack_with_header VNS_PROTOCOL 1 (vns_pack (VNSOpen topo vhost user pw)) = Inr open"
    and "concat ds = reply @ open" and "ds \<noteq> []"
  shows "\<exists>s1 s2. connectionMade (handle_new_client salt) i s = (Inr (), s1)
    \<and> br_srclients s1 = br_srclients s @ [i]
    \<and> sfor (server_receive VNS_PROTOCOL (handle_recv_msg peer) i) ds s1 = (Inr (), s2)
    \<and> lts_written s2 = lts_written s @ [(i, challenge), (i, status), (i, hwinfo)]
    \<and> lts_closing s2 = lts_closing s"
proof -
  let ?c = "LTTwistedProtocol_init\<lparr>lt_connected := True\<rparr>"
  let ?s0 = "s\<lparr>lts_numProtocols := lts_numProtocols s + 1, lts_connections := lts_connections s @ [i],
    lts_conns := (lts_conns s)(i := ?c), br_srclients := br_srclients s @ [i]\<rparr>"
  let ?s1 = "?s0\<lparr>lts_written := lts_written s @ [(i, challenge)]\<rparr>"
  let ?s2 = "?s1\<lparr>lts_written := lts_written s @ [(i, challenge), (i, status), (i, hwinfo)]\<rparr>"
  have one: "connectionMade (handle_new_client salt) i s = (Inr (), ?s1)"
    using vns_send_apply [of "VNSAuthRequest (salt i)" challenge i ?s0] assms(2)
    by (simp add: connectionMade_def handle_new_client_def)
  have a: "handle_recv_msg peer i (Some (VNSAuthReply name ssp)) ?s1 = (Inr (), ?s1\<lparr>lts_written := lts_written s @ [(i, challenge), (i, status)]\<rparr>)"
    using vns_send_apply [of "VNSAuthStatus True (bytes_of_str ''authenticated '' @ peer i @ bytes_of_str '' as user'')" status i ?s1] assms(3)
    by (simp add: handle_recv_msg_def handle_auth_reply_def)
  have o: "handle_recv_msg peer i (Some (VNSOpen topo vhost user pw)) (?s1\<lparr>lts_written := lts_written s @ [(i, challenge), (i, status)]\<rparr>)
      = (Inr (), ?s2)"
    using vns_send_apply [of "VNSHardwareInfo is" hwinfo i "?s1\<lparr>lts_written := lts_written s @ [(i, challenge), (i, status)]\<rparr>"] assms(1,4)
    by (simp add: handle_recv_msg_def handle_open_msg_def)
  have "receive_chunks VNS_PROTOCOL (handle_recv_msg peer i) ds (lts_conns ?s1 i) ?s1 = (Inr (), lts_conns ?s1 i, ?s2)"
  proof (rule vns.deliver_chunks)
    show "rmapM (\<lambda>m. pack_with_header VNS_PROTOCOL (get_type m) (vns_pack m)) [VNSAuthReply name ssp, VNSOpen topo vhost user pw] = Inr [reply, open]"
      using assms(8,9) by simp
    show "sfor (handle_recv_msg peer i) (map Some [VNSAuthReply name ssp, VNSOpen topo vhost user pw]) ?s1 = (Inr (), ?s2)"
      using a o by (simp add: sthen_def sbind_def sret_def)
  qed (use assms in \<open>simp_all add: LTTwistedProtocol_init_def\<close>)
  then have "sfor (server_receive VNS_PROTOCOL (handle_recv_msg peer) i) ds ?s1 = (Inr (), put_conn i (lts_conns ?s1 i) ?s2)"
    by (rule server_receive_chunks [OF commutes_recv_msg])
  then show ?thesis using one
    by (intro exI [of _ ?s1] exI [of _ "put_conn i (lts_conns ?s1 i) ?s2"]) (simp add: put_conn_def)
qed

text \<open>
  A client cannot close its session and cannot open a template: VNSClose, a message of an unknown class and
  VNSOpenTemplate all raise AttributeError in the server, which writes and closes nothing; a packet for an interface
  the server does not know raises NameError.
\<close>

theorem client_requests_raise:
  "handle_recv_msg peer i (Some (VNSClose msg)) s = (Inl AttributeError, s)
   \<and> handle_recv_msg peer i None s = (Inl AttributeError, s)
   \<and> handle_recv_msg peer i (Some (VNSOpenTemplate name host fs)) s = (Inl AttributeError, s)
   \<and> handle_recv_msg peer i (Some (VNSPacket intf frame)) (s\<lparr>br_intfname_to_port := []\<rparr>)
       = (Inl NameError, s\<lparr>br_intfname_to_port := []\<rparr>)"
  by (simp add: handle_recv_msg_def handle_close_msg_def conn_send_def pack_with_header_def handle_packet_msg_def sm_simps)

text \<open>A client stays on the list of clients when its connection is lost, and frames are still written to it.\<close>

lemma lost_client_still_written:
  assumes "i \<in> set (lts_connections s)" "bridge_ok s" "bridge_step env (ClientLost i) s = (r, s')"
    and "pack_with_header VNS_PROTOCOL (get_type m) (vns_pack m) = Inr f"
  shows "i \<notin> set (lts_connections s') \<and> (i, f) \<in> set (lts_written (snd (broadcast m s')))"
  using assms(1-3) broadcast_apply [OF assms(4), of s']
  by (auto simp: connectionLost_def handle_client_disconnected_def loseConnection_def smod_def bridge_ok_def)

section \<open>Witnesses\<close>

definition eth1 :: bytes where
  "eth1 = bytes_of_str ''eth1''"

definition raw_frame :: bytes where
  "raw_frame = [2, 0, 0, 0, 0, 1, 2, 0, 0, 0, 0, 2, 0x12, 0x34, 9]"

definition demo_bridge :: bridge where
  "demo_bridge = (bridge_init 1)\<lparr>br_srclients := [5, 6], br_interfaces := Some [], br_intfname_to_port := [(eth1, 1)],
     br_port_to_intfname := [(1, eth1)], br_of_conns := [0]\<rparr>"

lemma raw_frame_parsed: "rmap is_ethernet (ethernet_new (env_subs demo_env) 0 0 raw_frame) = Inr True"
  by code_simp

lemma raw_frame_prints: "rbind (ethernet_new (env_subs demo_env) 0 0 raw_frame) (packet_str (env_subs demo_env)) = Inr ()"
  by code_simp

definition raw_msg :: bytes where
  "raw_msg = [0, 0, 0, 39, 0, 0, 0, 4, 101, 116, 104, 49, 0, 0, 0, 0, 0, 0, 0, 0, 0, 0, 0, 0,
     2, 0, 0, 0, 0, 1, 2, 0, 0, 0, 0, 2, 0x12, 0x34, 9]"

lemma raw_msg_packed: "pack_with_header VNS_PROTOCOL 4 (vns_pack (VNSPacket eth1 raw_frame)) = Inr raw_msg"
  by code_simp

lemma fits_eth1_16: "fits 16 eth1"
  by (simp add: fits_def eth1_def bytes_of_str_def)

lemma demo_bridge_simps:
  "lt_packet (lts_conns demo_bridge i) = []" "lt_plen (lts_conns demo_bridge i) = 0"
  "map_of (br_intfname_to_port demo_bridge) eth1 = Some 1" "br_of_conns demo_bridge = [0]" "xid_ok (br_nextXID demo_bridge)"
  "map_of (br_port_to_intfname demo_bridge) 1 = Some eth1" "br_srclients demo_bridge = [5, 6]" "lts_written demo_bridge = []"
  "br_interfaces demo_bridge = Some []"
  by (simp_all add: demo_bridge_def bridge_init_def LTTwistedProtocol_init_def xid_ok_def)

theorem router_frame_reaches_port_witness:
  "\<exists>s' b t p. sfor (server_receive VNS_PROTOCOL (handle_recv_msg (\<lambda>_. [])) 5) [take 10 raw_msg, drop 10 raw_msg] demo_bridge = (Inr (), s')
    \<and> br_of_sent s' = [(0, b)] \<and> push_receive_data 2 (\<lambda>_. demo_env) b demo_switch = Some (Inr RTrue, t)
    \<and> sw_events t = [(p, ofp_phy_port_init\<lparr>pp_port_no := 1\<rparr>)]"
proof -
  obtain p where p: "ethernet_new (env_subs demo_env) (env_iid demo_env) (env_rnd demo_env) raw_frame = Inr p" "is_ethernet p"
    using raw_frame_parsed by (auto simp: rmap_eq_Inr demo_env_def)
  have t: "sw_receive_buf demo_switch = []" "map_of (sw_ports demo_switch) 1 = Some (ofp_phy_port_init\<lparr>pp_port_no := 1\<rparr>)"
    by (simp_all add: demo_fields) (simp add: demo_switch_def SwitchImpl_init_def)
  have "br_of_sent demo_bridge = []" by (simp add: demo_bridge_def bridge_init_def)
  moreover have "raw_frame \<noteq> []" "length raw_frame < 65512" by (simp_all add: raw_frame_def)
  ultimately show ?thesis
    using router_frame_reaches_port [OF fits_eth1_16 raw_msg_packed, of "[take 10 raw_msg, drop 10 raw_msg]" demo_bridge 5 1 0
        "\<lambda>_. demo_env" p demo_switch "ofp_phy_port_init\<lparr>pp_port_no := 1\<rparr>" "\<lambda>_. []"] p t demo_bridge_simps
    by (fastforce simp: demo_fields)
qed

theorem frame_reaches_clients_witness:
  "\<exists>s' b. handle_PacketIn demo_env 0 (ofp_packet_in_init\<lparr>pi_in_port := 1, pi_buffer_id := 3, pi_data := raw_frame\<rparr>) demo_bridge
       = (Inr (), s') \<and> lts_written s' = [(5, raw_msg), (6, raw_msg)] \<and> br_of_sent s' = [(0, b)]
     \<and> push_receive_data 2 (\<lambda>_. demo_env) b (demo_switch\<lparr>sw_buffer := [None, None, Some (0, 1)]\<rparr>)
       = Some (Inr RTrue, demo_switch\<lparr>sw_buffer := [None, None, None]\<rparr>)"
proof -
  let ?m = "ofp_packet_in_init\<lparr>pi_in_port := 1, pi_buffer_id := 3, pi_data := raw_frame\<rparr>"
  let ?t = "demo_switch\<lparr>sw_buffer := [None, None, Some (0, 1)]\<rparr>"
  obtain p where p: "ethernet_new (env_subs demo_env) (env_iid demo_env) (env_rnd demo_env) (pi_data ?m) = Inr p"
    "packet_str (env_subs demo_env) p = Inr ()"
    using raw_frame_prints by (auto simp: rbind_eq_Inr demo_env_def)
  have i: "map_of (br_port_to_intfname demo_bridge) (pi_in_port ?m) = Some eth1" "br_of_sent demo_bridge = []"
    by (simp_all add: demo_bridge_def bridge_init_def)
  have t: "sw_receive_buf ?t = []" "pi_buffer_id ?m = int 2 + 1" "2 < length (sw_buffer ?t)" by (simp_all add: demo_fields demo_switch_def SwitchImpl_init_def)
  obtain s' b where r: "handle_PacketIn demo_env 0 ?m demo_bridge = (Inr (), s')"
    "lts_written s' = lts_written demo_bridge @ map (\<lambda>i. (i, raw_msg)) (br_srclients demo_bridge)" "br_of_sent s' = br_of_sent demo_bridge @ [(0, b)]"
    "\<forall>t k senv. pi_buffer_id ?m = int k + 1 \<and> k < length (sw_buffer t) \<and> sw_receive_buf t = [] \<longrightarrow>
        push_receive_data 2 senv b t = Some (Inr RTrue, t\<lparr>sw_buffer := (sw_buffer t)[k := None]\<rparr>)"
    using frame_reaches_clients [OF i(1) fits_eth1_16 p, of raw_msg 0] demo_bridge_simps raw_msg_packed by auto
  have "push_receive_data 2 (\<lambda>_. demo_env) b ?t = Some (Inr RTrue, ?t\<lparr>sw_buffer := (sw_buffer ?t)[2 := None]\<rparr>)"
    using r(4) t by blast
  then show ?thesis using r(1-3) i(2) demo_bridge_simps by auto
qed

theorem bridge_reachable_ok_witness:
  "let env = \<lparr>be_items = \<lambda>i. i, be_router_ip = [(eth1, ''10.0.0.1'')], be_peer = \<lambda>_. [], be_salt = \<lambda>_. [7], be_swenv = demo_env\<rparr>;
       s = snd (bridge_step env (ClientMade 4) (bridge_init 1)) in
   bridge_reach env s \<and> lts_connections s = [4] \<and> lts_numProtocols s = 1 \<and> set (lts_connections s) \<subseteq> set (br_srclients s)"
proof -
  let ?env = "\<lparr>be_items = \<lambda>i. i, be_router_ip = [(eth1, ''10.0.0.1'')], be_peer = \<lambda>_. [], be_salt = \<lambda>_. [7], be_swenv = demo_env\<rparr>"
  let ?s = "snd (bridge_step ?env (ClientMade 4) (bridge_init 1))"
  have "bridge_reach ?env (bridge_init 1)" by (rule bridge_reach.init) (simp add: xid_ok_def)
  then have r: "bridge_reach ?env ?s" by (rule bridge_reach.step [OF _ prod.collapse [symmetric]]) (simp_all add: bridge_init_def)
  have "lts_connections ?s = [4]"
    by (simp add: connectionMade_def bridge_init_def handle_new_client_def vns_send_def conn_send_def transport_write_def sm_simps
        sbind_def slift_def split: sum.split prod.split)
  then show ?thesis using r bridge_reachable_ok [OF r] unfolding Let_def by simp
qed

theorem client_session_witness:
  "\<exists>s1 s2 a b c. connectionMade (handle_new_client (\<lambda>_. [7])) 9 demo_bridge = (Inr (), s1)
    \<and> sfor (server_receive VNS_PROTOCOL (handle_recv_msg (\<lambda>_. [])) 9)
        [[0, 0, 0, 14, 0, 0, 1, 0, 0, 0, 0, 1, 65, 3], [0, 0, 0, 108, 0, 0, 0, 1, 0, 0, 0, 0] @ zeros 96] s1 = (Inr (), s2)
    \<and> lts_written s2 = [(9, a), (9, b), (9, c)]"
proof -
  have f: "pack_with_header VNS_PROTOCOL 128 (vns_pack (VNSAuthRequest [7])) = Inr [0, 0, 0, 9, 0, 0, 0, 128, 7]"
    "pack_with_header VNS_PROTOCOL 16 (vns_pack (VNSHardwareInfo [])) = Inr [0, 0, 0, 8, 0, 0, 0, 16]"
    "pack_with_header VNS_PROTOCOL 256 (vns_pack (VNSAuthReply [65] [3])) = Inr [0, 0, 0, 14, 0, 0, 1, 0, 0, 0, 0, 1, 65, 3]"
    "pack_with_header VNS_PROTOCOL 1 (vns_pack (VNSOpen 0 [] [] [])) = Inr ([0, 0, 0, 108, 0, 0, 0, 1, 0, 0, 0, 0] @ zeros 96)"
    by code_simp+
  have "is_ok (pack_with_header VNS_PROTOCOL 512 (vns_pack (VNSAuthStatus True (bytes_of_str ''authenticated '' @ [] @ bytes_of_str '' as user''))))"
    by code_simp
  then obtain st where st: "pack_with_header VNS_PROTOCOL 512
      (vns_pack (VNSAuthStatus True (bytes_of_str ''authenticated '' @ [] @ bytes_of_str '' as user''))) = Inr st"
    unfolding is_ok_iff by blast
  have "fits 32 []" by (simp add: fits_def)
  then show ?thesis
    using client_session [where salt = "\<lambda>_. [7]" and peer = "\<lambda>_. []" and i = 9, OF demo_bridge_simps(9) f(1) st f(2) _ _ _ f(3,4),
      of "[[0, 0, 0, 14, 0, 0, 1, 0, 0, 0, 0, 1, 65, 3], [0, 0, 0, 108, 0, 0, 0, 1, 0, 0, 0, 0] @ zeros 96]"]
    by (auto simp: demo_bridge_simps)
qed

end
