(* ===== verification/Lldp.thy ===== *)
theory Lldp
  imports Packet_Laws
begin

text \<open>
  \<open>pox/lib/packet/lldp.py\<close>: the frames of the link layer discovery protocol, a sequence of type-length-value fields, with a class
  for each type.  The attributes \<open>arr\<close> and \<open>parsed\<close> of the fields, which nothing reads, are left out, as are \<open>__str__\<close> and
  the messages of \<open>msg\<close>.
\<close>

section \<open>Fields\<close>

record chassis_id =
  cid_strlen :: int
  cid_subtype :: int
  cid_id :: "bytes option"

record port_id =
  pid_subtype :: int
  pid_id :: "bytes option"

record ttl =
  ttl_strlen :: int
  ttl_ttl :: int

record management_address =
  ma_address_subtype :: int
  ma_address :: bytes
  ma_interface_numbering_subtype :: int
  ma_interface_number :: int
  ma_object_identifier :: bytes

record organizationally_specific =
  os_oui :: bytes
  os_subtype :: int
  os_next :: bytes
  os_len :: int

record system_capabilities =
  sc_caps :: "bool list"
  sc_enabled_caps :: "bool list"
  sc_next :: bytes
  sc_len :: int

text \<open>\<open>Basic_tlv\<close> with its type stands for \<open>system_name\<close>, \<open>system_description\<close>, \<open>port_description\<close> and \<open>unknown_tlv\<close>.\<close>

datatype tlv =
    Chassis_id chassis_id
  | Port_id port_id
  | Ttl ttl
  | End_tlv int
  | Basic_tlv int int bytes
  | Management_address management_address
  | Organizationally_specific organizationally_specific
  | System_capabilities system_capabilities

fun tlv_type :: "tlv \<Rightarrow> int" where
  "tlv_type (Chassis_id _) = 1"
| "tlv_type (Port_id _) = 2"
| "tlv_type (Ttl _) = 3"
| "tlv_type (End_tlv _) = 0"
| "tlv_type (Basic_tlv t _ _) = t"
| "tlv_type (Management_address _) = 8"
| "tlv_type (Organizationally_specific _) = 127"
| "tlv_type (System_capabilities _) = 7"

definition chassis_id_init :: chassis_id where
  "chassis_id_init = \<lparr>cid_strlen = 0, cid_subtype = 0, cid_id = None\<rparr>"

definition chassis_id_fill :: "int \<Rightarrow> bytes \<Rightarrow> chassis_id \<Rightarrow> chassis_id" where
  "chassis_id_fill subtype strval c = c\<lparr>cid_strlen := 1 + int (length strval), cid_subtype := subtype, cid_id := Some strval\<rparr>"

definition port_id_init :: port_id where
  "port_id_init = \<lparr>pid_subtype = 0, pid_id = None\<rparr>"

definition port_id_fill :: "int \<Rightarrow> bytes \<Rightarrow> port_id \<Rightarrow> port_id" where
  "port_id_fill subtype strval p = p\<lparr>pid_subtype := subtype, pid_id := Some strval\<rparr>"

definition ttl_init :: ttl where
  "ttl_init = \<lparr>ttl_strlen = 2, ttl_ttl = 0\<rparr>"

definition ttl_fill :: "int \<Rightarrow> ttl \<Rightarrow> ttl" where
  "ttl_fill v t = t\<lparr>ttl_ttl := v\<rparr>"

definition management_address_init :: management_address where
  "management_address_init = \<lparr>ma_address_subtype = 0, ma_address = [], ma_interface_numbering_subtype = 0, ma_interface_number = 0,
     ma_object_identifier = []\<rparr>"

definition organizationally_specific_init :: organizationally_specific where
  "organizationally_specific_init = \<lparr>os_oui = zeros 3, os_subtype = 0, os_next = [], os_len = 0\<rparr>"

definition system_capabilities_init :: system_capabilities where
  "system_capabilities_init = \<lparr>sc_caps = replicate 16 False, sc_enabled_caps = replicate 16 False, sc_next = [], sc_len = 0\<rparr>"

text \<open>\<open>basic_tlv.fill\<close>, which every class made from it inherits\<close>

fun basic_tlv_fill :: "bytes \<Rightarrow> tlv \<Rightarrow> tlv" where
  "basic_tlv_fill strval (Basic_tlv t _ _) = Basic_tlv t (int (length strval)) strval"
| "basic_tlv_fill strval (Organizationally_specific v) = Organizationally_specific (v\<lparr>os_len := int (length strval), os_next := strval\<rparr>)"
| "basic_tlv_fill strval (System_capabilities v) = System_capabilities (v\<lparr>sc_len := int (length strval), sc_next := strval\<rparr>)"
| "basic_tlv_fill strval t = t"

section \<open>Packing\<close>

definition typelen :: "int \<Rightarrow> int \<Rightarrow> int" where
  "typelen t len = push_bit 9 t OR (len AND 0x01ff)"

text \<open>The \<open>s\<close> format: cut or padded to its length\<close>

definition pack_s :: "nat \<Rightarrow> bytes \<Rightarrow> bytes" where
  "pack_s n b = take n (ljust0 n b)"

text \<open>The common part of \<open>chassis_id\<close> and \<open>port_id\<close>: the format \<open>!HB\<close> with a string of \<open>strlen - 1\<close> bytes\<close>

definition pack_id :: "int \<Rightarrow> int \<Rightarrow> int \<Rightarrow> bytes option \<Rightarrow> bytes res" where
  "pack_id t strlen subtype i =
     (if strlen < 1 then Inl StructError
      else rbind (need StructError i) (\<lambda>b. rmap (\<lambda>h. h @ pack_s (nat (strlen - 1)) b) (struct_pack [FH, FB] [typelen t strlen, subtype])))"

definition chassis_id_pack :: "chassis_id \<Rightarrow> bytes res" where
  "chassis_id_pack c = pack_id 1 (cid_strlen c) (cid_subtype c) (cid_id c)"

definition port_id_pack :: "port_id \<Rightarrow> bytes res" where
  "port_id_pack p = rbind (need TypeError (pid_id p)) (\<lambda>b. pack_id 2 (1 + int (length b)) (pid_subtype p) (Some b))"

definition ttl_pack :: "ttl \<Rightarrow> bytes res" where
  "ttl_pack t = struct_pack [FH, FH] [typelen 3 (ttl_strlen t), ttl_ttl t]"

definition end_tlv_pack :: "int \<Rightarrow> bytes res" where
  "end_tlv_pack strlen = struct_pack [FH] [typelen 0 strlen]"

definition basic_tlv_pack :: "int \<Rightarrow> int \<Rightarrow> bytes \<Rightarrow> bytes res" where
  "basic_tlv_pack t len nxt = rmap (\<lambda>h. h @ nxt) (struct_pack [FH] [typelen t len])"

definition management_address_len :: "management_address \<Rightarrow> int" where
  "management_address_len m = 2 + 1 + 1 + int (length (ma_address m)) + 1 + 4 + 1 + int (length (ma_object_identifier m))"

definition management_address_pack :: "management_address \<Rightarrow> bytes res" where
  "management_address_pack m = rconcat
     [struct_pack [FH] [typelen 8 (management_address_len m - 2)],
      struct_pack [FB, FB] [int (length (ma_address m)) + 1, ma_address_subtype m],
      Inr (ma_address m),
      struct_pack [FB, FL, FB] [ma_interface_numbering_subtype m, ma_interface_number m, int (length (ma_object_identifier m))],
      Inr (ma_object_identifier m)]"

definition organizationally_specific_pack :: "organizationally_specific \<Rightarrow> bytes res" where
  "organizationally_specific_pack v = rconcat
     [struct_pack [FH] [typelen 127 (os_len v)], Inr (pack_s 3 (os_oui v)), struct_pack [FB] [os_subtype v], Inr (os_next v)]"

text \<open>The loop over \<open>range(0, 16)\<close>: it raises when the list is shorter.\<close>

definition caps_word :: "bool list \<Rightarrow> int" where
  "caps_word caps = (\<Sum>i\<leftarrow>[0..<16]. if caps ! i then 2 ^ i else 0)"

definition system_capabilities_pack :: "system_capabilities \<Rightarrow> bytes res" where
  "system_capabilities_pack v =
     (if length (sc_caps v) < 16 \<or> length (sc_enabled_caps v) < 16 then Inl IndexError
      else struct_pack [FH, FH, FH] [typelen 7 (sc_len v), caps_word (sc_caps v), caps_word (sc_enabled_caps v)])"

fun tlv_pack :: "tlv \<Rightarrow> bytes res" where
  "tlv_pack (Chassis_id c) = chassis_id_pack c"
| "tlv_pack (Port_id p) = port_id_pack p"
| "tlv_pack (Ttl t) = ttl_pack t"
| "tlv_pack (End_tlv n) = end_tlv_pack n"
| "tlv_pack (Basic_tlv t len nxt) = basic_tlv_pack t len nxt"
| "tlv_pack (Management_address m) = management_address_pack m"
| "tlv_pack (Organizationally_specific v) = organizationally_specific_pack v"
| "tlv_pack (System_capabilities v) = system_capabilities_pack v"

section \<open>Parsing\<close>

text \<open>The first two bytes, split: \<open>typelen >> 9\<close> and \<open>typelen & 0x01ff\<close>\<close>

definition read_typelen :: "bytes \<Rightarrow> (int \<times> int) res" where
  "read_typelen arr = rbind (struct_unpack [FH] (bslice 0 2 arr)) (\<lambda>vs. case vs of
     [v] \<Rightarrow> Inr (drop_bit 9 v, v AND 0x01ff) | _ \<Rightarrow> Inl ValueError)"

definition read_byte :: "bytes \<Rightarrow> nat \<Rightarrow> int res" where
  "read_byte arr i = rmap hd (struct_unpack [FB] (bslice i (i + 1) arr))"

definition chassis_id_parse :: "bytes \<Rightarrow> chassis_id res" where
  "chassis_id_parse arr =
     rbind (read_typelen arr) (\<lambda>(t, strlen).
     rbind (guard_or AssertionError (t = 1 \<and> 2 \<le> strlen)) (\<lambda>_.
     rmap (\<lambda>subtype. \<lparr>cid_strlen = strlen, cid_subtype = subtype, cid_id = Some (drop 3 arr)\<rparr>) (read_byte arr 2)))"

definition port_id_parse :: "bytes \<Rightarrow> port_id res" where
  "port_id_parse arr =
     rbind (read_typelen arr) (\<lambda>(t, strlen).
     rbind (guard_or AssertionError (t = 2 \<and> 2 \<le> strlen)) (\<lambda>_.
     rbind (read_byte arr 2) (\<lambda>subtype.
     rbind (guard_or AssertionError (strlen = 1 + int (length (drop 3 arr)))) (\<lambda>_.
     Inr \<lparr>pid_subtype = subtype, pid_id = Some (drop 3 arr)\<rparr>))))"

definition ttl_parse :: "bytes \<Rightarrow> ttl res" where
  "ttl_parse arr =
     rbind (read_typelen arr) (\<lambda>(t, strlen).
     rbind (guard_or AssertionError (t = 3)) (\<lambda>_.
     if strlen \<noteq> 2 then Inr (ttl_init\<lparr>ttl_strlen := strlen\<rparr>)
     else rmap (\<lambda>vs. \<lparr>ttl_strlen = strlen, ttl_ttl = hd vs\<rparr>) (struct_unpack [FH] (bslice 2 4 arr))))"

definition end_tlv_parse :: "bytes \<Rightarrow> int res" where
  "end_tlv_parse arr =
     rbind (read_typelen arr) (\<lambda>(t, strlen). rbind (guard_or AssertionError (t = 0)) (\<lambda>_. Inr strlen))"

definition basic_tlv_parse :: "bytes \<Rightarrow> (int \<times> int \<times> bytes) res" where
  "basic_tlv_parse arr = rmap (\<lambda>(t, len). (t, len, drop 2 arr)) (read_typelen arr)"

text \<open>\<open>ord(data[i])\<close>\<close>

definition ord_at :: "bytes \<Rightarrow> nat \<Rightarrow> nat res" where
  "ord_at data i = (if i < length data then Inr (unat (data ! i)) else Inl IndexError)"

text \<open>The local variable \<open>asl\<close> is one less than the byte \<open>a\<close>, and may be \<open>-1\<close>.\<close>

definition management_address_parse :: "bytes \<Rightarrow> management_address res" where
  "management_address_parse data =
     rbind (read_typelen data) (\<lambda>_.
     rbind (ord_at data 2) (\<lambda>a.
     rbind (ord_at data 3) (\<lambda>subtype.
     rbind (ord_at data (3 + a)) (\<lambda>numbering.
     rbind (struct_unpack [FL] (bslice (4 + a) (8 + a) data)) (\<lambda>num.
     rmap (\<lambda>osl. \<lparr>ma_address_subtype = int subtype, ma_address = bslice 4 (3 + a) data,
          ma_interface_numbering_subtype = int numbering, ma_interface_number = hd num,
          ma_object_identifier = bslice (9 + a) (9 + a + osl) data\<rparr>)
       (ord_at data (8 + a)))))))"

definition organizationally_specific_parse :: "bytes \<Rightarrow> organizationally_specific res" where
  "organizationally_specific_parse arr =
     rbind (basic_tlv_parse arr) (\<lambda>(_, len, nxt).
     if length (take 4 nxt) < 4 then Inl StructError
     else Inr \<lparr>os_oui = take 3 nxt, os_subtype = int (unat (nxt ! 3)), os_next = drop 4 nxt, os_len = len\<rparr>)"

text \<open>\<open>cap and (1 << i)\<close> is true when \<open>cap\<close> is not zero.\<close>

definition system_capabilities_parse :: "bytes \<Rightarrow> system_capabilities res" where
  "system_capabilities_parse arr =
     rbind (basic_tlv_parse arr) (\<lambda>(_, len, nxt).
     rbind (struct_unpack [FH, FH] nxt) (\<lambda>vs. case vs of
       [cap, en] \<Rightarrow> Inr \<lparr>sc_caps = map (\<lambda>i. cap \<noteq> 0 \<and> (2::int) ^ i \<noteq> 0) [0..<16],
         sc_enabled_caps = map (\<lambda>i. en \<noteq> 0 \<and> (2::int) ^ i \<noteq> 0) [0..<16], sc_next = nxt, sc_len = len\<rparr>
     | _ \<Rightarrow> Inl ValueError))"

text \<open>\<open>lldp.tlv_parsers\<close>; a type without an entry makes an \<open>unknown_tlv\<close>.\<close>

definition tlv_new :: "int \<Rightarrow> bytes \<Rightarrow> tlv res" where
  "tlv_new t arr =
     (if t = 1 then rmap Chassis_id (chassis_id_parse arr)
      else if t = 2 then rmap Port_id (port_id_parse arr)
      else if t = 3 then rmap Ttl (ttl_parse arr)
      else if t = 0 then rmap End_tlv (end_tlv_parse arr)
      else if t = 127 then rmap Organizationally_specific (organizationally_specific_parse arr)
      else if t = 7 then rmap System_capabilities (system_capabilities_parse arr)
      else if t = 8 then rmap Management_address (management_address_parse arr)
      else rmap (\<lambda>(t, len, nxt). Basic_tlv t len nxt) (basic_tlv_parse arr))"

text \<open>\<open>next_tlv\<close>: \<open>None\<close> when the data is too short, otherwise the field and the bytes it took\<close>

definition next_tlv :: "bytes \<Rightarrow> (tlv \<times> nat) option res" where
  "next_tlv array =
     (if length array < 2 then Inr None
      else rbind (read_typelen array) (\<lambda>(t, len).
        if int (length array) < len then Inr None
        else rmap (\<lambda>v. Some (v, 2 + nat len)) (tlv_new t (bslice 0 (2 + nat len) array))))"

record lldp =
  lldp_tlvs :: "tlv list"
  lldp_parsed :: bool

lemma next_tlv_pos: "next_tlv b = Inr (Some (v, n)) \<Longrightarrow> 2 \<le> n"
  by (auto simp: next_tlv_def res_simps split: if_split_asm)

text \<open>A field at \<open>pduhead\<close> that has to be of the type \<open>t\<close>; without one the parser gives up.\<close>

definition expect_tlv :: "bytes \<Rightarrow> int \<Rightarrow> nat \<times> tlv list \<Rightarrow> (nat \<times> tlv list \<Rightarrow> lldp res) \<Rightarrow> lldp res" where
  "expect_tlv raw t = (\<lambda>(pduhead, tlvs) k.
     rbind (next_tlv (drop pduhead raw)) (\<lambda>r. case r of
       None \<Rightarrow> Inr \<lparr>lldp_tlvs = tlvs, lldp_parsed = False\<rparr>
     | Some (v, ret) \<Rightarrow> if tlv_type v \<noteq> t then Inr \<lparr>lldp_tlvs = tlvs @ [v], lldp_parsed = False\<rparr> else k (pduhead + ret, tlvs @ [v])))"

function parse_tlvs :: "bytes \<Rightarrow> nat \<times> tlv list \<Rightarrow> lldp res" where
  "parse_tlvs raw (pduhead, tlvs) = (case next_tlv (drop pduhead raw) of
     Inl e \<Rightarrow> Inl e
   | Inr None \<Rightarrow> Inr \<lparr>lldp_tlvs = tlvs, lldp_parsed = False\<rparr>
   | Inr (Some (v, ret)) \<Rightarrow>
       if tlv_type v = 0 then Inr \<lparr>lldp_tlvs = tlvs @ [v], lldp_parsed = True\<rparr>
       else if length raw \<le> pduhead + ret then Inr \<lparr>lldp_tlvs = tlvs @ [v], lldp_parsed = False\<rparr>
       else parse_tlvs raw (pduhead + ret, tlvs @ [v]))"
  by pat_completeness auto
termination
  by (relation "measure (\<lambda>(raw, pduhead, _). length raw - pduhead)") (auto dest: next_tlv_pos)

declare parse_tlvs.simps [simp del]

text \<open>\<open>lldp(raw = raw)\<close>\<close>

definition lldp_new :: "bytes \<Rightarrow> lldp res" where
  "lldp_new raw =
     (if length raw < 14 then Inr \<lparr>lldp_tlvs = [], lldp_parsed = False\<rparr>
      else expect_tlv raw 1 (0, []) (\<lambda>p. expect_tlv raw 2 p (\<lambda>p. expect_tlv raw 3 p (parse_tlvs raw))))"

text \<open>\<open>hdr\<close>, which is all of \<open>pack\<close>: the frame has no payload.\<close>

definition lldp_pack :: "tlv list \<Rightarrow> bytes res" where
  "lldp_pack tlvs = pack_list tlv_pack tlvs"

text \<open>The packet library with this class: an \<open>lldp\<close> object that was parsed is known by its bytes.\<close>

definition with_lldp :: "subs \<Rightarrow> subs" where
  "with_lldp sb = sb\<lparr>
     sub_new := (\<lambda>k raw. if k = ''lldp'' then rmap lldp_parsed (lldp_new raw) else sub_new sb k raw),
     sub_pack := (\<lambda>k raw. if k = ''lldp'' then rbind (lldp_new raw) (\<lambda>l. lldp_pack (lldp_tlvs l)) else sub_pack sb k raw)\<rparr>"

end
