(* ===== verification/Of_Connection.thy ===== *)
theory Of_Connection
  imports Switch_Laws
begin

text \<open>
  What the controller's applications use of a switch connection: \<open>Connection.send\<close> of \<open>pox/openflow/of_01.py\<close>, the packet
  a \<open>PacketIn\<close> event carries (\<open>pox/openflow/__init__.py\<close>), and the text of a datapath number.  A connection is a number;
  the state holds the bytes given to each connection's socket, in order.  What a socket does not take at once is written
  later by another thread, in the same order; a socket that fails is a connection that goes down.
\<close>

record of_nexus =
  nx_sent :: "(nat \<times> bytes) list"
  nx_disconnected :: "nat list"
  nx_nextXID :: int

text \<open>\<open>send\<close> packs the message, which may store a transaction identifier in it, unless the connection is down.\<close>

definition connection_send :: "nat \<Rightarrow> (int \<Rightarrow> 'm \<Rightarrow> (bytes \<times> 'm \<times> int) res) \<Rightarrow> 'm \<Rightarrow> ('z of_nexus_scheme, 'm) sm" where
  "connection_send c pack m = sbind (sget (\<lambda>s. c \<in> set (nx_disconnected s))) (\<lambda>disconnected.
     if disconnected then sret m
     else sbind (sget nx_nextXID) (\<lambda>nx. sbind (slift (pack nx m)) (\<lambda>(b, m', nx').
       sthen (smod (\<lambda>s. s\<lparr>nx_sent := nx_sent s @ [(c, b)], nx_nextXID := nx'\<rparr>)) (sret m'))))"

abbreviation flow_mod_send :: "nat \<Rightarrow> ofp_flow_mod \<Rightarrow> ('z of_nexus_scheme, ofp_flow_mod) sm" where
  "flow_mod_send c \<equiv> connection_send c (ofp_flow_mod_pack True)"

abbreviation packet_out_send :: "nat \<Rightarrow> ofp_packet_out \<Rightarrow> ('z of_nexus_scheme, ofp_packet_out) sm" where
  "packet_out_send c \<equiv> connection_send c (ofp_packet_out_pack True)"

abbreviation sdo :: "('s, 'a) sm \<Rightarrow> ('s, unit) sm" where
  "sdo m \<equiv> sthen m (sret ())"

text \<open>\<open>of.ofp_action_output(port = port)\<close>\<close>

definition output_to :: "int \<Rightarrow> ofp_action" where
  "output_to port = ActOutput (ofp_action_output_init\<lparr>out_port := Some port\<rparr>)"

text \<open>\<open>PacketIn.parse\<close>\<close>

definition parse_packet_in :: "swenv \<Rightarrow> ofp_packet_in \<Rightarrow> packet res" where
  "parse_packet_in env ofp = ethernet_new (env_subs env) (env_iid env) (env_rnd env) (pi_data ofp)"

text \<open>Attributes of the parsed packet: an \<open>ethernet\<close> with addresses.\<close>

definition eth_of :: "packet \<Rightarrow> ethernet res" where
  "eth_of p = (case p of Ethernet e _ \<Rightarrow> Inr e | _ \<Rightarrow> Inl AttributeError)"

definition hw_eth :: "hwaddr \<Rightarrow> EthAddr res" where
  "hw_eth a = (case a of HwEth e \<Rightarrow> Inr e | HwBytes _ \<Rightarrow> Inl AttributeError)"

text \<open>\<open>dpidToStr\<close> of \<open>pox/lib/util.py\<close>\<close>

definition dpidToStr :: "int \<Rightarrow> string res" where
  "dpidToStr dpid = rmap (\<lambda>b.
      join_str ''-'' (map hex02 (drop 2 b))
      @ (if take 2 b \<noteq> zeros 2 then ''|'' @ str_int (int (be_val (take 2 b))) else []))
    (struct_pack [FQ] [dpid])"

section \<open>A flow for a port\<close>

text \<open>The flow modification the applications send: matching packets leave by one port.\<close>

definition port_flow :: "ofp_match \<Rightarrow> int \<Rightarrow> int \<Rightarrow> ofp_flow_mod" where
  "port_flow match port buf = ofp_flow_mod_init\<lparr>fm_match := match, fm_idle_timeout := 10, fm_hard_timeout := 30,
     fm_actions := [output_to port], fm_buffer_id := Some buf\<rparr>"

text \<open>What a switch reads in its bytes.\<close>

definition carries :: "ofp_match \<Rightarrow> int \<Rightarrow> int \<Rightarrow> bytes \<Rightarrow> bool" where
  "carries match port buf b \<longleftrightarrow> (\<exists>m. ofp_flow_mod_unpack ofp_flow_mod_init b = Inr (m, []) \<and> fm_command m = OFPFC_ADD
     \<and> fm_idle_timeout m = 10 \<and> fm_hard_timeout m = 30 \<and> fm_priority m = OFP_DEFAULT_PRIORITY \<and> fm_buffer_id m = Some buf
     \<and> fm_flags m = 0 \<and> fm_out_port m = OFPP_NONE
     \<and> fm_actions m = [action_norm (output_to port)] \<and> ofp_match_eq match (fm_match m) = Inr True \<and> match_typed (fm_match m))"

text \<open>Values that fit their fields\<close>

definition port_ok :: "int \<Rightarrow> bool" where
  "port_ok p \<longleftrightarrow> 0 \<le> p \<and> p < 65536"

definition buffer_ok :: "int \<Rightarrow> bool" where
  "buffer_ok b \<longleftrightarrow> - 1 \<le> b \<and> b < 0xffffffff"

definition match_ok :: "ofp_match \<Rightarrow> bool" where
  "match_ok m \<longleftrightarrow> match_consistent m \<and> is_ok (ofp_match_pack True True m)"

lemma output_to_pack: "port_ok port \<Longrightarrow> \<exists>ab. pack_list pack_action [output_to port] = Inr ab \<and> length ab = 8"
  by (simp add: port_ok_def output_to_def ofp_action_output_pack_def ofp_action_output_after_pack_def ofp_action_output_init_def
      struct_pack.simps in_range_def add_packed_def)

lemma output_to_wf: "action_wf (output_to port)" "action_len (output_to port) = 8"
  by (simp_all add: output_to_def ofp_action_output_init_def ofp_action_output_len_def)

lemma port_flow_packs:
  assumes "match_ok match" "port_ok port" "xid_ok nx"
  shows "\<exists>b m'. ofp_flow_mod_pack True nx (port_flow match port buf) = Inr (b, m', snd (generateXID nx))"
proof -
  obtain mb where mb: "ofp_match_pack True True match = Inr mb" using assms(1) by (auto simp: match_ok_def is_ok_iff)
  obtain ab where ab: "pack_list pack_action [output_to port] = Inr ab" using output_to_pack [OF assms(2)] by blast
  have "in_range FL (buf AND 0xffffffff)" by (simp add: and_mask32 in_range_def)
  then show ?thesis
    using mb ab assms(3)
    by (simp add: ofp_flow_mod_pack_def msg_pack_def port_flow_def ofp_flow_mod_init_def ofp_header_pack_def assign_xid_def
        generateXID_def Let_def ofp_header_assert_def ofp_type_known_iff struct_pack.simps in_range_def xid_ok_def
        ofp_flow_mod_len_def output_to_wf del: pack_list.simps)
qed

lemma port_flow_carries:
  assumes "match_ok match" "buffer_ok buf" "ofp_flow_mod_pack True nx (port_flow match port buf) = Inr (b, m', nx')"
  shows "carries match port buf b"
proof -
  let ?m = "port_flow match port buf"
  have f: "list_all action_wf (fm_actions ?m)" "match_consistent (fm_match ?m)" "fm_buffer_id ?m = Some buf" "fm_match ?m = match"
    using assms(1) by (simp_all add: port_flow_def match_ok_def output_to_wf)
  obtain mb where mb: "ofp_match_pack True True match = Inr mb" using assms(1) by (auto simp: match_ok_def is_ok_iff)
  then obtain ns nd where "fix_addr (attr_nw_src match) = Inr ns" "fix_addr (attr_nw_dst match) = Inr nd"
    by (auto simp: ofp_match_pack_def res_simps split: if_split_asm)
  then have eq: "ofp_match_eq match (match_wire True match) = Inr True" using match_wire_eq f(2,4) by simp
  have u: "ofp_flow_mod_unpack ofp_flow_mod_init b = Inr (m'\<lparr>fm_match := match_wire True match,
      fm_actions := [action_norm (output_to port)]\<rparr>, [])"
    using ofp_flow_mod_wire [OF assms(3) f(1-3), of ofp_flow_mod_init "[]"] assms(2) f(4)
    by (simp add: buffer_ok_def) (simp add: port_flow_def)
  obtain x where "m' = ?m\<lparr>msg_len := ofp_flow_mod_len ?m, xid := x, fm_actions := map action_after_pack (fm_actions ?m)\<rparr>"
    using assms(3) by (auto simp: ofp_flow_mod_pack_def msg_pack_def rbind_eq_Inr rmap_eq_Inr dest!: ofp_header_pack_keeps)
  moreover have "match_typed (match_wire True match)" by (simp add: match_typed_def match_wire_def Let_def)
  ultimately show ?thesis unfolding carries_def u using eq by (simp add: port_flow_def ofp_flow_mod_init_def)
qed

text \<open>Bytes that a switch reads as one message of the given type.\<close>

definition framed :: "int \<Rightarrow> bytes \<Rightarrow> bool" where
  "framed t b \<longleftrightarrow> 4 < length b \<and> uint (b ! 0) = OFP_VERSION \<and> uint (b ! 1) = t \<and> frame_len b = length b"

lemma port_flow_framed:
  assumes "match_ok match" "buffer_ok buf" "ofp_flow_mod_pack True nx (port_flow match port buf) = Inr (b, m', nx')"
  shows "framed 14 b"
proof -
  let ?m = "port_flow match port buf"
  have f: "list_all action_wf (fm_actions ?m)" "match_consistent (fm_match ?m)" "fm_buffer_id ?m = Some buf"
    using assms(1) by (simp_all add: port_flow_def match_ok_def output_to_wf)
  have len: "length b = 80"
    using ofp_flow_mod_wire [OF assms(3) f, of undefined "[]"] assms(2)
    by (simp add: buffer_ok_def) (simp add: port_flow_def ofp_flow_mod_len_def output_to_wf)
  obtain h x rest where h: "struct_pack [FB, FB, FH, FL] [OFP_VERSION, 14, 80, x] = Inr h" and b: "b = h @ rest"
    using assms(3)
    by (auto simp: ofp_flow_mod_pack_def msg_pack_def rbind_eq_Inr rmap_eq_Inr ofp_header_pack_def assign_xid_def port_flow_def
        ofp_flow_mod_init_def ofp_flow_mod_len_def output_to_wf split: prod.splits if_splits option.splits simp del: struct_pack.simps)
  show ?thesis
    using header_bytes [OF _ _ _ _ h] len by (auto simp: framed_def b nth_append frame_len_def)
qed

text \<open>Sending such a flow to a connection that is up.\<close>

lemma port_flow_sent:
  assumes "match_ok match" "port_ok port" "buffer_ok buf" "xid_ok (nx_nextXID s)" "c \<notin> set (nx_disconnected s)"
  shows "\<exists>b m'. flow_mod_send c (port_flow match port buf) s = (Inr m', s\<lparr>nx_sent := nx_sent s @ [(c, b)],
      nx_nextXID := snd (generateXID (nx_nextXID s))\<rparr>) \<and> carries match port buf b \<and> framed 14 b"
proof -
  obtain b m' where "ofp_flow_mod_pack True (nx_nextXID s) (port_flow match port buf) = Inr (b, m', snd (generateXID (nx_nextXID s)))"
    using port_flow_packs [OF assms(1,2,4)] by blast
  with port_flow_carries [OF assms(1,3) this] port_flow_framed [OF assms(1,3) this] assms(5) show ?thesis
    by (auto simp: connection_send_def sret_def)
qed

section \<open>The switch at the other end\<close>

lemma action_norm_output: "action_norm (output_to port) = ActOutput (ofp_action_output_init\<lparr>out_port := Some port, out_max_len := out_max_len (ofp_action_output_after_pack (ofp_action_output_init\<lparr>out_port := Some port\<rparr>))\<rparr>)"
  by (simp add: output_to_def ofp_action_output_after_pack_def)

text \<open>The entry of such a flow\<close>

definition port_entry :: "ofp_match \<Rightarrow> int \<Rightarrow> table_entry \<Rightarrow> bool" where
  "port_entry match port e \<longleftrightarrow> ofp_match_eq match (te_match e) = Inr True \<and> te_actions e = [action_norm (output_to port)]
     \<and> te_priority e = OFP_DEFAULT_PRIORITY \<and> te_idle_timeout e = 10 \<and> te_hard_timeout e = 30"

text \<open>A switch that gets such a flow adds it to its table and sends the buffered packet out of the port.\<close>

lemma switch_takes_flow:
  assumes "framed 14 b" "carries match port (int k + 1) b" "sw_receive_buf t = []"
    and "table_ok (sw_table t)" "\<forall>e \<in> set (ft_table (sw_table t)). match_typed (te_match e)"
    and "k < length (sw_buffer t)" "sw_buffer t ! k = Some (i, in_port)" "is_ethernet (sw_heap t ! i)"
    and "port < OFPP_MAX" "map_of (sw_ports t) port = Some pp"
  shows "\<exists>tab e. push_receive_data 2 env b t = Some (Inr RTrue, t\<lparr>sw_table := tab, sw_buffer := (sw_buffer t)[k := None],
        sw_events := sw_events t @ [(sw_heap t ! i, pp)]\<rparr>)
    \<and> port_entry match port e
    \<and> set (ft_table tab) = insert e {x \<in> set (ft_table (sw_table t)). \<not> (ofp_match_eq (te_match x) (te_match e) = Inr True \<and> te_priority x = te_priority e)}"
proof -
  obtain m where m: "ofp_flow_mod_unpack ofp_flow_mod_init b = Inr (m, [])" "fm_command m = OFPFC_ADD" "fm_buffer_id m = Some (int k + 1)"
    "fm_flags m = 0" "fm_out_port m = OFPP_NONE" "fm_actions m = [action_norm (output_to port)]"
    "ofp_match_eq match (fm_match m) = Inr True" "match_typed (fm_match m)"
    "fm_idle_timeout m = 10" "fm_hard_timeout m = 30" "fm_priority m = OFP_DEFAULT_PRIORITY"
    using assms(2) by (auto simp: carries_def)
  let ?e = "from_flow_mod (ft_fresh (sw_table t)) (env_now (env 0)) m"
  have "fm_flags m AND 2 = 0" using m(4) by simp
  then obtain tab where tab: "process_flow_mod (env_now (env 0)) m (sw_table t) = (Inr Added, tab)"
    "set (ft_table tab) = insert ?e {x \<in> set (ft_table (sw_table t)). \<not> (ofp_match_eq (te_match x) (fm_match m) = Inr True \<and> te_priority x = fm_priority m)}"
    using flow_mod_add_table [OF assms(4,5) m(8,2) _ m(5), of "env_now (env 0)"] by blast
  have e: "port_entry match port ?e"
    using m by (simp add: port_entry_def) (simp add: from_flow_mod_def TableEntry_init_def)
  let ?t = "t\<lparr>sw_table := tab, sw_buffer := (sw_buffer t)[k := None], sw_events := sw_events t @ [(sw_heap t ! i, pp)]\<rparr>"
  have act: "do_action (env 0) (action_norm (output_to port)) i in_port (t\<lparr>sw_table := tab\<rparr>)
     = (Inr (), t\<lparr>sw_table := tab, sw_events := sw_events t @ [(sw_heap t ! i, pp)]\<rparr>)"
    using assms(8-10)
    by (simp add: action_norm_output do_action_def attr_port_def output_packet_def assert_ethernet_def get_packet_def real_send_def
        ofp_action_output_init_def sm_simps sthen_def sbind_def)
  have "handle_msg (env 0) (IFlowMod m) t = (Inr (), ?t)"
    using m(3,6) tab(1) assms(6,7) act
    by (simp add: receive_flow_mod_def szoom_def process_actions_from_buffer_def process_actions_def Let_def sthen_def sbind_def sret_def sget_def smod_def)
  moreover have "(t\<lparr>sw_receive_buf := b\<rparr>)\<lparr>sw_receive_buf := []\<rparr> = t" using assms(3) by (cases t) simp
  ultimately have h: "handle_msg (env 0) (IFlowMod m) ((t\<lparr>sw_receive_buf := b\<rparr>)\<lparr>sw_receive_buf := []\<rparr>) = (Inr (), ?t)" by (simp only:)
  have u: "unpack_msg (uint (b ! 1)) b = Inr (IFlowMod m)"
    using assms(1) m(1) by (simp add: framed_def unpack_msg_def)
  have "read_loop (Suc (Suc 0)) env (t\<lparr>sw_receive_buf := b\<rparr>) = Some (Inr RTrue, ?t)"
    by (rule read_one_frame [where env = env, OF _ _ _ _ u h]) (use assms(1,3) in \<open>simp_all add: framed_def\<close>)
  then have "push_receive_data 2 env b t = Some (Inr RTrue, ?t)"
    using assms(3) by (simp add: push_receive_data_def numeral_2_eq_2 del: read_loop.simps)
  then show ?thesis using tab(2) e by (intro exI [of _ tab] exI [of _ ?e]) simp
qed

section \<open>Transaction identifiers\<close>

text \<open>Packing a message leaves the counter of identifiers in its range.\<close>

lemma header_pack_nx: "ofp_header_pack nx m = Inr (b, m', nx') \<Longrightarrow> xid_ok nx \<Longrightarrow> xid_ok nx'"
  using generateXID_ok [of nx] by (auto simp: ofp_header_pack_Inr assign_xid_def split: option.splits prod.splits)

lemma flow_mod_pack_nx: "ofp_flow_mod_pack a nx m = Inr (b, m', nx') \<Longrightarrow> xid_ok nx \<Longrightarrow> xid_ok nx'"
  by (auto simp: ofp_flow_mod_pack_def msg_pack_def rbind_eq_Inr rmap_eq_Inr split: if_split_asm dest: header_pack_nx)

lemma packet_out_pack_nx: "ofp_packet_out_pack a nx m = Inr (b, m', nx') \<Longrightarrow> xid_ok nx \<Longrightarrow> xid_ok nx'"
  by (auto simp: ofp_packet_out_pack_def msg_pack_def rbind_eq_Inr rmap_eq_Inr split: if_split_asm dest: header_pack_nx)

lemma connection_send_nx:
  assumes "\<And>nx m b m' nx'. pk nx m = Inr (b, m', nx') \<Longrightarrow> xid_ok nx \<Longrightarrow> xid_ok nx'" "xid_ok (nx_nextXID s)"
  shows "xid_ok (nx_nextXID (snd (connection_send c pk m s)))"
  using assms by (auto simp: connection_send_def sm_simps sbind_def sget_def slift_def sret_def split: sum.split prod.split)

end
