(* ===== verification/Discovery.thy ===== *)
theory Discovery
  imports Lldp Of_Connection
begin

text \<open>
  \<open>pox/openflow/discovery.py\<close>: the component that finds the links between switches.  \<open>LLDPSender\<close> keeps one discovery packet for
  each port and sends them in turn; a packet that comes in at another switch names the port it left by, which makes a link; a link
  that is not seen again in time is removed.  Raising a \<open>LinkEvent\<close> calls whoever listens, and is an argument \<open>notify\<close> of the
  handlers.  The state holds what the component keeps next to the nexus; a dictionary is an association list, and the order in which Python
  iterates over the links is an argument \<open>order\<close>.  Of the log messages only the arguments that may raise are kept.
\<close>

section \<open>State\<close>

record link =
  link_dpid1 :: dpid
  link_port1 :: int
  link_dpid2 :: dpid
  link_port2 :: int

text \<open>\<open>flip\<close>, a local function of the components that use links\<close>

definition flip :: "link \<Rightarrow> link" where
  "flip l = \<lparr>link_dpid1 = link_dpid2 l, link_port1 = link_port2 l, link_dpid2 = link_dpid1 l, link_port2 = link_port1 l\<rparr>"

record send_item =
  si_dpid :: dpid
  si_portNum :: int
  si_packet :: bytes

text \<open>
  \<open>dc_packets\<close> and \<open>dc_timer\<close> are the attributes of the \<open>LLDPSender\<close>; a running timer is the number by which its period divides
  \<open>LLDP_SEND_CYCLE\<close>.
\<close>

record discovery = of_nexus +
  dc_explicit_drop :: bool
  dc_install_flow :: bool
  dc_dps :: "dpid set"
  dc_adjacency :: "(link \<times> int) list"
  dc_packets :: "send_item list"
  dc_timer :: "nat option"

definition Discovery_init :: "bool \<Rightarrow> bool \<Rightarrow> int \<Rightarrow> discovery" where
  "Discovery_init install_flow explicit_drop nx = \<lparr>nx_sent = [], nx_disconnected = [], nx_nextXID = nx,
     dc_explicit_drop = explicit_drop, dc_install_flow = install_flow, dc_dps = {}, dc_adjacency = [], dc_packets = [], dc_timer = None\<rparr>"

abbreviation known_links :: "'z discovery_scheme \<Rightarrow> link list" where
  "known_links s \<equiv> map fst (dc_adjacency s)"

abbreviation (input) LINK_TIMEOUT :: int where "LINK_TIMEOUT \<equiv> 10"

definition NDP_MULTICAST :: EthAddr where
  "NDP_MULTICAST = EthAddr [0x01, 0x23, 0x20, 0, 0, 0x01]"

section \<open>Discovery packets\<close>

text \<open>\<open>hex(long(dpid))[2:-1]\<close>\<close>

definition hex_long :: "int \<Rightarrow> string" where
  "hex_long i = (if i < 0 then CHR ''x'' # digits_of 16 (nat (- i)) else digits_of 16 (nat i))"

definition dpid_text :: "dpid \<Rightarrow> bytes" where
  "dpid_text dpid = bytes_of_str (''dpid:'' @ hex_long dpid)"

definition discovery_tlvs :: "dpid \<Rightarrow> int \<Rightarrow> tlv list" where
  "discovery_tlvs dpid portNum =
     [Chassis_id (chassis_id_fill 7 (dpid_text dpid) chassis_id_init),
      Port_id (port_id_fill 2 (bytes_of_str (str_int portNum)) port_id_init),
      Ttl (ttl_fill 120 ttl_init),
      basic_tlv_fill (dpid_text dpid) (Basic_tlv 6 0 []),
      End_tlv 0]"

definition create_discovery_packet :: "dpid \<Rightarrow> int \<Rightarrow> hwaddr \<Rightarrow> int \<Rightarrow> (bytes \<times> int) res" where
  "create_discovery_packet dpid portNum portAddr nx =
     rbind (lldp_pack (discovery_tlvs dpid portNum)) (\<lambda>rest.
     rbind (ethernet_hdr (ethernet_init\<lparr>eth_src := portAddr, eth_dst := HwEth NDP_MULTICAST, eth_type := 0x88cc\<rparr>)) (\<lambda>h.
     rmap (\<lambda>(b, _, nx'). (b, nx'))
       (ofp_packet_out_pack True nx (ofp_packet_out_init\<lparr>po_actions := [output_to portNum], po_data := h @ rest\<rparr>))))"

section \<open>The sender\<close>

definition setTimer :: "('z discovery_scheme, unit) sm" where
  "setTimer = smod (\<lambda>s. s\<lparr>dc_timer := (if length (dc_packets s) \<noteq> 0 then Some (length (dc_packets s)) else None)\<rparr>)"

definition keep_packets :: "(send_item \<Rightarrow> bool) \<Rightarrow> ('z discovery_scheme, unit) sm" where
  "keep_packets P = smod (\<lambda>s. s\<lparr>dc_packets := filter P (dc_packets s)\<rparr>)"

definition append_packet :: "dpid \<Rightarrow> int \<Rightarrow> hwaddr \<Rightarrow> ('z discovery_scheme, unit) sm" where
  "append_packet dpid portNum portAddr = sbind (sget nx_nextXID) (\<lambda>nx.
     sbind (slift (create_discovery_packet dpid portNum portAddr nx)) (\<lambda>(b, nx').
     smod (\<lambda>s. s\<lparr>nx_nextXID := nx', dc_packets := dc_packets s @ [\<lparr>si_dpid = dpid, si_portNum = portNum, si_packet = b\<rparr>]\<rparr>)))"

definition addSwitch :: "dpid \<Rightarrow> (int \<times> hwaddr) list \<Rightarrow> ('z discovery_scheme, unit) sm" where
  "addSwitch dpid ports =
     sthen (keep_packets (\<lambda>p. si_dpid p \<noteq> dpid))
     (sthen (sfor (\<lambda>(portNum, portAddr). if portNum > OFPP_MAX then sret () else append_packet dpid portNum portAddr) ports)
      setTimer)"

definition delSwitch :: "dpid \<Rightarrow> ('z discovery_scheme, unit) sm" where
  "delSwitch dpid = sthen (keep_packets (\<lambda>p. si_dpid p \<noteq> dpid)) setTimer"

definition delPort :: "dpid \<Rightarrow> int \<Rightarrow> ('z discovery_scheme, unit) sm" where
  "delPort dpid portNum = sthen (keep_packets (\<lambda>p. si_dpid p \<noteq> dpid \<or> si_portNum p \<noteq> portNum)) setTimer"

definition addPort :: "dpid \<Rightarrow> int \<Rightarrow> hwaddr \<Rightarrow> ('z discovery_scheme, unit) sm" where
  "addPort dpid portNum portAddr =
     (if portNum > OFPP_MAX then sret ()
      else sthen (delPort dpid portNum) (sthen (append_packet dpid portNum portAddr) setTimer))"

text \<open>
  \<open>Connection.send\<close> of bytes, and \<open>sendToDPID\<close> of the nexus, whose connections are the argument \<open>cons\<close>
\<close>

definition send_bytes :: "nat \<Rightarrow> bytes \<Rightarrow> ('z of_nexus_scheme, unit) sm" where
  "send_bytes c b = sdo (connection_send c (\<lambda>nx m. Inr (m, m, nx)) b)"

definition timerHandler :: "(dpid \<Rightarrow> nat option) \<Rightarrow> ('z discovery_scheme, unit) sm" where
  "timerHandler cons = sbind (sget dc_packets) (\<lambda>packets. case packets of
     [] \<Rightarrow> sraise IndexError
   | item # rest \<Rightarrow> sthen (smod (\<lambda>s. s\<lparr>dc_packets := rest @ [item]\<rparr>))
       (case cons (si_dpid item) of None \<Rightarrow> sret () | Some c \<Rightarrow> send_bytes c (si_packet item)))"

section \<open>Links\<close>

text \<open>\<open>_deleteLinks\<close>: an exception of a listener ends the loop.\<close>

definition deleteLinks :: "(bool \<Rightarrow> link \<Rightarrow> ('z discovery_scheme, unit) sm) \<Rightarrow> link list \<Rightarrow> ('z discovery_scheme, unit) sm" where
  "deleteLinks notify deleteme = sfor (\<lambda>link.
     sbind (sget known_links) (\<lambda>known.
     if link \<notin> set known then sraise KeyError
     else sthen (smod (\<lambda>s. s\<lparr>dc_adjacency := AList.delete link (dc_adjacency s)\<rparr>)) (notify False link))) deleteme"

definition expireLinks :: "(bool \<Rightarrow> link \<Rightarrow> ('z discovery_scheme, unit) sm) \<Rightarrow> (link list \<Rightarrow> link list) \<Rightarrow> int \<Rightarrow> ('z discovery_scheme, unit) sm" where
  "expireLinks notify order curtime = sbind (sget dc_adjacency) (\<lambda>adj.
     let deleteme = filter (\<lambda>l. case map_of adj l of None \<Rightarrow> False | Some timestamp \<Rightarrow> curtime - timestamp > LINK_TIMEOUT) (order (map fst adj)) in
     sthen (sfor (\<lambda>l. sthen (slift (dpidToStr (link_dpid1 l))) (sdo (slift (dpidToStr (link_dpid2 l))))) deleteme)
      (deleteLinks notify deleteme))"

definition isSwitchOnlyPort :: "link list \<Rightarrow> dpid \<Rightarrow> int \<Rightarrow> bool" where
  "isSwitchOnlyPort adj dpid port =
     list_ex (\<lambda>l. (link_dpid1 l = dpid \<and> link_port1 l = port) \<or> (link_dpid2 l = dpid \<and> link_port2 l = port)) adj"

section \<open>Connections and ports\<close>

definition lldp_flow :: ofp_flow_mod where
  "lldp_flow = ofp_flow_mod_init\<lparr>fm_match := set_dl_dst (Some (HwEth NDP_MULTICAST)) (set_dl_type (Some 0x88cc) ofp_match_init),
     fm_actions := [output_to OFPP_CONTROLLER]\<rparr>"

definition dc_ConnectionUp :: "nat \<Rightarrow> dpid \<Rightarrow> ofp_phy_port list \<Rightarrow> ('z discovery_scheme, unit) sm" where
  "dc_ConnectionUp con dpid ports =
     sbind (sget dc_dps) (\<lambda>dps. sthen (slift (guard_or AssertionError (dpid \<notin> dps)))
     (sbind (sget dc_install_flow) (\<lambda>install.
      sthen (if install then sthen (slift (dpidToStr dpid)) (sdo (flow_mod_send con lldp_flow)) else sret ())
      (sthen (smod (\<lambda>s. s\<lparr>dc_dps := insert dpid (dc_dps s)\<rparr>))
        (addSwitch dpid (map (\<lambda>p. (pp_port_no p, pp_hw_addr p)) ports))))))"

definition dc_ConnectionDown :: "(bool \<Rightarrow> link \<Rightarrow> ('z discovery_scheme, unit) sm) \<Rightarrow> (link list \<Rightarrow> link list) \<Rightarrow> dpid \<Rightarrow> ('z discovery_scheme, unit) sm" where
  "dc_ConnectionDown notify order dpid =
     sbind (sget dc_dps) (\<lambda>dps. sthen (slift (guard_or AssertionError (dpid \<in> dps)))
     (sthen (smod (\<lambda>s. s\<lparr>dc_dps := dc_dps s - {dpid}\<rparr>))
     (sthen (delSwitch dpid)
     (sbind (sget known_links) (\<lambda>known.
        deleteLinks notify (filter (\<lambda>l. link_dpid1 l = dpid \<or> link_dpid2 l = dpid) (order known)))))))"

definition dc_PortStatus :: "dpid \<Rightarrow> int \<Rightarrow> bool \<Rightarrow> bool \<Rightarrow> hwaddr \<Rightarrow> ('z discovery_scheme, unit) sm" where
  "dc_PortStatus dpid port added deleted hw_addr =
     (if port \<le> OFPP_MAX then
        if added then addPort dpid port hw_addr else if deleted then delPort dpid port else sret ()
      else sret ())"

section \<open>Packets in\<close>

text \<open>\<open>lookInSysDesc\<close>: the first system description decides; a line \<open>dpid:\<close> with a number, or eight bytes.\<close>

definition line_dpid :: "string \<Rightarrow> int option" where
  "line_dpid line =
     (if take 5 line = ''dpid:'' then (case py_int 16 (drop 5 line) of Inl _ \<Rightarrow> None | Inr v \<Rightarrow> Some v) else None)"

definition sysdesc_dpid :: "bytes \<Rightarrow> int option" where
  "sysdesc_dpid nxt =
     (case List.map_filter line_dpid (split_on (CHR ''\<newline>'') (str_of_bytes nxt)) of
        v # _ \<Rightarrow> Some v
      | [] \<Rightarrow> if length nxt = 8 then Some (int (be_val nxt)) else None)"

fun lookInSysDesc :: "tlv list \<Rightarrow> int option" where
  "lookInSysDesc [] = None"
| "lookInSysDesc (Basic_tlv t _ nxt # vs) = (if t = 6 then sysdesc_dpid nxt else lookInSysDesc vs)"
| "lookInSysDesc (_ # vs) = lookInSysDesc vs"

text \<open>
  The chassis: with the subtype for local names the code calls a method \<open>tostring\<close> that strings do not have, and the exception is
  swallowed; six bytes of a hardware address are read as a number.
\<close>

definition chassis_dpid :: "chassis_id \<Rightarrow> int option" where
  "chassis_dpid c = (if cid_subtype c = 4 then
     (case cid_id c of Some i \<Rightarrow> if length i = 6 then Some (int (be_val i)) else None | None \<Rightarrow> None) else None)"

definition originator_port :: "bytes \<Rightarrow> int option" where
  "originator_port i =
     (if i \<noteq> [] \<and> list_all (\<lambda>b. 48 \<le> b \<and> b \<le> 57) i then (case py_int 10 (str_of_bytes i) of Inl _ \<Rightarrow> None | Inr v \<Rightarrow> Some v)
      else if length i = 2 then Some (int (be_val i)) else None)"

text \<open>The port a discovery packet of a known switch left by, or \<open>None\<close> where the handler returns\<close>

definition originator :: "dpid set \<Rightarrow> tlv list \<Rightarrow> (dpid \<times> int) option" where
  "originator dps tlvs = (case tlvs of
     Chassis_id c # Port_id p # Ttl _ # rest \<Rightarrow>
       (case (case lookInSysDesc rest of Some d \<Rightarrow> Some d | None \<Rightarrow> chassis_dpid c) of
          None \<Rightarrow> None
        | Some d \<Rightarrow> if d \<notin> dps \<or> pid_subtype p \<noteq> 2 then None
            else (case pid_id p of None \<Rightarrow> None | Some i \<Rightarrow> map_option (Pair d) (originator_port i)))
   | _ \<Rightarrow> None)"

text \<open>\<open>raiseEventNoErrors\<close>: what a listener did before an exception stays done.\<close>

definition no_errors :: "('s, unit) sm \<Rightarrow> ('s, unit) sm" where
  "no_errors m = (\<lambda>s. (Inr (), snd (m s)))"

definition see_link :: "(bool \<Rightarrow> link \<Rightarrow> ('z discovery_scheme, unit) sm) \<Rightarrow> int \<Rightarrow> link \<Rightarrow> ('z discovery_scheme, unit) sm" where
  "see_link notify now l = sbind (sget known_links) (\<lambda>known.
     sthen (smod (\<lambda>s. s\<lparr>dc_adjacency := AList.update l now (dc_adjacency s)\<rparr>))
     (if l \<in> set known then sret ()
      else sthen (slift (dpidToStr (link_dpid1 l))) (sthen (slift (dpidToStr (link_dpid2 l))) (no_errors (notify True l)))))"

definition drop_buffer :: "nat \<Rightarrow> ofp_packet_in \<Rightarrow> ('z of_nexus_scheme, unit) sm" where
  "drop_buffer con ofp =
     (if pi_buffer_id ofp \<noteq> - 1 then
        sdo (packet_out_send con (ofp_packet_out_init\<lparr>po_buffer_id := pi_buffer_id ofp, po_in_port := pi_in_port ofp\<rparr>))
      else sret ())"

text \<open>
  \<open>_handle_PacketIn\<close> for a packet from the connection \<open>con\<close> of the switch \<open>dpid\<close>; \<open>True\<close> is \<open>EventHalt\<close>.
\<close>

definition dc_PacketIn :: "(bool \<Rightarrow> link \<Rightarrow> ('z discovery_scheme, unit) sm) \<Rightarrow> swenv \<Rightarrow> int \<Rightarrow> nat \<Rightarrow> dpid \<Rightarrow> ofp_packet_in
    \<Rightarrow> ('z discovery_scheme, bool) sm" where
  "dc_PacketIn notify env now con dpid ofp =
     sbind (slift (parse_packet_in env ofp)) (\<lambda>packet.
     sbind (slift (eth_of packet)) (\<lambda>e.
     if eth_type e \<noteq> 0x88cc \<or> eth_dst e \<noteq> HwEth NDP_MULTICAST then sret False
     else case next_of packet of
       Other k True raw \<Rightarrow>
         sthen (slift (guard_or AssertionError (k = ''lldp'')))
         (sbind (sget dc_explicit_drop) (\<lambda>explicit_drop.
          sthen (if explicit_drop then drop_buffer con ofp else sret ())
          (sbind (slift (lldp_new raw)) (\<lambda>lldph. sbind (sget dc_dps) (\<lambda>dps.
             case originator dps (lldp_tlvs lldph) of
               None \<Rightarrow> sret False
             | Some (d, port) \<Rightarrow>
                 if (dpid, pi_in_port ofp) = (d, port) then sret False
                 else sthen (see_link notify now \<lparr>link_dpid1 = d, link_port1 = port, link_dpid2 = dpid, link_port2 = pi_in_port ofp\<rparr>)
                   (sret True))))))
     | Other k False raw \<Rightarrow> sret False
     | Bytes [] \<Rightarrow> sret False
     | _ \<Rightarrow> sraise AssertionError))"

end
