(* ===== verification/L2_Paths.thy ===== *)
theory L2_Paths
  imports Pox_Prelude
begin

text \<open>
  \<open>_calc_paths\<close> of \<open>pox/forwarding/l2_multi.py\<close>: the table of distances and intermediate switches between the switches
  of the network, computed by relaxing every pair over every intermediate switch.  A switch is its datapath number.
  The lemmas show that the table holds the lengths of the shortest walks and that an intermediate switch lies on one.
\<close>

section \<open>The table\<close>

text \<open>
  \<open>adjacency[sw1][sw2]\<close> is the port of \<open>sw1\<close> that leads to \<open>sw2\<close>; an entry \<open>None\<close> of the nested dictionaries counts
  as absent everywhere, so it is left out.  \<open>path_map[sw1][sw2]\<close> is a pair of distance and intermediate switch, by
  default \<open>(None, None)\<close>.
\<close>

type_synonym adjacency = "((dpid \<times> dpid) \<times> int) list"
type_synonym path_map = "dpid \<Rightarrow> dpid \<Rightarrow> nat option \<times> dpid option"

definition no_paths :: path_map where
  "no_paths = (\<lambda>_ _. (None, None))"

definition set_path :: "dpid \<Rightarrow> dpid \<Rightarrow> nat option \<times> dpid option \<Rightarrow> path_map \<Rightarrow> path_map" where
  "set_path i j e pm = pm(i := (pm i)(j := e))"

abbreviation dist :: "path_map \<Rightarrow> dpid \<Rightarrow> dpid \<Rightarrow> nat option" where
  "dist pm i j \<equiv> fst (pm i j)"

text \<open>\<open>adjacency[k].iteritems()\<close>\<close>

definition row_items :: "adjacency \<Rightarrow> dpid \<Rightarrow> (dpid \<times> int) list" where
  "row_items adj k = map (\<lambda>((_, j), port). (j, port)) (filter (\<lambda>((i, _), _). i = k) adj)"

definition direct_paths :: "adjacency \<Rightarrow> dpid \<Rightarrow> path_map \<Rightarrow> path_map" where
  "direct_paths adj k pm =
     set_path k k (Some 0, None) (fold (\<lambda>(j, _). set_path k j (Some 1, None)) (row_items adj k) pm)"

definition relax :: "dpid \<Rightarrow> dpid \<Rightarrow> dpid \<Rightarrow> path_map \<Rightarrow> path_map" where
  "relax k i j pm =
     (case dist pm i k of
        None \<Rightarrow> pm
      | Some a \<Rightarrow>
          (case dist pm k j of
             None \<Rightarrow> pm
           | Some b \<Rightarrow>
               (case dist pm i j of
                  None \<Rightarrow> set_path i j (Some (a + b), Some k) pm
                | Some c \<Rightarrow> if a + b < c then set_path i j (Some (a + b), Some k) pm else pm)))"

definition calc_paths :: "adjacency \<Rightarrow> dpid list \<Rightarrow> path_map" where
  "calc_paths adj sws =
     fold (\<lambda>k. fold (\<lambda>i. fold (\<lambda>j. relax k i j) sws) sws) sws (fold (direct_paths adj) sws no_paths)"

section \<open>Walks\<close>

definition linked :: "adjacency \<Rightarrow> dpid \<Rightarrow> dpid \<Rightarrow> bool" where
  "linked adj i j \<longleftrightarrow> map_of adj (i, j) \<noteq> None"

text \<open>\<open>vs\<close> are the switches between \<open>i\<close> and \<open>j\<close>.\<close>

fun walk :: "adjacency \<Rightarrow> dpid \<Rightarrow> dpid list \<Rightarrow> dpid \<Rightarrow> bool" where
  "walk adj i [] j = linked adj i j"
| "walk adj i (v # vs) j = (linked adj i v \<and> walk adj v vs j)"

lemma walk_append: "walk adj i (us @ v # vs) j \<longleftrightarrow> walk adj i us v \<and> walk adj v vs j"
  by (induction us arbitrary: i) auto

text \<open>The length of a walk is the number of its links.\<close>

abbreviation links :: "dpid list \<Rightarrow> nat" where
  "links vs \<equiv> Suc (length vs)"

section \<open>The table only gets better\<close>

definition within :: "nat option \<Rightarrow> nat \<Rightarrow> bool" where
  "within d n \<longleftrightarrow> (\<exists>m\<le>n. d = Some m)"

definition better :: "path_map \<Rightarrow> path_map \<Rightarrow> bool" where
  "better pm' pm \<longleftrightarrow> (\<forall>i j n. within (dist pm i j) n \<longrightarrow> within (dist pm' i j) n)"

lemma within_mono: "within d n \<Longrightarrow> n \<le> m \<Longrightarrow> within d m"
  by (auto simp: within_def)

lemma within_Some [simp]: "within (Some m) n \<longleftrightarrow> m \<le> n"
  by (auto simp: within_def)

lemma betterD: "better pm' pm \<Longrightarrow> within (dist pm i j) n \<Longrightarrow> within (dist pm' i j) n"
  by (auto simp: better_def)

lemma better_refl [simp]: "better pm pm"
  by (simp add: better_def)

lemma better_trans: "better c b \<Longrightarrow> better b a \<Longrightarrow> better c a"
  by (simp add: better_def)

lemma better_relax: "better (relax k i j pm) pm"
  by (auto simp: better_def relax_def set_path_def within_def split: option.splits)

lemma better_fold: "(\<And>x pm. better (f x pm) pm) \<Longrightarrow> better (fold f xs pm) pm"
  by (induction xs arbitrary: pm) (auto intro: better_trans)

lemma within_relax:
  assumes "within (dist pm i k) a" "within (dist pm k j) b"
  shows "within (dist (relax k i j pm) i j) (a + b)"
  using assms by (auto simp: relax_def set_path_def within_def split: option.splits)

text \<open>A step of a loop stays done.\<close>

lemma within_fold:
  assumes "x \<in> set xs" "\<And>y pm. better (f y pm) pm"
    and "\<And>pm'. better pm' pm \<Longrightarrow> within (dist (f x pm') i j) n"
  shows "within (dist (fold f xs pm) i j) n"
proof -
  obtain us vs where xs: "xs = us @ x # vs" using assms(1) by (meson split_list)
  have "within (dist (f x (fold f us pm)) i j) n"
    by (rule assms(3)) (rule better_fold [OF assms(2)])
  then show ?thesis
    using better_fold [OF assms(2), where xs = vs and pm = "f x (fold f us pm)"] by (simp add: xs better_def)
qed

definition relax_via :: "dpid list \<Rightarrow> dpid \<Rightarrow> path_map \<Rightarrow> path_map" where
  "relax_via sws k = fold (\<lambda>i. fold (\<lambda>j. relax k i j) sws) sws"

lemma better_relax_via: "better (relax_via sws k pm) pm"
  unfolding relax_via_def by (intro better_fold better_relax)

lemma within_relax_via:
  assumes "i \<in> set sws" "j \<in> set sws" "within (dist pm i k) a" "within (dist pm k j) b"
  shows "within (dist (relax_via sws k pm) i j) (a + b)"
  unfolding relax_via_def
  by (rule within_fold [OF assms(1)], intro better_fold better_relax)
     (rule within_fold [OF assms(2)], rule better_relax, rule within_relax; meson assms(3,4) betterD better_trans)

section \<open>The table is complete\<close>

text \<open>Every walk over switches of \<open>K\<close> is accounted for.\<close>

definition covers :: "adjacency \<Rightarrow> dpid list \<Rightarrow> dpid set \<Rightarrow> path_map \<Rightarrow> bool" where
  "covers adj sws K pm \<longleftrightarrow> (\<forall>i\<in>set sws. \<forall>j\<in>set sws. \<forall>vs. walk adj i vs j \<and> set vs \<subseteq> K \<longrightarrow> within (dist pm i j) (links vs))"

lemma coversD: "covers adj sws K pm \<Longrightarrow> i \<in> set sws \<Longrightarrow> j \<in> set sws \<Longrightarrow> walk adj i vs j \<Longrightarrow> set vs \<subseteq> K
    \<Longrightarrow> within (dist pm i j) (links vs)"
  by (simp add: covers_def)

text \<open>A walk that visits \<open>k\<close> leads to its first visit and on from its last one.\<close>

lemma walk_via:
  assumes "walk adj i vs j" "k \<in> set vs" "set vs \<subseteq> insert k K"
  obtains us ws where "walk adj i us k" "walk adj k ws j" "set us \<subseteq> K" "set ws \<subseteq> K" "links us + links ws \<le> links vs"
proof -
  obtain us xs where vs: "vs = us @ k # xs" and us: "k \<notin> set us"
    using split_list_first [OF assms(2)] by blast
  have w: "walk adj i us k" "walk adj k xs j" using assms(1) by (simp_all add: vs walk_append)
  have usK: "set us \<subseteq> K" using assms(3) us by (auto simp: vs)
  show thesis
  proof (cases "k \<in> set xs")
    case True
    then obtain ys ws where xs: "xs = ys @ k # ws" and ws: "k \<notin> set ws"
      using split_list_last by fastforce
    have "walk adj k ws j" using w(2) by (simp add: xs walk_append)
    moreover have "set ws \<subseteq> K" using assms(3) ws by (auto simp: vs xs)
    ultimately show thesis using that [OF w(1) _ usK] by (simp add: vs xs)
  next
    case False
    then have "set xs \<subseteq> K" using assms(3) by (auto simp: vs)
    then show thesis using that [OF w usK] by (simp add: vs)
  qed
qed

lemma covers_relax_via:
  assumes cov: "covers adj sws K pm" and k: "k \<in> set sws"
  shows "covers adj sws (insert k K) (relax_via sws k pm)"
  unfolding covers_def
proof (intro ballI allI impI, elim conjE)
  fix i j vs assume ij: "i \<in> set sws" "j \<in> set sws" and w: "walk adj i vs j" and sub: "set vs \<subseteq> insert k K"
  show "within (dist (relax_via sws k pm) i j) (links vs)"
  proof (cases "k \<in> set vs")
    case True
    then obtain us ws where u: "walk adj i us k" "set us \<subseteq> K" and v: "walk adj k ws j" "set ws \<subseteq> K"
      and len: "links us + links ws \<le> links vs"
      by (rule walk_via [OF w _ sub])
    have "within (dist pm i k) (links us)" by (rule coversD [OF cov ij(1) k u])
    moreover have "within (dist pm k j) (links ws)" by (rule coversD [OF cov k ij(2) v])
    ultimately show ?thesis using within_mono [OF within_relax_via [OF ij] len] by blast
  next
    case False
    then have "set vs \<subseteq> K" using sub by blast
    then have "within (dist pm i j) (links vs)" by (rule coversD [OF cov ij w])
    then show ?thesis by (rule betterD [OF better_relax_via])
  qed
qed

lemma covers_fold:
  "covers adj sws K pm \<Longrightarrow> set ks \<subseteq> set sws \<Longrightarrow> covers adj sws (K \<union> set ks) (fold (relax_via sws) ks pm)"
proof (induction ks arbitrary: K pm)
  case (Cons k ks)
  then have "covers adj sws (insert k K \<union> set ks) (fold (relax_via sws) ks (relax_via sws k pm))"
    by (intro Cons.IH covers_relax_via) simp_all
  then show ?case by simp
qed simp

section \<open>The direct links\<close>

lemma row_items_linked: "linked adj k j \<longleftrightarrow> j \<in> fst ` set (row_items adj k)"
  unfolding linked_def row_items_def by (force simp: map_of_eq_None_iff image_iff)

lemma direct_row:
  "fold (\<lambda>(j, _). set_path k j (Some 1, None)) xs pm i j
     = (if i = k \<and> j \<in> fst ` set xs then (Some 1, None) else pm i j)"
  by (induction xs arbitrary: pm) (auto simp: set_path_def)

lemma direct_paths_apply:
  "direct_paths adj k pm i j =
     (if i \<noteq> k then pm i j else if j = k then (Some 0, None) else if linked adj k j then (Some 1, None) else pm k j)"
  by (auto simp: direct_paths_def set_path_def direct_row row_items_linked simp del: One_nat_def)

definition direct_entry :: "adjacency \<Rightarrow> dpid \<Rightarrow> dpid \<Rightarrow> nat option \<times> dpid option" where
  "direct_entry adj i j = (if i = j then (Some 0, None) else if linked adj i j then (Some 1, None) else (None, None))"

lemma direct_fold:
  "(\<forall>j. pm i j = direct_entry adj i j) \<or> (i \<in> set ks \<and> (\<forall>j. pm i j = (None, None)))
   \<Longrightarrow> fold (direct_paths adj) ks pm i j = direct_entry adj i j"
proof (induction ks arbitrary: pm)
  case (Cons k ks)
  have "fold (direct_paths adj) ks (direct_paths adj k pm) i j = direct_entry adj i j"
    by (rule Cons.IH) (use Cons.prems in \<open>auto simp: direct_paths_apply direct_entry_def\<close>)
  then show ?case by simp
qed simp

lemma direct_fold_other: "i \<notin> set ks \<Longrightarrow> fold (direct_paths adj) ks pm i j = pm i j"
  by (induction ks arbitrary: pm) (auto simp: direct_paths_apply)

text \<open>What the table holds before the first relaxation.\<close>

lemma initial_paths:
  "fold (direct_paths adj) sws no_paths i j =
     (if i \<in> set sws then direct_entry adj i j else (None, None))"
  using direct_fold [of no_paths i adj sws j] direct_fold_other [of i sws adj no_paths j] by (auto simp: no_paths_def)

lemma covers_initial: "covers adj sws {} (fold (direct_paths adj) sws no_paths)"
  by (auto simp: covers_def initial_paths direct_entry_def within_def)

section \<open>The table is sound\<close>

text \<open>
  An entry stands for a walk of its length: none, a single link, or one that passes through the intermediate switch, which
  is neither end.
\<close>

definition walk_of :: "adjacency \<Rightarrow> dpid \<Rightarrow> dpid \<Rightarrow> nat \<Rightarrow> bool" where
  "walk_of adj i j d \<longleftrightarrow> (if d = 0 then i = j else \<exists>vs. walk adj i vs j \<and> links vs = d)"

fun sound_entry :: "adjacency \<Rightarrow> dpid \<Rightarrow> dpid \<Rightarrow> nat option \<times> dpid option \<Rightarrow> bool" where
  "sound_entry adj i j (None, _) = True"
| "sound_entry adj i j (Some d, None) = (if i = j then d = 0 else d = 1 \<and> linked adj i j)"
| "sound_entry adj i j (Some d, Some k) =
     (k \<noteq> i \<and> k \<noteq> j \<and> (\<exists>a b. 0 < a \<and> 0 < b \<and> d = a + b \<and> walk_of adj i k a \<and> walk_of adj k j b))"

definition sound :: "adjacency \<Rightarrow> path_map \<Rightarrow> bool" where
  "sound adj pm \<longleftrightarrow> (\<forall>i j. sound_entry adj i j (pm i j))"

lemma walk_of_join: "walk_of adj i k a \<Longrightarrow> walk_of adj k j b \<Longrightarrow> walk_of adj i j (a + b)"
proof (cases "a = 0 \<or> b = 0")
  case False
  assume "walk_of adj i k a" "walk_of adj k j b"
  then obtain us vs where "walk adj i us k" "links us = a" "walk adj k vs j" "links vs = b"
    using False by (auto simp: walk_of_def)
  then have "walk adj i (us @ k # vs) j \<and> links (us @ k # vs) = a + b" by (simp add: walk_append)
  then show ?thesis using False unfolding walk_of_def by auto
qed (auto simp: walk_of_def)

lemma sound_walk:
  assumes "sound_entry adj i j (Some d, v)"
  shows "walk_of adj i j d"
proof (cases v)
  case None
  then show ?thesis using assms by (auto simp: walk_of_def intro!: exI [of _ "[]"] split: if_split_asm)
next
  case (Some k)
  then show ?thesis using assms walk_of_join by auto
qed

lemma sound_set_path: "sound adj pm \<Longrightarrow> sound_entry adj i j e \<Longrightarrow> sound adj (set_path i j e pm)"
  by (simp add: sound_def set_path_def)

lemma sound_relax:
  assumes s: "sound adj pm"
  shows "sound adj (relax k i j pm)"
proof -
  have entry: "sound_entry adj i j (Some (a + b), Some k)"
    if d: "dist pm i k = Some a" "dist pm k j = Some b" and n: "\<not> within (dist pm i j) (a + b)" for a b
  proof -
    have w: "walk_of adj i k a" "walk_of adj k j b"
      using s d by (auto simp: sound_def intro: sound_walk simp flip: surjective_pairing)
         (metis sound_walk prod.collapse)+
    have "k \<noteq> i" "k \<noteq> j" using d n by (auto simp: within_def)
    moreover from this have "0 < a" "0 < b" using w by (auto simp: walk_of_def intro: gr0I)
    ultimately show ?thesis using w by auto
  qed
  show ?thesis
    using s by (auto simp: relax_def within_def split: option.splits intro!: sound_set_path entry)
qed

lemma sound_fold: "(\<And>x pm. sound adj pm \<Longrightarrow> sound adj (f x pm)) \<Longrightarrow> sound adj pm \<Longrightarrow> sound adj (fold f xs pm)"
  by (induction xs arbitrary: pm) auto

lemma sound_initial: "sound adj (fold (direct_paths adj) sws no_paths)"
  by (simp add: sound_def initial_paths direct_entry_def)

lemma sound_calc_paths: "sound adj (calc_paths adj sws)"
  unfolding calc_paths_def by (intro sound_fold sound_relax sound_initial)

section \<open>Shortest walks\<close>

text \<open>Links run between known switches.\<close>

definition over :: "adjacency \<Rightarrow> dpid set \<Rightarrow> bool" where
  "over adj S \<longleftrightarrow> (\<forall>((i, j), _) \<in> set adj. i \<in> S \<and> j \<in> S)"

lemma over_linked: "over adj S \<Longrightarrow> linked adj i j \<Longrightarrow> i \<in> S \<and> j \<in> S"
  by (fastforce simp: over_def linked_def dest: map_of_SomeD)

lemma over_walk: "over adj S \<Longrightarrow> walk adj i vs j \<Longrightarrow> i \<in> S \<and> j \<in> S \<and> set vs \<subseteq> S"
  by (induction vs arbitrary: i) (auto dest: over_linked)

lemma over_walk_of: "over adj S \<Longrightarrow> walk_of adj i j d \<Longrightarrow> i \<noteq> j \<Longrightarrow> i \<in> S \<and> j \<in> S"
  by (auto simp: walk_of_def dest: over_walk split: if_split_asm)

text \<open>What the table says of two different switches.\<close>

definition shortest :: "adjacency \<Rightarrow> path_map \<Rightarrow> bool" where
  "shortest adj pm \<longleftrightarrow> sound adj pm \<and> (\<forall>i j d. i \<noteq> j \<longrightarrow> walk_of adj i j d \<longrightarrow> within (dist pm i j) d)"

lemma calc_paths_via: "calc_paths adj sws = fold (relax_via sws) sws (fold (direct_paths adj) sws no_paths)"
  by (simp add: calc_paths_def relax_via_def [abs_def])

lemma calc_paths_self: "i \<in> set sws \<Longrightarrow> dist (calc_paths adj sws) i i = Some 0"
  using betterD [OF better_fold [of "relax_via sws", OF better_relax_via],
      of "fold (direct_paths adj) sws no_paths" i i 0 sws]
  by (simp add: calc_paths_via initial_paths direct_entry_def) (simp add: within_def)

lemma shortest_calc_paths:
  assumes "over adj (set sws)"
  shows "shortest adj (calc_paths adj sws)"
  unfolding shortest_def
proof (intro conjI allI impI sound_calc_paths)
  fix i j d assume "i \<noteq> j" "walk_of adj i j d"
  then obtain vs where w: "walk adj i vs j" and d: "links vs = d" by (auto simp: walk_of_def split: if_split_asm)
  show "within (dist (calc_paths adj sws) i j) d"
    using coversD [OF covers_fold [OF covers_initial, of sws sws adj], of i j vs] over_walk [OF assms w] w d
    by (simp add: calc_paths_via)
qed

lemma shortest_dist:
  assumes "shortest adj pm" "i \<noteq> j" "pm i j = (Some d, v)"
  shows "walk_of adj i j d" "walk_of adj i j d' \<Longrightarrow> d \<le> d'"
proof -
  show "walk_of adj i j d" using assms sound_walk [of adj i j d v] by (metis shortest_def sound_def)
  show "d \<le> d'" if "walk_of adj i j d'"
    using that assms unfolding shortest_def by (metis fst_conv within_Some)
qed

text \<open>The intermediate switch splits a shortest walk into two shorter ones.\<close>

lemma shortest_split:
  assumes s: "shortest adj pm" and ij: "i \<noteq> j" and e: "pm i j = (Some d, Some k)"
  obtains a b where "dist pm i k = Some a" "dist pm k j = Some b" "a + b = d" "a < d" "b < d" "i \<noteq> k" "k \<noteq> j"
proof -
  have "sound_entry adj i j (Some d, Some k)" using s e by (metis shortest_def sound_def)
  then obtain a b where ne: "i \<noteq> k" "k \<noteq> j" and ab: "0 < a" "0 < b" "d = a + b"
    and w: "walk_of adj i k a" "walk_of adj k j b" by auto
  obtain a' b' where d': "dist pm i k = Some a'" "dist pm k j = Some b'" "a' \<le> a" "b' \<le> b"
    using s ne w unfolding shortest_def within_def by meson
  have w': "walk_of adj i k a'" "walk_of adj k j b'"
    using shortest_dist(1) [OF s] ne d'(1,2) by (metis prod.collapse)+
  have "d \<le> a' + b'" by (rule shortest_dist(2) [OF s ij e walk_of_join [OF w']])
  then have "a' + b' = d" "a' < d" "b' < d" using d'(3,4) ab by linarith+
  then show thesis using that d'(1,2) ne by blast
qed

end
