(* ===== verification/L2_Multi.thy ===== *)
theory L2_Multi
  imports Discovery L2_Paths
begin

text \<open>
  \<open>pox/forwarding/l2_multi.py\<close>: a layer 2 switch that learns addresses over the whole network and installs shortest paths.
  The module's dictionaries and the \<open>Switch\<close> objects are one state; a \<open>Switch\<close> is the number under which
  \<open>switches\<close> holds it.  An iteration order of a Python dictionary is the order of the association list.
  Of the log messages only the arguments that may raise are kept.
\<close>

section \<open>State\<close>

text \<open>The connection a \<open>Switch\<close> uses, the ports, its number, and the connection it listens to.\<close>

record l2_switch =
  l2_connection :: "nat option"
  l2_ports :: "ofp_phy_port list option"
  l2_dpid :: "dpid option"
  l2_listeners :: "nat option"

text \<open>An empty \<open>path_map\<close> is \<open>None\<close>; reading an entry of the nested \<open>defaultdict\<close> creates its row.\<close>

record l2_multi = of_nexus +
  lm_adjacency :: adjacency
  lm_switches :: "(dpid \<times> l2_switch) list"
  lm_mac_map :: "(EthAddr \<times> (dpid \<times> int)) list"
  lm_path_map :: "path_map option"
  lm_events :: "(dpid \<times> int option) list list" \<comment> \<open>the paths of the \<open>PathInstalled\<close> events raised\<close>

definition Switch_init :: l2_switch where
  "Switch_init = \<lparr>l2_connection = None, l2_ports = None, l2_dpid = None, l2_listeners = None\<rparr>"

definition l2_multi_init :: "int \<Rightarrow> l2_multi" where
  "l2_multi_init nx = \<lparr>nx_sent = [], nx_disconnected = [], nx_nextXID = nx, lm_adjacency = [], lm_switches = [],
     lm_mac_map = [], lm_path_map = None, lm_events = []\<rparr>"

section \<open>Paths\<close>

definition run_calc_paths :: "(l2_multi, unit) sm" where
  "run_calc_paths = smod (\<lambda>s. let sws = map fst (lm_switches s) in
     s\<lparr>lm_path_map := (if sws = [] then None else Some (calc_paths (lm_adjacency s) sws))\<rparr>)"

definition read_path :: "dpid \<Rightarrow> dpid \<Rightarrow> (l2_multi, nat option \<times> dpid option) sm" where
  "read_path src dst = sbind (sget lm_path_map) (\<lambda>pm. case pm of
     Some m \<Rightarrow> sret (m src dst)
   | None \<Rightarrow> sthen (smod (\<lambda>s. s\<lparr>lm_path_map := Some no_paths\<rparr>)) (sret (None, None)))"

text \<open>\<open>_get_raw_path\<close>; the first argument is the depth of recursion Python allows.\<close>

fun get_raw_path :: "nat \<Rightarrow> dpid \<Rightarrow> dpid \<Rightarrow> (l2_multi, dpid list option) sm" where
  "get_raw_path 0 src dst = sraise RuntimeError"
| "get_raw_path (Suc n) src dst =
     sbind (sget lm_path_map) (\<lambda>pm.
     sthen (if pm = None then run_calc_paths else sret ())
      (if src = dst then sret (Some [])
       else sbind (read_path src dst) (\<lambda>(d, intermediate).
         case d of None \<Rightarrow> sret None
         | Some _ \<Rightarrow> (case intermediate of None \<Rightarrow> sret (Some [])
           | Some m \<Rightarrow>
               sbind (get_raw_path n src m) (\<lambda>p.
               sbind (slift (need TypeError p)) (\<lambda>us.
               sbind (get_raw_path n m dst) (\<lambda>q.
               sbind (slift (need TypeError q)) (\<lambda>vs. sret (Some (us @ [m] @ vs))))))))))"

text \<open>\<open>_check_path\<close>: a port and an absent link differ, as do a missing port and a link.\<close>

fun check_path :: "adjacency \<Rightarrow> (dpid \<times> int option) list \<Rightarrow> bool" where
  "check_path adj ((s1, port) # (s2, port2) # p) =
     (map_of adj (s1, s2) = port \<and> check_path adj ((s2, port2) # p))"
| "check_path adj p = True"

definition get_path :: "nat \<Rightarrow> dpid \<Rightarrow> dpid \<Rightarrow> int \<Rightarrow> (l2_multi, (dpid \<times> int option) list option) sm" where
  "get_path depth src dst final_port =
     sbind (if src = dst then sret (Some [src])
            else sbind (get_raw_path depth src dst) (\<lambda>p. sret (map_option (\<lambda>p. [src] @ p @ [dst]) p))) (\<lambda>path.
     case path of None \<Rightarrow> sret None
     | Some path \<Rightarrow> sbind (sget lm_adjacency) (\<lambda>adj.
         let r = map (\<lambda>(s1, s2). (s1, map_of adj (s1, s2))) (zip (butlast path) (tl path)) @ [(dst, Some final_port)] in
         sthen (slift (guard_or AssertionError (check_path adj r))) (sret (Some r))))"

section \<open>Sending\<close>

definition switch_of :: "dpid \<Rightarrow> (l2_multi, l2_switch) sm" where
  "switch_of d = sbind (sget (\<lambda>s. map_of (lm_switches s) d)) (\<lambda>sw. slift (need KeyError sw))"

text \<open>\<open>switch.connection\<close> where the connection is used: \<open>None\<close> has no attributes.\<close>

definition connection_of :: "dpid \<Rightarrow> (l2_multi, nat) sm" where
  "connection_of d = sbind (switch_of d) (\<lambda>sw. slift (need AttributeError (l2_connection sw)))"

definition install :: "dpid \<Rightarrow> int option \<Rightarrow> ofp_match \<Rightarrow> int \<Rightarrow> (l2_multi, unit) sm" where
  "install switch port match buf =
     sbind (connection_of switch) (\<lambda>c. sdo (flow_mod_send c (ofp_flow_mod_init\<lparr>fm_match := match, fm_idle_timeout := 10,
       fm_hard_timeout := 30, fm_actions := [ActOutput (ofp_action_output_init\<lparr>out_port := port\<rparr>)],
       fm_buffer_id := Some buf\<rparr>)))"

definition install_hops :: "(dpid \<times> int option) list \<Rightarrow> ofp_match \<Rightarrow> int \<Rightarrow> (l2_multi, unit) sm" where
  "install_hops p match buffer_id =
     sthen (sfor (\<lambda>(sw, port). install sw port match (- 1)) (tl p))
     (case p of [] \<Rightarrow> sraise IndexError
      | (sw, port) # _ \<Rightarrow> sthen (install sw port match buffer_id)
          (smod (\<lambda>s. s\<lparr>lm_events := lm_events s @ [p]\<rparr>)))"

section \<open>Destination unreachable\<close>

text \<open>An address attribute of a match, as the address of a packet that is then packed: only an \<open>IPAddr\<close> can be.\<close>

definition nw_ipval :: "nwval option \<Rightarrow> ipval res" where
  "nw_ipval v = (case v of Some (NwAddr i) \<Rightarrow> Inr (IvAddr i) | _ \<Rightarrow> Inl AttributeError)"

text \<open>The frame \<open>install_path\<close> builds when there is no path: an ICMP message with the start of the packet it answers.\<close>

definition unreachable_frame :: "swenv \<Rightarrow> dpid option \<Rightarrow> ofp_match \<Rightarrow> ipv4 \<Rightarrow> packet \<Rightarrow> bytes res" where
  "unreachable_frame env dpid match orig_hdr orig_next =
     rbind (rbind (need TypeError dpid) dpidToStr) (\<lambda>name.
     rbind (EthAddr_init (EthStr (bytes_of_str name))) (\<lambda>src.
     rbind (packet_pack (env_subs env) None (Ipv4 orig_hdr orig_next)) (\<lambda>(d, _).
     rbind (struct_pack [FH, FH] [0, 0]) (\<lambda>mtu.
     rbind (nw_ipval (attr_nw_dst match)) (\<lambda>srcip.
     rbind (nw_ipval (attr_nw_src match)) (\<lambda>dstip.
     rbind (need StructError (get_dl_src match)) (\<lambda>dst.
     rmap fst (packet_pack (env_subs env) None
       (Ethernet (ethernet_init\<lparr>eth_src := HwEth src, eth_dst := dst, eth_type := 0x0800\<rparr>)
         (Ipv4 ((ipv4_init (env_iid env))\<lparr>ipv4_protocol := 1, ipv4_srcip := srcip, ipv4_dstip := dstip\<rparr>)
           (Icmp (icmp_init\<lparr>icmp_type := 3, icmp_code := 1\<rparr>)
             (Bytes (mtu @ take (nat (ipv4_hl orig_hdr * 4 + 8)) d)))))))))))))"

definition send_unreachable :: "swenv \<Rightarrow> dpid \<Rightarrow> ofp_match \<Rightarrow> ofp_packet_in \<Rightarrow> packet \<Rightarrow> (l2_multi, unit) sm" where
  "send_unreachable env self match ofp packet =
     (if get_dl_type match \<noteq> Some 0x0800 then sret ()
      else sbind (slift (packet_find ''ipv4'' packet)) (\<lambda>found. case found of
        Some (Ipv4 h n) \<Rightarrow>
          sbind (switch_of self) (\<lambda>sw.
          sbind (slift (unreachable_frame env (l2_dpid sw) match h n)) (\<lambda>frame.
          sbind (connection_of self) (\<lambda>c.
          sdo (packet_out_send c (ofp_packet_out_init\<lparr>po_actions := [output_to (pi_in_port ofp)], po_data := frame\<rparr>)))))
      | _ \<Rightarrow> sret ()))"

section \<open>Packets in\<close>

definition install_path :: "swenv \<Rightarrow> nat \<Rightarrow> dpid \<Rightarrow> dpid \<Rightarrow> int \<Rightarrow> ofp_match \<Rightarrow> ofp_packet_in \<Rightarrow> packet \<Rightarrow> (l2_multi, unit) sm" where
  "install_path env depth self dst_sw last_port match ofp packet =
     sbind (get_path depth self dst_sw last_port) (\<lambda>p. case p of
       None \<Rightarrow> send_unreachable env self match ofp packet
     | Some p \<Rightarrow> install_hops p match (pi_buffer_id ofp))"

definition flood :: "dpid \<Rightarrow> ofp_packet_in \<Rightarrow> (l2_multi, unit) sm" where
  "flood self ofp =
     sbind (connection_of self) (\<lambda>c. sdo (packet_out_send c (ofp_packet_out_init\<lparr>
       po_actions := [output_to OFPP_FLOOD], po_buffer_id := pi_buffer_id ofp, po_in_port := pi_in_port ofp\<rparr>)))"

text \<open>\<open>drop\<close> marks the buffer of the event as dead.\<close>

definition kill_buffer :: "dpid \<Rightarrow> ofp_packet_in \<Rightarrow> (l2_multi, ofp_packet_in) sm" where
  "kill_buffer self ofp =
     (if pi_buffer_id ofp = - 1 then sret ofp
      else sbind (connection_of self) (\<lambda>c.
        sthen (packet_out_send c (ofp_packet_out_init\<lparr>po_buffer_id := pi_buffer_id ofp, po_in_port := pi_in_port ofp\<rparr>))
          (sret (ofp\<lparr>pi_buffer_id := - 1\<rparr>))))"

definition learn :: "EthAddr \<Rightarrow> dpid \<times> int \<Rightarrow> (l2_multi, unit) sm" where
  "learn src loc = sbind (slift (isMulticast src)) (\<lambda>m.
     if m then sret () else smod (\<lambda>s. s\<lparr>lm_mac_map := AList.update src loc (lm_mac_map s)\<rparr>))"

definition link_ports :: "adjacency \<Rightarrow> dpid \<Rightarrow> int list" where
  "link_ports adj d = map snd (row_items adj d)"

text \<open>
  Where the source address is: learned when new, or when it moved to a port that leads to no switch.
  A log message reads the connections of both places.
\<close>

definition update_location :: "EthAddr \<Rightarrow> EthAddr \<Rightarrow> dpid \<times> int \<Rightarrow> (l2_multi, unit) sm" where
  "update_location src dst loc = sbind (sget (\<lambda>s. map_of (lm_mac_map s) src)) (\<lambda>oldloc. case oldloc of
     None \<Rightarrow> learn src loc
   | Some old \<Rightarrow>
       if old = loc then sret ()
       else sbind (sget (\<lambda>s. link_ports (lm_adjacency s) (fst loc))) (\<lambda>ports.
         if snd loc \<notin> set ports then
           sthen (connection_of (fst old)) (sthen (connection_of (fst loc)) (learn src loc))
         else sdo (slift (isMulticast dst))))"

definition forward_packet :: "swenv \<Rightarrow> nat \<Rightarrow> dpid \<Rightarrow> ofp_packet_in \<Rightarrow> packet \<Rightarrow> EthAddr \<Rightarrow> (l2_multi, unit) sm" where
  "forward_packet env depth self ofp packet dst =
     sbind (slift (isMulticast dst)) (\<lambda>m.
     if m then flood self ofp
     else sbind (sget (\<lambda>s. map_of (lm_mac_map s) dst)) (\<lambda>dest. case dest of
       None \<Rightarrow> flood self ofp
     | Some (dst_sw, last_port) \<Rightarrow>
         sbind (slift (from_packet packet None)) (\<lambda>match. install_path env depth self dst_sw last_port match ofp packet)))"

definition l2_PacketIn :: "swenv \<Rightarrow> nat \<Rightarrow> dpid \<Rightarrow> ofp_packet_in \<Rightarrow> (l2_multi, ofp_packet_in) sm" where
  "l2_PacketIn env depth self ofp =
     sbind (slift (parse_packet_in env ofp)) (\<lambda>packet.
     sbind (slift (eth_of packet)) (\<lambda>e.
     if eth_type e = 0x88cc then kill_buffer self ofp
     else sbind (slift (hw_eth (eth_src e))) (\<lambda>src.
          sbind (slift (hw_eth (eth_dst e))) (\<lambda>dst.
          sthen (update_location src dst (self, pi_in_port ofp))
            (sthen (forward_packet env depth self ofp packet dst) (sret ofp))))))"

section \<open>Connections\<close>

text \<open>\<open>Switch.disconnect\<close> and \<open>Switch.connect\<close>\<close>

definition Switch_disconnect :: "l2_switch \<Rightarrow> l2_switch" where
  "Switch_disconnect sw = (if l2_connection sw = None then sw else sw\<lparr>l2_connection := None, l2_listeners := None\<rparr>)"

definition Switch_connect :: "nat \<Rightarrow> dpid \<Rightarrow> ofp_phy_port list \<Rightarrow> l2_switch \<Rightarrow> l2_switch res" where
  "Switch_connect c dpid ports sw =
     (let sw = (if l2_dpid sw = None then sw\<lparr>l2_dpid := Some dpid\<rparr> else sw) in
      if l2_dpid sw \<noteq> Some dpid then Inl AssertionError
      else let sw = (if l2_ports sw = None then sw\<lparr>l2_ports := Some ports\<rparr> else sw) in
        Inr ((Switch_disconnect sw)\<lparr>l2_connection := Some c, l2_listeners := Some c\<rparr>))"

definition set_switch :: "dpid \<Rightarrow> l2_switch \<Rightarrow> (l2_multi, unit) sm" where
  "set_switch d sw = smod (\<lambda>s. s\<lparr>lm_switches := AList.update d sw (lm_switches s)\<rparr>)"

definition l2_ConnectionUp :: "nat \<Rightarrow> dpid \<Rightarrow> ofp_phy_port list \<Rightarrow> (l2_multi, unit) sm" where
  "l2_ConnectionUp c dpid ports = sbind (sget (\<lambda>s. map_of (lm_switches s) dpid)) (\<lambda>sw. case sw of
     None \<Rightarrow> sthen (set_switch dpid Switch_init)
       (sbind (slift (Switch_connect c dpid ports Switch_init)) (set_switch dpid))
   | Some sw \<Rightarrow> sbind (slift (Switch_connect c dpid ports sw)) (set_switch dpid))"

text \<open>
  The handler of \<open>ConnectionDown\<close>.  A \<open>Switch\<close> listens to its connection, and \<open>Connection.disconnect\<close> raises the event on the nexus
  only, so no run of the program calls it.
\<close>

definition l2_ConnectionDown :: "dpid \<Rightarrow> (l2_multi, unit) sm" where
  "l2_ConnectionDown dpid = sbind (switch_of dpid) (\<lambda>sw. set_switch dpid (Switch_disconnect sw))"

section \<open>Links\<close>

fun send_clear :: "dpid list \<Rightarrow> ofp_flow_mod \<Rightarrow> (l2_multi, unit) sm" where
  "send_clear [] clear = sret ()"
| "send_clear (d # ds) clear = sbind (connection_of d) (\<lambda>c. sbind (flow_mod_send c clear) (send_clear ds))"

definition connect_link :: "link \<Rightarrow> adjacency \<Rightarrow> adjacency" where
  "connect_link l adj =
     AList.update (link_dpid2 l, link_dpid1 l) (link_port2 l) (AList.update (link_dpid1 l, link_dpid2 l) (link_port1 l) adj)"

text \<open>The link no longer works, but another one, known in both directions, may take its place.\<close>

definition drop_link :: "link list \<Rightarrow> link \<Rightarrow> adjacency \<Rightarrow> adjacency" where
  "drop_link known l adj =
     (let adj = AList.delete (link_dpid2 l, link_dpid1 l) (AList.delete (link_dpid1 l, link_dpid2 l) adj) in
      case find (\<lambda>ll. link_dpid1 ll = link_dpid1 l \<and> link_dpid2 ll = link_dpid2 l \<and> flip ll \<in> set known) known of
        None \<Rightarrow> adj | Some ll \<Rightarrow> connect_link ll adj)"

definition add_link :: "link list \<Rightarrow> link \<Rightarrow> adjacency \<Rightarrow> adjacency" where
  "add_link known l adj =
     (if map_of adj (link_dpid1 l, link_dpid2 l) = None \<and> flip l \<in> set known then connect_link l adj else adj)"

definition unlearn :: "link \<Rightarrow> (EthAddr \<times> (dpid \<times> int)) list \<Rightarrow> (EthAddr \<times> (dpid \<times> int)) list" where
  "unlearn l macs = filter (\<lambda>(_, loc). loc \<noteq> (link_dpid1 l, link_port1 l) \<and> loc \<noteq> (link_dpid2 l, link_port2 l)) macs"

text \<open>\<open>known\<close> are the links of \<open>core.openflow_discovery.adjacency\<close>.\<close>

definition l2_LinkEvent :: "link list \<Rightarrow> bool \<Rightarrow> link \<Rightarrow> (l2_multi, unit) sm" where
  "l2_LinkEvent known removed l =
     sthen (switch_of (link_dpid1 l)) (sthen (switch_of (link_dpid2 l))
     (sbind (sget (\<lambda>s. map fst (lm_switches s))) (\<lambda>sws.
      sthen (send_clear sws (ofp_flow_mod_init\<lparr>fm_match := ofp_match_init, fm_command := OFPFC_DELETE\<rparr>))
      (sthen (smod (\<lambda>s. s\<lparr>lm_path_map := None\<rparr>))
       (if removed then smod (\<lambda>s. s\<lparr>lm_adjacency := drop_link known l (lm_adjacency s)\<rparr>)
        else smod (\<lambda>s. s\<lparr>lm_adjacency := add_link known l (lm_adjacency s), lm_mac_map := unlearn l (lm_mac_map s)\<rparr>))))))"

section \<open>Events\<close>

text \<open>
  A packet of a connection reaches the \<open>Switch\<close> that listens to it.  A connection that went down takes no more messages; its
  \<open>Switch\<close> is not told, and keeps the connection until the switch comes up again.
\<close>

datatype l2_event =
    L2Up nat dpid "ofp_phy_port list"
  | L2Down nat
  | L2Packet nat dpid ofp_packet_in swenv
  | L2Link "link list" bool link

definition listens :: "nat \<Rightarrow> dpid \<Rightarrow> l2_multi \<Rightarrow> bool" where
  "listens c d s = (case map_of (lm_switches s) d of None \<Rightarrow> False | Some sw \<Rightarrow> l2_listeners sw = Some c)"

fun l2_step :: "nat \<Rightarrow> l2_event \<Rightarrow> (l2_multi, unit) sm" where
  "l2_step depth (L2Up c d ports) = l2_ConnectionUp c d ports"
| "l2_step depth (L2Down c) = smod (\<lambda>s. s\<lparr>nx_disconnected := c # nx_disconnected s\<rparr>)"
| "l2_step depth (L2Packet c d ofp env) =
     sbind (sget (listens c d)) (\<lambda>l. if l then sdo (l2_PacketIn env depth d ofp) else sret ())"
| "l2_step depth (L2Link known removed l) = l2_LinkEvent known removed l"

end
