(* ===== verification/L2_Multi_Laws.thy ===== *)
theory L2_Multi_Laws
  imports L2_Multi
begin

text \<open>
  What the network-wide switch promises: the tables it keeps are right in every state it can reach, the path it installs is
  a shortest one, along links that exist, and its flow modifications are the hops of that path; and the events after
  which it no longer works.
\<close>

section \<open>Shortest walks visit no switch twice\<close>

lemma walk_shortcut:
  assumes "walk adj i vs j" "\<not> distinct (i # vs)"
  obtains ws where "walk adj i ws j" "length ws < length vs"
proof (cases "i \<in> set vs")
  case True
  then obtain us ws where vs: "vs = us @ i # ws" by (meson split_list)
  have "walk adj i ws j" using assms(1) by (simp add: vs walk_append)
  then show thesis using that by (simp add: vs)
next
  case False
  then obtain as x bs cs where vs: "vs = as @ [x] @ bs @ [x] @ cs"
    using assms(2) not_distinct_decomp [of vs] by auto
  have "walk adj i (as @ x # cs) j" using assms(1) by (simp add: vs walk_append)
  then show thesis using that by (simp add: vs)
qed

lemma shortest_bound:
  assumes s: "shortest adj pm" and o: "over adj S" and f: "finite S" and ij: "i \<noteq> j" and e: "pm i j = (Some d, v)"
  shows "0 < d" "d \<le> card S"
proof -
  note w = shortest_dist [OF s ij e]
  then show "0 < d" using ij by (auto simp: walk_of_def intro: gr0I)
  then obtain vs where vs: "walk adj i vs j" "links vs = d" using w(1) by (auto simp: walk_of_def split: if_split_asm)
  have "distinct (i # vs)"
  proof (rule ccontr)
    assume "\<not> distinct (i # vs)"
    then obtain ws where "walk adj i ws j" "length ws < length vs" using walk_shortcut [OF vs(1)] by blast
    then show False using w(2) [of "links ws"] vs(2) by (auto simp: walk_of_def)
  qed
  moreover have "set (i # vs) \<subseteq> S" using over_walk [OF o vs(1)] by simp
  ultimately show "d \<le> card S"
    using card_mono [OF f, of "set (i # vs)"] distinct_card [of "i # vs"] vs(2) by simp
qed

section \<open>The path between two switches\<close>

abbreviation dpids :: "l2_multi \<Rightarrow> dpid list" where
  "dpids s \<equiv> map fst (lm_switches s)"

text \<open>What the table says when it is read: computed now when it is empty.\<close>

definition fresh_paths :: "l2_multi \<Rightarrow> path_map" where
  "fresh_paths s = (case lm_path_map s of Some pm \<Rightarrow> pm | None \<Rightarrow> calc_paths (lm_adjacency s) (dpids s))"

abbreviation with_paths :: "l2_multi \<Rightarrow> l2_multi" where
  "with_paths s \<equiv> s\<lparr>lm_path_map := Some (fresh_paths s)\<rparr>"

lemma fresh_with_paths [simp]: "fresh_paths (with_paths s) = fresh_paths s"
  by (simp add: fresh_paths_def)

lemma read_path_known: "lm_path_map s = Some pm \<Longrightarrow> sbind (read_path src dst) f s = f (pm src dst) s"
  by (simp add: read_path_def sbind_def sget_def sret_def)

lemma path_map_same: "lm_path_map s = Some pm \<Longrightarrow> s\<lparr>lm_path_map := Some pm\<rparr> = s"
  by (cases s) simp

lemma get_raw_path_eq:
  assumes "dpids s \<noteq> []"
  shows "get_raw_path (Suc n) src dst s =
    (if src = dst then (Inr (Some []), with_paths s)
     else case fresh_paths s src dst of
       (None, _) \<Rightarrow> (Inr None, with_paths s)
     | (Some _, None) \<Rightarrow> (Inr (Some []), with_paths s)
     | (Some _, Some m) \<Rightarrow>
         sbind (get_raw_path n src m) (\<lambda>p. sbind (slift (need TypeError p)) (\<lambda>us.
         sbind (get_raw_path n m dst) (\<lambda>q. sbind (slift (need TypeError q)) (\<lambda>vs. sret (Some (us @ [m] @ vs))))))
           (with_paths s))"
  using assms
  by (cases "lm_path_map s")
     (auto simp: run_calc_paths_def read_path_known path_map_same fresh_paths_def sret_def Let_def split: prod.splits option.splits)

lemma get_raw_path_walk:
  assumes sh: "shortest (lm_adjacency s) (fresh_paths s)" and ne: "dpids s \<noteq> []"
  shows "i \<noteq> j \<Longrightarrow> fresh_paths s i j = (Some d, v) \<Longrightarrow> d \<le> n \<Longrightarrow> 0 < n \<Longrightarrow> lm_path_map s = Some (fresh_paths s)
    \<Longrightarrow> \<exists>vs. get_raw_path n i j s = (Inr (Some vs), s) \<and> walk (lm_adjacency s) i vs j \<and> links vs = d"
proof (induction d arbitrary: i j n v rule: less_induct)
  case (less d)
  obtain m where n: "n = Suc m" using less.prems(4) by (cases n) auto
  have s: "with_paths s = s" using less.prems(5) by (rule path_map_same)
  note e = less.prems(2)
  show ?case
  proof (cases v)
    case None
    then have "d = 1 \<and> linked (lm_adjacency s) i j"
      using sh e less.prems(1) by (metis shortest_def sound_def sound_entry.simps(2))
    then show ?thesis using None e less.prems(1) by (auto simp: n get_raw_path_eq [OF ne] s intro!: exI [of _ "[]"] simp del: get_raw_path.simps)
  next
    case (Some k)
    obtain a b where ab: "dist (fresh_paths s) i k = Some a" "dist (fresh_paths s) k j = Some b" "a + b = d" "a < d" "b < d"
      and ne': "i \<noteq> k" "k \<noteq> j" using shortest_split [OF sh less.prems(1)] e Some by metis
    have pos: "0 < m" using ab less.prems(3) n by simp
    obtain va vb where va: "fresh_paths s i k = (Some a, va)" and vb: "fresh_paths s k j = (Some b, vb)"
      using ab(1,2) by (metis prod.collapse)
    obtain us where us: "get_raw_path m i k s = (Inr (Some us), s)" "walk (lm_adjacency s) i us k" "links us = a"
      using less.IH [OF ab(4) ne'(1) va _ pos less.prems(5)] ab less.prems(3) n by auto
    obtain vs where vs: "get_raw_path m k j s = (Inr (Some vs), s)" "walk (lm_adjacency s) k vs j" "links vs = b"
      using less.IH [OF ab(5) ne'(2) vb _ pos less.prems(5)] ab less.prems(3) n by auto
    show ?thesis
      using Some e less.prems(1) us vs ab(3)
      by (intro exI [of _ "us @ [k] @ vs"])
         (simp add: n get_raw_path_eq [OF ne] s walk_append sbind_def sret_def del: get_raw_path.simps)
  qed
qed

lemma get_raw_path_fresh: "dpids s \<noteq> [] \<Longrightarrow> get_raw_path (Suc n) i j s = get_raw_path (Suc n) i j (with_paths s)"
  by (simp add: get_raw_path_eq split: prod.split option.split del: get_raw_path.simps)

section \<open>Routes\<close>

text \<open>A route: every hop leaves by a port that leads to the next one, the last by the port of the destination.\<close>

fun route :: "adjacency \<Rightarrow> dpid \<Rightarrow> dpid \<Rightarrow> int \<Rightarrow> (dpid \<times> int option) list \<Rightarrow> bool" where
  "route adj src dst port [] = False"
| "route adj src dst port [(d, p)] = (d = src \<and> d = dst \<and> p = Some port)"
| "route adj src dst port ((d, p) # (d', p') # r) =
     (d = src \<and> p \<noteq> None \<and> map_of adj (d, d') = p \<and> route adj d' dst port ((d', p') # r))"

definition cook :: "adjacency \<Rightarrow> dpid list \<Rightarrow> int \<Rightarrow> (dpid \<times> int option) list" where
  "cook adj path port = map (\<lambda>(s1, s2). (s1, map_of adj (s1, s2))) (zip (butlast path) (tl path)) @ [(last path, Some port)]"

lemma cook_Cons: "cook adj (a # b # path) port = (a, map_of adj (a, b)) # cook adj (b # path) port"
  by (simp add: cook_def)

lemma cook_single [simp]: "cook adj [a] port = [(a, Some port)]"
  by (simp add: cook_def)

lemma cook_hd: "\<exists>p r. cook adj (a # path) port = (a, p) # r"
  by (cases path) (simp_all add: cook_Cons)

lemma length_cook: "length (cook adj (a # path) port) = Suc (length path)"
  by (simp add: cook_def)

lemma check_path_cook: "check_path adj (cook adj (a # path) port)"
proof (induction path arbitrary: a)
  case (Cons b path)
  obtain p r where "cook adj (b # path) port = (b, p) # r" using cook_hd by blast
  then show ?case using Cons [of b] by (simp add: cook_Cons)
qed simp

lemma route_cook: "walk adj a vs b \<Longrightarrow> route adj a b port (cook adj (a # vs @ [b]) port)"
proof (induction vs arbitrary: a)
  case Nil
  then show ?case by (simp add: cook_Cons linked_def)
next
  case (Cons v vs)
  obtain p r where "cook adj (v # vs @ [b]) port = (v, p) # r" using cook_hd by blast
  then show ?case using Cons.IH [of v] Cons.prems by (simp add: cook_Cons linked_def)
qed

lemma route_walk: "route adj a b port r \<Longrightarrow> walk_of adj a b (length r - 1) \<and> r \<noteq> []"
proof (induction adj a b port r rule: route.induct)
  case (3 adj src dst port d p d' p' r)
  then have w: "walk_of adj d' dst (length r)" and l: "d = src" "linked adj src d'" by (auto simp: linked_def)
  have "walk_of adj src d' 1" using l(2) by (auto simp: walk_of_def intro: exI [of _ "[]"])
  from walk_of_join [OF this w] show ?case by simp
qed (auto simp: walk_of_def)

text \<open>A table that is there is right; a table that is not is computed when it is needed.\<close>

definition paths_ok :: "l2_multi \<Rightarrow> bool" where
  "paths_ok s \<longleftrightarrow> over (lm_adjacency s) (set (dpids s))
     \<and> (\<forall>pm. lm_path_map s = Some pm \<longrightarrow> shortest (lm_adjacency s) pm)"

lemma paths_ok_fresh: "paths_ok s \<Longrightarrow> shortest (lm_adjacency s) (fresh_paths s)"
  by (auto simp: paths_ok_def fresh_paths_def shortest_calc_paths split: option.splits)

lemma get_path_route:
  assumes ok: "paths_ok s" and src: "src \<in> set (dpids s)" and depth: "length (lm_switches s) \<le> depth"
  shows "\<exists>r s'. get_path depth src dst port s = (Inr r, s') \<and> (s' = s \<or> s' = with_paths s)
    \<and> (case r of None \<Rightarrow> \<forall>q. \<not> route (lm_adjacency s) src dst port q
       | Some r \<Rightarrow> route (lm_adjacency s) src dst port r \<and> (\<forall>q. route (lm_adjacency s) src dst port q \<longrightarrow> length r \<le> length q))"
proof (cases "src = dst")
  case True
  have "\<forall>q. route (lm_adjacency s) dst dst port q \<longrightarrow> 1 \<le> length q" using route_walk by (auto simp: Suc_le_eq)
  then show ?thesis using True by (simp add: get_path_def sret_def slift_def sthen_def sbind_def sget_def)
next
  case False
  note sh = paths_ok_fresh [OF ok]
  have ne: "dpids s \<noteq> []" using src by auto
  obtain n where n: "depth = Suc n" using depth ne by (cases depth) auto
  obtain d v where e: "fresh_paths s src dst = (d, v)" by (cases "fresh_paths s src dst")
  show ?thesis
  proof (cases d)
    case None
    have "\<not> route (lm_adjacency s) src dst port q" for q
      using route_walk [of "lm_adjacency s" src dst port q] sh False e None
      unfolding shortest_def within_def by (metis fst_conv option.distinct(1))
    then show ?thesis
      using None False e
      by (simp add: get_path_def n get_raw_path_eq [OF ne] sbind_def sret_def del: get_raw_path.simps)
  next
    case (Some k)
    have "k \<le> depth"
      using shortest_bound(2) [OF sh _ _ False, of "set (dpids s)" k v] ok e Some depth card_length [of "dpids s"]
      by (simp add: paths_ok_def)
    then obtain vs where vs: "get_raw_path depth src dst (with_paths s) = (Inr (Some vs), with_paths s)"
        "walk (lm_adjacency s) src vs dst" "links vs = k"
      using get_raw_path_walk [of "with_paths s" src dst k v depth] sh ne e Some False n by auto
    have min: "length (cook (lm_adjacency s) (src # vs @ [dst]) port) \<le> length q" if "route (lm_adjacency s) src dst port q" for q
    proof -
      have "k \<le> length q - 1" "q \<noteq> []"
        using shortest_dist(2) [OF sh False, of k v] route_walk [OF that] e Some by auto
      then show ?thesis using vs(3) by (cases q) (auto simp: length_cook)
    qed
    show ?thesis
      using vs False route_cook [OF vs(2)] min get_raw_path_fresh [OF ne, of n src dst] check_path_cook [of "lm_adjacency s" src "vs @ [dst]" port]
      by (simp add: get_path_def n sbind_def sret_def sget_def sthen_def slift_def cook_def butlast_append del: get_raw_path.simps)
  qed
qed

section \<open>The invariant\<close>

text \<open>
  The links join known switches, in both directions, and the table of paths belongs to them; every \<open>Switch\<close> knows its number
  and listens to the connection it uses; addresses are at known switches.
\<close>

definition symmetric :: "adjacency \<Rightarrow> bool" where
  "symmetric adj \<longleftrightarrow> (\<forall>i j. linked adj i j \<longrightarrow> linked adj j i)"

definition l2_switch_ok :: "dpid \<times> l2_switch \<Rightarrow> bool" where
  "l2_switch_ok = (\<lambda>(d, sw). l2_dpid sw = Some d \<and> l2_connection sw \<noteq> None \<and> l2_listeners sw = l2_connection sw)"

definition l2_ok :: "l2_multi \<Rightarrow> bool" where
  "l2_ok s \<longleftrightarrow> paths_ok s \<and> symmetric (lm_adjacency s) \<and> distinct (dpids s) \<and> list_all l2_switch_ok (lm_switches s)
     \<and> (\<forall>(_, d, _) \<in> set (lm_mac_map s). d \<in> set (dpids s))"

text \<open>The invariant, and that the network has the switch \<open>a\<close>\<close>

definition l2_at :: "dpid \<Rightarrow> l2_multi \<Rightarrow> bool" where
  "l2_at a s \<longleftrightarrow> l2_ok s \<and> a \<in> set (dpids s)"

lemmas l2_defs = l2_at_def l2_ok_def paths_ok_def

lemma keeps_connection_send:
  "(\<And>s b n. P s \<Longrightarrow> P (s\<lparr>nx_sent := b, nx_nextXID := n\<rparr>)) \<Longrightarrow> keeps P (connection_send c pk m)"
  unfolding connection_send_def
  by (intro keeps_intros keeps_smod) auto

lemma l2_at_send [keeps_intros]: "keeps (l2_at a) (connection_send c pk m)"
  by (rule keeps_connection_send) (simp add: l2_defs)

lemma l2_ok_send [keeps_intros]: "keeps l2_ok (connection_send c pk m)"
  by (rule keeps_connection_send) (simp add: l2_defs)

lemma l2_at_switch_of [keeps_intros]: "keeps (l2_at a) (switch_of d)"
  unfolding switch_of_def by (intro keeps_intros)

lemma l2_at_connection_of [keeps_intros]: "keeps (l2_at a) (connection_of d)"
  unfolding connection_of_def by (intro keeps_intros)

lemma get_raw_path_state:
  "lm_path_map u = Some (fresh_paths u) \<Longrightarrow> dpids u \<noteq> [] \<Longrightarrow> keeps (\<lambda>t. t = u) (get_raw_path n i j)"
proof (induction n arbitrary: i j)
  case (Suc n)
  have u: "with_paths u = u" by (rule path_map_same [OF Suc.prems(1)])
  have "keeps (\<lambda>t. t = u) (sbind (get_raw_path n i m) (\<lambda>p. sbind (slift (need TypeError p)) (\<lambda>us.
      sbind (get_raw_path n m j) (\<lambda>q. sbind (slift (need TypeError q)) (\<lambda>vs. sret (Some (us @ [m] @ vs)))))))" for m
    by (intro keeps_intros Suc)
  then show ?case
    unfolding keeps_def by (simp add: get_raw_path_eq [OF Suc.prems(2)] u split: prod.split option.split del: get_raw_path.simps)
qed (simp add: keeps_def sraise_def)

lemma l2_at_with_paths: "l2_at a s \<Longrightarrow> l2_at a (with_paths s)"
  using paths_ok_fresh [of s] by (auto simp: l2_defs)

lemma l2_at_get_raw_path [keeps_intros]: "keeps (l2_at a) (get_raw_path n i j)"
proof (rule keepsI)
  fix s assume s: "l2_at a s"
  then have ne: "dpids s \<noteq> []" by (auto simp: l2_at_def)
  show "l2_at a (snd (get_raw_path n i j s))"
  proof (cases n)
    case (Suc m)
    have "snd (get_raw_path n i j (with_paths s)) = with_paths s"
      using get_raw_path_state [of "with_paths s" n i j] ne unfolding keeps_def by simp
    then show ?thesis using l2_at_with_paths [OF s] get_raw_path_fresh [OF ne, of m i j] by (simp add: Suc del: get_raw_path.simps)
  qed (use s in \<open>simp add: sraise_def\<close>)
qed

lemma l2_at_get_path [keeps_intros]: "keeps (l2_at a) (get_path depth src dst port)"
  unfolding get_path_def Let_def by (intro keeps_intros)

lemma l2_at_install [keeps_intros]: "keeps (l2_at a) (install d port match buf)"
  unfolding install_def by (intro keeps_intros)

lemma l2_at_install_hops [keeps_intros]: "keeps (l2_at a) (install_hops p match buf)"
  unfolding install_hops_def
  by (cases p) (auto intro!: keeps_intros keeps_smod simp: l2_defs split: prod.split)

lemma l2_at_unreachable [keeps_intros]: "keeps (l2_at a) (send_unreachable env d match ofp p)"
  unfolding send_unreachable_def by (intro keeps_intros)

lemma l2_at_install_path [keeps_intros]: "keeps (l2_at a) (install_path env depth d dst port match ofp p)"
  unfolding install_path_def by (intro keeps_intros)

lemma l2_at_flood [keeps_intros]: "keeps (l2_at a) (flood d ofp)"
  unfolding flood_def by (intro keeps_intros)

lemma l2_at_kill_buffer [keeps_intros]: "keeps (l2_at a) (kill_buffer d ofp)"
  unfolding kill_buffer_def by (intro keeps_intros)

lemma l2_at_forward [keeps_intros]: "keeps (l2_at a) (forward_packet env depth d ofp p dst)"
  unfolding forward_packet_def by (intro keeps_intros)

lemma set_alist_update: "x \<in> set (AList.update k v al) \<Longrightarrow> x = (k, v) \<or> x \<in> set al"
  by (induction al) (auto split: if_split_asm)

lemma l2_at_learn: "keeps (l2_at a) (learn src (a, port))"
  unfolding learn_def by (intro keeps_intros keeps_smod) (auto simp: l2_defs dest!: set_alist_update)

lemma l2_at_update_location: "keeps (l2_at a) (update_location src dst (a, port))"
  unfolding update_location_def by (intro keeps_intros; simp?) (auto intro!: keeps_intros l2_at_learn)

lemma l2_at_PacketIn: "keeps (l2_at a) (l2_PacketIn env depth a ofp)"
  unfolding l2_PacketIn_def by (intro keeps_intros l2_at_update_location)

section \<open>Connections and links keep the invariant\<close>

lemma over_mono: "over adj S \<Longrightarrow> S \<subseteq> T \<Longrightarrow> over adj T"
  by (fastforce simp: over_def)

lemma l2_ok_set_switch:
  "l2_ok s \<Longrightarrow> l2_switch_ok (d, sw) \<Longrightarrow> l2_ok (s\<lparr>lm_switches := AList.update d sw (lm_switches s)\<rparr>)"
  unfolding l2_ok_def paths_ok_def
  by (auto simp: update_keys list_all_iff intro: over_mono dest!: set_alist_update)

lemma update_twice: "AList.update k v (AList.update k w al) = AList.update k v al"
  by (induction al) auto

lemma Switch_connect_ok:
  assumes "l2_dpid sw = None \<or> l2_switch_ok (d, sw)"
  obtains sw' where "Switch_connect c d ports sw = Inr sw'" "l2_switch_ok (d, sw')" "l2_connection sw' = Some c"
  using assms by (auto simp: Switch_connect_def Switch_disconnect_def l2_switch_ok_def Let_def)

lemma l2_ok_switch: "l2_ok s \<Longrightarrow> map_of (lm_switches s) d = Some sw \<Longrightarrow> l2_switch_ok (d, sw)"
  unfolding l2_ok_def by (auto simp: list_all_iff dest: map_of_SomeD)

lemma switch_of_Some: "map_of (lm_switches s) d = Some sw \<Longrightarrow> switch_of d s = (Inr sw, s)"
  by (simp add: switch_of_def sret_def)

lemma switch_of_None: "map_of (lm_switches s) d = None \<Longrightarrow> switch_of d s = (Inl KeyError, s)"
  by (simp add: switch_of_def sraise_def)

text \<open>A switch that comes up never fails the assertion of \<open>connect\<close> and is known afterwards.\<close>

lemma ConnectionUp_result:
  assumes "l2_ok s"
  shows "\<exists>sw. l2_ConnectionUp c d ports s = (Inr (), s\<lparr>lm_switches := AList.update d sw (lm_switches s)\<rparr>)
    \<and> l2_switch_ok (d, sw) \<and> l2_connection sw = Some c"
proof (cases "map_of (lm_switches s) d")
  case None
  obtain sw where "Switch_connect c d ports Switch_init = Inr sw" "l2_switch_ok (d, sw)" "l2_connection sw = Some c"
    using Switch_connect_ok [of Switch_init d c ports] by (auto simp: Switch_init_def)
  then show ?thesis
    using None by (intro exI [of _ sw]) (simp add: l2_ConnectionUp_def set_switch_def update_twice smod_def)
next
  case (Some sw)
  obtain sw' where "Switch_connect c d ports sw = Inr sw'" "l2_switch_ok (d, sw')" "l2_connection sw' = Some c"
    using Switch_connect_ok l2_ok_switch [OF assms Some] by blast
  then show ?thesis using Some by (intro exI [of _ sw']) (simp add: l2_ConnectionUp_def set_switch_def smod_def)
qed

lemma l2_ok_ConnectionUp: "keeps l2_ok (l2_ConnectionUp c d ports)"
  by (rule keepsI) (use ConnectionUp_result l2_ok_set_switch in \<open>metis snd_conv\<close>)

lemma linked_update [simp]: "linked (AList.update (a, b) p adj) i j \<longleftrightarrow> (a = i \<and> b = j) \<or> linked adj i j"
  by (auto simp: linked_def update_conv)

lemma linked_delete [simp]: "linked (AList.delete (a, b) adj) i j \<longleftrightarrow> \<not> (a = i \<and> b = j) \<and> linked adj i j"
  by (auto simp: linked_def delete_conv)

lemma over_keys: "over adj S \<longleftrightarrow> fst ` set adj \<subseteq> S \<times> S"
  by (force simp: over_def)

lemma over_connect_link: "over adj S \<Longrightarrow> link_dpid1 l \<in> S \<Longrightarrow> link_dpid2 l \<in> S \<Longrightarrow> over (connect_link l adj) S"
  by (simp add: over_keys connect_link_def dom_update)

lemma symmetric_connect_link: "symmetric adj \<Longrightarrow> symmetric (connect_link l adj)"
  by (auto simp: symmetric_def connect_link_def)

lemma over_delete: "over adj S \<Longrightarrow> over (AList.delete k adj) S"
  unfolding over_keys using dom_delete_subset by (rule order_trans)

lemma symmetric_unlink: "symmetric adj \<Longrightarrow> symmetric (AList.delete (b, a) (AList.delete (a, b) adj))"
  by (auto simp: symmetric_def)

lemma drop_link_ok:
  assumes "over adj S" "symmetric adj" "link_dpid1 l \<in> S" "link_dpid2 l \<in> S"
  shows "over (drop_link known l adj) S" "symmetric (drop_link known l adj)"
  using assms unfolding drop_link_def Let_def
  by (auto simp: over_delete symmetric_unlink find_Some_iff intro!: over_connect_link symmetric_connect_link split: option.split)

lemma add_link_ok:
  assumes "over adj S" "symmetric adj" "link_dpid1 l \<in> S" "link_dpid2 l \<in> S"
  shows "over (add_link known l adj) S" "symmetric (add_link known l adj)"
  using assms by (simp_all add: add_link_def over_connect_link symmetric_connect_link)

lemma l2_at_send_clear: "keeps (l2_at a) (send_clear ds m)"
  by (induction ds arbitrary: m) (auto intro!: keeps_intros)

lemma keeps_conj: "keeps P m \<Longrightarrow> keeps Q m \<Longrightarrow> keeps (\<lambda>s. P s \<and> Q s) m"
  by (simp add: keeps_def)

lemma sthen_smod_smod: "sthen (smod f) (smod g) = smod (\<lambda>s. g (f s))"
  by (rule ext) (simp add: smod_def)

lemma unlearn_known: "(\<forall>(_, d, _) \<in> set m. d \<in> S) \<Longrightarrow> (\<forall>(_, d, _) \<in> set (unlearn l m). d \<in> S)"
  by (auto simp: unlearn_def)

lemma l2_at_dropped:
  "l2_at (link_dpid1 l) s \<and> l2_at (link_dpid2 l) s \<Longrightarrow> d = link_dpid1 l \<or> d = link_dpid2 l
   \<Longrightarrow> l2_at d (s\<lparr>lm_path_map := None, lm_adjacency := drop_link known l (lm_adjacency s)\<rparr>)"
  by (auto simp: l2_defs drop_link_ok simp del: set_map)

lemma l2_at_added:
  "l2_at (link_dpid1 l) s \<and> l2_at (link_dpid2 l) s \<Longrightarrow> d = link_dpid1 l \<or> d = link_dpid2 l
   \<Longrightarrow> l2_at d (s\<lparr>lm_path_map := None, lm_adjacency := add_link known l (lm_adjacency s), lm_mac_map := unlearn l (lm_mac_map s)\<rparr>)"
  using unlearn_known [of "lm_mac_map s" "set (dpids s)" l] by (auto simp: l2_defs add_link_ok simp del: set_map)

lemma l2_ok_LinkEvent: "keeps l2_ok (l2_LinkEvent known removed l)"
proof (rule keepsI)
  fix s assume s: "l2_ok s"
  let ?a = "link_dpid1 l" and ?b = "link_dpid2 l"
  have "keeps (\<lambda>s. l2_at ?a s \<and> l2_at ?b s)
    (sbind (sget dpids) (\<lambda>sws. sthen (send_clear sws m) (sthen (smod (\<lambda>s. s\<lparr>lm_path_map := None\<rparr>))
       (if removed then smod (\<lambda>s. s\<lparr>lm_adjacency := drop_link known l (lm_adjacency s)\<rparr>)
        else smod (\<lambda>s. s\<lparr>lm_adjacency := add_link known l (lm_adjacency s), lm_mac_map := unlearn l (lm_mac_map s)\<rparr>)))))" for m
    by (cases removed; simp only: sthen_smod_smod if_True if_False)
       (intro keeps_intros keeps_smod keeps_conj [OF l2_at_send_clear l2_at_send_clear] conjI; simp add: l2_at_dropped l2_at_added)+
  note k = this [unfolded keeps_def, rule_format]
  show "l2_ok (snd (l2_LinkEvent known removed l s))"
  proof (cases "map_of (lm_switches s) ?a = None \<or> map_of (lm_switches s) ?b = None")
    case True
    then show ?thesis using s by (cases "map_of (lm_switches s) ?a") (auto simp: l2_LinkEvent_def switch_of_None switch_of_Some sm_simps)
  next
    case False
    then obtain swa swb where sw: "map_of (lm_switches s) ?a = Some swa" "map_of (lm_switches s) ?b = Some swb" by auto
    then have "l2_at ?a s \<and> l2_at ?b s" using s by (force simp: l2_at_def dest: map_of_SomeD)
    from k [OF this] show ?thesis by (simp add: l2_LinkEvent_def switch_of_Some [OF sw(1)] switch_of_Some [OF sw(2)] sm_simps l2_at_def)
  qed
qed

section \<open>Transaction identifiers\<close>

definition nx_ok :: "l2_multi \<Rightarrow> bool" where
  "nx_ok s \<longleftrightarrow> xid_ok (nx_nextXID s)"

lemma nx_ok_flow_mod [keeps_intros]: "keeps nx_ok (flow_mod_send c m)"
  by (rule keepsI) (simp add: nx_ok_def connection_send_nx flow_mod_pack_nx)

lemma nx_ok_packet_out [keeps_intros]: "keeps nx_ok (packet_out_send c m)"
  by (rule keepsI) (simp add: nx_ok_def connection_send_nx packet_out_pack_nx)

lemma nx_ok_same: "(\<And>s. nx_nextXID (f s) = nx_nextXID s) \<Longrightarrow> keeps nx_ok (smod f)"
  by (rule keeps_smod) (simp add: nx_ok_def)

lemma nx_ok_raw_path [keeps_intros]: "keeps nx_ok (get_raw_path n i j)"
  by (induction n arbitrary: i j)
    (auto simp: run_calc_paths_def read_path_def Let_def intro!: keeps_intros nx_ok_same)

lemma nx_ok_send_clear [keeps_intros]: "keeps nx_ok (send_clear ds m)"
  by (induction ds arbitrary: m) (auto simp: connection_of_def switch_of_def intro!: keeps_intros)

lemma nx_ok_install [keeps_intros]: "keeps nx_ok (install_path env depth d dst port match ofp p)"
  by (auto simp: install_path_def get_path_def send_unreachable_def install_hops_def install_def connection_of_def switch_of_def Let_def
      split: option.split packet.split list.split prod.split intro!: keeps_intros nx_ok_same)

lemma nx_ok_step: "nx_ok s \<Longrightarrow> nx_ok (snd (l2_step depth ev s))"
proof -
  have "keeps nx_ok (l2_step depth ev)"
    by (cases ev) (auto simp: l2_ConnectionUp_def set_switch_def l2_PacketIn_def kill_buffer_def update_location_def learn_def
      forward_packet_def flood_def connection_of_def switch_of_def l2_LinkEvent_def split: option.split prod.split intro!: keeps_intros nx_ok_same)
  then show "nx_ok s \<Longrightarrow> nx_ok (snd (l2_step depth ev s))" by (simp add: keeps_def)
qed

section \<open>Reachable states\<close>

inductive l2_reachable :: "nat \<Rightarrow> l2_multi \<Rightarrow> bool" for depth where
  start: "xid_ok nx \<Longrightarrow> l2_reachable depth (l2_multi_init nx)"
| step: "l2_reachable depth s \<Longrightarrow> l2_reachable depth (snd (l2_step depth ev s))"

lemma l2_ok_init: "l2_ok (l2_multi_init nx)"
  by (simp add: l2_ok_def paths_ok_def l2_multi_init_def symmetric_def linked_def over_def)

lemma l2_ok_step:
  assumes "l2_ok s"
  shows "l2_ok (snd (l2_step depth ev s))"
proof (cases ev)
  case (L2Down c)
  then show ?thesis using assms by (simp add: l2_defs sm_simps)
next
  case (L2Packet c d ofp env)
  show ?thesis
  proof (cases "listens c d s")
    case True
    then have "l2_at d s" using assms by (force simp: l2_at_def listens_def dest: map_of_SomeD split: option.splits)
    moreover have "keeps (l2_at d) (sdo (l2_PacketIn env depth d ofp))" by (intro keeps_intros l2_at_PacketIn)
    ultimately show ?thesis using True by (auto simp: L2Packet keeps_def l2_at_def)
  qed (use assms in \<open>simp add: L2Packet sret_def\<close>)
qed (use assms l2_ok_ConnectionUp l2_ok_LinkEvent in \<open>auto simp: keeps_def\<close>)

lemma l2_reachable_ok: "l2_reachable depth s \<Longrightarrow> l2_ok s"
  by (induction rule: l2_reachable.induct) (auto intro: l2_ok_init l2_ok_step)

lemma l2_reachable_xid: "l2_reachable depth s \<Longrightarrow> xid_ok (nx_nextXID s)"
proof (induction rule: l2_reachable.induct)
  case (start nx)
  then show ?case by (simp add: l2_multi_init_def)
next
  case (step s ev)
  then show ?case using nx_ok_step by (simp add: nx_ok_def)
qed

section \<open>What is sent\<close>

text \<open>The connection a switch uses and that is up.\<close>

definition conn :: "l2_multi \<Rightarrow> dpid \<Rightarrow> nat option" where
  "conn s d = (case map_of (lm_switches s) d of None \<Rightarrow> None
     | Some sw \<Rightarrow> (case l2_connection sw of None \<Rightarrow> None | Some c \<Rightarrow> if c \<in> set (nx_disconnected s) then None else Some c))"

lemma conn_Some:
  assumes "conn s d = Some c"
  shows "connection_of d s = (Inr c, s)" "c \<notin> set (nx_disconnected s)"
  using assms by (auto simp: conn_def connection_of_def switch_of_def sm_simps split: option.splits if_splits)

lemma conn_send [simp]: "conn (s\<lparr>nx_sent := b, nx_nextXID := n\<rparr>) = conn s"
  by (rule ext) (simp add: conn_def split: option.split)

lemma conn_paths [simp]: "conn (s\<lparr>lm_path_map := pm\<rparr>) = conn s"
  by (rule ext) (simp add: conn_def split: option.split)

text \<open>A hop with the connection it is sent to; what is sent to it.\<close>

definition hop_ok :: "l2_multi \<Rightarrow> dpid \<times> int option \<Rightarrow> bool" where
  "hop_ok s = (\<lambda>(d, port). conn s d \<noteq> None \<and> (\<exists>p. port = Some p \<and> port_ok p))"

definition hop_sent :: "l2_multi \<Rightarrow> ofp_match \<Rightarrow> int \<Rightarrow> dpid \<times> int option \<Rightarrow> nat \<times> bytes \<Rightarrow> bool" where
  "hop_sent s match buf = (\<lambda>(d, port) (c, b). conn s d = Some c \<and> (\<exists>p. port = Some p \<and> carries match p buf b))"

lemma install_sends:
  assumes "hop_ok s (d, port)" "match_ok match" "buffer_ok buf" "xid_ok (nx_nextXID s)"
  shows "\<exists>m nx. install d port match buf s = (Inr (), s\<lparr>nx_sent := nx_sent s @ [m], nx_nextXID := nx\<rparr>)
    \<and> xid_ok nx \<and> hop_sent s match buf (d, port) m"
proof -
  obtain c p where c: "conn s d = Some c" and p: "port = Some p" "port_ok p" using assms(1) by (auto simp: hop_ok_def)
  note k = conn_Some [OF c]
  obtain b m' where "flow_mod_send c (port_flow match p buf) s = (Inr m', s\<lparr>nx_sent := nx_sent s @ [(c, b)],
      nx_nextXID := snd (generateXID (nx_nextXID s))\<rparr>)" "carries match p buf b"
    using port_flow_sent [OF assms(2) p(2) assms(3,4) k(2)] by blast
  then show ?thesis
    using k c p generateXID_ok [OF assms(4)]
    by (intro exI [of _ "(c, b)"] exI [of _ "snd (generateXID (nx_nextXID s))"])
       (simp add: install_def port_flow_def output_to_def hop_sent_def sm_simps)
qed

lemma hop_sent_send [simp]: "hop_sent (s\<lparr>nx_sent := b, nx_nextXID := n\<rparr>) = hop_sent s"
  "hop_sent (s\<lparr>lm_path_map := pm\<rparr>) = hop_sent s"
  by (intro ext; simp add: hop_sent_def split: prod.split)+

lemma hop_ok_send [simp]: "hop_ok (s\<lparr>nx_sent := b, nx_nextXID := n\<rparr>) = hop_ok s" "hop_ok (s\<lparr>lm_path_map := pm\<rparr>) = hop_ok s"
  by (simp_all add: hop_ok_def)

lemma installs_send:
  assumes "match_ok match" "buffer_ok buf"
  shows "list_all (hop_ok s) hs \<Longrightarrow> xid_ok (nx_nextXID s) \<Longrightarrow>
    \<exists>ms nx. sfor (\<lambda>(d, port). install d port match buf) hs s = (Inr (), s\<lparr>nx_sent := nx_sent s @ ms, nx_nextXID := nx\<rparr>)
      \<and> xid_ok nx \<and> list_all2 (hop_sent s match buf) hs ms"
proof (induction hs arbitrary: s)
  case Nil
  show ?case using Nil(2) by (intro exI [of _ "[]"] exI [of _ "nx_nextXID s"]) (simp add: sret_def)
next
  case (Cons h hs)
  obtain d port where h: "h = (d, port)" by (cases h)
  obtain m nx where one: "install d port match buf s = (Inr (), s\<lparr>nx_sent := nx_sent s @ [m], nx_nextXID := nx\<rparr>)"
    "xid_ok nx" "hop_sent s match buf h m"
    using install_sends [OF _ assms, of s d port] Cons.prems h by auto
  obtain ms nx' where rest: "sfor (\<lambda>(d, port). install d port match buf) hs (s\<lparr>nx_sent := nx_sent s @ [m], nx_nextXID := nx\<rparr>)
      = (Inr (), s\<lparr>nx_sent := nx_sent s @ m # ms, nx_nextXID := nx'\<rparr>)" "xid_ok nx'" "list_all2 (hop_sent s match buf) hs ms"
    using Cons.IH [of "s\<lparr>nx_sent := nx_sent s @ [m], nx_nextXID := nx\<rparr>"] Cons.prems one(2) by auto
  show ?case
    using one rest by (intro exI [of _ "m # ms"] exI [of _ nx']) (simp add: h sm_simps)
qed

text \<open>The hops of a path, in the order in which they are told: the first switch last, with the buffered packet.\<close>

lemma install_hops_sends:
  assumes "list_all (hop_ok s) (h # hs)" "match_ok match" "buffer_ok buf" "xid_ok (nx_nextXID s)"
  shows "\<exists>ms m nx. install_hops (h # hs) match buf s = (Inr (), s\<lparr>nx_sent := nx_sent s @ ms @ [m], nx_nextXID := nx,
      lm_events := lm_events s @ [h # hs]\<rparr>)
    \<and> list_all2 (hop_sent s match (- 1)) hs ms \<and> hop_sent s match buf h m"
proof -
  obtain ms nx where ms: "sfor (\<lambda>(d, port). install d port match (- 1)) hs s = (Inr (), s\<lparr>nx_sent := nx_sent s @ ms, nx_nextXID := nx\<rparr>)"
    "xid_ok nx" "list_all2 (hop_sent s match (- 1)) hs ms"
    using installs_send [OF assms(2), of "- 1" s hs] assms by (auto simp: buffer_ok_def)
  obtain d port where h: "h = (d, port)" by (cases h)
  obtain m nx' where m: "install d port match buf (s\<lparr>nx_sent := nx_sent s @ ms, nx_nextXID := nx\<rparr>)
     = (Inr (), s\<lparr>nx_sent := nx_sent s @ ms @ [m], nx_nextXID := nx'\<rparr>)" "hop_sent s match buf h m"
    using install_sends [of "s\<lparr>nx_sent := nx_sent s @ ms, nx_nextXID := nx\<rparr>" d port match buf] assms ms(2) h by auto
  show ?thesis
    using ms m by (intro exI [of _ ms] exI [of _ m] exI [of _ nx']) (simp add: install_hops_def h sm_simps)
qed

lemma route_hops:
  "route adj src dst port r \<Longrightarrow> over adj S \<Longrightarrow> src \<in> S \<Longrightarrow> (d, p) \<in> set r \<Longrightarrow>
    d \<in> S \<and> (\<exists>q. p = Some q \<and> (q = port \<or> (\<exists>k. (k, q) \<in> set adj)))"
proof (induction adj src dst port r rule: route.induct)
  case (3 adj src dst port d1 p1 d2 p2 r)
  then have "d2 \<in> S" using over_linked [of adj S d1 d2] by (auto simp: linked_def)
  then show ?case using 3 by (auto dest: map_of_SomeD)
qed auto

lemma install_path_sends:
  assumes ok: "l2_ok s" and src: "self \<in> set (dpids s)" and depth: "length (lm_switches s) \<le> depth"
    and q: "route (lm_adjacency s) self dst port q" and up: "\<forall>d\<in>set (dpids s). conn s d \<noteq> None"
    and ports: "\<forall>(_, p) \<in> set (lm_adjacency s). port_ok p" "port_ok port"
    and msg: "match_ok match" "buffer_ok (pi_buffer_id ofp)" "xid_ok (nx_nextXID s)"
  shows "\<exists>h hs ms m s'. install_path env depth self dst port match ofp packet s = (Inr (), s')
    \<and> route (lm_adjacency s) self dst port (h # hs) \<and> length (h # hs) \<le> length q
    \<and> lm_events s' = lm_events s @ [h # hs] \<and> nx_sent s' = nx_sent s @ ms @ [m]
    \<and> list_all2 (hop_sent s match (- 1)) hs ms \<and> hop_sent s match (pi_buffer_id ofp) h m"
proof -
  have pok: "paths_ok s" using ok by (simp add: l2_ok_def)
  obtain r' s' where get: "get_path depth self dst port s = (Inr r', s')" and s': "s' = s \<or> s' = with_paths s"
    and r': "case r' of None \<Rightarrow> \<forall>q. \<not> route (lm_adjacency s) self dst port q
       | Some r \<Rightarrow> route (lm_adjacency s) self dst port r \<and> (\<forall>q. route (lm_adjacency s) self dst port q \<longrightarrow> length r \<le> length q)"
    using get_path_route [OF pok src depth, of dst port] by blast
  then obtain r where r: "r' = Some r" "route (lm_adjacency s) self dst port r" "length r \<le> length q"
    using q by (cases r') auto
  then obtain h hs where hs: "r = h # hs" using route_walk by (cases r) auto
  have "hop_ok s (d, p)" if "(d, p) \<in> set r" for d p
    using route_hops [OF r(2) _ src that] pok up ports by (fastforce simp: paths_ok_def hop_ok_def simp del: set_map)
  then have "\<forall>x \<in> set r. hop_ok s x" by auto
  then have "list_all (hop_ok s') (h # hs)" using s' hs by (auto simp: list_all_iff)
  then obtain ms m nx where "install_hops (h # hs) match (pi_buffer_id ofp) s' = (Inr (), s'\<lparr>nx_sent := nx_sent s' @ ms @ [m],
      nx_nextXID := nx, lm_events := lm_events s' @ [h # hs]\<rparr>)"
    "list_all2 (hop_sent s' match (- 1)) hs ms" "hop_sent s' match (pi_buffer_id ofp) h m"
    using install_hops_sends [OF _ msg(1,2), of s' h hs] msg(3) s' by auto
  then show ?thesis
    using get r hs s'
    by (intro exI [of _ h] exI [of _ hs] exI [of _ ms] exI [of _ m]
          exI [of _ "s'\<lparr>nx_sent := nx_sent s' @ ms @ [m], nx_nextXID := nx, lm_events := lm_events s' @ [h # hs]\<rparr>"])
       (auto simp: install_path_def sm_simps)
qed

section \<open>A switch that went down\<close>

lemma connection_send_switches: "keeps (\<lambda>s. lm_switches s = sws \<and> lm_adjacency s = adj \<and> lm_path_map s = pm \<and> lm_mac_map s = macs)
    (connection_send c pk m)"
  by (rule keeps_connection_send) simp

lemma connection_of_state: "snd (connection_of d s) = s"
  by (auto simp: connection_of_def switch_of_def sbind_def sget_def slift_def split: sum.split)

lemma keeps_connection_of [keeps_intros]: "keeps P (connection_of d)"
  by (simp add: keeps_def connection_of_state)

lemma send_clear_state: "keeps (\<lambda>s. lm_switches s = sws \<and> lm_adjacency s = adj \<and> lm_path_map s = pm \<and> lm_mac_map s = macs)
    (send_clear ds m)"
  by (induction ds arbitrary: m) (auto intro!: keeps_intros connection_send_switches)

lemma send_clear_raises:
  "d \<in> set ds \<Longrightarrow> map_of (lm_switches s) d = Some sw \<Longrightarrow> l2_connection sw = None \<Longrightarrow> \<not> is_ok (fst (send_clear ds m s))"
proof (induction ds arbitrary: m s)
  case (Cons a ds)
  show ?case
  proof (cases "fst (connection_of a s)")
    case (Inl e)
    then have "connection_of a s = (Inl e, s)" using connection_of_state [of a s] by (cases "connection_of a s") auto
    then show ?thesis by (simp add: sm_simps)
  next
    case (Inr c)
    then have c: "connection_of a s = (Inr c, s)" using connection_of_state [of a s] by (cases "connection_of a s") auto
    then have "a \<noteq> d" using Cons.prems(2,3) by (auto simp: connection_of_def switch_of_Some sm_simps)
    then have d: "d \<in> set ds" using Cons.prems(1) by simp
    obtain r s' where send: "flow_mod_send c m s = (r, s')" by (cases "flow_mod_send c m s")
    then have "lm_switches s' = lm_switches s"
      using connection_send_switches [unfolded keeps_def, rule_format, of s "lm_switches s"] by (metis snd_conv)
    then show ?thesis using Cons.IH [OF d _ Cons.prems(3), of s'] Cons.prems(2) send c by (cases r) (simp_all add: sm_simps)
  qed
qed simp

lemma LinkEvent_raises:
  assumes "map_of (lm_switches s) d = Some sw" "l2_connection sw = None"
  shows "\<not> is_ok (fst (l2_LinkEvent known removed l s)) \<and> lm_adjacency (snd (l2_LinkEvent known removed l s)) = lm_adjacency s
    \<and> lm_path_map (snd (l2_LinkEvent known removed l s)) = lm_path_map s
    \<and> lm_mac_map (snd (l2_LinkEvent known removed l s)) = lm_mac_map s"
proof (cases "map_of (lm_switches s) (link_dpid1 l) = None \<or> map_of (lm_switches s) (link_dpid2 l) = None")
  case True
  then show ?thesis by (cases "map_of (lm_switches s) (link_dpid1 l)") (auto simp: l2_LinkEvent_def switch_of_None switch_of_Some sm_simps)
next
  case False
  then obtain swa swb where sw: "map_of (lm_switches s) (link_dpid1 l) = Some swa" "map_of (lm_switches s) (link_dpid2 l) = Some swb" by auto
  let ?m = "ofp_flow_mod_init\<lparr>fm_match := ofp_match_init, fm_command := OFPFC_DELETE\<rparr>"
  obtain r s' where r: "send_clear (dpids s) ?m s = (r, s')" by (cases "send_clear (dpids s) ?m s")
  have "d \<in> set (dpids s)" using assms(1) by (force dest: map_of_SomeD)
  then obtain e where e: "r = Inl e" using send_clear_raises [OF _ assms, of "dpids s" ?m] r by (cases r) auto
  have "lm_adjacency s' = lm_adjacency s \<and> lm_path_map s' = lm_path_map s \<and> lm_mac_map s' = lm_mac_map s"
    using send_clear_state [unfolded keeps_def, rule_format, of s "lm_switches s"] r by (metis snd_conv)
  then show ?thesis using r by (simp add: l2_LinkEvent_def switch_of_Some [OF sw(1)] switch_of_Some [OF sw(2)] sm_simps e)
qed

section \<open>A link event\<close>

text \<open>One message object is packed for every switch; the first packing gives it its identifier.\<close>

definition clear_msg :: ofp_flow_mod where
  "clear_msg = ofp_flow_mod_init\<lparr>fm_match := ofp_match_init, fm_command := OFPFC_DELETE\<rparr>"

definition is_clear :: "ofp_flow_mod \<Rightarrow> bool" where
  "is_clear m \<longleftrightarrow> (\<exists>l x. m = clear_msg\<lparr>msg_len := l, xid := x\<rparr> \<and> (\<forall>v. x = Some v \<longrightarrow> xid_ok v))"

text \<open>What a switch reads in the bytes: a removal of the flows of every match\<close>

definition says_clear :: "bytes \<Rightarrow> bool" where
  "says_clear b \<longleftrightarrow> (\<exists>m. ofp_flow_mod_unpack ofp_flow_mod_init b = Inr (m, []) \<and> fm_command m = OFPFC_DELETE
     \<and> ofp_match_eq ofp_match_init (fm_match m) = Inr True \<and> fm_out_port m = OFPP_NONE)"

lemma clear_says:
  assumes "is_clear m" "ofp_flow_mod_pack True nx m = Inr (b, m', nx')"
  shows "says_clear b"
proof -
  obtain l x where m: "m = clear_msg\<lparr>msg_len := l, xid := x\<rparr>" using assms(1) by (auto simp: is_clear_def)
  have f: "list_all action_wf (fm_actions m)" "match_consistent (fm_match m)" "fm_buffer_id m = Some (- 1)" "fm_match m = ofp_match_init"
    "fm_actions m = []" "fm_command m = OFPFC_DELETE" "fm_out_port m = OFPP_NONE"
    using match_init_consistent by (simp_all add: m clear_msg_def ofp_flow_mod_init_def)
  have u: "ofp_flow_mod_unpack ofp_flow_mod_init (b @ []) = Inr (m'\<lparr>fm_match := match_wire True (fm_match m), fm_actions := map action_norm (fm_actions m)\<rparr>, [])"
    using ofp_flow_mod_wire [OF assms(2) f(1-3), of ofp_flow_mod_init "[]"] by simp
  obtain mb where "ofp_match_pack True True ofp_match_init = Inr mb" using match_init_pack_ok by blast
  then obtain ns nd where "fix_addr (attr_nw_src ofp_match_init) = Inr ns" "fix_addr (attr_nw_dst ofp_match_init) = Inr nd"
    by (auto simp: ofp_match_pack_def res_simps split: if_split_asm)
  then have "ofp_match_eq ofp_match_init (match_wire True (fm_match m)) = Inr True" using match_wire_eq f(2,4) by simp
  moreover obtain y z where "m' = m\<lparr>msg_len := y, xid := z, fm_actions := map action_after_pack (fm_actions m)\<rparr>"
    using assms(2) by (auto simp: ofp_flow_mod_pack_def msg_pack_def rbind_eq_Inr rmap_eq_Inr dest!: ofp_header_pack_keeps)
  ultimately show ?thesis unfolding says_clear_def using u f(4-7) by simp
qed

lemma clear_packs:
  assumes "is_clear m" "xid_ok nx"
  shows "\<exists>b m' nx'. ofp_flow_mod_pack True nx m = Inr (b, m', nx') \<and> is_clear m' \<and> xid_ok nx'"
proof -
  obtain l x where m: "m = clear_msg\<lparr>msg_len := l, xid := x\<rparr>" and x: "\<forall>v. x = Some v \<longrightarrow> xid_ok v"
    using assms(1) by (auto simp: is_clear_def)
  let ?v = "case x of Some v \<Rightarrow> v | None \<Rightarrow> nx" and ?nx = "case x of Some v \<Rightarrow> nx | None \<Rightarrow> snd (generateXID nx)"
  have ok: "xid_ok ?v" "xid_ok ?nx" using x assms(2) generateXID_ok [OF assms(2)] by (auto split: option.split)
  obtain mb where mb: "ofp_match_pack True True ofp_match_init = Inr mb" using match_init_pack_ok by blast
  have "in_range FL 0xffffffff" by (simp add: in_range_def)
  then have "\<exists>b. ofp_flow_mod_pack True nx m = Inr (b, clear_msg\<lparr>msg_len := 72, xid := Some ?v\<rparr>, ?nx)"
    using mb ok(1)
    by (cases x) (auto simp: m clear_msg_def ofp_flow_mod_pack_def msg_pack_def ofp_flow_mod_init_def ofp_header_pack_def assign_xid_def
        generateXID_def Let_def ofp_header_assert_def ofp_type_known_iff struct_pack.simps in_range_def xid_ok_def
        ofp_flow_mod_len_def)
  moreover have "is_clear (clear_msg\<lparr>msg_len := 72, xid := Some ?v\<rparr>)" using ok(1) by (auto simp: is_clear_def)
  ultimately show ?thesis using ok(2) by blast
qed

text \<open>A switch that was ever seen has a connection, which need not be up.\<close>

definition wired :: "l2_multi \<Rightarrow> dpid \<Rightarrow> bool" where
  "wired s d \<longleftrightarrow> (\<exists>sw. map_of (lm_switches s) d = Some sw \<and> l2_connection sw \<noteq> None)"

lemma wired_send [simp]: "wired (s\<lparr>nx_sent := b, nx_nextXID := n\<rparr>) = wired s"
  by (simp add: wired_def fun_eq_iff)

lemma wired_known: "l2_ok s \<Longrightarrow> d \<in> set (dpids s) \<Longrightarrow> wired s d"
  unfolding wired_def using l2_ok_switch by (fastforce simp: l2_switch_ok_def dest: weak_map_of_SomeI)

lemma wired_connection:
  assumes "wired s d"
  obtains c where "connection_of d s = (Inr c, s)" "conn s d = (if c \<in> set (nx_disconnected s) then None else Some c)"
  using assms by (auto simp: wired_def connection_of_def switch_of_def conn_def sm_simps)

lemma send_clear_sends:
  "\<forall>d\<in>set ds. wired s d \<Longrightarrow> is_clear m \<Longrightarrow> xid_ok (nx_nextXID s) \<Longrightarrow>
   \<exists>bs nx. send_clear ds m s = (Inr (), s\<lparr>nx_sent := nx_sent s @ bs, nx_nextXID := nx\<rparr>) \<and> xid_ok nx
     \<and> map fst bs = List.map_filter (conn s) ds \<and> list_all says_clear (map snd bs)"
proof (induction ds arbitrary: s m)
  case Nil
  then show ?case by (intro exI [of _ "[]"] exI [of _ "nx_nextXID s"]) (simp add: sret_def map_filter_simps)
next
  case (Cons d ds)
  then obtain c where c: "connection_of d s = (Inr c, s)" "conn s d = (if c \<in> set (nx_disconnected s) then None else Some c)"
    using wired_connection by (metis list.set_intros(1))
  show ?case
  proof (cases "c \<in> set (nx_disconnected s)")
    case True
    then have "flow_mod_send c m s = (Inr m, s)" by (simp add: connection_send_def sret_def)
    then show ?thesis using Cons.IH [of s m] Cons.prems c True by (simp add: sm_simps map_filter_simps)
  next
    case False
    obtain b m' nx where p: "ofp_flow_mod_pack True (nx_nextXID s) m = Inr (b, m', nx)" "is_clear m'" "xid_ok nx"
      using clear_packs [OF Cons.prems(2,3)] by blast
    let ?s = "s\<lparr>nx_sent := nx_sent s @ [(c, b)], nx_nextXID := nx\<rparr>"
    have one: "flow_mod_send c m s = (Inr m', ?s)" using p(1) False by (simp add: connection_send_def sret_def)
    obtain bs nx' where "send_clear ds m' ?s = (Inr (), ?s\<lparr>nx_sent := nx_sent ?s @ bs, nx_nextXID := nx'\<rparr>)" "xid_ok nx'"
        "map fst bs = List.map_filter (conn s) ds" "list_all says_clear (map snd bs)"
      using Cons.IH [of ?s m'] Cons.prems(1) p(2,3) by auto
    then show ?thesis using one c False clear_says [OF Cons.prems(2) p(1)]
      by (intro exI [of _ "(c, b) # bs"] exI [of _ nx']) (simp add: sm_simps map_filter_simps)
  qed
qed

lemma LinkEvent_result:
  assumes "link_dpid1 l \<in> set (dpids s)" "link_dpid2 l \<in> set (dpids s)" "l2_ok s" "xid_ok (nx_nextXID s)"
  shows "\<exists>bs nx. l2_LinkEvent known removed l s = (Inr (), s\<lparr>nx_sent := nx_sent s @ bs, nx_nextXID := nx, lm_path_map := None,
      lm_adjacency := (if removed then drop_link known l (lm_adjacency s) else add_link known l (lm_adjacency s)),
      lm_mac_map := (if removed then lm_mac_map s else unlearn l (lm_mac_map s))\<rparr>)
    \<and> xid_ok nx \<and> map fst bs = List.map_filter (conn s) (dpids s) \<and> list_all says_clear (map snd bs)"
proof -
  obtain swa swb where sw: "map_of (lm_switches s) (link_dpid1 l) = Some swa" "map_of (lm_switches s) (link_dpid2 l) = Some swb"
    using assms(1,2) by (metis map_of_eq_None_iff not_None_eq set_map)
  have "is_clear clear_msg" by (auto simp: is_clear_def clear_msg_def ofp_flow_mod_init_def)
  moreover have "\<forall>d\<in>set (dpids s). wired s d" using wired_known [OF assms(3)] by blast
  ultimately obtain bs nx where bs: "send_clear (dpids s) clear_msg s = (Inr (), s\<lparr>nx_sent := nx_sent s @ bs, nx_nextXID := nx\<rparr>)"
    "xid_ok nx" "map fst bs = List.map_filter (conn s) (dpids s)" "list_all says_clear (map snd bs)"
    using send_clear_sends [OF _ _ assms(4)] by blast
  then show ?thesis
    by (intro exI [of _ bs] exI [of _ nx])
       (simp add: l2_LinkEvent_def switch_of_Some [OF sw(1)] switch_of_Some [OF sw(2)] sm_simps flip: clear_msg_def)
qed

section \<open>A network of three switches in a line\<close>

definition line_links :: "link list" where
  "line_links = [\<lparr>link_dpid1 = 1, link_port1 = 2, link_dpid2 = 2, link_port2 = 3\<rparr>,
     \<lparr>link_dpid1 = 2, link_port1 = 3, link_dpid2 = 1, link_port2 = 2\<rparr>,
     \<lparr>link_dpid1 = 2, link_port1 = 4, link_dpid2 = 3, link_port2 = 5\<rparr>,
     \<lparr>link_dpid1 = 3, link_port1 = 5, link_dpid2 = 2, link_port2 = 4\<rparr>]"

definition line_switch :: "nat \<Rightarrow> dpid \<Rightarrow> l2_switch" where
  "line_switch c d = \<lparr>l2_connection = Some c, l2_ports = Some [], l2_dpid = Some d, l2_listeners = Some c\<rparr>"

definition line_ups :: l2_multi where
  "line_ups = (l2_multi_init 1)\<lparr>lm_switches := [(1, line_switch 10 1), (2, line_switch 11 2), (3, line_switch 12 3)]\<rparr>"

lemma line_ups_reachable: "l2_reachable depth line_ups"
proof -
  let ?up = "\<lambda>c d s. snd (l2_step depth (L2Up c d []) s)"
  have "line_ups = ?up 12 3 (?up 11 2 (?up 10 1 (l2_multi_init 1)))"
    by (simp add: line_ups_def l2_multi_init_def l2_ConnectionUp_def Switch_connect_def Switch_init_def Switch_disconnect_def
        set_switch_def line_switch_def smod_def)
  moreover have "l2_reachable depth (?up 12 3 (?up 11 2 (?up 10 1 (l2_multi_init 1))))"
    by (intro l2_reachable.intros) (simp add: xid_ok_def)
  ultimately show ?thesis by (simp only:)
qed

abbreviation line_adjacency :: adjacency where
  "line_adjacency \<equiv> [((1, 2), 2), ((2, 1), 3), ((2, 3), 4), ((3, 2), 5)]"

lemma line_net:
  obtains s where "l2_reachable depth s" "lm_adjacency s = line_adjacency" "lm_switches s = lm_switches line_ups"
    "nx_disconnected s = []" "xid_ok (nx_nextXID s)"
proof -
  let ?up = "\<lambda>s. lm_switches s = lm_switches line_ups \<and> nx_disconnected s = [] \<and> xid_ok (nx_nextXID s)"
  have ds: "set (dpids s) = {1, 2, 3}" if "?up s" for s
    using that by (auto simp: line_ups_def)
  have link: "\<exists>s'. l2_reachable depth s' \<and> ?up s' \<and> lm_adjacency s' = add_link line_links l (lm_adjacency s)"
    if s: "l2_reachable depth s" "?up s" and l: "link_dpid1 l \<in> {1, 2, 3}" "link_dpid2 l \<in> {1, 2, 3}" for s l
  proof -
    have m: "link_dpid1 l \<in> set (dpids s)" "link_dpid2 l \<in> set (dpids s)" unfolding ds [OF s(2)] by (rule l)+
    obtain bs nx where r: "l2_LinkEvent line_links False l s = (Inr (), s\<lparr>nx_sent := nx_sent s @ bs, nx_nextXID := nx, lm_path_map := None,
        lm_adjacency := add_link line_links l (lm_adjacency s), lm_mac_map := unlearn l (lm_mac_map s)\<rparr>)" "xid_ok nx"
      using LinkEvent_result [OF m l2_reachable_ok [OF s(1)], of line_links False] s(2) by (auto simp only: if_False)
    have "l2_reachable depth (snd (l2_step depth (L2Link line_links False l) s))" using s(1) by (rule l2_reachable.step)
    then show ?thesis
      using r s(2) by (intro exI [of _ "snd (l2_step depth (L2Link line_links False l) s)"]) simp
  qed
  have start: "?up line_ups" by (simp add: line_ups_def l2_multi_init_def xid_ok_def)
  obtain s1 where s1: "l2_reachable depth s1" "?up s1" "lm_adjacency s1 = add_link line_links (line_links ! 0) (lm_adjacency line_ups)"
    using link [OF line_ups_reachable start, of "line_links ! 0"] by (auto simp: line_links_def)
  obtain s2 where s2: "l2_reachable depth s2" "?up s2" "lm_adjacency s2 = add_link line_links (line_links ! 2) (lm_adjacency s1)"
    using link [OF s1(1,2), of "line_links ! 2"] by (auto simp: line_links_def)
  have "lm_adjacency s2 = line_adjacency"
    unfolding s1(3) s2(3) by (simp add: line_ups_def l2_multi_init_def line_links_def add_link_def connect_link_def flip_def)
  then show thesis using that s2(1,2) by blast
qed

section \<open>Properties\<close>

text \<open>
  C5: In every state the application can reach, asking for the path between two known switches returns,
  and returns a route along links that exist which no other route beats; it returns \<open>None\<close> only when there is no route.
  Neither the assertion nor the sum of a path and \<open>None\<close> ever raises.  The recursion is no deeper than
  the network has switches.
\<close>

theorem l2_shortest_route:
  assumes "l2_reachable depth s" "src \<in> set (dpids s)" "length (lm_switches s) \<le> depth"
  shows "\<exists>r s'. get_path depth src dst port s = (Inr r, s')
    \<and> (case r of None \<Rightarrow> \<forall>q. \<not> route (lm_adjacency s) src dst port q
       | Some r \<Rightarrow> route (lm_adjacency s) src dst port r \<and> (\<forall>q. route (lm_adjacency s) src dst port q \<longrightarrow> length r \<le> length q))"
  using get_path_route [of s src depth dst port] l2_reachable_ok [OF assms(1)] assms(2,3) by (auto simp: l2_ok_def)

theorem l2_shortest_route_witness:
  "\<exists>s r s'. l2_reachable 5 s \<and> dpids s = [1, 2, 3] \<and> get_path 5 1 3 9 s = (Inr (Some r), s')
     \<and> route line_adjacency 1 3 9 r \<and> length r \<le> 3"
proof -
  obtain s where s: "l2_reachable 5 s" "lm_adjacency s = line_adjacency" "lm_switches s = lm_switches line_ups"
    using line_net by blast
  have d: "dpids s = [1, 2, 3]" by (simp add: s(3) line_ups_def)
  obtain q where q: "route line_adjacency 1 3 9 q" "length q = 3"
    using that [of "[(1, Some 2), (2, Some 4), (3, Some 9)]"] by simp
  obtain r s' where r: "get_path 5 1 3 9 s = (Inr r, s')" "case r of None \<Rightarrow> \<forall>q. \<not> route line_adjacency 1 3 9 q
       | Some r \<Rightarrow> route line_adjacency 1 3 9 r \<and> (\<forall>q. route line_adjacency 1 3 9 q \<longrightarrow> length r \<le> length q)"
    using l2_shortest_route [OF s(1), of 1 3 9, unfolded s(2)] d s(3) by (auto simp: line_ups_def simp del: route.simps)
  then obtain r' where r': "r = Some r'" "route line_adjacency 1 3 9 r'" "length r' \<le> 3" using q by (cases r) auto
  show ?thesis using r(1) s(1) d r' by (intro exI [of _ s] exI [of _ r'] exI [of _ s']) simp
qed

text \<open>
  C7: In every reachable state links join known switches, in both directions; a table of paths that is present
  gives the lengths of the shortest walks over those links; every \<open>Switch\<close> knows its number and listens to the connection it
  uses; learned addresses are at known switches.
\<close>

theorem l2_reachable_invariant:
  assumes "l2_reachable depth s"
  shows "l2_ok s"
  by (rule l2_reachable_ok [OF assms])

theorem l2_reachable_invariant_witness:
  "\<exists>s. l2_reachable 5 s \<and> lm_adjacency s = line_adjacency \<and> symmetric line_adjacency \<and> over line_adjacency {1, 2, 3}"
proof -
  obtain s where s: "l2_reachable 5 s" "lm_adjacency s = line_adjacency" "lm_switches s = lm_switches line_ups"
    using line_net by blast
  have "set (dpids s) = {1, 2, 3}" by (simp add: s(3) line_ups_def)
  then show ?thesis using l2_reachable_invariant [OF s(1)] s(1,2) unfolding l2_ok_def paths_ok_def by metis
qed

text \<open>
  C6: When the destination can be reached and all switches are up, \<open>install_path\<close> sends one flow modification
  to every switch of a shortest route, read by the switch as the match of the packet with the port of its hop,
  the first switch last and with the buffered packet, and raises the \<open>PathInstalled\<close> event for that route.
\<close>

theorem l2_path_installed:
  assumes "l2_reachable depth s" "self \<in> set (dpids s)" "length (lm_switches s) \<le> depth"
    and "route (lm_adjacency s) self dst port q" "\<forall>d\<in>set (dpids s). conn s d \<noteq> None"
    and "\<forall>(_, p) \<in> set (lm_adjacency s). port_ok p" "port_ok port"
    and "match_ok match" "buffer_ok (pi_buffer_id ofp)" "xid_ok (nx_nextXID s)"
  shows "\<exists>h hs ms m s'. install_path env depth self dst port match ofp packet s = (Inr (), s')
    \<and> route (lm_adjacency s) self dst port (h # hs) \<and> length (h # hs) \<le> length q
    \<and> lm_events s' = lm_events s @ [h # hs] \<and> nx_sent s' = nx_sent s @ ms @ [m]
    \<and> list_all2 (hop_sent s match (- 1)) hs ms \<and> hop_sent s match (pi_buffer_id ofp) h m"
  by (rule install_path_sends [OF l2_reachable_ok [OF assms(1)] assms(2-)])

theorem l2_path_installed_witness:
  "\<forall>env. \<exists>s h hs ms m s'. l2_reachable 5 s
     \<and> install_path env 5 1 3 9 ofp_match_init ofp_packet_in_init (Bytes []) s = (Inr (), s')
     \<and> route line_adjacency 1 3 9 (h # hs) \<and> nx_sent s' = nx_sent s @ ms @ [m]
     \<and> list_all2 (hop_sent s ofp_match_init (- 1)) hs ms"
proof
  fix env
  obtain s where s: "l2_reachable 5 s" "lm_adjacency s = line_adjacency" "lm_switches s = lm_switches line_ups"
    "nx_disconnected s = []" "xid_ok (nx_nextXID s)"
    using line_net by blast
  have d: "1 \<in> set (dpids s)" "length (lm_switches s) \<le> 5" "\<forall>d\<in>set (dpids s). conn s d \<noteq> None"
    by (auto simp: s(3,4) line_ups_def line_switch_def conn_def)
  have q: "route (lm_adjacency s) 1 3 9 [(1, Some 2), (2, Some 4), (3, Some 9)]" by (simp add: s(2))
  have p: "\<forall>(_, p) \<in> set (lm_adjacency s). port_ok p" "port_ok 9" by (simp_all add: s(2) port_ok_def)
  have m: "match_ok ofp_match_init" "buffer_ok (pi_buffer_id ofp_packet_in_init)"
    using match_init_pack_ok by (auto simp: match_ok_def match_init_consistent is_ok_iff buffer_ok_def ofp_packet_in_init_def)
  obtain h hs ms m s' where "install_path env 5 1 3 9 ofp_match_init ofp_packet_in_init (Bytes []) s = (Inr (), s')"
    "route line_adjacency 1 3 9 (h # hs)" "nx_sent s' = nx_sent s @ ms @ [m]" "list_all2 (hop_sent s ofp_match_init (- 1)) hs ms"
    using l2_path_installed [OF s(1) d(1,2) q d(3) p m s(5), of env "Bytes []"] unfolding s(2) by metis
  then show "\<exists>s h hs ms m s'. l2_reachable 5 s
     \<and> install_path env 5 1 3 9 ofp_match_init ofp_packet_in_init (Bytes []) s = (Inr (), s')
     \<and> route line_adjacency 1 3 9 (h # hs) \<and> nx_sent s' = nx_sent s @ ms @ [m]
     \<and> list_all2 (hop_sent s ofp_match_init (- 1)) hs ms"
    using s(1) by (intro exI [of _ s] exI [of _ h] exI [of _ hs] exI [of _ ms] exI [of _ m] exI [of _ s']) simp
qed

text \<open>What a link event leaves of the links: those between other switches, and what is known between the two\<close>

definition connects :: "adjacency \<Rightarrow> link \<Rightarrow> bool" where
  "connects adj l \<longleftrightarrow> map_of adj (link_dpid2 l, link_dpid1 l) = Some (link_port2 l)
     \<and> (link_dpid1 l \<noteq> link_dpid2 l \<longrightarrow> map_of adj (link_dpid1 l, link_dpid2 l) = Some (link_port1 l))"

definition link_pair :: "link \<Rightarrow> (dpid \<times> dpid) set" where
  "link_pair l = {(link_dpid1 l, link_dpid2 l), (link_dpid2 l, link_dpid1 l)}"

definition two_way :: "link list \<Rightarrow> link \<Rightarrow> link set" where
  "two_way known l = {ll \<in> set known. link_dpid1 ll = link_dpid1 l \<and> link_dpid2 ll = link_dpid2 l \<and> flip ll \<in> set known}"

lemma connect_link_connects:
  "connects (connect_link l adj) l" "e \<notin> link_pair l \<Longrightarrow> map_of (connect_link l adj) e = map_of adj e"
  by (auto simp: connects_def connect_link_def link_pair_def update_conv')

lemma drop_link_leaves:
  "(\<forall>e. e \<notin> link_pair l \<longrightarrow> map_of (drop_link known l adj) e = map_of adj e)
   \<and> (if two_way known l = {} then \<forall>e\<in>link_pair l. map_of (drop_link known l adj) e = None else \<exists>ll\<in>two_way known l. connects (drop_link known l adj) ll)"
proof (cases "find (\<lambda>ll. link_dpid1 ll = link_dpid1 l \<and> link_dpid2 ll = link_dpid2 l \<and> flip ll \<in> set known) known")
  case None
  then have "two_way known l = {}" by (auto simp: find_None_iff two_way_def)
  then show ?thesis using None by (simp add: drop_link_def Let_def delete_conv' link_pair_def)
next
  case (Some ll)
  then have ll: "ll \<in> two_way known l" by (auto simp: find_Some_iff two_way_def)
  then have "link_pair ll = link_pair l" by (simp add: two_way_def link_pair_def)
  then have "\<forall>e. e \<notin> link_pair l \<longrightarrow> map_of (drop_link known l adj) e = map_of adj e"
    using Some connect_link_connects(2) [of _ ll] by (simp add: drop_link_def Let_def delete_conv' link_pair_def)
  moreover have "connects (drop_link known l adj) ll" using Some connect_link_connects(1) by (simp add: drop_link_def Let_def)
  ultimately show ?thesis using ll by auto
qed

lemma add_link_leaves:
  "if map_of adj (link_dpid1 l, link_dpid2 l) = None \<and> flip l \<in> set known
   then connects (add_link known l adj) l \<and> (\<forall>e. e \<notin> link_pair l \<longrightarrow> map_of (add_link known l adj) e = map_of adj e) else add_link known l adj = adj"
  using connect_link_connects(1) [of l adj] connect_link_connects(2) [of _ l adj] by (auto simp: add_link_def)

lemma unlearn_leaves: "set (unlearn l macs) = {(mac, loc) \<in> set macs. loc \<notin> {(link_dpid1 l, link_port1 l), (link_dpid2 l, link_port2 l)}}"
  by (auto simp: unlearn_def)

text \<open>
  C10: Link events are never lost.  In every reachable state, also when switches have gone down, an event for a link
  between two known switches is handled without an exception: one message goes to each switch that is up and to no other, each
  message is read as the removal of the flows of every match, the paths are to be computed anew, and what is known between other
  switches stays.  A link that went leaves its switches joined by a link known in both directions if there is one, and else not at all.  A link that came
  joins its switches if they were not joined and it is known in both directions, and the addresses learned at its ends, and only those, are forgotten.
\<close>

theorem link_event_handled:
  assumes "l2_reachable depth s" "link_dpid1 l \<in> set (dpids s)" "link_dpid2 l \<in> set (dpids s)"
  shows "\<exists>bs nx adj macs. l2_LinkEvent known removed l s = (Inr (), s\<lparr>nx_sent := nx_sent s @ bs, nx_nextXID := nx, lm_path_map := None,
      lm_adjacency := adj, lm_mac_map := macs\<rparr>)
    \<and> xid_ok nx \<and> map fst bs = List.map_filter (conn s) (dpids s) \<and> list_all says_clear (map snd bs)
    \<and> (\<forall>e. e \<notin> link_pair l \<longrightarrow> map_of adj e = map_of (lm_adjacency s) e)
    \<and> (if removed then if two_way known l = {} then \<forall>e\<in>link_pair l. map_of adj e = None else \<exists>ll\<in>two_way known l. connects adj ll
       else if map_of (lm_adjacency s) (link_dpid1 l, link_dpid2 l) = None \<and> flip l \<in> set known then connects adj l else adj = lm_adjacency s)
    \<and> set macs = {(mac, loc) \<in> set (lm_mac_map s). removed \<or> loc \<notin> {(link_dpid1 l, link_port1 l), (link_dpid2 l, link_port2 l)}}"
proof -
  let ?adj = "if removed then drop_link known l (lm_adjacency s) else add_link known l (lm_adjacency s)"
    and ?macs = "if removed then lm_mac_map s else unlearn l (lm_mac_map s)"
  obtain bs nx where r: "l2_LinkEvent known removed l s = (Inr (), s\<lparr>nx_sent := nx_sent s @ bs, nx_nextXID := nx, lm_path_map := None,
      lm_adjacency := ?adj, lm_mac_map := ?macs\<rparr>)"
    "xid_ok nx" "map fst bs = List.map_filter (conn s) (dpids s)" "list_all says_clear (map snd bs)"
    using LinkEvent_result [OF assms(2,3) l2_reachable_ok [OF assms(1)] l2_reachable_xid [OF assms(1)]] by blast
  have "\<forall>e. e \<notin> link_pair l \<longrightarrow> map_of ?adj e = map_of (lm_adjacency s) e"
    using drop_link_leaves [of l known "lm_adjacency s"] add_link_leaves [of "lm_adjacency s" l known] by (simp split: if_split_asm)
  moreover have "if removed then if two_way known l = {} then \<forall>e\<in>link_pair l. map_of ?adj e = None else \<exists>ll\<in>two_way known l. connects ?adj ll
       else if map_of (lm_adjacency s) (link_dpid1 l, link_dpid2 l) = None \<and> flip l \<in> set known then connects ?adj l else ?adj = lm_adjacency s"
    using drop_link_leaves [of l known "lm_adjacency s"] add_link_leaves [of "lm_adjacency s" l known] by (simp split: if_split_asm)
  moreover have "set ?macs = {(mac, loc) \<in> set (lm_mac_map s). removed \<or> loc \<notin> {(link_dpid1 l, link_port1 l), (link_dpid2 l, link_port2 l)}}"
    by (simp add: unlearn_leaves)
  ultimately show ?thesis using r by (intro exI [of _ bs] exI [of _ nx] exI [of _ ?adj] exI [of _ ?macs]) blast
qed

theorem link_event_handled_witness:
  "let s = snd (l2_step 5 (L2Down 11) line_ups) in conn s 2 = None
    \<and> (\<exists>bs s'. l2_LinkEvent line_links False (line_links ! 0) s = (Inr (), s') \<and> nx_sent s' = nx_sent s @ bs \<and> map fst bs = [10, 12]
        \<and> list_all says_clear (map snd bs) \<and> map_of (lm_adjacency s') (1, 2) = Some 2 \<and> map_of (lm_adjacency s') (2, 1) = Some 3)"
proof -
  let ?s = "snd (l2_step 5 (L2Down 11) line_ups)" and ?l = "line_links ! 0"
  have r: "l2_reachable 5 ?s" by (rule l2_reachable.step [OF line_ups_reachable])
  have d: "link_dpid1 ?l \<in> set (dpids ?s)" "link_dpid2 ?l \<in> set (dpids ?s)"
    by (simp_all add: line_links_def line_ups_def l2_multi_init_def sm_simps)
  have a: "lm_adjacency ?s = []" "flip ?l \<in> set line_links" "link_dpid1 ?l = 1" "link_dpid2 ?l = 2" "link_port1 ?l = 2" "link_port2 ?l = 3"
    "List.map_filter (conn ?s) (dpids ?s) = [10, 12]" "conn ?s 2 = None"
    by (simp_all add: line_links_def line_ups_def l2_multi_init_def flip_def conn_def line_switch_def sm_simps map_filter_simps)
  obtain bs nx adj macs where h: "l2_LinkEvent line_links False ?l ?s = (Inr (), ?s\<lparr>nx_sent := nx_sent ?s @ bs, nx_nextXID := nx, lm_path_map := None,
      lm_adjacency := adj, lm_mac_map := macs\<rparr>)" (is "_ = (_, ?s')")
    "map fst bs = [10, 12]" "list_all says_clear (map snd bs)" "connects adj ?l"
    using link_event_handled [OF r d, of line_links False] a(1,2,7) by auto
  have "map_of adj (1, 2) = Some 2" "map_of adj (2, 1) = Some 3" using h(4) by (simp_all add: connects_def a(3-6))
  then show ?thesis using h(1-3) a(8) unfolding Let_def by (intro conjI exI [of _ bs] exI [of _ ?s']) simp_all
qed

text \<open>
  The handler that would take the connection from a \<open>Switch\<close> is best not called: with a switch without a connection every link
  event raises while the switches are told to forget their flows, and the links, the paths and the addresses stay what they were,
  also when the event says that the links of that very switch are gone.
\<close>

theorem links_frozen_after_disconnect:
  assumes "d \<in> set (dpids s)" and "snd (l2_ConnectionDown d s) = t"
  shows "\<not> is_ok (fst (l2_LinkEvent known removed l t)) \<and> lm_adjacency (snd (l2_LinkEvent known removed l t)) = lm_adjacency s
    \<and> lm_path_map (snd (l2_LinkEvent known removed l t)) = lm_path_map s"
proof -
  obtain sw where sw: "map_of (lm_switches s) d = Some sw" using assms(1) by (metis map_of_eq_None_iff not_None_eq set_map)
  have t: "t = s\<lparr>lm_switches := AList.update d (Switch_disconnect sw) (lm_switches s)\<rparr>"
    using assms(2) sw by (simp add: l2_ConnectionDown_def switch_of_Some set_switch_def sm_simps)
  have "map_of (lm_switches t) d = Some (Switch_disconnect sw)" "l2_connection (Switch_disconnect sw) = None"
    by (simp_all add: t update_conv Switch_disconnect_def)
  then show ?thesis using LinkEvent_raises [of t d _ known removed l] by (simp add: t)
qed

end
