(* ===== verification/Lldp_Laws.thy ===== *)
theory Lldp_Laws
  imports Lldp
begin

text \<open>
  The frames of the link layer discovery protocol: each well-formed field survives packing and parsing, and so does a frame.
  The field of the system's capabilities does not.
\<close>

section \<open>Type and length\<close>

lemma typelen_eq: "typelen t len = t * 512 + len mod 512"
proof -
  have "len AND 0x01ff = take_bit 9 len" by (simp add: take_bit_eq_mask mask_eq_exp_minus_1)
  then have "typelen t len = concat_bit 9 len t" by (simp add: typelen_def concat_bit_def or.commute)
  then show ?thesis by (simp add: concat_bit_eq take_bit_eq_mod push_bit_eq_mult)
qed

definition field :: "int \<Rightarrow> int \<Rightarrow> bool" where
  "field t len \<longleftrightarrow> 0 \<le> t \<and> t < 128 \<and> 0 \<le> len \<and> len < 512"

lemma typelen_split: "field t len \<Longrightarrow> drop_bit 9 (typelen t len) = t \<and> typelen t len AND 0x01ff = len"
proof -
  assume f: "field t len"
  have "x AND 0x01ff = x mod 512" for x :: int by (simp add: take_bit_eq_mask mask_eq_exp_minus_1 flip: take_bit_eq_mod [of 9, simplified])
  then show ?thesis using f by (simp add: typelen_eq drop_bit_eq_div field_def)
qed

lemma typelen_range: "field t len \<Longrightarrow> in_range FH (typelen t len)"
  by (simp add: typelen_eq field_def in_range_def)

text \<open>Reading back a header of two bytes\<close>

lemma read_typelen_enc:
  assumes "field t len"
  shows "read_typelen (enc FH (typelen t len) @ rest) = Inr (t, len)"
proof -
  have "dec FH (enc FH (typelen t len)) = typelen t len" using typelen_range [OF assms] by (simp add: dec_enc)
  then show ?thesis using typelen_split [OF assms] by (simp add: read_typelen_def struct_unpack_def bslice_def)
qed

lemma next_tlv_enc:
  assumes "field t len" "length body = nat len"
  shows "next_tlv (enc FH (typelen t len) @ body @ rest) = rmap (\<lambda>v. Some (v, 2 + length body)) (tlv_new t (enc FH (typelen t len) @ body))"
proof -
  have "\<not> int (length (enc FH (typelen t len) @ body @ rest)) < len" "nat len = length body" using assms by (simp_all add: field_def)
  moreover have "bslice 0 (2 + length body) (enc FH (typelen t len) @ body @ rest) = enc FH (typelen t len) @ body" by (simp add: bslice_def)
  ultimately show ?thesis using read_typelen_enc [OF assms(1), of "body @ rest"] by (simp add: next_tlv_def)
qed

section \<open>Each field\<close>

text \<open>Fields whose lengths belong to their contents and whose values fit.\<close>

definition byte_ok :: "int \<Rightarrow> bool" where
  "byte_ok v \<longleftrightarrow> 0 \<le> v \<and> v < 256"

fun tlv_ok :: "tlv \<Rightarrow> bool" where
  "tlv_ok (Chassis_id c) = (\<exists>b. cid_id c = Some b \<and> b \<noteq> [] \<and> cid_strlen c = 1 + int (length b) \<and> length b < 511 \<and> byte_ok (cid_subtype c))"
| "tlv_ok (Port_id p) = (\<exists>b. pid_id p = Some b \<and> b \<noteq> [] \<and> length b < 511 \<and> byte_ok (pid_subtype p))"
| "tlv_ok (Ttl t) = (ttl_strlen t = 2 \<and> in_range FH (ttl_ttl t))"
| "tlv_ok (End_tlv n) = (n = 0)"
| "tlv_ok (Basic_tlv t len nxt) = (0 \<le> t \<and> t < 127 \<and> t \<notin> {0, 1, 2, 3, 7, 8} \<and> len = int (length nxt) \<and> length nxt < 512)"
| "tlv_ok (Management_address m) = (byte_ok (ma_address_subtype m) \<and> byte_ok (ma_interface_numbering_subtype m)
     \<and> in_range FL (ma_interface_number m) \<and> length (ma_address m) < 255 \<and> length (ma_object_identifier m) < 256
     \<and> length (ma_address m) + length (ma_object_identifier m) < 504)"
| "tlv_ok (Organizationally_specific v) = (length (os_oui v) = 3 \<and> byte_ok (os_subtype v) \<and> os_len v = 4 + int (length (os_next v)) \<and> length (os_next v) < 508)"
| "tlv_ok (System_capabilities v) = False"

lemma enc_FB:
  assumes "byte_ok v"
  shows "enc FB v = [word_of_int v]"
proof -
  obtain n where "v = int n" "n < 256" using assms zero_le_imp_eq_int by (fastforce simp: byte_ok_def)
  then show ?thesis by (simp add: enc_def nat_mod_distrib)
qed

lemma unat_byte_ok: "byte_ok v \<Longrightarrow> int (unat (word_of_int v :: byte)) = v"
  by (simp add: byte_ok_def uint_word_of_int_eq take_bit_eq_mod)

lemma uint_byte_ok: "byte_ok v \<Longrightarrow> uint (word_of_int v :: byte) = v"
  using unat_byte_ok by simp

lemma in_range_byte [simp]: "in_range FB v \<longleftrightarrow> byte_ok v"
  by (simp add: in_range_def byte_ok_def)

lemma pack_s_same [simp]: "pack_s (length b) b = b" "length b = n \<Longrightarrow> pack_s n b = b"
  by (auto simp: pack_s_def ljust0_def)

lemma read_byte_2: "byte_ok v \<Longrightarrow> read_byte (enc FH h @ enc FB v @ rest) 2 = Inr v"
  by (simp add: read_byte_def bslice_def struct_unpack_def dec_enc)

text \<open>Every field is its type and length and a body, and the class of that type reads it back.\<close>

lemma pack_id_Inr: 
  assumes "field t (1 + int (length b))" "byte_ok sub"
  shows "pack_id t (1 + int (length b)) sub (Some b) = Inr (enc FH (typelen t (1 + int (length b))) @ enc FB sub @ b)"
  using assms typelen_range [OF assms(1)] by (simp add: pack_id_def struct_pack.simps)

lemma chassis_wire:
  assumes "tlv_ok (Chassis_id c)"
  shows "\<exists>body. field 1 (int (length body)) \<and> 2 \<le> length body \<and> chassis_id_pack c = Inr (enc FH (typelen 1 (int (length body))) @ body)
    \<and> chassis_id_parse (enc FH (typelen 1 (int (length body))) @ body) = Inr c"
proof -
  obtain b where b: "cid_id c = Some b" "b \<noteq> []" "cid_strlen c = 1 + int (length b)" "length b < 511" "byte_ok (cid_subtype c)"
    using assms by auto
  let ?body = "enc FB (cid_subtype c) @ b"
  have f: "field 1 (1 + int (length b))" and n: "int (length ?body) = 1 + int (length b)" using b(4) by (simp_all add: field_def)
  have l: "2 \<le> length ?body" using b(2) by (cases b) simp_all
  have "chassis_id_parse (enc FH (typelen 1 (1 + int (length b))) @ ?body) = Inr c"
    using b l read_typelen_enc [OF f] read_byte_2 [OF b(5)]
    by (cases c) (simp add: chassis_id_parse_def)
  then show ?thesis using pack_id_Inr [OF f b(5)] f l b(1,3)
    by (intro exI [of _ ?body]) (simp only: n chassis_id_pack_def append_assoc)
qed

lemma port_wire:
  assumes "tlv_ok (Port_id p)"
  shows "\<exists>body. field 2 (int (length body)) \<and> 2 \<le> length body \<and> port_id_pack p = Inr (enc FH (typelen 2 (int (length body))) @ body)
    \<and> port_id_parse (enc FH (typelen 2 (int (length body))) @ body) = Inr p"
proof -
  obtain b where b: "pid_id p = Some b" "b \<noteq> []" "length b < 511" "byte_ok (pid_subtype p)"
    using assms by auto
  let ?body = "enc FB (pid_subtype p) @ b"
  have f: "field 2 (1 + int (length b))" and n: "int (length ?body) = 1 + int (length b)" using b(3) by (simp_all add: field_def)
  have l: "2 \<le> length ?body" using b(2) by (cases b) simp_all
  have "port_id_parse (enc FH (typelen 2 (1 + int (length b))) @ ?body) = Inr p"
    using b l read_typelen_enc [OF f] read_byte_2 [OF b(4)]
    by (cases p) (simp add: port_id_parse_def)
  then show ?thesis using pack_id_Inr [OF f b(4)] f l b(1)
    by (intro exI [of _ ?body]) (simp only: n port_id_pack_def append_assoc need_Some rbind_Inr simp_thms)
qed

lemma ttl_wire:
  assumes "tlv_ok (Ttl t)"
  shows "\<exists>body. length body = 2 \<and> ttl_pack t = Inr (enc FH (typelen 3 2) @ body) \<and> ttl_parse (enc FH (typelen 3 2) @ body) = Inr t"
proof -
  have f: "field 3 2" by (simp add: field_def)
  show ?thesis
    using assms typelen_range [OF f] read_typelen_enc [OF f]
    by (cases t; intro exI [of _ "enc FH (ttl_ttl t)"]) (simp add: ttl_pack_def ttl_parse_def struct_pack.simps bslice_def struct_unpack_def dec_enc)
qed

lemma basic_wire:
  assumes "tlv_ok (Basic_tlv t len nxt)"
  shows "field t (int (length nxt)) \<and> basic_tlv_pack t len nxt = Inr (enc FH (typelen t (int (length nxt))) @ nxt)
    \<and> basic_tlv_parse (enc FH (typelen t (int (length nxt))) @ nxt) = Inr (t, len, nxt)"
proof -
  have f: "field t (int (length nxt))" and len: "len = int (length nxt)" using assms by (auto simp: field_def)
  then show ?thesis
    using typelen_range [OF f] read_typelen_enc [OF f] by (simp add: basic_tlv_pack_def basic_tlv_parse_def struct_pack.simps)
qed

lemma organization_wire:
  assumes "tlv_ok (Organizationally_specific v)"
  shows "\<exists>body. field 127 (int (length body)) \<and> organizationally_specific_pack v = Inr (enc FH (typelen 127 (int (length body))) @ body)
    \<and> organizationally_specific_parse (enc FH (typelen 127 (int (length body))) @ body) = Inr v"
proof -
  let ?body = "os_oui v @ enc FB (os_subtype v) @ os_next v"
  have v: "length (os_oui v) = 3" "byte_ok (os_subtype v)" "os_len v = 4 + int (length (os_next v))" "length (os_next v) < 508"
    using assms by auto
  then have n: "int (length ?body) = os_len v" by simp
  have f: "field 127 (os_len v)" using v(3,4) by (simp add: field_def)
  have "organizationally_specific_parse (enc FH (typelen 127 (os_len v)) @ ?body) = Inr v"
    using v(1,2) read_typelen_enc [OF f]
    by (cases v) (simp add: organizationally_specific_parse_def basic_tlv_parse_def enc_FB nth_append uint_byte_ok)
  moreover have "organizationally_specific_pack v = Inr (enc FH (typelen 127 (os_len v)) @ ?body)"
    using v(1,2) typelen_range [OF f] by (simp add: organizationally_specific_pack_def struct_pack.simps)
  ultimately show ?thesis using f by (intro exI [of _ ?body]) (simp only: n simp_thms)
qed

lemma management_wire:
  assumes "tlv_ok (Management_address m)"
  shows "\<exists>body. field 8 (int (length body)) \<and> management_address_pack m = Inr (enc FH (typelen 8 (int (length body))) @ body)
    \<and> management_address_parse (enc FH (typelen 8 (int (length body))) @ body) = Inr m"
proof -
  let ?a = "1 + int (length (ma_address m))" and ?o = "int (length (ma_object_identifier m))"
  let ?body = "[word_of_int ?a, word_of_int (ma_address_subtype m)] @ ma_address m
    @ [word_of_int (ma_interface_numbering_subtype m)] @ enc FL (ma_interface_number m) @ [word_of_int ?o] @ ma_object_identifier m"
  have m: "byte_ok (ma_address_subtype m)" "byte_ok (ma_interface_numbering_subtype m)" "in_range FL (ma_interface_number m)"
    "byte_ok ?a" "byte_ok ?o" using assms by (auto simp: byte_ok_def)
  have n: "int (length ?body) = management_address_len m - 2" by (simp add: management_address_len_def)
  have f: "field 8 (management_address_len m - 2)" using assms by (auto simp: field_def management_address_len_def)
  have p: "management_address_pack m = Inr (enc FH (typelen 8 (management_address_len m - 2)) @ ?body)"
    using m typelen_range [OF f] by (simp add: management_address_pack_def struct_pack.simps enc_FB add.commute)
  let ?d = "enc FH (typelen 8 (management_address_len m - 2)) @ ?body"
  have a: "unat (word_of_int ?a :: byte) = 1 + length (ma_address m)" using unat_byte_ok [OF m(4)] by linarith
  have o: "unat (word_of_int ?o :: byte) = length (ma_object_identifier m)" using unat_byte_ok [OF m(5)] by linarith
  have rd: "ord_at ?d 2 = Inr (1 + length (ma_address m))" "ord_at ?d 3 = Inr (unat (word_of_int (ma_address_subtype m) :: byte))"
    "ord_at ?d (3 + (1 + length (ma_address m))) = Inr (unat (word_of_int (ma_interface_numbering_subtype m) :: byte))"
    "ord_at ?d (8 + (1 + length (ma_address m))) = Inr (length (ma_object_identifier m))"
    using a o by (simp_all add: ord_at_def nth_append nth_Cons')
  have sl: "bslice 4 (3 + (1 + length (ma_address m))) ?d = ma_address m"
    "bslice (4 + (1 + length (ma_address m))) (8 + (1 + length (ma_address m))) ?d = enc FL (ma_interface_number m)"
    "bslice (9 + (1 + length (ma_address m))) (9 + (1 + length (ma_address m)) + length (ma_object_identifier m)) ?d = ma_object_identifier m"
    by (simp_all add: bslice_def drop_Cons')
  have "management_address_parse ?d = Inr m"
    unfolding management_address_parse_def read_typelen_enc [OF f] rbind_Inr rd rmap_Inr sl
    using m by (simp add: struct_unpack_def dec_enc uint_byte_ok)
  then show ?thesis using p f by (intro exI [of _ ?body]) (simp only: n simp_thms)
qed

section \<open>Any field\<close>

text \<open>All classes together, in the form of the shared interface\<close>

definition tlv_read :: "tlv \<Rightarrow> bytes \<Rightarrow> (tlv \<times> bytes) res" where
  "tlv_read _ b = rbind (next_tlv b) (\<lambda>r. case r of None \<Rightarrow> Inl ValueError | Some (v, n) \<Rightarrow> Inr (v, drop n b))"

definition tlv_width :: "tlv \<Rightarrow> nat" where
  "tlv_width v = (case tlv_pack v of Inl _ \<Rightarrow> 0 | Inr b \<Rightarrow> length b)"

lemma tlv_wire:
  assumes "tlv_ok v"
  shows "\<exists>body. field (tlv_type v) (int (length body)) \<and> tlv_pack v = Inr (enc FH (typelen (tlv_type v) (int (length body))) @ body)
    \<and> tlv_new (tlv_type v) (enc FH (typelen (tlv_type v) (int (length body))) @ body) = Inr v"
proof (cases v)
  case (Chassis_id c)
  with chassis_wire [of c] assms show ?thesis by (auto simp: tlv_new_def)
next
  case (Port_id p)
  with port_wire [of p] assms show ?thesis by (auto simp: tlv_new_def)
next
  case (Ttl t)
  obtain body where "length body = 2" "ttl_pack t = Inr (enc FH (typelen 3 2) @ body)" "ttl_parse (enc FH (typelen 3 2) @ body) = Inr t"
    using ttl_wire assms Ttl by blast
  then show ?thesis by (intro exI [of _ body]) (simp add: Ttl tlv_new_def field_def)
next
  case (End_tlv n)
  have f: "field 0 0" by (simp add: field_def)
  show ?thesis
    using assms End_tlv typelen_range [OF f] read_typelen_enc [OF f, of "[]"]
    by (intro exI [of _ "[]"]) (simp add: f end_tlv_pack_def struct_pack.simps tlv_new_def end_tlv_parse_def)
next
  case (Basic_tlv t len nxt)
  with basic_wire [of t len nxt] assms show ?thesis by (intro exI [of _ nxt]) (auto simp: tlv_new_def)
next
  case (Management_address m)
  with management_wire [of m] assms show ?thesis by (auto simp: tlv_new_def)
next
  case (Organizationally_specific u)
  with organization_wire [of u] assms show ?thesis by (auto simp: tlv_new_def)
next
  case (System_capabilities c)
  with assms show ?thesis by simp
qed

lemma next_tlv_pack:
  assumes "tlv_ok v" "tlv_pack v = Inr b"
  shows "next_tlv (b @ rest) = Inr (Some (v, length b))"
proof -
  obtain body where w: "field (tlv_type v) (int (length body))" "b = enc FH (typelen (tlv_type v) (int (length body))) @ body"
    "tlv_new (tlv_type v) b = Inr v"
    using tlv_wire [OF assms(1)] assms(2) by auto
  show ?thesis using next_tlv_enc [OF w(1), of body rest] w(3) by (simp add: w(2))
qed

interpretation lldp_field: wire_codec tlv_ok tlv_pack "\<lambda>v. v" tlv_read tlv_width
  by unfold_locales (auto simp: tlv_read_def next_tlv_pack tlv_width_def)

section \<open>Frames\<close>

lemma end_length: "lldp_pack (vs @ [End_tlv 0]) = Inr b \<Longrightarrow> 2 \<le> length b"
  by (auto simp: lldp_pack_def pack_list_append res_simps end_tlv_pack_def struct_pack.simps split: if_split_asm)

text \<open>The loop over the fields after the first three\<close>

lemma parse_tlvs_pack:
  assumes "list_all tlv_ok (vs @ [End_tlv 0])" "\<forall>v\<in>set vs. tlv_type v \<noteq> 0" "lldp_pack (vs @ [End_tlv 0]) = Inr b"
  shows "parse_tlvs (pre @ b @ rest) (length pre, tlvs) = Inr \<lparr>lldp_tlvs = tlvs @ vs @ [End_tlv 0], lldp_parsed = True\<rparr>"
  using assms
proof (induction vs arbitrary: b pre tlvs)
  case Nil
  then have "next_tlv (b @ rest) = Inr (Some (End_tlv 0, length b))"
    using next_tlv_pack [of "End_tlv 0" b rest] by (auto simp: lldp_pack_def res_simps)
  then show ?case by (subst parse_tlvs.simps) simp
next
  case (Cons v vs)
  then obtain b1 b2 where b: "tlv_pack v = Inr b1" "lldp_pack (vs @ [End_tlv 0]) = Inr b2" "b = b1 @ b2"
    by (auto simp: lldp_pack_def res_simps)
  have n: "next_tlv (b @ rest) = Inr (Some (v, length b1))"
    using next_tlv_pack [OF _ b(1), of "b2 @ rest"] Cons.prems(1) b(3) by simp
  have "2 \<le> length b2" using end_length [OF b(2)] .
  then have more: "\<not> length (pre @ b @ rest) \<le> length pre + length b1" using b(3) by auto
  have "parse_tlvs ((pre @ b1) @ b2 @ rest) (length (pre @ b1), tlvs @ [v])
      = Inr \<lparr>lldp_tlvs = (tlvs @ [v]) @ vs @ [End_tlv 0], lldp_parsed = True\<rparr>"
    using Cons.IH [OF _ _ b(2), of "pre @ b1" "tlvs @ [v]"] Cons.prems(1,2) by simp
  then show ?case using n more Cons.prems(2) b(3) by (subst parse_tlvs.simps) simp
qed

lemma expect_tlv_pack:
  assumes "tlv_ok v" "tlv_pack v = Inr b" "tlv_type v = t"
  shows "expect_tlv (pre @ b @ rest) t (length pre, tlvs) k = k (length (pre @ b), tlvs @ [v])"
  using next_tlv_pack [OF assms(1,2)] assms(3) by (simp add: expect_tlv_def)

lemma min_length:
  assumes "tlv_ok (Chassis_id c)" "tlv_ok (Port_id p)" "tlv_ok (Ttl t)"
    and "chassis_id_pack c = Inr b1" "port_id_pack p = Inr b2" "ttl_pack t = Inr b3" "lldp_pack (vs @ [End_tlv 0]) = Inr b4"
  shows "14 \<le> length (b1 @ b2 @ b3 @ b4)"
proof -
  have "4 \<le> length b1" "4 \<le> length b2" "4 \<le> length b3"
    using chassis_wire [OF assms(1)] port_wire [OF assms(2)] ttl_wire [OF assms(3)] assms(4-6) by auto
  moreover have "2 \<le> length b4" by (rule end_length [OF assms(7)])
  ultimately show ?thesis by simp
qed

text \<open>A frame as the standard wants it: chassis, port and time to live first, the end mark last\<close>

definition lldp_frame :: "tlv list \<Rightarrow> bool" where
  "lldp_frame tlvs \<longleftrightarrow> (\<exists>c p t vs. tlvs = [Chassis_id c, Port_id p, Ttl t] @ vs @ [End_tlv 0] \<and> list_all tlv_ok tlvs \<and> (\<forall>v\<in>set vs. tlv_type v \<noteq> 0))"

lemma lldp_new_pack:
  assumes "lldp_frame tlvs" "lldp_pack tlvs = Inr b"
  shows "lldp_new (b @ rest) = Inr \<lparr>lldp_tlvs = tlvs, lldp_parsed = True\<rparr>"
proof -
  obtain c p t vs where tlvs: "tlvs = [Chassis_id c, Port_id p, Ttl t] @ vs @ [End_tlv 0]" and ok: "list_all tlv_ok tlvs"
    and vs: "\<forall>v\<in>set vs. tlv_type v \<noteq> 0" using assms(1) by (auto simp: lldp_frame_def)
  obtain b1 b2 b3 b4 where b: "chassis_id_pack c = Inr b1" "port_id_pack p = Inr b2" "ttl_pack t = Inr b3"
    "lldp_pack (vs @ [End_tlv 0]) = Inr b4" "b = b1 @ b2 @ b3 @ b4"
    using assms(2) by (auto simp: tlvs lldp_pack_def res_simps)
  have k: "tlv_ok (Chassis_id c)" "tlv_ok (Port_id p)" "tlv_ok (Ttl t)" "list_all tlv_ok (vs @ [End_tlv 0])"
    using ok by (simp_all only: tlvs list_all_append list.pred_inject simp_thms)
  let ?r = "b @ rest"
  have "expect_tlv ?r 1 (0, []) f = f (length b1, [Chassis_id c])" for f
    using expect_tlv_pack [OF k(1), of b1 1 "[]" "b2 @ b3 @ b4 @ rest" "[]" f] b(1,5) by simp
  moreover have "expect_tlv ?r 2 (length b1, [Chassis_id c]) f = f (length (b1 @ b2), [Chassis_id c, Port_id p])" for f
    using expect_tlv_pack [OF k(2), of b2 2 b1 "b3 @ b4 @ rest" "[Chassis_id c]" f] b(2,5) by simp
  moreover have "expect_tlv ?r 3 (length (b1 @ b2), [Chassis_id c, Port_id p]) f = f (length (b1 @ b2 @ b3), [Chassis_id c, Port_id p, Ttl t])" for f
    using expect_tlv_pack [OF k(3), of b3 3 "b1 @ b2" "b4 @ rest" "[Chassis_id c, Port_id p]" f] b(3,5) by simp
  moreover have "parse_tlvs ?r (length (b1 @ b2 @ b3), [Chassis_id c, Port_id p, Ttl t]) = Inr \<lparr>lldp_tlvs = tlvs, lldp_parsed = True\<rparr>"
    using parse_tlvs_pack [OF k(4) vs b(4), of "b1 @ b2 @ b3" rest "[Chassis_id c, Port_id p, Ttl t]"] b(5) by (simp add: tlvs)
  moreover have "\<not> length ?r < 14" using min_length [OF k(1-3) b(1-4)] b(5) by simp
  ultimately show ?thesis by (simp add: lldp_new_def)
qed

section \<open>Properties\<close>

text \<open>
  C25: A frame of well-formed fields of any classes that starts with chassis, port and time to live and ends with the end
  mark can be packed, and from its bytes the parser reads the same fields, also when the link pads the frame.
\<close>

theorem lldp_roundtrip:
  assumes "lldp_frame tlvs"
  shows "\<exists>b. lldp_pack tlvs = Inr b \<and> lldp_new (b @ padding) = Inr \<lparr>lldp_tlvs = tlvs, lldp_parsed = True\<rparr>"
proof -
  have "list_all tlv_ok tlvs" using assms by (auto simp: lldp_frame_def)
  then have "\<exists>b. pack_list tlv_pack tlvs = Inr b"
  proof (induction tlvs)
    case (Cons v vs)
    then show ?case using tlv_wire [of v] by fastforce
  qed simp
  then show ?thesis using lldp_new_pack [OF assms] by (auto simp: lldp_pack_def)
qed

theorem lldp_roundtrip_witness:
  "let tlvs = [Chassis_id \<lparr>cid_strlen = 3, cid_subtype = 7, cid_id = Some [1, 2]\<rparr>, Port_id \<lparr>pid_subtype = 2, pid_id = Some [0x31]\<rparr>,
      Ttl \<lparr>ttl_strlen = 2, ttl_ttl = 120\<rparr>, Basic_tlv 6 2 [0x61, 0x62], End_tlv 0]
   in lldp_frame tlvs \<and> (\<exists>b. lldp_pack tlvs = Inr b \<and> lldp_new (b @ zeros 40) = Inr \<lparr>lldp_tlvs = tlvs, lldp_parsed = True\<rparr>)"
proof -
  let ?tlvs = "[Chassis_id \<lparr>cid_strlen = 3, cid_subtype = 7, cid_id = Some [1, 2]\<rparr>, Port_id \<lparr>pid_subtype = 2, pid_id = Some [0x31]\<rparr>,
      Ttl \<lparr>ttl_strlen = 2, ttl_ttl = 120\<rparr>, Basic_tlv 6 2 [0x61, 0x62], End_tlv 0]"
  have "lldp_frame ?tlvs"
    unfolding lldp_frame_def
    by (intro exI [of _ "\<lparr>cid_strlen = 3, cid_subtype = 7, cid_id = Some [1, 2]\<rparr>"] exI [of _ "\<lparr>pid_subtype = 2, pid_id = Some [0x31]\<rparr>"]
      exI [of _ "\<lparr>ttl_strlen = 2, ttl_ttl = 120\<rparr>"] exI [of _ "[Basic_tlv 6 2 [0x61, 0x62]]"])
      (simp add: byte_ok_def in_range_def)
  with lldp_roundtrip [OF this, of "zeros 40"] show ?thesis by (simp only: Let_def simp_thms)
qed

text \<open>
  The capabilities of a system do not survive: whatever is packed, the parser reads all sixteen as present when any one is,
  because it tests \<open>cap and (1 << i)\<close>, which is true for every \<open>cap\<close> but zero.
\<close>

lemma caps_word_bounds: "0 \<le> caps_word caps \<and> caps_word caps < 65536"
proof -
  have "caps_word caps \<le> (\<Sum>i\<leftarrow>[0..<16]. 2 ^ i)" unfolding caps_word_def by (rule sum_list_mono) simp
  moreover have "(\<Sum>i\<leftarrow>[0..<16]. 2 ^ i) = (65535 :: int)" by code_simp
  moreover have "0 \<le> caps_word caps" unfolding caps_word_def by (rule sum_list_nonneg) auto
  ultimately show ?thesis by linarith
qed

lemma caps_word_zero: "length caps = 16 \<Longrightarrow> caps_word caps = 0 \<longleftrightarrow> caps = replicate 16 False"
proof -
  assume l: "length caps = 16"
  have "caps_word caps = (\<Sum>i\<in>{0..<16}. if caps ! i then 2 ^ i else 0)" by (simp add: caps_word_def sum_list_distinct_conv_sum_set)
  then have "caps_word caps = 0 \<longleftrightarrow> (\<forall>i\<in>{0..<16}. (if caps ! i then 2 ^ i else 0) = (0 :: int))"
    by (simp only:) (rule sum_nonneg_eq_0_iff, auto)
  also have "\<dots> \<longleftrightarrow> (\<forall>i<16. \<not> caps ! i)" by auto
  also have "\<dots> \<longleftrightarrow> caps = replicate 16 False" using l by (auto simp: list_eq_iff_nth_eq)
  finally show ?thesis .
qed

theorem capabilities_lost:
  assumes "length (sc_caps v) = 16" "length (sc_enabled_caps v) = 16" "sc_len v = 4"
  shows "\<exists>b c. system_capabilities_pack v = Inr b \<and> system_capabilities_parse b = Inr c
    \<and> sc_caps c = replicate 16 (sc_caps v \<noteq> replicate 16 False) \<and> sc_enabled_caps c = replicate 16 (sc_enabled_caps v \<noteq> replicate 16 False)"
proof -
  have f: "field 7 4" by (simp add: field_def)
  have r: "in_range FH (caps_word caps)" for caps using caps_word_bounds by (simp add: in_range_def)
  have "system_capabilities_pack v = Inr (enc FH (typelen 7 4) @ enc FH (caps_word (sc_caps v)) @ enc FH (caps_word (sc_enabled_caps v)))"
    using assms typelen_range [OF f] r by (simp add: system_capabilities_pack_def struct_pack.simps)
  then show ?thesis
    using assms(1,2) r caps_word_zero
    by (simp add: system_capabilities_parse_def basic_tlv_parse_def read_typelen_enc [OF f] struct_unpack_def dec_enc map_replicate_const)
qed

text \<open>
  A field made with \<open>fill\<close> for an organization is too short by the four bytes of its organization and subtype: the parser raises,
  or reads another field, where the text of this one ends.
\<close>

lemma organization_fill_short:
  assumes "byte_ok (os_subtype v)" "length (os_oui v) = 3" "length s < 508"
    and "basic_tlv_fill s (Organizationally_specific v) = Organizationally_specific w" "organizationally_specific_pack w = Inr b"
  shows "length b = 6 + length s \<and> read_typelen b = Inr (127, int (length s))"
proof -
  have f: "field 127 (int (length s))" using assms(3) by (simp add: field_def)
  show ?thesis
    using assms read_typelen_enc [OF f] by (auto simp: organizationally_specific_pack_def struct_pack.simps res_simps split: if_split_asm)
qed

end
