(* ===== verification/Discovery_Packets.thy ===== *)
theory Discovery_Packets
  imports Discovery Lldp_Laws Packet_Out_Laws
begin

text \<open>
  Discovery packets from end to end: what \<open>create_discovery_packet\<close> writes for a port of a switch makes that switch send a frame out of that port,
  and the same frame, coming in anywhere else, tells the component exactly that switch and port.
\<close>

section \<open>Numbers in text\<close>

lemma digits_of_length: "1 < base \<Longrightarrow> n < base ^ Suc k \<Longrightarrow> length (digits_of base n) \<le> Suc k"
proof (induction k arbitrary: n)
  case 0
  then show ?case by (subst digits_of.simps) simp
next
  case (Suc k)
  have "n div base < base ^ Suc k" using Suc.prems by (simp add: less_mult_imp_div_less mult.commute)
  then show ?case using Suc.IH [OF Suc.prems(1), of "n div base"] by (subst digits_of.simps) simp
qed

lemma str_of_bytes_append [simp]: "str_of_bytes (a @ b) = str_of_bytes a @ str_of_bytes b"
  by (simp add: str_of_bytes_def)

section \<open>The contents of a discovery packet\<close>

text \<open>Datapath and port numbers as OpenFlow has them\<close>

definition dpid_ok :: "dpid \<Rightarrow> bool" where
  "dpid_ok d \<longleftrightarrow> 0 \<le> d \<and> d < 2 ^ 64"

lemma dpid_text_length: "dpid_ok d \<Longrightarrow> 5 < length (dpid_text d) \<and> length (dpid_text d) \<le> 21"
proof -
  assume d: "dpid_ok d"
  have "digits_of 16 (nat d) \<noteq> []" by simp
  then have "0 < length (digits_of 16 (nat d))" by blast
  moreover have "length (digits_of 16 (nat d)) \<le> Suc 15" using d by (intro digits_of_length) (simp_all add: dpid_ok_def nat_less_iff)
  ultimately show ?thesis using d by (simp add: dpid_text_def hex_long_def dpid_ok_def)
qed

lemma line_dpid_text:
  assumes "dpid_ok d"
  shows "sysdesc_dpid (dpid_text d) = Some d"
proof -
  let ?s = "''dpid:'' @ digits_of 16 (nat d)"
  have s: "str_of_bytes (dpid_text d) = ?s" using assms by (simp add: dpid_text_def str_bytes_inverse hex_long_def dpid_ok_def)
  have "CHR ''\<newline>'' \<notin> set ?s" using digits_of_chars [of 16 "nat d"] by auto
  then have "split_on (CHR ''\<newline>'') ?s = [?s]" by (rule split_on_no_sep)
  moreover have "line_dpid ?s = Some d" using py_int_digits [of 16 "nat d"] assms by (simp add: line_dpid_def dpid_ok_def)
  ultimately show ?thesis by (simp add: sysdesc_dpid_def s map_filter_simps)
qed

lemma digit_byte: "d < 10 \<Longrightarrow> (48 :: byte) \<le> word_of_nat (of_char (digit_char d)) \<and> (word_of_nat (of_char (digit_char d)) :: byte) \<le> 57"
proof -
  assume "d < 10"
  then have "d \<in> {0, 1, 2, 3, 4, 5, 6, 7, 8, 9}" by auto
  then show ?thesis by (auto simp: digit_char_def)
qed

lemma decimal_bytes: "list_all (\<lambda>b. 48 \<le> b \<and> b \<le> 57) (bytes_of_str (digits_of 10 n))"
proof (induction n rule: less_induct)
  case (less n)
  show ?case
  proof (cases "n < 10")
    case True
    then show ?thesis using digit_byte [OF True] by (subst digits_of.simps) (simp add: bytes_of_str_def)
  next
    case False
    then show ?thesis using less.IH [of "n div 10"] digit_byte [of "n mod 10"] by (subst digits_of.simps) (simp add: bytes_of_str_def)
  qed
qed

lemma port_text:
  assumes "port_ok p"
  shows "originator_port (bytes_of_str (str_int p)) = Some p"
    and "bytes_of_str (str_int p) \<noteq> []" and "length (bytes_of_str (str_int p)) \<le> 5"
proof -
  have s: "str_int p = digits_of 10 (nat p)" using assms by (simp add: str_int_def port_ok_def)
  show ne: "bytes_of_str (str_int p) \<noteq> []" by (simp add: s bytes_of_str_def)
  show "originator_port (bytes_of_str (str_int p)) = Some p"
    using ne decimal_bytes [of "nat p"] py_int_digits [of 10 "nat p"] assms
    by (simp add: originator_port_def s str_bytes_inverse port_ok_def)
  have "length (digits_of 10 (nat p)) \<le> Suc 4" using assms by (intro digits_of_length) (auto simp: port_ok_def)
  then show "length (bytes_of_str (str_int p)) \<le> 5" by (simp add: s)
qed

lemma discovery_frame:
  assumes "dpid_ok d" "port_ok p"
  shows "lldp_frame (discovery_tlvs d p)" and "\<exists>b. lldp_pack (discovery_tlvs d p) = Inr b \<and> length b \<le> 100"
proof -
  let ?t = "dpid_text d" and ?n = "bytes_of_str (str_int p)"
  have l: "5 < length ?t" "length ?t \<le> 21" "?n \<noteq> []" "length ?n \<le> 5" using dpid_text_length [OF assms(1)] port_text [OF assms(2)] by auto
  then have "?t \<noteq> []" by auto
  then show f: "lldp_frame (discovery_tlvs d p)"
    unfolding lldp_frame_def discovery_tlvs_def using l
    by (intro exI [of _ "chassis_id_fill 7 ?t chassis_id_init"] exI [of _ "port_id_fill 2 ?n port_id_init"]
        exI [of _ "ttl_fill 120 ttl_init"] exI [of _ "[Basic_tlv 6 (int (length ?t)) ?t]"])
      (simp add: chassis_id_fill_def port_id_fill_def ttl_fill_def ttl_init_def byte_ok_def in_range_def)
  have r: "field 1 (1 + int (length ?t))" "field 2 (1 + int (length ?n))" "in_range FH (typelen 3 2)" "in_range FH (typelen 6 (int (length ?t)))"
    "in_range FH (typelen 0 0)" "byte_ok 7" "byte_ok 2" "in_range FH 120"
    using l by (auto simp: field_def byte_ok_def in_range_def typelen_eq)
  show "\<exists>b. lldp_pack (discovery_tlvs d p) = Inr b \<and> length b \<le> 100"
    using l r(3-) pack_id_Inr [OF r(1,6)] pack_id_Inr [OF r(2,7)]
    by (simp add: lldp_pack_def discovery_tlvs_def chassis_id_pack_def chassis_id_fill_def port_id_pack_def port_id_fill_def ttl_pack_def
        ttl_fill_def ttl_init_def basic_tlv_pack_def end_tlv_pack_def struct_pack.simps)
qed

text \<open>The frame in the packet, and the message the switch gets\<close>

lemma create_packs:
  assumes "dpid_ok d" "0 \<le> p" "p \<le> OFPP_MAX" "xid_ok nx"
  obtains rest h b m where "lldp_pack (discovery_tlvs d p) = Inr rest"
    "ethernet_hdr (ethernet_init\<lparr>eth_src := a, eth_dst := HwEth NDP_MULTICAST, eth_type := 0x88cc\<rparr>) = Inr h"
    "create_discovery_packet d p a nx = Inr (b, snd (generateXID nx))"
    "4 < length b" "uint (b ! 0) = OFP_VERSION" "uint (b ! 1) = 13" "frame_len b = length b"
    "ofp_packet_out_unpack ofp_packet_out_init b = Inr (m, [])" "po_actions m = [output_done p]" "po_data m = h @ rest"
proof -
  have port: "port_ok p" using assms(2,3) by (simp add: port_ok_def)
  obtain rest where rest: "lldp_pack (discovery_tlvs d p) = Inr rest" "length rest \<le> 100" using discovery_frame(2) [OF assms(1) port] by blast
  obtain h where h: "ethernet_hdr (ethernet_init\<lparr>eth_src := a, eth_dst := HwEth NDP_MULTICAST, eth_type := 0x88cc\<rparr>) = Inr h" "length h = 14"
    by (simp add: ethernet_hdr_def struct_pack.simps in_range_def pack_6s_def length_ljust0)
  have "output_msg (h @ rest) p = ofp_packet_out_init\<lparr>po_actions := [output_to p], po_data := h @ rest\<rparr>"
    by (simp add: output_msg_def output_to_def ofp_packet_out_init_def)
  moreover obtain b m m' where "ofp_packet_out_pack True nx (output_msg (h @ rest) p) = Inr (b, m', snd (generateXID nx))"
    "4 < length b" "uint (b ! 0) = OFP_VERSION" "uint (b ! 1) = 13" "frame_len b = length b"
    "ofp_packet_out_unpack ofp_packet_out_init (b @ []) = Inr (m, [])" "po_actions m = [output_done p]" "po_data m = h @ rest"
    using output_msg_packs [of p "h @ rest" nx ofp_packet_out_init "[]"] assms(2-4) rest(2) h(2) by auto
  ultimately show thesis using that [of rest h b m] rest(1) h(1) by (simp add: create_discovery_packet_def)
qed

lemma type_parser_lldp: "type_parser (with_lldp sb) iid rnd 0x88cc raw = Some (rmap (\<lambda>parsed. Other ''lldp'' parsed raw) (rmap lldp_parsed (lldp_new raw)))"
  by (simp add: type_parser_def other_new_def with_lldp_def)

lemma NDP_raw_ok: "eth_raw_ok (eth_value NDP_MULTICAST)"
  unfolding NDP_MULTICAST_def EthAddr.sel by code_simp

lemma discovery_frame_parsed:
  assumes "dpid_ok d" "port_ok p" "lldp_pack (discovery_tlvs d p) = Inr rest" "eth_raw_ok (eth_value a)"
    and "ethernet_hdr (ethernet_init\<lparr>eth_src := HwEth a, eth_dst := HwEth NDP_MULTICAST, eth_type := 0x88cc\<rparr>) = Inr h"
  shows "\<exists>e. ethernet_new (with_lldp sb) iid rnd (h @ rest @ padding) = Inr (Ethernet e (Other ''lldp'' True (rest @ padding)))
    \<and> eth_type e = 0x88cc \<and> eth_dst e = HwEth NDP_MULTICAST \<and> ethernet_hdr e = Inr h"
    and "lldp_new (rest @ padding) = Inr \<lparr>lldp_tlvs = discovery_tlvs d p, lldp_parsed = True\<rparr>"
proof -
  let ?e = "ethernet_init\<lparr>eth_src := HwEth a, eth_dst := HwEth NDP_MULTICAST, eth_type := 0x88cc\<rparr>"
  show l: "lldp_new (rest @ padding) = Inr \<lparr>lldp_tlvs = discovery_tlvs d p, lldp_parsed = True\<rparr>"
    by (rule lldp_new_pack [OF discovery_frame(1) [OF assms(1,2)] assms(3)])
  have "eth_plain ?e" using NDP_raw_ok assms(4) by (simp add: eth_plain_def)
  from ethernet_parse_hdr [OF this assms(5), of "with_lldp sb" iid rnd "rest @ padding"]
  show "\<exists>e. ethernet_new (with_lldp sb) iid rnd (h @ rest @ padding) = Inr (Ethernet e (Other ''lldp'' True (rest @ padding)))
    \<and> eth_type e = 0x88cc \<and> eth_dst e = HwEth NDP_MULTICAST \<and> ethernet_hdr e = Inr h"
    using assms(5) by (simp add: type_parser_lldp l ethernet_hdr_def)
qed

lemma discovery_originator: "dpid_ok d \<Longrightarrow> port_ok p \<Longrightarrow> d \<in> dps \<Longrightarrow> originator dps (discovery_tlvs d p) = Some (d, p)"
  by (simp add: originator_def discovery_tlvs_def line_dpid_text port_text port_id_fill_def)

lemma dpidToStr_ok: "dpid_ok d \<Longrightarrow> \<exists>t. dpidToStr d = Inr t"
  by (simp add: dpidToStr_def struct_pack.simps in_range_def dpid_ok_def)

text \<open>Seeing a link: the time is set, and listeners are told of a new one.\<close>

definition seen :: "int \<Rightarrow> link \<Rightarrow> 'z discovery_scheme \<Rightarrow> 'z discovery_scheme" where
  "seen now l s = s\<lparr>dc_adjacency := AList.update l now (dc_adjacency s)\<rparr>"

lemma see_link_result:
  assumes "dpid_ok (link_dpid1 l)" "dpid_ok (link_dpid2 l)"
  shows "see_link notify now l s = (Inr (), if l \<in> set (known_links s) then seen now l s else snd (notify True l (seen now l s)))"
proof -
  obtain t1 t2 where "dpidToStr (link_dpid1 l) = Inr t1" "dpidToStr (link_dpid2 l) = Inr t2" using assms dpidToStr_ok by blast
  then show ?thesis by (simp add: see_link_def seen_def no_errors_def sret_def)
qed

lemma packet_in_sees_link:
  assumes "parse_packet_in env ofp = Inr (Ethernet e (Other ''lldp'' True raw))" "eth_type e = 0x88cc" "eth_dst e = HwEth NDP_MULTICAST"
    and "lldp_new raw = Inr \<lparr>lldp_tlvs = discovery_tlvs d p, lldp_parsed = True\<rparr>"
    and "dpid_ok d" "port_ok p" "d \<in> dc_dps s" "dpid_ok dpid" "(dpid, pi_in_port ofp) \<noteq> (d, p)" "\<not> dc_explicit_drop s \<or> pi_buffer_id ofp = - 1"
  shows "dc_PacketIn notify env now con dpid ofp s =
    (let l = \<lparr>link_dpid1 = d, link_port1 = p, link_dpid2 = dpid, link_port2 = pi_in_port ofp\<rparr> in
     (Inr True, if l \<in> set (known_links s) then seen now l s else snd (notify True l (seen now l s))))"
proof -
  let ?l = "\<lparr>link_dpid1 = d, link_port1 = p, link_dpid2 = dpid, link_port2 = pi_in_port ofp\<rparr>"
  have drop: "(if dc_explicit_drop s then drop_buffer con ofp else sret ()) = sret ()" using assms(10) by (auto simp: drop_buffer_def)
  have see: "see_link notify now ?l s = (Inr (), if ?l \<in> set (known_links s) then seen now ?l s else snd (notify True ?l (seen now ?l s)))"
    by (rule see_link_result) (use assms(5,8) in simp_all)
  have "originator (dc_dps s) (discovery_tlvs d p) = Some (d, p)" by (rule discovery_originator [OF assms(5-7)])
  then show ?thesis
    using assms(1-4,9) see by (simp add: dc_PacketIn_def eth_of_def drop sm_simps Let_def)
qed

section \<open>Properties\<close>

text \<open>
  C14: A discovery packet finds its link.  The message made for a port of a switch makes that switch send one frame, out of that
  port; when the bytes of this frame, padded or not, come in at a port of any other switch, or another port of the same switch, the
  component adds exactly the link from the first port to the second, with the present time, and tells its listeners when the link is new.
\<close>

theorem discovery_finds_link:
  assumes "dpid_ok d" "0 \<le> p" "p < OFPP_MAX" "xid_ok nx" "eth_raw_ok (eth_value a)"
    and "create_discovery_packet d p (HwEth a) nx = Inr (b, nx')"
    and "env_subs (env 0) = with_lldp sb" "sw_receive_buf t = []" "map_of (sw_ports t) p = Some pp"
    and "env_subs cenv = with_lldp csb" "d \<in> dc_dps s" "dpid_ok dpid"
  shows "\<exists>pkt frame. push_receive_data 2 env b t = Some (Inr RTrue, t\<lparr>sw_heap := sw_heap t @ [pkt], sw_events := sw_events t @ [(pkt, pp)]\<rparr>)
    \<and> packet_pack (with_lldp sb) None pkt = Inr (frame, pkt)
    \<and> (\<forall>ofp padding. pi_data ofp = frame @ padding \<longrightarrow> (dpid, pi_in_port ofp) \<noteq> (d, p) \<longrightarrow> \<not> dc_explicit_drop s \<or> pi_buffer_id ofp = - 1 \<longrightarrow>
        dc_PacketIn notify cenv now con dpid ofp s =
        (let l = \<lparr>link_dpid1 = d, link_port1 = p, link_dpid2 = dpid, link_port2 = pi_in_port ofp\<rparr> in
         (Inr True, if l \<in> set (known_links s) then seen now l s else snd (notify True l (seen now l s)))))"
proof -
  have p: "p \<le> OFPP_MAX" "port_ok p" using assms(2,3) by (simp_all add: port_ok_def)
  obtain rest h b' m where r: "lldp_pack (discovery_tlvs d p) = Inr rest"
    "ethernet_hdr (ethernet_init\<lparr>eth_src := HwEth a, eth_dst := HwEth NDP_MULTICAST, eth_type := 0x88cc\<rparr>) = Inr h"
    and "create_discovery_packet d p (HwEth a) nx = Inr (b', snd (generateXID nx))"
      "4 < length b'" "uint (b' ! 0) = OFP_VERSION" "uint (b' ! 1) = 13" "frame_len b' = length b'"
      "ofp_packet_out_unpack ofp_packet_out_init b' = Inr (m, [])" "po_actions m = [output_done p]" "po_data m = h @ rest"
    using create_packs [OF assms(1,2) p(1) assms(4)] by blast
  then have b: "4 < length b" "uint (b ! 0) = OFP_VERSION" "uint (b ! 1) = 13" "frame_len b = length b"
      "ofp_packet_out_unpack ofp_packet_out_init (b @ []) = Inr (m, [])" "po_actions m = [output_done p]" "po_data m = h @ rest"
    using assms(6) by simp_all
  note parsed = discovery_frame_parsed [OF assms(1) p(2) r(1) assms(5) r(2)]
  obtain e where e: "ethernet_new (env_subs (env 0)) (env_iid (env 0)) (env_rnd (env 0)) (h @ rest) = Inr (Ethernet e (Other ''lldp'' True rest))"
    "ethernet_hdr e = Inr h"
    using parsed(1) [of sb "env_iid (env 0)" "env_rnd (env 0)" "[]"] assms(7) by auto
  let ?pkt = "Ethernet e (Other ''lldp'' True rest)"
  have "lldp_new rest = Inr \<lparr>lldp_tlvs = discovery_tlvs d p, lldp_parsed = True\<rparr>" using parsed(2) [of "[]"] by simp
  then have pack: "packet_pack (with_lldp sb) None ?pkt = Inr (h @ rest, ?pkt)" using e(2) r(1) by (simp add: with_hdr_def with_lldp_def)
  have "h @ rest \<noteq> []" using end_length [of "[]" rest] r(1) lldp_new_pack [OF discovery_frame(1) [OF assms(1) p(2)] r(1), of "[]"]
    by (auto simp: lldp_new_def discovery_tlvs_def)
  then have out: "push_receive_data 2 env b t = Some (Inr RTrue, t\<lparr>sw_heap := sw_heap t @ [?pkt], sw_events := sw_events t @ [(?pkt, pp)]\<rparr>)"
    using switch_outputs [where env = env and n = 0, OF b _ e(1) _ assms(8,3,9)] by (simp add: numeral_2_eq_2 is_ethernet_def)
  have "dc_PacketIn notify cenv now con dpid ofp s =
        (let l = \<lparr>link_dpid1 = d, link_port1 = p, link_dpid2 = dpid, link_port2 = pi_in_port ofp\<rparr> in
         (Inr True, if l \<in> set (known_links s) then seen now l s else snd (notify True l (seen now l s))))" 
    if "pi_data ofp = (h @ rest) @ padding" and new: "(dpid, pi_in_port ofp) \<noteq> (d, p)" "\<not> dc_explicit_drop s \<or> pi_buffer_id ofp = - 1" for ofp padding
  proof -
    obtain e' where e': "ethernet_new (with_lldp csb) (env_iid cenv) (env_rnd cenv) (h @ rest @ padding) = Inr (Ethernet e' (Other ''lldp'' True (rest @ padding)))"
      "eth_type e' = 0x88cc" "eth_dst e' = HwEth NDP_MULTICAST"
      using parsed(1) by blast
    have "parse_packet_in cenv ofp = Inr (Ethernet e' (Other ''lldp'' True (rest @ padding)))"
      using e'(1) that(1) by (simp add: parse_packet_in_def assms(10))
    from packet_in_sees_link [OF this e'(2,3) parsed(2) assms(1) p(2) assms(11,12) new] show ?thesis .
  qed
  then show ?thesis using out pack by blast
qed

text \<open>Two switches, and a component that knows them\<close>

definition demo_discovery :: discovery where
  "demo_discovery = (Discovery_init True False 1)\<lparr>dc_dps := {1, 3}\<rparr>"

definition lldp_env :: swenv where
  "lldp_env = demo_env\<lparr>env_subs := with_lldp (env_subs demo_env)\<rparr>"

theorem discovery_finds_link_witness:
  "\<exists>b nx pkt frame. create_discovery_packet 1 2 (HwEth ETHER_ANY) 1 = Inr (b, nx)
    \<and> push_receive_data 2 (\<lambda>_. lldp_env) b demo_switch
      = Some (Inr RTrue, demo_switch\<lparr>sw_heap := [pkt], sw_events := [(pkt, ofp_phy_port_init\<lparr>pp_port_no := 2\<rparr>)]\<rparr>)
    \<and> dc_PacketIn (\<lambda>_ _. sret ()) lldp_env 7 0 3 (ofp_packet_in_init\<lparr>pi_data := frame @ zeros 20, pi_in_port := 5\<rparr>) demo_discovery
      = (Inr True, seen 7 \<lparr>link_dpid1 = 1, link_port1 = 2, link_dpid2 = 3, link_port2 = 5\<rparr> demo_discovery)"
proof -
  have ok: "dpid_ok 1" "dpid_ok 3" "xid_ok 1" "eth_raw_ok (eth_value ETHER_ANY)" "env_subs lldp_env = with_lldp (env_subs demo_env)"
    "1 \<in> dc_dps demo_discovery" "\<not> dc_explicit_drop demo_discovery"
    by (simp_all add: dpid_ok_def xid_ok_def ETHER_ANY_def eth_raw_ok_def str_of_bytes_def zeros_numeral lldp_env_def demo_discovery_def Discovery_init_def)
  have t: "sw_receive_buf demo_switch = []" "map_of (sw_ports demo_switch) 2 = Some (ofp_phy_port_init\<lparr>pp_port_no := 2\<rparr>)"
    by (simp_all add: demo_fields) (simp add: demo_switch_def SwitchImpl_init_def)
  obtain b where c: "create_discovery_packet 1 2 (HwEth ETHER_ANY) 1 = Inr (b, snd (generateXID 1))"
    using create_packs [OF ok(1), of 2 1 "HwEth ETHER_ANY"] ok(3) by auto
  have num: "(0 :: int) \<le> 2" "(2 :: int) < OFPP_MAX" and env: "env_subs ((\<lambda>_ :: nat. lldp_env) 0) = with_lldp (env_subs demo_env)"
    using ok(5) by simp_all
  obtain pkt frame where out: "push_receive_data 2 (\<lambda>_. lldp_env) b demo_switch
      = Some (Inr RTrue, demo_switch\<lparr>sw_heap := sw_heap demo_switch @ [pkt], sw_events := sw_events demo_switch @ [(pkt, ofp_phy_port_init\<lparr>pp_port_no := 2\<rparr>)]\<rparr>)"
    and seen: "\<forall>ofp padding. pi_data ofp = frame @ padding \<longrightarrow> (3 :: dpid, pi_in_port ofp) \<noteq> (1, 2) \<longrightarrow> \<not> dc_explicit_drop demo_discovery \<or> pi_buffer_id ofp = - 1 \<longrightarrow>
        dc_PacketIn (\<lambda>_ _. sret ()) lldp_env 7 0 3 ofp demo_discovery =
        (let l = \<lparr>link_dpid1 = 1, link_port1 = 2, link_dpid2 = 3, link_port2 = pi_in_port ofp\<rparr> in
         (Inr True, if l \<in> set (known_links demo_discovery) then seen 7 l demo_discovery else snd (sret () (seen 7 l demo_discovery))))"
    using discovery_finds_link [OF ok(1) num ok(3,4) c env t ok(5,6,2), of "\<lambda>_ _. sret ()" 7 0] by blast
  have "dc_PacketIn (\<lambda>_ _. sret ()) lldp_env 7 0 3 (ofp_packet_in_init\<lparr>pi_data := frame @ zeros 20, pi_in_port := 5\<rparr>) demo_discovery
      = (Inr True, seen 7 \<lparr>link_dpid1 = 1, link_port1 = 2, link_dpid2 = 3, link_port2 = 5\<rparr> demo_discovery)"
    using seen [rule_format, of "ofp_packet_in_init\<lparr>pi_data := frame @ zeros 20, pi_in_port := 5\<rparr>" "zeros 20"] ok(7) by (simp add: sret_def Let_def)
  then show ?thesis using c out unfolding demo_fields append_Nil by (intro exI conjI)
qed

end
