(* ===== verification/Discovery_Laws.thy ===== *)
theory Discovery_Laws
  imports Discovery_Packets "HOL-Library.Multiset"
begin

text \<open>
  What the discovery component keeps: its sender goes round its packets, its timer runs as long as there are any, links stay as long as they are
  seen, and a listener that follows the events always knows the links.  The interface \<open>link_mirror\<close> says what such a listener promises.
\<close>

section \<open>Links in both directions\<close>

lemma flip_flip [simp]: "flip (flip l) = l"
  by (simp add: flip_def)

lemma flip_fields [simp]: "link_dpid1 (flip l) = link_dpid2 l" "link_dpid2 (flip l) = link_dpid1 l" "link_port1 (flip l) = link_port2 l" "link_port2 (flip l) = link_port1 l"
  by (simp_all add: flip_def)

text \<open>A link between two switches known in both directions, and the port it leaves by\<close>

definition both_ways :: "link set \<Rightarrow> dpid \<Rightarrow> dpid \<Rightarrow> int \<Rightarrow> bool" where
  "both_ways known a b p \<longleftrightarrow> (\<exists>l\<in>known. flip l \<in> known \<and> link_dpid1 l = a \<and> link_dpid2 l = b \<and> link_port1 l = p)"

lemma both_ways_flip: "l \<in> known \<Longrightarrow> flip l \<in> known \<Longrightarrow>
    both_ways known (link_dpid1 l) (link_dpid2 l) (link_port1 l) \<and> both_ways known (link_dpid2 l) (link_dpid1 l) (link_port2 l)"
  by (auto simp: both_ways_def intro: bexI [of _ l] bexI [of _ "flip l"])

section \<open>The sender\<close>

text \<open>The timer fires \<open>n\<close> times.\<close>

fun fire :: "(dpid \<Rightarrow> nat option) \<Rightarrow> nat \<Rightarrow> ('z discovery_scheme, unit) sm" where
  "fire cons 0 = sret ()"
| "fire cons (Suc n) = sthen (timerHandler cons) (fire cons n)"

lemma timerHandler_sends:
  assumes "dc_packets s = item # rest" "cons (si_dpid item) = Some c" "c \<notin> set (nx_disconnected s)"
  shows "timerHandler cons s = (Inr (), s\<lparr>dc_packets := rest @ [item], nx_sent := nx_sent s @ [(c, si_packet item)]\<rparr>)"
  using assms by (simp add: timerHandler_def send_bytes_def connection_send_def sm_simps)

lemma fire_sends:
  "dc_packets s = items @ rest \<Longrightarrow> \<forall>i\<in>set items. \<exists>c. cons (si_dpid i) = Some c \<and> c \<notin> set (nx_disconnected s) \<Longrightarrow>
   fire cons (length items) s = (Inr (), s\<lparr>dc_packets := rest @ items,
     nx_sent := nx_sent s @ map (\<lambda>i. (the (cons (si_dpid i)), si_packet i)) items\<rparr>)"
proof (induction items arbitrary: s rest)
  case Nil
  then show ?case by (simp add: sret_def)
next
  case (Cons i items)
  obtain c where c: "cons (si_dpid i) = Some c" "c \<notin> set (nx_disconnected s)" using Cons.prems(2) by auto
  let ?s = "s\<lparr>dc_packets := (items @ rest) @ [i], nx_sent := nx_sent s @ [(c, si_packet i)]\<rparr>"
  have "timerHandler cons s = (Inr (), ?s)" by (rule timerHandler_sends) (use Cons.prems(1) c in simp_all)
  moreover have "fire cons (length items) ?s = (Inr (), ?s\<lparr>dc_packets := (rest @ [i]) @ items,
      nx_sent := nx_sent ?s @ map (\<lambda>i. (the (cons (si_dpid i)), si_packet i)) items\<rparr>)"
    by (rule Cons.IH) (use Cons.prems(2) in simp_all)
  ultimately show ?case using c(1) by (simp add: sm_simps)
qed

text \<open>The timer runs when there are packets, and as often in a cycle as there are packets.\<close>

definition timer_ok :: "'z discovery_scheme \<Rightarrow> bool" where
  "timer_ok s \<longleftrightarrow> dc_timer s = (if dc_packets s = [] then None else Some (length (dc_packets s)))"

lemma setTimer_ok: "timer_ok (snd (setTimer s))"
  by (simp add: setTimer_def timer_ok_def sm_simps)

lemma timer_ok_del: "timer_ok (snd (delSwitch d s))" "timer_ok (snd (delPort d p s))"
  by (simp_all add: delSwitch_def delPort_def keep_packets_def setTimer_ok)

lemma append_packet_ok:
  assumes "dpid_ok d" "0 \<le> p" "p \<le> OFPP_MAX" "xid_ok (nx_nextXID s)"
  shows "\<exists>b. append_packet d p a s = (Inr (), s\<lparr>nx_nextXID := snd (generateXID (nx_nextXID s)),
    dc_packets := dc_packets s @ [\<lparr>si_dpid = d, si_portNum = p, si_packet = b\<rparr>]\<rparr>)"
proof -
  obtain b where "create_discovery_packet d p a (nx_nextXID s) = Inr (b, snd (generateXID (nx_nextXID s)))"
    using create_packs [OF assms, of a] by blast
  then show ?thesis by (intro exI [of _ b]) (simp add: append_packet_def smod_def)
qed

text \<open>The port of a packet\<close>

definition item_port :: "send_item \<Rightarrow> dpid \<times> int" where
  "item_port i = (si_dpid i, si_portNum i)"

lemma item_port_new [simp]: "item_port \<lparr>si_dpid = d, si_portNum = p, si_packet = b\<rparr> = (d, p)"
  by (simp add: item_port_def)

lemma append_packets_ok:
  assumes "dpid_ok d"
  shows "\<forall>(p, _)\<in>set ports. 0 \<le> p \<Longrightarrow> xid_ok (nx_nextXID s) \<Longrightarrow>
    \<exists>ps nx. sfor (\<lambda>(portNum, portAddr). if portNum > OFPP_MAX then sret () else append_packet d portNum portAddr) ports s
        = (Inr (), s\<lparr>nx_nextXID := nx, dc_packets := dc_packets s @ ps\<rparr>)
      \<and> xid_ok nx \<and> map item_port ps = map (Pair d) (filter (\<lambda>p. p \<le> OFPP_MAX) (map fst ports))"
proof (induction ports arbitrary: s)
  case Nil
  then show ?case by (intro exI [of _ "[]"] exI [of _ "nx_nextXID s"]) (simp add: sret_def)
next
  case (Cons pa ports)
  obtain p a where [simp]: "pa = (p, a)" by (cases pa)
  show ?case
  proof (cases "p \<le> OFPP_MAX")
    case True
    obtain b where b: "append_packet d p a s = (Inr (), s\<lparr>nx_nextXID := snd (generateXID (nx_nextXID s)),
        dc_packets := dc_packets s @ [\<lparr>si_dpid = d, si_portNum = p, si_packet = b\<rparr>]\<rparr>)" (is "_ = (_, ?s)")
      using append_packet_ok [OF assms _ True Cons.prems(2), of a] Cons.prems(1) by auto
    have "xid_ok (nx_nextXID ?s)" using generateXID_ok [OF Cons.prems(2)] by simp
    from Cons.IH [OF _ this] Cons.prems(1) obtain ps nx where
      "sfor (\<lambda>(portNum, portAddr). if portNum > OFPP_MAX then sret () else append_packet d portNum portAddr) ports ?s
        = (Inr (), ?s\<lparr>nx_nextXID := nx, dc_packets := dc_packets ?s @ ps\<rparr>)"
      "xid_ok nx" "map item_port ps = map (Pair d) (filter (\<lambda>p. p \<le> OFPP_MAX) (map fst ports))" by auto
    then show ?thesis using True b
      by (intro exI [of _ "\<lparr>si_dpid = d, si_portNum = p, si_packet = b\<rparr> # ps"] exI [of _ nx]) (simp add: sm_simps)
  next
    case False
    then show ?thesis using Cons.IH [of s] Cons.prems by (auto simp: sm_simps)
  qed
qed

lemma addSwitch_ok:
  assumes "dpid_ok d" "\<forall>(p, _)\<in>set ports. 0 \<le> p" "xid_ok (nx_nextXID s)"
  shows "\<exists>ps nx. addSwitch d ports s = (Inr (), s\<lparr>nx_nextXID := nx, dc_packets := filter (\<lambda>i. si_dpid i \<noteq> d) (dc_packets s) @ ps,
        dc_timer := (let n = length (filter (\<lambda>i. si_dpid i \<noteq> d) (dc_packets s) @ ps) in if n \<noteq> 0 then Some n else None)\<rparr>)
      \<and> xid_ok nx \<and> map item_port ps = map (Pair d) (filter (\<lambda>p. p \<le> OFPP_MAX) (map fst ports))"
proof -
  let ?s = "s\<lparr>dc_packets := filter (\<lambda>i. si_dpid i \<noteq> d) (dc_packets s)\<rparr>"
  obtain ps nx where "sfor (\<lambda>(portNum, portAddr). if portNum > OFPP_MAX then sret () else append_packet d portNum portAddr) ports ?s
        = (Inr (), ?s\<lparr>nx_nextXID := nx, dc_packets := dc_packets ?s @ ps\<rparr>)"
    "xid_ok nx" "map item_port ps = map (Pair d) (filter (\<lambda>p. p \<le> OFPP_MAX) (map fst ports))"
    using append_packets_ok [OF assms(1,2), of ?s] assms(3) by auto
  then show ?thesis
    by (intro exI [of _ ps] exI [of _ nx]) (simp add: addSwitch_def keep_packets_def setTimer_def sm_simps Let_def)
qed

lemma lldp_match_packs: "\<exists>b. ofp_match_pack True True (fm_match lldp_flow) = Inr b"
  by (simp add: lldp_flow_def set_dl_dst_def set_dl_type_def set_wild_def or_default_def ofp_match_pack_def ofp_match_init_def match_get_defs
      wild_def attr_nw_src_eq attr_nw_dst_eq hw_field_def ofp_match_assert_def or0_def check_ip_def check_ip_or_arp_def
      check_tp_def fix_addr_def wire_wildcards_def struct_pack.simps in_range_def init_wildcards)

lemma lldp_flow_packs:
  assumes "xid_ok nx"
  shows "\<exists>b m'. ofp_flow_mod_pack True nx lldp_flow = Inr (b, m', snd (generateXID nx))"
proof -
  obtain mb where mb: "ofp_match_pack True True (fm_match lldp_flow) = Inr mb" using lldp_match_packs by blast
  have "port_ok OFPP_CONTROLLER" by (simp add: port_ok_def)
  then obtain ab where ab: "pack_list pack_action [output_to OFPP_CONTROLLER] = Inr ab" using output_to_pack by blast
  show ?thesis
    using mb ab assms
    by (simp add: ofp_flow_mod_pack_def msg_pack_def lldp_flow_def ofp_flow_mod_init_def ofp_header_pack_def assign_xid_def
        generateXID_def Let_def ofp_header_assert_def ofp_type_known_iff struct_pack.simps in_range_def xid_ok_def
        ofp_flow_mod_len_def output_to_wf and_mask32 del: pack_list.simps)
qed

lemma lldp_flow_send:
  assumes "xid_ok (nx_nextXID s)"
  shows "\<exists>bs nx m. flow_mod_send c lldp_flow s = (Inr m, s\<lparr>nx_sent := nx_sent s @ bs, nx_nextXID := nx\<rparr>) \<and> xid_ok nx"
proof (cases "c \<in> set (nx_disconnected s)")
  case True
  then show ?thesis using assms
    by (intro exI [of _ "[]"] exI [of _ "nx_nextXID s"]) (simp add: connection_send_def sret_def)
next
  case False
  obtain b m' where b: "ofp_flow_mod_pack True (nx_nextXID s) lldp_flow = Inr (b, m', snd (generateXID (nx_nextXID s)))"
    using lldp_flow_packs [OF assms] by blast
  show ?thesis using False b generateXID_ok [OF assms]
    by (intro exI [of _ "[(c, b)]"] exI [of _ "snd (generateXID (nx_nextXID s))"] exI [of _ m']) (simp add: connection_send_def sret_def)
qed

text \<open>A switch that comes up is known, and has a packet for each of its ports.\<close>

lemma ConnectionUp_ok:
  assumes "dpid_ok d" "\<forall>p\<in>set ports. 0 \<le> pp_port_no p" "xid_ok (nx_nextXID s)" "d \<notin> dc_dps s"
  shows "\<exists>bs ps nx s'. dc_ConnectionUp c d ports s = (Inr (), s')
    \<and> s' = s\<lparr>nx_sent := nx_sent s @ bs, nx_nextXID := nx, dc_dps := insert d (dc_dps s),
         dc_packets := filter (\<lambda>i. si_dpid i \<noteq> d) (dc_packets s) @ ps, dc_timer := dc_timer s'\<rparr>
    \<and> timer_ok s' \<and> xid_ok nx \<and> map item_port ps = map (Pair d) (filter (\<lambda>p. p \<le> OFPP_MAX) (map pp_port_no ports))"
proof -
  obtain t where t: "dpidToStr d = Inr t" using dpidToStr_ok [OF assms(1)] by blast
  obtain bs nx where f: "(if dc_install_flow s then sthen (slift (dpidToStr d)) (sdo (flow_mod_send c lldp_flow)) else sret ()) s
      = (Inr (), s\<lparr>nx_sent := nx_sent s @ bs, nx_nextXID := nx\<rparr>)" (is "_ = (_, ?s)") and nx: "xid_ok nx"
  proof (cases "dc_install_flow s")
    case True
    then show ?thesis using that lldp_flow_send [OF assms(3), of c] t by (auto simp: sm_simps)
  next
    case False
    then show ?thesis using that [of "nx_nextXID s" "[]"] assms(3) by (simp add: sm_simps)
  qed
  let ?t = "?s\<lparr>dc_dps := insert d (dc_dps s)\<rparr>" and ?ports = "map (\<lambda>p. (pp_port_no p, pp_hw_addr p)) ports"
  obtain ps nx' where a: "addSwitch d ?ports ?t = (Inr (), ?t\<lparr>nx_nextXID := nx', dc_packets := filter (\<lambda>i. si_dpid i \<noteq> d) (dc_packets ?t) @ ps,
        dc_timer := (let n = length (filter (\<lambda>i. si_dpid i \<noteq> d) (dc_packets ?t) @ ps) in if n \<noteq> 0 then Some n else None)\<rparr>)"
      "xid_ok nx'" "map item_port ps = map (Pair d) (filter (\<lambda>p. p \<le> OFPP_MAX) (map fst ?ports))"
    using addSwitch_ok [OF assms(1), of ?ports ?t] assms(2) nx by auto
  have "dc_ConnectionUp c d ports s = addSwitch d ?ports ?t"
    using assms(4) f by (simp add: dc_ConnectionUp_def sm_simps)
  then show ?thesis using a
    by (intro exI [of _ bs] exI [of _ ps] exI [of _ nx'] exI [of _ "snd (addSwitch d ?ports ?t)"]) (simp add: timer_ok_def Let_def comp_def)
qed

section \<open>Listeners that follow the links\<close>

text \<open>The state of the component itself, apart from what listeners and the nexus have\<close>

definition same_discovery :: "'z discovery_scheme \<Rightarrow> 'z discovery_scheme \<Rightarrow> bool" where
  "same_discovery s s' \<longleftrightarrow> dc_dps s' = dc_dps s \<and> dc_adjacency s' = dc_adjacency s \<and> dc_packets s' = dc_packets s \<and> dc_timer s' = dc_timer s
     \<and> dc_install_flow s' = dc_install_flow s \<and> dc_explicit_drop s' = dc_explicit_drop s"

definition without :: "link \<Rightarrow> 'z discovery_scheme \<Rightarrow> 'z discovery_scheme" where
  "without l s = s\<lparr>dc_adjacency := AList.delete l (dc_adjacency s)\<rparr>"

lemma same_discoveryD:
  assumes "same_discovery s s'"
  shows "dc_dps s' = dc_dps s" "dc_adjacency s' = dc_adjacency s" "dc_packets s' = dc_packets s" "dc_timer s' = dc_timer s"
    "dc_install_flow s' = dc_install_flow s" "dc_explicit_drop s' = dc_explicit_drop s"
  using assms by (simp_all add: same_discovery_def)

lemma filter_delete: "filter P (AList.delete k xs) = filter (\<lambda>x. fst x \<noteq> k \<and> P x) xs"
  by (induction xs) auto

lemma log_links: "\<forall>l\<in>set ls. dpid_ok (link_dpid1 l) \<and> dpid_ok (link_dpid2 l) \<Longrightarrow>
    sfor (\<lambda>l. sthen (slift (dpidToStr (link_dpid1 l))) (sdo (slift (dpidToStr (link_dpid2 l))))) ls s = (Inr (), s)"
proof (induction ls)
  case (Cons l ls)
  then obtain t1 t2 where "dpidToStr (link_dpid1 l) = Inr t1" "dpidToStr (link_dpid2 l) = Inr t2" using dpidToStr_ok by fastforce
  then show ?case using Cons by (simp add: sm_simps)
qed (simp add: sret_def)

text \<open>
  A listener that mirrors the links: when its view agrees with the links, then after one link is gone, or a new one between switches it
  knows has come, handling the event returns and its view agrees again.
\<close>

locale link_mirror =
  fixes notify :: "bool \<Rightarrow> link \<Rightarrow> ('z discovery_scheme, unit) sm"
    and agrees :: "'z discovery_scheme \<Rightarrow> bool"
    and known :: "'z discovery_scheme \<Rightarrow> dpid set"
  assumes gone: "agrees s \<Longrightarrow> l \<in> set (known_links s) \<Longrightarrow>
      \<exists>s'. notify False l (without l s) = (Inr (), s') \<and> agrees s' \<and> known s' = known s \<and> same_discovery (without l s) s'"
    and came: "agrees s \<Longrightarrow> l \<notin> set (known_links s) \<Longrightarrow> link_dpid1 l \<in> known s \<Longrightarrow> link_dpid2 l \<in> known s \<Longrightarrow>
      \<exists>s'. notify True l (seen now l s) = (Inr (), s') \<and> agrees s' \<and> known s' = known s \<and> same_discovery (seen now l s) s'"
    and refreshed: "agrees s \<Longrightarrow> l \<in> set (known_links s) \<Longrightarrow> agrees (seen now l s)"
    and refreshed_known: "known (seen now l s) = known s"
    and left: "agrees s \<Longrightarrow> D \<subseteq> dc_dps s \<Longrightarrow> agrees (s\<lparr>dc_dps := D, dc_packets := ps, dc_timer := t\<rparr>)"
    and left_known: "known (s\<lparr>dc_dps := D, dc_packets := ps, dc_timer := t\<rparr>) = known s"
begin

lemma deleteLinks_agrees:
  "agrees s \<Longrightarrow> distinct ls \<Longrightarrow> set ls \<subseteq> set (known_links s) \<Longrightarrow>
   \<exists>s'. deleteLinks notify ls s = (Inr (), s') \<and> agrees s' \<and> known s' = known s
     \<and> same_discovery (s\<lparr>dc_adjacency := filter (\<lambda>(l, _). l \<notin> set ls) (dc_adjacency s)\<rparr>) s'"
proof (induction ls arbitrary: s)
  case Nil
  then show ?case by (simp add: deleteLinks_def sret_def same_discovery_def)
next
  case (Cons l ls)
  obtain s1 where s1: "notify False l (without l s) = (Inr (), s1)" "agrees s1" "known s1 = known s" "same_discovery (without l s) s1"
    using gone [OF Cons.prems(1), of l] Cons.prems(3) by auto
  have adj: "dc_adjacency s1 = AList.delete l (dc_adjacency s)" using same_discoveryD(2) [OF s1(4)] by (simp add: without_def)
  have "set ls \<subseteq> set (known_links s1)" using Cons.prems(2,3) by (auto simp: adj delete_keys)
  then obtain s' where s': "deleteLinks notify ls s1 = (Inr (), s')" "agrees s'" "known s' = known s1"
    "same_discovery (s1\<lparr>dc_adjacency := filter (\<lambda>(l, _). l \<notin> set ls) (dc_adjacency s1)\<rparr>) s'"
    using Cons.IH [OF s1(2)] Cons.prems(2) by auto
  have "deleteLinks notify (l # ls) s = (Inr (), s')"
    using Cons.prems(3) s1(1) s'(1) by (simp add: deleteLinks_def without_def sm_simps)
  moreover have "filter (\<lambda>(l, _). l \<notin> set ls) (dc_adjacency s1) = filter (\<lambda>(l', _). l' \<notin> set (l # ls)) (dc_adjacency s)"
    unfolding adj filter_delete by (rule filter_cong) auto
  ultimately show ?case using s'(2-) s1(3,4) by (auto simp: same_discovery_def without_def)
qed

lemma see_link_agrees:
  assumes "agrees s" "dpid_ok (link_dpid1 l)" "dpid_ok (link_dpid2 l)" "link_dpid1 l \<in> known s" "link_dpid2 l \<in> known s"
  shows "\<exists>s'. see_link notify now l s = (Inr (), s') \<and> agrees s' \<and> known s' = known s \<and> same_discovery (seen now l s) s'"
proof (cases "l \<in> set (known_links s)")
  case True
  then show ?thesis using see_link_result [OF assms(2,3), of notify now s] refreshed [OF assms(1) True, of now] refreshed_known
    by (simp add: same_discovery_def)
next
  case False
  obtain s' where "notify True l (seen now l s) = (Inr (), s')" "agrees s'" "known s' = known s" "same_discovery (seen now l s) s'"
    using came [OF assms(1) False assms(4,5)] by blast
  then show ?thesis using see_link_result [OF assms(2,3), of notify now s] False by simp
qed

text \<open>The links that are too old go, the others stay.\<close>

lemma expireLinks_agrees:
  assumes "agrees s" "distinct (known_links s)" "mset (order (known_links s)) = mset (known_links s)" "\<forall>l\<in>set (known_links s). dpid_ok (link_dpid1 l) \<and> dpid_ok (link_dpid2 l)"
  shows "\<exists>s'. expireLinks notify order now s = (Inr (), s') \<and> agrees s' \<and> known s' = known s
    \<and> same_discovery (s\<lparr>dc_adjacency := filter (\<lambda>(_, t). now - t \<le> LINK_TIMEOUT) (dc_adjacency s)\<rparr>) s'"
proof -
  let ?old = "\<lambda>l. case map_of (dc_adjacency s) l of None \<Rightarrow> False | Some t \<Rightarrow> now - t > LINK_TIMEOUT"
  let ?ls = "filter ?old (order (known_links s))"
  have set: "set (order (known_links s)) = set (known_links s)" by (rule mset_eq_setD [OF assms(3)])
  have dist: "distinct (order (known_links s))" using assms(2,3) mset_eq_imp_distinct_iff by blast
  have old: "?old l \<longleftrightarrow> now - t > LINK_TIMEOUT" if "(l, t) \<in> set (dc_adjacency s)" for l t
    using map_of_is_SomeI [OF assms(2) that] by simp
  have "filter (\<lambda>(l, _). l \<notin> set ?ls) (dc_adjacency s) = filter (\<lambda>(_, t). now - t \<le> LINK_TIMEOUT) (dc_adjacency s)"
  proof (rule filter_cong)
    fix x assume x: "x \<in> set (dc_adjacency s)"
    obtain l t where [simp]: "x = (l, t)" by (cases x)
    have "l \<in> set (known_links s)" using x by force
    then show "(case x of (l, _) \<Rightarrow> l \<notin> set ?ls) = (case x of (_, t) \<Rightarrow> now - t \<le> LINK_TIMEOUT)" using old x set by auto
  qed simp
  moreover obtain s' where "deleteLinks notify ?ls s = (Inr (), s')" "agrees s'" "known s' = known s"
    "same_discovery (s\<lparr>dc_adjacency := filter (\<lambda>(l, _). l \<notin> set ?ls) (dc_adjacency s)\<rparr>) s'"
    using deleteLinks_agrees [OF assms(1), of ?ls] dist set by auto
  moreover have "sfor (\<lambda>l. sthen (slift (dpidToStr (link_dpid1 l))) (sdo (slift (dpidToStr (link_dpid2 l))))) ?ls s = (Inr (), s)"
    by (rule log_links) (use assms(4) set in auto)
  ultimately show ?thesis by (simp add: expireLinks_def Let_def sm_simps)
qed

text \<open>A switch that goes down takes its packets and exactly its links with it.\<close>

lemma ConnectionDown_agrees:
  assumes "agrees s" "distinct (known_links s)" "mset (order (known_links s)) = mset (known_links s)" "d \<in> dc_dps s"
  shows "\<exists>s'. dc_ConnectionDown notify order d s = (Inr (), s') \<and> agrees s' \<and> known s' = known s \<and> timer_ok s'
    \<and> dc_dps s' = dc_dps s - {d} \<and> dc_packets s' = filter (\<lambda>i. si_dpid i \<noteq> d) (dc_packets s)
    \<and> dc_adjacency s' = filter (\<lambda>(l, _). link_dpid1 l \<noteq> d \<and> link_dpid2 l \<noteq> d) (dc_adjacency s)"
proof -
  let ?ps = "filter (\<lambda>i. si_dpid i \<noteq> d) (dc_packets s)" and ?touch = "\<lambda>l. link_dpid1 l = d \<or> link_dpid2 l = d"
  let ?s = "s\<lparr>dc_dps := dc_dps s - {d}, dc_packets := ?ps, dc_timer := (if length ?ps \<noteq> 0 then Some (length ?ps) else None)\<rparr>"
  let ?ls = "filter ?touch (order (known_links s))"
  have a: "agrees ?s" "known ?s = known s" using left [OF assms(1)] left_known by auto
  have set: "set (order (known_links s)) = set (known_links s)" by (rule mset_eq_setD [OF assms(3)])
  have dist: "distinct (order (known_links s))" using assms(2,3) mset_eq_imp_distinct_iff by blast
  obtain s' where s': "deleteLinks notify ?ls ?s = (Inr (), s')" "agrees s'" "known s' = known ?s"
    "same_discovery (?s\<lparr>dc_adjacency := filter (\<lambda>(l, _). l \<notin> set ?ls) (dc_adjacency s)\<rparr>) s'"
    using deleteLinks_agrees [OF a(1), of ?ls] dist set by auto
  have "filter (\<lambda>(l, _). l \<notin> set ?ls) (dc_adjacency s) = filter (\<lambda>(l, _). link_dpid1 l \<noteq> d \<and> link_dpid2 l \<noteq> d) (dc_adjacency s)"
    by (rule filter_cong) (force simp: set)+
  moreover have "dc_ConnectionDown notify order d s = deleteLinks notify ?ls ?s"
    using assms(4) by (simp add: dc_ConnectionDown_def delSwitch_def keep_packets_def setTimer_def sm_simps)
  ultimately show ?thesis using s' a(2) by (simp add: same_discovery_def timer_ok_def)
qed

end

section \<open>Properties\<close>

text \<open>
  C15: The sender goes round.  When the switches of all packets are connected, as many firings of the timer as there are packets send each packet
  once to its switch, in order, and leave the queue as it was; so each port is probed once in every cycle.
\<close>

theorem sender_cycle:
  assumes "\<forall>i\<in>set (dc_packets s). \<exists>c. cons (si_dpid i) = Some c \<and> c \<notin> set (nx_disconnected s)"
  shows "fire cons (length (dc_packets s)) s
    = (Inr (), s\<lparr>nx_sent := nx_sent s @ map (\<lambda>i. (the (cons (si_dpid i)), si_packet i)) (dc_packets s)\<rparr>)"
  using fire_sends [of s "dc_packets s" "[]" cons] assms by simp

theorem sender_cycle_witness:
  "let s = demo_discovery\<lparr>dc_packets := [\<lparr>si_dpid = 1, si_portNum = 1, si_packet = [1]\<rparr>, \<lparr>si_dpid = 3, si_portNum = 1, si_packet = [2]\<rparr>]\<rparr> in
   fire (\<lambda>d. Some (nat d)) 2 s = (Inr (), s\<lparr>nx_sent := [(1, [1]), (3, [2])]\<rparr>)"
proof -
  let ?s = "demo_discovery\<lparr>dc_packets := [\<lparr>si_dpid = 1, si_portNum = 1, si_packet = [1]\<rparr>, \<lparr>si_dpid = 3, si_portNum = 1, si_packet = [2]\<rparr>]\<rparr>"
  have n: "nx_disconnected ?s = []" "nx_sent ?s = []" by (simp_all add: demo_discovery_def Discovery_init_def)
  show ?thesis using sender_cycle [of ?s "\<lambda>d. Some (nat d)"] n by (simp add: Let_def numeral_2_eq_2 del: fire.simps)
qed

end
