(* ===== verification/L2_Network.thy ===== *)
theory L2_Network
  imports L2_Multi_Laws Discovery_Laws
begin

text \<open>
  The network-wide switch and the discovery component together, as \<open>pox/forwarding/l2_multi.py\<close> launches them: both listen to the nexus, the
  \<open>Switch\<close> objects to their connections, and \<open>l2_multi\<close> to the \<open>LinkEvent\<close>s of the discovery.  The result is that the topology in which
  \<open>l2_multi\<close> searches its paths is always the one the discovery has found: two switches are joined when a link between them is known in both directions.
\<close>

section \<open>Both components on one nexus\<close>

record l2_net = discovery +
  net_l2 :: l2_multi

text \<open>An operation of \<open>l2_multi\<close>, which uses the nexus of the whole\<close>

definition l2_view :: "l2_net \<Rightarrow> l2_multi" where
  "l2_view s = (net_l2 s)\<lparr>nx_sent := nx_sent s, nx_disconnected := nx_disconnected s, nx_nextXID := nx_nextXID s\<rparr>"

definition put_l2 :: "l2_multi \<Rightarrow> l2_net \<Rightarrow> l2_net" where
  "put_l2 t s = s\<lparr>nx_sent := nx_sent t, nx_disconnected := nx_disconnected t, nx_nextXID := nx_nextXID t, net_l2 := t\<rparr>"

definition on_l2 :: "(l2_multi, 'a) sm \<Rightarrow> (l2_net, 'a) sm" where
  "on_l2 m s = (case m (l2_view s) of (r, t) \<Rightarrow> (r, put_l2 t s))"

text \<open>Raising a \<open>LinkEvent\<close>: the only listener is \<open>l2_multi\<close>.\<close>

definition l2_notify :: "(link list \<Rightarrow> link list) \<Rightarrow> bool \<Rightarrow> link \<Rightarrow> (l2_net, unit) sm" where
  "l2_notify order added l s = on_l2 (l2_LinkEvent (order (known_links s)) (\<not> added) l) s"

text \<open>
  The events of the system.  The nexus swallows the exceptions of its listeners; a packet goes to the listeners of the nexus and to those of
  its connection, whatever the first return.
\<close>

datatype net_event =
    NetUp nat dpid "ofp_phy_port list"
  | NetDown nat dpid
  | NetPacket nat dpid ofp_packet_in swenv int
  | NetPort dpid int bool bool hwaddr
  | NetExpire int
  | NetTimer "dpid \<Rightarrow> nat option"

fun net_step :: "(link list \<Rightarrow> link list) \<Rightarrow> nat \<Rightarrow> net_event \<Rightarrow> (l2_net, unit) sm" where
  "net_step order depth (NetUp c d ports) = sthen (on_l2 (l2_ConnectionUp c d ports)) (dc_ConnectionUp c d ports)"
| "net_step order depth (NetDown c d) =
     sthen (smod (\<lambda>s. s\<lparr>nx_disconnected := c # nx_disconnected s\<rparr>)) (dc_ConnectionDown (l2_notify order) order d)"
| "net_step order depth (NetPacket c d ofp env now) =
     sthen (no_errors (sdo (dc_PacketIn (l2_notify order) env now c d ofp)))
       (on_l2 (l2_step depth (L2Packet c d ofp env)))"
| "net_step order depth (NetPort d port added deleted hw) = dc_PortStatus d port added deleted hw"
| "net_step order depth (NetExpire now) = expireLinks (l2_notify order) order now"
| "net_step order depth (NetTimer cons) = timerHandler cons"

text \<open>The switches \<open>l2_multi\<close> has seen come up\<close>

definition net_known :: "l2_net \<Rightarrow> dpid set" where
  "net_known s = set (dpids (net_l2 s))"

text \<open>What an event needs: a switch that comes up has a 64-bit identifier, and a packet comes from a switch that came up.\<close>

fun net_event_ok :: "l2_net \<Rightarrow> net_event \<Rightarrow> bool" where
  "net_event_ok s (NetUp c d ports) \<longleftrightarrow> dpid_ok d"
| "net_event_ok s (NetPacket c d ofp env now) \<longleftrightarrow> d \<in> net_known s"
| "net_event_ok s _ \<longleftrightarrow> True"

definition l2_net_init :: "bool \<Rightarrow> bool \<Rightarrow> int \<Rightarrow> l2_net" where
  "l2_net_init install_flow explicit_drop nx = discovery.extend (Discovery_init install_flow explicit_drop nx) \<lparr>net_l2 = l2_multi_init nx\<rparr>"

inductive net_reachable :: "(link list \<Rightarrow> link list) \<Rightarrow> nat \<Rightarrow> l2_net \<Rightarrow> bool" for order depth where
  start: "xid_ok nx \<Longrightarrow> net_reachable order depth (l2_net_init install_flow explicit_drop nx)"
| step: "net_reachable order depth s \<Longrightarrow> net_event_ok s ev \<Longrightarrow> net_reachable order depth (snd (net_step order depth ev s))"

section \<open>Agreement\<close>

definition mirrors :: "link set \<Rightarrow> adjacency \<Rightarrow> bool" where
  "mirrors known adj \<longleftrightarrow> (\<forall>a b p. map_of adj (a, b) = Some p \<longrightarrow> both_ways known a b p)
     \<and> (\<forall>a b p. both_ways known a b p \<longrightarrow> linked adj a b)"

lemma map_of_connect_link:
  "map_of (connect_link l adj) (a, b) = (if a = link_dpid2 l \<and> b = link_dpid1 l then Some (link_port2 l)
     else if a = link_dpid1 l \<and> b = link_dpid2 l then Some (link_port1 l) else map_of adj (a, b))"
  by (simp add: connect_link_def update_conv')

lemma linked_connect_link: "linked (connect_link l adj) a b \<longleftrightarrow> {a, b} = {link_dpid1 l, link_dpid2 l} \<and> (a = b \<longrightarrow> link_dpid1 l = link_dpid2 l) \<or> linked adj a b"
  by (auto simp: connect_link_def doubleton_eq_iff)

text \<open>A link joined in both directions keeps the agreement.\<close>

lemma mirrors_add:
  assumes "mirrors (known - {l}) adj" "symmetric adj" "l \<in> known" "set ks = known"
  shows "mirrors known (add_link ks l adj)"
proof -
  have mono: "both_ways (known - {l}) a b p \<Longrightarrow> both_ways known a b p" for a b p by (auto simp: both_ways_def)
  have old: "both_ways known a b p \<Longrightarrow> both_ways (known - {l}) a b p \<or> (flip l \<in> known \<and> {a, b} = {link_dpid1 l, link_dpid2 l})" for a b p
    by (auto simp: both_ways_def)
  show ?thesis
  proof (cases "map_of adj (link_dpid1 l, link_dpid2 l) = None \<and> flip l \<in> known")
    case True
    then show ?thesis
      using assms both_ways_flip [of l known] mono old unfolding mirrors_def add_link_def
      by (auto simp: map_of_connect_link linked_def split: if_split_asm) (metis doubleton_eq_iff option.distinct(1))+
  next
    case False
    then have same: "add_link ks l adj = adj" using assms(4) by (auto simp: add_link_def)
    have "linked adj a b" if "both_ways known a b p" for a b p
    proof (cases "both_ways (known - {l}) a b p")
      case True
      then show ?thesis using assms(1) unfolding mirrors_def by blast
    next
      case nb: False
      then have f: "flip l \<in> known" "{a, b} = {link_dpid1 l, link_dpid2 l}" using old [OF that] by auto
      then have "linked adj (link_dpid1 l) (link_dpid2 l)" using False by (auto simp: linked_def)
      then have "linked adj (link_dpid2 l) (link_dpid1 l)" using assms(2) by (auto simp: symmetric_def)
      then show ?thesis using f(2) \<open>linked adj (link_dpid1 l) (link_dpid2 l)\<close> by (auto simp: doubleton_eq_iff)
    qed
    then show ?thesis using assms(1) mono unfolding mirrors_def same by blast
  qed
qed

text \<open>A link that is gone is replaced when there is another one in both directions.\<close>

lemma delete_both:
  "map_of (AList.delete (y, x) (AList.delete (x, y) adj)) (a, b) = (if (a = x \<and> b = y) \<or> (a = y \<and> b = x) then None else map_of adj (a, b))"
  for adj :: adjacency
proof -
  have merge: "(if P then n else if Q then n else m) = (if Q \<or> P then n else m)" for P Q and n m :: "int option" by simp
  show ?thesis by (simp only: delete_conv' fun_upd_apply prod.inject) (rule merge)
qed

lemma mirrors_drop:
  assumes "mirrors known adj" "set ks = known - {l}"
  shows "mirrors (set ks) (drop_link ks l adj)"
proof -
  let ?adj = "AList.delete (link_dpid2 l, link_dpid1 l) (AList.delete (link_dpid1 l, link_dpid2 l) adj)"
  let ?ends = "\<lambda>a b. (a = link_dpid1 l \<and> b = link_dpid2 l) \<or> (a = link_dpid2 l \<and> b = link_dpid1 l)"
  have del: "map_of ?adj (a, b) = (if ?ends a b then None else map_of adj (a, b))" for a b by (rule delete_both)
  have keep: "both_ways known a b p \<longleftrightarrow> both_ways (set ks) a b p" if "\<not> ?ends a b" for a b p
  proof
    assume "both_ways known a b p"
    then obtain x where x: "x \<in> known" "flip x \<in> known" "link_dpid1 x = a" "link_dpid2 x = b" "link_port1 x = p" by (auto simp: both_ways_def)
    then have "x \<noteq> l" "flip x \<noteq> l" using that flip_fields(1,2) by metis+
    then show "both_ways (set ks) a b p" using x assms(2) by (auto simp: both_ways_def)
  qed (use assms(2) in \<open>auto simp: both_ways_def\<close>)
  show ?thesis
  proof (cases "find (\<lambda>ll. link_dpid1 ll = link_dpid1 l \<and> link_dpid2 ll = link_dpid2 l \<and> flip ll \<in> set ks) ks")
    case None
    then have none: "\<not> both_ways (set ks) (link_dpid1 l) (link_dpid2 l) p" for p by (auto simp: find_None_iff both_ways_def)
    then have none': "\<not> both_ways (set ks) (link_dpid2 l) (link_dpid1 l) p" for p
      unfolding both_ways_def by (metis flip_flip flip_fields)
    have d: "drop_link ks l adj = ?adj" using None by (simp add: drop_link_def)
    have "both_ways (set ks) x y p" if "map_of (drop_link ks l adj) (x, y) = Some p" for x y p
    proof -
      have "\<not> ?ends x y" "map_of adj (x, y) = Some p" using that unfolding d del by (metis option.distinct(1))+
      then show ?thesis using assms(1) keep [of x y p] unfolding mirrors_def by blast
    qed
    moreover have "map_of (drop_link ks l adj) (x, y) \<noteq> None" if "both_ways (set ks) x y p" for x y p
    proof -
      have "\<not> ?ends x y" using that none none' by blast
      then show ?thesis using that assms(1) keep [of x y p] unfolding d del mirrors_def linked_def by (metis (full_types))
    qed
    ultimately show ?thesis unfolding mirrors_def linked_def by blast
  next
    case (Some ll)
    then have ll: "ll \<in> set ks" "link_dpid1 ll = link_dpid1 l" "link_dpid2 ll = link_dpid2 l" "flip ll \<in> set ks"
      by (auto simp: find_Some_iff)
    have b: "both_ways (set ks) (link_dpid1 l) (link_dpid2 l) (link_port1 ll)" "both_ways (set ks) (link_dpid2 l) (link_dpid1 l) (link_port2 ll)"
      using both_ways_flip [OF ll(1,4)] ll(2,3) by auto
    have d: "drop_link ks l adj = connect_link ll ?adj" using Some by (simp add: drop_link_def)
    have m: "map_of (drop_link ks l adj) (x, y) = (if x = link_dpid2 l \<and> y = link_dpid1 l then Some (link_port2 ll)
       else if x = link_dpid1 l \<and> y = link_dpid2 l then Some (link_port1 ll) else map_of adj (x, y))" for x y
      unfolding d map_of_connect_link del ll(2,3) by auto
    have "both_ways (set ks) x y p" if "map_of (drop_link ks l adj) (x, y) = Some p" for x y p
      using that assms(1) b keep [of x y p] unfolding m mirrors_def by (auto split: if_split_asm)
    moreover have "map_of (drop_link ks l adj) (x, y) \<noteq> None" if "both_ways (set ks) x y p" for x y p
      using that assms(1) keep [of x y p] unfolding m mirrors_def linked_def by (metis (full_types) option.distinct(1))
    ultimately show ?thesis unfolding mirrors_def linked_def by blast
  qed
qed

section \<open>The interface\<close>

lemma l2_view_simps [simp]:
  "l2_ok (l2_view s) = l2_ok (net_l2 s)" "lm_switches (l2_view s) = lm_switches (net_l2 s)" "lm_adjacency (l2_view s) = lm_adjacency (net_l2 s)"
  "nx_nextXID (l2_view s) = nx_nextXID s"
  by (simp_all add: l2_view_def l2_ok_def paths_ok_def)

lemma nexus_of_net [simp]: "nx_nextXID (s\<lparr>net_l2 := t\<rparr>) = nx_nextXID s" "net_l2 (s\<lparr>nx_nextXID := n\<rparr>) = net_l2 s"
  "net_l2 (s\<lparr>nx_sent := b\<rparr>) = net_l2 s" "net_l2 (s\<lparr>nx_disconnected := c\<rparr>) = net_l2 s"
  by (cases s, simp)+

lemma put_l2_simps [simp]:
  "net_l2 (put_l2 t s) = t" "nx_nextXID (put_l2 t s) = nx_nextXID t" "dc_adjacency (put_l2 t s) = dc_adjacency s" "dc_dps (put_l2 t s) = dc_dps s"
  "dc_packets (put_l2 t s) = dc_packets s" "dc_timer (put_l2 t s) = dc_timer s" "dc_install_flow (put_l2 t s) = dc_install_flow s"
  "dc_explicit_drop (put_l2 t s) = dc_explicit_drop s"
  by (simp_all add: put_l2_def)

text \<open>What holds between the two components\<close>

definition net_ok :: "l2_net \<Rightarrow> bool" where
  "net_ok s \<longleftrightarrow> l2_ok (net_l2 s) \<and> xid_ok (nx_nextXID s) \<and> distinct (known_links s) \<and> (\<forall>d\<in>net_known s. dpid_ok d)
     \<and> (\<forall>l\<in>set (known_links s). link_dpid1 l \<in> net_known s \<and> link_dpid2 l \<in> net_known s) \<and> dc_dps s \<subseteq> net_known s
     \<and> mirrors (set (known_links s)) (lm_adjacency (net_l2 s))"

text \<open>How the links are iterated over: in any order\<close>

locale iteration =
  fixes order :: "link list \<Rightarrow> link list"
  assumes same_links: "mset (order ls) = mset ls"
begin

lemma set_order: "set (order ls) = set ls"
  by (rule mset_eq_setD [OF same_links])

lemma notify_result:
  assumes "l2_ok (net_l2 s)" "xid_ok (nx_nextXID s)" "link_dpid1 l \<in> net_known s" "link_dpid2 l \<in> net_known s"
  shows "\<exists>s'. l2_notify order added l s = (Inr (), s') \<and> l2_ok (net_l2 s') \<and> xid_ok (nx_nextXID s') \<and> same_discovery s s'
    \<and> net_known s' = net_known s \<and> lm_adjacency (net_l2 s') =
      (if added then add_link (order (known_links s)) l (lm_adjacency (net_l2 s)) else drop_link (order (known_links s)) l (lm_adjacency (net_l2 s)))"
proof -
  have d: "link_dpid1 l \<in> set (dpids (l2_view s))" "link_dpid2 l \<in> set (dpids (l2_view s))" using assms(3,4) by (simp_all add: net_known_def)
  let ?t = "snd (l2_LinkEvent (order (known_links s)) (\<not> added) l (l2_view s))"
  obtain bs nx where r: "l2_LinkEvent (order (known_links s)) (\<not> added) l (l2_view s) = (Inr (), (l2_view s)\<lparr>nx_sent := nx_sent (l2_view s) @ bs,
      nx_nextXID := nx, lm_path_map := None,
      lm_adjacency := (if \<not> added then drop_link (order (known_links s)) l (lm_adjacency (l2_view s)) else add_link (order (known_links s)) l (lm_adjacency (l2_view s))),
      lm_mac_map := (if \<not> added then lm_mac_map (l2_view s) else unlearn l (lm_mac_map (l2_view s)))\<rparr>)" "xid_ok nx"
    using LinkEvent_result [OF d, of "order (known_links s)" "\<not> added"] assms(1,2) by auto
  have "l2_ok ?t" using l2_ok_LinkEvent assms(1) unfolding keeps_def by simp
  moreover have "lm_switches ?t = lm_switches (net_l2 s)" "nx_nextXID ?t = nx" "lm_adjacency ?t =
      (if added then add_link (order (known_links s)) l (lm_adjacency (net_l2 s)) else drop_link (order (known_links s)) l (lm_adjacency (net_l2 s)))"
    by (simp_all add: r(1))
  moreover have "l2_notify order added l s = (Inr (), put_l2 ?t s)" by (simp add: l2_notify_def on_l2_def r(1))
  ultimately show ?thesis using r(2) by (intro exI [of _ "put_l2 ?t s"]) (simp add: same_discovery_def net_known_def)
qed

end

sublocale iteration \<subseteq> net: link_mirror "l2_notify order" net_ok net_known
proof unfold_locales
  fix s l assume s: "net_ok s" and l: "l \<in> set (known_links s)"
  let ?s = "without l s"
  have f: "l2_ok (net_l2 ?s)" "xid_ok (nx_nextXID ?s)" "link_dpid1 l \<in> net_known ?s" "link_dpid2 l \<in> net_known ?s"
    using s l by (auto simp: net_ok_def without_def net_known_def)
  obtain s' where s': "l2_notify order False l ?s = (Inr (), s')" "l2_ok (net_l2 s')" "xid_ok (nx_nextXID s')" "same_discovery ?s s'"
    "net_known s' = net_known ?s" "lm_adjacency (net_l2 s') = drop_link (order (known_links ?s)) l (lm_adjacency (net_l2 ?s))"
    using notify_result [OF f, of False] by auto
  have k: "known_links ?s = removeAll l (known_links s)" by (simp add: without_def delete_keys)
  have n: "net_known ?s = net_known s" "dc_dps ?s = dc_dps s" "net_l2 ?s = net_l2 s" by (simp_all add: without_def net_known_def)
  have "mirrors (set (order (known_links ?s))) (drop_link (order (known_links ?s)) l (lm_adjacency (net_l2 s)))"
    using mirrors_drop [of "set (known_links s)" "lm_adjacency (net_l2 s)" "order (known_links ?s)" l] s unfolding k by (auto simp: net_ok_def set_order)
  then have "net_ok s'"
    using s s'(2-) k n unfolding net_ok_def same_discovery_def set_order by (auto simp: distinct_removeAll)
  then show "\<exists>s'. l2_notify order False l ?s = (Inr (), s') \<and> net_ok s' \<and> net_known s' = net_known s \<and> same_discovery ?s s'"
    using s' n by auto
next
  fix s l now assume s: "net_ok s" and l: "l \<notin> set (known_links s)" "link_dpid1 l \<in> net_known s" "link_dpid2 l \<in> net_known s"
  let ?s = "seen now l s"
  have n: "net_known ?s = net_known s" "dc_dps ?s = dc_dps s" "net_l2 ?s = net_l2 s" "nx_nextXID ?s = nx_nextXID s"
    by (simp_all add: seen_def net_known_def)
  have k: "known_links ?s = known_links s @ [l]" using l(1) by (simp add: seen_def update_keys)
  have f: "l2_ok (net_l2 ?s)" "xid_ok (nx_nextXID ?s)" "link_dpid1 l \<in> net_known ?s" "link_dpid2 l \<in> net_known ?s"
    using s l n by (simp_all add: net_ok_def)
  obtain s' where s': "l2_notify order True l ?s = (Inr (), s')" "l2_ok (net_l2 s')" "xid_ok (nx_nextXID s')" "same_discovery ?s s'"
    "net_known s' = net_known ?s" "lm_adjacency (net_l2 s') = add_link (order (known_links ?s)) l (lm_adjacency (net_l2 ?s))"
    using notify_result [OF f, of True] by auto
  have "symmetric (lm_adjacency (net_l2 s))" using s by (auto simp: net_ok_def l2_ok_def)
  then have "mirrors (set (known_links ?s)) (add_link (order (known_links ?s)) l (lm_adjacency (net_l2 s)))"
    using mirrors_add [of "set (known_links ?s)" l "lm_adjacency (net_l2 s)" "order (known_links ?s)"] s l(1) unfolding k by (auto simp: net_ok_def insert_Diff_if set_order)
  then have "net_ok s'"
    using s s'(2-) k n l unfolding net_ok_def same_discovery_def by auto
  then show "\<exists>s'. l2_notify order True l ?s = (Inr (), s') \<and> net_ok s' \<and> net_known s' = net_known s \<and> same_discovery ?s s'"
    using s' n by auto
next
  fix s l now assume "net_ok s" "l \<in> set (known_links s)"
  then show "net_ok (seen now l s)" by (simp add: net_ok_def seen_def net_known_def update_keys)
qed (auto simp: net_known_def seen_def net_ok_def)

text \<open>The order of insertion is one of them.\<close>

interpretation insertion: iteration "\<lambda>ls. ls"
  by unfold_locales simp

section \<open>Every event keeps the agreement\<close>

lemma net_ok_nexus: "net_ok s \<Longrightarrow> xid_ok n \<Longrightarrow> net_ok (s\<lparr>nx_sent := b, nx_nextXID := n\<rparr>)"
  by (simp add: net_ok_def net_known_def)

lemma net_known_nexus [simp]: "net_known (s\<lparr>nx_sent := b, nx_nextXID := n\<rparr>) = net_known s"
  by (simp add: net_known_def)

lemma net_ok_xid: "net_ok s \<Longrightarrow> xid_ok (nx_nextXID s)"
  by (simp add: net_ok_def)

text \<open>The invariant, and the switches that are known\<close>

definition net_at :: "dpid set \<Rightarrow> l2_net \<Rightarrow> bool" where
  "net_at K s \<longleftrightarrow> net_ok s \<and> net_known s = K"

lemma net_at_send:
  assumes "\<And>nx m b m' nx'. pk nx m = Inr (b, m', nx') \<Longrightarrow> xid_ok nx \<Longrightarrow> xid_ok nx'"
  shows "keeps (net_at K) (connection_send c pk m)"
proof (rule keepsI)
  fix s assume s: "net_at K s"
  show "net_at K (snd (connection_send c pk m s))"
  proof (cases "c \<in> set (nx_disconnected s)")
    case True
    then show ?thesis using s by (simp add: connection_send_def sm_simps)
  next
    case False
    show ?thesis
    proof (cases "pk (nx_nextXID s) m")
      case (Inl e)
      then show ?thesis using s False by (simp add: connection_send_def sm_simps)
    next
      case (Inr r)
      obtain b m' nx' where r: "r = (b, m', nx')" by (cases r)
      have "xid_ok nx'" using assms Inr s unfolding r net_at_def by (metis net_ok_xid)
      then show ?thesis using s False Inr net_ok_nexus [of s nx'] by (simp add: r connection_send_def sm_simps net_at_def)
    qed
  qed
qed

lemma net_at_flow_mod [keeps_intros]: "keeps (net_at K) (flow_mod_send c m)"
  by (rule net_at_send) (rule flow_mod_pack_nx)

lemma net_at_packet_out [keeps_intros]: "keeps (net_at K) (packet_out_send c m)"
  by (rule net_at_send) (rule packet_out_pack_nx)

lemma net_at_bytes [keeps_intros]: "keeps (net_at K) (send_bytes c b)"
  unfolding send_bytes_def by (intro keeps_intros net_at_send) simp

text \<open>Only the links, the switches and the identifier matter.\<close>

lemma net_at_frame:
  assumes "net_at K s" "net_l2 s' = net_l2 s" "dc_adjacency s' = dc_adjacency s" "dc_dps s' \<subseteq> K" "xid_ok (nx_nextXID s')"
  shows "net_at K s'"
  using assms unfolding net_at_def net_ok_def net_known_def by auto

lemma net_atD: "net_at K s \<Longrightarrow> dc_dps s \<subseteq> K" "net_at K s \<Longrightarrow> xid_ok (nx_nextXID s)" "net_at K s \<Longrightarrow> distinct (known_links s)"
  "net_at K s \<Longrightarrow> d \<in> K \<Longrightarrow> dpid_ok d" "net_at K s \<Longrightarrow> l \<in> set (known_links s) \<Longrightarrow> link_dpid1 l \<in> K \<and> link_dpid2 l \<in> K"
  unfolding net_at_def net_ok_def by auto

lemma net_at_packets: "net_at K s \<Longrightarrow> net_at K (s\<lparr>dc_packets := p\<rparr>)" "net_at K s \<Longrightarrow> net_at K (s\<lparr>dc_timer := t\<rparr>)"
  "net_at K s \<Longrightarrow> net_at K (s\<lparr>nx_disconnected := cs\<rparr>)"
  by (rule net_at_frame; simp add: net_atD)+

lemma net_at_append [keeps_intros]: "keeps (net_at K) (append_packet d p a)"
proof (rule keepsI)
  fix s assume s: "net_at K s"
  show "net_at K (snd (append_packet d p a s))"
  proof (cases "create_discovery_packet d p a (nx_nextXID s)")
    case (Inl e)
    then show ?thesis using s by (simp add: append_packet_def sm_simps)
  next
    case (Inr r)
    obtain b nx where r: "r = (b, nx)" by (cases r)
    have "xid_ok nx" using Inr net_atD(2) [OF s]
      by (auto simp: r create_discovery_packet_def rbind_eq_Inr rmap_eq_Inr dest: packet_out_pack_nx)
    then show ?thesis by (intro net_at_frame [OF s]) (simp_all add: Inr r append_packet_def sm_simps net_atD [OF s])
  qed
qed

lemma net_at_keep_packets [keeps_intros]: "keeps (net_at K) (keep_packets P)"
  unfolding keep_packets_def by (rule keeps_smod) (rule net_at_packets)

lemma net_at_setTimer [keeps_intros]: "keeps (net_at K) setTimer"
  unfolding setTimer_def by (rule keeps_smod) (rule net_at_packets)

lemma net_at_PortStatus: "keeps (net_at K) (dc_PortStatus d port added deleted hw)"
  unfolding dc_PortStatus_def addPort_def delPort_def by (intro keeps_intros)

lemma net_at_timer: "keeps (net_at K) (timerHandler cons)"
  unfolding timerHandler_def
  by (auto split: list.split option.split intro!: keeps_intros keeps_smod net_at_packets)

lemma net_at_addSwitch [keeps_intros]: "keeps (net_at K) (addSwitch d ports)"
  unfolding addSwitch_def by (auto intro!: keeps_intros)

lemma net_at_Up: "d \<in> K \<Longrightarrow> keeps (net_at K) (dc_ConnectionUp c d ports)"
  unfolding dc_ConnectionUp_def
  by (intro keeps_intros keeps_smod; rule net_at_frame) (auto dest: net_atD)

lemma l2_Up:
  assumes "net_at K s" "dpid_ok d"
  shows "\<exists>s'. on_l2 (l2_ConnectionUp c d ports) s = (Inr (), s') \<and> net_at (insert d K) s' \<and> same_discovery s s'"
proof -
  have l2: "l2_ok (l2_view s)" using assms(1) by (simp add: net_at_def net_ok_def)
  obtain sw where sw: "l2_ConnectionUp c d ports (l2_view s) = (Inr (), (l2_view s)\<lparr>lm_switches := AList.update d sw (lm_switches (l2_view s))\<rparr>)"
    using ConnectionUp_result [OF l2] by blast
  let ?t = "(l2_view s)\<lparr>lm_switches := AList.update d sw (lm_switches (l2_view s))\<rparr>"
  have "l2_ok ?t" using l2_ok_ConnectionUp [unfolded keeps_def, rule_format, OF l2, of c d ports] sw by simp
  moreover have "set (dpids ?t) = insert d (set (dpids (net_l2 s)))" by (simp add: dom_update)
  ultimately have "net_at (insert d K) (put_l2 ?t s)"
    using assms unfolding net_at_def net_ok_def net_known_def by auto
  then show ?thesis using sw by (simp add: on_l2_def same_discovery_def)
qed

text \<open>A packet changes what \<open>l2_multi\<close> has learned of hosts and paths, not its switches and links.\<close>

definition same_graph :: "l2_multi \<Rightarrow> l2_multi \<Rightarrow> bool" where
  "same_graph t s \<longleftrightarrow> lm_adjacency s = lm_adjacency t \<and> lm_switches s = lm_switches t"

lemma same_graph_mod: "(\<And>s. lm_adjacency (f s) = lm_adjacency s) \<Longrightarrow> (\<And>s. lm_switches (f s) = lm_switches s) \<Longrightarrow> keeps (same_graph t) (smod f)"
  by (rule keeps_smod) (simp add: same_graph_def)

lemma same_graph_send [keeps_intros]: "keeps (same_graph t) (connection_send c pk m)"
  unfolding connection_send_def by (intro keeps_intros same_graph_mod) auto

lemma same_graph_raw_path [keeps_intros]: "keeps (same_graph t) (get_raw_path n i j)"
  by (induction n arbitrary: i j)
    (auto simp: run_calc_paths_def read_path_def Let_def intro!: keeps_intros same_graph_mod)

lemma same_graph_install [keeps_intros]: "keeps (same_graph t) (install_path env depth d dst port match ofp p)"
  by (auto simp: install_path_def get_path_def send_unreachable_def install_hops_def install_def connection_of_def switch_of_def Let_def
      split: option.split packet.split list.split prod.split intro!: keeps_intros same_graph_mod)

lemma same_graph_packet: "keeps (same_graph t) (l2_step depth (L2Packet c d ofp env))"
  by (auto simp: l2_PacketIn_def kill_buffer_def update_location_def learn_def
      forward_packet_def flood_def connection_of_def switch_of_def split: option.split prod.split intro!: keeps_intros same_graph_mod)

lemma l2_packet: "keeps (net_at K) (on_l2 (l2_step depth (L2Packet c d ofp env)))"
proof (rule keepsI)
  fix s assume s: "net_at K s"
  let ?t = "snd (l2_step depth (L2Packet c d ofp env) (l2_view s))"
  have "l2_ok ?t" by (rule l2_ok_step) (use s in \<open>simp add: net_at_def net_ok_def\<close>)
  moreover have "xid_ok (nx_nextXID ?t)" using nx_ok_step [of "l2_view s"] net_atD(2) [OF s] by (simp add: nx_ok_def del: l2_step.simps)
  moreover have "same_graph (l2_view s) ?t" using same_graph_packet [of "l2_view s"] unfolding keeps_def by (simp add: same_graph_def del: l2_step.simps)
  ultimately have "net_at K (put_l2 ?t s)" using s unfolding net_at_def net_ok_def net_known_def same_graph_def by auto
  then show "net_at K (snd (on_l2 (l2_step depth (L2Packet c d ofp env)) s))" by (simp add: on_l2_def case_prod_unfold del: l2_step.simps)
qed

lemma keeps_no_errors [keeps_intros]: "keeps P m \<Longrightarrow> keeps P (no_errors m)"
  by (simp add: keeps_def no_errors_def)

lemma originator_known: "originator dps tlvs = Some (d, port) \<Longrightarrow> d \<in> dps"
  by (auto simp: originator_def split: list.splits tlv.splits option.splits if_split_asm)

context iteration
begin

lemma see_link_keeps: "link_dpid1 l \<in> K \<Longrightarrow> link_dpid2 l \<in> K \<Longrightarrow> keeps (net_at K) (see_link (l2_notify order) now l)"
proof (rule keepsI)
  fix s assume l: "link_dpid1 l \<in> K" "link_dpid2 l \<in> K" and s: "net_at K s"
  then obtain s' where "see_link (l2_notify order) now l s = (Inr (), s')" "net_ok s'" "net_known s' = net_known s"
    using net.see_link_agrees [of s l now] net_atD(4) [OF s] unfolding net_at_def by blast
  then show "net_at K (snd (see_link (l2_notify order) now l s))" using s by (simp add: net_at_def)
qed

lemma dc_PacketIn_keeps:
  assumes "d \<in> K"
  shows "keeps (net_at K) (dc_PacketIn (l2_notify order) env now c d ofp)"
proof -
  have o: "keeps (net_at K) (sbind (sget dc_dps) (\<lambda>dps. case originator dps tlvs of None \<Rightarrow> sret False
     | Some (o', port) \<Rightarrow> if (d, pi_in_port ofp) = (o', port) then sret False
         else sthen (see_link (l2_notify order) now \<lparr>link_dpid1 = o', link_port1 = port, link_dpid2 = d, link_port2 = pi_in_port ofp\<rparr>) (sret True)))"
    (is "keeps _ (sbind _ ?f)") for tlvs
  proof (rule keepsI)
    fix s assume s: "net_at K s"
    have "keeps (net_at K) (?f (dc_dps s))"
      using originator_known [of "dc_dps s" tlvs] net_atD(1) [OF s] assms
      by (auto split: option.split intro!: keeps_intros see_link_keeps)
    then show "net_at K (snd (sbind (sget dc_dps) ?f s))" using s by (simp add: keeps_def sm_simps)
  qed
  show ?thesis unfolding dc_PacketIn_def drop_buffer_def
    by (auto split: packet.split list.split bool.split intro!: keeps_intros o)
qed

lemma net_Down: "keeps (net_at K) (dc_ConnectionDown (l2_notify order) order d)"
proof (rule keepsI)
  fix s assume s: "net_at K s"
  show "net_at K (snd (dc_ConnectionDown (l2_notify order) order d s))"
  proof (cases "d \<in> dc_dps s")
    case True
    then show ?thesis using net.ConnectionDown_agrees [of s order d] same_links s net_atD(3) [OF s] by (auto simp: net_at_def)
  next
    case False
    then show ?thesis using s by (simp add: dc_ConnectionDown_def sm_simps)
  qed
qed

lemma net_Expire: "keeps (net_at K) (expireLinks (l2_notify order) order now)"
proof (rule keepsI)
  fix s assume s: "net_at K s"
  then show "net_at K (snd (expireLinks (l2_notify order) order now s))"
    using net.expireLinks_agrees [of s order now] same_links net_atD(3-5) [OF s] by (auto simp: net_at_def)
qed

lemma net_step_ok:
  assumes "net_ok s" "net_event_ok s ev"
  shows "net_ok (snd (net_step order depth ev s))"
proof -
  have s: "net_at (net_known s) s" using assms(1) by (simp add: net_at_def)
  have k: "net_ok (snd (m s))" if "keeps (net_at (net_known s)) m" for m :: "(l2_net, unit) sm"
    using that s unfolding keeps_def net_at_def by blast
  show ?thesis
  proof (cases ev)
    case (NetUp c d ports)
    then have "dpid_ok d" using assms(2) by simp
    from l2_Up [OF s this, of c ports] obtain s' where s': "on_l2 (l2_ConnectionUp c d ports) s = (Inr (), s')" "net_at (insert d (net_known s)) s'"
      by blast
    then have "net_at (insert d (net_known s)) (snd (dc_ConnectionUp c d ports s'))"
      using net_at_Up [of d "insert d (net_known s)" c ports] unfolding keeps_def by simp
    then show ?thesis using s'(1) by (simp add: NetUp net_at_def sm_simps)
  next
    case (NetPacket c d ofp env now)
    then have "d \<in> net_known s" using assms(2) by simp
    then show ?thesis unfolding NetPacket net_step.simps
      by (intro k keeps_intros l2_packet dc_PacketIn_keeps)
  qed (simp_all only: net_step.simps; intro k keeps_intros keeps_smod net_Down net_Expire net_at_PortStatus net_at_timer net_at_packets; simp)+
qed

end

lemma net_ok_init: "xid_ok nx \<Longrightarrow> net_ok (l2_net_init install_flow explicit_drop nx)"
  by (simp add: net_ok_def net_known_def l2_net_init_def Discovery_init_def discovery.defs l2_multi_init_def mirrors_def both_ways_def
      l2_ok_def paths_ok_def symmetric_def linked_def over_def)

section \<open>Properties\<close>

text \<open>
  C13: In every reachable state the graph in which \<open>l2_multi\<close> searches agrees with the links that discovery knows: an edge is there only
  if a link with that port is known in both directions, every two switches with such a link are joined, and an edge goes both ways.
\<close>

theorem topology_agrees:
  assumes "net_reachable order depth s" "\<forall>ls. mset (order ls) = mset ls"
  shows "mirrors (set (known_links s)) (lm_adjacency (net_l2 s)) \<and> symmetric (lm_adjacency (net_l2 s))"
proof -
  have it: "iteration order" using assms(2) by unfold_locales simp
  have "net_ok s" using assms(1)
    by (induction rule: net_reachable.induct) (auto intro: net_ok_init iteration.net_step_ok [OF it])
  then show ?thesis by (auto simp: net_ok_def l2_ok_def)
qed

text \<open>Two switches come up, and a packet of each reaches the other.\<close>

lemma net_up_result:
  assumes "net_at K s" "dpid_ok d" "d \<notin> dc_dps s"
  shows "let s' = snd (net_step order depth (NetUp c d []) s) in net_at (insert d K) s' \<and> dc_dps s' = insert d (dc_dps s)
    \<and> dc_adjacency s' = dc_adjacency s \<and> dc_explicit_drop s' = dc_explicit_drop s"
proof -
  obtain s1 where s1: "on_l2 (l2_ConnectionUp c d []) s = (Inr (), s1)" "net_at (insert d K) s1" "same_discovery s s1"
    using l2_Up [OF assms(1,2)] by blast
  have new: "d \<notin> dc_dps s1" and none: "\<forall>p\<in>set []. 0 \<le> pp_port_no p" using assms(3) same_discoveryD(1) [OF s1(3)] by simp_all
  obtain bs ps nx s' where s': "dc_ConnectionUp c d [] s1 = (Inr (), s')" "s' = s1\<lparr>nx_sent := nx_sent s1 @ bs, nx_nextXID := nx,
      dc_dps := insert d (dc_dps s1), dc_packets := filter (\<lambda>i. si_dpid i \<noteq> d) (dc_packets s1) @ ps, dc_timer := dc_timer s'\<rparr>"
    using ConnectionUp_ok [OF assms(2) none net_atD(2) [OF s1(2)] new, of c] by blast
  have "dc_dps s' = insert d (dc_dps s1)" "dc_adjacency s' = dc_adjacency s1" "dc_explicit_drop s' = dc_explicit_drop s1"
    by (subst s'(2), simp)+
  moreover have "net_at (insert d K) s'"
    using net_at_Up [of d "insert d K" c "[]"] s1(2) s'(1) unfolding keeps_def by (metis insertI1 snd_conv)
  ultimately show ?thesis using s1(1) s'(1) same_discoveryD [OF s1(3)] by (simp add: sm_simps Let_def)
qed

lemma on_l2_discovery: "same_discovery s (snd (on_l2 m s))"
  by (simp add: on_l2_def same_discovery_def case_prod_unfold)

lemma net_link_result:
  assumes "net_at K s" "d \<in> dc_dps s" "dpid \<in> K" "port_ok p" "(dpid, q) \<noteq> (d, p)" "\<not> dc_explicit_drop s"
  shows "\<exists>ofp. let s' = snd (net_step (\<lambda>ls. ls) depth (NetPacket c dpid ofp lldp_env now) s) in net_at K s' \<and> dc_dps s' = dc_dps s
    \<and> dc_adjacency s' = AList.update \<lparr>link_dpid1 = d, link_port1 = p, link_dpid2 = dpid, link_port2 = q\<rparr> now (dc_adjacency s) \<and> \<not> dc_explicit_drop s'"
proof -
  let ?l = "\<lparr>link_dpid1 = d, link_port1 = p, link_dpid2 = dpid, link_port2 = q\<rparr>" and ?n = "l2_notify (\<lambda>ls. ls)"
  have d: "d \<in> K" "dpid_ok d" "dpid_ok dpid" using net_atD(1,4) [OF assms(1)] assms(2,3) by auto
  obtain rest where rest: "lldp_pack (discovery_tlvs d p) = Inr rest" using discovery_frame(2) [OF d(2) assms(4)] by blast
  obtain h where h: "ethernet_hdr (ethernet_init\<lparr>eth_src := HwEth ETHER_ANY, eth_dst := HwEth NDP_MULTICAST, eth_type := 0x88cc\<rparr>) = Inr h"
    by (simp add: ethernet_hdr_def struct_pack.simps in_range_def pack_6s_def)
  have raw: "eth_raw_ok (eth_value ETHER_ANY)" by (simp add: ETHER_ANY_def eth_raw_ok_def str_of_bytes_def zeros_numeral)
  note parsed = discovery_frame_parsed [OF d(2) assms(4) rest raw h, where padding = "[]", unfolded append_Nil2]
  let ?ofp = "ofp_packet_in_init\<lparr>pi_data := h @ rest, pi_in_port := q\<rparr>"
  obtain e where e: "parse_packet_in lldp_env ?ofp = Inr (Ethernet e (Other ''lldp'' True rest))" "eth_type e = 0x88cc" "eth_dst e = HwEth NDP_MULTICAST"
    using parsed(1) [of "env_subs demo_env" "env_iid lldp_env" "env_rnd lldp_env"] by (auto simp: parse_packet_in_def lldp_env_def)
  have "dc_PacketIn ?n lldp_env now c dpid ?ofp s = (Inr True, snd (see_link ?n now ?l s))"
    using packet_in_sees_link [OF e parsed(2) d(2) assms(4,2) d(3), of ?n now c] assms(5,6) see_link_result [of ?l ?n now s] d(2,3)
    by (simp add: Let_def)
  moreover obtain s1 where s1: "see_link ?n now ?l s = (Inr (), s1)" "net_ok s1" "net_known s1 = net_known s" "same_discovery (seen now ?l s) s1"
    using insertion.net.see_link_agrees [of s ?l now] assms(1,3) d by (auto simp: net_at_def)
  ultimately have step: "net_step (\<lambda>ls. ls) depth (NetPacket c dpid ?ofp lldp_env now) s = on_l2 (l2_step depth (L2Packet c dpid ?ofp lldp_env)) s1"
    by (simp add: no_errors_def sm_simps del: l2_step.simps)
  have "net_at K s1" using s1(2,3) assms(1) by (simp add: net_at_def)
  then have "net_at K (snd (on_l2 (l2_step depth (L2Packet c dpid ?ofp lldp_env)) s1))" using l2_packet unfolding keeps_def by blast
  then show ?thesis using same_discoveryD [OF s1(4)] same_discoveryD [OF on_l2_discovery [of s1 "l2_step depth (L2Packet c dpid ?ofp lldp_env)"]] assms(6) unfolding Let_def
    by (intro exI [of _ ?ofp]) (simp only: step, simp add: seen_def del: l2_step.simps)
qed

theorem topology_agrees_witness:
  "\<exists>s. net_reachable (\<lambda>ls. ls) 5 s \<and> length (known_links s) = 2 \<and> linked (lm_adjacency (net_l2 s)) 1 2 \<and> linked (lm_adjacency (net_l2 s)) 2 1"
proof -
  let ?R = "net_reachable (\<lambda>ls. ls) 5" and ?step = "\<lambda>ev s. snd (net_step (\<lambda>ls. ls) 5 ev s)"
  let ?l = "\<lparr>link_dpid1 = 1, link_port1 = 1, link_dpid2 = 2, link_port2 = 1\<rparr>"
  have ok: "dpid_ok 1" "dpid_ok 2" "xid_ok 1" "port_ok 1" by (simp_all add: dpid_ok_def xid_ok_def port_ok_def)
  let ?s0 = "l2_net_init True False 1"
  have s0: "net_at {} ?s0" "dc_dps ?s0 = {}" "dc_adjacency ?s0 = []" "\<not> dc_explicit_drop ?s0" "?R ?s0"
    using net_ok_init [OF ok(3)] net_reachable.start [OF ok(3)]
    by (simp_all add: net_at_def net_known_def l2_net_init_def Discovery_init_def discovery.defs l2_multi_init_def)
  let ?s1 = "?step (NetUp 1 1 []) ?s0"
  have s1: "net_at {1} ?s1" "dc_dps ?s1 = {1}" "dc_adjacency ?s1 = []" "\<not> dc_explicit_drop ?s1"
    using net_up_result [OF s0(1) ok(1), of "\<lambda>ls. ls" 5 1] s0 by (simp_all add: Let_def del: net_step.simps)
  have r1: "?R ?s1" by (rule net_reachable.step [OF s0(5)]) (simp add: ok)
  let ?s2 = "?step (NetUp 2 2 []) ?s1"
  have s2: "net_at {2, 1} ?s2" "dc_dps ?s2 = {2, 1}" "dc_adjacency ?s2 = []" "\<not> dc_explicit_drop ?s2"
    using net_up_result [OF s1(1) ok(2), of "\<lambda>ls. ls" 5 2] s1 by (simp_all add: Let_def del: net_step.simps)
  have r2: "?R ?s2" by (rule net_reachable.step [OF r1]) (simp add: ok)
  obtain ofp3 where s3: "let s3 = ?step (NetPacket 2 2 ofp3 lldp_env 7) ?s2 in net_at {2, 1} s3 \<and> dc_dps s3 = dc_dps ?s2
      \<and> dc_adjacency s3 = AList.update ?l 7 (dc_adjacency ?s2) \<and> \<not> dc_explicit_drop s3"
    using net_link_result [OF s2(1) _ _ ok(4), of 1 2 1 5 2 7] s2 by (auto simp del: net_step.simps)
  let ?s3 = "?step (NetPacket 2 2 ofp3 lldp_env 7) ?s2"
  have r3: "?R ?s3" by (rule net_reachable.step [OF r2]) (use s2(1) in \<open>simp add: net_at_def\<close>)
  obtain ofp4 where s4: "let s4 = ?step (NetPacket 1 1 ofp4 lldp_env 8) ?s3 in net_at {2, 1} s4 \<and> dc_dps s4 = dc_dps ?s3
      \<and> dc_adjacency s4 = AList.update (flip ?l) 8 (dc_adjacency ?s3) \<and> \<not> dc_explicit_drop s4"
    using net_link_result [of "{2, 1}" ?s3 2 1 1 1 5 1 8] s3 s2(2) ok(4) unfolding Let_def flip_def by (auto simp del: net_step.simps)
  let ?s4 = "?step (NetPacket 1 1 ofp4 lldp_env 8) ?s3"
  have r4: "?R ?s4" by (rule net_reachable.step [OF r3]) (use s3 in \<open>simp add: net_at_def Let_def del: net_step.simps\<close>)
  have k: "known_links ?s4 = [?l, flip ?l]" using s3 s4 s2(3) by (simp add: Let_def flip_def del: net_step.simps)
  then have b: "both_ways (set (known_links ?s4)) 1 2 1" unfolding k both_ways_def by (intro bexI [of _ ?l]) simp_all
  then show ?thesis using topology_agrees [OF r4] r4 k unfolding mirrors_def symmetric_def by (intro exI [of _ ?s4]) (simp del: net_step.simps, blast)
qed

text \<open>
  A link can be known before its second switch has come up: a connection has a nexus after its features reply, and a packet that comes
  before its barrier reply is handled.  When the link times out, \<open>l2_multi\<close> does not know the switch, and the exception leaves \<open>_expireLinks\<close>: the links
  after it stay, and the timer that called it ends.
\<close>

theorem expiry_stops:
  assumes "l # ls = filter (\<lambda>l. case map_of (dc_adjacency s) l of None \<Rightarrow> False | Some t \<Rightarrow> now - t > LINK_TIMEOUT) (order (known_links s))"
    and "\<forall>l\<in>set (known_links s). dpid_ok (link_dpid1 l) \<and> dpid_ok (link_dpid2 l)" "link_dpid2 l \<notin> net_known s"
  shows "fst (expireLinks (l2_notify order) order now s) = Inl KeyError
    \<and> known_links (snd (expireLinks (l2_notify order) order now s)) = removeAll l (known_links s)"
proof -
  let ?s = "without l s" and ?log = "\<lambda>l. sthen (slift (dpidToStr (link_dpid1 l))) (sdo (slift (dpidToStr (link_dpid2 l))))"
  have sub: "set (l # ls) \<subseteq> set (known_links s)" unfolding assms(1) by (force dest: map_of_SomeD split: option.splits)
  have log: "sfor ?log xs s = (Inr (), s)" if "set xs \<subseteq> set (known_links s)" for xs
    by (rule log_links) (use that assms(2) in auto)
  have view: "map_of (lm_switches (l2_view ?s)) (link_dpid2 l) = None"
    using assms(3) by (auto simp: net_known_def without_def map_of_eq_None_iff)
  have "l2_LinkEvent known True l (l2_view ?s) = (Inl KeyError, l2_view ?s)" for known
    using view by (cases "map_of (lm_switches (l2_view ?s)) (link_dpid1 l)") (simp_all add: l2_LinkEvent_def switch_of_None switch_of_Some sm_simps)
  then have "l2_notify order False l ?s = (Inl KeyError, put_l2 (l2_view ?s) ?s)" by (simp add: l2_notify_def on_l2_def)
  then have "deleteLinks (l2_notify order) (l # ls) s = (Inl KeyError, put_l2 (l2_view ?s) ?s)"
    using sub by (simp add: deleteLinks_def without_def sm_simps)
  then have "expireLinks (l2_notify order) order now s = (Inl KeyError, put_l2 (l2_view ?s) ?s)"
    using log [OF sub] by (simp add: expireLinks_def Let_def sm_simps flip: assms(1))
  then show ?thesis by (simp add: without_def delete_keys)
qed

end
