(* ===== verification/Spanning_Tree.thy ===== *)
theory Spanning_Tree
  imports Discovery "HOL-Library.Multiset"
begin

text \<open>
  \<open>pox/openflow/spanning_tree.py\<close>: whenever a link comes or goes, a spanning tree of the discovered links is computed, and switches are told to
  flood only along it.  Dictionaries and sets are iterated in an order that the language leaves open: \<open>link_order\<close>, \<open>sw_order\<close> and
  \<open>item_order\<close> stand for it where the result depends on it.
\<close>

section \<open>One link for two switches\<close>

text \<open>\<open>adj[s1][s2]\<close>: the links from the first switch to the second, later the port\<close>

datatype adj_entry = Links "link list" | Port int

type_synonym st_adj = "((dpid \<times> dpid) \<times> adj_entry) list"

definition adj_append :: "link \<Rightarrow> st_adj \<Rightarrow> st_adj" where
  "adj_append l adj = AList.update (link_dpid1 l, link_dpid2 l)
     (Links ((case map_of adj (link_dpid1 l, link_dpid2 l) of Some (Links ls) \<Rightarrow> ls | _ \<Rightarrow> []) @ [l])) adj"

definition link_switches :: "link list \<Rightarrow> dpid list" where
  "link_switches known = remdups (concat (map (\<lambda>l. [link_dpid1 l, link_dpid2 l]) known))"

text \<open>The links both of whose directions are known are good; the first good one is kept.  The identity test compares elements of one set.\<close>

definition cull_pair :: "link list \<Rightarrow> dpid \<Rightarrow> dpid \<Rightarrow> st_adj \<Rightarrow> st_adj res" where
  "cull_pair known s1 s2 adj = (case map_of adj (s1, s2) of
     Some (Links ls) \<Rightarrow>
       if s1 = s2 then Inl AssertionError
       else (case find (\<lambda>l. flip l \<in> set known) ls of
         Some l \<Rightarrow> Inr (AList.update (s2, s1) (Port (link_port2 l)) (AList.update (s1, s2) (Port (link_port1 l)) adj))
       | None \<Rightarrow> Inr (AList.delete (s2, s1) (AList.delete (s1, s2) adj)))
   | _ \<Rightarrow> Inr adj)"

fun cull_all :: "link list \<Rightarrow> (dpid \<times> dpid) list \<Rightarrow> st_adj \<Rightarrow> st_adj res" where
  "cull_all known [] adj = Inr adj"
| "cull_all known ((s1, s2) # ps) adj = rbind (cull_pair known s1 s2 adj) (cull_all known ps)"

section \<open>The search\<close>

type_synonym st_tree = "(dpid \<times> (dpid \<times> int) list) list"

definition tree_add :: "dpid \<Rightarrow> dpid \<times> int \<Rightarrow> st_tree \<Rightarrow> st_tree" where
  "tree_add v e tree = AList.update v (List.insert e (case map_of tree v of None \<Rightarrow> [] | Some es \<Rightarrow> es)) tree"

text \<open>A list of links is not hashable, so it cannot be in the set of a switch; a missing entry would be an empty list.\<close>

definition adj_port :: "st_adj \<Rightarrow> dpid \<Rightarrow> dpid \<Rightarrow> int res" where
  "adj_port adj a b = (case map_of adj (a, b) of Some (Port p) \<Rightarrow> Inr p | _ \<Rightarrow> Inl TypeError)"

definition adj_row :: "st_adj \<Rightarrow> dpid \<Rightarrow> dpid list" where
  "adj_row adj v = map snd (filter (\<lambda>e. fst e = v) (map fst adj))"

text \<open>\<open>for w,p in adj[v].iteritems()\<close>\<close>

fun st_expand :: "st_adj \<Rightarrow> dpid \<Rightarrow> dpid list \<Rightarrow> dpid list \<Rightarrow> st_tree \<Rightarrow> (dpid list \<times> st_tree) res" where
  "st_expand adj v [] new tree = Inr (new, tree)"
| "st_expand adj v (w # ws) new tree =
     (if map_of tree w \<noteq> None then st_expand adj v ws new tree
      else rbind (adj_port adj v w) (\<lambda>p. rbind (adj_port adj w v) (\<lambda>p'.
        st_expand adj v ws (List.insert w new) (tree_add w (v, p') (tree_add v (w, p) tree)))))"

lemma st_expand_more:
  "st_expand adj v ws new tree = Inr (new', tree') \<Longrightarrow> set new' \<subseteq> set new \<union> set ws"
  by (induction adj v ws new tree rule: st_expand.induct) (auto simp: rbind_eq_Inr split: if_split_asm)

definition adj_nodes :: "st_adj \<Rightarrow> dpid set" where
  "adj_nodes adj = snd ` fst ` set adj"

lemma adj_row_nodes: "set (adj_row adj v) \<subseteq> adj_nodes adj"
  by (auto simp: adj_row_def adj_nodes_def)

text \<open>\<open>while True\<close>\<close>

function st_loop :: "st_adj \<Rightarrow> dpid list \<Rightarrow> dpid list \<Rightarrow> dpid list \<Rightarrow> st_tree \<Rightarrow> st_tree res" where
  "st_loop adj new q visited tree = (case sort new @ q of
     [] \<Rightarrow> Inr tree
   | v # q \<Rightarrow>
       if v \<in> set visited then st_loop adj [] q visited tree
       else (case st_expand adj v (adj_row adj v) [] tree of
         Inl e \<Rightarrow> Inl e
       | Inr (new, tree) \<Rightarrow> st_loop adj new q (v # visited) tree))"
  by pat_completeness auto
termination
proof (relation "measures [\<lambda>(adj, new, q, visited, tree). card (set new \<union> set q \<union> adj_nodes adj - set visited),
    \<lambda>(adj, new, q, visited, tree). length new + length q]", goal_cases)
  case (2 adj new q visited tree v q')
  then have "set (v # q') = set new \<union> set q" "length (v # q') = length new + length q"
    by (metis set_append set_sort, metis length_append length_sort)
  then have "set new \<union> set q \<union> adj_nodes adj - set visited = set q' \<union> adj_nodes adj - set visited" "length q' < length new + length q"
    using 2(2) by auto
  then show ?case by simp
next
  case (3 adj new q visited tree v q' r new' tree')
  then have v: "set (v # q') = set new \<union> set q" by (metis set_append set_sort)
  have "set new' \<subseteq> adj_nodes adj" using st_expand_more [of adj v "adj_row adj v" "[]" tree] 3 adj_row_nodes by fastforce
  then have "set new' \<union> set q' \<union> adj_nodes adj - set (v # visited) \<subset> set new \<union> set q \<union> adj_nodes adj - set visited"
    using v 3(2) by auto
  then have "card (set new' \<union> set q' \<union> adj_nodes adj - set (v # visited)) < card (set new \<union> set q \<union> adj_nodes adj - set visited)"
    by (intro psubset_card_mono) (auto simp: adj_nodes_def)
  then show ?case by simp
qed simp

declare st_loop.simps [simp del]

definition calc_spanning_tree :: "(link list \<Rightarrow> link list) \<Rightarrow> (dpid list \<Rightarrow> dpid list) \<Rightarrow> link list \<Rightarrow> st_tree res" where
  "calc_spanning_tree link_order sw_order known =
     (let adj = fold adj_append (link_order known) [];
          switches = sw_order (link_switches known) in
      rbind (cull_all known (List.product switches switches) adj) (\<lambda>adj. st_loop adj switches [] [] []))"

section \<open>Telling the switches\<close>

text \<open>\<open>_prev[sw][port]\<close> is what the port was last told.\<close>

record spanning = discovery +
  st_prev :: "((dpid \<times> int) \<times> bool) list"

abbreviation (input) OFPPC_NO_FLOOD :: int where "OFPPC_NO_FLOOD \<equiv> 16"

text \<open>A message whose \<open>pack\<close> returns \<open>None\<close> cannot be given to the socket.\<close>

definition port_mod_bytes :: "int \<Rightarrow> ofp_port_mod \<Rightarrow> (bytes \<times> ofp_port_mod \<times> int) res" where
  "port_mod_bytes nx m = rbind (ofp_port_mod_pack True nx m)
     (\<lambda>(b, m, nx). case b of None \<Rightarrow> Inl TypeError | Some b \<Rightarrow> Inr (b, m, nx))"

definition flood_mod :: "ofp_phy_port \<Rightarrow> bool \<Rightarrow> ofp_port_mod" where
  "flood_mod p flood = ofp_port_mod_init\<lparr>pm_port_no := pp_port_no p, pm_hw_addr := pp_hw_addr p,
     pm_config := (if flood then 0 else OFPPC_NO_FLOOD), pm_mask := OFPPC_NO_FLOOD\<rparr>"

definition should_flood :: "link list \<Rightarrow> dpid \<Rightarrow> int list \<Rightarrow> int \<Rightarrow> bool" where
  "should_flood known sw tree_ports port_no \<longleftrightarrow> port_no \<in> set tree_ports \<or> \<not> isSwitchOnlyPort known sw port_no"

definition push_port :: "nat \<Rightarrow> dpid \<Rightarrow> int list \<Rightarrow> ofp_phy_port \<Rightarrow> (spanning, unit) sm" where
  "push_port con sw tree_ports p = sbind (sget known_links) (\<lambda>known. sbind (sget st_prev) (\<lambda>prev.
     if pp_port_no p < OFPP_MAX then
       let flood = should_flood known sw tree_ports (pp_port_no p) in
       if map_of prev (sw, pp_port_no p) = Some flood then sret ()
       else sthen (smod (\<lambda>s. s\<lparr>st_prev := AList.update (sw, pp_port_no p) flood (st_prev s)\<rparr>))
         (sdo (connection_send con port_mod_bytes (flood_mod p flood)))
     else sret ()))"

text \<open>\<open>cons\<close> is \<open>core.openflow.getConnection\<close>, with the ports of the connection's features reply.\<close>

definition push_switch :: "(dpid \<Rightarrow> (nat \<times> ofp_phy_port list) option) \<Rightarrow> dpid \<times> (dpid \<times> int) list \<Rightarrow> (spanning, unit) sm" where
  "push_switch cons e = (case e of (sw, ports) \<Rightarrow> case cons sw of
     None \<Rightarrow> sret ()
   | Some (con, phys) \<Rightarrow> sfor (push_port con sw (map snd ports)) phys)"

definition sexcept :: "('s, 'a) sm \<Rightarrow> ('s, 'a) sm \<Rightarrow> ('s, 'a) sm" where
  "sexcept m h s = (case m s of (Inl _, s') \<Rightarrow> h s' | r \<Rightarrow> r)"

definition st_handle :: "(link list \<Rightarrow> link list) \<Rightarrow> (dpid list \<Rightarrow> dpid list) \<Rightarrow> (st_tree \<Rightarrow> st_tree)
    \<Rightarrow> (dpid \<Rightarrow> (nat \<times> ofp_phy_port list) option) \<Rightarrow> (spanning, unit) sm" where
  "st_handle link_order sw_order item_order cons = sbind (sget known_links) (\<lambda>known.
     sbind (slift (calc_spanning_tree link_order sw_order known)) (\<lambda>tree.
       sexcept (sfor (push_switch cons) (item_order tree)) (smod (\<lambda>s. s\<lparr>st_prev := []\<rparr>))))"

end
