(* ===== verification/Spanning_Tree_Laws.thy ===== *)
theory Spanning_Tree_Laws
  imports Spanning_Tree Discovery_Laws
begin

text \<open>
  The tree of \<open>spanning_tree.py\<close> spans: it has no cycle, and joins what the links join.  Switches that follow it flood without loops.
\<close>

section \<open>Graphs without cycles\<close>

definition is_cycle :: "('a \<times> 'a) set \<Rightarrow> 'a list \<Rightarrow> bool" where
  "is_cycle R vs \<longleftrightarrow> 3 \<le> length vs \<and> distinct vs \<and> (\<forall>i<length vs. (vs ! i, vs ! (Suc i mod length vs)) \<in> R)"

definition no_cycles :: "('a \<times> 'a) set \<Rightarrow> bool" where
  "no_cycles R \<longleftrightarrow> (\<forall>vs. \<not> is_cycle R vs)"

lemma no_cycles_empty [simp]: "no_cycles {}"
  by (force simp: no_cycles_def is_cycle_def)

lemma no_cycles_mono: "no_cycles R \<Longrightarrow> S \<subseteq> R \<Longrightarrow> no_cycles S"
  unfolding no_cycles_def is_cycle_def by (meson subsetD)

text \<open>A vertex of a cycle has two neighbours.\<close>

lemma cycle_neighbours:
  assumes "is_cycle R vs" "w \<in> set vs"
  shows "\<exists>a b. a \<noteq> b \<and> (a, w) \<in> R \<and> (w, b) \<in> R"
proof -
  let ?n = "length vs"
  obtain i where i: "i < ?n" "vs ! i = w" using assms(2) by (auto simp: in_set_conv_nth)
  have n: "3 \<le> ?n" "distinct vs" and e: "\<And>j. j < ?n \<Longrightarrow> (vs ! j, vs ! (Suc j mod ?n)) \<in> R"
    using assms(1) by (auto simp: is_cycle_def)
  define j where "j = (if i = 0 then ?n - 1 else i - 1)"
  have j: "j < ?n" "Suc j mod ?n = i" using i n by (auto simp: j_def)
  have "Suc i mod ?n < ?n" using n(1) by (intro mod_less_divisor) linarith
  moreover have "Suc i mod ?n \<noteq> j" using i n by (cases "Suc i = ?n") (auto simp: j_def)
  ultimately have "vs ! j \<noteq> vs ! (Suc i mod ?n)" using n(2) j(1) by (simp add: nth_eq_iff_index_eq)
  then show ?thesis using e [OF j(1)] e [OF i(1)] i(2) j(2) by auto
qed

lemma no_cycles_leaf:
  assumes "no_cycles R" "w \<notin> Field R" "v \<noteq> w"
  shows "no_cycles (R \<union> {(v, w), (w, v)})"
  unfolding no_cycles_def
proof (rule allI, rule notI)
  fix vs assume c: "is_cycle (R \<union> {(v, w), (w, v)}) vs"
  show False
  proof (cases "w \<in> set vs")
    case True
    then show False using cycle_neighbours [OF c True] assms(2,3) by (auto simp: Field_def)
  next
    case False
    have "(vs ! i, vs ! (Suc i mod length vs)) \<in> R" if "i < length vs" for i
    proof -
      have "vs \<noteq> []" using that by auto
      then have "vs ! i \<in> set vs" "vs ! (Suc i mod length vs) \<in> set vs" using that by simp_all
      moreover have "(vs ! i, vs ! (Suc i mod length vs)) \<in> R \<union> {(v, w), (w, v)}" using c that by (auto simp: is_cycle_def)
      ultimately show ?thesis using False by auto
    qed
    then have "is_cycle R vs" using c by (auto simp: is_cycle_def)
    then show False using assms(1) by (simp add: no_cycles_def)
  qed
qed

section \<open>The culled links\<close>

text \<open>A link from port \<open>p\<close> of \<open>a\<close> to port \<open>q\<close> of \<open>b\<close>, and one back\<close>

definition joined :: "link set \<Rightarrow> dpid \<Rightarrow> int \<Rightarrow> dpid \<Rightarrow> int \<Rightarrow> bool" where
  "joined K a p b q \<longleftrightarrow> \<lparr>link_dpid1 = a, link_port1 = p, link_dpid2 = b, link_port2 = q\<rparr> \<in> K
     \<and> \<lparr>link_dpid1 = b, link_port1 = q, link_dpid2 = a, link_port2 = p\<rparr> \<in> K"

lemma both_ways_joined: "both_ways K a b p \<longleftrightarrow> (\<exists>q. joined K a p b q)"
proof
  assume "both_ways K a b p"
  then obtain l where "l \<in> K" "flip l \<in> K" "link_dpid1 l = a" "link_dpid2 l = b" "link_port1 l = p" by (auto simp: both_ways_def)
  then show "\<exists>q. joined K a p b q" by (cases l) (auto simp: joined_def flip_def)
qed (force simp: both_ways_def joined_def flip_def)

lemma joined_sym: "joined K a p b q \<longleftrightarrow> joined K b q a p"
  by (auto simp: joined_def)

text \<open>The links from one switch to another, in the order they are found\<close>

abbreviation links_from :: "link list \<Rightarrow> dpid \<Rightarrow> dpid \<Rightarrow> link list" where
  "links_from ls a b \<equiv> filter (\<lambda>l. link_dpid1 l = a \<and> link_dpid2 l = b) ls"

lemma adj_built_aux:
  "(\<And>a b. map_of adj (a, b) = (if links_from ks a b = [] then None else Some (Links (links_from ks a b)))) \<Longrightarrow>
   map_of (fold adj_append ls adj) (a, b) = (if links_from (ks @ ls) a b = [] then None else Some (Links (links_from (ks @ ls) a b)))"
proof (induction ls arbitrary: adj ks)
  case (Cons l ls)
  have "map_of (adj_append l adj) (a, b) = (if links_from (ks @ [l]) a b = [] then None else Some (Links (links_from (ks @ [l]) a b)))" for a b
    using Cons.prems by (auto simp: adj_append_def update_conv')
  from Cons.IH [OF this] show ?case by simp
qed simp

lemma adj_built: "map_of (fold adj_append ls []) (a, b) = (if links_from ls a b = [] then None else Some (Links (links_from ls a b)))"
  using adj_built_aux [of "[]" "[]" ls a b] by simp

text \<open>What holds while links are culled\<close>

definition cull_ok :: "link set \<Rightarrow> link list \<Rightarrow> st_adj \<Rightarrow> bool" where
  "cull_ok K ls adj \<longleftrightarrow> (\<forall>a b p. map_of adj (a, b) = None \<longrightarrow> \<not> both_ways K a b p)
     \<and> (\<forall>a b xs. map_of adj (a, b) = Some (Links xs) \<longrightarrow> xs = links_from ls a b \<and> xs \<noteq> [])
     \<and> (\<forall>a b p. map_of adj (a, b) = Some (Port p) \<longrightarrow> a \<noteq> b \<and> (\<exists>q. map_of adj (b, a) = Some (Port q) \<and> joined K a p b q))"

lemma cull_okD:
  assumes "cull_ok K ls adj"
  shows "map_of adj (a, b) = None \<Longrightarrow> \<not> both_ways K a b p"
    "map_of adj (a, b) = Some (Links xs) \<Longrightarrow> xs = links_from ls a b \<and> xs \<noteq> []"
    "map_of adj (a, b) = Some (Port p) \<Longrightarrow> a \<noteq> b \<and> (\<exists>q. map_of adj (b, a) = Some (Port q) \<and> joined K a p b q)"
  using assms unfolding cull_ok_def by blast+

lemma cull_ok_start: "set ls = K \<Longrightarrow> cull_ok K ls (fold adj_append ls [])"
  by (auto simp: cull_ok_def adj_built both_ways_def filter_empty_conv)

text \<open>Both entries of a pair are set, or deleted.\<close>

lemma cull_ok_keep:
  assumes "cull_ok K ls adj" "\<forall>k. k \<notin> {(a, b), (b, a)} \<longrightarrow> map_of adj' k = map_of adj k"
    and "(map_of adj' (a, b) = None \<and> map_of adj' (b, a) = None \<and> \<not> (\<exists>p. both_ways K a b p))
       \<or> (a \<noteq> b \<and> (\<exists>p q. map_of adj' (a, b) = Some (Port p) \<and> map_of adj' (b, a) = Some (Port q) \<and> joined K a p b q))"
  shows "cull_ok K ls adj'"
proof -
  have old: "map_of adj' (x, y) = map_of adj (x, y)" "map_of adj' (y, x) = map_of adj (y, x)" if "{x, y} \<noteq> {a, b}" for x y
    using that assms(2) by auto
  have sym: "both_ways K b a p \<Longrightarrow> \<exists>q. both_ways K a b q" for p by (auto simp: both_ways_joined joined_sym)
  show ?thesis unfolding cull_ok_def
  proof (intro conjI allI impI)
    fix x y p assume n: "map_of adj' (x, y) = None"
    show "\<not> both_ways K x y p"
    proof (cases "{x, y} = {a, b}")
      case True
      then show ?thesis using assms(3) n sym by (auto simp: doubleton_eq_iff)
    next
      case False
      then show ?thesis using cull_okD(1) [OF assms(1)] n old(1) by simp
    qed
  next
    fix x y xs assume n: "map_of adj' (x, y) = Some (Links xs)"
    then have "{x, y} \<noteq> {a, b}" using assms(3) by (auto simp: doubleton_eq_iff)
    then have "xs = links_from ls x y \<and> xs \<noteq> []" using cull_okD(2) [OF assms(1)] n old(1) by simp
    then show "xs = links_from ls x y" "xs \<noteq> []" by blast+
  next
    fix x y p assume n: "map_of adj' (x, y) = Some (Port p)"
    have "x \<noteq> y \<and> (\<exists>q. map_of adj' (y, x) = Some (Port q) \<and> joined K x p y q)"
    proof (cases "{x, y} = {a, b}")
      case True
      then show ?thesis using assms(3) n joined_sym [of K] by (auto simp: doubleton_eq_iff)
    next
      case False
      then show ?thesis using cull_okD(3) [OF assms(1)] n old by simp
    qed
    then show "x \<noteq> y" "\<exists>q. map_of adj' (y, x) = Some (Port q) \<and> joined K x p y q" by blast+
  qed
qed

definition no_list :: "st_adj \<Rightarrow> dpid \<times> dpid \<Rightarrow> bool" where
  "no_list adj e \<longleftrightarrow> (\<forall>xs. map_of adj e \<noteq> Some (Links xs))"

lemma cull_pair_ok:
  assumes "cull_ok K ls adj" "K = set known" "set ls = K" "\<forall>l\<in>K. link_dpid1 l \<noteq> link_dpid2 l"
  shows "\<exists>adj'. cull_pair known a b adj = Inr adj' \<and> cull_ok K ls adj' \<and> no_list adj' (a, b)
    \<and> (\<forall>e. no_list adj e \<longrightarrow> no_list adj' e)"
proof (cases "no_list adj (a, b)")
  case True
  then have "cull_pair known a b adj = Inr adj" by (auto simp: cull_pair_def no_list_def split: option.split adj_entry.split)
  then show ?thesis using assms(1) True by auto
next
  case False
  then obtain xs where xs: "map_of adj (a, b) = Some (Links xs)" by (auto simp: no_list_def)
  have l: "xs = links_from ls a b" "xs \<noteq> []" using cull_okD(2) [OF assms(1) xs] by blast+
  then obtain l0 where "l0 \<in> K" "link_dpid1 l0 = a" "link_dpid2 l0 = b" using assms(3) by (auto simp: filter_empty_conv)
  then have ab: "a \<noteq> b" using assms(4) by auto
  show ?thesis
  proof (cases "find (\<lambda>l. flip l \<in> set known) xs")
    case None
    let ?adj = "AList.delete (b, a) (AList.delete (a, b) adj)"
    have m: "map_of ?adj k = (if k \<in> {(a, b), (b, a)} then None else map_of adj k)" for k 
      unfolding delete_conv' fun_upd_apply by (cases "k = (a, b)"; cases "k = (b, a)"; simp only: insertI1 insertI2 insert_iff empty_iff simp_thms if_True if_False)
    have "\<not> both_ways K a b p" for p using None l(1) assms(2,3) by (auto simp: find_None_iff both_ways_def)
    then have "cull_ok K ls ?adj" by (intro cull_ok_keep [OF assms(1), of a b]) (simp_all add: m)
    then show ?thesis using None xs ab by (intro exI [of _ ?adj]) (simp add: cull_pair_def no_list_def m)
  next
    case (Some l')
    let ?adj = "AList.update (b, a) (Port (link_port2 l')) (AList.update (a, b) (Port (link_port1 l')) adj)"
    have m: "map_of ?adj k = (if k = (b, a) then Some (Port (link_port2 l')) else if k = (a, b) then Some (Port (link_port1 l')) else map_of adj k)" for k
      by (auto simp: update_conv')
    have "l' \<in> K" "flip l' \<in> K" "link_dpid1 l' = a" "link_dpid2 l' = b" using Some l(1) assms(2,3) by (auto simp: find_Some_iff dest!: nth_mem)
    then have "joined K a (link_port1 l') b (link_port2 l')" by (cases l') (auto simp: joined_def flip_def)
    then have "cull_ok K ls ?adj" using ab by (intro cull_ok_keep [OF assms(1), of a b]) (simp_all add: m)
    then show ?thesis using Some xs ab by (intro exI [of _ ?adj]) (simp add: cull_pair_def no_list_def m)
  qed
qed

lemma cull_all_ok:
  assumes "K = set known" "set ls = K" "\<forall>l\<in>K. link_dpid1 l \<noteq> link_dpid2 l"
  shows "cull_ok K ls adj \<Longrightarrow> \<exists>adj'. cull_all known ps adj = Inr adj' \<and> cull_ok K ls adj' \<and> (\<forall>e\<in>set ps. no_list adj' e)
    \<and> (\<forall>e. no_list adj e \<longrightarrow> no_list adj' e)"
proof (induction ps arbitrary: adj)
  case (Cons e ps)
  obtain a b where [simp]: "e = (a, b)" by (cases e)
  obtain adj1 where a1: "cull_pair known a b adj = Inr adj1" "cull_ok K ls adj1" "no_list adj1 (a, b)" "\<forall>e. no_list adj e \<longrightarrow> no_list adj1 e"
    using cull_pair_ok [OF Cons.prems assms] by blast
  obtain adj2 where "cull_all known ps adj1 = Inr adj2" "cull_ok K ls adj2" "\<forall>e\<in>set ps. no_list adj2 e" "\<forall>e. no_list adj1 e \<longrightarrow> no_list adj2 e"
    using Cons.IH [OF a1(2)] by blast
  then show ?case using a1 by (intro exI [of _ adj2]) auto
qed simp

text \<open>A link of a switch to itself fails the assertion.\<close>

lemma cull_pair_error: "cull_pair known a b adj = Inl e \<Longrightarrow> e = AssertionError"
  by (auto simp: cull_pair_def split: option.splits adj_entry.splits if_split_asm)

lemma cull_pair_self: "cull_pair known a b adj = Inr adj' \<Longrightarrow> map_of adj (v, v) = Some (Links xs) \<Longrightarrow> map_of adj' (v, v) = Some (Links xs) \<and> (a, b) \<noteq> (v, v)"
  by (auto simp: cull_pair_def update_conv' delete_conv' split: option.splits adj_entry.splits if_split_asm)

lemma cull_all_self: "(v, v) \<in> set ps \<Longrightarrow> map_of adj (v, v) = Some (Links xs) \<Longrightarrow> cull_all known ps adj = Inl AssertionError"
proof (induction ps arbitrary: adj)
  case (Cons e ps)
  obtain a b where [simp]: "e = (a, b)" by (cases e)
  show ?case
  proof (cases "cull_pair known a b adj")
    case (Inl err)
    then show ?thesis using cull_pair_error by fastforce
  next
    case (Inr adj')
    then show ?thesis using cull_pair_self [OF Inr Cons.prems(2)] Cons.prems(1) Cons.IH [of adj'] by auto
  qed
qed simp

section \<open>The search\<close>

text \<open>The ports that are left join pairs of switches both ways.\<close>

definition adj_ok :: "st_adj \<Rightarrow> bool" where
  "adj_ok adj \<longleftrightarrow> (\<forall>a b. map_of adj (a, b) \<noteq> None \<longrightarrow> a \<noteq> b \<and> (\<exists>p q. map_of adj (a, b) = Some (Port p) \<and> map_of adj (b, a) = Some (Port q)))"

definition adj_edges :: "st_adj \<Rightarrow> (dpid \<times> dpid) set" where
  "adj_edges adj = {(a, b). map_of adj (a, b) \<noteq> None}"

definition tree_edges :: "st_tree \<Rightarrow> (dpid \<times> dpid) set" where
  "tree_edges tree = {(v, w). \<exists>es p. map_of tree v = Some es \<and> (w, p) \<in> set es}"

lemma adj_row_set: "set (adj_row adj v) = {w. (v, w) \<in> adj_edges adj}"
proof -
  have "(v, w) \<in> adj_edges adj \<longleftrightarrow> (v, w) \<in> set (map fst adj)" for w by (simp add: adj_edges_def map_of_eq_None_iff)
  then show ?thesis by (force simp: adj_row_def)
qed

lemma adj_edges_ok: "adj_ok adj \<Longrightarrow> sym (adj_edges adj)" "adj_ok adj \<Longrightarrow> (a, b) \<in> adj_edges adj \<Longrightarrow> a \<noteq> b"
  unfolding adj_ok_def adj_edges_def sym_def by fastforce+

lemma adj_edges_port: "adj_ok adj \<Longrightarrow> (a, b) \<in> adj_edges adj \<Longrightarrow> \<exists>p. map_of adj (a, b) = Some (Port p) \<and> adj_port adj a b = Inr p"
  unfolding adj_ok_def adj_edges_def adj_port_def by fastforce

text \<open>The tree as it grows: its entries are ports of the links, it goes both ways, every switch in it has an edge, and it has no cycle.\<close>

definition tree_ok :: "st_adj \<Rightarrow> st_tree \<Rightarrow> bool" where
  "tree_ok adj tree \<longleftrightarrow> (\<forall>v es w p. map_of tree v = Some es \<longrightarrow> (w, p) \<in> set es \<longrightarrow> map_of adj (v, w) = Some (Port p))
     \<and> sym (tree_edges tree) \<and> Field (tree_edges tree) = dom (map_of tree) \<and> no_cycles (tree_edges tree) \<and> distinct (map fst tree)"

lemma tree_edges_add: "tree_edges (tree_add v (w, p) tree) = insert (v, w) (tree_edges tree)"
  by (auto simp: tree_edges_def tree_add_def update_conv' split: option.splits if_split_asm) blast+

lemma dom_tree_add: "dom (map_of (tree_add v e tree)) = insert v (dom (map_of tree))"
  by (auto simp: tree_add_def update_conv')

lemma tree_add_entry: "map_of (tree_add v e tree) x = Some es \<Longrightarrow> i \<in> set es \<Longrightarrow> (x = v \<and> i = e) \<or> (\<exists>es'. map_of tree x = Some es' \<and> i \<in> set es')"
  by (auto simp: tree_add_def update_conv' split: option.splits if_split_asm)

lemma tree_ok_add:
  assumes "tree_ok adj tree" "map_of tree w = None" "v \<noteq> w" "map_of adj (v, w) = Some (Port p)" "map_of adj (w, v) = Some (Port p')"
  shows "tree_ok adj (tree_add w (v, p') (tree_add v (w, p) tree))"
proof -
  let ?t = "tree_add w (v, p') (tree_add v (w, p) tree)"
  have e: "tree_edges ?t = tree_edges tree \<union> {(v, w), (w, v)}" by (auto simp: tree_edges_add)
  have w: "w \<notin> Field (tree_edges tree)" using assms(1,2) by (auto simp: tree_ok_def)
  have "no_cycles (tree_edges ?t)" unfolding e using assms(1,3) w by (intro no_cycles_leaf) (auto simp: tree_ok_def)
  moreover have "sym (tree_edges ?t)" using assms(1) unfolding e tree_ok_def sym_def by blast
  moreover have "Field (tree_edges ?t) = dom (map_of ?t)" using assms(1) unfolding e tree_ok_def dom_tree_add by (auto simp: Field_def)
  moreover have "distinct (map fst ?t)" using assms(1) by (simp add: tree_ok_def tree_add_def distinct_update)
  moreover have "map_of adj (x, y) = Some (Port q)" if "map_of ?t x = Some es" "(y, q) \<in> set es" for x es y q
    using tree_add_entry [OF that] assms(1,4,5) unfolding tree_ok_def by (fastforce dest: tree_add_entry)
  ultimately show ?thesis unfolding tree_ok_def by blast
qed

lemma st_expand_ok:
  assumes "adj_ok adj"
  shows "tree_ok adj tree \<Longrightarrow> \<forall>w\<in>set ws. (v, w) \<in> adj_edges adj \<Longrightarrow>
    \<exists>new' tree'. st_expand adj v ws new tree = Inr (new', tree') \<and> tree_ok adj tree' \<and> set new' = set new \<union> (set ws - dom (map_of tree))
      \<and> tree_edges tree' = tree_edges tree \<union> {v} \<times> (set ws - dom (map_of tree)) \<union> (set ws - dom (map_of tree)) \<times> {v}"
proof (induction ws arbitrary: new tree)
  case (Cons w ws)
  show ?case
  proof (cases "map_of tree w")
    case None
    have vw: "(v, w) \<in> adj_edges adj" "v \<notin> set (w # ws)" using Cons.prems(2) adj_edges_ok(2) [OF assms] by auto
    then have "(w, v) \<in> adj_edges adj" using adj_edges_ok(1) [OF assms] by (auto dest: symD)
    then obtain p p' where p: "map_of adj (v, w) = Some (Port p)" "adj_port adj v w = Inr p" "map_of adj (w, v) = Some (Port p')" "adj_port adj w v = Inr p'"
      using adj_edges_port [OF assms] vw(1) by metis
    let ?t = "tree_add w (v, p') (tree_add v (w, p) tree)"
    have t: "tree_ok adj ?t" by (rule tree_ok_add) (use Cons.prems(1) None p vw(2) in auto)
    obtain new' tree' where r: "st_expand adj v ws (List.insert w new) ?t = Inr (new', tree')" "tree_ok adj tree'"
      "set new' = set (List.insert w new) \<union> (set ws - dom (map_of ?t))"
      "tree_edges tree' = tree_edges ?t \<union> {v} \<times> (set ws - dom (map_of ?t)) \<union> (set ws - dom (map_of ?t)) \<times> {v}"
      using Cons.IH [OF t, of "List.insert w new"] Cons.prems(2) by auto
    have d: "set ws - dom (map_of ?t) = set ws - dom (map_of tree) - {w}" "set (w # ws) - dom (map_of tree) = insert w (set ws - dom (map_of tree) - {w})"
      using vw(2) None unfolding dom_tree_add by auto
    have "st_expand adj v (w # ws) new tree = Inr (new', tree')" using None p r(1) by simp
    moreover have "set new' = set new \<union> (set (w # ws) - dom (map_of tree))" using r(3) unfolding d by auto
    moreover have "tree_edges tree' = tree_edges tree \<union> {v} \<times> (set (w # ws) - dom (map_of tree)) \<union> (set (w # ws) - dom (map_of tree)) \<times> {v}"
      using r(4) unfolding d tree_edges_add by auto
    ultimately show ?thesis using r(2) by blast
  next
    case (Some es)
    then have "set (w # ws) - dom (map_of tree) = set ws - dom (map_of tree)" by auto
    then show ?thesis using Cons.IH [OF Cons.prems(1), of new] Cons.prems(2) Some by simp
  qed
qed simp

text \<open>
  The queue is \<open>front\<close>, the switches that were reached and not yet searched, and then the rest of all switches.  All switches in the tree that wait
  are in \<open>front\<close> and joined to each other; a switch that was searched is joined to its neighbours.
\<close>

definition search_ok :: "st_adj \<Rightarrow> dpid list \<Rightarrow> dpid list \<Rightarrow> dpid list \<Rightarrow> st_tree \<Rightarrow> bool" where
  "search_ok adj front rest visited tree \<longleftrightarrow> tree_ok adj tree \<and> set front \<subseteq> dom (map_of tree) \<and> dom (map_of tree) - set visited \<subseteq> set front
     \<and> (\<forall>a b. a \<in> dom (map_of tree) - set visited \<longrightarrow> b \<in> dom (map_of tree) - set visited \<longrightarrow> (a, b) \<in> (tree_edges tree)\<^sup>*)
     \<and> (\<forall>a b. a \<in> set visited \<longrightarrow> (a, b) \<in> adj_edges adj \<longrightarrow> (a, b) \<in> (tree_edges tree)\<^sup>*)"

lemma search_ok_skip:
  assumes "search_ok adj front rest visited tree" "front @ rest = v # q" "v \<in> set visited"
  shows "\<exists>front' rest'. q = front' @ rest' \<and> search_ok adj front' rest' visited tree"
proof (cases front)
  case Nil
  then show ?thesis using assms(1,2) by (intro exI [of _ "[]"] exI [of _ q]) (auto simp: search_ok_def)
next
  case (Cons x f)
  then have "search_ok adj f rest visited tree" using assms by (auto simp: search_ok_def)
  then show ?thesis using Cons assms(2) by auto
qed

lemma search_ok_expand:
  assumes "search_ok adj front rest visited tree" "adj_ok adj" "front @ rest = v # q" "v \<notin> set visited"
    and "tree_ok adj tree'" "set new = set (adj_row adj v) - dom (map_of tree)" "tree_edges tree' = tree_edges tree \<union> {v} \<times> set new \<union> set new \<times> {v}"
  shows "\<exists>front' rest'. sort new @ q = front' @ rest' \<and> search_ok adj front' rest' (v # visited) tree'"
proof -
  let ?T = "tree_edges tree" and ?T' = "tree_edges tree'" and ?D = "dom (map_of tree)" and ?D' = "dom (map_of tree')"
  define f where "f = (if front = [] then [] else tl front)"
  define r where "r = (if front = [] then tl rest else rest)"
  have q: "q = f @ r" "front = [] \<or> front = v # f" using assms(3) by (cases front; auto simp: f_def r_def)+
  have sf: "set f \<subseteq> set front" "set front \<subseteq> insert v (set f)" using q(2) by (cases front; auto simp: f_def)+
  have fD: "set f \<subseteq> ?D" "?D - set visited \<subseteq> insert v (set f)"
    using assms(1) sf unfolding search_ok_def by blast+
  have T: "?T\<^sup>* \<subseteq> ?T'\<^sup>*" using assms(7) by (intro rtrancl_mono) auto
  have ok: "tree_ok adj tree" "set front \<subseteq> ?D" "?D - set visited \<subseteq> set front"
    and wait: "\<And>a b. a \<in> ?D - set visited \<Longrightarrow> b \<in> ?D - set visited \<Longrightarrow> (a, b) \<in> ?T'\<^sup>*"
    and past: "\<And>a b. a \<in> set visited \<Longrightarrow> (a, b) \<in> adj_edges adj \<Longrightarrow> (a, b) \<in> ?T'\<^sup>*"
    using assms(1) T unfolding search_ok_def by blast+
  have sym': "sym (?T'\<^sup>*)" using assms(5) by (auto simp: tree_ok_def intro: sym_rtrancl)
  have F: "?D = Field ?T" "?D' = Field ?T'" using ok(1) assms(5) by (simp_all add: tree_ok_def)
  have D: "?D' \<subseteq> insert v (?D \<union> set new)" "?D \<subseteq> ?D'" "set new \<subseteq> ?D'"
    unfolding F assms(7) by (auto simp: Field_def)
  have new: "(v, w) \<in> ?T'" "(w, v) \<in> ?T'" if "w \<in> set new" for w using that assms(7) by auto
  have to_v: "(a, v) \<in> ?T'\<^sup>*" if "a \<in> ?D' - set (v # visited)" for a
  proof (cases "a \<in> set new")
    case True
    then show ?thesis using new by blast
  next
    case False
    then have a: "a \<in> ?D - set visited" using that D(1) by auto
    then have "v \<in> ?D - set visited" using ok(2,3) q(2) assms(4) by auto
    then show ?thesis using wait a by blast
  qed
  have "(a, b) \<in> ?T'\<^sup>*" if "a \<in> ?D' - set (v # visited)" "b \<in> ?D' - set (v # visited)" for a b
    using to_v [OF that(1)] to_v [OF that(2)] sym' by (meson rtrancl_trans symD)
  moreover have "(v, b) \<in> ?T'\<^sup>*" if b: "(v, b) \<in> adj_edges adj" for b
  proof (cases "b \<in> set new")
    case True
    then show ?thesis using new by blast
  next
    case False
    then have bD: "b \<in> ?D" using b assms(6) by (auto simp: adj_row_set)
    show ?thesis
    proof (cases "b \<in> set visited")
      case True
      then show ?thesis using past [of b v] b adj_edges_ok(1) [OF assms(2)] sym' by (meson symD)
    next
      case False
      then have "b \<in> ?D' - set (v # visited)" using bD D(2) b adj_edges_ok(2) [OF assms(2)] by auto
      then show ?thesis using to_v sym' by (meson symD)
    qed
  qed
  moreover have "set (sort new @ f) \<subseteq> ?D'" "?D' - set (v # visited) \<subseteq> set (sort new @ f)"
    using fD D unfolding set_append set_sort list.set(2) by blast+
  ultimately have "search_ok adj (sort new @ f) r (v # visited) tree'" using assms(5) past unfolding search_ok_def by auto
  then show ?thesis using q(1) by (intro exI [of _ "sort new @ f"] exI [of _ r]) simp
qed

lemma st_loop_ok:
  assumes "adj_ok adj"
  shows "sort new @ q = front @ rest \<Longrightarrow> search_ok adj front rest visited tree \<Longrightarrow>
    \<exists>tree' visited'. st_loop adj new q visited tree = Inr tree' \<and> search_ok adj [] [] visited' tree' \<and> set new \<union> set q \<union> set visited \<subseteq> set visited'"
  using assms
proof (induction adj new q visited tree arbitrary: front rest rule: st_loop.induct)
  case (1 adj new q visited tree)
  have set: "set new \<union> set q = set (sort new @ q)" by simp
  show ?case
  proof (cases "sort new @ q")
    case Nil
    then have "st_loop adj new q visited tree = Inr tree" by (subst st_loop.simps) (simp only: list.case)
    moreover have "front = []" "rest = []" using Nil 1(3) by auto
    ultimately show ?thesis using 1(4) set Nil by (intro exI [of _ tree] exI [of _ visited]) simp
  next
    case (Cons v q')
    have fr: "front @ rest = v # q'" using Cons 1(3) by simp
    show ?thesis
    proof (cases "v \<in> set visited")
      case True
      obtain f r where f: "q' = f @ r" "search_ok adj f r visited tree" using search_ok_skip [OF 1(4) fr True] by blast
      have "sort [] @ q' = f @ r" using f(1) by simp
      from 1(1) [OF Cons True this f(2) 1(5)] obtain tree' visited' where
        "st_loop adj [] q' visited tree = Inr tree'" "search_ok adj [] [] visited' tree'" "set [] \<union> set q' \<union> set visited \<subseteq> set visited'" by blast
      then show ?thesis using Cons True set by (intro exI [of _ tree'] exI [of _ visited']) (auto simp: st_loop.simps [of adj new])
    next
      case False
      obtain new' tree1 where e: "st_expand adj v (adj_row adj v) [] tree = Inr (new', tree1)" "tree_ok adj tree1"
        "set new' = set (adj_row adj v) - dom (map_of tree)" "tree_edges tree1 = tree_edges tree \<union> {v} \<times> set new' \<union> set new' \<times> {v}"
        using st_expand_ok [OF 1(5), of tree "adj_row adj v" v "[]"] 1(4) by (auto simp: search_ok_def adj_row_set)
      obtain f r where f: "sort new' @ q' = f @ r" "search_ok adj f r (v # visited) tree1"
        using search_ok_expand [OF 1(4,5) fr False e(2-4)] by blast
      from 1(2) [OF Cons False e(1) refl f 1(5)] obtain tree' visited' where
        "st_loop adj new' q' (v # visited) tree1 = Inr tree'" "search_ok adj [] [] visited' tree'" "set new' \<union> set q' \<union> set (v # visited) \<subseteq> set visited'" by blast
      then show ?thesis using Cons False e(1) set by (intro exI [of _ tree'] exI [of _ visited']) (auto simp: st_loop.simps [of adj new])
    qed
  qed
qed

text \<open>All together: the search over the culled links\<close>

lemma link_switches_set: "set (link_switches ls) = link_dpid1 ` set ls \<union> link_dpid2 ` set ls"
  by (auto simp: link_switches_def)

lemma calc_ok:
  assumes "mset (link_order known) = mset known" "\<forall>ds. mset (sw_order ds) = mset ds" "\<forall>l\<in>set known. link_dpid1 l \<noteq> link_dpid2 l"
  shows "\<exists>adj tree. calc_spanning_tree link_order sw_order known = Inr tree \<and> adj_ok adj \<and> tree_ok adj tree
    \<and> (\<forall>a b p. map_of adj (a, b) = Some (Port p) \<longrightarrow> (\<exists>q. map_of adj (b, a) = Some (Port q) \<and> joined (set known) a p b q))
    \<and> (\<forall>a b. (a, b) \<in> adj_edges adj \<longleftrightarrow> (\<exists>p. both_ways (set known) a b p))
    \<and> (\<forall>a b. (a, b) \<in> adj_edges adj \<longrightarrow> (a, b) \<in> (tree_edges tree)\<^sup>*)"
proof -
  let ?K = "set known" and ?ls = "link_order known" and ?S = "sw_order (link_switches known)"
  have sets: "set ?ls = ?K" "set ?S = link_dpid1 ` ?K \<union> link_dpid2 ` ?K"
    using mset_eq_setD [OF assms(1)] mset_eq_setD [OF assms(2) [rule_format]] by (simp_all add: link_switches_set)
  let ?adj = "fold adj_append ?ls []"
  obtain adj where adj: "cull_all known (List.product ?S ?S) ?adj = Inr adj" "cull_ok ?K ?ls adj"
    "\<forall>e\<in>set ?S \<times> set ?S. no_list adj e" "\<forall>e. no_list ?adj e \<longrightarrow> no_list adj e"
    using cull_all_ok [OF refl sets(1) assms(3) cull_ok_start [OF sets(1)], of "List.product ?S ?S"] by auto
  have nl: "no_list adj (a, b)" for a b
  proof (cases "a \<in> set ?S \<and> b \<in> set ?S")
    case False
    then have "links_from ?ls a b = []" using sets by (auto simp: filter_empty_conv)
    then have "no_list ?adj (a, b)" by (simp add: no_list_def adj_built)
    then show ?thesis using adj(4) by blast
  qed (use adj(3) in blast)
  have port: "\<exists>p q. map_of adj (a, b) = Some (Port p) \<and> map_of adj (b, a) = Some (Port q) \<and> a \<noteq> b \<and> joined ?K a p b q" if e: "(a, b) \<in> adj_edges adj" for a b
  proof -
    obtain en where "map_of adj (a, b) = Some en" using e unfolding adj_edges_def mem_Collect_eq case_prod_conv not_None_eq by blast
    then obtain p where p: "map_of adj (a, b) = Some (Port p)" using nl [of a b] by (cases en) (auto simp: no_list_def)
    then show ?thesis using cull_okD(3) [OF adj(2) p] by blast
  qed
  have ok: "adj_ok adj" unfolding adj_ok_def using port by (fastforce simp: adj_edges_def)
  have edges: "(a, b) \<in> adj_edges adj \<longleftrightarrow> (\<exists>p. both_ways ?K a b p)" for a b
  proof
    assume "(a, b) \<in> adj_edges adj"
    then show "\<exists>p. both_ways ?K a b p" using port [of a b] by (auto simp: both_ways_joined)
  next
    assume "\<exists>p. both_ways ?K a b p"
    then show "(a, b) \<in> adj_edges adj" using cull_okD(1) [OF adj(2), of a b] by (auto simp: adj_edges_def)
  qed
  have start: "search_ok adj [] (sort ?S) [] []" by (auto simp: search_ok_def tree_ok_def tree_edges_def sym_def)
  have q: "sort ?S @ [] = [] @ sort ?S" by simp
  from st_loop_ok [OF ok q start] obtain tree visited where t: "st_loop adj ?S [] [] [] = Inr tree" "search_ok adj [] [] visited tree" "set ?S \<subseteq> set visited" by auto
  have "(a, b) \<in> (tree_edges tree)\<^sup>*" if e: "(a, b) \<in> adj_edges adj" for a b
  proof -
    have "a \<in> set ?S" using e sets(2) unfolding edges both_ways_def by auto
    then show ?thesis using t(2,3) e unfolding search_ok_def by blast
  qed
  moreover have "calc_spanning_tree link_order sw_order known = Inr tree" using adj(1) t(1) by (simp add: calc_spanning_tree_def)
  moreover have "tree_ok adj tree" using t(2) by (simp add: search_ok_def)
  moreover have "\<exists>q. map_of adj (b, a) = Some (Port q) \<and> joined ?K a p b q" if "map_of adj (a, b) = Some (Port p)" for a b p
    using cull_okD(3) [OF adj(2) that] by blast
  ultimately show ?thesis using ok edges by blast
qed

section \<open>Telling the switches\<close>

text \<open>What can be said to a switch: its ports have numbers and addresses that fit.\<close>

definition phys_ok :: "ofp_phy_port list \<Rightarrow> bool" where
  "phys_ok phys \<longleftrightarrow> (\<forall>p\<in>set phys. 0 \<le> pp_port_no p \<and> hw_len (pp_hw_addr p) = 6 \<and> eth_raw_ok (hw_raw (pp_hw_addr p)))"

text \<open>
  What the bytes sent to the switches say: a port modification that sets the flag of flooding tells whether the port is to flood, and of what a
  port was told the last message counts.
\<close>

definition port_told :: "bytes \<Rightarrow> (int \<times> bool) option" where
  "port_told b = (case ofp_port_mod_unpack ofp_port_mod_init b of
     Inr (m, []) \<Rightarrow> if length b = 32 \<and> header_type m = OFPT_PORT_MOD \<and> and (pm_mask m) OFPPC_NO_FLOOD \<noteq> 0
       then Some (pm_port_no m, and (pm_config m) OFPPC_NO_FLOOD = 0) else None
   | _ \<Rightarrow> None)"

definition told_log :: "(nat \<times> bytes) list \<Rightarrow> ((nat \<times> int) \<times> bool) list" where
  "told_log ms = concat (map (\<lambda>(c, b). case port_told b of None \<Rightarrow> [] | Some (port, f) \<Rightarrow> [((c, port), f)]) ms)"

definition last_told :: "(nat \<times> bytes) list \<Rightarrow> nat \<Rightarrow> int \<Rightarrow> bool option" where
  "last_told ms c port = map_of (rev (told_log ms)) (c, port)"

lemma last_told_snoc: "port_told b = Some (port', f) \<Longrightarrow>
  last_told (ms @ [(c', b)]) c port = (if c = c' \<and> port = port' then Some f else last_told ms c port)"
  by (simp add: last_told_def told_log_def)

text \<open>What is remembered of a connected switch agrees with what was last said on its connection.\<close>

definition told_agrees :: "(dpid \<Rightarrow> (nat \<times> ofp_phy_port list) option) \<Rightarrow> ((dpid \<times> int) \<times> bool) list \<Rightarrow> (nat \<times> bytes) list \<Rightarrow> bool" where
  "told_agrees cons prev ms \<longleftrightarrow> (\<forall>d c phys port f. cons d = Some (c, phys) \<longrightarrow> map_of prev (d, port) = Some f \<longrightarrow> last_told ms c port = Some f)"

text \<open>Each switch has a connection of its own, which is up.\<close>

definition own_cons :: "(dpid \<Rightarrow> (nat \<times> ofp_phy_port list) option) \<Rightarrow> nat list \<Rightarrow> bool" where
  "own_cons cons down \<longleftrightarrow> (\<forall>d c phys. cons d = Some (c, phys) \<longrightarrow> c \<notin> set down \<and> (\<forall>d' phys'. cons d' = Some (c, phys') \<longrightarrow> d' = d))"

abbreviation keeps_agreement :: "(dpid \<Rightarrow> (nat \<times> ofp_phy_port list) option) \<Rightarrow> spanning \<Rightarrow> ((dpid \<times> int) \<times> bool) list \<Rightarrow> (nat \<times> bytes) list \<Rightarrow> bool" where
  "keeps_agreement cons s prev bs \<equiv>
     (own_cons cons (nx_disconnected s) \<longrightarrow> told_agrees cons (st_prev s) (nx_sent s) \<longrightarrow> told_agrees cons prev (nx_sent s @ bs))"

lemma prev_of_spanning: "st_prev (s\<lparr>nx_sent := b, nx_nextXID := n, st_prev := p\<rparr>) = p"
  by (cases s) simp

lemma flood_mod_packs:
  assumes "xid_ok nx" "0 \<le> pp_port_no p" "pp_port_no p < OFPP_MAX" "hw_len (pp_hw_addr p) = 6" "eth_raw_ok (hw_raw (pp_hw_addr p))"
  shows "\<exists>b m'. port_mod_bytes nx (flood_mod p f) = Inr (b, m', snd (generateXID nx)) \<and> port_told b = Some (pp_port_no p, f)"
proof -
  have "\<exists>b m'. ofp_port_mod_pack True nx (flood_mod p f) = Inr (Some b, m', snd (generateXID nx)) \<and> header_type m' = OFPT_PORT_MOD
    \<and> pm_mask m' = OFPPC_NO_FLOOD \<and> pm_port_no m' = pp_port_no p \<and> pm_config m' = (if f then 0 else OFPPC_NO_FLOOD)"
    using assms
    by (cases f; simp add: ofp_port_mod_pack_def flood_mod_def msg_pack_def ofp_port_mod_init_def ofp_header_pack_def assign_xid_def
      generateXID_def Let_def ofp_header_assert_def ofp_type_known_iff struct_pack.simps in_range_def xid_ok_def and_mask32)
  then obtain b m' where b: "ofp_port_mod_pack True nx (flood_mod p f) = Inr (Some b, m', snd (generateXID nx))"
    "header_type m' = OFPT_PORT_MOD" "pm_mask m' = OFPPC_NO_FLOOD" "pm_port_no m' = pp_port_no p" "pm_config m' = (if f then 0 else OFPPC_NO_FLOOD)"
    by blast
  have "pm_hw_addr (flood_mod p f) = pp_hw_addr p" by (simp add: flood_mod_def)
  then have "length b = 32" "ofp_port_mod_unpack ofp_port_mod_init b = Inr (m'\<lparr>pm_hw_addr := HwEth (EthAddr (hw_raw (pp_hw_addr p)))\<rparr>, [])"
    using ofp_port_mod_wire [OF b(1), of ofp_port_mod_init "[]"] assms(5) by simp_all
  then have "port_told b = Some (pp_port_no p, f)" using b(2-5) by (simp add: port_told_def)
  then show ?thesis using b(1) by (simp add: port_mod_bytes_def)
qed

lemma push_port_ok:
  assumes "xid_ok (nx_nextXID s)" "0 \<le> pp_port_no p" "hw_len (pp_hw_addr p) = 6" "eth_raw_ok (hw_raw (pp_hw_addr p))" "cons sw = Some (con, phys)"
  shows "\<exists>bs nx prev. push_port con sw tp p s = (Inr (), s\<lparr>nx_sent := nx_sent s @ bs, nx_nextXID := nx, st_prev := prev\<rparr>) \<and> xid_ok nx
    \<and> (\<forall>k. map_of prev k = (if k = (sw, pp_port_no p) \<and> pp_port_no p < OFPP_MAX then Some (should_flood (known_links s) sw tp (pp_port_no p)) else map_of (st_prev s) k))
    \<and> keeps_agreement cons s prev bs"
proof -
  let ?f = "should_flood (known_links s) sw tp (pp_port_no p)"
  have same: "s\<lparr>nx_sent := nx_sent s @ [], nx_nextXID := nx_nextXID s, st_prev := st_prev s\<rparr> = s" by simp
  consider (high) "\<not> pp_port_no p < OFPP_MAX" | (told) "pp_port_no p < OFPP_MAX" "map_of (st_prev s) (sw, pp_port_no p) = Some ?f"
    | (tell) "pp_port_no p < OFPP_MAX" "map_of (st_prev s) (sw, pp_port_no p) \<noteq> Some ?f" by blast
  then show ?thesis
  proof cases
    case high
    then have "push_port con sw tp p s = (Inr (), s)" by (simp add: push_port_def sm_simps)
    then show ?thesis using assms(1) high same by (intro exI [of _ "[]"] exI [of _ "nx_nextXID s"] exI [of _ "st_prev s"]) simp
  next
    case told
    then have "push_port con sw tp p s = (Inr (), s)" by (simp add: push_port_def sm_simps Let_def)
    then show ?thesis using assms(1) told same by (intro exI [of _ "[]"] exI [of _ "nx_nextXID s"] exI [of _ "st_prev s"]) auto
  next
    case tell
    let ?prev = "AList.update (sw, pp_port_no p) ?f (st_prev s)"
    obtain b m' where b: "port_mod_bytes (nx_nextXID s) (flood_mod p ?f) = Inr (b, m', snd (generateXID (nx_nextXID s)))"
      "port_told b = Some (pp_port_no p, ?f)"
      using flood_mod_packs [OF assms(1,2) tell(1) assms(3,4)] by blast
    have k: "map_of ?prev k = (if k = (sw, pp_port_no p) \<and> pp_port_no p < OFPP_MAX then Some ?f else map_of (st_prev s) k)" for k
      using tell(1) by (simp add: update_conv')
    show ?thesis
    proof (cases "con \<in> set (nx_disconnected s)")
      case True
      then have "push_port con sw tp p s = (Inr (), s\<lparr>nx_sent := nx_sent s @ [], nx_nextXID := nx_nextXID s, st_prev := ?prev\<rparr>)"
        using tell by (simp add: push_port_def sm_simps Let_def connection_send_def)
      moreover have "keeps_agreement cons s ?prev []" using True assms(5) unfolding own_cons_def by blast
      ultimately show ?thesis using assms(1) k by blast
    next
      case False
      then have "push_port con sw tp p s = (Inr (), s\<lparr>nx_sent := nx_sent s @ [(con, b)], nx_nextXID := snd (generateXID (nx_nextXID s)), st_prev := ?prev\<rparr>)"
        using tell b(1) by (simp add: push_port_def sm_simps Let_def connection_send_def)
      moreover have "keeps_agreement cons s ?prev [(con, b)]"
        using assms(5) k tell(1) unfolding told_agrees_def own_cons_def last_told_snoc [OF b(2)] by (auto split: if_split_asm)
      ultimately show ?thesis using generateXID_ok [OF assms(1)] k by blast
    qed
  qed
qed

text \<open>All ports of a switch, and all switches\<close>

definition told :: "ofp_phy_port list \<Rightarrow> int \<Rightarrow> bool" where
  "told phys port \<longleftrightarrow> port < OFPP_MAX \<and> port \<in> pp_port_no ` set phys"

lemma push_phys_ok:
  "phys_ok phys \<Longrightarrow> cons sw = Some (con, phys0) \<Longrightarrow> xid_ok (nx_nextXID s) \<Longrightarrow>
   \<exists>bs nx prev. sfor (push_port con sw tp) phys s = (Inr (), s\<lparr>nx_sent := nx_sent s @ bs, nx_nextXID := nx, st_prev := prev\<rparr>) \<and> xid_ok nx
     \<and> (\<forall>d port. map_of prev (d, port) = (if d = sw \<and> told phys port then Some (should_flood (known_links s) sw tp port) else map_of (st_prev s) (d, port)))
     \<and> keeps_agreement cons s prev bs"
proof (induction phys arbitrary: s)
  case Nil
  then show ?case by (intro exI [of _ "[]"] exI [of _ "nx_nextXID s"] exI [of _ "st_prev s"]) (simp add: sret_def told_def)
next
  case (Cons p phys)
  have p: "0 \<le> pp_port_no p" "hw_len (pp_hw_addr p) = 6" "eth_raw_ok (hw_raw (pp_hw_addr p))" "phys_ok phys" using Cons.prems(1) by (auto simp: phys_ok_def)
  obtain bs nx prev where s1: "push_port con sw tp p s = (Inr (), s\<lparr>nx_sent := nx_sent s @ bs, nx_nextXID := nx, st_prev := prev\<rparr>)" "xid_ok nx"
    "\<forall>k. map_of prev k = (if k = (sw, pp_port_no p) \<and> pp_port_no p < OFPP_MAX then Some (should_flood (known_links s) sw tp (pp_port_no p)) else map_of (st_prev s) k)"
    "keeps_agreement cons s prev bs"
    using push_port_ok [where tp = tp and cons = cons, OF Cons.prems(3) p(1-3) Cons.prems(2)] by blast
  let ?s = "s\<lparr>nx_sent := nx_sent s @ bs, nx_nextXID := nx, st_prev := prev\<rparr>"
  obtain bs' nx' prev' where s2: "sfor (push_port con sw tp) phys ?s = (Inr (), ?s\<lparr>nx_sent := nx_sent ?s @ bs', nx_nextXID := nx', st_prev := prev'\<rparr>)" "xid_ok nx'"
    "\<forall>d port. map_of prev' (d, port) = (if d = sw \<and> told phys port then Some (should_flood (known_links ?s) sw tp port) else map_of (st_prev ?s) (d, port))"
    "keeps_agreement cons ?s prev' bs'"
    using Cons.IH [OF p(4) Cons.prems(2), of ?s] s1(2) by auto
  have "map_of prev' (d, port) = (if d = sw \<and> told (p # phys) port then Some (should_flood (known_links s) sw tp port) else map_of (st_prev s) (d, port))" for d port
    using s1(3) s2(3) unfolding prev_of_spanning by (auto simp: told_def)
  moreover have "keeps_agreement cons s prev' (bs @ bs')" using s1(4) s2(4) by (simp add: prev_of_spanning)
  ultimately show ?case using s1(1) s2(1,2) by (intro exI [of _ "bs @ bs'"] exI [of _ nx'] exI [of _ prev']) (simp add: sm_simps)
qed

definition cons_ok :: "(dpid \<Rightarrow> (nat \<times> ofp_phy_port list) option) \<Rightarrow> bool" where
  "cons_ok cons \<longleftrightarrow> (\<forall>d c phys. cons d = Some (c, phys) \<longrightarrow> phys_ok phys)"

text \<open>What the switches of a tree should have been told\<close>

definition wanted :: "link list \<Rightarrow> (dpid \<Rightarrow> (nat \<times> ofp_phy_port list) option) \<Rightarrow> st_tree \<Rightarrow> dpid \<Rightarrow> int \<Rightarrow> bool option" where
  "wanted known cons tree d port = (case (map_of tree d, cons d) of
     (Some es, Some (c, phys)) \<Rightarrow> if told phys port then Some (should_flood known d (map snd es) port) else None
   | _ \<Rightarrow> None)"

lemma push_items_ok:
  "cons_ok cons \<Longrightarrow> distinct (map fst items) \<Longrightarrow> xid_ok (nx_nextXID s) \<Longrightarrow>
   \<exists>bs nx prev. sfor (push_switch cons) items s = (Inr (), s\<lparr>nx_sent := nx_sent s @ bs, nx_nextXID := nx, st_prev := prev\<rparr>) \<and> xid_ok nx
     \<and> (\<forall>d port. map_of prev (d, port) = (case wanted (known_links s) cons items d port of Some f \<Rightarrow> Some f | None \<Rightarrow> map_of (st_prev s) (d, port)))
     \<and> keeps_agreement cons s prev bs"
proof (induction items arbitrary: s)
  case Nil
  then show ?case by (intro exI [of _ "[]"] exI [of _ "nx_nextXID s"] exI [of _ "st_prev s"]) (simp add: sret_def wanted_def)
next
  case (Cons e items)
  obtain sw es where [simp]: "e = (sw, es)" by (cases e)
  have new: "map_of items sw = None" "distinct (map fst items)" using Cons.prems(2) by (auto simp: map_of_eq_None_iff)
  obtain bs nx prev where s1: "push_switch cons e s = (Inr (), s\<lparr>nx_sent := nx_sent s @ bs, nx_nextXID := nx, st_prev := prev\<rparr>)" "xid_ok nx"
    "\<forall>d port. map_of prev (d, port) = (case wanted (known_links s) cons [e] d port of Some f \<Rightarrow> Some f | None \<Rightarrow> map_of (st_prev s) (d, port))"
    "keeps_agreement cons s prev bs"
  proof (cases "cons sw")
    case None
    then show ?thesis using that [where bs = "[]" and nx = "nx_nextXID s" and prev = "st_prev s"] Cons.prems(3) by (auto simp: push_switch_def sret_def wanted_def split: if_split_asm)
  next
    case (Some cp)
    obtain c phys where [simp]: "cp = (c, phys)" by (cases cp)
    have "phys_ok phys" using Cons.prems(1) Some by (auto simp: cons_ok_def)
    then obtain bs nx prev where "sfor (push_port c sw (map snd es)) phys s = (Inr (), s\<lparr>nx_sent := nx_sent s @ bs, nx_nextXID := nx, st_prev := prev\<rparr>)" "xid_ok nx"
      "\<forall>d port. map_of prev (d, port) = (if d = sw \<and> told phys port then Some (should_flood (known_links s) sw (map snd es) port) else map_of (st_prev s) (d, port))"
      "keeps_agreement cons s prev bs"
      using push_phys_ok [where cons = cons and con = c and tp = "map snd es", OF _ _ Cons.prems(3)] Some by force
    then show ?thesis using that [where bs = bs and nx = nx and prev = prev] Some by (simp add: push_switch_def wanted_def)
  qed
  let ?s = "s\<lparr>nx_sent := nx_sent s @ bs, nx_nextXID := nx, st_prev := prev\<rparr>"
  obtain bs' nx' prev' where s2: "sfor (push_switch cons) items ?s = (Inr (), ?s\<lparr>nx_sent := nx_sent ?s @ bs', nx_nextXID := nx', st_prev := prev'\<rparr>)" "xid_ok nx'"
    "\<forall>d port. map_of prev' (d, port) = (case wanted (known_links ?s) cons items d port of Some f \<Rightarrow> Some f | None \<Rightarrow> map_of (st_prev ?s) (d, port))"
    "keeps_agreement cons ?s prev' bs'"
    using Cons.IH [OF Cons.prems(1) new(2), of ?s] s1(2) by auto
  have "map_of prev' (d, port) = (case wanted (known_links s) cons (e # items) d port of Some f \<Rightarrow> Some f | None \<Rightarrow> map_of (st_prev s) (d, port))" for d port
  proof (cases "d = sw")
    case True
    then have "wanted (known_links s) cons items d port = None" "wanted (known_links s) cons (e # items) d port = wanted (known_links s) cons [e] d port"
      using new(1) by (simp_all add: wanted_def)
    then show ?thesis using s1(3) s2(3) unfolding prev_of_spanning by simp
  next
    case False
    then have "wanted (known_links s) cons [e] d port = None" "wanted (known_links s) cons (e # items) d port = wanted (known_links s) cons items d port"
      by (simp_all add: wanted_def)
    then show ?thesis using s1(3) s2(3) unfolding prev_of_spanning by (simp split: option.split)
  qed
  moreover have "keeps_agreement cons s prev' (bs @ bs')" using s1(4) s2(4) by (simp add: prev_of_spanning)
  ultimately show ?case using s1(1) s2(1,2) by (intro exI [of _ "bs @ bs'"] exI [of _ nx'] exI [of _ prev']) (simp add: sm_simps)
qed

lemma sfor_same: "\<forall>x\<in>set xs. f x s = (Inr (), s) \<Longrightarrow> sfor f xs s = (Inr (), s)"
  by (induction xs) (simp_all add: sm_simps)

lemma wanted_perm: "mset items = mset tree \<Longrightarrow> distinct (map fst tree) \<Longrightarrow> wanted known cons items = wanted known cons tree"
proof -
  assume m: "mset items = mset tree" "distinct (map fst tree)"
  then have "distinct (map fst items)" using mset_eq_imp_distinct_iff [of "map fst items" "map fst tree"] by simp
  then have "map_of items = map_of tree" using m mset_eq_setD [OF m(1)] map_of_inject_set by blast
  then show ?thesis by (intro ext) (simp add: wanted_def)
qed

text \<open>The handler, when no switch is linked to itself\<close>

lemma st_handle_ok:
  assumes "calc_spanning_tree link_order sw_order (known_links s) = Inr tree" "distinct (map fst tree)"
    and "mset (item_order tree) = mset tree" "cons_ok cons" "xid_ok (nx_nextXID s)"
  shows "\<exists>bs nx prev. st_handle link_order sw_order item_order cons s = (Inr (), s\<lparr>nx_sent := nx_sent s @ bs, nx_nextXID := nx, st_prev := prev\<rparr>)
    \<and> (\<forall>d port. map_of prev (d, port) = (case wanted (known_links s) cons tree d port of Some f \<Rightarrow> Some f | None \<Rightarrow> map_of (st_prev s) (d, port)))
    \<and> keeps_agreement cons s prev bs"
proof -
  have d: "distinct (map fst (item_order tree))"
    using assms(2,3) mset_eq_imp_distinct_iff [of "map fst (item_order tree)" "map fst tree"] by simp
  from push_items_ok [OF assms(4) d assms(5)] obtain bs nx prev where
    "sfor (push_switch cons) (item_order tree) s = (Inr (), s\<lparr>nx_sent := nx_sent s @ bs, nx_nextXID := nx, st_prev := prev\<rparr>)"
    "\<forall>d port. map_of prev (d, port) = (case wanted (known_links s) cons tree d port of Some f \<Rightarrow> Some f | None \<Rightarrow> map_of (st_prev s) (d, port))"
    "keeps_agreement cons s prev bs"
    unfolding wanted_perm [OF assms(3,2)] by blast
  then show ?thesis using assms(1)
    by (intro exI [of _ bs] exI [of _ nx] exI [of _ prev]) (simp add: st_handle_def sexcept_def sm_simps)
qed

text \<open>The two ends of the links, each as a port that leads to a switch\<close>

abbreviation link_ends :: "link list \<Rightarrow> link set" where
  "link_ends known \<equiv> set known \<union> flip ` set known"

text \<open>A port leads to one switch, and is a port of a switch that is connected.\<close>

definition ports_ok :: "link list \<Rightarrow> (dpid \<Rightarrow> (nat \<times> ofp_phy_port list) option) \<Rightarrow> bool" where
  "ports_ok known cons \<longleftrightarrow> (\<forall>l\<in>link_ends known. \<exists>c phys. cons (link_dpid1 l) = Some (c, phys) \<and> told phys (link_port1 l))
     \<and> (\<forall>l\<in>link_ends known. \<forall>l'\<in>link_ends known. link_dpid1 l = link_dpid1 l' \<longrightarrow> link_port1 l = link_port1 l' \<longrightarrow> link_dpid2 l = link_dpid2 l')"

text \<open>What a port was last told, on the connection of its switch\<close>

definition said :: "(dpid \<Rightarrow> (nat \<times> ofp_phy_port list) option) \<Rightarrow> (nat \<times> bytes) list \<Rightarrow> dpid \<Rightarrow> int \<Rightarrow> bool option" where
  "said cons ms d port = (case cons d of None \<Rightarrow> None | Some (c, phys) \<Rightarrow> last_told ms c port)"

text \<open>A broadcast goes over a link, in either direction, when its ends were not told to leave it out.\<close>

definition flood_links :: "link list \<Rightarrow> (dpid \<Rightarrow> int \<Rightarrow> bool option) \<Rightarrow> link set" where
  "flood_links known say = {l \<in> link_ends known. say (link_dpid1 l) (link_port1 l) \<noteq> Some False \<and> say (link_dpid2 l) (link_port2 l) \<noteq> Some False}"

definition ends_of :: "link \<Rightarrow> dpid \<times> dpid" where
  "ends_of l = (link_dpid1 l, link_dpid2 l)"

lemma link_ends_flip: "l \<in> link_ends known \<Longrightarrow> flip l \<in> link_ends known"
  by auto

lemma end_only_port: "l \<in> link_ends known \<Longrightarrow> isSwitchOnlyPort known (link_dpid1 l) (link_port1 l)"
  by (auto simp: isSwitchOnlyPort_def list_ex_iff)

lemma flood_links_tree:
  assumes ports: "ports_ok known cons" and entry: "\<And>v es w p. map_of tree v = Some es \<Longrightarrow> (w, p) \<in> set es \<Longrightarrow>
      \<exists>es' q. map_of tree w = Some es' \<and> (v, q) \<in> set es' \<and> joined (set known) v p w q"
    and one: "\<And>v es w p p'. map_of tree v = Some es \<Longrightarrow> (w, p) \<in> set es \<Longrightarrow> (w, p') \<in> set es \<Longrightarrow> p = p'"
    and say: "\<And>d port f. wanted known cons tree d port = Some f \<Longrightarrow> say d port = Some f"
  defines "L \<equiv> {l \<in> flood_links known say. link_dpid1 l \<in> dom (map_of tree) \<or> link_dpid2 l \<in> dom (map_of tree)}"
  shows "ends_of ` L = tree_edges tree \<and> inj_on ends_of L"
proof -
  have uniq: "link_dpid2 l = link_dpid2 l'" if "l \<in> link_ends known" "l' \<in> link_ends known" "link_dpid1 l = link_dpid1 l'" "link_port1 l = link_port1 l'" for l l'
    using ports that unfolding ports_ok_def by blast
  have want: "say (link_dpid1 l) (link_port1 l) = Some (link_port1 l \<in> snd ` set es)"
    if l: "l \<in> link_ends known" and es: "map_of tree (link_dpid1 l) = Some es" for l es
  proof -
    obtain c phys where "cons (link_dpid1 l) = Some (c, phys)" "told phys (link_port1 l)" using ports l unfolding ports_ok_def by blast
    then have "wanted known cons tree (link_dpid1 l) (link_port1 l) = Some (should_flood known (link_dpid1 l) (map snd es) (link_port1 l))"
      using es by (simp add: wanted_def)
    then show ?thesis using say end_only_port [OF l] by (simp add: should_flood_def)
  qed
  have along: "\<exists>es. map_of tree (link_dpid1 l) = Some es \<and> (link_dpid2 l, link_port1 l) \<in> set es"
    if l: "l \<in> link_ends known" "link_dpid1 l \<in> dom (map_of tree)" and f: "say (link_dpid1 l) (link_port1 l) \<noteq> Some False" for l
  proof -
    obtain es where es: "map_of tree (link_dpid1 l) = Some es" using l(2) by blast
    then obtain w where w: "(w, link_port1 l) \<in> set es" using want [OF l(1)] f by force
    obtain q where "joined (set known) (link_dpid1 l) (link_port1 l) w q" using entry [OF es w] by blast
    then have "\<lparr>link_dpid1 = link_dpid1 l, link_port1 = link_port1 l, link_dpid2 = w, link_port2 = q\<rparr> \<in> link_ends known" by (auto simp: joined_def)
    from uniq [OF l(1) this] have "link_dpid2 l = w" by simp
    then show ?thesis using es w by auto
  qed
  have both: "\<exists>es es'. map_of tree (link_dpid1 l) = Some es \<and> (link_dpid2 l, link_port1 l) \<in> set es
      \<and> map_of tree (link_dpid2 l) = Some es' \<and> (link_dpid1 l, link_port2 l) \<in> set es'" if "l \<in> L" for l
  proof -
    have l: "l \<in> link_ends known" "say (link_dpid1 l) (link_port1 l) \<noteq> Some False" "say (link_dpid2 l) (link_port2 l) \<noteq> Some False"
      "link_dpid1 l \<in> dom (map_of tree) \<or> link_dpid2 l \<in> dom (map_of tree)"
      using that unfolding L_def flood_links_def by auto
    have there: "\<exists>es. map_of tree (link_dpid1 l) = Some es \<and> (link_dpid2 l, link_port1 l) \<in> set es" if "link_dpid1 l \<in> dom (map_of tree)"
      using along [OF l(1) that l(2)] .
    have homeward: "\<exists>es. map_of tree (link_dpid2 l) = Some es \<and> (link_dpid1 l, link_port2 l) \<in> set es" if "link_dpid2 l \<in> dom (map_of tree)"
      using along [OF link_ends_flip [OF l(1)]] that l(3) by simp
    have "link_dpid1 l \<in> dom (map_of tree)" "link_dpid2 l \<in> dom (map_of tree)" using l(4) there homeward entry by blast+
    then show ?thesis using there homeward by blast
  qed
  have "inj_on ends_of L"
  proof (rule inj_onI)
    fix l l' assume l: "l \<in> L" "l' \<in> L" "ends_of l = ends_of l'"
    then have "link_port1 l = link_port1 l'" "link_port2 l = link_port2 l'" using both [OF l(1)] both [OF l(2)] one by (fastforce simp: ends_of_def)+
    then show "l = l'" using l(3) by (simp add: ends_of_def)
  qed
  moreover have "ends_of ` L = tree_edges tree"
  proof (intro subset_antisym subsetI)
    fix x assume "x \<in> ends_of ` L"
    then obtain l where l: "x = (link_dpid1 l, link_dpid2 l)" "l \<in> L" by (auto simp: ends_of_def)
    then show "x \<in> tree_edges tree" using both [OF l(2)] by (auto simp: tree_edges_def)
  next
    fix x assume "x \<in> tree_edges tree"
    then obtain a b es p where x: "x = (a, b)" "map_of tree a = Some es" "(b, p) \<in> set es" by (auto simp: tree_edges_def)
    obtain es' q where q: "map_of tree b = Some es'" "(a, q) \<in> set es'" "joined (set known) a p b q" using entry [OF x(2,3)] by blast
    let ?l = "\<lparr>link_dpid1 = a, link_port1 = p, link_dpid2 = b, link_port2 = q\<rparr>" and ?r = "\<lparr>link_dpid1 = b, link_port1 = q, link_dpid2 = a, link_port2 = p\<rparr>"
    have l: "?l \<in> link_ends known" "?r \<in> link_ends known" using q(3) by (auto simp: joined_def)
    have "say a p = Some True" "say b q = Some True" using want [OF l(1)] want [OF l(2)] x q by force+
    then have "?l \<in> L" using l(1) x(2) unfolding L_def flood_links_def by auto
    then show "x \<in> ends_of ` L" using x(1) by (intro image_eqI [of _ _ ?l]) (simp_all add: ends_of_def)
  qed
  ultimately show ?thesis by blast
qed

lemma rtrancl_Field: "(a, b) \<in> R\<^sup>* \<Longrightarrow> a \<noteq> b \<Longrightarrow> a \<in> Field R \<and> b \<in> Field R"
  by (auto simp: Field_def elim: rtranclE converse_rtranclE)

text \<open>The computed tree, with all that is known of it\<close>

lemma calc_tree:
  assumes "mset (link_order known) = mset known" "\<forall>ds. mset (sw_order ds) = mset ds" "\<forall>l\<in>set known. link_dpid1 l \<noteq> link_dpid2 l"
  obtains tree where "calc_spanning_tree link_order sw_order known = Inr tree" "distinct (map fst tree)" "no_cycles (tree_edges tree)"
    "(tree_edges tree)\<^sup>* = {(a, b). \<exists>p. both_ways (set known) a b p}\<^sup>*" "dom (map_of tree) = Field {(a, b). \<exists>p. both_ways (set known) a b p}"
    "\<forall>v es w p. map_of tree v = Some es \<and> (w, p) \<in> set es \<longrightarrow>
        (\<exists>es' q. map_of tree w = Some es' \<and> (v, q) \<in> set es' \<and> joined (set known) v p w q)"
    "\<forall>v es w p p'. map_of tree v = Some es \<and> (w, p) \<in> set es \<and> (w, p') \<in> set es \<longrightarrow> p = p'"
proof -
  let ?G = "{(a, b). \<exists>p. both_ways (set known) a b p}"
  obtain adj tree where t: "calc_spanning_tree link_order sw_order known = Inr tree" "tree_ok adj tree"
    "\<forall>a b p. map_of adj (a, b) = Some (Port p) \<longrightarrow> (\<exists>q. map_of adj (b, a) = Some (Port q) \<and> joined (set known) a p b q)"
    "\<forall>a b. (a, b) \<in> adj_edges adj \<longleftrightarrow> (\<exists>p. both_ways (set known) a b p)" "\<forall>a b. (a, b) \<in> adj_edges adj \<longrightarrow> (a, b) \<in> (tree_edges tree)\<^sup>*" "adj_ok adj"
    using calc_ok [of link_order known sw_order, OF assms] by blast
  have port: "map_of adj (v, w) = Some (Port p)" if "map_of tree v = Some es" "(w, p) \<in> set es" for v es w p
    using t(2) that unfolding tree_ok_def by blast
  have entry: "\<exists>es' q. map_of tree w = Some es' \<and> (v, q) \<in> set es' \<and> joined (set known) v p w q" if e: "map_of tree v = Some es" "(w, p) \<in> set es" for v es w p
  proof -
    have "(v, w) \<in> tree_edges tree" using e by (auto simp: tree_edges_def)
    then have "(w, v) \<in> tree_edges tree" using t(2) by (auto simp: tree_ok_def dest: symD)
    then obtain es' q where q: "map_of tree w = Some es'" "(v, q) \<in> set es'" by (auto simp: tree_edges_def)
    have "map_of adj (w, v) = Some (Port q)" "map_of adj (v, w) = Some (Port p)" using port q e by blast+
    then show ?thesis using t(3) q by fastforce
  qed
  have adj_G: "?G = adj_edges adj" using t(4) by auto
  have sub: "tree_edges tree \<subseteq> ?G"
  proof
    fix x assume "x \<in> tree_edges tree"
    then obtain v w es p where x: "x = (v, w)" "map_of tree v = Some es" "(w, p) \<in> set es" by (auto simp: tree_edges_def)
    then have "(v, w) \<in> adj_edges adj" using port by (simp add: adj_edges_def)
    then show "x \<in> ?G" using t(4) x(1) by simp
  qed
  have "(tree_edges tree)\<^sup>* \<subseteq> ?G\<^sup>*" by (rule rtrancl_mono [OF sub])
  moreover have "?G \<subseteq> (tree_edges tree)\<^sup>*" using t(5) unfolding adj_G by auto
  then have "?G\<^sup>* \<subseteq> (tree_edges tree)\<^sup>*" by (rule rtrancl_subset_rtrancl)
  ultimately have G: "(tree_edges tree)\<^sup>* = ?G\<^sup>*" "tree_edges tree \<subseteq> ?G" using sub by auto
  have "Field ?G \<subseteq> Field (tree_edges tree)"
  proof
    fix a assume "a \<in> Field ?G"
    then obtain b where "(a, b) \<in> adj_edges adj \<or> (b, a) \<in> adj_edges adj" unfolding adj_G Field_def by auto
    then have "(a, b) \<in> adj_edges adj" using adj_edges_ok(1) [OF t(6)] by (auto dest: symD)
    then have "(a, b) \<in> (tree_edges tree)\<^sup>*" "a \<noteq> b" using t(5) adj_edges_ok(2) [OF t(6)] by simp_all
    then show "a \<in> Field (tree_edges tree)" using rtrancl_Field [of a b] by blast
  qed
  moreover have "Field (tree_edges tree) \<subseteq> Field ?G" using G(2) by (rule mono_Field)
  ultimately have "dom (map_of tree) = Field ?G" using t(2) unfolding tree_ok_def by auto
  moreover have "distinct (map fst tree)" "no_cycles (tree_edges tree)" using t(2) by (simp_all add: tree_ok_def)
  moreover have "\<forall>v es w p. map_of tree v = Some es \<and> (w, p) \<in> set es \<longrightarrow>
      (\<exists>es' q. map_of tree w = Some es' \<and> (v, q) \<in> set es' \<and> joined (set known) v p w q)" by (intro allI impI, elim conjE) (rule entry)
  moreover have "\<forall>v es w p p'. map_of tree v = Some es \<and> (w, p) \<in> set es \<and> (w, p') \<in> set es \<longrightarrow> p = p'"
  proof (intro allI impI, elim conjE)
    fix v es w p p' assume e: "map_of tree v = Some es" "(w, p) \<in> set es" "(w, p') \<in> set es"
    show "p = p'" using port [OF e(1,2)] port [OF e(1,3)] by simp
  qed
  ultimately show thesis using t(1) G(1) by (intro that [of tree])
qed

section \<open>Properties\<close>

text \<open>
  C12: The tree spans: unless a switch has a link to itself, the computation ends with a graph without cycles that joins exactly the switches that links
  known in both directions join, and every entry of it is a port of such a link, whose other end is an entry too.
\<close>

theorem spanning_tree_spans:
  assumes "mset (link_order known) = mset known" "\<forall>ds. mset (sw_order ds) = mset ds" "\<forall>l\<in>set known. link_dpid1 l \<noteq> link_dpid2 l"
  shows "\<exists>tree. calc_spanning_tree link_order sw_order known = Inr tree \<and> no_cycles (tree_edges tree)
    \<and> (tree_edges tree)\<^sup>* = {(a, b). \<exists>p. both_ways (set known) a b p}\<^sup>*
    \<and> (\<forall>v es w p. map_of tree v = Some es \<and> (w, p) \<in> set es \<longrightarrow>
        (\<exists>es' q. map_of tree w = Some es' \<and> (v, q) \<in> set es' \<and> joined (set known) v p w q))"
  by (rule calc_tree [of link_order known sw_order, OF assms]) (intro exI conjI)

text \<open>Three switches in a ring\<close>

definition ring_link :: "dpid \<Rightarrow> dpid \<Rightarrow> link" where
  "ring_link a b = \<lparr>link_dpid1 = a, link_port1 = b, link_dpid2 = b, link_port2 = a\<rparr>"

definition ring :: "link list" where
  "ring = [ring_link 1 2, ring_link 2 1, ring_link 2 3, ring_link 3 2, ring_link 1 3, ring_link 3 1]"

lemma ring_tree: "calc_spanning_tree (\<lambda>ls. ls) (\<lambda>ds. ds) ring = Inr [(1, [(3, 3), (2, 2)]), (2, [(1, 1)]), (3, [(1, 1)])]"
  by code_simp

theorem spanning_tree_spans_witness:
  "no_cycles {(1, 2), (1, 3), (2, 1), (3, 1 :: dpid)}"
proof -
  let ?tree = "[(1, [(3, 3), (2, 2)]), (2, [(1, 1)]), (3, [(1, 1)])] :: st_tree"
  have "\<forall>l\<in>set ring. link_dpid1 l \<noteq> link_dpid2 l" by (simp add: ring_def ring_link_def)
  then have "no_cycles (tree_edges ?tree)"
    using spanning_tree_spans [of "\<lambda>ls. ls" ring "\<lambda>ds. ds"] ring_tree by auto
  moreover have "tree_edges ?tree = {(1, 2), (1, 3), (2, 1), (3, 1)}" by (auto simp: tree_edges_def split: if_split_asm)
  ultimately show ?thesis by simp
qed

text \<open>
  C11: Broadcasts do not loop, by what the messages say.  Dictionaries and sets are iterated in any order; no switch is linked to itself; every end of a
  link is a port of a connected switch, which fits a port modification and leads to one switch; every switch has a connection of its own, which is up;
  and what is remembered of a port is what it was last told, as it is when nothing is remembered.  Then the handler returns, what is remembered is still
  what was told, and the links of the switches that have a link known in both directions, of which neither end was told last to leave broadcasts
  out, have no cycle, join what such links join, and are at most one for two switches; the ports of these switches that lead to no switch were
  told to flood.
\<close>

theorem flooding_without_loops:
  assumes "\<forall>ls. mset (link_order ls) = mset ls" "\<forall>ds. mset (sw_order ds) = mset ds" "\<forall>t. mset (item_order t) = mset t"
    and "\<forall>l\<in>set (known_links s). link_dpid1 l \<noteq> link_dpid2 l" "ports_ok (known_links s) cons" "cons_ok cons" "xid_ok (nx_nextXID s)"
    and "own_cons cons (nx_disconnected s)" "told_agrees cons (st_prev s) (nx_sent s)"
  shows "\<exists>s'. st_handle link_order sw_order item_order cons s = (Inr (), s') \<and> known_links s' = known_links s
    \<and> told_agrees cons (st_prev s') (nx_sent s')
    \<and> (let G = {(a, b). \<exists>p. both_ways (set (known_links s)) a b p}; say = said cons (nx_sent s');
           L = {l \<in> flood_links (known_links s) say. link_dpid1 l \<in> Field G \<or> link_dpid2 l \<in> Field G} in
         no_cycles (ends_of ` L) \<and> (ends_of ` L)\<^sup>* = G\<^sup>* \<and> inj_on ends_of L
         \<and> (\<forall>d c phys port. d \<in> Field G \<and> cons d = Some (c, phys) \<and> told phys port \<and> \<not> isSwitchOnlyPort (known_links s) d port \<longrightarrow> say d port = Some True))"
proof -
  let ?known = "known_links s" and ?G = "{(a, b). \<exists>p. both_ways (set (known_links s)) a b p}"
  obtain tree where t: "calc_spanning_tree link_order sw_order ?known = Inr tree" "distinct (map fst tree)" "no_cycles (tree_edges tree)"
    "(tree_edges tree)\<^sup>* = ?G\<^sup>*" "dom (map_of tree) = Field ?G"
    "\<forall>v es w p. map_of tree v = Some es \<and> (w, p) \<in> set es \<longrightarrow>
        (\<exists>es' q. map_of tree w = Some es' \<and> (v, q) \<in> set es' \<and> joined (set ?known) v p w q)"
    "\<forall>v es w p p'. map_of tree v = Some es \<and> (w, p) \<in> set es \<and> (w, p') \<in> set es \<longrightarrow> p = p'"
    by (rule calc_tree [of link_order ?known sw_order, OF assms(1) [rule_format] assms(2,4)])
  obtain bs nx prev where h: "st_handle link_order sw_order item_order cons s = (Inr (), s\<lparr>nx_sent := nx_sent s @ bs, nx_nextXID := nx, st_prev := prev\<rparr>)"
    "\<forall>d port. map_of prev (d, port) = (case wanted ?known cons tree d port of Some f \<Rightarrow> Some f | None \<Rightarrow> map_of (st_prev s) (d, port))"
    "told_agrees cons prev (nx_sent s @ bs)"
    using st_handle_ok [OF t(1,2) _ assms(6,7)] assms(3,8,9) by blast
  let ?s = "s\<lparr>nx_sent := nx_sent s @ bs, nx_nextXID := nx, st_prev := prev\<rparr>" and ?say = "said cons (nx_sent s @ bs)"
  have say: "?say d port = Some f" if "wanted ?known cons tree d port = Some f" for d port f
  proof -
    obtain c phys where c: "cons d = Some (c, phys)" using \<open>wanted ?known cons tree d port = Some f\<close> by (auto simp: wanted_def split: option.splits)
    have "map_of prev (d, port) = Some f" using h(2) that by simp
    then have "last_told (nx_sent s @ bs) c port = Some f" using h(3) c unfolding told_agrees_def by blast
    then show ?thesis using c by (simp add: said_def)
  qed
  let ?L = "{l \<in> flood_links ?known ?say. link_dpid1 l \<in> Field ?G \<or> link_dpid2 l \<in> Field ?G}"
  have L: "ends_of ` ?L = tree_edges tree \<and> inj_on ends_of ?L"
    unfolding t(5) [symmetric] by (rule flood_links_tree [OF assms(5)]) (use say t(6,7) in blast)+
  have "?say d port = Some True" if d: "d \<in> Field ?G" "cons d = Some (c, phys)" "told phys port" "\<not> isSwitchOnlyPort ?known d port" for d c phys port
  proof -
    obtain es where "map_of tree d = Some es" using d(1) unfolding t(5) [symmetric] by blast
    then show ?thesis using d(2-4) by (intro say) (simp add: wanted_def should_flood_def)
  qed
  then show ?thesis using h(1,3) L t(3,4) by (intro exI [of _ ?s]) (simp add: Let_def)
qed

theorem flooding_without_loops_witness:
  "let phys = map (\<lambda>n. ofp_phy_port_init\<lparr>pp_port_no := n, pp_hw_addr := HwEth ETHER_ANY\<rparr>) [1, 2, 3, 4];
       s = discovery.extend ((Discovery_init True False 1)\<lparr>dc_adjacency := map (\<lambda>l. (l, 0)) ring\<rparr>) \<lparr>st_prev = []\<rparr>;
       cons = (\<lambda>d. if d \<in> {1, 2, 3} then Some (nat d, phys) else None) in
   \<exists>s'. st_handle (\<lambda>ls. ls) (\<lambda>ds. ds) (\<lambda>t. t) cons s = (Inr (), s')
     \<and> no_cycles (ends_of ` {l \<in> flood_links ring (said cons (nx_sent s')). link_dpid1 l \<in> {1, 2, 3} \<or> link_dpid2 l \<in> {1, 2, 3}})
     \<and> said cons (nx_sent s') 2 4 = Some True"
proof -
  let ?phys = "map (\<lambda>n. ofp_phy_port_init\<lparr>pp_port_no := n, pp_hw_addr := HwEth ETHER_ANY\<rparr>) [1, 2, 3, 4]"
  let ?s = "discovery.extend ((Discovery_init True False 1)\<lparr>dc_adjacency := map (\<lambda>l. (l, 0)) ring\<rparr>) \<lparr>st_prev = []\<rparr>"
  let ?cons = "\<lambda>d :: dpid. if d \<in> {1, 2, 3} then Some (nat d, ?phys) else None" and ?G = "{(a, b). \<exists>p. both_ways (set ring) a b p}"
  have k: "known_links ?s = ring" "nx_nextXID ?s = 1" "nx_disconnected ?s = []" "st_prev ?s = []" by (simp_all add: Discovery_init_def discovery.defs comp_def)
  have ends: "link_ends ring = set ring" by (auto simp: ring_def ring_link_def flip_def)
  have raw: "eth_raw_ok (eth_toRaw ETHER_ANY)" by code_simp
  have ok: "\<forall>l\<in>set ring. link_dpid1 l \<noteq> link_dpid2 l" "ports_ok ring ?cons" "cons_ok ?cons" "xid_ok 1"
    unfolding ports_ok_def ends
    by (simp_all add: ring_def ring_link_def told_def cons_ok_def phys_ok_def xid_ok_def raw)
  have own: "own_cons ?cons []" "told_agrees ?cons [] (nx_sent ?s)" by (auto simp: own_cons_def told_agrees_def split: if_split_asm)
  have "both_ways (set ring) 1 2 2" "both_ways (set ring) 1 3 3" unfolding both_ways_def ring_def by (simp_all add: ring_link_def flip_def)
  then have F: "{1, 2, 3} \<subseteq> Field ?G" by (auto simp: Field_def)
  have host: "\<not> isSwitchOnlyPort ring 2 4" "told ?phys 4" by (simp_all add: isSwitchOnlyPort_def ring_def ring_link_def told_def)
  obtain s' where s': "st_handle (\<lambda>ls. ls) (\<lambda>ds. ds) (\<lambda>t. t) ?cons ?s = (Inr (), s')"
      "no_cycles (ends_of ` {l \<in> flood_links ring (said ?cons (nx_sent s')). link_dpid1 l \<in> Field ?G \<or> link_dpid2 l \<in> Field ?G})"
      "\<forall>d c phys port. d \<in> Field ?G \<and> ?cons d = Some (c, phys) \<and> told phys port \<and> \<not> isSwitchOnlyPort ring d port \<longrightarrow> said ?cons (nx_sent s') d port = Some True"
    using flooding_without_loops [of "\<lambda>ls. ls" "\<lambda>ds. ds" "\<lambda>t. t" ?s ?cons, unfolded k] ok own by (auto simp: Let_def)
  have "no_cycles (ends_of ` {l \<in> flood_links ring (said ?cons (nx_sent s')). link_dpid1 l \<in> {1, 2, 3} \<or> link_dpid2 l \<in> {1, 2, 3}})"
    by (rule no_cycles_mono [OF s'(2)]) (use F in blast)
  moreover have "said ?cons (nx_sent s') 2 4 = Some True" using s'(3) F host by auto
  ultimately show ?thesis using s'(1) unfolding Let_def by blast
qed

text \<open>A link of a switch to itself, which discovery reports, ends the computation with an exception.\<close>

theorem self_link_fails:
  assumes "\<forall>ls. mset (link_order ls) = mset ls" "\<forall>ds. mset (sw_order ds) = mset ds" "l \<in> set (known_links s)" "link_dpid1 l = link_dpid2 l"
  shows "st_handle link_order sw_order item_order cons s = (Inl AssertionError, s)"
proof -
  let ?v = "link_dpid1 l" and ?ls = "link_order (known_links s)" and ?S = "sw_order (link_switches (known_links s))"
  have sets: "set ?ls = set (known_links s)" "set ?S = set (link_switches (known_links s))"
    using mset_eq_setD [OF assms(1) [rule_format]] mset_eq_setD [OF assms(2) [rule_format]] by simp_all
  have "(?v, ?v) \<in> set (List.product ?S ?S)" using assms(3) sets(2) by (auto simp: link_switches_set)
  moreover have "links_from ?ls ?v ?v \<noteq> []" using assms(3,4) sets(1) by (auto simp: filter_empty_conv)
  then have "map_of (fold adj_append ?ls []) (?v, ?v) = Some (Links (links_from ?ls ?v ?v))" by (simp add: adj_built)
  ultimately show ?thesis by (simp add: st_handle_def calc_spanning_tree_def Let_def cull_all_self sm_simps)
qed

text \<open>
  What was told is remembered by the number of the switch and is not forgotten when it goes down: a switch that comes back, with another
  connection and its ports as they are after a reset, is told nothing.
\<close>

theorem reconnected_not_told:
  assumes "calc_spanning_tree link_order sw_order (known_links s) = Inr tree"
    and "\<forall>(d, es)\<in>set (item_order tree). \<forall>c phys. cons d = Some (c, phys) \<longrightarrow> (\<forall>p\<in>set phys. pp_port_no p < OFPP_MAX \<longrightarrow>
      map_of (st_prev s) (d, pp_port_no p) = Some (should_flood (known_links s) d (map snd es) (pp_port_no p)))"
  shows "st_handle link_order sw_order item_order cons s = (Inr (), s)"
proof -
  have port: "push_port c d (map snd es) p s = (Inr (), s)"
    if "pp_port_no p < OFPP_MAX \<longrightarrow> map_of (st_prev s) (d, pp_port_no p) = Some (should_flood (known_links s) d (map snd es) (pp_port_no p))" for c d es p
    using that by (simp add: push_port_def sm_simps Let_def)
  have "push_switch cons e s = (Inr (), s)" if "e \<in> set (item_order tree)" for e
  proof -
    obtain d es where e: "e = (d, es)" by (cases e)
    show ?thesis
    proof (cases "cons d")
      case (Some cp)
      obtain c phys where cp: "cp = (c, phys)" by (cases cp)
      have "\<forall>p\<in>set phys. push_port c d (map snd es) p s = (Inr (), s)"
        using assms(2) that Some unfolding e cp by (intro ballI port) blast
      then show ?thesis using Some by (simp add: e cp push_switch_def sfor_same)
    qed (simp add: e push_switch_def sret_def)
  qed
  then show ?thesis using assms(1) by (simp add: st_handle_def sexcept_def sm_simps sfor_same)
qed

text \<open>A switch with no link known in both directions is left as it is, also when a port of it was told to leave broadcasts out.\<close>

theorem unlinked_not_told:
  assumes "\<forall>ls. mset (link_order ls) = mset ls" "\<forall>ds. mset (sw_order ds) = mset ds" "\<forall>t. mset (item_order t) = mset t"
    and "\<forall>l\<in>set (known_links s). link_dpid1 l \<noteq> link_dpid2 l" "cons_ok cons" "xid_ok (nx_nextXID s)"
    and "d \<notin> Field {(a, b). \<exists>p. both_ways (set (known_links s)) a b p}"
  shows "\<exists>s'. st_handle link_order sw_order item_order cons s = (Inr (), s') \<and> (\<forall>port. map_of (st_prev s') (d, port) = map_of (st_prev s) (d, port))"
proof -
  obtain tree where t: "calc_spanning_tree link_order sw_order (known_links s) = Inr tree" "distinct (map fst tree)"
    "dom (map_of tree) = Field {(a, b). \<exists>p. both_ways (set (known_links s)) a b p}"
    by (rule calc_tree [of link_order "known_links s" sw_order, OF assms(1) [rule_format] assms(2,4)])
  then have "map_of tree d = None" using assms(7) t(3) domIff [of d "map_of tree"] by blast
  then have "wanted (known_links s) cons tree d port = None" for port by (simp add: wanted_def)
  moreover obtain bs nx prev where h: "st_handle link_order sw_order item_order cons s = (Inr (), s\<lparr>nx_sent := nx_sent s @ bs, nx_nextXID := nx, st_prev := prev\<rparr>)"
    "\<forall>d port. map_of prev (d, port) = (case wanted (known_links s) cons tree d port of Some f \<Rightarrow> Some f | None \<Rightarrow> map_of (st_prev s) (d, port))"
    using st_handle_ok [OF t(1,2) _ assms(5,6)] assms(3) by blast
  ultimately show ?thesis using h by (intro exI [of _ "snd (st_handle link_order sw_order item_order cons s)"]) (simp add: prev_of_spanning)
qed

end
