(* ===== verification/Revent.thy ===== *)
theory Revent
  imports Py_State "HOL-Library.AList" "HOL-Library.Option_ord"
begin

text \<open>
  \<open>pox/lib/revent/revent.py\<close>: sources of events and their listeners.  The lists of listeners are objects that
  \<open>raiseEvent\<close> iterates over while handlers may change them: \<open>addListener\<close> changes the list object in place,
  \<open>removeListener\<close> puts a new one in its place.  A source therefore holds references into a store of lists.
  Event classes are their names; a handler is a value of type \<open>'h\<close>, and what calling it does is an argument.
\<close>

section \<open>Operations that may run forever\<close>

text \<open>The result \<open>None\<close> is that of an operation that took more steps than its fuel allows.\<close>

type_synonym ('s, 'a) dm = "'s \<Rightarrow> ('a res \<times> 's) option"

definition dlift :: "('s, 'a) sm \<Rightarrow> ('s, 'a) dm" where
  "dlift m s = Some (m s)"

definition dbind :: "('s, 'a) dm \<Rightarrow> ('a \<Rightarrow> ('s, 'b) dm) \<Rightarrow> ('s, 'b) dm" where
  "dbind m f s = (case m s of None \<Rightarrow> None | Some (Inl e, s') \<Rightarrow> Some (Inl e, s') | Some (Inr x, s') \<Rightarrow> f x s')"

abbreviation dret :: "'a \<Rightarrow> ('s, 'a) dm" where
  "dret x \<equiv> dlift (sret x)"

definition dthen :: "('s, 'a) dm \<Rightarrow> ('s, 'b) dm \<Rightarrow> ('s, 'b) dm" where
  "dthen m n = dbind m (\<lambda>_. n)"

section \<open>State\<close>

text \<open>
  A handler is a bound method, a plain function, or the \<open>CallProxy\<close> of a weak listener, which
  keeps the pair by which it removes itself.
\<close>

datatype ('o, 'f) handler = Bound 'o 'f | Function 'f | CallProxy 'o 'f "string \<times> int"

text \<open>An entry \<open>(priority, handler, once, eid)\<close>\<close>

record 'h listener =
  ln_priority :: "int option"
  ln_handler :: 'h
  ln_once :: bool
  ln_eid :: int

text \<open>
  \<open>_eventMixin_events\<close> is a set of event classes or \<open>True\<close> (\<open>None\<close> here); \<open>_nextEventID\<close> is global.
  \<open>mx_dead\<close> are the objects that were collected, whose weak references are gone.
\<close>

record ('o, 'f) mixin =
  mx_self :: nat
  mx_events :: "string list option"
  mx_handlers :: "(string \<times> nat) list"
  mx_lists :: "('o, 'f) handler listener list list"
  mx_nextEventID :: int
  mx_dead :: "'o list"

record 'd event =
  ev_type :: string
  ev_halt :: bool
  ev_source :: "nat option"
  ev_data :: 'd

definition EventMixin_init :: "nat \<Rightarrow> string list option \<Rightarrow> ('o, 'f) mixin" where
  "EventMixin_init self events =
     \<lparr>mx_self = self, mx_events = events, mx_handlers = [], mx_lists = [], mx_nextEventID = 0, mx_dead = []\<rparr>"

definition Event_init :: "string \<Rightarrow> 'd \<Rightarrow> 'd event" where
  "Event_init t d = \<lparr>ev_type = t, ev_halt = False, ev_source = None, ev_data = d\<rparr>"

text \<open>The listeners of an event class\<close>

definition listeners :: "('o, 'f) mixin \<Rightarrow> string \<Rightarrow> ('o, 'f) handler listener list" where
  "listeners mx t = (case map_of (mx_handlers mx) t of None \<Rightarrow> [] | Some r \<Rightarrow> mx_lists mx ! r)"

section \<open>Adding\<close>

definition addEvent :: "string \<Rightarrow> (('o, 'f) mixin, unit) sm" where
  "addEvent t = sbind (sget mx_events) (\<lambda>events. case events of
     None \<Rightarrow> sraise AssertionError
   | Some es \<Rightarrow> smod (\<lambda>mx. mx\<lparr>mx_events := Some (List.insert t es)\<rparr>))"

definition addEvents :: "string list \<Rightarrow> (('o, 'f) mixin, unit) sm" where
  "addEvents ts = sfor addEvent ts"

definition generateEventID :: "(('o, 'f) mixin, int) sm" where
  "generateEventID = sthen (smod (\<lambda>mx. mx\<lparr>mx_nextEventID := mx_nextEventID mx + 1\<rparr>)) (sget mx_nextEventID)"

text \<open>
  \<open>sort(reverse = True)\<close> keeps the order of equal elements; \<open>None\<close> is less than every number.
\<close>

definition sort_listeners :: "'h listener list \<Rightarrow> 'h listener list" where
  "sort_listeners ls = rev (sort_key ln_priority (rev ls))"

text \<open>
  A class and its name are the same value here, so that \<open>byName\<close> makes no difference where the events are listed.
\<close>

definition defined_event :: "string \<Rightarrow> ('o, 'f) mixin \<Rightarrow> bool" where
  "defined_event t mx = (case mx_events mx of None \<Rightarrow> True | Some es \<Rightarrow> t \<in> set es)"

definition list_object :: "string \<Rightarrow> (('o, 'f) mixin, nat) sm" where
  "list_object t = sbind (sget (\<lambda>mx. (map_of (mx_handlers mx) t, length (mx_lists mx)))) (\<lambda>(r, n). case r of
     Some r \<Rightarrow> sret r
   | None \<Rightarrow> sthen (smod (\<lambda>mx. mx\<lparr>mx_handlers := AList.update t n (mx_handlers mx), mx_lists := mx_lists mx @ [[]]\<rparr>)) (sret n))"

text \<open>The constructor of \<open>CallProxy\<close>: a plain function has no \<open>im_self\<close>.\<close>

definition CallProxy_init :: "('o, 'f) handler \<Rightarrow> string \<times> int \<Rightarrow> ('o, 'f) handler res" where
  "CallProxy_init handler removeData = (case handler of Bound obj f \<Rightarrow> Inr (CallProxy obj f removeData) | _ \<Rightarrow> Inl AttributeError)"

definition addListener :: "string \<Rightarrow> ('o, 'f) handler \<Rightarrow> bool \<Rightarrow> bool \<Rightarrow> int option \<Rightarrow> (('o, 'f) mixin, string \<times> int) sm" where
  "addListener t handler once weak priority =
     sbind (sget (defined_event t)) (\<lambda>ok.
     if \<not> ok then sraise RuntimeError
     else sbind (list_object t) (\<lambda>r.
       sbind generateEventID (\<lambda>eid.
       sbind (slift (if weak then CallProxy_init handler (t, eid) else Inr handler)) (\<lambda>handler.
       let entry = \<lparr>ln_priority = priority, ln_handler = handler, ln_once = once, ln_eid = eid\<rparr> in
       sthen (smod (\<lambda>mx. let ls = mx_lists mx ! r @ [entry] in
           mx\<lparr>mx_lists := (mx_lists mx)[r := (if priority = None then ls else sort_listeners ls)]\<rparr>))
         (sret (t, eid))))))"

text \<open>
  \<open>autoBindEvents\<close>: \<open>attrs\<close> is \<open>dir(sink)\<close> with the handler of each callable attribute.  A source that
  accepts every event has the value \<open>True\<close>, which cannot be iterated over.
\<close>

definition handle_prefix :: "string \<Rightarrow> string" where
  "handle_prefix prefix = ''_handle'' @ (if prefix \<noteq> [] \<and> hd prefix \<noteq> CHR ''_'' then CHR ''_'' # prefix else prefix) @ ''_''"

fun bind_attrs :: "string \<Rightarrow> string list \<Rightarrow> bool \<Rightarrow> int option \<Rightarrow> (string \<times> ('o, 'f) handler option) list
    \<Rightarrow> (('o, 'f) mixin, (string \<times> int) list) sm" where
  "bind_attrs hp events weak priority [] = sret []"
| "bind_attrs hp events weak priority ((m, a) # attrs) =
     (case a of
        None \<Rightarrow> bind_attrs hp events weak priority attrs
      | Some h \<Rightarrow>
          if take (length hp) m = hp \<and> drop (length hp) m \<in> set events then
            sbind (addListener (drop (length hp) m) h False weak priority) (\<lambda>l.
            sbind (bind_attrs hp events weak priority attrs) (\<lambda>ls. sret (l # ls)))
          else bind_attrs hp events weak priority attrs)"

definition autoBindEvents :: "(string \<times> ('o, 'f) handler option) list \<Rightarrow> string \<Rightarrow> bool \<Rightarrow> int option
    \<Rightarrow> (('o, 'f) mixin, (string \<times> int) list) sm" where
  "autoBindEvents attrs prefix weak priority = sbind (sget mx_events) (\<lambda>events. case events of
     None \<Rightarrow> sraise TypeError
   | Some es \<Rightarrow> bind_attrs (handle_prefix prefix) es weak priority attrs)"

section \<open>Removing\<close>

datatype 'h listener_ref = ByPair string int | ByEID int | ByHandler 'h

text \<open>A new list object for the listeners of \<open>t\<close> that stay; the result says whether one went.\<close>

definition keep_listeners :: "(('o, 'f) handler listener \<Rightarrow> bool) \<Rightarrow> string \<Rightarrow> (('o, 'f) mixin, bool) sm" where
  "keep_listeners stays t = sbind (sget (\<lambda>mx. (map_of (mx_handlers mx) t, length (mx_lists mx)))) (\<lambda>(r, n). case r of
     None \<Rightarrow> sraise KeyError
   | Some r \<Rightarrow> sbind (sget (\<lambda>mx. mx_lists mx ! r)) (\<lambda>ls.
       sthen (smod (\<lambda>mx. mx\<lparr>mx_handlers := AList.update t n (mx_handlers mx), mx_lists := mx_lists mx @ [filter stays ls]\<rparr>))
         (sret (length ls \<noteq> length (filter stays ls)))))"

fun keep_all :: "(('o, 'f) handler listener \<Rightarrow> bool) \<Rightarrow> string list \<Rightarrow> bool \<Rightarrow> (('o, 'f) mixin, bool) sm" where
  "keep_all stays [] altered = sret altered"
| "keep_all stays (t # ts) altered = sbind (keep_listeners stays t) (\<lambda>a. keep_all stays ts (altered \<or> a))"

text \<open>With an identifier and an event type the length of \<open>handlers\<close> is read before it is assigned.\<close>

definition removeListener :: "('o, 'f) handler listener_ref \<Rightarrow> string option \<Rightarrow> (('o, 'f) mixin, bool) sm" where
  "removeListener ref eventType = (case ref of
     ByPair t eid \<Rightarrow> keep_listeners (\<lambda>x. ln_eid x \<noteq> eid) (case eventType of None \<Rightarrow> t | Some t' \<Rightarrow> t')
   | ByEID eid \<Rightarrow> (case eventType of
       None \<Rightarrow> sbind (sget (\<lambda>mx. map fst (mx_handlers mx))) (\<lambda>ts. keep_all (\<lambda>x. ln_eid x \<noteq> eid) ts False)
     | Some t \<Rightarrow> sraise NameError)
   | ByHandler h \<Rightarrow> (case eventType of
       None \<Rightarrow> sbind (sget (\<lambda>mx. map fst (mx_handlers mx))) (\<lambda>ts. keep_all (\<lambda>x. ln_handler x \<noteq> h) ts False)
     | Some t \<Rightarrow> keep_listeners (\<lambda>x. ln_handler x \<noteq> h) t))"

fun removeListeners :: "('o, 'f) handler listener_ref list \<Rightarrow> bool \<Rightarrow> (('o, 'f) mixin, bool) sm" where
  "removeListeners [] altered = sret altered"
| "removeListeners (l # ls) altered = sbind (removeListener l None) (\<lambda>a. removeListeners ls (altered \<or> a))"

definition clearHandlers :: "(('o, 'f) mixin, unit) sm" where
  "clearHandlers = smod (\<lambda>mx. mx\<lparr>mx_handlers := []\<rparr>)"

definition get_listener_count :: "('o, 'f) mixin \<Rightarrow> nat" where
  "get_listener_count mx = (\<Sum>(_, r) \<leftarrow> mx_handlers mx. length (mx_lists mx ! r))"

text \<open>
  \<open>_forgetMe\<close>: when an object is collected, each proxy of it removes its listener; an exception of such a
  callback is printed and goes no further.
\<close>

fun proxy_pairs :: "'o \<Rightarrow> ('o, 'f) handler \<Rightarrow> (string \<times> int) list" where
  "proxy_pairs obj (CallProxy obj' f p) = (if obj' = obj then [p] else [])"
| "proxy_pairs obj h = []"

definition forget_pairs :: "'o \<Rightarrow> ('o, 'f) mixin \<Rightarrow> (string \<times> int) list" where
  "forget_pairs obj mx = concat (map (\<lambda>(t, r). concat (map (\<lambda>l. proxy_pairs obj (ln_handler l)) (mx_lists mx ! r))) (mx_handlers mx))"

fun forgetMe :: "(string \<times> int) list \<Rightarrow> (('o, 'f) mixin, unit) sm" where
  "forgetMe [] = sret ()"
| "forgetMe ((t, eid) # ps) = (\<lambda>mx. forgetMe ps (snd (removeListener (ByPair t eid) None mx)))"

definition collect :: "'o \<Rightarrow> (('o, 'f) mixin, unit) sm" where
  "collect obj = sbind (sget (forget_pairs obj)) (\<lambda>ps.
     sthen (smod (\<lambda>mx. mx\<lparr>mx_dead := List.insert obj (mx_dead mx)\<rparr>)) (forgetMe ps))"

section \<open>Raising\<close>

text \<open>What a handler returns; of a tuple the truth of its elements.\<close>

datatype rv = RvNone | RvFalse | RvTrue | RvTuple "bool list" | RvOther

definition EventReturn :: "bool \<Rightarrow> bool \<Rightarrow> rv" where
  "EventReturn halt remove = RvTuple [halt, remove]"

text \<open>
  The state is the source and the rest of the world.  \<open>call\<close> is the call of a method or function with an event,
  which may change all of it.
\<close>

type_synonym ('o, 'f, 'w) source = "('o, 'f) mixin \<times> 'w"
type_synonym ('o, 'f, 'w, 'd) callee = "'o option \<Rightarrow> 'f \<Rightarrow> 'd event \<Rightarrow> (('o, 'f, 'w) source, rv \<times> 'd event) dm"

definition on_mixin :: "(('o, 'f) mixin, 'a) sm \<Rightarrow> (('o, 'f, 'w) source, 'a) sm" where
  "on_mixin m s = (case m (fst s) of (r, mx) \<Rightarrow> (r, (mx, snd s)))"

definition call_handler :: "('o, 'f, 'w, 'd) callee \<Rightarrow> ('o, 'f) handler \<Rightarrow> 'd event \<Rightarrow> (('o, 'f, 'w) source, rv \<times> 'd event) dm" where
  "call_handler call h ev = (case h of
     Bound obj f \<Rightarrow> call (Some obj) f ev
   | Function f \<Rightarrow> call None f ev
   | CallProxy obj f _ \<Rightarrow> dbind (dlift (sget (\<lambda>s. obj \<in> set (mx_dead (fst s))))) (\<lambda>gone.
       if gone then dret (RvNone, ev) else call (Some obj) f ev))"

text \<open>What follows a call: the listener may be removed, and the result says whether the loop ends.\<close>

definition remove_if :: "bool \<Rightarrow> int \<Rightarrow> (('o, 'f) mixin, unit) sm" where
  "remove_if b eid = (if b then sthen (removeListener (ByEID eid) None) (sret ()) else sret ())"

definition after_call :: "('o, 'f) handler listener \<Rightarrow> rv \<Rightarrow> 'd event \<Rightarrow> (('o, 'f) mixin, bool) sm" where
  "after_call l rv ev = sthen (remove_if (ln_once l) (ln_eid l)) (case rv of
     RvNone \<Rightarrow> sret False
   | RvFalse \<Rightarrow> sthen (remove_if True (ln_eid l)) (sret (ev_halt ev))
   | RvTrue \<Rightarrow> sret True
   | RvTuple bs \<Rightarrow> sthen (remove_if (length bs \<ge> 2 \<and> bs ! 1) (ln_eid l))
       (sret (length bs \<ge> 1 \<and> bs ! 0 \<or> length bs = 0 \<or> ev_halt ev))
   | RvOther \<Rightarrow> sret (ev_halt ev))"

definition handle_one :: "('o, 'f, 'w, 'd) callee \<Rightarrow> ('o, 'f) handler listener \<Rightarrow> 'd event
    \<Rightarrow> (('o, 'f, 'w) source, bool \<times> 'd event) dm" where
  "handle_one call l ev = dbind (call_handler call (ln_handler l) ev) (\<lambda>(rv, ev).
     dlift (sbind (on_mixin (after_call l rv ev)) (\<lambda>stop. sret (stop, ev))))"

text \<open>
  The loop runs over the list object itself, from position \<open>i\<close>.  Handlers may make that list longer, so the
  loop need not end: \<open>None\<close> is the outcome of a loop that took more steps than the fuel allows.
\<close>

fun raise_loop :: "('o, 'f, 'w, 'd) callee \<Rightarrow> nat \<Rightarrow> nat \<Rightarrow> nat \<Rightarrow> 'd event \<Rightarrow> (('o, 'f, 'w) source, 'd event) dm" where
  "raise_loop call 0 r i ev s = None"
| "raise_loop call (Suc fuel) r i ev s = (case drop i (mx_lists (fst s) ! r) of
     [] \<Rightarrow> Some (Inr ev, s)
   | l # _ \<Rightarrow> dbind (handle_one call l ev) (\<lambda>(stop, ev'). if stop then dret ev' else raise_loop call fuel r (Suc i) ev') s)"

text \<open>\<open>raiseEvent\<close> takes an event, or a class with the event its constructor makes of the arguments.\<close>

datatype 'd event_arg = EventObject "'d event" | EventClass string "'d event res"

definition set_source :: "nat \<Rightarrow> 'd event \<Rightarrow> 'd event" where
  "set_source self ev = (if ev_source ev = None then ev\<lparr>ev_source := Some self\<rparr> else ev)"

definition raise_object :: "('o, 'f, 'w, 'd) callee \<Rightarrow> nat \<Rightarrow> 'd event
    \<Rightarrow> (('o, 'f, 'w) source, 'd event option) dm" where
  "raise_object call fuel ev s =
     (let ev = set_source (mx_self (fst s)) ev in
      if \<not> defined_event (ev_type ev) (fst s) then Some (Inl RuntimeError, s)
      else case map_of (mx_handlers (fst s)) (ev_type ev) of
        None \<Rightarrow> Some (Inr (Some ev), s)
      | Some r \<Rightarrow> dbind (raise_loop call fuel r 0 ev) (\<lambda>ev. dret (Some ev)) s)"

definition raiseEvent :: "('o, 'f, 'w, 'd) callee \<Rightarrow> nat \<Rightarrow> 'd event_arg
    \<Rightarrow> (('o, 'f, 'w) source, 'd event option) dm" where
  "raiseEvent call fuel ev s = (case ev of
     EventObject ev \<Rightarrow> raise_object call fuel ev s
   | EventClass t made \<Rightarrow>
       if listeners (fst s) t = [] then Some (Inr None, s)
       else case made of Inl e \<Rightarrow> Some (Inl e, s) | Inr ev \<Rightarrow> raise_object call fuel (ev\<lparr>ev_type := t\<rparr>) s)"

definition raiseEventNoErrors :: "('o, 'f, 'w, 'd) callee \<Rightarrow> nat \<Rightarrow> 'd event_arg
    \<Rightarrow> (('o, 'f, 'w) source, 'd event option) dm" where
  "raiseEventNoErrors call fuel ev s = (case raiseEvent call fuel ev s of
     Some (Inl e, s') \<Rightarrow> Some (Inr None, s')
   | r \<Rightarrow> r)"

end
