(* ===== verification/Of_Controller.thy ===== *)
theory Of_Controller
  imports Of_Connection Revent
begin

text \<open>
  \<open>pox/openflow/of_01.py\<close>, the controller's end of a switch connection, with the nexus and the arbiter of
  \<open>pox/openflow/connection_arbiter.py\<close> and the events of \<open>pox/openflow/__init__.py\<close>: bytes from the switch are cut into
  messages, each message goes to its handler, and handlers raise events on the nexus and on the connection (theory \<open>Revent\<close>).
  Listeners of the applications are values of a type \<open>'g\<close>; what they do is the argument \<open>app\<close>.
  The identifiers of listeners are counted per source here, where the code counts them globally.
\<close>

section \<open>Events and state\<close>

datatype of_event = ConnectionUp ofp_features_reply | ConnectionDown | PortStatus ofp_port_status | FlowRemoved ofp_flow_removed
  | PacketIn ofp_packet_in | ErrorIn ofp_error | BarrierIn ofp_header | RawStatsReply ofp_stats_reply
  | SwitchDescReceived ofp_stats_reply ofp_desc_stats | FlowStatsReceived "ofp_stats_reply list" "ofp_flow_stats list"
  | AggregateFlowStatsReceived ofp_stats_reply ofp_aggregate_stats | TableStatsReceived "ofp_stats_reply list" "ofp_table_stats list"
  | PortStatsReceived "ofp_stats_reply list" "ofp_port_stats list" | QueueStatsReceived "ofp_stats_reply list" "ofp_queue_stats list"

fun event_class :: "of_event \<Rightarrow> string" where
  "event_class (ConnectionUp _) = ''ConnectionUp''"
| "event_class ConnectionDown = ''ConnectionDown''"
| "event_class (PortStatus _) = ''PortStatus''"
| "event_class (FlowRemoved _) = ''FlowRemoved''"
| "event_class (PacketIn _) = ''PacketIn''"
| "event_class (ErrorIn _) = ''ErrorIn''"
| "event_class (BarrierIn _) = ''BarrierIn''"
| "event_class (RawStatsReply _) = ''RawStatsReply''"
| "event_class (SwitchDescReceived _ _) = ''SwitchDescReceived''"
| "event_class (FlowStatsReceived _ _) = ''FlowStatsReceived''"
| "event_class (AggregateFlowStatsReceived _ _) = ''AggregateFlowStatsReceived''"
| "event_class (TableStatsReceived _ _) = ''TableStatsReceived''"
| "event_class (PortStatsReceived _ _) = ''PortStatsReceived''"
| "event_class (QueueStatsReceived _ _) = ''QueueStatsReceived''"

text \<open>\<open>_eventMixin_events\<close> of \<open>OpenFlowNexus\<close> and of \<open>Connection\<close>\<close>

definition nexus_events :: "string list" where
  "nexus_events = [''ConnectionUp'', ''ConnectionDown'', ''PortStatus'', ''FlowRemoved'', ''PacketIn'', ''BarrierIn'', ''RawStatsReply'',
     ''SwitchDescReceived'', ''FlowStatsReceived'', ''AggregateFlowStatsReceived'', ''TableStatsReceived'', ''PortStatsReceived'',
     ''QueueStatsReceived'']"

definition con_events :: "string list" where
  "con_events = ''ErrorIn'' # nexus_events"

text \<open>
  The closures \<open>finish_connecting\<close> and \<open>also_finish_connecting\<close> of \<open>handle_FEATURES_REPLY\<close>: each invocation of the handler makes
  a \<open>handshake\<close>, the variables its closures share.
\<close>

datatype 'g con_fn = Finish_connecting nat | Also_finish_connecting nat | App 'g

record handshake =
  hs_barrier :: ofp_header
  hs_msg :: ofp_features_reply
  hs_listeners :: "(string \<times> int) list"

text \<open>
  One connection and the nexus it may belong to.  \<open>con_nexus\<close> says whether \<open>ofnexus\<close> is \<open>core.openflow\<close>
  or still the dummy; \<open>arb_accepts\<close> is the decision of the arbiter.
\<close>

record 'g controller = of_nexus +
  con_id :: nat
  con_buf :: bytes
  con_dpid :: "int option"
  con_features :: "ofp_features_reply option"
  con_connect_time :: "int option"
  con_previous_stats :: "ofp_stats_reply list"
  con_handshakes :: "handshake list"
  con_mixin :: "(unit, 'g con_fn) mixin"
  con_nexus :: bool
  nexus_mixin :: "(unit, 'g con_fn) mixin"
  nexus_connections :: "(int option \<times> nat) list"
  nexus_miss_send_len :: "int option"
  nexus_clear_flows :: bool
  arb_accepts :: bool

type_synonym ('g, 'z) app = "'g \<Rightarrow> of_event event \<Rightarrow> (('g, 'z) controller_scheme, rv \<times> of_event event) dm"

section \<open>Raising events\<close>

text \<open>A call of a handler, seen from a source that is a part \<open>rd\<close> of the state: it works on the source as it is.\<close>

definition through :: "(('g, 'z) controller_scheme \<Rightarrow> (unit, 'g con_fn) mixin)
    \<Rightarrow> ((unit, 'g con_fn) mixin \<Rightarrow> ('g, 'z) controller_scheme \<Rightarrow> ('g, 'z) controller_scheme)
    \<Rightarrow> ('g con_fn \<Rightarrow> of_event event \<Rightarrow> (('g, 'z) controller_scheme, rv \<times> of_event event) dm)
    \<Rightarrow> (unit, 'g con_fn, ('g, 'z) controller_scheme, of_event) callee" where
  "through rd wr call obj f ev s = map_option (\<lambda>(r, st). (r, (rd st, st))) (call f ev (wr (fst s) (snd s)))"

definition raise_in :: "(('g, 'z) controller_scheme \<Rightarrow> (unit, 'g con_fn) mixin)
    \<Rightarrow> ((unit, 'g con_fn) mixin \<Rightarrow> ('g, 'z) controller_scheme \<Rightarrow> ('g, 'z) controller_scheme)
    \<Rightarrow> ('g con_fn \<Rightarrow> of_event event \<Rightarrow> (('g, 'z) controller_scheme, rv \<times> of_event event) dm)
    \<Rightarrow> nat \<Rightarrow> of_event event_arg \<Rightarrow> (('g, 'z) controller_scheme, unit) dm" where
  "raise_in rd wr call fuel arg st =
     map_option (\<lambda>(r, s). (Inr (), wr (fst s) (snd s))) (raiseEventNoErrors (through rd wr call) fuel arg (rd st, st))"

definition of_class :: "of_event \<Rightarrow> of_event event_arg" where
  "of_class e = EventClass (event_class e) (Inr (Event_init (event_class e) e))"

definition set_con_mixin :: "(unit, 'g con_fn) mixin \<Rightarrow> ('g, 'z) controller_scheme \<Rightarrow> ('g, 'z) controller_scheme" where
  "set_con_mixin mx st = st\<lparr>con_mixin := mx\<rparr>"

definition set_nexus_mixin :: "(unit, 'g con_fn) mixin \<Rightarrow> ('g, 'z) controller_scheme \<Rightarrow> ('g, 'z) controller_scheme" where
  "set_nexus_mixin mx st = st\<lparr>nexus_mixin := mx\<rparr>"

text \<open>The dummy nexus only logs.\<close>

definition nexus_raise :: "('g con_fn \<Rightarrow> of_event event \<Rightarrow> (('g, 'z) controller_scheme, rv \<times> of_event event) dm)
    \<Rightarrow> nat \<Rightarrow> of_event event_arg \<Rightarrow> (('g, 'z) controller_scheme, unit) dm" where
  "nexus_raise call fuel arg = dbind (dlift (sget con_nexus)) (\<lambda>joined.
     if joined then raise_in nexus_mixin set_nexus_mixin call fuel arg else dret ())"

definition con_raise :: "('g con_fn \<Rightarrow> of_event event \<Rightarrow> (('g, 'z) controller_scheme, rv \<times> of_event event) dm)
    \<Rightarrow> nat \<Rightarrow> of_event event_arg \<Rightarrow> (('g, 'z) controller_scheme, unit) dm" where
  "con_raise call fuel arg = raise_in con_mixin set_con_mixin call fuel arg"

text \<open>\<open>con.ofnexus.raiseEventNoErrors(E, con, msg)\<close> and \<open>con.raiseEventNoErrors(E, con, msg)\<close>\<close>

definition raise_both :: "('g con_fn \<Rightarrow> of_event event \<Rightarrow> (('g, 'z) controller_scheme, rv \<times> of_event event) dm)
    \<Rightarrow> nat \<Rightarrow> of_event \<Rightarrow> (('g, 'z) controller_scheme, unit) dm" where
  "raise_both call fuel e = dthen (nexus_raise call fuel (of_class e)) (con_raise call fuel (of_class e))"

section \<open>Connection\<close>

definition con_send :: "(int \<Rightarrow> 'm \<Rightarrow> (bytes \<times> 'm \<times> int) res) \<Rightarrow> 'm \<Rightarrow> (('g, 'z) controller_scheme, 'm) sm" where
  "con_send pack m = sbind (sget con_id) (\<lambda>c. connection_send c pack m)"

text \<open>\<open>con.send(msg.pack())\<close>: the message is packed even when the connection is down.\<close>

definition con_send_packed :: "(int \<Rightarrow> 'm \<Rightarrow> (bytes \<times> 'm \<times> int) res) \<Rightarrow> 'm \<Rightarrow> (('g, 'z) controller_scheme, unit) sm" where
  "con_send_packed pack m = sbind (sget nx_nextXID) (\<lambda>nx. sbind (slift (pack nx m)) (\<lambda>(b, m', nx').
     smod (\<lambda>st. let st = st\<lparr>nx_nextXID := nx'\<rparr> in
       if con_id st \<in> set (nx_disconnected st) then st else st\<lparr>nx_sent := nx_sent st @ [(con_id st, b)]\<rparr>)))"

text \<open>\<open>_connect\<close>, \<open>_disconnect\<close>, \<open>getConnection\<close> and \<open>sendToDPID\<close> of the nexus\<close>

definition nexus_connect :: "('g, 'z) controller_scheme \<Rightarrow> ('g, 'z) controller_scheme" where
  "nexus_connect st = st\<lparr>nexus_connections := AList.update (con_dpid st) (con_id st) (nexus_connections st)\<rparr>"

definition nexus_disconnect :: "int option \<Rightarrow> (('g, 'z) controller_scheme, unit) sm" where
  "nexus_disconnect dpid = sbind (sget (\<lambda>st. map_of (nexus_connections st) dpid)) (\<lambda>c. case c of
     None \<Rightarrow> sraise KeyError
   | Some _ \<Rightarrow> smod (\<lambda>st. st\<lparr>nexus_connections := AList.delete dpid (nexus_connections st)\<rparr>))"

definition getConnection :: "int \<Rightarrow> ('g, 'z) controller_scheme \<Rightarrow> nat option" where
  "getConnection dpid st = map_of (nexus_connections st) (Some dpid)"

definition sendToDPID :: "int \<Rightarrow> (int \<Rightarrow> 'm \<Rightarrow> (bytes \<times> 'm \<times> int) res) \<Rightarrow> 'm \<Rightarrow> (('g, 'z) controller_scheme, bool) sm" where
  "sendToDPID dpid pack m = sbind (sget (getConnection dpid)) (\<lambda>c. case c of
     None \<Rightarrow> sret False
   | Some c \<Rightarrow> sthen (connection_send c pack m) (sret True))"

text \<open>An exception of \<open>m\<close> goes no further.\<close>

definition try_except :: "('s, unit) sm \<Rightarrow> ('s, unit) sm" where
  "try_except m s = (Inr (), snd (m s))"

text \<open>
  \<open>disconnect\<close>.  \<open>_disconnect\<close> of the nexus may raise, which is caught; \<open>ConnectionDown\<close> is raised on the nexus only.
\<close>

definition con_disconnect :: "('g con_fn \<Rightarrow> of_event event \<Rightarrow> (('g, 'z) controller_scheme, rv \<times> of_event event) dm)
    \<Rightarrow> nat \<Rightarrow> (('g, 'z) controller_scheme, unit) dm" where
  "con_disconnect call fuel =
     dthen (dlift (smod (\<lambda>st. st\<lparr>nx_disconnected := con_id st # nx_disconnected st\<rparr>)))
     (dbind (dlift (sget (\<lambda>st. (con_nexus st, con_dpid st)))) (\<lambda>(joined, dpid).
      dthen (dlift (if joined then try_except (nexus_disconnect dpid) else sret ()))
      (if dpid \<noteq> None then nexus_raise call fuel (EventObject (Event_init ''ConnectionDown'' ConnectionDown)) else dret ())))"

definition on_con :: "((unit, 'g con_fn) mixin, 'a) sm \<Rightarrow> (('g, 'z) controller_scheme, 'a) sm" where
  "on_con m st = (case m (con_mixin st) of (r, mx) \<Rightarrow> (r, st\<lparr>con_mixin := mx\<rparr>))"

section \<open>The handshake\<close>

abbreviation (input) OFPET_BAD_REQUEST :: int where "OFPET_BAD_REQUEST \<equiv> 1"
abbreviation (input) OFPBRC_BAD_TYPE :: int where "OFPBRC_BAD_TYPE \<equiv> 1"

text \<open>The \<open>xid\<close> attribute of a \<open>BarrierIn\<close> or \<open>ErrorIn\<close> event\<close>

definition event_xid :: "of_event \<Rightarrow> int option res" where
  "event_xid e = (case e of BarrierIn m \<Rightarrow> Inr (xid m) | ErrorIn m \<Rightarrow> Inr (xid m) | _ \<Rightarrow> Inl AttributeError)"

definition finish_connecting :: "('g con_fn \<Rightarrow> of_event event \<Rightarrow> (('g, 'z) controller_scheme, rv \<times> of_event event) dm)
    \<Rightarrow> nat \<Rightarrow> int \<Rightarrow> nat \<Rightarrow> of_event \<Rightarrow> (('g, 'z) controller_scheme, unit) dm" where
  "finish_connecting call fuel now k e =
     dbind (dlift (slift (event_xid e))) (\<lambda>x.
     dbind (dlift (sget (\<lambda>st. con_handshakes st ! k))) (\<lambda>hs.
     dthen
       (if x \<noteq> xid (hs_barrier hs) then
          dthen (dlift (smod (\<lambda>st. st\<lparr>con_dpid := None\<rparr>))) (con_disconnect call fuel)
        else
          dthen (dlift (smod (\<lambda>st. st\<lparr>con_connect_time := Some now\<rparr>))) (raise_both call fuel (ConnectionUp (hs_msg hs))))
       (dbind (dlift (sget (\<lambda>st. hs_listeners (con_handshakes st ! k)))) (\<lambda>ls.
        dlift (sdo (on_con (removeListeners (map (\<lambda>(t, eid). ByPair t eid) ls) False)))))))"

definition also_finish_connecting :: "('g con_fn \<Rightarrow> of_event event \<Rightarrow> (('g, 'z) controller_scheme, rv \<times> of_event event) dm)
    \<Rightarrow> nat \<Rightarrow> int \<Rightarrow> nat \<Rightarrow> of_event \<Rightarrow> (('g, 'z) controller_scheme, unit) dm" where
  "also_finish_connecting call fuel now k e =
     dbind (dlift (slift (event_xid e))) (\<lambda>x.
     dbind (dlift (sget (\<lambda>st. con_handshakes st ! k))) (\<lambda>hs.
     if x \<noteq> xid (hs_barrier hs) then dret ()
     else case e of
       ErrorIn m \<Rightarrow> if err_type m \<noteq> OFPET_BAD_REQUEST then dret ()
         else if err_code m \<noteq> OFPBRC_BAD_TYPE then dret ()
         else finish_connecting call fuel now k e
     | _ \<Rightarrow> dlift (sraise AttributeError)))"

text \<open>A call of a listener.  Handlers raise events themselves, so calls are nested: \<open>n\<close> bounds the depth.\<close>

fun con_call :: "('g, 'z) app \<Rightarrow> nat \<Rightarrow> int \<Rightarrow> nat
    \<Rightarrow> 'g con_fn \<Rightarrow> of_event event \<Rightarrow> (('g, 'z) controller_scheme, rv \<times> of_event event) dm" where
  "con_call app fuel now 0 f ev = (\<lambda>st. None)"
| "con_call app fuel now (Suc n) f ev = (case f of
     App g \<Rightarrow> app g ev
   | Finish_connecting k \<Rightarrow> dthen (finish_connecting (con_call app fuel now n) fuel now k (ev_data ev)) (dret (RvNone, ev))
   | Also_finish_connecting k \<Rightarrow> dthen (also_finish_connecting (con_call app fuel now n) fuel now k (ev_data ev)) (dret (RvNone, ev)))"

section \<open>Message handlers\<close>

type_synonym ('g, 'z) call = "'g con_fn \<Rightarrow> of_event event \<Rightarrow> (('g, 'z) controller_scheme, rv \<times> of_event event) dm"

definition handle_HELLO :: "(('g, 'z) controller_scheme, unit) sm" where
  "handle_HELLO = con_send_packed ofp_features_request_pack ofp_features_request_init"

definition handle_ECHO_REQUEST :: "ofp_echo \<Rightarrow> (('g, 'z) controller_scheme, unit) sm" where
  "handle_ECHO_REQUEST msg = con_send_packed ofp_echo_pack (msg\<lparr>header_type := OFPT_ECHO_REPLY\<rparr>)"

definition clear_flows :: ofp_flow_mod where
  "clear_flows = ofp_flow_mod_init\<lparr>fm_match := ofp_match_init, fm_command := OFPFC_DELETE\<rparr>"

text \<open>The part of \<open>handle_FEATURES_REPLY\<close> after the nexus has accepted the connection\<close>

definition begin_handshake :: "ofp_features_reply \<Rightarrow> (('g, 'z) controller_scheme, unit) sm" where
  "begin_handshake msg =
     sbind (sget (\<lambda>st. length (con_handshakes st))) (\<lambda>k.
     sthen (smod (\<lambda>st. st\<lparr>con_handshakes := con_handshakes st @
         [\<lparr>hs_barrier = ofp_barrier_request_init, hs_msg = msg, hs_listeners = []\<rparr>]\<rparr>))
     (sbind (on_con (addListener ''BarrierIn'' (Function (Finish_connecting k)) False False None)) (\<lambda>l1.
      sthen (smod (\<lambda>st. st\<lparr>con_handshakes := (con_handshakes st)[k := (con_handshakes st ! k)\<lparr>hs_listeners := [l1]\<rparr>]\<rparr>))
     (sbind (on_con (addListener ''ErrorIn'' (Function (Also_finish_connecting k)) False False None)) (\<lambda>l2.
      sthen (smod (\<lambda>st. st\<lparr>con_handshakes := (con_handshakes st)[k := (con_handshakes st ! k)\<lparr>hs_listeners := [l1, l2]\<rparr>]\<rparr>))
     (sbind (sget (\<lambda>st. (nexus_miss_send_len st, nexus_clear_flows st))) (\<lambda>(miss_send_len, clear).
      sthen (case miss_send_len of
          None \<Rightarrow> sret ()
        | Some n \<Rightarrow> sdo (con_send ofp_switch_config_pack (ofp_switch_config_init\<lparr>sc_miss_send_len := n\<rparr>)))
     (sthen (if clear then sdo (con_send (ofp_flow_mod_pack True) clear_flows) else sret ())
     (sbind (con_send ofp_barrier_request_pack ofp_barrier_request_init) (\<lambda>barrier.
      smod (\<lambda>st. st\<lparr>con_handshakes := (con_handshakes st)[k := (con_handshakes st ! k)\<lparr>hs_barrier := barrier\<rparr>]\<rparr>)))))))))))"

definition handle_FEATURES_REPLY :: "('g, 'z) call \<Rightarrow> nat \<Rightarrow> ofp_features_reply \<Rightarrow> (('g, 'z) controller_scheme, unit) dm" where
  "handle_FEATURES_REPLY call fuel msg =
     dbind (dlift (sget (\<lambda>st. con_connect_time st = None))) (\<lambda>connecting.
     dthen (dlift (smod (\<lambda>st. st\<lparr>con_features := Some msg, con_dpid := Some (fr_datapath_id msg)\<rparr>)))
     (if \<not> connecting then dlift (sbind (sget con_nexus) (\<lambda>joined. if joined then smod nexus_connect else sraise AttributeError))
      else dbind (dlift (sget arb_accepts)) (\<lambda>nexus.
        if \<not> nexus then con_disconnect call fuel
        else dlift (sthen (smod (\<lambda>st. nexus_connect (st\<lparr>con_nexus := True\<rparr>))) (begin_handshake msg)))))"

text \<open>
  Statistics.  \<open>_processStatsBody\<close> reads one object after the other; the assertion that each has read something makes it
  end.
\<close>

function processStatsBody :: "(bytes \<Rightarrow> ('a \<times> bytes) res) \<Rightarrow> bytes \<Rightarrow> 'a list res" where
  "processStatsBody unpack body =
     (if body = [] then Inr []
      else case unpack body of
        Inl e \<Rightarrow> Inl e
      | Inr (obj, rest) \<Rightarrow>
          if length rest < length body then rmap (\<lambda>r. obj # r) (processStatsBody unpack rest) else Inl AssertionError)"
  by pat_completeness auto
termination
  by (relation "measure (\<lambda>(_, body). length body)") auto

declare processStatsBody.simps [simp del]

fun stats_parts :: "(bytes \<Rightarrow> ('a \<times> bytes) res) \<Rightarrow> ofp_stats_reply list \<Rightarrow> 'a list res" where
  "stats_parts unpack [] = Inr []"
| "stats_parts unpack (p # ps) = rbind (rbind (sp_body_data (sp_body p)) (processStatsBody unpack)) (\<lambda>r.
     rmap (\<lambda>rs. r @ rs) (stats_parts unpack ps))"

text \<open>The handlers of \<open>statsHandlerMap\<close>: the event of the assembled parts\<close>

definition stats_event :: "ofp_stats_reply list \<Rightarrow> of_event option res" where
  "stats_event parts = (let t = sp_type (hd parts) in
     if t = OFPST_DESC then rmap (\<lambda>(m, _). Some (SwitchDescReceived (hd parts) m))
       (rbind (sp_body_data (sp_body (hd parts))) (ofp_desc_stats_unpack ofp_desc_stats_init))
     else if t = OFPST_FLOW then rmap (\<lambda>m. Some (FlowStatsReceived parts m)) (stats_parts (ofp_flow_stats_unpack ofp_flow_stats_init) parts)
     else if t = OFPST_AGGREGATE then rmap (\<lambda>(m, _). Some (AggregateFlowStatsReceived (hd parts) m))
       (rbind (sp_body_data (sp_body (hd parts))) (ofp_aggregate_stats_unpack ofp_aggregate_stats_init))
     else if t = OFPST_TABLE then rmap (\<lambda>m. Some (TableStatsReceived parts m)) (stats_parts (ofp_table_stats_unpack ofp_table_stats_init) parts)
     else if t = OFPST_PORT then rmap (\<lambda>m. Some (PortStatsReceived parts m)) (stats_parts (ofp_port_stats_unpack ofp_port_stats_init) parts)
     else if t = OFPST_QUEUE then rmap (\<lambda>m. Some (QueueStatsReceived parts m)) (stats_parts (ofp_queue_stats_unpack ofp_queue_stats_init) parts)
     else Inr None)"

text \<open>
  \<open>_incoming_stats_reply\<close>.  Where a reply does not continue the one before, the log message names an attribute that does not
  exist; where there is no handler, it looks into the list just emptied.
\<close>

definition incoming_stats_reply :: "('g, 'z) call \<Rightarrow> nat \<Rightarrow> ofp_stats_reply \<Rightarrow> (('g, 'z) controller_scheme, unit) dm" where
  "incoming_stats_reply call fuel ofp =
     (let more = sp_flags ofp AND 1 \<noteq> 0 in
      if more \<and> sp_type ofp \<notin> {OFPST_FLOW, OFPST_TABLE, OFPST_PORT, OFPST_QUEUE} then
        dlift (smod (\<lambda>st. st\<lparr>con_previous_stats := []\<rparr>))
      else
        dbind (dlift (sget con_previous_stats)) (\<lambda>prev.
        dthen (dlift
          (if prev = [] then smod (\<lambda>st. st\<lparr>con_previous_stats := [ofp]\<rparr>)
           else if xid ofp = xid (hd prev) \<and> sp_type ofp = sp_type (hd prev) then smod (\<lambda>st. st\<lparr>con_previous_stats := prev @ [ofp]\<rparr>)
           else sraise AttributeError))
        (if more then dret ()
         else dbind (dlift (sget con_previous_stats)) (\<lambda>s.
           dthen (dlift (smod (\<lambda>st. st\<lparr>con_previous_stats := []\<rparr>)))
           (dbind (dlift (slift (stats_event s))) (\<lambda>e. case e of
              None \<Rightarrow> dlift (sraise IndexError)
            | Some e \<Rightarrow> raise_both call fuel e))))))"

definition handle_STATS_REPLY :: "('g, 'z) call \<Rightarrow> nat \<Rightarrow> ofp_stats_reply \<Rightarrow> (('g, 'z) controller_scheme, unit) dm" where
  "handle_STATS_REPLY call fuel msg = dthen (raise_both call fuel (RawStatsReply msg)) (incoming_stats_reply call fuel msg)"

section \<open>Reading\<close>

text \<open>The messages of the class table; those without a handler are one case (calling \<open>None\<close> raises).\<close>

datatype con_msg = CHello ofp_header | CEcho ofp_echo | CPacketIn ofp_packet_in | CFeatures ofp_features_reply
  | CPortStatus ofp_port_status | CError ofp_error | CBarrier ofp_header | CStats ofp_stats_reply | CFlowRemoved ofp_flow_removed
  | COther

definition unpack_con_msg :: "int \<Rightarrow> bytes \<Rightarrow> con_msg res" where
  "unpack_con_msg t b =
     (if t = 0 then rmap (CHello \<circ> fst) (ofp_hello_unpack ofp_hello_init b)
      else if t = 1 then rmap (CError \<circ> fst) (ofp_error_unpack ofp_error_init b)
      else if t = 2 then rmap (CEcho \<circ> fst) (ofp_echo_unpack ofp_echo_request_init b)
      else if t = 6 then rmap (CFeatures \<circ> fst) (ofp_features_reply_unpack (ofp_features_reply_init 0 0 0 0 0 []) b)
      else if t = 10 then rmap (CPacketIn \<circ> fst) (ofp_packet_in_unpack ofp_packet_in_init b)
      else if t = 11 then rmap (CFlowRemoved \<circ> fst) (ofp_flow_removed_unpack ofp_flow_removed_init b)
      else if t = 12 then rmap (CPortStatus \<circ> fst) (ofp_port_status_unpack ofp_port_status_init b)
      else if t = 17 then rmap (CStats \<circ> fst) (ofp_stats_reply_unpack ofp_stats_reply_init b)
      else if t = 19 then rmap (CBarrier \<circ> fst) (ofp_barrier_reply_unpack ofp_barrier_reply_init b)
      else rmap (\<lambda>_. COther) (unpack_msg t b))"

text \<open>\<open>handlerMap\<close>\<close>

fun handle_con_msg :: "('g, 'z) call \<Rightarrow> nat \<Rightarrow> con_msg \<Rightarrow> (('g, 'z) controller_scheme, unit) dm" where
  "handle_con_msg call fuel (CHello m) = dlift handle_HELLO"
| "handle_con_msg call fuel (CEcho m) = dlift (handle_ECHO_REQUEST m)"
| "handle_con_msg call fuel (CPacketIn m) = raise_both call fuel (PacketIn m)"
| "handle_con_msg call fuel (CFeatures m) = handle_FEATURES_REPLY call fuel m"
| "handle_con_msg call fuel (CPortStatus m) = raise_both call fuel (PortStatus m)"
| "handle_con_msg call fuel (CError m) = raise_both call fuel (ErrorIn m)"
| "handle_con_msg call fuel (CBarrier m) = raise_both call fuel (BarrierIn m)"
| "handle_con_msg call fuel (CStats m) = handle_STATS_REPLY call fuel m"
| "handle_con_msg call fuel (CFlowRemoved m) = raise_both call fuel (FlowRemoved m)"
| "handle_con_msg call fuel COther = dlift (sraise TypeError)"

text \<open>
  The loop of \<open>Connection.read\<close>, with fuel: a frame of length 0 is never consumed.  An exception of a handler is logged,
  one of \<open>unpack\<close> leaves the loop.  The calls of the successive messages are given as a sequence, since the time goes on.
\<close>

fun con_read_loop :: "nat \<Rightarrow> (nat \<Rightarrow> ('g, 'z) call) \<Rightarrow> nat \<Rightarrow> (('g, 'z) controller_scheme, bool) dm" where
  "con_read_loop 0 call fuel st = None"
| "con_read_loop (Suc n) call fuel st =
     (let b = con_buf st in
      if length b \<le> 4 then Some (Inr True, st)
      else if uint (b ! 0) \<noteq> OFP_VERSION then Some (Inr False, st)
      else if length b < frame_len b then Some (Inr True, st)
      else case unpack_con_msg (uint (b ! 1)) b of
        Inl e \<Rightarrow> Some (Inl e, st)
      | Inr m \<Rightarrow>
          (case handle_con_msg (call 0) fuel m (st\<lparr>con_buf := drop (frame_len b) b\<rparr>) of
             None \<Rightarrow> None
           | Some (_, st') \<Rightarrow> con_read_loop n (\<lambda>k. call (Suc k)) fuel st'))"

definition con_read :: "nat \<Rightarrow> (nat \<Rightarrow> ('g, 'z) call) \<Rightarrow> nat \<Rightarrow> bytes \<Rightarrow> (('g, 'z) controller_scheme, bool) dm" where
  "con_read n call fuel d st =
     (if d = [] then Some (Inr False, st) else con_read_loop n call fuel (st\<lparr>con_buf := con_buf st @ d\<rparr>))"

text \<open>\<open>Connection.__init__\<close> on a nexus\<close>

definition Connection_init :: "nat \<Rightarrow> ('g, 'z) controller_scheme \<Rightarrow> ('g, 'z) controller_scheme res" where
  "Connection_init c st = (case con_send ofp_hello_pack ofp_hello_init
     (st\<lparr>con_id := c, con_buf := [], con_dpid := None, con_features := None, con_connect_time := None, con_previous_stats := [],
        con_handshakes := [], con_mixin := EventMixin_init c (Some con_events), con_nexus := False\<rparr>) of
     (Inl e, _) \<Rightarrow> Inl e | (Inr _, st) \<Rightarrow> Inr st)"

end
