(* ===== verification/Revent_Laws.thy ===== *)
theory Revent_Laws
  imports Revent Py_State
begin

text \<open>
  Laws of event sources: the listeners of an event stay in the order of their priorities, adding inserts, removing
  filters; a raise calls the listeners of the moment, in order, as long as no handler adds to them.
\<close>

section \<open>Order\<close>

definition by_priority :: "'h listener list \<Rightarrow> bool" where
  "by_priority ls = sorted_wrt (\<lambda>a b. ln_priority b \<le> ln_priority a) ls"

text \<open>A new listener goes after those of the same priority.\<close>

definition insert_listener :: "'h listener \<Rightarrow> 'h listener list \<Rightarrow> 'h listener list" where
  "insert_listener x ls = filter (\<lambda>l. ln_priority x \<le> ln_priority l) ls @ [x] @ filter (\<lambda>l. \<not> ln_priority x \<le> ln_priority l) ls"

lemma by_priority_rev: "by_priority ls = sorted (map ln_priority (rev ls))"
  by (simp add: by_priority_def sorted_map sorted_wrt_rev)

lemma insort_key_filter:
  fixes f :: "'a \<Rightarrow> 'b::linorder"
  shows "sorted (map f xs) \<Longrightarrow> insort_key f x xs = filter (\<lambda>y. f y < f x) xs @ [x] @ filter (\<lambda>y. f x \<le> f y) xs"
proof (induction xs)
  case (Cons y xs)
  show ?case
  proof (cases "f x \<le> f y")
    case True
    with Cons.prems have "filter (\<lambda>y. f y < f x) xs = []" "filter (\<lambda>y. f x \<le> f y) xs = xs"
      by (force simp: filter_empty_conv filter_id_conv)+
    with True show ?thesis by simp
  qed (use Cons in simp)
qed simp

lemma sort_listeners_snoc: "by_priority ls \<Longrightarrow> sort_listeners (ls @ [x]) = insert_listener x ls"
  by (simp add: sort_listeners_def by_priority_rev sort_key_id_if_sorted insort_key_filter insert_listener_def rev_filter not_le)

lemma insert_listener_low: "ln_priority x = None \<Longrightarrow> insert_listener x ls = ls @ [x]"
  by (simp add: insert_listener_def)

lemma by_priority_insert: "by_priority ls \<Longrightarrow> by_priority (insert_listener x ls)"
  by (auto simp: by_priority_def insert_listener_def sorted_wrt_append sorted_wrt_filter)

lemma by_priority_filter: "by_priority ls \<Longrightarrow> by_priority (filter P ls)"
  by (simp add: by_priority_def sorted_wrt_filter)

lemma set_insert_listener [simp]: "set (insert_listener x ls) = insert x (set ls)"
  by (auto simp: insert_listener_def)

lemma distinct_insert_listener:
  "distinct (map ln_eid ls) \<Longrightarrow> ln_eid x \<notin> ln_eid ` set ls \<Longrightarrow> distinct (map ln_eid (insert_listener x ls))"
  by (auto simp: insert_listener_def distinct_map inj_on_def)

section \<open>What the operations do to the listeners\<close>

text \<open>Every event has a list object of its own.\<close>

definition refs_ok :: "('o, 'f) mixin \<Rightarrow> bool" where
  "refs_ok mx \<longleftrightarrow> distinct (map fst (mx_handlers mx)) \<and> (\<forall>t r. map_of (mx_handlers mx) t = Some r \<longrightarrow> r < length (mx_lists mx)
     \<and> (\<forall>u. map_of (mx_handlers mx) u = Some r \<longrightarrow> u = t))"

lemma refs_okD:
  assumes "refs_ok mx" "map_of (mx_handlers mx) t = Some r"
  shows "r < length (mx_lists mx)" "map_of (mx_handlers mx) u = Some r \<longleftrightarrow> u = t"
  using assms by (auto simp: refs_ok_def)

text \<open>A new list object in the place of the old one.\<close>

definition replace_list :: "string \<Rightarrow> ('o, 'f) handler listener list \<Rightarrow> ('o, 'f) mixin \<Rightarrow> ('o, 'f) mixin" where
  "replace_list t ls mx = mx\<lparr>mx_handlers := AList.update t (length (mx_lists mx)) (mx_handlers mx), mx_lists := mx_lists mx @ [ls]\<rparr>"

lemma replace_list_simps [simp]:
  "mx_nextEventID (replace_list t ls mx) = mx_nextEventID mx" "mx_events (replace_list t ls mx) = mx_events mx"
  "mx_dead (replace_list t ls mx) = mx_dead mx" "mx_self (replace_list t ls mx) = mx_self mx"
  "mx_lists (replace_list t ls mx) = mx_lists mx @ [ls]"
  "map_of (mx_handlers (replace_list t ls mx)) = (map_of (mx_handlers mx))(t \<mapsto> length (mx_lists mx))"
  by (simp_all add: replace_list_def update_conv')

lemma replace_list_distinct: "distinct (map fst (mx_handlers mx)) \<Longrightarrow> distinct (map fst (mx_handlers (replace_list t ls mx)))"
  by (simp add: replace_list_def distinct_update)

lemma replace_list_ok: "refs_ok mx \<Longrightarrow> refs_ok (replace_list t ls mx)"
  by (fastforce simp: refs_ok_def less_Suc_eq replace_list_distinct)

lemma replace_list_listeners: "refs_ok mx \<Longrightarrow> listeners (replace_list t ls mx) = (listeners mx)(t := ls)"
  by (auto simp: listeners_def fun_eq_iff nth_append dest: refs_okD split: option.splits)

lemma keep_listeners_eq:
  "keep_listeners stays t mx = (case map_of (mx_handlers mx) t of None \<Rightarrow> (Inl KeyError, mx)
     | Some r \<Rightarrow> (Inr (length (listeners mx t) \<noteq> length (filter stays (listeners mx t))),
         replace_list t (filter stays (listeners mx t)) mx))"
  by (simp add: keep_listeners_def sm_simps replace_list_def listeners_def split: option.splits)

text \<open>
  How two states of a source differ after listeners were removed: of each event some listeners stay, in their order, and old
  list objects are as they were.
\<close>

definition filtered :: "(string \<Rightarrow> ('o, 'f) handler listener \<Rightarrow> bool) \<Rightarrow> ('o, 'f) mixin \<Rightarrow> ('o, 'f) mixin \<Rightarrow> bool" where
  "filtered P mx mx' \<longleftrightarrow> refs_ok mx' \<and> (\<forall>t. listeners mx' t = filter (P t) (listeners mx t))
     \<and> mx_nextEventID mx' = mx_nextEventID mx \<and> mx_dead mx' = mx_dead mx \<and> mx_events mx' = mx_events mx \<and> mx_self mx' = mx_self mx
     \<and> dom (map_of (mx_handlers mx')) = dom (map_of (mx_handlers mx)) \<and> (\<exists>ls. mx_lists mx' = mx_lists mx @ ls)"

lemma filtered_refl: "refs_ok mx \<Longrightarrow> filtered (\<lambda>_ _. True) mx mx"
  by (simp add: filtered_def)

lemma filtered_trans:
  "filtered P mx mx' \<Longrightarrow> filtered Q mx' mx'' \<Longrightarrow> filtered (\<lambda>t l. P t l \<and> Q t l) mx mx''"
  by (auto simp: filtered_def conj_commute)

lemma filtered_keep_listeners:
  assumes "refs_ok mx"
  shows "filtered (\<lambda>u l. u = t \<longrightarrow> stays l) mx (snd (keep_listeners stays t mx))"
proof (cases "map_of (mx_handlers mx) t")
  case None
  then show ?thesis using assms by (auto simp: keep_listeners_eq filtered_def listeners_def filter_id_conv)
next
  case (Some r)
  have "dom ((map_of (mx_handlers mx))(t \<mapsto> length (mx_lists mx))) = dom (map_of (mx_handlers mx))"
    using Some by auto
  then show ?thesis
    using Some assms by (simp add: keep_listeners_eq filtered_def replace_list_ok replace_list_listeners)
qed

lemma filtered_keep_all:
  "refs_ok mx \<Longrightarrow> set ts \<subseteq> dom (map_of (mx_handlers mx)) \<Longrightarrow>
   \<exists>a mx'. keep_all stays ts altered mx = (Inr a, mx') \<and> filtered (\<lambda>u l. u \<in> set ts \<longrightarrow> stays l) mx mx'"
proof (induction ts arbitrary: mx altered)
  case Nil
  then show ?case by (simp add: sm_simps filtered_refl)
next
  case (Cons t ts)
  then obtain a mx1 where one: "keep_listeners stays t mx = (Inr a, mx1)" and f: "filtered (\<lambda>u l. u = t \<longrightarrow> stays l) mx mx1"
    using filtered_keep_listeners [of mx t stays] by (auto simp: keep_listeners_eq split: option.splits)
  from f Cons.prems have "refs_ok mx1" "set ts \<subseteq> dom (map_of (mx_handlers mx1))"
    by (simp_all add: filtered_def)
  from Cons.IH [OF this] obtain b mx2 where "keep_all stays ts (altered \<or> a) mx1 = (Inr b, mx2)"
    and "filtered (\<lambda>u l. u \<in> set ts \<longrightarrow> stays l) mx1 mx2" by blast
  with filtered_trans [OF f this(2)] one show ?case
    by (auto simp: sm_simps elim!: rev_mp [where P = "filtered _ _ _"] intro!: arg_cong [where f = "\<lambda>P. filtered P mx mx2"])
qed

lemma filtered_cong: "filtered P mx mx' \<Longrightarrow> (\<And>t l. l \<in> set (listeners mx t) \<Longrightarrow> P t l = Q t l) \<Longrightarrow> filtered Q mx mx'"
  unfolding filtered_def using filter_cong [OF refl, of "listeners mx _" "P _" "Q _"] by simp

lemma listeners_dom: "t \<notin> dom (map_of (mx_handlers mx)) \<Longrightarrow> listeners mx t = []"
  by (auto simp: listeners_def split: option.splits)

lemma filtered_keep_everywhere:
  assumes "refs_ok mx"
  shows "\<exists>a mx'. keep_all stays (map fst (mx_handlers mx)) altered mx = (Inr a, mx') \<and> filtered (\<lambda>_. stays) mx mx'"
proof -
  have d: "set (map fst (mx_handlers mx)) = dom (map_of (mx_handlers mx))" by (simp add: dom_map_of_conv_image_fst)
  from filtered_keep_all [OF assms, of "map fst (mx_handlers mx)" stays altered] d
  obtain a mx' where k: "keep_all stays (map fst (mx_handlers mx)) altered mx = (Inr a, mx')"
    and f: "filtered (\<lambda>u l. u \<in> dom (map_of (mx_handlers mx)) \<longrightarrow> stays l) mx mx'" by auto
  have "filtered (\<lambda>_. stays) mx mx'"
    by (rule filtered_cong [OF f]) (use listeners_dom [of _ mx] in fastforce)
  with k show ?thesis by blast
qed

lemma removeListener_ByEID:
  "refs_ok mx \<Longrightarrow> \<exists>a mx'. removeListener (ByEID eid) None mx = (Inr a, mx') \<and> filtered (\<lambda>_ l. ln_eid l \<noteq> eid) mx mx'"
  using filtered_keep_everywhere [of mx "\<lambda>l. ln_eid l \<noteq> eid" False] by (simp add: removeListener_def)

lemma filtered_removeListener: "refs_ok mx \<Longrightarrow> \<exists>P. filtered P mx (snd (removeListener ref eventType mx))"
proof (cases ref)
  case (ByEID eid)
  assume ok: "refs_ok mx"
  then show ?thesis
    using ByEID removeListener_ByEID [OF ok, of eid] filtered_refl [OF ok]
    by (cases eventType) (auto simp: removeListener_def sm_simps)
next
  case (ByHandler h)
  assume ok: "refs_ok mx"
  show ?thesis
  proof (cases eventType)
    case None
    with ByHandler filtered_keep_everywhere [OF ok, of "\<lambda>l. ln_handler l \<noteq> h" False]
    show ?thesis by (auto simp: removeListener_def)
  next
    case (Some t)
    with ByHandler filtered_keep_listeners [OF ok, of t "\<lambda>l. ln_handler l \<noteq> h"]
    show ?thesis by (auto simp: removeListener_def)
  qed
qed (auto simp: removeListener_def intro: filtered_keep_listeners)

text \<open>Adding a listener\<close>

definition push_listener :: "nat \<Rightarrow> ('o, 'f) handler listener \<Rightarrow> ('o, 'f) mixin \<Rightarrow> ('o, 'f) mixin" where
  "push_listener r x mx = (let ls = mx_lists mx ! r @ [x] in
     mx\<lparr>mx_lists := (mx_lists mx)[r := (if ln_priority x = None then ls else sort_listeners ls)]\<rparr>)"

lemma push_listener_listeners:
  assumes ok: "refs_ok mx" and r: "map_of (mx_handlers mx) t = Some r" and sorted: "by_priority (listeners mx t)"
  shows "listeners (push_listener r x mx) = (listeners mx)(t := insert_listener x (listeners mx t))"
proof
  fix u
  have "mx_lists mx ! r = listeners mx t" using r by (simp add: listeners_def)
  then have new: "push_listener r x mx = mx\<lparr>mx_lists := (mx_lists mx)[r := insert_listener x (listeners mx t)]\<rparr>"
    using sorted by (simp add: push_listener_def Let_def sort_listeners_snoc insert_listener_low)
  show "listeners (push_listener r x mx) u = ((listeners mx)(t := insert_listener x (listeners mx t))) u"
  proof (cases "u = t")
    case True
    then show ?thesis using r refs_okD(1) [OF ok r] by (simp add: new) (simp add: listeners_def)
  next
    case False
    then show ?thesis using refs_okD(2) [OF ok r, of u]
      by (simp add: new) (auto simp: listeners_def split: option.splits)
  qed
qed

lemma list_object_spec:
  assumes "refs_ok mx"
  obtains r mx' where "list_object t mx = (Inr r, mx')" "refs_ok mx'" "listeners mx' = listeners mx"
    "map_of (mx_handlers mx') t = Some r" "mx_nextEventID mx' = mx_nextEventID mx" "mx_dead mx' = mx_dead mx"
    "mx_events mx' = mx_events mx"
proof (cases "map_of (mx_handlers mx) t")
  case None
  have "listeners (replace_list t [] mx) = listeners mx"
    using None assms by (simp add: replace_list_listeners listeners_def fun_eq_iff)
  moreover have "list_object t mx = (Inr (length (mx_lists mx)), replace_list t [] mx)"
    using None by (simp add: list_object_def sm_simps replace_list_def)
  ultimately show thesis using assms
    by (intro that [of "length (mx_lists mx)" "replace_list t [] mx"]) (simp_all add: replace_list_ok)
next
  case (Some r)
  with assms show thesis by (intro that) (simp_all add: list_object_def sm_simps)
qed

lemma refs_ok_same: "mx_handlers mx' = mx_handlers mx \<Longrightarrow> length (mx_lists mx') = length (mx_lists mx) \<Longrightarrow> refs_ok mx' = refs_ok mx"
  by (simp add: refs_ok_def)

lemma listeners_same: "mx_handlers mx' = mx_handlers mx \<Longrightarrow> mx_lists mx' = mx_lists mx \<Longrightarrow> listeners mx' = listeners mx"
  by (simp add: listeners_def fun_eq_iff split: option.split)

definition added :: "('o, 'f) mixin \<Rightarrow> ('o, 'f) mixin \<Rightarrow> bool" where
  "added mx mx' \<longleftrightarrow> refs_ok mx' \<and> mx_nextEventID mx' = mx_nextEventID mx + 1 \<and> mx_dead mx' = mx_dead mx"

lemma addListener_spec:
  assumes ok: "refs_ok mx" and sorted: "by_priority (listeners mx t)" and def: "defined_event t mx"
    and h: "(if weak then CallProxy_init handler (t, mx_nextEventID mx + 1) else Inr handler) = Inr h"
  shows "\<exists>mx'. addListener t handler once weak priority mx = (Inr (t, mx_nextEventID mx + 1), mx') \<and> added mx mx'
    \<and> listeners mx' = (listeners mx)(t := insert_listener
        \<lparr>ln_priority = priority, ln_handler = h, ln_once = once, ln_eid = mx_nextEventID mx + 1\<rparr> (listeners mx t))"
proof -
  let ?x = "\<lparr>ln_priority = priority, ln_handler = h, ln_once = once, ln_eid = mx_nextEventID mx + 1\<rparr>"
  obtain r mx1 where l: "list_object t mx = (Inr r, mx1)" "refs_ok mx1" "listeners mx1 = listeners mx"
    "map_of (mx_handlers mx1) t = Some r" "mx_nextEventID mx1 = mx_nextEventID mx" "mx_dead mx1 = mx_dead mx"
    by (rule list_object_spec [OF ok])
  let ?mx2 = "mx1\<lparr>mx_nextEventID := mx_nextEventID mx + 1\<rparr>"
  have 2: "refs_ok ?mx2" "listeners ?mx2 = listeners mx" "map_of (mx_handlers ?mx2) t = Some r"
    using l by (simp_all add: refs_ok_same [of ?mx2 mx1] listeners_same [of ?mx2 mx1])
  have "addListener t handler once weak priority mx = (Inr (t, mx_nextEventID mx + 1), push_listener r ?x ?mx2)"
    using l def h by (simp add: addListener_def sm_simps generateEventID_def push_listener_def Let_def)
  moreover have "added mx (push_listener r ?x ?mx2)"
    using 2 l refs_ok_same [of "push_listener r ?x ?mx2" ?mx2] by (simp add: added_def push_listener_def Let_def)
  ultimately show ?thesis
    using push_listener_listeners [of ?mx2 t r ?x] 2 sorted by auto
qed

lemma addListener_rejected:
  assumes ok: "refs_ok mx"
    and bad: "\<not> defined_event t mx \<or> (if weak then CallProxy_init handler (t, mx_nextEventID mx + 1) else Inr handler) = Inl e"
  shows "\<exists>e mx'. addListener t handler once weak priority mx = (Inl e, mx') \<and> refs_ok mx' \<and> listeners mx' = listeners mx
    \<and> mx_nextEventID mx \<le> mx_nextEventID mx' \<and> mx_dead mx' = mx_dead mx"
proof (cases "defined_event t mx")
  case False
  with ok show ?thesis by (simp add: addListener_def sm_simps)
next
  case True
  obtain r mx1 where l: "list_object t mx = (Inr r, mx1)" "refs_ok mx1" "listeners mx1 = listeners mx"
    "mx_nextEventID mx1 = mx_nextEventID mx" "mx_dead mx1 = mx_dead mx"
    by (rule list_object_spec [OF ok])
  let ?mx2 = "mx1\<lparr>mx_nextEventID := mx_nextEventID mx + 1\<rparr>"
  have "addListener t handler once weak priority mx = (Inl e, ?mx2)"
    using l True bad by (simp add: addListener_def sm_simps generateEventID_def)
  with l show ?thesis
    by (simp add: refs_ok_same [of ?mx2 mx1] listeners_same [of ?mx2 mx1])
qed

section \<open>The invariant of a source\<close>

text \<open>Each \<open>CallProxy\<close> knows its own event and identifier.\<close>

definition proxy_ok :: "string \<Rightarrow> ('o, 'f) handler listener \<Rightarrow> bool" where
  "proxy_ok t l = (case ln_handler l of CallProxy _ _ p \<Rightarrow> p = (t, ln_eid l) | _ \<Rightarrow> True)"

definition list_ok :: "int \<Rightarrow> string \<Rightarrow> ('o, 'f) handler listener list \<Rightarrow> bool" where
  "list_ok n t ls \<longleftrightarrow> by_priority ls \<and> distinct (map ln_eid ls) \<and> (\<forall>l \<in> set ls. ln_eid l \<le> n \<and> proxy_ok t l)"

definition own_eids :: "(string \<Rightarrow> ('o, 'f) handler listener list) \<Rightarrow> bool" where
  "own_eids lf \<longleftrightarrow> (\<forall>t u l m. l \<in> set (lf t) \<longrightarrow> m \<in> set (lf u) \<longrightarrow> ln_eid l = ln_eid m \<longrightarrow> t = u)"

definition wf_source :: "('o, 'f) mixin \<Rightarrow> bool" where
  "wf_source mx \<longleftrightarrow> refs_ok mx \<and> (\<forall>t. list_ok (mx_nextEventID mx) t (listeners mx t)) \<and> own_eids (listeners mx)"

lemma list_ok_filter: "list_ok n t ls \<Longrightarrow> list_ok n t (filter P ls)"
  by (auto simp: list_ok_def by_priority_filter distinct_map_filter)

lemma list_ok_mono: "list_ok n t ls \<Longrightarrow> n \<le> k \<Longrightarrow> list_ok k t ls"
  by (auto simp: list_ok_def)

lemma list_ok_insert:
  assumes "list_ok n t ls" "ln_eid x = n + 1" "proxy_ok t x"
  shows "list_ok (n + 1) t (insert_listener x ls)"
proof -
  have "ln_eid x \<notin> ln_eid ` set ls" using assms by (auto simp: list_ok_def)
  with assms show ?thesis
    by (auto simp: list_ok_def by_priority_insert intro!: distinct_insert_listener)
qed

lemma same_eid:
  "wf_source mx \<Longrightarrow> l \<in> set (listeners mx t) \<Longrightarrow> m \<in> set (listeners mx u) \<Longrightarrow> ln_eid l = ln_eid m \<Longrightarrow> t = u \<and> l = m"
  unfolding wf_source_def own_eids_def list_ok_def distinct_map inj_on_def by metis

lemma wf_filtered: "wf_source mx \<Longrightarrow> filtered P mx mx' \<Longrightarrow> wf_source mx'"
  by (auto simp: wf_source_def filtered_def list_ok_filter own_eids_def)

lemma wf_same:
  "wf_source mx \<Longrightarrow> refs_ok mx' \<Longrightarrow> listeners mx' = listeners mx \<Longrightarrow> mx_nextEventID mx \<le> mx_nextEventID mx' \<Longrightarrow> wf_source mx'"
  by (auto simp: wf_source_def intro: list_ok_mono)

lemma wf_init: "wf_source (EventMixin_init self events)"
  by (simp add: wf_source_def EventMixin_init_def refs_ok_def listeners_def list_ok_def by_priority_def own_eids_def)

definition is_proxy :: "('o, 'f) handler \<Rightarrow> bool" where
  "is_proxy h = (case h of CallProxy _ _ _ \<Rightarrow> True | _ \<Rightarrow> False)"

lemma wf_addListener:
  assumes wf: "wf_source mx" and user: "\<not> is_proxy handler"
  shows "wf_source (snd (addListener t handler once weak priority mx))"
proof (cases "defined_event t mx \<and> (\<exists>h. (if weak then CallProxy_init handler (t, mx_nextEventID mx + 1) else Inr handler) = Inr h)")
  case True
  then obtain h where def: "defined_event t mx"
    and h: "(if weak then CallProxy_init handler (t, mx_nextEventID mx + 1) else Inr handler) = Inr h" by blast
  let ?x = "\<lparr>ln_priority = priority, ln_handler = h, ln_once = once, ln_eid = mx_nextEventID mx + 1\<rparr>"
  have ls: "list_ok (mx_nextEventID mx) u (listeners mx u)" for u using wf by (simp add: wf_source_def)
  then have s: "by_priority (listeners mx t)" by (simp add: list_ok_def)
  obtain mx' where r: "addListener t handler once weak priority mx = (Inr (t, mx_nextEventID mx + 1), mx')" "added mx mx'"
    and l: "listeners mx' = (listeners mx)(t := insert_listener ?x (listeners mx t))"
    using addListener_spec [OF _ s def h, of once priority] wf by (auto simp: wf_source_def)
  have "proxy_ok t ?x"
    using h user by (auto simp: proxy_ok_def is_proxy_def CallProxy_init_def split: if_splits handler.splits)
  then have "list_ok (mx_nextEventID mx + 1) u (listeners mx' u)" for u
    using list_ok_insert [OF ls, of ?x t] list_ok_mono [OF ls, of "mx_nextEventID mx + 1" u] by (simp add: l)
  moreover have "own_eids (listeners mx')"
    using wf ls by (fastforce simp: l wf_source_def own_eids_def list_ok_def)
  ultimately show ?thesis using r by (simp add: wf_source_def added_def)
next
  case False
  then have "\<not> defined_event t mx \<or> (\<exists>e. (if weak then CallProxy_init handler (t, mx_nextEventID mx + 1) else Inr handler) = Inl e)"
    by (metis obj_sumE)
  then obtain e where "\<not> defined_event t mx \<or> (if weak then CallProxy_init handler (t, mx_nextEventID mx + 1) else Inr handler) = Inl e"
    by blast
  with addListener_rejected [of mx t weak handler e once priority] wf
  obtain e mx' where "addListener t handler once weak priority mx = (Inl e, mx')" "refs_ok mx'" "listeners mx' = listeners mx"
    "mx_nextEventID mx \<le> mx_nextEventID mx'" by (auto simp: wf_source_def)
  with wf show ?thesis by (simp add: wf_same [OF wf])
qed

lemma keeps_apply: "keeps P m \<Longrightarrow> P s \<Longrightarrow> P (snd (m s))"
  by (simp add: keeps_def)

lemma wf_removeListener: "wf_source mx \<Longrightarrow> wf_source (snd (removeListener ref t mx))"
  using filtered_removeListener [of mx ref t] wf_filtered by (metis wf_source_def)

lemma keeps_removeListener [keeps_intros]: "keeps wf_source (removeListener ref t)"
  by (rule keepsI) (rule wf_removeListener)

lemma keeps_removeListeners [keeps_intros]: "keeps wf_source (removeListeners refs altered)"
  by (induction refs arbitrary: altered) (simp_all add: keeps_intros)

lemma keeps_forgetMe [keeps_intros]: "keeps wf_source (forgetMe ps)"
  by (induction ps rule: forgetMe.induct) (auto simp: keeps_intros keeps_def sret_def wf_removeListener)

lemma wf_dead: "wf_source mx \<Longrightarrow> wf_source (mx\<lparr>mx_dead := d\<rparr>)"
  by (rule wf_same) (auto simp: wf_source_def refs_ok_same [of "mx\<lparr>mx_dead := d\<rparr>" mx] listeners_same [of "mx\<lparr>mx_dead := d\<rparr>" mx])

lemma wf_events: "wf_source mx \<Longrightarrow> wf_source (mx\<lparr>mx_events := d\<rparr>)"
  by (rule wf_same) (auto simp: wf_source_def refs_ok_same [of "mx\<lparr>mx_events := d\<rparr>" mx] listeners_same [of "mx\<lparr>mx_events := d\<rparr>" mx])

lemma wf_next: "wf_source mx \<Longrightarrow> 0 \<le> k \<Longrightarrow> wf_source (mx\<lparr>mx_nextEventID := mx_nextEventID mx + k\<rparr>)"
  by (rule wf_same) (auto simp: wf_source_def refs_ok_same [of "mx\<lparr>mx_nextEventID := mx_nextEventID mx + k\<rparr>" mx]
    listeners_same [of "mx\<lparr>mx_nextEventID := mx_nextEventID mx + k\<rparr>" mx])

lemma keeps_collect [keeps_intros]: "keeps wf_source (collect obj)"
  unfolding collect_def by (intro keeps_intros keeps_smod wf_dead)

lemma keeps_addEvent [keeps_intros]: "keeps wf_source (addEvent t)"
  unfolding addEvent_def by (intro keeps_intros keeps_smod wf_events)

lemma wf_clear: "wf_source mx \<Longrightarrow> wf_source (mx\<lparr>mx_handlers := []\<rparr>)"
  by (simp add: wf_source_def refs_ok_def listeners_def list_ok_def by_priority_def own_eids_def)

text \<open>The operations a program performs on a source; \<open>others\<close> are identifiers that other sources take.\<close>

inductive source_step :: "('o, 'f) mixin \<Rightarrow> ('o, 'f) mixin \<Rightarrow> bool" where
  step_add: "\<not> is_proxy h \<Longrightarrow> source_step mx (snd (addListener t h once weak priority mx))"
| step_remove: "source_step mx (snd (removeListener ref t mx))"
| step_removes: "source_step mx (snd (removeListeners refs altered mx))"
| step_clear: "source_step mx (snd (clearHandlers mx))"
| step_collect: "source_step mx (snd (collect obj mx))"
| step_events: "source_step mx (snd (addEvent t mx))"
| step_others: "0 \<le> k \<Longrightarrow> source_step mx (mx\<lparr>mx_nextEventID := mx_nextEventID mx + k\<rparr>)"

inductive reachable_source :: "('o, 'f) mixin \<Rightarrow> bool" where
  source_new: "reachable_source (EventMixin_init self events)"
| source_next: "reachable_source mx \<Longrightarrow> source_step mx mx' \<Longrightarrow> reachable_source mx'"

lemma wf_step: "source_step mx mx' \<Longrightarrow> wf_source mx \<Longrightarrow> wf_source mx'"
  by (induction rule: source_step.induct)
    (simp_all add: wf_addListener wf_removeListener clearHandlers_def smod_apply wf_clear wf_next keeps_apply keeps_intros)

lemma wf_reachable: "reachable_source mx \<Longrightarrow> wf_source mx"
  by (induction rule: reachable_source.induct) (simp_all add: wf_init wf_step)

section \<open>Delivery\<close>

text \<open>The delivery of an event to given listeners, one after the other until one stops it or raises.\<close>

fun deliver :: "('o, 'f, 'w, 'd) callee \<Rightarrow> ('o, 'f) handler listener list \<Rightarrow> 'd event \<Rightarrow> (('o, 'f, 'w) source, 'd event) dm" where
  "deliver call [] ev = dret ev"
| "deliver call (l # ls) ev = dbind (handle_one call l ev) (\<lambda>(stop, ev'). if stop then dret ev' else deliver call ls ev')"

lemma dbind_dlift: "dbind (dlift m) f s = (case m s of (Inl e, s') \<Rightarrow> Some (Inl e, s') | (Inr x, s') \<Rightarrow> f x s')"
  by (simp add: dbind_def dlift_def split: prod.splits sum.splits)

lemma dbind_dret [simp]: "dbind (dret x) f = f x"
  by (rule ext) (simp add: dbind_dlift sret_def)

lemma dlift_apply [sm_simps]: "dlift m s = Some (m s)"
  by (simp add: dlift_def)

lemma dbind_Some_Inr: "m s = Some (Inr x, s') \<Longrightarrow> dbind m f s = f x s'"
  by (simp add: dbind_def)

definition returns :: "('s, 'a) dm \<Rightarrow> bool" where
  "returns m \<longleftrightarrow> (\<forall>s. m s \<noteq> None)"

lemma returns_dlift: "returns (dlift m)"
  by (simp add: returns_def dlift_def)

lemma returns_dbind: "returns m \<Longrightarrow> (\<And>x. returns (f x)) \<Longrightarrow> returns (dbind m f)"
  by (auto simp: returns_def dbind_def split: option.splits prod.splits sum.splits)

lemma dbind_eq_SomeE:
  assumes "dbind m f s = Some (r, s'')"
  obtains e s' where "m s = Some (Inl e, s')" "r = Inl e" "s'' = s'" | x s' where "m s = Some (Inr x, s')" "f x s' = Some (r, s'')"
  using assms by (auto simp: dbind_def split: option.splits prod.splits sum.splits)

text \<open>One state extends another when the list objects it has are as they were.\<close>

definition extends :: "('o, 'f) mixin \<Rightarrow> ('o, 'f) mixin \<Rightarrow> bool" where
  "extends mx mx' \<longleftrightarrow> (refs_ok mx \<longrightarrow> refs_ok mx') \<and> (\<exists>ls. mx_lists mx' = mx_lists mx @ ls)"

lemma extends_refl [simp]: "extends mx mx"
  by (simp add: extends_def)

lemma extends_trans: "extends mx mx' \<Longrightarrow> extends mx' mx'' \<Longrightarrow> extends mx mx''"
  by (auto simp: extends_def)

lemma extends_nth: "extends mx mx' \<Longrightarrow> r < length (mx_lists mx) \<Longrightarrow> mx_lists mx' ! r = mx_lists mx ! r \<and> r < length (mx_lists mx')"
  by (auto simp: extends_def nth_append)

lemma filtered_extends: "filtered P mx mx' \<Longrightarrow> extends mx mx'"
  by (simp add: filtered_def extends_def)

text \<open>Operations that extend the source they run on; \<open>extending\<close> composes like \<open>keeps\<close>.\<close>

definition extending :: "('s \<Rightarrow> ('o, 'f) mixin) \<Rightarrow> ('s, 'a) sm \<Rightarrow> bool" where
  "extending rd m \<longleftrightarrow> (\<forall>s. refs_ok (rd s) \<longrightarrow> extends (rd s) (rd (snd (m s))))"

lemma extendingD: "extending rd m \<Longrightarrow> m s = (r, s') \<Longrightarrow> refs_ok (rd s) \<Longrightarrow> extends (rd s) (rd s') \<and> refs_ok (rd s')"
  by (force simp: extending_def extends_def)

lemma extending_keeps: "extending rd m \<longleftrightarrow> (\<forall>mx. refs_ok mx \<longrightarrow> keeps (\<lambda>s. refs_ok (rd s) \<and> extends mx (rd s)) m)"
proof
  assume "extending rd m"
  then show "\<forall>mx. refs_ok mx \<longrightarrow> keeps (\<lambda>s. refs_ok (rd s) \<and> extends mx (rd s)) m"
    unfolding extending_def keeps_def by (metis extends_trans extends_def)
next
  assume "\<forall>mx. refs_ok mx \<longrightarrow> keeps (\<lambda>s. refs_ok (rd s) \<and> extends mx (rd s)) m"
  then show "extending rd m" unfolding extending_def keeps_def by auto
qed

lemma extending_removeListener: "extending id (removeListener ref t)"
  unfolding extending_def using filtered_removeListener filtered_extends by fastforce

lemma extending_simple [simp]: "extending rd (sret x)" "extending rd (sraise e)" "extending rd (sget f)" "extending rd (slift r)"
  by (simp_all add: extending_keeps keeps_intros)

lemma extending_sbind: "extending rd m \<Longrightarrow> (\<And>x. extending rd (f x)) \<Longrightarrow> extending rd (sbind m f)"
  by (simp add: extending_keeps keeps_intros)

lemma extending_sthen: "extending rd m \<Longrightarrow> extending rd n \<Longrightarrow> extending rd (sthen m n)"
  by (simp add: extending_keeps keeps_intros)

lemma extending_on_mixin: "extending id m \<Longrightarrow> extending fst (on_mixin m)"
  by (simp add: extending_def on_mixin_def split: prod.splits) (metis snd_conv)

lemma extending_removeListeners: "extending id (removeListeners refs altered)"
  by (induction refs arbitrary: altered) (simp_all add: extending_sbind extending_removeListener)

lemma extending_after_call: "extending id (after_call l rv ev)"
  unfolding after_call_def remove_if_def
  by (cases rv) (simp_all add: extending_sthen extending_removeListener)

text \<open>
  Handlers that may remove listeners and do anything to the world, but add no listeners to the source: the event is delivered to
  the listeners the source had when it was raised.
\<close>

text \<open>The same for operations that may run forever\<close>

definition dextending :: "('s \<Rightarrow> ('o, 'f) mixin) \<Rightarrow> ('s, 'a) dm \<Rightarrow> bool" where
  "dextending rd m \<longleftrightarrow> (\<forall>s r s'. refs_ok (rd s) \<longrightarrow> m s = Some (r, s') \<longrightarrow> extends (rd s) (rd s') \<and> refs_ok (rd s'))"

lemma dextendingD: "dextending rd m \<Longrightarrow> m s = Some (r, s') \<Longrightarrow> refs_ok (rd s) \<Longrightarrow> extends (rd s) (rd s') \<and> refs_ok (rd s')"
  by (simp add: dextending_def)

lemma dextending_dlift: "extending rd m \<Longrightarrow> dextending rd (dlift m)"
  unfolding dextending_def dlift_def using extendingD by fastforce

lemma dextending_dbind:
  assumes m: "dextending rd m" and f: "\<And>x. dextending rd (f x)"
  shows "dextending rd (dbind m f)"
proof (unfold dextending_def, intro allI impI)
  fix s r s''
  assume ok: "refs_ok (rd s)" and "dbind m f s = Some (r, s'')"
  from this(2) show "extends (rd s) (rd s'') \<and> refs_ok (rd s'')"
  proof (rule dbind_eq_SomeE)
    fix x s' assume 1: "m s = Some (Inr x, s')" and 2: "f x s' = Some (r, s'')"
    from dextendingD [OF m 1 ok] dextendingD [OF f 2] show ?thesis using extends_trans by blast
  qed (use dextendingD [OF m _ ok] in blast)
qed

locale no_adding =
  fixes call :: "('o, 'f, 'w, 'd) callee"
  assumes call_extends: "dextending fst (call obj f ev)"
begin

lemma extending_handle_one: "dextending fst (handle_one call l ev)"
  unfolding handle_one_def call_handler_def
  by (cases "ln_handler l")
    (auto simp: call_extends intro!: dextending_dbind dextending_dlift extending_on_mixin extending_after_call extending_sbind)

lemma loop_delivers:
  "refs_ok (fst s) \<Longrightarrow> r < length (mx_lists (fst s)) \<Longrightarrow> drop i (mx_lists (fst s) ! r) = ls \<Longrightarrow> length ls < fuel
   \<Longrightarrow> raise_loop call fuel r i ev s = deliver call ls ev s"
proof (induction ls arbitrary: fuel i ev s)
  case Nil
  then show ?case by (cases fuel) (simp_all add: sm_simps)
next
  case (Cons l ls)
  from Cons.prems(4) obtain k where fuel: "fuel = Suc k" "length ls < k" by (cases fuel) auto
  have rest: "drop (Suc i) (mx_lists (fst s) ! r) = ls"
    using Cons.prems(3) by (metis drop_Suc list.sel(3) tl_drop)
  have "raise_loop call k r (Suc i) ev' s' = deliver call ls ev' s'" if one: "handle_one call l ev s = Some (Inr (stop, ev'), s')" for stop ev' s'
  proof -
    note ext = dextendingD [OF extending_handle_one one Cons.prems(1)]
    with extends_nth [of "fst s" "fst s'" r] Cons.prems(2) have
      "mx_lists (fst s') ! r = mx_lists (fst s) ! r" "r < length (mx_lists (fst s'))" by simp_all
    with Cons.IH ext fuel(2) rest show ?thesis by simp
  qed
  with Cons.prems(3) fuel(1) show ?case
    by (auto simp: dbind_def split: option.splits sum.splits prod.splits)
qed

lemma raise_delivers:
  assumes "refs_ok (fst s)" "defined_event (ev_type ev) (fst s)" "length (listeners (fst s) (ev_type ev)) < fuel"
  shows "raise_object call fuel ev s
    = dbind (deliver call (listeners (fst s) (ev_type ev)) (set_source (mx_self (fst s)) ev)) (\<lambda>ev. dret (Some ev)) s"
proof (cases "map_of (mx_handlers (fst s)) (ev_type ev)")
  case None
  with assms(2) show ?thesis by (simp add: raise_object_def set_source_def listeners_def sm_simps)
next
  case (Some r)
  then have "listeners (fst s) (ev_type ev) = mx_lists (fst s) ! r" by (simp add: listeners_def)
  with Some assms loop_delivers [OF assms(1) refs_okD(1) [OF assms(1) Some], of 0] show ?thesis
    by (simp add: raise_object_def set_source_def dbind_def)
qed

end

section \<open>Handlers of the world\<close>

text \<open>
  A handler \<open>act\<close> that changes the world and names listeners to remove; it is run on the source it listens to.
\<close>

definition world_call :: "('o option \<Rightarrow> 'f \<Rightarrow> 'd event \<Rightarrow> ('w, rv \<times> 'd event \<times> ('o, 'f) handler listener_ref list) sm)
    \<Rightarrow> ('o, 'f, 'w, 'd) callee" where
  "world_call act obj f ev = dlift (\<lambda>s. case act obj f ev (snd s) of
     (Inl e, w) \<Rightarrow> (Inl e, (fst s, w))
   | (Inr (rv, ev', refs), w) \<Rightarrow> sthen (on_mixin (removeListeners refs False)) (sret (rv, ev')) (fst s, w))"

lemma on_mixin_sret [simp]: "on_mixin (sret x) = sret x"
  by (rule ext) (simp add: on_mixin_def sret_def)

lemma extending_removals: "extending fst (sthen (on_mixin (removeListeners refs False)) (sret x))"
  by (intro extending_sthen extending_on_mixin extending_removeListeners extending_simple)

lemma extending_world_call: "dextending fst (world_call act obj f ev)"
  unfolding world_call_def
  by (rule dextending_dlift) (use extending_removals in \<open>fastforce simp: extending_def split: prod.splits sum.splits\<close>)

lemma returns_world_call: "returns (world_call act obj f ev)"
  by (simp add: world_call_def returns_dlift)

lemma returns_deliver: "returns (deliver (world_call act) ls ev)"
proof (induction ls arbitrary: ev)
  case (Cons l ls)
  have "returns (handle_one (world_call act) l ev)"
    unfolding handle_one_def call_handler_def
    by (cases "ln_handler l") (auto intro!: returns_dbind returns_dlift returns_world_call)
  then show ?case by (auto intro!: returns_dbind returns_dlift Cons.IH)
qed (simp add: returns_dlift)

interpretation wc: no_adding "world_call act" for act
  by unfold_locales (rule extending_world_call)

text \<open>Handlers that return \<open>None\<close>, leave the event alone and remove nothing\<close>

definition quietly :: "('o option \<Rightarrow> 'f \<Rightarrow> 'd event \<Rightarrow> 'w \<Rightarrow> 'w)
    \<Rightarrow> 'o option \<Rightarrow> 'f \<Rightarrow> 'd event \<Rightarrow> ('w, rv \<times> 'd event \<times> ('o, 'f) handler listener_ref list) sm" where
  "quietly g obj f ev w = (Inr (RvNone, ev, []), g obj f ev w)"

definition call_quietly :: "('o option \<Rightarrow> 'f \<Rightarrow> 'd event \<Rightarrow> 'w \<Rightarrow> 'w) \<Rightarrow> 'o list \<Rightarrow> 'd event \<Rightarrow> ('o, 'f) handler listener \<Rightarrow> 'w \<Rightarrow> 'w" where
  "call_quietly g dead ev l w = (case ln_handler l of
     Bound obj f \<Rightarrow> g (Some obj) f ev w
   | Function f \<Rightarrow> g None f ev w
   | CallProxy obj f _ \<Rightarrow> if obj \<in> set dead then w else g (Some obj) f ev w)"

lemma handle_quietly:
  assumes "refs_ok mx"
  shows "\<exists>mx'. handle_one (world_call (quietly g)) l ev (mx, w) = Some (Inr (False, ev), (mx', call_quietly g (mx_dead mx) ev l w))
    \<and> filtered (\<lambda>_ x. \<not> (ln_once l \<and> ln_eid x = ln_eid l)) mx mx'"
proof -
  have call: "call_handler (world_call (quietly g)) (ln_handler l) ev (mx, w) = Some (Inr (RvNone, ev), (mx, call_quietly g (mx_dead mx) ev l w))"
    by (cases "ln_handler l") (simp_all add: call_handler_def world_call_def quietly_def call_quietly_def sm_simps dbind_dlift on_mixin_def)
  obtain a mx' where r: "removeListener (ByEID (ln_eid l)) None mx = (Inr a, mx')" "filtered (\<lambda>_ x. ln_eid x \<noteq> ln_eid l) mx mx'"
    using removeListener_ByEID [OF assms, of "ln_eid l"] by blast
  show ?thesis
    using call r filtered_refl [OF assms]
    by (cases "ln_once l") (simp_all add: handle_one_def after_call_def remove_if_def dbind_def dlift_def sbind_def sthen_def sret_def on_mixin_def)
qed

lemma deliver_quietly:
  "refs_ok mx \<Longrightarrow> \<exists>mx'. deliver (world_call (quietly g)) ls ev (mx, w) = Some (Inr ev, (mx', fold (call_quietly g (mx_dead mx) ev) ls w))
    \<and> filtered (\<lambda>_ x. \<not> (\<exists>l \<in> set ls. ln_once l \<and> ln_eid x = ln_eid l)) mx mx'"
proof (induction ls arbitrary: mx w)
  case Nil
  then show ?case by (simp add: sm_simps filtered_refl)
next
  case (Cons l ls)
  obtain mx1 where 1: "handle_one (world_call (quietly g)) l ev (mx, w) = Some (Inr (False, ev), (mx1, call_quietly g (mx_dead mx) ev l w))"
    and f: "filtered (\<lambda>_ x. \<not> (ln_once l \<and> ln_eid x = ln_eid l)) mx mx1"
    using handle_quietly [OF Cons.prems, of g l ev w] by blast
  have "refs_ok mx1" and dead: "mx_dead mx1 = mx_dead mx" using f by (simp_all add: filtered_def)
  then obtain mx2 where 2: "deliver (world_call (quietly g)) ls ev (mx1, call_quietly g (mx_dead mx) ev l w)
      = Some (Inr ev, (mx2, fold (call_quietly g (mx_dead mx) ev) (l # ls) w))"
    and f2: "filtered (\<lambda>_ x. \<not> (\<exists>l \<in> set ls. ln_once l \<and> ln_eid x = ln_eid l)) mx1 mx2"
    using Cons.IH [of mx1 "call_quietly g (mx_dead mx) ev l w"] by auto
  have "filtered (\<lambda>_ x. \<not> (\<exists>l \<in> set (l # ls). ln_once l \<and> ln_eid x = ln_eid l)) mx mx2"
    by (rule filtered_cong [OF filtered_trans [OF f f2]]) auto
  with 1 2 show ?case by (auto simp: dbind_Some_Inr)
qed

section \<open>Collected objects\<close>

lemma forgetMe_filtered: "refs_ok mx \<Longrightarrow> filtered (\<lambda>t l. (t, ln_eid l) \<notin> set ps) mx (snd (forgetMe ps mx))"
proof (induction ps arbitrary: mx)
  case Nil
  then show ?case by (simp add: sret_apply filtered_refl)
next
  case (Cons p ps)
  obtain t eid where p: "p = (t, eid)" by (cases p)
  let ?mx1 = "snd (removeListener (ByPair t eid) None mx)"
  have f: "filtered (\<lambda>u l. u = t \<longrightarrow> ln_eid l \<noteq> eid) mx ?mx1"
    using filtered_keep_listeners [OF Cons.prems, of t "\<lambda>l. ln_eid l \<noteq> eid"] by (simp add: removeListener_def)
  then have "refs_ok ?mx1" by (simp add: filtered_def)
  from filtered_trans [OF f Cons.IH [OF this]] show ?case
    by (auto simp: p elim!: filtered_cong)
qed

lemma forget_pairs_set:
  assumes "refs_ok mx"
  shows "set (forget_pairs obj mx) = {p. \<exists>t l f. l \<in> set (listeners mx t) \<and> ln_handler l = CallProxy obj f p}"
proof -
  have mem: "l \<in> set (listeners mx t) \<longleftrightarrow> (\<exists>r. (t, r) \<in> set (mx_handlers mx) \<and> l \<in> set (mx_lists mx ! r))" for t l
    using assms by (auto simp: refs_ok_def listeners_def split: option.splits)
  have pick: "p \<in> set (proxy_pairs obj h) \<longleftrightarrow> (\<exists>f. h = CallProxy obj f p)" for p and h :: "('a, 'b) handler"
    by (cases h) auto
  show ?thesis by (rule set_eqI) (auto simp: forget_pairs_def mem pick; blast)
qed

lemma forget_pairs_iff:
  assumes wf: "wf_source mx" and l: "l \<in> set (listeners mx t)"
  shows "(t, ln_eid l) \<in> set (forget_pairs obj mx) \<longleftrightarrow> (\<exists>f p. ln_handler l = CallProxy obj f p)"
proof
  assume "(t, ln_eid l) \<in> set (forget_pairs obj mx)"
  then obtain u m f where m: "m \<in> set (listeners mx u)" "ln_handler m = CallProxy obj f (t, ln_eid l)"
    using wf forget_pairs_set by (fastforce simp: wf_source_def)
  then have "proxy_ok u m" using wf by (auto simp: wf_source_def list_ok_def)
  then have "ln_eid m = ln_eid l" using m by (simp add: proxy_ok_def)
  with same_eid [OF wf m(1) l] m show "\<exists>f p. ln_handler l = CallProxy obj f p" by auto
next
  assume "\<exists>f p. ln_handler l = CallProxy obj f p"
  then obtain f p where h: "ln_handler l = CallProxy obj f p" by blast
  have "proxy_ok t l" using wf l by (auto simp: wf_source_def list_ok_def)
  then have "p = (t, ln_eid l)" using h by (simp add: proxy_ok_def)
  with h l wf show "(t, ln_eid l) \<in> set (forget_pairs obj mx)" by (auto simp: forget_pairs_set wf_source_def)
qed

section \<open>Example sources\<close>

definition example_source :: "(nat, nat) mixin" where
  "example_source = snd (sthen (addListener ''E'' (Bound 7 1) False True (Some 3)) (sthen (addListener ''E'' (Function 2) True False (Some 9))
     (addListener ''F'' (Function 2) True False None)) (EventMixin_init 0 (Some [''E'', ''F''])))"

definition example_event :: "nat event" where
  "example_event = (Event_init ''E'' 5)\<lparr>ev_source := Some 0\<rparr>"

lemma example_source_reachable: "reachable_source example_source"
proof -
  have built: "example_source = snd (addListener ''F'' (Function 2) True False None
     (snd (addListener ''E'' (Function 2) True False (Some 9)
       (snd (addListener ''E'' (Bound 7 1) False True (Some 3) (EventMixin_init 0 (Some [''E'', ''F''])))))))"
    by code_simp
  show ?thesis
    by (subst built) (intro source_next [OF _ step_add] source_new; simp add: is_proxy_def)
qed

lemma example_listeners: "length (listeners example_source ''E'') = 2" "defined_event ''E'' example_source" "ev_type example_event = ''E''"
  "ev_source example_event = Some 0"
  by code_simp+

text \<open>A handler that adds a listener with a priority to the event it handles, and a source with it as the only listener\<close>

definition adding_call :: "(nat, nat, unit, 'd) callee" where
  "adding_call obj f ev = dlift (sthen (on_mixin (addListener (ev_type ev) (Function 1) False False (Some 5))) (sret (RvNone, ev)))"

definition single_source :: "(nat, nat) mixin" where
  "single_source = snd (addListener ''E'' (Function 0) False False None (EventMixin_init 0 None))"

text \<open>After \<open>i\<close> calls the handler is at position \<open>i\<close> of the list object, behind what it added.\<close>

definition behind :: "nat \<Rightarrow> string \<Rightarrow> nat \<Rightarrow> (nat, nat) mixin \<Rightarrow> bool" where
  "behind i t r mx \<longleftrightarrow> mx_events mx = None \<and> map_of (mx_handlers mx) t = Some r \<and> r < length (mx_lists mx)
     \<and> (\<exists>xs l. mx_lists mx ! r = xs @ [l] \<and> length xs = i \<and> (\<forall>x \<in> set xs. ln_priority x = Some 5)
        \<and> ln_priority l = None \<and> ln_handler l = Function 0 \<and> \<not> ln_once l)"

lemma adding_moves_on:
  assumes "behind i (ev_type ev) r mx"
  shows "\<exists>l mx'. drop i (mx_lists mx ! r) = [l] \<and> handle_one adding_call l ev (mx, ()) = Some (Inr (False, ev), (mx', ()))
    \<and> behind (Suc i) (ev_type ev) r mx'"
proof -
  obtain xs l where ls: "mx_lists mx ! r = xs @ [l]" "length xs = i" "\<forall>x \<in> set xs. ln_priority x = Some 5"
    "ln_priority l = None" "ln_handler l = Function 0" "\<not> ln_once l"
    and mx: "mx_events mx = None" "map_of (mx_handlers mx) (ev_type ev) = Some r" "r < length (mx_lists mx)"
    using assms by (auto simp: behind_def)
  let ?x = "\<lparr>ln_priority = Some 5, ln_handler = Function 1, ln_once = False, ln_eid = mx_nextEventID mx + 1\<rparr>"
  let ?mx' = "mx\<lparr>mx_nextEventID := mx_nextEventID mx + 1, mx_lists := (mx_lists mx)[r := (xs @ [?x]) @ [l]]\<rparr>"
  have "by_priority (xs @ [l])" using ls
    by (auto simp: by_priority_def sorted_wrt_append intro: sorted_wrt_mono_rel [OF _ sorted_wrt_true])
  then have "sort_listeners ((xs @ [l]) @ [?x]) = insert_listener ?x (xs @ [l])" by (rule sort_listeners_snoc)
  also have "\<dots> = (xs @ [?x]) @ [l]"
    using ls by (simp add: insert_listener_def filter_id_conv filter_empty_conv)
  finally have "addListener (ev_type ev) (Function 1) False False (Some 5) mx = (Inr (ev_type ev, mx_nextEventID mx + 1), ?mx')"
    using mx ls by (simp add: addListener_def defined_event_def list_object_def generateEventID_def sm_simps Let_def)
  then have "handle_one adding_call l ev (mx, ()) = Some (Inr (False, ev), (?mx', ()))"
    using ls by (simp add: handle_one_def call_handler_def adding_call_def after_call_def remove_if_def on_mixin_def dbind_def dlift_def sbind_def sthen_def sret_def)
  moreover have "behind (Suc i) (ev_type ev) r ?mx'"
    unfolding behind_def using mx ls by (intro conjI exI [of _ "xs @ [?x]"] exI [of _ l]) auto
  ultimately show ?thesis using ls by auto
qed

lemma adding_never_ends: "behind i (ev_type ev) r mx \<Longrightarrow> raise_loop adding_call fuel r i ev (mx, ()) = None"
proof (induction fuel arbitrary: i mx)
  case (Suc fuel)
  from adding_moves_on [OF Suc.prems] obtain l mx' where
    "drop i (mx_lists mx ! r) = [l]" "handle_one adding_call l ev (mx, ()) = Some (Inr (False, ev), (mx', ()))"
    "behind (Suc i) (ev_type ev) r mx'" by blast
  with Suc.IH show ?case by (simp add: dbind_Some_Inr)
qed simp

lemma single_source_behind: "behind 0 ''E'' 0 single_source"
proof -
  have "mx_events single_source = None" "map_of (mx_handlers single_source) ''E'' = Some 0" "length (mx_lists single_source) = 1"
    "mx_lists single_source ! 0 = [] @ [\<lparr>ln_priority = None, ln_handler = Function 0, ln_once = False, ln_eid = 1\<rparr>]"
    by code_simp+
  then show ?thesis unfolding behind_def by auto
qed

section \<open>Properties\<close>

text \<open>
  C18: Whatever is done to a source, the listeners of each event are in the order of their priorities, no two listeners of
  the source have the same identifier, and a new listener goes behind those of the same or a higher priority.
\<close>

theorem listeners_ordered:
  assumes "reachable_source mx"
  shows "by_priority (listeners mx t) \<and> distinct (map ln_eid (listeners mx t))
    \<and> (\<forall>u. u \<noteq> t \<longrightarrow> set (map ln_eid (listeners mx t)) \<inter> set (map ln_eid (listeners mx u)) = {})
    \<and> (defined_event t mx \<longrightarrow> (\<exists>mx'. addListener t h once False priority mx = (Inr (t, mx_nextEventID mx + 1), mx')
        \<and> listeners mx' = (listeners mx)(t := insert_listener
            \<lparr>ln_priority = priority, ln_handler = h, ln_once = once, ln_eid = mx_nextEventID mx + 1\<rparr> (listeners mx t))))"
proof -
  have wf: "refs_ok mx" "list_ok (mx_nextEventID mx) t (listeners mx t)" "own_eids (listeners mx)"
    using wf_reachable [OF assms] by (simp_all add: wf_source_def)
  then have "by_priority (listeners mx t)" "distinct (map ln_eid (listeners mx t))" by (simp_all add: list_ok_def)
  moreover have "u \<noteq> t \<longrightarrow> set (map ln_eid (listeners mx t)) \<inter> set (map ln_eid (listeners mx u)) = {}" for u
    using wf(3) by (fastforce simp: own_eids_def)
  moreover have "defined_event t mx \<longrightarrow> (\<exists>mx'. addListener t h once False priority mx = (Inr (t, mx_nextEventID mx + 1), mx')
        \<and> listeners mx' = (listeners mx)(t := insert_listener
            \<lparr>ln_priority = priority, ln_handler = h, ln_once = once, ln_eid = mx_nextEventID mx + 1\<rparr> (listeners mx t)))"
    using addListener_spec [OF wf(1) calculation(1), of False h h once priority] by auto
  ultimately show ?thesis by blast
qed

theorem listeners_ordered_witness:
  "by_priority (listeners example_source ''E'') \<and> map ln_priority (listeners example_source ''E'') = [Some 9, Some 3]"
proof
  show "map ln_priority (listeners example_source ''E'') = [Some 9, Some 3]" by code_simp
qed (use listeners_ordered [OF example_source_reachable, of "''E''"] in blast)

text \<open>
  C19: Raising an event ends, and has the effect of delivering it to the listeners the source had at that moment, whatever the
  handlers do to the world and whichever listeners they remove.
\<close>

theorem raise_calls_snapshot:
  assumes "reachable_source mx" and "defined_event (ev_type ev) mx" and "length (listeners mx (ev_type ev)) < fuel"
  shows "raiseEvent (world_call act) fuel (EventObject ev) (mx, w)
    = dbind (deliver (world_call act) (listeners mx (ev_type ev)) (set_source (mx_self mx) ev)) (\<lambda>ev. dret (Some ev)) (mx, w)
    \<and> raiseEvent (world_call act) fuel (EventObject ev) (mx, w) \<noteq> None"
proof -
  have "returns (dbind (deliver (world_call act) (listeners mx (ev_type ev)) (set_source (mx_self mx) ev)) (\<lambda>ev. dret (Some ev)))"
    by (intro returns_dbind returns_deliver returns_dlift)
  then have "dbind (deliver (world_call act) (listeners mx (ev_type ev)) (set_source (mx_self mx) ev)) (\<lambda>ev. dret (Some ev)) (mx, w) \<noteq> None"
    unfolding returns_def by blast
  with wc.raise_delivers [of "(mx, w)" ev fuel act] assms wf_reachable [OF assms(1)] show ?thesis
    by (simp add: raiseEvent_def wf_source_def)
qed

theorem raise_calls_snapshot_witness:
  "raiseEvent (world_call (\<lambda>_ f ev w. (Inr (RvNone, ev, [ByHandler (Function 2)]), w @ [f]))) 3 (EventObject example_event) (example_source, [])
    = dbind (deliver (world_call (\<lambda>_ f ev w. (Inr (RvNone, ev, [ByHandler (Function 2)]), w @ [f])))
        (listeners example_source ''E'') example_event) (\<lambda>ev. dret (Some ev)) (example_source, [])"
  using raise_calls_snapshot [OF example_source_reachable, of example_event 3
      "\<lambda>_ f ev w. (Inr (RvNone, ev, [ByHandler (Function 2)]), w @ [f])" "[]"] example_listeners
  by (simp add: set_source_def)

text \<open>
  When the handlers of an event return nothing and leave the source alone, all of them are called, in their order and
  once each, and afterwards exactly the listeners added with \<open>once\<close> are gone.
\<close>

theorem quiet_raise:
  assumes reach: "reachable_source mx" and def: "defined_event (ev_type ev) mx" and fuel: "length (listeners mx (ev_type ev)) < fuel"
    and src: "ev_source ev \<noteq> None"
  shows "\<exists>mx'. raiseEvent (world_call (quietly g)) fuel (EventObject ev) (mx, w)
      = Some (Inr (Some ev), (mx', fold (call_quietly g (mx_dead mx) ev) (listeners mx (ev_type ev)) w))
    \<and> (\<forall>t. listeners mx' t = filter (\<lambda>l. \<not> (t = ev_type ev \<and> ln_once l)) (listeners mx t))"
proof -
  let ?ls = "listeners mx (ev_type ev)"
  note wf = wf_reachable [OF reach]
  then have ok: "refs_ok mx" by (simp add: wf_source_def)
  obtain mx' where d: "deliver (world_call (quietly g)) ?ls ev (mx, w) = Some (Inr ev, (mx', fold (call_quietly g (mx_dead mx) ev) ?ls w))"
    and f: "filtered (\<lambda>_ x. \<not> (\<exists>l \<in> set ?ls. ln_once l \<and> ln_eid x = ln_eid l)) mx mx'"
    using deliver_quietly [OF ok, of g ?ls ev w] by blast
  have "filtered (\<lambda>t l. \<not> (t = ev_type ev \<and> ln_once l)) mx mx'"
  proof (rule filtered_cong [OF f])
    fix t l assume "l \<in> set (listeners mx t)"
    then show "(\<not> (\<exists>m \<in> set ?ls. ln_once m \<and> ln_eid l = ln_eid m)) = (\<not> (t = ev_type ev \<and> ln_once l))"
      using same_eid [OF wf] by blast
  qed
  moreover have "raiseEvent (world_call (quietly g)) fuel (EventObject ev) (mx, w)
      = Some (Inr (Some ev), (mx', fold (call_quietly g (mx_dead mx) ev) ?ls w))"
    using wc.raise_delivers [of "(mx, w)" ev fuel "quietly g"] ok def fuel src d by (auto simp: raiseEvent_def set_source_def dbind_Some_Inr sm_simps)
  ultimately show ?thesis by (auto simp: filtered_def)
qed

theorem quiet_raise_witness:
  "\<exists>mx'. raiseEvent (world_call (quietly (\<lambda>_ f ev w. w @ [f]))) 3 (EventObject example_event) (example_source, [])
      = Some (Inr (Some example_event), (mx', [2, 1]))
    \<and> map ln_eid (listeners mx' ''E'') = [1] \<and> map ln_eid (listeners mx' ''F'') = [3]"
proof -
  have "fold (call_quietly (\<lambda>_ f ev w. w @ [f]) (mx_dead example_source) example_event) (listeners example_source ''E'') [] = [2, 1]"
    "map ln_eid (filter (\<lambda>l. \<not> ln_once l) (listeners example_source ''E'')) = [1]" "map ln_eid (listeners example_source ''F'') = [3]"
    by code_simp+
  then show ?thesis
    using quiet_raise [OF example_source_reachable, of example_event 3 "\<lambda>_ f ev w. w @ [f]" "[]"] example_listeners by auto
qed

text \<open>
  C22: A weak listener ends with its object: in every state that a source reaches by adding, removing and clearing listeners and by the end of other
  objects, once an object is collected no listener of the source calls it any more, and all other listeners stay, in their order.
\<close>

theorem collected_listeners_gone:
  assumes "reachable_source mx"
  shows "\<exists>mx'. collect obj mx = (Inr (), mx')
    \<and> (\<forall>t. listeners mx' t = filter (\<lambda>l. \<not> (\<exists>f p. ln_handler l = CallProxy obj f p)) (listeners mx t))"
proof -
  let ?dead = "mx\<lparr>mx_dead := List.insert obj (mx_dead mx)\<rparr>" and ?ps = "forget_pairs obj mx"
  note wf = wf_reachable [OF assms]
  then have ok: "refs_ok ?dead" using wf_dead by (auto simp: wf_source_def)
  have "fst (forgetMe ps s) = Inr ()" for ps and s :: "('a, 'b) mixin"
    by (induction ps arbitrary: s rule: forgetMe.induct) (simp_all add: sret_apply)
  then have run: "collect obj mx = (Inr (), snd (forgetMe ?ps ?dead))"
    by (simp add: collect_def prod_eq_iff)
  have "listeners ?dead = listeners mx" by (rule listeners_same) simp_all
  then have "listeners (snd (forgetMe ?ps ?dead)) t = filter (\<lambda>l. (t, ln_eid l) \<notin> set ?ps) (listeners mx t)" for t
    using forgetMe_filtered [OF ok, of ?ps] by (simp add: filtered_def)
  also have "\<dots> t = filter (\<lambda>l. \<not> (\<exists>f p. ln_handler l = CallProxy obj f p)) (listeners mx t)" for t
    by (rule filter_cong) (simp_all add: forget_pairs_iff [OF wf])
  finally show ?thesis using run by blast
qed

theorem collected_listeners_gone_witness:
  "\<exists>mx'. collect 7 example_source = (Inr (), mx') \<and> map ln_handler (listeners mx' ''E'') = [Function 2]"
proof -
  have "listeners example_source ''E'' = [\<lparr>ln_priority = Some 9, ln_handler = Function 2, ln_once = True, ln_eid = 2\<rparr>,
    \<lparr>ln_priority = Some 3, ln_handler = CallProxy 7 1 (''E'', 1), ln_once = False, ln_eid = 1\<rparr>]" by code_simp
  then show ?thesis
    using collected_listeners_gone [OF example_source_reachable, of 7] by auto
qed

text \<open>
  The list of listeners is not copied before a raise.  An example: a source with one listener, a function without a priority that adds a
  listener with one to the event it handles.  Each time it is moved behind the new listener and called again, so the raise does not end.
\<close>

theorem raise_not_copied:
  "raiseEvent adding_call fuel (EventObject (Event_init ''E'' d)) (single_source, ()) = None"
proof -
  have "mx_events single_source = None" "map_of (mx_handlers single_source) ''E'' = Some 0" "mx_self single_source = 0"
    by code_simp+
  then show ?thesis
    using adding_never_ends [of 0 "set_source 0 (Event_init ''E'' d)" 0 single_source fuel] single_source_behind
    by (simp add: raiseEvent_def raise_object_def defined_event_def set_source_def Event_init_def dbind_def)
qed

end
