(* ===== verification/Of_Controller_Laws.thy ===== *)
theory Of_Controller_Laws
  imports Of_Controller Revent_Laws Switch_Laws
begin

text \<open>
  Laws of the controller's end of a connection: what it makes of a stream of bytes does not depend on how the network cuts it;
  the handshake; the assembly of statistics.
\<close>

section \<open>Operations that do not look at a part of the state\<close>

text \<open>\<open>commutes\<close> of theory \<open>Py_State\<close> for operations that may run forever\<close>

definition dcommutes :: "('s \<Rightarrow> 's) \<Rightarrow> ('s, 'a) dm \<Rightarrow> bool" where
  "dcommutes u m \<longleftrightarrow> (\<forall>s. m (u s) = map_option (apsnd u) (m s))"

named_theorems dcommutes_intros

lemma dcommutesD: "dcommutes u m \<Longrightarrow> m (u s) = map_option (apsnd u) (m s)"
  by (simp add: dcommutes_def)

lemma dcommutes_dlift: "commutes u m \<Longrightarrow> dcommutes u (dlift m)"
  by (simp add: dcommutes_def commutes_def dlift_def apsnd_def map_prod_def split: prod.splits)

lemma dcommutes_dret [dcommutes_intros]: "dcommutes u (dret x)"
  by (intro dcommutes_dlift commutes_intros)

lemma dcommutes_dslift [dcommutes_intros]: "dcommutes u (dlift (slift r))"
  by (intro dcommutes_dlift commutes_intros)

lemma dcommutes_draise [dcommutes_intros]: "dcommutes u (dlift (sraise e))"
  by (intro dcommutes_dlift commutes_intros)

lemma dcommutes_dget: "(\<And>s. g (u s) = g s) \<Longrightarrow> dcommutes u (dlift (sget g))"
  by (intro dcommutes_dlift commutes_sget)

lemma dcommutes_dmod: "(\<And>s. h (u s) = u (h s)) \<Longrightarrow> dcommutes u (dlift (smod h))"
  by (intro dcommutes_dlift commutes_smod)

lemma dcommutes_dbind [dcommutes_intros]: "dcommutes u m \<Longrightarrow> (\<And>x. dcommutes u (f x)) \<Longrightarrow> dcommutes u (dbind m f)"
  unfolding dcommutes_def dbind_def by (simp split: option.split prod.split sum.split)

lemma dcommutes_dthen [dcommutes_intros]: "dcommutes u m \<Longrightarrow> dcommutes u n \<Longrightarrow> dcommutes u (dthen m n)"
  unfolding dthen_def by (intro dcommutes_dbind)

lemma dcommutes_if [dcommutes_intros]: "(b \<Longrightarrow> dcommutes u m) \<Longrightarrow> (\<not> b \<Longrightarrow> dcommutes u n) \<Longrightarrow> dcommutes u (if b then m else n)"
  by simp

lemma dcommutes_option [dcommutes_intros]:
  "(v = None \<Longrightarrow> dcommutes u m) \<Longrightarrow> (\<And>x. v = Some x \<Longrightarrow> dcommutes u (f x)) \<Longrightarrow> dcommutes u (case v of None \<Rightarrow> m | Some x \<Rightarrow> f x)"
  by (cases v) simp_all

lemma dcommutes_prod [dcommutes_intros]: "(\<And>x y. dcommutes u (f x y)) \<Longrightarrow> dcommutes u (case v of (x, y) \<Rightarrow> f x y)"
  by (cases v) simp

text \<open>What the handlers of a source do not look at, a raise does not look at.\<close>

lemma commutes_on_mixin: "commutes (apsnd u) (on_mixin m)"
  by (simp add: commutes_def on_mixin_def apsnd_def map_prod_def split: prod.splits)

lemma dcommutes_handle_one:
  assumes "\<And>obj f ev. dcommutes (apsnd u) (call obj f ev)"
  shows "dcommutes (apsnd u) (handle_one call l ev)"
  unfolding handle_one_def call_handler_def
  by (cases "ln_handler l")
    (auto intro!: dcommutes_intros dcommutes_dlift commutes_sget commutes_intros commutes_on_mixin assms)

lemma dcommutes_raise_loop:
  assumes "\<And>obj f ev. dcommutes (apsnd u) (call obj f ev)"
  shows "dcommutes (apsnd u) (raise_loop call fuel r i ev)"
proof (induction fuel arbitrary: i ev)
  case 0
  then show ?case by (simp add: dcommutes_def)
next
  case (Suc fuel)
  have "dcommutes (apsnd u) (dbind (handle_one call l ev) (\<lambda>(stop, ev'). if stop then dret ev' else raise_loop call fuel r (Suc i) ev'))" for l
    by (intro dcommutes_intros dcommutes_handle_one assms Suc.IH)
  then show ?case unfolding dcommutes_def by (auto split: list.splits)
qed

lemma dcommutes_raise_object:
  assumes "\<And>obj f ev. dcommutes (apsnd u) (call obj f ev)"
  shows "dcommutes (apsnd u) (raise_object call fuel ev)"
proof -
  have "dcommutes (apsnd u) (dbind (raise_loop call fuel r 0 ev) (\<lambda>ev. dret (Some ev)))" for r ev
    by (intro dcommutes_intros dcommutes_raise_loop assms)
  then show ?thesis unfolding dcommutes_def raise_object_def Let_def by (auto split: option.splits)
qed

lemma dcommutes_raiseEventNoErrors:
  assumes "\<And>obj f ev. dcommutes (apsnd u) (call obj f ev)"
  shows "dcommutes (apsnd u) (raiseEventNoErrors call fuel arg)"
proof -
  note o = dcommutes_raise_object [of u call, OF assms]
  have "dcommutes (apsnd u) (raiseEvent call fuel arg)"
    using o unfolding dcommutes_def raiseEvent_def by (auto split: event_arg.splits sum.splits)
  then show ?thesis
    unfolding dcommutes_def raiseEventNoErrors_def by (simp split: option.splits sum.splits prod.splits)
qed

lemma dcommutes_raise_in:
  assumes "\<And>st. rd (u st) = rd st" "\<And>mx st. wr mx (u st) = u (wr mx st)" "\<And>f ev. dcommutes u (call f ev)"
  shows "dcommutes u (raise_in rd wr call fuel arg)"
proof -
  have "dcommutes (apsnd u) (through rd wr call obj f ev)" for obj f ev
    using assms(3) [of f ev] unfolding dcommutes_def through_def
    by (simp add: assms(1, 2) option.map_comp comp_def case_prod_unfold)
  from dcommutesD [OF dcommutes_raiseEventNoErrors [of u "through rd wr call", OF this]]
  have "raiseEventNoErrors (through rd wr call) fuel arg (rd st, u st)
      = map_option (apsnd (apsnd u)) (raiseEventNoErrors (through rd wr call) fuel arg (rd st, st))" for st
    by (metis apsnd_conv)
  then show ?thesis
    unfolding dcommutes_def raise_in_def by (simp add: assms(1, 2) option.map_comp comp_def case_prod_unfold)
qed

section \<open>Handlers and the receive buffer\<close>

definition set_buf :: "bytes \<Rightarrow> ('g, 'z) controller_scheme \<Rightarrow> ('g, 'z) controller_scheme" where
  "set_buf b st = st\<lparr>con_buf := b\<rparr>"

text \<open>Listeners that do not look at the receive buffer: then no handler of a message does.\<close>

lemma blind_send [commutes_intros]: "commutes (set_buf b) (con_send pack m)"
  unfolding con_send_def connection_send_def
  by (intro commutes_intros commutes_sget commutes_smod) (auto simp: set_buf_def intro!: commutes_intros commutes_sget commutes_smod)

lemma blind_send_packed [commutes_intros]: "commutes (set_buf b) (con_send_packed pack m)"
  unfolding con_send_packed_def
  by (intro commutes_intros commutes_sget commutes_smod) (auto simp: set_buf_def Let_def)

lemma blind_on_con [commutes_intros]: "commutes (set_buf b) (on_con m)"
  by (simp add: commutes_def on_con_def set_buf_def split: prod.splits)

lemma blind_begin_handshake [commutes_intros]: "commutes (set_buf b) (begin_handshake msg)"
  unfolding begin_handshake_def
  by (auto simp: set_buf_def [abs_def] intro!: commutes_intros [unfolded set_buf_def [abs_def]] commutes_sget commutes_smod)

lemma blind_try_except: "commutes u m \<Longrightarrow> commutes u (try_except m)"
  by (simp add: commutes_def try_except_def)

lemma blind_nexus_disconnect [commutes_intros]: "commutes (set_buf b) (nexus_disconnect dpid)"
  unfolding nexus_disconnect_def by (auto simp: set_buf_def intro!: commutes_intros commutes_sget commutes_smod)

locale buffer_blind =
  fixes call :: "('g, 'z) call"
  assumes call_blind: "dcommutes (set_buf b) (call f ev)"
begin

lemma blind_raise_in:
  "dcommutes (set_buf b) (raise_in con_mixin set_con_mixin call fuel arg)"
  "dcommutes (set_buf b) (raise_in nexus_mixin set_nexus_mixin call fuel arg)"
  by (intro dcommutes_raise_in call_blind; simp add: set_buf_def set_con_mixin_def set_nexus_mixin_def)+

lemma blind_nexus_raise: "dcommutes (set_buf b) (nexus_raise call fuel arg)"
  unfolding nexus_raise_def by (intro dcommutes_intros dcommutes_dget blind_raise_in) (simp add: set_buf_def)

lemma blind_raise_both: "dcommutes (set_buf b) (raise_both call fuel e)"
  unfolding raise_both_def con_raise_def by (intro dcommutes_intros blind_nexus_raise blind_raise_in)

lemma blind_disconnect: "dcommutes (set_buf b) (con_disconnect call fuel)"
  unfolding con_disconnect_def
  by (intro dcommutes_intros dcommutes_dget dcommutes_dmod dcommutes_dlift blind_nexus_raise)
    (auto simp: set_buf_def intro!: commutes_intros blind_try_except [unfolded set_buf_def] blind_nexus_disconnect [unfolded set_buf_def])

lemma blind_finish_connecting: "dcommutes (set_buf b) (finish_connecting call fuel now k e)"
  unfolding finish_connecting_def
  by (intro dcommutes_intros dcommutes_dget dcommutes_dmod dcommutes_dlift commutes_intros blind_disconnect blind_raise_both)
    (auto simp: set_buf_def)

lemma blind_also_finish_connecting: "dcommutes (set_buf b) (also_finish_connecting call fuel now k e)"
  unfolding also_finish_connecting_def
  by (intro dcommutes_intros dcommutes_dget)
    (auto simp: set_buf_def [of b] split: of_event.split intro!: dcommutes_intros blind_finish_connecting)

lemma blind_features: "dcommutes (set_buf b) (handle_FEATURES_REPLY call fuel msg)"
  unfolding handle_FEATURES_REPLY_def
  by (intro dcommutes_intros dcommutes_dget dcommutes_dmod dcommutes_dlift commutes_intros commutes_sget commutes_smod blind_disconnect)
    (auto simp: set_buf_def nexus_connect_def intro!: commutes_intros commutes_smod)

lemma blind_incoming_stats: "dcommutes (set_buf b) (incoming_stats_reply call fuel ofp)"
  unfolding incoming_stats_reply_def Let_def
  by (intro dcommutes_intros dcommutes_dget dcommutes_dmod dcommutes_dlift commutes_intros commutes_smod blind_raise_both)
    (auto simp: set_buf_def intro!: commutes_intros commutes_smod)

lemma blind_handle: "dcommutes (set_buf b) (handle_con_msg call fuel m)"
  by (cases m)
    (auto simp: handle_HELLO_def handle_ECHO_REQUEST_def handle_STATS_REPLY_def
      intro!: dcommutes_intros dcommutes_dlift commutes_intros blind_raise_both blind_features blind_incoming_stats)

lemma handle_keeps_buf: "handle_con_msg call fuel m st = Some (r, st') \<Longrightarrow> con_buf st' = con_buf st"
proof -
  assume h: "handle_con_msg call fuel m st = Some (r, st')"
  have "set_buf (con_buf st) st = st" by (simp add: set_buf_def)
  with dcommutesD [OF blind_handle [of "con_buf st" fuel m], of st] h have "st' = set_buf (con_buf st) st'" by simp
  then have "con_buf st' = con_buf (set_buf (con_buf st) st')" by simp
  then show ?thesis by (simp add: set_buf_def)
qed

end

section \<open>Streams\<close>

text \<open>A frame whose message is read from its own bytes, whatever follows\<close>

definition self_delimiting :: "bytes \<Rightarrow> con_msg \<Rightarrow> bool" where
  "self_delimiting f m \<longleftrightarrow> 4 < length f \<and> uint (f ! 0) = OFP_VERSION \<and> frame_len f = length f
     \<and> (\<forall>rest. unpack_con_msg (uint (f ! 1)) (f @ rest) = Inr m)"

text \<open>The messages of a stream, handled one after the other; an exception of a handler is logged.\<close>

fun handle_all :: "('g, 'z) call \<Rightarrow> nat \<Rightarrow> con_msg list \<Rightarrow> (('g, 'z) controller_scheme, unit) dm" where
  "handle_all call fuel [] st = Some (Inr (), st)"
| "handle_all call fuel (m # ms) st = (case handle_con_msg call fuel m st of
     None \<Rightarrow> None
   | Some (_, st') \<Rightarrow> handle_all call fuel ms st')"

text \<open>The successive calls of \<open>read\<close> for the pieces in which the bytes arrive\<close>

fun con_reads :: "nat \<Rightarrow> ('g, 'z) call \<Rightarrow> nat \<Rightarrow> bytes list \<Rightarrow> (('g, 'z) controller_scheme, bool) dm" where
  "con_reads n call fuel [] = dret True"
| "con_reads n call fuel (d # ds) = dbind (con_read n (\<lambda>_. call) fuel d) (\<lambda>ok. if ok then con_reads n call fuel ds else dret False)"

text \<open>What may be left in the buffer\<close>

definition unfinished :: "bytes \<Rightarrow> bool" where
  "unfinished b \<longleftrightarrow> length b \<le> 4 \<or> uint (b ! 0) = OFP_VERSION \<and> length b < frame_len b"

lemma unfinished_prefix:
  assumes "self_delimiting f m" "f = b @ c" "c \<noteq> []"
  shows "unfinished b"
proof (cases "length b \<le> 4")
  case False
  then have "b \<noteq> []" "2 < length b" "3 < length b" by auto
  with assms show ?thesis by (auto simp: self_delimiting_def unfinished_def frame_len_def nth_append)
qed (simp add: unfinished_def)

lemma frames_prefix:
  assumes "xs @ ys = concat fs"
  shows "\<exists>k part. xs = concat (take k fs) @ part \<and> k \<le> length fs \<and> part @ ys = concat (drop k fs)
    \<and> (k = length fs \<and> part = [] \<or> k < length fs \<and> (\<exists>c. fs ! k = part @ c \<and> c \<noteq> []))"
  using assms
proof (induction fs arbitrary: xs)
  case Nil
  then show ?case by simp
next
  case (Cons f fs)
  show ?case
  proof (cases "length f \<le> length xs")
    case True
    with Cons.prems obtain zs where zs: "xs = f @ zs" by (auto simp: append_eq_append_conv2 append_eq_conv_conj)
    with Cons.prems have "zs @ ys = concat fs" by simp
    from Cons.IH [OF this] obtain k part where "zs = concat (take k fs) @ part" "k \<le> length fs" "part @ ys = concat (drop k fs)"
      "k = length fs \<and> part = [] \<or> k < length fs \<and> (\<exists>c. fs ! k = part @ c \<and> c \<noteq> [])" by blast
    with zs show ?thesis by (intro exI [of _ "Suc k"] exI [of _ part]) auto
  next
    case False
    with Cons.prems obtain c where "f = xs @ c" "c \<noteq> []" by (auto simp: append_eq_append_conv2)
    with Cons.prems show ?thesis by (intro exI [of _ 0] exI [of _ xs]) auto
  qed
qed

lemma handle_all_append:
  "handle_all call fuel (ms @ ns) st = (case handle_all call fuel ms st of None \<Rightarrow> None | Some (_, st') \<Rightarrow> handle_all call fuel ns st')"
  by (induction ms arbitrary: st) (auto split: option.splits)

context buffer_blind
begin

lemma blind_handle_all: "dcommutes (set_buf b) (handle_all call fuel ms)"
proof (induction ms)
  case (Cons m ms)
  then show ?case using blind_handle [of b fuel m] unfolding dcommutes_def
    by (auto split: option.splits)
qed (simp add: dcommutes_def)

lemma loop_frames:
  "con_buf st = concat (map fst fms) @ part \<Longrightarrow> \<forall>(f, m) \<in> set fms. self_delimiting f m \<Longrightarrow> unfinished part \<Longrightarrow> length fms < n
   \<Longrightarrow> con_read_loop n (\<lambda>_. call) fuel st
     = map_option (\<lambda>(_, st'). (Inr True, set_buf part st')) (handle_all call fuel (map snd fms) st)"
proof (induction fms arbitrary: n st)
  case Nil
  have "set_buf part st = st" using Nil.prems(1) by (simp add: set_buf_def)
  with Nil.prems show ?case by (cases n) (auto simp: unfinished_def Let_def)
next
  case (Cons fm fms)
  obtain f m where fm: "fm = (f, m)" by (cases fm)
  obtain k where n: "n = Suc k" "length fms < k" using Cons.prems(4) by (cases n) auto
  let ?rest = "concat (map fst fms) @ part"
  have f: "self_delimiting f m" and buf: "con_buf st = f @ ?rest" using Cons.prems fm by auto
  then have frame: "\<not> length (con_buf st) \<le> 4" "uint (con_buf st ! 0) = OFP_VERSION" "frame_len (con_buf st) = length f"
    "unpack_con_msg (uint (con_buf st ! 1)) (con_buf st) = Inr m" "drop (length f) (con_buf st) = ?rest"
    by (auto simp: self_delimiting_def frame_len_def nth_append)
  have h: "handle_con_msg call fuel m (st\<lparr>con_buf := ?rest\<rparr>) = map_option (apsnd (set_buf ?rest)) (handle_con_msg call fuel m st)"
    using dcommutesD [OF blind_handle [of ?rest fuel m], of st] by (simp add: set_buf_def [of ?rest st])
  have loop: "con_read_loop k (\<lambda>_. call) fuel (set_buf ?rest st1)
      = map_option (\<lambda>(_, st'). (Inr True, set_buf part st')) (handle_all call fuel (map snd fms) st1)" for st1
    using Cons.IH [of "set_buf ?rest st1" k] Cons.prems n dcommutesD [OF blind_handle_all [of ?rest fuel "map snd fms"], of st1]
    by (simp add: set_buf_def option.map_comp comp_def case_prod_unfold)
  show ?case
    using frame h loop buf by (simp add: n(1) fm Let_def split: option.split)
qed

lemma reads_frames:
  "con_buf st = part \<Longrightarrow> part @ concat ds = concat (map fst fms) \<Longrightarrow> \<forall>(f, m) \<in> set fms. self_delimiting f m
   \<Longrightarrow> [] \<notin> set ds \<Longrightarrow> fms = [] \<and> part = [] \<or> (\<exists>f ms c. map fst fms = f # ms \<and> f = part @ c \<and> c \<noteq> []) \<Longrightarrow> length fms < n
   \<Longrightarrow> con_reads n call fuel ds st = map_option (\<lambda>(_, st'). (Inr True, set_buf [] st')) (handle_all call fuel (map snd fms) st)"
proof (induction ds arbitrary: st part fms)
  case Nil
  then have "fms = []" "set_buf [] st = st" by (auto simp: set_buf_def)
  then show ?case by (simp add: sm_simps)
next
  case (Cons d ds)
  have "(part @ d) @ concat ds = concat (map fst fms)" using Cons.prems(2) by simp
  from frames_prefix [OF this] obtain k part' where split: "part @ d = concat (take k (map fst fms)) @ part'" "k \<le> length fms"
    "part' @ concat ds = concat (drop k (map fst fms))"
    "k = length fms \<and> part' = [] \<or> k < length fms \<and> (\<exists>c. map fst fms ! k = part' @ c \<and> c \<noteq> [])" by auto
  let ?one = "take k fms" and ?two = "drop k fms"
  have sd: "\<forall>(f, m) \<in> set ?one. self_delimiting f m" "\<forall>(f, m) \<in> set ?two. self_delimiting f m"
    using Cons.prems(3) by (auto dest: in_set_takeD in_set_dropD)
  have unf: "unfinished part'"
  proof (cases "k < length fms")
    case True
    with split(4) obtain c where "fst (fms ! k) = part' @ c" "c \<noteq> []" by auto
    moreover have "self_delimiting (fst (fms ! k)) (snd (fms ! k))" using Cons.prems(3) True nth_mem by (metis case_prod_beta)
    ultimately show ?thesis using unfinished_prefix by metis
  qed (use split in \<open>auto simp: unfinished_def\<close>)
  have "d \<noteq> []" using Cons.prems(4) by auto
  then have read: "con_read n (\<lambda>_. call) fuel d st
      = map_option (\<lambda>(_, st'). (Inr True, set_buf part' st')) (handle_all call fuel (map snd ?one) (set_buf (part @ d) st))"
    using loop_frames [of "set_buf (part @ d) st" ?one part' n] split(1) sd(1) unf Cons.prems(1, 6)
    by (simp add: con_read_def set_buf_def take_map)
  have next_part: "?two = [] \<and> part' = [] \<or> (\<exists>f ms c. map fst ?two = f # ms \<and> f = part' @ c \<and> c \<noteq> [])"
    using split(4) by (auto simp: drop_map [symmetric] Cons_nth_drop_Suc [symmetric])
  have rest: "con_reads n call fuel ds (set_buf part' st1)
      = map_option (\<lambda>(_, st'). (Inr True, set_buf [] st')) (handle_all call fuel (map snd ?two) st1)" for st1
    using Cons.IH [of "set_buf part' st1" part' ?two] split(3) sd(2) next_part Cons.prems(4, 6)
      dcommutesD [OF blind_handle_all [of part' fuel "map snd ?two"], of st1]
    by (simp add: drop_map set_buf_def option.map_comp comp_def case_prod_unfold)
  have "map snd fms = map snd ?one @ map snd ?two" by (simp flip: map_append)
  then show ?case
    using read rest dcommutesD [OF blind_handle_all [of "part @ d" fuel "map snd ?one"], of st]
    by (simp add: handle_all_append dbind_def set_buf_def split: option.split)
qed

end

text \<open>The calls of listeners of applications that do not look at the receive buffer\<close>

lemma con_call_blind:
  assumes "\<And>b g ev. dcommutes (set_buf b) (app g ev)"
  shows "buffer_blind (con_call app fuel now n)"
proof (induction n)
  case 0
  show ?case by unfold_locales (simp add: dcommutes_def)
next
  case (Suc n)
  show ?case
    by unfold_locales (auto intro!: dcommutes_intros assms buffer_blind.blind_finish_connecting [OF Suc.IH]
      buffer_blind.blind_also_finish_connecting [OF Suc.IH] split: con_fn.splits)
qed

section \<open>Frames of packed messages\<close>

lemma header_frame:
  assumes "struct_pack [FB, FB, FH, FL] [OFP_VERSION, t, l, x] = Inr h"
  shows "length h = 8 \<and> uint (h ! 0) = 1 \<and> uint (h ! 1) = t \<and> int (frame_len h) = l"
proof -
  have r: "0 \<le> t" "t < 256" "0 \<le> l" "l < 65536"
    using assms by (auto simp: struct_pack.simps rbind_eq_Inr rmap_eq_Inr in_range_def split: if_split_asm)
  have "uint (word_of_nat (nat l div 256) :: byte) = l div 256" "uint (word_of_nat (nat l mod 256) :: byte) = l mod 256"
    using r(3,4) by (simp_all add: unsigned_of_nat take_bit_eq_mod zdiv_int zmod_int)
  moreover obtain x1 x2 x3 x4 where "h = [1, word_of_int t, word_of_nat (nat l div 256), word_of_nat (nat l mod 256), x1, x2, x3, x4]"
    using assms r
    by (auto simp: struct_pack.simps rbind_eq_Inr rmap_eq_Inr enc_def be_bytes_numeral split: if_split_asm)
  ultimately show ?thesis
    using r(1-3) by (simp add: frame_len_def byte_of_int zmod_int)
qed

text \<open>The bytes of a packed message begin with a header that frames them.\<close>

lemma msg_pack_frame:
  assumes "msg_pack nx m body = Inr (b, m', nx')" "version m = OFP_VERSION" "msg_len m = int (length b)"
  shows "4 < length b \<and> uint (b ! 0) = OFP_VERSION \<and> frame_len b = length b \<and> uint (b ! 1) = header_type m"
proof -
  obtain h rest where h: "ofp_header_pack nx m = Inr (h, m', nx')" and b: "b = h @ rest"
    using assms(1) by (auto simp: msg_pack_def rbind_eq_Inr rmap_eq_Inr)
  then obtain x where a: "(m', nx') = assign_xid nx m"
      and "struct_pack [FB, FB, FH, FL] [version m', header_type m', msg_len m', x] = Inr h"
    by (auto simp: ofp_header_pack_Inr)
  moreover have "m' = fst (assign_xid nx m)" by (metis a fst_conv)
  ultimately have "struct_pack [FB, FB, FH, FL] [OFP_VERSION, header_type m, int (length b), x] = Inr h"
    using assms(2, 3) by simp
  note hf = header_frame [OF this]
  then have "frame_len b = frame_len h" by (simp add: b nth_append frame_len_def)
  with hf show ?thesis by (auto simp: b nth_append)
qed

lemma packet_in_self_delimiting:
  assumes pk: "ofp_packet_in_pack nx m = Inr (b, m', nx')" and buf: "- 1 \<le> pi_buffer_id m" "pi_buffer_id m < 0xffffffff"
    and m: "version m = OFP_VERSION" "header_type m = OFPT_PACKET_IN"
  shows "self_delimiting b (CPacketIn m')"
proof -
  note w = ofp_packet_in_wire [OF pk buf]
  have "4 < length b \<and> uint (b ! 0) = OFP_VERSION \<and> frame_len b = length b \<and> uint (b ! 1) = 10"
    using msg_pack_frame [of nx "m\<lparr>msg_len := ofp_packet_in_len m, pi_total_len := ofp_packet_in_len m\<rparr>"] pk m w
    by (fastforce simp: ofp_packet_in_pack_def Let_def)
  with w show ?thesis by (simp add: self_delimiting_def unpack_con_msg_def)
qed

section \<open>Raising on a connection\<close>

text \<open>An event without listeners, and one with a single listener that leaves the source alone\<close>

lemma raise_in_none: "listeners (rd st) (event_class e) = [] \<Longrightarrow> wr (rd st) st = st \<Longrightarrow> raise_in rd wr call fuel (of_class e) st = Some (Inr (), st)"
  by (simp add: raise_in_def raiseEventNoErrors_def raiseEvent_def of_class_def)

lemma raise_in_one:
  assumes ls: "listeners (rd st) (event_class e) = [l]" "ln_handler l = Bound obj f \<or> ln_handler l = Function f" "\<not> ln_once l"
    and ev: "ev = set_source (mx_self (rd st)) (Event_init (event_class e) e)" and def: "defined_event (event_class e) (rd st)"
    and lens: "\<And>st. wr (rd st) st = st"
    and c: "call f ev st = Some (r, st')" "isl r \<or> r = Inr (RvNone, ev)" 
    and keep: "\<And>i. map_of (mx_handlers (rd st)) (event_class e) = Some i \<Longrightarrow> mx_lists (rd st') ! i = [l]"
  shows "raise_in rd wr call (Suc (Suc fuel)) (of_class e) st = Some (Inr (), st')"
proof -
  obtain i where i: "map_of (mx_handlers (rd st)) (event_class e) = Some i" "mx_lists (rd st) ! i = [l]"
    using ls(1) by (auto simp: listeners_def split: option.splits)
  have th: "through rd wr call obj f ev (rd st, st) = Some (r, (rd st', st'))" for obj
    using c lens by (simp add: through_def)
  have t: "ev_type ev = event_class e" by (simp add: ev set_source_def Event_init_def)
  have src: "set_source (mx_self (rd st)) (Event_init (event_class e) e\<lparr>ev_type := event_class e\<rparr>) = ev"
    by (simp add: ev Event_init_def)
  have "raise_object (through rd wr call) (Suc (Suc fuel)) (Event_init (event_class e) e\<lparr>ev_type := event_class e\<rparr>) (rd st, st)
      = Some (map_sum id (\<lambda>_. Some ev) r, (rd st', st'))"
    using c(2)
  proof
    assume "isl r"
    then obtain x where "r = Inl x" by (auto simp: isl_def)
    with ls t i def th show ?thesis
      by (auto simp: raise_object_def Let_def src handle_one_def call_handler_def dbind_def)
  next
    assume "r = Inr (RvNone, ev)"
    with ls t i def th keep [OF i(1)] show ?thesis
      by (auto simp: raise_object_def Let_def src handle_one_def call_handler_def dbind_def after_call_def remove_if_def sm_simps)
  qed
  with ls(1) lens show ?thesis
    by (cases r) (simp_all add: raise_in_def raiseEventNoErrors_def raiseEvent_def of_class_def)
qed

end
