(* ===== verification/L2_Learning.thy ===== *)
theory L2_Learning
  imports Of_Connection
begin

text \<open>
  \<open>pox/forwarding/l2_learning.py\<close>: the learning switch an application puts behind each OpenFlow switch.  Of the log messages nothing is kept:
  their arguments cannot raise (the one with an argument too many is caught by the logging module).
\<close>

section \<open>The learning switch\<close>

record learning_switch = of_nexus +
  ls_connection :: nat
  ls_connect_time :: int
  ls_transparent :: bool
  ls_macToPort :: "(EthAddr \<times> int) list"

abbreviation FLOOD_DELAY :: int where "FLOOD_DELAY \<equiv> 5"
abbreviation LLDP_TYPE :: int where "LLDP_TYPE \<equiv> 0x88cc"

definition LearningSwitch_init :: "int \<Rightarrow> nat \<Rightarrow> int \<Rightarrow> bool \<Rightarrow> learning_switch" where
  "LearningSwitch_init nx connection connect_time transparent =
     \<lparr>nx_sent = [], nx_disconnected = [], nx_nextXID = nx, ls_connection = connection, ls_connect_time = connect_time,
      ls_transparent = transparent, ls_macToPort = []\<rparr>"

text \<open>\<open>flood\<close>; \<open>now\<close> is \<open>time.time()\<close>\<close>

definition ls_flood :: "int \<Rightarrow> ofp_packet_in \<Rightarrow> (learning_switch, unit) sm" where
  "ls_flood now ofp =
     (if pi_buffer_id ofp = - 1 then sret ()
      else sbind (sget id) (\<lambda>s.
        sdo (packet_out_send (ls_connection s) (ofp_packet_out_init\<lparr>
          po_actions := (if now - ls_connect_time s > FLOOD_DELAY then [output_to OFPP_FLOOD] else []),
          po_buffer_id := pi_buffer_id ofp, po_in_port := pi_in_port ofp\<rparr>))))"

text \<open>\<open>drop\<close>, with an optional duration of the flow that drops similar packets\<close>

definition ls_drop :: "int option \<Rightarrow> packet \<Rightarrow> ofp_packet_in \<Rightarrow> (learning_switch, unit) sm" where
  "ls_drop duration packet ofp = sbind (sget ls_connection) (\<lambda>c. case duration of
     Some d \<Rightarrow> sbind (slift (from_packet packet None)) (\<lambda>match.
       sdo (flow_mod_send c (ofp_flow_mod_init\<lparr>fm_match := match, fm_idle_timeout := d, fm_hard_timeout := d,
         fm_buffer_id := Some (pi_buffer_id ofp)\<rparr>)))
   | None \<Rightarrow> if pi_buffer_id ofp = - 1 then sret ()
       else sdo (packet_out_send c (ofp_packet_out_init\<lparr>po_buffer_id := pi_buffer_id ofp, po_in_port := pi_in_port ofp\<rparr>)))"

definition ls_forward :: "int \<Rightarrow> packet \<Rightarrow> ofp_packet_in \<Rightarrow> (learning_switch, unit) sm" where
  "ls_forward port packet ofp = sbind (sget ls_connection) (\<lambda>c.
     sbind (slift (from_packet packet None)) (\<lambda>match.
     sdo (flow_mod_send c (ofp_flow_mod_init\<lparr>fm_match := match, fm_idle_timeout := 10, fm_hard_timeout := 30,
       fm_actions := [output_to port], fm_buffer_id := Some (pi_buffer_id ofp)\<rparr>))))"

definition ls_PacketIn :: "swenv \<Rightarrow> ofp_packet_in \<Rightarrow> (learning_switch, unit) sm" where
  "ls_PacketIn env ofp =
     sbind (slift (parse_packet_in env ofp)) (\<lambda>packet.
     sbind (slift (eth_of packet)) (\<lambda>e.
     sbind (slift (hw_eth (eth_src e))) (\<lambda>src.
     sbind (slift (hw_eth (eth_dst e))) (\<lambda>dst.
     sthen (smod (\<lambda>s. s\<lparr>ls_macToPort := AList.update src (pi_in_port ofp) (ls_macToPort s)\<rparr>))
     (sbind (sget ls_transparent) (\<lambda>transparent.
      sbind (slift (if transparent then Inr False
        else if eth_type e = LLDP_TYPE then Inr True else isBridgeFiltered dst)) (\<lambda>filtered.
      if filtered then ls_drop None packet ofp
      else sbind (slift (isMulticast dst)) (\<lambda>multicast.
        if multicast then ls_flood (env_now env) ofp
        else sbind (sget (\<lambda>s. map_of (ls_macToPort s) dst)) (\<lambda>known. case known of
          None \<Rightarrow> ls_flood (env_now env) ofp
        | Some port \<Rightarrow>
            if port = pi_in_port ofp then ls_drop (Some 10) packet ofp
            else ls_forward port packet ofp)))))))))"

end
