(* ===== verification/L2_Learning_Laws.thy ===== *)
theory L2_Learning_Laws
  imports L2_Learning Packet_Out_Laws
begin

text \<open>
  What the learning switch promises: it refines the documented algorithm, its table holds where each address was last seen,
  and, together with the software switch, a packet for a known address leaves by the port behind which that address is.
\<close>

section \<open>The packet\<close>

text \<open>A packet in whose frame was parsed, with the addresses and what the address classes say of the destination.\<close>

definition packet_of :: "swenv \<Rightarrow> ofp_packet_in \<Rightarrow> packet \<Rightarrow> EthAddr \<Rightarrow> EthAddr \<Rightarrow> bool" where
  "packet_of env ofp packet src dst \<longleftrightarrow> parse_packet_in env ofp = Inr packet
     \<and> (\<exists>e p. packet = Ethernet e p \<and> eth_src e = HwEth src \<and> eth_dst e = HwEth dst) \<and> length (eth_value dst) = 6"

definition packet_type :: "packet \<Rightarrow> int" where
  "packet_type p = (case p of Ethernet e _ \<Rightarrow> eth_type e | _ \<Rightarrow> 0)"

definition multicast :: "EthAddr \<Rightarrow> bool" where
  "multicast a = odd (uint (eth_value a ! 0))"

text \<open>The addresses 01-80-C2-00-00-00 to 01-80-C2-00-00-0F\<close>

definition bridge_filtered :: "EthAddr \<Rightarrow> bool" where
  "bridge_filtered a \<longleftrightarrow> (\<exists>b. eth_value a = [0x01, 0x80, 0xC2, 0, 0, b] \<and> unat b \<le> 15)"

lemma isMulticast_iff: "length (eth_value a) = 6 \<Longrightarrow> isMulticast a = Inr (multicast a)"
  by (simp add: isMulticast_def byte_at_def multicast_def even_iff_mod_2_eq_zero and_one_eq odd_iff_mod_2_eq_one)

lemma list6: "length xs = 6 \<Longrightarrow> \<exists>a b c d e f. xs = [a, b, c, d, e, f]"
  by (auto simp: length_Suc_conv eval_nat_numeral)

lemma unat_byte_eqs:
  "unat (b :: byte) = 1 \<longleftrightarrow> b = 1" "unat b = 0x80 \<longleftrightarrow> b = 0x80" "unat b = 0xC2 \<longleftrightarrow> b = 0xC2" "unat b = 0 \<longleftrightarrow> b = 0"
  by (simp_all add: word_unat_eq_iff)

lemma isBridgeFiltered_iff:
  assumes "length (eth_value a) = 6"
  shows "isBridgeFiltered a = Inr (bridge_filtered a)"
proof -
  obtain b0 b1 b2 b3 b4 b5 where v: "eth_value a = [b0, b1, b2, b3, b4, b5]" using list6 [OF assms] by blast
  show ?thesis by (auto simp: isBridgeFiltered_def bridge_filtered_def v byte_at_def Let_def unat_byte_eqs simp del: One_nat_def)
qed

lemma packet_of_ops:
  assumes "packet_of env ofp packet src dst"
  obtains e p where "parse_packet_in env ofp = Inr packet" "packet = Ethernet e p" "eth_src e = HwEth src" "eth_dst e = HwEth dst"
    "isMulticast dst = Inr (multicast dst)" "isBridgeFiltered dst = Inr (bridge_filtered dst)"
  using assms isMulticast_iff isBridgeFiltered_iff by (auto simp: packet_of_def)

section \<open>What the handler does\<close>

abbreviation learned :: "EthAddr \<Rightarrow> int \<Rightarrow> learning_switch \<Rightarrow> learning_switch" where
  "learned src port s \<equiv> s\<lparr>ls_macToPort := AList.update src port (ls_macToPort s)\<rparr>"

definition link_local :: "learning_switch \<Rightarrow> packet \<Rightarrow> EthAddr \<Rightarrow> bool" where
  "link_local s packet dst \<longleftrightarrow> \<not> ls_transparent s \<and> (packet_type packet = LLDP_TYPE \<or> bridge_filtered dst)"

lemma PacketIn_cases:
  assumes "packet_of env ofp packet src dst"
  shows "ls_PacketIn env ofp s = (if link_local s packet dst then ls_drop None packet ofp
     else if multicast dst then ls_flood (env_now env) ofp
     else case map_of (ls_macToPort (learned src (pi_in_port ofp) s)) dst of None \<Rightarrow> ls_flood (env_now env) ofp
       | Some port \<Rightarrow> if port = pi_in_port ofp then ls_drop (Some 10) packet ofp else ls_forward port packet ofp) (learned src (pi_in_port ofp) s)"
proof -
  obtain e p where "parse_packet_in env ofp = Inr packet" "packet = Ethernet e p" "eth_src e = HwEth src" "eth_dst e = HwEth dst"
    "isMulticast dst = Inr (multicast dst)" "isBridgeFiltered dst = Inr (bridge_filtered dst)"
    using packet_of_ops [OF assms] .
  then show ?thesis
    by (auto simp: ls_PacketIn_def link_local_def Let_def eth_of_def hw_eth_def packet_type_def split: option.split)
qed

text \<open>Sending changes nothing of the switch's own attributes, and keeps the counter of identifiers in its range.\<close>

definition ls_same :: "(EthAddr \<times> int) list \<Rightarrow> nat \<Rightarrow> bool \<Rightarrow> int \<Rightarrow> nat list \<Rightarrow> learning_switch \<Rightarrow> bool" where
  "ls_same table c transparent time down s \<longleftrightarrow> ls_macToPort s = table \<and> ls_connection s = c \<and> ls_transparent s = transparent
     \<and> ls_connect_time s = time \<and> nx_disconnected s = down \<and> xid_ok (nx_nextXID s)"

lemma same_flow_mod [keeps_intros]: "keeps (ls_same table c b time down) (flow_mod_send k m)"
proof (rule keepsI)
  fix s
  assume "ls_same table c b time down s"
  then show "ls_same table c b time down (snd (flow_mod_send k m s))"
    using connection_send_nx [of "ofp_flow_mod_pack True" s k m, OF flow_mod_pack_nx]
    by (auto simp: ls_same_def connection_send_def sm_simps sbind_def sget_def slift_def sret_def split: sum.splits prod.splits)
qed

lemma same_packet_out [keeps_intros]: "keeps (ls_same table c b time down) (packet_out_send k m)"
proof (rule keepsI)
  fix s
  assume "ls_same table c b time down s"
  then show "ls_same table c b time down (snd (packet_out_send k m s))"
    using connection_send_nx [of "ofp_packet_out_pack True" s k m, OF packet_out_pack_nx]
    by (auto simp: ls_same_def connection_send_def sm_simps sbind_def sget_def slift_def sret_def split: sum.splits prod.splits)
qed

lemma PacketIn_same:
  assumes "packet_of env ofp packet src dst" "ls_same table c b time down s"
  shows "ls_same (AList.update src (pi_in_port ofp) table) c b time down (snd (ls_PacketIn env ofp s))"
proof -
  have k: "keeps (ls_same t c b time down) (ls_drop d packet ofp)" "keeps (ls_same t c b time down) (ls_flood now ofp)"
    "keeps (ls_same t c b time down) (ls_forward port packet ofp)" for t d now port
    unfolding ls_drop_def ls_flood_def ls_forward_def by (intro keeps_intros)+
  have "ls_same (AList.update src (pi_in_port ofp) table) c b time down (learned src (pi_in_port ofp) s)"
    using assms(2) by (simp add: ls_same_def)
  then show ?thesis unfolding PacketIn_cases [OF assms(1)] using k unfolding keeps_def by (auto split: option.split)
qed

section \<open>What is learned\<close>

text \<open>The port at which an address was last seen.\<close>

fun last_seen :: "(EthAddr \<times> int) list \<Rightarrow> EthAddr \<Rightarrow> int option" where
  "last_seen [] a = None"
| "last_seen ((src, port) # earlier) a = (if src = a then Some port else last_seen earlier a)"

definition ls_run :: "(swenv \<times> ofp_packet_in) list \<Rightarrow> learning_switch \<Rightarrow> learning_switch" where
  "ls_run evs s = fold (\<lambda>(env, ofp) s. snd (ls_PacketIn env ofp s)) evs s"

lemma last_seen_append: "last_seen (xs @ ys) a = (case last_seen xs a of Some p \<Rightarrow> Some p | None \<Rightarrow> last_seen ys a)"
  by (induction xs a rule: last_seen.induct) simp_all

definition parsed_as :: "(swenv \<times> ofp_packet_in) list \<Rightarrow> EthAddr list \<Rightarrow> bool" where
  "parsed_as evs srcs \<longleftrightarrow> list_all2 (\<lambda>(env, ofp) src. \<exists>packet dst. packet_of env ofp packet src dst) evs srcs"

text \<open>The sources of a history with their ports, the latest first\<close>

definition seen :: "(swenv \<times> ofp_packet_in) list \<Rightarrow> EthAddr list \<Rightarrow> (EthAddr \<times> int) list" where
  "seen evs srcs = rev (zip srcs (map (\<lambda>(_, ofp). pi_in_port ofp) evs))"

lemma ls_run_same:
  assumes "parsed_as evs srcs" "ls_same table c b time down s"
  shows "\<exists>table'. ls_same table' c b time down (ls_run evs s)
    \<and> (\<forall>a. map_of table' a = (case last_seen (seen evs srcs) a of Some p \<Rightarrow> Some p | None \<Rightarrow> map_of table a))"
  using assms unfolding parsed_as_def
proof (induction evs srcs arbitrary: s table rule: list_all2_induct)
  case Nil
  then show ?case by (auto simp: ls_run_def seen_def)
next
  case (Cons ev evs src srcs)
  obtain env ofp where ev: "ev = (env, ofp)" by (cases ev)
  then obtain packet dst where p: "packet_of env ofp packet src dst" using Cons.hyps(1) by auto
  have "ls_run (ev # evs) s = ls_run evs (snd (ls_PacketIn env ofp s))" by (simp add: ls_run_def ev)
  moreover obtain table' where t: "ls_same table' c b time down (ls_run evs (snd (ls_PacketIn env ofp s)))"
    "\<forall>a. map_of table' a = (case last_seen (seen evs srcs) a of Some p \<Rightarrow> Some p | None \<Rightarrow> map_of (AList.update src (pi_in_port ofp) table) a)"
    using Cons.IH [OF PacketIn_same [OF p Cons.prems]] by blast
  moreover have "seen (ev # evs) (src # srcs) = seen evs srcs @ [(src, pi_in_port ofp)]" by (simp add: seen_def ev)
  ultimately show ?case
    by (intro exI [of _ table'] conjI allI) (simp_all add: last_seen_append update_conv' split: option.split)
qed

section \<open>The documented algorithm\<close>

text \<open>
  The steps of the comment of class \<open>LearningSwitch\<close>: what becomes of a packet, by the sources and ports of all packets so far, itself first.
\<close>

datatype outcome = Dropped | Flooded | DroppedFor int | SentTo int

definition documented :: "bool \<Rightarrow> (EthAddr \<times> int) list \<Rightarrow> EthAddr \<Rightarrow> bool \<Rightarrow> int \<Rightarrow> outcome" where
  "documented transparent history dst lldp port =
     (if \<not> transparent \<and> (lldp \<or> bridge_filtered dst) then Dropped
      else if multicast dst then Flooded
      else case last_seen history dst of None \<Rightarrow> Flooded
        | Some out \<Rightarrow> if out = port then DroppedFor 10 else SentTo out)"

text \<open>What the switch reads in a message for a buffered packet, and in one for a flow\<close>

definition says_out :: "ofp_packet_in \<Rightarrow> ofp_action list \<Rightarrow> bytes \<Rightarrow> bool" where
  "says_out ofp acts b \<longleftrightarrow> (\<exists>m. ofp_packet_out_unpack ofp_packet_out_init b = Inr (m, []) \<and> po_actions m = map action_norm acts
     \<and> po_data m = [] \<and> po_buffer_id m = pi_buffer_id ofp \<and> po_in_port m = pi_in_port ofp)"

definition says_flow :: "ofp_packet_in \<Rightarrow> ofp_match \<Rightarrow> int \<Rightarrow> int \<Rightarrow> ofp_action list \<Rightarrow> bytes \<Rightarrow> bool" where
  "says_flow ofp match idle hard acts b \<longleftrightarrow> (\<exists>m. ofp_flow_mod_unpack ofp_flow_mod_init b = Inr (m, []) \<and> fm_command m = OFPFC_ADD
     \<and> fm_idle_timeout m = idle \<and> fm_hard_timeout m = hard \<and> fm_priority m = OFP_DEFAULT_PRIORITY
     \<and> fm_buffer_id m = Some (pi_buffer_id ofp) \<and> fm_actions m = map action_norm acts \<and> ofp_match_eq match (fm_match m) = Inr True)"

text \<open>
  The messages that an outcome needs.  An unbuffered packet is neither dropped nor flooded by a message, and for five seconds after the
  connection a flooded packet is only dropped, which the comment does not say.
\<close>

fun outcome_sent :: "ofp_packet_in \<Rightarrow> ofp_match \<Rightarrow> bool \<Rightarrow> outcome \<Rightarrow> bytes list \<Rightarrow> bool" where
  "outcome_sent ofp match settled Dropped bs = (if pi_buffer_id ofp = - 1 then bs = [] else \<exists>b. bs = [b] \<and> says_out ofp [] b)"
| "outcome_sent ofp match settled Flooded bs = (if pi_buffer_id ofp = - 1 then bs = []
     else \<exists>b. bs = [b] \<and> says_out ofp (if settled then [output_to OFPP_FLOOD] else []) b)"
| "outcome_sent ofp match settled (DroppedFor d) bs = (\<exists>b. bs = [b] \<and> says_flow ofp match d d [] b)"
| "outcome_sent ofp match settled (SentTo out) bs = (\<exists>b. bs = [b] \<and> says_flow ofp match 10 30 [output_to out] b)"

lemma flood_fits: "port_ok OFPP_FLOOD"
  by (simp add: port_ok_def)

lemma out_sent:
  assumes "acts = [] \<or> (\<exists>p. acts = [output_to p] \<and> port_ok p)" "buffer_ok (pi_buffer_id ofp)" "port_ok (pi_in_port ofp)"
    and "xid_ok (nx_nextXID s)" "c \<notin> set (nx_disconnected s)"
  shows "\<exists>b m' s'. packet_out_send c (ofp_packet_out_init\<lparr>po_actions := acts, po_buffer_id := pi_buffer_id ofp, po_in_port := pi_in_port ofp\<rparr>) s
      = (Inr m', s') \<and> nx_sent s' = nx_sent s @ [(c, b)] \<and> says_out ofp acts b"
proof -
  let ?m = "ofp_packet_out_init\<lparr>po_actions := acts, po_buffer_id := pi_buffer_id ofp, po_in_port := pi_in_port ofp\<rparr>"
  obtain ab where ab: "pack_list pack_action (po_actions ?m) = Inr ab" "length ab \<le> 8" "list_all action_wf (po_actions ?m)"
    using assms(1) output_to_pack output_to_wf by fastforce
  have f: "xid ?m = None" "version ?m = OFP_VERSION" "header_type ?m = OFPT_PACKET_OUT" "po_data ?m = []" by (simp_all add: ofp_packet_out_init_def)
  obtain b m' m1 where p: "ofp_packet_out_pack True (nx_nextXID s) ?m = Inr (b, m', snd (generateXID (nx_nextXID s)))"
    and u: "\<forall>y rest. ofp_packet_out_unpack y (b @ rest) = Inr (m1, rest)" "po_actions m1 = map action_norm acts" "po_data m1 = []"
      "po_buffer_id m1 = pi_buffer_id ofp" "po_in_port m1 = pi_in_port ofp"
    using packet_out_reads [OF f(1-3) ab(1,3), of "nx_nextXID s"] f(4) ab(2) assms(2-4) by (auto simp: buffer_ok_def port_ok_def)
  have "ofp_packet_out_unpack ofp_packet_out_init b = Inr (m1, [])" using u(1) by (metis append_Nil2)
  then have "says_out ofp acts b" using u(2-5) by (auto simp: says_out_def)
  then show ?thesis using p assms(5) by (auto simp: connection_send_def sret_def)
qed

lemma flow_sent:
  assumes "acts = [] \<or> (\<exists>p. acts = [output_to p] \<and> port_ok p)" "buffer_ok (pi_buffer_id ofp)" "match_ok match" "port_ok idle" "port_ok hard"
    and "xid_ok (nx_nextXID s)" "c \<notin> set (nx_disconnected s)"
  shows "\<exists>b m' s'. flow_mod_send c (ofp_flow_mod_init\<lparr>fm_match := match, fm_idle_timeout := idle, fm_hard_timeout := hard,
      fm_actions := acts, fm_buffer_id := Some (pi_buffer_id ofp)\<rparr>) s = (Inr m', s') \<and> nx_sent s' = nx_sent s @ [(c, b)] \<and> says_flow ofp match idle hard acts b"
proof -
  let ?m = "ofp_flow_mod_init\<lparr>fm_match := match, fm_idle_timeout := idle, fm_hard_timeout := hard, fm_actions := acts, fm_buffer_id := Some (pi_buffer_id ofp)\<rparr>"
  obtain ab where ab: "pack_list pack_action acts = Inr ab" "list_all action_wf (fm_actions ?m)" "0 \<le> (\<Sum>a \<leftarrow> acts. action_len a)" "(\<Sum>a \<leftarrow> acts. action_len a) \<le> 8"
    using assms(1) output_to_pack output_to_wf by fastforce
  obtain mb where mb: "ofp_match_pack True True match = Inr mb" using assms(3) by (auto simp: match_ok_def is_ok_iff)
  have "in_range FL (pi_buffer_id ofp AND 0xffffffff)" by (simp add: and_mask32 in_range_def)
  then obtain b m' where p: "ofp_flow_mod_pack True (nx_nextXID s) ?m = Inr (b, m', snd (generateXID (nx_nextXID s)))"
    using mb ab(1,3,4) assms(4-6)
    by (simp add: ofp_flow_mod_pack_def msg_pack_def ofp_flow_mod_init_def ofp_header_pack_def assign_xid_def
        generateXID_def Let_def ofp_header_assert_def ofp_type_known_iff struct_pack.simps in_range_def xid_ok_def
        ofp_flow_mod_len_def port_ok_def del: pack_list.simps)
  have f: "match_consistent (fm_match ?m)" "fm_buffer_id ?m = Some (pi_buffer_id ofp)" "- 1 \<le> pi_buffer_id ofp" "pi_buffer_id ofp < 0xffffffff"
    using assms(2,3) by (simp_all add: match_ok_def buffer_ok_def)
  obtain ns nd where "fix_addr (attr_nw_src match) = Inr ns" "fix_addr (attr_nw_dst match) = Inr nd"
    using mb by (auto simp: ofp_match_pack_def res_simps split: if_split_asm)
  then have eq: "ofp_match_eq match (match_wire True match) = Inr True" using match_wire_eq f(1) by simp
  have u: "ofp_flow_mod_unpack ofp_flow_mod_init b = Inr (m'\<lparr>fm_match := match_wire True match, fm_actions := map action_norm acts\<rparr>, [])"
    using ofp_flow_mod_wire [OF p ab(2) f, of ofp_flow_mod_init "[]"] by simp
  obtain x where "m' = ?m\<lparr>msg_len := ofp_flow_mod_len ?m, xid := x, fm_actions := map action_after_pack (fm_actions ?m)\<rparr>"
    using p by (auto simp: ofp_flow_mod_pack_def msg_pack_def rbind_eq_Inr rmap_eq_Inr dest!: ofp_header_pack_keeps)
  then have "says_flow ofp match idle hard acts b" unfolding says_flow_def u using eq by (simp add: ofp_flow_mod_init_def)
  then show ?thesis using p assms(7) by (auto simp: connection_send_def sret_def)
qed

lemma case_option_id: "(case x of None \<Rightarrow> map_of [] a | Some p \<Rightarrow> Some p) = x"
  by (cases x) simp_all

lemma one_message: "(\<exists>bs. [(c, b)] = map (Pair c) bs \<and> P bs) \<longleftrightarrow> P [b]"
  by (auto simp: Cons_eq_map_conv)

lemma last_seen_ports: "last_seen history a = Some p \<Longrightarrow> \<exists>src. (src, p) \<in> set history"
  by (induction history a rule: last_seen.induct) (auto split: if_splits)

text \<open>Each of the four things the handler does sends the messages of its outcome.\<close>

definition ls_up :: "nat \<Rightarrow> int \<Rightarrow> learning_switch \<Rightarrow> bool" where
  "ls_up c time s \<longleftrightarrow> ls_connection s = c \<and> ls_connect_time s = time \<and> nx_disconnected s = [] \<and> xid_ok (nx_nextXID s)"

definition sends :: "nat \<Rightarrow> ofp_packet_in \<Rightarrow> ofp_match \<Rightarrow> bool \<Rightarrow> learning_switch \<Rightarrow> unit res \<times> learning_switch \<Rightarrow> outcome \<Rightarrow> bool" where
  "sends c ofp match settled s r out \<longleftrightarrow> (\<exists>s' bs. r = (Inr (), s') \<and> nx_sent s' = nx_sent s @ map (Pair c) bs \<and> outcome_sent ofp match settled out bs)"

lemma drop_sends:
  assumes "ls_up c time s" "port_ok (pi_in_port ofp)" "buffer_ok (pi_buffer_id ofp)"
  shows "sends c ofp match settled s (ls_drop None packet ofp s) Dropped"
proof (cases "pi_buffer_id ofp = - 1")
  case False
  then show ?thesis using out_sent [of "[]" ofp s c] assms
    by (auto simp: sends_def ls_up_def ls_drop_def ofp_packet_out_init_def one_message sm_simps)
qed (auto simp: sends_def ls_drop_def sm_simps intro: exI [of _ "[]"])

lemma flood_sends:
  assumes "ls_up c time s" "port_ok (pi_in_port ofp)" "buffer_ok (pi_buffer_id ofp)"
  shows "sends c ofp match (now - time > FLOOD_DELAY) s (ls_flood now ofp s) Flooded"
proof (cases "pi_buffer_id ofp = - 1")
  case False
  let ?acts = "if now - time > FLOOD_DELAY then [output_to OFPP_FLOOD] else []"
  have "?acts = [] \<or> (\<exists>p. ?acts = [output_to p] \<and> port_ok p)" using flood_fits by auto
  then show ?thesis using False out_sent [of ?acts ofp s c] assms
    by (auto simp: sends_def ls_up_def ls_flood_def one_message sm_simps)
qed (auto simp: sends_def ls_flood_def sm_simps intro: exI [of _ "[]"])

lemma drop_flow_sends:
  assumes "ls_up c time s" "buffer_ok (pi_buffer_id ofp)" "from_packet packet None = Inr match" "match_ok match"
  shows "sends c ofp match settled s (ls_drop (Some 10) packet ofp s) (DroppedFor 10)"
  using flow_sent [of "[]" ofp match 10 10 s c] assms
  by (auto simp: sends_def ls_up_def ls_drop_def ofp_flow_mod_init_def port_ok_def one_message sm_simps)

lemma forward_sends:
  assumes "ls_up c time s" "buffer_ok (pi_buffer_id ofp)" "from_packet packet None = Inr match" "match_ok match" "port_ok out"
  shows "sends c ofp match settled s (ls_forward out packet ofp s) (SentTo out)"
proof -
  have "[output_to out] = [] \<or> (\<exists>p. [output_to out] = [output_to p] \<and> port_ok p)" using assms(5) by blast
  then obtain b m' s' where "flow_mod_send c (ofp_flow_mod_init\<lparr>fm_match := match, fm_idle_timeout := 10, fm_hard_timeout := 30,
      fm_actions := [output_to out], fm_buffer_id := Some (pi_buffer_id ofp)\<rparr>) s = (Inr m', s')"
    "nx_sent s' = nx_sent s @ [(c, b)]" "says_flow ofp match 10 30 [output_to out] b"
    using flow_sent [of "[output_to out]" ofp match 10 30 s c] assms(1,2,4) by (auto simp: port_ok_def ls_up_def)
  then show ?thesis using assms(1,3) by (auto simp: sends_def ls_up_def ls_forward_def one_message sm_simps)
qed

text \<open>The handler on a table that holds what the history says\<close>

lemma PacketIn_documented:
  assumes "packet_of env ofp packet src dst" "port_ok (pi_in_port ofp)" "buffer_ok (pi_buffer_id ofp)" "from_packet packet None = Inr match" "match_ok match"
    and "ls_up c time s" "\<And>a. map_of (ls_macToPort s) a = last_seen earlier a" "\<And>x p. (x, p) \<in> set earlier \<Longrightarrow> port_ok p"
  shows "sends c ofp match (env_now env - time > FLOOD_DELAY) s (ls_PacketIn env ofp s)
    (documented (ls_transparent s) ((src, pi_in_port ofp) # earlier) dst (packet_type packet = LLDP_TYPE) (pi_in_port ofp))"
proof -
  let ?s = "learned src (pi_in_port ofp) s" and ?history = "(src, pi_in_port ofp) # earlier"
  have up: "ls_up c time ?s" "sends c ofp mt l ?s r o' = sends c ofp mt l s r o'" for mt l r o'
    using assms(6) by (simp_all add: ls_up_def sends_def)
  have p: "ls_PacketIn env ofp s = (if link_local s packet dst then ls_drop None packet ofp
     else if multicast dst then ls_flood (env_now env) ofp
     else case last_seen ?history dst of None \<Rightarrow> ls_flood (env_now env) ofp
       | Some port \<Rightarrow> if port = pi_in_port ofp then ls_drop (Some 10) packet ofp else ls_forward port packet ofp) ?s"
    unfolding PacketIn_cases [OF assms(1)] using assms(7) by (simp add: update_conv')
  have "port_ok out" if "last_seen ?history dst = Some out" for out using last_seen_ports [OF that] assms(2,8) by auto
  then show ?thesis
    using drop_sends [OF up(1) assms(2,3)] flood_sends [OF up(1) assms(2,3)] drop_flow_sends [OF up(1) assms(3-5)] forward_sends [OF up(1) assms(3-5)]
    unfolding p documented_def link_local_def up(2) by (simp del: last_seen.simps split: option.split)
qed

section \<open>Properties\<close>

text \<open>
  C9: After any history of packets whose frames parse, the learning switch answers a packet as its documented algorithm says for the ports
  at which the addresses were last seen, by the bytes it sends to its switch: a packet to drop or flood that is held in a buffer by one
  packet-out with no action or with the flood port, a packet for its own port by a flow that drops for ten seconds, and a packet for
  another port by a flow to that port.  Two things are not as documented and part of the statement: a packet that is not in a buffer is not flooded, and within
  five seconds of the connection no packet is.
\<close>

theorem learning_answers_documented:
  assumes "parsed_as evs srcs" "\<forall>(env, ofp) \<in> set evs. port_ok (pi_in_port ofp)" "xid_ok nx"
    and "packet_of env ofp packet src dst" "port_ok (pi_in_port ofp)" "buffer_ok (pi_buffer_id ofp)"
    and "from_packet packet None = Inr match" "match_ok match"
  shows "\<exists>s s' bs. s = ls_run evs (LearningSwitch_init nx c time transparent) \<and> ls_PacketIn env ofp s = (Inr (), s')
    \<and> nx_sent s' = nx_sent s @ map (Pair c) bs
    \<and> outcome_sent ofp match (env_now env - time > FLOOD_DELAY)
        (documented transparent ((src, pi_in_port ofp) # seen evs srcs) dst (packet_type packet = LLDP_TYPE) (pi_in_port ofp)) bs"
proof -
  have init: "ls_same [] c transparent time [] (LearningSwitch_init nx c time transparent)" using assms(3) by (simp add: ls_same_def LearningSwitch_init_def)
  obtain table where t: "ls_same table c transparent time [] (ls_run evs (LearningSwitch_init nx c time transparent))" (is "ls_same _ _ _ _ _ ?s")
    and m: "\<forall>a. map_of table a = last_seen (seen evs srcs) a"
    using ls_run_same [OF assms(1) init] by (auto simp: case_option_id)
  then have s: "ls_up c time ?s" "ls_transparent ?s = transparent" "map_of (ls_macToPort ?s) a = last_seen (seen evs srcs) a" for a
    by (simp_all add: ls_same_def ls_up_def)
  have "port_ok p" if "(x, p) \<in> set (seen evs srcs)" for x p using assms(2) that by (auto simp: seen_def dest!: set_zip_rightD)
  then show ?thesis using PacketIn_documented [OF assms(4-8) s(1,3)] unfolding sends_def s(2) by blast
qed

text \<open>
  C8: The controller and the switch together.  A packet for an address known at another port, neither multicast nor link-local, that
  the software switch holds in its buffer makes the learning switch send one flow modification.  When the switch reads its bytes it
  replaces the entries with that match and priority by an entry that sends what matches the packet out of the port, for ten idle and thirty
  seconds at most, keeps all other entries, and sends the packet out of the port.
\<close>

theorem learned_packet_leaves_switch:
  assumes "packet_of env ofp packet src dst" "\<not> link_local s packet dst" "\<not> multicast dst" "map_of (ls_macToPort s) dst = Some port"
    and "dst \<noteq> src" "port \<noteq> pi_in_port ofp"
    and "from_packet packet None = Inr match" "match_ok match" "0 \<le> port" "port < OFPP_MAX"
    and "xid_ok (nx_nextXID s)" "ls_connection s \<notin> set (nx_disconnected s)"
    and "pi_buffer_id ofp = int k + 1" "int k < 0xfffffffe" "k < length (sw_buffer t)" "sw_buffer t ! k = Some (i, in_port)"
    and "is_ethernet (sw_heap t ! i)" "map_of (sw_ports t) port = Some pp" "sw_receive_buf t = []"
    and "table_ok (sw_table t)" "\<forall>e \<in> set (ft_table (sw_table t)). match_typed (te_match e)"
  shows "\<exists>s' b tab e. ls_PacketIn env ofp s = (Inr (), s') \<and> nx_sent s' = nx_sent s @ [(ls_connection s, b)]
    \<and> push_receive_data 2 envs b t = Some (Inr RTrue, t\<lparr>sw_table := tab, sw_buffer := (sw_buffer t)[k := None],
        sw_events := sw_events t @ [(sw_heap t ! i, pp)]\<rparr>)
    \<and> port_entry match port e
    \<and> set (ft_table tab) = insert e {x \<in> set (ft_table (sw_table t)). \<not> (ofp_match_eq (te_match x) (te_match e) = Inr True \<and> te_priority x = te_priority e)}"
proof -
  let ?s = "learned src (pi_in_port ofp) s"
  have ok: "port_ok port" "buffer_ok (int k + 1)" using assms(9,10,14) by (simp_all add: port_ok_def buffer_ok_def)
  obtain b m' where send: "flow_mod_send (ls_connection s) (port_flow match port (int k + 1)) ?s
      = (Inr m', ?s\<lparr>nx_sent := nx_sent ?s @ [(ls_connection s, b)], nx_nextXID := snd (generateXID (nx_nextXID ?s))\<rparr>)"
    and b: "carries match port (int k + 1) b" "framed 14 b"
    using port_flow_sent [OF assms(8) ok, of ?s "ls_connection s"] assms(11,12) by auto
  have "ls_PacketIn env ofp s = ls_forward port packet ofp ?s"
    using assms(2-6) unfolding PacketIn_cases [OF assms(1)] by (simp add: update_conv')
  then have "ls_PacketIn env ofp s = (Inr (), ?s\<lparr>nx_sent := nx_sent s @ [(ls_connection s, b)], nx_nextXID := snd (generateXID (nx_nextXID s))\<rparr>)"
    using send assms(7,13) by (simp add: ls_forward_def port_flow_def sm_simps)
  moreover have "nx_sent (?s\<lparr>nx_sent := nx_sent s @ [(ls_connection s, b)], nx_nextXID := snd (generateXID (nx_nextXID s))\<rparr>) = nx_sent s @ [(ls_connection s, b)]"
    by simp
  ultimately show ?thesis using switch_takes_flow [OF b(2,1) assms(19-21,15-17,10,18), of envs] by blast
qed

text \<open>
  A packet the switch did not buffer is not flooded: when it is for a group address and the
  packet in carries the whole frame instead of a buffer number, nothing is sent and the frame is lost.
\<close>

theorem unbuffered_flood_lost:
  assumes "packet_of env ofp packet src dst" "\<not> link_local s packet dst" "multicast dst" "pi_buffer_id ofp = - 1"
  shows "ls_PacketIn env ofp s = (Inr (), learned src (pi_in_port ofp) s)"
  using assms(2-4) unfolding PacketIn_cases [OF assms(1)] by (simp add: ls_flood_def sret_def)

section \<open>Witnesses\<close>

text \<open>A frame between two hosts, and the learning switch that has seen its destination at port 2.\<close>

definition host :: "byte \<Rightarrow> EthAddr" where
  "host n = EthAddr [2, 0, 0, 0, 0, n]"

definition host_frame :: bytes where
  "host_frame = [2, 0, 0, 0, 0, 9] @ [2, 0, 0, 0, 0, 7] @ [0x12, 0x34]"

definition host_packet :: packet where
  "host_packet = Ethernet \<lparr>eth_dst = HwEth (host 9), eth_src = HwEth (host 7), eth_type = 0x1234, eth_raw = Some host_frame, eth_parsed = True\<rparr> (Bytes [])"

definition host_in :: "int \<Rightarrow> ofp_packet_in" where
  "host_in buf = ofp_packet_in_init\<lparr>pi_in_port := 1, pi_buffer_id := buf, pi_data := host_frame\<rparr>"

lemma host_frame_parsed: "ethernet_new (env_subs demo_env) (env_iid demo_env) (env_rnd demo_env) host_frame = Inr host_packet"
  by code_simp

lemma host_packet_of: "packet_of demo_env (host_in buf) host_packet (host 7) (host 9)"
  using host_frame_parsed by (simp add: packet_of_def parse_packet_in_def host_in_def) (simp add: host_packet_def host_def)

definition host_match :: ofp_match where
  "host_match = \<lparr>m_wildcards = 2629857, m_in_port = 0, m_dl_src = HwEth (host 7), m_dl_dst = HwEth (host 9),
     m_dl_vlan = OFP_VLAN_NONE, m_dl_vlan_pcp = 0, m_dl_type = 0x1234, m_nw_tos = 0, m_nw_proto = 0,
     m_nw_src = NwNum 0, m_nw_dst = NwNum 0, m_tp_src = 0, m_tp_dst = 0\<rparr>"

lemma host_packet_match: "from_packet host_packet None = Inr host_match"
  by (simp add: host_packet_def host_match_def from_packet_eval)

lemma host_match_ok: "match_ok host_match"
proof -
  have "match_consistent host_match"
    by (simp add: match_consistent_def host_match_def match_get_defs wild_def attr_nw_src_eq attr_nw_dst_eq hw_field_def
        host_def eth_toRaw_def normalize_wildcards_def)
  moreover have "is_ok (ofp_match_pack True True host_match)"
    by (simp add: ofp_match_pack_def host_match_def match_get_defs wild_def attr_nw_src_eq attr_nw_dst_eq hw_field_def
        host_def eth_toRaw_def ofp_match_assert_def or0_def check_ip_def check_ip_or_arp_def check_tp_def fix_addr_def
        wire_wildcards_def struct_pack.simps in_range_def)
  ultimately show ?thesis by (simp add: match_ok_def)
qed

definition learned_ls :: learning_switch where
  "learned_ls = (LearningSwitch_init 1 4 0 False)\<lparr>ls_macToPort := [(host 9, 2)]\<rparr>"

lemma host_known: "\<not> link_local learned_ls host_packet (host 9)" "\<not> multicast (host 9)" "map_of (ls_macToPort learned_ls) (host 9) = Some 2"
  "host 9 \<noteq> host 7"
  by (auto simp: link_local_def learned_ls_def LearningSwitch_init_def host_packet_def packet_type_def bridge_filtered_def multicast_def host_def)

definition holding_switch :: switch where
  "holding_switch = demo_switch\<lparr>sw_heap := [host_packet], sw_buffer := [Some (0, 1)]\<rparr>"

theorem learning_answers_documented_witness:
  "\<exists>s' b. ls_PacketIn (demo_env\<lparr>env_now := 9\<rparr>) (host_in 1) (LearningSwitch_init 1 4 0 False) = (Inr (), s') \<and> nx_sent s' = [(4, b)]
     \<and> says_out (host_in 1) [output_to OFPP_FLOOD] b"
proof -
  let ?env = "demo_env\<lparr>env_now := 9\<rparr>"
  have p: "packet_of ?env (host_in 1) host_packet (host 7) (host 9)"
    using host_packet_of [of 1] by (simp add: packet_of_def parse_packet_in_def)
  have ok: "port_ok (pi_in_port (host_in 1))" "buffer_ok (pi_buffer_id (host_in 1))" "pi_buffer_id (host_in 1) \<noteq> - 1"
    by (simp_all add: host_in_def port_ok_def buffer_ok_def)
  have "documented False [(host 7, pi_in_port (host_in 1))] (host 9) (packet_type host_packet = LLDP_TYPE) (pi_in_port (host_in 1)) = Flooded"
    using host_known(1,2,4) by (auto simp: documented_def link_local_def learned_ls_def LearningSwitch_init_def)
  moreover have "parsed_as [] []" "xid_ok 1" "seen [] [] = []" by (simp_all add: parsed_as_def seen_def xid_ok_def)
  moreover have "ls_run [] s = s" "nx_sent (LearningSwitch_init 1 4 0 False) = []" for s by (simp_all add: ls_run_def LearningSwitch_init_def)
  ultimately show ?thesis
    using learning_answers_documented [of "[]" "[]" 1 ?env "host_in 1" host_packet "host 7" "host 9" host_match 4 0 False] p ok host_packet_match host_match_ok
    by fastforce
qed

theorem learned_packet_leaves_switch_witness:
  "\<exists>s' b t' e. ls_PacketIn demo_env (host_in 1) learned_ls = (Inr (), s') \<and> nx_sent s' = [(4, b)]
     \<and> push_receive_data 2 (\<lambda>_. demo_env) b holding_switch = Some (Inr RTrue, t')
     \<and> sw_events t' = [(host_packet, ofp_phy_port_init\<lparr>pp_port_no := 2\<rparr>)] \<and> set (ft_table (sw_table t')) = {e} \<and> port_entry host_match 2 e"
proof -
  have ls: "xid_ok (nx_nextXID learned_ls)" "ls_connection learned_ls = 4" "nx_disconnected learned_ls = []" "nx_sent learned_ls = []"
    by (simp_all add: learned_ls_def LearningSwitch_init_def xid_ok_def)
  have sw: "sw_buffer holding_switch = [Some (0, 1)]" "sw_heap holding_switch = [host_packet]" "sw_table holding_switch = FlowTable_init"
    "map_of (sw_ports holding_switch) 2 = Some (ofp_phy_port_init\<lparr>pp_port_no := 2\<rparr>)" "sw_events holding_switch = []"
    "sw_receive_buf holding_switch = []" "is_ethernet host_packet"
    by (simp_all add: holding_switch_def demo_fields host_packet_def is_ethernet_def) (simp add: demo_switch_def SwitchImpl_init_def)
  have "ft_table FlowTable_init = []" by (simp add: FlowTable_init_def)
  then obtain s' b tab e where "ls_PacketIn demo_env (host_in 1) learned_ls = (Inr (), s')" "nx_sent s' = [(4, b)]"
    "push_receive_data 2 (\<lambda>_. demo_env) b holding_switch = Some (Inr RTrue, holding_switch\<lparr>sw_table := tab, sw_buffer := [None],
        sw_events := [(host_packet, ofp_phy_port_init\<lparr>pp_port_no := 2\<rparr>)]\<rparr>)" "port_entry host_match 2 e" "set (ft_table tab) = {e}"
    using learned_packet_leaves_switch [OF host_packet_of host_known(1-4) _ host_packet_match host_match_ok, of 1 0 holding_switch 0 1
        "ofp_phy_port_init\<lparr>pp_port_no := 2\<rparr>" "\<lambda>_. demo_env"] ls sw table_ok_init
    by (auto simp: host_in_def)
  then show ?thesis by auto
qed

theorem unbuffered_flood_lost_witness:
  "nx_sent (snd (ls_PacketIn demo_env (ofp_packet_in_init\<lparr>pi_in_port := 1, pi_buffer_id := - 1, pi_data := replicate 6 0xff @ drop 6 host_frame\<rparr>)
     (LearningSwitch_init 1 4 0 False))) = []"
proof -
  let ?in = "ofp_packet_in_init\<lparr>pi_in_port := 1, pi_buffer_id := - 1, pi_data := replicate 6 0xff @ drop 6 host_frame\<rparr>"
  let ?dst = "EthAddr [0xff, 0xff, 0xff, 0xff, 0xff, 0xff]"
  let ?p = "Ethernet \<lparr>eth_dst = HwEth ?dst, eth_src = HwEth (host 7), eth_type = 0x1234, eth_raw = Some (replicate 6 0xff @ drop 6 host_frame), eth_parsed = True\<rparr> (Bytes [])"
  have "ethernet_new (env_subs demo_env) (env_iid demo_env) (env_rnd demo_env) (replicate 6 0xff @ drop 6 host_frame) = Inr ?p" by code_simp
  then have "packet_of demo_env ?in ?p (host 7) ?dst" by (simp add: packet_of_def parse_packet_in_def)
  from unbuffered_flood_lost [OF this, of "LearningSwitch_init 1 4 0 False"] show ?thesis
    by (simp add: link_local_def LearningSwitch_init_def packet_type_def bridge_filtered_def multicast_def)
qed

end
