(* ===== verification/Controller_Learning.thy ===== *)
theory Controller_Learning
  imports Of_Controller_Laws L2_Learning_Laws
begin

text \<open>
  The component \<open>l2_learning\<close> of \<open>pox/forwarding/l2_learning.py\<close> on the controller: each switch that connects gets a
  \<open>LearningSwitch\<close> that listens to its connection, and the packets of the switch reach it, however the network cuts their
  bytes.
\<close>

section \<open>The application\<close>

datatype l2_fn = L2_ConnectionUp | LS_PacketIn nat

record learning_con = "l2_fn controller" +
  la_transparent :: bool
  la_tables :: "(EthAddr \<times> int) list list"

text \<open>The attributes of the learning switch number \<open>k\<close>, and what its handler leaves of them\<close>

definition ls_view :: "nat \<Rightarrow> int \<Rightarrow> learning_con \<Rightarrow> learning_switch" where
  "ls_view k time st = \<lparr>nx_sent = nx_sent st, nx_disconnected = nx_disconnected st, nx_nextXID = nx_nextXID st,
     ls_connection = con_id st, ls_connect_time = time, ls_transparent = la_transparent st, ls_macToPort = la_tables st ! k\<rparr>"

definition ls_update :: "nat \<Rightarrow> learning_switch \<Rightarrow> learning_con \<Rightarrow> learning_con" where
  "ls_update k ls st = st\<lparr>nx_sent := nx_sent ls, nx_disconnected := nx_disconnected ls, nx_nextXID := nx_nextXID ls,
     la_tables := (la_tables st)[k := ls_macToPort ls]\<rparr>"

text \<open>
  The handlers: \<open>l2_learning._handle_ConnectionUp\<close>, which makes a \<open>LearningSwitch\<close> that listens to the connection, and
  \<open>LearningSwitch._handle_PacketIn\<close>.  A learning switch exists only after \<open>connect_time\<close> has been set.
\<close>

definition l2_handle_ConnectionUp :: "(learning_con, unit) sm" where
  "l2_handle_ConnectionUp = sbind (sget (\<lambda>st. length (la_tables st))) (\<lambda>k.
     sthen (smod (\<lambda>st. st\<lparr>la_tables := la_tables st @ [[]]\<rparr>))
     (sdo (on_con (autoBindEvents [(''_handle_PacketIn'', Some (Bound () (App (LS_PacketIn k))))] [] False None))))"

definition ls_handle_PacketIn :: "swenv \<Rightarrow> nat \<Rightarrow> of_event \<Rightarrow> (learning_con, unit) sm" where
  "ls_handle_PacketIn env k e = (case e of
     PacketIn ofp \<Rightarrow> sbind (sget con_connect_time) (\<lambda>time. case time of
         None \<Rightarrow> sraise TypeError
       | Some t \<Rightarrow> (\<lambda>st. case ls_PacketIn env ofp (ls_view k t st) of (r, ls) \<Rightarrow> (r, ls_update k ls st)))
   | _ \<Rightarrow> sraise AttributeError)"

definition l2_app :: "swenv \<Rightarrow> l2_fn \<Rightarrow> of_event event \<Rightarrow> (learning_con, rv \<times> of_event event) dm" where
  "l2_app env g ev = dlift (sthen (case g of
       L2_ConnectionUp \<Rightarrow> l2_handle_ConnectionUp
     | LS_PacketIn k \<Rightarrow> ls_handle_PacketIn env k (ev_data ev)) (sret (RvNone, ev)))"

abbreviation l2_call :: "swenv \<Rightarrow> nat \<Rightarrow> int \<Rightarrow> nat \<Rightarrow> (l2_fn, \<lparr>la_transparent :: bool, la_tables :: (EthAddr \<times> int) list list\<rparr>) call" where
  "l2_call env \<equiv> con_call (l2_app env)"

section \<open>The receive buffer\<close>

lemma blind_l2_app: "dcommutes (set_buf b) (l2_app env g ev)"
proof -
  have "commutes (set_buf b) l2_handle_ConnectionUp"
    unfolding l2_handle_ConnectionUp_def
    by (intro commutes_intros commutes_sget commutes_smod) (simp_all add: set_buf_def)
  moreover have "commutes (set_buf b) (ls_handle_PacketIn env k e)" for k e
  proof (cases e)
    case (PacketIn ofp)
    have "ls_view k t (set_buf b st) = ls_view k t st" "ls_update k ls (set_buf b st) = set_buf b (ls_update k ls st)" for t ls st
      by (simp_all add: ls_view_def ls_update_def set_buf_def)
    then have "commutes (set_buf b) (\<lambda>st. case ls_PacketIn env ofp (ls_view k t st) of (r, ls) \<Rightarrow> (r, ls_update k ls st))" for t
      by (simp add: commutes_def split: prod.split)
    with PacketIn show ?thesis
      by (simp add: ls_handle_PacketIn_def) (intro commutes_intros commutes_sget; simp add: set_buf_def)
  qed (simp_all add: ls_handle_PacketIn_def commutes_intros)
  ultimately show ?thesis
    unfolding l2_app_def by (intro dcommutes_dlift commutes_intros) (auto split: l2_fn.splits)
qed

interpretation l2: buffer_blind "l2_call env fuel now n" for env fuel now n
  by (rule con_call_blind) (rule blind_l2_app)

section \<open>A packet reaches the learning switch\<close>

text \<open>A connection on which one learning switch, number \<open>k\<close>, listens for packets\<close>

definition switch_listens :: "nat \<Rightarrow> int \<Rightarrow> learning_con \<Rightarrow> bool" where
  "switch_listens k t st \<longleftrightarrow> reachable_source (con_mixin st) \<and> mx_events (con_mixin st) = Some con_events
     \<and> map (\<lambda>l. (ln_handler l, ln_once l)) (listeners (con_mixin st) ''PacketIn'') = [(Bound () (App (LS_PacketIn k)), False)]
     \<and> listeners (nexus_mixin st) ''PacketIn'' = [] \<and> con_connect_time st = Some t \<and> con_buf st = []"

lemma packet_in_handled:
  assumes "switch_listens k t st"
  shows "handle_con_msg (l2_call env f now (Suc d)) (Suc (Suc fuel)) (CPacketIn m) st
    = Some (Inr (), ls_update k (snd (ls_PacketIn env m (ls_view k t st))) st)"
proof -
  let ?e = "PacketIn m" and ?call = "l2_call env f now (Suc d)"
  let ?ev = "set_source (mx_self (con_mixin st)) (Event_init (event_class ?e) ?e)"
  let ?st' = "ls_update k (snd (ls_PacketIn env m (ls_view k t st))) st"
  obtain l where l: "listeners (con_mixin st) ''PacketIn'' = [l]" "ln_handler l = Bound () (App (LS_PacketIn k))" "\<not> ln_once l"
    using assms by (auto simp: switch_listens_def)
  have c: "?call (App (LS_PacketIn k)) ?ev st = Some (map_sum id (\<lambda>_. (RvNone, ?ev)) (fst (ls_PacketIn env m (ls_view k t st))), ?st')"
    using assms by (cases "ls_PacketIn env m (ls_view k t st)"; cases "fst (ls_PacketIn env m (ls_view k t st))")
      (simp_all add: l2_app_def ls_handle_PacketIn_def switch_listens_def sm_simps sthen_def sbind_def set_source_def Event_init_def dlift_def)
  have same: "con_mixin ?st' = con_mixin st" by (simp add: ls_update_def)
  have ok: "defined_event ''PacketIn'' (con_mixin st)"
    using assms by (auto simp: switch_listens_def defined_event_def con_events_def nexus_events_def)
  have i: "isl (map_sum id (\<lambda>_. (RvNone, ?ev)) r) \<or> map_sum id (\<lambda>_. (RvNone, ?ev)) r = Inr (RvNone, ?ev)" for r :: "unit res"
    by (cases r) simp_all
  have list: "mx_lists (con_mixin st) ! j = [l]" if "map_of (mx_handlers (con_mixin st)) ''PacketIn'' = Some j" for j
    using that l(1) by (simp add: listeners_def)
  have "raise_in con_mixin set_con_mixin ?call (Suc (Suc fuel)) (of_class ?e) st = Some (Inr (), ?st')"
    by (rule raise_in_one [where rd = con_mixin and wr = set_con_mixin and e = ?e and call = ?call, OF _ _ l(3) refl _ _ c i])
      (simp_all add: l(1,2) ok list same set_con_mixin_def set_source_def Event_init_def)
  moreover have "nexus_raise ?call (Suc (Suc fuel)) (of_class ?e) st = Some (Inr (), st)"
    using assms raise_in_none [of nexus_mixin st ?e set_nexus_mixin ?call "Suc (Suc fuel)"]
    by (simp add: nexus_raise_def dbind_dlift sm_simps switch_listens_def set_nexus_mixin_def)
  ultimately show ?thesis by (simp add: raise_both_def dthen_def dbind_Some_Inr con_raise_def)
qed

text \<open>
  C16: A packet of the switch reaches the learning switch.  However the network cuts the bytes of a \<open>packet_in\<close> message,
  reading them runs the handler of the learning switch on that message exactly once, leaves the buffer empty, and changes
  nothing else; an exception of the handler does not get out.
\<close>

theorem packet_in_reaches_switch:
  assumes "switch_listens k t st" and "ofp_packet_in_pack nx m = Inr (b, m', nx')" "- 1 \<le> pi_buffer_id m" "pi_buffer_id m < 0xffffffff"
    and "version m = OFP_VERSION" "header_type m = OFPT_PACKET_IN" and "concat pieces = b" "[] \<notin> set pieces"
  shows "con_reads 2 (l2_call env f now (Suc d)) (Suc (Suc fuel)) pieces st
    = Some (Inr True, ls_update k (snd (ls_PacketIn env m' (ls_view k t st))) st)"
proof -
  have sd: "self_delimiting b (CPacketIn m')" using assms(2-6) by (rule packet_in_self_delimiting)
  then have "b \<noteq> []" by (auto simp: self_delimiting_def)
  then have "con_reads 2 (l2_call env f now (Suc d)) (Suc (Suc fuel)) pieces st
      = map_option (\<lambda>(_, st'). (Inr True, set_buf [] st')) (handle_all (l2_call env f now (Suc d)) (Suc (Suc fuel)) [CPacketIn m'] st)"
    using l2.reads_frames [of st "[]" pieces "[(b, CPacketIn m')]" 2 env f now "Suc d"] sd assms(1, 7, 8)
    by (simp add: switch_listens_def)
  moreover have "set_buf [] (ls_update k ls st) = ls_update k ls st" for ls
    using assms(1) by (simp add: set_buf_def ls_update_def switch_listens_def)
  ultimately show ?thesis using packet_in_handled [OF assms(1)] by simp
qed

section \<open>Witness\<close>

text \<open>A controller with the component \<open>l2_learning\<close> and a new connection\<close>

definition l2_start :: learning_con where
  "l2_start = \<lparr>nx_sent = [], nx_disconnected = [], nx_nextXID = 1, con_id = 4, con_buf = [], con_dpid = None, con_features = None,
     con_connect_time = None, con_previous_stats = [], con_handshakes = [], con_mixin = EventMixin_init 4 (Some con_events),
     con_nexus = False,
     nexus_mixin = snd (addListener ''ConnectionUp'' (Bound () (App L2_ConnectionUp)) False False None (EventMixin_init 0 (Some nexus_events))),
     nexus_connections = [], nexus_miss_send_len = Some OFP_DEFAULT_MISS_SEND_LEN, nexus_clear_flows = True, arb_accepts = True,
     la_transparent = False, la_tables = []\<rparr>"

text \<open>The same after the handshake\<close>

definition l2_ready :: learning_con where
  "l2_ready = l2_start\<lparr>con_connect_time := Some 0, la_tables := [[]],
     con_mixin := snd (addListener ''PacketIn'' (Bound () (App (LS_PacketIn 0))) False False None (con_mixin l2_start))\<rparr>"

lemma l2_start_listeners:
  "listeners (nexus_mixin l2_start) ''ConnectionUp'' = [\<lparr>ln_priority = None, ln_handler = Bound () (App L2_ConnectionUp), ln_once = False, ln_eid = 1\<rparr>]"
  "listeners (nexus_mixin l2_start) ''PacketIn'' = []" "listeners (nexus_mixin l2_start) ''BarrierIn'' = []"
  "mx_events (nexus_mixin l2_start) = Some nexus_events" "listeners (con_mixin l2_start) t = []"
  "reachable_source (con_mixin l2_start)" "mx_events (con_mixin l2_start) = Some con_events" "con_buf l2_start = []"
proof -
  show "reachable_source (con_mixin l2_start)" by (simp add: l2_start_def source_new)
qed (simp_all add: l2_start_def addListener_def list_object_def generateEventID_def defined_event_def nexus_events_def con_events_def sm_simps
  EventMixin_init_def listeners_def Let_def)

lemma l2_ready_listens: "switch_listens 0 0 l2_ready"
proof -
  have "reachable_source (con_mixin l2_ready)"
    using source_next [OF l2_start_listeners(6) step_add] by (simp add: l2_ready_def is_proxy_def)
  moreover have "map (\<lambda>l. (ln_handler l, ln_once l)) (listeners (con_mixin l2_ready) ''PacketIn'') = [(Bound () (App (LS_PacketIn 0)), False)]"
    "mx_events (con_mixin l2_ready) = Some con_events"
    by (simp_all add: l2_ready_def l2_start_def addListener_def list_object_def generateEventID_def defined_event_def nexus_events_def
      con_events_def sm_simps EventMixin_init_def listeners_def Let_def)
  ultimately show ?thesis
    using l2_start_listeners by (simp add: switch_listens_def l2_ready_def)
qed

theorem packet_in_reaches_switch_witness:
  "\<exists>b m' nx'. ofp_packet_in_pack 5 (host_in 1) = Inr (b, m', nx')
    \<and> con_reads 2 (l2_call demo_env 2 9 1) 2 [take 3 b, drop 3 b] l2_ready
      = Some (Inr True, ls_update 0 (snd (ls_PacketIn demo_env m' (ls_view 0 0 l2_ready))) l2_ready)"
proof -
  have "\<exists>b m' nx'. ofp_packet_in_pack 5 (host_in 1) = Inr (b, m', nx')"
    by (simp add: ofp_packet_in_pack_def msg_pack_def host_in_def host_frame_def ofp_packet_in_init_def ofp_header_pack_def
        assign_xid_def ofp_header_assert_def ofp_type_known_iff generateXID_def Let_def ofp_packet_in_len_def struct_pack.simps in_range_def)
  then obtain b m' nx' where b: "ofp_packet_in_pack 5 (host_in 1) = Inr (b, m', nx')" by blast
  have r: "- 1 \<le> pi_buffer_id (host_in 1)" "pi_buffer_id (host_in 1) < 0xffffffff" "version (host_in 1) = OFP_VERSION"
    "header_type (host_in 1) = OFPT_PACKET_IN" by (simp_all add: host_in_def ofp_packet_in_init_def)
  have "4 < length b" using packet_in_self_delimiting [OF b r] by (simp add: self_delimiting_def)
  then have "concat [take 3 b, drop 3 b] = b" "[] \<notin> set [take 3 b, drop 3 b]" by auto
  from packet_in_reaches_switch [OF l2_ready_listens b r this, of demo_env 2 9 0 0] b show ?thesis
    by (auto simp: numeral_2_eq_2 simp del: con_reads.simps con_call.simps)
qed

end
