(* ===== verification/Controller_Handshake.thy ===== *)
theory Controller_Handshake
  imports Controller_Learning
begin

text \<open>
  The handshake of \<open>handle_FEATURES_REPLY\<close>: the features of the switch arrive, a barrier goes out, and its answer completes the
  connection and makes it a learning switch, or, with another identifier, ends it.
\<close>

section \<open>Listeners of the handshake\<close>

lemma removeListeners_pairs:
  "refs_ok mx \<Longrightarrow> fst ` set ps \<subseteq> dom (map_of (mx_handlers mx)) \<Longrightarrow>
   \<exists>a mx'. removeListeners (map (\<lambda>(t, eid). ByPair t eid) ps) altered mx = (Inr a, mx') \<and> filtered (\<lambda>t l. (t, ln_eid l) \<notin> set ps) mx mx'"
proof (induction ps arbitrary: mx altered)
  case Nil
  then show ?case by (simp add: sm_simps filtered_refl)
next
  case (Cons p ps)
  obtain t eid where p: "p = (t, eid)" by (cases p)
  obtain a mx1 where one: "removeListener (ByPair t eid) None mx = (Inr a, mx1)"
    and f: "filtered (\<lambda>u l. u = t \<longrightarrow> ln_eid l \<noteq> eid) mx mx1"
    using filtered_keep_listeners [OF Cons.prems(1), of t "\<lambda>l. ln_eid l \<noteq> eid"] Cons.prems(2) p
    by (auto simp: removeListener_def keep_listeners_eq split: option.splits)
  from f Cons.prems p have "refs_ok mx1" "fst ` set ps \<subseteq> dom (map_of (mx_handlers mx1))" by (auto simp: filtered_def)
  from Cons.IH [OF this] obtain b mx2 where two: "removeListeners (map (\<lambda>(t, eid). ByPair t eid) ps) (altered \<or> a) mx1 = (Inr b, mx2)"
    and f2: "filtered (\<lambda>t l. (t, ln_eid l) \<notin> set ps) mx1 mx2" by blast
  have "filtered (\<lambda>t l. (t, ln_eid l) \<notin> set (p # ps)) mx mx2"
    by (rule filtered_cong [OF filtered_trans [OF f f2]]) (auto simp: p)
  with one two show ?case by (simp add: p sm_simps)
qed

lemma addListener_other_list:
  assumes "refs_ok mx" "map_of (mx_handlers mx) u = Some i" "u \<noteq> t" "addListener t h once weak priority mx = (r, mx')"
  shows "mx_lists mx' ! i = mx_lists mx ! i \<and> map_of (mx_handlers mx') u = Some i"
proof -
  have "\<exists>r mx1. list_object t mx = (Inr r, mx1) \<and> r \<noteq> i \<and> mx_lists mx1 ! i = mx_lists mx ! i \<and> map_of (mx_handlers mx1) u = Some i"
  proof (cases "map_of (mx_handlers mx) t")
    case None
    then show ?thesis using refs_okD(1) [OF assms(1,2)] assms(2,3)
      by (simp add: list_object_def sm_simps update_conv' nth_append)
  next
    case (Some j)
    then have "j \<noteq> i" using assms(3) refs_okD(2) [OF assms(1,2), of t] by auto
    with Some assms(2) show ?thesis by (simp add: list_object_def sm_simps)
  qed
  then obtain r1 mx1 where l: "list_object t mx = (Inr r1, mx1)" "r1 \<noteq> i" "mx_lists mx1 ! i = mx_lists mx ! i"
    "map_of (mx_handlers mx1) u = Some i" by blast
  show ?thesis
  proof (cases "defined_event t mx")
    case False
    then show ?thesis using assms(2,4) by (auto simp: addListener_def sm_simps)
  next
    case True
    show ?thesis
      by (cases "if weak then CallProxy_init h (t, mx_nextEventID mx1 + 1) else Inr h")
        (use assms(4) l True in \<open>simp_all add: addListener_def sm_simps generateEventID_def Let_def\<close>, (clarsimp simp: sm_simps)+)
  qed
qed

text \<open>A connection that has sent its barrier, with identifier \<open>x\<close>, and waits for the answer\<close>

definition awaiting_barrier :: "nat \<Rightarrow> int option \<Rightarrow> ('g, 'z) controller_scheme \<Rightarrow> bool" where
  "awaiting_barrier k x st \<longleftrightarrow> reachable_source (con_mixin st) \<and> mx_events (con_mixin st) = Some con_events
     \<and> k < length (con_handshakes st) \<and> xid (hs_barrier (con_handshakes st ! k)) = x
     \<and> (\<exists>l1 l2. listeners (con_mixin st) ''BarrierIn'' = [l1] \<and> ln_handler l1 = Function (Finish_connecting k) \<and> \<not> ln_once l1
        \<and> listeners (con_mixin st) ''ErrorIn'' = [l2]
        \<and> hs_listeners (con_handshakes st ! k) = [(''BarrierIn'', ln_eid l1), (''ErrorIn'', ln_eid l2)])
     \<and> con_nexus st \<and> listeners (nexus_mixin st) ''BarrierIn'' = []"

lemma barrier_finishes:
  assumes await: "awaiting_barrier k x st" and finish: "finish_connecting (con_call app f now d) f now k (BarrierIn m) st = Some (r, st')"
    and keep: "\<And>i. map_of (mx_handlers (con_mixin st)) ''BarrierIn'' = Some i \<Longrightarrow> mx_lists (con_mixin st') ! i = mx_lists (con_mixin st) ! i"
  shows "handle_con_msg (con_call app f now (Suc d)) (Suc (Suc fuel)) (CBarrier m) st = Some (Inr (), st')"
proof -
  let ?e = "BarrierIn m" and ?call = "con_call app f now (Suc d)"
  let ?ev = "set_source (mx_self (con_mixin st)) (Event_init (event_class ?e) ?e)"
  obtain l where l: "listeners (con_mixin st) ''BarrierIn'' = [l]" "ln_handler l = Function (Finish_connecting k)" "\<not> ln_once l"
    using await by (auto simp: awaiting_barrier_def)
  have c: "?call (Finish_connecting k) ?ev st = Some (map_sum id (\<lambda>_. (RvNone, ?ev)) r, st')"
    using finish by (cases r) (simp_all add: dthen_def dbind_def sm_simps set_source_def Event_init_def)
  have i: "isl (map_sum id (\<lambda>_. (RvNone, ?ev)) r) \<or> map_sum id (\<lambda>_. (RvNone, ?ev)) r = Inr (RvNone, ?ev)" for r :: "unit res"
    by (cases r) simp_all
  have def: "defined_event ''BarrierIn'' (con_mixin st)"
    using await by (simp add: awaiting_barrier_def defined_event_def con_events_def nexus_events_def)
  have list: "mx_lists (con_mixin st') ! j = [l]" if "map_of (mx_handlers (con_mixin st)) ''BarrierIn'' = Some j" for j
    using that l(1) keep [OF that] by (simp add: listeners_def)
  have "raise_in con_mixin set_con_mixin ?call (Suc (Suc fuel)) (of_class ?e) st = Some (Inr (), st')"
    by (rule raise_in_one [where rd = con_mixin and wr = set_con_mixin and e = ?e and call = ?call, OF _ _ l(3) refl _ _ c i])
      (simp_all add: l(1,2) def list set_con_mixin_def)
  moreover have "nexus_raise ?call (Suc (Suc fuel)) (of_class ?e) st = Some (Inr (), st)"
    using await raise_in_none [of nexus_mixin st ?e set_nexus_mixin ?call "Suc (Suc fuel)"]
    by (simp add: nexus_raise_def dbind_dlift sm_simps awaiting_barrier_def set_nexus_mixin_def)
  ultimately show ?thesis by (simp add: raise_both_def dthen_def dbind_Some_Inr con_raise_def)
qed

text \<open>Removing the two listeners at the end of \<open>finish_connecting\<close>\<close>

lemma handshake_listeners_removed:
  assumes ok: "refs_ok mx" and b: "listeners mx ''BarrierIn'' = [l1]" and e: "listeners mx ''ErrorIn'' = [l2]"
  shows "\<exists>a mx'. removeListeners (map (\<lambda>(t, eid). ByPair t eid) [(''BarrierIn'', ln_eid l1), (''ErrorIn'', ln_eid l2)]) False mx = (Inr a, mx')
    \<and> listeners mx' = (listeners mx)(''BarrierIn'' := [], ''ErrorIn'' := [])
    \<and> refs_ok mx' \<and> mx_events mx' = mx_events mx \<and> extends mx mx'"
proof -
  have "''BarrierIn'' \<in> dom (map_of (mx_handlers mx))" "''ErrorIn'' \<in> dom (map_of (mx_handlers mx))"
    using b e listeners_dom [of _ mx] by fastforce+
  then obtain a mx' where r: "removeListeners (map (\<lambda>(t, eid). ByPair t eid) [(''BarrierIn'', ln_eid l1), (''ErrorIn'', ln_eid l2)]) False mx = (Inr a, mx')"
    and f: "filtered (\<lambda>t l. (t, ln_eid l) \<notin> set [(''BarrierIn'', ln_eid l1), (''ErrorIn'', ln_eid l2)]) mx mx'"
    using removeListeners_pairs [OF ok, of "[(''BarrierIn'', ln_eid l1), (''ErrorIn'', ln_eid l2)]" False] by auto
  have "listeners mx' t = ((listeners mx)(''BarrierIn'' := [], ''ErrorIn'' := [])) t" for t
    using f b e by (cases "t = ''BarrierIn''"; cases "t = ''ErrorIn''") (simp_all add: filtered_def)
  with r f show ?thesis by (auto simp: filtered_def extends_def fun_eq_iff)
qed

lemma awaiting_lists:
  assumes "awaiting_barrier k x st"
  shows "refs_ok (con_mixin st)" "hs_listeners (con_handshakes st ! k) = [(''BarrierIn'', e1), (''ErrorIn'', e2)] \<Longrightarrow>
    \<exists>l1 l2. listeners (con_mixin st) ''BarrierIn'' = [l1] \<and> listeners (con_mixin st) ''ErrorIn'' = [l2] \<and> e1 = ln_eid l1 \<and> e2 = ln_eid l2"
  using assms wf_reachable by (auto simp: awaiting_barrier_def wf_source_def)

lemma handshake_fails:
  assumes await: "awaiting_barrier k x st" and "xid m \<noteq> x" and dpid: "map_of (nexus_connections st) None = None"
  shows "\<exists>mx'. finish_connecting call f now k (BarrierIn m) st
      = Some (Inr (), st\<lparr>con_dpid := None, nx_disconnected := con_id st # nx_disconnected st, con_mixin := mx'\<rparr>)
    \<and> extends (con_mixin st) mx' \<and> listeners mx' = (listeners (con_mixin st))(''BarrierIn'' := [], ''ErrorIn'' := [])"
proof -
  obtain l1 l2 where ls: "listeners (con_mixin st) ''BarrierIn'' = [l1]" "listeners (con_mixin st) ''ErrorIn'' = [l2]"
    "hs_listeners (con_handshakes st ! k) = [(''BarrierIn'', ln_eid l1), (''ErrorIn'', ln_eid l2)]"
    using await by (auto simp: awaiting_barrier_def)
  obtain a mx' where "removeListeners (map (\<lambda>(t, eid). ByPair t eid) [(''BarrierIn'', ln_eid l1), (''ErrorIn'', ln_eid l2)]) False (con_mixin st) = (Inr a, mx')"
    "extends (con_mixin st) mx'" "listeners mx' = (listeners (con_mixin st))(''BarrierIn'' := [], ''ErrorIn'' := [])"
    using handshake_listeners_removed [OF awaiting_lists(1) [OF await] ls(1,2)] by blast
  with assms ls(3) show ?thesis
    by (auto simp: finish_connecting_def con_disconnect_def dthen_def dbind_def dlift_def event_xid_def sm_simps awaiting_barrier_def
      try_except_def nexus_disconnect_def on_con_def sthen_def sbind_def)
qed

section \<open>The connection becomes a learning switch\<close>

lemma l2_handle_ConnectionUp_effect:
  assumes reach: "reachable_source (con_mixin st)" and ev: "mx_events (con_mixin st) = Some con_events"
    and none: "listeners (con_mixin st) ''PacketIn'' = []"
  shows "\<exists>mx' l. l2_handle_ConnectionUp st = (Inr (), st\<lparr>la_tables := la_tables st @ [[]], con_mixin := mx'\<rparr>)
    \<and> reachable_source mx' \<and> mx_events mx' = Some con_events
    \<and> listeners mx' = (listeners (con_mixin st))(''PacketIn'' := [l])
    \<and> ln_handler l = Bound () (App (LS_PacketIn (length (la_tables st)))) \<and> \<not> ln_once l
    \<and> (\<forall>u i. u \<noteq> ''PacketIn'' \<longrightarrow> map_of (mx_handlers (con_mixin st)) u = Some i \<longrightarrow>
        mx_lists mx' ! i = mx_lists (con_mixin st) ! i \<and> map_of (mx_handlers mx') u = Some i)"
proof -
  let ?mx = "con_mixin st" and ?h = "Bound () (App (LS_PacketIn (length (la_tables st))))"
  have ok: "refs_ok ?mx" "by_priority (listeners ?mx ''PacketIn'')"
    using wf_reachable [OF reach] by (simp_all add: wf_source_def list_ok_def)
  have def: "defined_event ''PacketIn'' ?mx" using ev by (simp add: defined_event_def con_events_def nexus_events_def)
  obtain mx' where add: "addListener ''PacketIn'' ?h False False None ?mx = (Inr (''PacketIn'', mx_nextEventID ?mx + 1), mx')"
    and ls: "listeners mx' = (listeners ?mx)(''PacketIn'' := insert_listener
        \<lparr>ln_priority = None, ln_handler = ?h, ln_once = False, ln_eid = mx_nextEventID ?mx + 1\<rparr> [])"
    using addListener_spec [OF ok def, of False ?h ?h False None] none by auto
  have "reachable_source mx'"
    using source_next [OF reach step_add [of ?h ?mx "''PacketIn''" False False None]] add by (simp add: is_proxy_def)
  moreover have "mx_events mx' = Some con_events"
    using add ev def by (auto simp: addListener_def list_object_def generateEventID_def sm_simps Let_def sbind_def split: option.splits)
  moreover have "l2_handle_ConnectionUp st = (Inr (), st\<lparr>la_tables := la_tables st @ [[]], con_mixin := mx'\<rparr>)"
    using add ev
    by (simp add: l2_handle_ConnectionUp_def on_con_def autoBindEvents_def handle_prefix_def con_events_def nexus_events_def sm_simps
      sthen_def sbind_def)
  ultimately show ?thesis
    using ls addListener_other_list [OF ok(1) _ _ add]
    by (intro exI [of _ mx'] exI [of _ "\<lparr>ln_priority = None, ln_handler = ?h, ln_once = False, ln_eid = mx_nextEventID ?mx + 1\<rparr>"])
      (simp add: insert_listener_def)
qed

text \<open>The application on the nexus: the component listens for connections, and nobody else for what matters here.\<close>

definition l2_listens :: "learning_con \<Rightarrow> bool" where
  "l2_listens st \<longleftrightarrow> mx_events (nexus_mixin st) = Some nexus_events
     \<and> map (\<lambda>l. (ln_handler l, ln_once l)) (listeners (nexus_mixin st) ''ConnectionUp'') = [(Bound () (App L2_ConnectionUp), False)]
     \<and> listeners (nexus_mixin st) ''PacketIn'' = [] \<and> listeners (nexus_mixin st) ''BarrierIn'' = []
     \<and> listeners (con_mixin st) ''ConnectionUp'' = [] \<and> listeners (con_mixin st) ''PacketIn'' = [] \<and> con_buf st = []"

lemma l2_connection_up:
  assumes l2: "l2_listens st" and joined: "con_nexus st"
    and reach: "reachable_source (con_mixin st)" and ev: "mx_events (con_mixin st) = Some con_events"
  shows "\<exists>mx' l. raise_both (l2_call env f now (Suc d)) (Suc (Suc fuel)) (ConnectionUp msg) st
      = Some (Inr (), st\<lparr>la_tables := la_tables st @ [[]], con_mixin := mx'\<rparr>)
    \<and> reachable_source mx' \<and> mx_events mx' = Some con_events
    \<and> listeners mx' = (listeners (con_mixin st))(''PacketIn'' := [l])
    \<and> ln_handler l = Bound () (App (LS_PacketIn (length (la_tables st)))) \<and> \<not> ln_once l
    \<and> (\<forall>u i. u \<noteq> ''PacketIn'' \<longrightarrow> map_of (mx_handlers (con_mixin st)) u = Some i \<longrightarrow>
        mx_lists mx' ! i = mx_lists (con_mixin st) ! i \<and> map_of (mx_handlers mx') u = Some i)"
proof -
  let ?e = "ConnectionUp msg" and ?call = "l2_call env f now (Suc d)"
  let ?ev = "set_source (mx_self (nexus_mixin st)) (Event_init (event_class ?e) ?e)"
  have "listeners (con_mixin st) ''PacketIn'' = []" using l2 by (simp add: l2_listens_def)
  from l2_handle_ConnectionUp_effect [OF reach ev this] obtain mx' lp where
    up: "l2_handle_ConnectionUp st = (Inr (), st\<lparr>la_tables := la_tables st @ [[]], con_mixin := mx'\<rparr>)"
    and mx': "reachable_source mx'" "mx_events mx' = Some con_events" "listeners mx' = (listeners (con_mixin st))(''PacketIn'' := [lp])"
      "ln_handler lp = Bound () (App (LS_PacketIn (length (la_tables st))))" "\<not> ln_once lp"
      "\<forall>u i. u \<noteq> ''PacketIn'' \<longrightarrow> map_of (mx_handlers (con_mixin st)) u = Some i \<longrightarrow>
        mx_lists mx' ! i = mx_lists (con_mixin st) ! i \<and> map_of (mx_handlers mx') u = Some i"
    by blast
  let ?st' = "st\<lparr>la_tables := la_tables st @ [[]], con_mixin := mx'\<rparr>"
  obtain l where l: "listeners (nexus_mixin st) ''ConnectionUp'' = [l]" "ln_handler l = Bound () (App L2_ConnectionUp)" "\<not> ln_once l"
    using l2 by (auto simp: l2_listens_def)
  have c: "?call (App L2_ConnectionUp) ?ev st = Some (Inr (RvNone, ?ev), ?st')"
    using up by (simp add: l2_app_def sm_simps)
  have def: "defined_event ''ConnectionUp'' (nexus_mixin st)"
    using l2 by (simp add: l2_listens_def defined_event_def nexus_events_def)
  have list: "mx_lists (nexus_mixin st) ! j = [l]" if "map_of (mx_handlers (nexus_mixin st)) ''ConnectionUp'' = Some j" for j
    using that l(1) by (simp add: listeners_def)
  have "raise_in nexus_mixin set_nexus_mixin ?call (Suc (Suc fuel)) (of_class ?e) st = Some (Inr (), ?st')"
    by (rule raise_in_one [where rd = nexus_mixin and wr = set_nexus_mixin and e = ?e and call = ?call, OF _ _ l(3) refl _ _ c])
      (simp_all add: l(1,2) def list set_nexus_mixin_def)
  then have "nexus_raise ?call (Suc (Suc fuel)) (of_class ?e) st = Some (Inr (), ?st')"
    using joined by (simp add: nexus_raise_def dbind_dlift sm_simps)
  moreover have "listeners mx' ''ConnectionUp'' = []" using mx'(3) l2 by (simp add: l2_listens_def)
  then have "con_raise ?call (Suc (Suc fuel)) (of_class ?e) ?st' = Some (Inr (), ?st')"
    unfolding con_raise_def by (intro raise_in_none) (simp_all add: set_con_mixin_def)
  ultimately show ?thesis using mx' by (simp add: raise_both_def dthen_def dbind_Some_Inr) blast
qed

lemma reachable_removes: "reachable_source mx \<Longrightarrow> removeListeners refs altered mx = (r, mx') \<Longrightarrow> reachable_source mx'"
  using source_next [OF _ step_removes, of mx refs altered] by simp

lemma handshake_succeeds:
  assumes await: "awaiting_barrier k (xid m) st" and l2: "l2_listens st"
  shows "\<exists>st'. handle_con_msg (l2_call env (Suc (Suc fuel)) now (Suc (Suc d))) (Suc (Suc fuel)) (CBarrier m) st = Some (Inr (), st')
    \<and> switch_listens (length (la_tables st)) now st' \<and> la_tables st' = la_tables st @ [[]]
    \<and> listeners (con_mixin st') ''BarrierIn'' = [] \<and> listeners (con_mixin st') ''ErrorIn'' = []
    \<and> nexus_connections st' = nexus_connections st \<and> nx_disconnected st' = nx_disconnected st \<and> con_dpid st' = con_dpid st"
proof -
  let ?call = "l2_call env (Suc (Suc fuel)) now (Suc d)" and ?st1 = "st\<lparr>con_connect_time := Some now\<rparr>"
  obtain l1 l2 where ls: "listeners (con_mixin st) ''BarrierIn'' = [l1]" "listeners (con_mixin st) ''ErrorIn'' = [l2]"
    "hs_listeners (con_handshakes st ! k) = [(''BarrierIn'', ln_eid l1), (''ErrorIn'', ln_eid l2)]"
    using await by (auto simp: awaiting_barrier_def)
  have st1: "l2_listens ?st1" "con_nexus ?st1" "reachable_source (con_mixin ?st1)" "mx_events (con_mixin ?st1) = Some con_events"
    using await l2 by (simp_all add: l2_listens_def awaiting_barrier_def)
  from l2_connection_up [OF this, of env "Suc (Suc fuel)" now d fuel "hs_msg (con_handshakes st ! k)"] obtain mx1 l where
    up: "raise_both ?call (Suc (Suc fuel)) (ConnectionUp (hs_msg (con_handshakes st ! k))) ?st1
        = Some (Inr (), ?st1\<lparr>la_tables := la_tables st @ [[]], con_mixin := mx1\<rparr>)"
    and mx1: "reachable_source mx1" "mx_events mx1 = Some con_events" "listeners mx1 = (listeners (con_mixin st))(''PacketIn'' := [l])"
      "ln_handler l = Bound () (App (LS_PacketIn (length (la_tables st))))" "\<not> ln_once l"
      "\<forall>u i. u \<noteq> ''PacketIn'' \<longrightarrow> map_of (mx_handlers (con_mixin st)) u = Some i \<longrightarrow>
        mx_lists mx1 ! i = mx_lists (con_mixin st) ! i \<and> map_of (mx_handlers mx1) u = Some i"
    by simp blast
  have ok1: "refs_ok mx1" using wf_reachable [OF mx1(1)] by (simp add: wf_source_def)
  have "listeners mx1 ''BarrierIn'' = [l1]" "listeners mx1 ''ErrorIn'' = [l2]" using ls mx1(3) by simp_all
  from handshake_listeners_removed [OF ok1 this] obtain a mx2 where
    rm: "removeListeners (map (\<lambda>(t, eid). ByPair t eid) [(''BarrierIn'', ln_eid l1), (''ErrorIn'', ln_eid l2)]) False mx1 = (Inr a, mx2)"
    and mx2: "listeners mx2 = (listeners mx1)(''BarrierIn'' := [], ''ErrorIn'' := [])" "mx_events mx2 = mx_events mx1" "extends mx1 mx2"
    by blast
  let ?st' = "?st1\<lparr>la_tables := la_tables st @ [[]], con_mixin := mx2\<rparr>"
  have fin: "finish_connecting ?call (Suc (Suc fuel)) now k (BarrierIn m) st = Some (Inr (), ?st')"
    using await ls(3) up rm
    by (auto simp: finish_connecting_def dthen_def dbind_def dlift_def event_xid_def sm_simps awaiting_barrier_def on_con_def sthen_def sbind_def)
  have keep: "mx_lists mx2 ! i = mx_lists (con_mixin st) ! i" if i: "map_of (mx_handlers (con_mixin st)) ''BarrierIn'' = Some i" for i
    using mx1(6) [rule_format, OF _ i] extends_nth [OF mx2(3) refs_okD(1) [OF ok1], of "''BarrierIn''"] by simp
  have "handle_con_msg (l2_call env (Suc (Suc fuel)) now (Suc (Suc d))) (Suc (Suc fuel)) (CBarrier m) st = Some (Inr (), ?st')"
    by (rule barrier_finishes [OF await fin]) (simp add: keep)
  moreover have "switch_listens (length (la_tables st)) now ?st'"
    using l2 mx1 mx2 reachable_removes [OF mx1(1) rm] by (simp add: switch_listens_def l2_listens_def)
  ultimately show ?thesis using mx2(1) by auto
qed

section \<open>Sending the barrier\<close>

lemma con_send_ok:
  assumes "con_id st \<notin> set (nx_disconnected st)" "pack (nx_nextXID st) m = Inr (b, m', nx')"
  shows "con_send pack m st = (Inr m', st\<lparr>nx_sent := nx_sent st @ [(con_id st, b)], nx_nextXID := nx'\<rparr>)"
  using assms by (simp add: con_send_def connection_send_def sm_simps)

lemma set_config_packs:
  assumes "xid_ok nx" "0 \<le> n" "n < 65536"
  shows "\<exists>b m'. ofp_switch_config_pack nx (ofp_switch_config_init\<lparr>sc_miss_send_len := n\<rparr>) = Inr (b, m', snd (generateXID nx))"
  using assms
  by (simp add: ofp_switch_config_pack_def msg_pack_def ofp_switch_config_init_def ofp_header_pack_def assign_xid_def generateXID_def
    Let_def ofp_header_assert_def ofp_type_known_iff struct_pack.simps in_range_def xid_ok_def)

lemma barrier_packs:
  assumes "xid_ok nx"
  shows "\<exists>b. ofp_barrier_request_pack nx ofp_barrier_request_init
    = Inr (b, ofp_barrier_request_init\<lparr>xid := Some (fst (generateXID nx))\<rparr>, snd (generateXID nx))"
  using assms
  by (simp add: ofp_barrier_request_pack_def ofp_barrier_request_init_def ofp_header_init_def ofp_header_pack_def assign_xid_def generateXID_def
    Let_def ofp_header_assert_def ofp_type_known_iff struct_pack.simps in_range_def xid_ok_def)

lemma clear_flows_packs:
  assumes "xid_ok nx"
  shows "\<exists>b m'. ofp_flow_mod_pack True nx clear_flows = Inr (b, m', snd (generateXID nx))"
proof -
  obtain mb where mb: "ofp_match_pack True True ofp_match_init = Inr mb" using match_init_pack_ok by blast
  have "in_range FL 0xffffffff" by (simp add: in_range_def)
  then show ?thesis
    using assms mb
    by (auto simp: ofp_flow_mod_pack_def msg_pack_def clear_flows_def ofp_flow_mod_init_def ofp_header_pack_def assign_xid_def
        generateXID_def Let_def ofp_header_assert_def ofp_type_known_iff struct_pack.simps in_range_def xid_ok_def ofp_flow_mod_len_def)
qed

lemma send_config:
  assumes "con_id st \<notin> set (nx_disconnected st)" "xid_ok (nx_nextXID st)" "\<forall>n. miss = Some n \<longrightarrow> 0 \<le> n \<and> n < 65536"
  shows "\<exists>bs nx. (case miss of None \<Rightarrow> sret () | Some n \<Rightarrow> sdo (con_send ofp_switch_config_pack (ofp_switch_config_init\<lparr>sc_miss_send_len := n\<rparr>))) st
      = (Inr (), st\<lparr>nx_sent := nx_sent st @ bs, nx_nextXID := nx\<rparr>) \<and> xid_ok nx"
proof (cases miss)
  case None
  then show ?thesis using assms(2) by (intro exI [of _ "[]"] exI [of _ "nx_nextXID st"]) (simp add: sret_def)
next
  case (Some n)
  then obtain b m' where "ofp_switch_config_pack (nx_nextXID st) (ofp_switch_config_init\<lparr>sc_miss_send_len := n\<rparr>)
      = Inr (b, m', snd (generateXID (nx_nextXID st)))" using set_config_packs assms(2,3) by blast
  from con_send_ok [of st ofp_switch_config_pack, OF assms(1) this] show ?thesis
    using Some generateXID_ok [OF assms(2)] by (auto simp: sm_simps)
qed

lemma send_clear_flows:
  assumes "con_id st \<notin> set (nx_disconnected st)" "xid_ok (nx_nextXID st)"
  shows "\<exists>bs nx. (if clear then sdo (con_send (ofp_flow_mod_pack True) clear_flows) else sret ()) st
      = (Inr (), st\<lparr>nx_sent := nx_sent st @ bs, nx_nextXID := nx\<rparr>) \<and> xid_ok nx"
proof (cases clear)
  case False
  then show ?thesis using assms(2) by (intro exI [of _ "[]"] exI [of _ "nx_nextXID st"]) (simp add: sret_def)
next
  case True
  obtain b m' where "ofp_flow_mod_pack True (nx_nextXID st) clear_flows = Inr (b, m', snd (generateXID (nx_nextXID st)))"
    using clear_flows_packs [OF assms(2)] by blast
  from con_send_ok [of st "ofp_flow_mod_pack True", OF assms(1) this] show ?thesis
    using True generateXID_ok [OF assms(2)] by (auto simp: sm_simps)
qed

text \<open>A connection whose features have not arrived yet\<close>

definition fresh_connection :: "('g, 'z) controller_scheme \<Rightarrow> bool" where
  "fresh_connection st \<longleftrightarrow> reachable_source (con_mixin st) \<and> mx_events (con_mixin st) = Some con_events
     \<and> listeners (con_mixin st) ''BarrierIn'' = [] \<and> listeners (con_mixin st) ''ErrorIn'' = []
     \<and> con_id st \<notin> set (nx_disconnected st) \<and> xid_ok (nx_nextXID st)
     \<and> (\<forall>n. nexus_miss_send_len st = Some n \<longrightarrow> 0 \<le> n \<and> n < 65536) \<and> listeners (nexus_mixin st) ''BarrierIn'' = []"

lemma add_function:
  assumes reach: "reachable_source mx" and ev: "mx_events mx = Some con_events" and t: "t \<in> set con_events" and none: "listeners mx t = []"
  shows "\<exists>mx' l. addListener t (Function f) False False None mx = (Inr (t, ln_eid l), mx') \<and> reachable_source mx'
    \<and> mx_events mx' = Some con_events \<and> listeners mx' = (listeners mx)(t := [l]) \<and> ln_handler l = Function f \<and> \<not> ln_once l"
proof -
  have ok: "refs_ok mx" "by_priority (listeners mx t)" using wf_reachable [OF reach] by (simp_all add: wf_source_def list_ok_def)
  have def: "defined_event t mx" using ev t by (simp add: defined_event_def)
  let ?l = "\<lparr>ln_priority = None, ln_handler = Function f, ln_once = False, ln_eid = mx_nextEventID mx + 1\<rparr>"
  obtain mx' where add: "addListener t (Function f) False False None mx = (Inr (t, mx_nextEventID mx + 1), mx')"
    and ls: "listeners mx' = (listeners mx)(t := insert_listener ?l [])"
    using addListener_spec [OF ok def, of False "Function f" "Function f" False None] none by auto
  have "reachable_source mx'" using source_next [OF reach step_add [of "Function f" mx t False False None]] add by (simp add: is_proxy_def)
  moreover have "mx_events mx' = Some con_events"
    using add ev def by (auto simp: addListener_def list_object_def generateEventID_def sm_simps Let_def sbind_def split: option.splits)
  ultimately show ?thesis
    using add ls by (intro exI [of _ mx'] exI [of _ ?l]) (simp add: insert_listener_def)
qed

lemma begin_handshake_awaits:
  assumes fresh: "fresh_connection st" and joined: "con_nexus st"
  obtains st' bs b x mx hs sent nx where "begin_handshake msg st = (Inr (), st')"
    "awaiting_barrier (length (con_handshakes st)) (Some x) st'"
    "nx_sent st' = nx_sent st @ bs @ [(con_id st, b)]" "ofp_barrier_request_unpack y b = Inr (ofp_barrier_request_init\<lparr>xid := Some x\<rparr>, [])"
    "st' = st\<lparr>con_mixin := mx, con_handshakes := hs, nx_sent := sent, nx_nextXID := nx\<rparr>"
    "\<forall>t. t \<notin> {''BarrierIn'', ''ErrorIn''} \<longrightarrow> listeners mx t = listeners (con_mixin st) t"
proof -
  let ?k = "length (con_handshakes st)"
  have f: "reachable_source (con_mixin st)" "mx_events (con_mixin st) = Some con_events" "listeners (con_mixin st) ''BarrierIn'' = []"
    "listeners (con_mixin st) ''ErrorIn'' = []" "con_id st \<notin> set (nx_disconnected st)" "xid_ok (nx_nextXID st)"
    "\<forall>n. nexus_miss_send_len st = Some n \<longrightarrow> 0 \<le> n \<and> n < 65536" "listeners (nexus_mixin st) ''BarrierIn'' = []"
    using fresh by (simp_all add: fresh_connection_def)
  have ce: "''BarrierIn'' \<in> set con_events" "''ErrorIn'' \<in> set con_events" by (simp_all add: con_events_def nexus_events_def)
  obtain mx1 l1 where a1: "addListener ''BarrierIn'' (Function (Finish_connecting ?k)) False False None (con_mixin st) = (Inr (''BarrierIn'', ln_eid l1), mx1)"
    and m1: "reachable_source mx1" "mx_events mx1 = Some con_events" "listeners mx1 = (listeners (con_mixin st))(''BarrierIn'' := [l1])"
      "ln_handler l1 = Function (Finish_connecting ?k)" "\<not> ln_once l1"
    using add_function [OF f(1,2) ce(1) f(3), of "Finish_connecting ?k"] by blast
  have "listeners mx1 ''ErrorIn'' = []" using m1(3) f(4) by simp
  then obtain mx2 l2 where a2: "addListener ''ErrorIn'' (Function (Also_finish_connecting ?k)) False False None mx1 = (Inr (''ErrorIn'', ln_eid l2), mx2)"
    and m2: "reachable_source mx2" "mx_events mx2 = Some con_events" "listeners mx2 = (listeners mx1)(''ErrorIn'' := [l2])"
    using add_function [OF m1(1,2) ce(2), of "Also_finish_connecting ?k"] by blast
  let ?hs = "\<lambda>b. con_handshakes st @ [\<lparr>hs_barrier = b, hs_msg = msg, hs_listeners = [(''BarrierIn'', ln_eid l1), (''ErrorIn'', ln_eid l2)]\<rparr>]"
  let ?st2 = "st\<lparr>con_mixin := mx2, con_handshakes := ?hs ofp_barrier_request_init\<rparr>"
  have "con_id ?st2 \<notin> set (nx_disconnected ?st2)" "xid_ok (nx_nextXID ?st2)" using f(5,6) by simp_all
  from send_config [OF this f(7)] obtain bs1 nx1 where
    s1: "(case nexus_miss_send_len st of None \<Rightarrow> sret () | Some n \<Rightarrow> sdo (con_send ofp_switch_config_pack (ofp_switch_config_init\<lparr>sc_miss_send_len := n\<rparr>))) ?st2
      = (Inr (), ?st2\<lparr>nx_sent := nx_sent st @ bs1, nx_nextXID := nx1\<rparr>)" "xid_ok nx1" by auto
  let ?st3 = "?st2\<lparr>nx_sent := nx_sent st @ bs1, nx_nextXID := nx1\<rparr>"
  have "con_id ?st3 \<notin> set (nx_disconnected ?st3)" "xid_ok (nx_nextXID ?st3)" using f(5) s1(2) by simp_all
  from send_clear_flows [OF this, of "nexus_clear_flows st"] obtain bs2 nx2 where
    s2: "(if nexus_clear_flows st then sdo (con_send (ofp_flow_mod_pack True) clear_flows) else sret ()) ?st3
      = (Inr (), ?st3\<lparr>nx_sent := (nx_sent st @ bs1) @ bs2, nx_nextXID := nx2\<rparr>)" "xid_ok nx2" by auto
  let ?st4 = "?st3\<lparr>nx_sent := (nx_sent st @ bs1) @ bs2, nx_nextXID := nx2\<rparr>" and ?x = "fst (generateXID nx2)"
  let ?bar = "ofp_barrier_request_init\<lparr>xid := Some ?x\<rparr>"
  obtain b where b: "ofp_barrier_request_pack nx2 ofp_barrier_request_init = Inr (b, ?bar, snd (generateXID nx2))"
    using barrier_packs [OF s2(2)] by blast
  let ?st5 = "?st4\<lparr>nx_sent := ((nx_sent st @ bs1) @ bs2) @ [(con_id st, b)], nx_nextXID := snd (generateXID nx2)\<rparr>"
  have s3: "con_send ofp_barrier_request_pack ofp_barrier_request_init ?st4 = (Inr ?bar, ?st5)"
    using con_send_ok [of ?st4 ofp_barrier_request_pack ofp_barrier_request_init b ?bar "snd (generateXID nx2)"] f(5) b by simp
  let ?st' = "?st5\<lparr>con_handshakes := ?hs ?bar\<rparr>"
  have run: "begin_handshake msg st = (Inr (), ?st')"
    using a1 a2 s1(1) s2(1) s3 by (simp add: begin_handshake_def on_con_def sm_simps list_update_append)
  have await: "awaiting_barrier ?k (Some ?x) ?st'"
    using m2 m1 f(8) joined by (simp add: awaiting_barrier_def)
  have unp: "ofp_barrier_request_unpack y b = Inr (?bar, [])"
    using ofp_barrier_request_wire [OF b, of y "[]"] by simp
  have sent: "nx_sent ?st' = nx_sent st @ (bs1 @ bs2) @ [(con_id st, b)]" by simp
  have eq: "?st' = st\<lparr>con_mixin := mx2, con_handshakes := ?hs ?bar, nx_sent := nx_sent ?st', nx_nextXID := nx_nextXID ?st'\<rparr>" by simp
  have others: "\<forall>t. t \<notin> {''BarrierIn'', ''ErrorIn''} \<longrightarrow> listeners mx2 t = listeners (con_mixin st) t" using m1(3) m2(3) by simp
  show thesis by (rule that [OF run await sent unp eq others])
qed

section \<open>Properties\<close>

text \<open>
  C17: The handshake with a switch.  On a fresh connection the features of the switch make the controller register the
  connection under the datapath number and send a barrier request last; when the reply to that barrier arrives, the
  connection is up, its two handshake listeners are gone, and a learning switch with an empty table listens to it.
\<close>

theorem handshake_connects:
  assumes fresh: "fresh_connection st" and connecting: "con_connect_time st = None" "arb_accepts st" and l2: "l2_listens st"
  shows "\<exists>st1 bs b x. handle_con_msg call f (CFeatures msg) st = Some (Inr (), st1)
    \<and> nx_sent st1 = nx_sent st @ bs @ [(con_id st, b)] \<and> ofp_barrier_request_unpack y b = Inr (ofp_barrier_request_init\<lparr>xid := Some x\<rparr>, [])
    \<and> (\<forall>m. xid m = Some x \<longrightarrow>
        (\<exists>st2. handle_con_msg (l2_call env (Suc (Suc fuel)) now (Suc (Suc d))) (Suc (Suc fuel)) (CBarrier m) st1 = Some (Inr (), st2)
          \<and> switch_listens (length (la_tables st)) now st2 \<and> la_tables st2 = la_tables st @ [[]]
          \<and> listeners (con_mixin st2) ''BarrierIn'' = [] \<and> listeners (con_mixin st2) ''ErrorIn'' = []
          \<and> getConnection (fr_datapath_id msg) st2 = Some (con_id st) \<and> con_dpid st2 = Some (fr_datapath_id msg)))"
proof -
  let ?st0 = "nexus_connect (st\<lparr>con_features := Some msg, con_dpid := Some (fr_datapath_id msg), con_nexus := True\<rparr>)"
  have "fresh_connection ?st0" "con_nexus ?st0" using fresh by (simp_all add: fresh_connection_def nexus_connect_def)
  then obtain st1 bs b x mx hs sent nx where
    run: "begin_handshake msg ?st0 = (Inr (), st1)" and await: "awaiting_barrier (length (con_handshakes ?st0)) (Some x) st1"
    and sent: "nx_sent st1 = nx_sent ?st0 @ bs @ [(con_id ?st0, b)]"
    and unp: "ofp_barrier_request_unpack y b = Inr (ofp_barrier_request_init\<lparr>xid := Some x\<rparr>, [])"
    and st1: "st1 = ?st0\<lparr>con_mixin := mx, con_handshakes := hs, nx_sent := sent, nx_nextXID := nx\<rparr>"
    and others: "\<forall>t. t \<notin> {''BarrierIn'', ''ErrorIn''} \<longrightarrow> listeners mx t = listeners (con_mixin ?st0) t"
    by (rule begin_handshake_awaits)
  have features: "handle_con_msg call f (CFeatures msg) st = Some (Inr (), st1)"
    using connecting run by (simp add: handle_FEATURES_REPLY_def dthen_def dbind_dlift sm_simps)
  have "l2_listens st1" using l2 others by (simp add: st1 l2_listens_def nexus_connect_def)
  note fin = handshake_succeeds [OF _ this]
  have reg: "map_of (nexus_connections st1) (Some (fr_datapath_id msg)) = Some (con_id st)" "con_dpid st1 = Some (fr_datapath_id msg)"
    "la_tables st1 = la_tables st"
    by (simp_all add: st1 nexus_connect_def update_conv')
  have "\<exists>st2. handle_con_msg (l2_call env (Suc (Suc fuel)) now (Suc (Suc d))) (Suc (Suc fuel)) (CBarrier m) st1 = Some (Inr (), st2)
          \<and> switch_listens (length (la_tables st)) now st2 \<and> la_tables st2 = la_tables st @ [[]]
          \<and> listeners (con_mixin st2) ''BarrierIn'' = [] \<and> listeners (con_mixin st2) ''ErrorIn'' = []
          \<and> getConnection (fr_datapath_id msg) st2 = Some (con_id st) \<and> con_dpid st2 = Some (fr_datapath_id msg)" if "xid m = Some x" for m
    using fin [of _ m env fuel now d] await reg that unfolding getConnection_def by metis
  moreover have "nx_sent st1 = nx_sent st @ bs @ [(con_id st, b)]" using sent by (simp add: nexus_connect_def)
  ultimately show ?thesis using features unp by blast
qed

text \<open>
  A failed handshake leaves the connection registered.  When the answer to the barrier has another identifier, the
  controller takes the connection down, but it clears the datapath number first, so that the nexus keeps the dead connection
  under it and nobody hears that the switch is gone.
\<close>

theorem failed_handshake_stays_registered:
  assumes "awaiting_barrier k x st" "xid m \<noteq> x" "map_of (nexus_connections st) None = None"
    and "getConnection dpid st = Some (con_id st)"
  shows "\<exists>st'. handle_con_msg (con_call app f now (Suc d)) (Suc (Suc fuel)) (CBarrier m) st = Some (Inr (), st')
    \<and> con_id st' \<in> set (nx_disconnected st') \<and> con_dpid st' = None \<and> getConnection dpid st' = Some (con_id st')
    \<and> listeners (con_mixin st') ''BarrierIn'' = []"
proof -
  obtain mx' where fin: "finish_connecting (con_call app f now d) f now k (BarrierIn m) st
      = Some (Inr (), st\<lparr>con_dpid := None, nx_disconnected := con_id st # nx_disconnected st, con_mixin := mx'\<rparr>)" (is "_ = Some (_, ?st')")
    and mx': "extends (con_mixin st) mx'" "listeners mx' = (listeners (con_mixin st))(''BarrierIn'' := [], ''ErrorIn'' := [])"
    using handshake_fails [OF assms(1-3), of "con_call app f now d" f now] by blast
  have "handle_con_msg (con_call app f now (Suc d)) (Suc (Suc fuel)) (CBarrier m) st = Some (Inr (), ?st')"
    by (rule barrier_finishes [OF assms(1) fin])
      (use extends_nth [OF mx'(1) refs_okD(1) [OF awaiting_lists(1) [OF assms(1)]]] in simp)
  with assms(4) mx'(2) show ?thesis by (simp add: getConnection_def)
qed

section \<open>Witnesses\<close>

lemma l2_start_fresh: "fresh_connection l2_start" "con_connect_time l2_start = None" "arb_accepts l2_start" "l2_listens l2_start"
  using l2_start_listeners by (simp_all add: fresh_connection_def l2_listens_def) (simp_all add: l2_start_def xid_ok_def)

theorem handshake_connects_witness:
  "\<exists>st1 st2 m. handle_con_msg (l2_call demo_env 2 9 2) 2 (CFeatures (ofp_features_reply_init 7 0 0 0 0 [])) l2_start = Some (Inr (), st1)
    \<and> handle_con_msg (l2_call demo_env 2 9 2) 2 (CBarrier m) st1 = Some (Inr (), st2)
    \<and> switch_listens 0 9 st2 \<and> getConnection 7 st2 = Some 4"
proof -
  obtain st1 x where "handle_con_msg (l2_call demo_env 2 9 2) 2 (CFeatures (ofp_features_reply_init 7 0 0 0 0 [])) l2_start = Some (Inr (), st1)"
    and m: "\<forall>m. xid m = Some x \<longrightarrow>
        (\<exists>st2. handle_con_msg (l2_call demo_env 2 9 2) 2 (CBarrier m) st1 = Some (Inr (), st2) \<and> switch_listens 0 9 st2 \<and> getConnection 7 st2 = Some 4)"
    using handshake_connects [OF l2_start_fresh, of "l2_call demo_env 2 9 2" 2 "ofp_features_reply_init 7 0 0 0 0 []" _ demo_env 0 9 0]
    by (simp add: numeral_2_eq_2 l2_start_def ofp_features_reply_init_def Let_def del: con_call.simps handle_con_msg.simps) blast
  moreover have "xid (ofp_header_init\<lparr>xid := Some x\<rparr>) = Some x" by simp
  ultimately show ?thesis by blast
qed

theorem failed_handshake_stays_registered_witness:
  "\<exists>x st st'. awaiting_barrier 0 (Some x) st \<and> handle_con_msg (l2_call demo_env 2 9 1) 2 (CBarrier ofp_header_init) st = Some (Inr (), st')
    \<and> con_id st' \<in> set (nx_disconnected st') \<and> getConnection 7 st' = Some (con_id st')"
proof -
  let ?st = "l2_start\<lparr>con_nexus := True, nexus_connections := [(Some 7, 4)]\<rparr>"
  have "fresh_connection ?st" "con_nexus ?st" using l2_start_fresh(1) by (simp_all add: fresh_connection_def)
  then obtain st x mx hs sent nx where a: "awaiting_barrier (length (con_handshakes ?st)) (Some x) st"
    and st: "st = ?st\<lparr>con_mixin := mx, con_handshakes := hs, nx_sent := sent, nx_nextXID := nx\<rparr>"
    by (rule begin_handshake_awaits)
  have "xid ofp_header_init \<noteq> Some x" "map_of (nexus_connections st) None = None" "getConnection 7 st = Some (con_id st)"
    by (simp_all add: st getConnection_def ofp_header_init_def l2_start_def)
  from failed_handshake_stays_registered [OF a this, of "l2_app demo_env" 2 9 0 0] a show ?thesis
    by (simp add: numeral_2_eq_2 l2_start_def del: con_call.simps handle_con_msg.simps) blast
qed

end
