(* ===== verification/Controller_Stats.thy ===== *)
theory Controller_Stats
  imports Controller_Learning
begin

text \<open>
  Statistics that arrive in several replies (\<open>_incoming_stats_reply\<close> and \<open>_processStatsBody\<close> of \<open>pox/openflow/of_01.py\<close>): they are
  put together when all parts arrive, and a reply that lacks its last part silences all later ones.
\<close>

section \<open>Bodies\<close>

text \<open>Objects with a wire format are read back from the concatenation of their bytes.\<close>

context wire_codec
begin

lemma process_packed:
  "list_all (\<lambda>x. ok x \<and> 0 < width x) xs \<Longrightarrow> pack_list pack xs = Inr b \<Longrightarrow> processStatsBody (unpack y) b = Inr (map norm xs)"
proof (induction xs arbitrary: b)
  case Nil
  then show ?case by (simp add: processStatsBody.simps)
next
  case (Cons x xs)
  then obtain b1 b2 where b: "pack x = Inr b1" "pack_list pack xs = Inr b2" "b = b1 @ b2" by (auto simp: res_simps)
  have "b1 \<noteq> []" using pack_width [OF _ b(1)] Cons.prems(1) by auto
  moreover have "unpack y (b1 @ b2) = Inr (norm x, b2)" using roundtrip [OF _ b(1)] Cons.prems(1) by simp
  ultimately show ?case
    using Cons.IH [OF _ b(2)] Cons.prems(1) b(3) by (simp add: processStatsBody.simps [of _ "b1 @ b2"])
qed

lemma parts_packed:
  "list_all2 (\<lambda>p xs. list_all (\<lambda>x. ok x \<and> 0 < width x) xs \<and> (\<exists>b. sp_body p = SpBytes b \<and> pack_list pack xs = Inr b)) ps xss
   \<Longrightarrow> stats_parts (unpack y) ps = Inr (map norm (concat xss))"
proof (induction ps xss rule: list_all2_induct)
  case (Cons p ps xs xss)
  then obtain b where "sp_body p = SpBytes b" "processStatsBody (unpack y) b = Inr (map norm xs)" using process_packed by blast
  with Cons show ?case by simp
qed simp

end

interpretation port_stats: wire_codec "\<lambda>_. True" "\<lambda>a. add_packed (ofp_port_stats_pack a)" id ofp_port_stats_unpack "\<lambda>_. 104"
proof
  fix x b y rest
  assume "add_packed (ofp_port_stats_pack x) = Inr b"
  then have "ofp_port_stats_pack x = Inr (Some b)"
    by (auto simp: add_packed_def res_simps ofp_port_stats_pack_def split: option.splits)
  from ofp_port_stats_wire [OF this] show "ofp_port_stats_unpack y (b @ rest) = Inr (id x, rest)" "length b = 104" by simp_all
qed

section \<open>Parts\<close>

fun incoming_all :: "('g, 'z) call \<Rightarrow> nat \<Rightarrow> ofp_stats_reply list \<Rightarrow> (('g, 'z) controller_scheme, unit) dm" where
  "incoming_all call fuel [] st = Some (Inr (), st)"
| "incoming_all call fuel (p # ps) st = (case incoming_stats_reply call fuel p st of
     None \<Rightarrow> None
   | Some (_, st') \<Rightarrow> incoming_all call fuel ps st')"

definition more_parts :: "ofp_stats_reply \<Rightarrow> bool" where
  "more_parts p \<longleftrightarrow> sp_flags p AND 1 \<noteq> 0"

text \<open>The parts of one reply: the same type and identifier, and only the last does not announce more.\<close>

definition parts_of :: "int \<Rightarrow> int option \<Rightarrow> ofp_stats_reply list \<Rightarrow> bool" where
  "parts_of t x ps \<longleftrightarrow> t \<in> {OFPST_FLOW, OFPST_TABLE, OFPST_PORT, OFPST_QUEUE} \<and> ps \<noteq> [] \<and> (\<forall>p \<in> set ps. sp_type p = t \<and> xid p = x)
     \<and> (\<forall>p \<in> set (butlast ps). more_parts p) \<and> \<not> more_parts (last ps)"

lemma incoming_more:
  assumes "more_parts p" "sp_type p \<in> {OFPST_FLOW, OFPST_TABLE, OFPST_PORT, OFPST_QUEUE}"
    and "con_previous_stats st = [] \<or> xid p = xid (hd (con_previous_stats st)) \<and> sp_type p = sp_type (hd (con_previous_stats st))"
  shows "incoming_stats_reply call fuel p st = Some (Inr (), st\<lparr>con_previous_stats := con_previous_stats st @ [p]\<rparr>)"
  using assms by (auto simp: incoming_stats_reply_def more_parts_def Let_def dthen_def dbind_dlift sm_simps)

lemma incoming_last:
  assumes "\<not> more_parts p"
    and "con_previous_stats st = [] \<or> xid p = xid (hd (con_previous_stats st)) \<and> sp_type p = sp_type (hd (con_previous_stats st))"
    and "stats_event (con_previous_stats st @ [p]) = Inr (Some e)"
  shows "incoming_stats_reply call fuel p st = raise_both call fuel e (st\<lparr>con_previous_stats := []\<rparr>)"
  using assms by (auto simp: incoming_stats_reply_def more_parts_def Let_def dthen_def dbind_dlift sm_simps)

lemma incoming_parts:
  assumes "stats_event (con_previous_stats st @ ps) = Inr (Some e)" "parts_of t x ps"
    and "\<forall>q \<in> set (con_previous_stats st). sp_type q = t \<and> xid q = x"
  shows "incoming_all call fuel ps st = (case raise_both call fuel e (st\<lparr>con_previous_stats := []\<rparr>) of
      None \<Rightarrow> None | Some (_, st') \<Rightarrow> Some (Inr (), st'))"
  using assms
proof (induction ps arbitrary: st)
  case (Cons p ps)
  have hd: "con_previous_stats st = [] \<or> xid p = xid (hd (con_previous_stats st)) \<and> sp_type p = sp_type (hd (con_previous_stats st))"
    using Cons.prems(2,3) by (cases "con_previous_stats st") (simp_all add: parts_of_def)
  show ?case
  proof (cases "ps = []")
    case True
    with Cons.prems incoming_last [OF _ hd, of e call fuel] show ?thesis
      by (simp add: parts_of_def sm_simps split: option.split)
  next
    case False
    with Cons.prems(2) have "more_parts p" "parts_of t x ps" by (auto simp: parts_of_def)
    with Cons.IH [of "st\<lparr>con_previous_stats := con_previous_stats st @ [p]\<rparr>"] Cons.prems incoming_more [OF _ _ hd, of call fuel]
    show ?thesis by (simp add: parts_of_def)
  qed
qed (simp add: parts_of_def)

section \<open>Properties\<close>

text \<open>
  C21: Port statistics in several replies are put together.  When the parts are \<open>OFPST_PORT\<close> replies to one request, no other part is kept, and
  their bodies hold the packed statistics of any number of ports each, the controller keeps the parts until the last one, and then raises one
  \<open>PortStatsReceived\<close> event with all parts and all statistics, in order.  Replies of other types are reported in other ways: a description or an
  aggregate in several parts is not put together.
\<close>

theorem port_stats_assembled:
  assumes "con_previous_stats st = []" "parts_of OFPST_PORT x parts"
    and "list_all2 (\<lambda>p ps. \<exists>b. sp_body p = SpBytes b \<and> pack_list (\<lambda>a. add_packed (ofp_port_stats_pack a)) ps = Inr b) parts portss"
  shows "incoming_all call fuel parts st = (case raise_both call fuel (PortStatsReceived parts (concat portss)) st of
      None \<Rightarrow> None | Some (_, st') \<Rightarrow> Some (Inr (), st'))"
proof -
  have "stats_parts (ofp_port_stats_unpack ofp_port_stats_init) parts = Inr (concat portss)"
    using port_stats.parts_packed [of parts portss ofp_port_stats_init] assms(3) by (simp add: list_all_iff)
  moreover have "sp_type (hd parts) = OFPST_PORT" using assms(2) by (auto simp: parts_of_def)
  ultimately have ev: "stats_event (con_previous_stats st @ parts) = Inr (Some (PortStatsReceived parts (concat portss)))"
    using assms(1) by (simp add: stats_event_def)
  have same: "st\<lparr>con_previous_stats := []\<rparr> = st" using assms(1) by simp
  show ?thesis using incoming_parts [OF ev assms(2), of call fuel] assms(1) unfolding same by simp
qed

text \<open>
  A reply whose last part does not come silences the statistics.  While parts of one request are kept, every reply to
  another request that could be reported fails with an exception of the log message and leaves the connection as it was:
  no later statistics reach anybody.
\<close>

theorem lost_part_silences_stats:
  assumes "con_previous_stats st \<noteq> []"
    and "\<forall>p \<in> set replies. xid p \<noteq> xid (hd (con_previous_stats st))
      \<and> (more_parts p \<longrightarrow> sp_type p \<in> {OFPST_FLOW, OFPST_TABLE, OFPST_PORT, OFPST_QUEUE})"
  shows "incoming_all call fuel replies st = Some (Inr (), st)"
  using assms(2)
proof (induction replies)
  case (Cons p replies)
  then have "incoming_stats_reply call fuel p st = Some (Inl AttributeError, st)"
    using assms(1) by (auto simp: incoming_stats_reply_def more_parts_def Let_def dthen_def dbind_dlift sm_simps)
  with Cons show ?case by simp
qed (simp add: sm_simps)

section \<open>Witnesses\<close>

definition part :: "bytes \<Rightarrow> int \<Rightarrow> ofp_stats_reply" where
  "part b flags = ofp_stats_reply_init\<lparr>xid := Some 3, sp_type := OFPST_PORT, sp_flags := flags, sp_body := SpBytes b\<rparr>"

theorem port_stats_assembled_witness:
  "\<exists>b. ofp_port_stats_pack ofp_port_stats_init = Inr (Some b)
    \<and> incoming_all (l2_call demo_env 2 9 1) 2 [part (b @ b) 1, part b 0] l2_start
      = (case raise_both (l2_call demo_env 2 9 1) 2
            (PortStatsReceived [part (b @ b) 1, part b 0] [ofp_port_stats_init, ofp_port_stats_init, ofp_port_stats_init]) l2_start of
          None \<Rightarrow> None | Some (_, st') \<Rightarrow> Some (Inr (), st'))"
proof -
  obtain b where b: "ofp_port_stats_pack ofp_port_stats_init = Inr (Some b)"
    by (simp add: ofp_port_stats_pack_def ofp_port_stats_init_def struct_pack.simps in_range_def)
  have "parts_of OFPST_PORT (Some 3) [part (b @ b) 1, part b 0]" by (simp add: parts_of_def part_def more_parts_def)
  moreover have "list_all2 (\<lambda>p ps. \<exists>b. sp_body p = SpBytes b \<and> pack_list (\<lambda>a. add_packed (ofp_port_stats_pack a)) ps = Inr b)
      [part (b @ b) 1, part b 0] [[ofp_port_stats_init, ofp_port_stats_init], [ofp_port_stats_init]]"
    using b by (simp add: part_def add_packed_def)
  moreover have "con_previous_stats l2_start = []" by (simp add: l2_start_def)
  ultimately show ?thesis
    using port_stats_assembled [of l2_start "Some 3" "[part (b @ b) 1, part b 0]"
      "[[ofp_port_stats_init, ofp_port_stats_init], [ofp_port_stats_init]]" "l2_call demo_env 2 9 1" 2] b
    by (intro exI [of _ b]) simp
qed

theorem lost_part_silences_stats_witness:
  "incoming_all (l2_call demo_env 2 9 1) 2 [(part [] 0)\<lparr>xid := Some 4\<rparr>, (part [] 1)\<lparr>xid := Some 5\<rparr>] (l2_start\<lparr>con_previous_stats := [part [] 1]\<rparr>)
    = Some (Inr (), l2_start\<lparr>con_previous_stats := [part [] 1]\<rparr>)"
  by (rule lost_part_silences_stats) (simp_all add: part_def)

end
