(* ===== verification/Deferred_Sender.thy ===== *)
theory Deferred_Sender
  imports Pox_Prelude "HOL-Library.AList" "HOL-Library.Sublist"
begin

text \<open>
  Sending on a connection (\<open>Connection.send\<close> and class \<open>DeferredSender\<close> of \<open>pox/openflow/of_01.py\<close>): what a socket does not take at
  once is kept and written by a second thread.  The steps of the two threads, which exclude each other by a lock, interleave
  freely; what a socket answers to \<open>send\<close> is part of the step.  \<open>Connection.send\<close> reads \<open>sending\<close> without the lock, so the value
  it acts on may be out of date.  Connections are values of a type \<open>'c\<close>.
\<close>

section \<open>State\<close>

text \<open>
  \<open>ds_data\<close> is \<open>_dataForConnection\<close>.  The rest is the world: the bytes each socket took, the connections that were taken
  down, and, for the statements, the bytes given to \<open>send\<close> and the connections whose bytes were given up.
\<close>

record 'c sender =
  ds_data :: "('c \<times> bytes list) list"
  ds_sending :: bool
  ds_wire :: "'c \<Rightarrow> bytes"
  ds_down :: "'c list"
  ds_given :: "'c \<Rightarrow> bytes"
  ds_failed :: "'c list"

text \<open>The answer of a socket: how much it took, \<open>EAGAIN\<close>, or another error\<close>

datatype sock = Took nat | Again | Broken

definition DeferredSender_init :: "'c sender" where
  "DeferredSender_init = \<lparr>ds_data = [], ds_sending = False, ds_wire = (\<lambda>_. []), ds_down = [], ds_given = (\<lambda>_. []), ds_failed = []\<rparr>"

definition queued :: "'c sender \<Rightarrow> 'c \<Rightarrow> bytes list" where
  "queued s c = (case map_of (ds_data s) c of None \<Rightarrow> [] | Some q \<Rightarrow> q)"

section \<open>Operations\<close>

text \<open>\<open>_sliceup\<close>; \<open>PIPE_BUF\<close> is positive.\<close>

function sliceup :: "nat \<Rightarrow> bytes \<Rightarrow> bytes list" where
  "sliceup pipe_buf data =
     (if 0 < pipe_buf \<and> pipe_buf < length data then take pipe_buf data # sliceup pipe_buf (drop pipe_buf data)
      else if data \<noteq> [] then [data] else [])"
  by pat_completeness auto
termination
  by (relation "measure (\<lambda>(_, data). length data)") auto

declare sliceup.simps [simp del]

definition deferred_send :: "nat \<Rightarrow> 'c \<Rightarrow> bytes \<Rightarrow> 'c sender \<Rightarrow> 'c sender" where
  "deferred_send pipe_buf con data s = s\<lparr>ds_sending := True,
     ds_data := AList.update con (queued s con @ sliceup pipe_buf data) (ds_data s)\<rparr>"

definition deferred_kill :: "'c \<Rightarrow> 'c sender \<Rightarrow> 'c sender" where
  "deferred_kill con s = s\<lparr>ds_data := AList.delete con (ds_data s), ds_failed := con # ds_failed s\<rparr>"

definition sock_take :: "'c \<Rightarrow> nat \<Rightarrow> bytes \<Rightarrow> 'c sender \<Rightarrow> 'c sender" where
  "sock_take con l data s = s\<lparr>ds_wire := (ds_wire s)(con := ds_wire s con @ take l data)\<rparr>"

definition take_down :: "'c \<Rightarrow> 'c sender \<Rightarrow> 'c sender" where
  "take_down con s = s\<lparr>ds_down := con # ds_down s, ds_failed := con # ds_failed s\<rparr>"

text \<open>\<open>Connection.send\<close> of packed bytes; \<open>sending\<close> is what it read of the flag.\<close>

definition connection_write :: "nat \<Rightarrow> bool \<Rightarrow> sock \<Rightarrow> 'c \<Rightarrow> bytes \<Rightarrow> 'c sender \<Rightarrow> 'c sender" where
  "connection_write pipe_buf sending answer con data s =
     (if con \<in> set (ds_down s) then s
      else let s = s\<lparr>ds_given := (ds_given s)(con := ds_given s con @ data)\<rparr> in
        if sending then deferred_send pipe_buf con data s
        else case answer of
          Took l \<Rightarrow> let s = sock_take con l data s in
            if l \<noteq> length data then deferred_send pipe_buf con (drop l data) s else s
        | Again \<Rightarrow> deferred_send pipe_buf con data s
        | Broken \<Rightarrow> take_down con s)"

text \<open>
  The inner loop of \<open>run\<close> for one connection that can be written to: the answers of its socket to the successive slices, and
  at the end of the list an answer that ends the loop.
\<close>

fun flush_loop :: "'c \<Rightarrow> sock list \<Rightarrow> bytes list \<Rightarrow> 'c sender \<Rightarrow> bytes list option \<times> 'c sender" where
  "flush_loop con answers [] s = (Some [], s)"
| "flush_loop con [] (d # ds) s = (Some (d # ds), s)"
| "flush_loop con (Took l # answers) (d # ds) s =
     (let s = sock_take con l d s in
      if l \<noteq> length d then (Some (drop l d # ds), s) else flush_loop con answers ds s)"
| "flush_loop con (Again # answers) (d # ds) s = (Some (d # ds), s)"
| "flush_loop con (Broken # answers) (d # ds) s = (None, take_down con s)"

definition flush :: "'c \<Rightarrow> sock list \<Rightarrow> 'c sender \<Rightarrow> 'c sender" where
  "flush con answers s = (case map_of (ds_data s) con of
     None \<Rightarrow> s
   | Some alldata \<Rightarrow> (case flush_loop con answers alldata s of
       (None, s) \<Rightarrow> s\<lparr>ds_data := AList.delete con (ds_data s)\<rparr>
     | (Some rest, s) \<Rightarrow>
         if rest = [] then
           (let s = s\<lparr>ds_data := AList.delete con (ds_data s)\<rparr> in if ds_data s = [] then s\<lparr>ds_sending := False\<rparr> else s)
         else s\<lparr>ds_data := AList.update con rest (ds_data s)\<rparr>))"

text \<open>
  A socket takes at most what it is given.  Only the thread that calls \<open>send\<close> sets the flag, so what it read can be wrong in one
  way only: the second thread may have cleared the flag since.
\<close>

inductive sender_step :: "nat \<Rightarrow> 'c sender \<Rightarrow> 'c sender \<Rightarrow> bool" for pipe_buf where
  step_write: "(\<forall>l. answer = Took l \<longrightarrow> l \<le> length data) \<Longrightarrow> (\<not> sending \<longrightarrow> \<not> ds_sending s) \<Longrightarrow>
    sender_step pipe_buf s (connection_write pipe_buf sending answer con data s)"
| step_flush: "sender_step pipe_buf s (flush con answers s)"
| step_error: "sender_step pipe_buf s (deferred_kill con s)"
| step_down: "sender_step pipe_buf s (take_down con s)"

inductive sender_run :: "nat \<Rightarrow> 'c sender \<Rightarrow> bool" for pipe_buf where
  run_start: "sender_run pipe_buf DeferredSender_init"
| run_step: "sender_run pipe_buf s \<Longrightarrow> sender_step pipe_buf s s' \<Longrightarrow> sender_run pipe_buf s'"

section \<open>Laws\<close>

lemma concat_sliceup [simp]: "concat (sliceup pipe_buf data) = data"
  by (induction pipe_buf data rule: sliceup.induct) (subst sliceup.simps, auto)

lemma sliceup_length: "0 < pipe_buf \<Longrightarrow> d \<in> set (sliceup pipe_buf data) \<Longrightarrow> 0 < length d \<and> length d \<le> pipe_buf"
proof (induction pipe_buf data rule: sliceup.induct)
  case (1 pipe_buf data)
  then show ?case by (subst (asm) (2) sliceup.simps) (auto split: if_split_asm)
qed

text \<open>The bytes of each connection that was not given up are on the wire or queued, in the order in which they were given.\<close>

definition sender_ok :: "'c sender \<Rightarrow> bool" where
  "sender_ok s \<longleftrightarrow> (\<forall>c. c \<notin> set (ds_failed s) \<longrightarrow> ds_wire s c @ concat (queued s c) = ds_given s c)
     \<and> (\<not> ds_sending s \<longrightarrow> ds_data s = []) \<and> set (ds_down s) \<subseteq> set (ds_failed s)"

lemma queued_update: "queued (s\<lparr>ds_data := AList.update c q (ds_data s)\<rparr>) = (queued s)(c := q)"
  by (simp add: queued_def fun_eq_iff update_conv')

lemma queued_delete: "queued (s\<lparr>ds_data := AList.delete c (ds_data s)\<rparr>) = (queued s)(c := [])"
  by (simp add: queued_def fun_eq_iff delete_conv')

lemma queued_same: "ds_data s' = ds_data s \<Longrightarrow> queued s' = queued s"
  by (simp add: queued_def fun_eq_iff)

lemma queued_updates [simp]:
  "queued (s\<lparr>ds_wire := w\<rparr>) = queued s" "queued (s\<lparr>ds_given := g\<rparr>) = queued s" "queued (s\<lparr>ds_down := d\<rparr>) = queued s"
  "queued (s\<lparr>ds_failed := f\<rparr>) = queued s" "queued (s\<lparr>ds_sending := b\<rparr>) = queued s"
  by (rule queued_same, simp)+

lemma deferred_send_queued: "queued (deferred_send n c d s) = (queued s)(c := queued s c @ sliceup n d)"
  by (simp add: queued_def deferred_send_def fun_eq_iff update_conv')

text \<open>Writing moves bytes from the queue of a connection to its wire, or gives the connection up.\<close>

lemma flush_loop_moves:
  "flush_loop c answers q s = (r, s') \<Longrightarrow>
   (\<exists>x. r \<noteq> None \<and> x @ concat (the r) = concat q \<and> s' = s\<lparr>ds_wire := (ds_wire s)(c := ds_wire s c @ x)\<rparr>)
   \<or> (\<exists>x. r = None \<and> s' = s\<lparr>ds_wire := (ds_wire s)(c := ds_wire s c @ x), ds_down := c # ds_down s, ds_failed := c # ds_failed s\<rparr>)"
proof (induction c answers q s arbitrary: r s' rule: flush_loop.induct)
  case (1 con answers s)
  then show ?case by (intro disjI1 exI [of _ "[]"]) auto
next
  case (2 con d ds s)
  then show ?case by (intro disjI1 exI [of _ "[]"]) auto
next
  case (3 con l answers d ds s)
  let ?s = "sock_take con l d s"
  show ?case
  proof (cases "l = length d")
    case True
    with 3 have "flush_loop con answers ds ?s = (r, s')" by (simp add: Let_def)
    then have "(\<exists>x. r \<noteq> None \<and> x @ concat (the r) = concat ds \<and> s' = ?s\<lparr>ds_wire := (ds_wire ?s)(con := ds_wire ?s con @ x)\<rparr>)
      \<or> (\<exists>x. r = None \<and> s' = ?s\<lparr>ds_wire := (ds_wire ?s)(con := ds_wire ?s con @ x), ds_down := con # ds_down ?s, ds_failed := con # ds_failed ?s\<rparr>)"
      using "3.IH" [OF refl] True by blast
    then show ?thesis
    proof (elim disjE exE conjE)
      fix x assume "r \<noteq> None" "x @ concat (the r) = concat ds" "s' = ?s\<lparr>ds_wire := (ds_wire ?s)(con := ds_wire ?s con @ x)\<rparr>"
      then show ?thesis using True by (intro disjI1 exI [of _ "d @ x"]) (simp add: sock_take_def fun_upd_def cong: if_cong)
    next
      fix x assume "r = None"
        "s' = ?s\<lparr>ds_wire := (ds_wire ?s)(con := ds_wire ?s con @ x), ds_down := con # ds_down ?s, ds_failed := con # ds_failed ?s\<rparr>"
      then show ?thesis using True by (intro disjI2 exI [of _ "d @ x"]) (simp add: sock_take_def fun_upd_def cong: if_cong)
    qed
  next
    case False
    with 3(2) show ?thesis by (intro disjI1 exI [of _ "take l d"]) (auto simp: Let_def sock_take_def fun_upd_def)
  qed
next
  case (4 con answers d ds s)
  then show ?case by (intro disjI1 exI [of _ "[]"]) auto
next
  case (5 con answers d ds s)
  then show ?case by (intro disjI2 exI [of _ "[]"]) (auto simp: take_down_def)
qed

lemma sender_ok_write:
  assumes ok: "sender_ok s" and read: "\<not> sending \<longrightarrow> \<not> ds_sending s"
  shows "sender_ok (connection_write n sending answer con data s)"
proof -
  have none: "queued s c = []" if "\<not> ds_sending s" for c using ok that by (simp add: sender_ok_def queued_def)
  let ?s = "s\<lparr>ds_given := (ds_given s)(con := ds_given s con @ data)\<rparr>"
  have def: "sender_ok (deferred_send n con d t)"
    if t: "\<forall>c. c \<notin> set (ds_failed t) \<longrightarrow> c \<noteq> con \<longrightarrow> ds_wire t c @ concat (queued t c) = ds_given t c"
      "con \<notin> set (ds_failed t) \<longrightarrow> ds_wire t con @ concat (queued t con) @ d = ds_given t con" "set (ds_down t) \<subseteq> set (ds_failed t)" for d t
  proof -
    have "ds_wire (deferred_send n con d t) = ds_wire t" "ds_given (deferred_send n con d t) = ds_given t"
      "ds_failed (deferred_send n con d t) = ds_failed t" "ds_down (deferred_send n con d t) = ds_down t" "ds_sending (deferred_send n con d t)"
      by (simp_all add: deferred_send_def)
    with t show ?thesis by (simp add: sender_ok_def deferred_send_queued)
  qed
  show ?thesis
  proof (cases "con \<in> set (ds_down s)")
    case True
    with ok show ?thesis by (simp add: connection_write_def)
  next
    case up: False
    show ?thesis
    proof (cases sending)
      case True
      have "sender_ok (deferred_send n con data ?s)"
        by (rule def) (use ok in \<open>auto simp: sender_ok_def\<close>)
      then show ?thesis using True up by (simp add: connection_write_def Let_def)
    next
      case False
      with read have idle: "\<not> ds_sending s" by simp
      show ?thesis
      proof (cases answer)
        case (Took l)
        have "sender_ok (deferred_send n con (drop l data) (sock_take con l data ?s))"
          by (rule def) (use ok none [OF idle] in \<open>auto simp: sender_ok_def sock_take_def\<close>)
        moreover have "sender_ok (sock_take con l data ?s)" if "l = length data"
          using ok none [OF idle] that by (auto simp: sender_ok_def sock_take_def)
        ultimately show ?thesis using Took False up by (simp add: connection_write_def Let_def)
      next
        case Again
        have "sender_ok (deferred_send n con data ?s)"
          by (rule def) (use ok none [OF idle] in \<open>auto simp: sender_ok_def\<close>)
        then show ?thesis using Again False up by (simp add: connection_write_def Let_def)
      next
        case Broken
        have "sender_ok (take_down con ?s)" using ok by (auto simp: sender_ok_def take_down_def)
        then show ?thesis using Broken False up by (simp add: connection_write_def Let_def)
      qed
    qed
  qed
qed

lemma sender_ok_flush: "sender_ok s \<Longrightarrow> sender_ok (flush con answers s)"
proof (cases "map_of (ds_data s) con")
  case None
  assume "sender_ok s"
  with None show ?thesis by (simp add: flush_def)
next
  case (Some all)
  assume ok: "sender_ok s"
  have busy: "ds_sending s" using ok Some by (auto simp: sender_ok_def)
  have all: "queued s con = all" using Some by (simp add: queued_def)
  obtain r s1 where f: "flush_loop con answers all s = (r, s1)" by (cases "flush_loop con answers all s")
  from flush_loop_moves [OF f] show ?thesis
  proof (elim disjE exE conjE)
    fix x assume r: "r \<noteq> None" "x @ concat (the r) = concat all" and s1: "s1 = s\<lparr>ds_wire := (ds_wire s)(con := ds_wire s con @ x)\<rparr>"
    then obtain rest where rest: "r = Some rest" "x @ concat rest = concat all" by auto
    have q: "queued s1 = queued s" by (rule queued_same) (simp add: s1)
    have u: "sender_ok (s1\<lparr>ds_data := AList.update con rest (ds_data s1)\<rparr>)"
      using ok busy rest(2) all unfolding sender_ok_def queued_update q by (auto simp: s1)
    have d: "sender_ok (s1\<lparr>ds_data := AList.delete con (ds_data s1)\<rparr>)" if "rest = []"
      using ok busy rest(2) all that unfolding sender_ok_def queued_delete q by (auto simp: s1)
    have idle: "sender_ok (t\<lparr>ds_sending := False\<rparr>)" if "sender_ok t" "ds_data t = []" for t :: "'a sender"
      using that queued_same [of "t\<lparr>ds_sending := False\<rparr>" t] by (simp add: sender_ok_def)
    show ?thesis using Some f rest(1) u d idle [OF d] by (simp add: flush_def Let_def)
  next
    fix x assume r: "r = None" and s1: "s1 = s\<lparr>ds_wire := (ds_wire s)(con := ds_wire s con @ x), ds_down := con # ds_down s, ds_failed := con # ds_failed s\<rparr>"
    have q: "queued s1 = queued s" by (rule queued_same) (simp add: s1)
    have "sender_ok (s1\<lparr>ds_data := AList.delete con (ds_data s1)\<rparr>)"
      using ok busy unfolding sender_ok_def queued_delete q by (auto simp: s1)
    then show ?thesis using Some f r by (simp add: flush_def)
  qed
qed

lemma sender_ok_kill: "sender_ok s \<Longrightarrow> sender_ok (deferred_kill con s)"
proof -
  assume ok: "sender_ok s"
  have "queued (deferred_kill con s) = (queued s)(con := [])"
    using queued_delete [where s = s and c = con] queued_same [of "deferred_kill con s" "s\<lparr>ds_data := AList.delete con (ds_data s)\<rparr>"]
    by (simp add: deferred_kill_def)
  with ok show ?thesis by (auto simp: sender_ok_def deferred_kill_def)
qed

lemma sender_ok_down: "sender_ok s \<Longrightarrow> sender_ok (take_down con s)"
  by (auto simp: sender_ok_def take_down_def)

lemma sender_ok_run: "sender_run n s \<Longrightarrow> sender_ok s"
proof (induction rule: sender_run.induct)
  case run_start
  show ?case by (simp add: sender_ok_def DeferredSender_init_def queued_def)
next
  case (run_step s s')
  from run_step(2) show ?case
    using run_step.IH by (cases rule: sender_step.cases) (auto simp: sender_ok_write sender_ok_flush sender_ok_kill sender_ok_down)
qed

section \<open>Properties\<close>

text \<open>
  C20: However the sockets answer and the two threads take turns, the bytes on the wire of a connection that was not given up are
  a prefix of the bytes given to \<open>send\<close>, and the rest waits in the queue, in order; when the sender is idle nothing waits, and
  all of them are on the wire.
\<close>

theorem sender_in_order:
  assumes "sender_run pipe_buf s" and "con \<notin> set (ds_failed s)"
  shows "ds_wire s con @ concat (queued s con) = ds_given s con \<and> prefix (ds_wire s con) (ds_given s con)
    \<and> (\<not> ds_sending s \<longrightarrow> ds_wire s con = ds_given s con)"
proof -
  have "ds_wire s con @ concat (queued s con) = ds_given s con" "\<not> ds_sending s \<longrightarrow> queued s con = []"
    using sender_ok_run [OF assms(1)] assms(2) by (auto simp: sender_ok_def queued_def)
  then show ?thesis by (metis append_Nil2 concat.simps(1) prefixI)
qed

text \<open>A connection whose socket takes half of a message, refuses the next and takes the rest later\<close>

definition busy_sender :: "nat sender" where
  "busy_sender = connection_write 2 True (Took 2) 7 [5, 6] (connection_write 2 False (Took 1) 7 [1, 2, 3, 4] DeferredSender_init)"

theorem sender_in_order_witness:
  "ds_wire (flush 7 [Took 2, Took 1, Took 2] busy_sender) 7 = [1, 2, 3, 4, 5, 6]
    \<and> ds_wire (flush 7 [Took 2, Took 1, Took 2] busy_sender) 7 @ concat (queued (flush 7 [Took 2, Took 1, Took 2] busy_sender) 7)
      = ds_given (flush 7 [Took 2, Took 1, Took 2] busy_sender) 7"
proof -
  let ?s = "flush 7 [Took 2, Took 1, Took 2] busy_sender"
  have ev: "ds_wire ?s 7 = [1, 2, 3, 4, 5, 6]" "7 \<notin> set (ds_failed ?s)" by code_simp+
  have "sender_run 2 ?s"
    unfolding busy_sender_def by (intro run_step [OF _ step_flush] run_step [OF _ step_write] run_start; simp add: DeferredSender_init_def)
  from sender_in_order [OF this ev(2)] ev(1) show ?thesis by blast
qed

end
