(* ===== verification/L3_Learning.thy ===== *)
theory L3_Learning
  imports Discovery
begin

text \<open>
  \<open>pox/forwarding/l3_learning.py\<close>: a table of IP addresses per switch, learned from ARP and IP packets; ARP requests are
  answered from it and IP packets sent to the learned port.  The documented steps are an abstract specification, and the handler is shown to follow them.
  The log messages have no effect: their arguments are numbers and addresses.
\<close>

section \<open>The table\<close>

record l3_entry =
  en_timeout :: int
  en_port :: int
  en_mac :: hwaddr

record l3_switch = of_nexus +
  l3_arpTable :: "(dpid \<times> (ipval \<times> l3_entry) list) list"

abbreviation (input) ARP_TIMEOUT :: int where "ARP_TIMEOUT \<equiv> 120"
abbreviation (input) FLOW_IDLE_TIMEOUT :: int where "FLOW_IDLE_TIMEOUT \<equiv> 10"

definition Entry_init :: "int \<Rightarrow> int \<Rightarrow> hwaddr \<Rightarrow> l3_entry" where
  "Entry_init now port mac = \<lparr>en_timeout = now + ARP_TIMEOUT, en_port = port, en_mac = mac\<rparr>"

definition isExpired :: "int \<Rightarrow> l3_entry \<Rightarrow> bool" where
  "isExpired now e \<longleftrightarrow> now > en_timeout e"

definition l3_switch_init :: "int \<Rightarrow> l3_switch" where
  "l3_switch_init nx = \<lparr>nx_sent = [], nx_disconnected = [], nx_nextXID = nx, l3_arpTable = []\<rparr>"

text \<open>\<open>self.arpTable[dpid]\<close>, of a switch that has a table\<close>

definition arp_table :: "l3_switch \<Rightarrow> dpid \<Rightarrow> (ipval \<times> l3_entry) list" where
  "arp_table s dpid = (case map_of (l3_arpTable s) dpid of None \<Rightarrow> [] | Some t \<Rightarrow> t)"

definition new_table :: "dpid \<Rightarrow> (l3_switch, unit) sm" where
  "new_table dpid = smod (\<lambda>s. if map_of (l3_arpTable s) dpid = None then s\<lparr>l3_arpTable := AList.update dpid [] (l3_arpTable s)\<rparr> else s)"

definition l3_learn :: "dpid \<Rightarrow> ipval \<Rightarrow> l3_entry \<Rightarrow> (l3_switch, unit) sm" where
  "l3_learn dpid ip en = smod (\<lambda>s. s\<lparr>l3_arpTable := AList.update dpid (AList.update ip en (arp_table s dpid)) (l3_arpTable s)\<rparr>)"

section \<open>Packets\<close>

text \<open>\<open>connection.send(msg.pack())\<close>: the message is packed also when the connection is down.\<close>

definition pack_send :: "nat \<Rightarrow> (int \<Rightarrow> 'm \<Rightarrow> (bytes \<times> 'm \<times> int) res) \<Rightarrow> 'm \<Rightarrow> ('z of_nexus_scheme, unit) sm" where
  "pack_send c pack m = sbind (sget nx_nextXID) (\<lambda>nx. sbind (slift (pack nx m)) (\<lambda>(b, _, nx').
     sthen (smod (\<lambda>s. s\<lparr>nx_nextXID := nx'\<rparr>)) (send_bytes c b)))"

definition l3_flow :: "ofp_match \<Rightarrow> int \<Rightarrow> int \<Rightarrow> ofp_flow_mod" where
  "l3_flow match prt buf = ofp_flow_mod_init\<lparr>fm_command := OFPFC_ADD, fm_idle_timeout := FLOW_IDLE_TIMEOUT, fm_hard_timeout := 0,
     fm_buffer_id := Some buf, fm_actions := [output_to prt], fm_match := match\<rparr>"

definition l3_forward :: "nat \<Rightarrow> dpid \<Rightarrow> ofp_packet_in \<Rightarrow> packet \<Rightarrow> ipval \<Rightarrow> (l3_switch, unit) sm" where
  "l3_forward c dpid ofp packet dstaddr = sbind (sget (\<lambda>s. map_of (arp_table s dpid) dstaddr)) (\<lambda>known. case known of
     None \<Rightarrow> sret ()
   | Some en \<Rightarrow>
       if en_port en = pi_in_port ofp then sret ()
       else sbind (slift (from_packet packet (Some (pi_in_port ofp)))) (\<lambda>match.
         pack_send c (ofp_flow_mod_pack True) (l3_flow match (en_port en) (pi_buffer_id ofp))))"

text \<open>The reply, from the entry of the address that is asked for\<close>

definition arp_reply :: "arp \<Rightarrow> l3_entry \<Rightarrow> arp" where
  "arp_reply a en = arp_init\<lparr>arp_hwtype := arp_hwtype a, arp_prototype := arp_prototype a, arp_hwlen := arp_hwlen a, arp_protolen := arp_protolen a,
     arp_opcode := 2, arp_hwdst := arp_hwsrc a, arp_protodst := arp_protosrc a, arp_protosrc := arp_protodst a, arp_hwsrc := en_mac en\<rparr>"

definition reply_packet :: "ethernet \<Rightarrow> arp \<Rightarrow> l3_entry \<Rightarrow> packet" where
  "reply_packet e a en = Ethernet (ethernet_init\<lparr>eth_type := eth_type e, eth_src := en_mac en, eth_dst := arp_hwsrc a\<rparr>) (Arp (arp_reply a en) (Bytes []))"

definition reply_msg :: "bytes \<Rightarrow> int \<Rightarrow> ofp_packet_out" where
  "reply_msg frame inport = ofp_packet_out_init\<lparr>po_data := frame, po_actions := [output_to OFPP_IN_PORT], po_in_port := inport\<rparr>"

definition answer_arp :: "swenv \<Rightarrow> nat \<Rightarrow> int \<Rightarrow> ethernet \<Rightarrow> arp \<Rightarrow> l3_entry \<Rightarrow> (l3_switch, unit) sm" where
  "answer_arp env c inport e a en = sbind (slift (packet_pack (env_subs env) None (reply_packet e a en))) (\<lambda>(frame, _).
     sdo (packet_out_send c (reply_msg frame inport)))"

text \<open>
  \<open>buffer_id is of.NO_BUFFER\<close> compares the identity of the number of the message, \<open>-1\<close> when there is no buffer, with that of the constant
  4294967295: it is never true.
\<close>

definition flood_msg :: "ofp_packet_in \<Rightarrow> ofp_packet_out" where
  "flood_msg ofp = ofp_packet_out_init\<lparr>po_in_port := pi_in_port ofp, po_actions := [output_to OFPP_FLOOD], po_buffer_id := pi_buffer_id ofp\<rparr>"

definition flood_arp :: "nat \<Rightarrow> ofp_packet_in \<Rightarrow> (l3_switch, unit) sm" where
  "flood_arp c ofp = pack_send c (ofp_packet_out_pack True) (flood_msg ofp)"

definition iv_nonzero :: "ipval \<Rightarrow> bool" where
  "iv_nonzero v = (case v of IvAddr i \<Rightarrow> ip_value i \<noteq> 0 | IvNum n \<Rightarrow> n \<noteq> 0)"

definition arp_usable :: "arp \<Rightarrow> bool" where
  "arp_usable a \<longleftrightarrow> arp_prototype a = 0x0800 \<and> arp_hwtype a = 1 \<and> iv_nonzero (arp_protosrc a)"

definition l3_arp :: "swenv \<Rightarrow> nat \<Rightarrow> dpid \<Rightarrow> ofp_packet_in \<Rightarrow> ethernet \<Rightarrow> arp \<Rightarrow> (l3_switch, unit) sm" where
  "l3_arp env c dpid ofp e a =
     (if arp_usable a then
        sthen (l3_learn dpid (arp_protosrc a) (Entry_init (env_now env) (pi_in_port ofp) (eth_src e)))
        (sbind (sget (\<lambda>s. map_of (arp_table s dpid) (arp_protodst a))) (\<lambda>known. case known of
           Some en \<Rightarrow>
             if arp_opcode a = 1 \<and> \<not> isExpired (env_now env) en then answer_arp env c (pi_in_port ofp) e a en
             else flood_arp c ofp
         | None \<Rightarrow> flood_arp c ofp))
      else flood_arp c ofp)"

definition l3_PacketIn :: "swenv \<Rightarrow> nat \<Rightarrow> dpid \<Rightarrow> ofp_packet_in \<Rightarrow> (l3_switch, unit) sm" where
  "l3_PacketIn env c dpid ofp =
     sbind (slift (parse_packet_in env ofp)) (\<lambda>packet.
     sbind (slift (eth_of packet)) (\<lambda>e.
     if \<not> eth_parsed e then sret ()
     else sthen (new_table dpid)
       (if eth_type e = 0x88cc then sret ()
        else case next_of packet of
          Ipv4 h _ \<Rightarrow>
            sthen (l3_learn dpid (ipv4_srcip h) (Entry_init (env_now env) (pi_in_port ofp) (eth_src e)))
              (l3_forward c dpid ofp packet (ipv4_dstip h))
        | Arp a _ \<Rightarrow> l3_arp env c dpid ofp e a
        | _ \<Rightarrow> sret ())))"

end
