(* ===== verification/L3_Learning_Laws.thy ===== *)
theory L3_Learning_Laws
  imports L3_Learning Packet_Out_Laws
begin

text \<open>
  What the layer 3 learning switch does: it knows where an address was last seen, answers the ARP requests it can answer, so that the answer
  leaves the software switch at the port of the question, and loses the unbuffered ones that it should flood.
\<close>

section \<open>What is learned\<close>

text \<open>The source of a packet, when the handler learns from it\<close>

definition l3_source :: "swenv \<Rightarrow> ofp_packet_in \<Rightarrow> (ipval \<times> hwaddr) option" where
  "l3_source env ofp = (case parse_packet_in env ofp of
     Inr (Ethernet e n) \<Rightarrow>
       if \<not> eth_parsed e \<or> eth_type e = 0x88cc then None
       else (case n of Ipv4 h _ \<Rightarrow> Some (ipv4_srcip h, eth_src e)
         | Arp a _ \<Rightarrow> if arp_usable a then Some (arp_protosrc a, eth_src e) else None
         | _ \<Rightarrow> None)
   | _ \<Rightarrow> None)"

definition table_is :: "(dpid \<Rightarrow> ipval \<Rightarrow> l3_entry option) \<Rightarrow> l3_switch \<Rightarrow> bool" where
  "table_is f s \<longleftrightarrow> (\<forall>d ip. map_of (arp_table s d) ip = f d ip)"

lemma arp_table_update: "arp_table (s\<lparr>l3_arpTable := AList.update dpid t (l3_arpTable s)\<rparr>) d = (if d = dpid then t else arp_table s d)"
  by (simp add: arp_table_def update_conv')

lemma table_is_nexus: "(\<And>s. l3_arpTable (f s) = l3_arpTable s) \<Longrightarrow> keeps (table_is g) (smod f)"
  by (rule keeps_smod) (simp add: table_is_def arp_table_def)

lemma table_is_send [keeps_intros]: "keeps (table_is g) (connection_send c pk m)"
  unfolding connection_send_def by (intro keeps_intros table_is_nexus) simp

lemma table_is_pack_send [keeps_intros]: "keeps (table_is g) (pack_send c pk m)"
  unfolding pack_send_def send_bytes_def by (intro keeps_intros table_is_nexus) simp

lemma table_is_answer [keeps_intros]: "keeps (table_is g) (answer_arp env c inport e a en)"
  unfolding answer_arp_def by (intro keeps_intros)

lemma table_is_forward [keeps_intros]: "keeps (table_is g) (l3_forward c dpid ofp packet dst)"
  unfolding l3_forward_def by (intro keeps_intros)

lemma table_is_flood [keeps_intros]: "keeps (table_is g) (flood_arp c ofp)"
  unfolding flood_arp_def by (intro keeps_intros)

lemma new_table_same: "arp_table (snd (new_table dpid s)) d = arp_table s d"
  by (cases "map_of (l3_arpTable s) dpid") (auto simp: new_table_def smod_def arp_table_def update_conv')

lemma table_is_new: "keeps (table_is g) (new_table dpid)"
  by (rule keepsI) (simp add: table_is_def new_table_same)

lemma learn_table: "table_is f s \<Longrightarrow> table_is (\<lambda>d i. if d = dpid \<and> i = ip then Some en else f d i) (snd (l3_learn dpid ip en s))"
  by (simp add: l3_learn_def smod_def table_is_def arp_table_update update_conv')

text \<open>One packet: its source is set, and nothing else changes.\<close>

lemma PacketIn_table_is:
  assumes "table_is f s"
  shows "table_is (\<lambda>d i. case l3_source env ofp of
      Some (ip, mac) \<Rightarrow> if d = dpid \<and> i = ip then Some (Entry_init (env_now env) (pi_in_port ofp) mac) else f d i
    | None \<Rightarrow> f d i) (snd (l3_PacketIn env c dpid ofp s))"
proof -
  have k: "table_is f (snd (new_table dpid s))" using table_is_new assms unfolding keeps_def by blast
  have after: "table_is g (snd (sthen (l3_learn dpid ip en) m s'))" if "table_is f s'" "g = (\<lambda>d i. if d = dpid \<and> i = ip then Some en else f d i)" "keeps (table_is g) m" for g ip en m s'
    using learn_table [OF that(1), of dpid ip en] that(2,3) by (auto simp: l3_learn_def sthen_smod smod_def keeps_def)
  have new: "sthen (new_table dpid) m s = m (snd (new_table dpid s))" for m :: "(l3_switch, unit) sm" by (simp add: new_table_def sm_simps)
  show ?thesis
  proof (cases "parse_packet_in env ofp")
    case (Inl err)
    then show ?thesis using assms by (simp add: l3_source_def l3_PacketIn_def sm_simps)
  next
    case (Inr p)
    show ?thesis
    proof (cases p)
      case (Ethernet e n)
      note parsed = Inr Ethernet
      consider (skip) "\<not> eth_parsed e" | (quiet) "eth_parsed e" "eth_type e = 0x88cc" | (look) "eth_parsed e" "eth_type e \<noteq> 0x88cc" by blast
      then show ?thesis
      proof cases
        case skip
        then show ?thesis using assms by (simp add: parsed l3_source_def l3_PacketIn_def eth_of_def sm_simps)
      next
        case quiet
        then show ?thesis using k by (simp add: parsed l3_source_def l3_PacketIn_def eth_of_def new sm_simps)
      next
        case look
        then have in_eq: "l3_PacketIn env c dpid ofp s = (case n of
            Ipv4 h _ \<Rightarrow> sthen (l3_learn dpid (ipv4_srcip h) (Entry_init (env_now env) (pi_in_port ofp) (eth_src e))) (l3_forward c dpid ofp (Ethernet e n) (ipv4_dstip h))
          | Arp a _ \<Rightarrow> l3_arp env c dpid ofp e a
          | _ \<Rightarrow> sret ()) (snd (new_table dpid s))"
          by (simp add: parsed l3_PacketIn_def eth_of_def new sm_simps)
        show ?thesis
        proof (cases n)
          case (Ipv4 h n')
          then show ?thesis unfolding in_eq using look
            by (simp add: parsed l3_source_def) (intro after [OF k] keeps_intros; simp)
        next
          case (Arp a n')
          show ?thesis
          proof (cases "arp_usable a")
            case True
            then show ?thesis unfolding in_eq using look Arp
              by (simp add: parsed l3_source_def l3_arp_def) (intro after [OF k] keeps_intros; simp)
          next
            case False
            then show ?thesis unfolding in_eq using look Arp table_is_flood [of f c ofp] k
              by (simp add: parsed l3_source_def l3_arp_def keeps_def)
          qed
        qed (use look k in \<open>simp_all add: in_eq parsed l3_source_def sret_def\<close>)
      qed
    qed (use Inr assms in \<open>simp_all add: l3_source_def l3_PacketIn_def eth_of_def sm_simps\<close>)
  qed
qed

text \<open>A sequence of packets, each with its switch\<close>

definition l3_run :: "(swenv \<times> nat \<times> dpid \<times> ofp_packet_in) list \<Rightarrow> l3_switch \<Rightarrow> l3_switch" where
  "l3_run evs s = fold (\<lambda>(env, c, dpid, ofp) s. snd (l3_PacketIn env c dpid ofp s)) evs s"

text \<open>The entry of the last packet at a switch whose source is an address\<close>

fun l3_last :: "(swenv \<times> nat \<times> dpid \<times> ofp_packet_in) list \<Rightarrow> dpid \<Rightarrow> ipval \<Rightarrow> l3_entry option" where
  "l3_last [] d i = None"
| "l3_last ((env, c, dpid, ofp) # earlier) d i = (case l3_source env ofp of
     Some (ip, mac) \<Rightarrow> if d = dpid \<and> i = ip then Some (Entry_init (env_now env) (pi_in_port ofp) mac) else l3_last earlier d i
   | None \<Rightarrow> l3_last earlier d i)"

lemma l3_run_table: "table_is (l3_last (rev evs)) (l3_run evs (l3_switch_init nx))"
proof (induction evs rule: rev_induct)
  case Nil
  show ?case by (simp add: l3_run_def table_is_def arp_table_def l3_switch_init_def)
next
  case (snoc ev evs)
  obtain env c dpid ofp where ev: "ev = (env, c, dpid, ofp)" by (cases ev)
  have "l3_last (rev (evs @ [ev])) = (\<lambda>d i. case l3_source env ofp of
      Some (ip, mac) \<Rightarrow> if d = dpid \<and> i = ip then Some (Entry_init (env_now env) (pi_in_port ofp) mac) else l3_last (rev evs) d i
    | None \<Rightarrow> l3_last (rev evs) d i)"
    by (intro ext) (simp add: ev)
  moreover have "l3_run (evs @ [ev]) (l3_switch_init nx) = snd (l3_PacketIn env c dpid ofp (l3_run evs (l3_switch_init nx)))"
    by (simp add: l3_run_def ev)
  ultimately show ?case using PacketIn_table_is [OF snoc.IH, where env = env and ofp = ofp and dpid = dpid and c = c] by simp
qed

section \<open>Answers\<close>

lemma arp_reply_plain:
  assumes "arp_plain a" "en_mac en = HwEth m" "eth_raw_ok (eth_value m)"
  shows "arp_plain (arp_reply a en)"
  using assms by (simp add: arp_plain_def arp_reply_def)

lemma arp_reply_packs:
  assumes "arp_plain a" "arp_usable a" "en_mac en = HwEth m" "eth_raw_ok (eth_value m)"
  shows "\<exists>h. arp_hdr (arp_reply a en) = Inr h"
  using assms
  by (auto simp: arp_plain_def arp_usable_def arp_hdr_def arp_reply_def struct_pack.simps in_range_def split: hwaddr.splits ipval.splits)

text \<open>The bytes of a reply, and how they are read\<close>

lemma reply_parsed:
  assumes "arp_plain a" "arp_usable a" "en_mac en = HwEth m" "eth_raw_ok (eth_value m)" "eth_type e = 0x0806"
  obtains frame raw raw' where "packet_pack sb None (reply_packet e a en) = Inr (frame, reply_packet e a en)" "length frame = 42"
    "\<forall>sb iid rnd. ethernet_new sb iid rnd frame = Inr (Ethernet (ethernet_init\<lparr>eth_type := 0x0806, eth_src := HwEth m, eth_dst := arp_hwsrc a,
        eth_raw := raw, eth_parsed := True\<rparr>) (Arp ((arp_reply a en)\<lparr>arp_raw := raw', arp_parsed := True\<rparr>) (Bytes [])))"
proof -
  obtain s where s: "arp_hwsrc a = HwEth s" "eth_raw_ok (eth_value s)" using assms(1) by (auto simp: arp_plain_def split: hwaddr.splits)
  let ?e = "ethernet_init\<lparr>eth_type := 0x0806, eth_src := HwEth m, eth_dst := HwEth s\<rparr>"
  obtain h where h: "arp_hdr (arp_reply a en) = Inr h" using arp_reply_packs [OF assms(1-4)] by blast
  have ah: "length h = 28" "arp_new h = Inr (Arp ((arp_reply a en)\<lparr>arp_raw := Some h, arp_parsed := True\<rparr>) (Bytes []))"
    using arp_roundtrip [OF arp_reply_plain [OF assms(1,3,4)] h, of "[]"] by simp_all
  obtain eh where eh: "ethernet_hdr ?e = Inr eh" by (simp add: ethernet_hdr_def struct_pack.simps in_range_def pack_6s_def)
  have plain: "eth_plain ?e" using assms(4) s by (simp add: eth_plain_def)
  have e14: "length eh = 14" using ethernet_parse_hdr [OF plain eh] by blast
  have "ethernet_new sb iid rnd (eh @ h) = Inr (Ethernet (?e\<lparr>eth_raw := Some (eh @ h), eth_parsed := True\<rparr>)
      (Arp ((arp_reply a en)\<lparr>arp_raw := Some h, arp_parsed := True\<rparr>) (Bytes [])))" for sb iid rnd
    using ethernet_parse_hdr [OF plain eh, of sb iid rnd h] ah(2) by (simp add: type_parser_def)
  moreover have "packet_pack sb None (reply_packet e a en) = Inr (eh @ h, reply_packet e a en)"
    using eh h s(1) assms(3,5) by (simp add: reply_packet_def with_hdr_def)
  ultimately show thesis using that [of "eh @ h" "Some (eh @ h)" "Some h"] ah(1) e14 s(1) by simp
qed

text \<open>The message with the reply, and what the switch reads in it\<close>

lemma reply_msg_packs:
  assumes "0 \<le> inport" "inport < 65536" "length frame = 42" "xid_ok nx"
  shows "\<exists>b m m'. ofp_packet_out_pack True nx (reply_msg frame inport) = Inr (b, m', snd (generateXID nx))
    \<and> 4 < length b \<and> uint (b ! 0) = OFP_VERSION \<and> uint (b ! 1) = 13 \<and> frame_len b = length b
    \<and> ofp_packet_out_unpack ofp_packet_out_init (b @ []) = Inr (m, [])
    \<and> po_actions m = [output_done OFPP_IN_PORT] \<and> po_data m = frame \<and> po_in_port m = inport"
proof -
  let ?m = "reply_msg frame inport"
  obtain ab where ab: "pack_list pack_action (po_actions ?m) = Inr ab" "length ab = 8"
    using output_action_pack [of OFPP_IN_PORT] by (auto simp: reply_msg_def output_to_def)
  have f: "xid ?m = None" "version ?m = OFP_VERSION" "header_type ?m = OFPT_PACKET_OUT" "po_buffer_id ?m = - 1" "po_in_port ?m = inport" "po_data ?m = frame"
    by (simp_all add: reply_msg_def ofp_packet_out_init_def)
  obtain b m' where p: "ofp_packet_out_pack True nx ?m = Inr (b, m', snd (generateXID nx))"
    and b: "4 < length b" "uint (b ! 0) = OFP_VERSION" "uint (b ! 1) = 13" "frame_len b = length b"
    and m': "m' = ?m\<lparr>msg_len := 16 + int (length ab) + int (length (po_data ?m)), xid := Some nx, po_actions := map action_after_pack (po_actions ?m)\<rparr>"
    using packet_out_packs [OF f(1-3) ab(1), of nx] f assms ab(2) by auto
  have wf: "list_all action_wf (po_actions ?m)" by (simp add: reply_msg_def output_to_wf)
  have "ofp_packet_out_unpack ofp_packet_out_init (b @ []) = Inr (m'\<lparr>po_actions := map action_norm (po_actions ?m)\<rparr>, [])"
    using ofp_packet_out_wire [OF p wf, of ofp_packet_out_init "[]"] f by simp
  moreover have "po_actions (m'\<lparr>po_actions := map action_norm (po_actions ?m)\<rparr>) = [output_done OFPP_IN_PORT]"
    by (simp add: reply_msg_def output_to_def output_done_def)
  ultimately show ?thesis using p b f by (auto simp: m')
qed

section \<open>Properties\<close>

text \<open>
  C29: The table of the layer 3 switch says, for every switch and address, at which port and from which hardware address the last packet
  with that source came, whatever packets came and whichever of them raised.
\<close>

theorem l3_table_last_seen:
  "map_of (arp_table (l3_run evs (l3_switch_init nx)) dpid) ip = l3_last (rev evs) dpid ip"
  using l3_run_table by (simp add: table_is_def)

text \<open>
  C23: The layer 3 switch answers for a host it knows.  An ARP request for an address with a current entry is answered with one message, and the software switch
  that gets its bytes sends one frame, out of the port the request came from: a reply from the learned hardware address, for the address asked for, to the host that asked.
\<close>

theorem l3_answers_arp:
  assumes "parse_packet_in env ofp = Inr (Ethernet e (Arp a n))" "eth_parsed e" "eth_type e = 0x0806" "arp_plain a" "arp_usable a" "arp_opcode a = 1"
    and "map_of (arp_table s dpid) (arp_protodst a) = Some en" "\<not> isExpired (env_now env) en" "arp_protodst a \<noteq> arp_protosrc a"
    and "en_mac en = HwEth m" "eth_raw_ok (eth_value m)" "xid_ok (nx_nextXID s)" "c \<notin> set (nx_disconnected s)"
    and "0 \<le> pi_in_port ofp" "pi_in_port ofp < OFPP_MAX" "sw_receive_buf t = []" "map_of (sw_ports t) (pi_in_port ofp) = Some pp"
  shows "\<exists>b s' e' r. l3_PacketIn env c dpid ofp s = (Inr (), s') \<and> nx_sent s' = nx_sent s @ [(c, b)]
    \<and> push_receive_data 2 senv b t = Some (Inr RTrue, t\<lparr>sw_heap := sw_heap t @ [Ethernet e' (Arp r (Bytes []))],
        sw_events := sw_events t @ [(Ethernet e' (Arp r (Bytes [])), pp)]\<rparr>)
    \<and> eth_src e' = HwEth m \<and> eth_dst e' = arp_hwsrc a \<and> eth_type e' = 0x0806
    \<and> arp_opcode r = 2 \<and> arp_hwsrc r = HwEth m \<and> arp_protosrc r = arp_protodst a \<and> arp_hwdst r = arp_hwsrc a \<and> arp_protodst r = arp_protosrc a"
proof -
  obtain frame raw raw' where f: "packet_pack (env_subs env) None (reply_packet e a en) = Inr (frame, reply_packet e a en)" "length frame = 42"
    and new: "\<forall>sb iid rnd. ethernet_new sb iid rnd frame = Inr (Ethernet (ethernet_init\<lparr>eth_type := 0x0806, eth_src := HwEth m, eth_dst := arp_hwsrc a,
        eth_raw := raw, eth_parsed := True\<rparr>) (Arp ((arp_reply a en)\<lparr>arp_raw := raw', arp_parsed := True\<rparr>) (Bytes [])))"
    using reply_parsed [OF assms(4,5,10,11,3), of "env_subs env"] by blast
  have "pi_in_port ofp < 65536" using assms(15) by simp
  then obtain b m1 m' where b: "ofp_packet_out_pack True (nx_nextXID s) (reply_msg frame (pi_in_port ofp)) = Inr (b, m', snd (generateXID (nx_nextXID s)))"
    "4 < length b" "uint (b ! 0) = OFP_VERSION" "uint (b ! 1) = 13" "frame_len b = length b"
    "ofp_packet_out_unpack ofp_packet_out_init (b @ []) = Inr (m1, [])" "po_actions m1 = [output_done OFPP_IN_PORT]" "po_data m1 = frame" "po_in_port m1 = pi_in_port ofp"
    using reply_msg_packs [OF assms(14) _ f(2) assms(12)] by blast
  let ?p = "Ethernet (ethernet_init\<lparr>eth_type := 0x0806, eth_src := HwEth m, eth_dst := arp_hwsrc a, eth_raw := raw, eth_parsed := True\<rparr>)
      (Arp ((arp_reply a en)\<lparr>arp_raw := raw', arp_parsed := True\<rparr>) (Bytes []))"
  have sw: "push_receive_data (Suc (Suc 0)) senv b t = Some (Inr RTrue, t\<lparr>sw_heap := sw_heap t @ [?p], sw_events := sw_events t @ [(?p, pp)]\<rparr>)"
    by (rule switch_outputs_to [where m = m1 and no = "pi_in_port ofp" and port = OFPP_IN_PORT and pkt = frame]) (use b f(2) new assms(16,17) in \<open>auto simp: is_ethernet_def\<close>)
  let ?s1 = "snd (new_table dpid s)"
  let ?s2 = "snd (l3_learn dpid (arp_protosrc a) (Entry_init (env_now env) (pi_in_port ofp) (eth_src e)) ?s1)"
  have nx: "nx_nextXID ?s2 = nx_nextXID s" "nx_sent ?s2 = nx_sent s" "nx_disconnected ?s2 = nx_disconnected s"
    by (simp_all add: l3_learn_def new_table_def smod_def)
  have "map_of (arp_table ?s2 dpid) (arp_protodst a) = Some en"
    using assms(7,9) new_table_same [of dpid s dpid] by (simp add: l3_learn_def smod_def arp_table_update update_conv')
  moreover have learn: "l3_learn d i x z = (Inr (), snd (l3_learn d i x z))" "new_table d z = (Inr (), snd (new_table d z))" for d i x z
    by (simp_all add: l3_learn_def new_table_def smod_def)
  ultimately have "l3_PacketIn env c dpid ofp s = answer_arp env c (pi_in_port ofp) e a en ?s2"
    using assms(1-3,5,6,8)
    by (simp add: l3_PacketIn_def l3_arp_def eth_of_def sthen_Inr [OF learn(1)] sthen_Inr [OF learn(2)] sm_simps)
  also have "\<dots> = (Inr (), ?s2\<lparr>nx_sent := nx_sent s @ [(c, b)], nx_nextXID := snd (generateXID (nx_nextXID s))\<rparr>)"
    using f(1) b(1) assms(13) nx by (simp add: answer_arp_def connection_send_def sm_simps)
  finally have r: "l3_PacketIn env c dpid ofp s = (Inr (), ?s2\<lparr>nx_sent := nx_sent s @ [(c, b)], nx_nextXID := snd (generateXID (nx_nextXID s))\<rparr>)" .
  let ?e = "ethernet_init\<lparr>eth_type := 0x0806, eth_src := HwEth m, eth_dst := arp_hwsrc a, eth_raw := raw, eth_parsed := True\<rparr>"
    and ?r = "(arp_reply a en)\<lparr>arp_raw := raw', arp_parsed := True\<rparr>" and ?s = "snd (l3_PacketIn env c dpid ofp s)"
  have "arp_opcode ?r = 2" "arp_hwsrc ?r = HwEth m" "arp_protosrc ?r = arp_protodst a" "arp_hwdst ?r = arp_hwsrc a" "arp_protodst ?r = arp_protosrc a"
    using assms(10) by (simp_all add: arp_reply_def)
  moreover have "l3_PacketIn env c dpid ofp s = (Inr (), ?s)" "nx_sent ?s = nx_sent s @ [(c, b)]" using r by simp_all
  moreover have "eth_src ?e = HwEth m" "eth_dst ?e = arp_hwsrc a" "eth_type ?e = 0x0806" by simp_all
  ultimately show ?thesis using sw unfolding numeral_2_eq_2 by blast
qed

text \<open>A host that asks, and a switch that knows the answer\<close>

definition ask :: arp where
  "ask = arp_init\<lparr>arp_opcode := 1, arp_hwsrc := HwEth (EthAddr [0, 0, 0, 0, 0, 9]), arp_protosrc := IvAddr (ip_of_int 0x0a000001),
     arp_protodst := IvAddr (ip_of_int 0x0a000002)\<rparr>"

definition ask_eth :: ethernet where
  "ask_eth = ethernet_init\<lparr>eth_type := 0x0806, eth_src := HwEth (EthAddr [0, 0, 0, 0, 0, 9])\<rparr>"

lemma ask_plain: "eth_raw_ok [0, 0, 0, 0, 0, 9]" "eth_raw_ok [0, 0, 0, 0, 0, 7]" "arp_plain ask" "eth_plain ask_eth" "arp_usable ask"
proof -
  show r: "eth_raw_ok [0, 0, 0, 0, 0, 9]" "eth_raw_ok [0, 0, 0, 0, 0, 7]" by code_simp+
  have z: "eth_raw_ok [0, 0, 0, 0, 0, 0]" by code_simp
  show "arp_plain ask" "eth_plain ask_eth"
    using r z by (simp_all add: arp_plain_def eth_plain_def ask_def ask_eth_def arp_init_def ethernet_init_def ETHER_ANY_def zeros_numeral)
  have "ip_value (ip_of_int 0x0a000001) \<noteq> 0"
  proof
    assume "ip_value (ip_of_int 0x0a000001) = 0"
    then have "ip_u (ip_of_int 0x0a000001) = htonl 0" by (simp add: ip_toUnsigned_def)
    moreover have "htonl 0 = 0" by code_simp
    ultimately show False by (simp add: ip_u_of_int)
  qed
  then show "arp_usable ask" by (simp add: arp_usable_def ask_def arp_init_def iv_nonzero_def)
qed

lemma ask_parsed: "\<exists>data e a n. parse_packet_in demo_env (ofp_packet_in_init\<lparr>pi_data := data, pi_in_port := 2\<rparr>) = Inr (Ethernet e (Arp a n))
    \<and> eth_parsed e \<and> eth_type e = 0x0806 \<and> arp_plain a \<and> arp_usable a \<and> arp_opcode a = 1
    \<and> arp_protodst a = IvAddr (ip_of_int 0x0a000002) \<and> arp_protosrc a = IvAddr (ip_of_int 0x0a000001)"
proof -
  obtain h where h: "arp_hdr ask = Inr h"
    by (simp add: arp_hdr_def ask_def arp_init_def ETHER_ANY_def eth_toRaw_def ip_u_of_int pack_eval)
  obtain eh where eh: "ethernet_hdr ask_eth = Inr eh" by (simp add: ask_eth_def ethernet_hdr_def struct_pack.simps in_range_def pack_6s_def)
  have "arp_new h = Inr (Arp (ask\<lparr>arp_raw := Some h, arp_parsed := True\<rparr>) (Bytes []))" using arp_roundtrip [OF ask_plain(3) h, of "[]"] by simp
  then have "parse_packet_in demo_env (ofp_packet_in_init\<lparr>pi_data := eh @ h, pi_in_port := 2\<rparr>)
      = Inr (Ethernet (ask_eth\<lparr>eth_raw := Some (eh @ h), eth_parsed := True\<rparr>) (Arp (ask\<lparr>arp_raw := Some h, arp_parsed := True\<rparr>) (Bytes [])))"
    using ethernet_parse_hdr [OF ask_plain(4) eh, of "env_subs demo_env" "env_iid demo_env" "env_rnd demo_env" h]
    by (simp add: parse_packet_in_def ask_eth_def type_parser_def)
  moreover have "arp_plain (ask\<lparr>arp_raw := Some h, arp_parsed := True\<rparr>)" "arp_usable (ask\<lparr>arp_raw := Some h, arp_parsed := True\<rparr>)"
    using ask_plain(3,5) by (simp_all add: arp_plain_def arp_usable_def)
  ultimately show ?thesis
    by (intro exI [of _ "eh @ h"] exI [of _ "ask_eth\<lparr>eth_raw := Some (eh @ h), eth_parsed := True\<rparr>"]
        exI [of _ "ask\<lparr>arp_raw := Some h, arp_parsed := True\<rparr>"] exI [of _ "Bytes []"]) (simp add: ask_def ask_eth_def)
qed

theorem l3_answers_arp_witness:
  "let mac = HwEth (EthAddr [0, 0, 0, 0, 0, 7]); s = (l3_switch_init 1)\<lparr>l3_arpTable := [(1, [(IvAddr (ip_of_int 0x0a000002), Entry_init 0 1 mac)])]\<rparr> in
   \<exists>data s' b e r t. l3_PacketIn demo_env 5 1 (ofp_packet_in_init\<lparr>pi_data := data, pi_in_port := 2\<rparr>) s = (Inr (), s') \<and> nx_sent s' = [(5, b)]
     \<and> push_receive_data 2 (\<lambda>_. demo_env) b demo_switch = Some (Inr RTrue, t)
     \<and> sw_events t = [(Ethernet e (Arp r (Bytes [])), ofp_phy_port_init\<lparr>pp_port_no := 2\<rparr>)] \<and> arp_hwsrc r = mac"
proof -
  let ?m = "EthAddr [0, 0, 0, 0, 0, 7]"
  let ?s = "(l3_switch_init 1)\<lparr>l3_arpTable := [(1, [(IvAddr (ip_of_int 0x0a000002), Entry_init 0 1 (HwEth ?m))])]\<rparr>"
  obtain data e a n where p: "parse_packet_in demo_env (ofp_packet_in_init\<lparr>pi_data := data, pi_in_port := 2\<rparr>) = Inr (Ethernet e (Arp a n))"
    "eth_parsed e" "eth_type e = 0x0806" "arp_plain a" "arp_usable a" "arp_opcode a = 1"
    "arp_protodst a = IvAddr (ip_of_int 0x0a000002)" "arp_protosrc a = IvAddr (ip_of_int 0x0a000001)" using ask_parsed by blast
  let ?ofp = "ofp_packet_in_init\<lparr>pi_data := data, pi_in_port := 2\<rparr>"
  have "ip_of_int 0x0a000002 \<noteq> ip_of_int 0x0a000001" using ip_u_of_int [of "0x0a000002"] ip_u_of_int [of "0x0a000001"] by auto
  then have ne: "arp_protodst a \<noteq> arp_protosrc a" using p by simp
  have t: "sw_receive_buf demo_switch = []" "map_of (sw_ports demo_switch) (pi_in_port ?ofp) = Some (ofp_phy_port_init\<lparr>pp_port_no := 2\<rparr>)"
    by (simp_all add: demo_fields) (simp add: demo_switch_def SwitchImpl_init_def)
  have s: "map_of (arp_table ?s 1) (arp_protodst a) = Some (Entry_init 0 1 (HwEth ?m))" "\<not> isExpired (env_now demo_env) (Entry_init 0 1 (HwEth ?m))"
    "en_mac (Entry_init 0 1 (HwEth ?m)) = HwEth ?m" "eth_raw_ok (eth_value ?m)" "xid_ok (nx_nextXID ?s)" "5 \<notin> set (nx_disconnected ?s)"
    using p(7) ask_plain(2) by (simp_all add: arp_table_def isExpired_def Entry_init_def demo_env_def l3_switch_init_def xid_ok_def)
  have n: "0 \<le> pi_in_port ?ofp" "pi_in_port ?ofp < OFPP_MAX" "nx_sent ?s = []" by (simp_all add: l3_switch_init_def)
  show ?thesis
    using l3_answers_arp [OF p(1-6) s(1,2) ne s(3-6) n(1,2) t, where senv = "\<lambda>_. demo_env"] n(3) demo_fields unfolding Let_def by fastforce
qed

text \<open>
  An ARP packet that is not buffered is not flooded: the message the handler sends carries no data and no buffer, and the switch does nothing with it.
\<close>

theorem unbuffered_arp_lost:
  assumes "pi_buffer_id ofp = - 1" "0 \<le> pi_in_port ofp" "pi_in_port ofp < OFPP_MAX" "xid_ok (nx_nextXID s)" "c \<notin> set (nx_disconnected s)"
    and "sw_receive_buf t = []"
  shows "\<exists>b. flood_arp c ofp s = (Inr (), s\<lparr>nx_sent := nx_sent s @ [(c, b)], nx_nextXID := snd (generateXID (nx_nextXID s))\<rparr>)
    \<and> push_receive_data 2 senv b t = Some (Inr RTrue, t)"
proof -
  let ?m = "flood_msg ofp" and ?nx = "nx_nextXID s"
  obtain ab where ab: "pack_list pack_action (po_actions ?m) = Inr ab" "length ab = 8"
    using output_action_pack [of OFPP_FLOOD] by (auto simp: flood_msg_def output_to_def)
  have f: "xid ?m = None" "version ?m = OFP_VERSION" "header_type ?m = OFPT_PACKET_OUT" "po_buffer_id ?m = - 1" "po_in_port ?m = pi_in_port ofp" "po_data ?m = []"
    using assms(1) by (simp_all add: flood_msg_def ofp_packet_out_init_def)
  obtain b m' where p: "ofp_packet_out_pack True ?nx ?m = Inr (b, m', snd (generateXID ?nx))"
    and b: "4 < length b" "uint (b ! 0) = OFP_VERSION" "uint (b ! 1) = 13" "frame_len b = length b"
    and m': "m' = ?m\<lparr>msg_len := 16 + int (length ab) + int (length (po_data ?m)), xid := Some ?nx, po_actions := map action_after_pack (po_actions ?m)\<rparr>"
    using packet_out_packs [OF f(1-3) ab(1), of ?nx] f assms ab(2) by auto
  have wf: "list_all action_wf (po_actions ?m)" by (simp add: flood_msg_def output_to_wf)
  let ?r = "m'\<lparr>po_actions := map action_norm (po_actions ?m)\<rparr>"
  have u: "ofp_packet_out_unpack ofp_packet_out_init b = Inr (?r, [])"
    using ofp_packet_out_wire [OF p wf, of ofp_packet_out_init "[]"] f by simp
  then have "unpack_msg (uint (b ! 1)) b = Inr (IPacketOut ?r)" using b(3) by (simp add: unpack_msg_def)
  moreover have "handle_msg (senv 0) (IPacketOut ?r) (t\<lparr>sw_receive_buf := b, sw_receive_buf := []\<rparr>) = (Inr (), t)"
    using f(4,6) assms(6) by (simp add: receive_packet_out_def m' sret_def)
  ultimately have "push_receive_data (Suc (Suc 0)) senv b t = Some (Inr RTrue, t)"
    unfolding push_receive_data_def using b assms(6) by (intro read_one_frame [where b = b and m = "IPacketOut ?r"]) auto
  moreover have "flood_arp c ofp s = (Inr (), s\<lparr>nx_sent := nx_sent s @ [(c, b)], nx_nextXID := snd (generateXID ?nx)\<rparr>)"
    using p assms(5) by (simp add: flood_arp_def pack_send_def send_bytes_def connection_send_def sm_simps)
  ultimately show ?thesis unfolding numeral_2_eq_2 by blast
qed

end
