(* ===== verification/Host_Tracker.thy ===== *)
theory Host_Tracker
  imports L3_Learning
begin

text \<open>
  \<open>pox/host_tracker\<close>: where hosts are and which addresses they have, learned from packets that come in at ports without a switch behind
  them, and kept alive by ARP requests.  \<open>now\<close> is \<open>time.time()\<close>; the configuration is the argument \<open>cfg\<close>.
\<close>

section \<open>Entries\<close>

record tracker_config =
  tc_arpAware :: int
  tc_arpSilent :: int
  tc_arpReply :: int
  tc_entryMove :: int
  tc_pingLim :: int

definition timeoutSec :: tracker_config where
  "timeoutSec = \<lparr>tc_arpAware = 120, tc_arpSilent = 1200, tc_arpReply = 4, tc_entryMove = 60, tc_pingLim = 3\<rparr>"

record alive =
  lastTimeSeen :: int
  interval :: int

definition expired :: "int \<Rightarrow> 'z alive_scheme \<Rightarrow> bool" where
  "expired now a \<longleftrightarrow> now > lastTimeSeen a + interval a"

definition refresh :: "int \<Rightarrow> 'z alive_scheme \<Rightarrow> 'z alive_scheme" where
  "refresh now a = a\<lparr>lastTimeSeen := now\<rparr>"

record ping_ctrl = alive +
  pc_pending :: int

definition PingCtrl_init :: "tracker_config \<Rightarrow> int \<Rightarrow> ping_ctrl" where
  "PingCtrl_init cfg now = \<lparr>lastTimeSeen = now, interval = tc_arpReply cfg, pc_pending = 0\<rparr>"

definition ping_sent :: "int \<Rightarrow> ping_ctrl \<Rightarrow> ping_ctrl" where
  "ping_sent now p = (refresh now p)\<lparr>pc_pending := pc_pending p + 1\<rparr>"

definition ping_failed :: "tracker_config \<Rightarrow> ping_ctrl \<Rightarrow> bool" where
  "ping_failed cfg p \<longleftrightarrow> pc_pending p > tc_pingLim cfg"

definition ping_received :: "ping_ctrl \<Rightarrow> ping_ctrl" where
  "ping_received p = p\<lparr>pc_pending := 0\<rparr>"

record ip_entry = alive +
  ie_hasARP :: bool
  ie_pings :: ping_ctrl

definition IpEntry_init :: "tracker_config \<Rightarrow> int \<Rightarrow> bool \<Rightarrow> ip_entry" where
  "IpEntry_init cfg now hasARP = \<lparr>lastTimeSeen = now, interval = (if hasARP then tc_arpAware cfg else tc_arpSilent cfg),
     ie_hasARP = hasARP, ie_pings = PingCtrl_init cfg now\<rparr>"

definition setHasARP :: "tracker_config \<Rightarrow> ip_entry \<Rightarrow> ip_entry" where
  "setHasARP cfg e = (if ie_hasARP e then e else e\<lparr>ie_hasARP := True, interval := tc_arpAware cfg\<rparr>)"

text \<open>The interval of a host is the default argument of \<open>Alive\<close>, evaluated before any configuration.\<close>

record mac_entry = alive +
  me_dpid :: dpid
  me_port :: int
  me_macaddr :: hwaddr
  me_ipAddrs :: "(ipval \<times> ip_entry) list"
  me_inport :: "int option"

definition MacEntry_init :: "int \<Rightarrow> dpid \<Rightarrow> int \<Rightarrow> hwaddr \<Rightarrow> mac_entry" where
  "MacEntry_init now dpid port macaddr = \<lparr>lastTimeSeen = now, interval = 120, me_dpid = dpid, me_port = port, me_macaddr = macaddr,
     me_ipAddrs = [], me_inport = None\<rparr>"

definition at_location :: "mac_entry \<Rightarrow> dpid \<Rightarrow> int \<Rightarrow> hwaddr \<Rightarrow> bool" where
  "at_location e dpid port mac \<longleftrightarrow> me_dpid e = dpid \<and> me_port e = port \<and> me_macaddr e = mac"

section \<open>The tracker\<close>

record host_tracker = of_nexus +
  ht_entries :: "(hwaddr \<times> mac_entry) list"

definition host_tracker_init :: "int \<Rightarrow> host_tracker" where
  "host_tracker_init nx = \<lparr>nx_sent = [], nx_disconnected = [], nx_nextXID = nx, ht_entries = []\<rparr>"

definition getMacEntry :: "host_tracker \<Rightarrow> hwaddr \<Rightarrow> mac_entry option" where
  "getMacEntry s mac = map_of (ht_entries s) mac"

text \<open>The object of an entry, and changing it\<close>

definition entry :: "hwaddr \<Rightarrow> (host_tracker, mac_entry) sm" where
  "entry mac = sbind (sget (\<lambda>s. getMacEntry s mac)) (\<lambda>e. slift (need KeyError e))"

definition set_entry :: "hwaddr \<Rightarrow> mac_entry \<Rightarrow> (host_tracker, unit) sm" where
  "set_entry mac e = smod (\<lambda>s. s\<lparr>ht_entries := AList.update mac e (ht_entries s)\<rparr>)"

definition set_ip :: "ipval \<Rightarrow> ip_entry \<Rightarrow> mac_entry \<Rightarrow> mac_entry" where
  "set_ip ip i e = e\<lparr>me_ipAddrs := AList.update ip i (me_ipAddrs e)\<rparr>"

definition del_ip :: "ipval \<Rightarrow> mac_entry \<Rightarrow> mac_entry res" where
  "del_ip ip e = (if map_of (me_ipAddrs e) ip = None then Inl KeyError else Inr (e\<lparr>me_ipAddrs := AList.delete ip (me_ipAddrs e)\<rparr>))"

section \<open>Packets\<close>

definition getSrcIPandARP :: "packet \<Rightarrow> (ipval \<times> bool) option" where
  "getSrcIPandARP p = (case p of
     Ipv4 h _ \<Rightarrow> Some (ipv4_srcip h, False)
   | Arp a _ \<Rightarrow> if arp_hwtype a = 1 \<and> arp_prototype a = 0x0800 \<and> iv_nonzero (arp_protosrc a) then Some (arp_protosrc a, True) else None
   | _ \<Rightarrow> None)"

definition updateIPInfo :: "tracker_config \<Rightarrow> int \<Rightarrow> ipval \<Rightarrow> bool \<Rightarrow> mac_entry \<Rightarrow> mac_entry" where
  "updateIPInfo cfg now ip hasARP e =
     (let i = (case map_of (me_ipAddrs e) ip of Some i \<Rightarrow> refresh now i | None \<Rightarrow> IpEntry_init cfg now hasARP);
          i = (if hasARP then i\<lparr>ie_pings := ping_received (ie_pings i)\<rparr> else i) in
      set_ip ip i e)"

text \<open>
  A host that moved: the warning of a recent move calls the time of the last packet, a number, as a function.  Otherwise the switch is
  set, and an attribute \<open>inport\<close> that nothing reads.
\<close>

definition locate_host :: "tracker_config \<Rightarrow> int \<Rightarrow> dpid \<Rightarrow> int \<Rightarrow> hwaddr \<Rightarrow> mac_entry option \<Rightarrow> mac_entry res" where
  "locate_host cfg now dpid inport src known = (case known of
     None \<Rightarrow> Inr (MacEntry_init now dpid inport src)
   | Some e \<Rightarrow>
       if at_location e dpid inport src then Inr e
       else if now - lastTimeSeen e < tc_entryMove cfg then Inl TypeError
       else Inr (e\<lparr>me_dpid := dpid, me_inport := Some inport\<rparr>))"

definition ht_PacketIn :: "tracker_config \<Rightarrow> link list \<Rightarrow> swenv \<Rightarrow> dpid \<Rightarrow> ofp_packet_in \<Rightarrow> (host_tracker, unit) sm" where
  "ht_PacketIn cfg links env dpid ofp =
     sbind (slift (parse_packet_in env ofp)) (\<lambda>packet.
     sbind (slift (eth_of packet)) (\<lambda>e.
     if \<not> eth_parsed e \<or> eth_type e = 0x88cc \<or> isSwitchOnlyPort links dpid (pi_in_port ofp) then sret ()
     else sbind (sget (\<lambda>s. getMacEntry s (eth_src e))) (\<lambda>known.
       sbind (slift (locate_host cfg (env_now env) dpid (pi_in_port ofp) (eth_src e) known)) (\<lambda>m.
       let m = refresh (env_now env) m in
       set_entry (eth_src e) (case getSrcIPandARP (next_of packet) of
           None \<Rightarrow> m
         | Some (ip, hasARP) \<Rightarrow> updateIPInfo cfg (env_now env) ip hasARP m)))))"

section \<open>Timeouts\<close>

definition ping_packet :: "mac_entry \<Rightarrow> ipval \<Rightarrow> packet" where
  "ping_packet e ip = Ethernet (ethernet_init\<lparr>eth_type := 0x0806, eth_dst := me_macaddr e\<rparr>)
     (Arp (arp_init\<lparr>arp_opcode := 1, arp_hwdst := me_macaddr e, arp_protodst := ip\<rparr>) (Bytes []))"

definition ping_msg :: "bytes \<Rightarrow> int \<Rightarrow> ofp_packet_out" where
  "ping_msg frame port = ofp_packet_out_init\<lparr>po_data := frame, po_actions := [output_to port]\<rparr>"

definition pack_packet_out :: "ofp_packet_out \<Rightarrow> ('z of_nexus_scheme, bytes) sm" where
  "pack_packet_out m = sbind (sget nx_nextXID) (\<lambda>nx. sbind (slift (ofp_packet_out_pack True nx m)) (\<lambda>(b, _, nx').
     sthen (smod (\<lambda>s. s\<lparr>nx_nextXID := nx'\<rparr>)) (sret b)))"

definition sent_ip :: "int \<Rightarrow> ipval \<Rightarrow> mac_entry \<Rightarrow> mac_entry res" where
  "sent_ip now ip e = (case map_of (me_ipAddrs e) ip of
     None \<Rightarrow> Inl KeyError
   | Some i \<Rightarrow> Inr (set_ip ip (i\<lparr>ie_pings := ping_sent now (ie_pings i)\<rparr>) e))"

definition change_entry :: "hwaddr \<Rightarrow> (mac_entry \<Rightarrow> mac_entry res) \<Rightarrow> (host_tracker, unit) sm" where
  "change_entry mac f = sbind (entry mac) (\<lambda>e. sbind (slift (f e)) (set_entry mac))"

definition sendPing :: "(dpid \<Rightarrow> nat option) \<Rightarrow> swenv \<Rightarrow> hwaddr \<Rightarrow> ipval \<Rightarrow> (host_tracker, unit) sm" where
  "sendPing cons env mac ip = sbind (entry mac) (\<lambda>e.
     sbind (slift (packet_pack (env_subs env) None (ping_packet e ip))) (\<lambda>(frame, _).
     sbind (pack_packet_out (ping_msg frame (me_port e))) (\<lambda>b. case cons (me_dpid e) of
       Some c \<Rightarrow> sthen (send_bytes c b) (change_entry mac (sent_ip (env_now env) ip))
     | None \<Rightarrow> change_entry mac (del_ip ip))))"

text \<open>
  One address of an entry.  The object of the address is also marked when the entry no longer has it, which nothing sees.
\<close>

definition mark_ip :: "int \<Rightarrow> ipval \<Rightarrow> mac_entry \<Rightarrow> mac_entry" where
  "mark_ip now ip e = (case map_of (me_ipAddrs e) ip of None \<Rightarrow> e | Some i \<Rightarrow> set_ip ip (i\<lparr>ie_pings := ping_sent now (ie_pings i)\<rparr>) e)"

definition check_ip_entry :: "tracker_config \<Rightarrow> (dpid \<Rightarrow> nat option) \<Rightarrow> swenv \<Rightarrow> hwaddr \<Rightarrow> ipval \<times> ip_entry \<Rightarrow> (host_tracker, bool) sm" where
  "check_ip_entry cfg cons env mac item = (case item of (ip, i) \<Rightarrow>
     if \<not> expired (env_now env) i then sret False
     else if ping_failed cfg (ie_pings i) then sthen (change_entry mac (del_ip ip)) (sret False)
     else sthen (sendPing cons env mac ip) (sthen (change_entry mac (\<lambda>e. Inr (mark_ip (env_now env) ip e))) (sret True)))"

fun check_ip_entries :: "tracker_config \<Rightarrow> (dpid \<Rightarrow> nat option) \<Rightarrow> swenv \<Rightarrow> hwaddr \<Rightarrow> (ipval \<times> ip_entry) list \<Rightarrow> bool \<Rightarrow> (host_tracker, bool) sm" where
  "check_ip_entries cfg cons env mac [] pinged = sret pinged"
| "check_ip_entries cfg cons env mac (item # items) pinged =
     sbind (check_ip_entry cfg cons env mac item) (\<lambda>p. check_ip_entries cfg cons env mac items (pinged \<or> p))"

text \<open>
  The sanity check: for each address that is left, the address the loop before ended with is deleted.
\<close>

definition delete_rest :: "hwaddr \<Rightarrow> ipval \<Rightarrow> (ipval \<times> ip_entry) list \<Rightarrow> (host_tracker, unit) sm" where
  "delete_rest mac ip_addr = sfor (\<lambda>_. change_entry mac (del_ip ip_addr))"

definition forget_entry :: "hwaddr \<Rightarrow> (host_tracker, unit) sm" where
  "forget_entry mac = sbind (entry mac) (\<lambda>_. smod (\<lambda>s. s\<lparr>ht_entries := AList.delete mac (ht_entries s)\<rparr>))"

definition check_entry :: "tracker_config \<Rightarrow> (dpid \<Rightarrow> nat option) \<Rightarrow> swenv \<Rightarrow> hwaddr \<Rightarrow> (host_tracker, unit) sm" where
  "check_entry cfg cons env mac = sbind (entry mac) (\<lambda>e0.
     sbind (check_ip_entries cfg cons env mac (me_ipAddrs e0) False) (\<lambda>pinged.
     sbind (entry mac) (\<lambda>e.
       if expired (env_now env) e \<and> \<not> pinged then
         sthen (if me_ipAddrs e \<noteq> [] then delete_rest mac (fst (last (me_ipAddrs e0))) (me_ipAddrs e) else sret ())
           (forget_entry (me_macaddr e))
       else sret ())))"

definition check_timeouts :: "tracker_config \<Rightarrow> (dpid \<Rightarrow> nat option) \<Rightarrow> swenv \<Rightarrow> (host_tracker, unit) sm" where
  "check_timeouts cfg cons env = sbind (sget (\<lambda>s. map fst (ht_entries s))) (\<lambda>macs. sfor (check_entry cfg cons env) macs)"

end
