(* ===== verification/Host_Tracker_Laws.thy ===== *)
theory Host_Tracker_Laws
  imports Host_Tracker Packet_Out_Laws
begin

text \<open>
  What the host tracker does: its table keeps its form, a new host is found where it spoke, and a silent host is pinged and then forgotten.
  The errors of the code are theorems too: a host that moves, and a host that expires with two addresses.
\<close>

section \<open>The table\<close>

definition ht_wf :: "host_tracker \<Rightarrow> bool" where
  "ht_wf s \<longleftrightarrow> distinct (map fst (ht_entries s))
     \<and> (\<forall>(mac, e) \<in> set (ht_entries s). me_macaddr e = mac \<and> distinct (map fst (me_ipAddrs e)))"

definition entry_wf :: "hwaddr \<Rightarrow> mac_entry \<Rightarrow> bool" where
  "entry_wf mac e \<longleftrightarrow> me_macaddr e = mac \<and> distinct (map fst (me_ipAddrs e))"

lemma ht_wf_alt: "ht_wf s \<longleftrightarrow> distinct (map fst (ht_entries s)) \<and> (\<forall>mac e. getMacEntry s mac = Some e \<longrightarrow> entry_wf mac e)"
  unfolding ht_wf_def entry_wf_def getMacEntry_def by (auto simp: map_of_eq_Some_iff)

lemma getMacEntry_update [simp]:
  "getMacEntry (s\<lparr>ht_entries := AList.update mac e (ht_entries s)\<rparr>) m = (if m = mac then Some e else getMacEntry s m)"
  by (simp add: getMacEntry_def update_conv')

lemma getMacEntry_delete [simp]:
  "getMacEntry (s\<lparr>ht_entries := AList.delete mac (ht_entries s)\<rparr>) m = (if m = mac then None else getMacEntry s m)"
  by (simp add: getMacEntry_def delete_conv')

lemma ht_wf_update: "ht_wf s \<Longrightarrow> entry_wf mac e \<Longrightarrow> ht_wf (s\<lparr>ht_entries := AList.update mac e (ht_entries s)\<rparr>)"
  by (simp add: ht_wf_alt distinct_update)

lemma ht_wf_delete: "ht_wf s \<Longrightarrow> ht_wf (s\<lparr>ht_entries := AList.delete mac (ht_entries s)\<rparr>)"
  by (simp add: ht_wf_alt distinct_delete)

lemma ht_wf_nexus: "(\<And>s. ht_entries (f s) = ht_entries s) \<Longrightarrow> keeps ht_wf (smod f)"
  by (rule keeps_smod) (simp add: ht_wf_def)

text \<open>Changes of an entry that keep its form\<close>

definition entry_change :: "(mac_entry \<Rightarrow> mac_entry res) \<Rightarrow> bool" where
  "entry_change f \<longleftrightarrow> (\<forall>mac e e'. entry_wf mac e \<longrightarrow> f e = Inr e' \<longrightarrow> entry_wf mac e')"

lemma entry_changes: "entry_change (del_ip ip)" "entry_change (sent_ip now ip)" "entry_change (\<lambda>e. Inr (mark_ip now ip e))"
  unfolding entry_change_def entry_wf_def del_ip_def sent_ip_def mark_ip_def set_ip_def
  by (auto simp: distinct_update distinct_delete split: if_splits option.splits)

lemma change_entry_apply:
  "change_entry mac f s = (case getMacEntry s mac of
     None \<Rightarrow> (Inl KeyError, s)
   | Some e \<Rightarrow> (case f e of Inl err \<Rightarrow> (Inl err, s) | Inr e' \<Rightarrow> (Inr (), s\<lparr>ht_entries := AList.update mac e' (ht_entries s)\<rparr>)))"
  by (simp add: change_entry_def entry_def set_entry_def sbind_def slift_def sget_def smod_def need_def split: option.splits sum.splits)

lemma wf_change [keeps_intros]:
  assumes "entry_change f"
  shows "keeps ht_wf (change_entry mac f)"
proof (rule keepsI)
  fix s
  assume s: "ht_wf s"
  have "entry_wf mac e'" if "getMacEntry s mac = Some e" "f e = Inr e'" for e e'
    using assms s that by (auto simp: entry_change_def ht_wf_alt)
  then show "ht_wf (snd (change_entry mac f s))"
    using s by (auto simp: change_entry_apply intro: ht_wf_update split: option.splits sum.splits)
qed

lemma wf_send_bytes [keeps_intros]: "keeps ht_wf (send_bytes c b)"
  unfolding send_bytes_def connection_send_def by (intro keeps_intros ht_wf_nexus) simp

lemma wf_pack [keeps_intros]: "keeps ht_wf (pack_packet_out m)"
  unfolding pack_packet_out_def by (intro keeps_intros ht_wf_nexus) simp

lemma wf_entry [keeps_intros]: "keeps ht_wf (entry mac)"
  unfolding entry_def by (intro keeps_intros)

lemma wf_sendPing [keeps_intros]: "keeps ht_wf (sendPing cons env mac ip)"
  unfolding sendPing_def by (intro keeps_intros entry_changes)

lemma wf_check_ip [keeps_intros]: "keeps ht_wf (check_ip_entry cfg cons env mac item)"
  unfolding check_ip_entry_def by (intro keeps_intros entry_changes)

lemma wf_check_ips [keeps_intros]: "keeps ht_wf (check_ip_entries cfg cons env mac items pinged)"
  by (induction items arbitrary: pinged) (simp_all add: keeps_intros)

lemma wf_forget [keeps_intros]: "keeps ht_wf (forget_entry mac)"
  unfolding forget_entry_def by (intro keeps_intros keeps_smod ht_wf_delete)

lemma wf_check_entry [keeps_intros]: "keeps ht_wf (check_entry cfg cons env mac)"
  unfolding check_entry_def delete_rest_def by (intro keeps_intros entry_changes)

lemma wf_locate: "ht_wf s \<Longrightarrow> locate_host cfg now dpid port src (getMacEntry s src) = Inr e \<Longrightarrow> entry_wf src e"
  by (auto simp: locate_host_def ht_wf_alt entry_wf_def MacEntry_init_def split: option.splits if_splits)

lemma wf_info: "entry_wf mac e \<Longrightarrow> entry_wf mac (updateIPInfo cfg now ip hasARP e)"
  by (simp add: entry_wf_def updateIPInfo_def set_ip_def Let_def distinct_update)

lemma wf_refresh: "entry_wf mac e \<Longrightarrow> entry_wf mac (refresh now e)"
  by (simp add: entry_wf_def refresh_def)

lemma wf_PacketIn [keeps_intros]: "keeps ht_wf (ht_PacketIn cfg links env dpid ofp)"
  by (rule keepsI)
    (auto simp: ht_PacketIn_def sbind_def slift_def sget_def sret_def set_entry_def smod_def Let_def
      intro!: ht_wf_update wf_info wf_refresh wf_locate split: sum.splits option.splits)

text \<open>Packets and checks, in any order and with any outcome\<close>

datatype ht_event =
  HostPacket "link list" swenv dpid ofp_packet_in
| HostCheck "dpid \<Rightarrow> nat option" swenv

fun ht_handle :: "tracker_config \<Rightarrow> ht_event \<Rightarrow> (host_tracker, unit) sm" where
  "ht_handle cfg (HostPacket links env dpid ofp) = ht_PacketIn cfg links env dpid ofp"
| "ht_handle cfg (HostCheck cons env) = check_timeouts cfg cons env"

definition ht_run :: "tracker_config \<Rightarrow> ht_event list \<Rightarrow> host_tracker \<Rightarrow> host_tracker" where
  "ht_run cfg evs s = fold (\<lambda>ev s. snd (ht_handle cfg ev s)) evs s"

lemma wf_check_timeouts [keeps_intros]: "keeps ht_wf (check_timeouts cfg cons env)"
  unfolding check_timeouts_def by (intro keeps_intros)

lemma wf_handle: "keeps ht_wf (ht_handle cfg ev)"
  by (cases ev) (simp_all add: keeps_intros)

text \<open>
  In every state the tracker reaches, each host is in its table once, under its own address, and has each of its network addresses once.
\<close>

theorem tracker_table_wf: "ht_wf (ht_run cfg evs (host_tracker_init nx))"
proof (induction evs rule: rev_induct)
  case Nil
  show ?case by (simp add: ht_run_def ht_wf_def host_tracker_init_def)
next
  case (snoc ev evs)
  then show ?case using wf_handle [of cfg ev] by (simp add: ht_run_def keeps_def)
qed

section \<open>Hosts found\<close>

text \<open>
  A packet of a host that is not in the table, at a port with no switch behind it: the host is found there, with the address the packet carries.
\<close>

theorem new_host_found:
  assumes "parse_packet_in env ofp = Inr (Ethernet e n)" "eth_parsed e" "eth_type e \<noteq> 0x88cc"
    and "\<not> isSwitchOnlyPort links dpid (pi_in_port ofp)" "getMacEntry s (eth_src e) = None"
  shows "\<exists>s' m. ht_PacketIn cfg links env dpid ofp s = (Inr (), s') \<and> getMacEntry s' (eth_src e) = Some m
    \<and> at_location m dpid (pi_in_port ofp) (eth_src e) \<and> lastTimeSeen m = env_now env
    \<and> map fst (me_ipAddrs m) = (case getSrcIPandARP n of None \<Rightarrow> [] | Some (ip, _) \<Rightarrow> [ip])"
  using assms
  by (auto simp: ht_PacketIn_def eth_of_def locate_host_def set_entry_def refresh_def MacEntry_init_def at_location_def updateIPInfo_def set_ip_def
      sm_simps Let_def split: option.splits)

text \<open>
  A host that is seen elsewhere less than a minute after it was last seen: the handler raises instead of warning, and the table keeps the old place.
\<close>

theorem recent_move_fails:
  assumes "parse_packet_in env ofp = Inr (Ethernet e n)" "eth_parsed e" "eth_type e \<noteq> 0x88cc"
    and "\<not> isSwitchOnlyPort links dpid (pi_in_port ofp)" "getMacEntry s (eth_src e) = Some m"
    and "\<not> at_location m dpid (pi_in_port ofp) (eth_src e)" "env_now env - lastTimeSeen m < tc_entryMove cfg"
  shows "ht_PacketIn cfg links env dpid ofp s = (Inl TypeError, s)"
  using assms by (simp add: ht_PacketIn_def eth_of_def locate_host_def sm_simps)

text \<open>
  A later move to another port of the switch: the entry keeps the old port, so that the next packet from the new port is a move again, and a recent one.
\<close>

theorem moved_host_keeps_port:
  assumes "parse_packet_in env ofp = Inr (Ethernet e n)" "eth_parsed e" "eth_type e \<noteq> 0x88cc"
    and "\<not> isSwitchOnlyPort links dpid (pi_in_port ofp)" "getMacEntry s (eth_src e) = Some m"
    and "me_port m \<noteq> pi_in_port ofp" "env_now env - lastTimeSeen m \<ge> tc_entryMove cfg"
    and "parse_packet_in env' ofp = Inr (Ethernet e n)" "env_now env' < env_now env + tc_entryMove cfg"
  shows "\<exists>s' m'. ht_PacketIn cfg links env dpid ofp s = (Inr (), s') \<and> getMacEntry s' (eth_src e) = Some m'
    \<and> me_dpid m' = dpid \<and> me_port m' = me_port m \<and> ht_PacketIn cfg links env' dpid ofp s' = (Inl TypeError, s')"
  using assms
  by (auto simp: ht_PacketIn_def eth_of_def locate_host_def set_entry_def refresh_def at_location_def updateIPInfo_def set_ip_def sm_simps Let_def
      split: option.splits)

section \<open>Hosts forgotten\<close>

text \<open>The request that is sent to a host, and the message that carries it\<close>

definition says_ping :: "hwaddr \<Rightarrow> ipval \<Rightarrow> int \<Rightarrow> bytes \<Rightarrow> bool" where
  "says_ping mac ip port b \<longleftrightarrow> (\<exists>m e a. ofp_packet_out_unpack ofp_packet_out_init b = Inr (m, []) \<and> po_actions m = [output_done port] \<and> po_buffer_id m = - 1
     \<and> (\<forall>sb iid rnd. ethernet_new sb iid rnd (po_data m) = Inr (Ethernet e (Arp a (Bytes [])))) \<and> eth_parsed e \<and> eth_type e = 0x0806 \<and> eth_dst e = mac
     \<and> arp_parsed a \<and> arp_opcode a = 1 \<and> arp_hwdst a = mac \<and> arp_protodst a = ip)"

lemma ping_packs:
  assumes "me_macaddr e = HwEth m" "eth_raw_ok (eth_value m)" "ip_wf a"
  shows "\<exists>frame p raw raw'. packet_pack sb None (ping_packet e (IvAddr a)) = Inr (frame, p) \<and> length frame = 42
    \<and> (\<forall>sb iid rnd. ethernet_new sb iid rnd frame = Inr (Ethernet (ethernet_init\<lparr>eth_type := 0x0806, eth_dst := HwEth m, eth_raw := raw, eth_parsed := True\<rparr>)
        (Arp (arp_init\<lparr>arp_opcode := 1, arp_hwdst := HwEth m, arp_protodst := IvAddr a, arp_raw := raw', arp_parsed := True\<rparr>) (Bytes []))))"
proof -
  let ?a = "arp_init\<lparr>arp_opcode := 1, arp_hwdst := HwEth m, arp_protodst := IvAddr a\<rparr>"
  let ?e = "ethernet_init\<lparr>eth_type := 0x0806, eth_dst := HwEth m\<rparr>"
  have z: "eth_raw_ok [0, 0, 0, 0, 0, 0]" by code_simp
  obtain h where h: "arp_hdr ?a = Inr h"
    using assms by (auto simp: arp_hdr_def arp_init_def struct_pack.simps in_range_def ETHER_ANY_def eth_toRaw_def)
  obtain eh where eh: "ethernet_hdr ?e = Inr eh" by (simp add: ethernet_hdr_def struct_pack.simps in_range_def pack_6s_def)
  have plain: "arp_plain ?a" "eth_plain ?e" using assms z by (simp_all add: arp_plain_def eth_plain_def arp_init_def ethernet_init_def ETHER_ANY_def IP_ANY_def zeros_numeral)
  have ah: "length h = 28" "arp_new h = Inr (Arp (?a\<lparr>arp_raw := Some h, arp_parsed := True\<rparr>) (Bytes []))"
    using arp_roundtrip [OF plain(1) h, of "[]"] by simp_all
  have e14: "length eh = 14" using ethernet_parse_hdr [OF plain(2) eh] by blast
  have "\<forall>sb iid rnd. ethernet_new sb iid rnd (eh @ h) = Inr (Ethernet (?e\<lparr>eth_raw := Some (eh @ h), eth_parsed := True\<rparr>)
      (Arp (?a\<lparr>arp_raw := Some h, arp_parsed := True\<rparr>) (Bytes [])))"
    using ethernet_parse_hdr [OF plain(2) eh, of _ _ _ h] ah(2) by (simp add: type_parser_def)
  moreover have "packet_pack sb None (ping_packet e (IvAddr a)) = Inr (eh @ h, ping_packet e (IvAddr a))"
    using eh h assms(1) by (simp add: ping_packet_def with_hdr_def)
  moreover have "length (eh @ h) = 42" using ah(1) e14 by simp
  ultimately show ?thesis by blast
qed

lemma ping_msg_packs:
  assumes "0 \<le> port" "port < 65536" "length frame = 42" "xid_ok nx"
  shows "\<exists>b m m'. ofp_packet_out_pack True nx (ping_msg frame port) = Inr (b, m', snd (generateXID nx))
    \<and> ofp_packet_out_unpack ofp_packet_out_init b = Inr (m, []) \<and> po_actions m = [output_done port] \<and> po_data m = frame \<and> po_buffer_id m = - 1"
proof -
  let ?m = "ping_msg frame port"
  obtain ab where ab: "pack_list pack_action (po_actions ?m) = Inr ab" "length ab = 8"
    using output_action_pack [OF assms(1,2)] by (auto simp: ping_msg_def output_to_def)
  have f: "xid ?m = None" "version ?m = OFP_VERSION" "header_type ?m = OFPT_PACKET_OUT" "po_buffer_id ?m = - 1"
    "0 \<le> po_in_port ?m" "po_in_port ?m < 65536" "po_data ?m = frame" "po_actions ?m = [output_to port]"
    by (simp_all add: ping_msg_def ofp_packet_out_init_def)
  have wf: "list_all action_wf (po_actions ?m)" using f(8) assms(1,2) by (simp add: output_to_wf)
  obtain b m' m1 where b: "ofp_packet_out_pack True nx ?m = Inr (b, m', snd (generateXID nx))"
    "\<forall>y rest. ofp_packet_out_unpack y (b @ rest) = Inr (m1, rest)" "po_actions m1 = map action_norm (po_actions ?m)"
    "po_data m1 = po_data ?m" "po_buffer_id m1 = po_buffer_id ?m"
    using packet_out_reads [OF f(1-3) ab(1) wf, of nx] f assms ab(2) by auto
  have "ofp_packet_out_unpack ofp_packet_out_init b = Inr (m1, [])" using b(2) [rule_format, of ofp_packet_out_init "[]"] by simp
  moreover have "po_actions m1 = [output_done port]" using b(3) f(8) by (simp add: output_to_def output_done_def)
  ultimately show ?thesis using b(1,4,5) f by auto
qed

text \<open>
  The host of the theorem: it has one address that is past its time, on a switch with a connection.
\<close>

definition pingable :: "(dpid \<Rightarrow> nat option) \<Rightarrow> nat \<Rightarrow> hwaddr \<Rightarrow> ipval \<Rightarrow> mac_entry \<Rightarrow> bool" where
  "pingable cons c mac ip e \<longleftrightarrow> cons (me_dpid e) = Some c \<and> 0 \<le> me_port e \<and> me_port e < 65536 \<and> me_macaddr e = mac
     \<and> (case mac of HwEth m \<Rightarrow> eth_raw_ok (eth_value m) | _ \<Rightarrow> False) \<and> (case ip of IvAddr a \<Rightarrow> ip_wf a | _ \<Rightarrow> False)"

definition can_send :: "nat \<Rightarrow> host_tracker \<Rightarrow> bool" where
  "can_send c s \<longleftrightarrow> xid_ok (nx_nextXID s) \<and> c \<notin> set (nx_disconnected s)"

lemma sendPing_sends:
  assumes "getMacEntry s mac = Some e" "pingable cons c mac ip e" "can_send c s" "map_of (me_ipAddrs e) ip = Some i"
  shows "\<exists>b. says_ping mac ip (me_port e) b \<and> sendPing cons env mac ip s = (Inr (), s\<lparr>nx_sent := nx_sent s @ [(c, b)], nx_nextXID := snd (generateXID (nx_nextXID s)),
    ht_entries := AList.update mac (set_ip ip (i\<lparr>ie_pings := ping_sent (env_now env) (ie_pings i)\<rparr>) e) (ht_entries s)\<rparr>)"
proof -
  obtain m a where ma: "mac = HwEth m" "eth_raw_ok (eth_value m)" "ip = IvAddr a" "ip_wf a"
    using assms(2) by (auto simp: pingable_def split: hwaddr.splits ipval.splits)
  have mac: "me_macaddr e = HwEth m" using ma(1) assms(2) by (simp add: pingable_def)
  obtain frame p raw raw' where f: "packet_pack (env_subs env) None (ping_packet e ip) = Inr (frame, p)" "length frame = 42"
    and new: "\<forall>sb iid rnd. ethernet_new sb iid rnd frame = Inr (Ethernet (ethernet_init\<lparr>eth_type := 0x0806, eth_dst := HwEth m, eth_raw := raw, eth_parsed := True\<rparr>)
        (Arp (arp_init\<lparr>arp_opcode := 1, arp_hwdst := HwEth m, arp_protodst := IvAddr a, arp_raw := raw', arp_parsed := True\<rparr>) (Bytes [])))"
    using ping_packs [OF mac ma(2,4), of "env_subs env"] ma(3) by blast
  obtain b m1 m' where b: "ofp_packet_out_pack True (nx_nextXID s) (ping_msg frame (me_port e)) = Inr (b, m', snd (generateXID (nx_nextXID s)))"
    "ofp_packet_out_unpack ofp_packet_out_init b = Inr (m1, [])" "po_actions m1 = [output_done (me_port e)]" "po_data m1 = frame" "po_buffer_id m1 = - 1"
    using ping_msg_packs [of "me_port e" frame "nx_nextXID s"] f(2) assms(2,3) by (auto simp: pingable_def can_send_def)
  have says: "says_ping mac ip (me_port e) b"
    unfolding says_ping_def b(4) ma(1,3) by (intro exI conjI, rule b(2), rule b(3), rule b(5), unfold b(4), rule new) simp_all
  let ?s1 = "s\<lparr>nx_nextXID := snd (generateXID (nx_nextXID s))\<rparr>"
  let ?s2 = "?s1\<lparr>nx_sent := nx_sent s @ [(c, b)]\<rparr>"
  have g: "getMacEntry ?s2 mac = Some e" using assms(1) by (simp add: getMacEntry_def)
  have "pack_packet_out (ping_msg frame (me_port e)) s = (Inr b, ?s1)" using b(1) by (simp add: pack_packet_out_def sm_simps)
  moreover have "send_bytes c b ?s1 = (Inr (), ?s2)" using assms(3) by (cases s) (simp add: send_bytes_def connection_send_def can_send_def sm_simps)
  moreover have "change_entry mac (sent_ip (env_now env) ip) ?s2
      = (Inr (), ?s2\<lparr>ht_entries := AList.update mac (set_ip ip (i\<lparr>ie_pings := ping_sent (env_now env) (ie_pings i)\<rparr>) e) (ht_entries s)\<rparr>)"
    using g assms(4) by (simp add: change_entry_apply sent_ip_def)
  moreover have "entry mac s = (Inr e, s)" using assms(1) by (simp add: entry_def need_def sm_simps)
  ultimately have "sendPing cons env mac ip s
      = (Inr (), ?s2\<lparr>ht_entries := AList.update mac (set_ip ip (i\<lparr>ie_pings := ping_sent (env_now env) (ie_pings i)\<rparr>) e) (ht_entries s)\<rparr>)"
    using assms(2) f(1) by (simp add: sendPing_def pingable_def sm_simps)
  then show ?thesis using says by (cases s) auto
qed

text \<open>One check of a host that does not answer: it is asked again, and the question is counted twice.\<close>

definition asked :: "int \<Rightarrow> ip_entry \<Rightarrow> ip_entry" where
  "asked now i = i\<lparr>ie_pings := ping_sent now (ping_sent now (ie_pings i))\<rparr>"

lemma asked_fields [simp]:
  "pc_pending (ie_pings (asked now i)) = pc_pending (ie_pings i) + 2" "expired t (asked now i) = expired t i"
  by (cases i; simp add: asked_def ping_sent_def refresh_def expired_def)+

lemma check_asks:
  assumes "getMacEntry s mac = Some e" "pingable cons c mac ip e" "can_send c s" "me_ipAddrs e = [(ip, i)]"
    and "expired (env_now env) i" "\<not> ping_failed cfg (ie_pings i)"
  shows "\<exists>b s'. check_entry cfg cons env mac s = (Inr (), s') \<and> nx_sent s' = nx_sent s @ [(c, b)] \<and> says_ping mac ip (me_port e) b \<and> can_send c s'
    \<and> getMacEntry s' mac = Some (e\<lparr>me_ipAddrs := [(ip, asked (env_now env) i)]\<rparr>)"
proof -
  let ?i = "i\<lparr>ie_pings := ping_sent (env_now env) (ie_pings i)\<rparr>" and ?e = "e\<lparr>me_ipAddrs := [(ip, asked (env_now env) i)]\<rparr>"
  have e: "entry mac t = (Inr x, t)" if "getMacEntry t mac = Some x" for t x using that by (simp add: entry_def need_def sm_simps)
  obtain b where says: "says_ping mac ip (me_port e) b" and b: "sendPing cons env mac ip s = (Inr (), s\<lparr>nx_sent := nx_sent s @ [(c, b)], nx_nextXID := snd (generateXID (nx_nextXID s)),
      ht_entries := AList.update mac (e\<lparr>me_ipAddrs := [(ip, ?i)]\<rparr>) (ht_entries s)\<rparr>)" (is "_ = (_, ?s1)")
    using sendPing_sends [OF assms(1-3), of i env] assms(4) by (auto simp: set_ip_def)
  let ?s2 = "?s1\<lparr>ht_entries := AList.update mac ?e (ht_entries ?s1)\<rparr>"
  have g1: "getMacEntry ?s1 mac = Some (e\<lparr>me_ipAddrs := [(ip, ?i)]\<rparr>)" by (simp add: getMacEntry_def update_conv')
  have g2: "getMacEntry ?s2 mac = Some ?e" by (simp add: getMacEntry_def update_conv')
  have "change_entry mac (\<lambda>e. Inr (mark_ip (env_now env) ip e)) ?s1 = (Inr (), ?s2)"
    by (simp only: change_entry_apply g1) (simp add: mark_ip_def set_ip_def asked_def)
  then have "check_ip_entry cfg cons env mac (ip, i) s = (Inr True, ?s2)"
    using b assms(5,6) by (simp add: check_ip_entry_def sm_simps)
  then have "check_entry cfg cons env mac s = (Inr (), ?s2)"
    using e [OF assms(1)] e [OF g2] assms(4) by (simp add: check_entry_def sm_simps)
  moreover have "can_send c ?s2" using assms(3) generateXID_ok by (simp add: can_send_def)
  ultimately show ?thesis using g2 says by auto
qed

text \<open>The check after the questions are used up: the address goes, and with it the host.\<close>

lemma check_forgets:
  assumes "getMacEntry s mac = Some e" "me_macaddr e = mac" "me_ipAddrs e = [(ip, i)]"
    and "expired (env_now env) i" "ping_failed cfg (ie_pings i)" "expired (env_now env) e"
  shows "\<exists>s'. check_entry cfg cons env mac s = (Inr (), s') \<and> nx_sent s' = nx_sent s \<and> getMacEntry s' mac = None"
proof -
  let ?e = "e\<lparr>me_ipAddrs := []\<rparr>"
  let ?s = "s\<lparr>ht_entries := AList.update mac ?e (ht_entries s)\<rparr>"
  have e: "entry mac t = (Inr x, t)" if "getMacEntry t mac = Some x" for t x using that by (simp add: entry_def need_def sm_simps)
  have g: "getMacEntry ?s mac = Some ?e" by simp
  let ?s' = "?s\<lparr>ht_entries := AList.delete mac (ht_entries ?s)\<rparr>"
  have "check_ip_entry cfg cons env mac (ip, i) s = (Inr False, ?s)"
    using assms by (simp add: check_ip_entry_def change_entry_apply del_ip_def sm_simps)
  then have "check_ip_entries cfg cons env mac (me_ipAddrs e) False s = (Inr False, ?s)" using assms(3) by (simp add: sbind_def sret_def)
  moreover have "forget_entry mac ?s = (Inr (), ?s')" using e [OF g] by (simp add: forget_entry_def sbind_Inr smod_apply)
  moreover have "expired (env_now env) ?e" using assms(6) by (simp add: expired_def)
  ultimately have "check_entry cfg cons env mac s = (Inr (), ?s')"
    using e [OF assms(1)] e [OF g] assms(2) by (simp add: check_entry_def sbind_def sthen_Inr [OF sret_apply])
  moreover have "nx_sent ?s' = nx_sent s" "getMacEntry ?s' mac = None" by (simp_all add: getMacEntry_def delete_conv')
  ultimately show ?thesis by blast
qed

lemma sfor_snoc: "sfor f xs s = (Inr (), s') \<Longrightarrow> sfor f (xs @ [x]) s = f x s'"
  by (induction xs arbitrary: s) (auto simp: sthen_def sbind_def sret_def split: prod.splits sum.splits)

lemma pingable_ips [simp]: "pingable cons c mac ip (e\<lparr>me_ipAddrs := l\<rparr>) = pingable cons c mac ip e"
  by (simp add: pingable_def)

text \<open>After each of the first checks: one more message, and the host is still known.\<close>

definition asked_each :: "tracker_config \<Rightarrow> (dpid \<Rightarrow> nat option) \<Rightarrow> nat \<Rightarrow> hwaddr \<Rightarrow> swenv list \<Rightarrow> bytes list \<Rightarrow> host_tracker \<Rightarrow> bool" where
  "asked_each cfg cons c mac envs bs s \<longleftrightarrow> (\<forall>n\<le>length envs. \<exists>s'. sfor (\<lambda>env. check_entry cfg cons env mac) (take n envs) s = (Inr (), s')
     \<and> nx_sent s' = nx_sent s @ map (Pair c) (take n bs) \<and> getMacEntry s' mac \<noteq> None)"

lemma asked_each_Cons:
  assumes "check_entry cfg cons env mac s = (Inr (), s1)" "nx_sent s1 = nx_sent s @ [(c, b)]" "asked_each cfg cons c mac envs bs s1" "getMacEntry s mac \<noteq> None"
  shows "asked_each cfg cons c mac (env # envs) (b # bs) s"
  unfolding asked_each_def
proof (intro allI impI)
  fix n assume n: "n \<le> length (env # envs)"
  show "\<exists>s'. sfor (\<lambda>env. check_entry cfg cons env mac) (take n (env # envs)) s = (Inr (), s')
     \<and> nx_sent s' = nx_sent s @ map (Pair c) (take n (b # bs)) \<and> getMacEntry s' mac \<noteq> None"
  proof (cases n)
    case 0
    then show ?thesis using assms(4) by (simp add: sret_def)
  next
    case (Suc k)
    then obtain s' where "sfor (\<lambda>env. check_entry cfg cons env mac) (take k envs) s1 = (Inr (), s')"
      "nx_sent s' = nx_sent s1 @ map (Pair c) (take k bs)" "getMacEntry s' mac \<noteq> None"
      using assms(3) n unfolding asked_each_def by auto
    then show ?thesis using Suc assms(1,2) by (intro exI [of _ s']) (simp add: sm_simps)
  qed
qed

lemma checks_ask:
  assumes "getMacEntry s mac = Some e" "pingable cons c mac ip e" "can_send c s" "me_ipAddrs e = [(ip, i)]"
    and "\<forall>env \<in> set envs. expired (env_now env) i" "pc_pending (ie_pings i) + 2 * int (length envs) \<le> tc_pingLim cfg + 2"
  shows "\<exists>bs s' i'. sfor (\<lambda>env. check_entry cfg cons env mac) envs s = (Inr (), s') \<and> nx_sent s' = nx_sent s @ map (Pair c) bs
    \<and> length bs = length envs \<and> list_all (says_ping mac ip (me_port e)) bs \<and> asked_each cfg cons c mac envs bs s \<and> getMacEntry s' mac = Some (e\<lparr>me_ipAddrs := [(ip, i')]\<rparr>)
    \<and> pc_pending (ie_pings i') = pc_pending (ie_pings i) + 2 * int (length envs) \<and> (\<forall>t. expired t i' = expired t i)"
  using assms
proof (induction envs arbitrary: s e i)
  case Nil
  then show ?case by (auto simp: sm_simps asked_each_def intro!: exI [of _ i])
next
  case (Cons env envs)
  have "\<not> ping_failed cfg (ie_pings i)" using Cons.prems(6) by (simp add: ping_failed_def)
  then obtain b s1 where s1: "check_entry cfg cons env mac s = (Inr (), s1)" "nx_sent s1 = nx_sent s @ [(c, b)]" "can_send c s1" "says_ping mac ip (me_port e) b"
    "getMacEntry s1 mac = Some (e\<lparr>me_ipAddrs := [(ip, asked (env_now env) i)]\<rparr>)"
    using check_asks [OF Cons.prems(1-4), of env cfg] Cons.prems(5) by auto
  obtain bs s' i' where r: "sfor (\<lambda>env. check_entry cfg cons env mac) envs s1 = (Inr (), s')" "nx_sent s' = nx_sent s1 @ map (Pair c) bs"
    "length bs = length envs" "list_all (says_ping mac ip (me_port e)) bs" "asked_each cfg cons c mac envs bs s1"
    "getMacEntry s' mac = Some (e\<lparr>me_ipAddrs := [(ip, i')]\<rparr>)" "pc_pending (ie_pings i') = pc_pending (ie_pings i) + 2 + 2 * int (length envs)" "\<forall>t. expired t i' = expired t i"
    using Cons.IH [OF s1(5), of "asked (env_now env) i"] Cons.prems(2,5,6) s1(3) by auto
  moreover have "asked_each cfg cons c mac (env # envs) (b # bs) s" using asked_each_Cons [OF s1(1,2) r(5)] Cons.prems(1) by simp
  ultimately show ?case using s1(1,2,4) by (auto simp: sm_simps intro!: exI [of _ "b # bs"] exI [of _ i'])
qed

text \<open>
  C39: A silent host is asked and forgotten.  The host has one network address, past its time, and a switch with a connection; no question to it is
  open.  Each of the next \<open>pingLim div 2 + 1\<close> checks, not \<open>pingLim\<close> as the comment has it, sends one packet-out, to the port of the host, with an
  ARP request for the address to the host, and keeps the host; the check after these sends nothing and forgets the host.
\<close>

theorem silent_host_forgotten:
  assumes "getMacEntry s mac = Some e" "pingable cons c mac ip e" "can_send c s" "me_ipAddrs e = [(ip, i)]" "pc_pending (ie_pings i) = 0"
    and "\<forall>env \<in> set (env1 # envs). expired (env_now env) i" "expired (env_now env1) e"
    and "0 \<le> tc_pingLim cfg" "int (length envs) = tc_pingLim cfg div 2 + 1"
  shows "\<exists>bs s'. length bs = length envs \<and> list_all (says_ping mac ip (me_port e)) bs
    \<and> (\<forall>n\<le>length envs. \<exists>s'. sfor (\<lambda>env. check_entry cfg cons env mac) (take n envs) s = (Inr (), s')
        \<and> nx_sent s' = nx_sent s @ map (Pair c) (take n bs) \<and> getMacEntry s' mac \<noteq> None)
    \<and> sfor (\<lambda>env. check_entry cfg cons env mac) (envs @ [env1]) s = (Inr (), s') \<and> nx_sent s' = nx_sent s @ map (Pair c) bs
    \<and> getMacEntry s' mac = None"
proof -
  have "pc_pending (ie_pings i) + 2 * int (length envs) \<le> tc_pingLim cfg + 2" using assms(5,9) by simp
  then obtain bs s1 i' where r: "sfor (\<lambda>env. check_entry cfg cons env mac) envs s = (Inr (), s1)" "nx_sent s1 = nx_sent s @ map (Pair c) bs"
    "length bs = length envs" "list_all (says_ping mac ip (me_port e)) bs" "asked_each cfg cons c mac envs bs s"
    "getMacEntry s1 mac = Some (e\<lparr>me_ipAddrs := [(ip, i')]\<rparr>)"
    "pc_pending (ie_pings i') = pc_pending (ie_pings i) + 2 * int (length envs)" "\<forall>t. expired t i' = expired t i"
    using checks_ask [OF assms(1-4), of envs cfg] assms(6) by auto
  have "ping_failed cfg (ie_pings i')" using r(7) assms(5,9) by (simp add: ping_failed_def)
  moreover have "expired (env_now env1) (e\<lparr>me_ipAddrs := [(ip, i')]\<rparr>)" using assms(7) by (simp add: expired_def)
  moreover have "me_macaddr (e\<lparr>me_ipAddrs := [(ip, i')]\<rparr>) = mac" using assms(2) by (simp add: pingable_def)
  ultimately obtain s' where "check_entry cfg cons env1 mac s1 = (Inr (), s')" "nx_sent s' = nx_sent s1" "getMacEntry s' mac = None"
    using check_forgets [OF r(6), of ip i' env1 cfg cons] r(8) assms(6) by auto
  then show ?thesis using r(2-5) sfor_snoc [OF r(1), of env1] unfolding asked_each_def by (intro exI [of _ bs] exI [of _ s']) simp
qed

definition silent_host :: mac_entry where
  "silent_host = (MacEntry_init 0 1 2 (HwEth (EthAddr [0, 0, 0, 0, 0, 9])))\<lparr>me_ipAddrs := [(IvAddr (ip_of_int 0x0a000001), IpEntry_init timeoutSec 0 True)]\<rparr>"

theorem silent_host_forgotten_witness:
  "let mac = HwEth (EthAddr [0, 0, 0, 0, 0, 9]); env = demo_env\<lparr>env_now := 200\<rparr>; s = (host_tracker_init 1)\<lparr>ht_entries := [(mac, silent_host)]\<rparr> in
   \<exists>b b' s'. sfor (\<lambda>env. check_entry timeoutSec [1 \<mapsto> 7] env mac) [env, env, env] s = (Inr (), s') \<and> nx_sent s' = [(7, b), (7, b')]
     \<and> says_ping mac (IvAddr (ip_of_int 0x0a000001)) 2 b \<and> says_ping mac (IvAddr (ip_of_int 0x0a000001)) 2 b' \<and> getMacEntry s' mac = None"
proof -
  let ?mac = "HwEth (EthAddr [0, 0, 0, 0, 0, 9])" and ?env = "demo_env\<lparr>env_now := 200\<rparr>" and ?ip = "IvAddr (ip_of_int 0x0a000001)"
  let ?s = "(host_tracker_init 1)\<lparr>ht_entries := [(?mac, silent_host)]\<rparr>" and ?i = "IpEntry_init timeoutSec 0 True"
  have "eth_raw_ok [0, 0, 0, 0, 0, 9]" by code_simp
  then have h: "getMacEntry ?s ?mac = Some silent_host" "pingable [1 \<mapsto> 7] 7 ?mac ?ip silent_host" "can_send 7 ?s" "me_ipAddrs silent_host = [(?ip, ?i)]"
    "pc_pending (ie_pings ?i) = 0" "\<forall>env \<in> set (?env # [?env, ?env]). expired (env_now env) ?i" "expired (env_now ?env) silent_host"
    "0 \<le> tc_pingLim timeoutSec" "int (length [?env, ?env]) = tc_pingLim timeoutSec div 2 + 1" "nx_sent ?s = []" "me_port silent_host = 2"
    by (simp_all add: getMacEntry_def pingable_def can_send_def silent_host_def MacEntry_init_def IpEntry_init_def PingCtrl_init_def expired_def
        timeoutSec_def host_tracker_init_def xid_ok_def)
  obtain bs s' where r: "length bs = length [?env, ?env]" "list_all (says_ping ?mac ?ip (me_port silent_host)) bs"
    "sfor (\<lambda>env. check_entry timeoutSec [1 \<mapsto> 7] env ?mac) ([?env, ?env] @ [?env]) ?s = (Inr (), s')"
    "nx_sent s' = nx_sent ?s @ map (Pair 7) bs" "getMacEntry s' ?mac = None"
    using silent_host_forgotten [OF h(1-9)] by blast
  obtain b b' where "bs = [b, b']" using r(1) by (auto simp: length_Suc_conv numeral_2_eq_2)
  then show ?thesis using r(2-5) h(10,11) unfolding Let_def by auto
qed

text \<open>
  A host past its time that has two addresses still within theirs, as silent ones are for twenty minutes: the check raises \<open>KeyError\<close> after the
  first deletion, and the host stays.
\<close>

theorem two_addresses_left_fail:
  assumes "getMacEntry s mac = Some e" "me_ipAddrs e = [(ip1, i1), (ip2, i2)]" "ip1 \<noteq> ip2"
    and "\<not> expired (env_now env) i1" "\<not> expired (env_now env) i2" "expired (env_now env) e"
  shows "\<exists>s'. check_entry cfg cons env mac s = (Inl KeyError, s') \<and> getMacEntry s' mac = Some (e\<lparr>me_ipAddrs := [(ip1, i1)]\<rparr>)"
proof -
  have e: "entry mac s = (Inr e, s)" using assms(1) by (simp add: entry_def need_def sm_simps)
  show ?thesis using assms by (simp add: check_entry_def check_ip_entry_def e sm_simps delete_rest_def change_entry_apply del_ip_def)
qed

end
