(* ===== verification/Spec2Isabelle.thy ===== *)
theory Spec2Isabelle
  imports Nom_Flow_Table Bridge_Laws L2_Multi_Laws L2_Network Spanning_Tree_Laws Controller_Handshake Controller_Stats Deferred_Sender L3_Learning_Laws Host_Tracker_Laws
begin

text \<open>
  \<^bold>\<open>A verification library for the POX OpenFlow code of the course repository.\<close>

  The program is the networking project under \<open>src/Project-4\<close>: the Python OpenFlow platform POX
  (\<open>pox/pox\<close>), the course's bridge between an OpenFlow switch and a virtual router
  (\<open>pox_module/CSE425\<close>) and the length-type protocol library that bridge speaks (\<open>ltprotocol\<close>).
  Frames arrive at a switch; the switch looks them up in its flow table and sends what it does not know to the
  controller as OpenFlow messages; applications on the controller answer with flow modifications and packets out.
  The bridge is such an application: it passes every frame on to the router process and sends the router's frames
  out of the switch.

  \<^bold>\<open>Conventions.\<close>
  Python's integers are \<open>int\<close>, byte strings are lists of 8-bit words, an instance of a class is a
  \<open>record\<close>, a value of one of several classes a \<open>datatype\<close>.  A method that may raise returns
  \<open>'a res\<close> (\<open>Inl\<close> the exception, theory \<open>Pox_Prelude\<close>); a method that changes an object
  and may raise is a function of type \<open>('s, 'a) sm\<close> (theory \<open>Py_State\<close>), in which what was done
  before a \<open>raise\<close> stays done.  Dictionaries whose order can be seen are association lists.
  Code outside the repository and values that come from the outside (time, random numbers, the order of a
  dictionary, the classes of the packet library that are not modelled) are arguments of the definitions.
  Methods that only print or log are left out, and so are the log messages of the others.  One of them matters and is modelled, the text of a
  frame that \<open>srhandler.py\<close> prints before it sends the frame on: making it may raise (\<open>packet_str\<close>).

  \<^bold>\<open>Theories.\<close>
  \<^item> \<open>Pox_Prelude\<close>, \<open>Py_Struct\<close>, \<open>Py_State\<close>: exceptions, results, slices, decimal and hexadecimal
    text; Python's \<open>struct.pack\<close> and \<open>unpack\<close> with the interface \<open>wire_codec\<close> of everything
    that has a wire format; operations on an object with the calculus of invariants (\<open>keeps\<close>) and of operations
    that do not look at a part of the state (\<open>commutes\<close>).
  \<^item> \<open>Addresses\<close>: \<open>lib/addresses.py\<close>, \<open>EthAddr\<close> and \<open>IPAddr\<close>.  Text and integer round
    trips; networks with a prefix length, a netmask or a class are read as they are written.
  \<^item> \<open>Packets\<close>, \<open>Packet_Laws\<close>: the header classes of \<open>lib/packet\<close>, parsed and packed.
    Checksums verify, frames survive packing and parsing, \<open>find\<close> finds what is there.
    Printing a packet is modelled only as far as it may raise.
  \<^item> \<open>Of_Core\<close>, \<open>Of_Action\<close>, \<open>Of_Match\<close>, \<open>Of_Match_Laws\<close>, \<open>Of_Messages\<close>,
    \<open>Of_Flow_Messages\<close>: \<open>openflow/libopenflow_01.py\<close>.  Transaction identifiers, the action classes, the
    match with its wildcards and its order (\<open>matches_with_wildcards\<close> is transitive), messages with their round
    trips and the places where the code breaks them.  The interface \<open>match_attr\<close> states what an attribute of a
    match promises and is interpreted for each of them.
  \<^item> \<open>Flow_Table\<close>, \<open>Nom_Flow_Table\<close>: \<open>openflow/flow_table.py\<close>.  The table stays sorted by priority, the
    lookup finds an entry of highest priority, adding, modifying, deleting and expiry do what they say or where they do
    not; the copy of a table that the controller keeps.  The interface \<open>scan\<close> (the first element a fallible test
    accepts) is interpreted for both lookups.
  \<^item> \<open>Switch_Impl\<close>, \<open>Switch_Laws\<close>: \<open>openflow/switch_impl.py\<close> with the connection class of
    \<open>openflow/util.py\<close> and the buffers of \<open>lib/ioworker\<close>.  The software switch, its invariant over all
    reachable states, table miss, flooding, buffering, and the reading loop.
  \<^item> \<open>Lt_Protocol\<close>: \<open>ltprotocol/ltprotocol/ltprotocol.py\<close>.  Frames with a length and a type; the interface
    \<open>lt_messages\<close> states what a protocol's messages promise and proves that a stream of them is delivered in order
    however the network cuts it.
  \<^item> \<open>Vns_Protocol\<close>: \<open>pox_module/CSE425/VNSProtocol.py\<close>, which interprets that interface.
  \<^item> \<open>Vns_Bridge\<close>, \<open>Bridge_Laws\<close>: \<open>ofhandler.py\<close> and \<open>srhandler.py\<close>.  Frames pass unchanged in both
    directions, the session of a client, the invariant of all reachable states, and the requests that raise.
  \<^item> \<open>Of_Connection\<close>, \<open>Packet_Out_Laws\<close>: what applications use of a connection (\<open>Connection.send\<close> of
    \<open>openflow/of_01.py\<close>, \<open>PacketIn.parse\<close>), and what a packet-out does to the software switch.
  \<^item> \<open>Revent\<close>, \<open>Revent_Laws\<close>: \<open>lib/revent/revent.py\<close>.  Listeners stay in the order of their priorities, raising an
    event ends and reaches the listeners of that moment, weak listeners go with their object, and the case in which it does not end.
  \<^item> \<open>Of_Controller\<close>, \<open>Of_Controller_Laws\<close>, \<open>Controller_Learning\<close>, \<open>Controller_Handshake\<close>, \<open>Controller_Stats\<close>: the controller's side
    of a connection (\<open>openflow/of_01.py\<close>, \<open>openflow/__init__.py\<close>, \<open>openflow/connection_arbiter.py\<close>) on top of the events.
    Reading in any cut, the handshake, statistics in parts, and a learning switch attached to it.
  \<^item> \<open>Deferred_Sender\<close>: the thread of \<open>of_01.py\<close> that writes what a socket did not take; the bytes stay in order.
  \<^item> \<open>L2_Learning\<close>, \<open>L2_Learning_Laws\<close>: \<open>forwarding/l2_learning.py\<close>.  After any history of packets its messages, read from their
    bytes, are those the algorithm of its comment has, with the two differences the theorem names; and the software switch that reads the flow for a
    learned address has the entry in its table and sends the packet out of the learned port.
  \<^item> \<open>L2_Paths\<close>, \<open>L2_Multi\<close>, \<open>L2_Multi_Laws\<close>: \<open>forwarding/l2_multi.py\<close>.  Its table holds the shortest distances, its paths are
    shortest routes, flows go to every hop, link events are handled in every reachable state.
  \<^item> \<open>Lldp\<close>, \<open>Lldp_Laws\<close>: \<open>lib/packet/lldp.py\<close>, with the round trip of its items.
  \<^item> \<open>Discovery\<close>, \<open>Discovery_Packets\<close>, \<open>Discovery_Laws\<close>: \<open>openflow/discovery.py\<close>.  A discovery packet finds the link it
    crosses, the sender goes round; the interface \<open>link_mirror\<close> states what a listener of link events promises.
  \<^item> \<open>L2_Network\<close>: discovery and \<open>l2_multi\<close> on one nexus, which interprets that interface: the graph of \<open>l2_multi\<close> is the one
    that was discovered.
  \<^item> \<open>Spanning_Tree\<close>, \<open>Spanning_Tree_Laws\<close>: \<open>openflow/spanning_tree.py\<close>.  The tree has no cycle and spans; by the last
    message to each port, read from its bytes, broadcasts do not loop.
  \<^item> \<open>L3_Learning\<close>, \<open>L3_Learning_Laws\<close>: \<open>forwarding/l3_learning.py\<close>.  Its table holds where each address was last seen; with the software
    switch, an ARP request it can answer is answered at the asking port.
  \<^item> \<open>Host_Tracker\<close>, \<open>Host_Tracker_Laws\<close>: \<open>host_tracker/host_tracker.py\<close>.  Its table keeps its form, new hosts are found, silent hosts are
    asked and forgotten, and the moves and expiries that raise.

  \<^bold>\<open>Bounds and fuel.\<close>
  The loop that counts the bits of a netmask gets 33 turns, one more than an address has bits.  The reading loop of the
  switch gets as many turns as the buffer has bytes, plus one: every turn but the last consumes a message, and a message
  with a positive length consumes a byte; a message that claims the length zero makes the Python loop turn for ever,
  which the model shows as running out of any number of turns.  The reading loop of the controller is the same.
  The recursion of the path query of \<open>l2_multi\<close> gets a depth: the number of switches is enough, as is proved.  The loop that
  raises an event gets more turns than there are listeners, which is enough when handlers add none.  A handler that a handler's
  event calls is followed to the depth two, the deepest the handshake has.  The parsers of TCP options, of packets, of statistics and
  of LLDP items, the slicing of the deferred sender and the search of the spanning tree end by a measure.

  \<^bold>\<open>Not modelled.\<close>
  The \<open>show\<close> and logging methods, and the text the \<open>__str__\<close> methods make; sockets, the \<open>select\<close> loop, threads other than the interleaving of the deferred sender,
  and the cooperative scheduler \<open>lib/recoco\<close>; the messenger, web and graphical services, \<open>core.py\<close>, the launcher and the
  tools, which are input and output; the file of vendor names in \<open>addresses.py\<close>; the parsers of DNS, DHCP and EAP and their printing, which are a
  parameter of the packet library; the queue configuration messages of OpenFlow.
\<close>

end
